(* ===== verification/Prelude.thy ===== *)
theory Prelude
  imports Main "HOL-Library.AList" "HOL-Library.List_Lexorder" "HOL-Library.Char_ord"
begin

text \<open>
  What every component of the development shares: the result type of code that may raise,
  Python's insertion-ordered dictionaries as association lists, the small string routines the
  sources use (\<open>str.partition\<close>, \<open>str.isdigit\<close>, \<open>str.split\<close>, decimal printing), and the
  collections of rewrite rules the component proofs are built from.
\<close>

named_theorems outcome_simps \<open>inversion of computations that may raise\<close>
named_theorems dict_simps \<open>look-up, keys and values of updated dictionaries\<close>

section \<open>Computations that may raise\<close>

text \<open>
  A Python function that may raise returns \<open>py_error + 'a\<close>: \<open>Inl\<close> is the exception, whose
  string names the guard that raised it. A pydantic validation failure is \<open>ValidationError\<close>.
\<close>

datatype py_error =
    ValueError string
  | KeyError string
  | ValidationError string
  | OverflowError string
  | ArithmeticError string
  | IndexError
  | TypeError
  | AttributeError
  | StopIteration

type_synonym 'a outcome = "py_error + 'a"

definition and_then :: "'a outcome \<Rightarrow> ('a \<Rightarrow> 'b outcome) \<Rightarrow> 'b outcome" where
  "and_then m f = (case m of Inl e \<Rightarrow> Inl e | Inr x \<Rightarrow> f x)"

definition check :: "bool \<Rightarrow> py_error \<Rightarrow> 'a \<Rightarrow> 'a outcome" where
  "check ok e x = (if ok then Inr x else Inl e)"

definition succeeds :: "'e + 'a \<Rightarrow> bool" where
  "succeeds r = (case r of Inl _ \<Rightarrow> False | Inr _ \<Rightarrow> True)"

lemma and_then_Inr [simp]: "and_then (Inr x) f = f x"
  by (simp add: and_then_def)

lemma and_then_Inl [simp]: "and_then (Inl e) f = Inl e"
  by (simp add: and_then_def)

lemma and_then_eq_Inr [outcome_simps]:
  "and_then m f = Inr y \<longleftrightarrow> (\<exists>x. m = Inr x \<and> f x = Inr y)"
  by (cases m) (simp_all add: and_then_def)

lemma if_Inl_eq_Inr [outcome_simps]:
  "(if c then Inl e else m) = Inr y \<longleftrightarrow> \<not> c \<and> m = Inr y"
  by simp

lemma check_eq_Inr [outcome_simps]: "check ok e x = Inr y \<longleftrightarrow> ok \<and> y = x"
  by (auto simp: check_def)

lemma check_True [simp]: "check True e x = Inr x"
  by (simp add: check_def)

lemma succeeds_iff: "succeeds r \<longleftrightarrow> (\<exists>x. r = Inr x)"
  by (cases r) (simp_all add: succeeds_def)

text \<open>\<open>[f(x) for x in xs]\<close>, which stops at the first \<open>f(x)\<close> that raises.\<close>

fun map_outcome :: "('a \<Rightarrow> 'b outcome) \<Rightarrow> 'a list \<Rightarrow> 'b list outcome" where
  "map_outcome f [] = Inr []"
| "map_outcome f (x # xs) = and_then (f x) (\<lambda>y. and_then (map_outcome f xs) (\<lambda>ys. Inr (y # ys)))"

lemma map_outcome_Inr: "map_outcome f xs = Inr ys \<longleftrightarrow> list_all2 (\<lambda>x y. f x = Inr y) xs ys"
proof (induction xs arbitrary: ys)
  case Nil
  then show ?case by auto
next
  case (Cons x xs)
  then show ?case by (cases ys) (auto simp: and_then_eq_Inr)
qed

section \<open>Insertion-ordered dictionaries\<close>

text \<open>
  A Python dictionary keeps its keys in insertion order and code iterates over it in that
  order; \<open>d[k] = v\<close> keeps the place of a present key and appends a new one, which is
  \<open>AList.update\<close>. Look-up is \<open>map_of\<close> and \<open>{k: v for ... if k != x}\<close> is \<open>AList.delete\<close>.
\<close>

type_synonym ('k, 'v) dict = "('k \<times> 'v) list"

abbreviation dget :: "('k, 'v) dict \<Rightarrow> 'k \<Rightarrow> 'v option" where
  "dget \<equiv> map_of"

abbreviation dput :: "'k \<Rightarrow> 'v \<Rightarrow> ('k, 'v) dict \<Rightarrow> ('k, 'v) dict" where
  "dput \<equiv> AList.update"

abbreviation ddel :: "'k \<Rightarrow> ('k, 'v) dict \<Rightarrow> ('k, 'v) dict" where
  "ddel \<equiv> AList.delete"

abbreviation dkeys :: "('k, 'v) dict \<Rightarrow> 'k list" where
  "dkeys d \<equiv> map fst d"

abbreviation dvals :: "('k, 'v) dict \<Rightarrow> 'v list" where
  "dvals d \<equiv> map snd d"

abbreviation wf_dict :: "('k, 'v) dict \<Rightarrow> bool" where
  "wf_dict d \<equiv> distinct (map fst d)"

lemma dget_dput [dict_simps]: "dget (dput k v d) k' = (if k' = k then Some v else dget d k')"
  by (simp add: update_conv')

lemma dget_ddel [dict_simps]: "dget (ddel k d) k' = (if k' = k then None else dget d k')"
  by (simp add: delete_conv')

lemma wf_dput [simp, intro]: "wf_dict d \<Longrightarrow> wf_dict (dput k v d)"
  by (rule distinct_update)

lemma wf_ddel [simp, intro]: "wf_dict d \<Longrightarrow> wf_dict (ddel k d)"
  by (rule distinct_delete)

lemma dput_fresh: "k \<notin> set (dkeys d) \<Longrightarrow> dput k v d = d @ [(k, v)]"
  by (induction d) auto

lemma dput_same: "wf_dict d \<Longrightarrow> dget d k = Some v \<Longrightarrow> dput k v d = d"
proof (induction d)
  case Nil
  then show ?case by simp
next
  case (Cons p d)
  then show ?case by (cases p) (auto split: if_splits)
qed

lemma set_dput: "wf_dict d \<Longrightarrow> set (dput k v d) = insert (k, v) {p \<in> set d. fst p \<noteq> k}"
proof (induction d)
  case Nil
  then show ?case by simp
next
  case (Cons p d)
  then show ?case by (cases p) (force simp: image_iff)
qed

lemma set_ddel: "set (ddel k d) = {p \<in> set d. fst p \<noteq> k}"
  by (auto simp: AList.delete_eq)

lemma dget_mem: "dget d k = Some v \<Longrightarrow> (k, v) \<in> set d"
  by (rule map_of_SomeD)

lemma mem_dget: "wf_dict d \<Longrightarrow> (k, v) \<in> set d \<Longrightarrow> dget d k = Some v"
  by simp

lemma dget_dvals: "dget d k = Some v \<Longrightarrow> v \<in> set (dvals d)"
  by (force dest: map_of_SomeD)

lemma dget_None_keys: "dget d k = None \<longleftrightarrow> k \<notin> set (dkeys d)"
  by (simp add: map_of_eq_None_iff)

lemma dget_foldl_dput:
  "dget (foldl (\<lambda>d x. dput (f x) (g x) d) d0 xs) k = Some v \<Longrightarrow>
     dget d0 k = Some v \<or> (\<exists>x \<in> set xs. f x = k \<and> g x = v)"
  by (induction xs arbitrary: d0) (fastforce simp: dict_simps split: if_splits)+

lemma dkeys_dput: "set (dkeys (dput k v d)) = insert k (set (dkeys d))"
  by (induction d) auto

lemma dvals_dput: "x \<in> set (dvals (dput k v d)) \<Longrightarrow> x = v \<or> x \<in> set (dvals d)"
  by (induction d) (auto split: if_splits)

lemma length_dput: "length (dput k v d) = (if k \<in> set (dkeys d) then length d else Suc (length d))"
  by (induction d) auto

text \<open>
  Counting the values that satisfy a predicate: what an update or a deletion does to the
  count. These are the facts the "at most one" invariants need.
\<close>

definition dcount :: "('v \<Rightarrow> bool) \<Rightarrow> ('k, 'v) dict \<Rightarrow> nat" where
  "dcount P d = length (filter P (dvals d))"

lemma dcount_Nil [simp]: "dcount P [] = 0"
  by (simp add: dcount_def)

lemma dcount_Cons [simp]: "dcount P ((k, v) # d) = (if P v then 1 else 0) + dcount P d"
  by (simp add: dcount_def)

lemma dcount_zero: "dcount P d = 0 \<longleftrightarrow> \<not> list_ex P (dvals d)"
  by (induction d) (simp_all add: split_paired_all)

lemma dcount_fresh:
  "k \<notin> set (dkeys d) \<Longrightarrow> dcount P (dput k v d) = dcount P d + (if P v then 1 else 0)"
  by (simp add: dput_fresh dcount_def)

lemma dcount_dput:
  "wf_dict d \<Longrightarrow> dget d k = Some u \<Longrightarrow>
     dcount P (dput k v d) + (if P u then 1 else 0) = dcount P d + (if P v then 1 else 0)"
proof (induction d)
  case Nil
  then show ?case by simp
next
  case (Cons p d)
  then show ?case by (cases p) (auto split: if_splits)
qed

lemma dcount_ddel_le: "dcount P (ddel k d) \<le> dcount P d"
  by (induction d) auto

lemma dcount_pos: "dget d k = Some v \<Longrightarrow> P v \<Longrightarrow> 0 < dcount P d"
  by (metis dcount_zero dget_dvals gr0I list_ex_iff)

lemma dcount_le_one_unique:
  assumes "dcount P d \<le> 1" "dget d i = Some u" "P u" "dget d j = Some v" "P v"
  shows "i = j"
  using assms
proof (induction d)
  case Nil
  then show ?case by simp
next
  case (Cons p d)
  obtain k w where p: "p = (k, w)" by (cases p)
  have one: "False" if "dget d k' = Some x" "P x" "P w" for k' x
    using Cons.prems(1) dcount_pos [where d = d and P = P, OF that(1,2)] that(3)
    by (simp add: p)
  show ?case
  proof (cases "i = k \<or> j = k")
    case True
    then show ?thesis using Cons.prems one by (auto simp: p split: if_splits)
  next
    case False
    with Cons.prems have "dcount P d \<le> 1" "dget d i = Some u" "dget d j = Some v"
      by (auto simp: p split: if_splits)
    with Cons.IH Cons.prems(3,5) show ?thesis by blast
  qed
qed

section \<open>Lists\<close>

text \<open>\<open>tuple(dict.fromkeys(xs))\<close>: the distinct elements in first-seen order.\<close>

fun fromkeys :: "'a list \<Rightarrow> 'a list" where
  "fromkeys [] = []"
| "fromkeys (x # xs) = x # filter (\<lambda>y. y \<noteq> x) (fromkeys xs)"

lemma set_fromkeys [simp]: "set (fromkeys xs) = set xs"
  by (induction xs) auto

lemma distinct_fromkeys [simp]: "distinct (fromkeys xs)"
  by (induction xs) auto

lemma fromkeys_eq_Nil [simp]: "fromkeys xs = [] \<longleftrightarrow> xs = []"
  by (cases xs) auto

text \<open>\<open>next(x for x in xs if p(x))\<close>, and the same with a default.\<close>

definition next_where :: "('a \<Rightarrow> bool) \<Rightarrow> 'a list \<Rightarrow> 'a outcome" where
  "next_where p xs = (case List.find p xs of None \<Rightarrow> Inl StopIteration | Some x \<Rightarrow> Inr x)"

lemma next_where_eq_Inr [outcome_simps]:
  "next_where p xs = Inr x \<longleftrightarrow> List.find p xs = Some x"
  by (simp add: next_where_def split: option.splits)

lemma find_SomeD: "List.find p xs = Some x \<Longrightarrow> x \<in> set xs \<and> p x"
  by (auto simp: find_Some_iff)

lemma find_exists: "y \<in> set xs \<Longrightarrow> p y \<Longrightarrow> \<exists>x. List.find p xs = Some x"
  by (metis find_None_iff option.exhaust)

text \<open>\<open>min(t for t in ts if t is not None)\<close> over a non-empty list of optional times.\<close>

fun min_present :: "int \<Rightarrow> int option list \<Rightarrow> int" where
  "min_present t [] = t"
| "min_present t (None # us) = min_present t us"
| "min_present t (Some u # us) = min_present (min t u) us"

lemma min_present_le: "min_present t us \<le> t"
  by (induction t us rule: min_present.induct) auto

lemma min_present_le_each: "Some u \<in> set us \<Longrightarrow> min_present t us \<le> u"
proof (induction t us rule: min_present.induct)
  case (3 t v us)
  then show ?case using min_present_le [of "min t v" us] by auto
qed auto

lemma min_present_gt: "(x < min_present t us) = (x < t \<and> (\<forall>u. Some u \<in> set us \<longrightarrow> x < u))"
  by (induction t us rule: min_present.induct) auto

section \<open>Strings\<close>

text \<open>
  Strings are character lists; the routines below are the ASCII behaviour of the Python
  methods of the same purpose. The sources apply them to keys, codes and amounts.
\<close>

definition is_digit :: "char \<Rightarrow> bool" where
  "is_digit c \<longleftrightarrow> CHR ''0'' \<le> c \<and> c \<le> CHR ''9''"

definition is_lower :: "char \<Rightarrow> bool" where
  "is_lower c \<longleftrightarrow> CHR ''a'' \<le> c \<and> c \<le> CHR ''z''"

definition is_upper :: "char \<Rightarrow> bool" where
  "is_upper c \<longleftrightarrow> CHR ''A'' \<le> c \<and> c \<le> CHR ''Z''"

definition is_alnum :: "char \<Rightarrow> bool" where
  "is_alnum c \<longleftrightarrow> is_digit c \<or> is_lower c \<or> is_upper c"

definition isdigit :: "string \<Rightarrow> bool" where
  "isdigit s \<longleftrightarrow> s \<noteq> [] \<and> list_all is_digit s"

definition starts_with :: "string \<Rightarrow> string \<Rightarrow> bool" where
  "starts_with p s \<longleftrightarrow> take (length p) s = p"

definition before :: "char \<Rightarrow> string \<Rightarrow> string" where
  "before c s = takeWhile (\<lambda>x. x \<noteq> c) s"

definition after :: "char \<Rightarrow> string \<Rightarrow> string" where
  "after c s = tl (dropWhile (\<lambda>x. x \<noteq> c) s)"

fun split_on :: "char \<Rightarrow> string \<Rightarrow> string list" where
  "split_on c [] = [[]]"
| "split_on c (x # xs) =
     (if x = c then [] # split_on c xs
      else case split_on c xs of [] \<Rightarrow> [[x]] | w # ws \<Rightarrow> (x # w) # ws)"

definition join :: "string \<Rightarrow> string list \<Rightarrow> string" where
  "join sep ws = (case ws of [] \<Rightarrow> [] | w # ws' \<Rightarrow> w @ concat (map (\<lambda>v. sep @ v) ws'))"

definition digit_char :: "nat \<Rightarrow> char" where
  "digit_char d = ''0123456789'' ! (d mod 10)"

fun dec :: "nat \<Rightarrow> string" where
  "dec n = (if n < 10 then [digit_char n] else dec (n div 10) @ [digit_char (n mod 10)])"

declare dec.simps [simp del]

definition dec_int :: "int \<Rightarrow> string" where
  "dec_int i = (if i < 0 then CHR ''-'' # dec (nat (- i)) else dec (nat i))"

definition digit_val :: "char \<Rightarrow> nat" where
  "digit_val c = of_char c - 48"

definition int_of_digits :: "string \<Rightarrow> int" where
  "int_of_digits s = int (foldl (\<lambda>n c. 10 * n + digit_val c) 0 s)"

lemma digit_cases:
  assumes "d < 10"
  shows "d \<in> {0, 1, 2, 3, 4, 5, 6, 7, 8, 9 :: nat}"
  using assms by auto

lemma digit_char_is_digit: "is_digit (digit_char d)"
proof -
  have "d mod 10 \<in> {0, 1, 2, 3, 4, 5, 6, 7, 8, 9 :: nat}"
    by (rule digit_cases) simp
  then show ?thesis
    by (auto simp: digit_char_def is_digit_def nth_Cons' less_eq_char_def)
qed

lemma digit_val_digit_char: "digit_val (digit_char d) = d mod 10"
proof -
  have "d mod 10 \<in> {0, 1, 2, 3, 4, 5, 6, 7, 8, 9 :: nat}"
    by (rule digit_cases) simp
  then show ?thesis
    by (auto simp: digit_char_def digit_val_def nth_Cons')
qed

lemma dec_digits: "list_all is_digit (dec n) \<and> dec n \<noteq> []"
proof (induction n rule: dec.induct)
  case (1 n)
  then show ?case
    by (cases "n < 10") (simp_all add: dec.simps [of n] digit_char_is_digit)
qed

lemma isdigit_dec [simp]: "isdigit (dec n)"
  using dec_digits [of n] by (simp add: isdigit_def)

lemma int_of_digits_snoc: "int_of_digits (s @ [c]) = 10 * int_of_digits s + int (digit_val c)"
  by (simp add: int_of_digits_def)

lemma int_of_digits_dec [simp]: "int_of_digits (dec n) = int n"
proof (induction n rule: dec.induct)
  case (1 n)
  show ?case
  proof (cases "n < 10")
    case True
    then show ?thesis
      by (simp add: dec.simps [of n] int_of_digits_def digit_val_digit_char)
  next
    case False
    then have "int_of_digits (dec n) = 10 * int (n div 10) + int (n mod 10)"
      using 1 by (simp add: dec.simps [of n] int_of_digits_snoc digit_val_digit_char)
    also have "\<dots> = int n" by presburger
    finally show ?thesis .
  qed
qed

lemma dec_inj: "dec m = dec n \<Longrightarrow> m = n"
  by (metis int_of_digits_dec of_nat_eq_iff)

text \<open>\<open>s.replace(old, new)\<close> for a non-empty \<open>old\<close>.\<close>

fun str_replace :: "string \<Rightarrow> string \<Rightarrow> string \<Rightarrow> string" where
  "str_replace old new [] = []"
| "str_replace old new (c # cs) =
     (if old \<noteq> [] \<and> starts_with old (c # cs)
      then new @ str_replace old new (drop (length old - 1) cs)
      else c # str_replace old new cs)"

lemma str_replace_skip:
  assumes "hd old \<notin> set u" "old \<noteq> []"
  shows "str_replace old new (u @ v) = u @ str_replace old new v"
  using assms(1)
proof (induction u)
  case Nil
  then show ?case by simp
next
  case (Cons c u)
  with assms(2) have "\<not> starts_with old (c # u @ v)"
    by (cases old) (auto simp: starts_with_def)
  with Cons show ?case by simp
qed

text \<open>\<open>s.strip()\<close> and \<open>int(s)\<close>: surrounding white space, a sign, digits with single underscores.\<close>

definition is_space :: "char \<Rightarrow> bool" where
  "is_space c \<longleftrightarrow>
     (let n = of_char c :: nat in n = 32 \<or> (9 \<le> n \<and> n \<le> 13) \<or> (28 \<le> n \<and> n \<le> 31))"

definition strip :: "string \<Rightarrow> string" where
  "strip s = rev (dropWhile is_space (rev (dropWhile is_space s)))"

definition py_digits :: "string \<Rightarrow> int option" where
  "py_digits s =
     (let ws = split_on (CHR ''_'') s in
      if list_all isdigit ws then Some (int_of_digits (concat ws)) else None)"

definition py_int :: "string \<Rightarrow> int option" where
  "py_int s = (case strip s of
      [] \<Rightarrow> None
    | c # cs \<Rightarrow>
        if c = CHR ''-'' then map_option uminus (py_digits cs)
        else if c = CHR ''+'' then py_digits cs
        else py_digits (c # cs))"

end
