(* ===== verification/Contract.thy ===== *)
theory Contract
  imports Prelude
begin

text \<open>
  The shared contract types: \<open>contract/base.py\<close>, \<open>contract/messages.py\<close> and
  \<open>contract/state.py\<close>. A pydantic class is a record, an enumeration or \<open>Literal\<close> a
  datatype, and the constraints pydantic checks when it validates a value (patterns, maximal
  lengths, the \<open>model_validator\<close>s) are the bool-valued functions \<open>..._valid\<close>. Validation
  does not look into nested instances again, so each predicate covers its own level.
  The comment above a definition names the lines of \<open>src/proxyloop\<close> it translates.
\<close>

section \<open>Bounds and literals\<close>

(* contract/base.py 11-11 Lane *)
datatype lane = UserLane | CpLane

(* contract/base.py 12-12 HoldReason *)
datatype hold_reason = HoldOffer | HoldDecision | HoldFactRequest | HoldPressure | HoldUnclear

(* contract/base.py 13-19 HOLD_REASONS *)
definition HOLD_REASONS :: "hold_reason list" where
  "HOLD_REASONS = [HoldOffer, HoldDecision, HoldFactRequest, HoldPressure, HoldUnclear]"

lemma HOLD_REASONS_complete: "r \<in> set HOLD_REASONS"
  by (cases r) (simp_all add: HOLD_REASONS_def)

(* contract/base.py 23-23 MAX_PRIVATE_SUMMARY *)
definition MAX_PRIVATE_SUMMARY :: nat where "MAX_PRIVATE_SUMMARY = 1200"

definition MAX_PUBLIC_TEXT :: nat where "MAX_PUBLIC_TEXT = 400"

(* contract/base.py 24-24 MAX_READBACK_TEXT *)
definition MAX_READBACK_TEXT :: nat where "MAX_READBACK_TEXT = 600"

definition MAX_FACT_VALUE :: nat where "MAX_FACT_VALUE = 120"

definition MAX_SLOT_VALUE :: nat where "MAX_SLOT_VALUE = 24"

(* contract/base.py 25-25 MAX_OFFERS *)
definition MAX_OFFERS :: nat where "MAX_OFFERS = 6"

definition MAX_SLOTS :: nat where "MAX_SLOTS = 8"

definition MAX_GUIDE_SLOTS :: nat where "MAX_GUIDE_SLOTS = 3"

definition MAX_SLOT_REF :: nat where "MAX_SLOT_REF = 80"

(* contract/base.py 26-26 MAX_GUIDES *)
definition MAX_GUIDES :: nat where "MAX_GUIDES = 3"

definition MAX_SLOT_FIELD :: nat where "MAX_SLOT_FIELD = 40"

lemmas contract_bounds =
  MAX_PRIVATE_SUMMARY_def MAX_PUBLIC_TEXT_def MAX_READBACK_TEXT_def MAX_FACT_VALUE_def
  MAX_SLOT_VALUE_def MAX_OFFERS_def MAX_SLOTS_def MAX_GUIDE_SLOTS_def MAX_SLOT_REF_def
  MAX_GUIDES_def MAX_SLOT_FIELD_def

section \<open>Patterns\<close>

text \<open>The regular expressions of the contract, as full-match tests.\<close>

definition key_char :: "char \<Rightarrow> bool" where
  "key_char c \<longleftrightarrow> is_lower c \<or> is_digit c \<or> c = CHR ''_''"

(* contract/base.py 20-20 FACT_KEY *)
definition fact_key :: "string \<Rightarrow> bool" where
  "fact_key k \<longleftrightarrow>
     (case split_on (CHR ''.'') k of
        [] \<Rightarrow> False
      | w # ws \<Rightarrow> w \<noteq> [] \<and> is_lower (hd w) \<and> list_all key_char (tl w) \<and>
                 list_all (\<lambda>v. v \<noteq> [] \<and> list_all key_char v) ws)"

definition ref_char :: "char \<Rightarrow> bool" where
  "ref_char c \<longleftrightarrow> is_alnum c \<or> c = CHR ''_'' \<or> c = CHR ''-''"

definition code_char :: "char \<Rightarrow> bool" where
  "code_char c \<longleftrightarrow> ref_char c \<or> c = CHR ''.'' \<or> c = CHR '':''"

(* contract/messages.py 30-30 OFFER_REF *)
definition offer_ref_re :: "string \<Rightarrow> bool" where
  "offer_ref_re s \<longleftrightarrow> 1 \<le> length s \<and> length s \<le> 24 \<and> list_all ref_char s"

(* contract/messages.py 31-31 SLOT_FIELD *)
definition slot_field_re :: "string \<Rightarrow> bool" where
  "slot_field_re s \<longleftrightarrow>
     (let name = before (CHR '':'') s; code = after (CHR '':'') s in
      name \<noteq> [] \<and> list_all (\<lambda>c. is_lower c \<or> c = CHR ''_'') name \<and>
      (if CHR '':'' \<in> set s then code \<noteq> [] \<and> list_all code_char code else True))"

(* contract/messages.py 32-36 SLOT_REF *)
definition slot_ref_re :: "string \<Rightarrow> bool" where
  "slot_ref_re s \<longleftrightarrow>
     length s \<le> MAX_SLOT_REF \<and>
     (if starts_with ''fact:'' s then fact_key (drop 5 s)
      else if starts_with ''offer:'' s then
        (let r = drop 6 s in
         offer_ref_re (before (CHR ''.'') r) \<and>
         (if CHR ''.'' \<in> set r then slot_field_re (after (CHR ''.'') r) else True))
      else False)"

(* contract/state.py 35-38 READBACK_FIELD *)
definition readback_field :: "string \<Rightarrow> bool" where
  "readback_field s \<longleftrightarrow>
     s \<in> {''monthly_price'', ''term_months'', ''fees_none'', ''changes_none'', ''expires''} \<or>
     (before (CHR '':'') s \<in> {''fee'', ''credit'', ''applied_change'', ''feature''} \<and>
      CHR '':'' \<in> set s \<and> after (CHR '':'') s \<noteq> [] \<and>
      list_all code_char (after (CHR '':'') s))"

section \<open>Messages between Fast and Slow (contract/messages.py)\<close>

(* contract/messages.py 14-27 GuideMove *)
datatype guide_move =
    OPEN_CALL | IDENTIFY | ASK_DISCOUNT | CITE_COMPETITOR | MENTION_TENURE | CANCEL_LEVER
  | ASK_READBACK | HOLD_FOR_DECISION | DECLINE_OFFER | ASK_FINAL_OFFER
  | DEFLECT_FACT_REQUEST | CLOSE_CALL | HOLD_FOR_FACT

(* contract/messages.py 39-43 Guide *)
record guide =
  g_move :: guide_move
  g_slots :: "string list"

definition guide_valid :: "guide \<Rightarrow> bool" where
  "guide_valid g \<longleftrightarrow> list_all slot_ref_re (g_slots g) \<and> length (g_slots g) \<le> MAX_GUIDE_SLOTS"

(* contract/messages.py 46-46 F2SType *)
datatype f2s_type = USER_UPDATE | CP_UPDATE | REQUEST | REVOKE | NOTE | HOLD

(* contract/messages.py 47-53 _F2S_LANE *)
definition f2s_lane_of :: "f2s_type \<Rightarrow> lane option" where
  "f2s_lane_of t = (case t of
      USER_UPDATE \<Rightarrow> Some UserLane | REQUEST \<Rightarrow> Some UserLane | REVOKE \<Rightarrow> Some UserLane
    | CP_UPDATE \<Rightarrow> Some CpLane | HOLD \<Rightarrow> Some CpLane | NOTE \<Rightarrow> None)"

(* contract/messages.py 56-66 FastToSlow *)
record fast_to_slow =
  f2s_msg_id :: string
  f2s_lane :: lane
  f2s_gen_id :: string
  f2s_utt_ref :: "string option"
  f2s_ty :: f2s_type
  f2s_facts :: "(string \<times> string) list"
  f2s_correction :: bool
  f2s_text :: string

(* contract/messages.py 66-75 FastToSlow._lane_rules *)
definition f2s_valid :: "fast_to_slow \<Rightarrow> bool" where
  "f2s_valid m \<longleftrightarrow>
     length (f2s_text m) \<le> 240 \<and>
     (case f2s_lane_of (f2s_ty m) of None \<Rightarrow> True | Some l \<Rightarrow> l = f2s_lane m) \<and>
     \<not> (f2s_correction m \<and> f2s_ty m \<noteq> USER_UPDATE)"

(* contract/messages.py 78-78 S2FType *)
datatype s2f_type = ASK_USER | TELL_USER | GUIDE | APPROVAL_NOTICE | END_CALL

(* contract/messages.py 81-89 SlowToFast *)
record slow_to_fast =
  s2f_msg_id :: string
  s2f_lane :: lane
  s2f_ty :: s2f_type
  s2f_text :: string
  s2f_guide :: "guide option"
  s2f_approval_id :: "string option"

(* contract/messages.py 87-106 SlowToFast._lane_rules *)
definition s2f_valid :: "slow_to_fast \<Rightarrow> bool" where
  "s2f_valid m \<longleftrightarrow>
     length (s2f_text m) \<le> MAX_PUBLIC_TEXT \<and>
     \<not> (s2f_ty m \<in> {ASK_USER, TELL_USER, APPROVAL_NOTICE} \<and> s2f_lane m \<noteq> UserLane) \<and>
     \<not> (s2f_ty m = GUIDE \<and> s2f_lane m \<noteq> CpLane) \<and>
     \<not> (s2f_lane m = CpLane \<and> s2f_text m \<noteq> []) \<and>
     \<not> (s2f_ty m \<in> {ASK_USER, TELL_USER} \<and> s2f_text m = []) \<and>
     ((s2f_guide m \<noteq> None) = (s2f_ty m = GUIDE)) \<and>
     ((s2f_approval_id m \<noteq> None) = (s2f_ty m = APPROVAL_NOTICE)) \<and>
     (case s2f_guide m of None \<Rightarrow> True | Some g \<Rightarrow> guide_valid g)"

section \<open>The blackboard's parts (contract/state.py)\<close>

(* contract/state.py 19-32 CaseStatus *)
datatype case_status =
    INTAKE | MANDATED | IN_CALL | AWAITING_APPROVAL | COMMIT_AUTHORIZED | COMMITTED
  | EVIDENCE_PENDING | NEEDS_REPLAN | VERIFIED_COMPLETE | VERIFIED_NO_DEAL | ESCALATED
  | ABANDONED | CLOSED_NO_ACTION

datatype slot_unit = UsdMinor | Months | BoolUnit | Iso

datatype slot_role = Recurring | OneTime | CreditRole | ChangeRole | FeatureRole | ExpiryRole

datatype slot_status = SlotUnknown | SlotHeard | SlotConfirmed

(* contract/state.py 41-50 ReadbackSlot *)
record readback_slot =
  rs_field :: string
  rs_value :: string
  rs_unit :: slot_unit
  rs_role :: slot_role
  rs_source_utt :: "string option"
  rs_span :: "(int \<times> int) option"
  rs_status :: slot_status

(* contract/state.py 44-45 ReadbackSlot *)
definition slot_valid :: "readback_slot \<Rightarrow> bool" where
  "slot_valid s \<longleftrightarrow>
     readback_field (rs_field s) \<and> length (rs_field s) \<le> MAX_SLOT_FIELD \<and>
     length (rs_value s) \<le> MAX_SLOT_VALUE"

(* contract/state.py 53-59 ReadbackBinding *)
record readback_binding =
  b_offer_ref :: string
  b_revision :: int
  b_account_ref :: string
  b_principal_ref :: string
  b_purpose :: string
  b_authority_epoch :: int

datatype offer_status = OfferOpen | OfferWithdrawn | OfferExpired | OfferDeclined | OfferAccepted

(* contract/state.py 62-68 OfferPublic *)
record offer_public =
  o_ref :: string
  o_revision :: int
  o_slots :: "readback_slot list"
  o_status :: offer_status
  o_expires_ms :: "int option"
  o_terms_hash :: "string option"

(* contract/state.py 63-65 OfferPublic *)
definition offer_valid :: "offer_public \<Rightarrow> bool" where
  "offer_valid o' \<longleftrightarrow>
     offer_ref_re (o_ref o') \<and> 1 \<le> o_revision o' \<and> length (o_slots o') \<le> MAX_SLOTS"

datatype fact_source = CpUtt | Shareable

(* contract/state.py 71-77 PublicFact *)
record public_fact =
  pf_key :: string
  pf_value :: string
  pf_source :: fact_source
  pf_source_ref :: string

definition public_fact_valid :: "public_fact \<Rightarrow> bool" where
  "public_fact_valid f \<longleftrightarrow> fact_key (pf_key f) \<and> length (pf_value f) \<le> MAX_FACT_VALUE"

(* contract/state.py 80-86 Fact *)
record case_fact =
  cf_key :: string
  cf_value :: string
  cf_protected :: bool
  cf_source_ref :: "string option"

definition case_fact_valid :: "case_fact \<Rightarrow> bool" where
  "case_fact_valid f \<longleftrightarrow> fact_key (cf_key f)"

(* contract/events.py 102-102 Approver *)
datatype approver = Ui | SimApprover

datatype mandate_status = MProposed | MGranted | MDenied | MRevoked

(* contract/state.py 89-102 Mandate *)
record mandate =
  m_id :: string
  m_hash :: string
  m_status :: mandate_status
  m_epoch :: int
  m_max_monthly_price_minor :: "int option"
  m_max_term_months :: "int option"
  m_max_one_time_fees_minor :: "int option"
  m_required_features :: "string list"
  m_forbidden_changes :: "string list"
  m_expires_ms :: "int option"
  m_decided_by :: "approver option"

(* contract/state.py 104-108 Mandate._decided *)
definition mandate_valid :: "mandate \<Rightarrow> bool" where
  "mandate_valid m \<longleftrightarrow> \<not> (m_status m \<in> {MGranted, MDenied} \<and> m_decided_by m = None)"

(* contract/state.py 111-121 ApprovalCard *)
record approval_card =
  card_id :: string
  card_offer_ref :: string
  card_revision :: int
  card_terms_hash :: string
  card_readback_text :: string
  card_epoch :: int
  card_expires_ms :: int
  card_binding :: readback_binding

(* contract/state.py 118-132 ApprovalCard._bound *)
definition card_valid :: "approval_card \<Rightarrow> bool" where
  "card_valid c \<longleftrightarrow>
     length (card_readback_text c) \<le> MAX_READBACK_TEXT \<and>
     (b_offer_ref (card_binding c), b_revision (card_binding c),
      b_authority_epoch (card_binding c)) =
     (card_offer_ref c, card_revision c, card_epoch c)"

(* contract/events.py 101-101 Decision *)
datatype decision = Granted | Denied

(* contract/state.py 135-146 Approval *)
record approval =
  a_id :: string
  a_decision :: decision
  a_by :: approver
  a_terms_hash :: string
  a_epoch :: int
  a_expires_ms :: "int option"

(* contract/state.py 149-149 Intent *)
datatype intent = AcceptOffer | SubmitTransaction

(* contract/state.py 152-161 Capability *)
record capability =
  cap_id :: string
  cap_bid :: string
  cap_intent :: intent
  cap_terms_hash :: string
  cap_epoch :: int
  cap_expires_ms :: int
  cap_consumed :: bool

(* contract/state.py 164-169 Authorization *)
record authorization =
  au_intent :: intent
  au_offer_ref :: "string option"
  au_terms_hash :: "string option"
  au_cap_id :: string
  au_epoch :: int

(* contract/state.py 172-177 Fence *)
record fence =
  fence_id :: string
  fence_utt_id :: string
  fence_raised_seq :: int

(* contract/state.py 180-182 HoldState *)
record hold_state =
  hold_reason_of :: hold_reason
  hold_since_ms :: int

datatype speaker = Partner | Agent

(* contract/state.py 185-188 Line *)
record line =
  l_utt_id :: string
  l_speaker :: speaker
  l_text :: string

datatype floor = FloorFree | FloorAgent | FloorPartner

(* contract/state.py 191-195 ChannelState *)
record channel_state =
  ch_lines :: "line list"
  ch_open :: bool
  ch_floor :: floor
  ch_strikes :: int

definition new_channel :: channel_state where
  "new_channel = \<lparr>ch_lines = [], ch_open = False, ch_floor = FloorFree, ch_strikes = 0\<rparr>"

datatype evidence_kind = LedgerEvidence | PortalEvidence

(* contract/state.py 198-203 Evidence *)
record evidence =
  ev_id :: string
  ev_kind :: evidence_kind
  ev_confirmation_id :: string
  ev_terms_hash :: "string option"
  ev_bid :: "string option"

datatype verdict = VerdictOk | VerdictFail

(* contract/state.py 206-208 CompletionDecision *)
record completion_decision =
  cd_verdict :: verdict
  cd_reasons :: "string list"

(* contract/state.py 211-213 Spend *)
record spend =
  sp_micro_usd :: int
  sp_by_role :: "(string, int) dict"

(* contract/state.py 216-225 PublicState *)
record public_state =
  pub_summary :: string
  pub_facts :: "(string, public_fact) dict"
  pub_offers :: "(string, offer_public) dict"
  pub_guidance_cp :: "guide list"
  pub_action_log :: "string list"
  pub_status :: case_status
  pub_cp_hold :: "hold_state option"

(* contract/state.py 217-223 PublicState *)
definition public_valid :: "public_state \<Rightarrow> bool" where
  "public_valid p \<longleftrightarrow>
     length (pub_summary p) \<le> MAX_PUBLIC_TEXT \<and> length (pub_offers p) \<le> MAX_OFFERS \<and>
     length (pub_guidance_cp p) \<le> MAX_GUIDES \<and> length (pub_action_log p) \<le> 12"

(* contract/state.py 228-233 PrivateState *)
record private_state =
  priv_summary :: string
  priv_case_facts :: "(string, case_fact) dict"
  priv_mandate :: "mandate option"
  priv_pending_approval :: "approval_card option"
  priv_approvals :: "(string, approval) dict"

definition private_valid :: "private_state \<Rightarrow> bool" where
  "private_valid p \<longleftrightarrow> length (priv_summary p) \<le> MAX_PRIVATE_SUMMARY"

(* contract/state.py 240-258 Blackboard *)
record blackboard =
  bb_seq :: int
  bb_t_ms :: int
  bb_epoch :: int
  bb_fences :: "fence list"
  bb_public :: public_state
  bb_private :: private_state
  bb_channels :: "(lane, channel_state) dict"
  bb_f2s_pending :: "fast_to_slow list"
  bb_s2f_pending :: "(lane, slow_to_fast list) dict"
  bb_authorizations :: "authorization list"
  bb_capabilities :: "(string, capability) dict"
  bb_evidence :: "evidence list"
  bb_completion :: "completion_decision option"
  bb_spend :: spend

(* contract/state.py 236-237 _channels *)
definition initial_channels :: "(lane, channel_state) dict" where
  "initial_channels = [(UserLane, new_channel), (CpLane, new_channel)]"

definition initial_public :: public_state where
  "initial_public =
     \<lparr>pub_summary = [], pub_facts = [], pub_offers = [], pub_guidance_cp = [],
      pub_action_log = [], pub_status = INTAKE, pub_cp_hold = None\<rparr>"

definition initial_private :: private_state where
  "initial_private =
     \<lparr>priv_summary = [], priv_case_facts = [], priv_mandate = None,
      priv_pending_approval = None, priv_approvals = []\<rparr>"

definition initial_blackboard :: blackboard where
  "initial_blackboard =
     \<lparr>bb_seq = 0, bb_t_ms = 0, bb_epoch = 0, bb_fences = [], bb_public = initial_public,
      bb_private = initial_private, bb_channels = initial_channels, bb_f2s_pending = [],
      bb_s2f_pending = [], bb_authorizations = [], bb_capabilities = [], bb_evidence = [],
      bb_completion = None, bb_spend = \<lparr>sp_micro_usd = 0, sp_by_role = []\<rparr>\<rparr>"

lemmas initial_defs =
  initial_blackboard_def initial_public_def initial_private_def initial_channels_def new_channel_def

text \<open>Abbreviations for the fields the rules read through two records.\<close>

abbreviation offers :: "blackboard \<Rightarrow> (string, offer_public) dict" where
  "offers bb \<equiv> pub_offers (bb_public bb)"

abbreviation status_of :: "blackboard \<Rightarrow> case_status" where
  "status_of bb \<equiv> pub_status (bb_public bb)"

abbreviation facts_of :: "blackboard \<Rightarrow> (string, public_fact) dict" where
  "facts_of bb \<equiv> pub_facts (bb_public bb)"

abbreviation mandate_of :: "blackboard \<Rightarrow> mandate option" where
  "mandate_of bb \<equiv> priv_mandate (bb_private bb)"

abbreviation pending_card :: "blackboard \<Rightarrow> approval_card option" where
  "pending_card bb \<equiv> priv_pending_approval (bb_private bb)"

abbreviation approvals :: "blackboard \<Rightarrow> (string, approval) dict" where
  "approvals bb \<equiv> priv_approvals (bb_private bb)"

text \<open>\<open>bb.channels.get(lane, ChannelState())\<close>.\<close>

definition channel_of :: "blackboard \<Rightarrow> lane \<Rightarrow> channel_state" where
  "channel_of bb l = (case dget (bb_channels bb) l of None \<Rightarrow> new_channel | Some c \<Rightarrow> c)"

definition partner_lines :: "channel_state \<Rightarrow> line list" where
  "partner_lines c = filter (\<lambda>x. l_speaker x = Partner) (ch_lines c)"

end
