(* ===== verification/Machines.thy ===== *)
theory Machines
  imports Prelude
begin

text \<open>
  The interface every stateful component of the program presents: a step function that takes
  the state and one input and either rejects it (\<open>Inl\<close>) or returns the next state (\<open>Inr\<close>).
  The locales state what a component promises of its steps; their lemmas are what follows for
  whole runs. Each is interpreted on the components' own step functions where they are
  defined.
\<close>

section \<open>Runs\<close>

primrec run :: "('s \<Rightarrow> 'e \<Rightarrow> 'x + 's) \<Rightarrow> 's \<Rightarrow> 'e list \<Rightarrow> 'x + 's" where
  "run step s [] = Inr s"
| "run step s (e # es) = (case step s e of Inl x \<Rightarrow> Inl x | Inr s' \<Rightarrow> run step s' es)"

lemma run_append:
  "run step s (es @ fs) = (case run step s es of Inl x \<Rightarrow> Inl x | Inr m \<Rightarrow> run step m fs)"
  by (induction es arbitrary: s) (simp_all split: sum.splits)

lemma run_snoc_Inr:
  "run step s (es @ [e]) = Inr s' \<longleftrightarrow> (\<exists>m. run step s es = Inr m \<and> step m e = Inr s')"
  by (auto simp: run_append split: sum.splits)

lemma run_Cons_Inr:
  "run step s (e # es) = Inr s' \<longleftrightarrow> (\<exists>m. step s e = Inr m \<and> run step m es = Inr s')"
  by (auto split: sum.splits)

lemma run_append_Inr:
  "run step s (es @ fs) = Inr s' \<longleftrightarrow> (\<exists>m. run step s es = Inr m \<and> run step m fs = Inr s')"
  by (auto simp: run_append split: sum.splits)

text \<open>
  A caller that goes on after a rejection: a step that raises leaves the state as it was.
\<close>

definition attempt :: "('s \<Rightarrow> 'e \<Rightarrow> 'x + 's) \<Rightarrow> 's \<Rightarrow> 'e \<Rightarrow> 's" where
  "attempt step s e = (case step s e of Inl _ \<Rightarrow> s | Inr s' \<Rightarrow> s')"

definition attempts :: "('s \<Rightarrow> 'e \<Rightarrow> 'x + 's) \<Rightarrow> 's \<Rightarrow> 'e list \<Rightarrow> 's" where
  "attempts step s es = foldl (attempt step) s es"

lemma attempts_Nil [simp]: "attempts step s [] = s"
  by (simp add: attempts_def)

lemma attempts_snoc: "attempts step s (es @ [e]) = attempt step (attempts step s es) e"
  by (simp add: attempts_def)

lemma attempts_append: "attempts step s (es @ fs) = attempts step (attempts step s es) fs"
  by (simp add: attempts_def)

lemma attempts_Cons: "attempts step s (e # es) = attempts step (attempt step s e) es"
  by (simp add: attempts_def)

lemma attempt_Inr: "step s e = Inr s' \<Longrightarrow> attempt step s e = s'"
  by (simp add: attempt_def)

section \<open>Invariants\<close>

locale guarded_machine =
  fixes step :: "'s \<Rightarrow> 'e \<Rightarrow> 'x + 's"
    and inv :: "'s \<Rightarrow> bool"
  assumes step_inv: "inv s \<Longrightarrow> step s e = Inr s' \<Longrightarrow> inv s'"
begin

lemma run_inv: "inv s \<Longrightarrow> run step s es = Inr s' \<Longrightarrow> inv s'"
proof (induction es arbitrary: s)
  case Nil
  then show ?case by simp
next
  case (Cons e es)
  then show ?case using step_inv by (auto simp: run_Cons_Inr simp del: run.simps)
qed

lemma attempt_inv: "inv s \<Longrightarrow> inv (attempt step s e)"
  using step_inv by (auto simp: attempt_def split: sum.splits)

lemma attempts_inv: "inv s \<Longrightarrow> inv (attempts step s es)"
  by (induction es rule: rev_induct) (simp_all add: attempts_snoc attempt_inv)

lemma prefix_inv:
  assumes "inv s" "run step s (es @ fs) = Inr s'"
  obtains m where "run step s es = Inr m" "inv m" "run step m fs = Inr s'"
  using assms run_inv by (auto simp: run_append_Inr)

end

section \<open>Order along a run\<close>

locale monotone_machine = guarded_machine step inv
  for step :: "'s \<Rightarrow> 'e \<Rightarrow> 'x + 's" and inv :: "'s \<Rightarrow> bool" +
  fixes le :: "'s \<Rightarrow> 's \<Rightarrow> bool"
  assumes le_refl: "le s s"
    and le_trans: "le s t \<Longrightarrow> le t u \<Longrightarrow> le s u"
    and step_le: "inv s \<Longrightarrow> step s e = Inr s' \<Longrightarrow> le s s'"
begin

lemma run_le: "inv s \<Longrightarrow> run step s es = Inr s' \<Longrightarrow> le s s'"
proof (induction es arbitrary: s)
  case Nil
  then show ?case using le_refl by simp
next
  case (Cons e es)
  then obtain m where "step s e = Inr m" "run step m es = Inr s'"
    by (auto simp: run_Cons_Inr simp del: run.simps)
  with Cons show ?case using step_inv step_le le_trans by blast
qed

lemma attempts_le: "inv s \<Longrightarrow> le s (attempts step s es)"
proof (induction es rule: rev_induct)
  case Nil
  then show ?case using le_refl by simp
next
  case (snoc e es)
  then have "le s (attempts step s es)" "inv (attempts step s es)"
    using attempts_inv by auto
  then show ?case
    using step_le le_trans by (cases "step (attempts step s es) e")
      (auto simp: attempts_snoc attempt_def)
qed

lemma attempts_between: "inv s \<Longrightarrow> le (attempts step s es) (attempts step s (es @ fs))"
  using attempts_le [OF attempts_inv] by (simp add: attempts_append)

lemma between_le:
  assumes "inv s" "run step s es = Inr m" "run step m fs = Inr s'"
  shows "le s m" "le m s'"
  using assms run_le run_inv by blast+

end

section \<open>Absorbing sets of states\<close>

locale absorbing_machine = guarded_machine step inv
  for step :: "'s \<Rightarrow> 'e \<Rightarrow> 'x + 's" and inv :: "'s \<Rightarrow> bool" +
  fixes stays :: "'s \<Rightarrow> bool"
  assumes step_stays: "inv s \<Longrightarrow> stays s \<Longrightarrow> step s e = Inr s' \<Longrightarrow> stays s'"
begin

lemma run_stays: "inv s \<Longrightarrow> stays s \<Longrightarrow> run step s es = Inr s' \<Longrightarrow> stays s'"
proof (induction es arbitrary: s)
  case Nil
  then show ?case by simp
next
  case (Cons e es)
  then obtain m where "step s e = Inr m" "run step m es = Inr s'"
    by (auto simp: run_Cons_Inr simp del: run.simps)
  with Cons show ?case using step_inv step_stays by blast
qed

lemma attempts_stays: "inv s \<Longrightarrow> stays s \<Longrightarrow> stays (attempts step s es)"
proof (induction es rule: rev_induct)
  case Nil
  then show ?case by simp
next
  case (snoc e es)
  then have "stays (attempts step s es)" "inv (attempts step s es)"
    using attempts_inv by auto
  then show ?case
    using step_stays by (cases "step (attempts step s es) e") (auto simp: attempts_snoc attempt_def)
qed

end

text \<open>A monotone machine never leaves the states above a given one.\<close>

sublocale monotone_machine \<subseteq> above: absorbing_machine step inv "le t"
proof unfold_locales
  fix s e s'
  assume "inv s" "le t s" "step s e = Inr s'"
  show "le t s'"
    by (rule le_trans [OF \<open>le t s\<close>]) (rule step_le [OF \<open>inv s\<close> \<open>step s e = Inr s'\<close>])
qed

end
