(* ===== verification/Status.thy ===== *)
theory Status
  imports Contract
begin

text \<open>
  \<open>guard/status.py\<close>: the status machine. A trigger is the name of what happened; only
  \<open>next_status\<close> decides where the case goes, and \<open>hang_up\<close> abandons any open case.
\<close>

(* guard/status.py 14-38 TRANSITIONS *)
definition TRANSITIONS :: "((case_status \<times> string) \<times> case_status) list" where
  "TRANSITIONS =
    [((INTAKE, ''mandate_granted''), MANDATED),
     ((INTAKE, ''call_opened''), IN_CALL),
     ((MANDATED, ''call_opened''), IN_CALL),
     ((IN_CALL, ''approval_requested''), AWAITING_APPROVAL),
     ((AWAITING_APPROVAL, ''approval_decided''), IN_CALL),
     ((AWAITING_APPROVAL, ''approval_stale''), NEEDS_REPLAN),
     ((AWAITING_APPROVAL, ''approval_expired''), NEEDS_REPLAN),
     ((IN_CALL, ''accept_authorized''), COMMIT_AUTHORIZED),
     ((COMMIT_AUTHORIZED, ''accept_heard''), COMMITTED),
     ((COMMIT_AUTHORIZED, ''accept_revoked''), NEEDS_REPLAN),
     ((COMMIT_AUTHORIZED, ''accept_truncated''), NEEDS_REPLAN),
     ((COMMITTED, ''evidence_recorded''), EVIDENCE_PENDING),
     ((COMMITTED, ''escalate''), ESCALATED),
     ((EVIDENCE_PENDING, ''completion_ok''), VERIFIED_COMPLETE),
     ((EVIDENCE_PENDING, ''completion_fail''), NEEDS_REPLAN),
     ((NEEDS_REPLAN, ''replan''), IN_CALL),
     ((NEEDS_REPLAN, ''escalate''), ESCALATED),
     ((IN_CALL, ''no_deal_verified''), VERIFIED_NO_DEAL),
     ((IN_CALL, ''info_only''), CLOSED_NO_ACTION)]"

(* guard/status.py 40-48 TERMINAL *)
definition TERMINAL :: "case_status list" where
  "TERMINAL = [VERIFIED_COMPLETE, VERIFIED_NO_DEAL, ESCALATED, ABANDONED, CLOSED_NO_ACTION]"

(* guard/status.py 51-56 next_status *)
definition next_status :: "case_status \<Rightarrow> string \<Rightarrow> case_status option" where
  "next_status s trigger =
     (if trigger = ''hang_up'' then (if s \<in> set TERMINAL then None else Some ABANDONED)
      else dget TRANSITIONS (s, trigger))"

(* guard/status.py 59-65 status_change *)
definition status_change :: "blackboard \<Rightarrow> string \<Rightarrow> (case_status \<times> case_status) option" where
  "status_change bb trigger =
     (case next_status (status_of bb) trigger of
        None \<Rightarrow> None
      | Some s \<Rightarrow> Some (status_of bb, s))"

text \<open>The edges the fold allows (\<open>core/fold.py\<close>): a row of the table, or a hang-up.\<close>

(* core/fold.py 201-201 _EDGES *)
definition EDGES :: "(case_status \<times> case_status) list" where
  "EDGES = map (\<lambda>((was, _), to). (was, to)) TRANSITIONS"

definition may_move :: "case_status \<Rightarrow> case_status \<Rightarrow> bool" where
  "may_move was s \<longleftrightarrow> (was, s) \<in> set EDGES \<or> (s = ABANDONED \<and> was \<notin> set TERMINAL)"

lemma TERMINAL_no_edge: "was \<in> set TERMINAL \<Longrightarrow> \<not> may_move was s"
  by (cases was) (simp_all add: TERMINAL_def may_move_def EDGES_def TRANSITIONS_def)

lemma next_status_edge: "next_status was t = Some s \<Longrightarrow> may_move was s"
  by (force simp: next_status_def may_move_def EDGES_def dest: map_of_SomeD split: if_splits)

lemma verified_edges:
  "may_move was VERIFIED_COMPLETE \<Longrightarrow> was = EVIDENCE_PENDING"
  "may_move was VERIFIED_NO_DEAL \<Longrightarrow> was = IN_CALL"
  by (auto simp: may_move_def EDGES_def TRANSITIONS_def)

end
