(* ===== verification/Authority_Spec.thy ===== *)
theory Authority_Spec
  imports Contract Machines Status
begin

text \<open>
  The abstract specification of the case's authority: what may happen to its epoch, fences,
  offers, release tokens, card and mandate, as an inductive step relation on a state of maps,
  with the invariants proved by rule induction. \<open>Fold_Refine\<close> shows that the fold of the
  event log (\<open>core/fold.py\<close>) implements it.
\<close>

section \<open>The abstract state\<close>

record deal =
  d_revision :: int
  d_status :: offer_status
  d_terms :: "string option"

record authority =
  z_epoch :: int
  z_fences :: "string set"
  z_offers :: "string \<Rightarrow> deal option"
  z_caps :: "string \<Rightarrow> capability option"
  z_lines :: "string \<Rightarrow> string option"
  z_card :: "approval_card option"
  z_mandate :: "mandate option"
  z_decided :: "string \<Rightarrow> approval option"
  z_status :: case_status
  z_complete :: bool

definition flying :: "capability \<Rightarrow> bool" where
  "flying c \<longleftrightarrow> cap_intent c = AcceptOffer \<and> \<not> cap_consumed c"

definition released :: "capability \<Rightarrow> bool" where
  "released c \<longleftrightarrow> cap_intent c = AcceptOffer \<and> cap_consumed c"

definition no_cap :: "authority \<Rightarrow> (capability \<Rightarrow> bool) \<Rightarrow> bool" where
  "no_cap z P \<longleftrightarrow> (\<forall>i c. z_caps z i = Some c \<longrightarrow> \<not> P c)"

definition one_cap :: "authority \<Rightarrow> (capability \<Rightarrow> bool) \<Rightarrow> bool" where
  "one_cap z P \<longleftrightarrow> (\<exists>!i. \<exists>c. z_caps z i = Some c \<and> P c)"

definition has_terms :: "authority \<Rightarrow> string \<Rightarrow> string \<Rightarrow> bool" where
  "has_terms z r h \<longleftrightarrow> (\<exists>d. z_offers z r = Some d \<and> d_terms d = Some h)"

definition card_fits :: "authority \<Rightarrow> approval_card \<Rightarrow> bool" where
  "card_fits z c \<longleftrightarrow>
     (\<exists>d. z_offers z (card_offer_ref c) = Some d \<and> d_revision d = card_revision c \<and>
          d_terms d = Some (card_terms_hash c)) \<and> card_epoch c = z_epoch z"

section \<open>The steps\<close>

text \<open>\<open>auth_step t z z'\<close>: at time \<open>t\<close> the authority may go from \<open>z\<close> to \<open>z'\<close>.\<close>

inductive auth_step :: "int \<Rightarrow> authority \<Rightarrow> authority \<Rightarrow> bool" where
  quiet: "auth_step t z z"
| raise: "auth_step t z (z\<lparr>z_fences := insert f (z_fences z)\<rparr>)"
| clear: "auth_step t z (z\<lparr>z_fences := z_fences z - {f}\<rparr>)"
| bump: "z_epoch z < n \<Longrightarrow> auth_step t z (z\<lparr>z_epoch := n\<rparr>)"
| bump_carry: "z_epoch z < n \<Longrightarrow> z_mandate z = Some m \<Longrightarrow> m_status m \<noteq> MProposed \<Longrightarrow>
    m_epoch m = z_epoch z \<Longrightarrow>
    auth_step t z (z\<lparr>z_mandate := Some (m\<lparr>m_epoch := n\<rparr>), z_epoch := n\<rparr>)"
| record_offer: "(\<And>d. z_offers z r = Some d \<Longrightarrow> d_revision d < n) \<Longrightarrow>
    auth_step t z (z\<lparr>z_offers := (z_offers z)
      (r \<mapsto> \<lparr>d_revision = n, d_status = OfferOpen, d_terms = None\<rparr>)\<rparr>)"
| bind_terms: "z_offers z r = Some d \<Longrightarrow>
    auth_step t z (z\<lparr>z_offers := (z_offers z)(r \<mapsto> d\<lparr>d_terms := h\<rparr>)\<rparr>)"
| decline: "z_offers z r = Some d \<Longrightarrow>
    auth_step t z (z\<lparr>z_offers := (z_offers z)(r \<mapsto> d\<lparr>d_status := OfferDeclined\<rparr>)\<rparr>)"
| propose: "m_status m = MProposed \<Longrightarrow> m_epoch m = z_epoch z \<Longrightarrow>
    auth_step t z (z\<lparr>z_mandate := Some m\<rparr>)"
| decide_mandate: "z_mandate z = Some m \<Longrightarrow> m_status m = MProposed \<Longrightarrow>
    m_epoch m = z_epoch z \<Longrightarrow> s \<in> {MGranted, MDenied} \<Longrightarrow>
    auth_step t z (z\<lparr>z_mandate := Some (m\<lparr>m_status := s, m_decided_by := Some who\<rparr>)\<rparr>)"
| request: "card_fits z c \<Longrightarrow> auth_step t z (z\<lparr>z_card := Some c\<rparr>)"
| decide_card: "z_card z = Some c \<Longrightarrow> card_fits z c \<Longrightarrow> t < card_expires_ms c \<Longrightarrow>
    a_terms_hash a = card_terms_hash c \<Longrightarrow> a_epoch a = card_epoch c \<Longrightarrow>
    a_expires_ms a = Some (card_expires_ms c) \<Longrightarrow>
    auth_step t z (z\<lparr>z_card := None, z_decided := (z_decided z)(card_id c \<mapsto> a)\<rparr>)"
| mint: "\<not> cap_consumed c \<Longrightarrow> cap_epoch c = z_epoch z \<Longrightarrow> z_caps z (cap_id c) = None \<Longrightarrow>
    t < cap_expires_ms c \<Longrightarrow>
    (cap_intent c = AcceptOffer \<Longrightarrow>
       no_cap z (\<lambda>x. released x \<and> cap_terms_hash x = cap_terms_hash c) \<and> no_cap z flying \<and>
       has_terms z r (cap_terms_hash c)) \<Longrightarrow>
    auth_step t z (z\<lparr>z_caps := (z_caps z)(cap_id c \<mapsto> c),
      z_lines := (case z_lines z (cap_id c) of
        None \<Rightarrow> (z_lines z)(cap_id c \<mapsto> r) | Some _ \<Rightarrow> z_lines z)\<rparr>)"
| release: "z_caps z i = Some c \<Longrightarrow> \<not> cap_consumed c \<Longrightarrow> cap_epoch c = z_epoch z \<Longrightarrow>
    z_fences z = {} \<Longrightarrow> z_lines z i = Some r \<Longrightarrow> z_offers z r = Some d \<Longrightarrow>
    d_status d = OfferOpen \<Longrightarrow> d_terms d = Some (cap_terms_hash c) \<Longrightarrow> t < cap_expires_ms c \<Longrightarrow>
    (cap_intent c = AcceptOffer \<Longrightarrow>
       no_cap z (\<lambda>x. released x \<and> cap_terms_hash x = cap_terms_hash c)) \<Longrightarrow>
    auth_step t z (z\<lparr>z_caps := (z_caps z)(i \<mapsto> c\<lparr>cap_consumed := True\<rparr>)\<rparr>)"
| revoke: "z_caps z i = Some c \<Longrightarrow> \<not> cap_consumed c \<Longrightarrow>
    auth_step t z (z\<lparr>z_caps := (z_caps z)(i := None)\<rparr>)"
| move: "may_move (z_status z) s \<Longrightarrow>
    (s = VERIFIED_COMPLETE \<Longrightarrow> z_complete z \<and> one_cap z released) \<Longrightarrow>
    (s = VERIFIED_NO_DEAL \<Longrightarrow> z_complete z \<and> no_cap z released) \<Longrightarrow>
    auth_step t z (z\<lparr>z_status := s\<rparr>)"
| complete: "auth_step t z (z\<lparr>z_complete := ok\<rparr>)"

section \<open>Invariants\<close>

text \<open>
  At most one accept is in flight, at most one accept of the same terms was ever released,
  tokens are filed under their own id and belong to no later epoch, and so do the mandate and
  the approvals.
\<close>

definition unique_cap :: "authority \<Rightarrow> (capability \<Rightarrow> bool) \<Rightarrow> bool" where
  "unique_cap z P \<longleftrightarrow>
     (\<forall>i c j d. z_caps z i = Some c \<longrightarrow> P c \<longrightarrow> z_caps z j = Some d \<longrightarrow> P d \<longrightarrow> i = j)"

definition caps_filed :: "authority \<Rightarrow> bool" where
  "caps_filed z \<longleftrightarrow> (\<forall>i c. z_caps z i = Some c \<longrightarrow> cap_id c = i \<and> cap_epoch c \<le> z_epoch z)"

definition grants_dated :: "authority \<Rightarrow> bool" where
  "grants_dated z \<longleftrightarrow>
     (case z_mandate z of None \<Rightarrow> True | Some m \<Rightarrow> m_epoch m \<le> z_epoch z) \<and>
     (\<forall>i a. z_decided z i = Some a \<longrightarrow> a_epoch a \<le> z_epoch z)"

text \<open>An accept in flight never has terms of which an accept was already released.\<close>

definition fresh_terms :: "authority \<Rightarrow> bool" where
  "fresh_terms z \<longleftrightarrow>
     (\<forall>i c j d. z_caps z i = Some c \<longrightarrow> flying c \<longrightarrow> z_caps z j = Some d \<longrightarrow> released d \<longrightarrow>
        cap_terms_hash c \<noteq> cap_terms_hash d)"

definition auth_inv :: "authority \<Rightarrow> bool" where
  "auth_inv z \<longleftrightarrow> unique_cap z flying \<and>
     (\<forall>h. unique_cap z (\<lambda>c. released c \<and> cap_terms_hash c = h)) \<and>
     fresh_terms z \<and> caps_filed z \<and> grants_dated z"

lemma released_consumed [simp]: "released (c\<lparr>cap_consumed := True\<rparr>) = (cap_intent c = AcceptOffer)"
  by (simp add: released_def)

lemma flying_consumed [simp]: "\<not> flying (c\<lparr>cap_consumed := True\<rparr>)"
  by (simp add: flying_def)

lemma unique_flying_step:
  assumes "auth_step t z z'" "unique_cap z flying"
  shows "unique_cap z' flying"
  using assms
proof (induction rule: auth_step.induct)
  case (mint c z t r)
  show ?case
  proof (cases "flying c")
    case True
    with mint have "no_cap z flying" by (simp add: flying_def)
    then show ?thesis by (auto simp: unique_cap_def no_cap_def split: if_splits)
  next
    case False
    with mint.prems show ?thesis unfolding unique_cap_def by (auto split: if_splits)
  qed
next
  case (release z i c r d t)
  then show ?case unfolding unique_cap_def by (auto split: if_splits)
next
  case (revoke z i c t)
  then show ?case unfolding unique_cap_def by (auto split: if_splits)
qed (simp_all add: unique_cap_def)

lemma unique_released_step:
  assumes "auth_step t z z'" "unique_cap z (\<lambda>c. released c \<and> cap_terms_hash c = h)"
  shows "unique_cap z' (\<lambda>c. released c \<and> cap_terms_hash c = h)"
  using assms
proof (induction rule: auth_step.induct)
  case (mint c z t r)
  then have "\<not> released c" by (simp add: released_def)
  with mint.prems show ?case unfolding unique_cap_def by (auto split: if_splits)
next
  case (release z i c r d t)
  show ?case
  proof (cases "cap_intent c = AcceptOffer \<and> cap_terms_hash c = h")
    case True
    with release have "no_cap z (\<lambda>x. released x \<and> cap_terms_hash x = h)" by simp
    then show ?thesis by (auto simp: unique_cap_def no_cap_def split: if_splits)
  next
    case False
    with release.prems show ?thesis unfolding unique_cap_def by (auto split: if_splits)
  qed
next
  case (revoke z i c t)
  then show ?case unfolding unique_cap_def by (auto split: if_splits)
qed (simp_all add: unique_cap_def)

lemma filed_step:
  assumes "auth_step t z z'" "caps_filed z"
  shows "caps_filed z'"
  using assms
  by (induction rule: auth_step.induct) (fastforce simp: caps_filed_def split: if_splits)+

lemma dated_step:
  assumes "auth_step t z z'" "grants_dated z"
  shows "grants_dated z'"
  using assms
  by (induction rule: auth_step.induct)
     (fastforce simp: grants_dated_def card_fits_def split: option.splits if_splits)+

lemma fresh_terms_step:
  assumes "auth_step t z z'" "fresh_terms z" "unique_cap z flying"
  shows "fresh_terms z'"
  using assms
proof (induction rule: auth_step.induct)
  case (mint c z t r)
  then have "\<not> released c" by (simp add: released_def)
  moreover have "no_cap z (\<lambda>x. released x \<and> cap_terms_hash x = cap_terms_hash c)" if "flying c"
    using mint that by (simp add: flying_def)
  ultimately show ?case using mint.prems(1) unfolding fresh_terms_def no_cap_def
    by (auto split: if_splits) metis
next
  case (release z i c r d t)
  show ?case
  proof (cases "cap_intent c = AcceptOffer")
    case True
    with release have fly: "flying c" by (simp add: flying_def)
    have "\<not> flying d'" if "z_caps z j = Some d'" "j \<noteq> i" for j d'
      using release.prems(2) release.hyps(1) fly that unfolding unique_cap_def by blast
    then show ?thesis unfolding fresh_terms_def by (auto split: if_splits)
  next
    case False
    with release.prems(1) show ?thesis unfolding fresh_terms_def by (auto split: if_splits)
  qed
next
  case (revoke z i c t)
  then show ?case unfolding fresh_terms_def by (auto split: if_splits)
qed (simp_all add: fresh_terms_def)

lemma auth_inv_step: "auth_step t z z' \<Longrightarrow> auth_inv z \<Longrightarrow> auth_inv z'"
  by (simp add: auth_inv_def fresh_terms_step unique_flying_step unique_released_step filed_step dated_step)

lemma epoch_step: "auth_step t z z' \<Longrightarrow> z_epoch z \<le> z_epoch z'"
  by (induction rule: auth_step.induct) simp_all

lemma terminal_step:
  "auth_step t z z' \<Longrightarrow> z_status z \<in> set TERMINAL \<Longrightarrow> z_status z' = z_status z"
  by (induction rule: auth_step.induct) (simp_all add: TERMINAL_no_edge)

lemma status_step:
  assumes "auth_step t z z'"
  shows "z_status z' = z_status z \<or> may_move (z_status z) (z_status z') \<and>
    (z_status z' = VERIFIED_COMPLETE \<longrightarrow> z_complete z \<and> one_cap z released) \<and>
    (z_status z' = VERIFIED_NO_DEAL \<longrightarrow> z_complete z \<and> no_cap z released)"
  using assms by (induction rule: auth_step.induct) simp_all

inductive_cases auth_stepE: "auth_step t z z'"

end
