(* ===== verification/Llm_Contract.thy ===== *)
theory Llm_Contract
  imports Contract
begin

text \<open>
  \<open>contract/llm.py\<close> and \<open>contract/config.py\<close>: the model references and call records that
  travel in \<open>llm.call\<close> events, the request types, and the session configuration with its
  validators. Sampling temperatures and probabilities are compared with 0 and 1 only, so
  they are integers scaled by 1000 here.
\<close>

(* contract/llm.py 19-23 AdapterKind *)
datatype adapter_kind = REAL_HTTP | RECORDED_REPLAY | TEST_FAKE | BASELINE

(* contract/llm.py 27-27 Endpoint *)
datatype endpoint = Relay | Teamrouter | Vllm | Openrouter | Anthropic

(* contract/llm.py 28-28 ReasoningEffort *)
datatype effort = EffortNone | EffortMinimal | EffortLow | EffortMedium | EffortHigh

(* contract/llm.py 29-29 LLMRole *)
datatype llm_role =
    RoleFastUser | RoleFastCp | RoleSlow | RoleEar | RoleMouth | RoleSimuser | RoleTeacher

(* contract/llm.py 33-39 ModelRef *)
record model_ref =
  mr_kind :: adapter_kind
  mr_endpoint :: "endpoint option"
  mr_model_id :: string
  mr_effort :: "effort option"

(* contract/llm.py 38-47 ModelRef._endpoint *)
definition model_ref_valid :: "model_ref \<Rightarrow> bool" where
  "model_ref_valid r \<longleftrightarrow>
     1 \<le> length (mr_model_id r) \<and>
     \<not> (mr_kind r = REAL_HTTP \<and> mr_endpoint r = None) \<and>
     \<not> (mr_kind r = BASELINE \<and> mr_endpoint r \<noteq> None)"

(* contract/llm.py 110-117 Usage *)
record usage =
  us_prompt_tokens :: int
  us_completion_tokens :: int
  us_reasoning_tokens :: "int option"
  us_cache_read_tokens :: "int option"
  us_cache_write_tokens :: "int option"

definition or_zero :: "int option \<Rightarrow> int" where
  "or_zero x = (case x of None \<Rightarrow> 0 | Some n \<Rightarrow> n)"

(* contract/llm.py 111-124 Usage._within_prompt *)
definition usage_valid :: "usage \<Rightarrow> bool" where
  "usage_valid u \<longleftrightarrow>
     0 \<le> us_prompt_tokens u \<and> 0 \<le> us_completion_tokens u \<and>
     0 \<le> or_zero (us_cache_read_tokens u) \<and> 0 \<le> or_zero (us_cache_write_tokens u) \<and>
     \<not> or_zero (us_cache_read_tokens u) + or_zero (us_cache_write_tokens u) > us_prompt_tokens u"

(* contract/llm.py 127-149 LLMCallRecord *)
record llm_call_record =
  lc_call_id :: string
  lc_role :: llm_role
  lc_model_ref :: model_ref
  lc_adapter_kind :: adapter_kind
  lc_requested_model :: string
  lc_usage :: "usage option"
  lc_t_start :: int
  lc_t_first_token :: "int option"
  lc_t_end :: int
  lc_attempt :: int
  lc_error :: "string option"

(* contract/llm.py 144-160 LLMCallRecord._consistent *)
definition llm_call_valid :: "llm_call_record \<Rightarrow> bool" where
  "llm_call_valid r \<longleftrightarrow>
     lc_attempt r \<in> {0, 1} \<and>
     lc_requested_model r = mr_model_id (lc_model_ref r) \<and>
     lc_adapter_kind r = mr_kind (lc_model_ref r) \<and>
     (let first = (case lc_t_first_token r of None \<Rightarrow> lc_t_start r | Some t \<Rightarrow> t) in
      lc_t_start r \<le> first \<and> first \<le> lc_t_end r)"

(* contract/llm.py 56-61 ChatMessage *)
record chat_message =
  cm_role :: string
  cm_content :: string

(* contract/llm.py 64-67 ToolSpec *)
record tool_spec =
  ts_name :: string
  ts_description :: string

definition tool_name_re :: "string \<Rightarrow> bool" where
  "tool_name_re s \<longleftrightarrow> 1 \<le> length s \<and> length s \<le> 64 \<and> list_all ref_char s"

(* contract/llm.py 70-80 TextRequest *)
record text_request =
  tr_call_id :: string
  tr_role :: llm_role
  tr_prompt :: "string option"
  tr_messages :: "chat_message list"
  tr_max_tokens :: int
  tr_temperature_milli :: int
  tr_top_p_milli :: int

(* contract/llm.py 77-86 TextRequest._one_input *)
definition text_request_valid :: "text_request \<Rightarrow> bool" where
  "text_request_valid r \<longleftrightarrow>
     0 < tr_max_tokens r \<and> 0 \<le> tr_temperature_milli r \<and>
     0 < tr_top_p_milli r \<and> tr_top_p_milli r \<le> 1000 \<and>
     \<not> ((tr_prompt r = None) = (tr_messages r = []))"

(* contract/llm.py 89-98 ToolRequest *)
record tool_request =
  to_call_id :: string
  to_role :: llm_role
  to_messages :: "chat_message list"
  to_tools :: "tool_spec list"
  to_tool_choice :: "string option"
  to_max_tokens :: int

(* contract/llm.py 94-107 ToolRequest._choice *)
definition tool_request_valid :: "tool_request \<Rightarrow> bool" where
  "tool_request_valid r \<longleftrightarrow>
     (let names = map ts_name (to_tools r) in
      1 \<le> length (to_messages r) \<and> 1 \<le> length (to_tools r) \<and> 0 < to_max_tokens r \<and>
      list_all tool_name_re names \<and> distinct names \<and>
      (case to_tool_choice r of None \<Rightarrow> True | Some c \<Rightarrow> c \<in> set names))"

section \<open>Session configuration (contract/config.py)\<close>

(* contract/config.py 17-26 AblationId *)
datatype ablation =
    SuppressRelayUser | SuppressRelayCp | MuteFastuExplanations | TeacherRepairCp
  | TeacherRepairUser | ApprovalWithoutFastuReadback

(* contract/config.py 29-33 SlowViewMode *)
datatype slow_view_mode = Transcript | RelayOnly

(* contract/config.py 36-41 WorldModels *)
record world_models =
  wm_ear :: model_ref
  wm_mouth :: model_ref
  wm_simuser :: model_ref

(* contract/config.py 43-52 WorldModels._pinned *)
definition world_models_valid :: "world_models \<Rightarrow> bool" where
  "world_models_valid w \<longleftrightarrow>
     list_all (\<lambda>r. mr_effort r \<noteq> None) [wm_ear w, wm_mouth w, wm_simuser w]"

(* contract/config.py 61-71 SessionConfig *)
record session_config =
  sc_fast_user :: model_ref
  sc_fast_cp :: model_ref
  sc_slow :: model_ref
  sc_world :: world_models
  sc_seed :: int
  sc_ablations :: "ablation list"
  sc_slow_view :: slow_view_mode
  sc_teacher :: "model_ref option"
  sc_live :: bool

(* contract/config.py 78-95 SessionConfig._roles *)
definition session_config_valid :: "session_config \<Rightarrow> bool" where
  "session_config_valid c \<longleftrightarrow>
     ((sc_teacher c \<noteq> None) =
      (set (sc_ablations c) \<inter> {TeacherRepairCp, TeacherRepairUser} \<noteq> {})) \<and>
     (if \<not> sc_live c then True
      else
        list_all (\<lambda>r. mr_kind r = REAL_HTTP)
          ([sc_slow c, wm_ear (sc_world c), wm_mouth (sc_world c), wm_simuser (sc_world c)] @
           (case sc_teacher c of None \<Rightarrow> [] | Some t \<Rightarrow> [t])) \<and>
        list_all (\<lambda>r. mr_kind r \<in> {REAL_HTTP, BASELINE}) [sc_fast_user c, sc_fast_cp c])"

lemma live_refuses_replay:
  assumes "session_config_valid c" "sc_live c"
  shows "mr_kind (sc_slow c) = REAL_HTTP"
    and "mr_kind (wm_ear (sc_world c)) = REAL_HTTP"
    and "mr_kind (sc_fast_cp c) \<in> {REAL_HTTP, BASELINE}"
  using assms by (auto simp: session_config_valid_def)

end
