(* ===== verification/Events.thy ===== *)
theory Events
  imports Llm_Contract Canonical
begin

text \<open>
  \<open>contract/events.py\<close>: the event envelope \<open>pl.event/2\<close>, the registry of event types, the
  table of allowed emitters, and the rules that join a decision to the one
  \<open>approval.post\<close> it decides.

  A payload is a JSON object in the code. Here it is a value of the datatype \<open>payload\<close>: one
  constructor per payload shape that some operation of the model reads, and \<open>PKeys\<close> for a
  payload of which only the keys matter. \<open>payload_keys_of\<close> gives the keys a payload has, so
  the registry's required keys are checked as in the code; an operation that meets a payload
  of another shape fails with a \<open>KeyError\<close>, as reading a missing key does.
\<close>

section \<open>Payloads\<close>

datatype subject = ApprovalSubject | MandateSubject

(* contract/events.py 105-110 ApprovalPost *)
record approval_post =
  ap_subject :: subject
  ap_subject_id :: string
  ap_decision :: decision
  ap_subject_hash :: string
  ap_epoch :: int

(* contract/events.py 113-116 ApprovalDecided *)
record approval_decided =
  ad_approval_id :: string
  ad_decision :: decision
  ad_by :: approver

(* contract/events.py 119-123 MandateDecided *)
record mandate_decided =
  md_mandate_id :: string
  md_mandate_hash :: string
  md_decision :: decision
  md_by :: approver

datatype bump_reason = BumpMandateDecided | BumpSlowRevoke | BumpTighten | BumpF2sRevoke

(* contract/events.py 126-128 EpochBump *)
record epoch_bump =
  eb_new :: int
  eb_reason :: bump_reason

text \<open>The untyped payloads: a \<open>None\<close> in \<open>fp_source\<close> is an absent key.\<close>

record fact_payload =
  fp_key :: string
  fp_value :: string
  fp_source_ref :: "string option"
  fp_scope :: string
  fp_source :: "string option"

record offer_payload =
  op_offer_ref :: string
  op_revision :: int
  op_slots :: "readback_slot list"
  op_expires_ms :: "int option"

record readback_payload =
  rp_offer_ref :: string
  rp_revision :: int
  rp_slot_statuses :: "(string, slot_status) dict"
  rp_terms_hash :: "string option"

record tool_payload =
  tp_name :: string
  tp_keys :: "string list"
  tp_seconds :: int
  tp_ok :: bool

datatype payload =
    PUserMsg (user_text: string)
  | PUttFinal (uf_lane: string) (uf_speaker: string) (uf_utt_id: string) (uf_text: string)
  | PUttDelivered (ud_lane: string) (ud_utt_id: string) (ud_generated: string)
      (ud_heard: string) (ud_interrupted: bool)
  | PChan (pc_lane: string)
  | PHold (ph_lane: string) (ph_reason: "hold_reason option")
  | PF2S fast_to_slow
  | PS2F slow_to_fast
  | PS2FVoiced (sv_msg_id: string) (sv_gen_id: string)
  | PFact fact_payload
  | PSummary (su_scope: string) (su_text: string)
  | POffer offer_payload
  | PReadback readback_payload
  | PPost approval_post
  | PFence (pfe_op: string) (pfe_fence_id: string) (pfe_utt_id: string)
  | PEpoch epoch_bump
  | PMandate mandate
  | PMandateDecided mandate_decided
  | PCard approval_card
  | PApprovalDecided approval_decided
  | PAuthorized intent capability
  | PActionDenied (den_intent: string) (den_reason: string)
  | PVerbatim (pv_lane: string) (pv_kind: string) (pv_text: string)
      (pv_cap_id: "string option") (pv_offer_ref: "string option")
  | PReleased (pr_lane: string) (pr_cap_id: "string option")
  | PRevoked (pk_reason: string) (pk_cap_id: "string option")
  | PEvidence evidence
  | PStatus (ps_previous: case_status) (ps_status: case_status)
  | PCompletion completion_decision
  | PLLMCall llm_call_record
  | PFastRequest (fr_lane: string) (fr_gen_id: string) (fr_basis_seq: int)
  | PFastTurn (ft_lane: string) (ft_gen_id: string) (ft_spoke: bool)
  | PSentence (se_lane: string) (se_gen_id: string) (se_utt_id: string) (se_text: string)
  | PBargeIn (bi_lane: string) (bi_utt_id: string)
  | PFastCancelled (fc_gen_id: string) (fc_reason: string)
  | PStepStarted (ss_basis_seq: int)
  | PStepCompleted (sc_basis_seq: int)
  | PSlowTool tool_payload
  | PRepPolicy (rp_intent: string)
  | PLedgerWrite (lw_confirmation_id: string) (lw_binding: json)
  | PKeys "string list"

definition opt_key :: "string \<Rightarrow> 'a option \<Rightarrow> string list" where
  "opt_key k x = (case x of None \<Rightarrow> [] | Some _ \<Rightarrow> [k])"

text \<open>The keys of a payload; those of a pydantic model are all its fields.\<close>

fun payload_keys_of :: "payload \<Rightarrow> string list" where
  "payload_keys_of (PUserMsg _) = [''text'']"
| "payload_keys_of (PUttFinal _ _ _ _) = [''lane'', ''speaker'', ''utt_id'', ''text'']"
| "payload_keys_of (PUttDelivered _ _ _ _ _) =
     [''lane'', ''utt_id'', ''text_generated'', ''text_heard'', ''interrupted'']"
| "payload_keys_of (PChan _) = [''lane'']"
| "payload_keys_of (PHold _ _) = [''lane'', ''reason'']"
| "payload_keys_of (PS2FVoiced _ _) = [''msg_id'', ''gen_id'']"
| "payload_keys_of (PFact f) =
     [''key'', ''value'', ''source_ref'', ''scope''] @ opt_key ''source'' (fp_source f)"
| "payload_keys_of (PSummary _ _) = [''scope'', ''text'']"
| "payload_keys_of (POffer p) =
     [''offer_ref'', ''revision'', ''slots'', ''terms_hash''] @ opt_key ''expires_ms'' (op_expires_ms p)"
| "payload_keys_of (PReadback _) =
     [''offer_ref'', ''revision'', ''slot_statuses'', ''terms_hash'']"
| "payload_keys_of (PFence _ _ _) = [''op'', ''fence_id'', ''utt_id'']"
| "payload_keys_of (PActionDenied _ _) = [''intent'', ''reason'']"
| "payload_keys_of (PVerbatim _ _ _ c r) =
     [''lane'', ''kind'', ''text''] @ opt_key ''cap_id'' c @ opt_key ''offer_ref'' r"
| "payload_keys_of (PReleased _ c) = [''lane''] @ opt_key ''cap_id'' c"
| "payload_keys_of (PRevoked _ c) = [''lane'', ''reason''] @ opt_key ''cap_id'' c"
| "payload_keys_of (PEvidence _) =
     [''evidence_id'', ''kind'', ''confirmation_id'', ''terms_hash'', ''business_action_id'']"
| "payload_keys_of (PFastRequest _ _ _) =
     [''lane'', ''gen_id'', ''trigger'', ''view_sha'', ''prompt_sha'', ''profile'',
      ''model_ref'', ''basis_seq'']"
| "payload_keys_of (PFastTurn _ _ _) =
     [''lane'', ''gen_id'', ''call_id'', ''items'', ''ttft_ms'', ''ttfs_ms'']"
| "payload_keys_of (PSentence _ _ _ _) = [''lane'', ''gen_id'', ''utt_id'', ''text'']"
| "payload_keys_of (PBargeIn _ _) = [''lane'', ''utt_id'']"
| "payload_keys_of (PFastCancelled _ _) = [''gen_id'', ''reason'']"
| "payload_keys_of (PStepStarted _) = [''basis_seq'', ''wake_reasons'']"
| "payload_keys_of (PStepCompleted _) = [''basis_seq'']"
| "payload_keys_of (PSlowTool _) = [''name'', ''args'', ''result_text'', ''ok'']"
| "payload_keys_of (PRepPolicy _) = [''from'', ''to'', ''intent'', ''rung'']"
| "payload_keys_of (PLedgerWrite _ _) = [''confirmation_id'', ''binding'']"
| "payload_keys_of (PKeys ks) = ks"
| "payload_keys_of _ = []"

section \<open>The registry\<close>

(* contract/events.py 31-32 Stream *)
datatype stream = AgentStream | WorldStream | OpsStream

(* contract/events.py 35-39 EventSpec *)
record event_spec =
  es_streams :: "stream list"
  es_cause_required :: bool
  es_payload_keys :: "string list"

definition spec_row :: "string \<Rightarrow> stream list \<Rightarrow> bool \<Rightarrow> string list \<Rightarrow> string \<times> event_spec" where
  "spec_row n ss c ks = (n, \<lparr>es_streams = ss, es_cause_required = c, es_payload_keys = ks\<rparr>)"

text \<open>
  The rows of \<open>_TABLE\<close>. A \<open>*\<close> stands for the fields of the type's payload model; such a
  payload is validated through the model, so its row lists no keys here.
\<close>

(* contract/events.py 47-100 _TABLE *)
definition EVENT_TYPES :: "(string, event_spec) dict" where
  "EVENT_TYPES =
    [spec_row ''session.started'' [OpsStream] False
       [''cfg_hash'', ''task_ref'', ''instance_hash'', ''split'', ''models'', ''renderer_fp'',
        ''contract_version'', ''git_sha'', ''attest'', ''parity''],
     spec_row ''session.ended'' [OpsStream] False [''reason''],
     spec_row ''spend.charged'' [OpsStream] True [],
     spec_row ''parity.checked'' [OpsStream] False [],
     spec_row ''attest.recorded'' [OpsStream] False [],
     spec_row ''llm.call'' [AgentStream, WorldStream] True [],
     spec_row ''user.msg'' [AgentStream] False [''text''],
     spec_row ''utt.final'' [AgentStream] False [''lane'', ''speaker'', ''utt_id'', ''text''],
     spec_row ''utt.delivered'' [AgentStream] True
       [''lane'', ''utt_id'', ''text_generated'', ''text_heard'', ''interrupted''],
     spec_row ''chan.opened'' [AgentStream] True [],
     spec_row ''chan.closed'' [AgentStream] True [],
     spec_row ''chan.hold'' [AgentStream] True [],
     spec_row ''chan.strike'' [AgentStream] False [],
     spec_row ''chan.barge_in'' [AgentStream] True [],
     spec_row ''fast.request'' [AgentStream] False
       [''lane'', ''gen_id'', ''trigger'', ''view_sha'', ''prompt_sha'', ''profile'',
        ''model_ref'', ''basis_seq''],
     spec_row ''fast.turn'' [AgentStream] True
       [''lane'', ''gen_id'', ''call_id'', ''items'', ''ttft_ms'', ''ttfs_ms''],
     spec_row ''fast.sentence'' [AgentStream] True [''lane'', ''gen_id'', ''utt_id'', ''text''],
     spec_row ''fast.cancelled'' [AgentStream] True [''gen_id'', ''reason''],
     spec_row ''f2s.msg'' [AgentStream] True [],
     spec_row ''s2f.msg'' [AgentStream] True [],
     spec_row ''s2f.voiced'' [AgentStream] True [''msg_id'', ''gen_id''],
     spec_row ''slow.step.started'' [AgentStream] False [''basis_seq'', ''wake_reasons''],
     spec_row ''slow.step.completed'' [AgentStream] True [''basis_seq''],
     spec_row ''slow.tool'' [AgentStream] True [''name'', ''args'', ''result_text'', ''ok''],
     spec_row ''summary.updated'' [AgentStream] True [''scope'', ''text''],
     spec_row ''declass.denied'' [AgentStream] True [''violations''],
     spec_row ''fact.recorded'' [AgentStream] True [],
     spec_row ''offer.recorded'' [AgentStream] True
       [''offer_ref'', ''revision'', ''slots'', ''terms_hash''],
     spec_row ''readback.updated'' [AgentStream] True [''offer_ref'', ''slot_statuses''],
     spec_row ''approval.post'' [AgentStream] False [],
     spec_row ''authority.fence'' [AgentStream] True [''op'', ''fence_id'', ''utt_id''],
     spec_row ''authority.epoch'' [AgentStream] True [],
     spec_row ''mandate.proposed'' [AgentStream] True [],
     spec_row ''mandate.decided'' [AgentStream] True [],
     spec_row ''approval.requested'' [AgentStream] True [],
     spec_row ''approval.decided'' [AgentStream] True [],
     spec_row ''action.authorized'' [AgentStream] True [],
     spec_row ''action.denied'' [AgentStream] True [''intent'', ''reason''],
     spec_row ''speak.verbatim'' [AgentStream] True [''lane'', ''kind'', ''text''],
     spec_row ''speak.released'' [AgentStream] True [],
     spec_row ''speak.revoked'' [AgentStream] True [''reason''],
     spec_row ''screen.redacted'' [AgentStream] True [],
     spec_row ''evidence.recorded'' [AgentStream] True [],
     spec_row ''status.changed'' [AgentStream] True [],
     spec_row ''completion.decided'' [AgentStream] True [],
     spec_row ''rep.ear'' [WorldStream] True [''utt_id'', ''act'', ''args'', ''call_id''],
     spec_row ''rep.policy'' [WorldStream] False [''from'', ''to'', ''intent'', ''rung''],
     spec_row ''rep.mouth'' [WorldStream] True [''intent'', ''text'', ''fidelity_ok'', ''attempts''],
     spec_row ''rep.commit_heard'' [WorldStream] True [''utt_id'', ''offer_ref''],
     spec_row ''ledger.write'' [WorldStream] True [''confirmation_id'', ''binding''],
     spec_row ''user.sim'' [WorldStream] True [''text'', ''revealed'', ''delay_s'']]"

(* contract/events.py 185-187 ACTORS *)
definition ACTORS :: "string list" where
  "ACTORS =
    [''fast.user'', ''fast.cp'', ''slow'', ''guard'', ''kernel'', ''ui'', ''sim_approver'',
     ''world.ear'', ''world.policy'', ''world.mouth'', ''world.simuser'', ''world.ledger'']"

(* contract/events.py 191-216 EMITTERS *)
definition EMITTERS :: "(string, string list) dict" where
  "EMITTERS =
    [(''approval.post'', [''ui'', ''sim_approver'']),
     (''approval.decided'', [''kernel'']),
     (''user.msg'', [''kernel'']),
     (''utt.final'', [''kernel'']),
     (''utt.delivered'', [''kernel'']),
     (''chan.opened'', [''kernel'']),
     (''summary.updated'', [''guard'']),
     (''mandate.decided'', [''kernel'']),
     (''authority.fence'', [''kernel'', ''guard'']),
     (''authority.epoch'', [''kernel'', ''guard'']),
     (''mandate.proposed'', [''guard'']),
     (''approval.requested'', [''guard'']),
     (''action.authorized'', [''guard'']),
     (''speak.verbatim'', [''guard'']),
     (''speak.released'', [''kernel'']),
     (''screen.redacted'', [''guard'']),
     (''evidence.recorded'', [''guard'']),
     (''offer.recorded'', [''guard'']),
     (''readback.updated'', [''guard'']),
     (''completion.decided'', [''guard'']),
     (''status.changed'', [''guard''])]"

definition emitters_of :: "string \<Rightarrow> string list" where
  "emitters_of t = (case dget EMITTERS t of None \<Rightarrow> ACTORS | Some as \<Rightarrow> as)"

section \<open>The envelope\<close>

(* contract/events.py 223-241 Event *)
record event =
  ev_run_id :: string
  ev_seq :: int
  ev_event_id :: string
  ev_t_ms :: int
  ev_wall :: int
  ev_wall_offset :: "int option"
  ev_type :: string
  ev_actor :: string
  ev_stream :: stream
  ev_cause_ids :: "string list"
  ev_epoch :: int
  ev_payload :: payload

(* contract/events.py 219-220 event_id *)
definition event_id :: "string \<Rightarrow> int \<Rightarrow> string" where
  "event_id run_id seq = run_id @ '':'' @ dec_int seq"

text \<open>\<open>cause.rpartition(":")\<close>: what stands before and after the last colon.\<close>

definition rpart_head :: "string \<Rightarrow> string" where
  "rpart_head s = rev (tl (dropWhile (\<lambda>c. c \<noteq> CHR '':'') (rev s)))"

definition rpart_last :: "string \<Rightarrow> string" where
  "rpart_last s = rev (takeWhile (\<lambda>c. c \<noteq> CHR '':'') (rev s))"

(* contract/events.py 259-262 Event._envelope *)
definition cause_ok :: "string \<Rightarrow> int \<Rightarrow> string \<Rightarrow> bool" where
  "cause_ok run_id seq c \<longleftrightarrow>
     \<not> (rpart_head c \<noteq> run_id \<or> \<not> isdigit (rpart_last c) \<or> seq \<le> int_of_digits (rpart_last c))"

text \<open>The types with a payload model, and whether a payload passes that model.\<close>

(* contract/events.py 149-162 _MODELS *)
definition MODELS :: "string list" where
  "MODELS =
    [''llm.call'', ''f2s.msg'', ''s2f.msg'', ''approval.requested'', ''approval.post'',
     ''approval.decided'', ''mandate.proposed'', ''mandate.decided'', ''authority.epoch'',
     ''action.authorized'', ''status.changed'', ''completion.decided'']"

(* contract/events.py 131-136 MandateProposal *)
definition mandate_proposal_valid :: "mandate \<Rightarrow> bool" where
  "mandate_proposal_valid m \<longleftrightarrow>
     mandate_valid m \<and> \<not> (m_status m \<noteq> MProposed \<or> m_decided_by m \<noteq> None)"

fun model_ok :: "string \<Rightarrow> payload \<Rightarrow> bool" where
  "model_ok t (PLLMCall r) = (t = ''llm.call'' \<and> llm_call_valid r)"
| "model_ok t (PF2S m) = (t = ''f2s.msg'' \<and> f2s_valid m)"
| "model_ok t (PS2F m) = (t = ''s2f.msg'' \<and> s2f_valid m)"
| "model_ok t (PCard c) = (t = ''approval.requested'' \<and> card_valid c)"
| "model_ok t (PPost _) = (t = ''approval.post'')"
| "model_ok t (PApprovalDecided _) = (t = ''approval.decided'')"
| "model_ok t (PMandate m) = (t = ''mandate.proposed'' \<and> mandate_proposal_valid m)"
| "model_ok t (PMandateDecided _) = (t = ''mandate.decided'')"
| "model_ok t (PEpoch b) = (t = ''authority.epoch'' \<and> 1 \<le> eb_new b)"
| "model_ok t (PAuthorized _ _) = (t = ''action.authorized'')"
| "model_ok t (PStatus _ _) = (t = ''status.changed'')"
| "model_ok t (PCompletion _) = (t = ''completion.decided'')"
| "model_ok t _ = False"

(* contract/events.py 231-269 Event._envelope *)
definition validate_event :: "event \<Rightarrow> event outcome" where
  "validate_event e =
     (if ev_run_id e = [] \<or> ev_seq e < 0 \<or> ev_t_ms e < 0 \<or> ev_epoch e < 0
        then Inl (ValidationError ''Event'')
      else if ev_event_id e \<noteq> event_id (ev_run_id e) (ev_seq e)
        then Inl (ValueError ''event_id'')
      else if ev_wall_offset e = None then Inl (ValueError ''wall'')
      else case dget EVENT_TYPES (ev_type e) of
        None \<Rightarrow> Inl (ValueError ''unregistered event type'')
      | Some spec \<Rightarrow>
          if ev_stream e \<notin> set (es_streams spec) then Inl (ValueError ''stream'')
          else if (ev_stream e = WorldStream) \<noteq> starts_with ''world.'' (ev_actor e)
            then Inl (ValueError ''world actor'')
          else if es_cause_required spec \<and> ev_cause_ids e = [] then Inl (ValueError ''needs causes'')
          else if \<not> list_all (cause_ok (ev_run_id e) (ev_seq e)) (ev_cause_ids e)
            then Inl (ValueError ''cause'')
          else if ev_actor e \<notin> set (emitters_of (ev_type e)) then Inl (ValueError ''emitter'')
          else if ev_type e \<in> set MODELS then
            (if model_ok (ev_type e) (ev_payload e) then Inr e
             else Inl (ValidationError (ev_type e)))
          else if \<not> list_all (\<lambda>k. k \<in> set (payload_keys_of (ev_payload e))) (es_payload_keys spec)
            then Inl (ValueError ''payload lacks keys'')
          else Inr e)"

lemma validate_event_same: "validate_event e = Inr e' \<Longrightarrow> e' = e"
  by (auto simp: validate_event_def split: option.splits if_splits)

lemma validate_event_facts:
  assumes "validate_event e = Inr e'"
  shows "e' = e" "0 \<le> ev_seq e" "0 \<le> ev_t_ms e" "ev_event_id e = event_id (ev_run_id e) (ev_seq e)"
    "ev_actor e \<in> set (emitters_of (ev_type e))"
    "list_all (cause_ok (ev_run_id e) (ev_seq e)) (ev_cause_ids e)"
    "ev_type e \<in> set MODELS \<longrightarrow> model_ok (ev_type e) (ev_payload e)"
  using assms by (auto simp: validate_event_def split: option.splits if_splits)

text \<open>Event ids are injective in the sequence number, so a dense log has distinct ids.\<close>

lemma event_id_inj:
  assumes "event_id r i = event_id r j" "0 \<le> i" "0 \<le> j"
  shows "i = j"
proof -
  from assms have "dec (nat i) = dec (nat j)"
    by (simp add: event_id_def dec_int_def)
  then have "nat i = nat j" by (rule dec_inj)
  with assms(2,3) show ?thesis by simp
qed

section \<open>Decisions and the posts they decide\<close>

definition approver_name :: "approver \<Rightarrow> string" where
  "approver_name a = (case a of Ui \<Rightarrow> ''ui'' | SimApprover \<Rightarrow> ''sim_approver'')"

lemma approver_name_inj: "approver_name a = approver_name b \<longleftrightarrow> a = b"
  by (cases a; cases b) (simp_all add: approver_name_def)

(* contract/events.py 272-283 _decides *)
definition decides :: "event \<Rightarrow> event \<Rightarrow> bool" where
  "decides d post = (case (ev_payload d, ev_payload post) of
      (PApprovalDecided a, PPost p) \<Rightarrow>
        ap_subject p = ApprovalSubject \<and> ap_subject_id p = ad_approval_id a \<and>
        ap_decision p = ad_decision a \<and> ev_actor post = approver_name (ad_by a)
    | (PMandateDecided m, PPost p) \<Rightarrow>
        ap_subject p = MandateSubject \<and> ap_subject_id p = md_mandate_id m \<and>
        ap_decision p = md_decision m \<and> ev_actor post = approver_name (md_by m) \<and>
        ap_subject_hash p = md_mandate_hash m
    | _ \<Rightarrow> False)"

definition is_decision :: "event \<Rightarrow> bool" where
  "is_decision e \<longleftrightarrow> ev_type e \<in> {''approval.decided'', ''mandate.decided''}"

definition post_subject :: "event \<Rightarrow> subject \<times> string \<times> string" where
  "post_subject e = (case ev_payload e of
      PPost p \<Rightarrow> (ap_subject p, ap_subject_id p, ap_subject_hash p)
    | _ \<Rightarrow> (ApprovalSubject, [], []))"

definition cited_posts :: "(string, event) dict \<Rightarrow> event \<Rightarrow> event list" where
  "cited_posts seen e =
     filter (\<lambda>p. ev_type p = ''approval.post'') (List.map_filter (dget seen) (ev_cause_ids e))"

(* contract/events.py 286-304 check_causes *)
fun check_causes_from ::
  "(string, event) dict \<Rightarrow> (subject \<times> string \<times> string) list \<Rightarrow> event list \<Rightarrow> unit outcome"
where
  "check_causes_from seen decided [] = Inr ()"
| "check_causes_from seen decided (e # es) =
     (if \<not> list_all (\<lambda>c. dget seen c \<noteq> None) (ev_cause_ids e)
        then Inl (ValueError ''cites unknown events'')
      else if is_decision e then
        (case cited_posts seen e of
           [post] \<Rightarrow>
             if \<not> decides e post then Inl (ValueError ''must cite the approval.post it decides'')
             else if post_subject post \<in> set decided then Inl (ValueError ''already decided'')
             else check_causes_from (dput (ev_event_id e) e seen) (post_subject post # decided) es
         | _ \<Rightarrow> Inl (ValueError ''must cite the approval.post it decides''))
      else check_causes_from (dput (ev_event_id e) e seen) decided es)"

definition check_causes :: "event list \<Rightarrow> unit outcome" where
  "check_causes es = check_causes_from [] [] es"

end
