(* ===== verification/Capability.thy ===== *)
theory Capability
  imports Contract Canonical
begin

text \<open>
  \<open>guard/capability.py\<close>: one-use release tokens, who mints them, and their revalidation at
  release time. The SHA-256 of a text is the parameter \<open>sha\<close>.
\<close>

(* guard/capability.py 10-10 CAP_TTL_MS *)
definition CAP_TTL_MS :: int where "CAP_TTL_MS = 60000"

definition intent_name :: "intent \<Rightarrow> string" where
  "intent_name i = (case i of AcceptOffer \<Rightarrow> ''accept_offer'' | SubmitTransaction \<Rightarrow> ''submit_transaction'')"

(* guard/capability.py 13-23 business_action_id *)
definition business_action_id ::
  "(string \<Rightarrow> string) \<Rightarrow> string \<Rightarrow> intent \<Rightarrow> string \<Rightarrow> int \<Rightarrow> string \<Rightarrow> string \<Rightarrow> string"
where
  "business_action_id sha case_id i offer_id offer_revision terms_hash grant =
     hash_json sha (JList [JStr case_id, JStr (intent_name i), JStr offer_id,
                           JInt offer_revision, JStr terms_hash, JStr grant])"

(* guard/capability.py 26-36 mint *)
definition mint :: "blackboard \<Rightarrow> string \<Rightarrow> intent \<Rightarrow> string \<Rightarrow> int \<Rightarrow> capability" where
  "mint bb bid i terms_hash expires_ms =
     \<lparr>cap_id = ''cap-'' @ dec (length (bb_authorizations bb) + 1), cap_bid = bid,
      cap_intent = i, cap_terms_hash = terms_hash, cap_epoch = bb_epoch bb,
      cap_expires_ms = expires_ms, cap_consumed = False\<rparr>"

definition is_released_accept :: "capability \<Rightarrow> bool" where
  "is_released_accept c \<longleftrightarrow> cap_intent c = AcceptOffer \<and> cap_consumed c"

definition is_flying_accept :: "capability \<Rightarrow> bool" where
  "is_flying_accept c \<longleftrightarrow> cap_intent c = AcceptOffer \<and> \<not> cap_consumed c"

(* guard/capability.py 39-46 released_accept *)
definition released_accept :: "blackboard \<Rightarrow> string option \<Rightarrow> bool" where
  "released_accept bb h \<longleftrightarrow>
     list_ex (\<lambda>c. is_released_accept c \<and> (h = None \<or> h = Some (cap_terms_hash c)))
       (dvals (bb_capabilities bb))"

(* guard/capability.py 49-54 accept_in_flight *)
definition accept_in_flight :: "blackboard \<Rightarrow> bool" where
  "accept_in_flight bb \<longleftrightarrow> list_ex is_flying_accept (dvals (bb_capabilities bb))"

text \<open>The first authorization of a capability: \<open>next((a for a in ... if a.cap_id == cap_id), None)\<close>.\<close>

definition auth_of :: "blackboard \<Rightarrow> string \<Rightarrow> authorization option" where
  "auth_of bb cid = List.find (\<lambda>a. au_cap_id a = cid) (bb_authorizations bb)"

definition ref_or_empty :: "authorization \<Rightarrow> string" where
  "ref_or_empty a = (case au_offer_ref a of None \<Rightarrow> [] | Some r \<Rightarrow> r)"

(* guard/capability.py 57-76 revalidate *)
definition revalidate :: "blackboard \<Rightarrow> string \<Rightarrow> int \<Rightarrow> string option" where
  "revalidate bb cid t_release_end =
     (case dget (bb_capabilities bb) cid of
        None \<Rightarrow> Some ''unknown_capability''
      | Some cap \<Rightarrow>
          if cap_consumed cap then Some ''consumed''
          else if cap_epoch cap \<noteq> bb_epoch bb then Some ''epoch''
          else if bb_fences bb \<noteq> [] then Some ''fence''
          else
            (case (case auth_of bb cid of
                     None \<Rightarrow> None
                   | Some a \<Rightarrow> dget (offers bb) (ref_or_empty a)) of
               None \<Rightarrow> Some ''offer_closed''
             | Some off \<Rightarrow>
                 if o_status off \<noteq> OfferOpen then Some ''offer_closed''
                 else if o_terms_hash off \<noteq> Some (cap_terms_hash cap) then Some ''terms_changed''
                 else if min_present (cap_expires_ms cap) [o_expires_ms off] \<le> t_release_end
                   then Some ''expired''
                 else None))"

lemma released_accept_dcount:
  "released_accept bb (Some h) \<longleftrightarrow>
     0 < dcount (\<lambda>c. is_released_accept c \<and> cap_terms_hash c = h) (bb_capabilities bb)"
  by (simp add: released_accept_def dcount_def filter_empty_conv list_ex_iff) auto

lemma accept_in_flight_dcount:
  "accept_in_flight bb \<longleftrightarrow> 0 < dcount is_flying_accept (bb_capabilities bb)"
  using dcount_zero [of is_flying_accept "bb_capabilities bb"]
  by (auto simp: accept_in_flight_def)

text \<open>What a capability that may be released has in its favour.\<close>

lemma revalidate_None:
  assumes "revalidate bb cid t = None"
  obtains cap a off where
    "dget (bb_capabilities bb) cid = Some cap" "\<not> cap_consumed cap" "cap_epoch cap = bb_epoch bb"
    "bb_fences bb = []" "auth_of bb cid = Some a" "dget (offers bb) (ref_or_empty a) = Some off"
    "o_status off = OfferOpen" "o_terms_hash off = Some (cap_terms_hash cap)"
    "t < cap_expires_ms cap" "o_expires_ms off = None \<or> t < the (o_expires_ms off)"
proof -
  from assms obtain cap where cap: "dget (bb_capabilities bb) cid = Some cap"
    by (auto simp: revalidate_def split: option.splits)
  from assms cap obtain a off where off: "auth_of bb cid = Some a"
      "dget (offers bb) (ref_or_empty a) = Some off"
    by (auto simp: revalidate_def split: option.splits if_splits)
  with assms cap show thesis
    by (intro that [of cap a off]; cases "o_expires_ms off")
       (auto simp: revalidate_def not_le min_present_gt split: if_splits)
qed

end
