(* ===== verification/Fold.thy ===== *)
theory Fold
  imports Events Machines Status Capability
begin

text \<open>
  \<open>core/fold.py\<close>: the blackboard is a pure fold of the event log. One definition per reducer,
  named \<open>r_<reducer>\<close>; a guard that raises is an \<open>Inl\<close>. A payload of another shape than the
  reducer reads is the \<open>KeyError\<close> (or validation error) the source raises. \<open>_with\<close> validates
  the changed level again, which is what \<open>with_public\<close>, \<open>with_private\<close> and the validity
  tests below do.
\<close>

section \<open>Helpers\<close>

(* core/fold.py 64-65 _with *)
definition with_public :: "blackboard \<Rightarrow> public_state \<Rightarrow> blackboard outcome" where
  "with_public bb p = check (public_valid p) (ValidationError ''PublicState'') (bb\<lparr>bb_public := p\<rparr>)"

(* core/fold.py 226-227 _private *)
definition with_private :: "blackboard \<Rightarrow> private_state \<Rightarrow> blackboard outcome" where
  "with_private bb p = check (private_valid p) (ValidationError ''PrivateState'') (bb\<lparr>bb_private := p\<rparr>)"

(* core/fold.py 68-71 _lane *)
definition as_lane :: "string \<Rightarrow> lane outcome" where
  "as_lane s =
     (if s = ''user'' then Inr UserLane
      else if s = ''cp'' then Inr CpLane
      else Inl (ValueError ''not a lane''))"

definition as_speaker :: "string \<Rightarrow> speaker outcome" where
  "as_speaker s =
     (if s = ''partner'' then Inr Partner
      else if s = ''agent'' then Inr Agent
      else Inl (ValidationError ''Line''))"

(* core/fold.py 74-77 _append_line *)
definition append_line :: "blackboard \<Rightarrow> lane \<Rightarrow> line \<Rightarrow> blackboard" where
  "append_line bb l x =
     (let c = channel_of bb l in
      bb\<lparr>bb_channels := dput l (c\<lparr>ch_lines := ch_lines c @ [x]\<rparr>) (bb_channels bb)\<rparr>)"

definition str_of :: "string option \<Rightarrow> string" where
  "str_of x = (case x of None \<Rightarrow> ''None'' | Some s \<Rightarrow> s)"

section \<open>Conversation\<close>

(* core/fold.py 80-82 _user_msg *)
definition r_user_msg :: "blackboard \<Rightarrow> event \<Rightarrow> blackboard outcome" where
  "r_user_msg bb e = (case ev_payload e of
      PUserMsg t \<Rightarrow>
        Inr (append_line bb UserLane \<lparr>l_utt_id = ev_event_id e, l_speaker = Partner, l_text = t\<rparr>)
    | _ \<Rightarrow> Inl (KeyError ''text''))"

(* core/fold.py 85-88 _utt_final *)
definition r_utt_final :: "blackboard \<Rightarrow> event \<Rightarrow> blackboard outcome" where
  "r_utt_final bb e = (case ev_payload e of
      PUttFinal lane sp u t \<Rightarrow>
        and_then (as_lane lane) (\<lambda>l.
        and_then (as_speaker sp) (\<lambda>s.
          Inr (append_line bb l \<lparr>l_utt_id = u, l_speaker = s, l_text = t\<rparr>)))
    | _ \<Rightarrow> Inl (KeyError ''utt_id''))"

(* core/fold.py 91-97 _utt_delivered *)
definition r_utt_delivered :: "blackboard \<Rightarrow> event \<Rightarrow> blackboard outcome" where
  "r_utt_delivered bb e = (case ev_payload e of
      PUttDelivered lane u _ heard _ \<Rightarrow>
        if heard = [] then Inr bb
        else and_then (as_lane lane) (\<lambda>l.
          Inr (append_line bb l \<lparr>l_utt_id = u, l_speaker = Agent, l_text = heard\<rparr>))
    | _ \<Rightarrow> Inl (KeyError ''text_heard''))"

(* core/fold.py 100-103 _f2s *)
definition r_f2s :: "blackboard \<Rightarrow> event \<Rightarrow> blackboard outcome" where
  "r_f2s bb e = (case ev_payload e of
      PF2S m \<Rightarrow> check (f2s_valid m) (ValidationError ''FastToSlow'')
                  (bb\<lparr>bb_f2s_pending := bb_f2s_pending bb @ [m]\<rparr>)
    | _ \<Rightarrow> Inl (ValidationError ''FastToSlow''))"

definition pending_for :: "blackboard \<Rightarrow> lane \<Rightarrow> slow_to_fast list" where
  "pending_for bb l = (case dget (bb_s2f_pending bb) l of None \<Rightarrow> [] | Some ms \<Rightarrow> ms)"

(* core/fold.py 106-111 _s2f *)
definition r_s2f :: "blackboard \<Rightarrow> event \<Rightarrow> blackboard outcome" where
  "r_s2f bb e = (case ev_payload e of
      PS2F m \<Rightarrow>
        if \<not> s2f_valid m then Inl (ValidationError ''SlowToFast'')
        else
          let guides = pub_guidance_cp (bb_public bb) @
                       (case s2f_guide m of None \<Rightarrow> [] | Some g \<Rightarrow> [g]);
              newest = (if guides = [] then [] else [last guides])
          in with_public
               (bb\<lparr>bb_s2f_pending := dput (s2f_lane m) (pending_for bb (s2f_lane m) @ [m])
                                      (bb_s2f_pending bb)\<rparr>)
               ((bb_public bb)\<lparr>pub_guidance_cp := newest\<rparr>)
    | _ \<Rightarrow> Inl (ValidationError ''SlowToFast''))"

(* core/fold.py 143-149 _s2f_voiced *)
definition r_s2f_voiced :: "blackboard \<Rightarrow> event \<Rightarrow> blackboard outcome" where
  "r_s2f_voiced bb e = (case ev_payload e of
      PS2FVoiced done _ \<Rightarrow>
        Inr (bb\<lparr>bb_s2f_pending :=
                  map (\<lambda>(l, ms). (l, filter (\<lambda>m. s2f_msg_id m \<noteq> done) ms)) (bb_s2f_pending bb)\<rparr>)
    | _ \<Rightarrow> Inl (KeyError ''msg_id''))"

(* core/fold.py 131-135 _hold *)
definition r_hold :: "blackboard \<Rightarrow> event \<Rightarrow> blackboard outcome" where
  "r_hold bb e = (case ev_payload e of
      PHold _ reason \<Rightarrow>
        with_public bb
          ((bb_public bb)\<lparr>pub_cp_hold :=
             map_option (\<lambda>r. \<lparr>hold_reason_of = r, hold_since_ms = ev_t_ms e\<rparr>) reason\<rparr>)
    | _ \<Rightarrow> Inl (KeyError ''reason''))"

(* core/fold.py 138-140 _strike *)
definition r_strike :: "blackboard \<Rightarrow> event \<Rightarrow> blackboard outcome" where
  "r_strike bb e =
     (let c = channel_of bb CpLane in
      Inr (bb\<lparr>bb_channels := dput CpLane (c\<lparr>ch_strikes := ch_strikes c + 1\<rparr>) (bb_channels bb)\<rparr>))"

section \<open>Facts, summaries and offers\<close>

definition said_by_partner :: "blackboard \<Rightarrow> lane \<Rightarrow> string list" where
  "said_by_partner bb l = map l_utt_id (partner_lines (channel_of bb l))"

definition as_fact_source :: "string \<Rightarrow> fact_source outcome" where
  "as_fact_source s =
     (if s = ''cp_utt'' then Inr CpUtt
      else if s = ''shareable'' then Inr Shareable
      else Inl (ValidationError ''PublicFact''))"

(* core/fold.py 118-119 _fact *)
definition r_private_fact :: "blackboard \<Rightarrow> fact_payload \<Rightarrow> blackboard outcome" where
  "r_private_fact bb p =
     (let f = \<lparr>cf_key = fp_key p, cf_value = fp_value p, cf_protected = False,
               cf_source_ref = fp_source_ref p\<rparr> in
      if \<not> case_fact_valid f then Inl (ValidationError ''Fact'')
      else with_private bb
             ((bb_private bb)\<lparr>priv_case_facts := dput (fp_key p) f (priv_case_facts (bb_private bb))\<rparr>))"

(* core/fold.py 120-128 _fact *)
definition r_public_fact :: "blackboard \<Rightarrow> fact_payload \<Rightarrow> blackboard outcome" where
  "r_public_fact bb p =
     (case fp_source p of
        None \<Rightarrow> Inl (KeyError ''source'')
      | Some src \<Rightarrow>
          if dget (bb_channels bb) CpLane = None \<or> dget (bb_channels bb) UserLane = None
            then Inl (KeyError ''channels'')
          else if src = ''cp_utt'' \<and> fp_source_ref p \<notin> Some ` set (said_by_partner bb CpLane)
            then Inl (ValueError ''source is no rep line'')
          else if src = ''shareable'' \<and> fp_source_ref p \<notin> Some ` set (said_by_partner bb UserLane)
            then Inl (ValueError ''source is no user msg'')
          else and_then (as_fact_source src) (\<lambda>s.
            case fp_source_ref p of
              None \<Rightarrow> Inl (ValidationError ''PublicFact'')
            | Some ref \<Rightarrow>
                let f = \<lparr>pf_key = fp_key p, pf_value = fp_value p, pf_source = s, pf_source_ref = ref\<rparr> in
                if \<not> public_fact_valid f then Inl (ValidationError ''PublicFact'')
                else with_public bb
                       ((bb_public bb)\<lparr>pub_facts := dput (fp_key p) f (facts_of bb)\<rparr>)))"

(* core/fold.py 114-117 _fact *)
definition r_fact :: "blackboard \<Rightarrow> event \<Rightarrow> blackboard outcome" where
  "r_fact bb e = (case ev_payload e of
      PFact p \<Rightarrow> if fp_scope p = ''private'' then r_private_fact bb p else r_public_fact bb p
    | _ \<Rightarrow> Inl (KeyError ''key''))"

(* core/fold.py 152-158 _summary *)
definition r_summary :: "blackboard \<Rightarrow> event \<Rightarrow> blackboard outcome" where
  "r_summary bb e = (case ev_payload e of
      PSummary sc t \<Rightarrow>
        if sc = ''public'' then with_public bb ((bb_public bb)\<lparr>pub_summary := t\<rparr>)
        else if sc = ''private'' then with_private bb ((bb_private bb)\<lparr>priv_summary := t\<rparr>)
        else Inl (ValueError ''summary scope'')
    | _ \<Rightarrow> Inl (KeyError ''scope''))"

definition put_offer :: "blackboard \<Rightarrow> string \<Rightarrow> offer_public \<Rightarrow> blackboard outcome" where
  "put_offer bb ref off = with_public bb ((bb_public bb)\<lparr>pub_offers := dput ref off (offers bb)\<rparr>)"

definition revision_is_new :: "blackboard \<Rightarrow> string \<Rightarrow> int \<Rightarrow> bool" where
  "revision_is_new bb ref n =
     (case dget (offers bb) ref of None \<Rightarrow> True | Some prev \<Rightarrow> o_revision prev < n)"

(* core/fold.py 161-175 _offer *)
definition r_offer :: "blackboard \<Rightarrow> event \<Rightarrow> blackboard outcome" where
  "r_offer bb e = (case ev_payload e of
      POffer p \<Rightarrow>
        if \<not> revision_is_new bb (op_offer_ref p) (op_revision p)
          then Inl (ValueError ''revision is not new'')
        else if \<not> list_all slot_valid (op_slots p) then Inl (ValidationError ''ReadbackSlot'')
        else
          let off = \<lparr>o_ref = op_offer_ref p, o_revision = op_revision p,
                     o_slots = map (\<lambda>s. s\<lparr>rs_status := SlotUnknown\<rparr>) (op_slots p),
                     o_status = OfferOpen, o_expires_ms = op_expires_ms p, o_terms_hash = None\<rparr>
          in if \<not> offer_valid off then Inl (ValidationError ''OfferPublic'')
             else put_offer bb (op_offer_ref p) off
    | _ \<Rightarrow> Inl (KeyError ''offer_ref''))"

definition set_status :: "(string, slot_status) dict \<Rightarrow> readback_slot \<Rightarrow> readback_slot" where
  "set_status d s = (case dget d (rs_field s) of None \<Rightarrow> s | Some x \<Rightarrow> s\<lparr>rs_status := x\<rparr>)"

(* core/fold.py 386-402 _readback *)
definition r_readback :: "blackboard \<Rightarrow> event \<Rightarrow> blackboard outcome" where
  "r_readback bb e = (case ev_payload e of
      PReadback r \<Rightarrow>
        (case dget (offers bb) (rp_offer_ref r) of
           None \<Rightarrow> Inl (ValueError ''readback: not the offer'')
         | Some off \<Rightarrow>
             if o_revision off \<noteq> rp_revision r \<or>
                set (map rs_field (o_slots off)) \<noteq> set (dkeys (rp_slot_statuses r))
               then Inl (ValueError ''readback: not the offer'')
             else
               let slots = map (set_status (rp_slot_statuses r)) (o_slots off);
                   off' = off\<lparr>o_slots := slots, o_terms_hash := rp_terms_hash r\<rparr>
               in if \<not> list_all slot_valid slots then Inl (ValidationError ''ReadbackSlot'')
                  else if \<not> offer_valid off' then Inl (ValidationError ''OfferPublic'')
                  else put_offer bb (rp_offer_ref r) off')
    | _ \<Rightarrow> Inl (ValidationError ''_Readback''))"

section \<open>Fences, epochs and the status\<close>

(* core/fold.py 178-187 _fence *)
definition r_fence :: "blackboard \<Rightarrow> event \<Rightarrow> blackboard outcome" where
  "r_fence bb e = (case ev_payload e of
      PFence op fid u \<Rightarrow>
        if op = ''raised'' then
          Inr (bb\<lparr>bb_fences := bb_fences bb @ [\<lparr>fence_id = fid, fence_utt_id = u, fence_raised_seq = ev_seq e\<rparr>]\<rparr>)
        else if op = ''cleared'' then
          Inr (bb\<lparr>bb_fences := filter (\<lambda>f. fence_id f \<noteq> fid) (bb_fences bb)\<rparr>)
        else Inl (ValueError ''fence op'')
    | _ \<Rightarrow> Inl (KeyError ''op''))"

definition decided_now :: "blackboard \<Rightarrow> mandate \<Rightarrow> bool" where
  "decided_now bb m \<longleftrightarrow> m_status m \<noteq> MProposed \<and> m_epoch m = bb_epoch bb"

(* core/fold.py 190-198 _epoch *)
definition r_epoch :: "blackboard \<Rightarrow> event \<Rightarrow> blackboard outcome" where
  "r_epoch bb e = (case ev_payload e of
      PEpoch b \<Rightarrow>
        if eb_new b < 1 then Inl (ValidationError ''EpochBump'')
        else if eb_new b \<le> bb_epoch bb then Inl (ValueError ''epoch does not follow'')
        else
          (case mandate_of bb of
             Some m \<Rightarrow>
               if eb_reason b = BumpMandateDecided \<and> decided_now bb m then
                 and_then
                   (if mandate_valid (m\<lparr>m_epoch := eb_new b\<rparr>)
                    then with_private bb ((bb_private bb)\<lparr>priv_mandate := Some (m\<lparr>m_epoch := eb_new b\<rparr>)\<rparr>)
                    else Inl (ValidationError ''Mandate''))
                   (\<lambda>bb1. Inr (bb1\<lparr>bb_epoch := eb_new b\<rparr>))
               else Inr (bb\<lparr>bb_epoch := eb_new b\<rparr>)
           | None \<Rightarrow> Inr (bb\<lparr>bb_epoch := eb_new b\<rparr>))
    | _ \<Rightarrow> Inl (ValidationError ''EpochBump''))"

definition released_count :: "blackboard \<Rightarrow> nat" where
  "released_count bb = dcount is_released_accept (bb_capabilities bb)"

(* core/fold.py 202-202 _VERIFIED *)
definition VERIFIED :: "(case_status \<times> nat) list" where
  "VERIFIED = [(VERIFIED_COMPLETE, 1), (VERIFIED_NO_DEAL, 0)]"

definition completion_ok :: "blackboard \<Rightarrow> bool" where
  "completion_ok bb = (case bb_completion bb of None \<Rightarrow> False | Some c \<Rightarrow> cd_verdict c = VerdictOk)"

(* core/fold.py 205-223 _status *)
definition r_status :: "blackboard \<Rightarrow> event \<Rightarrow> blackboard outcome" where
  "r_status bb e = (case ev_payload e of
      PStatus was s \<Rightarrow>
        if was \<noteq> status_of bb then Inl (ValueError ''status.changed from another status'')
        else if \<not> may_move was s then Inl (ValueError ''not a status transition'')
        else
          (case dget VERIFIED s of
             Some n \<Rightarrow>
               if \<not> completion_ok bb \<or> released_count bb \<noteq> n
                 then Inl (ValueError ''needs a completion.decided(ok) of its kind'')
               else with_public bb ((bb_public bb)\<lparr>pub_status := s\<rparr>)
           | None \<Rightarrow> with_public bb ((bb_public bb)\<lparr>pub_status := s\<rparr>))
    | _ \<Rightarrow> Inl (ValidationError ''StatusChanged''))"

section \<open>Authority\<close>

(* core/fold.py 230-234 _mandate_proposed *)
definition r_mandate_proposed :: "blackboard \<Rightarrow> event \<Rightarrow> blackboard outcome" where
  "r_mandate_proposed bb e = (case ev_payload e of
      PMandate m \<Rightarrow>
        if \<not> mandate_valid m then Inl (ValidationError ''Mandate'')
        else if m_epoch m \<noteq> bb_epoch bb then Inl (ValueError ''mandate epoch'')
        else with_private bb ((bb_private bb)\<lparr>priv_mandate := Some m\<rparr>)
    | _ \<Rightarrow> Inl (ValidationError ''Mandate''))"

definition mandate_status_of :: "decision \<Rightarrow> mandate_status" where
  "mandate_status_of d = (case d of Granted \<Rightarrow> MGranted | Denied \<Rightarrow> MDenied)"

(* core/fold.py 237-246 _mandate_decided *)
definition r_mandate_decided :: "blackboard \<Rightarrow> event \<Rightarrow> blackboard outcome" where
  "r_mandate_decided bb e = (case ev_payload e of
      PMandateDecided d \<Rightarrow>
        (case mandate_of bb of
           None \<Rightarrow> Inl (ValueError ''no such proposed mandate'')
         | Some m \<Rightarrow>
             if (m_id m, m_hash m, m_status m, m_epoch m) \<noteq>
                (md_mandate_id d, md_mandate_hash d, MProposed, bb_epoch bb)
               then Inl (ValueError ''no such proposed mandate'')
             else
               let m' = m\<lparr>m_status := mandate_status_of (md_decision d), m_decided_by := Some (md_by d)\<rparr>
               in if \<not> mandate_valid m' then Inl (ValidationError ''Mandate'')
                  else with_private bb ((bb_private bb)\<lparr>priv_mandate := Some m'\<rparr>))
    | _ \<Rightarrow> Inl (ValidationError ''MandateDecided''))"

definition post_target :: "blackboard \<Rightarrow> approval_post \<Rightarrow> (string \<times> string \<times> int) option" where
  "post_target bb p =
     (case ap_subject p of
        ApprovalSubject \<Rightarrow>
          map_option (\<lambda>c. (card_id c, card_terms_hash c, card_epoch c)) (pending_card bb)
      | MandateSubject \<Rightarrow>
          (case mandate_of bb of
             None \<Rightarrow> None
           | Some m \<Rightarrow> if m_status m = MProposed then Some (m_id m, m_hash m, m_epoch m) else None))"

(* core/fold.py 249-263 _post *)
definition r_post :: "blackboard \<Rightarrow> event \<Rightarrow> blackboard outcome" where
  "r_post bb e = (case ev_payload e of
      PPost p \<Rightarrow>
        if post_target bb p \<noteq> Some (ap_subject_id p, ap_subject_hash p, bb_epoch bb) \<or>
           ap_epoch p \<noteq> bb_epoch bb
          then Inl (ValueError ''approval.post: not the pending subject'')
        else Inr bb
    | _ \<Rightarrow> Inl (ValidationError ''ApprovalPost''))"

text \<open>A card still describes the offer it was minted for: same revision, same terms.\<close>

definition card_is_current :: "blackboard \<Rightarrow> approval_card \<Rightarrow> bool" where
  "card_is_current bb c =
     (case dget (offers bb) (card_offer_ref c) of
        None \<Rightarrow> False
      | Some off \<Rightarrow> o_revision off = card_revision c \<and> o_terms_hash off = Some (card_terms_hash c))"

(* core/fold.py 266-276 _approval_requested *)
definition r_approval_requested :: "blackboard \<Rightarrow> event \<Rightarrow> blackboard outcome" where
  "r_approval_requested bb e = (case ev_payload e of
      PCard c \<Rightarrow>
        if \<not> card_valid c then Inl (ValidationError ''ApprovalCard'')
        else if \<not> card_is_current bb c then Inl (ValueError ''card: not the recorded offer'')
        else if card_epoch c \<noteq> bb_epoch bb then Inl (ValueError ''card: not minted in this epoch'')
        else with_private bb ((bb_private bb)\<lparr>priv_pending_approval := Some c\<rparr>)
    | _ \<Rightarrow> Inl (ValidationError ''ApprovalCard''))"

definition approval_from :: "approval_decided \<Rightarrow> approval_card \<Rightarrow> approval" where
  "approval_from d c =
     \<lparr>a_id = ad_approval_id d, a_decision = ad_decision d, a_by = ad_by d,
      a_terms_hash = card_terms_hash c, a_epoch = card_epoch c,
      a_expires_ms = Some (card_expires_ms c)\<rparr>"

(* core/fold.py 279-299 _approval_decided *)
definition r_approval_decided :: "blackboard \<Rightarrow> event \<Rightarrow> blackboard outcome" where
  "r_approval_decided bb e = (case ev_payload e of
      PApprovalDecided d \<Rightarrow>
        (case pending_card bb of
           None \<Rightarrow> Inl (ValueError ''no such pending card'')
         | Some c \<Rightarrow>
             if card_id c \<noteq> ad_approval_id d then Inl (ValueError ''no such pending card'')
             else if \<not> card_is_current bb c \<or> card_epoch c \<noteq> bb_epoch bb \<or>
                     card_expires_ms c \<le> ev_t_ms e
               then Inl (ValueError ''card is superseded, stale or expired'')
             else with_private bb
                    ((bb_private bb)\<lparr>priv_pending_approval := None,
                       priv_approvals := dput (ad_approval_id d) (approval_from d c) (approvals bb)\<rparr>))
    | _ \<Rightarrow> Inl (ValidationError ''ApprovalDecided''))"

definition offer_with_terms :: "blackboard \<Rightarrow> string \<Rightarrow> string option" where
  "offer_with_terms bb h =
     map_option fst (List.find (\<lambda>(r, off). o_terms_hash off = Some h) (offers bb))"

definition authorization_for :: "blackboard \<Rightarrow> intent \<Rightarrow> capability \<Rightarrow> authorization" where
  "authorization_for bb i cap =
     \<lparr>au_intent = i, au_offer_ref = offer_with_terms bb (cap_terms_hash cap),
      au_terms_hash = Some (cap_terms_hash cap), au_cap_id = cap_id cap, au_epoch = cap_epoch cap\<rparr>"

(* core/fold.py 302-330 _authorized *)
definition r_authorized :: "blackboard \<Rightarrow> event \<Rightarrow> blackboard outcome" where
  "r_authorized bb e = (case ev_payload e of
      PAuthorized i cap \<Rightarrow>
        if (cap_intent cap, cap_epoch cap, cap_consumed cap) \<noteq> (i, bb_epoch bb, False) \<or>
           cap_id cap \<in> set (dkeys (bb_capabilities bb))
          then Inl (ValueError ''capability: not a new one of this epoch'')
        else if cap_expires_ms cap \<le> ev_t_ms e then Inl (ValueError ''capability: expired when minted'')
        else if i = AcceptOffer \<and> released_accept bb (Some (cap_terms_hash cap))
          then Inl (ValueError ''capability: an accept was already released'')
        else if i = AcceptOffer \<and> accept_in_flight bb
          then Inl (ValueError ''capability: another accept is in flight'')
        else if offer_with_terms bb (cap_terms_hash cap) = None \<and> i = AcceptOffer
          then Inl (ValueError ''capability: no offer has these terms'')
        else
          Inr (bb\<lparr>bb_authorizations := bb_authorizations bb @ [authorization_for bb i cap],
                  bb_capabilities := dput (cap_id cap) cap (bb_capabilities bb)\<rparr>)
    | _ \<Rightarrow> Inl (ValidationError ''ActionAuthorized''))"

text \<open>\<open>payload.get("cap_id")\<close>.\<close>

fun payload_cap_id :: "payload \<Rightarrow> string option" where
  "payload_cap_id (PVerbatim _ _ _ c _) = c"
| "payload_cap_id (PReleased _ c) = c"
| "payload_cap_id (PRevoked _ c) = c"
| "payload_cap_id _ = None"

(* core/fold.py 333-339 _live_cap *)
definition live_cap :: "blackboard \<Rightarrow> event \<Rightarrow> string outcome" where
  "live_cap bb e =
     (case dget (bb_capabilities bb) (str_of (payload_cap_id (ev_payload e))) of
        None \<Rightarrow> Inl (ValueError ''capability is unknown or used'')
      | Some cap \<Rightarrow>
          if cap_consumed cap then Inl (ValueError ''capability is unknown or used'')
          else Inr (cap_id cap))"

(* core/fold.py 342-353 _verbatim *)
definition r_verbatim :: "blackboard \<Rightarrow> event \<Rightarrow> blackboard outcome" where
  "r_verbatim bb e = (case ev_payload e of
      PVerbatim _ kind _ _ ref \<Rightarrow>
        if kind = ''accept'' then and_then (live_cap bb e) (\<lambda>_. Inr bb)
        else if kind \<noteq> ''decline'' then Inr bb
        else
          (case dget (offers bb) (str_of ref) of
             None \<Rightarrow> Inl (ValueError ''decline of unknown offer'')
           | Some off \<Rightarrow>
               if \<not> offer_valid off then Inl (ValidationError ''OfferPublic'')
               else put_offer bb (str_of ref) (off\<lparr>o_status := OfferDeclined\<rparr>))
    | _ \<Rightarrow> Inl (KeyError ''kind''))"

definition use_cap :: "blackboard \<Rightarrow> capability \<Rightarrow> blackboard" where
  "use_cap bb cap =
     bb\<lparr>bb_capabilities := dput (cap_id cap) (cap\<lparr>cap_consumed := True\<rparr>) (bb_capabilities bb)\<rparr>"

text \<open>The guards of a release, after the capability was found live.\<close>

(* core/fold.py 362-374 _released *)
definition release_cap :: "blackboard \<Rightarrow> event \<Rightarrow> capability \<Rightarrow> blackboard outcome" where
  "release_cap bb e cap =
     and_then (next_where (\<lambda>a. au_cap_id a = cap_id cap) (bb_authorizations bb)) (\<lambda>a.
       case dget (offers bb) (ref_or_empty a) of
         None \<Rightarrow> Inl (ValueError ''release: closed offer'')
       | Some off \<Rightarrow>
           if cap_epoch cap \<noteq> bb_epoch bb \<or> bb_fences bb \<noteq> [] \<or> o_status off \<noteq> OfferOpen
             then Inl (ValueError ''release: stale epoch, fence or closed offer'')
           else if o_terms_hash off \<noteq> Some (cap_terms_hash cap)
             then Inl (ValueError ''release: the terms changed'')
           else if cap_expires_ms cap \<le> ev_t_ms e then Inl (ValueError ''release: expired'')
           else if cap_intent cap = AcceptOffer \<and> released_accept bb (Some (cap_terms_hash cap))
             then Inl (ValueError ''release: an accept was already released'')
           else Inr (use_cap bb cap))"

(* core/fold.py 356-361 _released *)
definition r_released :: "blackboard \<Rightarrow> event \<Rightarrow> blackboard outcome" where
  "r_released bb e =
     (if payload_cap_id (ev_payload e) = None then Inr bb
      else
        and_then (live_cap bb e) (\<lambda>cid.
          case dget (bb_capabilities bb) cid of
            None \<Rightarrow> Inl (KeyError cid)
          | Some cap \<Rightarrow> release_cap bb e cap))"

(* core/fold.py 377-383 _revoked *)
definition r_revoked :: "blackboard \<Rightarrow> event \<Rightarrow> blackboard outcome" where
  "r_revoked bb e =
     (if payload_cap_id (ev_payload e) = None then Inr bb
      else
        and_then (live_cap bb e) (\<lambda>dead.
          Inr (bb\<lparr>bb_capabilities := ddel dead (bb_capabilities bb)\<rparr>)))"

(* core/fold.py 405-406 _evidence *)
definition r_evidence :: "blackboard \<Rightarrow> event \<Rightarrow> blackboard outcome" where
  "r_evidence bb e = (case ev_payload e of
      PEvidence v \<Rightarrow> Inr (bb\<lparr>bb_evidence := bb_evidence bb @ [v]\<rparr>)
    | _ \<Rightarrow> Inl (ValidationError ''Evidence''))"

(* core/fold.py 409-410 _completion *)
definition r_completion :: "blackboard \<Rightarrow> event \<Rightarrow> blackboard outcome" where
  "r_completion bb e = (case ev_payload e of
      PCompletion d \<Rightarrow> Inr (bb\<lparr>bb_completion := Some d\<rparr>)
    | _ \<Rightarrow> Inl (ValidationError ''CompletionDecision''))"

(* core/fold.py 413-414 _record_only *)
definition r_record_only :: "blackboard \<Rightarrow> event \<Rightarrow> blackboard outcome" where
  "r_record_only bb e = Inr bb"

section \<open>The fold\<close>

(* core/fold.py 53-55 WORLD_OPS *)
definition WORLD_OPS :: "string list" where
  "WORLD_OPS = dkeys (filter (\<lambda>(n, s). AgentStream \<notin> set (es_streams s)) EVENT_TYPES)"

(* core/fold.py 56-61 RECORD_ONLY *)
definition RECORD_ONLY :: "string list" where
  "RECORD_ONLY =
    [''llm.call'', ''fast.request'', ''fast.turn'', ''fast.sentence'', ''fast.cancelled'',
     ''slow.step.started'', ''slow.step.completed'', ''slow.tool'', ''declass.denied'',
     ''chan.opened'', ''chan.closed'', ''chan.barge_in'', ''action.denied'',
     ''screen.redacted'']"

(* core/fold.py 417-447 REDUCERS *)
definition REDUCERS :: "(string \<times> (blackboard \<Rightarrow> event \<Rightarrow> blackboard outcome)) list" where
  "REDUCERS =
    map (\<lambda>n. (n, r_record_only)) RECORD_ONLY @
    [(''user.msg'', r_user_msg),
     (''utt.final'', r_utt_final),
     (''utt.delivered'', r_utt_delivered),
     (''f2s.msg'', r_f2s),
     (''s2f.msg'', r_s2f),
     (''s2f.voiced'', r_s2f_voiced),
     (''fact.recorded'', r_fact),
     (''chan.hold'', r_hold),
     (''chan.strike'', r_strike),
     (''summary.updated'', r_summary),
     (''offer.recorded'', r_offer),
     (''authority.fence'', r_fence),
     (''authority.epoch'', r_epoch),
     (''status.changed'', r_status),
     (''completion.decided'', r_completion),
     (''approval.post'', r_post),
     (''mandate.proposed'', r_mandate_proposed),
     (''mandate.decided'', r_mandate_decided),
     (''approval.requested'', r_approval_requested),
     (''approval.decided'', r_approval_decided),
     (''action.authorized'', r_authorized),
     (''speak.verbatim'', r_verbatim),
     (''speak.released'', r_released),
     (''speak.revoked'', r_revoked),
     (''readback.updated'', r_readback),
     (''evidence.recorded'', r_evidence)]"

definition reduce :: "blackboard \<Rightarrow> event \<Rightarrow> blackboard outcome" where
  "reduce bb e = (case dget REDUCERS (ev_type e) of
      None \<Rightarrow>
        if ev_type e \<in> set WORLD_OPS then Inr bb else Inl (ValueError ''no reducer'')
    | Some r \<Rightarrow> r bb e)"

(* core/fold.py 450-456 apply *)
definition apply_event :: "blackboard \<Rightarrow> event \<Rightarrow> blackboard outcome" where
  "apply_event bb e =
     and_then (reduce bb e) (\<lambda>m. Inr (m\<lparr>bb_seq := ev_seq e, bb_t_ms := ev_t_ms e\<rparr>))"

(* core/fold.py 459-463 fold *)
definition fold_log :: "event list \<Rightarrow> blackboard \<Rightarrow> blackboard outcome" where
  "fold_log es bb = run apply_event bb es"

end
