(* ===== verification/Fold_Facts.thy ===== *)
theory Fold_Facts
  imports Fold
begin

text \<open>
  What each reducer of the fold does, as inversion lemmas: a step that succeeds had the
  payload its reducer reads, passed the reducer's guards and changed only the parts named
  here. The collection \<open>reducer_simps\<close> holds them; \<open>reduce_cases\<close> splits a step by its event type.
\<close>

named_theorems reducer_simps \<open>inversion of the reducers\<close>

section \<open>A payload of the expected shape\<close>

lemma PUserMsg_case [outcome_simps]:
  "(case p of PUserMsg x \<Rightarrow> f x | _ \<Rightarrow> Inl k) = Inr y \<longleftrightarrow> (\<exists>x. p = PUserMsg x \<and> f x = Inr y)"
  by (cases p) simp_all

lemma PUttFinal_case [outcome_simps]:
  "(case p of PUttFinal x1 x2 x3 x4 \<Rightarrow> f x1 x2 x3 x4 | _ \<Rightarrow> Inl k) = Inr y \<longleftrightarrow> (\<exists>x1 x2 x3 x4. p = PUttFinal x1 x2 x3 x4 \<and> f x1 x2 x3 x4 = Inr y)"
  by (cases p) simp_all

lemma PUttDelivered_case [outcome_simps]:
  "(case p of PUttDelivered x1 x2 x3 x4 x5 \<Rightarrow> f x1 x2 x3 x4 x5 | _ \<Rightarrow> Inl k) = Inr y \<longleftrightarrow> (\<exists>x1 x2 x3 x4 x5. p = PUttDelivered x1 x2 x3 x4 x5 \<and> f x1 x2 x3 x4 x5 = Inr y)"
  by (cases p) simp_all

lemma PHold_case [outcome_simps]:
  "(case p of PHold x1 x2 \<Rightarrow> f x1 x2 | _ \<Rightarrow> Inl k) = Inr y \<longleftrightarrow> (\<exists>x1 x2. p = PHold x1 x2 \<and> f x1 x2 = Inr y)"
  by (cases p) simp_all

lemma PF2S_case [outcome_simps]:
  "(case p of PF2S x \<Rightarrow> f x | _ \<Rightarrow> Inl k) = Inr y \<longleftrightarrow> (\<exists>x. p = PF2S x \<and> f x = Inr y)"
  by (cases p) simp_all

lemma PS2F_case [outcome_simps]:
  "(case p of PS2F x \<Rightarrow> f x | _ \<Rightarrow> Inl k) = Inr y \<longleftrightarrow> (\<exists>x. p = PS2F x \<and> f x = Inr y)"
  by (cases p) simp_all

lemma PS2FVoiced_case [outcome_simps]:
  "(case p of PS2FVoiced x1 x2 \<Rightarrow> f x1 x2 | _ \<Rightarrow> Inl k) = Inr y \<longleftrightarrow> (\<exists>x1 x2. p = PS2FVoiced x1 x2 \<and> f x1 x2 = Inr y)"
  by (cases p) simp_all

lemma PFact_case [outcome_simps]:
  "(case p of PFact x \<Rightarrow> f x | _ \<Rightarrow> Inl k) = Inr y \<longleftrightarrow> (\<exists>x. p = PFact x \<and> f x = Inr y)"
  by (cases p) simp_all

lemma PSummary_case [outcome_simps]:
  "(case p of PSummary x1 x2 \<Rightarrow> f x1 x2 | _ \<Rightarrow> Inl k) = Inr y \<longleftrightarrow> (\<exists>x1 x2. p = PSummary x1 x2 \<and> f x1 x2 = Inr y)"
  by (cases p) simp_all

lemma POffer_case [outcome_simps]:
  "(case p of POffer x \<Rightarrow> f x | _ \<Rightarrow> Inl k) = Inr y \<longleftrightarrow> (\<exists>x. p = POffer x \<and> f x = Inr y)"
  by (cases p) simp_all

lemma PReadback_case [outcome_simps]:
  "(case p of PReadback x \<Rightarrow> f x | _ \<Rightarrow> Inl k) = Inr y \<longleftrightarrow> (\<exists>x. p = PReadback x \<and> f x = Inr y)"
  by (cases p) simp_all

lemma PPost_case [outcome_simps]:
  "(case p of PPost x \<Rightarrow> f x | _ \<Rightarrow> Inl k) = Inr y \<longleftrightarrow> (\<exists>x. p = PPost x \<and> f x = Inr y)"
  by (cases p) simp_all

lemma PFence_case [outcome_simps]:
  "(case p of PFence x1 x2 x3 \<Rightarrow> f x1 x2 x3 | _ \<Rightarrow> Inl k) = Inr y \<longleftrightarrow> (\<exists>x1 x2 x3. p = PFence x1 x2 x3 \<and> f x1 x2 x3 = Inr y)"
  by (cases p) simp_all

lemma PEpoch_case [outcome_simps]:
  "(case p of PEpoch x \<Rightarrow> f x | _ \<Rightarrow> Inl k) = Inr y \<longleftrightarrow> (\<exists>x. p = PEpoch x \<and> f x = Inr y)"
  by (cases p) simp_all

lemma PMandate_case [outcome_simps]:
  "(case p of PMandate x \<Rightarrow> f x | _ \<Rightarrow> Inl k) = Inr y \<longleftrightarrow> (\<exists>x. p = PMandate x \<and> f x = Inr y)"
  by (cases p) simp_all

lemma PMandateDecided_case [outcome_simps]:
  "(case p of PMandateDecided x \<Rightarrow> f x | _ \<Rightarrow> Inl k) = Inr y \<longleftrightarrow> (\<exists>x. p = PMandateDecided x \<and> f x = Inr y)"
  by (cases p) simp_all

lemma PCard_case [outcome_simps]:
  "(case p of PCard x \<Rightarrow> f x | _ \<Rightarrow> Inl k) = Inr y \<longleftrightarrow> (\<exists>x. p = PCard x \<and> f x = Inr y)"
  by (cases p) simp_all

lemma PApprovalDecided_case [outcome_simps]:
  "(case p of PApprovalDecided x \<Rightarrow> f x | _ \<Rightarrow> Inl k) = Inr y \<longleftrightarrow> (\<exists>x. p = PApprovalDecided x \<and> f x = Inr y)"
  by (cases p) simp_all

lemma PAuthorized_case [outcome_simps]:
  "(case p of PAuthorized x1 x2 \<Rightarrow> f x1 x2 | _ \<Rightarrow> Inl k) = Inr y \<longleftrightarrow> (\<exists>x1 x2. p = PAuthorized x1 x2 \<and> f x1 x2 = Inr y)"
  by (cases p) simp_all

lemma PVerbatim_case [outcome_simps]:
  "(case p of PVerbatim x1 x2 x3 x4 x5 \<Rightarrow> f x1 x2 x3 x4 x5 | _ \<Rightarrow> Inl k) = Inr y \<longleftrightarrow> (\<exists>x1 x2 x3 x4 x5. p = PVerbatim x1 x2 x3 x4 x5 \<and> f x1 x2 x3 x4 x5 = Inr y)"
  by (cases p) simp_all

lemma PEvidence_case [outcome_simps]:
  "(case p of PEvidence x \<Rightarrow> f x | _ \<Rightarrow> Inl k) = Inr y \<longleftrightarrow> (\<exists>x. p = PEvidence x \<and> f x = Inr y)"
  by (cases p) simp_all

lemma PStatus_case [outcome_simps]:
  "(case p of PStatus x1 x2 \<Rightarrow> f x1 x2 | _ \<Rightarrow> Inl k) = Inr y \<longleftrightarrow> (\<exists>x1 x2. p = PStatus x1 x2 \<and> f x1 x2 = Inr y)"
  by (cases p) simp_all

lemma PCompletion_case [outcome_simps]:
  "(case p of PCompletion x \<Rightarrow> f x | _ \<Rightarrow> Inl k) = Inr y \<longleftrightarrow> (\<exists>x. p = PCompletion x \<and> f x = Inr y)"
  by (cases p) simp_all

section \<open>Inversion of the reducers\<close>

lemma with_public_Inr [outcome_simps]:
  "with_public bb p = Inr m \<longleftrightarrow> public_valid p \<and> m = bb\<lparr>bb_public := p\<rparr>"
  by (auto simp: with_public_def outcome_simps)

lemma with_private_Inr [outcome_simps]:
  "with_private bb p = Inr m \<longleftrightarrow> private_valid p \<and> m = bb\<lparr>bb_private := p\<rparr>"
  by (auto simp: with_private_def outcome_simps)

lemma put_offer_Inr [outcome_simps]:
  "put_offer bb ref off = Inr m \<longleftrightarrow>
     public_valid ((bb_public bb)\<lparr>pub_offers := dput ref off (offers bb)\<rparr>) \<and>
     m = bb\<lparr>bb_public := (bb_public bb)\<lparr>pub_offers := dput ref off (offers bb)\<rparr>\<rparr>"
  by (auto simp: put_offer_def outcome_simps)

section \<open>Splitting a step by its event type\<close>

lemma reduce_cases:
  assumes "reduce bb e = Inr m"
  shows "(ev_type e \<in> set WORLD_OPS \<and> m = bb) \<or>
    (\<exists>r. (ev_type e, r) \<in> set REDUCERS \<and> r bb e = Inr m)"
  using assms
  by (auto simp: reduce_def outcome_simps split: option.splits if_splits dest: map_of_SomeD)

text \<open>The event types whose reducers read or write authority.\<close>

definition AUTHORITY_TYPES :: "string list" where
  "AUTHORITY_TYPES =
    [''offer.recorded'', ''authority.fence'', ''authority.epoch'', ''status.changed'',
     ''completion.decided'', ''mandate.proposed'', ''mandate.decided'', ''approval.requested'',
     ''approval.decided'', ''action.authorized'', ''speak.verbatim'', ''speak.released'',
     ''speak.revoked'', ''readback.updated'']"

text \<open>Every other step leaves all of the following alone.\<close>

definition plain_step :: "blackboard \<Rightarrow> blackboard \<Rightarrow> bool" where
  "plain_step bb m \<longleftrightarrow>
     bb_epoch m = bb_epoch bb \<and> bb_fences m = bb_fences bb \<and>
     bb_authorizations m = bb_authorizations bb \<and> bb_capabilities m = bb_capabilities bb \<and>
     offers m = offers bb \<and> status_of m = status_of bb \<and> mandate_of m = mandate_of bb \<and>
     pending_card m = pending_card bb \<and> approvals m = approvals bb \<and>
     bb_completion m = bb_completion bb"

lemma plain_refl [simp]: "plain_step bb bb"
  by (simp add: plain_step_def)

lemma plain_append_line [simp]: "plain_step bb (append_line bb l x)"
  by (simp add: plain_step_def append_line_def Let_def)

named_theorems plain_reducers

lemma plain_user_msg [plain_reducers]: "r_user_msg bb e = Inr m \<Longrightarrow> plain_step bb m"
  by (auto simp: r_user_msg_def outcome_simps)

lemma plain_utt_final [plain_reducers]: "r_utt_final bb e = Inr m \<Longrightarrow> plain_step bb m"
  by (auto simp: r_utt_final_def outcome_simps)

lemma plain_utt_delivered [plain_reducers]: "r_utt_delivered bb e = Inr m \<Longrightarrow> plain_step bb m"
  by (auto simp: r_utt_delivered_def outcome_simps split: if_splits)

lemma plain_f2s [plain_reducers]: "r_f2s bb e = Inr m \<Longrightarrow> plain_step bb m"
  by (auto simp: r_f2s_def outcome_simps plain_step_def)

lemma plain_s2f [plain_reducers]: "r_s2f bb e = Inr m \<Longrightarrow> plain_step bb m"
  by (auto simp: r_s2f_def outcome_simps plain_step_def Let_def)

lemma plain_s2f_voiced [plain_reducers]: "r_s2f_voiced bb e = Inr m \<Longrightarrow> plain_step bb m"
  by (auto simp: r_s2f_voiced_def outcome_simps plain_step_def)

lemma plain_hold [plain_reducers]: "r_hold bb e = Inr m \<Longrightarrow> plain_step bb m"
  by (auto simp: r_hold_def outcome_simps plain_step_def)

lemma plain_strike [plain_reducers]: "r_strike bb e = Inr m \<Longrightarrow> plain_step bb m"
  by (auto simp: r_strike_def plain_step_def Let_def)

lemma plain_private_fact: "r_private_fact bb p = Inr m \<Longrightarrow> plain_step bb m"
  by (auto simp: r_private_fact_def outcome_simps plain_step_def Let_def)

lemma plain_public_fact: "r_public_fact bb p = Inr m \<Longrightarrow> plain_step bb m"
  by (auto simp: r_public_fact_def outcome_simps plain_step_def Let_def
      split: option.splits if_splits)

lemma plain_fact [plain_reducers]: "r_fact bb e = Inr m \<Longrightarrow> plain_step bb m"
  by (auto simp: r_fact_def outcome_simps split: if_splits
      dest: plain_private_fact plain_public_fact)

lemma plain_summary [plain_reducers]: "r_summary bb e = Inr m \<Longrightarrow> plain_step bb m"
  by (auto simp: r_summary_def outcome_simps plain_step_def split: if_splits)

lemma plain_post [plain_reducers]: "r_post bb e = Inr m \<Longrightarrow> plain_step bb m"
  by (auto simp: r_post_def outcome_simps)

lemma plain_evidence [plain_reducers]: "r_evidence bb e = Inr m \<Longrightarrow> plain_step bb m"
  by (auto simp: r_evidence_def outcome_simps plain_step_def)

lemma plain_record_only [plain_reducers]: "r_record_only bb e = Inr m \<Longrightarrow> plain_step bb m"
  by (simp add: r_record_only_def)

lemma plain_reduce:
  assumes "reduce bb e = Inr m" "ev_type e \<notin> set AUTHORITY_TYPES"
  shows "plain_step bb m"
proof -
  consider "m = bb" | r where "(ev_type e, r) \<in> set REDUCERS" "r bb e = Inr m"
    using reduce_cases [OF assms(1)] by blast
  then show ?thesis
  proof cases
    case 2
    with assms(2) show ?thesis
      by (auto simp: REDUCERS_def RECORD_ONLY_def AUTHORITY_TYPES_def dest: plain_reducers)
  qed simp
qed

text \<open>The reducer of an authority type.\<close>

lemma reduce_authority:
  "ev_type e = ''offer.recorded'' \<Longrightarrow> reduce bb e = r_offer bb e"
  "ev_type e = ''authority.fence'' \<Longrightarrow> reduce bb e = r_fence bb e"
  "ev_type e = ''authority.epoch'' \<Longrightarrow> reduce bb e = r_epoch bb e"
  "ev_type e = ''status.changed'' \<Longrightarrow> reduce bb e = r_status bb e"
  "ev_type e = ''completion.decided'' \<Longrightarrow> reduce bb e = r_completion bb e"
  "ev_type e = ''mandate.proposed'' \<Longrightarrow> reduce bb e = r_mandate_proposed bb e"
  "ev_type e = ''mandate.decided'' \<Longrightarrow> reduce bb e = r_mandate_decided bb e"
  "ev_type e = ''approval.requested'' \<Longrightarrow> reduce bb e = r_approval_requested bb e"
  "ev_type e = ''approval.decided'' \<Longrightarrow> reduce bb e = r_approval_decided bb e"
  "ev_type e = ''action.authorized'' \<Longrightarrow> reduce bb e = r_authorized bb e"
  "ev_type e = ''speak.verbatim'' \<Longrightarrow> reduce bb e = r_verbatim bb e"
  "ev_type e = ''speak.released'' \<Longrightarrow> reduce bb e = r_released bb e"
  "ev_type e = ''speak.revoked'' \<Longrightarrow> reduce bb e = r_revoked bb e"
  "ev_type e = ''readback.updated'' \<Longrightarrow> reduce bb e = r_readback bb e"
  by (simp_all add: reduce_def REDUCERS_def RECORD_ONLY_def)

text \<open>The reducers of the types that are not authority, by name.\<close>

lemma reduce_others:
  "ev_type e = ''user.msg'' \<Longrightarrow> reduce bb e = r_user_msg bb e"
  "ev_type e = ''utt.final'' \<Longrightarrow> reduce bb e = r_utt_final bb e"
  "ev_type e = ''utt.delivered'' \<Longrightarrow> reduce bb e = r_utt_delivered bb e"
  "ev_type e = ''f2s.msg'' \<Longrightarrow> reduce bb e = r_f2s bb e"
  "ev_type e = ''s2f.msg'' \<Longrightarrow> reduce bb e = r_s2f bb e"
  "ev_type e = ''s2f.voiced'' \<Longrightarrow> reduce bb e = r_s2f_voiced bb e"
  "ev_type e = ''fact.recorded'' \<Longrightarrow> reduce bb e = r_fact bb e"
  "ev_type e = ''chan.hold'' \<Longrightarrow> reduce bb e = r_hold bb e"
  "ev_type e = ''chan.strike'' \<Longrightarrow> reduce bb e = r_strike bb e"
  "ev_type e = ''summary.updated'' \<Longrightarrow> reduce bb e = r_summary bb e"
  "ev_type e = ''approval.post'' \<Longrightarrow> reduce bb e = r_post bb e"
  "ev_type e = ''evidence.recorded'' \<Longrightarrow> reduce bb e = r_evidence bb e"
  by (simp_all add: reduce_def REDUCERS_def RECORD_ONLY_def)

lemma apply_event_Inr:
  "apply_event bb e = Inr bb' \<longleftrightarrow>
     (\<exists>m. reduce bb e = Inr m \<and> bb' = m\<lparr>bb_seq := ev_seq e, bb_t_ms := ev_t_ms e\<rparr>)"
  by (auto simp: apply_event_def outcome_simps)

lemma fold_log_Nil [simp]: "fold_log [] bb = Inr bb"
  by (simp add: fold_log_def)

lemma fold_log_snoc:
  "fold_log (es @ [e]) bb = Inr bb' \<longleftrightarrow>
     (\<exists>m. fold_log es bb = Inr m \<and> apply_event m e = Inr bb')"
  by (simp add: fold_log_def run_snoc_Inr)

end
