(* ===== verification/Log_Bus.thy ===== *)
theory Log_Bus
  imports Fold_Facts
begin

text \<open>
  \<open>core/log.py\<close> and \<open>core/bus.py\<close>: the append-only log of one run, and the bus that is its
  single writer. \<open>emit\<close> stamps the sequence number, the clock and the epoch, validates the
  envelope, folds (a rejected event is never written), appends, and queues the event for its
  subscribers; nothing follows \<open>session.ended\<close>. Writing the line to the file and flushing it
  is the append to the list; delivery to the kernel is in \<open>Kernel_Fence\<close>.
\<close>

section \<open>The log\<close>

(* core/log.py 15-26 EventLog *)
record event_log =
  lg_run_id :: string
  lg_events :: "event list"

(* core/log.py 28-30 EventLog.next_seq *)
definition next_seq :: "event_log \<Rightarrow> int" where
  "next_seq lg = int (length (lg_events lg))"

(* core/log.py 32-48 EventLog.append *)
definition log_append :: "event_log \<Rightarrow> event \<Rightarrow> event_log outcome" where
  "log_append lg e =
     and_then (validate_event e) (\<lambda>stored.
       if ev_run_id stored \<noteq> lg_run_id lg then Inl (ValueError ''event of another run'')
       else if ev_seq stored \<noteq> next_seq lg then Inl (ValueError ''seq'')
       else if lg_events lg \<noteq> [] \<and> ev_t_ms stored < ev_t_ms (last (lg_events lg))
         then Inl (ValueError ''t_ms went backwards'')
       else
         and_then (if is_decision stored then check_causes (lg_events lg @ [stored]) else Inr ())
           (\<lambda>_. Inr (lg\<lparr>lg_events := lg_events lg @ [stored]\<rparr>)))"

section \<open>The bus\<close>

text \<open>What a caller passes to \<open>emit\<close>, with the readings of the clock at that moment.\<close>

record emit_call =
  ec_t_ms :: int
  ec_wall :: int
  ec_type :: string
  ec_actor :: string
  ec_stream :: stream
  ec_payload :: payload
  ec_cause_ids :: "string list"

(* core/bus.py 29-38 Bus.__init__ *)
record bus =
  bus_bb :: blackboard
  bus_ended :: bool
  bus_log :: event_log
  bus_undelivered :: "event list"

definition new_bus :: "string \<Rightarrow> bus" where
  "new_bus run_id =
     \<lparr>bus_bb = initial_blackboard, bus_ended = False,
      bus_log = \<lparr>lg_run_id = run_id, lg_events = []\<rparr>, bus_undelivered = []\<rparr>"

(* core/bus.py 66-78 Bus.emit *)
definition stamp :: "bus \<Rightarrow> emit_call \<Rightarrow> event" where
  "stamp b c =
     (let seq = next_seq (bus_log b); run_id = lg_run_id (bus_log b) in
      \<lparr>ev_run_id = run_id, ev_seq = seq, ev_event_id = event_id run_id seq,
       ev_t_ms = ec_t_ms c, ev_wall = ec_wall c, ev_wall_offset = Some 0, ev_type = ec_type c,
       ev_actor = ec_actor c, ev_stream = ec_stream c, ev_cause_ids = ec_cause_ids c,
       ev_epoch = bb_epoch (bus_bb b), ev_payload = ec_payload c\<rparr>)"

(* core/bus.py 54-89 Bus.emit *)
definition emit :: "bus \<Rightarrow> emit_call \<Rightarrow> bus outcome" where
  "emit b c =
     (if bus_ended b then Inl (ValueError ''the session has ended'')
      else
        and_then (validate_event (stamp b c)) (\<lambda>e.
        and_then (apply_event (bus_bb b) e) (\<lambda>bb'.
        and_then (log_append (bus_log b) e) (\<lambda>lg.
          Inr \<lparr>bus_bb = bb', bus_ended = (ev_type e = ''session.ended''), bus_log = lg,
               bus_undelivered = bus_undelivered b @ [e]\<rparr>))))"

text \<open>
  A session is any sequence of calls: a call that raises leaves the bus as it was, and the
  next call finds it so.
\<close>

definition session :: "string \<Rightarrow> emit_call list \<Rightarrow> bus" where
  "session run_id cs = attempts emit (new_bus run_id) cs"

abbreviation log_of :: "bus \<Rightarrow> event list" where
  "log_of b \<equiv> lg_events (bus_log b)"

section \<open>What one successful emit does\<close>

lemma log_append_Inr:
  "log_append lg e = Inr lg' \<longleftrightarrow>
     validate_event e = Inr e \<and> ev_run_id e = lg_run_id lg \<and> ev_seq e = next_seq lg \<and>
     (lg_events lg \<noteq> [] \<longrightarrow> ev_t_ms (last (lg_events lg)) \<le> ev_t_ms e) \<and>
     (is_decision e \<longrightarrow> check_causes (lg_events lg @ [e]) = Inr ()) \<and>
     lg' = lg\<lparr>lg_events := lg_events lg @ [e]\<rparr>"
proof (cases "validate_event e")
  case (Inl x)
  then show ?thesis by (simp add: log_append_def)
next
  case (Inr e')
  then have "e' = e" by (rule validate_event_same)
  with Inr show ?thesis by (auto simp: log_append_def outcome_simps)
qed

lemma emit_Inr:
  "emit b c = Inr b' \<longleftrightarrow>
     \<not> bus_ended b \<and> validate_event (stamp b c) = Inr (stamp b c) \<and>
     apply_event (bus_bb b) (stamp b c) = Inr (bus_bb b') \<and>
     log_append (bus_log b) (stamp b c) = Inr (bus_log b') \<and>
     bus_ended b' = (ec_type c = ''session.ended'') \<and>
     bus_undelivered b' = bus_undelivered b @ [stamp b c]"
proof -
  have t: "ev_type (stamp b c) = ec_type c"
    by (simp add: stamp_def Let_def)
  have "emit b c = Inr b' \<longleftrightarrow> \<not> bus_ended b \<and>
    (\<exists>e bb lg. validate_event (stamp b c) = Inr e \<and> apply_event (bus_bb b) e = Inr bb \<and>
       log_append (bus_log b) e = Inr lg \<and>
       b' = \<lparr>bus_bb = bb, bus_ended = (ev_type e = ''session.ended''), bus_log = lg,
             bus_undelivered = bus_undelivered b @ [e]\<rparr>)"
    by (simp add: emit_def outcome_simps eq_commute [of b'])
  also have "\<dots> \<longleftrightarrow> \<not> bus_ended b \<and> validate_event (stamp b c) = Inr (stamp b c) \<and>
    (\<exists>bb lg. apply_event (bus_bb b) (stamp b c) = Inr bb \<and>
       log_append (bus_log b) (stamp b c) = Inr lg \<and>
       b' = \<lparr>bus_bb = bb, bus_ended = (ec_type c = ''session.ended''), bus_log = lg,
             bus_undelivered = bus_undelivered b @ [stamp b c]\<rparr>)"
    using validate_event_same [of "stamp b c"] t by metis
  finally show ?thesis
    by (cases b') auto
qed

lemma stamp_simps [simp]:
  "ev_seq (stamp b c) = next_seq (bus_log b)" "ev_run_id (stamp b c) = lg_run_id (bus_log b)"
  "ev_type (stamp b c) = ec_type c" "ev_payload (stamp b c) = ec_payload c"
  "ev_t_ms (stamp b c) = ec_t_ms c" "ev_epoch (stamp b c) = bb_epoch (bus_bb b)"
  "ev_actor (stamp b c) = ec_actor c" "ev_cause_ids (stamp b c) = ec_cause_ids c"
  "ev_event_id (stamp b c) = event_id (lg_run_id (bus_log b)) (next_seq (bus_log b))"
  by (simp_all add: stamp_def Let_def)

section \<open>Invariants of the log and the bus\<close>

text \<open>
  Every line of the log is a valid event of this run, its number is its place, time does not go
  back, every decision was checked against the log up to it, the blackboard is the fold of the
  log, and \<open>session.ended\<close> stands nowhere but at the end.
\<close>

definition line_ok :: "string \<Rightarrow> event list \<Rightarrow> nat \<Rightarrow> bool" where
  "line_ok r es i \<longleftrightarrow>
     ev_seq (es ! i) = int i \<and> ev_run_id (es ! i) = r \<and> validate_event (es ! i) = Inr (es ! i) \<and>
     (is_decision (es ! i) \<longrightarrow> check_causes (take (Suc i) es) = Inr ()) \<and>
     (ev_type (es ! i) = ''session.ended'' \<longrightarrow> Suc i = length es)"

definition bus_inv :: "bus \<Rightarrow> bool" where
  "bus_inv b \<longleftrightarrow>
     (\<forall>i < length (log_of b). line_ok (lg_run_id (bus_log b)) (log_of b) i) \<and>
     sorted (map ev_t_ms (log_of b)) \<and>
     fold_log (log_of b) initial_blackboard = Inr (bus_bb b) \<and>
     bus_ended b = (log_of b \<noteq> [] \<and> ev_type (last (log_of b)) = ''session.ended'')"

lemma sorted_snoc:
  fixes xs :: "'a :: linorder list"
  assumes "sorted xs" "xs \<noteq> [] \<Longrightarrow> last xs \<le> x"
  shows "sorted (xs @ [x])"
proof -
  have "y \<le> x" if "y \<in> set xs" for y
  proof -
    from that have "y \<le> last xs"
      using assms(1) by (metis append_butlast_last_id empty_iff empty_set list.set_intros(1)
          set_ConsD sorted_append set_append UnE order_refl)
    with assms(2) that show ?thesis by (cases xs) auto
  qed
  with assms(1) show ?thesis by (simp add: sorted_append)
qed

lemma bus_inv_new: "bus_inv (new_bus r)"
  by (simp add: bus_inv_def new_bus_def)

lemma emit_log: "emit b c = Inr b' \<Longrightarrow>
    log_of b' = log_of b @ [stamp b c] \<and> lg_run_id (bus_log b') = lg_run_id (bus_log b)"
  by (auto simp: emit_Inr log_append_Inr)

lemma emit_bus_inv:
  assumes inv: "bus_inv b" and emit: "emit b c = Inr b'"
  shows "bus_inv b'"
proof -
  let ?es = "log_of b" and ?e = "stamp b c" and ?r = "lg_run_id (bus_log b)"
  from emit have not_ended: "\<not> bus_ended b" and valid: "validate_event ?e = Inr ?e"
    and app: "apply_event (bus_bb b) ?e = Inr (bus_bb b')"
    and log: "log_append (bus_log b) ?e = Inr (bus_log b')"
    and ended: "bus_ended b' = (ec_type c = ''session.ended'')"
    by (auto simp: emit_Inr)
  from log have es: "log_of b' = ?es @ [?e]" and r: "lg_run_id (bus_log b') = ?r"
    and time: "?es \<noteq> [] \<longrightarrow> ev_t_ms (last ?es) \<le> ec_t_ms c"
    and causes: "is_decision ?e \<longrightarrow> check_causes (?es @ [?e]) = Inr ()"
    by (auto simp: log_append_Inr)
  have lines: "line_ok ?r (?es @ [?e]) i" if "i < Suc (length ?es)" for i
  proof (cases "i = length ?es")
    case True
    then show ?thesis
      using valid causes by (simp add: line_ok_def nth_append next_seq_def)
  next
    case False
    with that have i: "i < length ?es" by simp
    with inv have old: "line_ok ?r ?es i" by (simp add: bus_inv_def)
    have "ev_type (?es ! i) \<noteq> ''session.ended''"
    proof
      assume "ev_type (?es ! i) = ''session.ended''"
      with old have "Suc i = length ?es" by (simp add: line_ok_def)
      then have "last ?es = ?es ! i" by (metis diff_Suc_1 last_conv_nth length_0_conv nat.distinct(1))
      with inv not_ended \<open>ev_type (?es ! i) = ''session.ended''\<close> i show False
        by (auto simp: bus_inv_def)
    qed
    with old i show ?thesis by (simp add: line_ok_def nth_append)
  qed
  have "sorted (map ev_t_ms ?es @ [ec_t_ms c])"
    using inv time by (intro sorted_snoc) (auto simp: bus_inv_def last_map)
  moreover have "fold_log (?es @ [?e]) initial_blackboard = Inr (bus_bb b')"
    using inv app by (auto simp: fold_log_snoc bus_inv_def)
  ultimately show ?thesis
    using lines ended by (simp add: bus_inv_def es r)
qed

interpretation bus: guarded_machine emit bus_inv
  by unfold_locales (rule emit_bus_inv)

lemma session_bus_inv: "bus_inv (session r cs)"
  by (simp add: session_def bus.attempts_inv bus_inv_new)

lemma session_run_id: "lg_run_id (bus_log (session r cs)) = r"
proof (induction cs rule: rev_induct)
  case Nil
  then show ?case by (simp add: session_def new_bus_def)
next
  case (snoc c cs)
  then show ?case
    by (auto simp: session_def attempts_snoc attempt_def emit_log split: sum.splits)
qed

text \<open>The log only grows.\<close>

definition log_extends :: "bus \<Rightarrow> bus \<Rightarrow> bool" where
  "log_extends b b' \<longleftrightarrow> take (length (log_of b)) (log_of b') = log_of b"

interpretation bus: monotone_machine emit bus_inv log_extends
proof unfold_locales
  fix s t u
  assume "log_extends s t" "log_extends t u"
  then show "log_extends s u"
    by (metis append_eq_conv_conj append_take_drop_id log_extends_def append.assoc)
qed (auto simp: log_extends_def dest: emit_log)

end
