(* ===== verification/Decisions.thy ===== *)
theory Decisions
  imports Log_Bus
begin

text \<open>
  The decision rules of \<open>check_causes\<close> (\<open>contract/events.py\<close>) as facts about positions of the log:
  each decision cites exactly one \<open>approval.post\<close>, an earlier line, that says what it decides;
  no subject is decided twice. Also where the incremental check of \<open>EventLog.append\<close> and the
  check of a whole log agree, and where they do not.
\<close>

section \<open>Decisions cite their posts\<close>

definition seen_after :: "(string, event) dict \<Rightarrow> event list \<Rightarrow> (string, event) dict" where
  "seen_after seen es = foldl (\<lambda>d e. dput (ev_event_id e) e d) seen es"

lemma seen_after_simps [simp]:
  "seen_after seen [] = seen"
  "seen_after seen (e # es) = seen_after (dput (ev_event_id e) e seen) es"
  by (simp_all add: seen_after_def)

lemma seen_after_snoc:
  "seen_after seen (es @ [e]) = dput (ev_event_id e) e (seen_after seen es)"
  by (simp add: seen_after_def)

lemma seen_after_source:
  "dget (seen_after seen es) c = Some p \<Longrightarrow>
     dget seen c = Some p \<or> p \<in> set es \<and> ev_event_id p = c"
proof (induction es rule: rev_induct)
  case Nil
  then show ?case by simp
next
  case (snoc e es)
  then show ?case by (auto simp: seen_after_snoc dget_dput split: if_splits)
qed

definition post_at :: "(string, event) dict \<Rightarrow> event list \<Rightarrow> nat \<Rightarrow> event list" where
  "post_at seen es d = cited_posts (seen_after seen (take d es)) (es ! d)"

definition decision_ok :: "(string, event) dict \<Rightarrow> event list \<Rightarrow> nat \<Rightarrow> event \<Rightarrow> bool" where
  "decision_ok seen es d p \<longleftrightarrow> post_at seen es d = [p] \<and> decides (es ! d) p"

lemma post_at_Suc: "post_at seen (e # es) (Suc d) = post_at (dput (ev_event_id e) e seen) es d"
  by (simp add: post_at_def)

lemma decision_ok_Suc:
  "decision_ok seen (e # es) (Suc d) p = decision_ok (dput (ev_event_id e) e seen) es d p"
  by (simp add: decision_ok_def post_at_Suc)

lemma check_causes_decisions:
  assumes "check_causes_from seen done' es = Inr ()" "d < length es" "is_decision (es ! d)"
  shows "\<exists>p. decision_ok seen es d p \<and> post_subject p \<notin> set done' \<and>
    (\<forall>c < d. is_decision (es ! c) \<longrightarrow>
       (\<exists>q. decision_ok seen es c q \<and> post_subject q \<noteq> post_subject p))"
  using assms
proof (induction es arbitrary: seen done' d)
  case Nil
  then show ?case by simp
next
  case (Cons e es)
  let ?seen = "dput (ev_event_id e) e seen"
  show ?case
  proof (cases d)
    case 0
    with Cons.prems show ?thesis
      by (auto simp: decision_ok_def post_at_def split: if_splits list.splits)
  next
    case (Suc k)
    obtain done2 where rest: "check_causes_from ?seen done2 es = Inr ()"
      and sub: "set done' \<subseteq> set done2"
      and head: "is_decision e \<longrightarrow> (\<exists>q. decision_ok seen (e # es) 0 q \<and> post_subject q \<in> set done2)"
      using Cons.prems(1)
      by (cases "is_decision e")
         (fastforce simp: decision_ok_def post_at_def split: if_splits list.splits)+
    from Cons.IH [OF rest, of k] Cons.prems Suc obtain p where
      p: "decision_ok ?seen es k p" "post_subject p \<notin> set done2"
      "\<forall>c < k. is_decision (es ! c) \<longrightarrow>
         (\<exists>q. decision_ok ?seen es c q \<and> post_subject q \<noteq> post_subject p)"
      by auto
    have "\<exists>q. decision_ok seen (e # es) c q \<and> post_subject q \<noteq> post_subject p"
      if "c < d" "is_decision ((e # es) ! c)" for c
      using that head p Suc by (cases c) (auto simp: decision_ok_Suc)
    with p sub Suc show ?thesis by (auto simp: decision_ok_Suc)
  qed
qed

lemma decision_ok_prefix:
  "d < n \<Longrightarrow> decision_ok seen (take n es) d p = decision_ok seen es d p"
  by (simp add: decision_ok_def post_at_def min_def)

lemma decision_ok_post:
  assumes "decision_ok [] es d p" "d < length es"
  shows "ev_type p = ''approval.post'' \<and> (\<exists>i < d. es ! i = p)"
proof -
  from assms(1) have "p \<in> set (cited_posts (seen_after [] (take d es)) (es ! d))"
    by (simp add: decision_ok_def post_at_def)
  then obtain c where "dget (seen_after [] (take d es)) c = Some p" and t: "ev_type p = ''approval.post''"
    by (auto simp: cited_posts_def map_filter_def split: option.splits)
  then have "p \<in> set (take d es)" using seen_after_source [of "[]"] by fastforce
  with t assms(2) show ?thesis by (auto simp: in_set_conv_nth)
qed

text \<open>The causes of line \<open>d\<close> that name an earlier \<open>approval.post\<close>.\<close>

definition post_causes :: "event list \<Rightarrow> nat \<Rightarrow> string list" where
  "post_causes es d =
     filter (\<lambda>c. list_ex (\<lambda>p. ev_event_id p = c \<and> ev_type p = ''approval.post'') (take d es)) (ev_cause_ids (es ! d))"

lemma seen_after_distinct:
  assumes "distinct (map ev_event_id es)"
  shows "dget (seen_after [] es) c = Some p \<longleftrightarrow> p \<in> set es \<and> ev_event_id p = c"
proof
  assume "dget (seen_after [] es) c = Some p"
  then show "p \<in> set es \<and> ev_event_id p = c" using seen_after_source [of "[]" es c p] by simp
next
  show "p \<in> set es \<and> ev_event_id p = c \<Longrightarrow> dget (seen_after [] es) c = Some p" using assms
  proof (induction es rule: rev_induct)
    case (snoc e es)
    show ?case
    proof (cases "p = e")
      case True
      then show ?thesis using snoc.prems by (simp add: seen_after_snoc dget_dput)
    next
      case False
      then have "p \<in> set es" "ev_event_id e \<noteq> c" using snoc.prems by (auto simp: rev_image_eqI)
      then show ?thesis using snoc by (simp add: seen_after_snoc dget_dput)
    qed
  qed simp
qed

lemma map_cited:
  assumes "\<And>c p. g c = Some p \<Longrightarrow> ev_event_id p = c"
  shows "map ev_event_id (filter T (List.map_filter g cs)) = filter (\<lambda>c. case g c of None \<Rightarrow> False | Some p \<Rightarrow> T p) cs"
  using assms by (induction cs) (auto simp: List.map_filter_simps split: option.split)

lemma decision_cites_once:
  assumes "decision_ok [] es d p" "distinct (map ev_event_id es)"
  shows "post_causes es d = [ev_event_id p]"
proof -
  let ?seen = "seen_after [] (take d es)"
  have dist: "distinct (map ev_event_id (take d es))" using assms(2) by (simp add: take_map [symmetric])
  note seen = seen_after_distinct [OF dist]
  have "map ev_event_id (cited_posts ?seen (es ! d)) = filter (\<lambda>c. case dget ?seen c of None \<Rightarrow> False
      | Some p \<Rightarrow> ev_type p = ''approval.post'') (ev_cause_ids (es ! d))"
    unfolding cited_posts_def by (rule map_cited) (simp add: seen)
  moreover have "(case dget ?seen c of None \<Rightarrow> False | Some p \<Rightarrow> ev_type p = ''approval.post'') \<longleftrightarrow>
      list_ex (\<lambda>p. ev_event_id p = c \<and> ev_type p = ''approval.post'') (take d es)" for c
  proof (cases "dget ?seen c")
    case None
    then show ?thesis using seen [of c] by (auto simp: list_ex_iff)
  next
    case (Some p)
    then have "q = p" if "q \<in> set (take d es)" "ev_event_id q = c" for q using seen [of c q] that by simp
    then show ?thesis using Some seen [of c p] by (auto simp: list_ex_iff)
  qed
  ultimately show ?thesis using assms(1) by (simp add: decision_ok_def post_at_def post_causes_def)
qed

text \<open>On a log every decision of which was checked when it was appended.\<close>

lemma checked_decisions:
  assumes "\<forall>i < length es. is_decision (es ! i) \<longrightarrow> check_causes (take (Suc i) es) = Inr ()"
    and "distinct (map ev_event_id es)"
  shows "\<exists>post. \<forall>d < length es. is_decision (es ! d) \<longrightarrow>
    post d < d \<and> ev_type (es ! post d) = ''approval.post'' \<and> decides (es ! d) (es ! post d) \<and>
    post_causes es d = [ev_event_id (es ! post d)] \<and>
    (\<forall>c < d. is_decision (es ! c) \<longrightarrow> post_subject (es ! post c) \<noteq> post_subject (es ! post d))"
proof -
  have ok: "\<exists>p. decision_ok [] es d p \<and>
      (\<forall>c < d. is_decision (es ! c) \<longrightarrow>
         (\<exists>q. decision_ok [] es c q \<and> post_subject q \<noteq> post_subject p))"
    if "d < length es" "is_decision (es ! d)" for d
    using check_causes_decisions [of "[]" "[]" "take (Suc d) es" d] assms(1) that
    by (auto simp: check_causes_def decision_ok_prefix min_def)
  have "\<forall>d. \<exists>i. d < length es \<and> is_decision (es ! d) \<longrightarrow>
      i < d \<and> ev_type (es ! i) = ''approval.post'' \<and> decision_ok [] es d (es ! i)"
  proof
    fix d
    show "\<exists>i. d < length es \<and> is_decision (es ! d) \<longrightarrow>
      i < d \<and> ev_type (es ! i) = ''approval.post'' \<and> decision_ok [] es d (es ! i)"
      using ok [of d] decision_ok_post [of es d] by blast
  qed
  then obtain post where post: "\<And>d. d < length es \<Longrightarrow> is_decision (es ! d) \<Longrightarrow>
      post d < d \<and> ev_type (es ! post d) = ''approval.post'' \<and> decision_ok [] es d (es ! post d)"
    by metis
  have "post_subject (es ! post c) \<noteq> post_subject (es ! post d)"
    if "d < length es" "is_decision (es ! d)" "c < d" "is_decision (es ! c)" for c d
  proof -
    from that post [of c] post [of d] have
      "decision_ok [] es c (es ! post c)" "decision_ok [] es d (es ! post d)" by auto
    with ok [of d] that show ?thesis by (auto simp: decision_ok_def)
  qed
  with post decision_cites_once [OF _ assms(2)] show ?thesis
    by (intro exI [of _ post]) (auto simp: decision_ok_def)
qed

section \<open>The whole-log check\<close>

text \<open>
  \<open>EventLog.append\<close> runs \<open>check_causes\<close> only for decisions, since "causes are earlier seqs of
  this run, so all exist in a dense log". For causes written as \<open>event_id\<close> writes them that is
  so, and the check of the whole log then succeeds.
\<close>

definition canonical_causes :: "string \<Rightarrow> event \<Rightarrow> bool" where
  "canonical_causes r e \<longleftrightarrow>
     list_all (\<lambda>c. list_ex (\<lambda>j. c = event_id r (int j)) [0 ..< nat (ev_seq e)]) (ev_cause_ids e)"

lemma seen_after_known:
  "p \<in> set es \<Longrightarrow> dget (seen_after seen es) (ev_event_id p) \<noteq> None"
proof (induction es rule: rev_induct)
  case Nil
  then show ?case by simp
next
  case (snoc e es)
  then show ?case by (auto simp: seen_after_snoc dget_dput)
qed

lemma check_causes_snoc_plain:
  assumes "check_causes_from seen done' es = Inr ()" "\<not> is_decision e"
    "list_all (\<lambda>c. dget (seen_after seen es) c \<noteq> None) (ev_cause_ids e)"
  shows "check_causes_from seen done' (es @ [e]) = Inr ()"
  using assms
proof (induction es arbitrary: seen done')
  case Nil
  then show ?case by simp
next
  case (Cons x es)
  then show ?case by (auto split: if_splits list.splits)
qed

lemma validated_id: "validate_event e = Inr e \<Longrightarrow> ev_event_id e = event_id (ev_run_id e) (ev_seq e)"
  by (rule validate_event_facts(4))

lemma canonical_log_checks:
  assumes lines: "\<forall>i < length es. line_ok r es i" and can: "list_all (canonical_causes r) es"
    and n: "n \<le> length es"
  shows "check_causes (take n es) = Inr ()"
  using n
proof (induction n)
  case 0
  then show ?case by (simp add: check_causes_def)
next
  case (Suc n)
  let ?e = "es ! n"
  from Suc.prems have n: "n < length es" by simp
  then have split: "take (Suc n) es = take n es @ [?e]" by (simp add: take_Suc_conv_app_nth)
  show ?case
  proof (cases "is_decision ?e")
    case True
    with lines n show ?thesis by (simp add: line_ok_def)
  next
    case False
    have "dget (seen_after [] (take n es)) c \<noteq> None" if c: "c \<in> set (ev_cause_ids ?e)" for c
    proof -
      have seq: "ev_seq ?e = int n" using lines n by (simp add: line_ok_def)
      from can n have "canonical_causes r ?e" by (simp add: list_all_length)
      with c obtain j where j: "j < n" "c = event_id r (int j)"
        by (auto simp: canonical_causes_def list_all_iff list_ex_iff seq)
      with lines n have "ev_event_id (es ! j) = c"
        using validated_id [of "es ! j"] by (simp add: line_ok_def)
      moreover have "es ! j \<in> set (take n es)"
        using j n by (metis in_set_conv_nth length_take less_imp_le min.absorb2 nth_take)
      ultimately show ?thesis using seen_after_known [of "es ! j"] by blast
    qed
    with Suc n False show ?thesis
      by (auto simp: split check_causes_def list_all_iff intro!: check_causes_snoc_plain)
  qed
qed

end
