(* ===== verification/Fold_Refine.thy ===== *)
theory Fold_Refine
  imports Authority_Spec Decisions
begin

text \<open>
  The fold of \<open>core/fold.py\<close> implements the abstract authority: \<open>abs_auth\<close> reads the abstract
  state off a blackboard, \<open>wf_bb\<close> says its dictionaries are well formed, and every validated
  event that \<open>apply_event\<close> accepts is an abstract step. Invariants proved on the abstract steps
  so hold of every blackboard a bus reaches.
\<close>

section \<open>The abstraction\<close>

definition deal_of :: "offer_public \<Rightarrow> deal" where
  "deal_of off = \<lparr>d_revision = o_revision off, d_status = o_status off, d_terms = o_terms_hash off\<rparr>"

lemma deal_of_simps [simp]:
  "d_revision (deal_of x) = o_revision x" "d_status (deal_of x) = o_status x"
  "d_terms (deal_of x) = o_terms_hash x"
  by (simp_all add: deal_of_def)

definition abs_auth :: "blackboard \<Rightarrow> authority" where
  "abs_auth bb =
     \<lparr>z_epoch = bb_epoch bb, z_fences = fence_id ` set (bb_fences bb),
      z_offers = (\<lambda>r. map_option deal_of (dget (offers bb) r)),
      z_caps = dget (bb_capabilities bb),
      z_lines = (\<lambda>c. map_option ref_or_empty (auth_of bb c)),
      z_card = pending_card bb, z_mandate = mandate_of bb, z_decided = dget (approvals bb),
      z_status = status_of bb, z_complete = completion_ok bb\<rparr>"

lemma abs_auth_simps [simp]:
  "z_epoch (abs_auth bb) = bb_epoch bb" "z_fences (abs_auth bb) = fence_id ` set (bb_fences bb)"
  "z_offers (abs_auth bb) r = map_option deal_of (dget (offers bb) r)"
  "z_caps (abs_auth bb) = dget (bb_capabilities bb)"
  "z_lines (abs_auth bb) i = map_option ref_or_empty (auth_of bb i)"
  "z_card (abs_auth bb) = pending_card bb" "z_mandate (abs_auth bb) = mandate_of bb"
  "z_decided (abs_auth bb) = dget (approvals bb)" "z_status (abs_auth bb) = status_of bb"
  "z_complete (abs_auth bb) = completion_ok bb"
  by (simp_all add: abs_auth_def)

definition wf_bb :: "blackboard \<Rightarrow> bool" where
  "wf_bb bb \<longleftrightarrow> wf_dict (offers bb) \<and> wf_dict (bb_capabilities bb)"

lemma wf_initial: "wf_bb initial_blackboard"
  by (simp add: wf_bb_def initial_defs)

lemma flying_eq: "is_flying_accept = flying"
  by (rule ext) (simp add: is_flying_accept_def flying_def)

lemma released_eq: "is_released_accept = released"
  by (rule ext) (simp add: is_released_accept_def released_def)

section \<open>Tests on dictionaries as tests on the abstract maps\<close>

lemma vals_iff:
  "wf_dict d \<Longrightarrow> v \<in> set (dvals d) \<longleftrightarrow> (\<exists>k. dget d k = Some v)"
  by (force dest: map_of_SomeD)

lemma no_cap_abs:
  "wf_bb bb \<Longrightarrow> no_cap (abs_auth bb) P \<longleftrightarrow> \<not> list_ex P (dvals (bb_capabilities bb))"
  by (auto simp: no_cap_def list_ex_iff wf_bb_def vals_iff)

lemma released_accept_abs:
  "wf_bb bb \<Longrightarrow>
     released_accept bb (Some h) \<longleftrightarrow>
     \<not> no_cap (abs_auth bb) (\<lambda>x. released x \<and> cap_terms_hash x = h)"
  by (simp add: no_cap_abs released_accept_def released_eq eq_commute [of h])

lemma accept_in_flight_abs:
  "wf_bb bb \<Longrightarrow> accept_in_flight bb \<longleftrightarrow> \<not> no_cap (abs_auth bb) flying"
  by (simp add: no_cap_abs accept_in_flight_def flying_eq)

lemma offer_with_terms_abs:
  assumes "wf_bb bb" "offer_with_terms bb h = Some r"
  shows "has_terms (abs_auth bb) r h"
proof -
  from assms(2) obtain off where "List.find (\<lambda>(r, off). o_terms_hash off = Some h) (offers bb) = Some (r, off)"
    by (auto simp: offer_with_terms_def)
  then have "(r, off) \<in> set (offers bb)" "o_terms_hash off = Some h"
    by (auto dest: find_SomeD)
  with assms(1) show ?thesis by (auto simp: has_terms_def wf_bb_def)
qed

lemma card_is_current_abs:
  "card_is_current bb c \<and> card_epoch c = bb_epoch bb \<longleftrightarrow> card_fits (abs_auth bb) c"
  by (auto simp: card_is_current_def card_fits_def split: option.splits)

lemma dcount_one_unique:
  assumes "wf_dict d"
  shows "dcount P d = 1 \<longleftrightarrow> (\<exists>!k. \<exists>v. dget d k = Some v \<and> P v)"
  using assms
proof (induction d)
  case Nil
  then show ?case by auto
next
  case (Cons p d)
  obtain k v where p: "p = (k, v)" by (cases p)
  with Cons.prems have fresh: "dget d k = None" and wf: "wf_dict d"
    by (auto simp: dget_None_keys)
  show ?case
  proof (cases "P v")
    case True
    have "dcount P (p # d) = 1 \<longleftrightarrow> dcount P d = 0" using True by (simp add: p)
    also have "\<dots> \<longleftrightarrow> (\<forall>j w. dget d j = Some w \<longrightarrow> \<not> P w)"
      using wf by (auto simp: dcount_zero list_ex_iff vals_iff)
    also have "\<dots> \<longleftrightarrow> (\<forall>j. (\<exists>w. dget d j = Some w \<and> P w) \<longrightarrow> j = k)"
      using fresh by (metis option.distinct(1))
    also have "\<dots> \<longleftrightarrow> (\<exists>!j. j = k \<or> (\<exists>w. dget d j = Some w \<and> P w))"
      by blast
    also have "\<dots> \<longleftrightarrow> (\<exists>!j. \<exists>w. dget (p # d) j = Some w \<and> P w)"
    proof -
      have "(j = k \<or> (\<exists>w. dget d j = Some w \<and> P w)) = (\<exists>w. dget (p # d) j = Some w \<and> P w)" for j
        using True fresh by (auto simp: p)
      then show ?thesis by simp
    qed
    finally show ?thesis .
  next
    case False
    have "(\<exists>w. dget (p # d) j = Some w \<and> P w) \<longleftrightarrow> (\<exists>w. dget d j = Some w \<and> P w)" for j
      using False fresh by (auto simp: p)
    with Cons.IH [OF wf] False show ?thesis by (simp add: p)
  qed
qed

lemma released_one_abs:
  "wf_bb bb \<Longrightarrow> released_count bb = 1 \<longleftrightarrow> one_cap (abs_auth bb) released"
  by (simp only: released_count_def dcount_one_unique wf_bb_def one_cap_def released_eq abs_auth_simps)

lemma released_none_abs:
  "wf_bb bb \<Longrightarrow> released_count bb = 0 \<longleftrightarrow> no_cap (abs_auth bb) released"
  by (simp add: released_count_def dcount_zero no_cap_abs released_eq)

section \<open>What an update of the blackboard does to the abstraction\<close>

named_theorems abs_updates

lemma abs_offer [abs_updates]:
  "abs_auth (bb\<lparr>bb_public := (bb_public bb)\<lparr>pub_offers := dput r off (offers bb)\<rparr>\<rparr>) =
   (abs_auth bb)\<lparr>z_offers := (z_offers (abs_auth bb))(r \<mapsto> deal_of off)\<rparr>"
  by (simp add: abs_auth_def auth_of_def completion_ok_def dict_simps fun_eq_iff)

lemma abs_status [abs_updates]:
  "abs_auth (bb\<lparr>bb_public := (bb_public bb)\<lparr>pub_status := s\<rparr>\<rparr>) = (abs_auth bb)\<lparr>z_status := s\<rparr>"
  by (simp add: abs_auth_def auth_of_def completion_ok_def)

lemma abs_epoch [abs_updates]:
  "abs_auth (bb\<lparr>bb_epoch := n\<rparr>) = (abs_auth bb)\<lparr>z_epoch := n\<rparr>"
  by (simp add: abs_auth_def auth_of_def completion_ok_def)

lemma abs_mandate [abs_updates]:
  "abs_auth (bb\<lparr>bb_private := (bb_private bb)\<lparr>priv_mandate := m\<rparr>\<rparr>) = (abs_auth bb)\<lparr>z_mandate := m\<rparr>"
  by (simp add: abs_auth_def auth_of_def completion_ok_def)

lemma abs_card [abs_updates]:
  "abs_auth (bb\<lparr>bb_private := (bb_private bb)\<lparr>priv_pending_approval := c\<rparr>\<rparr>) =
   (abs_auth bb)\<lparr>z_card := c\<rparr>"
  by (simp add: abs_auth_def auth_of_def completion_ok_def)

lemma abs_decided [abs_updates]:
  "abs_auth (bb\<lparr>bb_private := (bb_private bb)\<lparr>priv_pending_approval := None,
      priv_approvals := dput i a (approvals bb)\<rparr>\<rparr>) =
   (abs_auth bb)\<lparr>z_card := None, z_decided := (z_decided (abs_auth bb))(i \<mapsto> a)\<rparr>"
  by (simp add: abs_auth_def auth_of_def completion_ok_def dict_simps fun_eq_iff)

lemma abs_fences [abs_updates]:
  "abs_auth (bb\<lparr>bb_fences := fs\<rparr>) = (abs_auth bb)\<lparr>z_fences := fence_id ` set fs\<rparr>"
  by (simp add: abs_auth_def auth_of_def completion_ok_def)

lemma abs_caps [abs_updates]:
  "abs_auth (bb\<lparr>bb_capabilities := cs\<rparr>) = (abs_auth bb)\<lparr>z_caps := dget cs\<rparr>"
  by (simp add: abs_auth_def auth_of_def completion_ok_def)

lemma abs_completion [abs_updates]:
  "abs_auth (bb\<lparr>bb_completion := Some d\<rparr>) = (abs_auth bb)\<lparr>z_complete := (cd_verdict d = VerdictOk)\<rparr>"
  by (simp add: abs_auth_def auth_of_def completion_ok_def)

lemma auth_of_snoc:
  "List.find P (xs @ [a]) = (case List.find P xs of None \<Rightarrow> if P a then Some a else None | Some x \<Rightarrow> Some x)"
  by (induction xs) auto

lemma abs_minted [abs_updates]:
  "abs_auth (bb\<lparr>bb_authorizations := bb_authorizations bb @ [a], bb_capabilities := cs\<rparr>) =
   (abs_auth bb)\<lparr>z_caps := dget cs,
      z_lines := (case z_lines (abs_auth bb) (au_cap_id a) of
        None \<Rightarrow> (z_lines (abs_auth bb))(au_cap_id a \<mapsto> ref_or_empty a)
      | Some _ \<Rightarrow> z_lines (abs_auth bb))\<rparr>"
  by (auto simp: abs_auth_def auth_of_def auth_of_snoc completion_ok_def fun_eq_iff
      split: option.splits)

lemma abs_stamped [simp]: "abs_auth (bb\<lparr>bb_seq := i, bb_t_ms := t\<rparr>) = abs_auth bb"
  by (simp add: abs_auth_def auth_of_def completion_ok_def)

lemma plain_abs: "plain_step bb m \<Longrightarrow> abs_auth m = abs_auth bb"
  by (simp add: plain_step_def abs_auth_def auth_of_def completion_ok_def)

section \<open>Each reducer is an abstract step\<close>

lemma auth_step_to: "auth_step t z y \<Longrightarrow> y = z' \<Longrightarrow> auth_step t z z'"
  by simp

lemma offer_refines:
  assumes "r_offer bb e = Inr m"
  shows "auth_step t (abs_auth bb) (abs_auth m)"
proof -
  from assms obtain p where p: "ev_payload e = POffer p"
    by (auto simp: r_offer_def outcome_simps)
  from assms p have new: "revision_is_new bb (op_offer_ref p) (op_revision p)"
    and m: "\<exists>sl. m = bb\<lparr>bb_public := (bb_public bb)\<lparr>pub_offers := dput (op_offer_ref p)
        \<lparr>o_ref = op_offer_ref p, o_revision = op_revision p, o_slots = sl, o_status = OfferOpen,
         o_expires_ms = op_expires_ms p, o_terms_hash = None\<rparr> (offers bb)\<rparr>\<rparr>"
    by (auto simp: r_offer_def outcome_simps Let_def)
  from new have "auth_step t (abs_auth bb) ((abs_auth bb)\<lparr>z_offers := (z_offers (abs_auth bb))
      (op_offer_ref p \<mapsto> \<lparr>d_revision = op_revision p, d_status = OfferOpen, d_terms = None\<rparr>)\<rparr>)"
    by (intro auth_step.record_offer) (auto simp: revision_is_new_def)
  with m show ?thesis by (auto simp: abs_updates deal_of_def)
qed

lemma readback_refines:
  assumes "r_readback bb e = Inr m"
  shows "auth_step t (abs_auth bb) (abs_auth m)"
proof -
  from assms obtain p where p: "ev_payload e = PReadback p"
    by (auto simp: r_readback_def outcome_simps)
  with assms obtain off where off: "dget (offers bb) (rp_offer_ref p) = Some off"
    by (auto simp: r_readback_def split: option.splits)
  from assms p off have m: "\<exists>sl. m = bb\<lparr>bb_public := (bb_public bb)\<lparr>pub_offers := dput (rp_offer_ref p)
        (off\<lparr>o_slots := sl, o_terms_hash := rp_terms_hash p\<rparr>) (offers bb)\<rparr>\<rparr>"
    by (auto simp: r_readback_def outcome_simps Let_def split: if_splits)
  from off have "auth_step t (abs_auth bb) ((abs_auth bb)\<lparr>z_offers := (z_offers (abs_auth bb))
      (rp_offer_ref p \<mapsto> (deal_of off)\<lparr>d_terms := rp_terms_hash p\<rparr>)\<rparr>)"
    by (intro auth_step.bind_terms) simp
  with m show ?thesis by (auto simp: abs_updates deal_of_def)
qed

lemma verbatim_refines:
  assumes "r_verbatim bb e = Inr m"
  shows "auth_step t (abs_auth bb) (abs_auth m)"
proof -
  from assms consider "m = bb" | r off where "dget (offers bb) r = Some off"
      "m = bb\<lparr>bb_public := (bb_public bb)\<lparr>pub_offers := dput r (off\<lparr>o_status := OfferDeclined\<rparr>) (offers bb)\<rparr>\<rparr>"
    by (auto simp: r_verbatim_def outcome_simps split: if_splits option.splits)
  then show ?thesis
  proof cases
    case 1
    then show ?thesis by (simp add: auth_step.quiet)
  next
    case (2 r off)
    then have "auth_step t (abs_auth bb) ((abs_auth bb)\<lparr>z_offers := (z_offers (abs_auth bb))
        (r \<mapsto> (deal_of off)\<lparr>d_status := OfferDeclined\<rparr>)\<rparr>)"
      by (intro auth_step.decline) simp
    with 2 show ?thesis by (simp add: abs_updates deal_of_def)
  qed
qed

lemma fence_refines:
  assumes "r_fence bb e = Inr m"
  shows "auth_step t (abs_auth bb) (abs_auth m)"
proof -
  from assms obtain op fid u where p: "ev_payload e = PFence op fid u"
    by (auto simp: r_fence_def outcome_simps)
  have "fence_id ` {f \<in> set fs. fence_id f \<noteq> fid} = fence_id ` set fs - {fid}" for fs :: "fence list"
    by auto
  with assms p auth_step.raise [of t "abs_auth bb" fid] auth_step.clear [of t "abs_auth bb" fid]
  show ?thesis
    by (auto simp: r_fence_def abs_updates split: if_splits)
qed

lemma epoch_cases:
  assumes "r_epoch bb e = Inr m"
  obtains (bump) b where "ev_payload e = PEpoch b" "bb_epoch bb < eb_new b"
      "m = bb\<lparr>bb_epoch := eb_new b\<rparr>"
    | (carry) b md where "ev_payload e = PEpoch b" "bb_epoch bb < eb_new b"
      "mandate_of bb = Some md" "decided_now bb md"
      "m = bb\<lparr>bb_private := (bb_private bb)\<lparr>priv_mandate := Some (md\<lparr>m_epoch := eb_new b\<rparr>)\<rparr>\<rparr>
           \<lparr>bb_epoch := eb_new b\<rparr>"
proof -
  from assms obtain b where b: "ev_payload e = PEpoch b"
    by (auto simp: r_epoch_def outcome_simps)
  with assms have later: "bb_epoch bb < eb_new b"
    by (auto simp: r_epoch_def outcome_simps)
  from assms b consider "m = bb\<lparr>bb_epoch := eb_new b\<rparr>"
    | md where "mandate_of bb = Some md" "decided_now bb md"
        "m = bb\<lparr>bb_private := (bb_private bb)\<lparr>priv_mandate := Some (md\<lparr>m_epoch := eb_new b\<rparr>)\<rparr>\<rparr>
             \<lparr>bb_epoch := eb_new b\<rparr>"
    by (auto simp: r_epoch_def outcome_simps split: option.splits if_splits)
  then show thesis using b later bump carry by cases
qed

lemma epoch_refines:
  assumes "r_epoch bb e = Inr m"
  shows "auth_step t (abs_auth bb) (abs_auth m)"
  using assms
proof (cases rule: epoch_cases)
  case (bump b)
  with auth_step.bump [of "abs_auth bb" "eb_new b"] show ?thesis by (simp add: abs_updates)
next
  case (carry b md)
  from auth_step.bump_carry [of "abs_auth bb" "eb_new b" md t] carry
  have step: "auth_step t (abs_auth bb)
      ((abs_auth bb)\<lparr>z_mandate := Some (md\<lparr>m_epoch := eb_new b\<rparr>), z_epoch := eb_new b\<rparr>)"
    by (simp add: decided_now_def)
  show ?thesis
    unfolding carry(5) abs_epoch abs_mandate using step by simp
qed

lemma status_refines:
  assumes wf: "wf_bb bb" and r: "r_status bb e = Inr m"
  shows "auth_step t (abs_auth bb) (abs_auth m)"
proof -
  from r obtain s where mv: "may_move (status_of bb) s"
    and ver: "\<forall>n. dget VERIFIED s = Some n \<longrightarrow> completion_ok bb \<and> released_count bb = n"
    and m: "m = bb\<lparr>bb_public := (bb_public bb)\<lparr>pub_status := s\<rparr>\<rparr>"
    by (auto simp: r_status_def outcome_simps split: option.splits if_splits)
  have "s = VERIFIED_COMPLETE \<Longrightarrow> completion_ok bb \<and> released_count bb = 1"
    and "s = VERIFIED_NO_DEAL \<Longrightarrow> completion_ok bb \<and> released_count bb = 0"
    using ver by (simp_all add: VERIFIED_def)
  with wf mv have "auth_step t (abs_auth bb) ((abs_auth bb)\<lparr>z_status := s\<rparr>)"
    by (intro auth_step.move) (simp_all only: released_one_abs released_none_abs abs_auth_simps)
  with m show ?thesis by (simp add: abs_updates)
qed

lemma mandate_proposed_refines:
  assumes "r_mandate_proposed bb e = Inr m" "model_ok (ev_type e) (ev_payload e)"
  shows "auth_step t (abs_auth bb) (abs_auth m)"
proof -
  from assms obtain md where "m_status md = MProposed" "m_epoch md = bb_epoch bb"
    and m: "m = bb\<lparr>bb_private := (bb_private bb)\<lparr>priv_mandate := Some md\<rparr>\<rparr>"
    by (auto simp: r_mandate_proposed_def outcome_simps mandate_proposal_valid_def)
  then have "auth_step t (abs_auth bb) ((abs_auth bb)\<lparr>z_mandate := Some md\<rparr>)"
    by (intro auth_step.propose) simp_all
  with m show ?thesis by (simp add: abs_updates)
qed

lemma mandate_decided_refines:
  assumes "r_mandate_decided bb e = Inr m"
  shows "auth_step t (abs_auth bb) (abs_auth m)"
proof -
  from assms obtain d where d: "ev_payload e = PMandateDecided d"
    by (auto simp: r_mandate_decided_def outcome_simps)
  with assms obtain md where md: "mandate_of bb = Some md"
    by (auto simp: r_mandate_decided_def split: option.splits)
  from assms d md have "m_status md = MProposed" "m_epoch md = bb_epoch bb"
    and m: "m = bb\<lparr>bb_private := (bb_private bb)\<lparr>priv_mandate :=
      Some (md\<lparr>m_status := mandate_status_of (md_decision d), m_decided_by := Some (md_by d)\<rparr>)\<rparr>\<rparr>"
    by (auto simp: r_mandate_decided_def outcome_simps Let_def)
  moreover have "mandate_status_of (md_decision d) \<in> {MGranted, MDenied}"
    by (simp add: mandate_status_of_def split: decision.splits)
  ultimately have "auth_step t (abs_auth bb) ((abs_auth bb)\<lparr>z_mandate :=
      Some (md\<lparr>m_status := mandate_status_of (md_decision d), m_decided_by := Some (md_by d)\<rparr>)\<rparr>)"
    using md by (intro auth_step.decide_mandate) simp_all
  with m show ?thesis by (simp add: abs_updates)
qed

lemma approval_requested_refines:
  assumes "r_approval_requested bb e = Inr m"
  shows "auth_step t (abs_auth bb) (abs_auth m)"
proof -
  from assms obtain c where "card_is_current bb c \<and> card_epoch c = bb_epoch bb"
    and m: "m = bb\<lparr>bb_private := (bb_private bb)\<lparr>priv_pending_approval := Some c\<rparr>\<rparr>"
    by (auto simp: r_approval_requested_def outcome_simps)
  then show ?thesis
    by (simp add: card_is_current_abs abs_updates auth_step.request)
qed

lemma approval_decided_refines:
  assumes "r_approval_decided bb e = Inr m"
  shows "auth_step (ev_t_ms e) (abs_auth bb) (abs_auth m)"
proof -
  from assms obtain d where d: "ev_payload e = PApprovalDecided d"
    by (auto simp: r_approval_decided_def outcome_simps)
  with assms obtain c where c: "pending_card bb = Some c"
    by (auto simp: r_approval_decided_def split: option.splits)
  from assms d c have "card_is_current bb c \<and> card_epoch c = bb_epoch bb"
    and live: "ev_t_ms e < card_expires_ms c" and i: "card_id c = ad_approval_id d"
    and m: "m = bb\<lparr>bb_private := (bb_private bb)\<lparr>priv_pending_approval := None,
      priv_approvals := dput (ad_approval_id d) (approval_from d c) (approvals bb)\<rparr>\<rparr>"
    by (auto simp: r_approval_decided_def outcome_simps)
  then have "card_fits (abs_auth bb) c" by (simp add: card_is_current_abs)
  with c live have "auth_step (ev_t_ms e) (abs_auth bb) ((abs_auth bb)\<lparr>z_card := None,
      z_decided := (z_decided (abs_auth bb))(card_id c \<mapsto> approval_from d c)\<rparr>)"
    by (intro auth_step.decide_card) (simp_all add: approval_from_def)
  with m i show ?thesis by (simp add: abs_updates)
qed

lemma dget_dput_fun: "dget (dput k v d) = (dget d)(k \<mapsto> v)"
  by (simp add: update_conv')

lemma dget_ddel_fun: "dget (ddel k d) = (dget d)(k := None)"
  by (simp add: delete_conv' fun_eq_iff)

lemma authorized_refines:
  assumes wf: "wf_bb bb" and r: "r_authorized bb e = Inr m"
  shows "auth_step (ev_t_ms e) (abs_auth bb) (abs_auth m)"
proof -
  from r obtain i cap where p: "ev_payload e = PAuthorized i cap"
    by (auto simp: r_authorized_def outcome_simps)
  let ?a = "authorization_for bb i cap"
  from r p have i: "cap_intent cap = i" and fresh: "\<not> cap_consumed cap" "cap_epoch cap = bb_epoch bb"
    "dget (bb_capabilities bb) (cap_id cap) = None" "ev_t_ms e < cap_expires_ms cap"
    and acc: "i = AcceptOffer \<Longrightarrow> \<not> released_accept bb (Some (cap_terms_hash cap)) \<and>
      \<not> accept_in_flight bb \<and> offer_with_terms bb (cap_terms_hash cap) \<noteq> None"
    and m: "m = bb\<lparr>bb_authorizations := bb_authorizations bb @ [?a],
                   bb_capabilities := dput (cap_id cap) cap (bb_capabilities bb)\<rparr>"
    by (auto simp: r_authorized_def outcome_simps dget_None_keys)
  have "has_terms (abs_auth bb) (ref_or_empty ?a) (cap_terms_hash cap)"
    if "cap_intent cap = AcceptOffer"
    using acc that i wf by (auto simp: ref_or_empty_def authorization_for_def intro: offer_with_terms_abs)
  with wf i acc fresh have "auth_step (ev_t_ms e) (abs_auth bb)
     ((abs_auth bb)\<lparr>z_caps := (z_caps (abs_auth bb))(cap_id cap \<mapsto> cap),
        z_lines := (case z_lines (abs_auth bb) (cap_id cap) of
          None \<Rightarrow> (z_lines (abs_auth bb))(cap_id cap \<mapsto> ref_or_empty ?a)
        | Some _ \<Rightarrow> z_lines (abs_auth bb))\<rparr>)"
    by (intro auth_step.mint) (simp_all add: released_accept_abs accept_in_flight_abs)
  moreover have "au_cap_id ?a = cap_id cap" by (simp add: authorization_for_def)
  ultimately show ?thesis
    by (simp only: m abs_minted dget_dput_fun abs_auth_simps)
qed

lemma live_cap_Inr:
  "live_cap bb e = Inr i \<longleftrightarrow>
     (\<exists>c. dget (bb_capabilities bb) (str_of (payload_cap_id (ev_payload e))) = Some c \<and>
          \<not> cap_consumed c \<and> i = cap_id c)"
  by (auto simp: live_cap_def split: option.splits)

lemma release_cap_Inr:
  assumes "release_cap bb e cap = Inr m"
  obtains a off where "auth_of bb (cap_id cap) = Some a" "dget (offers bb) (ref_or_empty a) = Some off"
    "cap_epoch cap = bb_epoch bb" "bb_fences bb = []" "o_status off = OfferOpen"
    "o_terms_hash off = Some (cap_terms_hash cap)" "ev_t_ms e < cap_expires_ms cap"
    "cap_intent cap = AcceptOffer \<Longrightarrow> \<not> released_accept bb (Some (cap_terms_hash cap))"
    "m = use_cap bb cap"
proof -
  from assms obtain a where a: "auth_of bb (cap_id cap) = Some a"
    by (auto simp: release_cap_def outcome_simps auth_of_def)
  with assms obtain off where off: "dget (offers bb) (ref_or_empty a) = Some off"
    by (auto simp: release_cap_def next_where_def auth_of_def split: option.splits)
  from assms a off show thesis
    by (intro that [OF a off]) (auto simp: release_cap_def next_where_def auth_of_def split: if_splits)
qed

text \<open>A token is filed under its own id, so the token found live is the one released.\<close>

definition caps_keyed :: "blackboard \<Rightarrow> bool" where
  "caps_keyed bb \<longleftrightarrow> list_all (\<lambda>(k, c). cap_id c = k) (bb_capabilities bb)"

lemma caps_keyed_dget: "caps_keyed bb \<Longrightarrow> dget (bb_capabilities bb) k = Some c \<Longrightarrow> cap_id c = k"
  by (auto simp: caps_keyed_def list_all_iff dest: map_of_SomeD)

lemma released_refines:
  assumes wf: "wf_bb bb" "caps_keyed bb" and r: "r_released bb e = Inr m"
  shows "auth_step (ev_t_ms e) (abs_auth bb) (abs_auth m)"
proof (cases "payload_cap_id (ev_payload e)")
  case None
  with r show ?thesis by (simp add: r_released_def auth_step.quiet)
next
  case (Some i)
  with r obtain j where "live_cap bb e = Inr j"
    and j: "(case dget (bb_capabilities bb) j of None \<Rightarrow> Inl (KeyError j)
             | Some c \<Rightarrow> release_cap bb e c) = Inr m"
    by (auto simp: r_released_def outcome_simps)
  then obtain c where c: "dget (bb_capabilities bb) i = Some c" "\<not> cap_consumed c" "j = cap_id c"
    using Some by (auto simp: live_cap_Inr str_of_def)
  with wf have i: "cap_id c = i" by (simp add: caps_keyed_dget)
  with c j have "release_cap bb e c = Inr m" by simp
  then obtain a off where rel: "auth_of bb (cap_id c) = Some a" "dget (offers bb) (ref_or_empty a) = Some off"
    "cap_epoch c = bb_epoch bb" "bb_fences bb = []" "o_status off = OfferOpen"
    "o_terms_hash off = Some (cap_terms_hash c)" "ev_t_ms e < cap_expires_ms c"
    "cap_intent c = AcceptOffer \<Longrightarrow> \<not> released_accept bb (Some (cap_terms_hash c))"
    "m = use_cap bb c"
    by (rule release_cap_Inr) blast
  have "auth_step (ev_t_ms e) (abs_auth bb)
      ((abs_auth bb)\<lparr>z_caps := (z_caps (abs_auth bb))(i \<mapsto> c\<lparr>cap_consumed := True\<rparr>)\<rparr>)"
    using c i rel wf
    by (intro auth_step.release [where r = "ref_or_empty a" and d = "deal_of off"])
       (simp_all add: released_accept_abs)
  with rel(9) i show ?thesis
    by (simp add: use_cap_def abs_updates dget_dput_fun)
qed

lemma revoked_refines:
  assumes "caps_keyed bb" "r_revoked bb e = Inr m"
  shows "auth_step t (abs_auth bb) (abs_auth m)"
proof (cases "payload_cap_id (ev_payload e)")
  case None
  with assms show ?thesis by (simp add: r_revoked_def auth_step.quiet)
next
  case (Some i)
  with assms(2) obtain c where c: "dget (bb_capabilities bb) i = Some c" "\<not> cap_consumed c"
    and m: "m = bb\<lparr>bb_capabilities := ddel (cap_id c) (bb_capabilities bb)\<rparr>"
    by (auto simp: r_revoked_def outcome_simps live_cap_Inr str_of_def)
  with assms(1) have i: "cap_id c = i" by (simp add: caps_keyed_dget)
  from auth_step.revoke [of "abs_auth bb" i c] c i m show ?thesis
    by (simp add: abs_updates dget_ddel_fun)
qed

lemma completion_refines:
  assumes "r_completion bb e = Inr m"
  shows "auth_step t (abs_auth bb) (abs_auth m)"
  using assms auth_step.complete [of t "abs_auth bb"]
  by (auto simp: r_completion_def outcome_simps abs_updates)

section \<open>The fold implements the specification\<close>

lemma AUTHORITY_TYPES_cases:
  assumes "t \<in> set AUTHORITY_TYPES"
  shows "t = ''offer.recorded'' \<or> t = ''authority.fence'' \<or> t = ''authority.epoch'' \<or>
    t = ''status.changed'' \<or> t = ''completion.decided'' \<or> t = ''mandate.proposed'' \<or>
    t = ''mandate.decided'' \<or> t = ''approval.requested'' \<or> t = ''approval.decided'' \<or>
    t = ''action.authorized'' \<or> t = ''speak.verbatim'' \<or> t = ''speak.released'' \<or>
    t = ''speak.revoked'' \<or> t = ''readback.updated''"
  using assms by (simp add: AUTHORITY_TYPES_def)

lemma reduce_refines:
  assumes wf: "wf_bb bb" "caps_keyed bb" and r: "reduce bb e = Inr m"
    and ok: "ev_type e \<in> set MODELS \<longrightarrow> model_ok (ev_type e) (ev_payload e)"
  shows "auth_step (ev_t_ms e) (abs_auth bb) (abs_auth m)"
proof (cases "ev_type e \<in> set AUTHORITY_TYPES")
  case False
  with r have "plain_step bb m" by (rule plain_reduce)
  then show ?thesis by (simp add: plain_abs auth_step.quiet)
next
  case True
  have md: "ev_type e = ''mandate.proposed'' \<Longrightarrow> model_ok (ev_type e) (ev_payload e)"
    using ok by (simp add: MODELS_def)
  from AUTHORITY_TYPES_cases [OF True] show ?thesis
    by (elim disjE)
       (use r md wf in \<open>simp_all add: reduce_authority offer_refines fence_refines epoch_refines
          status_refines completion_refines mandate_proposed_refines mandate_decided_refines
          approval_requested_refines approval_decided_refines authorized_refines
          verbatim_refines released_refines revoked_refines readback_refines\<close>)
qed

text \<open>Well-formedness is kept by every accepted event.\<close>

lemma keyed_dput: "list_all (\<lambda>(k, c). f c = k) d \<Longrightarrow> f v = i \<Longrightarrow> list_all (\<lambda>(k, c). f c = k) (dput i v d)"
  by (induction d) auto

lemma keyed_ddel: "list_all P d \<Longrightarrow> list_all P (ddel i d)"
  by (induction d) auto

lemma put_offer_wf:
  "wf_dict (offers bb) \<Longrightarrow> put_offer bb r off = Inr m \<Longrightarrow>
     wf_dict (offers m) \<and> bb_capabilities m = bb_capabilities bb"
  by (auto simp: put_offer_Inr intro!: distinct_update)

lemma offer_wf:
  "wf_dict (offers bb) \<Longrightarrow> r_offer bb e = Inr m \<Longrightarrow>
     wf_dict (offers m) \<and> bb_capabilities m = bb_capabilities bb"
  unfolding r_offer_def POffer_case if_Inl_eq_Inr Let_def
  by (auto dest: put_offer_wf)

lemma readback_wf:
  "wf_dict (offers bb) \<Longrightarrow> r_readback bb e = Inr m \<Longrightarrow>
     wf_dict (offers m) \<and> bb_capabilities m = bb_capabilities bb"
  unfolding r_readback_def PReadback_case if_Inl_eq_Inr Let_def
  by (auto split: option.splits if_splits dest: put_offer_wf)

lemma verbatim_wf:
  "wf_dict (offers bb) \<Longrightarrow> r_verbatim bb e = Inr m \<Longrightarrow>
     wf_dict (offers m) \<and> bb_capabilities m = bb_capabilities bb"
  unfolding r_verbatim_def PVerbatim_case
  by (auto simp: and_then_eq_Inr split: option.splits if_splits dest: put_offer_wf)

definition same_books :: "blackboard \<Rightarrow> blackboard \<Rightarrow> bool" where
  "same_books bb m \<longleftrightarrow> offers m = offers bb \<and> bb_capabilities m = bb_capabilities bb"

lemma same_books_simps [simp]:
  "same_books bb bb" "same_books bb (m\<lparr>bb_epoch := n\<rparr>) = same_books bb m"
  "same_books bb (bb\<lparr>bb_fences := fs\<rparr>)" "same_books bb (bb\<lparr>bb_completion := c\<rparr>)"
  by (simp_all add: same_books_def)

lemma with_private_books: "with_private bb p = Inr m \<Longrightarrow> same_books bb m"
  by (auto simp: with_private_Inr same_books_def)

lemma moved_books:
  "with_public bb ((bb_public bb)\<lparr>pub_status := s\<rparr>) = Inr m \<Longrightarrow> same_books bb m"
  by (auto simp: with_public_Inr same_books_def)

lemma fence_books: "r_fence bb e = Inr m \<Longrightarrow> same_books bb m"
  unfolding r_fence_def PFence_case if_Inl_eq_Inr Let_def
  by (auto simp: and_then_eq_Inr split: option.splits if_splits dest: with_private_books moved_books)

lemma epoch_books: "r_epoch bb e = Inr m \<Longrightarrow> same_books bb m"
  by (erule epoch_cases) (simp_all add: same_books_def)

lemma status_books: "r_status bb e = Inr m \<Longrightarrow> same_books bb m"
  unfolding r_status_def PStatus_case if_Inl_eq_Inr Let_def
  by (auto simp: and_then_eq_Inr split: option.splits if_splits dest: with_private_books moved_books)

lemma completion_books: "r_completion bb e = Inr m \<Longrightarrow> same_books bb m"
  unfolding r_completion_def PCompletion_case if_Inl_eq_Inr Let_def
  by (auto simp: and_then_eq_Inr split: option.splits if_splits dest: with_private_books moved_books)

lemma mandate_proposed_books: "r_mandate_proposed bb e = Inr m \<Longrightarrow> same_books bb m"
  unfolding r_mandate_proposed_def PMandate_case if_Inl_eq_Inr Let_def
  by (auto simp: and_then_eq_Inr split: option.splits if_splits dest: with_private_books moved_books)

lemma mandate_decided_books: "r_mandate_decided bb e = Inr m \<Longrightarrow> same_books bb m"
  unfolding r_mandate_decided_def PMandateDecided_case if_Inl_eq_Inr Let_def
  by (auto simp: and_then_eq_Inr split: option.splits if_splits dest: with_private_books moved_books)

lemma approval_requested_books: "r_approval_requested bb e = Inr m \<Longrightarrow> same_books bb m"
  unfolding r_approval_requested_def PCard_case if_Inl_eq_Inr Let_def
  by (auto simp: and_then_eq_Inr split: option.splits if_splits dest: with_private_books moved_books)

lemma approval_decided_books: "r_approval_decided bb e = Inr m \<Longrightarrow> same_books bb m"
  unfolding r_approval_decided_def PApprovalDecided_case if_Inl_eq_Inr Let_def
  by (auto simp: and_then_eq_Inr split: option.splits if_splits dest: with_private_books moved_books)

lemma authorized_wf:
  assumes "wf_bb bb" "caps_keyed bb" "r_authorized bb e = Inr m"
  shows "wf_bb m \<and> caps_keyed m"
proof -
  from assms(3) obtain as cap where
    "m = bb\<lparr>bb_authorizations := as, bb_capabilities := dput (cap_id cap) cap (bb_capabilities bb)\<rparr>"
    by (auto simp: r_authorized_def outcome_simps)
  with assms(1,2) show ?thesis
    by (simp add: wf_bb_def caps_keyed_def keyed_dput distinct_update)
qed

lemma released_wf:
  assumes "wf_bb bb" "caps_keyed bb" "r_released bb e = Inr m"
  shows "wf_bb m \<and> caps_keyed m"
proof -
  have "wf_bb (use_cap bb c) \<and> caps_keyed (use_cap bb c)" for c
    using assms(1,2) by (simp add: use_cap_def wf_bb_def caps_keyed_def keyed_dput distinct_update)
  moreover from assms(3) have "m = bb \<or> (\<exists>c. m = use_cap bb c)"
    by (auto simp: r_released_def and_then_eq_Inr split: option.splits if_splits elim!: release_cap_Inr)
  ultimately show ?thesis using assms(1,2) by auto
qed

lemma revoked_wf:
  assumes "wf_bb bb" "caps_keyed bb" "r_revoked bb e = Inr m"
  shows "wf_bb m \<and> caps_keyed m"
proof -
  from assms(3) have "m = bb \<or> (\<exists>i. m = bb\<lparr>bb_capabilities := ddel i (bb_capabilities bb)\<rparr>)"
    by (auto simp: r_revoked_def and_then_eq_Inr split: if_splits)
  then show ?thesis
    using assms(1,2) by (auto simp: wf_bb_def caps_keyed_def keyed_ddel distinct_delete)
qed

lemma reduce_wf:
  assumes "wf_bb bb" "caps_keyed bb" "reduce bb e = Inr m"
  shows "wf_bb m \<and> caps_keyed m"
proof (cases "ev_type e \<in> set AUTHORITY_TYPES")
  case False
  with assms plain_reduce [of bb e m] show ?thesis
    by (simp add: plain_step_def wf_bb_def caps_keyed_def)
next
  case True
  have offer: "wf_bb m \<and> caps_keyed m"
    if "wf_dict (offers m) \<and> bb_capabilities m = bb_capabilities bb"
    using that assms(1,2) by (simp add: wf_bb_def caps_keyed_def)
  have same: "wf_bb m \<and> caps_keyed m" if "same_books bb m"
    using that assms(1,2) by (simp add: same_books_def wf_bb_def caps_keyed_def)
  have wf: "wf_dict (offers bb)" using assms(1) by (simp add: wf_bb_def)
  note kept = same [OF fence_books] same [OF epoch_books] same [OF status_books]
    same [OF completion_books] same [OF mandate_proposed_books] same [OF mandate_decided_books]
    same [OF approval_requested_books] same [OF approval_decided_books]
    offer [OF offer_wf [OF wf]] offer [OF readback_wf [OF wf]] offer [OF verbatim_wf [OF wf]]
    authorized_wf [OF assms(1,2)] released_wf [OF assms(1,2)] revoked_wf [OF assms(1,2)]
  from AUTHORITY_TYPES_cases [OF True] assms(3) show ?thesis
    by (elim disjE) (simp_all only: reduce_authority kept)
qed

text \<open>The invariant of a case, and what one accepted event does to it.\<close>

definition case_inv :: "blackboard \<Rightarrow> bool" where
  "case_inv bb \<longleftrightarrow> wf_bb bb \<and> caps_keyed bb \<and> auth_inv (abs_auth bb)"

lemma apply_event_refines:
  assumes "case_inv bb" "validate_event e = Inr e" "apply_event bb e = Inr bb'"
  shows "auth_step (ev_t_ms e) (abs_auth bb) (abs_auth bb')"
proof -
  from assms(3) obtain m where m: "reduce bb e = Inr m"
    and bb': "bb' = m\<lparr>bb_seq := ev_seq e, bb_t_ms := ev_t_ms e\<rparr>"
    by (auto simp: apply_event_Inr)
  from reduce_refines [OF _ _ m] assms(1) validate_event_facts(7) [OF assms(2)]
  show ?thesis by (simp add: bb' case_inv_def)
qed

lemma apply_event_inv:
  assumes "case_inv bb" "validate_event e = Inr e" "apply_event bb e = Inr bb'"
  shows "case_inv bb'"
proof -
  from assms(3) obtain m where m: "reduce bb e = Inr m"
    and bb': "bb' = m\<lparr>bb_seq := ev_seq e, bb_t_ms := ev_t_ms e\<rparr>"
    by (auto simp: apply_event_Inr)
  with assms(1) have "wf_bb m \<and> caps_keyed m" using reduce_wf by (auto simp: case_inv_def)
  then have "wf_bb bb' \<and> caps_keyed bb'" by (simp add: bb' wf_bb_def caps_keyed_def)
  with apply_event_refines [OF assms] assms(1) show ?thesis
    by (simp add: case_inv_def auth_inv_step)
qed

lemma case_inv_initial: "case_inv initial_blackboard"
  by (simp add: case_inv_def wf_bb_def caps_keyed_def auth_inv_def unique_cap_def fresh_terms_def
      caps_filed_def grants_dated_def initial_defs)

end
