(* ===== verification/Samples.thy ===== *)
theory Samples
  imports Fold_Refine
begin

text \<open>
  Short sessions used to apply the theorems at a concrete input: an offer is recorded and read
  back, a card is requested and granted in the user interface; an accept is authorized and
  released; a call without a deal is verified.
\<close>

definition sample_call :: "int \<Rightarrow> string \<Rightarrow> string \<Rightarrow> payload \<Rightarrow> string list \<Rightarrow> emit_call" where
  "sample_call t ty actor p causes =
     \<lparr>ec_t_ms = t, ec_wall = 0, ec_type = ty, ec_actor = actor, ec_stream = AgentStream,
      ec_payload = p, ec_cause_ids = causes\<rparr>"

definition sample_slot :: readback_slot where
  "sample_slot =
     \<lparr>rs_field = ''monthly_price'', rs_value = ''5000'', rs_unit = UsdMinor, rs_role = Recurring,
      rs_source_utt = None, rs_span = None, rs_status = SlotUnknown\<rparr>"

definition sample_card :: approval_card where
  "sample_card =
     \<lparr>card_id = ''a1'', card_offer_ref = ''o1'', card_revision = 1, card_terms_hash = ''h'',
      card_readback_text = [], card_epoch = 0, card_expires_ms = 9000,
      card_binding = \<lparr>b_offer_ref = ''o1'', b_revision = 1, b_account_ref = [],
        b_principal_ref = [], b_purpose = [], b_authority_epoch = 0\<rparr>\<rparr>"

definition sample_cap :: capability where
  "sample_cap =
     \<lparr>cap_id = ''cap-1'', cap_bid = ''bid'', cap_intent = AcceptOffer, cap_terms_hash = ''h'',
      cap_epoch = 0, cap_expires_ms = 8000, cap_consumed = False\<rparr>"

definition sample_talk :: "emit_call list" where
  "sample_talk =
    [sample_call 0 ''user.msg'' ''kernel'' (PUserMsg ''hello'') [],
     sample_call 20 ''offer.recorded'' ''guard''
       (POffer \<lparr>op_offer_ref = ''o1'', op_revision = 1, op_slots = [sample_slot], op_expires_ms = None\<rparr>)
       [''r:0''],
     sample_call 30 ''readback.updated'' ''guard''
       (PReadback \<lparr>rp_offer_ref = ''o1'', rp_revision = 1,
          rp_slot_statuses = [(''monthly_price'', SlotConfirmed)], rp_terms_hash = Some ''h''\<rparr>)
       [''r:1'']]"

definition sample_grant :: "emit_call list" where
  "sample_grant =
    [sample_call 40 ''approval.requested'' ''guard'' (PCard sample_card) [''r:2''],
     sample_call 50 ''approval.post'' ''ui''
       (PPost \<lparr>ap_subject = ApprovalSubject, ap_subject_id = ''a1'', ap_decision = Granted,
          ap_subject_hash = ''h'', ap_epoch = 0\<rparr>) [],
     sample_call 60 ''approval.decided'' ''kernel''
       (PApprovalDecided \<lparr>ad_approval_id = ''a1'', ad_decision = Granted, ad_by = Ui\<rparr>) [''r:4'']]"

definition sample_authorized :: emit_call where
  "sample_authorized =
     sample_call 70 ''action.authorized'' ''guard'' (PAuthorized AcceptOffer sample_cap) [''r:2'']"

definition sample_release :: emit_call where
  "sample_release = sample_call 80 ''speak.released'' ''kernel'' (PReleased ''cp'' (Some ''cap-1'')) [''r:3'']"

definition granted_calls :: "emit_call list" where
  "granted_calls = sample_talk @ sample_grant"

definition authorized_calls :: "emit_call list" where
  "authorized_calls = sample_talk @ [sample_authorized]"

definition no_deal_calls :: "emit_call list" where
  "no_deal_calls =
    [sample_call 0 ''user.msg'' ''kernel'' (PUserMsg ''hello'') [],
     sample_call 10 ''status.changed'' ''guard'' (PStatus INTAKE IN_CALL) [''r:0''],
     sample_call 95 ''completion.decided'' ''guard''
       (PCompletion \<lparr>cd_verdict = VerdictOk, cd_reasons = []\<rparr>) [''r:1'']]"

definition sample_no_deal :: emit_call where
  "sample_no_deal =
     sample_call 99 ''status.changed'' ''guard'' (PStatus IN_CALL VERIFIED_NO_DEAL) [''r:2'']"

lemma sample_release_ok:
  "succeeds (emit (session ''r'' authorized_calls) sample_release)"
  by code_simp

lemma sample_no_deal_ok:
  "succeeds (emit (session ''r'' no_deal_calls) sample_no_deal)"
  by code_simp

lemma granted_log:
  "length (log_of (session ''r'' granted_calls)) = 6"
  "is_decision (log_of (session ''r'' granted_calls) ! 5)"
  by code_simp+

lemma granted_approval:
  "map_option (\<lambda>a. (a_decision a, a_by a)) (dget (approvals (bus_bb (session ''r'' granted_calls))) ''a1'')
   = Some (Granted, Ui)"
  by code_simp

end
