(* ===== verification/Session_Facts.thy ===== *)
theory Session_Facts
  imports Samples
begin

text \<open>
  What holds in every session, that is, after any sequence of \<open>emit\<close> calls, rejected ones
  included: the invariants of the case, and where each authority on the blackboard comes from.
  A capability comes from one \<open>action.authorized\<close> line, an approval or a granted mandate from
  a decision line, and that from a post of a person or the simulated approver.
\<close>

section \<open>The case invariant in sessions\<close>

definition session_inv :: "bus \<Rightarrow> bool" where
  "session_inv b \<longleftrightarrow> bus_inv b \<and> case_inv (bus_bb b)"

lemma emit_session_inv: "session_inv b \<Longrightarrow> emit b c = Inr b' \<Longrightarrow> session_inv b'"
  unfolding session_inv_def using emit_bus_inv apply_event_inv by (auto simp: emit_Inr)

interpretation case_bus: guarded_machine emit session_inv
  by unfold_locales (rule emit_session_inv)

lemma session_inv_new: "session_inv (new_bus r)"
  by (simp add: session_inv_def bus_inv_new) (simp add: new_bus_def case_inv_initial)

lemma session_invs: "session_inv (session r cs)"
  by (simp add: session_def case_bus.attempts_inv session_inv_new)

lemma emit_step:
  assumes "session_inv b" "emit b c = Inr b'"
  shows "auth_step (ec_t_ms c) (abs_auth (bus_bb b)) (abs_auth (bus_bb b'))"
  using assms apply_event_refines [of "bus_bb b" "stamp b c" "bus_bb b'"]
  by (auto simp: emit_Inr session_inv_def)

text \<open>Time on the blackboard: the epoch and the terminal statuses.\<close>

definition epoch_le :: "bus \<Rightarrow> bus \<Rightarrow> bool" where
  "epoch_le b b' \<longleftrightarrow> bb_epoch (bus_bb b) \<le> bb_epoch (bus_bb b')"

interpretation epochs: monotone_machine emit session_inv epoch_le
proof unfold_locales
  fix s e s'
  assume "session_inv s" "emit s e = Inr s'"
  from epoch_step [OF emit_step [OF this]] show "epoch_le s s'"
    by (simp add: epoch_le_def)
qed (auto simp: epoch_le_def)

definition closed_as :: "case_status \<Rightarrow> bus \<Rightarrow> bool" where
  "closed_as s b \<longleftrightarrow> status_of (bus_bb b) = s \<and> s \<in> set TERMINAL"

interpretation terminal: absorbing_machine emit session_inv "closed_as s"
proof unfold_locales
  fix b c b'
  assume "session_inv b" "closed_as s b" "emit b c = Inr b'"
  with terminal_step [OF emit_step [of b c b']] show "closed_as s b'"
    by (simp add: closed_as_def)
qed

section \<open>What a step does to tokens, approvals and the mandate\<close>

definition same_private :: "blackboard \<Rightarrow> blackboard \<Rightarrow> bool" where
  "same_private bb m \<longleftrightarrow> mandate_of m = mandate_of bb \<and> approvals m = approvals bb"

lemma same_private_refl [simp]: "same_private bb bb"
  by (simp add: same_private_def)

lemma put_offer_private: "put_offer bb r off = Inr m \<Longrightarrow> same_private bb m"
  by (auto simp: put_offer_Inr same_private_def)

lemma moved_private:
  "with_public bb ((bb_public bb)\<lparr>pub_status := s\<rparr>) = Inr m \<Longrightarrow> same_private bb m"
  by (auto simp: with_public_Inr same_private_def)

lemma offer_private: "r_offer bb e = Inr m \<Longrightarrow> same_private bb m"
  unfolding r_offer_def POffer_case if_Inl_eq_Inr Let_def
  by (auto dest: put_offer_private)

lemma readback_private: "r_readback bb e = Inr m \<Longrightarrow> same_private bb m"
  unfolding r_readback_def PReadback_case if_Inl_eq_Inr Let_def
  by (auto split: option.splits if_splits dest: put_offer_private)

lemma verbatim_private: "r_verbatim bb e = Inr m \<Longrightarrow> same_private bb m"
  unfolding r_verbatim_def PVerbatim_case
  by (auto simp: and_then_eq_Inr split: option.splits if_splits dest: put_offer_private)

lemma fence_private: "r_fence bb e = Inr m \<Longrightarrow> same_private bb m"
  by (auto simp: r_fence_def outcome_simps same_private_def split: if_splits)

lemma status_private: "r_status bb e = Inr m \<Longrightarrow> same_private bb m"
  unfolding r_status_def PStatus_case if_Inl_eq_Inr
  by (auto split: option.splits if_splits dest: moved_private)

lemma completion_private: "r_completion bb e = Inr m \<Longrightarrow> same_private bb m"
  by (auto simp: r_completion_def outcome_simps same_private_def)

lemma authorized_private: "r_authorized bb e = Inr m \<Longrightarrow> same_private bb m"
  by (auto simp: r_authorized_def outcome_simps same_private_def)

lemma use_cap_private [simp]: "same_private bb (use_cap bb c)"
  by (simp add: use_cap_def same_private_def)

lemma released_private: "r_released bb e = Inr m \<Longrightarrow> same_private bb m"
  by (auto simp: r_released_def and_then_eq_Inr split: option.splits if_splits elim!: release_cap_Inr)

lemma revoked_private: "r_revoked bb e = Inr m \<Longrightarrow> same_private bb m"
  by (auto simp: r_revoked_def and_then_eq_Inr same_private_def split: if_splits)

lemmas private_kept =
  offer_private readback_private verbatim_private fence_private status_private completion_private
  authorized_private released_private revoked_private

text \<open>A new approval is what the decision says.\<close>

definition decides_approval :: "event \<Rightarrow> string \<Rightarrow> approval \<Rightarrow> bool" where
  "decides_approval e i a \<longleftrightarrow> ev_type e = ''approval.decided'' \<and>
     ev_payload e = PApprovalDecided \<lparr>ad_approval_id = i, ad_decision = a_decision a, ad_by = a_by a\<rparr>"

definition grants_mandate :: "event \<Rightarrow> mandate \<Rightarrow> bool" where
  "grants_mandate e m \<longleftrightarrow> ev_type e = ''mandate.decided'' \<and>
     (case ev_payload e of
        PMandateDecided d \<Rightarrow>
          md_mandate_id d = m_id m \<and> md_mandate_hash d = m_hash m \<and> md_decision d = Granted
      | _ \<Rightarrow> False)"

lemma private_reducers_approvals:
  "r_epoch bb e = Inr m \<Longrightarrow> approvals m = approvals bb"
  "r_mandate_proposed bb e = Inr m \<Longrightarrow> approvals m = approvals bb"
  "r_mandate_decided bb e = Inr m \<Longrightarrow> approvals m = approvals bb"
  "r_approval_requested bb e = Inr m \<Longrightarrow> approvals m = approvals bb"
  by (erule epoch_cases, simp, simp)
     (auto simp: r_mandate_proposed_def r_mandate_decided_def r_approval_requested_def outcome_simps
       Let_def split: option.splits if_splits)

lemma reduce_approvals:
  assumes "reduce bb e = Inr m" "dget (approvals m) i = Some a"
  shows "dget (approvals bb) i = Some a \<or> decides_approval e i a"
proof (cases "ev_type e \<in> set AUTHORITY_TYPES")
  case False
  with assms plain_reduce [of bb e m] show ?thesis by (simp add: plain_step_def)
next
  case True
  have kept: "dget (approvals bb) i = Some a" if "approvals m = approvals bb"
    using that assms(2) by simp
  have new: "dget (approvals bb) i = Some a \<or> decides_approval e i a"
    if r: "r_approval_decided bb e = Inr m" and t: "ev_type e = ''approval.decided''"
  proof -
    from r obtain d where d: "ev_payload e = PApprovalDecided d"
      by (auto simp: r_approval_decided_def outcome_simps)
    with r obtain c where "approvals m = dput (ad_approval_id d) (approval_from d c) (approvals bb)"
      by (auto simp: r_approval_decided_def outcome_simps split: option.splits)
    with assms(2) d t show ?thesis
      by (cases d) (auto simp: dget_dput approval_from_def decides_approval_def split: if_splits)
  qed
  show ?thesis
  proof (cases "ev_type e = ''approval.decided''")
    case True
    with assms(1) new show ?thesis by (simp add: reduce_authority)
  next
    case other: False
    with AUTHORITY_TYPES_cases [OF True] assms(1) show ?thesis
      by (elim disjE)
         (auto simp: reduce_authority same_private_def
            dest!: private_kept private_reducers_approvals intro!: kept)
  qed
qed

lemma approval_reducers_mandate:
  "r_approval_requested bb e = Inr m \<Longrightarrow> mandate_of m = mandate_of bb"
  "r_approval_decided bb e = Inr m \<Longrightarrow> mandate_of m = mandate_of bb"
  by (auto simp: r_approval_requested_def r_approval_decided_def outcome_simps
      split: option.splits if_splits)

definition same_mandate :: "mandate \<Rightarrow> mandate \<Rightarrow> bool" where
  "same_mandate m m' \<longleftrightarrow> m_id m = m_id m' \<and> m_hash m = m_hash m' \<and> m_status m = m_status m'"

lemma same_mandate_refl [simp]: "same_mandate m m"
  by (simp add: same_mandate_def)

lemma epoch_mandate:
  assumes "r_epoch bb e = Inr m" "mandate_of m = Some md"
  shows "\<exists>md0. mandate_of bb = Some md0 \<and> same_mandate md0 md"
  using assms by (cases rule: epoch_cases) (auto simp: same_mandate_def)

lemma decided_mandate:
  assumes "r_mandate_decided bb e = Inr m" "mandate_of m = Some md" "m_status md = MGranted"
    "ev_type e = ''mandate.decided''"
  shows "grants_mandate e md"
proof -
  from assms(1) obtain d where d: "ev_payload e = PMandateDecided d"
    by (auto simp: r_mandate_decided_def outcome_simps)
  with assms(1) obtain md0 where "mandate_of bb = Some md0"
    by (auto simp: r_mandate_decided_def split: option.splits)
  with assms d show ?thesis
    by (auto simp: r_mandate_decided_def outcome_simps Let_def grants_mandate_def
        mandate_status_of_def split: decision.splits)
qed

lemma proposed_mandate:
  assumes "r_mandate_proposed bb e = Inr m" "model_ok ''mandate.proposed'' (ev_payload e)"
    "mandate_of m = Some md"
  shows "m_status md = MProposed"
  using assms by (auto simp: r_mandate_proposed_def outcome_simps mandate_proposal_valid_def)

lemma reduce_mandate:
  assumes r: "reduce bb e = Inr m" and md: "mandate_of m = Some md" "m_status md = MGranted"
    and ok: "ev_type e \<in> set MODELS \<longrightarrow> model_ok (ev_type e) (ev_payload e)"
  shows "(\<exists>md0. mandate_of bb = Some md0 \<and> same_mandate md0 md) \<or> grants_mandate e md"
proof (cases "ev_type e \<in> set AUTHORITY_TYPES")
  case False
  with r plain_reduce [of bb e m] have "mandate_of m = mandate_of bb" by (simp add: plain_step_def)
  with md(1) have "mandate_of bb = Some md" by simp
  then show ?thesis by auto
next
  case True
  have kept: "\<exists>md0. mandate_of bb = Some md0 \<and> same_mandate md0 md" if "mandate_of m = mandate_of bb"
  proof -
    from that md(1) have "mandate_of bb = Some md" by simp
    then show ?thesis by auto
  qed
  show ?thesis
  proof (cases "ev_type e \<in> {''mandate.decided'', ''mandate.proposed'', ''authority.epoch''}")
    case True
    then consider "ev_type e = ''mandate.decided''" | "ev_type e = ''mandate.proposed''"
      | "ev_type e = ''authority.epoch''" by blast
    then show ?thesis
    proof cases
      case 1
      with r md decided_mandate show ?thesis by (simp add: reduce_authority)
    next
      case 2
      with ok have "model_ok ''mandate.proposed'' (ev_payload e)" by (simp add: MODELS_def)
      with 2 r md proposed_mandate [of bb e m md] show ?thesis by (simp add: reduce_authority)
    next
      case 3
      with r md epoch_mandate [of bb e m md] show ?thesis by (simp add: reduce_authority)
    qed
  next
    case other: False
    with AUTHORITY_TYPES_cases [OF True] r have "mandate_of m = mandate_of bb"
      by (elim disjE)
         (simp_all add: reduce_authority private_kept [unfolded same_private_def]
            approval_reducers_mandate)
    with kept show ?thesis by blast
  qed
qed

lemmas others_books =
  fence_books epoch_books status_books completion_books mandate_proposed_books
  mandate_decided_books approval_requested_books approval_decided_books

text \<open>A token is old, or it is the one this line authorizes.\<close>

definition mints :: "event \<Rightarrow> capability \<Rightarrow> bool" where
  "mints e c \<longleftrightarrow> ev_type e = ''action.authorized'' \<and>
     (\<exists>i. ev_payload e = PAuthorized i (c\<lparr>cap_consumed := False\<rparr>))"

definition same_token :: "capability \<Rightarrow> capability \<Rightarrow> bool" where
  "same_token c d \<longleftrightarrow> c\<lparr>cap_consumed := False\<rparr> = d\<lparr>cap_consumed := False\<rparr>"

lemma unconsumed_same: "\<not> cap_consumed c \<Longrightarrow> c\<lparr>cap_consumed := False\<rparr> = c"
  by (cases c) simp

lemma authorized_caps:
  assumes "r_authorized bb e = Inr m" "dget (bb_capabilities m) i = Some c"
    "ev_type e = ''action.authorized''"
  shows "dget (bb_capabilities bb) i = Some c \<or> mints e c \<and> cap_epoch c = bb_epoch bb"
proof -
  from assms(1) obtain it cap where p: "ev_payload e = PAuthorized it cap"
    by (auto simp: r_authorized_def outcome_simps)
  with assms(1) have "\<not> cap_consumed cap" "cap_epoch cap = bb_epoch bb"
    "bb_capabilities m = dput (cap_id cap) cap (bb_capabilities bb)"
    by (auto simp: r_authorized_def outcome_simps)
  with assms(2,3) p show ?thesis
    by (auto simp: dget_dput mints_def unconsumed_same split: if_splits)
qed

lemma released_caps:
  assumes "r_released bb e = Inr m" "caps_keyed bb" "dget (bb_capabilities m) i = Some c"
  shows "\<exists>c0. dget (bb_capabilities bb) i = Some c0 \<and> same_token c0 c"
proof -
  have rel: "release_cap bb e c1 = Inr m \<Longrightarrow> m = use_cap bb c1" for c1
    by (erule release_cap_Inr)
  from assms(1) have "m = bb \<or> (\<exists>j c1. dget (bb_capabilities bb) j = Some c1 \<and> m = use_cap bb c1)"
    by (auto simp: r_released_def and_then_eq_Inr split: option.splits if_splits dest: rel)
  then consider "m = bb" | j c1 where "dget (bb_capabilities bb) j = Some c1" "m = use_cap bb c1"
    by blast
  then show ?thesis
  proof cases
    case 1
    with assms(3) show ?thesis by (simp add: same_token_def)
  next
    case (2 j c1)
    with assms(2) have "cap_id c1 = j" by (simp add: caps_keyed_dget)
    with 2 assms(3) show ?thesis
      by (auto simp: use_cap_def dget_dput same_token_def split: if_splits)
  qed
qed

lemma revoked_caps:
  assumes "r_revoked bb e = Inr m" "dget (bb_capabilities m) i = Some c"
  shows "dget (bb_capabilities bb) i = Some c"
  using assms by (auto simp: r_revoked_def and_then_eq_Inr dget_ddel split: if_splits)

lemma reduce_caps:
  assumes r: "reduce bb e = Inr m" and wf: "wf_bb bb" "caps_keyed bb"
    and c: "dget (bb_capabilities m) i = Some c"
  shows "(\<exists>c0. dget (bb_capabilities bb) i = Some c0 \<and> same_token c0 c) \<or>
    mints e c \<and> cap_epoch c = bb_epoch bb"
proof (cases "ev_type e \<in> set AUTHORITY_TYPES")
  case False
  with r c plain_reduce [of bb e m] show ?thesis by (simp add: plain_step_def same_token_def)
next
  case True
  have kept: "\<exists>c0. dget (bb_capabilities bb) i = Some c0 \<and> same_token c0 c"
    if "bb_capabilities m = bb_capabilities bb"
    using that c by (simp add: same_token_def)
  have w: "wf_dict (offers bb)" using wf(1) by (simp add: wf_bb_def)
  note books = others_books offer_wf [OF w] readback_wf [OF w] verbatim_wf [OF w]
  show ?thesis
  proof (cases "ev_type e \<in> {''action.authorized'', ''speak.released'', ''speak.revoked''}")
    case True
    then show ?thesis
      using r c wf authorized_caps [of bb e m i c] released_caps [of bb e m i c]
        revoked_caps [of bb e m i c]
      by (auto simp: reduce_authority same_token_def)
  next
    case other: False
    with AUTHORITY_TYPES_cases [OF True] r have "bb_capabilities m = bb_capabilities bb"
      by (elim disjE) (simp_all add: reduce_authority books [unfolded same_books_def])
    with kept show ?thesis by blast
  qed
qed

end
