(* ===== verification/Provenance.thy ===== *)
theory Provenance
  imports Session_Facts
begin

text \<open>
  Where authority on the blackboard comes from, as an invariant of the bus that relates the
  blackboard to the log, and the properties of sessions that follow.
\<close>

section \<open>The invariant\<close>

definition from_mints :: "bus \<Rightarrow> bool" where
  "from_mints b \<longleftrightarrow> (\<forall>i c. dget (bb_capabilities (bus_bb b)) i = Some c \<longrightarrow>
     (\<exists>j < length (log_of b). mints (log_of b ! j) c \<and> ev_epoch (log_of b ! j) = cap_epoch c))"

definition from_decisions :: "bus \<Rightarrow> bool" where
  "from_decisions b \<longleftrightarrow>
     (\<forall>i a. dget (approvals (bus_bb b)) i = Some a \<longrightarrow>
        (\<exists>j < length (log_of b). decides_approval (log_of b ! j) i a)) \<and>
     (\<forall>m. mandate_of (bus_bb b) = Some m \<longrightarrow> m_status m = MGranted \<longrightarrow>
        (\<exists>j < length (log_of b). grants_mandate (log_of b ! j) m))"

text \<open>Epochs along the log: a bump is later than all lines before it.\<close>

definition epoch_before :: "event \<Rightarrow> int \<Rightarrow> bool" where
  "epoch_before e n \<longleftrightarrow>
     (if ev_type e = ''authority.epoch'' then ev_epoch e < n else ev_epoch e \<le> n)"

definition epochs_ordered :: "bus \<Rightarrow> bool" where
  "epochs_ordered b \<longleftrightarrow>
     (\<forall>i < length (log_of b). epoch_before (log_of b ! i) (bb_epoch (bus_bb b)) \<and>
        (\<forall>k < length (log_of b). i < k \<longrightarrow> epoch_before (log_of b ! i) (ev_epoch (log_of b ! k))))"

definition full_inv :: "bus \<Rightarrow> bool" where
  "full_inv b \<longleftrightarrow> session_inv b \<and> from_mints b \<and> from_decisions b \<and> epochs_ordered b"

lemma emit_reduce:
  assumes "emit b c = Inr b'"
  obtains m where "reduce (bus_bb b) (stamp b c) = Inr m"
    "bus_bb b' = m\<lparr>bb_seq := next_seq (bus_log b), bb_t_ms := ec_t_ms c\<rparr>"
  using assms by (auto simp: emit_Inr apply_event_Inr)

lemma nth_old: "j < length L \<Longrightarrow> (L @ [e]) ! j = L ! j"
  by (simp add: nth_append)

lemma mints_same: "same_token c0 c \<Longrightarrow> mints e c0 \<Longrightarrow> mints e c"
  by (simp add: mints_def same_token_def)

lemma same_token_epoch: "same_token c0 c \<Longrightarrow> cap_epoch c0 = cap_epoch c"
  by (cases c0; cases c) (simp add: same_token_def)

lemma emit_from_mints:
  assumes inv: "full_inv b" and emit: "emit b c = Inr b'"
  shows "from_mints b'"
  unfolding from_mints_def
proof (intro allI impI)
  fix i cap
  assume cap: "dget (bb_capabilities (bus_bb b')) i = Some cap"
  from emit obtain m where m: "reduce (bus_bb b) (stamp b c) = Inr m"
    and b': "bus_bb b' = m\<lparr>bb_seq := next_seq (bus_log b), bb_t_ms := ec_t_ms c\<rparr>"
    by (rule emit_reduce)
  have log: "log_of b' = log_of b @ [stamp b c]" using emit by (simp add: emit_log)
  have "wf_bb (bus_bb b)" "caps_keyed (bus_bb b)"
    using inv by (simp_all add: full_inv_def session_inv_def case_inv_def)
  from reduce_caps [OF m this] cap
  consider c0 where "dget (bb_capabilities (bus_bb b)) i = Some c0" "same_token c0 cap"
    | "mints (stamp b c) cap" "cap_epoch cap = bb_epoch (bus_bb b)"
    by (auto simp: b')
  then show "\<exists>j < length (log_of b'). mints (log_of b' ! j) cap \<and> ev_epoch (log_of b' ! j) = cap_epoch cap"
  proof cases
    case (1 c0)
    with inv obtain j where "j < length (log_of b)" "mints (log_of b ! j) c0"
        "ev_epoch (log_of b ! j) = cap_epoch c0"
      by (auto simp: full_inv_def from_mints_def)
    with 1(2) show ?thesis
      by (intro exI [of _ j]) (simp add: log nth_old mints_same same_token_epoch)
  next
    case 2
    then show ?thesis
      by (intro exI [of _ "length (log_of b)"]) (simp add: log nth_append)
  qed
qed

lemma grants_same: "same_mandate m0 m \<Longrightarrow> grants_mandate e m0 \<Longrightarrow> grants_mandate e m"
  by (auto simp: grants_mandate_def same_mandate_def split: payload.splits)

lemma emit_from_decisions:
  assumes inv: "full_inv b" and emit: "emit b c = Inr b'"
  shows "from_decisions b'"
proof -
  from emit obtain m where m: "reduce (bus_bb b) (stamp b c) = Inr m"
    and b': "bus_bb b' = m\<lparr>bb_seq := next_seq (bus_log b), bb_t_ms := ec_t_ms c\<rparr>"
    by (rule emit_reduce)
  have log: "log_of b' = log_of b @ [stamp b c]" using emit by (simp add: emit_log)
  have ok: "ev_type (stamp b c) \<in> set MODELS \<longrightarrow> model_ok (ev_type (stamp b c)) (ev_payload (stamp b c))"
  proof -
    have "validate_event (stamp b c) = Inr (stamp b c)" using emit by (simp add: emit_Inr)
    then show ?thesis by (rule validate_event_facts(7))
  qed
  have old: "\<exists>j < length (log_of b'). P (log_of b' ! j)"
    if "\<exists>j < length (log_of b). P (log_of b ! j)" for P
    using that by (auto simp: log nth_old intro: less_SucI)
  have new: "\<exists>j < length (log_of b'). P (log_of b' ! j)" if "P (stamp b c)" for P
    using that by (intro exI [of _ "length (log_of b)"]) (simp add: log nth_append)
  have "\<exists>j < length (log_of b'). decides_approval (log_of b' ! j) i a"
    if "dget (approvals (bus_bb b')) i = Some a" for i a
  proof -
    from that have "dget (approvals m) i = Some a" by (simp add: b')
    from reduce_approvals [OF m this]
    consider "dget (approvals (bus_bb b)) i = Some a" | "decides_approval (stamp b c) i a" by blast
    then show ?thesis
    proof cases
      case 1
      with inv show ?thesis by (intro old) (simp add: full_inv_def from_decisions_def)
    next
      case 2
      then show ?thesis by (rule new)
    qed
  qed
  moreover have "\<exists>j < length (log_of b'). grants_mandate (log_of b' ! j) md"
    if md: "mandate_of (bus_bb b') = Some md" "m_status md = MGranted" for md
  proof -
    from md have "mandate_of m = Some md" by (simp add: b')
    from reduce_mandate [OF m this md(2) ok]
    consider md0 where "mandate_of (bus_bb b) = Some md0" "same_mandate md0 md"
      | "grants_mandate (stamp b c) md" by blast
    then show ?thesis
    proof cases
      case (1 md0)
      with md(2) have "m_status md0 = MGranted" by (simp add: same_mandate_def)
      with inv 1 obtain j where "j < length (log_of b)" "grants_mandate (log_of b ! j) md0"
        by (auto simp: full_inv_def from_decisions_def)
      with 1(2) show ?thesis by (intro old) (auto intro: grants_same)
    next
      case 2
      then show ?thesis by (rule new)
    qed
  qed
  ultimately show ?thesis by (simp add: from_decisions_def)
qed

lemma epoch_before_le: "epoch_before e n \<Longrightarrow> n \<le> n' \<Longrightarrow> epoch_before e n'"
  by (auto simp: epoch_before_def split: if_splits)

lemma emit_epochs:
  assumes inv: "full_inv b" and emit: "emit b c = Inr b'"
  shows "epochs_ordered b'"
proof -
  from emit obtain m where m: "reduce (bus_bb b) (stamp b c) = Inr m"
    and b': "bus_bb b' = m\<lparr>bb_seq := next_seq (bus_log b), bb_t_ms := ec_t_ms c\<rparr>"
    by (rule emit_reduce)
  have log: "log_of b' = log_of b @ [stamp b c]" using emit by (simp add: emit_log)
  from inv emit have le: "bb_epoch (bus_bb b) \<le> bb_epoch (bus_bb b')"
    using epochs.step_le by (auto simp: full_inv_def epoch_le_def)
  have bump: "epoch_before (stamp b c) (bb_epoch (bus_bb b'))"
  proof (cases "ec_type c = ''authority.epoch''")
    case True
    with m have "r_epoch (bus_bb b) (stamp b c) = Inr m" by (simp add: reduce_authority)
    then have "bb_epoch (bus_bb b) < bb_epoch m" by (cases rule: epoch_cases) auto
    with True b' show ?thesis by (simp add: epoch_before_def)
  next
    case False
    with le show ?thesis by (simp add: epoch_before_def)
  qed
  have old: "epoch_before (log_of b ! i) (bb_epoch (bus_bb b))"
    "k < length (log_of b) \<Longrightarrow> i < k \<Longrightarrow> epoch_before (log_of b ! i) (ev_epoch (log_of b ! k))"
    if "i < length (log_of b)" for i k
    using inv that by (auto simp: full_inv_def epochs_ordered_def)
  have "epoch_before (log_of b' ! i) (bb_epoch (bus_bb b'))" if "i < length (log_of b')" for i
  proof (cases "i = length (log_of b)")
    case True
    with bump show ?thesis by (simp add: log)
  next
    case False
    with that old(1) [of i] le show ?thesis by (auto simp: log nth_old intro: epoch_before_le)
  qed
  moreover have "epoch_before (log_of b' ! i) (ev_epoch (log_of b' ! k))"
    if "k < length (log_of b')" "i < k" for i k
  proof (cases "k = length (log_of b)")
    case True
    with that old(1) [of i] show ?thesis by (simp add: log nth_old)
  next
    case False
    with that old(2) [of i k] show ?thesis by (simp add: log nth_old)
  qed
  ultimately show ?thesis by (simp add: epochs_ordered_def)
qed

lemma emit_full_inv:
  assumes "full_inv b" "emit b c = Inr b'"
  shows "full_inv b'"
  using emit_from_mints [OF assms] emit_from_decisions [OF assms] emit_epochs [OF assms]
    emit_session_inv [OF _ assms(2)] assms(1)
  by (simp add: full_inv_def)

interpretation full: guarded_machine emit full_inv
  by unfold_locales (rule emit_full_inv)

lemma full_inv_new: "full_inv (new_bus r)"
  by (simp add: full_inv_def session_inv_new)
     (simp add: from_mints_def from_decisions_def epochs_ordered_def new_bus_def initial_defs)

lemma session_full_inv: "full_inv (session r cs)"
  by (simp add: session_def full.attempts_inv full_inv_new)

section \<open>Properties of every session\<close>

lemma unique_dcount:
  assumes "wf_dict d" "\<And>i c j e. dget d i = Some c \<Longrightarrow> P c \<Longrightarrow> dget d j = Some e \<Longrightarrow> P e \<Longrightarrow> i = j"
  shows "dcount P d \<le> 1"
proof (cases "dcount P d = 0")
  case False
  then obtain k v where kv: "dget d k = Some v" "P v"
    using assms(1) by (auto simp: dcount_zero list_ex_iff vals_iff)
  with assms(2) have "\<exists>!k. \<exists>v. dget d k = Some v \<and> P v" by blast
  with assms(1) have "dcount P d = 1" by (simp only: dcount_one_unique)
  then show ?thesis by simp
qed simp

lemma session_case_inv: "case_inv (bus_bb (session r cs))"
  using session_invs by (simp add: session_inv_def)

lemma session_unique_accepts:
  "dget (bb_capabilities (bus_bb (session r cs))) i = Some c \<Longrightarrow> is_flying_accept c \<Longrightarrow>
     dget (bb_capabilities (bus_bb (session r cs))) j = Some d \<Longrightarrow> is_flying_accept d \<Longrightarrow> i = j"
  "dget (bb_capabilities (bus_bb (session r cs))) i = Some c \<Longrightarrow> is_released_accept c \<and> cap_terms_hash c = h \<Longrightarrow>
     dget (bb_capabilities (bus_bb (session r cs))) j = Some d \<Longrightarrow> is_released_accept d \<and> cap_terms_hash d = h \<Longrightarrow> i = j"
proof -
  have inv: "auth_inv (abs_auth (bus_bb (session r cs)))" using session_case_inv by (simp add: case_inv_def)
  from inv have fly: "unique_cap (abs_auth (bus_bb (session r cs))) flying" by (simp add: auth_inv_def)
  from inv have rel: "unique_cap (abs_auth (bus_bb (session r cs))) (\<lambda>c. released c \<and> cap_terms_hash c = h)"
    by (simp add: auth_inv_def)
  from fly show "dget (bb_capabilities (bus_bb (session r cs))) i = Some c \<Longrightarrow> is_flying_accept c \<Longrightarrow>
     dget (bb_capabilities (bus_bb (session r cs))) j = Some d \<Longrightarrow> is_flying_accept d \<Longrightarrow> i = j"
    by (simp only: unique_cap_def abs_auth_simps flying_eq)
  from rel show "dget (bb_capabilities (bus_bb (session r cs))) i = Some c \<Longrightarrow> is_released_accept c \<and> cap_terms_hash c = h \<Longrightarrow>
     dget (bb_capabilities (bus_bb (session r cs))) j = Some d \<Longrightarrow> is_released_accept d \<and> cap_terms_hash d = h \<Longrightarrow> i = j"
    by (simp only: unique_cap_def abs_auth_simps released_eq)
qed

section \<open>Tokens along the log\<close>

text \<open>The token a line mints; the last one minted under an id; the token a line of the log releases.\<close>

definition minted :: "event \<Rightarrow> capability option" where
  "minted e = (if ev_type e = ''action.authorized''
     then (case ev_payload e of PAuthorized _ c \<Rightarrow> Some c | _ \<Rightarrow> None) else None)"

definition last_mint :: "event list \<Rightarrow> string \<Rightarrow> capability option" where
  "last_mint es i = List.find (\<lambda>c. cap_id c = i) (rev (List.map_filter minted es))"

definition release_of :: "event \<Rightarrow> string option" where
  "release_of e = (if ev_type e = ''speak.released'' then payload_cap_id (ev_payload e) else None)"

definition released_at :: "event list \<Rightarrow> nat \<Rightarrow> capability option" where
  "released_at es k = (case release_of (es ! k) of None \<Rightarrow> None | Some i \<Rightarrow> last_mint (take k es) i)"

lemma last_mint_snoc:
  "last_mint (es @ [e]) i = (case minted e of Some c \<Rightarrow> if cap_id c = i then Some c else last_mint es i | None \<Rightarrow> last_mint es i)"
  by (simp add: last_mint_def map_filter_def split: option.split)

lemma last_mint_id: "last_mint es i = Some c \<Longrightarrow> cap_id c = i"
  by (auto simp: last_mint_def find_Some_iff)

lemma reduce_tokens:
  assumes r: "reduce bb e = Inr m" and wf: "wf_bb bb" "caps_keyed bb"
  obtains
    (plain) "bb_capabilities m = bb_capabilities bb" "minted e = None" "release_of e = None"
  | (mint) c where "minted e = Some c" "release_of e = None" "\<not> cap_consumed c"
      "cap_id c \<notin> set (dkeys (bb_capabilities bb))" "bb_capabilities m = dput (cap_id c) c (bb_capabilities bb)"
  | (release) i c where "release_of e = Some i" "minted e = None" "dget (bb_capabilities bb) i = Some c" "\<not> cap_consumed c"
      "bb_capabilities m = dput i (c\<lparr>cap_consumed := True\<rparr>) (bb_capabilities bb)"
  | (revoke) i c where "minted e = None" "release_of e = None" "dget (bb_capabilities bb) i = Some c" "\<not> cap_consumed c"
      "bb_capabilities m = ddel i (bb_capabilities bb)"
proof (cases "ev_type e \<in> {''action.authorized'', ''speak.released'', ''speak.revoked''}")
  case False
  then have n: "minted e = None" "release_of e = None" by (simp_all add: minted_def release_of_def)
  have w: "wf_dict (offers bb)" using wf(1) by (simp add: wf_bb_def)
  note books = others_books offer_wf [OF w] readback_wf [OF w] verbatim_wf [OF w]
  have "bb_capabilities m = bb_capabilities bb"
  proof (cases "ev_type e \<in> set AUTHORITY_TYPES")
    case True
    with AUTHORITY_TYPES_cases [OF True] False r show ?thesis
      by (elim disjE) (simp_all add: reduce_authority books [unfolded same_books_def])
  next
    case False
    with r plain_reduce [of bb e m] show ?thesis by (simp add: plain_step_def)
  qed
  then show thesis using n by (rule plain)
next
  case True
  then consider (a) "ev_type e = ''action.authorized''" | (b) "ev_type e = ''speak.released''" | (c) "ev_type e = ''speak.revoked''"
    by blast
  then show thesis
  proof cases
    case a
    with r obtain it cap where p: "ev_payload e = PAuthorized it cap" by (auto simp: reduce_authority r_authorized_def outcome_simps)
    with a r have "\<not> cap_consumed cap" "cap_id cap \<notin> set (dkeys (bb_capabilities bb))"
      "bb_capabilities m = dput (cap_id cap) cap (bb_capabilities bb)"
      by (auto simp: reduce_authority r_authorized_def outcome_simps)
    with a p show thesis by (intro mint [of cap]) (simp_all add: minted_def release_of_def)
  next
    case b
    with r have r': "r_released bb e = Inr m" by (simp add: reduce_authority)
    show thesis
    proof (cases "payload_cap_id (ev_payload e)")
      case None
      with b r' show thesis by (intro plain) (simp_all add: r_released_def minted_def release_of_def)
    next
      case (Some i)
      with r' obtain c where c: "dget (bb_capabilities bb) i = Some c" "\<not> cap_consumed c"
        "(case dget (bb_capabilities bb) (cap_id c) of None \<Rightarrow> Inl (KeyError (cap_id c)) | Some x \<Rightarrow> release_cap bb e x) = Inr m"
        by (auto simp: r_released_def outcome_simps live_cap_Inr str_of_def)
      with wf(2) have i: "cap_id c = i" by (simp add: caps_keyed_dget)
      with c have "release_cap bb e c = Inr m" by simp
      then have "m = use_cap bb c" by (rule release_cap_Inr)
      with b Some c i show thesis by (intro release [of i c]) (simp_all add: use_cap_def minted_def release_of_def)
    qed
  next
    case c
    with r have r': "r_revoked bb e = Inr m" by (simp add: reduce_authority)
    have n: "minted e = None" "release_of e = None" using c by (simp_all add: minted_def release_of_def)
    show thesis
    proof (cases "payload_cap_id (ev_payload e)")
      case None
      with r' n show thesis by (intro plain) (simp_all add: r_revoked_def)
    next
      case (Some i)
      with r' obtain c where c: "dget (bb_capabilities bb) i = Some c" "\<not> cap_consumed c"
        "m = bb\<lparr>bb_capabilities := ddel (cap_id c) (bb_capabilities bb)\<rparr>"
        by (auto simp: r_revoked_def outcome_simps live_cap_Inr str_of_def)
      with wf(2) have "cap_id c = i" by (simp add: caps_keyed_dget)
      with c n show thesis by (intro revoke [of i c]) simp_all
    qed
  qed
qed

text \<open>The board holds every token it released, as minted, and no token is released twice.\<close>

definition traced :: "(string, capability) dict \<Rightarrow> event list \<Rightarrow> bool" where
  "traced caps es \<longleftrightarrow>
     (\<forall>i c. dget caps i = Some c \<longrightarrow> last_mint es i = Some (c\<lparr>cap_consumed := False\<rparr>)) \<and>
     (\<forall>k i. k < length es \<longrightarrow> release_of (es ! k) = Some i \<longrightarrow>
        (\<exists>c. released_at es k = Some c \<and> dget caps i = Some (c\<lparr>cap_consumed := True\<rparr>))) \<and>
     (\<forall>k k' i. k < length es \<longrightarrow> k' < length es \<longrightarrow> release_of (es ! k) = Some i \<longrightarrow>
        release_of (es ! k') = Some i \<longrightarrow> k = k')"

lemma released_at_old: "k < length es \<Longrightarrow> released_at (es @ [e]) k = released_at es k"
  by (simp add: released_at_def nth_append cong: option.case_cong)

lemma released_at_new:
  "released_at (es @ [e]) (length es) = (case release_of e of None \<Rightarrow> None | Some i \<Rightarrow> last_mint es i)"
  by (simp add: released_at_def cong: option.case_cong)

lemma traced_held:
  assumes "traced caps es" "k < length es" "release_of (es ! k) = Some i"
  obtains c where "released_at es k = Some c" "dget caps i = Some (c\<lparr>cap_consumed := True\<rparr>)"
  using assms unfolding traced_def by blast

lemma traced_once:
  assumes "traced caps es" "k < length es" "k' < length es" "release_of (es ! k) = Some i" "release_of (es ! k') = Some i"
  shows "k = k'"
  using assms unfolding traced_def by blast

lemma traced_minted: "traced caps es \<Longrightarrow> dget caps i = Some c \<Longrightarrow> last_mint es i = Some (c\<lparr>cap_consumed := False\<rparr>)"
  by (simp add: traced_def)

text \<open>A line that releases nothing keeps what was released, where the board still holds it.\<close>

lemma traced_silent:
  assumes tr: "traced caps es" and e: "release_of e = None"
    and kept: "\<And>i c. dget caps i = Some c \<Longrightarrow> cap_consumed c \<Longrightarrow> dget caps' i = Some c"
    and mint: "\<And>i c. dget caps' i = Some c \<Longrightarrow> last_mint (es @ [e]) i = Some (c\<lparr>cap_consumed := False\<rparr>)"
  shows "traced caps' (es @ [e])"
  unfolding traced_def
proof (intro conjI allI impI)
  fix k i assume k: "k < length (es @ [e])" "release_of ((es @ [e]) ! k) = Some i"
  with e have old: "k < length es" "release_of (es ! k) = Some i" by (auto simp: nth_append less_Suc_eq split: if_splits)
  with tr obtain c where "released_at es k = Some c" "dget caps i = Some (c\<lparr>cap_consumed := True\<rparr>)" by (rule traced_held)
  with old kept [of i "c\<lparr>cap_consumed := True\<rparr>"]
  show "\<exists>c. released_at (es @ [e]) k = Some c \<and> dget caps' i = Some (c\<lparr>cap_consumed := True\<rparr>)"
    by (simp add: released_at_old)
next
  fix k k' i
  assume "k < length (es @ [e])" "k' < length (es @ [e])" "release_of ((es @ [e]) ! k) = Some i" "release_of ((es @ [e]) ! k') = Some i"
  with e have "k < length es" "k' < length es" "release_of (es ! k) = Some i" "release_of (es ! k') = Some i"
    by (auto simp: nth_append less_Suc_eq split: if_splits)
  with tr show "k = k'" by (rule traced_once)
qed (rule mint)

lemma traced_release:
  assumes tr: "traced caps es" and e: "release_of e = Some i" "minted e = None"
    and c: "dget caps i = Some c" "\<not> cap_consumed c"
  shows "traced (dput i (c\<lparr>cap_consumed := True\<rparr>) caps) (es @ [e])"
proof -
  have live: "release_of (es ! k) \<noteq> Some i" if "k < length es" for k
  proof
    assume "release_of (es ! k) = Some i"
    with tr that obtain d where "dget caps i = Some (d\<lparr>cap_consumed := True\<rparr>)" by (rule traced_held)
    with c show False by auto
  qed
  show ?thesis unfolding traced_def
  proof (intro conjI allI impI)
    fix j d assume "dget (dput i (c\<lparr>cap_consumed := True\<rparr>) caps) j = Some d"
    then show "last_mint (es @ [e]) j = Some (d\<lparr>cap_consumed := False\<rparr>)"
      using e(2) c traced_minted [OF tr] by (auto simp: dget_dput last_mint_snoc split: if_splits)
  next
    fix k j assume k: "k < length (es @ [e])" "release_of ((es @ [e]) ! k) = Some j"
    show "\<exists>d. released_at (es @ [e]) k = Some d \<and> dget (dput i (c\<lparr>cap_consumed := True\<rparr>) caps) j = Some (d\<lparr>cap_consumed := True\<rparr>)"
    proof (cases "k < length es")
      case True
      with k have j: "release_of (es ! k) = Some j" by (simp add: nth_append)
      with live True have "j \<noteq> i" by blast
      from tr True j obtain d where "released_at es k = Some d" "dget caps j = Some (d\<lparr>cap_consumed := True\<rparr>)" by (rule traced_held)
      with True \<open>j \<noteq> i\<close> show ?thesis by (simp add: released_at_old dget_dput)
    next
      case False
      with k have "k = length es" by simp
      with k e have "j = i" by simp
      with \<open>k = length es\<close> e c traced_minted [OF tr] show ?thesis by (simp add: released_at_new dget_dput)
    qed
  next
    fix k k' j
    assume "k < length (es @ [e])" "k' < length (es @ [e])" "release_of ((es @ [e]) ! k) = Some j" "release_of ((es @ [e]) ! k') = Some j"
    then show "k = k'" using live e(1) traced_once [OF tr, of k k' j]
      by (cases "k < length es"; cases "k' < length es") (auto simp: nth_append less_Suc_eq)
  qed
qed

lemma emit_traced:
  assumes inv: "full_inv b" "traced (bb_capabilities (bus_bb b)) (log_of b)" and emit: "emit b c = Inr b'"
  shows "traced (bb_capabilities (bus_bb b')) (log_of b')"
proof -
  from emit obtain m where m: "reduce (bus_bb b) (stamp b c) = Inr m"
    and b': "bus_bb b' = m\<lparr>bb_seq := next_seq (bus_log b), bb_t_ms := ec_t_ms c\<rparr>"
    by (rule emit_reduce)
  let ?d = "bb_capabilities (bus_bb b)"
  have log: "log_of b' = log_of b @ [stamp b c]" using emit by (simp add: emit_log)
  have caps: "bb_capabilities (bus_bb b') = bb_capabilities m" by (simp add: b')
  have wf: "wf_bb (bus_bb b)" "caps_keyed (bus_bb b)"
    using inv(1) by (simp_all add: full_inv_def session_inv_def case_inv_def)
  note mints = traced_minted [OF inv(2)]
  from m wf show ?thesis unfolding log caps
  proof (cases rule: reduce_tokens)
    case plain
    show "traced (bb_capabilities m) (log_of b @ [stamp b c])"
      by (rule traced_silent [OF inv(2)]) (use plain mints in \<open>simp_all add: last_mint_snoc\<close>)
  next
    case (mint t)
    have fresh: "dget ?d (cap_id t) = None" using mint(4) by (simp add: dget_None_keys)
    have same: "t\<lparr>cap_consumed := False\<rparr> = t" using mint(3) by (cases t) simp
    show "traced (bb_capabilities m) (log_of b @ [stamp b c])"
      by (rule traced_silent [OF inv(2)])
         (use mint mints fresh same in \<open>auto simp: last_mint_snoc dget_dput split: if_splits\<close>)
  next
    case (release i t)
    show "traced (bb_capabilities m) (log_of b @ [stamp b c])"
      unfolding release(5) by (rule traced_release [OF inv(2) release(1-4)])
  next
    case (revoke i t)
    show "traced (bb_capabilities m) (log_of b @ [stamp b c])"
      by (rule traced_silent [OF inv(2)])
         (use revoke mints in \<open>auto simp: last_mint_snoc dget_ddel split: if_splits\<close>)
  qed
qed

interpretation traces: guarded_machine emit "\<lambda>b. full_inv b \<and> traced (bb_capabilities (bus_bb b)) (log_of b)"
  by unfold_locales (use emit_full_inv emit_traced in blast)

lemma session_traced: "traced (bb_capabilities (bus_bb (session r cs))) (log_of (session r cs))"
proof -
  have "traced (bb_capabilities (bus_bb (new_bus r))) (log_of (new_bus r))" by (simp add: traced_def new_bus_def initial_defs)
  then show ?thesis using traces.attempts_inv [of "new_bus r" cs] full_inv_new by (simp add: session_def)
qed

text \<open>
  C2. In every session at most one accept is in flight, and of the same terms at most one accept was ever released: every
  line of the log that releases a token releases one that was minted before it, and for each terms hash at most one
  line of the log releases an accept token of it.
\<close>

theorem one_accept_per_case:
  "dcount is_flying_accept (bb_capabilities (bus_bb (session r cs))) \<le> 1 \<and>
   (\<forall>k < length (log_of (session r cs)). release_of (log_of (session r cs) ! k) = Some i \<longrightarrow>
      (\<exists>c. released_at (log_of (session r cs)) k = Some c \<and> cap_id c = i)) \<and>
   card {k. k < length (log_of (session r cs)) \<and> (\<exists>c. released_at (log_of (session r cs)) k = Some c \<and>
      cap_intent c = AcceptOffer \<and> cap_terms_hash c = h)} \<le> 1"
proof -
  let ?bb = "bus_bb (session r cs)" and ?L = "log_of (session r cs)"
  note tr = session_traced [of r cs]
  have held: "\<exists>c. released_at ?L k = Some c \<and> cap_id c = i \<and> dget (bb_capabilities ?bb) i = Some (c\<lparr>cap_consumed := True\<rparr>)"
    if k: "k < length ?L" "release_of (?L ! k) = Some i" for k i
  proof -
    from tr k obtain c where c: "released_at ?L k = Some c" "dget (bb_capabilities ?bb) i = Some (c\<lparr>cap_consumed := True\<rparr>)" by (rule traced_held)
    from c(1) k(2) have "cap_id c = i" by (simp add: released_at_def last_mint_id)
    with c show ?thesis by blast
  qed
  have "k = k'" if k: "k < length ?L" "released_at ?L k = Some c" "cap_intent c = AcceptOffer" "cap_terms_hash c = h"
    and k': "k' < length ?L" "released_at ?L k' = Some c'" "cap_intent c' = AcceptOffer" "cap_terms_hash c' = h" for k k' c c'
  proof -
    obtain i i' where i: "release_of (?L ! k) = Some i" "release_of (?L ! k') = Some i'"
      using k(2) k'(2) by (auto simp: released_at_def split: option.splits)
    have "dget (bb_capabilities ?bb) i = Some (c\<lparr>cap_consumed := True\<rparr>)" "dget (bb_capabilities ?bb) i' = Some (c'\<lparr>cap_consumed := True\<rparr>)"
      using held [OF k(1) i(1)] held [OF k'(1) i(2)] k(2) k'(2) by auto
    then have "i = i'" using k(3,4) k'(3,4)
      by (intro session_unique_accepts(2) [where h = h and c = "c\<lparr>cap_consumed := True\<rparr>" and d = "c'\<lparr>cap_consumed := True\<rparr>"])
         (simp_all add: is_released_accept_def)
    with tr k(1) k'(1) i show ?thesis by (auto intro: traced_once)
  qed
  then have "card {k. k < length ?L \<and> (\<exists>c. released_at ?L k = Some c \<and> cap_intent c = AcceptOffer \<and> cap_terms_hash c = h)} \<le> 1"
    by (intro card_le_Suc0_iff_eq [THEN iffD2, simplified One_nat_def [symmetric]]) auto
  moreover have "dcount is_flying_accept (bb_capabilities ?bb) \<le> 1"
    by (rule unique_dcount) (use session_case_inv session_unique_accepts(1) in \<open>auto simp: case_inv_def wf_bb_def\<close>)
  ultimately show ?thesis using held by blast
qed

theorem one_accept_per_case_witness:
  "\<exists>k c. k < length (log_of (session ''r'' (authorized_calls @ [sample_release]))) \<and>
     released_at (log_of (session ''r'' (authorized_calls @ [sample_release]))) k = Some c \<and> cap_id c = ''cap-1''"
proof -
  let ?b = "session ''r'' authorized_calls" and ?S = "session ''r'' (authorized_calls @ [sample_release])"
  obtain b' where b': "emit ?b sample_release = Inr b'" using sample_release_ok by (auto simp: succeeds_iff)
  then have "log_of ?S = log_of ?b @ [stamp ?b sample_release]" by (simp add: session_def attempts_snoc attempt_def emit_log)
  then have last: "length (log_of ?b) < length (log_of ?S)" "log_of ?S ! length (log_of ?b) = stamp ?b sample_release" by simp_all
  then have "release_of (log_of ?S ! length (log_of ?b)) = Some ''cap-1''"
    by (simp add: release_of_def sample_release_def sample_call_def)
  with conjunct1 [OF conjunct2 [OF one_accept_per_case [of "''r''" "authorized_calls @ [sample_release]" "''cap-1''"]]] last(1)
  obtain c where "released_at (log_of ?S) (length (log_of ?b)) = Some c" "cap_id c = ''cap-1''" by blast
  with last(1) show ?thesis by (intro exI [of _ "length (log_of ?b)"] exI [of _ c] conjI)
qed

text \<open>What the released token had in its favour, in any session.\<close>

lemma released_token:
  assumes "emit (session r cs) c = Inr b'" "ec_type c = ''speak.released''"
    "payload_cap_id (ec_payload c) = Some i"
  obtains cap a off where "dget (bb_capabilities (bus_bb (session r cs))) i = Some cap"
    "cap_id cap = i" "\<not> cap_consumed cap" "cap_epoch cap = bb_epoch (bus_bb (session r cs))"
    "bb_fences (bus_bb (session r cs)) = []"
    "dget (offers (bus_bb (session r cs))) (ref_or_empty a) = Some off"
    "o_status off = OfferOpen" "o_terms_hash off = Some (cap_terms_hash cap)"
    "ec_t_ms c < cap_expires_ms cap"
proof -
  let ?bb = "bus_bb (session r cs)"
  from assms(1) obtain m where "reduce ?bb (stamp (session r cs) c) = Inr m" by (rule emit_reduce)
  with assms(2) have "r_released ?bb (stamp (session r cs) c) = Inr m"
    by (simp add: reduce_authority)
  with assms(3) obtain j where "live_cap ?bb (stamp (session r cs) c) = Inr j"
    and j: "(case dget (bb_capabilities ?bb) j of None \<Rightarrow> Inl (KeyError j)
             | Some x \<Rightarrow> release_cap ?bb (stamp (session r cs) c) x) = Inr m"
    by (auto simp: r_released_def outcome_simps)
  then obtain cap where cap: "dget (bb_capabilities ?bb) i = Some cap" "\<not> cap_consumed cap" "j = cap_id cap"
    using assms(3) by (auto simp: live_cap_Inr str_of_def)
  have "caps_keyed ?bb" using session_case_inv by (simp add: case_inv_def)
  with cap have i: "cap_id cap = i" by (simp add: caps_keyed_dget)
  with cap j have "release_cap ?bb (stamp (session r cs) c) cap = Inr m" by simp
  then show thesis
    by (rule release_cap_Inr) (use that cap i in auto)
qed

text \<open>
  C1. Nothing is released but under the authority it was minted with: when a line that holds
  token \<open>i\<close> is released, the log has the \<open>action.authorized\<close> line that minted the token, the
  epoch was not bumped since, no fence is up, the token has not expired, and an open offer has
  exactly the token's terms.
\<close>

theorem release_under_its_mint:
  assumes "emit (session r cs) c = Inr b'" "ec_type c = ''speak.released''"
    "payload_cap_id (ec_payload c) = Some i"
  shows "\<exists>j < length (log_of (session r cs)). \<exists>cap ref off.
    mints (log_of (session r cs) ! j) cap \<and> cap_id cap = i \<and> ec_t_ms c < cap_expires_ms cap \<and>
    (\<forall>k < length (log_of (session r cs)). j < k \<longrightarrow>
       ev_type (log_of (session r cs) ! k) \<noteq> ''authority.epoch'') \<and>
    bb_fences (bus_bb (session r cs)) = [] \<and>
    dget (offers (bus_bb (session r cs))) ref = Some off \<and> o_status off = OfferOpen \<and>
    o_terms_hash off = Some (cap_terms_hash cap)"
proof -
  let ?L = "log_of (session r cs)" and ?bb = "bus_bb (session r cs)"
  from assms obtain cap a off where cap: "dget (bb_capabilities ?bb) i = Some cap" "cap_id cap = i"
      "cap_epoch cap = bb_epoch ?bb"
    and rest: "bb_fences ?bb = []" "dget (offers ?bb) (ref_or_empty a) = Some off"
      "o_status off = OfferOpen" "o_terms_hash off = Some (cap_terms_hash cap)"
      "ec_t_ms c < cap_expires_ms cap"
    by (rule released_token) blast
  have full: "full_inv (session r cs)" by (rule session_full_inv)
  then have "from_mints (session r cs)" by (simp add: full_inv_def)
  with cap(1) obtain j where j: "j < length ?L" "mints (?L ! j) cap" "ev_epoch (?L ! j) = cap_epoch cap"
    unfolding from_mints_def by blast
  have "ev_type (?L ! k) \<noteq> ''authority.epoch''" if k: "k < length ?L" "j < k" for k
  proof
    assume t: "ev_type (?L ! k) = ''authority.epoch''"
    from full k t have "ev_epoch (?L ! k) < bb_epoch ?bb"
      by (auto simp: full_inv_def epochs_ordered_def epoch_before_def)
    moreover from full j(1) k have "epoch_before (?L ! j) (ev_epoch (?L ! k))"
      by (simp add: full_inv_def epochs_ordered_def)
    then have "ev_epoch (?L ! j) \<le> ev_epoch (?L ! k)"
      by (auto simp: epoch_before_def split: if_splits)
    ultimately show False using j(3) cap(3) by simp
  qed
  with j cap(2) rest show ?thesis by blast
qed

theorem release_under_its_mint_witness:
  "\<exists>j < length (log_of (session ''r'' authorized_calls)). \<exists>cap.
     mints (log_of (session ''r'' authorized_calls) ! j) cap \<and> cap_id cap = ''cap-1''"
proof -
  obtain b' where "emit (session ''r'' authorized_calls) sample_release = Inr b'"
    using sample_release_ok by (auto simp: succeeds_iff)
  from release_under_its_mint [OF this] show ?thesis
    by (auto simp: sample_release_def sample_call_def)
qed

lemma session_ids: "distinct (map ev_event_id (log_of (session r cs)))"
proof -
  let ?L = "log_of (session r cs)"
  have "ev_event_id (?L ! i) = event_id r (int i)" if "i < length ?L" for i
    using session_bus_inv [of r cs] that validated_id [of "?L ! i"] by (simp add: bus_inv_def line_ok_def session_run_id)
  then have "map ev_event_id ?L = map (\<lambda>i. event_id r (int i)) [0..<length ?L]"
    by (intro nth_equalityI) simp_all
  moreover have "inj_on (\<lambda>i. event_id r (int i)) {0..<length ?L}"
    by (rule inj_onI) (use event_id_inj in force)
  ultimately show ?thesis by (simp add: distinct_map)
qed

text \<open>
  C3. The log decides nothing by itself: exactly one of the causes of a decision line names an earlier
  \<open>approval.post\<close>, that post says what the line decides and is by the person in the interface or the simulated
  approver, and no subject is decided twice.
\<close>

theorem decisions_cite_posts:
  "\<exists>post. \<forall>d < length (log_of (session r cs)). is_decision (log_of (session r cs) ! d) \<longrightarrow>
     post d < d \<and> post_causes (log_of (session r cs)) d = [ev_event_id (log_of (session r cs) ! post d)] \<and>
     ev_type (log_of (session r cs) ! post d) = ''approval.post'' \<and>
     ev_actor (log_of (session r cs) ! post d) \<in> {''ui'', ''sim_approver''} \<and>
     decides (log_of (session r cs) ! d) (log_of (session r cs) ! post d) \<and>
     (\<forall>c < d. is_decision (log_of (session r cs) ! c) \<longrightarrow>
        post_subject (log_of (session r cs) ! post c) \<noteq> post_subject (log_of (session r cs) ! post d))"
proof -
  let ?L = "log_of (session r cs)"
  have lines: "line_ok (lg_run_id (bus_log (session r cs))) ?L i" if "i < length ?L" for i
    using session_bus_inv that by (simp add: bus_inv_def)
  then have "\<forall>i < length ?L. is_decision (?L ! i) \<longrightarrow> check_causes (take (Suc i) ?L) = Inr ()"
    by (simp add: line_ok_def)
  from checked_decisions [OF this session_ids] obtain post where post: "\<forall>d < length ?L. is_decision (?L ! d) \<longrightarrow>
      post d < d \<and> ev_type (?L ! post d) = ''approval.post'' \<and> decides (?L ! d) (?L ! post d) \<and>
      post_causes ?L d = [ev_event_id (?L ! post d)] \<and>
      (\<forall>c < d. is_decision (?L ! c) \<longrightarrow> post_subject (?L ! post c) \<noteq> post_subject (?L ! post d))" ..
  have "ev_actor (?L ! i) \<in> {''ui'', ''sim_approver''}"
    if "i < length ?L" "ev_type (?L ! i) = ''approval.post''" for i
    using validate_event_facts(5) [of "?L ! i" "?L ! i"] lines [OF that(1)] that(2)
    by (simp add: line_ok_def emitters_of_def EMITTERS_def)
  with post show ?thesis by (intro exI [of _ post]) (meson order.strict_trans)
qed

theorem decisions_cite_posts_witness:
  "\<exists>j < 5. post_causes (log_of (session ''r'' granted_calls)) 5 = [ev_event_id (log_of (session ''r'' granted_calls) ! j)] \<and>
     ev_type (log_of (session ''r'' granted_calls) ! j) = ''approval.post'' \<and>
     ev_actor (log_of (session ''r'' granted_calls) ! j) \<in> {''ui'', ''sim_approver''}"
proof -
  from decisions_cite_posts [of "''r''" granted_calls] obtain post where
    "\<forall>d < 6. is_decision (log_of (session ''r'' granted_calls) ! d) \<longrightarrow> post d < d \<and>
       post_causes (log_of (session ''r'' granted_calls)) d = [ev_event_id (log_of (session ''r'' granted_calls) ! post d)] \<and>
       ev_type (log_of (session ''r'' granted_calls) ! post d) = ''approval.post'' \<and>
       ev_actor (log_of (session ''r'' granted_calls) ! post d) \<in> {''ui'', ''sim_approver''}"
    unfolding granted_log(1) by blast
  from spec [OF this, of 5] granted_log(2) show ?thesis by auto
qed

text \<open>
  No model grants: an approval on the blackboard is the decision of an earlier post with
  the same id and decision, by the person or simulated approver the approval names.
\<close>

theorem approvals_from_posts:
  assumes "dget (approvals (bus_bb (session r cs))) i = Some a"
  shows "\<exists>k < length (log_of (session r cs)). \<exists>j < k. \<exists>p.
    decides_approval (log_of (session r cs) ! k) i a \<and>
    ev_type (log_of (session r cs) ! j) = ''approval.post'' \<and>
    ev_actor (log_of (session r cs) ! j) = approver_name (a_by a) \<and>
    ev_payload (log_of (session r cs) ! j) = PPost p \<and> ap_subject p = ApprovalSubject \<and>
    ap_subject_id p = i \<and> ap_decision p = a_decision a"
proof -
  let ?L = "log_of (session r cs)"
  have "from_decisions (session r cs)" using session_full_inv by (simp add: full_inv_def)
  with assms obtain k where k: "k < length ?L" "decides_approval (?L ! k) i a"
    unfolding from_decisions_def by blast
  then have "is_decision (?L ! k)" by (simp add: decides_approval_def is_decision_def)
  moreover have "\<forall>i < length ?L. is_decision (?L ! i) \<longrightarrow> check_causes (take (Suc i) ?L) = Inr ()"
    using session_bus_inv [of r cs] by (simp add: bus_inv_def line_ok_def)
  ultimately obtain j where j: "j < k" "ev_type (?L ! j) = ''approval.post''" "decides (?L ! k) (?L ! j)"
    using checked_decisions [OF _ session_ids [of r cs]] k(1) by blast
  with k(2) show ?thesis
    by (intro exI [of _ k] conjI k(1) exI [of _ j])
       (auto simp: decides_def decides_approval_def split: payload.splits)
qed

theorem approvals_from_posts_witness:
  "\<exists>j < length (log_of (session ''r'' granted_calls)).
     ev_type (log_of (session ''r'' granted_calls) ! j) = ''approval.post''"
proof -
  obtain a where "dget (approvals (bus_bb (session ''r'' granted_calls))) ''a1'' = Some a"
    using granted_approval by auto
  from approvals_from_posts [OF this] show ?thesis by (meson order.strict_trans)
qed

end
