(* ===== verification/Case_Claims.thy ===== *)
theory Case_Claims
  imports Provenance
begin

text \<open>
  Properties of sessions that relate the parts of the fold: the mandate and its decision, the
  status machine and its terminal statuses, the release check of \<open>guard/capability.py\<close> and the
  guards of the fold, the abstract authority, and the log as the state.
\<close>

section \<open>The mandate\<close>

definition mandate_calls :: "emit_call list" where
  "mandate_calls =
    [sample_call 0 ''user.msg'' ''kernel'' (PUserMsg ''hello'') [],
     sample_call 1 ''mandate.proposed'' ''guard''
       (PMandate \<lparr>m_id = ''m1'', m_hash = ''mh'', m_status = MProposed, m_epoch = 0,
          m_max_monthly_price_minor = Some 5000, m_max_term_months = None,
          m_max_one_time_fees_minor = None, m_required_features = [], m_forbidden_changes = [],
          m_expires_ms = None, m_decided_by = None\<rparr>) [''r:0''],
     sample_call 2 ''approval.post'' ''ui''
       (PPost \<lparr>ap_subject = MandateSubject, ap_subject_id = ''m1'', ap_decision = Granted,
          ap_subject_hash = ''mh'', ap_epoch = 0\<rparr>) [],
     sample_call 3 ''mandate.decided'' ''kernel''
       (PMandateDecided \<lparr>md_mandate_id = ''m1'', md_mandate_hash = ''mh'', md_decision = Granted,
          md_by = Ui\<rparr>) [''r:2'']]"

lemma mandate_granted:
  "map_option m_status (mandate_of (bus_bb (session ''r'' mandate_calls))) = Some MGranted"
  by code_simp

text \<open>
  C4. A granted mandate on the blackboard was granted by a post of the person or the simulated
  approver that carries its id and the hash of its bounds.
\<close>

theorem mandate_from_post:
  assumes "mandate_of (bus_bb (session r cs)) = Some m" "m_status m = MGranted"
  shows "\<exists>k < length (log_of (session r cs)). \<exists>j < k. \<exists>p.
    grants_mandate (log_of (session r cs) ! k) m \<and>
    ev_type (log_of (session r cs) ! j) = ''approval.post'' \<and>
    ev_actor (log_of (session r cs) ! j) \<in> {''ui'', ''sim_approver''} \<and>
    ev_payload (log_of (session r cs) ! j) = PPost p \<and> ap_subject p = MandateSubject \<and>
    ap_subject_id p = m_id m \<and> ap_subject_hash p = m_hash m \<and> ap_decision p = Granted"
proof -
  let ?L = "log_of (session r cs)"
  have "from_decisions (session r cs)" using session_full_inv by (simp add: full_inv_def)
  with assms obtain k where k: "k < length ?L" "grants_mandate (?L ! k) m"
    unfolding from_decisions_def by blast
  then have "is_decision (?L ! k)" by (simp add: grants_mandate_def is_decision_def)
  moreover have lines: "\<forall>i < length ?L. is_decision (?L ! i) \<longrightarrow> check_causes (take (Suc i) ?L) = Inr ()"
    using session_bus_inv [of r cs] by (simp add: bus_inv_def line_ok_def)
  ultimately obtain j where j: "j < k" "ev_type (?L ! j) = ''approval.post''" "decides (?L ! k) (?L ! j)"
    using checked_decisions [OF _ session_ids [of r cs]] k(1) by blast
  have "validate_event (?L ! j) = Inr (?L ! j)"
    using session_bus_inv [of r cs] j(1) k(1) by (simp add: bus_inv_def line_ok_def)
  from validate_event_facts(5) [OF this] j(2)
  have "ev_actor (?L ! j) \<in> {''ui'', ''sim_approver''}"
    by (simp add: emitters_of_def EMITTERS_def)
  with j k(2) show ?thesis
    by (intro exI [of _ k] conjI k(1) exI [of _ j])
       (auto simp: decides_def grants_mandate_def split: payload.splits)
qed

theorem mandate_from_post_witness:
  "\<exists>j < length (log_of (session ''r'' mandate_calls)). \<exists>p.
     ev_payload (log_of (session ''r'' mandate_calls) ! j) = PPost p \<and> ap_decision p = Granted"
proof -
  obtain m where "mandate_of (bus_bb (session ''r'' mandate_calls)) = Some m" "m_status m = MGranted"
    using mandate_granted by auto
  from mandate_from_post [OF this] show ?thesis by (meson order.strict_trans)
qed

section \<open>The log is the state\<close>

text \<open>
  C6. The blackboard of a bus is always the fold of its log from the initial blackboard, line
  \<open>i\<close> of the log has number \<open>i\<close> and the id of that number, every line passes validation, time
  never goes back, and \<open>session.ended\<close> is the last line.
\<close>

theorem log_is_the_state:
  "fold_log (log_of (session r cs)) initial_blackboard = Inr (bus_bb (session r cs)) \<and>
   (\<forall>i < length (log_of (session r cs)).
      ev_seq (log_of (session r cs) ! i) = int i \<and>
      ev_event_id (log_of (session r cs) ! i) = event_id r (int i) \<and>
      validate_event (log_of (session r cs) ! i) = Inr (log_of (session r cs) ! i) \<and>
      (ev_type (log_of (session r cs) ! i) = ''session.ended'' \<longrightarrow>
         Suc i = length (log_of (session r cs)))) \<and>
   sorted (map ev_t_ms (log_of (session r cs)))"
proof -
  have inv: "bus_inv (session r cs)" by (rule session_bus_inv)
  have "ev_event_id (log_of (session r cs) ! i) = event_id r (int i)"
    if "i < length (log_of (session r cs))" for i
    using inv that validated_id [of "log_of (session r cs) ! i"] by (simp add: bus_inv_def line_ok_def session_run_id)
  with inv show ?thesis by (simp add: bus_inv_def line_ok_def)
qed

theorem log_is_the_state_witness:
  "fold_log (log_of (session ''r'' granted_calls)) initial_blackboard =
     Inr (bus_bb (session ''r'' granted_calls)) \<and>
   ev_seq (log_of (session ''r'' granted_calls) ! 5) = 5"
  using log_is_the_state [of "''r''" granted_calls] granted_log(1) by auto

text \<open>
  C5. Every accepted line is one step of the abstract authority at the line's time, and a
  rejected call changes nothing.
\<close>

theorem emit_refines_authority:
  "auth_step (ec_t_ms c) (abs_auth (bus_bb (session r cs))) (abs_auth (bus_bb (session r (cs @ [c]))))"
proof (cases "emit (session r cs) c")
  case (Inl x)
  then show ?thesis by (simp add: session_def attempts_snoc attempt_def auth_step.quiet)
next
  case (Inr b')
  from emit_step [OF session_invs Inr] Inr show ?thesis
    by (simp add: session_def attempts_snoc attempt_def)
qed

section \<open>The status machine\<close>

text \<open>
  A case that is closed stays closed: whatever is emitted after a terminal status, the
  status is the same.
\<close>

theorem terminal_status_stays:
  assumes "status_of (bus_bb (session r cs)) \<in> set TERMINAL"
  shows "status_of (bus_bb (session r (cs @ ds))) = status_of (bus_bb (session r cs))"
  using terminal.attempts_stays [OF session_invs [of r cs], of "status_of (bus_bb (session r cs))" ds] assms
  by (simp add: closed_as_def session_def attempts_append)

theorem terminal_status_stays_witness:
  "status_of (bus_bb (session ''r'' ((no_deal_calls @ [sample_no_deal]) @ sample_talk))) = VERIFIED_NO_DEAL"
proof -
  have "status_of (bus_bb (session ''r'' (no_deal_calls @ [sample_no_deal]))) = VERIFIED_NO_DEAL"
    by code_simp
  with terminal_status_stays [of "''r''" "no_deal_calls @ [sample_no_deal]" sample_talk]
  show ?thesis by (simp add: TERMINAL_def)
qed

text \<open>
  A case becomes verified only on a passed completion: \<open>VERIFIED_COMPLETE\<close> from
  \<open>EVIDENCE_PENDING\<close> with exactly one released accept, \<open>VERIFIED_NO_DEAL\<close> from \<open>IN_CALL\<close> with
  none.
\<close>

theorem verified_needs_completion:
  assumes "emit (session r cs) c = Inr b'" "status_of (bus_bb (session r cs)) \<noteq> s"
    "status_of (bus_bb b') = s" "s \<in> {VERIFIED_COMPLETE, VERIFIED_NO_DEAL}"
  shows "completion_ok (bus_bb (session r cs)) \<and>
    (s = VERIFIED_COMPLETE \<longrightarrow> status_of (bus_bb (session r cs)) = EVIDENCE_PENDING \<and>
       released_count (bus_bb (session r cs)) = 1) \<and>
    (s = VERIFIED_NO_DEAL \<longrightarrow> status_of (bus_bb (session r cs)) = IN_CALL \<and>
       released_count (bus_bb (session r cs)) = 0)"
proof -
  let ?bb = "bus_bb (session r cs)"
  from assms(1) have "auth_step (ec_t_ms c) (abs_auth ?bb) (abs_auth (bus_bb b'))"
    by (rule emit_step [OF session_invs])
  from status_step [OF this] assms(2-4)
  have "may_move (status_of ?bb) s"
    "s = VERIFIED_COMPLETE \<longrightarrow> completion_ok ?bb \<and> one_cap (abs_auth ?bb) released"
    "s = VERIFIED_NO_DEAL \<longrightarrow> completion_ok ?bb \<and> no_cap (abs_auth ?bb) released"
    by auto
  moreover have wf: "wf_bb ?bb" using session_case_inv by (simp add: case_inv_def)
  ultimately show ?thesis
    using assms(4) verified_edges [of "status_of ?bb"]
    by (auto simp: released_one_abs [OF wf, symmetric] released_none_abs [OF wf, symmetric])
qed

theorem verified_needs_completion_witness:
  "completion_ok (bus_bb (session ''r'' no_deal_calls)) \<and>
   released_count (bus_bb (session ''r'' no_deal_calls)) = 0"
proof -
  obtain b' where b': "emit (session ''r'' no_deal_calls) sample_no_deal = Inr b'"
    using sample_no_deal_ok by (auto simp: succeeds_iff)
  have "status_of (bus_bb (session ''r'' (no_deal_calls @ [sample_no_deal]))) = VERIFIED_NO_DEAL"
    by code_simp
  with b' have "status_of (bus_bb b') = VERIFIED_NO_DEAL"
    by (simp add: session_def attempts_snoc attempt_def)
  moreover have "status_of (bus_bb (session ''r'' no_deal_calls)) = IN_CALL"
    by code_simp
  ultimately show ?thesis
    using verified_needs_completion [OF b', of VERIFIED_NO_DEAL] by simp
qed

section \<open>The release check and the fold\<close>

text \<open>
  C7. The release check of the guard and the guards of the fold agree: a token that
  \<open>revalidate\<close> passes for a release ending by \<open>t\<close> is one whose \<open>speak.released\<close> line the fold
  accepts at any time up to \<open>t\<close>, and it is used up by it.
\<close>

theorem revalidated_release_folds:
  assumes "revalidate (bus_bb (session r cs)) i t = None" "ev_type e = ''speak.released''"
    "ev_payload e = PReleased l (Some i)" "ev_t_ms e \<le> t"
  shows "\<exists>bb'. apply_event (bus_bb (session r cs)) e = Inr bb' \<and> revalidate bb' i t' = Some ''consumed''"
proof -
  let ?bb = "bus_bb (session r cs)"
  from assms(1) obtain cap a off where cap: "dget (bb_capabilities ?bb) i = Some cap"
      "\<not> cap_consumed cap" "cap_epoch cap = bb_epoch ?bb" "bb_fences ?bb = []"
    and auth: "auth_of ?bb i = Some a" "dget (offers ?bb) (ref_or_empty a) = Some off"
      "o_status off = OfferOpen" "o_terms_hash off = Some (cap_terms_hash cap)" "t < cap_expires_ms cap"
    by (rule revalidate_None) blast
  have inv: "case_inv ?bb" by (rule session_case_inv)
  with caps_keyed_dget [OF _ cap(1)] have i: "cap_id cap = i" by (simp add: case_inv_def)
  have fresh: "\<not> released_accept ?bb (Some (cap_terms_hash cap))" if "cap_intent cap = AcceptOffer"
  proof -
    have "flying cap" using that cap(2) by (simp add: flying_def)
    moreover have "fresh_terms (abs_auth ?bb)" using inv by (simp add: case_inv_def auth_inv_def)
    ultimately have "no_cap (abs_auth ?bb) (\<lambda>x. released x \<and> cap_terms_hash x = cap_terms_hash cap)"
      using cap(1) unfolding fresh_terms_def no_cap_def abs_auth_simps by metis
    then show ?thesis using inv by (simp add: case_inv_def released_accept_abs)
  qed
  have "release_cap ?bb e cap = Inr (use_cap ?bb cap)"
    using cap auth assms(4) fresh i by (auto simp: release_cap_def next_where_def auth_of_def)
  moreover have "live_cap ?bb e = Inr i"
    using cap i assms(3) by (simp add: live_cap_def str_of_def)
  ultimately have "r_released ?bb e = Inr (use_cap ?bb cap)"
    using cap(1) assms(3) by (simp add: r_released_def)
  then show ?thesis
    using assms(2) i by (auto simp: apply_event_def reduce_authority revalidate_def use_cap_def dget_dput)
qed

theorem revalidated_release_folds_witness:
  "revalidate (bus_bb (session ''r'' authorized_calls)) ''cap-1'' 100 = None \<and>
   (\<exists>bb'. apply_event (bus_bb (session ''r'' authorized_calls))
      (stamp (session ''r'' authorized_calls) sample_release) = Inr bb')"
proof -
  have ok: "revalidate (bus_bb (session ''r'' authorized_calls)) ''cap-1'' 100 = None"
    by code_simp
  from revalidated_release_folds [OF ok, of "stamp (session ''r'' authorized_calls) sample_release" "''cp''"]
  have "\<exists>bb'. apply_event (bus_bb (session ''r'' authorized_calls))
      (stamp (session ''r'' authorized_calls) sample_release) = Inr bb'"
    by (force simp: sample_release_def sample_call_def)
  with ok show ?thesis by blast
qed

section \<open>The incremental and the whole check of causes\<close>

text \<open>
  When callers cite events by the ids the bus gave them, the check of a whole log
  (\<open>check_causes\<close>) accepts every log the bus wrote.
\<close>

theorem bus_logs_pass_check_causes:
  assumes "list_all (canonical_causes r) (log_of (session r cs))"
  shows "check_causes (log_of (session r cs)) = Inr ()"
proof -
  have "\<forall>i < length (log_of (session r cs)). line_ok (lg_run_id (bus_log (session r cs))) (log_of (session r cs)) i"
    using session_bus_inv [of r cs] by (simp add: bus_inv_def)
  then show ?thesis
    using canonical_log_checks [of "log_of (session r cs)" r "length (log_of (session r cs))"] assms
    by (simp add: session_run_id)
qed

theorem bus_logs_pass_check_causes_witness:
  "check_causes (log_of (session ''r'' granted_calls)) = Inr ()"
proof (rule bus_logs_pass_check_causes)
  show "list_all (canonical_causes ''r'') (log_of (session ''r'' granted_calls))"
    by code_simp
qed

definition odd_calls :: "emit_call list" where
  "odd_calls =
    [sample_call 0 ''user.msg'' ''kernel'' (PUserMsg ''hi'') [],
     sample_call 1 ''chan.opened'' ''kernel'' (PChan ''cp'') [''r:00'']]"

text \<open>
  A cause id with a leading zero passes the envelope's test of its number but names no
  line: the bus appends such an event, and the check of the whole log then refuses the log.
\<close>

theorem leading_zero_cause_is_appended:
  "length (log_of (session ''r'' odd_calls)) = 2 \<and>
   check_causes (log_of (session ''r'' odd_calls)) = Inl (ValueError ''cites unknown events'')"
  by code_simp

end
