(* ===== verification/Canonical_Inj.thy ===== *)
theory Canonical_Inj
  imports Canonical "HOL-Library.Multiset"
begin

text \<open>
  The hashing form is unambiguous: two JSON values whose objects have sorted, distinct keys and
  whose canonical texts are equal are equal. The proof shows that every printed value is
  delimited, whatever follows it.
\<close>

section \<open>Text that ends where a value ends\<close>

text \<open>After a value comes nothing, a comma or a closing bracket.\<close>

definition ends_here :: "string \<Rightarrow> bool" where
  "ends_here r \<longleftrightarrow> (case r of [] \<Rightarrow> True | c # _ \<Rightarrow> c \<in> {CHR '','', CHR '']'', CHR 0x7D})"

lemma ends_here_simps [simp]:
  "ends_here []" "ends_here (CHR '','' # r)" "ends_here (CHR '']'' # r)" "ends_here (CHR 0x7D # r)"
  by (simp_all add: ends_here_def)

section \<open>Strings\<close>

lemma hex_digit_inj:
  assumes "hex_digit m = hex_digit n" "m < 16" "n < 16"
  shows "m = n"
proof -
  have "distinct ''0123456789abcdef''" by simp
  from nth_eq_iff_index_eq [OF this, of m n] assms show ?thesis
    by (simp add: hex_digit_def)
qed

lemma hex_digit_mod: "hex_digit (n mod 16) = hex_digit n"
  by (simp add: hex_digit_def)

lemma escape_control_inj:
  assumes "hex_digit (m div 16) = hex_digit (n div 16)" "hex_digit m = hex_digit n"
    "m < 256" "n < (256 :: nat)"
  shows "m = n"
proof -
  have "m div 16 = n div 16" using assms by (intro hex_digit_inj) auto
  moreover have "m mod 16 = n mod 16"
    using assms(2) hex_digit_inj [of "m mod 16" "n mod 16"] by (simp add: hex_digit_mod)
  ultimately show ?thesis by (metis div_mult_mod_eq)
qed

lemma of_char_inj: "(of_char c :: nat) = of_char d \<Longrightarrow> c = d"
  by (metis char_of_char)

text \<open>The characters with an escape of their own.\<close>

definition special :: "char \<Rightarrow> bool" where
  "special c \<longleftrightarrow> c \<in> {CHR 0x22, CHR 0x5C, CHR 0x0A, CHR 0x0D, CHR 0x09, CHR 0x0C, CHR 0x08}"

lemma escape_special:
  "special c \<Longrightarrow> special d \<Longrightarrow> escape_char c @ x = escape_char d @ y \<Longrightarrow> c = d \<and> x = y"
  by (auto simp: escape_char_def special_def)

lemma escape_mixed: "special c \<Longrightarrow> \<not> special d \<Longrightarrow> escape_char c @ x \<noteq> escape_char d @ y"
  by (auto simp: escape_char_def special_def)

lemma escape_other:
  "\<not> special c \<Longrightarrow> \<not> special d \<Longrightarrow> escape_char c @ x = escape_char d @ y \<Longrightarrow> c = d \<and> x = y"
  using escape_control_inj [of "of_char c" "of_char d"] of_char_inj [of c d]
  by (simp add: escape_char_def special_def split: if_splits)

lemma escape_char_prefix:
  "escape_char c @ x = escape_char d @ y \<Longrightarrow> c = d \<and> x = y"
  using escape_special escape_mixed escape_mixed [symmetric] escape_other by metis

lemma escape_not_quote: "escape_char c @ x \<noteq> CHR 0x22 # y"
  by (simp add: escape_char_def)

lemma quoted_body_prefix:
  "concat (map escape_char s) @ CHR 0x22 # x = concat (map escape_char t) @ CHR 0x22 # y \<Longrightarrow>
     s = t \<and> x = y"
proof (induction s arbitrary: t)
  case Nil
  then show ?case using escape_not_quote [symmetric] by (cases t) auto
next
  case (Cons c s)
  show ?case
  proof (cases t)
    case Nil
    with Cons.prems show ?thesis using escape_not_quote by simp
  next
    case (Cons d t')
    with Cons.prems have "escape_char c @ (concat (map escape_char s) @ CHR 0x22 # x) =
        escape_char d @ (concat (map escape_char t') @ CHR 0x22 # y)"
      by simp
    then have "c = d \<and> concat (map escape_char s) @ CHR 0x22 # x =
        concat (map escape_char t') @ CHR 0x22 # y"
      by (rule escape_char_prefix)
    with Cons.IH Cons show ?thesis by auto
  qed
qed

lemma quoted_prefix: "quoted s @ x = quoted t @ y \<Longrightarrow> s = t \<and> x = y"
  using quoted_body_prefix [of s x t y] by (simp add: quoted_def)

section \<open>Numbers\<close>

lemma ends_not_digit: "ends_here (c # r) \<Longrightarrow> \<not> is_digit c"
  by (auto simp: ends_here_def is_digit_def less_eq_char_def)

lemma digits_prefix:
  assumes "list_all is_digit u" "list_all is_digit v" "u @ x = v @ y" "ends_here x" "ends_here y"
  shows "u = v \<and> x = y"
  using assms
proof (induction u arbitrary: v)
  case Nil
  then show ?case using ends_not_digit by (cases v) auto
next
  case (Cons a u)
  then show ?case using ends_not_digit by (cases v) auto
qed

lemma dec_int_prefix:
  assumes eq: "dec_int i @ x = dec_int j @ y" and ends: "ends_here x" "ends_here y"
  shows "i = j \<and> x = y"
proof -
  have first: "hd (dec n) \<noteq> CHR ''-'' \<and> dec n \<noteq> []" for n
    using dec_digits [of n] by (cases "dec n") (auto simp: is_digit_def less_eq_char_def)
  have neq: "dec n @ u \<noteq> CHR ''-'' # v" for n u v
    using first [of n] by (metis append_is_Nil_conv hd_append2 list.sel(1))
  have same: "m = n \<and> x = y" if "dec m @ x = dec n @ y" for m n
    using digits_prefix [OF _ _ that ends] dec_digits by (metis int_of_digits_dec of_nat_eq_iff)
  consider "i < 0" "j < 0" | "i < 0" "0 \<le> j" | "0 \<le> i" "j < 0" | "0 \<le> i" "0 \<le> j"
    by linarith
  then show ?thesis
  proof cases
    case 1
    with eq have "dec (nat (- i)) @ x = dec (nat (- j)) @ y" by (simp add: dec_int_def)
    from same [OF this] 1 show ?thesis by (simp add: eq_nat_nat_iff)
  next
    case 2
    with eq have "dec (nat j) @ y = CHR ''-'' # (dec (nat (- i)) @ x)" by (simp add: dec_int_def)
    with neq show ?thesis by blast
  next
    case 3
    with eq have "dec (nat i) @ x = CHR ''-'' # (dec (nat (- j)) @ y)" by (simp add: dec_int_def)
    with neq show ?thesis by blast
  next
    case 4
    with eq have "dec (nat i) @ x = dec (nat j) @ y" by (simp add: dec_int_def)
    from same [OF this] 4 show ?thesis by (simp add: eq_nat_nat_iff)
  qed
qed

section \<open>Values\<close>

text \<open>A value whose objects have strictly increasing keys, at every level.\<close>

fun keys_sorted :: "json \<Rightarrow> bool" where
  "keys_sorted (JList vs) = list_all keys_sorted vs"
| "keys_sorted (JObj ms) =
     (sorted (map fst ms) \<and> distinct (map fst ms) \<and> list_all (\<lambda>m. keys_sorted (snd m)) ms)"
| "keys_sorted _ = True"

text \<open>The text of the members of an object, and of the elements of a list, as recursions.\<close>

fun elements_text :: "string list \<Rightarrow> string" where
  "elements_text [] = []"
| "elements_text [w] = w"
| "elements_text (w # ws) = w @ CHR '','' # elements_text ws"

lemma join_elements: "join '','' ws = elements_text ws"
proof (induction ws rule: elements_text.induct)
  case (3 w v vs)
  then show ?case by (simp add: join_def)
qed (simp_all add: join_def)

lemma by_key_sorted: "sorted (map fst ms) \<Longrightarrow> by_key ms = ms"
  by (simp add: by_key_def sorted_sort_id sort_key_id_if_sorted)

lemma obj_text:
  assumes "keys_sorted (JObj ms)"
  shows "canonical_json (JObj ms) = CHR 0x7B #
    elements_text (map (\<lambda>m. quoted (fst m) @ CHR '':'' # canonical_json (snd m)) ms) @ [CHR 0x7D]"
proof -
  have "by_key (map (\<lambda>m. (fst m, canonical_json (snd m))) ms) = map (\<lambda>m. (fst m, canonical_json (snd m))) ms"
    using assms by (intro by_key_sorted) (simp add: comp_def)
  then show ?thesis by (simp add: join_elements member_text_def comp_def)
qed

lemma list_text: "canonical_json (JList vs) = CHR ''['' # elements_text (map canonical_json vs) @ [CHR '']'']"
  by (simp add: join_elements)

text \<open>Every value starts with a character that tells its kind; no value starts with a bracket
  that closes.\<close>

definition lead_kind :: "char \<Rightarrow> nat" where
  "lead_kind c =
     (if c = CHR ''n'' then 0 else if c = CHR ''t'' \<or> c = CHR ''f'' then 1
      else if c = CHR ''-'' \<or> is_digit c then 2 else if c = CHR 0x22 then 3
      else if c = CHR ''['' then 4 else if c = CHR 0x7B then 5 else 6)"

fun json_kind :: "json \<Rightarrow> nat" where
  "json_kind JNull = 0"
| "json_kind (JBool _) = 1"
| "json_kind (JInt _) = 2"
| "json_kind (JStr _) = 3"
| "json_kind (JList _) = 4"
| "json_kind (JObj _) = 5"

lemma dec_int_start: "dec_int i \<noteq> [] \<and> lead_kind (hd (dec_int i)) = 2"
proof -
  have "is_digit (hd (dec n)) \<and> dec n \<noteq> []" for n
    using dec_digits [of n] by (cases "dec n") auto
  moreover have "lead_kind c = 2" if "is_digit c" for c
    using that by (auto simp: lead_kind_def is_digit_def less_eq_char_def)
  moreover have "lead_kind (CHR ''-'') = 2" by (simp add: lead_kind_def)
  ultimately show ?thesis by (auto simp: dec_int_def)
qed

lemma canonical_start: "canonical_json v \<noteq> [] \<and> lead_kind (hd (canonical_json v)) = json_kind v"
proof (cases v)
  case (JInt i)
  then show ?thesis using dec_int_start by simp
qed (simp_all add: lead_kind_def quoted_def is_digit_def less_eq_char_def)

lemma canonical_same_kind: "canonical_json v @ x = canonical_json w @ y \<Longrightarrow> json_kind v = json_kind w"
  by (metis canonical_start hd_append2)

section \<open>Sequences\<close>

lemma elements_prefix:
  assumes item: "\<And>a b x y. a \<in> set as \<Longrightarrow> ends_here x \<Longrightarrow> ends_here y \<Longrightarrow>
      p a @ x = p b @ y \<Longrightarrow> Q b \<Longrightarrow> a = b \<and> x = y"
    and start: "\<And>a. p a \<noteq> [] \<and> hd (p a) \<noteq> c" and c: "c \<in> {CHR '']'', CHR 0x7D}"
    and eq: "elements_text (map p as) @ c # x = elements_text (map p bs) @ c # y" and Q: "list_all Q bs"
  shows "as = bs \<and> x = y"
  using item eq Q
proof (induction as arbitrary: bs rule: induct_list012)
  case 1
  have no: "p b @ z \<noteq> c # x" for b z using start [of b] by (cases "p b") auto
  from 1(2) show ?case
    by (cases "map p bs" rule: elements_text.cases) (auto simp: no no [symmetric])
next
  case (2 a)
  have ends: "ends_here (c # u)" for u using c by auto
  have no: "p a @ z \<noteq> c # u" for z u using start [of a] by (cases "p a") auto
  consider "bs = []" | b where "bs = [b]" | b b' bs' where "bs = b # b' # bs'"
    by (metis list.exhaust)
  then show ?case
  proof cases
    case 1
    with 2(2) no show ?thesis by simp
  next
    case b: (2 b)
    with 2(2,3) 2(1) [of a "c # x" "c # y" b] ends show ?thesis by simp
  next
    case b: (3 b b' bs')
    with 2(2,3) 2(1) [of a "c # x" "CHR '','' # elements_text (map p (b' # bs')) @ c # y" b] ends c
    show ?thesis by auto
  qed
next
  case (3 a a' as')
  have ends: "ends_here (c # u)" for u using c by auto
  have no: "p a @ z \<noteq> c # u" for z u using start [of a] by (cases "p a") auto
  let ?rest = "elements_text (map p (a' # as')) @ c # x"
  consider "bs = []" | b where "bs = [b]" | b b' bs' where "bs = b # b' # bs'"
    by (metis list.exhaust)
  then show ?case
  proof cases
    case 1
    with 3(4) no show ?thesis by simp
  next
    case b: (2 b)
    with 3(4,5) 3(3) [of a "CHR '','' # ?rest" "c # y" b] ends c show ?thesis by auto
  next
    case b: (3 b b' bs')
    with 3(4,5) 3(3) [of a "CHR '','' # ?rest" "CHR '','' # elements_text (map p (b' # bs')) @ c # y" b]
    have "a = b" and "?rest = elements_text (map p (b' # bs')) @ c # y" by auto
    moreover have "a' # as' = b' # bs' \<and> x = y"
    proof (rule "3.IH"(2))
      show "\<And>e f u v. e \<in> set (a' # as') \<Longrightarrow> ends_here u \<Longrightarrow> ends_here v \<Longrightarrow> p e @ u = p f @ v \<Longrightarrow>
          Q f \<Longrightarrow> e = f \<and> u = v"
        using 3(3) by (meson list.set_intros(2))
    qed (use calculation b 3(5) in auto)
    ultimately show ?thesis using b by simp
  qed
qed

section \<open>Injectivity\<close>

definition member_form :: "string \<times> json \<Rightarrow> string" where
  "member_form m = quoted (fst m) @ CHR '':'' # canonical_json (snd m)"

lemma member_start: "c \<in> {CHR '']'', CHR 0x7D} \<Longrightarrow> member_form m \<noteq> [] \<and> hd (member_form m) \<noteq> c"
  by (auto simp: member_form_def quoted_def)

lemma canonical_not_closing: "c \<in> {CHR '']'', CHR 0x7D} \<Longrightarrow> canonical_json v \<noteq> [] \<and> hd (canonical_json v) \<noteq> c"
  using canonical_start [of v] by (cases v) (auto simp: lead_kind_def is_digit_def less_eq_char_def)

lemma canonical_json_prefix:
  "keys_sorted v \<Longrightarrow> keys_sorted w \<Longrightarrow> ends_here x \<Longrightarrow> ends_here y \<Longrightarrow>
     canonical_json v @ x = canonical_json w @ y \<Longrightarrow> v = w \<and> x = y"
proof (induction v arbitrary: w x y)
  case JNull
  with canonical_same_kind [OF JNull.prems(5)] show ?case by (cases w) auto
next
  case (JBool b)
  with canonical_same_kind [OF JBool.prems(5)] show ?case by (cases w) (auto split: if_splits)
next
  case (JInt i)
  with canonical_same_kind [OF JInt.prems(5)] show ?case
    by (cases w) (auto dest: dec_int_prefix)
next
  case (JStr s)
  with canonical_same_kind [OF JStr.prems(5)] show ?case
    by (cases w) (auto dest: quoted_prefix)
next
  case (JList vs)
  from canonical_same_kind [OF JList.prems(5)] obtain ws where w: "w = JList ws"
    by (cases w) auto
  have "vs = ws \<and> x = y"
  proof (rule elements_prefix [where p = canonical_json and Q = keys_sorted and c = "CHR '']''"])
    show "elements_text (map canonical_json vs) @ CHR '']'' # x = elements_text (map canonical_json ws) @ CHR '']'' # y"
      using JList.prems(5) by (simp add: w join_elements)
    show "list_all keys_sorted ws" using JList.prems(2) by (simp add: w)
  next
    fix a b u v
    assume a: "a \<in> set vs" "ends_here u" "ends_here v" "canonical_json a @ u = canonical_json b @ v" "keys_sorted b"
    moreover have "keys_sorted a" using JList.prems(1) a(1) by (simp add: list_all_iff)
    ultimately show "a = b \<and> u = v" using JList.IH by blast
  qed (use canonical_not_closing in auto)
  with w show ?case by simp
next
  case (JObj ms)
  from canonical_same_kind [OF JObj.prems(5)] obtain ns where w: "w = JObj ns"
    by (cases w) auto
  have "ms = ns \<and> x = y"
  proof (rule elements_prefix [where p = member_form and Q = "\<lambda>m. keys_sorted (snd m)" and c = "CHR 0x7D"])
    have form: "(\<lambda>m. quoted (fst m) @ CHR '':'' # canonical_json (snd m)) = member_form"
      by (rule ext) (simp add: member_form_def)
    show "elements_text (map member_form ms) @ CHR 0x7D # x = elements_text (map member_form ns) @ CHR 0x7D # y"
      using JObj.prems(5) unfolding w obj_text [OF JObj.prems(1)] obj_text [OF JObj.prems(2) [unfolded w]] form
      by simp
    show "list_all (\<lambda>m. keys_sorted (snd m)) ns" using JObj.prems(2) by (simp add: w)
  next
    fix a b u v
    assume a: "a \<in> set ms" "ends_here u" "ends_here v" "member_form a @ u = member_form b @ v" "keys_sorted (snd b)"
    from a(4) have "fst a = fst b" and *: "canonical_json (snd a) @ u = canonical_json (snd b) @ v"
      by (auto simp: member_form_def dest: quoted_prefix)
    moreover have "keys_sorted (snd a)" using JObj.prems(1) a(1) by (simp add: list_all_iff)
    moreover have "snd a \<in> Basic_BNFs.snds a" by (cases a) simp
    ultimately have "snd a = snd b \<and> u = v" using JObj.IH [OF a(1)] a(2,3,5) by blast
    with \<open>fst a = fst b\<close> show "a = b \<and> u = v" by (simp add: prod_eq_iff)
  qed (use member_start in auto)
  with w show ?case by simp
qed

lemma canonical_json_inj_sorted:
  assumes "keys_sorted v" "keys_sorted w"
  shows "canonical_json v = canonical_json w \<longleftrightarrow> v = w"
  using canonical_json_prefix [OF assms, of "[]" "[]"] by auto

section \<open>Values up to the order of keys\<close>

text \<open>A value with the members of every object sorted by key.\<close>

fun sort_keys :: "json \<Rightarrow> json" where
  "sort_keys (JList vs) = JList (map sort_keys vs)"
| "sort_keys (JObj ms) = JObj (by_key (map (\<lambda>m. (fst m, sort_keys (snd m))) ms))"
| "sort_keys v = v"

fun keys_distinct :: "json \<Rightarrow> bool" where
  "keys_distinct (JList vs) = list_all keys_distinct vs"
| "keys_distinct (JObj ms) = (distinct (map fst ms) \<and> list_all (\<lambda>m. keys_distinct (snd m)) ms)"
| "keys_distinct _ = True"

lemma insort_key_map: "insort_key f (g x) (map g xs) = map g (insort_key (\<lambda>y. f (g y)) x xs)"
  by (induction xs) auto

lemma sort_key_map: "sort_key f (map g xs) = map g (sort_key (\<lambda>y. f (g y)) xs)"
  by (induction xs) (simp_all add: insort_key_map)

lemma by_key_map_snd: "by_key (map (\<lambda>m. (fst m, g (snd m))) ms) = map (\<lambda>m. (fst m, g (snd m))) (by_key ms)"
  by (simp add: by_key_def sort_key_map comp_def)

lemma by_key_idem: "by_key (by_key ms) = by_key ms"
  by (rule by_key_sorted) (simp add: by_key_def)

lemma canonical_sort_keys: "canonical_json (sort_keys v) = canonical_json v"
proof (induction v)
  case (JList vs)
  then have "map canonical_json (map sort_keys vs) = map canonical_json vs" by simp
  then show ?case by (simp only: sort_keys.simps canonical_json.simps)
next
  case (JObj ms)
  then have same: "map (\<lambda>m. (fst m, canonical_json (sort_keys (snd m)))) ms = map (\<lambda>m. (fst m, canonical_json (snd m))) ms"
    by (auto simp: Basic_BNFs.snds.simps)
  let ?ms = "map (\<lambda>m. (fst m, sort_keys (snd m))) ms"
  have "by_key (map (\<lambda>m. (fst m, canonical_json (snd m))) (by_key ?ms)) =
      by_key (by_key (map (\<lambda>m. (fst m, canonical_json (snd m))) ?ms))"
    by (simp only: by_key_map_snd)
  also have "\<dots> = by_key (map (\<lambda>m. (fst m, canonical_json (sort_keys (snd m)))) ms)"
    by (simp only: by_key_idem list.map_comp comp_def fst_conv snd_conv)
  finally show ?case by (simp only: sort_keys.simps canonical_json.simps same)
qed simp_all

lemma keys_sorted_sort_keys: "keys_distinct v \<Longrightarrow> keys_sorted (sort_keys v)"
proof (induction v)
  case (JList vs)
  then show ?case by (auto simp: list_all_iff)
next
  case (JObj ms)
  have "mset (by_key (map (\<lambda>m. (fst m, sort_keys (snd m))) ms)) = mset (map (\<lambda>m. (fst m, sort_keys (snd m))) ms)"
    by (simp add: by_key_def)
  then have keys: "mset (map fst (by_key (map (\<lambda>m. (fst m, sort_keys (snd m))) ms))) = mset (map fst ms)"
    by (metis (no_types, lifting) fst_conv list.map_comp list.map_cong0 comp_apply mset_map)
  have "distinct (map fst (by_key (map (\<lambda>m. (fst m, sort_keys (snd m))) ms)))"
    using JObj.prems mset_eq_imp_distinct_iff [OF keys] by simp
  moreover have "keys_sorted (sort_keys (snd m))" if "m \<in> set ms" for m
    using JObj that by (cases m) (force simp: list_all_iff)
  ultimately show ?case by (auto simp: list_all_iff by_key_def)
qed simp_all

lemma canonical_json_inj:
  assumes "keys_distinct v" "keys_distinct w"
  shows "canonical_json v = canonical_json w \<longleftrightarrow> sort_keys v = sort_keys w"
  using canonical_json_inj_sorted [OF keys_sorted_sort_keys keys_sorted_sort_keys, OF assms]
  by (simp add: canonical_sort_keys)

end
