(* ===== verification/Datetime.thy ===== *)
theory Datetime
  imports Prelude
begin

text \<open>
  What the sources use of Python's \<open>datetime\<close>: the fields of a moment, conversion to UTC
  (\<open>astimezone(UTC)\<close>, which raises \<open>OverflowError\<close> outside the years 1 to 9999), the order of
  two UTC moments, and the text \<open>isoformat()\<close> writes. Reading a text is
  \<open>datetime.fromisoformat\<close>; it accepts many forms, so the definitions that call it take it as
  an argument, and \<open>iso_extended\<close> is the part of it that reads what \<open>isoformat\<close> writes.
\<close>

record datetime =
  dt_year :: int
  dt_month :: int
  dt_day :: int
  dt_hour :: int
  dt_minute :: int
  dt_second :: int
  dt_micro :: int
  dt_offset :: "int option"

section \<open>The calendar\<close>

definition is_leap :: "int \<Rightarrow> bool" where
  "is_leap y \<longleftrightarrow> y mod 4 = 0 \<and> (y mod 100 \<noteq> 0 \<or> y mod 400 = 0)"

definition days_before_year :: "int \<Rightarrow> int" where
  "days_before_year y = (y - 1) * 365 + (y - 1) div 4 - (y - 1) div 100 + (y - 1) div 400"

definition month_starts :: "int list" where
  "month_starts = [0, 31, 59, 90, 120, 151, 181, 212, 243, 273, 304, 334]"

definition days_before_month :: "int \<Rightarrow> int \<Rightarrow> int" where
  "days_before_month y m =
     month_starts ! nat (m - 1) + (if m > 2 \<and> is_leap y then 1 else 0)"

definition days_in_month :: "int \<Rightarrow> int \<Rightarrow> int" where
  "days_in_month y m =
     (if m = 2 then (if is_leap y then 29 else 28) else if m \<in> {4, 6, 9, 11} then 30 else 31)"

definition datetime_ok :: "datetime \<Rightarrow> bool" where
  "datetime_ok d \<longleftrightarrow>
     1 \<le> dt_year d \<and> dt_year d \<le> 9999 \<and> 1 \<le> dt_month d \<and> dt_month d \<le> 12 \<and>
     1 \<le> dt_day d \<and> dt_day d \<le> days_in_month (dt_year d) (dt_month d) \<and>
     0 \<le> dt_hour d \<and> dt_hour d \<le> 23 \<and> 0 \<le> dt_minute d \<and> dt_minute d \<le> 59 \<and>
     0 \<le> dt_second d \<and> dt_second d \<le> 59 \<and> 0 \<le> dt_micro d \<and> dt_micro d \<le> 999999"

definition to_ordinal :: "datetime \<Rightarrow> int" where
  "to_ordinal d =
     days_before_year (dt_year d) + days_before_month (dt_year d) (dt_month d) + dt_day d"

definition MAX_ORDINAL :: int where "MAX_ORDINAL = 3652059"

text \<open>Year, month and day of an ordinal, by cycles of 400, 100, 4 and 1 years.\<close>

definition from_ordinal :: "int \<Rightarrow> int \<times> int \<times> int" where
  "from_ordinal n0 =
     (let n = n0 - 1; n400 = n div 146097; n = n mod 146097; n100 = n div 36524; n = n mod 36524;
          n4 = n div 1461; n = n mod 1461; n1 = n div 365; n = n mod 365;
          y = n400 * 400 + 1 + n100 * 100 + n4 * 4 + n1
      in if n1 = 4 \<or> n100 = 4 then (y - 1, 12, 31)
         else
           let guess = (n + 50) div 32;
               m = (if days_before_month y guess > n then guess - 1 else guess)
           in (y, m, n - days_before_month y m + 1))"

section \<open>Conversion to UTC\<close>

definition day_seconds :: "datetime \<Rightarrow> int" where
  "day_seconds d = dt_hour d * 3600 + dt_minute d * 60 + dt_second d"

definition astimezone_utc :: "datetime \<Rightarrow> datetime outcome" where
  "astimezone_utc d =
     (case dt_offset d of
        None \<Rightarrow> Inl (ValueError ''naive datetime'')
      | Some off \<Rightarrow>
          if off = 0 then Inr d
          else
            let s = day_seconds d - off; n = to_ordinal d + s div 86400; r = s mod 86400 in
            if n < 1 \<or> MAX_ORDINAL < n then Inl (OverflowError ''date value out of range'')
            else (case from_ordinal n of (y, m, dd) \<Rightarrow>
              Inr (d\<lparr>dt_year := y, dt_month := m, dt_day := dd, dt_hour := r div 3600,
                     dt_minute := r mod 3600 div 60, dt_second := r mod 60, dt_offset := Some 0\<rparr>)))"

definition is_utc :: "datetime \<Rightarrow> bool" where
  "is_utc d \<longleftrightarrow> dt_offset d = Some 0"

lemma astimezone_is_utc: "astimezone_utc d = Inr u \<Longrightarrow> is_utc u"
  by (auto simp: astimezone_utc_def is_utc_def Let_def split: option.splits if_splits prod.splits)

text \<open>The order of two UTC moments is the order of their fields.\<close>

definition dt_fields :: "datetime \<Rightarrow> int list" where
  "dt_fields d = [dt_year d, dt_month d, dt_day d, dt_hour d, dt_minute d, dt_second d, dt_micro d]"

definition dt_le :: "datetime \<Rightarrow> datetime \<Rightarrow> bool" where
  "dt_le a b \<longleftrightarrow> dt_fields a \<le> dt_fields b"

section \<open>Text\<close>

definition pad2 :: "int \<Rightarrow> string" where
  "pad2 n = [digit_char (nat (n div 10)), digit_char (nat n)]"

definition pad4 :: "int \<Rightarrow> string" where
  "pad4 n = pad2 (n div 100) @ pad2 (n mod 100)"

definition date_text :: "datetime \<Rightarrow> string" where
  "date_text d = pad4 (dt_year d) @ ''-'' @ pad2 (dt_month d) @ ''-'' @ pad2 (dt_day d)"

definition clock_text :: "datetime \<Rightarrow> string" where
  "clock_text d = pad2 (dt_hour d) @ '':'' @ pad2 (dt_minute d) @ '':'' @ pad2 (dt_second d)"

definition micro_text :: "int \<Rightarrow> string" where
  "micro_text n = (if n = 0 then [] else ''.'' @ pad2 (n div 10000) @ pad2 (n div 100 mod 100) @ pad2 (n mod 100))"

definition offset_text :: "int option \<Rightarrow> string" where
  "offset_text off = (case off of
      None \<Rightarrow> []
    | Some o' \<Rightarrow>
        (if o' < 0 then ''-'' else ''+'') @ pad2 (abs o' div 3600) @ '':'' @ pad2 (abs o' mod 3600 div 60) @
        (if abs o' mod 60 = 0 then [] else '':'' @ pad2 (abs o' mod 60)))"

definition isoformat :: "datetime \<Rightarrow> string" where
  "isoformat d = date_text d @ ''T'' @ clock_text d @ micro_text (dt_micro d) @ offset_text (dt_offset d)"

text \<open>The text of a UTC moment with whole seconds.\<close>

definition utc_seconds_text :: "datetime \<Rightarrow> string" where
  "utc_seconds_text d = date_text d @ ''T'' @ clock_text d @ ''Z''"

lemma no_plus: "CHR ''+'' \<notin> set (pad2 n)"
proof -
  have "is_digit c" if "c \<in> set (pad2 n)" for c
    using that by (auto simp: pad2_def digit_char_is_digit)
  moreover have "\<not> is_digit (CHR ''+'')" by (simp add: is_digit_def less_eq_char_def)
  ultimately show ?thesis by blast
qed

lemma isoformat_utc:
  assumes "dt_micro d = 0" "is_utc d"
  shows "str_replace ''+00:00'' ''Z'' (isoformat d) = utc_seconds_text d"
proof -
  let ?u = "date_text d @ ''T'' @ clock_text d"
  have "isoformat d = ?u @ ''+00:00''"
    using assms by (simp add: isoformat_def micro_text_def offset_text_def is_utc_def pad2_def digit_char_def)
  moreover have "CHR ''+'' \<notin> set ?u"
    using no_plus by (simp add: date_text_def clock_text_def pad4_def)
  ultimately show ?thesis
    by (simp add: str_replace_skip starts_with_def utc_seconds_text_def del: append_assoc)
qed

lemma digit_val_digit: "digit_val (digit_char n) = n mod 10"
  by (rule digit_val_digit_char)

lemma pad2_value: "0 \<le> n \<Longrightarrow> n < 100 \<Longrightarrow> int_of_digits (pad2 n) = n"
  by (simp add: pad2_def int_of_digits_def digit_val_digit_char nat_div_distrib nat_mod_distrib)

lemma pad2_inj: "pad2 m = pad2 n \<Longrightarrow> 0 \<le> m \<Longrightarrow> m < 100 \<Longrightarrow> 0 \<le> n \<Longrightarrow> n < 100 \<Longrightarrow> m = n"
  by (metis pad2_value)

lemma length_pad2 [simp]: "length (pad2 n) = 2"
  by (simp add: pad2_def)

lemma length_pad4 [simp]: "length (pad4 n) = 4"
  by (simp add: pad4_def)

lemma pad4_inj:
  assumes "pad4 m = pad4 n" "0 \<le> m" "m < 10000" "0 \<le> n" "n < 10000"
  shows "m = n"
proof -
  from assms(1) have "pad2 (m div 100) = pad2 (n div 100)" "pad2 (m mod 100) = pad2 (n mod 100)"
    by (simp_all add: pad4_def)
  with assms(2-) have "m div 100 = n div 100" "m mod 100 = n mod 100"
    by (auto intro!: pad2_inj)
  then show ?thesis by (metis div_mult_mod_eq)
qed

lemma days_in_month_le: "days_in_month y m \<le> 31"
  by (simp add: days_in_month_def)

text \<open>The text determines the moment up to the microsecond it drops.\<close>

lemma utc_seconds_text_inj:
  assumes "utc_seconds_text a = utc_seconds_text b" "datetime_ok a" "datetime_ok b"
  shows "a\<lparr>dt_micro := 0, dt_offset := Some 0\<rparr> = b\<lparr>dt_micro := 0, dt_offset := Some 0\<rparr>"
proof -
  from assms(1) have "pad4 (dt_year a) = pad4 (dt_year b)" "pad2 (dt_month a) = pad2 (dt_month b)"
    "pad2 (dt_day a) = pad2 (dt_day b)" "pad2 (dt_hour a) = pad2 (dt_hour b)"
    "pad2 (dt_minute a) = pad2 (dt_minute b)" "pad2 (dt_second a) = pad2 (dt_second b)"
    by (simp_all add: utc_seconds_text_def date_text_def clock_text_def)
  note texts = this
  have day: "dt_day a \<le> 31" "dt_day b \<le> 31"
    using assms(2,3) days_in_month_le [of "dt_year a" "dt_month a"]
      days_in_month_le [of "dt_year b" "dt_month b"] by (auto simp: datetime_ok_def)
  have "dt_year a = dt_year b"
    by (rule pad4_inj [OF texts(1)]) (use assms(2,3) in \<open>simp_all add: datetime_ok_def\<close>)
  moreover have "dt_month a = dt_month b"
    by (rule pad2_inj [OF texts(2)]) (use assms(2,3) in \<open>simp_all add: datetime_ok_def\<close>)
  moreover have "dt_day a = dt_day b"
    by (rule pad2_inj [OF texts(3)]) (use assms(2,3) day in \<open>simp_all add: datetime_ok_def\<close>)
  moreover have "dt_hour a = dt_hour b"
    by (rule pad2_inj [OF texts(4)]) (use assms(2,3) in \<open>simp_all add: datetime_ok_def\<close>)
  moreover have "dt_minute a = dt_minute b"
    by (rule pad2_inj [OF texts(5)]) (use assms(2,3) in \<open>simp_all add: datetime_ok_def\<close>)
  moreover have "dt_second a = dt_second b"
    by (rule pad2_inj [OF texts(6)]) (use assms(2,3) in \<open>simp_all add: datetime_ok_def\<close>)
  ultimately show ?thesis by (cases a; cases b) simp
qed

section \<open>Reading what \<open>isoformat\<close> writes\<close>

definition digits_at :: "nat \<Rightarrow> nat \<Rightarrow> string \<Rightarrow> int option" where
  "digits_at i n s =
     (let w = take n (drop i s) in
      if length w = n \<and> list_all is_digit w then Some (int_of_digits w) else None)"

definition char_at :: "nat \<Rightarrow> string \<Rightarrow> char option" where
  "char_at i s = (if i < length s then Some (s ! i) else None)"

definition iso_extended :: "string \<Rightarrow> datetime option" where
  "iso_extended s =
     (case (digits_at 0 4 s, digits_at 5 2 s, digits_at 8 2 s, digits_at 11 2 s, digits_at 14 2 s,
            digits_at 17 2 s) of
        (Some y, Some mo, Some d, Some h, Some mi, Some se) \<Rightarrow>
          (let t = \<lparr>dt_year = y, dt_month = mo, dt_day = d, dt_hour = h, dt_minute = mi,
                    dt_second = se, dt_micro = 0, dt_offset = Some 0\<rparr> in
           if length s = 20 \<and> char_at 4 s = Some (CHR ''-'') \<and> char_at 7 s = Some (CHR ''-'') \<and>
              char_at 13 s = Some (CHR '':'') \<and> char_at 16 s = Some (CHR '':'') \<and>
              char_at 19 s = Some (CHR ''Z'') \<and> datetime_ok t
           then Some t else None)
      | _ \<Rightarrow> None)"

lemma pad2_digits: "list_all is_digit (pad2 n)"
  by (simp add: pad2_def digit_char_is_digit)

lemma pad4_value: "0 \<le> n \<Longrightarrow> n < 10000 \<Longrightarrow> int_of_digits (pad4 n) = n"
  by (simp add: pad4_def pad2_def int_of_digits_def digit_val_digit_char nat_div_distrib nat_mod_distrib)

lemma pad4_digits: "list_all is_digit (pad4 n)"
  by (simp add: pad4_def pad2_digits)

lemma char_at_append:
  "char_at i (u @ v) = (if i < length u then char_at i u else char_at (i - length u) v)"
  by (auto simp: char_at_def nth_append)

lemma digits_at_append:
  "length u = i \<Longrightarrow> length w = n \<Longrightarrow> list_all is_digit w \<Longrightarrow>
     digits_at i n (u @ w @ v) = Some (int_of_digits w)"
  by (simp add: digits_at_def)

text \<open>A UTC moment with whole seconds is read back from its text.\<close>

lemma iso_extended_text:
  assumes ok: "datetime_ok d" and whole: "dt_micro d = 0" and utc: "is_utc d"
  shows "iso_extended (utc_seconds_text d) = Some d"
proof -
  let ?Y = "pad4 (dt_year d)" and ?M = "pad2 (dt_month d)" and ?D = "pad2 (dt_day d)"
  let ?h = "pad2 (dt_hour d)" and ?m = "pad2 (dt_minute d)" and ?s = "pad2 (dt_second d)"
  have day: "dt_day d \<le> 31"
    using ok days_in_month_le [of "dt_year d" "dt_month d"] by (auto simp: datetime_ok_def)
  have form: "utc_seconds_text d =
      ?Y @ ''-'' @ ?M @ ''-'' @ ?D @ ''T'' @ ?h @ '':'' @ ?m @ '':'' @ ?s @ ''Z''"
    by (simp add: utc_seconds_text_def date_text_def clock_text_def)
  have parts: "digits_at 0 4 (utc_seconds_text d) = Some (dt_year d)"
    "digits_at 5 2 (utc_seconds_text d) = Some (dt_month d)"
    "digits_at 8 2 (utc_seconds_text d) = Some (dt_day d)"
    "digits_at 11 2 (utc_seconds_text d) = Some (dt_hour d)"
    "digits_at 14 2 (utc_seconds_text d) = Some (dt_minute d)"
    "digits_at 17 2 (utc_seconds_text d) = Some (dt_second d)"
    using ok day pad4_digits [of "dt_year d"] pad2_digits
    by (simp_all add: form digits_at_def datetime_ok_def pad4_value pad2_value)
  have "char_at 4 (utc_seconds_text d) = Some (CHR ''-'')"
    "char_at 7 (utc_seconds_text d) = Some (CHR ''-'')"
    "char_at 13 (utc_seconds_text d) = Some (CHR '':'')"
    "char_at 16 (utc_seconds_text d) = Some (CHR '':'')"
    "char_at 19 (utc_seconds_text d) = Some (CHR ''Z'')"
    "length (utc_seconds_text d) = 20"
    by (simp_all add: form char_at_def nth_append)
  moreover have "\<lparr>dt_year = dt_year d, dt_month = dt_month d, dt_day = dt_day d, dt_hour = dt_hour d,
      dt_minute = dt_minute d, dt_second = dt_second d, dt_micro = 0, dt_offset = Some 0\<rparr> = d"
    using whole utc by (cases d) (simp add: is_utc_def)
  ultimately show ?thesis
    using ok by (simp add: iso_extended_def parts)
qed

end
