(* ===== verification/Terms.thy ===== *)
theory Terms
  imports Contract Canonical_Inj Datetime "HOL-Library.Multiset"
begin

text \<open>
  \<open>guard/terms.py\<close>: the material terms of an offer revision, their hashes, and reading them
  from an offer's read-back slots. SHA-256 is the parameter \<open>sha\<close>; reading an ISO time is the
  parameter \<open>from_iso\<close>, where \<open>None\<close> stands for the \<open>ValueError\<close> of \<open>datetime.fromisoformat\<close>.
\<close>

section \<open>Fees and terms\<close>

(* guard/terms.py 27-32 Fee *)
datatype fee = Fee (fee_code: string) (fee_amount: int)

text \<open>Fee lines are ordered by code, then by amount (the sort key of \<open>_fee_lines\<close>).\<close>

instantiation fee :: linorder
begin

definition less_eq_fee :: "fee \<Rightarrow> fee \<Rightarrow> bool" where
  "less_eq_fee a b \<longleftrightarrow>
     fee_code a < fee_code b \<or> (fee_code a = fee_code b \<and> fee_amount a \<le> fee_amount b)"

definition less_fee :: "fee \<Rightarrow> fee \<Rightarrow> bool" where
  "less_fee a b \<longleftrightarrow>
     fee_code a < fee_code b \<or> (fee_code a = fee_code b \<and> fee_amount a < fee_amount b)"

instance
proof
  fix x y z :: fee
  show "(x < y) = (x \<le> y \<and> \<not> y \<le> x)"
    by (auto simp: less_eq_fee_def less_fee_def)
  show "x \<le> x" by (simp add: less_eq_fee_def)
  show "x \<le> y \<Longrightarrow> y \<le> z \<Longrightarrow> x \<le> z" by (auto simp: less_eq_fee_def)
  show "x \<le> y \<Longrightarrow> y \<le> x \<Longrightarrow> x = y"
    by (cases x; cases y) (auto simp: less_eq_fee_def)
  show "x \<le> y \<or> y \<le> x" by (auto simp: less_eq_fee_def)
qed

end

(* guard/terms.py 35-57 Terms *)
record terms =
  t_monthly_price_minor :: int
  t_currency :: string
  t_term_months :: int
  t_features :: "string list"
  t_fees :: "fee list"
  t_credits :: "fee list"
  t_applied_changes :: "string list"
  t_total_cost_12m_minor :: int
  t_offer_id :: string
  t_offer_revision :: int
  t_expires_at :: datetime

(* guard/terms.py 59-62 Terms.__post_init__ *)
definition make_terms :: "terms \<Rightarrow> terms outcome" where
  "make_terms t =
     (if dt_offset (t_expires_at t) = None then Inl (ValueError ''expires_at must be timezone-aware'')
      else and_then (astimezone_utc (t_expires_at t)) (\<lambda>u. Inr (t\<lparr>t_expires_at := u\<rparr>)))"

(* guard/terms.py 23-23 NO_EXPIRY *)
definition NO_EXPIRY :: datetime where
  "NO_EXPIRY =
     \<lparr>dt_year = 9999, dt_month = 12, dt_day = 31, dt_hour = 23, dt_minute = 59, dt_second = 59,
      dt_micro = 0, dt_offset = Some 0\<rparr>"

section \<open>Hashes\<close>

(* guard/terms.py 214-215 _v0_utc_text *)
definition v0_utc_text :: "datetime \<Rightarrow> string" where
  "v0_utc_text d = str_replace ''+00:00'' ''Z'' (isoformat d)"

text \<open>\<open>Terms\<close> keeps its expiry in UTC, so the conversion in \<open>_utc_text\<close> is the identity there;
  on other moments it may raise.\<close>

(* guard/terms.py 218-220 _utc_text *)
definition utc_text :: "datetime \<Rightarrow> string outcome" where
  "utc_text d = and_then (astimezone_utc d) (\<lambda>u. Inr (v0_utc_text (u\<lparr>dt_micro := 0\<rparr>)))"

(* guard/terms.py 200-204 _fee_lines *)
definition fee_lines :: "fee list \<Rightarrow> json" where
  "fee_lines ls =
     JList (map (\<lambda>l. JObj [(''code'', JStr (fee_code l)), (''amount_minor'', JInt (fee_amount l))]) (sort ls))"

definition strings :: "string list \<Rightarrow> json" where
  "strings ss = JList (map JStr ss)"

(* guard/terms.py 84-97 _v2_fields *)
definition v2_fields :: "terms \<Rightarrow> string \<Rightarrow> (string \<times> json) list" where
  "v2_fields t expires =
     [(''monthly_price_minor'', JInt (t_monthly_price_minor t)),
      (''currency'', JStr (t_currency t)),
      (''term_months'', JInt (t_term_months t)),
      (''features'', strings (sort (t_features t))),
      (''fees'', fee_lines (t_fees t)),
      (''credits'', fee_lines (t_credits t)),
      (''applied_changes'', strings (sort (t_applied_changes t))),
      (''total_cost_12m_minor'', JInt (t_total_cost_12m_minor t)),
      (''offer_id'', JStr (t_offer_id t)),
      (''offer_revision'', JInt (t_offer_revision t)),
      (''expires_at'', JStr expires)]"

definition completeness_fields :: "terms \<Rightarrow> (string \<times> json) list" where
  "completeness_fields t =
     [(''fees_none'', JBool (t_fees t = [])), (''changes_none'', JBool (t_applied_changes t = []))]"

(* guard/terms.py 65-75 terms_hash *)
definition terms_hash :: "(string \<Rightarrow> string) \<Rightarrow> terms \<Rightarrow> string outcome" where
  "terms_hash sha t =
     and_then (utc_text (t_expires_at t)) (\<lambda>x.
       Inr (hash_json sha (JObj (v2_fields t x @ completeness_fields t))))"

(* guard/terms.py 78-81 terms_hash_v2 *)
definition terms_hash_v2 :: "(string \<Rightarrow> string) \<Rightarrow> terms \<Rightarrow> string outcome" where
  "terms_hash_v2 sha t =
     and_then (utc_text (t_expires_at t)) (\<lambda>x. Inr (hash_json sha (JObj (v2_fields t x))))"

(* guard/terms.py 191-197 _v1_text *)
definition v1_text :: "string \<Rightarrow> string outcome" where
  "v1_text v =
     (let s = strip v in
      if \<not> (1 \<le> length s \<and> length s \<le> 4000) then Inl (ValueError ''a v1 material term value'')
      else Inr s)"

(* guard/terms.py 163-188 terms_hash_v1 *)
definition terms_hash_v1 ::
  "(string \<Rightarrow> string) \<Rightarrow> int \<Rightarrow> int \<Rightarrow> string \<Rightarrow> int \<Rightarrow> string list \<Rightarrow> datetime \<Rightarrow> string outcome"
where
  "terms_hash_v1 sha monthly cost currency term_months features expires =
     and_then
       (map_outcome (\<lambda>(name, v). and_then (v1_text v) (\<lambda>s. Inr (name, s)))
         [(''monthly_price_minor'', dec_int monthly), (''total_cost_12_months_minor'', dec_int cost),
          (''currency'', currency), (''term_months'', dec_int term_months),
          (''features'', join '','' (sort features)), (''offer_expires_at'', v0_utc_text expires)])
       (\<lambda>values. Inr (hash_json sha
          (JList (map (\<lambda>(name, v). JObj [(''name'', JStr name), (''value'', JStr v)]) (by_key values)))))"

section \<open>Terms of an offer\<close>

(* guard/terms.py 24-24 _BOOLEAN *)
definition BOOLEAN :: "string list" where
  "BOOLEAN = [''applied_change'', ''feature'', ''fees_none'', ''changes_none'']"

(* guard/terms.py 150-155 _stated *)
definition stated :: "string option \<Rightarrow> 'a list \<Rightarrow> bool" where
  "stated none listed = (case none of
      None \<Rightarrow> listed \<noteq> []
    | Some v \<Rightarrow> v \<in> {''true'', ''false''} \<and> ((v = ''true'') = (listed = [])))"

definition slot_dict :: "offer_public \<Rightarrow> (string, string) dict" where
  "slot_dict off = map (\<lambda>s. (rs_field s, rs_value s)) (o_slots off)"

text \<open>The coded fields \<open>kind:code\<close> with their values, in slot order.\<close>

definition coded :: "(string, string) dict \<Rightarrow> (string \<times> string \<times> string) list" where
  "coded d =
     map (\<lambda>(f, v). (before (CHR '':'') f, after (CHR '':'') f, v)) (filter (\<lambda>(f, v). CHR '':'' \<in> set f) d)"

definition money_lines :: "string \<Rightarrow> (string \<times> string \<times> string) list \<Rightarrow> fee list option" where
  "money_lines kind cs =
     those (map (\<lambda>(k, c, v). map_option (Fee c) (py_int v)) (filter (\<lambda>(k, c, v). k = kind) cs))"

definition true_codes :: "string \<Rightarrow> (string \<times> string \<times> string) list \<Rightarrow> string list" where
  "true_codes kind cs = map (\<lambda>(k, c, v). c) (filter (\<lambda>(k, c, v). k = kind \<and> v = ''true'') cs)"

definition flags_readable :: "(string, string) dict \<Rightarrow> bool" where
  "flags_readable d \<longleftrightarrow>
     list_all (\<lambda>(f, v). before (CHR '':'') f \<in> set BOOLEAN \<longrightarrow> v \<in> {''true'', ''false''}) d"

definition amounts :: "fee list \<Rightarrow> int" where
  "amounts fs = sum_list (map fee_amount fs)"

text \<open>The expiry of an \<open>expires\<close> slot: no slot is no expiry.\<close>

definition slot_expiry :: "(string \<Rightarrow> datetime option) \<Rightarrow> (string, string) dict \<Rightarrow> datetime option" where
  "slot_expiry from_iso d =
     (let x = (case dget d ''expires'' of None \<Rightarrow> ''none'' | Some v \<Rightarrow> v) in
      if x = ''none'' then Some NO_EXPIRY else from_iso x)"

(* guard/terms.py 118-145 offer_terms *)
definition read_terms ::
  "(string \<Rightarrow> datetime option) \<Rightarrow> offer_public \<Rightarrow> (string, string) dict \<Rightarrow> terms option"
where
  "read_terms from_iso off d =
     (let cs = coded d; changes = true_codes ''applied_change'' cs in
      case (money_lines ''fee'' cs, money_lines ''credit'' cs,
            Option.bind (dget d ''monthly_price'') py_int, Option.bind (dget d ''term_months'') py_int,
            slot_expiry from_iso d) of
        (Some fees, Some credits, Some monthly, Some months, Some expires) \<Rightarrow>
          if \<not> (stated (dget d ''fees_none'') fees \<and> stated (dget d ''changes_none'') changes) then None
          else Some
            \<lparr>t_monthly_price_minor = monthly, t_currency = ''USD'', t_term_months = months,
             t_features = true_codes ''feature'' cs, t_fees = fees, t_credits = credits,
             t_applied_changes = changes,
             t_total_cost_12m_minor = monthly * 12 + amounts fees - amounts credits,
             t_offer_id = o_ref off, t_offer_revision = o_revision off, t_expires_at = expires\<rparr>
      | _ \<Rightarrow> None)"

text \<open>A \<open>KeyError\<close> or \<open>ValueError\<close> makes the terms unreadable; an \<open>OverflowError\<close> of the
  conversion to UTC is not caught.\<close>

(* guard/terms.py 100-147 offer_terms *)
definition offer_terms :: "(string \<Rightarrow> datetime option) \<Rightarrow> offer_public \<Rightarrow> terms option outcome" where
  "offer_terms from_iso off =
     (let d = slot_dict off in
      if \<not> distinct (dkeys d) then Inr None
      else if \<not> flags_readable d then Inr None
      else case read_terms from_iso off d of
        None \<Rightarrow> Inr None
      | Some t \<Rightarrow>
          (case make_terms t of
             Inl (OverflowError m) \<Rightarrow> Inl (OverflowError m)
           | Inl _ \<Rightarrow> Inr None
           | Inr u \<Rightarrow> Inr (Some u)))"

(* guard/terms.py 158-160 offer_terms_hash *)
definition offer_terms_hash ::
  "(string \<Rightarrow> string) \<Rightarrow> (string \<Rightarrow> datetime option) \<Rightarrow> offer_public \<Rightarrow> string option outcome"
where
  "offer_terms_hash sha from_iso off =
     and_then (offer_terms from_iso off) (\<lambda>t. case t of
        None \<Rightarrow> Inr None
      | Some u \<Rightarrow> and_then (terms_hash sha u) (\<lambda>h. Inr (Some h)))"

end
