(* ===== verification/Terms_Facts.thy ===== *)
theory Terms_Facts
  imports Terms
begin

text \<open>
  What the terms hash binds, and what \<open>offer_terms\<close> reads: two sets of terms have the same
  \<open>pl.terms/3\<close> hash exactly when every field is the same, lists as multisets and the expiry to
  the second, provided SHA-256 does not collide on their texts.
\<close>

section \<open>What the hash binds\<close>

definition same_terms :: "terms \<Rightarrow> terms \<Rightarrow> bool" where
  "same_terms t u \<longleftrightarrow>
     t_monthly_price_minor t = t_monthly_price_minor u \<and> t_currency t = t_currency u \<and>
     t_term_months t = t_term_months u \<and> mset (t_features t) = mset (t_features u) \<and>
     mset (t_fees t) = mset (t_fees u) \<and> mset (t_credits t) = mset (t_credits u) \<and>
     mset (t_applied_changes t) = mset (t_applied_changes u) \<and>
     t_total_cost_12m_minor t = t_total_cost_12m_minor u \<and> t_offer_id t = t_offer_id u \<and>
     t_offer_revision t = t_offer_revision u \<and>
     (t_expires_at t)\<lparr>dt_micro := 0\<rparr> = (t_expires_at u)\<lparr>dt_micro := 0\<rparr>"

text \<open>Terms as \<open>Terms(...)\<close> builds them: a valid expiry in UTC.\<close>

definition terms_ok :: "terms \<Rightarrow> bool" where
  "terms_ok t \<longleftrightarrow> datetime_ok (t_expires_at t) \<and> is_utc (t_expires_at t)"

lemma utc_text_of_utc:
  assumes "is_utc d"
  shows "utc_text d = Inr (utc_seconds_text (d\<lparr>dt_micro := 0\<rparr>))"
proof -
  have "astimezone_utc d = Inr d" using assms by (simp add: astimezone_utc_def is_utc_def)
  moreover have "is_utc (d\<lparr>dt_micro := 0\<rparr>)" using assms by (simp add: is_utc_def)
  then have "v0_utc_text (d\<lparr>dt_micro := 0\<rparr>) = utc_seconds_text (d\<lparr>dt_micro := 0\<rparr>)"
    by (simp add: v0_utc_text_def isoformat_utc)
  ultimately show ?thesis by (simp add: utc_text_def)
qed

lemma utc_text_iff:
  assumes "datetime_ok a" "datetime_ok b" "is_utc a" "is_utc b"
  shows "utc_seconds_text (a\<lparr>dt_micro := 0\<rparr>) = utc_seconds_text (b\<lparr>dt_micro := 0\<rparr>) \<longleftrightarrow>
    a\<lparr>dt_micro := 0\<rparr> = b\<lparr>dt_micro := 0\<rparr>"
proof
  assume "utc_seconds_text (a\<lparr>dt_micro := 0\<rparr>) = utc_seconds_text (b\<lparr>dt_micro := 0\<rparr>)"
  moreover have "datetime_ok (a\<lparr>dt_micro := 0\<rparr>)" "datetime_ok (b\<lparr>dt_micro := 0\<rparr>)"
    using assms(1,2) by (simp_all add: datetime_ok_def)
  ultimately have "a\<lparr>dt_micro := 0\<rparr>\<lparr>dt_micro := 0, dt_offset := Some 0\<rparr> =
      b\<lparr>dt_micro := 0\<rparr>\<lparr>dt_micro := 0, dt_offset := Some 0\<rparr>"
    by (rule utc_seconds_text_inj)
  with assms(3,4) show "a\<lparr>dt_micro := 0\<rparr> = b\<lparr>dt_micro := 0\<rparr>"
    by (cases a; cases b) (simp add: is_utc_def)
qed simp

lemma sort_eq_mset: "sort xs = sort ys \<longleftrightarrow> mset xs = mset (ys :: 'a :: linorder list)"
  by (metis mset_sort sorted_list_of_multiset_mset)

definition fee_json :: "fee \<Rightarrow> json" where
  "fee_json l = JObj [(''code'', JStr (fee_code l)), (''amount_minor'', JInt (fee_amount l))]"

lemma fee_lines_alt: "fee_lines ls = JList (map fee_json (sort ls))"
  by (simp add: fee_lines_def fee_json_def)

lemma sort_keys_fee:
  "sort_keys (fee_json l) = JObj [(''amount_minor'', JInt (fee_amount l)), (''code'', JStr (fee_code l))]"
  by (simp add: fee_json_def by_key_def)

lemma sort_keys_fees_iff: "sort_keys (fee_lines a) = sort_keys (fee_lines b) \<longleftrightarrow> mset a = mset b"
proof -
  have inj: "inj (\<lambda>l. sort_keys (fee_json l))"
    by (rule injI) (auto simp: sort_keys_fee intro: fee.expand)
  have "sort_keys (fee_lines a) = sort_keys (fee_lines b) \<longleftrightarrow> sort a = sort b"
    using inj_map_eq_map [OF inj, of "sort a" "sort b"] by (simp add: fee_lines_alt comp_def)
  then show ?thesis by (simp add: sort_eq_mset)
qed

lemma sort_keys_strings: "sort_keys (strings ss) = strings ss"
  by (simp add: strings_def comp_def)

lemma strings_iff: "strings (sort a) = strings (sort b) \<longleftrightarrow> mset a = mset b"
  using inj_map_eq_map [of JStr "sort a" "sort b"] by (simp add: strings_def inj_on_def sort_eq_mset)

lemma keys_distinct_parts: "keys_distinct (fee_lines ls)" "keys_distinct (strings ss)"
  by (simp_all add: fee_lines_def strings_def list_all_iff)

definition hashed_fields :: "terms \<Rightarrow> string \<Rightarrow> json" where
  "hashed_fields t x = JObj (v2_fields t x @ completeness_fields t)"

lemma keys_distinct_hashed: "keys_distinct (hashed_fields t x)"
  by (simp add: hashed_fields_def v2_fields_def completeness_fields_def keys_distinct_parts)

lemma by_key_iff:
  assumes "map fst ms = map fst ns" "distinct (map fst ms)"
  shows "by_key ms = by_key ns \<longleftrightarrow> ms = ns"
proof
  assume "by_key ms = by_key ns"
  then have sets: "set ms = set ns" by (metis by_key_def set_sort)
  have len: "length ms = length ns" using assms(1) by (metis length_map)
  show "ms = ns"
  proof (rule nth_equalityI [OF len])
    fix i assume i: "i < length ms"
    then have m: "ms ! i \<in> set ns" using sets nth_mem by blast
    have n: "ns ! i \<in> set ns" using i len by simp
    have "map fst ms ! i = map fst ns ! i" using assms(1) by simp
    then have key: "fst (ms ! i) = fst (ns ! i)" using i len by simp
    have "inj_on fst (set ns)" using assms by (simp add: distinct_map)
    from inj_onD [OF this key m n] show "ms ! i = ns ! i" .
  qed
qed simp

lemma hashed_fields_iff:
  "sort_keys (hashed_fields t x) = sort_keys (hashed_fields u y) \<longleftrightarrow>
     t_monthly_price_minor t = t_monthly_price_minor u \<and> t_currency t = t_currency u \<and>
     t_term_months t = t_term_months u \<and> mset (t_features t) = mset (t_features u) \<and>
     mset (t_fees t) = mset (t_fees u) \<and> mset (t_credits t) = mset (t_credits u) \<and>
     mset (t_applied_changes t) = mset (t_applied_changes u) \<and>
     t_total_cost_12m_minor t = t_total_cost_12m_minor u \<and> t_offer_id t = t_offer_id u \<and>
     t_offer_revision t = t_offer_revision u \<and> x = y"
proof -
  let ?f = "\<lambda>t x. map (\<lambda>m. (fst m, sort_keys (snd m))) (v2_fields t x @ completeness_fields t)"
  have "sort_keys (hashed_fields t x) = sort_keys (hashed_fields u y) \<longleftrightarrow> by_key (?f t x) = by_key (?f u y)"
    by (simp add: hashed_fields_def)
  also have "\<dots> \<longleftrightarrow> ?f t x = ?f u y"
    by (rule by_key_iff) (simp_all add: v2_fields_def completeness_fields_def)
  also have "\<dots> \<longleftrightarrow>
     t_monthly_price_minor t = t_monthly_price_minor u \<and> t_currency t = t_currency u \<and>
     t_term_months t = t_term_months u \<and> mset (t_features t) = mset (t_features u) \<and>
     mset (t_fees t) = mset (t_fees u) \<and> mset (t_credits t) = mset (t_credits u) \<and>
     mset (t_applied_changes t) = mset (t_applied_changes u) \<and>
     t_total_cost_12m_minor t = t_total_cost_12m_minor u \<and> t_offer_id t = t_offer_id u \<and>
     t_offer_revision t = t_offer_revision u \<and> x = y"
    by (auto simp: v2_fields_def completeness_fields_def sort_keys_fees_iff sort_keys_strings strings_iff)
  finally show ?thesis .
qed

text \<open>
  C11. The terms hash binds every field: provided SHA-256 does not collide, two terms have the
  same hash exactly when price, currency, term, total, offer, revision and expiry (to the
  second) are equal and features, fees, credits and changes are equal as multisets.
\<close>

theorem terms_hash_binds:
  assumes "inj sha" "terms_ok t" "terms_ok u"
  shows "terms_hash sha t = terms_hash sha u \<longleftrightarrow> same_terms t u"
proof -
  let ?x = "utc_seconds_text ((t_expires_at t)\<lparr>dt_micro := 0\<rparr>)"
  let ?y = "utc_seconds_text ((t_expires_at u)\<lparr>dt_micro := 0\<rparr>)"
  have "terms_hash sha t = Inr (sha (canonical_json (hashed_fields t ?x)))"
    "terms_hash sha u = Inr (sha (canonical_json (hashed_fields u ?y)))"
    using assms(2,3)
    by (simp_all add: terms_hash_def utc_text_of_utc terms_ok_def hash_json_def sha256_text_def hashed_fields_def)
  then have "terms_hash sha t = terms_hash sha u \<longleftrightarrow>
      sort_keys (hashed_fields t ?x) = sort_keys (hashed_fields u ?y)"
    using assms(1) by (simp add: inj_eq canonical_json_inj keys_distinct_hashed)
  also have "\<dots> \<longleftrightarrow> same_terms t u"
    using assms(2,3) by (simp add: hashed_fields_iff same_terms_def terms_ok_def utc_text_iff)
  finally show ?thesis .
qed

definition sample_terms :: terms where
  "sample_terms =
     \<lparr>t_monthly_price_minor = 5000, t_currency = ''USD'', t_term_months = 12,
      t_features = [''hd'', ''5g''], t_fees = [Fee ''setup'' 1000, Fee ''early'' 500], t_credits = [],
      t_applied_changes = [], t_total_cost_12m_minor = 61500, t_offer_id = ''o1'',
      t_offer_revision = 1, t_expires_at = NO_EXPIRY\<rparr>"

theorem terms_hash_binds_witness:
  "terms_hash (\<lambda>s. s) sample_terms =
     terms_hash (\<lambda>s. s) (sample_terms\<lparr>t_fees := [Fee ''early'' 500, Fee ''setup'' 1000]\<rparr>) \<and>
   terms_hash (\<lambda>s. s) sample_terms \<noteq> terms_hash (\<lambda>s. s) (sample_terms\<lparr>t_monthly_price_minor := 4999\<rparr>)"
proof -
  have ok: "inj (\<lambda>s :: string. s)" "terms_ok sample_terms"
    "terms_ok (sample_terms\<lparr>t_fees := [Fee ''early'' 500, Fee ''setup'' 1000]\<rparr>)"
    "terms_ok (sample_terms\<lparr>t_monthly_price_minor := 4999\<rparr>)"
    by (simp_all add: terms_ok_def sample_terms_def NO_EXPIRY_def datetime_ok_def is_utc_def days_in_month_def)
  from terms_hash_binds [OF ok(1,2,3)] terms_hash_binds [OF ok(1,2,4)] show ?thesis
    by (simp add: same_terms_def sample_terms_def add_mset_commute)
qed

section \<open>What \<open>offer_terms\<close> reads\<close>

definition codes_of :: "string \<Rightarrow> (string \<times> string \<times> string) list \<Rightarrow> string list" where
  "codes_of k cs = map (\<lambda>(k', c, v). c) (filter (\<lambda>(k', c, v). k' = k) cs)"

lemma those_map_codes:
  "those (map (\<lambda>(k, c, v). map_option (Fee c) (py_int v)) xs) = Some fs \<Longrightarrow>
     map fee_code fs = map (\<lambda>(k, c, v). c) xs"
  by (induction xs arbitrary: fs) (auto split: option.splits)

lemma money_lines_codes: "money_lines k cs = Some fs \<Longrightarrow> map fee_code fs = codes_of k cs"
  by (simp add: money_lines_def codes_of_def those_map_codes)

lemma read_terms_Some:
  assumes "read_terms from_iso off d = Some t"
  obtains fees credits monthly months expires where
    "money_lines ''fee'' (coded d) = Some fees" "money_lines ''credit'' (coded d) = Some credits"
    "Option.bind (dget d ''monthly_price'') py_int = Some monthly"
    "Option.bind (dget d ''term_months'') py_int = Some months"
    "slot_expiry from_iso d = Some expires" "stated (dget d ''fees_none'') fees"
    "stated (dget d ''changes_none'') (true_codes ''applied_change'' (coded d))"
    "t = \<lparr>t_monthly_price_minor = monthly, t_currency = ''USD'', t_term_months = months,
             t_features = true_codes ''feature'' (coded d), t_fees = fees, t_credits = credits,
             t_applied_changes = true_codes ''applied_change'' (coded d),
             t_total_cost_12m_minor = monthly * 12 + amounts fees - amounts credits,
             t_offer_id = o_ref off, t_offer_revision = o_revision off, t_expires_at = expires\<rparr>"
  using assms by (auto simp: read_terms_def Let_def split: option.splits if_splits)

lemma make_terms_Inr:
  "make_terms t = Inr u \<longleftrightarrow>
     (\<exists>x. astimezone_utc (t_expires_at t) = Inr x \<and> dt_offset (t_expires_at t) \<noteq> None \<and>
          u = t\<lparr>t_expires_at := x\<rparr>)"
  by (auto simp: make_terms_def outcome_simps)

lemma offer_terms_Some:
  assumes "offer_terms from_iso off = Inr (Some u)"
  obtains t where "distinct (dkeys (slot_dict off))" "flags_readable (slot_dict off)"
    "read_terms from_iso off (slot_dict off) = Some t" "make_terms t = Inr u"
  using assms
  by (auto simp: offer_terms_def Let_def split: if_splits option.splits sum.splits py_error.splits)

lemma stated_Nil: "stated none [] \<longleftrightarrow> none = Some ''true''"
  by (auto simp: stated_def split: option.splits)

text \<open>
  Terms are read only when everything is stated: no field repeats, price and term are
  numbers, every \<open>fee:\<close> and \<open>credit:\<close> slot is a line of the terms and in order, the total is
  twelve months plus fees less credits, the expiry is in UTC, and no fee or no change is
  claimed only where a \<open>*_none\<close> slot says so.
\<close>

theorem offer_terms_complete:
  assumes "offer_terms from_iso off = Inr (Some t)"
  shows "distinct (map rs_field (o_slots off)) \<and>
    Option.bind (dget (slot_dict off) ''monthly_price'') py_int = Some (t_monthly_price_minor t) \<and>
    Option.bind (dget (slot_dict off) ''term_months'') py_int = Some (t_term_months t) \<and>
    map fee_code (t_fees t) = codes_of ''fee'' (coded (slot_dict off)) \<and>
    map fee_code (t_credits t) = codes_of ''credit'' (coded (slot_dict off)) \<and>
    t_total_cost_12m_minor t =
      t_monthly_price_minor t * 12 + amounts (t_fees t) - amounts (t_credits t) \<and>
    is_utc (t_expires_at t) \<and> t_offer_id t = o_ref off \<and> t_offer_revision t = o_revision off \<and>
    (t_fees t = [] \<longrightarrow> dget (slot_dict off) ''fees_none'' = Some ''true'') \<and>
    (t_applied_changes t = [] \<longrightarrow> dget (slot_dict off) ''changes_none'' = Some ''true'')"
proof -
  from assms obtain u where d: "distinct (dkeys (slot_dict off))"
    and r: "read_terms from_iso off (slot_dict off) = Some u" and m: "make_terms u = Inr t"
    by (rule offer_terms_Some)
  have "distinct (map rs_field (o_slots off))"
    using d by (simp add: slot_dict_def comp_def)
  with r show ?thesis
    by (elim read_terms_Some) (use m in \<open>auto simp: make_terms_Inr stated_Nil
        dest: money_lines_codes astimezone_is_utc\<close>)
qed

definition text_slot :: "string \<Rightarrow> string \<Rightarrow> readback_slot" where
  "text_slot f v =
     \<lparr>rs_field = f, rs_value = v, rs_unit = UsdMinor, rs_role = Recurring, rs_source_utt = None,
      rs_span = None, rs_status = SlotConfirmed\<rparr>"

definition slots_offer :: "(string \<times> string) list \<Rightarrow> offer_public" where
  "slots_offer fs =
     \<lparr>o_ref = ''o1'', o_revision = 1, o_slots = map (\<lambda>(f, v). text_slot f v) fs, o_status = OfferOpen,
      o_expires_ms = None, o_terms_hash = None\<rparr>"

definition sample_slots :: "(string \<times> string) list" where
  "sample_slots =
     [(''monthly_price'', ''5000''), (''term_months'', ''12''), (''fees_none'', ''true''),
      (''changes_none'', ''true''), (''expires'', ''2026-10-01T12:00:00Z'')]"

lemma sample_offer_terms:
  "succeeds (offer_terms iso_extended (slots_offer sample_slots)) \<and>
   offer_terms iso_extended (slots_offer sample_slots) \<noteq> Inr None"
  by code_simp

theorem offer_terms_complete_witness:
  "\<exists>t. offer_terms iso_extended (slots_offer sample_slots) = Inr (Some t) \<and>
     t_total_cost_12m_minor t = t_monthly_price_minor t * 12 + amounts (t_fees t) - amounts (t_credits t)"
proof -
  obtain t where t: "offer_terms iso_extended (slots_offer sample_slots) = Inr (Some t)"
    using sample_offer_terms by (auto simp: succeeds_iff)
  from offer_terms_complete [OF t] t show ?thesis by blast
qed

text \<open>
  A repeated field makes the terms unreadable, whatever the values are.
\<close>

theorem repeated_field_unreadable:
  "offer_terms from_iso
     (off\<lparr>o_slots := ss @ s # ss' @ s'\<lparr>rs_field := rs_field s\<rparr> # ss''\<rparr>) = Inr None"
  by (simp add: offer_terms_def slot_dict_def Let_def)

text \<open>
  An expiry that UTC cannot express is not read as malformed: \<open>offer_terms\<close> raises the
  \<open>OverflowError\<close> of the conversion, here for 23:59 on 31 December 9999 one hour west of UTC.
\<close>

theorem expiry_overflow_escapes:
  "offer_terms
     (\<lambda>_. Some \<lparr>dt_year = 9999, dt_month = 12, dt_day = 31, dt_hour = 23, dt_minute = 59,
        dt_second = 0, dt_micro = 0, dt_offset = Some (- 3600)\<rparr>)
     (slots_offer [(''monthly_price'', ''5000''), (''term_months'', ''12''), (''fees_none'', ''true''),
        (''changes_none'', ''true''), (''expires'', ''9999-12-31T23:59-01:00'')]) =
   Inl (OverflowError ''date value out of range'')"
  by code_simp

text \<open>
  A fee may be read with a negative amount, and then takes from the sum of fees: two lines
  of 6000 and -6000 are two lines that cost nothing.
\<close>

theorem negative_fee_is_read:
  "map_option (\<lambda>t. (t_fees t, amounts (t_fees t)))
     (case offer_terms from_iso
        (slots_offer [(''monthly_price'', ''5000''), (''term_months'', ''12''), (''fee:a'', ''6000''),
           (''fee:b'', ''-6000''), (''changes_none'', ''true'')]) of Inl _ \<Rightarrow> None | Inr t \<Rightarrow> t) =
   Some ([Fee ''a'' 6000, Fee ''b'' (- 6000)], 0)"
  by code_simp

end
