(* ===== verification/Offer_Policy.thy ===== *)
theory Offer_Policy
  imports Datetime
begin

text \<open>
  \<open>guard/policy.py\<close>: the compliance policy of an offer. A violation is a reason code; the codes
  come in the order of the tests. Validation of the two input records is a test each.
\<close>

(* guard/policy.py 15-18 PREDEFINED_PROMOTION_CREDIT_MINOR *)
definition PREDEFINED_PROMOTION_CREDIT_MINOR :: int where
  "PREDEFINED_PROMOTION_CREDIT_MINOR = 5000"

definition known_credit :: "string \<Rightarrow> int" where
  "known_credit change =
     (if change = ''predefined_promotion_credit'' then PREDEFINED_PROMOTION_CREDIT_MINOR else 0)"

(* guard/policy.py 20-28 SUPPORTED_APPLIED_CHANGES *)
definition SUPPORTED_APPLIED_CHANGES :: "string list" where
  "SUPPORTED_APPLIED_CHANGES = [''plan_change'', ''revised_plan_change'', ''predefined_promotion_credit'']"

definition REMOVE_ADD_ON_PREFIX :: string where
  "REMOVE_ADD_ON_PREFIX = ''remove_add_on:''"

(* guard/policy.py 31-38 is_supported_applied_change *)
definition is_supported_applied_change :: "string \<Rightarrow> bool" where
  "is_supported_applied_change change \<longleftrightarrow>
     change \<in> set SUPPORTED_APPLIED_CHANGES \<or>
     (starts_with REMOVE_ADD_ON_PREFIX change \<and> length REMOVE_ADD_ON_PREFIX < length change)"

(* guard/policy.py 41-48 unsupported_applied_changes *)
definition unsupported_applied_changes :: "string list \<Rightarrow> string list" where
  "unsupported_applied_changes changes =
     fromkeys (filter (\<lambda>c. \<not> is_supported_applied_change c) changes)"

lemma unsupported_Nil:
  "unsupported_applied_changes cs = [] \<longleftrightarrow> list_all is_supported_applied_change cs"
  by (auto simp: unsupported_applied_changes_def filter_empty_conv list_all_iff)

lemma unsupported_distinct: "distinct (unsupported_applied_changes cs)"
  by (simp add: unsupported_applied_changes_def)

section \<open>The inputs\<close>

(* guard/policy.py 51-60 OfferComplianceContext *)
record compliance_context =
  oc_evaluated_at :: datetime
  oc_current_monthly_minor :: int
  oc_currency :: string
  oc_target_monthly_minor :: "int option"
  oc_target_currency :: "string option"
  oc_required_features :: "string list"
  oc_forbidden_changes :: "string list"

(* guard/policy.py 79-89 OfferComplianceTerms *)
record compliance_terms =
  ot_monthly_price_minor :: int
  ot_total_cost_12_months_minor :: int
  ot_currency :: string
  ot_fees_minor :: int
  ot_features :: "string list"
  ot_applied_changes :: "string list"
  ot_expires_at :: datetime

(* guard/policy.py 151-153 _require_utc *)
definition require_utc :: "datetime \<Rightarrow> bool" where
  "require_utc d \<longleftrightarrow> dt_offset d = Some 0"

(* guard/policy.py 161-163 _require_currency *)
definition require_currency :: "string \<Rightarrow> bool" where
  "require_currency v \<longleftrightarrow>
     length v = 3 \<and> list_all (\<lambda>c. of_char c < (128 :: nat)) v \<and> \<not> list_ex is_lower v"

(* guard/policy.py 166-172 _require_tokens *)
definition require_tokens :: "string list \<Rightarrow> bool" where
  "require_tokens vs \<longleftrightarrow> distinct vs \<and> list_all (\<lambda>v. strip v \<noteq> []) vs"

(* guard/policy.py 63-76 OfferComplianceContext.__post_init__ *)
definition context_valid :: "compliance_context \<Rightarrow> bool" where
  "context_valid c \<longleftrightarrow>
     require_utc (oc_evaluated_at c) \<and> 0 \<le> oc_current_monthly_minor c \<and>
     (case oc_target_monthly_minor c of None \<Rightarrow> True | Some n \<Rightarrow> 0 \<le> n) \<and>
     require_currency (oc_currency c) \<and>
     (case oc_target_currency c of None \<Rightarrow> True | Some x \<Rightarrow> require_currency x) \<and>
     require_tokens (oc_required_features c) \<and> require_tokens (oc_forbidden_changes c)"

(* guard/policy.py 91-101 OfferComplianceTerms.__post_init__ *)
definition compliance_terms_valid :: "compliance_terms \<Rightarrow> bool" where
  "compliance_terms_valid t \<longleftrightarrow>
     0 \<le> ot_monthly_price_minor t \<and> 0 \<le> ot_total_cost_12_months_minor t \<and> 0 \<le> ot_fees_minor t \<and>
     require_currency (ot_currency t) \<and> require_tokens (ot_features t) \<and>
     require_tokens (ot_applied_changes t) \<and> require_utc (ot_expires_at t)"

section \<open>The policy\<close>

definition code_if :: "bool \<Rightarrow> string \<Rightarrow> string list" where
  "code_if b s = (if b then [s] else [])"

definition expected_total :: "compliance_terms \<Rightarrow> int" where
  "expected_total t =
     ot_monthly_price_minor t * 12 + ot_fees_minor t - sum_list (map known_credit (ot_applied_changes t))"

(* guard/policy.py 104-148 offer_violations *)
definition offer_violations :: "compliance_context \<Rightarrow> compliance_terms \<Rightarrow> string list" where
  "offer_violations c t =
     code_if (oc_currency c \<noteq> ot_currency t \<or>
              (oc_target_currency c \<noteq> None \<and> oc_target_currency c \<noteq> Some (oc_currency c)))
       ''currency_mismatch'' @
     code_if (dt_le (ot_expires_at t) (oc_evaluated_at c)) ''offer_expired'' @
     code_if (ot_monthly_price_minor t \<ge> oc_current_monthly_minor c) ''recurring_price_not_reduced'' @
     (case oc_target_monthly_minor c of
        Some target \<Rightarrow>
          code_if (ot_monthly_price_minor t > target) ''target_monthly_total_not_met'' @
          code_if (ot_total_cost_12_months_minor t > target * 12) ''total_cost_target_exceeded''
      | None \<Rightarrow>
          code_if (ot_total_cost_12_months_minor t \<ge> oc_current_monthly_minor c * 12)
            ''total_cost_exceeds_current'') @
     code_if (ot_total_cost_12_months_minor t \<noteq> expected_total t) ''fee_total_mismatch'' @
     code_if (\<not> set (oc_required_features c) \<subseteq> set (ot_features t)) ''required_feature_missing'' @
     code_if (set (oc_forbidden_changes c) \<inter> set (ot_applied_changes t) \<noteq> {}) ''forbidden_change_present'' @
     code_if (unsupported_applied_changes (ot_applied_changes t) \<noteq> []) ''unsupported_applied_change''"

lemma code_if_Nil [simp]: "code_if b s = [] \<longleftrightarrow> \<not> b"
  by (simp add: code_if_def)

text \<open>
  An offer without violations is one the case is better off with and that does nothing it
  must not: the price falls, the year costs less than the target or the current plan, the total
  is twelve months plus fees less only the catalogued credit, nothing required is missing,
  nothing forbidden and nothing unsupported is applied, and it has not expired.
\<close>

theorem compliant_offer:
  assumes "offer_violations c t = []"
  shows "ot_currency t = oc_currency c \<and> \<not> dt_le (ot_expires_at t) (oc_evaluated_at c) \<and>
    ot_monthly_price_minor t < oc_current_monthly_minor c \<and>
    (case oc_target_monthly_minor c of
       Some target \<Rightarrow>
         ot_monthly_price_minor t \<le> target \<and>
         ot_monthly_price_minor t * 12 + ot_fees_minor t -
           sum_list (map known_credit (ot_applied_changes t)) \<le> target * 12
     | None \<Rightarrow> ot_total_cost_12_months_minor t < oc_current_monthly_minor c * 12) \<and>
    set (oc_required_features c) \<subseteq> set (ot_features t) \<and>
    set (oc_forbidden_changes c) \<inter> set (ot_applied_changes t) = {} \<and>
    list_all is_supported_applied_change (ot_applied_changes t)"
  using assms
  by (auto simp: offer_violations_def expected_total_def unsupported_Nil not_le split: option.splits)

definition sample_context :: compliance_context where
  "sample_context =
     \<lparr>oc_evaluated_at = \<lparr>dt_year = 2026, dt_month = 1, dt_day = 1, dt_hour = 0, dt_minute = 0,
        dt_second = 0, dt_micro = 0, dt_offset = Some 0\<rparr>,
      oc_current_monthly_minor = 8000, oc_currency = ''USD'', oc_target_monthly_minor = Some 6000,
      oc_target_currency = None, oc_required_features = [''hd''], oc_forbidden_changes = []\<rparr>"

definition sample_offer :: compliance_terms where
  "sample_offer =
     \<lparr>ot_monthly_price_minor = 5500, ot_total_cost_12_months_minor = 62000, ot_currency = ''USD'',
      ot_fees_minor = 1000, ot_features = [''hd'', ''5g''],
      ot_applied_changes = [''plan_change'', ''predefined_promotion_credit''],
      ot_expires_at = \<lparr>dt_year = 2026, dt_month = 2, dt_day = 1, dt_hour = 0, dt_minute = 0,
        dt_second = 0, dt_micro = 0, dt_offset = Some 0\<rparr>\<rparr>"

theorem compliant_offer_witness:
  "ot_monthly_price_minor sample_offer < oc_current_monthly_minor sample_context \<and>
   list_all is_supported_applied_change (ot_applied_changes sample_offer)"
proof -
  have "offer_violations sample_context sample_offer = []" by code_simp
  from compliant_offer [OF this] show ?thesis by blast
qed

end
