(* ===== verification/Mandate.thy ===== *)
theory Mandate
  imports Terms_Facts Offer_Policy
begin

text \<open>
  \<open>guard/mandate.py\<close>: the principal's mandate, its hash, what it covers, and the hard
  constraints that no approval lifts.
\<close>

section \<open>The hash and the proposal\<close>

definition json_int :: "int option \<Rightarrow> json" where
  "json_int x = (case x of None \<Rightarrow> JNull | Some n \<Rightarrow> JInt n)"

(* guard/mandate.py 16-32 mandate_hash *)
definition bounds_json :: "mandate \<Rightarrow> json" where
  "bounds_json m = JObj
     [(''mandate_id'', JStr (m_id m)), (''epoch'', JInt (m_epoch m)),
      (''max_monthly_price_minor'', json_int (m_max_monthly_price_minor m)),
      (''max_term_months'', json_int (m_max_term_months m)),
      (''max_one_time_fees_minor'', json_int (m_max_one_time_fees_minor m)),
      (''required_features'', strings (sort (m_required_features m))),
      (''forbidden_changes'', strings (sort (m_forbidden_changes m))),
      (''expires_ms'', json_int (m_expires_ms m))]"

definition mandate_hash :: "(string \<Rightarrow> string) \<Rightarrow> mandate \<Rightarrow> string" where
  "mandate_hash sha m = hash_json sha (bounds_json m)"

text \<open>The bounds a caller passes to \<open>proposal\<close>.\<close>

record mandate_bounds =
  mb_max_monthly_price_minor :: "int option"
  mb_max_term_months :: "int option"
  mb_max_one_time_fees_minor :: "int option"
  mb_required_features :: "string list"
  mb_forbidden_changes :: "string list"
  mb_expires_ms :: "int option"

(* guard/mandate.py 35-43 proposal *)
definition mandate_proposal :: "(string \<Rightarrow> string) \<Rightarrow> blackboard \<Rightarrow> string \<Rightarrow> mandate_bounds \<Rightarrow> mandate" where
  "mandate_proposal sha bb mid b =
     (let m = \<lparr>m_id = mid, m_hash = [], m_status = MProposed, m_epoch = bb_epoch bb,
               m_max_monthly_price_minor = mb_max_monthly_price_minor b,
               m_max_term_months = mb_max_term_months b,
               m_max_one_time_fees_minor = mb_max_one_time_fees_minor b,
               m_required_features = mb_required_features b,
               m_forbidden_changes = mb_forbidden_changes b,
               m_expires_ms = mb_expires_ms b, m_decided_by = None\<rparr>
      in m\<lparr>m_hash := mandate_hash sha m\<rparr>)"

section \<open>What the mandate covers\<close>

definition mandate_forbids :: "terms \<Rightarrow> mandate option \<Rightarrow> bool" where
  "mandate_forbids t m = (case m of None \<Rightarrow> False | Some m \<Rightarrow>
     set (m_forbidden_changes m) \<inter> set (t_applied_changes t) \<noteq> {})"

definition mandate_lacks :: "terms \<Rightarrow> mandate option \<Rightarrow> bool" where
  "mandate_lacks t m = (case m of None \<Rightarrow> False | Some m \<Rightarrow>
     \<not> set (m_required_features m) \<subseteq> set (t_features t))"

(* guard/mandate.py 46-55 hard_violations *)
definition hard_violations :: "terms \<Rightarrow> mandate option \<Rightarrow> string list" where
  "hard_violations t m =
     code_if (mandate_lacks t m) ''required_feature_missing'' @
     code_if (mandate_forbids t m) ''forbidden_change_present'' @
     code_if (unsupported_applied_changes (t_applied_changes t) \<noteq> []) ''unsupported_applied_change''"

definition exceeds :: "int option \<Rightarrow> int \<Rightarrow> bool" where
  "exceeds bound value = (case bound of None \<Rightarrow> False | Some b \<Rightarrow> value > b)"

definition within_bounds :: "mandate \<Rightarrow> terms \<Rightarrow> bool" where
  "within_bounds m t \<longleftrightarrow>
     \<not> exceeds (m_max_monthly_price_minor m) (t_monthly_price_minor t) \<and>
     \<not> exceeds (m_max_term_months m) (t_term_months t) \<and>
     \<not> exceeds (m_max_one_time_fees_minor m) (amounts (t_fees t))"

definition ends_by :: "int option \<Rightarrow> int \<Rightarrow> bool" where
  "ends_by e t = (case e of None \<Rightarrow> False | Some x \<Rightarrow> x \<le> t)"

(* guard/mandate.py 58-75 mandate_gap *)
definition mandate_gap :: "blackboard \<Rightarrow> terms \<Rightarrow> string option" where
  "mandate_gap bb t =
     (case mandate_of bb of
        None \<Rightarrow> Some ''not_authorized''
      | Some m \<Rightarrow>
          if m_status m \<noteq> MGranted then Some ''not_authorized''
          else if m_epoch m \<noteq> bb_epoch bb then Some ''mandate_stale_epoch''
          else if ends_by (m_expires_ms m) (bb_t_ms bb) then Some ''mandate_expired''
          else if \<not> within_bounds m t then Some ''outside_mandate''
          else None)"

text \<open>The mandate's numbers as a person says them, in hundredths: dollars and months.\<close>

(* guard/mandate.py 78-82 bound_numbers *)
definition bound_numbers :: "mandate \<Rightarrow> int list" where
  "bound_numbers m =
     List.map_filter id [m_max_monthly_price_minor m, m_max_one_time_fees_minor m] @
     (case m_max_term_months m of None \<Rightarrow> [] | Some n \<Rightarrow> if n = 0 then [] else [n * 100])"

section \<open>Facts\<close>

lemma mandate_gap_None:
  "mandate_gap bb t = None \<longleftrightarrow>
     (\<exists>m. mandate_of bb = Some m \<and> m_status m = MGranted \<and> m_epoch m = bb_epoch bb \<and>
          \<not> ends_by (m_expires_ms m) (bb_t_ms bb) \<and> within_bounds m t)"
  by (auto simp: mandate_gap_def split: option.splits)

lemma hard_violations_Nil:
  "hard_violations t m = [] \<longleftrightarrow>
     \<not> mandate_lacks t m \<and> \<not> mandate_forbids t m \<and> list_all is_supported_applied_change (t_applied_changes t)"
  by (simp add: hard_violations_def unsupported_Nil)

definition same_bounds :: "mandate \<Rightarrow> mandate \<Rightarrow> bool" where
  "same_bounds m n \<longleftrightarrow>
     m_id m = m_id n \<and> m_epoch m = m_epoch n \<and>
     m_max_monthly_price_minor m = m_max_monthly_price_minor n \<and>
     m_max_term_months m = m_max_term_months n \<and>
     m_max_one_time_fees_minor m = m_max_one_time_fees_minor n \<and>
     mset (m_required_features m) = mset (m_required_features n) \<and>
     mset (m_forbidden_changes m) = mset (m_forbidden_changes n) \<and> m_expires_ms m = m_expires_ms n"

lemma json_int_inj: "json_int a = json_int b \<longleftrightarrow> a = b"
  by (auto simp: json_int_def split: option.splits)

lemma keys_json_int [simp]: "keys_distinct (json_int x)" "sort_keys (json_int x) = json_int x"
  by (simp_all add: json_int_def split: option.splits)

lemma sort_bounds_iff: "sort_keys (bounds_json m) = sort_keys (bounds_json n) \<longleftrightarrow> same_bounds m n"
proof -
  let ?ms = "\<lambda>m. case bounds_json m of JObj ms \<Rightarrow> map (\<lambda>p. (fst p, sort_keys (snd p))) ms | _ \<Rightarrow> []"
  have "sort_keys (bounds_json m) = sort_keys (bounds_json n) \<longleftrightarrow> by_key (?ms m) = by_key (?ms n)"
    by (simp add: bounds_json_def)
  also have "\<dots> \<longleftrightarrow> ?ms m = ?ms n"
    by (rule by_key_iff) (simp_all add: bounds_json_def)
  also have "\<dots> \<longleftrightarrow> same_bounds m n"
    by (auto simp: bounds_json_def same_bounds_def json_int_inj sort_keys_strings strings_iff)
  finally show ?thesis .
qed

text \<open>
  The hash a person decides on binds the bounds: provided SHA-256 does not collide, two
  mandates have the same hash exactly when id, epoch, every limit and the expiry are equal and
  the feature and change lists are equal up to order.
\<close>

theorem mandate_hash_binds:
  assumes "inj sha"
  shows "mandate_hash sha m = mandate_hash sha n \<longleftrightarrow> same_bounds m n"
proof -
  have "keys_distinct (bounds_json k)" for k
    by (simp add: bounds_json_def keys_distinct_parts)
  with assms show ?thesis
    by (simp add: mandate_hash_def hash_json_def sha256_text_def inj_eq canonical_json_inj sort_bounds_iff)
qed

definition sample_mandate :: mandate where
  "sample_mandate =
     \<lparr>m_id = ''m1'', m_hash = [], m_status = MGranted, m_epoch = 0,
      m_max_monthly_price_minor = Some 5500, m_max_term_months = Some 12,
      m_max_one_time_fees_minor = Some 2000, m_required_features = [''hd''],
      m_forbidden_changes = [], m_expires_ms = Some 1000, m_decided_by = Some Ui\<rparr>"

theorem mandate_hash_binds_witness:
  "mandate_hash (\<lambda>s. s) sample_mandate \<noteq> mandate_hash (\<lambda>s. s) (sample_mandate\<lparr>m_epoch := 1\<rparr>)"
  using mandate_hash_binds [of "\<lambda>s. s" sample_mandate "sample_mandate\<lparr>m_epoch := 1\<rparr>"]
  by (simp add: same_bounds_def sample_mandate_def)

definition at_least_as_strict :: "int option \<Rightarrow> int option \<Rightarrow> bool" where
  "at_least_as_strict a b = (case b of None \<Rightarrow> True | Some y \<Rightarrow> (case a of None \<Rightarrow> False | Some x \<Rightarrow> x \<le> y))"

definition tightens :: "mandate \<Rightarrow> mandate \<Rightarrow> bool" where
  "tightens m n \<longleftrightarrow>
     m_status m = m_status n \<and> m_epoch m = m_epoch n \<and>
     at_least_as_strict (m_max_monthly_price_minor m) (m_max_monthly_price_minor n) \<and>
     at_least_as_strict (m_max_term_months m) (m_max_term_months n) \<and>
     at_least_as_strict (m_max_one_time_fees_minor m) (m_max_one_time_fees_minor n) \<and>
     at_least_as_strict (m_expires_ms m) (m_expires_ms n) \<and>
     set (m_required_features n) \<subseteq> set (m_required_features m) \<and>
     set (m_forbidden_changes n) \<subseteq> set (m_forbidden_changes m)"

definition with_mandate :: "blackboard \<Rightarrow> mandate \<Rightarrow> blackboard" where
  "with_mandate bb m = bb\<lparr>bb_private := (bb_private bb)\<lparr>priv_mandate := Some m\<rparr>\<rparr>"

lemma strict_exceeds: "at_least_as_strict a b \<Longrightarrow> exceeds b v \<Longrightarrow> exceeds a v"
  by (auto simp: at_least_as_strict_def exceeds_def split: option.splits)

lemma strict_ends: "at_least_as_strict a b \<Longrightarrow> ends_by b v \<Longrightarrow> ends_by a v"
  by (auto simp: at_least_as_strict_def ends_by_def split: option.splits)

text \<open>
  Tightening only restricts: if every limit of the mandate is at least as strict as
  another's and it lapses no later, then terms it covers now are covered by the other one.
\<close>

theorem tightening_only_restricts:
  assumes "tightens m n" "mandate_gap (with_mandate bb m) t = None" "hard_violations t (Some m) = []"
  shows "mandate_gap (with_mandate bb n) t = None \<and> hard_violations t (Some n) = []"
  using assms strict_exceeds strict_ends
  by (auto simp: mandate_gap_None hard_violations_Nil tightens_def with_mandate_def within_bounds_def
      mandate_lacks_def mandate_forbids_def)

theorem tightening_only_restricts_witness:
  "mandate_gap (with_mandate initial_blackboard sample_mandate) sample_terms = None"
proof -
  have "mandate_gap (with_mandate initial_blackboard
      (sample_mandate\<lparr>m_max_monthly_price_minor := Some 5100\<rparr>)) sample_terms = None"
    "hard_violations sample_terms (Some (sample_mandate\<lparr>m_max_monthly_price_minor := Some 5100\<rparr>)) = []"
    "tightens (sample_mandate\<lparr>m_max_monthly_price_minor := Some 5100\<rparr>) sample_mandate"
    by code_simp+
  from tightening_only_restricts [OF this(3,1,2)] show ?thesis by blast
qed

end
