(* ===== verification/Readback.thy ===== *)
theory Readback
  imports Terms_Facts Events
begin

text \<open>
  \<open>guard/readback.py\<close>: when an offer's slots count as read back. The lexical reading of a rep
  line (\<open>said\<close>, \<open>_stated\<close> and the regular expressions behind them) is the argument \<open>lx\<close>:
  for a field, the transcript and the other slots of its kind, the clauses that state a value.
  What is modelled is what the guard concludes from them: \<open>heard\<close>, \<open>confirmed\<close>, the window rule
  over all slots, and the text of a card.
\<close>

section \<open>Statements\<close>

text \<open>A statement: line, utterance, span and the values stated.\<close>

(* guard/readback.py 329-329 Stated *)
record statement =
  st_line :: nat
  st_utt :: string
  st_start :: int
  st_end :: int
  st_values :: "string list"

text \<open>The lexical reading: the statements of a transcript about a field, and the day
  (\<open>MM-DD\<close>) of the first date of a text when that date is an ISO date.\<close>

record lexical =
  lx_states :: "string \<Rightarrow> line list \<Rightarrow> (string, string) dict \<Rightarrow> statement list"
  lx_day :: "string \<Rightarrow> string option"

definition states_exactly :: "string \<Rightarrow> string list \<Rightarrow> bool" where
  "states_exactly want vs \<longleftrightarrow> set vs = {want}"

(* guard/readback.py 84-94 ROLE_OF *)
definition ROLE_OF :: "(string, slot_role) dict" where
  "ROLE_OF =
    [(''monthly_price'', Recurring), (''term_months'', Recurring), (''fee'', OneTime),
     (''fees_none'', OneTime), (''credit'', CreditRole), (''applied_change'', ChangeRole),
     (''changes_none'', ChangeRole), (''feature'', FeatureRole), (''expires'', ExpiryRole)]"

definition slot_kind :: "readback_slot \<Rightarrow> string" where
  "slot_kind s = before (CHR '':'') (rs_field s)"

definition role_fits :: "readback_slot \<Rightarrow> bool" where
  "role_fits s \<longleftrightarrow> dget ROLE_OF (slot_kind s) = Some (rs_role s)"

text \<open>The value a slot is compared by: the day of an expiry, else the slot's value.\<close>

(* guard/readback.py 322-326 _key *)
definition slot_key :: "lexical \<Rightarrow> readback_slot \<Rightarrow> string" where
  "slot_key lx s =
     (if rs_field s \<noteq> ''expires'' \<or> rs_value s = ''none'' then rs_value s
      else case lx_day lx (rs_value s) of Some d \<Rightarrow> d | None \<Rightarrow> ''date?slot'')"

section \<open>One slot\<close>

definition confirmed_from :: "string \<Rightarrow> statement list \<Rightarrow> nat \<Rightarrow> bool" where
  "confirmed_from want sts asked_at \<longleftrightarrow>
     (let later = filter (\<lambda>x. asked_at \<le> st_line x) sts;
          rest = dropWhile (\<lambda>x. \<not> states_exactly want (st_values x)) later
      in rest \<noteq> [] \<and> list_all (\<lambda>x. states_exactly want (st_values x)) rest)"

definition heard_in :: "lexical \<Rightarrow> readback_slot \<Rightarrow> statement list \<Rightarrow> bool" where
  "heard_in lx s sts \<longleftrightarrow>
     list_ex (\<lambda>x. Some (st_utt x) = rs_source_utt s \<and> states_exactly (slot_key lx s) (st_values x) \<and>
        (case rs_span s of None \<Rightarrow> True | Some (a, _) \<Rightarrow> st_start x \<le> a \<and> a \<le> st_end x)) sts"

(* guard/readback.py 373-386 _status *)
definition status_from :: "lexical \<Rightarrow> readback_slot \<Rightarrow> statement list \<Rightarrow> nat option \<Rightarrow> slot_status" where
  "status_from lx s sts asked_at =
     (if (case asked_at of None \<Rightarrow> False | Some n \<Rightarrow> confirmed_from (slot_key lx s) sts n)
        then SlotConfirmed
      else if heard_in lx s sts then SlotHeard else SlotUnknown)"

(* guard/readback.py 358-370 slot_status *)
definition slot_status ::
  "lexical \<Rightarrow> readback_slot \<Rightarrow> line list \<Rightarrow> nat option \<Rightarrow> (string, string) dict \<Rightarrow> slot_status"
where
  "slot_status lx s lines asked_at others =
     (if \<not> role_fits s then SlotUnknown
      else status_from lx s (lx_states lx (rs_field s) lines others) asked_at)"

section \<open>The window of all slots\<close>

definition offer_fields :: "offer_public \<Rightarrow> string list" where
  "offer_fields off = map rs_field (o_slots off)"

definition offer_kinds :: "offer_public \<Rightarrow> string list" where
  "offer_kinds off = map slot_kind (o_slots off)"

(* guard/readback.py 389-395 _implied *)
definition implied :: "offer_public \<Rightarrow> (string, string) dict" where
  "implied off =
     map (\<lambda>(f, k). (f, ''false''))
       (filter (\<lambda>(f, k). k \<in> set (offer_kinds off) \<and> f \<notin> set (offer_fields off))
         [(''fees_none'', ''fee''), (''changes_none'', ''applied_change'')])"

(* guard/readback.py 401-408 _theirs *)
definition theirs :: "lexical \<Rightarrow> string \<Rightarrow> string list \<Rightarrow> offer_public list \<Rightarrow> bool" where
  "theirs lx f vs rivals \<longleftrightarrow>
     (if length (fromkeys vs) \<noteq> 1 \<or> \<not> (f \<in> {''monthly_price'', ''term_months''} \<or> starts_with ''fee:'' f)
      then False
      else list_ex (\<lambda>o'. list_ex (\<lambda>s. rs_field s = f \<and> slot_key lx s = hd vs) (o_slots o')) rivals)"

(* guard/readback.py 411-415 Ask *)
record ask =
  ask_at :: nat
  ask_terms :: "(string, string) dict"

(* guard/readback.py 418-421 _unchanged *)
definition unchanged :: "ask \<Rightarrow> offer_public \<Rightarrow> bool" where
  "unchanged a off \<longleftrightarrow>
     list_all (\<lambda>s. case dget (ask_terms a) (rs_field s) of None \<Rightarrow> True | Some v \<Rightarrow> v = rs_value s)
       (o_slots off)"

(* guard/readback.py 424-428 _mine *)
definition mine :: "lexical \<Rightarrow> string \<Rightarrow> statement list \<Rightarrow> string \<Rightarrow> offer_public list \<Rightarrow> statement list" where
  "mine lx want sts f rivals =
     filter (\<lambda>x. states_exactly want (st_values x) \<or> \<not> theirs lx f (st_values x) rivals) sts"

definition since :: "nat \<Rightarrow> statement list \<Rightarrow> statement list" where
  "since n xs = filter (\<lambda>x. n \<le> st_line x) xs"

definition until :: "nat \<Rightarrow> statement list \<Rightarrow> statement list" where
  "until n xs = filter (\<lambda>x. st_line x < n) xs"

definition max_line :: "nat list \<Rightarrow> nat" where
  "max_line ns = foldr max ns 0"

(* guard/readback.py 431-453 _anchors *)
definition anchors ::
  "nat \<Rightarrow> (string \<times> statement list \<times> statement list) list \<Rightarrow> (string \<times> statement list) list \<Rightarrow> bool"
where
  "anchors n slots flags \<longleftrightarrow>
     (let after = map (\<lambda>(_, s, _). since n s) slots in
      if after = [] \<or> list_ex (\<lambda>xs. xs = []) after then False
      else
        let top = max_line (map (\<lambda>xs. st_line (hd xs)) after) in
        list_all (\<lambda>(want, s, m).
            list_all (\<lambda>x. states_exactly want (st_values x)) (since n s) \<and>
            (until n m = [] \<or> states_exactly want (st_values (last (until n m)))) \<and>
            top \<le> st_line (last (since n s))) slots \<and>
        list_all (\<lambda>(want, s). list_all (\<lambda>x. states_exactly want (st_values x)) (since n s)) flags)"

section \<open>The offer\<close>

(* guard/readback.py 511-522 missing_required *)
definition missing_required :: "offer_public \<Rightarrow> string list" where
  "missing_required off =
     filter (\<lambda>f. f \<notin> set (offer_fields off)) [''monthly_price'', ''term_months''] @
     (if ''fee'' \<notin> set (offer_kinds off) \<and> ''fees_none'' \<notin> set (offer_fields off)
      then [''fee:*|fees_none''] else []) @
     (if ''applied_change'' \<notin> set (offer_kinds off) \<and> ''changes_none'' \<notin> set (offer_fields off)
      then [''applied_change:*|changes_none''] else [])"

definition others_of :: "offer_public \<Rightarrow> readback_slot \<Rightarrow> (string, string) dict" where
  "others_of off s =
     foldl (\<lambda>d x. dput (rs_field x) (rs_value x) d) []
       (filter (\<lambda>x. slot_kind x = slot_kind s \<and> rs_field x \<noteq> rs_field s) (o_slots off))"

definition window ::
  "lexical \<Rightarrow> offer_public \<Rightarrow> line list \<Rightarrow> ask list \<Rightarrow> offer_public list \<Rightarrow> bool"
where
  "window lx off lines asks rivals \<longleftrightarrow>
     (let slots = map (\<lambda>s. let x = lx_states lx (rs_field s) lines (others_of off s) in
                        (slot_key lx s, x, mine lx (slot_key lx s) x (rs_field s) rivals)) (o_slots off);
          imp = map (\<lambda>(f, v). (v, lx_states lx f lines [])) (implied off)
      in list_all role_fits (o_slots off) \<and> missing_required off = [] \<and>
         list_ex (\<lambda>a. unchanged a off \<and> anchors (ask_at a) slots imp) asks)"

(* guard/readback.py 456-492 slot_statuses *)
definition slot_statuses ::
  "lexical \<Rightarrow> offer_public \<Rightarrow> line list \<Rightarrow> nat option \<Rightarrow> ask list \<Rightarrow> offer_public list \<Rightarrow>
   (string, slot_status) dict"
where
  "slot_statuses lx off lines asked_at asks rivals =
     foldl (\<lambda>d s. dput (rs_field s)
         (if \<not> role_fits s then SlotUnknown
          else if window lx off lines asks rivals then SlotConfirmed
          else status_from lx s (lx_states lx (rs_field s) lines (others_of off s)) asked_at) d)
       [] (o_slots off)"

(* guard/readback.py 495-508 readback_update *)
definition readback_update ::
  "(string \<Rightarrow> string) \<Rightarrow> (string \<Rightarrow> datetime option) \<Rightarrow> lexical \<Rightarrow> offer_public \<Rightarrow> line list \<Rightarrow>
   nat option \<Rightarrow> ask list \<Rightarrow> offer_public list \<Rightarrow> readback_payload outcome"
where
  "readback_update sha from_iso lx off lines asked_at asks rivals =
     and_then (offer_terms_hash sha from_iso off) (\<lambda>h.
       Inr \<lparr>rp_offer_ref = o_ref off, rp_revision = o_revision off,
            rp_slot_statuses = slot_statuses lx off lines asked_at asks rivals,
            rp_terms_hash = h\<rparr>)"

(* guard/readback.py 525-531 readback_status *)
definition readback_confirmed :: "offer_public \<Rightarrow> bool" where
  "readback_confirmed off \<longleftrightarrow>
     list_all (\<lambda>s. rs_status s = SlotConfirmed) (o_slots off) \<and>
     distinct (offer_fields off) \<and> missing_required off = []"

section \<open>The text of the terms\<close>

(* guard/readback.py 534-541 _spoken *)
definition spoken :: "readback_slot \<Rightarrow> string" where
  "spoken s =
     (if rs_unit s = UsdMinor \<and> isdigit (rs_value s) then
        (let n = int_of_digits (rs_value s) in ''$'' @ dec_int (n div 100) @ ''.'' @ pad2 (n mod 100))
      else if rs_unit s = Months then rs_value s @ '' months''
      else if rs_field s = ''expires'' \<and> rs_value s = ''none'' then ''no expiry'' else rs_value s)"

definition plain_field :: "string \<Rightarrow> string" where
  "plain_field f = map (\<lambda>c. if c = CHR ''_'' \<or> c = CHR '':'' then CHR '' '' else c) f"

(* guard/readback.py 544-549 readback_text *)
definition readback_text :: "offer_public \<Rightarrow> string" where
  "readback_text off =
     join ''; '' (map (\<lambda>s. plain_field (rs_field s) @ '' '' @ spoken s) (o_slots off))"

end
