(* ===== verification/Authorize.thy ===== *)
theory Authorize
  imports Mandate Readback Status Capability Events
begin

text \<open>
  \<open>guard/authorize.py\<close>: the rules. Each is a pure check of the blackboard that returns the
  events for the guard to emit, or the reason of a denial. Since reading the terms may raise
  (\<open>Terms_Facts\<close>), the rules that read them are computations that may raise.
\<close>

(* guard/authorize.py 40-42 Denial *)
datatype 'a ruling = Denial string | Allow 'a

type_synonym effect = "string \<times> payload"

(* guard/authorize.py 35-36 CARD_TTL_MS *)
definition CARD_TTL_MS :: int where "CARD_TTL_MS = 120000"

definition COMMITTED_STATES :: "case_status list" where
  "COMMITTED_STATES = [COMMITTED, EVIDENCE_PENDING]"

(* guard/authorize.py 45-51 CaseRef *)
record case_ref =
  cr_case_id :: string
  cr_account_ref :: string
  cr_principal_ref :: string

(* guard/authorize.py 54-61 _OFFER *)
definition OFFER_REASONS :: "string list" where
  "OFFER_REASONS =
    [''fence_raised'', ''no_such_offer'', ''offer_not_open'', ''offer_expired'',
     ''readback_not_confirmed'', ''policy_violation'']"

(* guard/authorize.py 62-96 REASONS *)
definition REASONS :: "(string, string list) dict" where
  "REASONS =
    [(''request_approval'', OFFER_REASONS @ [''approval_pending'']),
     (''accept_offer'',
       [''already_committed'', ''case_closed'', ''not_in_call''] @ OFFER_REASONS @
       [''already_accepted'', ''approval_denied'', ''approval_stale_epoch'', ''mandate_stale_epoch'',
        ''mandate_expired'', ''approval_expired'', ''outside_mandate'', ''not_authorized'',
        ''already_authorized'', ''accept_in_flight'']),
     (''decline_offer'', [''no_such_offer'', ''offer_not_open'']),
     (''share_fact'', [''protected'', ''not_shareable'']),
     (''decide_approval'',
       [''already_decided'', ''no_pending_card'', ''subject_hash_mismatch'', ''stale_epoch'',
        ''card_expired'', ''card_superseded'']),
     (''decide_mandate'',
       [''already_decided'', ''no_proposal'', ''subject_hash_mismatch'', ''stale_epoch''])]"

text \<open>The functions outside the guard's own rules: SHA-256 and the reader of ISO times.\<close>

record externals =
  or_sha :: "string \<Rightarrow> string"
  or_iso :: "string \<Rightarrow> datetime option"

text \<open>\<open>str(offer.terms_hash)\<close>.\<close>

definition hash_text :: "string option \<Rightarrow> string" where
  "hash_text h = (case h of None \<Rightarrow> ''None'' | Some s \<Rightarrow> s)"

section \<open>An open offer\<close>

definition terms_bound :: "externals \<Rightarrow> offer_public \<Rightarrow> terms \<Rightarrow> bool outcome" where
  "terms_bound oc off t =
     and_then (terms_hash (or_sha oc) t) (\<lambda>h. Inr (o_terms_hash off = Some h))"

(* guard/authorize.py 105-124 open_offer *)
definition open_offer ::
  "externals \<Rightarrow> offer_public option \<Rightarrow> mandate option \<Rightarrow> int \<Rightarrow> bool \<Rightarrow> (offer_public \<times> terms) ruling outcome"
where
  "open_offer oc offer m t_ms fenced =
     (if fenced then Inr (Denial ''fence_raised'')
      else case offer of
        None \<Rightarrow> Inr (Denial ''no_such_offer'')
      | Some off \<Rightarrow>
          if o_status off \<noteq> OfferOpen then Inr (Denial ''offer_not_open'')
          else if ends_by (o_expires_ms off) t_ms then Inr (Denial ''offer_expired'')
          else
            and_then (offer_terms (or_iso oc) off) (\<lambda>terms.
              case terms of
                None \<Rightarrow> Inr (Denial ''readback_not_confirmed'')
              | Some t \<Rightarrow>
                  and_then (terms_bound oc off t) (\<lambda>bound.
                    if \<not> bound \<or> \<not> readback_confirmed off
                      then Inr (Denial ''readback_not_confirmed'')
                    else if hard_violations t m \<noteq> [] then Inr (Denial ''policy_violation'')
                    else Inr (Allow (off, t)))))"

(* guard/authorize.py 99-102 _open_offer *)
definition open_offer_at :: "externals \<Rightarrow> blackboard \<Rightarrow> string \<Rightarrow> (offer_public \<times> terms) ruling outcome" where
  "open_offer_at oc bb ref =
     open_offer oc (dget (offers bb) ref) (mandate_of bb) (bb_t_ms bb) (bb_fences bb \<noteq> [])"

section \<open>Cards\<close>

(* guard/authorize.py 172-178 _current *)
definition current_of :: "approval_card option \<Rightarrow> offer_public option \<Rightarrow> approval_card option" where
  "current_of pend offer =
     (case (pend, offer) of
        (Some c, Some off) \<Rightarrow>
          if o_revision off = card_revision c \<and> o_terms_hash off = Some (card_terms_hash c)
          then Some c else None
      | _ \<Rightarrow> None)"

definition offer_of_card :: "blackboard \<Rightarrow> approval_card option \<Rightarrow> offer_public option" where
  "offer_of_card bb pend = Option.bind pend (\<lambda>c. dget (offers bb) (card_offer_ref c))"

(* guard/authorize.py 165-169 current_card *)
definition current_card :: "blackboard \<Rightarrow> approval_card option" where
  "current_card bb = current_of (pending_card bb) (offer_of_card bb (pending_card bb))"

(* guard/authorize.py 181-189 card_blocks *)
definition card_blocks :: "approval_card option \<Rightarrow> offer_public option \<Rightarrow> int \<Rightarrow> int \<Rightarrow> bool" where
  "card_blocks pend offer epoch t_ms =
     (case current_of pend offer of
        None \<Rightarrow> False
      | Some c \<Rightarrow> card_epoch c = epoch \<and> t_ms < card_expires_ms c)"

definition approval_stem :: "offer_public \<Rightarrow> int \<Rightarrow> string" where
  "approval_stem off epoch =
     ''apr-'' @ o_ref off @ ''-r'' @ dec_int (o_revision off) @ ''-e'' @ dec_int epoch @ ''-''"

definition new_card :: "blackboard \<Rightarrow> offer_public \<Rightarrow> case_ref \<Rightarrow> approval_card" where
  "new_card bb off case' =
     (let epoch = bb_epoch bb; stem = approval_stem off epoch;
          n = length (filter (starts_with stem) (dkeys (approvals bb)))
      in \<lparr>card_id = stem @ dec n, card_offer_ref = o_ref off, card_revision = o_revision off,
          card_terms_hash = hash_text (o_terms_hash off), card_readback_text = readback_text off,
          card_epoch = epoch,
          card_expires_ms = min_present (bb_t_ms bb + CARD_TTL_MS) [o_expires_ms off],
          card_binding =
            \<lparr>b_offer_ref = o_ref off, b_revision = o_revision off, b_account_ref = cr_account_ref case',
             b_principal_ref = cr_principal_ref case', b_purpose = ''accept_offer'',
             b_authority_epoch = epoch\<rparr>\<rparr>)"

(* guard/authorize.py 136-162 request_approval *)
definition request_open :: "blackboard \<Rightarrow> case_ref \<Rightarrow> offer_public \<Rightarrow> effect list ruling outcome" where
  "request_open bb case' off =
     (if card_blocks (pending_card bb) (offer_of_card bb (pending_card bb)) (bb_epoch bb) (bb_t_ms bb)
        then Inr (Denial ''approval_pending'')
      else
        let c = new_card bb off case' in
        if card_valid c then Inr (Allow [(''approval.requested'', PCard c)])
        else Inl (ValidationError ''ApprovalCard''))"

(* guard/authorize.py 127-135 request_approval *)
definition request_approval :: "externals \<Rightarrow> blackboard \<Rightarrow> string \<Rightarrow> case_ref \<Rightarrow> effect list ruling outcome" where
  "request_approval oc bb ref case' =
     and_then (open_offer_at oc bb ref) (\<lambda>got. case got of
        Denial why \<Rightarrow> Inr (Denial why)
      | Allow (off, _) \<Rightarrow> request_open bb case' off)"

section \<open>Grants and the accept\<close>

datatype grant = ByMandate mandate | ByApproval approval

definition approvals_for :: "blackboard \<Rightarrow> offer_public \<Rightarrow> approval list" where
  "approvals_for bb off = filter (\<lambda>a. o_terms_hash off = Some (a_terms_hash a)) (dvals (approvals bb))"

definition approvals_now :: "blackboard \<Rightarrow> offer_public \<Rightarrow> approval list" where
  "approvals_now bb off = filter (\<lambda>a. a_epoch a = bb_epoch bb) (approvals_for bb off)"

definition live_approval :: "blackboard \<Rightarrow> approval \<Rightarrow> bool" where
  "live_approval bb a = (case a_expires_ms a of None \<Rightarrow> False | Some x \<Rightarrow> bb_t_ms bb < x)"

definition or_default :: "string option \<Rightarrow> string \<Rightarrow> string" where
  "or_default x d = (case x of None \<Rightarrow> d | Some s \<Rightarrow> s)"

(* guard/authorize.py 192-212 _grant *)
definition grant_for :: "blackboard \<Rightarrow> offer_public \<Rightarrow> terms \<Rightarrow> grant ruling" where
  "grant_for bb off t =
     (let now = approvals_now bb off; why = mandate_gap bb t in
      if list_ex (\<lambda>a. a_decision a = Denied) now then Denial ''approval_denied''
      else case (mandate_of bb, why, released_accept bb None) of
        (Some m, None, False) \<Rightarrow> Allow (ByMandate m)
      | _ \<Rightarrow>
          (case filter (live_approval bb) now of
             a # _ \<Rightarrow> Allow (ByApproval a)
           | [] \<Rightarrow>
               if now \<noteq> [] then Denial ''approval_expired''
               else if approvals_for bb off \<noteq> [] then Denial ''approval_stale_epoch''
               else Denial (or_default why ''not_authorized'')))"

definition grant_id :: "grant \<Rightarrow> string" where
  "grant_id g = (case g of ByMandate m \<Rightarrow> m_hash m | ByApproval a \<Rightarrow> a_id a)"

definition grant_expiry :: "grant \<Rightarrow> int option" where
  "grant_expiry g = (case g of ByMandate m \<Rightarrow> m_expires_ms m | ByApproval a \<Rightarrow> a_expires_ms a)"

definition accept_text :: "offer_public \<Rightarrow> string" where
  "accept_text off = ''Yes, we accept these terms: '' @ readback_text off @ ''.''"

definition accept_cap :: "externals \<Rightarrow> blackboard \<Rightarrow> string \<Rightarrow> case_ref \<Rightarrow> offer_public \<Rightarrow> grant \<Rightarrow> capability" where
  "accept_cap oc bb ref case' off g =
     (let th = hash_text (o_terms_hash off);
          bid = business_action_id (or_sha oc) (cr_case_id case') AcceptOffer ref (o_revision off) th (grant_id g)
      in mint bb bid AcceptOffer th
           (min_present (bb_t_ms bb + CAP_TTL_MS) [grant_expiry g, o_expires_ms off]))"

(* guard/authorize.py 229-252 accept_offer *)
definition accept_open ::
  "externals \<Rightarrow> blackboard \<Rightarrow> string \<Rightarrow> case_ref \<Rightarrow> offer_public \<Rightarrow> terms \<Rightarrow> effect list ruling"
where
  "accept_open oc bb ref case' off t =
     (if released_accept bb (o_terms_hash off) then Denial ''already_accepted''
      else case grant_for bb off t of
        Denial why \<Rightarrow> Denial why
      | Allow g \<Rightarrow>
          let cap = accept_cap oc bb ref case' off g in
          if list_ex (\<lambda>c. cap_bid c = cap_bid cap) (dvals (bb_capabilities bb))
            then Denial ''already_authorized''
          else if accept_in_flight bb then Denial ''accept_in_flight''
          else Allow
            [(''action.authorized'', PAuthorized AcceptOffer cap),
             (''speak.verbatim'',
              PVerbatim ''cp'' ''accept'' (accept_text off) (Some (cap_id cap)) None)])"

(* guard/authorize.py 215-229 accept_offer *)
definition accept_offer :: "externals \<Rightarrow> blackboard \<Rightarrow> string \<Rightarrow> case_ref \<Rightarrow> effect list ruling outcome" where
  "accept_offer oc bb ref case' =
     (if status_of bb \<in> set COMMITTED_STATES then Inr (Denial ''already_committed'')
      else if status_of bb \<in> set TERMINAL then Inr (Denial ''case_closed'')
      else if status_of bb \<noteq> IN_CALL then Inr (Denial ''not_in_call'')
      else
        and_then (open_offer_at oc bb ref) (\<lambda>got. case got of
          Denial why \<Rightarrow> Inr (Denial why)
        | Allow (off, t) \<Rightarrow> Inr (accept_open oc bb ref case' off t)))"

(* guard/authorize.py 255-265 decline_offer *)
definition decline_offer :: "blackboard \<Rightarrow> string \<Rightarrow> effect list ruling" where
  "decline_offer bb ref =
     (case dget (offers bb) ref of
        None \<Rightarrow> Denial ''no_such_offer''
      | Some off \<Rightarrow>
          if o_status off \<noteq> OfferOpen then Denial ''offer_not_open''
          else Allow [(''speak.verbatim'',
            PVerbatim ''cp'' ''decline'' ''No, thank you: we will not take that offer.'' None (Some ref))])"

(* guard/authorize.py 268-272 share_fact *)
definition share_fact :: "blackboard \<Rightarrow> string \<Rightarrow> string list \<Rightarrow> string option" where
  "share_fact bb key shareable =
     (if (case dget (priv_case_facts (bb_private bb)) key of None \<Rightarrow> False | Some f \<Rightarrow> cf_protected f)
        then Some ''protected''
      else if key \<in> set shareable then None else Some ''not_shareable'')"

section \<open>Decisions\<close>

(* guard/authorize.py 278-290 decide *)
definition decide_mandate_post :: "blackboard \<Rightarrow> approval_post \<Rightarrow> approver \<Rightarrow> effect ruling" where
  "decide_mandate_post bb p who =
     (case mandate_of bb of
        None \<Rightarrow> Denial ''no_proposal''
      | Some m \<Rightarrow>
          if m_id m = ap_subject_id p \<and> m_status m \<noteq> MProposed then Denial ''already_decided''
          else if m_id m \<noteq> ap_subject_id p \<or> m_status m \<noteq> MProposed then Denial ''no_proposal''
          else if ap_subject_hash p \<noteq> m_hash m then Denial ''subject_hash_mismatch''
          else if \<not> (ap_epoch p = m_epoch m \<and> m_epoch m = bb_epoch bb) then Denial ''stale_epoch''
          else Allow (''mandate.decided'',
            PMandateDecided \<lparr>md_mandate_id = m_id m, md_mandate_hash = m_hash m,
              md_decision = ap_decision p, md_by = who\<rparr>))"

(* guard/authorize.py 291-305 decide *)
definition decide_approval_post :: "blackboard \<Rightarrow> approval_post \<Rightarrow> approver \<Rightarrow> effect ruling" where
  "decide_approval_post bb p who =
     (if ap_subject_id p \<in> set (dkeys (approvals bb)) then Denial ''already_decided''
      else case pending_card bb of
        None \<Rightarrow> Denial ''no_pending_card''
      | Some c \<Rightarrow>
          if card_id c \<noteq> ap_subject_id p then Denial ''no_pending_card''
          else if current_card bb = None then Denial ''card_superseded''
          else if ap_subject_hash p \<noteq> card_terms_hash c then Denial ''subject_hash_mismatch''
          else if \<not> (ap_epoch p = card_epoch c \<and> card_epoch c = bb_epoch bb) then Denial ''stale_epoch''
          else if card_expires_ms c \<le> bb_t_ms bb then Denial ''card_expired''
          else Allow (''approval.decided'',
            PApprovalDecided \<lparr>ad_approval_id = card_id c, ad_decision = ap_decision p, ad_by = who\<rparr>))"

(* guard/authorize.py 275-277 decide *)
definition decide :: "blackboard \<Rightarrow> approval_post \<Rightarrow> approver \<Rightarrow> effect ruling" where
  "decide bb p who =
     (case ap_subject p of
        MandateSubject \<Rightarrow> decide_mandate_post bb p who
      | ApprovalSubject \<Rightarrow> decide_approval_post bb p who)"

end
