(* ===== verification/Authorize_Facts.thy ===== *)
theory Authorize_Facts
  imports Authorize Session_Facts
begin

text \<open>
  What the rules of \<open>guard/authorize.py\<close> allow, as the exact condition of each, and their
  agreement with the fold: an event a rule returns is one the fold accepts.
\<close>

section \<open>The offer rule\<close>

text \<open>An offer the guard may act on, and the terms it reads from it.\<close>

definition actionable :: "externals \<Rightarrow> blackboard \<Rightarrow> string \<Rightarrow> offer_public \<Rightarrow> terms \<Rightarrow> bool" where
  "actionable oc bb ref off t \<longleftrightarrow>
     bb_fences bb = [] \<and> dget (offers bb) ref = Some off \<and> o_status off = OfferOpen \<and>
     \<not> ends_by (o_expires_ms off) (bb_t_ms bb) \<and> offer_terms (or_iso oc) off = Inr (Some t) \<and>
     (\<exists>h. terms_hash (or_sha oc) t = Inr h \<and> o_terms_hash off = Some h) \<and>
     readback_confirmed off \<and> hard_violations t (mandate_of bb) = []"

lemma terms_bound_iff:
  "terms_bound oc off t = Inr b \<longleftrightarrow> (\<exists>h. terms_hash (or_sha oc) t = Inr h \<and> b = (o_terms_hash off = Some h))"
  by (auto simp: terms_bound_def outcome_simps)

definition when_terms ::
  "terms option outcome \<Rightarrow> string \<Rightarrow> (terms \<Rightarrow> 'a ruling outcome) \<Rightarrow> 'a ruling outcome"
where
  "when_terms x why f =
     (case x of Inl e \<Rightarrow> Inl e | Inr None \<Rightarrow> Inr (Denial why) | Inr (Some t) \<Rightarrow> f t)"

lemma when_terms_eq:
  "and_then x (\<lambda>y. case y of None \<Rightarrow> Inr (Denial why) | Some t \<Rightarrow> f t) = when_terms x why f"
  by (cases x) (simp_all add: when_terms_def split: option.split)

lemma when_terms_Allow:
  "when_terms x why f = Inr (Allow z) \<longleftrightarrow> (\<exists>t. x = Inr (Some t) \<and> f t = Inr (Allow z))"
  by (simp add: when_terms_def split: sum.split option.split)

lemma when_terms_Denial:
  "when_terms x why f = Inr (Denial w) \<longleftrightarrow>
     x = Inr None \<and> w = why \<or> (\<exists>t. x = Inr (Some t) \<and> f t = Inr (Denial w))"
  by (auto simp: when_terms_def split: sum.split option.split)

lemma if_Denial_Allow:
  "(if c then Inr (Denial why) else m) = Inr (Allow z) \<longleftrightarrow> \<not> c \<and> m = Inr (Allow z)"
  by simp

lemma open_offer_Allow:
  "open_offer_at oc bb ref = Inr (Allow (off, t)) \<longleftrightarrow> actionable oc bb ref off t"
proof (cases "dget (offers bb) ref")
  case None
  then show ?thesis by (simp add: open_offer_at_def open_offer_def actionable_def)
next
  case (Some o')
  then have "open_offer_at oc bb ref = Inr (Allow (off, t)) \<longleftrightarrow>
      bb_fences bb = [] \<and> o_status o' = OfferOpen \<and> \<not> ends_by (o_expires_ms o') (bb_t_ms bb) \<and>
      (\<exists>u. offer_terms (or_iso oc) o' = Inr (Some u) \<and> terms_bound oc o' u = Inr True \<and>
        readback_confirmed o' \<and> hard_violations u (mandate_of bb) = [] \<and> (o', u) = (off, t))"
    by (simp only: open_offer_at_def open_offer_def option.case if_Denial_Allow when_terms_eq when_terms_Allow
        and_then_eq_Inr sum.inject ruling.inject simp_thms de_Morgan_disj ex_simps conj_assoc ex_bool_eq)
  then show ?thesis
    unfolding actionable_def Some terms_bound_iff by (simp only: option.inject prod.inject) blast
qed

lemma if_Denial_Denial:
  "(if c then Inr (Denial why) else m) = Inr (Denial w) \<longleftrightarrow> c \<and> w = why \<or> \<not> c \<and> m = Inr (Denial w)"
  by auto

lemma open_offer_Denial:
  "open_offer_at oc bb ref = Inr (Denial why) \<Longrightarrow> why \<in> set OFFER_REASONS"
  by (cases "dget (offers bb) ref")
     (auto simp: open_offer_at_def open_offer_def OFFER_REASONS_def when_terms_eq when_terms_Denial
        and_then_eq_Inr if_Denial_Denial)

text \<open>The bound terms hash of an actionable offer, as text.\<close>

lemma actionable_hash:
  assumes "actionable oc bb ref off t"
  shows "o_terms_hash off = Some (hash_text (o_terms_hash off))"
  using assms by (auto simp: actionable_def hash_text_def)

section \<open>The grant\<close>

text \<open>The terms are covered by a mandate, and nothing was released yet.\<close>

definition covered :: "blackboard \<Rightarrow> terms \<Rightarrow> mandate \<Rightarrow> bool" where
  "covered bb t m \<longleftrightarrow>
     mandate_of bb = Some m \<and> m_status m = MGranted \<and> m_epoch m = bb_epoch bb \<and>
     \<not> ends_by (m_expires_ms m) (bb_t_ms bb) \<and> within_bounds m t \<and> \<not> released_accept bb None"

definition denied_now :: "blackboard \<Rightarrow> offer_public \<Rightarrow> bool" where
  "denied_now bb off \<longleftrightarrow> (\<exists>a \<in> set (dvals (approvals bb)).
     a_decision a = Denied \<and> a_epoch a = bb_epoch bb \<and> o_terms_hash off = Some (a_terms_hash a))"

definition granted_now :: "blackboard \<Rightarrow> offer_public \<Rightarrow> approval \<Rightarrow> bool" where
  "granted_now bb off a \<longleftrightarrow>
     a \<in> set (dvals (approvals bb)) \<and> a_decision a = Granted \<and> a_epoch a = bb_epoch bb \<and>
     o_terms_hash off = Some (a_terms_hash a) \<and> live_approval bb a"

lemma approvals_now_set:
  "a \<in> set (approvals_now bb off) \<longleftrightarrow>
     a \<in> set (dvals (approvals bb)) \<and> a_epoch a = bb_epoch bb \<and> o_terms_hash off = Some (a_terms_hash a)"
  by (simp only: approvals_now_def approvals_for_def set_filter mem_Collect_eq conj_ac)

lemma denied_now_iff: "denied_now bb off \<longleftrightarrow> list_ex (\<lambda>a. a_decision a = Denied) (approvals_now bb off)"
  unfolding denied_now_def list_ex_iff Bex_def approvals_now_set by blast

lemma grant_for_mandate:
  "grant_for bb off t = Allow (ByMandate m) \<longleftrightarrow> covered bb t m \<and> \<not> denied_now bb off"
proof -
  have "grant_for bb off t = Allow (ByMandate m) \<longleftrightarrow> \<not> denied_now bb off \<and>
      mandate_of bb = Some m \<and> mandate_gap bb t = None \<and> \<not> released_accept bb None"
    by (cases "mandate_of bb"; cases "mandate_gap bb t"; cases "released_accept bb None")
       (simp_all add: grant_for_def denied_now_iff Let_def split: list.split)
  then show ?thesis by (auto simp: covered_def mandate_gap_None)
qed

lemma grant_for_approval:
  assumes "grant_for bb off t = Allow (ByApproval a)"
  shows "granted_now bb off a \<and> \<not> denied_now bb off"
proof -
  from assms have no: "\<not> denied_now bb off"
    by (auto simp: grant_for_def denied_now_iff Let_def split: if_splits)
  have "\<exists>rest. filter (live_approval bb) (approvals_now bb off) = a # rest"
    using assms
    by (cases "mandate_of bb"; cases "mandate_gap bb t"; cases "released_accept bb None")
       (auto simp: grant_for_def Let_def split: list.split_asm if_split_asm)
  then have "a \<in> set (filter (live_approval bb) (approvals_now bb off))" by force
  then have a: "a \<in> set (approvals_now bb off)" "live_approval bb a" by simp_all
  with no have "a_decision a = Granted"
    by (cases "a_decision a") (auto simp: denied_now_iff list_ex_iff)
  with a no show ?thesis unfolding granted_now_def approvals_now_set by blast
qed

text \<open>The rule finds a grant exactly when there is one.\<close>

lemma grant_for_exists:
  "(\<exists>g. grant_for bb off t = Allow g) \<longleftrightarrow>
     \<not> denied_now bb off \<and> ((\<exists>m. covered bb t m) \<or> (\<exists>a. granted_now bb off a))"
proof
  assume "\<exists>g. grant_for bb off t = Allow g"
  then obtain g where g: "grant_for bb off t = Allow g" by blast
  show "\<not> denied_now bb off \<and> ((\<exists>m. covered bb t m) \<or> (\<exists>a. granted_now bb off a))"
  proof (cases g)
    case (ByMandate m)
    with g show ?thesis using grant_for_mandate by blast
  next
    case (ByApproval a)
    with g show ?thesis using grant_for_approval by blast
  qed
next
  assume r: "\<not> denied_now bb off \<and> ((\<exists>m. covered bb t m) \<or> (\<exists>a. granted_now bb off a))"
  show "\<exists>g. grant_for bb off t = Allow g"
  proof (cases "\<exists>m. covered bb t m")
    case True
    with r show ?thesis using grant_for_mandate by blast
  next
    case False
    with r obtain a where "granted_now bb off a" by blast
    then have "a \<in> set (approvals_now bb off)" "live_approval bb a"
      by (simp_all only: granted_now_def approvals_now_set)
    then obtain b rest where "filter (live_approval bb) (approvals_now bb off) = b # rest"
      by (cases "filter (live_approval bb) (approvals_now bb off)") (auto simp: filter_empty_conv)
    then show ?thesis using r
      by (cases "mandate_of bb"; cases "mandate_gap bb t"; cases "released_accept bb None")
         (auto simp: grant_for_def denied_now_iff Let_def)
  qed
qed

lemma grant_for_Denial:
  "grant_for bb off t = Denial why \<Longrightarrow>
     why \<in> {''approval_denied'', ''approval_expired'', ''approval_stale_epoch'', ''not_authorized'',
            ''mandate_stale_epoch'', ''mandate_expired'', ''outside_mandate''}"
proof -
  assume d: "grant_for bb off t = Denial why"
  have gap: "mandate_gap bb t = Some w \<Longrightarrow>
      w \<in> {''not_authorized'', ''mandate_stale_epoch'', ''mandate_expired'', ''outside_mandate''}" for w
    by (auto simp: mandate_gap_def split: option.split_asm if_split_asm)
  show ?thesis using d gap
    by (cases "mandate_of bb"; cases "mandate_gap bb t"; cases "released_accept bb None")
       (auto simp: grant_for_def Let_def or_default_def split: list.split_asm if_split_asm)
qed

section \<open>The accept\<close>

definition accept_effects ::
  "externals \<Rightarrow> blackboard \<Rightarrow> string \<Rightarrow> case_ref \<Rightarrow> offer_public \<Rightarrow> grant \<Rightarrow> effect list"
where
  "accept_effects oc bb ref case' off g =
     (let cap = accept_cap oc bb ref case' off g in
      [(''action.authorized'', PAuthorized AcceptOffer cap),
       (''speak.verbatim'', PVerbatim ''cp'' ''accept'' (accept_text off) (Some (cap_id cap)) None)])"

definition fresh_action :: "externals \<Rightarrow> blackboard \<Rightarrow> string \<Rightarrow> case_ref \<Rightarrow> offer_public \<Rightarrow> grant \<Rightarrow> bool" where
  "fresh_action oc bb ref case' off g \<longleftrightarrow>
     list_all (\<lambda>c. cap_bid c \<noteq> cap_bid (accept_cap oc bb ref case' off g)) (dvals (bb_capabilities bb))"

lemma after_open_offer_Allow:
  "and_then (open_offer_at oc bb ref)
     (\<lambda>got. case got of Denial why \<Rightarrow> Inr (Denial why) | Allow (off, t) \<Rightarrow> f off t) = Inr (Allow z) \<longleftrightarrow>
   (\<exists>off t. actionable oc bb ref off t \<and> f off t = Inr (Allow z))"
proof (cases "open_offer_at oc bb ref")
  case (Inl e)
  then show ?thesis using open_offer_Allow [of oc bb ref] by auto
next
  case (Inr got)
  show ?thesis
  proof (cases got)
    case (Denial why)
    with Inr show ?thesis using open_offer_Allow [of oc bb ref] by auto
  next
    case (Allow p)
    have "actionable oc bb ref off t \<longleftrightarrow> (off, t) = p" for off t
      using open_offer_Allow [of oc bb ref off t] Inr Allow by auto
    with Inr Allow show ?thesis by (cases p) auto
  qed
qed

lemma grant_case_Allow:
  "(case g of Denial why \<Rightarrow> Denial why | Allow x \<Rightarrow> f x) = Allow z \<longleftrightarrow> (\<exists>x. g = Allow x \<and> f x = Allow z)"
  by (cases g) simp_all

lemma if_Denial_eq_Allow: "(if c then Denial w else r) = Allow x \<longleftrightarrow> \<not> c \<and> r = Allow x"
  by simp

lemma accept_offer_Allow:
  "accept_offer oc bb ref case' = Inr (Allow effs) \<longleftrightarrow>
     status_of bb = IN_CALL \<and>
     (\<exists>off t. actionable oc bb ref off t \<and> \<not> released_accept bb (o_terms_hash off) \<and>
       (\<exists>g. grant_for bb off t = Allow g \<and> fresh_action oc bb ref case' off g \<and>
         \<not> accept_in_flight bb \<and> effs = accept_effects oc bb ref case' off g))"
proof -
  have st: "status_of bb \<notin> set COMMITTED_STATES \<and> status_of bb \<notin> set TERMINAL \<and>
      \<not> status_of bb \<noteq> IN_CALL \<longleftrightarrow> status_of bb = IN_CALL"
    by (auto simp: COMMITTED_STATES_def TERMINAL_def)
  have fresh: "\<not> list_ex (\<lambda>c. cap_bid c = b) (dvals (bb_capabilities bb)) \<longleftrightarrow>
      list_all (\<lambda>c. cap_bid c \<noteq> b) (dvals (bb_capabilities bb))" for b
    by (simp add: list_ex_iff list_all_iff)
  show ?thesis
    unfolding accept_offer_def accept_open_def after_open_offer_Allow grant_case_Allow if_Denial_Allow
      if_Denial_eq_Allow Let_def
      fresh_action_def accept_effects_def fresh sum.inject ruling.inject
    using st by blast
qed

lemma accept_offer_by:
  assumes "accept_offer oc bb ref case' = Inr (Allow effs)"
  obtains off t g where "status_of bb = IN_CALL" "actionable oc bb ref off t"
    "\<not> released_accept bb (o_terms_hash off)" "grant_for bb off t = Allow g"
    "fresh_action oc bb ref case' off g" "\<not> accept_in_flight bb"
    "effs = accept_effects oc bb ref case' off g"
  using assms unfolding accept_offer_Allow by blast

text \<open>The grant a rule found, as the mandate or the approval it is.\<close>

definition backed :: "blackboard \<Rightarrow> offer_public \<Rightarrow> terms \<Rightarrow> grant \<Rightarrow> bool" where
  "backed bb off t g = (case g of ByMandate m \<Rightarrow> covered bb t m | ByApproval a \<Rightarrow> granted_now bb off a)"

lemma grant_backed: "grant_for bb off t = Allow g \<Longrightarrow> backed bb off t g \<and> \<not> denied_now bb off"
  by (cases g) (auto simp: backed_def grant_for_mandate dest: grant_for_approval)

lemma grant_live:
  "backed bb off t g \<Longrightarrow> Some u \<in> set [grant_expiry g] \<Longrightarrow> bb_t_ms bb < u"
  by (cases g) (auto simp: backed_def grant_expiry_def covered_def granted_now_def live_approval_def
      ends_by_def split: option.splits)

lemma accept_cap_simps [simp]:
  "cap_intent (accept_cap oc bb ref c off g) = AcceptOffer"
  "cap_epoch (accept_cap oc bb ref c off g) = bb_epoch bb"
  "cap_consumed (accept_cap oc bb ref c off g) = False"
  "cap_terms_hash (accept_cap oc bb ref c off g) = hash_text (o_terms_hash off)"
  "cap_id (accept_cap oc bb ref c off g) = ''cap-'' @ dec (length (bb_authorizations bb) + 1)"
  "cap_expires_ms (accept_cap oc bb ref c off g) =
     min_present (bb_t_ms bb + CAP_TTL_MS) [grant_expiry g, o_expires_ms off]"
  by (simp_all add: accept_cap_def mint_def Let_def)

text \<open>
  C8. What the guard must see before it authorizes an accept. The case is in the call, no fence
  is up, nothing is in flight, these terms were not accepted before; the offer is open and
  unexpired, its terms are complete, hash to the recorded hash and were read back in every slot,
  and break no hard constraint; the user did not deny these terms in this epoch; and either a
  granted, current, unexpired mandate covers them and nothing was ever released, or a granted
  approval of these terms in this epoch is still live.
\<close>

theorem accept_needs_authority:
  assumes "accept_offer oc bb ref case' = Inr (Allow effs)"
  shows "status_of bb = IN_CALL \<and> \<not> accept_in_flight bb \<and>
    (\<exists>off t. actionable oc bb ref off t \<and> \<not> released_accept bb (o_terms_hash off) \<and>
      \<not> denied_now bb off \<and> ((\<exists>m. covered bb t m) \<or> (\<exists>a. granted_now bb off a)))"
proof -
  from assms obtain off t g where s: "status_of bb = IN_CALL" "actionable oc bb ref off t"
    "\<not> released_accept bb (o_terms_hash off)" "grant_for bb off t = Allow g" "\<not> accept_in_flight bb"
    by (rule accept_offer_by)
  from s(4) grant_for_exists have "\<not> denied_now bb off \<and> ((\<exists>m. covered bb t m) \<or> (\<exists>a. granted_now bb off a))"
    by blast
  with s show ?thesis by blast
qed

definition sample_externals :: externals where
  "sample_externals = \<lparr>or_sha = (\<lambda>_. ''h''), or_iso = iso_extended\<rparr>"

definition sample_bb :: blackboard where
  "sample_bb = initial_blackboard
     \<lparr>bb_t_ms := 100,
      bb_public := initial_public
        \<lparr>pub_status := IN_CALL,
         pub_offers := [(''o1'', (slots_offer sample_slots)\<lparr>o_terms_hash := Some ''h''\<rparr>)]\<rparr>,
      bb_private := initial_private\<lparr>priv_mandate := Some (sample_mandate\<lparr>m_required_features := []\<rparr>)\<rparr>\<rparr>"

definition sample_case :: case_ref where
  "sample_case = \<lparr>cr_case_id = ''c'', cr_account_ref = ''a'', cr_principal_ref = ''p''\<rparr>"

definition allowed :: "'a ruling outcome \<Rightarrow> bool" where
  "allowed r = (case r of Inr (Allow _) \<Rightarrow> True | _ \<Rightarrow> False)"

lemma allowed_iff: "allowed r \<longleftrightarrow> (\<exists>x. r = Inr (Allow x))"
  by (simp add: allowed_def split: sum.split ruling.split)

lemma sample_accept: "allowed (accept_offer sample_externals sample_bb ''o1'' sample_case)"
  by code_simp

theorem accept_needs_authority_witness:
  "\<exists>effs. accept_offer sample_externals sample_bb ''o1'' sample_case = Inr (Allow effs) \<and>
     \<not> accept_in_flight sample_bb"
proof -
  from sample_accept obtain effs where
    "accept_offer sample_externals sample_bb ''o1'' sample_case = Inr (Allow effs)"
    by (auto simp: allowed_iff)
  with accept_needs_authority [OF this] show ?thesis by blast
qed

text \<open>
  The converse: where that authority is present and no earlier capability was minted for the
  same business action, the rule allows the accept. Nothing else stops it.
\<close>

theorem authority_suffices:
  assumes "status_of bb = IN_CALL" "\<not> accept_in_flight bb" "actionable oc bb ref off t"
    "\<not> released_accept bb (o_terms_hash off)" "\<not> denied_now bb off"
    "(\<exists>m. covered bb t m) \<or> (\<exists>a. granted_now bb off a)"
    "\<And>g. backed bb off t g \<Longrightarrow> fresh_action oc bb ref case' off g"
  shows "\<exists>g. backed bb off t g \<and>
    accept_offer oc bb ref case' = Inr (Allow (accept_effects oc bb ref case' off g))"
proof -
  from assms(5,6) grant_for_exists [of bb off t] obtain g where g: "grant_for bb off t = Allow g" by blast
  with grant_backed have b: "backed bb off t g" by blast
  from assms(1-4) g assms(7) [OF b]
  have "accept_offer oc bb ref case' = Inr (Allow (accept_effects oc bb ref case' off g))"
    unfolding accept_offer_Allow by blast
  with b show ?thesis by blast
qed

theorem authority_suffices_witness:
  "allowed (accept_offer sample_externals sample_bb ''o1'' sample_case)"
proof -
  from sample_accept obtain effs where
    "accept_offer sample_externals sample_bb ''o1'' sample_case = Inr (Allow effs)"
    by (auto simp: allowed_iff)
  then obtain off t g where a: "actionable sample_externals sample_bb ''o1'' off t"
    and g: "grant_for sample_bb off t = Allow g"
    by (rule accept_offer_by)
  have caps: "bb_capabilities sample_bb = []" and appr: "approvals sample_bb = []"
    and st: "status_of sample_bb = IN_CALL" by code_simp+
  have none: "\<not> released_accept sample_bb h" "\<not> accept_in_flight sample_bb" "\<not> denied_now sample_bb off"
    "\<not> granted_now sample_bb off x" for h x
    by (simp_all add: released_accept_def accept_in_flight_def denied_now_def granted_now_def caps appr)
  have cov: "(\<exists>m. covered sample_bb t m) \<or> (\<exists>x. granted_now sample_bb off x)"
    using g grant_for_exists by blast
  have fresh: "fresh_action sample_externals sample_bb ''o1'' sample_case off g" for g
    by (simp add: fresh_action_def caps)
  from authority_suffices [OF st none(2) a none(1) none(3) cov fresh]
  show ?thesis by (auto simp: allowed_iff)
qed

text \<open>
  The capability an accept is given: of this epoch, unused, for the recorded terms, not yet
  expired, and dead no later than sixty seconds from now, its grant and its offer.
\<close>

theorem accept_capability_bounds:
  assumes "accept_offer oc bb ref case' = Inr (Allow effs)"
  shows "\<exists>off t g cap. dget (offers bb) ref = Some off \<and> backed bb off t g \<and>
    effs = [(''action.authorized'', PAuthorized AcceptOffer cap),
            (''speak.verbatim'', PVerbatim ''cp'' ''accept'' (accept_text off) (Some (cap_id cap)) None)] \<and>
    cap_intent cap = AcceptOffer \<and> cap_epoch cap = bb_epoch bb \<and> \<not> cap_consumed cap \<and>
    o_terms_hash off = Some (cap_terms_hash cap) \<and> bb_t_ms bb < cap_expires_ms cap \<and>
    cap_expires_ms cap \<le> bb_t_ms bb + CAP_TTL_MS \<and>
    (\<forall>u. grant_expiry g = Some u \<longrightarrow> cap_expires_ms cap \<le> u) \<and>
    (\<forall>u. o_expires_ms off = Some u \<longrightarrow> cap_expires_ms cap \<le> u)"
proof -
  from assms obtain off t g where a: "actionable oc bb ref off t" and g: "grant_for bb off t = Allow g"
    and effs: "effs = accept_effects oc bb ref case' off g"
    by (rule accept_offer_by)
  from g grant_backed have b: "backed bb off t g" by blast
  let ?cap = "accept_cap oc bb ref case' off g" and ?us = "[grant_expiry g, o_expires_ms off]"
  have "bb_t_ms bb < u" if "Some u \<in> set ?us" for u
    using that a grant_live [OF b, of u] by (auto simp: actionable_def ends_by_def split: option.splits)
  then have "bb_t_ms bb < cap_expires_ms ?cap"
    unfolding accept_cap_simps min_present_gt by (simp add: CAP_TTL_MS_def)
  moreover have "cap_expires_ms ?cap \<le> bb_t_ms bb + CAP_TTL_MS"
    "\<forall>u. grant_expiry g = Some u \<longrightarrow> cap_expires_ms ?cap \<le> u"
    "\<forall>u. o_expires_ms off = Some u \<longrightarrow> cap_expires_ms ?cap \<le> u"
    unfolding accept_cap_simps by (auto simp only: min_present_le list.set insert_iff intro!: min_present_le_each)
  moreover have "o_terms_hash off = Some (cap_terms_hash ?cap)"
    unfolding accept_cap_simps using a by (rule actionable_hash)
  moreover have "dget (offers bb) ref = Some off" using a by (simp add: actionable_def)
  ultimately show ?thesis using b effs
    by (intro exI [of _ off] exI [of _ t] exI [of _ g] exI [of _ ?cap]) (simp add: accept_effects_def Let_def)
qed

theorem accept_capability_bounds_witness:
  "\<exists>effs cap. accept_offer sample_externals sample_bb ''o1'' sample_case = Inr (Allow effs) \<and>
     (''action.authorized'', PAuthorized AcceptOffer cap) \<in> set effs \<and> cap_expires_ms cap \<le> 60100"
proof -
  from sample_accept obtain effs where e:
    "accept_offer sample_externals sample_bb ''o1'' sample_case = Inr (Allow effs)"
    by (auto simp: allowed_iff)
  have "bb_t_ms sample_bb + CAP_TTL_MS = 60100" by code_simp
  with e accept_capability_bounds [OF e] show ?thesis by auto
qed

end
