(* ===== verification/Guard_Fold.thy ===== *)
theory Guard_Fold
  imports Authorize_Facts
begin

text \<open>
  The guard's rules and the fold agree: what a rule of \<open>guard/authorize.py\<close> returns, the fold
  accepts when the guard emits it on the blackboard the rule read; and every denial carries a
  reason the table \<open>REASONS\<close> lists for its rule.
\<close>

section \<open>An effect as an event\<close>

definition emits :: "event \<Rightarrow> effect \<Rightarrow> bool" where
  "emits e x \<longleftrightarrow> ev_type e = fst x \<and> ev_payload e = snd x"

text \<open>Capability ids as \<open>mint\<close> numbers them: the ids in use are those of lines already written.\<close>

definition cap_ids :: "nat \<Rightarrow> string set" where
  "cap_ids n = (\<lambda>i. ''cap-'' @ dec i) ` {1..n}"

definition numbered :: "blackboard \<Rightarrow> bool" where
  "numbered bb \<longleftrightarrow> set (dkeys (bb_capabilities bb)) \<subseteq> cap_ids (length (bb_authorizations bb))"

definition next_cap_id :: "blackboard \<Rightarrow> string" where
  "next_cap_id bb = ''cap-'' @ dec (length (bb_authorizations bb) + 1)"

lemma next_cap_id_new: "next_cap_id bb \<notin> cap_ids (length (bb_authorizations bb))"
  by (auto simp: cap_ids_def next_cap_id_def dest: dec_inj)

lemma next_cap_id_fresh: "numbered bb \<Longrightarrow> next_cap_id bb \<notin> set (dkeys (bb_capabilities bb))"
  using next_cap_id_new unfolding numbered_def by blast

lemma cap_ids_Suc: "cap_ids (Suc n) = insert (''cap-'' @ dec (Suc n)) (cap_ids n)"
  unfolding cap_ids_def by (simp add: atLeastAtMostSuc_conv)

lemma numbered_more:
  assumes "numbered bb" "bb_authorizations m = bb_authorizations bb @ [a]"
    "bb_capabilities m = dput (next_cap_id bb) c (bb_capabilities bb)"
  shows "numbered m"
proof -
  have "set (dkeys (bb_capabilities m)) = insert (next_cap_id bb) (set (dkeys (bb_capabilities bb)))"
    unfolding assms(3) by (rule dkeys_dput)
  moreover have "cap_ids (length (bb_authorizations m)) =
      insert (next_cap_id bb) (cap_ids (length (bb_authorizations bb)))"
    unfolding assms(2) next_cap_id_def by (simp add: cap_ids_Suc)
  ultimately show ?thesis using assms(1) unfolding numbered_def by blast
qed

lemma apply_event_of:
  "reduce bb e = Inr m \<Longrightarrow> apply_event bb e = Inr (m\<lparr>bb_seq := ev_seq e, bb_t_ms := ev_t_ms e\<rparr>)"
  by (simp add: apply_event_def)

section \<open>Accepting\<close>

lemma offer_with_terms_exists:
  "dget (offers bb) ref = Some off \<Longrightarrow> o_terms_hash off = Some h \<Longrightarrow> offer_with_terms bb h \<noteq> None"
  using find_exists [of "(ref, off)" "offers bb" "\<lambda>(r, off). o_terms_hash off = Some h"]
  by (auto simp: offer_with_terms_def dest: map_of_SomeD)

lemma emits_accept:
  "ev_type e = ''action.authorized'' \<Longrightarrow> ev_payload e = PAuthorized AcceptOffer cap \<Longrightarrow>
   cap_intent cap = AcceptOffer \<Longrightarrow> cap_epoch cap = bb_epoch bb \<Longrightarrow> \<not> cap_consumed cap \<Longrightarrow>
   cap_id cap \<notin> set (dkeys (bb_capabilities bb)) \<Longrightarrow> ev_t_ms e < cap_expires_ms cap \<Longrightarrow>
   \<not> released_accept bb (Some (cap_terms_hash cap)) \<Longrightarrow> \<not> accept_in_flight bb \<Longrightarrow>
   offer_with_terms bb (cap_terms_hash cap) \<noteq> None \<Longrightarrow>
   reduce bb e = Inr (bb\<lparr>bb_authorizations := bb_authorizations bb @ [authorization_for bb AcceptOffer cap],
     bb_capabilities := dput (cap_id cap) cap (bb_capabilities bb)\<rparr>)"
  by (simp add: reduce_authority r_authorized_def)

lemma in_flightI: "dget (bb_capabilities bb) k = Some c \<Longrightarrow> is_flying_accept c \<Longrightarrow> accept_in_flight bb"
  unfolding accept_in_flight_def list_ex_iff by (blast dest: dget_dvals)

text \<open>
  An accept the guard allows is one the fold takes: the authorization is appended with a
  capability id never used before, the accept line finds that capability live, and the ids stay
  numbered, as long as both lines are written before the capability expires.
\<close>

theorem accept_folds:
  assumes "accept_offer oc bb ref case' = Inr (Allow [x, y])" "numbered bb"
    "emits e x" "emits e' y" "ev_t_ms e = bb_t_ms bb"
  shows "\<exists>m m'. apply_event bb e = Inr m \<and> apply_event m e' = Inr m' \<and> numbered m' \<and>
    accept_in_flight m' \<and> next_cap_id bb \<notin> set (dkeys (bb_capabilities bb)) \<and>
    (\<exists>c. dget (bb_capabilities m') (next_cap_id bb) = Some c \<and> is_flying_accept c)"
proof -
  from assms(1) obtain off t g where a: "actionable oc bb ref off t"
    and nr: "\<not> released_accept bb (o_terms_hash off)" and g: "grant_for bb off t = Allow g"
    and nf: "\<not> accept_in_flight bb" and xy: "[x, y] = accept_effects oc bb ref case' off g"
    by (rule accept_offer_by)
  let ?cap = "accept_cap oc bb ref case' off g"
  let ?m = "bb\<lparr>bb_authorizations := bb_authorizations bb @ [authorization_for bb AcceptOffer ?cap],
     bb_capabilities := dput (next_cap_id bb) ?cap (bb_capabilities bb)\<rparr>"
  have id: "cap_id ?cap = next_cap_id bb" by (simp add: next_cap_id_def)
  have h: "o_terms_hash off = Some (cap_terms_hash ?cap)"
    unfolding accept_cap_simps using a by (rule actionable_hash)
  have live: "bb_t_ms bb < cap_expires_ms ?cap"
    unfolding accept_cap_simps min_present_gt
    using a grant_live [OF conjunct1 [OF grant_backed [OF g]]]
    by (auto simp: CAP_TTL_MS_def actionable_def ends_by_def split: option.splits)
  have "offer_with_terms bb (cap_terms_hash ?cap) \<noteq> None"
    using offer_with_terms_exists [OF _ h] a by (auto simp: actionable_def)
  moreover from assms(3,4) xy have e: "ev_type e = ''action.authorized''" "ev_payload e = PAuthorized AcceptOffer ?cap"
    and e': "ev_type e' = ''speak.verbatim''"
      "ev_payload e' = PVerbatim ''cp'' ''accept'' (accept_text off) (Some (next_cap_id bb)) None"
    unfolding accept_effects_def Let_def id emits_def list.inject by simp_all
  ultimately have r: "reduce bb e = Inr ?m"
    using emits_accept [of e ?cap bb] assms(5) nr nf live next_cap_id_fresh [OF assms(2)]
    unfolding id h by (simp del: accept_cap_simps(4-6))
  let ?m1 = "?m\<lparr>bb_seq := ev_seq e, bb_t_ms := ev_t_ms e\<rparr>"
  have "live_cap ?m1 e' = Inr (next_cap_id bb)"
    by (simp add: e' live_cap_def str_of_def dget_dput id del: accept_cap_simps(5))
  then have "reduce ?m1 e' = Inr ?m1"
    by (simp add: e' reduce_authority r_verbatim_def)
  moreover have fl: "is_flying_accept ?cap" by (simp add: is_flying_accept_def)
  then have "accept_in_flight (?m1\<lparr>bb_seq := s, bb_t_ms := u\<rparr>)" for s u
    by (intro in_flightI [of _ "next_cap_id bb" ?cap]) (simp_all add: dget_dput)
  moreover have "numbered (?m1\<lparr>bb_seq := s, bb_t_ms := u\<rparr>)" for s u
    by (rule numbered_more [OF assms(2), of _ "authorization_for bb AcceptOffer ?cap" ?cap]) simp_all
  ultimately show ?thesis
    using apply_event_of [OF r] apply_event_of [of ?m1 e' ?m1] next_cap_id_fresh [OF assms(2)]
    by (simp add: dget_dput fl)
qed

definition plain_event :: "int \<Rightarrow> effect \<Rightarrow> event" where
  "plain_event t x =
     \<lparr>ev_run_id = ''r'', ev_seq = 0, ev_event_id = ''r:0'', ev_t_ms = t, ev_wall = 0,
      ev_wall_offset = Some 0, ev_type = fst x, ev_actor = ''guard'', ev_stream = AgentStream,
      ev_cause_ids = [], ev_epoch = 0, ev_payload = snd x\<rparr>"

lemma emits_plain_event [simp]: "emits (plain_event t x) x" "ev_t_ms (plain_event t x) = t"
  by (simp_all add: emits_def plain_event_def)

theorem accept_folds_witness:
  "\<exists>x m. accept_offer sample_externals sample_bb ''o1'' sample_case = Inr (Allow x) \<and>
     apply_event sample_bb (plain_event 100 (hd x)) = Inr m"
proof -
  from sample_accept obtain effs where e:
    "accept_offer sample_externals sample_bb ''o1'' sample_case = Inr (Allow effs)"
    by (auto simp: allowed_iff)
  then obtain x y where xy: "effs = [x, y]"
    by (rule accept_offer_by) (auto simp: accept_effects_def Let_def)
  have "numbered sample_bb" by (simp add: numbered_def sample_bb_def initial_blackboard_def)
  moreover have "bb_t_ms sample_bb = 100" by code_simp
  ultimately show ?thesis
    using accept_folds [of sample_externals sample_bb "''o1''" sample_case x y "plain_event 100 x" "plain_event 100 y"]
      e xy by auto
qed

section \<open>Cards\<close>

lemma request_approval_Allow:
  "request_approval oc bb ref case' = Inr (Allow effs) \<longleftrightarrow>
     (\<exists>off t. actionable oc bb ref off t \<and>
       \<not> card_blocks (pending_card bb) (offer_of_card bb (pending_card bb)) (bb_epoch bb) (bb_t_ms bb) \<and>
       card_valid (new_card bb off case') \<and>
       effs = [(''approval.requested'', PCard (new_card bb off case'))])"
proof -
  have v: "(if card_valid c then Inr (Allow z) else Inl err) = Inr (Allow effs) \<longleftrightarrow>
      card_valid c \<and> effs = z" for c z and err :: py_error
    by auto
  show ?thesis
    unfolding request_approval_def request_open_def after_open_offer_Allow if_Denial_Allow Let_def v by blast
qed

lemma new_card_simps [simp]:
  "card_offer_ref (new_card bb off c) = o_ref off" "card_revision (new_card bb off c) = o_revision off"
  "card_terms_hash (new_card bb off c) = hash_text (o_terms_hash off)"
  "card_epoch (new_card bb off c) = bb_epoch bb"
  "card_expires_ms (new_card bb off c) = min_present (bb_t_ms bb + CARD_TTL_MS) [o_expires_ms off]"
  by (simp_all add: new_card_def Let_def)

text \<open>
  A card the guard asks for is one the fold takes and the guard then holds to: it becomes the
  pending card, it is current, dated in the future, and a second request before it lapses is
  refused as \<open>approval_pending\<close>.
\<close>

theorem request_folds:
  assumes "request_approval oc bb ref case' = Inr (Allow [x])" "emits e x" "ev_t_ms e = bb_t_ms bb"
    "private_valid (bb_private bb)" "\<And>off. dget (offers bb) ref = Some off \<Longrightarrow> o_ref off = ref"
  shows "\<exists>m c. apply_event bb e = Inr m \<and> pending_card m = Some c \<and> current_card m = Some c \<and>
    bb_t_ms bb < card_expires_ms c \<and> request_approval oc m ref case' = Inr (Denial ''approval_pending'')"
proof -
  from assms(1) obtain off t where a: "actionable oc bb ref off t"
    and v: "card_valid (new_card bb off case')" and x: "x = (''approval.requested'', PCard (new_card bb off case'))"
    unfolding request_approval_Allow by auto
  let ?c = "new_card bb off case'"
  let ?m = "bb\<lparr>bb_private := (bb_private bb)\<lparr>priv_pending_approval := Some ?c\<rparr>,
      bb_seq := ev_seq e, bb_t_ms := ev_t_ms e\<rparr>"
  have off: "dget (offers bb) ref = Some off" and ref: "o_ref off = ref"
    using a assms(5) by (auto simp: actionable_def)
  note h = actionable_hash [OF a]
  have "card_is_current bb ?c"
    using off ref h by (simp add: card_is_current_def)
  moreover have "private_valid ((bb_private bb)\<lparr>priv_pending_approval := Some ?c\<rparr>)"
    using assms(4) by (simp add: private_valid_def)
  ultimately have "reduce bb e = Inr (bb\<lparr>bb_private := (bb_private bb)\<lparr>priv_pending_approval := Some ?c\<rparr>\<rparr>)"
    using assms(2) x v by (simp add: emits_def reduce_authority r_approval_requested_def with_private_def)
  from apply_event_of [OF this] have m: "apply_event bb e = Inr ?m" by simp
  have cur: "current_card ?m = Some ?c"
    using off ref h by (simp add: current_card_def current_of_def offer_of_card_def)
  have live: "bb_t_ms bb < card_expires_ms ?c"
    using a unfolding new_card_simps min_present_gt
    by (auto simp: CARD_TTL_MS_def actionable_def ends_by_def split: option.splits)
  have blocks: "card_blocks (pending_card ?m) (offer_of_card ?m (pending_card ?m)) (bb_epoch ?m) (bb_t_ms ?m)"
    using cur live assms(3) by (simp add: card_blocks_def current_card_def)
  have "actionable oc ?m ref off t"
    using a assms(3) by (simp add: actionable_def)
  then have "request_approval oc ?m ref case' = Inr (Denial ''approval_pending'')"
    using blocks open_offer_Allow [of oc ?m ref off t] by (simp add: request_approval_def request_open_def)
  with m cur live show ?thesis by auto
qed

lemma sample_request: "allowed (request_approval sample_externals sample_bb ''o1'' sample_case)"
proof -
  let ?off = "(slots_offer sample_slots)\<lparr>o_terms_hash := Some ''h''\<rparr>"
  from sample_accept obtain off t where a: "actionable sample_externals sample_bb ''o1'' off t"
    unfolding allowed_iff by (blast elim: accept_offer_by)
  then have off: "off = ?off" by (simp add: actionable_def sample_bb_def)
  have "length (readback_text ?off) \<le> 600" by code_simp
  then have "card_valid (new_card sample_bb off sample_case)"
    by (simp add: off card_valid_def new_card_def Let_def MAX_READBACK_TEXT_def)
  moreover have "pending_card sample_bb = None" by (simp add: sample_bb_def initial_private_def)
  ultimately show ?thesis using a
    unfolding allowed_iff request_approval_Allow by (auto simp: card_blocks_def current_of_def)
qed

theorem request_folds_witness:
  "\<exists>x m c. request_approval sample_externals sample_bb ''o1'' sample_case = Inr (Allow [x]) \<and>
     apply_event sample_bb (plain_event 100 x) = Inr m \<and> current_card m = Some c"
proof -
  from sample_request obtain effs where
    "request_approval sample_externals sample_bb ''o1'' sample_case = Inr (Allow effs)"
    by (auto simp: allowed_iff)
  then obtain x where x: "request_approval sample_externals sample_bb ''o1'' sample_case = Inr (Allow [x])"
    unfolding request_approval_Allow by auto
  have t: "ev_t_ms (plain_event 100 x) = bb_t_ms sample_bb" by (simp add: sample_bb_def)
  have v: "private_valid (bb_private sample_bb)"
    by (simp add: private_valid_def sample_bb_def initial_private_def)
  have "o_ref off = ''o1''" if "dget (offers sample_bb) ''o1'' = Some off" for off
    using that by (auto simp: sample_bb_def slots_offer_def)
  from request_folds [OF x emits_plain_event(1) t v this] x show ?thesis by blast
qed

section \<open>Decisions\<close>

text \<open>The post is one the fold accepts, and its subject is not decided yet.\<close>

definition decidable :: "blackboard \<Rightarrow> approval_post \<Rightarrow> bool" where
  "decidable bb p \<longleftrightarrow>
     post_target bb p = Some (ap_subject_id p, ap_subject_hash p, bb_epoch bb) \<and> ap_epoch p = bb_epoch bb \<and>
     (ap_subject p = ApprovalSubject \<longrightarrow> ap_subject_id p \<notin> set (dkeys (approvals bb)) \<and>
        (\<exists>c. pending_card bb = Some c \<and> card_is_current bb c \<and> bb_t_ms bb < card_expires_ms c))"

definition decision_effect :: "approval_post \<Rightarrow> approver \<Rightarrow> effect" where
  "decision_effect p who = (case ap_subject p of
      ApprovalSubject \<Rightarrow> (''approval.decided'',
        PApprovalDecided \<lparr>ad_approval_id = ap_subject_id p, ad_decision = ap_decision p, ad_by = who\<rparr>)
    | MandateSubject \<Rightarrow> (''mandate.decided'',
        PMandateDecided \<lparr>md_mandate_id = ap_subject_id p, md_mandate_hash = ap_subject_hash p,
          md_decision = ap_decision p, md_by = who\<rparr>))"

lemma current_card_Some:
  "current_card bb = Some c \<longleftrightarrow> pending_card bb = Some c \<and> card_is_current bb c"
proof (cases "pending_card bb")
  case None
  then show ?thesis by (simp add: current_card_def current_of_def)
next
  case (Some d)
  then show ?thesis
    by (cases "dget (offers bb) (card_offer_ref d)")
       (auto simp: current_card_def current_of_def offer_of_card_def card_is_current_def)
qed

lemma current_card_None:
  "pending_card bb = Some c \<Longrightarrow> current_card bb = None \<longleftrightarrow> \<not> card_is_current bb c"
  by (metis current_card_Some option.exhaust option.inject option.distinct(1))

lemma decide_Allow: "decide bb p who = Allow x \<longleftrightarrow> decidable bb p \<and> x = decision_effect p who"
proof (cases "ap_subject p")
  case MandateSubject
  show ?thesis
  proof (cases "mandate_of bb")
    case None
    with MandateSubject show ?thesis
      by (simp add: decide_def decide_mandate_post_def decidable_def post_target_def)
  next
    case (Some m)
    with MandateSubject have "decidable bb p \<longleftrightarrow> m_status m = MProposed \<and> m_id m = ap_subject_id p \<and>
        m_hash m = ap_subject_hash p \<and> m_epoch m = bb_epoch bb \<and> ap_epoch p = bb_epoch bb"
      by (auto simp: decidable_def post_target_def)
    with Some MandateSubject show ?thesis
      unfolding decide_def decide_mandate_post_def decision_effect_def
      by (simp only: subject.case option.case if_Denial_eq_Allow ruling.inject) auto
  qed
next
  case ApprovalSubject
  show ?thesis
  proof (cases "pending_card bb")
    case None
    with ApprovalSubject show ?thesis
      by (simp add: decide_def decide_approval_post_def decidable_def)
  next
    case (Some c)
    with ApprovalSubject have "decidable bb p \<longleftrightarrow> card_id c = ap_subject_id p \<and>
        card_terms_hash c = ap_subject_hash p \<and> card_epoch c = bb_epoch bb \<and> ap_epoch p = bb_epoch bb \<and>
        ap_subject_id p \<notin> set (dkeys (approvals bb)) \<and> card_is_current bb c \<and> bb_t_ms bb < card_expires_ms c"
      by (auto simp: decidable_def post_target_def)
    with ApprovalSubject Some current_card_None [OF Some] show ?thesis
      unfolding decide_def decide_approval_post_def decision_effect_def
      by (simp only: subject.case option.case if_Denial_eq_Allow ruling.inject) auto
  qed
qed

text \<open>
  The endpoint and the fold agree on which posts decide: the guard turns a post into a
  decision exactly when the fold would accept the post, its subject is undecided and, for a card,
  the card is current and unexpired. The decision then repeats the post (\<open>decides\<close>), folds at
  this time, and has the posted effect: the approval is on record under the card's id, or the
  mandate is granted or denied by that approver.
\<close>

theorem decide_folds:
  assumes "decide bb p who = Allow x" "emits e x" "ev_t_ms e = bb_t_ms bb" "private_valid (bb_private bb)"
    "emits post (''approval.post'', PPost p)" "ev_actor post = approver_name who"
  shows "r_post bb post = Inr bb \<and> decides e post \<and> (\<exists>m. apply_event bb e = Inr m \<and>
    (case ap_subject p of
       ApprovalSubject \<Rightarrow> (\<exists>a. dget (approvals m) (ap_subject_id p) = Some a \<and>
         a_decision a = ap_decision p \<and> a_by a = who \<and> a_terms_hash a = ap_subject_hash p \<and> a_epoch a = ap_epoch p)
     | MandateSubject \<Rightarrow> (\<exists>md. mandate_of m = Some md \<and> m_status md = mandate_status_of (ap_decision p) \<and>
         m_decided_by md = Some who \<and> m_hash md = ap_subject_hash p)))"
proof (cases "ap_subject p")
  case ApprovalSubject
  from assms(1) have d: "decidable bb p" and x: "x = decision_effect p who" by (simp_all add: decide_Allow)
  from d ApprovalSubject obtain c where c: "pending_card bb = Some c" "card_is_current bb c"
    "bb_t_ms bb < card_expires_ms c" "card_id c = ap_subject_id p" "card_terms_hash c = ap_subject_hash p"
    "card_epoch c = bb_epoch bb" "ap_epoch p = bb_epoch bb"
    by (auto simp: decidable_def post_target_def)
  have e: "ev_type e = ''approval.decided''"
    "ev_payload e = PApprovalDecided \<lparr>ad_approval_id = ap_subject_id p, ad_decision = ap_decision p, ad_by = who\<rparr>"
    using assms(2) x ApprovalSubject by (simp_all add: emits_def decision_effect_def)
  have "r_post bb post = Inr bb"
    using d assms(5) by (simp add: r_post_def emits_def decidable_def)
  moreover have "decides e post"
    using e assms(5,6) ApprovalSubject by (simp add: decides_def emits_def)
  moreover have "succeeds (reduce bb e)"
    using e c assms(3,4) by (simp add: reduce_authority r_approval_decided_def with_private_def
        private_valid_def succeeds_def)
  ultimately show ?thesis using e c assms(3,4) ApprovalSubject
    by (auto simp: apply_event_def reduce_authority r_approval_decided_def with_private_def
        private_valid_def succeeds_def approval_from_def dget_dput)
next
  case MandateSubject
  from assms(1) have d: "decidable bb p" and x: "x = decision_effect p who" by (simp_all add: decide_Allow)
  from d MandateSubject obtain md where md: "mandate_of bb = Some md" "m_status md = MProposed"
    "m_id md = ap_subject_id p" "m_hash md = ap_subject_hash p" "m_epoch md = bb_epoch bb"
    by (auto simp: decidable_def post_target_def split: option.splits if_splits)
  have e: "ev_type e = ''mandate.decided''"
    "ev_payload e = PMandateDecided \<lparr>md_mandate_id = ap_subject_id p, md_mandate_hash = ap_subject_hash p,
       md_decision = ap_decision p, md_by = who\<rparr>"
    using assms(2) x MandateSubject by (simp_all add: emits_def decision_effect_def)
  have "r_post bb post = Inr bb"
    using d assms(5) by (simp add: r_post_def emits_def decidable_def)
  moreover have "decides e post"
    using e assms(5,6) MandateSubject by (simp add: decides_def emits_def)
  ultimately show ?thesis using e md assms(3,4) MandateSubject
    by (simp add: apply_event_def reduce_authority r_mandate_decided_def with_private_def
        private_valid_def mandate_valid_def)
qed

text \<open>A pending card and a post that grants it.\<close>

definition carded_bb :: blackboard where
  "carded_bb = sample_bb\<lparr>bb_private := (bb_private sample_bb)
     \<lparr>priv_pending_approval := Some (new_card sample_bb ((slots_offer sample_slots)\<lparr>o_terms_hash := Some ''h''\<rparr>) sample_case)\<rparr>\<rparr>"

definition granting_post :: approval_post where
  "granting_post =
     \<lparr>ap_subject = ApprovalSubject, ap_subject_id = ''apr-o1-r1-e0-0'', ap_decision = Granted,
      ap_subject_hash = ''h'', ap_epoch = 0\<rparr>"

lemma sample_decide: "decide carded_bb granting_post Ui = Allow (decision_effect granting_post Ui)"
proof -
  have "(case decide carded_bb granting_post Ui of Allow _ \<Rightarrow> True | Denial _ \<Rightarrow> False)" by code_simp
  then show ?thesis using decide_Allow [of carded_bb granting_post Ui]
    by (cases "decide carded_bb granting_post Ui") auto
qed

theorem decide_folds_witness:
  "\<exists>m. apply_event carded_bb (plain_event 100 (decision_effect granting_post Ui)) = Inr m"
proof -
  let ?e = "plain_event 100 (decision_effect granting_post Ui)"
  let ?post = "(plain_event 90 (''approval.post'', PPost granting_post))\<lparr>ev_actor := ''ui''\<rparr>"
  have "ev_t_ms ?e = bb_t_ms carded_bb" "private_valid (bb_private carded_bb)"
    by (simp_all add: carded_bb_def sample_bb_def private_valid_def initial_private_def)
  moreover have "emits ?post (''approval.post'', PPost granting_post)" "ev_actor ?post = approver_name Ui"
    by (simp_all add: emits_def plain_event_def approver_name_def)
  ultimately show ?thesis
    using decide_folds [OF sample_decide emits_plain_event(1)] by blast
qed

section \<open>Denials\<close>

definition reasons_of :: "string \<Rightarrow> string list" where
  "reasons_of rule = (case dget REASONS rule of None \<Rightarrow> [] | Some ws \<Rightarrow> ws)"

lemma accept_reasons:
  "set (reasons_of ''accept_offer'') =
     {''already_committed'', ''case_closed'', ''not_in_call''} \<union> set OFFER_REASONS \<union>
     {''already_accepted'', ''approval_denied'', ''approval_stale_epoch'', ''mandate_stale_epoch'',
      ''mandate_expired'', ''approval_expired'', ''outside_mandate'', ''not_authorized'',
      ''already_authorized'', ''accept_in_flight''}"
  by (auto simp: reasons_of_def REASONS_def)

lemma after_open_offer_Denial:
  assumes "and_then (open_offer_at oc bb ref)
     (\<lambda>got. case got of Denial why \<Rightarrow> Inr (Denial why) | Allow (off, t) \<Rightarrow> f off t) = Inr (Denial w)"
  shows "w \<in> set OFFER_REASONS \<or> (\<exists>off t. f off t = Inr (Denial w))"
  using assms open_offer_Denial [of oc bb ref]
  by (cases "open_offer_at oc bb ref") (auto split: ruling.split_asm)

lemma accept_open_Denial:
  assumes "accept_open oc bb ref case' off t = Denial why"
  shows "why \<in> set (reasons_of ''accept_offer'')"
  using assms grant_for_Denial [of bb off t]
  unfolding accept_reasons accept_open_def Let_def
  by (auto split: ruling.split_asm if_split_asm)

lemma accept_denials:
  assumes "accept_offer oc bb ref case' = Inr (Denial why)"
  shows "why \<in> set (reasons_of ''accept_offer'')"
proof -
  from assms consider "why \<in> {''already_committed'', ''case_closed'', ''not_in_call''}"
    | "and_then (open_offer_at oc bb ref) (\<lambda>got. case got of
          Denial why \<Rightarrow> Inr (Denial why)
        | Allow (off, t) \<Rightarrow> Inr (accept_open oc bb ref case' off t)) = Inr (Denial why)"
    unfolding accept_offer_def if_Denial_Denial by blast
  then show ?thesis
  proof cases
    case 1
    then show ?thesis unfolding accept_reasons by blast
  next
    case 2
    from after_open_offer_Denial [OF this] accept_open_Denial
    have "why \<in> set OFFER_REASONS \<or> why \<in> set (reasons_of ''accept_offer'')"
      by (metis sum.inject(2))
    moreover have "set OFFER_REASONS \<subseteq> set (reasons_of ''accept_offer'')"
      unfolding accept_reasons by (intro Un_upper2 le_supI1)
    ultimately show ?thesis by blast
  qed
qed

lemma request_open_Denial: "request_open bb case' off = Inr (Denial why) \<Longrightarrow> why = ''approval_pending''"
  by (simp add: request_open_def Let_def split: if_split_asm)

lemma request_denials:
  assumes "request_approval oc bb ref case' = Inr (Denial why)"
  shows "why \<in> set (reasons_of ''request_approval'')"
proof -
  have r: "set (reasons_of ''request_approval'') = set OFFER_REASONS \<union> {''approval_pending''}"
    by (auto simp: reasons_of_def REASONS_def)
  from after_open_offer_Denial [OF assms [unfolded request_approval_def]]
  show ?thesis unfolding r using request_open_Denial by blast
qed

text \<open>
  Every denial carries a reason that \<open>REASONS\<close> lists for its rule: the accept, the request,
  the decline and the two kinds of decision.
\<close>

theorem denials_are_listed:
  "(accept_offer oc bb ref case' = Inr (Denial why) \<longrightarrow> why \<in> set (reasons_of ''accept_offer'')) \<and>
   (request_approval oc bb ref case' = Inr (Denial why) \<longrightarrow> why \<in> set (reasons_of ''request_approval'')) \<and>
   (decline_offer bb ref = Denial why \<longrightarrow> why \<in> set (reasons_of ''decline_offer'')) \<and>
   (share_fact bb key fs = Some why \<longrightarrow> why \<in> set (reasons_of ''share_fact'')) \<and>
   (decide bb p who = Denial why \<longrightarrow>
      why \<in> set (reasons_of
        (case ap_subject p of MandateSubject \<Rightarrow> ''decide_mandate'' | ApprovalSubject \<Rightarrow> ''decide_approval'')))"
proof (intro conjI impI)
  show "why \<in> set (reasons_of ''decline_offer'')" if "decline_offer bb ref = Denial why"
    using that by (auto simp: decline_offer_def reasons_of_def REASONS_def split: option.split_asm if_split_asm)
  show "why \<in> set (reasons_of ''share_fact'')" if "share_fact bb key fs = Some why"
    using that by (auto simp: share_fact_def reasons_of_def REASONS_def split: if_split_asm)
  show "why \<in> set (reasons_of
      (case ap_subject p of MandateSubject \<Rightarrow> ''decide_mandate'' | ApprovalSubject \<Rightarrow> ''decide_approval''))"
    if "decide bb p who = Denial why"
    using that
    by (auto simp: decide_def decide_mandate_post_def decide_approval_post_def reasons_of_def REASONS_def
        split: subject.splits option.split_asm if_split_asm)
qed (auto dest: accept_denials request_denials)

theorem denials_are_listed_witness:
  "''no_such_offer'' \<in> set (reasons_of ''decline_offer'')"
proof -
  have "decline_offer initial_blackboard ''o1'' = Denial ''no_such_offer''" by code_simp
  then show ?thesis
    using denials_are_listed [where bb = initial_blackboard and ref = "''o1''" and why = "''no_such_offer''"]
    by blast
qed

end
