(* ===== verification/Readback_Facts.thy ===== *)
theory Readback_Facts
  imports Guard_Fold
begin

text \<open>
  What a confirmed slot and a recorded terms hash mean: a confirmation rests on a statement of
  the slot's value after an ask, and the hash the fold records is the hash of the terms the guard
  reads from the offer afterwards.
\<close>

section \<open>Confirmation\<close>

text \<open>Some line at or after line \<open>n\<close> states exactly the slot's value.\<close>

definition stated_after :: "lexical \<Rightarrow> offer_public \<Rightarrow> line list \<Rightarrow> readback_slot \<Rightarrow> nat \<Rightarrow> bool" where
  "stated_after lx off lines s n \<longleftrightarrow>
     (\<exists>x \<in> set (lx_states lx (rs_field s) lines (others_of off s)).
        n \<le> st_line x \<and> states_exactly (slot_key lx s) (st_values x))"

lemma dropWhile_hd: "dropWhile (\<lambda>x. \<not> P x) xs \<noteq> [] \<Longrightarrow> \<exists>x \<in> set xs. P x"
  by (induction xs) (auto split: if_splits)

lemma confirmed_from_stated:
  "confirmed_from want sts n \<Longrightarrow> \<exists>x \<in> set sts. n \<le> st_line x \<and> states_exactly want (st_values x)"
  by (auto simp: confirmed_from_def Let_def dest!: dropWhile_hd)

lemma status_from_confirmed:
  "status_from lx s sts asked = SlotConfirmed \<Longrightarrow> \<exists>n. asked = Some n \<and> confirmed_from (slot_key lx s) sts n"
  by (auto simp: status_from_def split: option.splits if_splits)

lemma anchors_stated:
  assumes "anchors n slots flags" "(want, sts, m) \<in> set slots"
  shows "\<exists>x \<in> set sts. n \<le> st_line x \<and> states_exactly want (st_values x)"
proof -
  from assms have ne: "since n sts \<noteq> []"
    by (force simp: anchors_def Let_def list_ex_iff split: if_splits)
  moreover from assms have "list_all (\<lambda>x. states_exactly want (st_values x)) (since n sts)"
    by (force simp: anchors_def Let_def list_all_iff split: if_splits)
  ultimately show ?thesis
    by (cases "since n sts") (auto simp: since_def list_all_iff filter_eq_Cons_iff)
qed

lemma window_stated:
  assumes "window lx off lines asks rivals" "s \<in> set (o_slots off)"
  shows "role_fits s \<and> (\<exists>a \<in> set asks. unchanged a off \<and> stated_after lx off lines s (ask_at a))"
proof -
  let ?st = "\<lambda>s. lx_states lx (rs_field s) lines (others_of off s)"
  from assms(1) obtain a flags where a: "a \<in> set asks" "unchanged a off"
    "anchors (ask_at a)
       (map (\<lambda>s. (slot_key lx s, ?st s, mine lx (slot_key lx s) (?st s) (rs_field s) rivals)) (o_slots off)) flags"
    by (auto simp: window_def Let_def list_ex_iff)
  from anchors_stated [OF a(3), of "slot_key lx s" "?st s" "mine lx (slot_key lx s) (?st s) (rs_field s) rivals"]
    assms(2) have "stated_after lx off lines s (ask_at a)"
    by (auto simp: stated_after_def)
  with a(1,2) assms show ?thesis by (auto simp: window_def Let_def list_all_iff)
qed

text \<open>
  C9. A slot is confirmed only by speech: its role fits its field, and a line at or after an ask
  states exactly its value. That ask is the read-back ask itself, or one whose terms the offer has
  not changed since.
\<close>

theorem confirmed_was_stated:
  assumes "dget (slot_statuses lx off lines asked asks rivals) f = Some SlotConfirmed"
  shows "\<exists>s \<in> set (o_slots off). rs_field s = f \<and> role_fits s \<and>
    ((\<exists>n. asked = Some n \<and> stated_after lx off lines s n) \<or>
     (\<exists>a \<in> set asks. unchanged a off \<and> stated_after lx off lines s (ask_at a)))"
proof -
  from dget_foldl_dput [OF assms [unfolded slot_statuses_def]] obtain s where s: "s \<in> set (o_slots off)" "rs_field s = f"
    and v: "(if \<not> role_fits s then SlotUnknown
      else if window lx off lines asks rivals then SlotConfirmed
      else status_from lx s (lx_states lx (rs_field s) lines (others_of off s)) asked) = SlotConfirmed"
    by auto
  show ?thesis
  proof (cases "window lx off lines asks rivals")
    case True
    with s window_stated show ?thesis by blast
  next
    case False
    with v have "role_fits s"
      and c: "status_from lx s (lx_states lx (rs_field s) lines (others_of off s)) asked = SlotConfirmed"
      by (auto split: if_splits)
    moreover from status_from_confirmed [OF c] confirmed_from_stated
    have "\<exists>n. asked = Some n \<and> stated_after lx off lines s n"
      unfolding stated_after_def by blast
    ultimately show ?thesis using s by blast
  qed
qed

text \<open>A rep who reads back a price of fifty dollars after the ask.\<close>

definition sample_lexical :: lexical where
  "sample_lexical =
     \<lparr>lx_states = (\<lambda>f lines others. if f = ''monthly_price'' \<and> lines \<noteq> []
        then [\<lparr>st_line = 1, st_utt = ''u1'', st_start = 0, st_end = 9, st_values = [''5000'']\<rparr>] else []),
      lx_day = (\<lambda>_. None)\<rparr>"

definition sample_lines :: "line list" where
  "sample_lines = [\<lparr>l_utt_id = ''u0'', l_speaker = Agent, l_text = []\<rparr>,
                   \<lparr>l_utt_id = ''u1'', l_speaker = Partner, l_text = ''fifty dollars''\<rparr>]"

theorem confirmed_was_stated_witness:
  "dget (slot_statuses sample_lexical (slots_offer [(''monthly_price'', ''5000'')]) sample_lines (Some 1) [] [])
     ''monthly_price'' = Some SlotConfirmed \<and>
   (\<exists>s \<in> set (o_slots (slots_offer [(''monthly_price'', ''5000'')])). role_fits s)"
proof -
  have c: "dget (slot_statuses sample_lexical (slots_offer [(''monthly_price'', ''5000'')]) sample_lines
      (Some 1) [] []) ''monthly_price'' = Some SlotConfirmed" by code_simp
  from confirmed_was_stated [OF c] c show ?thesis by blast
qed

section \<open>The recorded hash\<close>

lemma slot_dict_status: "slot_dict (off\<lparr>o_slots := map (set_status d) (o_slots off), o_terms_hash := h\<rparr>) = slot_dict off"
proof -
  have "(rs_field (set_status d s), rs_value (set_status d s)) = (rs_field s, rs_value s)" for s
    by (simp add: set_status_def split: option.split)
  then show ?thesis by (simp add: slot_dict_def)
qed

lemma read_terms_cong: "o_ref a = o_ref b \<Longrightarrow> o_revision a = o_revision b \<Longrightarrow> read_terms f a d = read_terms f b d"
  unfolding read_terms_def by (simp only:)

lemma offer_terms_status:
  "offer_terms f (off\<lparr>o_slots := map (set_status d) (o_slots off), o_terms_hash := h\<rparr>) = offer_terms f off"
proof -
  have r: "read_terms f (off\<lparr>o_slots := map (set_status d) (o_slots off), o_terms_hash := h\<rparr>) x =
      read_terms f off x" for x
    by (rule read_terms_cong) simp_all
  show ?thesis unfolding offer_terms_def slot_dict_status r by (rule refl)
qed

lemma statuses_keys: "set (dkeys (slot_statuses lx off lines asked asks rivals)) = set (offer_fields off)"
proof -
  have "set (dkeys (foldl (\<lambda>d s. dput (k s) (v s) d) d0 xs)) = k ` set xs \<union> set (dkeys d0)"
    for k v and d0 :: "(string, slot_status) dict" and xs :: "readback_slot list"
  proof (induction xs arbitrary: d0)
    case Nil
    then show ?case by simp
  next
    case (Cons x xs)
    then show ?case unfolding foldl.simps Cons dkeys_dput by auto
  qed
  then show ?thesis unfolding slot_statuses_def offer_fields_def by simp
qed

text \<open>
  C10. The update the guard computes for a recorded offer is one the fold takes, and it binds: the
  offer then carries the hash of exactly the terms that \<open>offer_terms\<close> reads from it, none when
  they cannot be read, with the slot statuses that were computed.
\<close>

theorem readback_binds:
  assumes "readback_update sha f lx off lines asked asks rivals = Inr r"
    "dget (offers bb) (o_ref off) = Some off" "ev_payload e = PReadback r"
    "list_all slot_valid (o_slots off)" "offer_valid off" "public_valid (bb_public bb)"
  shows "\<exists>m off'. r_readback bb e = Inr m \<and> dget (offers m) (o_ref off) = Some off' \<and>
    offer_terms_hash sha f off' = Inr (o_terms_hash off') \<and> slot_dict off' = slot_dict off \<and>
    o_slots off' = map (set_status (slot_statuses lx off lines asked asks rivals)) (o_slots off)"
proof -
  from assms(1) obtain h where h: "offer_terms_hash sha f off = Inr h"
    and r: "r = \<lparr>rp_offer_ref = o_ref off, rp_revision = o_revision off,
      rp_slot_statuses = slot_statuses lx off lines asked asks rivals, rp_terms_hash = h\<rparr>"
    by (auto simp: readback_update_def outcome_simps)
  let ?d = "slot_statuses lx off lines asked asks rivals"
  let ?off = "off\<lparr>o_slots := map (set_status ?d) (o_slots off), o_terms_hash := h\<rparr>"
  have valid: "list_all slot_valid (map (set_status ?d) (o_slots off))"
    using assms(4) by (auto simp: list_all_iff slot_valid_def set_status_def split: option.split)
  have keys: "set (map rs_field (o_slots off)) = set (dkeys ?d)"
    unfolding statuses_keys offer_fields_def by simp
  have "offer_valid ?off" using assms(5) by (simp add: offer_valid_def)
  moreover have "length (dput (o_ref off) ?off (offers bb)) = length (offers bb)"
    unfolding length_dput using assms(2) by (force dest: map_of_SomeD)
  then have "put_offer bb (o_ref off) ?off =
      Inr (bb\<lparr>bb_public := (bb_public bb)\<lparr>pub_offers := dput (o_ref off) ?off (offers bb)\<rparr>\<rparr>)"
    using assms(6) by (simp add: put_offer_def with_public_def public_valid_def)
  ultimately have "r_readback bb e =
      Inr (bb\<lparr>bb_public := (bb_public bb)\<lparr>pub_offers := dput (o_ref off) ?off (offers bb)\<rparr>\<rparr>)"
    using assms(2,3) valid keys unfolding r by (simp add: r_readback_def)
  moreover have "offer_terms_hash sha f ?off = Inr (o_terms_hash ?off)"
    using h unfolding offer_terms_hash_def offer_terms_status by simp
  ultimately show ?thesis by (simp add: dget_dput slot_dict_status)
qed

definition heard_bb :: blackboard where
  "heard_bb = initial_blackboard\<lparr>bb_public := initial_public
     \<lparr>pub_offers := [(''o1'', slots_offer [(''monthly_price'', ''5000'')])]\<rparr>\<rparr>"

theorem readback_binds_witness:
  "\<exists>r m. readback_update (\<lambda>s. s) iso_extended sample_lexical (slots_offer [(''monthly_price'', ''5000'')])
       sample_lines (Some 1) [] [] = Inr r \<and>
     r_readback heard_bb (plain_event 5 (''readback.updated'', PReadback r)) = Inr m"
proof -
  let ?off = "slots_offer [(''monthly_price'', ''5000'')]"
  have "succeeds (readback_update (\<lambda>s. s) iso_extended sample_lexical ?off sample_lines (Some 1) [] [])"
    by code_simp
  then obtain r where r: "readback_update (\<lambda>s. s) iso_extended sample_lexical ?off sample_lines (Some 1) [] [] = Inr r"
    by (auto simp: succeeds_iff)
  have "dget (offers heard_bb) (o_ref ?off) = Some ?off"
    by (simp add: heard_bb_def slots_offer_def)
  moreover have "list_all slot_valid (o_slots ?off)" "offer_valid ?off" "public_valid (bb_public heard_bb)"
    by code_simp+
  ultimately show ?thesis
    using readback_binds [OF r, of heard_bb "plain_event 5 (''readback.updated'', PReadback r)"] r
    by (auto simp: plain_event_def)
qed

end
