(* ===== verification/Env_Ledger.thy ===== *)
theory Env_Ledger
  imports Machines
begin

text \<open>
  \<open>env/ledger.py\<close>: the counterparty's private confirmation ledger. It is generic over the terms
  it binds; what it needs of them (the protocol \<open>LedgerTerms\<close>) is the locale \<open>ledger_terms\<close>:
  the contract length can be read and replaced. The rep's policy provides it (\<open>Rep_Policy\<close>).
\<close>

(* env/ledger.py 25-25 MISQUOTE_EXTRA_TERM_MONTHS *)
definition MISQUOTE_EXTRA_TERM_MONTHS :: int where "MISQUOTE_EXTRA_TERM_MONTHS = 12"

(* env/ledger.py 28-31 LedgerMode *)
datatype ledger_mode = Honest | Misquote | Absent

(* env/ledger.py 43-52 Ledger.__init__ *)
record 't ledger =
  le_mode :: ledger_mode
  le_entries :: "(string, 't) dict"

definition new_ledger :: "ledger_mode \<Rightarrow> 't ledger" where
  "new_ledger m = \<lparr>le_mode = m, le_entries = []\<rparr>"

text \<open>What is bound for heard terms: \<open>months\<close> reads \<open>term_months\<close>, \<open>with\<close> is
  \<open>dataclasses.replace(heard, term_months=...)\<close>.\<close>

definition bound_in :: "('t \<Rightarrow> int) \<Rightarrow> (int \<Rightarrow> 't \<Rightarrow> 't) \<Rightarrow> ledger_mode \<Rightarrow> 't \<Rightarrow> 't option" where
  "bound_in months with_months mode heard = (case mode of
      Absent \<Rightarrow> None
    | Misquote \<Rightarrow> Some (with_months (months heard + MISQUOTE_EXTRA_TERM_MONTHS) heard)
    | Honest \<Rightarrow> Some heard)"

(* env/ledger.py 54-63 Ledger.write *)
definition ledger_write ::
  "('t \<Rightarrow> int) \<Rightarrow> (int \<Rightarrow> 't \<Rightarrow> 't) \<Rightarrow> 't ledger \<Rightarrow> string \<Rightarrow> 't \<Rightarrow> 't ledger"
where
  "ledger_write months with_months l ref heard =
     (case bound_in months with_months (le_mode l) heard of
        None \<Rightarrow> l
      | Some t \<Rightarrow> l\<lparr>le_entries := dput ref t (le_entries l)\<rparr>)"

(* env/ledger.py 65-66 Ledger.lookup *)
definition ledger_lookup :: "'t ledger \<Rightarrow> string \<Rightarrow> 't option" where
  "ledger_lookup l ref = dget (le_entries l) ref"

lemma ledger_mode_write [simp]: "le_mode (ledger_write months w l ref t) = le_mode l"
  by (simp add: ledger_write_def split: option.split)

lemma lookup_new [simp]: "ledger_lookup (new_ledger m) ref = None"
  by (simp add: ledger_lookup_def new_ledger_def)

text \<open>The terms protocol \<open>LedgerTerms\<close> (lines 34 to 40 of \<open>env/ledger.py\<close>).\<close>

locale ledger_terms =
  fixes months :: "'t \<Rightarrow> int"
    and with_months :: "int \<Rightarrow> 't \<Rightarrow> 't"
    and rest :: "'t \<Rightarrow> 'r"
  assumes months_with: "months (with_months n t) = n"
    and rest_with: "rest (with_months n t) = rest t"
    and terms_eqI: "months t = months u \<Longrightarrow> rest t = rest u \<Longrightarrow> t = u"
begin

lemma lookup_written:
  "ledger_lookup (ledger_write months with_months l ref t) ref =
     (if le_mode l = Absent then ledger_lookup l ref else bound_in months with_months (le_mode l) t)"
  by (cases "le_mode l") (simp_all add: ledger_lookup_def ledger_write_def bound_in_def dget_dput)

lemma lookup_other:
  "ref' \<noteq> ref \<Longrightarrow> ledger_lookup (ledger_write months with_months l ref t) ref' = ledger_lookup l ref'"
  by (cases "le_mode l") (simp_all add: ledger_lookup_def ledger_write_def bound_in_def dget_dput)

text \<open>An entry binds the heard terms exactly when the mode is honest; a misquote differs in the
  contract length alone.\<close>

lemma bound_heard: "bound_in months with_months mode t = Some t \<longleftrightarrow> mode = Honest"
proof (cases mode)
  case Misquote
  have "with_months (months t + MISQUOTE_EXTRA_TERM_MONTHS) t \<noteq> t"
    using months_with [of "months t + MISQUOTE_EXTRA_TERM_MONTHS" t] by (auto simp: MISQUOTE_EXTRA_TERM_MONTHS_def)
  with Misquote show ?thesis by (simp add: bound_in_def)
qed (simp_all add: bound_in_def)

lemma misquote_only_longer:
  "bound_in months with_months Misquote t = Some u \<Longrightarrow> rest u = rest t \<and> months u = months t + 12"
  by (auto simp: bound_in_def months_with rest_with MISQUOTE_EXTRA_TERM_MONTHS_def)

end

end
