(* ===== verification/Rep_Policy.thy ===== *)
theory Rep_Policy
  imports Env_Ledger Contract
begin

text \<open>
  \<open>env/counterparty/policy.py\<close>: the rep's deterministic policy, with the parts of
  \<open>env/tasks/schema.py\<close>, \<open>env/counterparty/ear.py\<close> and \<open>env/world.py\<close> it reads. A method of
  \<open>Policy\<close> takes and returns the record \<open>policy\<close>. Durations are milliseconds: a limit of
  \<open>s\<close> seconds is the least integer not below \<open>1000 * s\<close>, which the comparisons cannot tell
  from it. A money text is a decimal number; an amount the Ear read is the decimal its \<open>str\<close> gives.
\<close>

section \<open>Numbers and names in a line\<close>

text \<open>A decimal number: digits and how many of them are decimals, without trailing zeros.\<close>

type_synonym decimal = "int \<times> nat"

fun normal :: "int \<Rightarrow> nat \<Rightarrow> decimal" where
  "normal n 0 = (n, 0)"
| "normal n (Suc k) = (if n mod 10 = 0 then normal (n div 10) k else (n, Suc k))"

definition decimal_of :: "string \<Rightarrow> decimal" where
  "decimal_of s = normal (int_of_digits (before (CHR ''.'') s @ after (CHR ''.'') s)) (length (after (CHR ''.'') s))"

definition casefold :: "string \<Rightarrow> string" where
  "casefold s = map (\<lambda>c. if is_upper c then char_of ((of_char c :: nat) + 32) else c) s"

(* env/world.py 155-158 norm *)
definition norm_text :: "string \<Rightarrow> string" where
  "norm_text s = filter is_alnum (casefold s)"

text \<open>\<open>re.sub(r"(?<=\d),(?=\d{3})", "", text)\<close>; the first argument is the character before.\<close>

fun strip_commas :: "char option \<Rightarrow> string \<Rightarrow> string" where
  "strip_commas p [] = []"
| "strip_commas p (c # cs) =
     (if c = CHR '','' \<and> (case p of None \<Rightarrow> False | Some d \<Rightarrow> is_digit d) \<and>
         3 \<le> length cs \<and> list_all is_digit (take 3 cs)
      then strip_commas (Some c) cs else c # strip_commas (Some c) cs)"

definition fraction :: "string \<Rightarrow> string" where
  "fraction s = (case s of c # cs \<Rightarrow> if c = CHR ''.'' then takeWhile is_digit cs else [] | [] \<Rightarrow> [])"

text \<open>\<open>re.findall(r"\d+(?:\.\d+)?", text)\<close>.\<close>

function find_numbers :: "string \<Rightarrow> decimal list" where
  "find_numbers s =
     (case dropWhile (\<lambda>c. \<not> is_digit c) s of
        [] \<Rightarrow> []
      | c # cs \<Rightarrow>
          let ds = takeWhile is_digit (c # cs); r = dropWhile is_digit (c # cs); f = fraction r in
          normal (int_of_digits (ds @ f)) (length f) # find_numbers (drop (if f = [] then 0 else 1 + length f) r))"
  by pat_completeness auto

termination
proof (relation "measure length")
  fix s c cs x xa xb
  assume s: "dropWhile (\<lambda>c. \<not> is_digit c) s = c # cs"
    and r: "xa = dropWhile is_digit (c # cs)"
  from s have d: "is_digit c" by (metis hd_dropWhile list.distinct(1) list.sel(1))
  from s have "length (c # cs) \<le> length s" by (metis length_dropWhile_le)
  moreover have "length xa \<le> length cs"
    using d r by (simp add: length_dropWhile_le)
  ultimately show "(drop (if xb = [] then 0 else 1 + length xb) xa, s) \<in> measure length"
    by auto
qed simp

declare find_numbers.simps [simp del]

(* env/world.py 161-165 numbers *)
definition numbers :: "string \<Rightarrow> decimal list" where
  "numbers text' = find_numbers (strip_commas None text')"

fun contains :: "string \<Rightarrow> string \<Rightarrow> bool" where
  "contains p [] = (p = [])"
| "contains p (c # cs) = (starts_with p (c # cs) \<or> contains p cs)"

section \<open>The task's data\<close>

(* env/tasks/schema.py 67-76 OfferSpec *)
record offer_spec =
  os_ref :: string
  os_terms :: "(string, string) dict"
  os_hidden :: "(string, string) dict"
  os_ttl_ms :: "int option"

(* env/tasks/schema.py 78-80 OfferSpec.all_terms *)
definition all_terms :: "offer_spec \<Rightarrow> (string, string) dict" where
  "all_terms o' = foldl (\<lambda>d (k, v). dput k v d) (os_terms o') (os_hidden o')"

(* env/tasks/schema.py 40-41 money_term *)
definition money_term :: "string \<Rightarrow> bool" where
  "money_term f \<longleftrightarrow> f = ''monthly_price'' \<or> starts_with ''fee:'' f \<or> starts_with ''credit:'' f"

(* env/tasks/schema.py 35-35 MONEY *)
definition money_re :: "string \<Rightarrow> bool" where
  "money_re v \<longleftrightarrow> isdigit (before (CHR ''.'') v) \<and>
     (CHR ''.'' \<in> set v \<longrightarrow> isdigit (after (CHR ''.'') v) \<and> length (after (CHR ''.'') v) = 2)"

(* env/tasks/schema.py 82-91 OfferSpec._terms *)
definition offer_spec_valid :: "offer_spec \<Rightarrow> bool" where
  "offer_spec_valid o' \<longleftrightarrow>
     offer_ref_re (os_ref o') \<and> list_all readback_field (dkeys (os_terms o') @ dkeys (os_hidden o')) \<and>
     os_terms o' \<noteq> [] \<and> wf_dict (os_terms o') \<and> wf_dict (os_hidden o') \<and>
     set (dkeys (os_terms o')) \<inter> set (dkeys (os_hidden o')) = {} \<and>
     (case dget (all_terms o') ''term_months'' of None \<Rightarrow> False | Some v \<Rightarrow> isdigit v) \<and>
     list_all (\<lambda>(k, v). money_term k \<longrightarrow> money_re v) (all_terms o') \<and>
     (case os_ttl_ms o' of None \<Rightarrow> True | Some t \<Rightarrow> 0 \<le> t)"

(* env/tasks/schema.py 94-97 Patience *)
record patience =
  pt_silence_ms :: int
  pt_hold_ms :: int
  pt_strikes :: nat

(* env/tasks/schema.py 100-106 CounterpartySpec *)
record counterparty_spec =
  cs_identity :: "string list"
  cs_ladder :: "offer_spec list"
  cs_patience :: patience
  cs_ledger :: ledger_mode

(* env/tasks/schema.py 103-112 CounterpartySpec._unique *)
definition counterparty_valid :: "counterparty_spec \<Rightarrow> bool" where
  "counterparty_valid c \<longleftrightarrow>
     cs_identity c \<noteq> [] \<and> cs_ladder c \<noteq> [] \<and> list_all offer_spec_valid (cs_ladder c) \<and>
     distinct (map os_ref (cs_ladder c)) \<and> 1 \<le> pt_strikes (cs_patience c)"

(* env/counterparty/ear.py 49-62 Act *)
datatype act =
    AskDiscount | CiteCompetitor | CancelIntent | Tenure | AskReadback | Accept | Decline
  | ProvideFact | RefuseFact | AskSupervisor | HoldRequest | Smalltalk | Injection | Other

(* env/counterparty/ear.py 101-107 EarAct *)
record ear_act =
  ea_act :: act
  ea_offer_ref :: "string option"
  ea_price :: "decimal option"
  ea_facts :: "(string \<times> string) list"

section \<open>The policy's state\<close>

(* env/counterparty/policy.py 50-60 State *)
datatype rep_state =
  GREET | IDENTIFY | DISCOVER | OFFER | FINAL | CONFIRM | CONFIRMED | TRANSFER | ENDED

(* env/counterparty/policy.py 61-80 IntentKind *)
datatype intent_kind =
    IGreet | IAskIdentity | IHowCanHelp | IOffer | IFinalOffer | INoBetter | IReadback
  | IConfirmAccept | IConfirmed | IAckDecline | IOfferUnavailable | IOfferExpired | IOkHold
  | ICheckIn | ITransfer | IHangUp | IClarify | IAck

(* env/counterparty/policy.py 81-81 LEVERS *)
definition LEVERS :: "act list" where
  "LEVERS = [AskDiscount, CiteCompetitor, CancelIntent, Tenure]"

(* env/counterparty/policy.py 82-82 TERMINAL *)
definition REP_TERMINAL :: "rep_state list" where
  "REP_TERMINAL = [CONFIRMED, TRANSFER, ENDED]"

(* env/counterparty/policy.py 85-93 PublicIntent *)
record public_intent =
  pi_kind :: intent_kind
  pi_offer_ref :: "string option"
  pi_say :: "(string \<times> string) list"
  pi_ask :: "string list"
  pi_reason :: "string option"

definition just :: "intent_kind \<Rightarrow> public_intent" where
  "just k = \<lparr>pi_kind = k, pi_offer_ref = None, pi_say = [], pi_ask = [], pi_reason = None\<rparr>"

(* env/counterparty/policy.py 96-101 BoundTerms *)
record bound_terms =
  bt_offer_ref :: string
  bt_revision :: int
  bt_term_months :: int
  bt_terms :: "(string \<times> string) list"

(* env/counterparty/policy.py 104-108 Commit *)
record commit =
  co_offer_ref :: string
  co_confirmation_id :: string
  co_bound :: "bound_terms option"

(* env/counterparty/policy.py 111-118 Decision *)
record rep_decision =
  rd_from :: rep_state
  rd_to :: rep_state
  rd_intent :: public_intent
  rd_rung :: "nat option"
  rd_commit :: "commit option"
  rd_strike :: bool

datatype made_status = MadeOpen | MadeExpired | MadeAccepted

(* env/counterparty/policy.py 121-125 _Offer *)
record made_offer =
  mo_spec :: offer_spec
  mo_expires_ms :: "int option"
  mo_status :: made_status

text \<open>\<open>rung\<close> counts from -1 in the code; here \<open>pol_rungs\<close> is the number of rungs offered,
  one more.\<close>

(* env/counterparty/policy.py 128-145 Policy.__init__ *)
record policy =
  pol_spec :: counterparty_spec
  pol_known :: "(string, string) dict"
  pol_state :: rep_state
  pol_rungs :: nat
  pol_identity_strikes :: nat
  pol_timer_strikes :: nat
  pol_silences :: nat
  pol_hold_strikes :: nat
  pol_offers :: "(string, made_offer) dict"
  pol_ledger :: "bound_terms ledger"
  pol_verified :: "string list"
  pol_levers :: "act list"
  pol_pending :: "string option"
  pol_hold_since :: "int option"
  pol_hold_clock :: "int option"
  pol_free_since :: "int option"

definition new_policy :: "counterparty_spec \<Rightarrow> (string, string) dict \<Rightarrow> int \<Rightarrow> policy" where
  "new_policy spec known t0 =
     \<lparr>pol_spec = spec, pol_known = known, pol_state = GREET, pol_rungs = 0, pol_identity_strikes = 0,
      pol_timer_strikes = 0, pol_silences = 0, pol_hold_strikes = 0, pol_offers = [],
      pol_ledger = new_ledger (cs_ledger spec), pol_verified = [], pol_levers = [],
      pol_pending = None, pol_hold_since = None, pol_hold_clock = None, pol_free_since = Some t0\<rparr>"

(* env/counterparty/policy.py 147-151 Policy.strikes *)
definition strikes :: "policy \<Rightarrow> nat" where
  "strikes p = pol_identity_strikes p + pol_timer_strikes p"

definition rep_done :: "policy \<Rightarrow> bool" where
  "rep_done p \<longleftrightarrow> pol_state p \<in> set REP_TERMINAL"

(* env/counterparty/policy.py 162-165 Policy.open_offers *)
definition open_offers :: "policy \<Rightarrow> string list" where
  "open_offers p = dkeys (filter (\<lambda>(r, x). mo_status x = MadeOpen) (pol_offers p))"

(* env/counterparty/policy.py 167-171 Policy.floor *)
definition rep_floor :: "policy \<Rightarrow> bool \<Rightarrow> int \<Rightarrow> policy" where
  "rep_floor p free t = p\<lparr>pol_free_since := if free then Some t else None\<rparr>"

(* env/counterparty/policy.py 377-378 Policy._missing *)
definition unverified :: "policy \<Rightarrow> string list" where
  "unverified p = filter (\<lambda>k. k \<notin> set (pol_verified p)) (cs_identity (pol_spec p))"

(* env/counterparty/policy.py 380-381 Policy._latest *)
definition latest :: "policy \<Rightarrow> string option" where
  "latest p = (case pol_rungs p of 0 \<Rightarrow> None | Suc n \<Rightarrow> Some (os_ref (cs_ladder (pol_spec p) ! n)))"

(* env/counterparty/policy.py 383-386 Policy._offer_state *)
definition offer_state :: "policy \<Rightarrow> rep_state" where
  "offer_state p =
     (if pol_rungs p = 0 then DISCOVER
      else if pol_rungs p = length (cs_ladder (pol_spec p)) then FINAL else OFFER)"

(* env/counterparty/policy.py 388-389 Policy._rung *)
definition rung_of :: "policy \<Rightarrow> nat option" where
  "rung_of p = (case pol_rungs p of 0 \<Rightarrow> None | Suc n \<Rightarrow> Some n)"

(* env/counterparty/policy.py 371-375 Policy._named *)
definition names_offer :: "offer_spec \<Rightarrow> string \<Rightarrow> bool" where
  "names_offer o' heard \<longleftrightarrow>
     (case dget (os_terms o') ''monthly_price'' of
        None \<Rightarrow> False
      | Some v \<Rightarrow> decimal_of v \<in> set (numbers heard)) \<or>
     contains (casefold (os_ref o')) (casefold heard)"

(* env/counterparty/policy.py 356-359 Policy._terms *)
definition terms_intent :: "intent_kind \<Rightarrow> offer_spec \<Rightarrow> public_intent" where
  "terms_intent k o' =
     (just k)\<lparr>pi_offer_ref := Some (os_ref o'), pi_say := all_terms o'\<rparr>"

(* env/counterparty/policy.py 361-369 Policy._expire *)
definition lapsed :: "int \<Rightarrow> made_offer \<Rightarrow> bool" where
  "lapsed t x \<longleftrightarrow> mo_status x = MadeOpen \<and> (case mo_expires_ms x of None \<Rightarrow> False | Some u \<Rightarrow> u \<le> t)"

definition expire :: "policy \<Rightarrow> int \<Rightarrow> policy \<times> rep_decision list" where
  "expire p t =
     (p\<lparr>pol_offers := map (\<lambda>(r, x). (r, if lapsed t x then x\<lparr>mo_status := MadeExpired\<rparr> else x)) (pol_offers p)\<rparr>,
      map (\<lambda>(r, x). \<lparr>rd_from = pol_state p, rd_to = pol_state p,
             rd_intent = (just IOfferExpired)\<lparr>pi_offer_ref := Some r\<rparr>, rd_rung = rung_of p,
             rd_commit = None, rd_strike = False\<rparr>)
        (filter (\<lambda>(r, x). lapsed t x) (pol_offers p)))"

section \<open>Levers and identity\<close>

(* env/counterparty/policy.py 281-295 Policy._lever *)
definition lever :: "policy \<Rightarrow> act \<Rightarrow> int \<Rightarrow> policy \<times> public_intent" where
  "lever p a t =
     (if a \<in> set (pol_levers p) \<or> length (cs_ladder (pol_spec p)) \<le> pol_rungs p
        then (p, just INoBetter)
      else
        let o' = cs_ladder (pol_spec p) ! pol_rungs p;
            x = \<lparr>mo_spec = o', mo_expires_ms = map_option (\<lambda>d. t + d) (os_ttl_ms o'), mo_status = MadeOpen\<rparr>;
            p1 = p\<lparr>pol_levers := a # pol_levers p, pol_rungs := pol_rungs p + 1,
                   pol_offers := dput (os_ref o') x (pol_offers p)\<rparr>;
            s = offer_state p1
        in (p1\<lparr>pol_state := s, pol_pending := None\<rparr>,
            (just (if s = FINAL then IFinalOffer else IOffer))
              \<lparr>pi_offer_ref := Some (os_ref o'), pi_say := os_terms o'\<rparr>))"

definition fact_matches :: "policy \<Rightarrow> string \<times> string \<Rightarrow> bool" where
  "fact_matches p f \<longleftrightarrow>
     norm_text (snd f) \<noteq> [] \<and>
     norm_text (snd f) = norm_text (case dget (pol_known p) (fst f) of None \<Rightarrow> [] | Some v \<Rightarrow> v)"

definition verify_facts :: "policy \<Rightarrow> (string \<times> string) list \<Rightarrow> string list" where
  "verify_facts p fs = fold (\<lambda>f vs. if fact_matches p f then List.insert (fst f) vs else vs) fs (pol_verified p)"

(* env/counterparty/policy.py 251-261 Policy._react *)
definition check_facts :: "policy \<Rightarrow> (string \<times> string) list \<Rightarrow> policy \<times> public_intent" where
  "check_facts p fs =
     (let vs = verify_facts p fs;
          q = p\<lparr>pol_verified := vs,
                pol_hold_clock := if length (pol_verified p) < length vs then None else pol_hold_clock p\<rparr>
      in if unverified q \<noteq> [] then (q, (just IAskIdentity)\<lparr>pi_ask := unverified q\<rparr>)
         else (q\<lparr>pol_state := DISCOVER\<rparr>, just IHowCanHelp))"

(* env/counterparty/policy.py 244-250 Policy._react *)
definition identify :: "policy \<Rightarrow> ear_act \<Rightarrow> policy \<times> public_intent" where
  "identify p a =
     (if ea_act a = ProvideFact then check_facts p (ea_facts a)
      else
        let q = p\<lparr>pol_identity_strikes := pol_identity_strikes p + 1\<rparr> in
        if pt_strikes (cs_patience (pol_spec q)) \<le> pol_identity_strikes q
          then (q\<lparr>pol_state := ENDED\<rparr>, (just IHangUp)\<lparr>pi_reason := Some ''identity''\<rparr>)
        else check_facts q [])"

section \<open>Accepting\<close>

definition offer_at :: "policy \<Rightarrow> string option \<Rightarrow> made_offer option" where
  "offer_at p r = dget (pol_offers p) (case r of None \<Rightarrow> [] | Some s \<Rightarrow> s)"

(* env/counterparty/policy.py 336-354 Policy._unreferenced *)
definition unreferenced :: "policy \<Rightarrow> string \<Rightarrow> string list \<Rightarrow> made_offer option \<times> bool" where
  "unreferenced p heard listed =
     (let cands = filter (\<lambda>(r, x). r \<in> set listed \<and> mo_status x = MadeOpen \<and> names_offer (mo_spec x) heard)
                    (pol_offers p);
          pend = offer_at p (pol_pending p)
      in if pol_state p = CONFIRM \<and> pend \<noteq> None then
           (let others = filter (\<lambda>(r, x). Some r \<noteq> pol_pending p) cands in
            if others = [] then (pend, True)
            else (if length others = 1 then Some (snd (hd others)) else pend, False))
         else if length cands = 1 then (Some (snd (hd cands)), True)
         else (offer_at p (latest p), False))"

(* env/counterparty/policy.py 300-307 Policy._accept *)
definition accepted_offer ::
  "policy \<Rightarrow> ear_act \<Rightarrow> string \<Rightarrow> string list \<Rightarrow> (made_offer option \<times> bool) outcome"
where
  "accepted_offer p a heard listed =
     (let off = offer_at p (ea_offer_ref a);
          named = (case off of None \<Rightarrow> False | Some x \<Rightarrow> names_offer (mo_spec x) heard)
      in if ea_offer_ref a = None then Inr (unreferenced p heard listed)
         else if \<not> named \<and> pol_state p = CONFIRM \<and> pol_pending p \<noteq> None then
           (case dget (pol_offers p) (the (pol_pending p)) of
              None \<Rightarrow> Inl (KeyError (the (pol_pending p)))
            | Some x \<Rightarrow> Inr (Some x, True))
         else if \<not> named then
           Inr (case off of None \<Rightarrow> offer_at p (latest p) | Some x \<Rightarrow> Some x, named)
         else Inr (off, named))"

definition hex_val :: "char \<Rightarrow> int" where
  "hex_val c = (if is_digit c then of_char c - 48 else of_char c - 87)"

(* env/counterparty/policy.py 321-323 Policy._accept *)
definition confirmation_id :: "(string \<Rightarrow> string) \<Rightarrow> string \<Rightarrow> string \<Rightarrow> string" where
  "confirmation_id sha ref utt =
     (let n = foldl (\<lambda>n c. 16 * n + hex_val c) 0 (take 8 (sha (ref @ '':'' @ utt))) mod 1000000;
          d = dec_int n
      in replicate (6 - length d) (CHR ''0'') @ d)"

definition by_field :: "(string \<times> string) list \<Rightarrow> (string \<times> string) list" where
  "by_field xs = sort_key fst xs"

definition offer_price :: "offer_spec \<Rightarrow> decimal option" where
  "offer_price o' = map_option decimal_of (dget (os_terms o') ''monthly_price'')"

definition bound_of :: "offer_spec \<Rightarrow> bound_terms outcome" where
  "bound_of o' =
     (case dget (all_terms o') ''term_months'' of
        None \<Rightarrow> Inl (KeyError ''term_months'')
      | Some v \<Rightarrow>
          (case py_int v of
             None \<Rightarrow> Inl (ValueError ''term_months'')
           | Some n \<Rightarrow> Inr \<lparr>bt_offer_ref = os_ref o', bt_revision = 1, bt_term_months = n,
                bt_terms = by_field (ddel ''term_months'' (all_terms o'))\<rparr>))"

abbreviation write_bound :: "bound_terms ledger \<Rightarrow> string \<Rightarrow> bound_terms \<Rightarrow> bound_terms ledger" where
  "write_bound \<equiv> ledger_write bt_term_months (\<lambda>n b. b\<lparr>bt_term_months := n\<rparr>)"

(* env/counterparty/policy.py 319-334 Policy._accept *)
definition commit_offer ::
  "(string \<Rightarrow> string) \<Rightarrow> policy \<Rightarrow> made_offer \<Rightarrow> string \<Rightarrow> (policy \<times> public_intent \<times> commit option) outcome"
where
  "commit_offer sha p x utt =
     (let o' = mo_spec x; conf = confirmation_id sha (os_ref o') utt in
      and_then (bound_of o') (\<lambda>b.
        let l = write_bound (pol_ledger p) conf b in
        Inr (p\<lparr>pol_offers := dput (os_ref o') (x\<lparr>mo_status := MadeAccepted\<rparr>) (pol_offers p),
               pol_state := CONFIRMED, pol_pending := None, pol_ledger := l\<rparr>,
             (just IConfirmed)\<lparr>pi_offer_ref := Some (os_ref o'), pi_say := [(''confirmation'', conf)]\<rparr>,
             Some \<lparr>co_offer_ref = os_ref o', co_confirmation_id = conf, co_bound = ledger_lookup l conf\<rparr>)))"

(* env/counterparty/policy.py 297-318 Policy._accept *)
definition accept ::
  "(string \<Rightarrow> string) \<Rightarrow> policy \<Rightarrow> ear_act \<Rightarrow> string \<Rightarrow> string \<Rightarrow> string list \<Rightarrow>
   (policy \<times> public_intent \<times> commit option) outcome"
where
  "accept sha p a utt heard listed =
     and_then (accepted_offer p a heard listed) (\<lambda>(off, named).
       case off of
         None \<Rightarrow> Inr (p, just IClarify, None)
       | Some x \<Rightarrow>
           if mo_status x \<noteq> MadeOpen then
             Inr (p, (just IOfferUnavailable)\<lparr>pi_offer_ref := Some (os_ref (mo_spec x))\<rparr>, None)
           else if \<not> named \<or> (ea_price a \<noteq> None \<and> ea_price a \<noteq> offer_price (mo_spec x)) then
             Inr (p\<lparr>pol_state := CONFIRM, pol_pending := Some (os_ref (mo_spec x))\<rparr>,
                  terms_intent IConfirmAccept (mo_spec x), None)
           else commit_offer sha p x utt)"

section \<open>The reaction to an act\<close>

(* env/counterparty/policy.py 266-272 Policy._react *)
definition read_back :: "policy \<Rightarrow> ear_act \<Rightarrow> public_intent" where
  "read_back p a =
     (case offer_at p (case ea_offer_ref a of None \<Rightarrow> latest p | Some [] \<Rightarrow> latest p | Some r \<Rightarrow> Some r) of
        None \<Rightarrow> (just IOfferUnavailable)\<lparr>pi_offer_ref := ea_offer_ref a\<rparr>
      | Some x \<Rightarrow>
          if mo_status x \<noteq> MadeOpen then (just IOfferUnavailable)\<lparr>pi_offer_ref := ea_offer_ref a\<rparr>
          else terms_intent IReadback (mo_spec x))"

(* env/counterparty/policy.py 262-279 Policy._react *)
definition serve ::
  "(string \<Rightarrow> string) \<Rightarrow> policy \<Rightarrow> ear_act \<Rightarrow> string \<Rightarrow> string \<Rightarrow> int \<Rightarrow> string list \<Rightarrow>
   (policy \<times> public_intent \<times> commit option) outcome"
where
  "serve sha p a utt heard t listed =
     (if ea_act a \<in> set LEVERS then (let (q, i) = lever p (ea_act a) t in Inr (q, i, None))
      else if ea_act a = Accept then accept sha p a utt heard listed
      else if ea_act a = AskReadback then Inr (p, read_back p a, None)
      else if ea_act a = Decline then
        Inr (if pol_state p = CONFIRM then p\<lparr>pol_state := offer_state p, pol_pending := None\<rparr> else p,
             just IAckDecline, None)
      else if pol_offers p \<noteq> [] \<and> (ea_act a = Smalltalk \<or> ea_act a = Other) then Inr (p, just IAck, None)
      else Inr (p, just IClarify, None))"

(* env/counterparty/policy.py 228-244 Policy._react *)
definition react ::
  "(string \<Rightarrow> string) \<Rightarrow> policy \<Rightarrow> ear_act \<Rightarrow> string \<Rightarrow> string \<Rightarrow> int \<Rightarrow> string list \<Rightarrow>
   (policy \<times> public_intent \<times> commit option) outcome"
where
  "react sha p a utt heard t listed =
     (if ea_act a = AskSupervisor then Inr (p\<lparr>pol_state := TRANSFER\<rparr>, just ITransfer, None)
      else if ea_act a = HoldRequest then
        (let c = (case pol_hold_clock p of None \<Rightarrow> t | Some u \<Rightarrow> u) in
         Inr (p\<lparr>pol_hold_clock := Some c, pol_hold_since := Some c\<rparr>, just IOkHold, None))
      else if pol_state p = GREET \<and> ea_act a \<noteq> ProvideFact then
        Inr (p\<lparr>pol_state := IDENTIFY\<rparr>, (just IGreet)\<lparr>pi_ask := unverified p\<rparr>, None)
      else if pol_state p = GREET \<or> pol_state p = IDENTIFY then
        (let (q, i) = identify (p\<lparr>pol_state := IDENTIFY\<rparr>) a in Inr (q, i, None))
      else serve sha p a utt heard t listed)"

section \<open>One utterance, one tick\<close>

(* env/counterparty/policy.py 173-200 Policy.step *)
definition rep_hear ::
  "(string \<Rightarrow> string) \<Rightarrow> policy \<Rightarrow> ear_act \<Rightarrow> string \<Rightarrow> string \<Rightarrow> int \<Rightarrow> string list \<Rightarrow>
   (policy \<times> rep_decision list) outcome"
where
  "rep_hear sha p a utt heard t listed =
     (if rep_done p then Inr (p, [])
      else
        let (p0, out) = expire p t;
            p1 = p0\<lparr>pol_free_since := None, pol_hold_since := None, pol_silences := 0\<rparr>
        in and_then (react sha p1 a utt heard t listed) (\<lambda>(q, i, c).
             Inr (if pol_state p1 \<noteq> IDENTIFY \<and> ea_act a \<noteq> HoldRequest then q\<lparr>pol_hold_clock := None\<rparr> else q,
                  out @ [\<lparr>rd_from = pol_state p1, rd_to = pol_state q, rd_intent = i, rd_rung = rung_of q,
                          rd_commit = c, rd_strike = strikes p1 < strikes q\<rparr>])))"

(* env/counterparty/policy.py 208-213 Policy.tick *)
definition overdue :: "policy \<Rightarrow> int \<Rightarrow> bool" where
  "overdue p t =
     (let pt = cs_patience (pol_spec p) in
      case pol_hold_since p of
        Some h \<Rightarrow> pt_hold_ms pt \<le> t - h
      | None \<Rightarrow> (case pol_free_since p of None \<Rightarrow> False | Some f \<Rightarrow> pt_silence_ms pt \<le> t - f))"

(* env/counterparty/policy.py 214-226 Policy.tick *)
definition timer_strike :: "policy \<Rightarrow> int \<Rightarrow> policy" where
  "timer_strike p t =
     (let held = pol_hold_since p \<noteq> None;
          q = p\<lparr>pol_timer_strikes := pol_timer_strikes p + 1,
                pol_silences := (if held then pol_silences p else pol_silences p + 1),
                pol_hold_strikes := (if held then pol_hold_strikes p + 1 else pol_hold_strikes p),
                pol_free_since := None, pol_hold_since := (if held then Some t else None),
                pol_hold_clock := (if held \<and> pol_hold_clock p \<noteq> None then Some t else pol_hold_clock p)\<rparr>
      in if pt_strikes (cs_patience (pol_spec q)) \<le> pol_silences q + pol_hold_strikes q
           then q\<lparr>pol_state := ENDED\<rparr> else q)"

(* env/counterparty/policy.py 202-226 Policy.tick *)
definition rep_tick :: "policy \<Rightarrow> int \<Rightarrow> policy \<times> rep_decision list" where
  "rep_tick p t =
     (if rep_done p then (p, [])
      else
        let (p0, out) = expire p t in
        if \<not> overdue p0 t then (p0, out)
        else
          let q = timer_strike p0 t in
          (q, out @ [\<lparr>rd_from = pol_state p0, rd_to = pol_state q,
                      rd_intent = just (if rep_done q then IHangUp else ICheckIn),
                      rd_rung = rung_of q, rd_commit = None, rd_strike = True\<rparr>]))"

section \<open>The ledger's terms\<close>

text \<open>The bound terms of the policy are terms the ledger can bind: \<open>replace\<close> changes the length alone.\<close>

lemma bound_terms_eqI:
  "bt_term_months t = bt_term_months u \<Longrightarrow>
     (bt_offer_ref t, bt_revision t, bt_terms t) = (bt_offer_ref u, bt_revision u, bt_terms u) \<Longrightarrow>
   t = (u :: bound_terms)"
  by (cases t; cases u) simp

interpretation rep_terms: ledger_terms "bt_term_months :: bound_terms \<Rightarrow> int"
  "\<lambda>n b. b\<lparr>bt_term_months := n\<rparr>" "\<lambda>b. (bt_offer_ref b, bt_revision b, bt_terms b)"
  by unfold_locales (simp, simp, rule bound_terms_eqI)

end
