(* ===== verification/Rep_Facts.thy ===== *)
theory Rep_Facts
  imports Rep_Policy
begin

text \<open>
  What the rep's policy promises over a whole call, for every sequence of heard acts, timer ticks
  and changes of the floor: it never raises, it makes no offer before the caller is verified, each
  lever opens at most one rung, it commits at most once and only on a justified accept, and it
  hangs up on the clock only when its patience is used up.
\<close>

section \<open>The policy as a machine\<close>

datatype rep_input =
    Heard ear_act string string int "string list"
  | Tick int
  | Floor bool int

text \<open>The methods a world calls, in one function, and the state they leave.\<close>

definition rep_react :: "(string \<Rightarrow> string) \<Rightarrow> policy \<Rightarrow> rep_input \<Rightarrow> (policy \<times> rep_decision list) outcome" where
  "rep_react sha p i = (case i of
      Heard a utt heard t listed \<Rightarrow> rep_hear sha p a utt heard t listed
    | Tick t \<Rightarrow> Inr (rep_tick p t)
    | Floor free t \<Rightarrow> Inr (rep_floor p free t, []))"

definition rep_next :: "(string \<Rightarrow> string) \<Rightarrow> policy \<Rightarrow> rep_input \<Rightarrow> policy outcome" where
  "rep_next sha p i = and_then (rep_react sha p i) (\<lambda>(q, _). Inr q)"

lemma rep_next_Inr: "rep_next sha p i = Inr q \<longleftrightarrow> (\<exists>ds. rep_react sha p i = Inr (q, ds))"
  by (auto simp: rep_next_def outcome_simps)

section \<open>The invariant\<close>

definition served :: "rep_state list" where
  "served = [DISCOVER, OFFER, FINAL, CONFIRM, CONFIRMED]"

definition offers_follow :: "policy \<Rightarrow> bool" where
  "offers_follow p \<longleftrightarrow>
     map (\<lambda>(r, x). (r, mo_spec x)) (pol_offers p) =
     map (\<lambda>o'. (os_ref o', o')) (take (pol_rungs p) (cs_ladder (pol_spec p)))"

definition identity_ok :: "policy \<Rightarrow> bool" where
  "identity_ok p \<longleftrightarrow>
     ((0 < pol_rungs p \<or> pol_state p \<in> set served) \<longrightarrow> unverified p = []) \<and>
     (pol_state p \<in> {GREET, IDENTIFY} \<longrightarrow> pol_rungs p = 0)"

definition commits_ok :: "policy \<Rightarrow> bool" where
  "commits_ok p \<longleftrightarrow>
     length (le_entries (pol_ledger p)) \<le> 1 \<and> le_mode (pol_ledger p) = cs_ledger (pol_spec p) \<and>
     (pol_state p \<noteq> CONFIRMED \<longrightarrow> le_entries (pol_ledger p) = [] \<and>
        list_all (\<lambda>(r, x). mo_status x \<noteq> MadeAccepted) (pol_offers p))"

definition levers_ok :: "policy \<Rightarrow> bool" where
  "levers_ok p \<longleftrightarrow>
     distinct (pol_levers p) \<and> set (pol_levers p) \<subseteq> set LEVERS \<and> length (pol_levers p) = pol_rungs p \<and>
     pol_rungs p \<le> length (cs_ladder (pol_spec p))"

definition pending_ok :: "policy \<Rightarrow> bool" where
  "pending_ok p \<longleftrightarrow>
     pol_pending p \<in> insert None (Some ` set (dkeys (pol_offers p))) \<and>
     (pol_state p = CONFIRM \<longrightarrow> pol_pending p \<noteq> None)"

definition patience_ok :: "policy \<Rightarrow> bool" where
  "patience_ok p \<longleftrightarrow>
     (pol_state p \<noteq> ENDED \<longrightarrow>
        pol_silences p + pol_hold_strikes p < pt_strikes (cs_patience (pol_spec p)) \<and>
        pol_identity_strikes p < pt_strikes (cs_patience (pol_spec p)))"

definition rep_inv :: "policy \<Rightarrow> bool" where
  "rep_inv p \<longleftrightarrow>
     counterparty_valid (pol_spec p) \<and> offers_follow p \<and> identity_ok p \<and> commits_ok p \<and>
     levers_ok p \<and> pending_ok p \<and> patience_ok p"

lemmas rep_inv_parts =
  offers_follow_def identity_ok_def commits_ok_def levers_ok_def pending_ok_def patience_ok_def

lemma rep_inv_new: "counterparty_valid spec \<Longrightarrow> rep_inv (new_policy spec known t0)"
proof -
  assume v: "counterparty_valid spec"
  then have "0 < pt_strikes (cs_patience spec)" by (simp add: counterparty_valid_def)
  with v show ?thesis
    by (simp add: rep_inv_def rep_inv_parts new_policy_def new_ledger_def served_def)
qed

text \<open>The fields no invariant reads.\<close>

lemma unverified_cong [simp]:
  "unverified (p\<lparr>pol_state := s\<rparr>) = unverified p" "unverified (p\<lparr>pol_pending := x\<rparr>) = unverified p"
  "unverified (p\<lparr>pol_offers := os\<rparr>) = unverified p" "unverified (p\<lparr>pol_ledger := l\<rparr>) = unverified p"
  "unverified (p\<lparr>pol_silences := n\<rparr>) = unverified p" "unverified (p\<lparr>pol_identity_strikes := n\<rparr>) = unverified p"
  "unverified (p\<lparr>pol_levers := ls\<rparr>) = unverified p" "unverified (p\<lparr>pol_rungs := n\<rparr>) = unverified p"
  by (simp_all add: unverified_def)

lemma rep_inv_clocks [simp]:
  "rep_inv (p\<lparr>pol_free_since := f\<rparr>) = rep_inv p" "rep_inv (p\<lparr>pol_hold_since := f\<rparr>) = rep_inv p"
  "rep_inv (p\<lparr>pol_hold_clock := f\<rparr>) = rep_inv p" "rep_inv (p\<lparr>pol_timer_strikes := n\<rparr>) = rep_inv p"
  by (simp_all add: rep_inv_def rep_inv_parts unverified_def)

section \<open>Offers\<close>

lemma offer_keys:
  assumes "offers_follow p"
  shows "dkeys (pol_offers p) = map os_ref (take (pol_rungs p) (cs_ladder (pol_spec p)))"
proof -
  have "map fst (map (\<lambda>(r, x). (r, mo_spec x)) (pol_offers p)) =
      map fst (map (\<lambda>o'. (os_ref o', o')) (take (pol_rungs p) (cs_ladder (pol_spec p))))"
    using assms by (simp add: offers_follow_def)
  then show ?thesis by (simp add: comp_def case_prod_unfold)
qed

lemma offers_wf: "counterparty_valid (pol_spec p) \<Longrightarrow> offers_follow p \<Longrightarrow> wf_dict (pol_offers p)"
  by (simp add: offer_keys counterparty_valid_def distinct_map distinct_take flip: take_map)

lemma offer_made:
  assumes "offers_follow p" "dget (pol_offers p) r = Some x"
  shows "os_ref (mo_spec x) = r" "mo_spec x \<in> set (cs_ladder (pol_spec p))"
proof -
  from assms(2) have "(r, mo_spec x) \<in> set (map (\<lambda>(r, x). (r, mo_spec x)) (pol_offers p))"
    by (force dest: map_of_SomeD)
  then have "(r, mo_spec x) \<in> set (map (\<lambda>o'. (os_ref o', o')) (take (pol_rungs p) (cs_ladder (pol_spec p))))"
    using assms(1) by (simp only: offers_follow_def)
  then show "os_ref (mo_spec x) = r" "mo_spec x \<in> set (cs_ladder (pol_spec p))"
    by (auto dest: in_set_takeD)
qed

text \<open>An update of the offers' statuses keeps what they are.\<close>

lemma offers_follow_status:
  "offers_follow (p\<lparr>pol_offers := map (\<lambda>(r, x). (r, if P x then x\<lparr>mo_status := s\<rparr> else x)) (pol_offers p)\<rparr>) =
     offers_follow p"
proof -
  have "(\<lambda>(r, x). (r, mo_spec x)) \<circ> (\<lambda>(r, x). (r, if P x then x\<lparr>mo_status := s\<rparr> else x)) =
      (\<lambda>(r :: string, x :: made_offer). (r, mo_spec x))"
    by (rule ext) auto
  then show ?thesis by (simp add: offers_follow_def)
qed

lemma expire_inv: "rep_inv p \<Longrightarrow> rep_inv (fst (expire p t))"
proof -
  assume p: "rep_inv p"
  let ?f = "\<lambda>(r, x). (r, if lapsed t x then x\<lparr>mo_status := MadeExpired\<rparr> else x)"
  have k: "dkeys (map ?f os) = dkeys os" for os by (simp add: case_prod_unfold)
  have a: "list_all (\<lambda>(r, x). mo_status x \<noteq> MadeAccepted) os \<Longrightarrow>
      list_all (\<lambda>(r, x). mo_status x \<noteq> MadeAccepted) (map ?f os)" for os
    by (auto simp: list_all_iff split: if_split_asm)
  let ?q = "p\<lparr>pol_offers := map ?f (pol_offers p)\<rparr>"
  from p have "offers_follow ?q"
    using offers_follow_status [where P = "lapsed t" and s = MadeExpired] by (simp add: rep_inv_def)
  moreover have "pending_ok ?q"
    using p k [of "pol_offers p"] by (simp add: rep_inv_def pending_ok_def)
  moreover have "commits_ok ?q"
    using p a [of "pol_offers p"] by (simp add: rep_inv_def commits_ok_def)
  ultimately show ?thesis
    using p unfolding rep_inv_def expire_def fst_conv
    by (simp add: levers_ok_def identity_ok_def patience_ok_def)
qed

section \<open>Each operation keeps the invariant\<close>

lemma active_served:
  "\<not> rep_done p \<Longrightarrow> pol_state p \<notin> {GREET, IDENTIFY} \<Longrightarrow> pol_state p \<in> set served \<and> pol_state p \<noteq> CONFIRMED"
  by (cases "pol_state p") (simp_all add: rep_done_def REP_TERMINAL_def served_def)

lemma offer_state_served: "offer_state p \<in> {DISCOVER, OFFER, FINAL}"
  by (simp add: offer_state_def)

text \<open>A change of state among the served ones that writes nothing else.\<close>

lemma move_inv:
  assumes "rep_inv p" "pol_state p \<in> set served" "pol_state p \<noteq> CONFIRMED" "s \<in> {DISCOVER, OFFER, FINAL, CONFIRM}"
    "x = None \<and> s \<noteq> CONFIRM \<or> (\<exists>r. x = Some r \<and> r \<in> set (dkeys (pol_offers p)))"
  shows "rep_inv (p\<lparr>pol_state := s, pol_pending := x\<rparr>)"
proof -
  have "s \<in> set served" "s \<noteq> CONFIRMED" "s \<notin> {GREET, IDENTIFY}" "s \<noteq> ENDED" "pol_state p \<noteq> ENDED"
    using assms(2,4) by (auto simp: served_def)
  moreover have "pending_ok (p\<lparr>pol_state := s, pol_pending := x\<rparr>)"
    using assms(5) by (auto simp: pending_ok_def)
  ultimately show ?thesis
    using assms(1-3) unfolding rep_inv_def
    by (simp add: offers_follow_def identity_ok_def commits_ok_def levers_ok_def patience_ok_def)
qed

lemma transfer_inv: "rep_inv p \<Longrightarrow> \<not> rep_done p \<Longrightarrow> rep_inv (p\<lparr>pol_state := TRANSFER\<rparr>)"
  by (auto simp: rep_inv_def rep_inv_parts served_def rep_done_def REP_TERMINAL_def)

lemma lever_inv:
  assumes p: "rep_inv p" "pol_state p \<in> set served" "pol_state p \<noteq> CONFIRMED" and a: "a \<in> set LEVERS"
  shows "rep_inv (fst (lever p a t))"
proof (cases "a \<in> set (pol_levers p) \<or> length (cs_ladder (pol_spec p)) \<le> pol_rungs p")
  case True
  with p show ?thesis by (simp add: lever_def)
next
  case False
  let ?o = "cs_ladder (pol_spec p) ! pol_rungs p" and ?n = "pol_rungs p"
  let ?x = "\<lparr>mo_spec = ?o, mo_expires_ms = map_option (\<lambda>d. t + d) (os_ttl_ms ?o), mo_status = MadeOpen\<rparr>"
  let ?p1 = "p\<lparr>pol_levers := a # pol_levers p, pol_rungs := ?n + 1,
      pol_offers := dput (os_ref ?o) ?x (pol_offers p)\<rparr>"
  let ?q = "?p1\<lparr>pol_state := offer_state ?p1, pol_pending := None\<rparr>"
  have q: "fst (lever p a t) = ?q" using False by (simp add: lever_def Let_def)
  from p have follow: "offers_follow p" and v: "counterparty_valid (pol_spec p)" by (simp_all add: rep_inv_def)
  have "map os_ref (cs_ladder (pol_spec p)) ! ?n \<notin> set (take ?n (map os_ref (cs_ladder (pol_spec p))))"
    using False v by (auto simp: counterparty_valid_def in_set_conv_nth nth_eq_iff_index_eq simp del: nth_map)
  then have fresh: "os_ref ?o \<notin> set (dkeys (pol_offers p))"
    using False by (simp add: offer_keys [OF follow] take_map)
  have offers: "pol_offers ?q = pol_offers p @ [(os_ref ?o, ?x)]"
    using fresh by (simp add: dput_fresh)
  have "offers_follow ?q"
    using follow False unfolding offers_follow_def offers
    by (simp add: take_Suc_conv_app_nth)
  moreover have "commits_ok ?q"
    using p offer_state_served [of ?p1] unfolding commits_ok_def offers
    by (auto simp: rep_inv_def commits_ok_def)
  moreover have "levers_ok ?q"
    using p a False by (simp add: rep_inv_def levers_ok_def)
  moreover have "identity_ok ?q"
    using p offer_state_served [of ?p1] by (auto simp: rep_inv_def identity_ok_def)
  moreover have "patience_ok ?q"
    using p by (auto simp: rep_inv_def patience_ok_def served_def)
  ultimately show ?thesis
    using v offer_state_served [of ?p1] unfolding q rep_inv_def by (auto simp: pending_ok_def)
qed

lemma check_facts_inv:
  assumes p: "rep_inv p" "pol_state p = IDENTIFY"
  shows "rep_inv (fst (check_facts p fs))"
proof -
  let ?vs = "verify_facts p fs"
  let ?c = "if length (pol_verified p) < length ?vs then None else pol_hold_clock p"
  let ?q = "p\<lparr>pol_verified := ?vs, pol_hold_clock := ?c\<rparr>"
  have q: "rep_inv ?q"
    using p by (simp add: rep_inv_def rep_inv_parts served_def)
  have "rep_inv (?q\<lparr>pol_state := DISCOVER\<rparr>)" if "unverified ?q = []"
    using p that by (simp add: rep_inv_def rep_inv_parts served_def)
  with q show ?thesis unfolding check_facts_def Let_def by simp
qed

lemma identify_inv:
  assumes p: "rep_inv p" "pol_state p = IDENTIFY"
  shows "rep_inv (fst (identify p a))"
proof -
  let ?q = "p\<lparr>pol_identity_strikes := pol_identity_strikes p + 1\<rparr>"
  have "rep_inv (?q\<lparr>pol_state := ENDED\<rparr>)"
    using p by (simp add: rep_inv_def rep_inv_parts served_def)
  moreover have "rep_inv ?q" if "pol_identity_strikes p + 1 < pt_strikes (cs_patience (pol_spec p))"
    using p that by (simp add: rep_inv_def rep_inv_parts served_def)
  ultimately show ?thesis
    using p check_facts_inv [of p] check_facts_inv [of ?q]
    unfolding identify_def Let_def by simp
qed

section \<open>Accepting\<close>

lemma digits_strip: "isdigit v \<Longrightarrow> strip v = v"
proof -
  assume v: "isdigit v"
  have no: "\<not> is_space c" if "is_digit c" for c
    using that by (auto simp: is_digit_def is_space_def less_eq_char_def Let_def)
  have "dropWhile is_space w = w" if "list_all is_digit w" for w
    using that no by (cases w) auto
  with v show ?thesis by (simp add: strip_def isdigit_def)
qed

lemma split_absent: "c \<notin> set v \<Longrightarrow> split_on c v = [v]"
  by (induction v) auto

lemma digits_py_int: "isdigit v \<Longrightarrow> py_int v = Some (int_of_digits v)"
proof -
  assume v: "isdigit v"
  have not: "\<not> is_digit (CHR ''_'')" "\<not> is_digit (CHR ''-'')" "\<not> is_digit (CHR ''+'')"
    by (simp_all add: is_digit_def less_eq_char_def)
  from v obtain c cs where cs: "v = c # cs" "is_digit c" by (cases v) (auto simp: isdigit_def)
  have "CHR ''_'' \<notin> set v" using v not by (auto simp: isdigit_def list_all_iff)
  then have "py_digits v = Some (int_of_digits v)"
    using v by (simp add: py_digits_def split_absent)
  with cs not v show ?thesis by (auto simp: py_int_def digits_strip)
qed

lemma bound_of_total:
  assumes "rep_inv p" "dget (pol_offers p) r = Some x"
  shows "\<exists>b. bound_of (mo_spec x) = Inr b"
proof -
  have "offer_spec_valid (mo_spec x)"
    using assms offer_made [of p r x] by (auto simp: rep_inv_def counterparty_valid_def list_all_iff)
  then show ?thesis
    by (auto simp: offer_spec_valid_def bound_of_def digits_py_int split: option.splits)
qed

text \<open>An offer an accept is for is one the rep made.\<close>

lemma offer_at_made: "offer_at p r = Some x \<Longrightarrow> \<exists>k. dget (pol_offers p) k = Some x"
  by (auto simp: offer_at_def)

lemma filtered_made:
  assumes "wf_dict d" "(r, x) \<in> set (filter P d)"
  shows "dget d r = Some x \<and> P (r, x)"
  using assms by (auto intro: mem_dget)

lemma unreferenced_made:
  assumes "wf_dict (pol_offers p)" "unreferenced p heard listed = (Some x, named)"
    and pend: "pol_state p = CONFIRM \<Longrightarrow> pol_pending p \<noteq> None"
  shows "\<exists>r. dget (pol_offers p) r = Some x \<and>
    (named \<longrightarrow> names_offer (mo_spec x) heard \<or> pol_state p = CONFIRM \<and> pol_pending p = Some r)"
proof -
  define cands where "cands = filter (\<lambda>(r, x). r \<in> set listed \<and> mo_status x = MadeOpen \<and>
      names_offer (mo_spec x) heard) (pol_offers p)"
  have cand: "\<exists>r. dget (pol_offers p) r = Some x \<and> names_offer (mo_spec x) heard"
    if "xs = filter Q cands" "length xs = 1" "x = snd (hd xs)" for xs Q x
  proof -
    from that(2) obtain r y where xs: "xs = [(r, y)]" by (cases xs) auto
    with that(1) have "(r, y) \<in> set cands" by (metis filter_is_subset list.set_intros(1) subsetD)
    then have "dget (pol_offers p) r = Some y \<and> names_offer (mo_spec y) heard"
      using filtered_made [OF assms(1)] unfolding cands_def by fastforce
    with that(3) xs show ?thesis by auto
  qed
  show ?thesis
  proof (cases "pol_state p = CONFIRM \<and> offer_at p (pol_pending p) \<noteq> None")
    case True
    then obtain y where y: "offer_at p (pol_pending p) = Some y" by blast
    define others where "others = filter (\<lambda>(r, x). Some r \<noteq> pol_pending p) cands"
    have u: "unreferenced p heard listed = (if others = [] then (Some y, True)
        else (if length others = 1 then Some (snd (hd others)) else Some y, False))"
      using True y by (simp add: unreferenced_def Let_def flip: cands_def others_def)
    show ?thesis
    proof (cases "length others = 1")
      case one: True
      then have "others \<noteq> []" by auto
      with one u assms(2) have "\<not> named" "x = snd (hd others)" by simp_all
      with cand [OF others_def one] show ?thesis by blast
    next
      case False
      with u assms(2) have "x = y" by (auto split: if_splits)
      moreover from True pend obtain r where "pol_pending p = Some r" by blast
      ultimately show ?thesis using y True by (auto simp: offer_at_def)
    qed
  next
    case False
    have u: "unreferenced p heard listed =
        (if length cands = 1 then (Some (snd (hd cands)), True) else (offer_at p (latest p), False))"
      unfolding unreferenced_def Let_def if_not_P [OF False] cands_def by (rule refl)
    show ?thesis
    proof (cases "length cands = 1")
      case True
      with u assms(2) have "x = snd (hd cands)" by simp
      with cand [of cands "\<lambda>_. True" x] True show ?thesis by auto
    next
      case False
      with u assms(2) have "\<not> named" "offer_at p (latest p) = Some x" by auto
      then show ?thesis using offer_at_made by blast
    qed
  qed
qed

lemma accepted_offer_made:
  assumes p: "rep_inv p"
  obtains off named where "accepted_offer p a heard listed = Inr (off, named)"
    "\<And>x. off = Some x \<Longrightarrow> \<exists>r. dget (pol_offers p) r = Some x \<and>
       (named \<longrightarrow> names_offer (mo_spec x) heard \<or> pol_state p = CONFIRM \<and> pol_pending p = Some r)"
proof -
  from p have wf: "wf_dict (pol_offers p)" and pend: "pol_state p = CONFIRM \<Longrightarrow> pol_pending p \<noteq> None"
    by (simp_all add: offers_wf rep_inv_def pending_ok_def)
  show thesis
  proof (cases "ea_offer_ref a")
    case None
    obtain off named where u: "unreferenced p heard listed = (off, named)" by (cases "unreferenced p heard listed")
    with None have "accepted_offer p a heard listed = Inr (off, named)" by (simp add: accepted_offer_def Let_def)
    then show thesis by (rule that) (use unreferenced_made [OF wf _ pend] u in blast)
  next
    case (Some r)
    let ?off = "offer_at p (Some r)"
    let ?named = "case ?off of None \<Rightarrow> False | Some x \<Rightarrow> names_offer (mo_spec x) heard"
    show thesis
    proof (cases "\<not> ?named \<and> pol_state p = CONFIRM \<and> pol_pending p \<noteq> None")
      case True
      then obtain k where k: "pol_pending p = Some k" by blast
      with p have "k \<in> set (dkeys (pol_offers p))" by (auto simp: rep_inv_def pending_ok_def)
      then obtain x where x: "dget (pol_offers p) k = Some x"
        by (metis dget_None_keys option.exhaust)
      with True k Some have "accepted_offer p a heard listed = Inr (Some x, True)"
        by (simp add: accepted_offer_def Let_def)
      then show thesis by (rule that) (use x k True in auto)
    next
      case False
      have "accepted_offer p a heard listed =
          Inr (if ?named then ?off else (case ?off of None \<Rightarrow> offer_at p (latest p) | Some x \<Rightarrow> Some x), ?named)"
        using False Some by (auto simp: accepted_offer_def Let_def)
      then show thesis
        by (rule that) (auto dest!: offer_at_made split: option.splits if_splits)
    qed
  qed
qed

text \<open>What a commit rests on.\<close>

definition justified :: "policy \<Rightarrow> ear_act \<Rightarrow> string \<Rightarrow> commit \<Rightarrow> bool" where
  "justified p a heard k \<longleftrightarrow>
     (case dget (pol_offers p) (co_offer_ref k) of
        None \<Rightarrow> False
      | Some x \<Rightarrow>
          mo_status x = MadeOpen \<and>
          (names_offer (mo_spec x) heard \<or> pol_state p = CONFIRM \<and> pol_pending p = Some (co_offer_ref k)) \<and>
          (ea_price a = None \<or> ea_price a = offer_price (mo_spec x)) \<and>
          (case bound_of (mo_spec x) of
             Inl _ \<Rightarrow> False
           | Inr b \<Rightarrow> co_bound k =
               bound_in bt_term_months (\<lambda>n b. b\<lparr>bt_term_months := n\<rparr>) (cs_ledger (pol_spec p)) b))"

lemma accept_mark_follow:
  assumes "offers_follow p" "wf_dict (pol_offers p)" "dget (pol_offers p) r = Some x"
  shows "offers_follow (p\<lparr>pol_offers := dput r (x\<lparr>mo_status := s\<rparr>) (pol_offers p)\<rparr>)"
proof -
  have "map (\<lambda>(r, x). (r, mo_spec x)) (dput r (x\<lparr>mo_status := s\<rparr>) d) = map (\<lambda>(r, x). (r, mo_spec x)) d"
    if "wf_dict d" "dget d r = Some x" for d :: "(string, made_offer) dict"
    using that
  proof (induction d)
    case (Cons y d)
    then show ?case by (cases y) (auto split: if_splits)
  qed simp
  then show ?thesis using assms by (simp add: offers_follow_def)
qed

lemma commit_ok:
  assumes p: "rep_inv p" "pol_state p \<in> set served" "pol_state p \<noteq> CONFIRMED" and x: "dget (pol_offers p) r = Some x"
  obtains q i b l where "commit_offer sha p x utt =
      Inr (q, i, Some \<lparr>co_offer_ref = r, co_confirmation_id = confirmation_id sha r utt, co_bound = l\<rparr>)"
    "rep_inv q" "bound_of (mo_spec x) = Inr b" "pol_state q = CONFIRMED"
    "l = bound_in bt_term_months (\<lambda>n b. b\<lparr>bt_term_months := n\<rparr>) (cs_ledger (pol_spec p)) b"
proof -
  from bound_of_total [OF p(1) x] obtain b where b: "bound_of (mo_spec x) = Inr b" by blast
  from p have inv: "offers_follow p" "counterparty_valid (pol_spec p)" "pol_state p \<noteq> ENDED"
    by (auto simp: rep_inv_def served_def)
  from offer_made [OF inv(1) x] have ref: "os_ref (mo_spec x) = r" by simp
  let ?conf = "confirmation_id sha r utt"
  let ?l = "write_bound (pol_ledger p) ?conf b"
  let ?q = "p\<lparr>pol_offers := dput r (x\<lparr>mo_status := MadeAccepted\<rparr>) (pol_offers p),
      pol_state := CONFIRMED, pol_pending := None, pol_ledger := ?l\<rparr>"
  from p have empty: "le_entries (pol_ledger p) = []" "le_mode (pol_ledger p) = cs_ledger (pol_spec p)"
    by (simp_all add: rep_inv_def commits_ok_def)
  have "length (le_entries ?l) \<le> 1"
    using empty by (simp add: ledger_write_def split: option.split)
  then have "commits_ok ?q" using empty by (simp add: commits_ok_def)
  moreover have "offers_follow ?q"
    using accept_mark_follow [OF inv(1) offers_wf [OF inv(2,1)] x, of MadeAccepted] by (simp add: offers_follow_def)
  ultimately have q: "rep_inv ?q"
    using p inv by (auto simp: rep_inv_def identity_ok_def levers_ok_def pending_ok_def patience_ok_def served_def)
  have "ledger_lookup ?l ?conf = bound_in bt_term_months (\<lambda>n b. b\<lparr>bt_term_months := n\<rparr>) (cs_ledger (pol_spec p)) b"
    unfolding rep_terms.lookup_written using empty by (simp add: ledger_lookup_def bound_in_def)
  then show thesis
    using that [of ?q _ _ b] q b ref by (simp add: commit_offer_def Let_def)
qed

lemma accept_ok:
  assumes p: "rep_inv p" "pol_state p \<in> set served" "pol_state p \<noteq> CONFIRMED"
  obtains q i c where "accept sha p a utt heard listed = Inr (q, i, c)" "rep_inv q"
    "\<And>k. c = Some k \<Longrightarrow> justified p a heard k \<and> pol_state q = CONFIRMED"
proof -
  obtain off named where ao: "accepted_offer p a heard listed = Inr (off, named)"
    and made: "\<And>x. off = Some x \<Longrightarrow> \<exists>r. dget (pol_offers p) r = Some x \<and>
       (named \<longrightarrow> names_offer (mo_spec x) heard \<or> pol_state p = CONFIRM \<and> pol_pending p = Some r)"
    using accepted_offer_made [OF p(1)] by blast
  show thesis
  proof (cases off)
    case None
    with ao p(1) show thesis by (intro that [of p "just IClarify" None]) (simp_all add: accept_def)
  next
    case (Some x)
    with made obtain r where r: "dget (pol_offers p) r = Some x"
      and named: "named \<longrightarrow> names_offer (mo_spec x) heard \<or> pol_state p = CONFIRM \<and> pol_pending p = Some r"
      by blast
    from p(1) have ref: "os_ref (mo_spec x) = r" using offer_made [OF _ r] by (simp add: rep_inv_def)
    consider "mo_status x \<noteq> MadeOpen"
      | "mo_status x = MadeOpen" "\<not> named \<or> (ea_price a \<noteq> None \<and> ea_price a \<noteq> offer_price (mo_spec x))"
      | "mo_status x = MadeOpen" "named" "ea_price a = None \<or> ea_price a = offer_price (mo_spec x)"
      by (cases "mo_status x = MadeOpen"; cases named; cases "ea_price a = None \<or> ea_price a = offer_price (mo_spec x)") auto
    then show thesis
    proof cases
      case 1
      with ao Some p(1) show thesis by (intro that [of p _ None]) (simp_all add: accept_def)
    next
      case 2
      have "rep_inv (p\<lparr>pol_state := CONFIRM, pol_pending := Some r\<rparr>)"
        by (rule move_inv [OF p]) (use r in \<open>force dest: map_of_SomeD\<close>)+
      with 2 ao Some ref show thesis
        by (intro that [of "p\<lparr>pol_state := CONFIRM, pol_pending := Some r\<rparr>" _ None]) (auto simp: accept_def)
    next
      case 3
      from p r show thesis
      proof (rule commit_ok)
        fix q i b l
        assume c: "commit_offer sha p x utt =
            Inr (q, i, Some \<lparr>co_offer_ref = r, co_confirmation_id = confirmation_id sha r utt, co_bound = l\<rparr>)"
          "rep_inv q" "bound_of (mo_spec x) = Inr b" "pol_state q = CONFIRMED"
          "l = bound_in bt_term_months (\<lambda>n b. b\<lparr>bt_term_months := n\<rparr>) (cs_ledger (pol_spec p)) b"
        have "accept sha p a utt heard listed = commit_offer sha p x utt"
          using 3 ao Some by (auto simp: accept_def)
        with c 3 r named show thesis
          by (intro that) (auto simp: justified_def)
      qed
    qed
  qed
qed

section \<open>One reaction\<close>

lemma serve_ok:
  assumes p: "rep_inv p" "pol_state p \<in> set served" "pol_state p \<noteq> CONFIRMED"
  obtains q i c where "serve sha p a utt heard t listed = Inr (q, i, c)" "rep_inv q"
    "\<And>k. c = Some k \<Longrightarrow> ea_act a = Accept \<and> justified p a heard k \<and> pol_state q = CONFIRMED"
proof -
  consider "ea_act a \<in> set LEVERS" | "ea_act a = Accept" | "ea_act a = Decline"
    | "ea_act a \<notin> set LEVERS" "ea_act a \<noteq> Accept" "ea_act a \<noteq> Decline" by blast
  then show thesis
  proof cases
    case 1
    then have "serve sha p a utt heard t listed =
        Inr (fst (lever p (ea_act a) t), snd (lever p (ea_act a) t), None)"
      by (simp add: serve_def case_prod_unfold Let_def)
    then show thesis by (rule that) (use lever_inv [OF p 1] in simp_all)
  next
    case 2
    obtain q i c where acc: "accept sha p a utt heard listed = Inr (q, i, c)" "rep_inv q"
      "\<And>k. c = Some k \<Longrightarrow> justified p a heard k \<and> pol_state q = CONFIRMED"
      using accept_ok [OF p] by blast
    from 2 acc(1) have "serve sha p a utt heard t listed = Inr (q, i, c)"
      by (simp add: serve_def LEVERS_def)
    then show thesis by (rule that) (use acc(2,3) 2 in simp_all)
  next
    case 3
    let ?q = "if pol_state p = CONFIRM then p\<lparr>pol_state := offer_state p, pol_pending := None\<rparr> else p"
    from 3 have "serve sha p a utt heard t listed = Inr (?q, just IAckDecline, None)"
      by (simp add: serve_def LEVERS_def)
    moreover have "rep_inv (p\<lparr>pol_state := offer_state p, pol_pending := None\<rparr>)"
      using offer_state_served [of p] by (intro move_inv [OF p]) auto
    ultimately show thesis using p(1) by (intro that [of ?q]) auto
  next
    case 4
    then have "\<exists>i. serve sha p a utt heard t listed = Inr (p, i, None)"
      by (simp add: serve_def)
    with p(1) that show thesis by blast
  qed
qed

lemma react_ok:
  assumes p: "rep_inv p" "\<not> rep_done p"
  obtains q i c where "react sha p a utt heard t listed = Inr (q, i, c)" "rep_inv q"
    "\<And>k. c = Some k \<Longrightarrow> ea_act a = Accept \<and> justified p a heard k \<and> pol_state q = CONFIRMED"
proof -
  consider "ea_act a = AskSupervisor" | "ea_act a = HoldRequest"
    | "ea_act a \<noteq> AskSupervisor" "ea_act a \<noteq> HoldRequest" "pol_state p = GREET" "ea_act a \<noteq> ProvideFact"
    | "ea_act a \<noteq> AskSupervisor" "ea_act a \<noteq> HoldRequest" "pol_state p = GREET \<or> pol_state p = IDENTIFY"
        "\<not> (pol_state p = GREET \<and> ea_act a \<noteq> ProvideFact)"
    | "ea_act a \<noteq> AskSupervisor" "ea_act a \<noteq> HoldRequest" "pol_state p \<notin> {GREET, IDENTIFY}"
    by auto
  then show thesis
  proof cases
    case 1
    then have "react sha p a utt heard t listed = Inr (p\<lparr>pol_state := TRANSFER\<rparr>, just ITransfer, None)"
      by (simp add: react_def)
    then show thesis by (rule that) (use transfer_inv [OF p] in simp_all)
  next
    case 2
    then have "\<exists>c. react sha p a utt heard t listed =
        Inr (p\<lparr>pol_hold_clock := c, pol_hold_since := c\<rparr>, just IOkHold, None)"
      by (auto simp: react_def Let_def)
    then show thesis using that p(1) by (metis rep_inv_clocks(2,3) option.distinct(1))
  next
    case 3
    then have "react sha p a utt heard t listed =
        Inr (p\<lparr>pol_state := IDENTIFY\<rparr>, (just IGreet)\<lparr>pi_ask := unverified p\<rparr>, None)"
      by (simp add: react_def)
    moreover have "rep_inv (p\<lparr>pol_state := IDENTIFY\<rparr>)"
      using p(1) 3 by (simp add: rep_inv_def rep_inv_parts served_def)
    ultimately show thesis by (intro that) auto
  next
    case 4
    let ?p = "p\<lparr>pol_state := IDENTIFY\<rparr>"
    from 4 have "react sha p a utt heard t listed = Inr (fst (identify ?p a), snd (identify ?p a), None)"
      by (auto simp: react_def case_prod_unfold Let_def)
    moreover from 4 p(1) have early: "pol_rungs p = 0" "pol_state p \<noteq> CONFIRMED" "pol_state p \<noteq> ENDED"
      by (auto simp: rep_inv_def identity_ok_def)
    then have "rep_inv ?p"
      using p(1) by (auto simp: rep_inv_def rep_inv_parts served_def)
    then have "rep_inv (fst (identify ?p a))" by (rule identify_inv) simp
    ultimately show thesis by (intro that) auto
  next
    case 5
    with active_served [OF p(2)] have s: "pol_state p \<in> set served" "pol_state p \<noteq> CONFIRMED" by auto
    obtain q i c where r: "serve sha p a utt heard t listed = Inr (q, i, c)" "rep_inv q"
      "\<And>k. c = Some k \<Longrightarrow> ea_act a = Accept \<and> justified p a heard k \<and> pol_state q = CONFIRMED"
      using serve_ok [OF p(1) s] by blast
    from 5 r(1) have "react sha p a utt heard t listed = Inr (q, i, c)" by (simp add: react_def)
    then show thesis by (rule that) (use r(2,3) in blast)+
  qed
qed

text \<open>Before it reacts, the rep lets offers lapse and takes the floor.\<close>

definition listening :: "policy \<Rightarrow> int \<Rightarrow> policy" where
  "listening p t = (fst (expire p t))\<lparr>pol_free_since := None, pol_hold_since := None, pol_silences := 0\<rparr>"

lemma silences_inv: "rep_inv p \<Longrightarrow> rep_inv (p\<lparr>pol_silences := 0\<rparr>)"
  by (auto simp: rep_inv_def rep_inv_parts)

lemma listening_ok: "rep_inv p \<Longrightarrow> rep_inv (listening p t)" "pol_state (listening p t) = pol_state p"
  by (simp_all add: listening_def expire_inv silences_inv) (simp add: expire_def)

lemma hear_ok:
  assumes p: "rep_inv p" "\<not> rep_done p"
  obtains q i c r where "react sha (listening p t) a utt heard t listed = Inr (q, i, c)"
    "rep_hear sha p a utt heard t listed = Inr (r, snd (expire p t) @
       [\<lparr>rd_from = pol_state p, rd_to = pol_state q, rd_intent = i, rd_rung = rung_of q, rd_commit = c,
         rd_strike = strikes (listening p t) < strikes q\<rparr>])"
    "rep_inv r" "r = q \<or> r = q\<lparr>pol_hold_clock := None\<rparr>"
    "\<And>k. c = Some k \<Longrightarrow> ea_act a = Accept \<and> justified (listening p t) a heard k \<and> pol_state q = CONFIRMED"
proof -
  let ?l = "listening p t"
  have nd: "\<not> rep_done ?l" using p(2) by (simp add: rep_done_def listening_ok)
  obtain q i c where r: "react sha ?l a utt heard t listed = Inr (q, i, c)" "rep_inv q"
    "\<And>k. c = Some k \<Longrightarrow> ea_act a = Accept \<and> justified ?l a heard k \<and> pol_state q = CONFIRMED"
    using react_ok [OF listening_ok(1) [OF p(1)] nd] by blast
  let ?r = "if pol_state ?l \<noteq> IDENTIFY \<and> ea_act a \<noteq> HoldRequest then q\<lparr>pol_hold_clock := None\<rparr> else q"
  have h: "rep_hear sha p a utt heard t listed = Inr (?r, snd (expire p t) @
       [\<lparr>rd_from = pol_state ?l, rd_to = pol_state q, rd_intent = i, rd_rung = rung_of q, rd_commit = c,
         rd_strike = strikes ?l < strikes q\<rparr>])"
    unfolding rep_hear_def if_not_P [OF p(2)] Let_def case_prod_unfold listening_def [symmetric] r(1)
      and_then_Inr fst_conv snd_conv by (rule refl)
  show thesis
    by (rule that [OF r(1) h [unfolded listening_ok(2)]]) (use r(2,3) in auto)
qed

lemma tick_inv: "rep_inv p \<Longrightarrow> rep_inv (fst (rep_tick p t))"
proof -
  assume p: "rep_inv p"
  have "rep_inv (timer_strike q t)" if "rep_inv q" "pol_state q \<noteq> CONFIRMED" for q
  proof -
    let ?held = "pol_hold_since q \<noteq> None"
    define r where "r = q\<lparr>pol_timer_strikes := pol_timer_strikes q + 1,
        pol_silences := (if ?held then pol_silences q else pol_silences q + 1),
        pol_hold_strikes := (if ?held then pol_hold_strikes q + 1 else pol_hold_strikes q),
        pol_free_since := None, pol_hold_since := (if ?held then Some t else None),
        pol_hold_clock := (if ?held \<and> pol_hold_clock q \<noteq> None then Some t else pol_hold_clock q)\<rparr>"
    have parts: "counterparty_valid (pol_spec r)" "offers_follow r" "identity_ok r" "commits_ok r" "levers_ok r"
      "pending_ok r" "pol_identity_strikes r = pol_identity_strikes q" "pol_spec r = pol_spec q" "pol_state r = pol_state q"
      using that(1) by (simp_all add: r_def rep_inv_def rep_inv_parts unverified_def)
    have "rep_inv (r\<lparr>pol_state := ENDED\<rparr>)"
      using parts that(2) by (simp add: rep_inv_def rep_inv_parts served_def)
    moreover have "rep_inv r" if "pol_silences r + pol_hold_strikes r < pt_strikes (cs_patience (pol_spec r))"
      using parts \<open>rep_inv q\<close> that by (simp add: rep_inv_def patience_ok_def)
    ultimately show ?thesis
      unfolding timer_strike_def Let_def r_def [symmetric] by (simp add: not_le)
  qed
  moreover have "pol_state (fst (expire p t)) = pol_state p" by (simp add: expire_def)
  ultimately show ?thesis
    using expire_inv [OF p] p
    by (auto simp: rep_tick_def Let_def case_prod_unfold rep_done_def REP_TERMINAL_def)
qed

section \<open>Whole calls\<close>

lemma rep_next_total:
  assumes "rep_inv p"
  shows "\<exists>q. rep_next sha p i = Inr q \<and> rep_inv q"
proof (cases i)
  case (Heard a utt heard t listed)
  show ?thesis
  proof (cases "rep_done p")
    case True
    with Heard assms show ?thesis by (simp add: rep_next_def rep_react_def rep_hear_def)
  next
    case False
    with Heard show ?thesis
      using hear_ok [OF assms False, of sha t a utt heard listed] by (fastforce simp: rep_next_def rep_react_def)
  qed
next
  case (Tick t)
  with tick_inv [OF assms, of t] show ?thesis
    by (cases "rep_tick p t") (simp add: rep_next_def rep_react_def)
next
  case (Floor free t)
  with assms show ?thesis by (simp add: rep_next_def rep_react_def rep_floor_def)
qed

interpretation rep: guarded_machine "rep_next sha" rep_inv for sha
  by unfold_locales (metis rep_next_total sum.inject(2))

lemma run_total:
  assumes "\<And>s e. I s \<Longrightarrow> \<exists>s'. step s e = Inr s' \<and> I s'" "I s"
  shows "\<exists>s'. run step s es = Inr s' \<and> I s'"
  using assms(2)
proof (induction es arbitrary: s)
  case (Cons e es)
  from assms(1) [OF Cons.prems, of e] obtain s' where "step s e = Inr s'" "I s'" by blast
  with Cons.IH show ?case by simp
qed simp

text \<open>After a terminal state nothing but the floor changes, and nobody says anything.\<close>

lemma rep_done_next:
  assumes "rep_done p" "rep_react sha p i = Inr (q, ds)"
  shows "ds = [] \<and> pol_state q = pol_state p \<and> pol_ledger q = pol_ledger p \<and> pol_offers q = pol_offers p"
  using assms by (cases i) (auto simp: rep_react_def rep_hear_def rep_tick_def rep_floor_def)

text \<open>
  C14. The rep never fails and never forgets its rules: whatever is heard, whenever the clock ticks
  and whoever has the floor, its policy goes on without raising. The offers made are the first
  rungs of the ladder, one distinct lever each; none is made, and no state past identification is
  reached, before every identity fact was given; the ledger holds at most one entry, and that only
  once the rep confirmed; and both kinds of strikes stay below the patience until the rep hangs up.
\<close>

theorem rep_keeps_its_rules:
  assumes "counterparty_valid spec"
  shows "\<exists>p. run (rep_next sha) (new_policy spec known t0) ins = Inr p \<and>
    dkeys (pol_offers p) = map os_ref (take (length (pol_levers p)) (cs_ladder (pol_spec p))) \<and>
    distinct (pol_levers p) \<and> set (pol_levers p) \<subseteq> set LEVERS \<and>
    (pol_offers p \<noteq> [] \<or> pol_state p \<in> set served \<longrightarrow> set (cs_identity (pol_spec p)) \<subseteq> set (pol_verified p)) \<and>
    length (le_entries (pol_ledger p)) \<le> 1 \<and>
    (le_entries (pol_ledger p) \<noteq> [] \<longrightarrow> pol_state p = CONFIRMED) \<and>
    (pol_state p \<noteq> ENDED \<longrightarrow>
       pol_silences p + pol_hold_strikes p < pt_strikes (cs_patience (pol_spec p)) \<and>
       pol_identity_strikes p < pt_strikes (cs_patience (pol_spec p)))"
proof -
  obtain p where p: "run (rep_next sha) (new_policy spec known t0) ins = Inr p" "rep_inv p"
    using run_total [of rep_inv "rep_next sha", OF rep_next_total rep_inv_new [OF assms]] by blast
  then have keys: "dkeys (pol_offers p) = map os_ref (take (length (pol_levers p)) (cs_ladder (pol_spec p)))"
    by (simp add: offer_keys rep_inv_def levers_ok_def)
  then have "pol_offers p \<noteq> [] \<longrightarrow> 0 < pol_rungs p"
    using p(2) by (cases "pol_levers p") (auto simp: rep_inv_def levers_ok_def)
  then have "pol_offers p \<noteq> [] \<or> pol_state p \<in> set served \<longrightarrow>
      set (cs_identity (pol_spec p)) \<subseteq> set (pol_verified p)"
    using p(2) by (auto simp: rep_inv_def identity_ok_def unverified_def filter_empty_conv)
  with p keys show ?thesis
    by (auto simp: rep_inv_def levers_ok_def commits_ok_def patience_ok_def)
qed

definition sample_rung :: offer_spec where
  "sample_rung =
     \<lparr>os_ref = ''o1'', os_terms = [(''monthly_price'', ''68''), (''term_months'', ''12'')],
      os_hidden = [(''fee:setup'', ''20.00'')], os_ttl_ms = Some 60000\<rparr>"

definition sample_rep :: counterparty_spec where
  "sample_rep =
     \<lparr>cs_identity = [''account.last4''], cs_ladder = [sample_rung],
      cs_patience = \<lparr>pt_silence_ms = 6000, pt_hold_ms = 20000, pt_strikes = 3\<rparr>, cs_ledger = Misquote\<rparr>"

definition plain_act :: "act \<Rightarrow> ear_act" where
  "plain_act a = \<lparr>ea_act = a, ea_offer_ref = None, ea_price = None, ea_facts = []\<rparr>"

definition sample_call_inputs :: "rep_input list" where
  "sample_call_inputs =
     [Heard (plain_act Other) ''u1'' ''hello'' 1000 [],
      Heard ((plain_act ProvideFact)\<lparr>ea_facts := [(''account.last4'', ''12 34'')]\<rparr>) ''u2'' ''it is 1234'' 2000 [],
      Heard (plain_act Tenure) ''u3'' ''ten years'' 3000 []]"

definition sample_accepting :: rep_input where
  "sample_accepting = Heard (plain_act Accept) ''u4'' ''yes, 68.00 a month'' 4000 [''o1'']"

definition sample_sha :: "string \<Rightarrow> string" where
  "sample_sha s = ''00000007''"

lemma sample_rep_valid: "counterparty_valid sample_rep"
  by code_simp

theorem rep_keeps_its_rules_witness:
  "\<exists>p. run (rep_next sample_sha) (new_policy sample_rep [(''account.last4'', ''1234'')] 0) sample_call_inputs = Inr p \<and>
     distinct (pol_levers p)"
  using rep_keeps_its_rules [OF sample_rep_valid] by blast

text \<open>
  C15. What a commitment needs: the rep confirms only on a heard accept of an open, unexpired offer
  it made, which the caller named by price or reference, or of the offer it had just read back for
  confirmation; a price that was said is the offer's. What the ledger then binds are all terms of
  that offer, hidden ones included, unless the ledger misquotes or is absent.
\<close>

theorem commit_is_justified:
  assumes "counterparty_valid spec" "run (rep_next sha) (new_policy spec known t0) ins = Inr p"
    "rep_react sha p i = Inr (q, ds)" "d \<in> set ds" "rd_commit d = Some k"
  shows "\<exists>a utt heard t listed x b. i = Heard a utt heard t listed \<and> ea_act a = Accept \<and>
    dget (pol_offers p) (co_offer_ref k) = Some x \<and> mo_status x = MadeOpen \<and> \<not> lapsed t x \<and>
    (names_offer (mo_spec x) heard \<or> pol_state p = CONFIRM \<and> pol_pending p = Some (co_offer_ref k)) \<and>
    (ea_price a = None \<or> ea_price a = offer_price (mo_spec x)) \<and> bound_of (mo_spec x) = Inr b \<and>
    co_bound k = bound_in bt_term_months (\<lambda>n b. b\<lparr>bt_term_months := n\<rparr>) (cs_ledger (pol_spec p)) b \<and>
    rd_to d = CONFIRMED"
proof -
  have p: "rep_inv p" using rep.run_inv [OF rep_inv_new [OF assms(1)] assms(2)] .
  have lapse: "rd_commit d' = None" if "d' \<in> set (snd (expire p t))" for d' t
    using that by (auto simp: expire_def)
  have lapse': "rd_commit d' = None" if "expire p t = (q', ds')" "d' \<in> set ds'" for d' t q' ds'
    using lapse [of d' t] that by simp
  obtain a utt heard t listed where i: "i = Heard a utt heard t listed"
    using assms(3-5) lapse lapse'
    by (cases i) (auto simp: rep_react_def rep_tick_def Let_def case_prod_unfold split: if_split_asm)
  have nd: "\<not> rep_done p"
    using assms(3,4) rep_done_next by fastforce
  obtain q' j c r where h: "rep_hear sha p a utt heard t listed = Inr (r, snd (expire p t) @
       [\<lparr>rd_from = pol_state p, rd_to = pol_state q', rd_intent = j, rd_rung = rung_of q', rd_commit = c,
         rd_strike = strikes (listening p t) < strikes q'\<rparr>])"
    and c: "\<And>k. c = Some k \<Longrightarrow> ea_act a = Accept \<and> justified (listening p t) a heard k \<and> pol_state q' = CONFIRMED"
    using hear_ok [OF p nd, of sha t a utt heard listed] by metis
  from h assms(3-5) i lapse [of d t] have "c = Some k" and to: "rd_to d = pol_state q'"
    by (auto simp: rep_react_def)
  with c have acc: "ea_act a = Accept" "justified (listening p t) a heard k" "pol_state q' = CONFIRMED" by auto
  have offers: "pol_offers (listening p t) =
      map (\<lambda>(r, x). (r, if lapsed t x then x\<lparr>mo_status := MadeExpired\<rparr> else x)) (pol_offers p)"
    and rest: "pol_pending (listening p t) = pol_pending p" "pol_spec (listening p t) = pol_spec p"
    by (simp_all add: listening_def expire_def)
  have "dget (pol_offers (listening p t)) r = map_option (\<lambda>x. if lapsed t x then x\<lparr>mo_status := MadeExpired\<rparr> else x)
      (dget (pol_offers p) r)" for r
    unfolding offers by (simp add: map_of_map)
  with acc(2) obtain x b where x: "dget (pol_offers p) (co_offer_ref k) = Some x" "mo_status x = MadeOpen" "\<not> lapsed t x"
      "names_offer (mo_spec x) heard \<or> pol_state p = CONFIRM \<and> pol_pending p = Some (co_offer_ref k)"
      "ea_price a = None \<or> ea_price a = offer_price (mo_spec x)" "bound_of (mo_spec x) = Inr b"
      "co_bound k = bound_in bt_term_months (\<lambda>n b. b\<lparr>bt_term_months := n\<rparr>) (cs_ledger (pol_spec p)) b"
    by (auto simp: justified_def rest listening_ok(2) split: option.splits sum.splits if_splits)
  show ?thesis
    by (intro exI conjI) (rule i acc(1) x | simp add: to acc(3))+
qed

text \<open>The sample caller is verified, gets one offer and accepts it by its price.\<close>

definition sample_called :: policy where
  "sample_called =
     projr (run (rep_next sample_sha) (new_policy sample_rep [(''account.last4'', ''1234'')] 0) sample_call_inputs)"

definition sample_answer :: "policy \<times> rep_decision list" where
  "sample_answer = projr (rep_react sample_sha sample_called sample_accepting)"

lemma not_isl_projr: "\<not> isl x \<Longrightarrow> x = Inr (projr x)"
  by (cases x) simp_all

lemma sample_call_runs:
  "run (rep_next sample_sha) (new_policy sample_rep [(''account.last4'', ''1234'')] 0) sample_call_inputs = Inr sample_called"
  unfolding sample_called_def by (rule not_isl_projr) code_simp

lemma sample_answer_given: "rep_react sample_sha sample_called sample_accepting = Inr sample_answer"
  unfolding sample_answer_def by (rule not_isl_projr) code_simp

lemma sample_answer_commits:
  "snd sample_answer \<noteq> [] \<and> rd_commit (hd (snd sample_answer)) \<noteq> None"
  by code_simp

theorem commit_is_justified_witness:
  "\<exists>k. rd_commit (hd (snd sample_answer)) = Some k \<and>
     (\<exists>x. dget (pol_offers sample_called) (co_offer_ref k) = Some x \<and> mo_status x = MadeOpen)"
proof -
  have r: "rep_react sample_sha sample_called sample_accepting = Inr (fst sample_answer, snd sample_answer)"
    and d: "hd (snd sample_answer) \<in> set (snd sample_answer)"
    using sample_answer_given sample_answer_commits by (auto intro: hd_in_set)
  obtain k where "rd_commit (hd (snd sample_answer)) = Some k"
    using sample_answer_commits by blast
  with commit_is_justified [OF sample_rep_valid sample_call_runs r d this] show ?thesis by blast
qed

end
