(* ===== verification/Rep_Calls.thy ===== *)
theory Rep_Calls
  imports Rep_Facts
begin

text \<open>
  Whole calls with the rep: a call that is over stays over, a caller who says nothing is hung up
  on, and the terms an offer hides are said only when they are asked for.
\<close>

section \<open>The end of a call\<close>

interpretation rep_over: absorbing_machine "rep_next sha" rep_inv "\<lambda>q. rep_done q \<and> pol_ledger q = l \<and> pol_offers q = os"
  for sha l os
proof unfold_locales
  fix s e s'
  assume "rep_done s \<and> pol_ledger s = l \<and> pol_offers s = os" "rep_next sha s e = Inr s'"
  then show "rep_done s' \<and> pol_ledger s' = l \<and> pol_offers s' = os"
    using rep_done_next [of s sha e s'] by (auto simp: rep_next_Inr rep_done_def)
qed

text \<open>
  Once the rep has confirmed, transferred or hung up, nothing that is heard and no timer
  reopens the call: it stays over, the ledger and the offers stay as they are, and the rep says
  nothing more.
\<close>

theorem over_stays_over:
  assumes "counterparty_valid spec" "run (rep_next sha) (new_policy spec known t0) ins = Inr p" "rep_done p"
    "run (rep_next sha) p later = Inr q" "rep_react sha q i = Inr (r, ds)"
  shows "rep_done q \<and> pol_ledger q = pol_ledger p \<and> pol_offers q = pol_offers p \<and> ds = []"
proof -
  have "rep_inv p" using rep.run_inv [OF rep_inv_new [OF assms(1)] assms(2)] .
  with rep_over.run_stays [OF this _ assms(4), of "pol_ledger p" "pol_offers p"] assms(3)
  have "rep_done q \<and> pol_ledger q = pol_ledger p \<and> pol_offers q = pol_offers p" by simp
  with rep_done_next [OF _ assms(5)] show ?thesis by simp
qed

definition sample_over :: policy where
  "sample_over = projr (rep_next sample_sha sample_called sample_accepting)"

lemma sample_over_runs:
  "run (rep_next sample_sha) (new_policy sample_rep [(''account.last4'', ''1234'')] 0)
     (sample_call_inputs @ [sample_accepting]) = Inr sample_over"
  "rep_done sample_over"
proof -
  have "rep_next sample_sha sample_called sample_accepting = Inr sample_over"
    unfolding sample_over_def by (rule not_isl_projr) (simp add: rep_next_def sample_answer_given case_prod_unfold)
  then show "run (rep_next sample_sha) (new_policy sample_rep [(''account.last4'', ''1234'')] 0)
     (sample_call_inputs @ [sample_accepting]) = Inr sample_over"
    by (simp add: run_append sample_call_runs)
  show "rep_done sample_over" by code_simp
qed

definition sample_later :: policy where
  "sample_later = projr (run (rep_next sample_sha) sample_over [Tick 90000, Floor True 0])"

lemma sample_later_runs:
  "run (rep_next sample_sha) sample_over [Tick 90000, Floor True 0] = Inr sample_later"
  "rep_react sample_sha sample_later (Tick 99000) = Inr (projr (rep_react sample_sha sample_later (Tick 99000)))"
proof -
  have "\<not> isl (run (rep_next sample_sha) sample_over [Tick 90000, Floor True 0])" by code_simp
  then show "run (rep_next sample_sha) sample_over [Tick 90000, Floor True 0] = Inr sample_later"
    unfolding sample_later_def by (rule not_isl_projr)
  have "\<not> isl (rep_react sample_sha sample_later (Tick 99000))" by code_simp
  then show "rep_react sample_sha sample_later (Tick 99000) = Inr (projr (rep_react sample_sha sample_later (Tick 99000)))"
    by (rule not_isl_projr)
qed

theorem over_stays_over_witness:
  "rep_done sample_later \<and> pol_ledger sample_later = pol_ledger sample_over \<and>
   snd (projr (rep_react sample_sha sample_later (Tick 99000))) = []"
  using over_stays_over [OF sample_rep_valid sample_over_runs sample_later_runs(1), of "Tick 99000"]
    sample_later_runs(2) by (metis prod.collapse)

section \<open>Silence\<close>

definition silent_round :: "int \<Rightarrow> int \<Rightarrow> rep_input list" where
  "silent_round silence t = [Floor True t, Tick (t + silence)]"

text \<open>
  How long the rep waits: for a caller who put it on hold, the length of a hold from when it began or
  last had a check-in; else the length of a silence from when the floor became free. Rounds with a held
  rep start at or after the hold or the check-in before.
\<close>

definition wait_ms :: "policy \<Rightarrow> int" where
  "wait_ms p = (let pt = cs_patience (pol_spec p) in if pol_hold_since p = None then pt_silence_ms pt else pt_hold_ms pt)"

fun spaced :: "int \<Rightarrow> int \<Rightarrow> int list \<Rightarrow> bool" where
  "spaced from_ms w [] \<longleftrightarrow> True"
| "spaced from_ms w (t # ts) \<longleftrightarrow> from_ms \<le> t \<and> spaced (t + w) w ts"

definition hold_spaced :: "policy \<Rightarrow> int list \<Rightarrow> bool" where
  "hold_spaced p ts \<longleftrightarrow> (case pol_hold_since p of None \<Rightarrow> True | Some h \<Rightarrow> spaced h (wait_ms p) ts)"

lemma silent_round_step:
  assumes "rep_inv p" "\<not> rep_done p" "hold_spaced p (t # ts)"
  obtains q where "run (rep_next sha) p (silent_round (wait_ms p) t) = Inr q" "rep_inv q"
    "pol_state q = ENDED \<or> (\<not> rep_done q \<and> hold_spaced q ts \<and> wait_ms q = wait_ms p \<and> pol_spec q = pol_spec p \<and>
       pol_silences q + pol_hold_strikes q = Suc (pol_silences p + pol_hold_strikes p))"
proof -
  let ?w = "wait_ms p"
  let ?f = "rep_floor p True t" and ?q = "fst (rep_tick (rep_floor p True t) (t + ?w))"
  have r: "run (rep_next sha) p (silent_round ?w t) = Inr ?q"
    by (simp add: silent_round_def rep_next_def rep_react_def case_prod_unfold)
  have "rep_inv ?q"
    using assms(1) by (simp add: tick_inv rep_floor_def)
  have nd: "\<not> rep_done ?f" using assms(2) by (simp add: rep_done_def rep_floor_def)
  have o': "overdue (fst (expire ?f (t + ?w))) (t + ?w)"
    using assms(3) by (auto simp: overdue_def expire_def rep_floor_def wait_ms_def Let_def hold_spaced_def split: option.split)
  have "?q = timer_strike (fst (expire ?f (t + ?w))) (t + ?w)"
    using nd o' by (simp add: rep_tick_def Let_def case_prod_unfold)
  then have "pol_state ?q = ENDED \<or> (\<not> rep_done ?q \<and> hold_spaced ?q ts \<and> wait_ms ?q = ?w \<and> pol_spec ?q = pol_spec p \<and>
       pol_silences ?q + pol_hold_strikes ?q = Suc (pol_silences p + pol_hold_strikes p))"
    using nd assms(3)
    by (cases "pol_hold_since p")
       (auto simp: timer_strike_def Let_def expire_def rep_floor_def rep_done_def wait_ms_def hold_spaced_def)
  with r \<open>rep_inv ?q\<close> show thesis by (rule that)
qed

lemma ended_stays: "pol_state p = ENDED \<Longrightarrow> run (rep_next sha) p ins = Inr q \<Longrightarrow> pol_state q = ENDED"
proof (induction ins arbitrary: p)
  case (Cons i ins)
  then obtain m where m: "rep_next sha p i = Inr m" "run (rep_next sha) m ins = Inr q"
    by (auto simp: run_Cons_Inr simp del: run.simps)
  have "rep_done p" using Cons.prems by (simp add: rep_done_def REP_TERMINAL_def)
  then have "pol_state m = ENDED"
    using m(1) Cons.prems rep_done_next by (fastforce simp: rep_next_Inr)
  with Cons.IH m(2) show ?case by blast
qed simp

lemma silence_ends:
  assumes "rep_inv p" "\<not> rep_done p" "hold_spaced p ts"
    "pt_strikes (cs_patience (pol_spec p)) \<le> pol_silences p + pol_hold_strikes p + length ts"
  shows "\<exists>q. run (rep_next sha) p (concat (map (silent_round (wait_ms p)) ts)) = Inr q \<and> pol_state q = ENDED"
  using assms
proof (induction ts arbitrary: p)
  case Nil
  then have "pol_state p = ENDED" by (auto simp: rep_inv_def patience_ok_def)
  with Nil show ?case by (simp add: rep_done_def REP_TERMINAL_def)
next
  case (Cons t ts)
  let ?s = "wait_ms p"
  obtain q where q: "run (rep_next sha) p (silent_round ?s t) = Inr q" "rep_inv q"
    "pol_state q = ENDED \<or> (\<not> rep_done q \<and> hold_spaced q ts \<and> wait_ms q = ?s \<and> pol_spec q = pol_spec p \<and>
       pol_silences q + pol_hold_strikes q = Suc (pol_silences p + pol_hold_strikes p))"
    using silent_round_step [OF Cons.prems(1-3)] by blast
  show ?case
  proof (cases "pol_state q = ENDED")
    case True
    obtain r where "run (rep_next sha) q (concat (map (silent_round ?s) ts)) = Inr r"
      using run_total [of rep_inv "rep_next sha", OF rep_next_total q(2)] by blast
    with True q(1) show ?thesis by (auto simp: run_append dest: ended_stays)
  next
    case False
    with q(3) have "\<exists>r. run (rep_next sha) q (concat (map (silent_round (wait_ms q)) ts)) = Inr r \<and> pol_state r = ENDED"
      using Cons.prems(4) by (intro Cons.IH [OF q(2)]) auto
    with False q(1,3) show ?thesis by (auto simp: run_append)
  qed
qed

text \<open>
  C16. A call with a caller who says nothing ends: from any reachable open state, on hold or not, as many
  waits of the rep's length (of a hold when it is on hold, else of a silence) as its patience has strikes make it
  hang up. On hold the waits follow each other: each starts at or after the hold or the check-in before it.
\<close>

theorem silence_ends_the_call:
  assumes "counterparty_valid spec" "run (rep_next sha) (new_policy spec known t0) ins = Inr p"
    "\<not> rep_done p" "hold_spaced p ts" "pt_strikes (cs_patience (pol_spec p)) \<le> length ts"
  shows "\<exists>q. run (rep_next sha) p (concat (map (silent_round (wait_ms p)) ts)) = Inr q \<and> pol_state q = ENDED"
  using silence_ends [OF rep.run_inv [OF rep_inv_new [OF assms(1)] assms(2)] assms(3,4)] assms(5) by simp

lemma sample_called_open:
  "\<not> rep_done sample_called \<and> hold_spaced sample_called [10000, 20000, 30000] \<and>
   pt_strikes (cs_patience (pol_spec sample_called)) \<le> length [10000, 20000, 30000 :: int]"
  by code_simp

definition sample_holding :: rep_input where
  "sample_holding = Heard (plain_act HoldRequest) ''u4'' ''hold on'' 4000 []"

definition sample_held :: policy where
  "sample_held = projr (rep_next sample_sha sample_called sample_holding)"

lemma sample_held_runs:
  "run (rep_next sample_sha) (new_policy sample_rep [(''account.last4'', ''1234'')] 0)
     (sample_call_inputs @ [sample_holding]) = Inr sample_held"
proof -
  have "\<not> isl (rep_next sample_sha sample_called sample_holding)" by code_simp
  then have "rep_next sample_sha sample_called sample_holding = Inr sample_held"
    unfolding sample_held_def by (rule not_isl_projr)
  then show ?thesis by (simp add: run_append sample_call_runs)
qed

lemma sample_held_open:
  "\<not> rep_done sample_held \<and> pol_hold_since sample_held \<noteq> None \<and> hold_spaced sample_held [100000, 200000, 300000] \<and>
   pt_strikes (cs_patience (pol_spec sample_held)) \<le> length [100000, 200000, 300000 :: int]"
  by code_simp

theorem silence_ends_the_call_witness:
  "(\<exists>q. run (rep_next sample_sha) sample_called
     (concat (map (silent_round (wait_ms sample_called)) [10000, 20000, 30000])) = Inr q \<and> pol_state q = ENDED) \<and>
   pol_hold_since sample_held \<noteq> None \<and>
   (\<exists>q. run (rep_next sample_sha) sample_held
     (concat (map (silent_round (wait_ms sample_held)) [100000, 200000, 300000])) = Inr q \<and> pol_state q = ENDED)"
  using silence_ends_the_call [OF sample_rep_valid sample_call_runs, of "[10000, 20000, 30000]"] sample_called_open
    silence_ends_the_call [OF sample_rep_valid sample_held_runs, of "[100000, 200000, 300000]"] sample_held_open
  by simp

section \<open>What is said\<close>

definition says_known :: "act \<Rightarrow> counterparty_spec \<Rightarrow> public_intent \<Rightarrow> bool" where
  "says_known a spec i \<longleftrightarrow>
     (case pi_kind i of
        IOffer \<Rightarrow> a \<in> set LEVERS \<and> pi_say i \<in> os_terms ` set (cs_ladder spec)
      | IFinalOffer \<Rightarrow> a \<in> set LEVERS \<and> pi_say i \<in> os_terms ` set (cs_ladder spec)
      | IReadback \<Rightarrow> a = AskReadback \<and> pi_say i \<in> all_terms ` set (cs_ladder spec)
      | IConfirmAccept \<Rightarrow> a = Accept \<and> pi_say i \<in> all_terms ` set (cs_ladder spec)
      | IConfirmed \<Rightarrow> a = Accept \<and> dkeys (pi_say i) = [''confirmation'']
      | _ \<Rightarrow> pi_say i = [])"

lemma says_nothing [simp]:
  "k \<notin> {IOffer, IFinalOffer, IReadback, IConfirmAccept, IConfirmed} \<Longrightarrow> says_known a spec (just k)"
  "k \<notin> {IOffer, IFinalOffer, IReadback, IConfirmAccept, IConfirmed} \<Longrightarrow>
     says_known a spec ((just k)\<lparr>pi_offer_ref := r\<rparr>)"
  "k \<notin> {IOffer, IFinalOffer, IReadback, IConfirmAccept, IConfirmed} \<Longrightarrow>
     says_known a spec ((just k)\<lparr>pi_ask := xs\<rparr>)"
  "k \<notin> {IOffer, IFinalOffer, IReadback, IConfirmAccept, IConfirmed} \<Longrightarrow>
     says_known a spec ((just k)\<lparr>pi_reason := s\<rparr>)"
  by (cases k; simp add: says_known_def just_def)+

lemma lever_says:
  assumes "a \<in> set LEVERS"
  shows "says_known a (pol_spec p) (snd (lever p a t))"
  using assms by (auto simp: lever_def Let_def says_known_def just_def)

lemma made_in_ladder:
  assumes "rep_inv p" "dget (pol_offers p) r = Some x"
  shows "mo_spec x \<in> set (cs_ladder (pol_spec p))"
proof -
  have "(r, mo_spec x) \<in> set (map (\<lambda>(r, x). (r, mo_spec x)) (pol_offers p))"
    using assms(2) dget_mem by force
  with assms(1) have "(r, mo_spec x) \<in> set (map (\<lambda>o'. (os_ref o', o')) (take (pol_rungs p) (cs_ladder (pol_spec p))))"
    by (simp only: rep_inv_def offers_follow_def)
  then show ?thesis by (auto dest: in_set_takeD)
qed

lemma terms_said:
  assumes "rep_inv p" "dget (pol_offers p) r = Some x"
  shows "says_known AskReadback (pol_spec p) (terms_intent IReadback (mo_spec x))"
    "says_known Accept (pol_spec p) (terms_intent IConfirmAccept (mo_spec x))"
  using made_in_ladder [OF assms] by (simp_all add: says_known_def terms_intent_def just_def)

lemma read_back_says:
  assumes "rep_inv p"
  shows "says_known AskReadback (pol_spec p) (read_back p a)"
  using terms_said(1) [OF assms] by (auto simp: read_back_def dest!: offer_at_made split: option.split)

lemma commit_says:
  assumes "commit_offer sha p x utt = Inr (q, i, c)"
  shows "says_known Accept (pol_spec p) i"
  using assms by (cases "bound_of (mo_spec x)") (auto simp: commit_offer_def Let_def says_known_def just_def)

lemma accept_says:
  assumes p: "rep_inv p" and r: "accept sha p a utt heard listed = Inr (q, i, c)"
  shows "says_known Accept (pol_spec p) i"
proof -
  obtain off named where o': "accepted_offer p a heard listed = Inr (off, named)"
    "\<And>x. off = Some x \<Longrightarrow> \<exists>r. dget (pol_offers p) r = Some x"
    using accepted_offer_made [OF p] by metis
  show ?thesis
  proof (cases off)
    case None
    with r o'(1) show ?thesis by (auto simp: accept_def)
  next
    case (Some x)
    with o'(2) obtain k where k: "dget (pol_offers p) k = Some x" by blast
    from r o'(1) Some show ?thesis
      using terms_said(2) [OF p k] commit_says [of sha p x utt q i c]
      by (auto simp: accept_def split: if_splits)
  qed
qed

lemma serve_says:
  assumes "rep_inv p" "serve sha p a utt heard t listed = Inr (q, i, c)"
  shows "says_known (ea_act a) (pol_spec p) i"
  using assms lever_says [of "ea_act a" p t] read_back_says [OF assms(1), of a] accept_says [OF assms(1), of sha a utt heard listed q i c]
  by (auto simp: serve_def case_prod_unfold Let_def split: if_splits)

lemma identify_says: "says_known b spec (snd (identify p a))"
  by (auto simp: identify_def check_facts_def Let_def)

lemma react_says:
  assumes "rep_inv p" "react sha p a utt heard t listed = Inr (q, i, c)"
  shows "says_known (ea_act a) (pol_spec p) i"
proof (cases "ea_act a = AskSupervisor \<or> ea_act a = HoldRequest \<or> pol_state p = GREET \<or> pol_state p = IDENTIFY")
  case True
  then show ?thesis
    using assms(2) identify_says [of "ea_act a" "pol_spec p" "p\<lparr>pol_state := IDENTIFY\<rparr>" a]
    by (auto simp: react_def case_prod_unfold Let_def split: if_splits)
next
  case False
  with assms show ?thesis by (intro serve_says) (auto simp: react_def)
qed

text \<open>
  The terms an offer hides are said only when asked for: in every call, what a line of the rep
  may say is nothing, the shown terms of an offer it just opened to a lever, all terms of an offer
  when it reads one back on request or asks to confirm an accept, or a confirmation number.
\<close>

theorem hidden_terms_on_request:
  assumes "counterparty_valid spec" "run (rep_next sha) (new_policy spec known t0) ins = Inr p"
    "rep_react sha p (Heard a utt heard t listed) = Inr (q, ds)" "d \<in> set ds"
  shows "says_known (ea_act a) (pol_spec p) (rd_intent d)"
proof -
  have p: "rep_inv p" using rep.run_inv [OF rep_inv_new [OF assms(1)] assms(2)] .
  have l: "says_known (ea_act a) (pol_spec p) (rd_intent e)" if "e \<in> set (snd (expire p t))" for e
    using that by (auto simp: expire_def)
  have nd: "\<not> rep_done p" using assms(3,4) by (auto simp: rep_react_def rep_hear_def)
  obtain q' i c r where r: "react sha (listening p t) a utt heard t listed = Inr (q', i, c)"
    "rep_hear sha p a utt heard t listed = Inr (r, snd (expire p t) @
       [\<lparr>rd_from = pol_state p, rd_to = pol_state q', rd_intent = i, rd_rung = rung_of q', rd_commit = c,
         rd_strike = strikes (listening p t) < strikes q'\<rparr>])"
    using hear_ok [OF p nd] by metis
  have "pol_spec (listening p t) = pol_spec p" by (simp add: listening_def expire_def)
  with react_says [OF listening_ok(1) [OF p] r(1)] have "says_known (ea_act a) (pol_spec p) i" by simp
  with r(2) assms(3,4) l [of d] show ?thesis by (auto simp: rep_react_def)
qed

definition sample_read :: "policy \<times> rep_decision list" where
  "sample_read = projr (rep_react sample_sha sample_called (Heard (plain_act AskReadback) ''u4'' ''read it back'' 4000 []))"

lemma sample_read_said: "snd sample_read \<noteq> []"
  by code_simp

lemma sample_read_runs:
  "rep_react sample_sha sample_called (Heard (plain_act AskReadback) ''u4'' ''read it back'' 4000 []) =
     Inr (fst sample_read, snd sample_read)"
proof -
  have "\<not> isl (rep_react sample_sha sample_called (Heard (plain_act AskReadback) ''u4'' ''read it back'' 4000 []))"
    by code_simp
  then show ?thesis unfolding sample_read_def prod.collapse by (rule not_isl_projr)
qed

theorem hidden_terms_on_request_witness:
  "snd sample_read \<noteq> [] \<and> list_all (\<lambda>d. says_known AskReadback (pol_spec sample_called) (rd_intent d)) (snd sample_read)"
  using hidden_terms_on_request [OF sample_rep_valid sample_call_runs sample_read_runs]
  sample_read_said
  by (simp add: plain_act_def list_all_iff)

end
