(* ===== verification/Needs.thy ===== *)
theory Needs
  imports Events
begin

text \<open>
  \<open>guard/needs.py\<close>, \<open>guard/holds.py\<close> and \<open>guard/readiness.py\<close>: what the agent asked its user for,
  as a fold of the log. A key is pending from the ask, replied once the user wrote after the ask
  was voiced, answered once a fact for it exists; an ask whose turn did not speak is undone.
  The payload of a \<open>fast.turn\<close> carries whether one of its items is speech.
\<close>

section \<open>The ledger\<close>

(* guard/needs.py 27-27 State *)
datatype need_state = NeedPending | NeedReplied | NeedAnswered

(* guard/needs.py 30-39 Need *)
record need =
  nd_key :: string
  nd_state :: need_state
  nd_asks :: int
  nd_asked_seq :: "int option"
  nd_asked_ms :: "int option"
  nd_voiced_seq :: "int option"
  nd_replied_seq :: "int option"
  nd_answered_seq :: "int option"

type_synonym ask = "int \<times> (string \<times> need option) list"

(* guard/needs.py 45-57 Ledger *)
record needs_ledger =
  nl_needs :: "(string, need) dict"
  nl_keyless :: int
  nl_holds :: int
  nl_unvoiced :: "string set"
  nl_asking :: "(string, ask) dict"
  nl_voicing :: "(string, ask) dict"
  nl_turn :: "(string \<times> bool) option"

definition no_needs :: needs_ledger where
  "no_needs =
     \<lparr>nl_needs = [], nl_keyless = 0, nl_holds = 0, nl_unvoiced = {}, nl_asking = [], nl_voicing = [],
      nl_turn = None\<rparr>"

(* guard/needs.py 59-61 Ledger.state *)
definition need_state_of :: "needs_ledger \<Rightarrow> string \<Rightarrow> need_state option" where
  "need_state_of l k = map_option nd_state (dget (nl_needs l) k)"

(* guard/needs.py 63-64 Ledger.states *)
definition need_states :: "needs_ledger \<Rightarrow> (string \<times> need_state) list" where
  "need_states l = map (\<lambda>(k, n). (k, nd_state n)) (sort_key fst (nl_needs l))"

definition new_need :: "string \<Rightarrow> need" where
  "new_need k =
     \<lparr>nd_key = k, nd_state = NeedPending, nd_asks = 0, nd_asked_seq = None, nd_asked_ms = None,
      nd_voiced_seq = None, nd_replied_seq = None, nd_answered_seq = None\<rparr>"

definition need_at :: "(string, need) dict \<Rightarrow> string \<Rightarrow> need" where
  "need_at d k = (case dget d k of None \<Rightarrow> new_need k | Some n \<Rightarrow> n)"

text \<open>\<open>_set(ledger, keys, **change)\<close>, with the change as a function of the record.\<close>

fun set_needs :: "(need \<Rightarrow> need) \<Rightarrow> string list \<Rightarrow> (string, need) dict \<Rightarrow> (string, need) dict" where
  "set_needs f [] d = d"
| "set_needs f (k # ks) d = set_needs f ks (dput k (f (need_at d k)) d)"

(* guard/needs.py 67-72 _set *)
definition change_needs :: "(need \<Rightarrow> need) \<Rightarrow> string list \<Rightarrow> needs_ledger \<Rightarrow> needs_ledger" where
  "change_needs f ks l = l\<lparr>nl_needs := set_needs f ks (nl_needs l)\<rparr>"

section \<open>Steps\<close>

definition first_cause :: "event \<Rightarrow> string outcome" where
  "first_cause e = (case ev_cause_ids e of [] \<Rightarrow> Inl IndexError | c # _ \<Rightarrow> Inr c)"

definition asked :: "event \<Rightarrow> need \<Rightarrow> need" where
  "asked e n = n\<lparr>nd_state := NeedPending, nd_asks := nd_asks n + 1, nd_asked_seq := Some (ev_seq e),
     nd_asked_ms := Some (ev_t_ms e), nd_voiced_seq := None, nd_replied_seq := None\<rparr>"

(* guard/needs.py 89-104 step *)
definition need_ask :: "needs_ledger \<Rightarrow> event \<Rightarrow> tool_payload \<Rightarrow> needs_ledger" where
  "need_ask l e p =
     (let ks = fromkeys (tp_keys p) in
      if ks = [] then l\<lparr>nl_keyless := nl_keyless l + 1\<rparr>
      else change_needs (asked e) ks
        (l\<lparr>nl_asking := dput (ev_event_id e) (ev_seq e, map (\<lambda>k. (k, dget (nl_needs l) k)) ks) (nl_asking l),
           nl_unvoiced := nl_unvoiced l - set ks\<rparr>))"

(* guard/needs.py 105-109 step *)
definition need_msg :: "needs_ledger \<Rightarrow> event \<Rightarrow> slow_to_fast \<Rightarrow> needs_ledger" where
  "need_msg l e m =
     (case ev_cause_ids e of
        [] \<Rightarrow> l
      | c # _ \<Rightarrow>
          (case dget (nl_asking l) c of
             None \<Rightarrow> l
           | Some a \<Rightarrow> l\<lparr>nl_asking := ddel c (nl_asking l), nl_voicing := dput (s2f_msg_id m) a (nl_voicing l)\<rparr>))"

(* guard/needs.py 81-83 heard *)
definition voice_heard :: "needs_ledger \<Rightarrow> event \<Rightarrow> bool outcome" where
  "voice_heard l e =
     (case nl_turn l of None \<Rightarrow> Inr False | Some t \<Rightarrow> and_then (first_cause e) (\<lambda>c. Inr (t = (c, True))))"

text \<open>The keys of an ask that are still its own and still wait for it.\<close>

definition still_asked :: "needs_ledger \<Rightarrow> int \<Rightarrow> string \<times> need option \<Rightarrow> bool" where
  "still_asked l s kb =
     (case dget (nl_needs l) (fst kb) of
        None \<Rightarrow> False | Some n \<Rightarrow> nd_asked_seq n = Some s \<and> nd_state n = NeedPending)"

fun restore :: "(string \<times> need option) list \<Rightarrow> (string, need) dict \<Rightarrow> (string, need) dict" where
  "restore [] d = d"
| "restore ((k, None) # bs) d = restore bs (ddel k d)"
| "restore ((k, Some n) # bs) d = restore bs (dput k n d)"

(* guard/needs.py 112-131 step *)
definition need_voiced :: "needs_ledger \<Rightarrow> event \<Rightarrow> string \<Rightarrow> needs_ledger outcome" where
  "need_voiced l e m =
     (case dget (nl_voicing l) m of
        None \<Rightarrow> Inr l
      | Some (s, befores) \<Rightarrow>
          let mine = filter (still_asked l s) befores; l1 = l\<lparr>nl_voicing := ddel m (nl_voicing l)\<rparr> in
          and_then (voice_heard l1 e) (\<lambda>h.
            if h then Inr (change_needs (\<lambda>n. n\<lparr>nd_voiced_seq := Some (ev_seq e)\<rparr>) (map fst mine) l1)
            else Inr (l1\<lparr>nl_needs := restore mine (nl_needs l), nl_unvoiced := nl_unvoiced l \<union> set (map fst mine)\<rparr>)))"

definition awaits_reply :: "need \<Rightarrow> bool" where
  "awaits_reply n \<longleftrightarrow> nd_state n = NeedPending \<and> nd_voiced_seq n \<notin> {None, Some 0}"

(* guard/needs.py 132-134 step *)
definition need_user :: "needs_ledger \<Rightarrow> event \<Rightarrow> needs_ledger" where
  "need_user l e =
     change_needs (\<lambda>n. n\<lparr>nd_state := NeedReplied, nd_replied_seq := Some (ev_seq e)\<rparr>)
       (dkeys (filter (\<lambda>(k, n). awaits_reply n) (nl_needs l))) l"

(* guard/needs.py 135-138 step *)
definition need_fact :: "needs_ledger \<Rightarrow> event \<Rightarrow> string \<Rightarrow> needs_ledger" where
  "need_fact l e k =
     change_needs (\<lambda>n. n\<lparr>nd_state := NeedAnswered, nd_answered_seq := Some (ev_seq e)\<rparr>) [k]
       (l\<lparr>nl_unvoiced := nl_unvoiced l - {k}\<rparr>)"

(* guard/needs.py 86-141 step *)
definition need_step :: "needs_ledger \<Rightarrow> event \<Rightarrow> needs_ledger outcome" where
  "need_step l e =
     (if ev_type e = ''slow.tool'' then
        (case ev_payload e of
           PSlowTool p \<Rightarrow> Inr (if tp_name p = ''ask_user'' \<and> tp_ok p then need_ask l e p else l)
         | _ \<Rightarrow> Inl (KeyError ''name''))
      else if ev_type e = ''s2f.msg'' then
        (case ev_payload e of PS2F m \<Rightarrow> Inr (need_msg l e m) | _ \<Rightarrow> Inl (KeyError ''msg_id''))
      else if ev_type e = ''fast.turn'' then
        (case ev_payload e of
           PFastTurn _ _ s \<Rightarrow> Inr (l\<lparr>nl_turn := Some (ev_event_id e, s)\<rparr>)
         | _ \<Rightarrow> Inl (KeyError ''items''))
      else if ev_type e = ''s2f.voiced'' then
        (case ev_payload e of PS2FVoiced m _ \<Rightarrow> need_voiced l e m | _ \<Rightarrow> Inl (KeyError ''msg_id''))
      else if ev_type e = ''user.msg'' then Inr (need_user l e)
      else if ev_type e = ''fact.recorded'' then
        (case ev_payload e of PFact f \<Rightarrow> Inr (need_fact l e (fp_key f)) | _ \<Rightarrow> Inl (KeyError ''key''))
      else if ev_type e = ''chan.hold'' then
        (case ev_payload e of
           PHold _ r \<Rightarrow> Inr (if r = None then l else l\<lparr>nl_holds := nl_holds l + 1\<rparr>)
         | _ \<Rightarrow> Inr l)
      else Inr l)"

(* guard/needs.py 144-148 fold *)
fun needs_fold :: "needs_ledger \<Rightarrow> event list \<Rightarrow> needs_ledger outcome" where
  "needs_fold l [] = Inr l"
| "needs_fold l (e # es) = and_then (need_step l e) (\<lambda>m. needs_fold m es)"

section \<open>Denials\<close>

(* guard/needs.py 151-160 ask_denial *)
definition ask_denial :: "needs_ledger \<Rightarrow> string list \<Rightarrow> string option" where
  "ask_denial l ks =
     (let w = filter (\<lambda>k. need_state_of l k = Some NeedPending) ks in
      if w = [] then None
      else Some (''already asked, waiting for the user: '' @ join '', '' w @
        ''; ask again once the status bar shows it replied, or ask only for other keys''))"

(* guard/needs.py 163-172 start_denial *)
definition start_denial :: "needs_ledger \<Rightarrow> string list \<Rightarrow> string option" where
  "start_denial l missing =
     (let unasked = filter (\<lambda>k. need_state_of l k = None) missing;
          w = filter (\<lambda>k. need_state_of l k = Some NeedPending) missing
      in if unasked \<noteq> [] then Some (''not asked yet: '' @ join '', '' unasked @ ''; ask_user for them with keys first'')
         else if w \<noteq> [] then Some (''no reply from the user yet for '' @ join '', '' w @ ''; wait for it'')
         else None)"

section \<open>Readiness (guard/readiness.py)\<close>

(* guard/readiness.py 13-13 IDENTITY *)
definition IDENTITY :: "string list" where
  "IDENTITY = [''account.holder_name'', ''account.last4'']"

(* guard/readiness.py 14-14 REQUIRED *)
definition REQUIRED :: "(string, string list) dict" where
  "REQUIRED = [(''cp_call'', IDENTITY)]"

(* guard/readiness.py 22-27 TaskLike *)
record task_like =
  tk_channels :: "string list"
  tk_shareable :: "string list"

(* guard/readiness.py 30-31 kind *)
definition task_kind :: "task_like \<Rightarrow> string option" where
  "task_kind t = (if ''cp'' \<in> set (tk_channels t) then Some ''cp_call'' else None)"

(* guard/readiness.py 34-40 required *)
definition required :: "task_like \<Rightarrow> string list \<Rightarrow> string list" where
  "required t learned =
     (let row = (case dget REQUIRED (case task_kind t of None \<Rightarrow> [] | Some k \<Rightarrow> k) of None \<Rightarrow> [] | Some r \<Rightarrow> r);
          rows = (if row = [] then [] else row @ sort learned)
      in fromkeys (filter (\<lambda>k. k \<in> set (tk_shareable t)) rows))"

(* guard/readiness.py 43-44 missing *)
definition missing :: "blackboard \<Rightarrow> string list \<Rightarrow> string list" where
  "missing bb need = filter (\<lambda>k. dget (pub_facts (bb_public bb)) k = None) need"

section \<open>When a hold ends (guard/holds.py)\<close>

(* guard/holds.py 21-21 Ended *)
datatype hold_end = HoldDecided | HoldAnswered

(* guard/holds.py 22-22 DECIDED *)
definition DECIDED :: "hold_reason list" where
  "DECIDED = [HoldOffer, HoldDecision, HoldPressure]"

(* guard/holds.py 25-31 lines *)
definition guard_lines :: "string set \<Rightarrow> event \<Rightarrow> string set outcome" where
  "guard_lines said e =
     (if ev_type e = ''speak.verbatim'' then
        (case ev_payload e of
           PVerbatim _ k _ _ _ \<Rightarrow> Inr (if k \<in> {''accept'', ''decline''} then insert (ev_event_id e) said else said)
         | _ \<Rightarrow> Inl (KeyError ''kind''))
      else if ev_type e = ''speak.released'' then
        and_then (first_cause e) (\<lambda>c. Inr (if c \<in> said then insert (ev_event_id e) said else said))
      else Inr said)"

(* guard/holds.py 34-53 ended *)
definition hold_ended ::
  "hold_state option \<Rightarrow> event \<Rightarrow> string set \<Rightarrow> needs_ledger \<Rightarrow> string list \<Rightarrow> hold_end option outcome"
where
  "hold_ended hold e said l missed =
     (case hold of
        None \<Rightarrow> Inr None
      | Some h \<Rightarrow>
          if ev_type e = ''utt.delivered'' \<and> hold_reason_of h \<in> set DECIDED then
            and_then (first_cause e) (\<lambda>c.
              case ev_payload e of
                PUttDelivered _ _ _ _ broken \<Rightarrow> Inr (if c \<in> said \<and> \<not> broken then Some HoldDecided else None)
              | _ \<Rightarrow> Inl (KeyError ''interrupted''))
          else if ev_type e \<noteq> ''fact.recorded'' \<or> hold_reason_of h \<noteq> HoldFactRequest then Inr None
          else
            (case ev_payload e of
               PFact f \<Rightarrow>
                 (case fp_source f of
                    None \<Rightarrow> Inl (KeyError ''source'')
                  | Some s \<Rightarrow>
                      Inr (if (fp_scope f, s) \<noteq> (''public'', ''shareable'') \<or> missed \<noteq> [] then None
                           else if list_all (\<lambda>n. nd_state n = NeedAnswered) (dvals (nl_needs l))
                             then Some HoldAnswered else None))
             | _ \<Rightarrow> Inl (KeyError ''scope'')))"

end
