(* ===== verification/Needs_Facts.thy ===== *)
theory Needs_Facts
  imports Needs
begin

text \<open>
  What the needs ledger says of the log it is folded from: every state it gives a key is backed by
  the events that put it there, in their order, and an ask nobody heard leaves no trace in it.
\<close>

section \<open>Changing needs\<close>

lemma dget_set_needs:
  "dget (set_needs f ks d) k =
     (if k \<in> set ks \<and> distinct ks then Some (f (need_at d k)) else dget (set_needs f ks d) k)"
proof (induction ks arbitrary: d)
  case (Cons x ks)
  have *: "dget (set_needs f ks e) x = dget e x" if "x \<notin> set ks" for e
    using that by (induction ks arbitrary: e) (auto simp: dict_simps)
  show ?case
  proof (cases "k = x \<and> distinct (x # ks)")
    case True
    then show ?thesis using * by (simp add: dict_simps)
  next
    case False
    then show ?thesis using Cons.IH [of "dput x (f (need_at d x)) d"]
      by (auto simp: need_at_def dict_simps)
  qed
qed simp

lemma dget_set_needs_in:
  "k \<in> set ks \<Longrightarrow> distinct ks \<Longrightarrow> dget (set_needs f ks d) k = Some (f (need_at d k))"
  using dget_set_needs [of f ks d k] by simp

lemma dget_set_needs_out: "k \<notin> set ks \<Longrightarrow> dget (set_needs f ks d) k = dget d k"
  by (induction ks arbitrary: d) (auto simp: dict_simps)

lemma wf_set_needs: "wf_dict d \<Longrightarrow> wf_dict (set_needs f ks d)"
  by (induction ks arbitrary: d) auto

lemma dget_restore_out: "k \<notin> set (map fst bs) \<Longrightarrow> dget (restore bs d) k = dget d k"
  by (induction bs d rule: restore.induct) (auto simp: dict_simps)

lemma dget_restore_in: "(k, b) \<in> set bs \<Longrightarrow> wf_dict bs \<Longrightarrow> dget (restore bs d) k = b"
proof (induction bs d rule: restore.induct)
  case (2 k' bs d)
  then show ?case by (cases "k = k'") (auto simp: dget_restore_out dict_simps rev_image_eqI)
next
  case (3 k' n bs d)
  then show ?case by (cases "k = k'") (auto simp: dget_restore_out dict_simps rev_image_eqI)
qed simp

lemma dget_restore: "wf_dict bs \<Longrightarrow> dget (restore bs d) k = (case dget bs k of None \<Rightarrow> dget d k | Some b \<Rightarrow> b)"
proof (cases "dget bs k")
  case None
  then have "k \<notin> set (map fst bs)" by (simp only: dget_None_keys not_False_eq_True)
  from dget_restore_out [OF this, of d] None show ?thesis by simp
next
  case (Some b)
  assume "wf_dict bs"
  with Some show ?thesis using dget_restore_in [OF dget_mem] by simp
qed

lemma wf_restore: "wf_dict d \<Longrightarrow> wf_dict (restore bs d)"
  by (induction bs d rule: restore.induct) auto

section \<open>What backs a need\<close>

definition asks_for :: "event \<Rightarrow> string \<Rightarrow> bool" where
  "asks_for e k \<longleftrightarrow> ev_type e = ''slow.tool'' \<and>
     (case ev_payload e of
        PSlowTool p \<Rightarrow> tp_name p = ''ask_user'' \<and> tp_ok p \<and> k \<in> set (tp_keys p) | _ \<Rightarrow> False)"

definition answers :: "event \<Rightarrow> string \<Rightarrow> bool" where
  "answers e k \<longleftrightarrow> ev_type e = ''fact.recorded'' \<and> (case ev_payload e of PFact f \<Rightarrow> fp_key f = k | _ \<Rightarrow> False)"

definition at :: "event list \<Rightarrow> (event \<Rightarrow> bool) \<Rightarrow> int \<Rightarrow> bool" where
  "at es P s \<longleftrightarrow> (\<exists>e \<in> set es. P e \<and> ev_seq e = s)"

lemma at_snoc [simp]: "at (es @ [e]) P s \<longleftrightarrow> at es P s \<or> P e \<and> ev_seq e = s"
  by (auto simp: at_def)

lemma at_before: "at es P s \<Longrightarrow> \<forall>d \<in> set es. ev_seq d < t \<Longrightarrow> s < t"
  by (auto simp: at_def)

abbreviation is_typed :: "string \<Rightarrow> event \<Rightarrow> bool" where
  "is_typed ty e \<equiv> ev_type e = ty"

text \<open>The message that carries an ask, the turn a voicing cites, which spoke, and the voicing of a message.\<close>

definition carries :: "event \<Rightarrow> slow_to_fast \<Rightarrow> event \<Rightarrow> bool" where
  "carries m x a \<longleftrightarrow> ev_type m = ''s2f.msg'' \<and> ev_payload m = PS2F x \<and> first_cause m = Inr (ev_event_id a) \<and> ev_seq a < ev_seq m"

definition spoken_in :: "event \<Rightarrow> event \<Rightarrow> bool" where
  "spoken_in v t \<longleftrightarrow> ev_type t = ''fast.turn'' \<and> (case ev_payload t of PFastTurn _ _ speech \<Rightarrow> speech | _ \<Rightarrow> False) \<and>
     first_cause v = Inr (ev_event_id t) \<and> ev_seq t < ev_seq v"

definition voices :: "event \<Rightarrow> slow_to_fast \<Rightarrow> event \<Rightarrow> bool" where
  "voices v x m \<longleftrightarrow> ev_type v = ''s2f.voiced'' \<and>
     (case ev_payload v of PS2FVoiced i _ \<Rightarrow> i = s2f_msg_id x | _ \<Rightarrow> False) \<and> ev_seq m < ev_seq v"

definition voiced_ask :: "event list \<Rightarrow> string \<Rightarrow> int \<Rightarrow> int \<Rightarrow> bool" where
  "voiced_ask es k s v \<longleftrightarrow> (\<exists>a \<in> set es. \<exists>m \<in> set es. \<exists>t \<in> set es. \<exists>w \<in> set es. \<exists>x.
     asks_for a k \<and> carries m x a \<and> voices w x m \<and> spoken_in w t \<and> ev_seq a = s \<and> ev_seq w = v)"

lemma voiced_askI:
  "{a, m, t, w} \<subseteq> set es \<Longrightarrow> asks_for a k \<Longrightarrow> carries m x a \<Longrightarrow> voices w x m \<Longrightarrow> spoken_in w t \<Longrightarrow>
     voiced_ask es k (ev_seq a) (ev_seq w)"
  unfolding voiced_ask_def by blast

lemma voiced_ask_snoc [simp]: "voiced_ask es k s v \<Longrightarrow> voiced_ask (es @ [e]) k s v"
proof -
  assume "voiced_ask es k s v"
  then obtain a m t w x where "{a, m, t, w} \<subseteq> set es" "asks_for a k" "carries m x a" "voices w x m" "spoken_in w t"
    "ev_seq a = s" "ev_seq w = v"
    unfolding voiced_ask_def by blast
  then show ?thesis using voiced_askI [of a m t w "es @ [e]" k x] by auto
qed

lemma voiced_ask_before: "voiced_ask es k s v \<Longrightarrow> \<forall>d \<in> set es. ev_seq d < t \<Longrightarrow> s < v \<and> v < t"
proof -
  assume "voiced_ask es k s v" and later: "\<forall>d \<in> set es. ev_seq d < t"
  then obtain a m w x where "w \<in> set es" "carries m x a" "voices w x m" "ev_seq a = s" "ev_seq w = v"
    unfolding voiced_ask_def by blast
  then show ?thesis using later by (auto simp: carries_def voices_def)
qed

definition backed :: "event list \<Rightarrow> string \<Rightarrow> need \<Rightarrow> bool" where
  "backed es k n \<longleftrightarrow>
     (\<forall>a. nd_asked_seq n = Some a \<longrightarrow> at es (\<lambda>e. asks_for e k) a) \<and>
     (\<forall>v. nd_voiced_seq n = Some v \<longrightarrow> (\<exists>a. nd_asked_seq n = Some a \<and> voiced_ask es k a v)) \<and>
     (\<forall>r. nd_replied_seq n = Some r \<longrightarrow> at es (is_typed ''user.msg'') r \<and> (\<exists>v. nd_voiced_seq n = Some v \<and> v < r)) \<and>
     (\<forall>f. nd_answered_seq n = Some f \<longrightarrow> at es (\<lambda>e. answers e k) f) \<and>
     (nd_state n = NeedPending \<longrightarrow> nd_asked_seq n \<noteq> None \<and> nd_replied_seq n = None) \<and>
     (nd_state n = NeedReplied \<longrightarrow> nd_replied_seq n \<noteq> None) \<and>
     (nd_state n = NeedAnswered \<longrightarrow> nd_answered_seq n \<noteq> None)"

definition ask_backed :: "event list \<Rightarrow> ask \<Rightarrow> bool" where
  "ask_backed es a \<longleftrightarrow> wf_dict (snd a) \<and>
     list_all (\<lambda>(k, b). case b of None \<Rightarrow> True | Some n \<Rightarrow> backed es k n) (snd a)"

text \<open>An ask under the id of its event, and one under the id of its message.\<close>

definition asked_under :: "event list \<Rightarrow> string \<Rightarrow> ask \<Rightarrow> bool" where
  "asked_under es i a \<longleftrightarrow> (\<exists>e \<in> set es. ev_event_id e = i \<and> ev_seq e = fst a \<and> list_all (asks_for e) (map fst (snd a)))"

definition sent_under :: "event list \<Rightarrow> string \<Rightarrow> ask \<Rightarrow> bool" where
  "sent_under es i a \<longleftrightarrow> (\<exists>e \<in> set es. \<exists>m \<in> set es. \<exists>x.
     carries m x e \<and> s2f_msg_id x = i \<and> ev_seq e = fst a \<and> list_all (asks_for e) (map fst (snd a)))"

definition turn_backed :: "event list \<Rightarrow> (string \<times> bool) option \<Rightarrow> bool" where
  "turn_backed es t \<longleftrightarrow> (\<forall>i. t = Some (i, True) \<longrightarrow> (\<exists>e \<in> set es. ev_event_id e = i \<and> ev_type e = ''fast.turn'' \<and>
     (case ev_payload e of PFastTurn _ _ speech \<Rightarrow> speech | _ \<Rightarrow> False)))"

definition needs_inv :: "event list \<Rightarrow> needs_ledger \<Rightarrow> bool" where
  "needs_inv es l \<longleftrightarrow>
     (\<forall>k n. dget (nl_needs l) k = Some n \<longrightarrow> backed es k n) \<and>
     (\<forall>i a. dget (nl_asking l) i = Some a \<longrightarrow> ask_backed es a \<and> asked_under es i a) \<and>
     (\<forall>i a. dget (nl_voicing l) i = Some a \<longrightarrow> ask_backed es a \<and> sent_under es i a) \<and>
     turn_backed es (nl_turn l)"

lemma backed_snoc: "backed es k n \<Longrightarrow> backed (es @ [e]) k n"
  by (auto simp: backed_def)

lemma ask_backed_snoc: "ask_backed es a \<Longrightarrow> ask_backed (es @ [e]) a"
  by (auto simp: ask_backed_def list_all_iff backed_snoc split: option.splits)

lemma under_snoc:
  "asked_under es i a \<Longrightarrow> asked_under (es @ [e]) i a" "sent_under es i a \<Longrightarrow> sent_under (es @ [e]) i a"
  "turn_backed es t \<Longrightarrow> turn_backed (es @ [e]) t"
  by (auto simp: asked_under_def sent_under_def turn_backed_def)

lemma needs_inv_snoc: "needs_inv es l \<Longrightarrow> needs_inv (es @ [e]) l"
  by (simp add: needs_inv_def backed_snoc ask_backed_snoc under_snoc)

lemma needs_inv_none: "needs_inv [] no_needs"
  by (simp add: needs_inv_def no_needs_def turn_backed_def)

lemma needs_inv_other:
  "nl_needs m = nl_needs l \<Longrightarrow> nl_asking m = nl_asking l \<Longrightarrow> nl_voicing m = nl_voicing l \<Longrightarrow> nl_turn m = nl_turn l \<Longrightarrow>
   needs_inv es m = needs_inv es l"
  by (simp add: needs_inv_def)

lemma change_inv:
  assumes "needs_inv es l" "distinct ks"
    and new: "\<And>k. k \<in> set ks \<Longrightarrow> backed es k (f (need_at (nl_needs l) k))"
  shows "needs_inv es (change_needs f ks l)"
proof -
  have "backed es k n" if "dget (set_needs f ks (nl_needs l)) k = Some n" for k n
  proof (cases "k \<in> set ks")
    case True
    with that assms(2) new show ?thesis by (auto simp: dget_set_needs_in)
  next
    case False
    with that assms(1) show ?thesis by (simp add: dget_set_needs_out needs_inv_def)
  qed
  then show ?thesis using assms(1) by (simp add: needs_inv_def change_needs_def)
qed

section \<open>Every step keeps the backing\<close>

lemma ask_inv:
  assumes "needs_inv es l" "ev_type e = ''slow.tool''" "ev_payload e = PSlowTool p" "tp_name p = ''ask_user''" "tp_ok p"
  shows "needs_inv (es @ [e]) (need_ask l e p)"
proof (cases "tp_keys p = []")
  case True
  with needs_inv_snoc [OF assms(1)] show ?thesis by (simp add: need_ask_def needs_inv_def)
next
  case False
  let ?ks = "fromkeys (tp_keys p)"
  let ?a = "(ev_seq e, map (\<lambda>k. (k, dget (nl_needs l) k)) ?ks)"
  let ?l = "l\<lparr>nl_asking := dput (ev_event_id e) ?a (nl_asking l), nl_unvoiced := nl_unvoiced l - set ?ks\<rparr>"
  have "map fst (map (\<lambda>k. (k, dget (nl_needs l) k)) ?ks) = ?ks" by (simp add: comp_def)
  then have "ask_backed (es @ [e]) ?a"
    using assms(1) by (auto simp: ask_backed_def list_all_iff needs_inv_def backed_snoc comp_def split: option.split)
  moreover have "asked_under (es @ [e]) (ev_event_id e) ?a"
    using assms(2-) by (auto simp: asked_under_def asks_for_def list_all_iff)
  ultimately have "needs_inv (es @ [e]) ?l"
    using needs_inv_snoc [OF assms(1)] by (simp add: needs_inv_def dget_dput)
  then have "needs_inv (es @ [e]) (change_needs (asked e) ?ks ?l)"
  proof (rule change_inv)
    fix k assume k: "k \<in> set ?ks"
    then have "asks_for e k" using assms(2-) by (simp add: asks_for_def)
    moreover have "dget (nl_needs l) k = Some n \<Longrightarrow> backed es k n" for n
      using assms(1) by (simp add: needs_inv_def)
    ultimately show "backed (es @ [e]) k (asked e (need_at (nl_needs ?l) k))"
      by (cases "dget (nl_needs l) k") (auto simp: backed_def asked_def need_at_def new_need_def)
  qed simp
  with False show ?thesis by (simp add: need_ask_def Let_def)
qed

lemma msg_inv:
  assumes "needs_inv es l" and later: "\<forall>d \<in> set es. ev_seq d < ev_seq e"
    and ty: "ev_type e = ''s2f.msg''" "ev_payload e = PS2F m"
  shows "needs_inv (es @ [e]) (need_msg l e m)"
proof (cases "case ev_cause_ids e of [] \<Rightarrow> None | c # _ \<Rightarrow> dget (nl_asking l) c")
  case None
  then have "need_msg l e m = l" by (auto simp: need_msg_def split: list.splits)
  with needs_inv_snoc [OF assms(1)] show ?thesis by simp
next
  case (Some a)
  then obtain c cs where c: "ev_cause_ids e = c # cs" "dget (nl_asking l) c = Some a"
    by (auto split: list.splits)
  from assms(1) c(2) have "ask_backed es a" and u: "asked_under es c a" unfolding needs_inv_def by blast+
  then have b: "ask_backed (es @ [e]) a" by (simp add: ask_backed_snoc)
  from u obtain d where "d \<in> set es" "ev_event_id d = c" "ev_seq d = fst a" "list_all (asks_for d) (map fst (snd a))"
    unfolding asked_under_def by blast
  with c(1) ty later have "sent_under (es @ [e]) (s2f_msg_id m) a"
    by (auto simp: sent_under_def carries_def first_cause_def)
  with b c needs_inv_snoc [OF assms(1), of e] show ?thesis
    by (cases a) (simp add: need_msg_def needs_inv_def dget_dput dget_ddel)
qed

lemma voiced_inv:
  assumes inv: "needs_inv es l" and later: "\<forall>d \<in> set es. ev_seq d < ev_seq e"
    and ty: "ev_type e = ''s2f.voiced''" "ev_payload e = PS2FVoiced m g" and r: "need_voiced l e m = Inr l'"
  shows "needs_inv (es @ [e]) l'"
proof (cases "dget (nl_voicing l) m")
  case None
  with r needs_inv_snoc [OF inv] show ?thesis by (simp add: need_voiced_def)
next
  case (Some a)
  obtain s bs where a: "a = (s, bs)" by (cases a)
  let ?mine = "filter (still_asked l s) bs"
  let ?l = "l\<lparr>nl_voicing := ddel m (nl_voicing l)\<rparr>"
  have ab: "ask_backed es (s, bs)" and su: "sent_under es m (s, bs)" using Some a inv by (simp_all add: needs_inv_def)
  then have wf: "wf_dict ?mine" by (simp add: ask_backed_def distinct_map_filter)
  have l: "needs_inv (es @ [e]) ?l" using needs_inv_snoc [OF inv, of e] by (auto simp: needs_inv_def dict_simps)
  from r Some a obtain h where "voice_heard ?l e = Inr h"
    and l': "l' = (if h then change_needs (\<lambda>n. n\<lparr>nd_voiced_seq := Some (ev_seq e)\<rparr>) (map fst ?mine) ?l
       else ?l\<lparr>nl_needs := restore ?mine (nl_needs l), nl_unvoiced := nl_unvoiced l \<union> set (map fst ?mine)\<rparr>)"
    by (auto simp: need_voiced_def Let_def outcome_simps split: if_splits)
  show ?thesis
  proof (cases h)
    case True
    from \<open>voice_heard ?l e = Inr h\<close> True obtain i where i: "nl_turn l = Some (i, True)" "first_cause e = Inr i"
      by (cases "nl_turn l") (auto simp: voice_heard_def and_then_eq_Inr)
    with inv obtain t where t: "t \<in> set es" "ev_event_id t = i" "ev_type t = ''fast.turn''"
      "case ev_payload t of PFastTurn _ _ speech \<Rightarrow> speech | _ \<Rightarrow> False"
      by (auto simp: needs_inv_def turn_backed_def)
    with i(2) later have t: "t \<in> set es" "spoken_in e t" by (auto simp: spoken_in_def)
    have "needs_inv (es @ [e]) (change_needs (\<lambda>n. n\<lparr>nd_voiced_seq := Some (ev_seq e)\<rparr>) (map fst ?mine) ?l)"
    proof (rule change_inv [OF l wf])
      fix k assume "k \<in> set (map fst ?mine)"
      then obtain n where n: "dget (nl_needs l) k = Some n" "nd_asked_seq n = Some s" "nd_state n = NeedPending"
        and k: "k \<in> set (map fst bs)"
        by (auto simp: still_asked_def split: option.splits)
      then have b: "backed es k n" using inv by (simp add: needs_inv_def)
      from su k obtain a x y where a: "a \<in> set es" "x \<in> set es" "carries x y a" "s2f_msg_id y = m" "ev_seq a = s" "asks_for a k"
        by (auto simp: sent_under_def list_all_iff)
      with ty later have "voices e y x" by (simp add: voices_def)
      with a t have "voiced_ask (es @ [e]) k s (ev_seq e)" using voiced_askI [of a x t e "es @ [e]" k y] by simp
      with n b show "backed (es @ [e]) k ((need_at (nl_needs ?l) k)\<lparr>nd_voiced_seq := Some (ev_seq e)\<rparr>)"
        by (simp add: backed_def need_at_def)
    qed
    with l' True show ?thesis by simp
  next
    case False
    have "backed (es @ [e]) k n" if "dget (restore ?mine (nl_needs l)) k = Some n" for k n
    proof (cases "dget ?mine k")
      case None
      with that wf inv show ?thesis by (simp add: dget_restore needs_inv_def backed_snoc)
    next
      case (Some b)
      with that wf have "b = Some n" by (simp add: dget_restore)
      moreover from Some have "(k, b) \<in> set bs" by (auto dest: dget_mem)
      ultimately show ?thesis using ab by (auto simp: ask_backed_def list_all_iff backed_snoc)
    qed
    with l' False l show ?thesis by (simp add: needs_inv_def)
  qed
qed

lemma user_inv:
  assumes inv: "needs_inv es l" and wf: "wf_dict (nl_needs l)"
    and later: "\<forall>d \<in> set es. ev_seq d < ev_seq e" and ty: "ev_type e = ''user.msg''"
  shows "needs_inv (es @ [e]) (need_user l e)"
  unfolding need_user_def
proof (rule change_inv [OF needs_inv_snoc [OF inv]])
  show "distinct (dkeys (filter (\<lambda>(k, n). awaits_reply n) (nl_needs l)))"
    using wf by (simp add: distinct_map_filter)
  fix k assume "k \<in> set (dkeys (filter (\<lambda>(k, n). awaits_reply n) (nl_needs l)))"
  then obtain n where "(k, n) \<in> set (nl_needs l)" "awaits_reply n" by auto
  then have n: "dget (nl_needs l) k = Some n" "nd_state n = NeedPending" "nd_voiced_seq n \<noteq> None"
    using wf by (auto simp: awaits_reply_def)
  then have b: "backed es k n" using inv by (simp add: needs_inv_def)
  obtain v where v: "nd_voiced_seq n = Some v" using n(3) by blast
  with b obtain a where "voiced_ask es k a v" by (auto simp: backed_def)
  with later have "v < ev_seq e" using voiced_ask_before by blast
  with n b v ty show "backed (es @ [e]) k ((need_at (nl_needs l) k)\<lparr>nd_state := NeedReplied, nd_replied_seq := Some (ev_seq e)\<rparr>)"
    by (auto simp: backed_def need_at_def)
qed

lemma fact_inv:
  assumes inv: "needs_inv es l" and "answers e k"
  shows "needs_inv (es @ [e]) (need_fact l e k)"
  unfolding need_fact_def
proof (rule change_inv)
  show "needs_inv (es @ [e]) (l\<lparr>nl_unvoiced := nl_unvoiced l - {k}\<rparr>)"
    using needs_inv_snoc [OF inv] by (simp add: needs_inv_def)
  fix k' assume "k' \<in> set [k]"
  moreover have "dget (nl_needs l) k = Some n \<Longrightarrow> backed es k n" for n
    using inv by (simp add: needs_inv_def)
  ultimately show "backed (es @ [e]) k' ((need_at (nl_needs (l\<lparr>nl_unvoiced := nl_unvoiced l - {k}\<rparr>)) k')
      \<lparr>nd_state := NeedAnswered, nd_answered_seq := Some (ev_seq e)\<rparr>)"
    using assms(2) by (cases "dget (nl_needs l) k") (auto simp: backed_def need_at_def new_need_def)
qed simp

lemma need_step_wf: "wf_dict (nl_needs l) \<Longrightarrow> need_step l e = Inr m \<Longrightarrow> wf_dict (nl_needs m)"
  by (auto simp: need_step_def need_ask_def need_msg_def need_voiced_def need_user_def need_fact_def
      change_needs_def wf_set_needs wf_restore Let_def outcome_simps
      split: if_splits payload.splits list.splits option.splits)

lemma need_step_inv:
  assumes inv: "needs_inv es l" "wf_dict (nl_needs l)" and later: "\<forall>d \<in> set es. ev_seq d < ev_seq e"
    and r: "need_step l e = Inr m"
  shows "needs_inv (es @ [e]) m"
proof -
  note keep = needs_inv_snoc [OF inv(1), of e]
  consider (tool) "ev_type e = ''slow.tool''" | (msg) "ev_type e = ''s2f.msg''" | (turn) "ev_type e = ''fast.turn''"
    | (voiced) "ev_type e = ''s2f.voiced''" | (user) "ev_type e = ''user.msg''" | (fact) "ev_type e = ''fact.recorded''"
    | (hold) "ev_type e = ''chan.hold''"
    | (other) "ev_type e \<notin> {''slow.tool'', ''s2f.msg'', ''fast.turn'', ''s2f.voiced'', ''user.msg'', ''fact.recorded'', ''chan.hold''}"
    by blast
  then show ?thesis
  proof cases
    case tool
    then obtain p where p: "ev_payload e = PSlowTool p" using r by (auto simp: need_step_def split: payload.splits)
    with r tool have "m = (if tp_name p = ''ask_user'' \<and> tp_ok p then need_ask l e p else l)"
      by (simp add: need_step_def)
    then show ?thesis using ask_inv [OF inv(1) tool p] keep by simp
  next
    case msg
    with r obtain x where "ev_payload e = PS2F x" "m = need_msg l e x" by (auto simp: need_step_def split: payload.splits)
    then show ?thesis using msg_inv [OF inv(1) later msg] by simp
  next
    case turn
    with r obtain g l' s where p: "ev_payload e = PFastTurn g l' s" "m = l\<lparr>nl_turn := Some (ev_event_id e, s)\<rparr>"
      by (auto simp: need_step_def split: payload.splits)
    with turn have "turn_backed (es @ [e]) (Some (ev_event_id e, s))" by (auto simp: turn_backed_def)
    with p keep show ?thesis by (simp add: needs_inv_def)
  next
    case voiced
    with r obtain x g where "ev_payload e = PS2FVoiced x g" "need_voiced l e x = Inr m"
      by (auto simp: need_step_def split: payload.splits)
    then show ?thesis by (rule voiced_inv [OF inv(1) later voiced])
  next
    case user
    with r have "m = need_user l e" by (simp add: need_step_def)
    then show ?thesis using user_inv [OF inv later user] by simp
  next
    case fact
    with r obtain f where f: "ev_payload e = PFact f" "m = need_fact l e (fp_key f)"
      by (auto simp: need_step_def split: payload.splits)
    with fact have "answers e (fp_key f)" by (simp add: answers_def)
    with f show ?thesis using fact_inv [OF inv(1)] by simp
  next
    case hold
    with r have "m = l \<or> m = l\<lparr>nl_holds := nl_holds l + 1\<rparr>"
      by (cases "ev_payload e") (simp_all add: need_step_def split: if_split_asm)
    with keep show ?thesis by (auto simp: needs_inv_def)
  next
    case other
    with r keep show ?thesis by (simp add: need_step_def)
  qed
qed

lemma needs_fold_snoc: "needs_fold l (es @ [e]) = and_then (needs_fold l es) (\<lambda>m. need_step m e)"
  by (induction es arbitrary: l) (auto simp: and_then_def split: sum.splits)

lemma needs_backed:
  assumes "needs_fold no_needs es = Inr l" "sorted_wrt (<) (map ev_seq es)"
  shows "needs_inv es l \<and> wf_dict (nl_needs l)"
  using assms
proof (induction es arbitrary: l rule: rev_induct)
  case Nil
  then show ?case using needs_inv_none by (auto simp: no_needs_def)
next
  case (snoc e es)
  then obtain m where m: "needs_fold no_needs es = Inr m" "need_step m e = Inr l"
    by (auto simp: needs_fold_snoc outcome_simps)
  have "sorted_wrt (<) (map ev_seq es)" "\<forall>d \<in> set es. ev_seq d < ev_seq e"
    using snoc.prems(2) by (auto simp: sorted_wrt_append)
  with snoc.IH [OF m(1)] m(2) show ?case using need_step_inv need_step_wf by blast
qed

section \<open>Starting a call\<close>

lemma start_allowed:
  "start_denial l ks = None \<longleftrightarrow> (\<forall>k \<in> set ks. need_state_of l k \<in> {Some NeedReplied, Some NeedAnswered})"
proof -
  have "x \<notin> {None, Some NeedPending} \<longleftrightarrow> x \<in> {Some NeedReplied, Some NeedAnswered}" for x
    by (cases x; cases "the x") auto
  moreover have "start_denial l ks = None \<longleftrightarrow> (\<forall>k \<in> set ks. need_state_of l k \<notin> {None, Some NeedPending})"
    by (auto simp: start_denial_def Let_def filter_empty_conv)
  ultimately show ?thesis by simp
qed

definition sample_event :: "int \<Rightarrow> string \<Rightarrow> string \<Rightarrow> string list \<Rightarrow> payload \<Rightarrow> event" where
  "sample_event n i ty causes p =
     \<lparr>ev_run_id = ''r'', ev_seq = n, ev_event_id = i, ev_t_ms = n, ev_wall = 0, ev_wall_offset = None,
      ev_type = ty, ev_actor = ''kernel'', ev_stream = AgentStream, ev_cause_ids = causes, ev_epoch = 0,
      ev_payload = p\<rparr>"

definition sample_tool :: tool_payload where
  "sample_tool = \<lparr>tp_name = ''ask_user'', tp_keys = [''account.last4''], tp_seconds = 0, tp_ok = True\<rparr>"

definition sample_ask :: event where
  "sample_ask = sample_event 1 ''r:1'' ''slow.tool'' [''r:0''] (PSlowTool sample_tool)"

definition sample_msg :: slow_to_fast where
  "sample_msg = \<lparr>s2f_msg_id = ''m1'', s2f_lane = UserLane, s2f_ty = ASK_USER, s2f_text = ''last four?'',
     s2f_guide = None, s2f_approval_id = None\<rparr>"

definition sample_s2f :: event where
  "sample_s2f = sample_event 2 ''r:2'' ''s2f.msg'' [''r:1''] (PS2F sample_msg)"

definition sample_voiced :: event where
  "sample_voiced = sample_event 4 ''r:4'' ''s2f.voiced'' [''r:3''] (PS2FVoiced ''m1'' ''g1'')"

definition sample_asked :: "event list" where
  "sample_asked =
     [sample_ask, sample_s2f, sample_event 3 ''r:3'' ''fast.turn'' [''r:2''] (PFastTurn ''user'' ''g1'' True),
      sample_voiced, sample_event 5 ''r:5'' ''user.msg'' [] (PUserMsg ''1234'')]"

text \<open>
  C17. A call starts only on replies: whenever \<open>start_call\<close> is not denied, each missing key was asked for in the
  log, a message of Slow carried that very ask, the voicing of that message cites a turn of Fast that spoke, and the
  user wrote after the voicing, in that order; or a fact for the key was recorded.
\<close>

theorem start_call_has_replies:
  assumes "needs_fold no_needs es = Inr l" "sorted_wrt (<) (map ev_seq es)"
    "start_denial l ks = None" "k \<in> set ks"
  shows "(\<exists>a m t v r x. {a, m, t, v, r} \<subseteq> set es \<and> asks_for a k \<and> carries m x a \<and> voices v x m \<and> spoken_in v t \<and>
      ev_type r = ''user.msg'' \<and> ev_seq v < ev_seq r) \<or> (\<exists>f \<in> set es. answers f k)"
proof -
  from assms(3,4) obtain n where n: "dget (nl_needs l) k = Some n" "nd_state n \<in> {NeedReplied, NeedAnswered}"
    by (fastforce simp: start_allowed need_state_of_def)
  from needs_backed [OF assms(1,2)] n(1) have b: "backed es k n" by (simp add: needs_inv_def)
  show ?thesis
  proof (cases "nd_state n = NeedAnswered")
    case True
    with b show ?thesis by (auto simp: backed_def at_def)
  next
    case False
    with b n(2) obtain r v a where "at es (is_typed ''user.msg'') r" "voiced_ask es k a v" "v < r"
      by (auto simp: backed_def)
    then show ?thesis unfolding at_def voiced_ask_def by blast
  qed
qed

theorem start_call_has_replies_witness:
  "\<exists>a m t v r x. {a, m, t, v, r} \<subseteq> set sample_asked \<and> asks_for a ''account.last4'' \<and> carries m x a \<and> voices v x m \<and>
     spoken_in v t \<and> ev_type r = ''user.msg'' \<and> ev_seq v < ev_seq r"
proof -
  have "case needs_fold no_needs sample_asked of Inl _ \<Rightarrow> False | Inr l \<Rightarrow> start_denial l [''account.last4''] = None"
    by code_simp
  moreover have "sorted_wrt (<) (map ev_seq sample_asked)" by code_simp
  moreover have "list_all (\<lambda>f. \<not> answers f ''account.last4'') sample_asked" by code_simp
  ultimately show ?thesis
    using start_call_has_replies [of sample_asked _ "[''account.last4'']" "''account.last4''"]
    by (auto simp: list_all_iff split: sum.splits)
qed

section \<open>An ask nobody heard\<close>

text \<open>
  An ask that was never heard is undone: after \<open>ask_user\<close>, its message, and a voicing that
  cites a turn without speech, every key stands where it stood before, and the keys are marked
  as not voiced.
\<close>

theorem unheard_ask_is_undone:
  assumes "wf_dict (nl_needs l)"
    and ask: "ev_type e1 = ''slow.tool''" "ev_payload e1 = PSlowTool p" "tp_name p = ''ask_user''" "tp_ok p" "tp_keys p \<noteq> []"
    and msg: "ev_type e2 = ''s2f.msg''" "ev_payload e2 = PS2F m" "ev_cause_ids e2 = ev_event_id e1 # cs"
    and voiced: "ev_type e3 = ''s2f.voiced''" "ev_payload e3 = PS2FVoiced (s2f_msg_id m) g" "ev_cause_ids e3 = c # ds"
    and silent: "nl_turn l \<noteq> Some (c, True)"
  shows "\<exists>l'. needs_fold l [e1, e2, e3] = Inr l' \<and> dget (nl_needs l') = dget (nl_needs l) \<and>
    nl_unvoiced l' = nl_unvoiced l \<union> set (tp_keys p) \<and> nl_turn l' = nl_turn l"
proof -
  let ?ks = "fromkeys (tp_keys p)"
  let ?bs = "map (\<lambda>k. (k, dget (nl_needs l) k)) ?ks"
  let ?d = "set_needs (asked e1) ?ks (nl_needs l)"
  define l2 where "l2 = l\<lparr>nl_needs := ?d, nl_unvoiced := nl_unvoiced l - set ?ks,
      nl_asking := ddel (ev_event_id e1) (dput (ev_event_id e1) (ev_seq e1, ?bs) (nl_asking l)),
      nl_voicing := dput (s2f_msg_id m) (ev_seq e1, ?bs) (nl_voicing l)\<rparr>"
  have fst: "map fst ?bs = ?ks" by (simp add: comp_def)
  have two: "needs_fold l [e1, e2] = Inr l2"
    using ask msg by (simp add: need_step_def need_ask_def need_msg_def change_needs_def dict_simps l2_def Let_def)
  have mine: "filter (still_asked l2 (ev_seq e1)) ?bs = ?bs"
    by (auto simp: filter_id_conv still_asked_def l2_def dget_set_needs_in asked_def)
  let ?l3 = "l2\<lparr>nl_voicing := ddel (s2f_msg_id m) (nl_voicing l2), nl_needs := restore ?bs ?d,
      nl_unvoiced := nl_unvoiced l2 \<union> set ?ks\<rparr>"
  have "voice_heard (l2\<lparr>nl_voicing := x\<rparr>) e3 = Inr False" for x
    using silent voiced(3) by (auto simp: voice_heard_def l2_def first_cause_def split: option.split)
  moreover have "dget (nl_voicing l2) (s2f_msg_id m) = Some (ev_seq e1, ?bs)" "nl_needs l2 = ?d"
    by (simp_all add: l2_def dict_simps)
  ultimately have "need_voiced l2 e3 (s2f_msg_id m) = Inr ?l3"
    by (simp only: need_voiced_def Let_def option.case prod.case mine fst and_then_Inr if_False)
  then have "needs_fold l ([e1, e2] @ [e3]) = Inr ?l3"
    unfolding needs_fold_snoc two using voiced by (simp add: need_step_def)
  moreover have "dget (restore ?bs ?d) k = dget (nl_needs l) k" for k
  proof (cases "k \<in> set ?ks")
    case True
    then have "(k, dget (nl_needs l) k) \<in> set ?bs" by simp
    then show ?thesis using dget_restore_in [of k _ ?bs ?d] fst by simp
  next
    case False
    then show ?thesis using fst by (simp add: dget_restore_out dget_set_needs_out)
  qed
  ultimately show ?thesis by (intro exI [of _ ?l3]) (auto simp: l2_def)
qed

theorem unheard_ask_is_undone_witness:
  "\<exists>l'. needs_fold no_needs [sample_ask, sample_s2f, sample_voiced] = Inr l' \<and>
     dget (nl_needs l') = dget (nl_needs no_needs) \<and> nl_unvoiced l' = {''account.last4''}"
proof -
  have "\<exists>l'. needs_fold no_needs [sample_ask, sample_s2f, sample_voiced] = Inr l' \<and>
     dget (nl_needs l') = dget (nl_needs no_needs) \<and>
     nl_unvoiced l' = nl_unvoiced no_needs \<union> set (tp_keys sample_tool) \<and> nl_turn l' = nl_turn no_needs"
    by (rule unheard_ask_is_undone [where m = sample_msg and cs = "[]" and g = "''g1''" and c = "''r:3''" and ds = "[]"])
      (simp_all add: no_needs_def sample_ask_def sample_s2f_def sample_voiced_def sample_event_def
        sample_tool_def sample_msg_def)
  then show ?thesis by (auto simp: no_needs_def sample_tool_def)
qed

end
