(* ===== verification/Spend.thy ===== *)
theory Spend
  imports Llm_Contract Machines
begin

text \<open>
  \<open>llm/spend.py\<close>: pricing one model call and the ledger that stops a runaway session. Rates are
  dollars per million tokens, which is micro-dollars per token; all listed rates have at most three
  decimals, so a rate is an integer number of thousandths and a price is rounded from thousandths
  of a micro-dollar, half to even, as \<open>round\<close> does. (The code computes in doubles: it can differ
  from this only where the exact price is a half.)
\<close>

section \<open>Prices\<close>

(* llm/spend.py 40-46 Rate *)
record rate =
  rt_input :: int
  rt_output :: int
  rt_cache_read :: "int option"
  rt_cache_write :: "int option"

definition round_milli :: "int \<Rightarrow> int" where
  "round_milli m =
     (let q = m div 1000; r = m mod 1000 in
      if r < 500 then q else if 500 < r then q + 1 else if even q then q else q + 1)"

(* llm/spend.py 48-58 Rate.micro_usd *)
definition micro_usd :: "rate \<Rightarrow> usage \<Rightarrow> int" where
  "micro_usd r u =
     (let prompt =
        (case (rt_cache_read r, rt_cache_write r) of
           (Some cr, Some cw) \<Rightarrow>
             (case (us_cache_read_tokens u, us_cache_write_tokens u) of
                (Some rd, Some wr) \<Rightarrow>
                  (us_prompt_tokens u - rd - wr) * rt_input r + rd * cr + wr * cw
              | _ \<Rightarrow> us_prompt_tokens u * max cw (rt_input r))
         | _ \<Rightarrow> us_prompt_tokens u * rt_input r)
      in round_milli (prompt + us_completion_tokens u * rt_output r))"

definition flat_rate :: "int \<Rightarrow> int \<Rightarrow> rate" where
  "flat_rate i o' = \<lparr>rt_input = i, rt_output = o', rt_cache_read = None, rt_cache_write = None\<rparr>"

(* llm/spend.py 62-66 RELAY_RATES *)
definition RELAY_RATES :: "(string, rate) dict" where
  "RELAY_RATES =
     [(''claude-sonnet-5'', flat_rate 3000 15000),
      (''claude-haiku-4-5-20251001'', flat_rate 1001 5006),
      (''claude-opus-4-8'', flat_rate 5000 25000)]"

(* llm/spend.py 71-76 OPENROUTER_RATES *)
definition OPENROUTER_RATES :: "(string, rate) dict" where
  "OPENROUTER_RATES =
     [(''openai/gpt-6-luna'', flat_rate 100 500), (''google/gemini-3.8-flash'', flat_rate 750 3750)]"

(* llm/spend.py 82-84 ANTHROPIC_RATES *)
definition ANTHROPIC_RATES :: "(string, rate) dict" where
  "ANTHROPIC_RATES =
     [(''claude-sonnet-5-5'',
       \<lparr>rt_input = 2000, rt_output = 10000, rt_cache_read = Some 200, rt_cache_write = Some 2500\<rparr>)]"

datatype basis = Tokens | GpuTime | Unpriced

(* llm/spend.py 87-96 Charge *)
record charge =
  cg_call_id :: string
  cg_role :: llm_role
  cg_attempt :: int
  cg_endpoint :: "endpoint option"
  cg_model_id :: string
  cg_basis :: basis
  cg_micro_usd :: "int option"

definition charge_valid :: "charge \<Rightarrow> bool" where
  "charge_valid c \<longleftrightarrow> (case cg_micro_usd c of None \<Rightarrow> True | Some m \<Rightarrow> 0 \<le> m)"

section \<open>The ledger\<close>

(* llm/spend.py 35-37 RUNAWAY_FACTOR *)
definition RUNAWAY_FACTOR :: int where
  "RUNAWAY_FACTOR = 3"

definition UNPRICED_FACTOR :: int where
  "UNPRICED_FACTOR = 1"

definition SESSION_CAP_MICRO_USD :: int where
  "SESSION_CAP_MICRO_USD = 2000000"

type_synonym rate_tables = "(endpoint, (string, rate) dict) dict"

(* llm/spend.py 126-132 SpendLedger *)
record spend_ledger =
  sl_tables :: rate_tables
  sl_factor :: int
  sl_limit_micro_usd :: int
  sl_limit_tokens :: int
  sl_limit_unpriced :: int
  sl_by_role :: "(llm_role, int) dict"
  sl_unpriced_by_role :: "(llm_role, int) dict"
  sl_unpriced_calls :: int
  sl_gpu_time_calls :: int
  sl_tokens :: int

(* llm/spend.py 134-136 SpendLedger._rate *)
definition rate_of :: "rate_tables \<Rightarrow> model_ref \<Rightarrow> rate option" where
  "rate_of tables r =
     (case mr_endpoint r of
        None \<Rightarrow> None
      | Some e \<Rightarrow> (case dget tables e of None \<Rightarrow> None | Some t \<Rightarrow> dget t (mr_model_id r)))"

definition rate_tables :: "(string, rate) dict \<Rightarrow> (string, rate) dict \<Rightarrow> (string, rate) dict \<Rightarrow> rate_tables" where
  "rate_tables relay openrouter anthropic = [(Relay, relay), (Openrouter, openrouter), (Anthropic, anthropic)]"

(* llm/spend.py 118-132 SpendLedger.__init__ *)
definition new_spend :: "rate_tables \<Rightarrow> model_ref list \<Rightarrow> int \<Rightarrow> int \<Rightarrow> int \<Rightarrow> spend_ledger outcome" where
  "new_spend tables refs projected_tokens projected_calls cap =
     (if min (min projected_tokens projected_calls) cap \<le> 0
        then Inl (ValueError ''the episode projections and the cap must be positive'')
      else
        let priced = list_all (\<lambda>r. mr_endpoint r = Some Vllm \<or> rate_of tables r \<noteq> None) refs;
            f = (if priced then RUNAWAY_FACTOR else UNPRICED_FACTOR)
        in Inr \<lparr>sl_tables = tables, sl_factor = f, sl_limit_micro_usd = cap,
             sl_limit_tokens = f * projected_tokens, sl_limit_unpriced = f * projected_calls,
             sl_by_role = [], sl_unpriced_by_role = [], sl_unpriced_calls = 0, sl_gpu_time_calls = 0,
             sl_tokens = 0\<rparr>)"

(* llm/spend.py 138-157 SpendLedger.price *)
definition price :: "spend_ledger \<Rightarrow> llm_call_record \<Rightarrow> charge outcome" where
  "price l r =
     (let ref = lc_model_ref r;
          (b, m) =
            (if mr_endpoint ref = Some Vllm then (GpuTime, None)
             else case (rate_of (sl_tables l) ref, lc_usage r) of
               (Some rt, Some u) \<Rightarrow> (Tokens, Some (micro_usd rt u))
             | _ \<Rightarrow> (Unpriced, None));
          c = \<lparr>cg_call_id = lc_call_id r, cg_role = lc_role r, cg_attempt = lc_attempt r,
               cg_endpoint = mr_endpoint ref, cg_model_id = mr_model_id ref, cg_basis = b, cg_micro_usd = m\<rparr>
      in check (charge_valid c) (ValidationError ''Charge'') c)"

definition add_to :: "'k \<Rightarrow> int \<Rightarrow> ('k, int) dict \<Rightarrow> ('k, int) dict" where
  "add_to k n d = dput k ((case dget d k of None \<Rightarrow> 0 | Some m \<Rightarrow> m) + n) d"

(* llm/spend.py 184-186 SpendLedger.spend *)
definition spent :: "spend_ledger \<Rightarrow> int" where
  "spent l = sum_list (dvals (sl_by_role l))"

(* llm/spend.py 161-171 SpendLedger.charge *)
definition record_charge :: "spend_ledger \<Rightarrow> llm_call_record \<Rightarrow> charge \<Rightarrow> spend_ledger" where
  "record_charge l r c =
     (let l1 = (if cg_basis c = Unpriced
                then l\<lparr>sl_unpriced_calls := sl_unpriced_calls l + 1,
                       sl_unpriced_by_role := add_to (cg_role c) 1 (sl_unpriced_by_role l)\<rparr>
                else if cg_basis c = GpuTime then l\<lparr>sl_gpu_time_calls := sl_gpu_time_calls l + 1\<rparr>
                else l);
          l2 = (case lc_usage r of
                  None \<Rightarrow> l1
                | Some u \<Rightarrow>
                    if cg_basis c = GpuTime then l1
                    else l1\<lparr>sl_tokens := sl_tokens l1 + us_prompt_tokens u + us_completion_tokens u\<rparr>)
      in case cg_micro_usd c of
           None \<Rightarrow> l2
         | Some m \<Rightarrow> if m = 0 then l2 else l2\<lparr>sl_by_role := add_to (cg_role c) m (sl_by_role l2)\<rparr>)"

datatype runaway = RunawaySpend int int | RunawayTokens int int | RunawayCalls int int

(* llm/spend.py 172-182 SpendLedger.charge *)
definition runaway_of :: "spend_ledger \<Rightarrow> runaway option" where
  "runaway_of l =
     (if spent l > sl_limit_micro_usd l then Some (RunawaySpend (spent l) (sl_limit_micro_usd l))
      else if sl_tokens l > sl_limit_tokens l then Some (RunawayTokens (sl_tokens l) (sl_limit_tokens l))
      else if sl_unpriced_calls l > sl_limit_unpriced l
        then Some (RunawayCalls (sl_unpriced_calls l) (sl_limit_unpriced l))
      else None)"

text \<open>
  \<open>charge\<close> counts the call before it raises, so the ledger moves on in both cases: the result is
  the ledger, the charge, and the \<open>RunawaySpend\<close> it raises, if it does. A charge that does not
  validate raises before anything is counted.
\<close>

(* llm/spend.py 159-182 SpendLedger.charge *)
definition charge_call :: "spend_ledger \<Rightarrow> llm_call_record \<Rightarrow> (spend_ledger \<times> charge \<times> runaway option) outcome" where
  "charge_call l r =
     and_then (price l r) (\<lambda>c. let l' = record_charge l r c in Inr (l', c, runaway_of l'))"

(* llm/spend.py 188-198 SpendLedger.totals *)
record spend_totals =
  st_priced_micro_usd :: int
  st_priced_by_role :: "(llm_role, int) dict"
  st_unpriced_calls :: int
  st_unpriced_by_role :: "(llm_role, int) dict"
  st_gpu_time_calls :: int
  st_tokens :: int

(* llm/spend.py 188-198 SpendLedger.totals *)
definition totals :: "spend_ledger \<Rightarrow> spend_totals" where
  "totals l =
     \<lparr>st_priced_micro_usd = spent l, st_priced_by_role = sl_by_role l,
      st_unpriced_calls = sl_unpriced_calls l, st_unpriced_by_role = sl_unpriced_by_role l,
      st_gpu_time_calls = sl_gpu_time_calls l, st_tokens = sl_tokens l\<rparr>"

section \<open>Bounds of a price\<close>

lemma round_milli_bounds: "1000 * round_milli m \<le> m + 500" "m - 500 \<le> 1000 * round_milli m"
proof -
  define q r where "q = m div 1000" and "r = m mod 1000"
  have m: "m = 1000 * q + r" "0 \<le> r" "r < 1000" by (simp_all add: q_def r_def)
  show "1000 * round_milli m \<le> m + 500" "m - 500 \<le> 1000 * round_milli m"
    unfolding round_milli_def Let_def q_def [symmetric] r_def [symmetric] using m by auto
qed

lemma round_milli_mono: "m \<le> n \<Longrightarrow> round_milli m \<le> round_milli n"
proof -
  assume le: "m \<le> n"
  define q r q' r' where "q = m div 1000" and "r = m mod 1000" and "q' = n div 1000" and "r' = n mod 1000"
  have m: "m = 1000 * q + r" "0 \<le> r" "r < 1000" and n: "n = 1000 * q' + r'" "0 \<le> r'" "r' < 1000"
    by (simp_all add: q_def r_def q'_def r'_def)
  have "q < q' \<or> q = q' \<and> r \<le> r'" using le m n by auto
  then show ?thesis
    unfolding round_milli_def Let_def q_def [symmetric] r_def [symmetric] q'_def [symmetric] r'_def [symmetric]
    by auto
qed

lemma round_milli_nonneg: "0 \<le> m \<Longrightarrow> 0 \<le> round_milli m"
  using round_milli_mono [of 0 m] by (simp add: round_milli_def)

definition rate_ok :: "rate \<Rightarrow> bool" where
  "rate_ok r \<longleftrightarrow> 0 \<le> rt_input r \<and> 0 \<le> rt_output r \<and>
     (case rt_cache_read r of None \<Rightarrow> True | Some c \<Rightarrow> 0 \<le> c) \<and>
     (case rt_cache_write r of None \<Rightarrow> True | Some c \<Rightarrow> 0 \<le> c)"

lemma micro_usd_nonneg:
  assumes "rate_ok r" "usage_valid u"
  shows "0 \<le> micro_usd r u"
  using assms
  by (auto simp: micro_usd_def Let_def rate_ok_def usage_valid_def or_zero_def
      intro!: round_milli_nonneg add_nonneg_nonneg mult_nonneg_nonneg split: option.split)

end
