(* ===== verification/Spend_Facts.thy ===== *)
theory Spend_Facts
  imports Spend
begin

text \<open>
  What the spend ledger promises of a session: its totals are those of the calls it was given,
  nothing it counts ever goes down, and a session it lets go on is within all three limits.
\<close>

section \<open>Prices\<close>

definition tables_ok :: "rate_tables \<Rightarrow> bool" where
  "tables_ok ts \<longleftrightarrow> list_all (\<lambda>(e, t). list_all (\<lambda>(m, r). rate_ok r) t) ts"

definition call_valid :: "llm_call_record \<Rightarrow> bool" where
  "call_valid r \<longleftrightarrow> llm_call_valid r \<and> (case lc_usage r of None \<Rightarrow> True | Some u \<Rightarrow> usage_valid u)"

lemma rate_of_ok: "tables_ok ts \<Longrightarrow> rate_of ts ref = Some r \<Longrightarrow> rate_ok r"
  by (force simp: tables_ok_def rate_of_def list_all_iff dest: dget_mem split: option.splits)

text \<open>The amount a call adds to the priced total, and to the tokens.\<close>

definition gpu_call :: "llm_call_record \<Rightarrow> bool" where
  "gpu_call r \<longleftrightarrow> mr_endpoint (lc_model_ref r) = Some Vllm"

definition priced_at :: "rate_tables \<Rightarrow> llm_call_record \<Rightarrow> int option" where
  "priced_at ts r =
     (if gpu_call r then None
      else case (rate_of ts (lc_model_ref r), lc_usage r) of (Some rt, Some u) \<Rightarrow> Some (micro_usd rt u) | _ \<Rightarrow> None)"

definition priced :: "rate_tables \<Rightarrow> llm_call_record \<Rightarrow> int" where
  "priced ts r = or_zero (priced_at ts r)"

definition unpriced :: "rate_tables \<Rightarrow> llm_call_record \<Rightarrow> bool" where
  "unpriced ts r \<longleftrightarrow> \<not> gpu_call r \<and> priced_at ts r = None"

definition hosted_tokens :: "llm_call_record \<Rightarrow> int" where
  "hosted_tokens r =
     (if gpu_call r then 0
      else case lc_usage r of None \<Rightarrow> 0 | Some u \<Rightarrow> us_prompt_tokens u + us_completion_tokens u)"

lemma price_eq:
  "price l r =
     check (0 \<le> priced (sl_tables l) r) (ValidationError ''Charge'')
       \<lparr>cg_call_id = lc_call_id r, cg_role = lc_role r, cg_attempt = lc_attempt r,
        cg_endpoint = mr_endpoint (lc_model_ref r), cg_model_id = mr_model_id (lc_model_ref r),
        cg_basis = (if gpu_call r then GpuTime else if priced_at (sl_tables l) r = None then Unpriced else Tokens),
        cg_micro_usd = priced_at (sl_tables l) r\<rparr>"
  by (simp add: price_def Let_def gpu_call_def priced_def priced_at_def charge_valid_def or_zero_def check_def
      split: option.split)

lemma priced_nonneg:
  assumes "tables_ok ts" "call_valid r"
  shows "0 \<le> priced ts r"
  using assms rate_of_ok [OF assms(1)] micro_usd_nonneg
  by (auto simp: priced_def priced_at_def or_zero_def call_valid_def split: option.split)

lemma hosted_tokens_nonneg: "call_valid r \<Longrightarrow> 0 \<le> hosted_tokens r"
  by (auto simp: hosted_tokens_def call_valid_def usage_valid_def split: option.splits)

section \<open>One call\<close>

lemma sum_add_to: "wf_dict d \<Longrightarrow> sum_list (dvals (add_to k n d)) = sum_list (dvals d) + n"
  by (induction d) (auto simp: add_to_def split: option.splits if_splits)

lemma dget_add_to: "or_zero (dget (add_to k n d) j) = or_zero (dget d j) + (if j = k then n else 0)"
  by (auto simp: add_to_def dict_simps or_zero_def split: option.split)

lemma wf_add_to: "wf_dict d \<Longrightarrow> wf_dict (add_to k n d)"
  by (simp add: add_to_def)

definition counted :: "spend_ledger \<Rightarrow> llm_call_record \<Rightarrow> spend_ledger" where
  "counted l r = record_charge l r (projr (price l r))"

definition role_part :: "llm_role \<Rightarrow> llm_call_record \<Rightarrow> int \<Rightarrow> int" where
  "role_part q r n = (if lc_role r = q then n else 0)"

lemma charge_call_eq:
  "charge_call l r =
     (if 0 \<le> priced (sl_tables l) r
      then Inr (counted l r, projr (price l r), runaway_of (counted l r))
      else Inl (ValidationError ''Charge''))"
  by (simp add: charge_call_def counted_def price_eq check_def Let_def)

lemma counted_simps:
  assumes "0 \<le> priced (sl_tables l) r" "wf_dict (sl_by_role l)"
  shows "sl_tables (counted l r) = sl_tables l"
    "sl_factor (counted l r) = sl_factor l"
    "sl_limit_micro_usd (counted l r) = sl_limit_micro_usd l"
    "sl_limit_tokens (counted l r) = sl_limit_tokens l"
    "sl_limit_unpriced (counted l r) = sl_limit_unpriced l"
    "sl_tokens (counted l r) = sl_tokens l + hosted_tokens r"
    "sl_unpriced_calls (counted l r) = sl_unpriced_calls l + (if unpriced (sl_tables l) r then 1 else 0)"
    "sl_gpu_time_calls (counted l r) = sl_gpu_time_calls l + (if gpu_call r then 1 else 0)"
    "spent (counted l r) = spent l + priced (sl_tables l) r"
    "or_zero (dget (sl_by_role (counted l r)) q) = or_zero (dget (sl_by_role l) q) + role_part q r (priced (sl_tables l) r)"
    "wf_dict (sl_by_role (counted l r))"
  using assms
  by (auto simp: counted_def price_eq check_def record_charge_def Let_def hosted_tokens_def unpriced_def priced_def
      priced_at_def or_zero_def [of None] or_zero_def [of "Some x" for x] spent_def role_part_def sum_add_to
      dget_add_to wf_add_to split: option.split)

section \<open>A session of calls\<close>

text \<open>
  A session's calls one after the other. A record is validated when it is made. In \<open>count_call\<close>
  the session goes on whatever is raised; in \<open>spend_call\<close> it stops at the first \<open>RunawaySpend\<close>.
\<close>

definition count_call :: "spend_ledger \<Rightarrow> llm_call_record \<Rightarrow> spend_ledger outcome" where
  "count_call l r =
     (if \<not> call_valid r then Inl (ValidationError ''LLMCallRecord'')
      else and_then (charge_call l r) (\<lambda>(l', _, _). Inr l'))"

definition spend_call :: "spend_ledger \<Rightarrow> llm_call_record \<Rightarrow> (py_error + runaway) + spend_ledger" where
  "spend_call l r =
     (if \<not> call_valid r then Inl (Inl (ValidationError ''LLMCallRecord''))
      else case charge_call l r of
        Inl x \<Rightarrow> Inl (Inl x)
      | Inr (l', _, w) \<Rightarrow> (case w of None \<Rightarrow> Inr l' | Some x \<Rightarrow> Inl (Inr x)))"

definition spend_inv :: "spend_ledger \<Rightarrow> bool" where
  "spend_inv l \<longleftrightarrow> tables_ok (sl_tables l) \<and> wf_dict (sl_by_role l)"

definition within_limits :: "spend_ledger \<Rightarrow> bool" where
  "within_limits l \<longleftrightarrow> spent l \<le> sl_limit_micro_usd l \<and> sl_tokens l \<le> sl_limit_tokens l \<and>
     sl_unpriced_calls l \<le> sl_limit_unpriced l"

definition same_limits :: "spend_ledger \<Rightarrow> spend_ledger \<Rightarrow> bool" where
  "same_limits l m \<longleftrightarrow> sl_tables m = sl_tables l \<and> sl_limit_micro_usd m = sl_limit_micro_usd l \<and>
     sl_limit_tokens m = sl_limit_tokens l \<and> sl_limit_unpriced m = sl_limit_unpriced l"

definition spent_less :: "spend_ledger \<Rightarrow> spend_ledger \<Rightarrow> bool" where
  "spent_less l m \<longleftrightarrow> same_limits l m \<and> spent l \<le> spent m \<and> sl_tokens l \<le> sl_tokens m \<and>
     sl_unpriced_calls l \<le> sl_unpriced_calls m \<and> sl_gpu_time_calls l \<le> sl_gpu_time_calls m"

lemma runaway_None: "runaway_of l = None \<longleftrightarrow> within_limits l"
  by (auto simp: runaway_of_def within_limits_def)

lemma count_call_Inr:
  assumes "spend_inv l"
  shows "count_call l r = Inr m \<longleftrightarrow> call_valid r \<and> m = counted l r"
  using assms priced_nonneg [of "sl_tables l" r] by (auto simp: count_call_def charge_call_eq spend_inv_def)

lemma spend_call_Inr:
  assumes "spend_inv l"
  shows "spend_call l r = Inr m \<longleftrightarrow> call_valid r \<and> m = counted l r \<and> within_limits m"
  using assms priced_nonneg [of "sl_tables l" r]
  by (auto simp: spend_call_def charge_call_eq spend_inv_def runaway_None [symmetric] split: option.split)

lemma counted_inv: "spend_inv l \<Longrightarrow> call_valid r \<Longrightarrow> spend_inv (counted l r)"
  using counted_simps [of l r] priced_nonneg [of "sl_tables l" r] by (simp add: spend_inv_def)

lemma counted_less: "spend_inv l \<Longrightarrow> call_valid r \<Longrightarrow> spent_less l (counted l r)"
  using counted_simps [of l r] priced_nonneg [of "sl_tables l" r] hosted_tokens_nonneg [of r]
  by (auto simp: spend_inv_def spent_less_def same_limits_def)

lemma spent_less_refl: "spent_less a a"
  by (simp add: spent_less_def same_limits_def)

lemma spent_less_trans: "spent_less a b \<Longrightarrow> spent_less b c \<Longrightarrow> spent_less a c"
  by (auto simp: spent_less_def same_limits_def)

interpretation counting: monotone_machine count_call spend_inv spent_less
  by unfold_locales
    (auto simp: count_call_Inr intro: counted_inv counted_less spent_less_refl spent_less_trans)

interpretation spending: guarded_machine spend_call "\<lambda>l. spend_inv l \<and> within_limits l"
  by unfold_locales (auto simp: spend_call_Inr counted_inv)

lemma new_spend_inv:
  assumes "new_spend ts refs pt pc cap = Inr l" "tables_ok ts"
  shows "spend_inv l \<and> within_limits l"
proof -
  have "0 \<le> f * pt" "0 \<le> f * pc" "0 \<le> cap" if "0 < min (min pt pc) cap" "f \<in> {1, 3}" for f :: int
    using that by auto
  with assms show ?thesis
    by (auto simp: new_spend_def spend_inv_def within_limits_def spent_def Let_def RUNAWAY_FACTOR_def UNPRICED_FACTOR_def
        split: if_splits)
qed

lemma new_spend_zero:
  "new_spend ts refs pt pc cap = Inr l \<Longrightarrow>
     sl_tables l = ts \<and> sl_tokens l = 0 \<and> sl_unpriced_calls l = 0 \<and> sl_gpu_time_calls l = 0 \<and> spent l = 0 \<and>
     sl_by_role l = []"
  by (auto simp: new_spend_def spent_def Let_def split: if_splits)

text \<open>The totals of a list of calls, computed at once.\<close>

definition batch :: "rate_tables \<Rightarrow> llm_call_record list \<Rightarrow> spend_ledger \<Rightarrow> spend_ledger \<Rightarrow> bool" where
  "batch ts rs l m \<longleftrightarrow>
     sl_tokens m = sl_tokens l + (\<Sum>r\<leftarrow>rs. hosted_tokens r) \<and>
     sl_unpriced_calls m = sl_unpriced_calls l + int (length (filter (unpriced ts) rs)) \<and>
     sl_gpu_time_calls m = sl_gpu_time_calls l + int (length (filter gpu_call rs)) \<and>
     spent m = spent l + (\<Sum>r\<leftarrow>rs. priced ts r) \<and>
     (\<forall>q. or_zero (dget (sl_by_role m) q) = or_zero (dget (sl_by_role l) q) + (\<Sum>r\<leftarrow>rs. role_part q r (priced ts r)))"

lemma run_batch:
  assumes "\<And>l r m. spend_inv l \<Longrightarrow> step l r = Inr m \<Longrightarrow> call_valid r \<and> m = counted l r"
    "spend_inv l" "run step l rs = Inr m"
  shows "spend_inv m \<and> sl_tables m = sl_tables l \<and> batch (sl_tables l) rs l m"
  using assms(2,3)
proof (induction rs arbitrary: l)
  case Nil
  then show ?case by (simp add: batch_def)
next
  case (Cons r rs)
  then obtain k where k: "step l r = Inr k" "run step k rs = Inr m"
    by (auto simp: run_Cons_Inr simp del: run.simps)
  then have v: "call_valid r" "k = counted l r" using assms(1) Cons.prems by blast+
  then have "spend_inv k" using Cons.prems counted_inv by simp
  with Cons.IH k(2) have ih: "spend_inv m" "sl_tables m = sl_tables k" "batch (sl_tables k) rs k m" by blast+
  have "0 \<le> priced (sl_tables l) r" "wf_dict (sl_by_role l)"
    using Cons.prems v priced_nonneg by (simp_all add: spend_inv_def)
  note c = counted_simps [OF this, folded v(2)]
  show ?case using ih by (simp add: batch_def c)
qed

text \<open>
  The ledger counts every call once: after any calls, its tokens, its unpriced and GPU-time
  calls, its priced total and the total of each role are the sums over those calls, and each call
  is of exactly one of the three kinds, so none is silently priced at zero.
\<close>

theorem spend_counts_every_call:
  assumes "new_spend ts refs pt pc cap = Inr l" "tables_ok ts" "run count_call l rs = Inr m"
  shows "st_priced_micro_usd (totals m) = (\<Sum>r\<leftarrow>rs. priced ts r) \<and>
    st_tokens (totals m) = (\<Sum>r\<leftarrow>rs. hosted_tokens r) \<and>
    st_unpriced_calls (totals m) = int (length (filter (unpriced ts) rs)) \<and>
    st_gpu_time_calls (totals m) = int (length (filter gpu_call rs)) \<and>
    int (length rs) = st_unpriced_calls (totals m) + st_gpu_time_calls (totals m) +
      int (length (filter (\<lambda>r. priced_at ts r \<noteq> None) rs)) \<and>
    (\<forall>q. or_zero (dget (st_priced_by_role (totals m)) q) = (\<Sum>r\<leftarrow>rs. role_part q r (priced ts r)))"
proof -
  have "spend_inv l" using new_spend_inv [OF assms(1,2)] by simp
  then have b: "batch ts rs l m"
    using run_batch [of count_call l rs m] assms(3) new_spend_zero [OF assms(1)] by (auto simp: count_call_Inr)
  have "length rs = length (filter (unpriced ts) rs) + length (filter gpu_call rs) +
      length (filter (\<lambda>r. priced_at ts r \<noteq> None) rs)"
    by (induction rs) (auto simp: unpriced_def priced_at_def)
  then show ?thesis
    using b new_spend_zero [OF assms(1)] by (simp add: batch_def totals_def or_zero_def [of None])
qed

definition sample_record :: "endpoint \<Rightarrow> string \<Rightarrow> usage option \<Rightarrow> llm_call_record" where
  "sample_record e m u =
     \<lparr>lc_call_id = ''c'', lc_role = RoleSlow,
      lc_model_ref = \<lparr>mr_kind = REAL_HTTP, mr_endpoint = Some e, mr_model_id = m, mr_effort = None\<rparr>,
      lc_adapter_kind = REAL_HTTP, lc_requested_model = m, lc_usage = u, lc_t_start = 0,
      lc_t_first_token = None, lc_t_end = 5, lc_attempt = 0, lc_error = None\<rparr>"

definition sample_usage :: usage where
  "sample_usage =
     \<lparr>us_prompt_tokens = 900, us_completion_tokens = 100, us_reasoning_tokens = None,
      us_cache_read_tokens = Some 500, us_cache_write_tokens = Some 300\<rparr>"

definition sample_records :: "llm_call_record list" where
  "sample_records =
     [sample_record Anthropic ''claude-sonnet-5-5'' (Some sample_usage),
      sample_record Vllm ''qwen'' (Some sample_usage), sample_record Teamrouter ''gemini'' None]"

definition sample_tables :: rate_tables where
  "sample_tables = rate_tables RELAY_RATES OPENROUTER_RATES ANTHROPIC_RATES"

lemma sample_tables_ok: "tables_ok sample_tables"
  by code_simp

definition sample_ledger :: spend_ledger where
  "sample_ledger = projr (new_spend sample_tables [] 2000 1 2000000)"

lemma sample_ledger_new: "new_spend sample_tables [] 2000 1 2000000 = Inr sample_ledger"
  by (simp add: sample_ledger_def new_spend_def Let_def)

definition sample_spent :: spend_ledger where
  "sample_spent = projr (run spend_call sample_ledger sample_records)"

lemma not_isl_Inr: "\<not> isl x \<Longrightarrow> x = Inr (projr x)"
  by (cases x) simp_all

lemma sample_spent_run: "run spend_call sample_ledger sample_records = Inr sample_spent"
  unfolding sample_spent_def by (rule not_isl_Inr) code_simp

definition sample_counted :: spend_ledger where
  "sample_counted = projr (run count_call sample_ledger sample_records)"

lemma sample_counted_run: "run count_call sample_ledger sample_records = Inr sample_counted"
  unfolding sample_counted_def by (rule not_isl_Inr) code_simp

theorem spend_counts_every_call_witness:
  "st_tokens (totals sample_counted) = (\<Sum>r\<leftarrow>sample_records. hosted_tokens r)"
  using spend_counts_every_call [OF sample_ledger_new sample_tables_ok sample_counted_run] by blast

text \<open>
  A session that goes on is within its limits: while no call raised, the priced total is at
  most the cap, the hosted tokens and the unpriced calls at most the factor times their
  projections; and a call that raises takes the session out of them itself, so the total exceeds
  the cap by no more than that one call's price.
\<close>

theorem runaway_spend_is_stopped:
  assumes "new_spend ts refs pt pc cap = Inr l" "tables_ok ts" "run spend_call l rs = Inr m"
  shows "(\<Sum>r\<leftarrow>rs. priced ts r) \<le> cap \<and>
    (\<Sum>r\<leftarrow>rs. hosted_tokens r) \<le> sl_factor l * pt \<and>
    int (length (filter (unpriced ts) rs)) \<le> sl_factor l * pc \<and>
    (call_valid r \<longrightarrow>
       (case spend_call m r of
          Inr m' \<Rightarrow> (\<Sum>r\<leftarrow>rs @ [r]. priced ts r) \<le> cap
        | Inl w \<Rightarrow> (\<Sum>r\<leftarrow>rs @ [r]. priced ts r) \<le> cap + priced ts r \<and>
            \<not> ((\<Sum>r\<leftarrow>rs @ [r]. priced ts r) \<le> cap \<and> (\<Sum>r\<leftarrow>rs @ [r]. hosted_tokens r) \<le> sl_factor l * pt \<and>
               int (length (filter (unpriced ts) (rs @ [r]))) \<le> sl_factor l * pc)))"
proof -
  have l: "spend_inv l" "within_limits l" using new_spend_inv [OF assms(1,2)] by simp_all
  have lim: "sl_limit_micro_usd l = cap" "sl_limit_tokens l = sl_factor l * pt" "sl_limit_unpriced l = sl_factor l * pc"
    using assms(1) by (auto simp: new_spend_def Let_def split: if_splits)
  have m: "spend_inv m" "within_limits m" using spending.run_inv [OF _ assms(3)] l by simp_all
  have b: "batch ts rs l m"
    using run_batch [of spend_call l rs m] assms(3) l(1) new_spend_zero [OF assms(1)] by (auto simp: spend_call_Inr)
  have "run count_call l rs = Inr m"
    using assms(3) l(1)
  proof (induction rs arbitrary: l)
    case (Cons r rs)
    then show ?case using counted_inv
      by (fastforce simp: run_Cons_Inr spend_call_Inr count_call_Inr simp del: run.simps)
  qed simp
  then have "spent_less l m" using counting.run_le l(1) by blast
  then have ml: "sl_limit_micro_usd m = cap" "sl_limit_tokens m = sl_factor l * pt"
      "sl_limit_unpriced m = sl_factor l * pc" "sl_tables m = ts"
    using lim new_spend_zero [OF assms(1)] by (simp_all add: spent_less_def same_limits_def)
  have tot: "spent m = (\<Sum>r\<leftarrow>rs. priced ts r)" "sl_tokens m = (\<Sum>r\<leftarrow>rs. hosted_tokens r)"
      "sl_unpriced_calls m = int (length (filter (unpriced ts) rs))"
    using b new_spend_zero [OF assms(1)] by (simp_all add: batch_def)
  have next_call: "case spend_call m r of
          Inr m' \<Rightarrow> (\<Sum>r\<leftarrow>rs @ [r]. priced ts r) \<le> cap
        | Inl w \<Rightarrow> (\<Sum>r\<leftarrow>rs @ [r]. priced ts r) \<le> cap + priced ts r \<and>
            \<not> ((\<Sum>r\<leftarrow>rs @ [r]. priced ts r) \<le> cap \<and> (\<Sum>r\<leftarrow>rs @ [r]. hosted_tokens r) \<le> sl_factor l * pt \<and>
               int (length (filter (unpriced ts) (rs @ [r]))) \<le> sl_factor l * pc)" if r: "call_valid r"
  proof -
    have "0 \<le> priced (sl_tables m) r" "wf_dict (sl_by_role m)"
      using m(1) r priced_nonneg by (simp_all add: spend_inv_def)
    note c = counted_simps [OF this]
    have "within_limits (counted m r) \<longleftrightarrow>
        (\<Sum>r\<leftarrow>rs @ [r]. priced ts r) \<le> cap \<and> (\<Sum>r\<leftarrow>rs @ [r]. hosted_tokens r) \<le> sl_factor l * pt \<and>
        int (length (filter (unpriced ts) (rs @ [r]))) \<le> sl_factor l * pc"
      by (simp add: within_limits_def c ml tot)
    moreover have "spent m \<le> cap" using m(2) ml by (simp add: within_limits_def)
    ultimately show ?thesis
      using spend_call_Inr [OF m(1), of r] r tot
      by (cases "spend_call m r") auto
  qed
  then show ?thesis using m(2) tot ml by (simp add: within_limits_def)
qed

theorem runaway_spend_is_stopped_witness:
  "(\<Sum>r\<leftarrow>sample_records. priced sample_tables r) \<le> 2000000 \<and>
   (\<Sum>r\<leftarrow>sample_records. hosted_tokens r) \<le> sl_factor sample_ledger * 2000"
  using runaway_spend_is_stopped [OF sample_ledger_new sample_tables_ok sample_spent_run] by blast

end
