(* ===== verification/Kernel_Fence.thy ===== *)
theory Kernel_Fence
  imports Log_Bus Status Capability Authorize
begin

text \<open>
  \<open>kernel/fence.py\<close>: the kernel's authority timing. \<open>Authority\<close> is a subscriber of the bus; a
  handler takes the record \<open>kernel_authority\<close> and an event and returns the record and what it does, in
  order: events to emit, wakes of Slow, a move of the waiters, timers and the simulated user's
  reactions. \<open>kernel_view\<close> is what it reads of the kernel. The bus queues what is emitted during
  a delivery, so effects are delivered after the event that caused them.
\<close>

section \<open>State\<close>

datatype kernel_effect =
    Emit (ke_type: string) (ke_actor: string) (ke_payload: payload) (ke_causes: "string list")
  | Wake string
  | Moved
  | ExpiryTimer approval_card string
  | SimUser string
  | AfterOffer string

record kernel_view =
  kv_slow :: bool
  kv_closed :: bool
  kv_reads :: bool
  kv_bb :: blackboard

text \<open>A raised fence and an uncovered rep line: its text line's number and what a step must reach.\<close>

record raised =
  rf_lane :: string
  rf_utt :: string
  rf_seq :: int
  rf_at :: "int option"

record rep_line =
  rl_event :: string
  rl_utt :: string
  rl_seq :: int
  rl_at :: "int option"

(* kernel/fence.py 71-88 Authority.__init__ *)
record kernel_authority =
  au_n :: nat
  au_root :: string
  au_raised :: "(string, raised) dict"
  au_basis :: "(string, int) dict"
  au_lines :: "rep_line list"
  au_user_fences :: nat
  au_asked :: "(string, string) dict"
  au_replan :: "int option"

definition new_kernel_authority :: "string \<Rightarrow> kernel_authority" where
  "new_kernel_authority root =
     \<lparr>au_n = 0, au_root = root, au_raised = [], au_basis = [], au_lines = [], au_user_fences = 0,
      au_asked = [], au_replan = None\<rparr>"

type_synonym reaction = "kernel_authority \<times> kernel_effect list"

section \<open>Fences\<close>

(* kernel/fence.py 136-138 Authority._wake *)
definition wake :: "kernel_view \<Rightarrow> string \<Rightarrow> kernel_effect list" where
  "wake v reason = (if kv_slow v then [Wake reason] else [])"

(* kernel/fence.py 129-134 Authority.move *)
definition status_move :: "blackboard \<Rightarrow> string \<Rightarrow> string \<Rightarrow> kernel_effect list" where
  "status_move bb trigger cause =
     (case status_change bb trigger of
        None \<Rightarrow> []
      | Some (was, s) \<Rightarrow> [Emit ''status.changed'' ''guard'' (PStatus was s) [cause]])"

(* kernel/fence.py 140-143 Authority.partner_only *)
definition partner_only :: "kernel_authority \<Rightarrow> bool" where
  "partner_only a \<longleftrightarrow> set (map rf_lane (dvals (au_raised a))) = {''cp''}"

(* kernel/fence.py 145-149 Authority.partner_bound *)
definition partner_bound :: "kernel_authority \<Rightarrow> bool" where
  "partner_bound a \<longleftrightarrow>
     list_all (\<lambda>f. rf_lane f = ''cp'' \<longrightarrow> rf_at f \<noteq> None) (dvals (au_raised a))"

(* kernel/fence.py 161-162 Authority._live *)
definition live_call :: "kernel_view \<Rightarrow> bool" where
  "live_call v \<longleftrightarrow> kv_slow v \<and> \<not> kv_closed v"

definition fence_name :: "nat \<Rightarrow> string" where
  "fence_name n = ''fence-'' @ dec n"

(* kernel/fence.py 183-193 Authority._raise *)
definition raise_fence ::
  "kernel_view \<Rightarrow> kernel_authority \<Rightarrow> string list \<Rightarrow> int \<Rightarrow> string \<Rightarrow> string \<Rightarrow> int option \<Rightarrow> reaction"
where
  "raise_fence v a causes seq lane utt at =
     (let f = fence_name (au_n a + 1) in
      (a\<lparr>au_n := au_n a + 1,
         au_user_fences := au_user_fences a + (if lane = ''user'' then 1 else 0),
         au_raised := dput f \<lparr>rf_lane = lane, rf_utt = utt, rf_seq = seq, rf_at = at\<rparr> (au_raised a)\<rparr>,
       [Emit ''authority.fence'' ''kernel'' (PFence ''raised'' f utt) causes, Moved] @
       (if at = None then [] else wake v ''fence'')))"

(* kernel/fence.py 164-172 Authority._rep_line *)
definition on_rep_line :: "kernel_view \<Rightarrow> kernel_authority \<Rightarrow> event \<Rightarrow> string \<Rightarrow> reaction" where
  "on_rep_line v a e utt =
     (if \<not> live_call v then (a, [])
      else
        let at = (if kv_reads v then Some (ev_seq e) else None);
            l = \<lparr>rl_event = ev_event_id e, rl_utt = utt, rl_seq = ev_seq e, rl_at = at\<rparr>;
            b = a\<lparr>au_lines := au_lines a @ [l]\<rparr>
        in if accept_in_flight (kv_bb v) then raise_fence v b [ev_event_id e] (ev_seq e) ''cp'' utt at
           else (b, []))"

fun fence_lines :: "kernel_view \<Rightarrow> string \<Rightarrow> rep_line list \<Rightarrow> kernel_authority \<Rightarrow> reaction" where
  "fence_lines v auth [] a = (a, [])"
| "fence_lines v auth (l # ls) a =
     (let (b, xs) = raise_fence v a [rl_event l, auth] (rl_seq l) ''cp'' (rl_utt l) (rl_at l);
          (c, ys) = fence_lines v auth ls b
      in (c, xs @ ys))"

(* kernel/fence.py 174-181 Authority._minted *)
definition on_minted :: "kernel_view \<Rightarrow> kernel_authority \<Rightarrow> event \<Rightarrow> reaction" where
  "on_minted v a e =
     (if \<not> live_call v then (a, [])
      else
        let fenced = map rf_seq (filter (\<lambda>f. rf_lane f = ''cp'') (dvals (au_raised a))) in
        fence_lines v (ev_event_id e) (filter (\<lambda>l. rl_seq l \<notin> set fenced) (au_lines a)) a)"

definition bind_line :: "int \<Rightarrow> int \<Rightarrow> rep_line \<Rightarrow> rep_line" where
  "bind_line basis turn l = (if rl_at l \<noteq> None \<or> basis < rl_seq l then l else l\<lparr>rl_at := Some turn\<rparr>)"

definition binds :: "string \<Rightarrow> int \<Rightarrow> raised \<Rightarrow> bool" where
  "binds lane basis f \<longleftrightarrow> rf_lane f = lane \<and> rf_at f = None \<and> rf_seq f \<le> basis"

(* kernel/fence.py 195-206 Authority._bind *)
definition on_turn :: "kernel_view \<Rightarrow> kernel_authority \<Rightarrow> event \<Rightarrow> string \<Rightarrow> string \<Rightarrow> reaction" where
  "on_turn v a e lane gen =
     (let basis = (case dget (au_basis a) gen of None \<Rightarrow> -1 | Some n \<Rightarrow> n);
          bound = filter (\<lambda>(i, f). binds lane basis f) (au_raised a)
      in (a\<lparr>au_basis := ddel gen (au_basis a),
            au_lines := (if lane = ''cp'' then map (bind_line basis (ev_seq e)) (au_lines a) else au_lines a),
            au_raised := map (\<lambda>(i, f). (i, if binds lane basis f then f\<lparr>rf_at := Some (ev_seq e)\<rparr> else f))
              (au_raised a)\<rparr>,
          concat (map (\<lambda>_. wake v ''fence'') bound)))"

(* kernel/fence.py 208-212 Authority._clear *)
definition clear_fence :: "kernel_authority \<Rightarrow> string \<Rightarrow> string \<Rightarrow> reaction outcome" where
  "clear_fence a f cause =
     (case dget (au_raised a) f of
        None \<Rightarrow> Inl (KeyError f)
      | Some x \<Rightarrow>
          Inr (a\<lparr>au_raised := ddel f (au_raised a)\<rparr>,
            [Emit ''authority.fence'' ''kernel'' (PFence ''cleared'' f (rf_utt x)) [cause], Moved]))"

fun clear_fences :: "string \<Rightarrow> string list \<Rightarrow> kernel_authority \<Rightarrow> reaction outcome" where
  "clear_fences cause [] a = Inr (a, [])"
| "clear_fences cause (f # fs) a =
     and_then (clear_fence a f cause) (\<lambda>(b, xs).
     and_then (clear_fences cause fs b) (\<lambda>(c, ys). Inr (c, xs @ ys)))"

(* kernel/fence.py 214-220 Authority._closed *)
definition on_closed :: "kernel_authority \<Rightarrow> event \<Rightarrow> reaction outcome" where
  "on_closed a e =
     and_then
       (clear_fences (ev_event_id e)
         (dkeys (filter (\<lambda>(i, f). rf_lane f = ''cp'' \<and> rf_at f = None) (au_raised a))) a)
       (\<lambda>(b, xs). Inr (b, xs @ [Moved]))"

definition reached :: "int \<Rightarrow> int option \<Rightarrow> bool" where
  "reached basis at \<longleftrightarrow> (case at of None \<Rightarrow> False | Some n \<Rightarrow> n \<le> basis)"

definition replans :: "kernel_view \<Rightarrow> kernel_authority \<Rightarrow> string \<Rightarrow> int \<Rightarrow> reaction" where
  "replans v a cause basis =
     (if \<not> reached basis (au_replan a) then (a, [])
      else
        let xs = status_move (kv_bb v) ''replan'' cause in
        (a\<lparr>au_replan := None\<rparr>, xs @ (if xs = [] then [] else wake v ''replan'')))"

(* kernel/fence.py 222-231 Authority._completed *)
definition on_completed :: "kernel_view \<Rightarrow> kernel_authority \<Rightarrow> event \<Rightarrow> int \<Rightarrow> reaction outcome" where
  "on_completed v a e basis =
     (let b = a\<lparr>au_lines := filter (\<lambda>l. \<not> reached basis (rl_at l)) (au_lines a)\<rparr> in
      and_then
        (clear_fences (ev_event_id e) (dkeys (filter (\<lambda>(i, f). reached basis (rf_at f)) (au_raised b))) b)
        (\<lambda>(c, xs). let (d, ys) = replans v c (ev_event_id e) basis in Inr (d, xs @ ys)))"

section \<open>Every event\<close>

(* kernel/fence.py 106-110 Authority.on_event *)
definition on_epoch :: "kernel_view \<Rightarrow> kernel_authority \<Rightarrow> event \<Rightarrow> reaction" where
  "on_epoch v a e =
     (a, Moved #
       (case pending_card (kv_bb v) of
          None \<Rightarrow> []
        | Some c \<Rightarrow>
            if card_epoch c < bb_epoch (kv_bb v) then status_move (kv_bb v) ''approval_stale'' (ev_event_id e)
            else []))"

(* kernel/fence.py 116-120 Authority.on_event *)
definition on_asked :: "kernel_authority \<Rightarrow> event \<Rightarrow> reaction outcome" where
  "on_asked a e =
     (case ev_payload e of
        PCard c \<Rightarrow>
          Inr (a\<lparr>au_asked := dput (card_id c) (ev_event_id e) (au_asked a)\<rparr>,
            SimUser (ev_event_id e) #
            (if ev_type e = ''approval.requested'' then [ExpiryTimer c (ev_event_id e)] else []))
      | PMandate m \<Rightarrow>
          Inr (a\<lparr>au_asked := dput (m_id m) (ev_event_id e) (au_asked a)\<rparr>, [SimUser (ev_event_id e)])
      | _ \<Rightarrow> Inl (KeyError ''mandate_id''))"

definition bump_call :: "kernel_view \<Rightarrow> bump_reason \<Rightarrow> string \<Rightarrow> kernel_effect" where
  "bump_call v why cause =
     Emit ''authority.epoch'' ''kernel'' (PEpoch \<lparr>eb_new = bb_epoch (kv_bb v) + 1, eb_reason = why\<rparr>) [cause]"

(* kernel/fence.py 90-103 Authority.on_event *)
definition on_talk :: "kernel_view \<Rightarrow> kernel_authority \<Rightarrow> event \<Rightarrow> reaction outcome" where
  "on_talk v a e =
     (if ev_type e = ''user.msg'' then
        Inr (if kv_slow v then raise_fence v a [ev_event_id e] (ev_seq e) ''user'' (ev_event_id e) None else (a, []))
      else if ev_type e = ''utt.final'' then
        (case ev_payload e of
           PUttFinal lane who utt _ \<Rightarrow>
             Inr (if lane = ''cp'' \<and> who = ''partner'' then on_rep_line v a e utt else (a, []))
         | _ \<Rightarrow> Inl (KeyError ''lane''))
      else if ev_type e = ''action.authorized'' then
        (case ev_payload e of
           PAuthorized i _ \<Rightarrow> Inr (if i = AcceptOffer then on_minted v a e else (a, []))
         | _ \<Rightarrow> Inl (KeyError ''intent''))
      else if ev_type e = ''fast.request'' then
        (case ev_payload e of
           PFastRequest _ g n \<Rightarrow> Inr (a\<lparr>au_basis := dput g n (au_basis a)\<rparr>, [])
         | _ \<Rightarrow> Inl (KeyError ''gen_id''))
      else if ev_type e = ''fast.cancelled'' then
        (case ev_payload e of
           PFastCancelled g _ \<Rightarrow> Inr (a\<lparr>au_basis := ddel g (au_basis a)\<rparr>, [])
         | _ \<Rightarrow> Inl (KeyError ''gen_id''))
      else
        (case ev_payload e of
           PFastTurn lane g _ \<Rightarrow> Inr (on_turn v a e lane g)
         | _ \<Rightarrow> Inl (KeyError ''lane'')))"

definition TALK :: "string list" where
  "TALK = [''user.msg'', ''utt.final'', ''action.authorized'', ''fast.request'', ''fast.cancelled'', ''fast.turn'']"

(* kernel/fence.py 104-127 Authority.on_event *)
definition on_event :: "kernel_view \<Rightarrow> kernel_authority \<Rightarrow> event \<Rightarrow> reaction outcome" where
  "on_event v a e =
     (if ev_type e \<in> set TALK then on_talk v a e
      else if ev_type e = ''chan.closed'' then on_closed a e
      else if ev_type e = ''authority.epoch'' then Inr (on_epoch v a e)
      else if ev_type e = ''slow.step.completed'' then
        (case ev_payload e of PStepCompleted n \<Rightarrow> on_completed v a e n | _ \<Rightarrow> Inl (KeyError ''basis_seq''))
      else if ev_type e = ''f2s.msg'' then
        (case ev_payload e of
           PF2S m \<Rightarrow> Inr (a, if f2s_ty m = REVOKE then [bump_call v BumpF2sRevoke (ev_event_id e)] else [])
         | _ \<Rightarrow> Inl (KeyError ''type''))
      else if ev_type e \<in> {''approval.requested'', ''mandate.proposed''} then on_asked a e
      else if ev_type e = ''rep.policy'' then
        (case ev_payload e of
           PRepPolicy i \<Rightarrow> Inr (a, if i \<in> {''offer'', ''final_offer''} then [AfterOffer (ev_event_id e)] else [])
         | _ \<Rightarrow> Inl (KeyError ''intent''))
      else if ev_type e = ''status.changed'' then
        (case ev_payload e of
           PStatus _ s \<Rightarrow>
             Inr (if s = NEEDS_REPLAN then (a\<lparr>au_replan := Some (ev_seq e)\<rparr>, wake v ''replan'') else (a, []))
         | _ \<Rightarrow> Inl (KeyError ''status''))
      else if ev_type e \<in> {''approval.decided'', ''mandate.decided'', ''speak.revoked''} then
        Inr (a, wake v (ev_type e))
      else Inr (a, []))"

section \<open>Delivery (\<open>core/bus.py\<close>)\<close>

text \<open>What the kernel emits carries its own clock reading and the agent stream.\<close>

fun effect_calls :: "int \<Rightarrow> kernel_effect list \<Rightarrow> emit_call list" where
  "effect_calls t [] = []"
| "effect_calls t (Emit ty actor p cs # xs) =
     \<lparr>ec_t_ms = t, ec_wall = 0, ec_type = ty, ec_actor = actor, ec_stream = AgentStream,
      ec_payload = p, ec_cause_ids = cs\<rparr> # effect_calls t xs"
| "effect_calls t (_ # xs) = effect_calls t xs"

type_synonym kernel = "bus \<times> kernel_authority"

text \<open>
  One event to the authority: what the handler emits is stamped, folded and written at once, and
  queued behind the events that wait. \<open>vw\<close> is what the handler sees of the kernel beside the board.
\<close>

(* core/bus.py 91-97 Bus._deliver *)
definition deliver_one :: "(blackboard \<Rightarrow> kernel_view) \<Rightarrow> int \<Rightarrow> kernel \<Rightarrow> kernel outcome" where
  "deliver_one vw t k =
     (case bus_undelivered (fst k) of
        [] \<Rightarrow> Inr k
      | e # q \<Rightarrow>
          let b = (fst k)\<lparr>bus_undelivered := q\<rparr> in
          and_then (on_event (vw (bus_bb b)) (snd k) e) (\<lambda>(a, xs).
          and_then (run emit b (effect_calls t xs)) (\<lambda>c. Inr (c, a))))"

datatype kernel_input = Emits emit_call | Delivers int

definition kernel_step :: "(blackboard \<Rightarrow> kernel_view) \<Rightarrow> kernel \<Rightarrow> kernel_input \<Rightarrow> kernel outcome" where
  "kernel_step vw k i =
     (case i of
        Emits c \<Rightarrow> and_then (emit (fst k) c) (\<lambda>b. Inr (b, snd k))
      | Delivers t \<Rightarrow> deliver_one vw t k)"

section \<open>Posts\<close>

text \<open>
  \<open>decide\<close> runs outside a delivery, so each event it emits is delivered before the next; \<open>say\<close>
  emits one call with its deliveries and returns the event's id.
\<close>

type_synonym 'k say = "'k \<Rightarrow> emit_call \<Rightarrow> ('k \<times> string) outcome"

definition kernel_call :: "int \<Rightarrow> string \<Rightarrow> string \<Rightarrow> payload \<Rightarrow> string list \<Rightarrow> emit_call" where
  "kernel_call t ty actor p causes =
     \<lparr>ec_t_ms = t, ec_wall = 0, ec_type = ty, ec_actor = actor, ec_stream = AgentStream,
      ec_payload = p, ec_cause_ids = causes\<rparr>"

definition approver_name :: "approver \<Rightarrow> string" where
  "approver_name w = (case w of Ui \<Rightarrow> ''ui'' | SimApprover \<Rightarrow> ''sim_approver'')"

definition say_move :: "kernel say \<Rightarrow> int \<Rightarrow> string \<Rightarrow> string \<Rightarrow> kernel \<Rightarrow> kernel outcome" where
  "say_move say t trigger cause k =
     (case status_change (bus_bb (fst k)) trigger of
        None \<Rightarrow> Inr k
      | Some (was, s) \<Rightarrow>
          and_then (say k (kernel_call t ''status.changed'' ''guard'' (PStatus was s) [cause])) (\<lambda>(m, _). Inr m))"

(* kernel/fence.py 261-267 Authority.decide *)
definition after_decision :: "kernel say \<Rightarrow> int \<Rightarrow> approval_post \<Rightarrow> string \<Rightarrow> string \<Rightarrow> kernel \<Rightarrow> kernel outcome" where
  "after_decision say t post ty decided k =
     (if ty = ''approval.decided'' then say_move say t ''approval_decided'' decided k
      else
        and_then
          (say k (kernel_call t ''authority.epoch'' ''kernel''
             (PEpoch \<lparr>eb_new = bb_epoch (bus_bb (fst k)) + 1, eb_reason = BumpMandateDecided\<rparr>) [decided]))
          (\<lambda>(m, _). if ap_decision post = Granted then say_move say t ''mandate_granted'' decided m else Inr m))"

(* kernel/fence.py 242-256 Authority.decide *)
definition decide_post :: "kernel say \<Rightarrow> int \<Rightarrow> approval_post \<Rightarrow> approver \<Rightarrow> kernel \<Rightarrow> kernel outcome" where
  "decide_post say t post who k =
     (case decide (bus_bb (fst k)) post who of
        Denial reason \<Rightarrow>
          and_then
            (say k (kernel_call t ''action.denied'' ''kernel'' (PActionDenied ''approval.post'' reason)
               [case dget (au_asked (snd k)) (ap_subject_id post) of None \<Rightarrow> au_root (snd k) | Some i \<Rightarrow> i]))
            (\<lambda>(m, _). Inr m)
      | Allow (ty, p) \<Rightarrow>
          let cause = (case dget (au_asked (snd k)) (ap_subject_id post) of
              None \<Rightarrow> [] | Some i \<Rightarrow> if who = SimApprover then [i] else [])
          in and_then (say k (kernel_call t ''approval.post'' (approver_name who) (PPost post) cause)) (\<lambda>(m, posted).
             and_then (say m (kernel_call t ty ''kernel'' p [posted])) (\<lambda>(n, decided).
               after_decision say t post ty decided n)))"

(* kernel/fence.py 269-276 Authority._expires *)
definition card_expired :: "blackboard \<Rightarrow> int \<Rightarrow> approval_card \<Rightarrow> string \<Rightarrow> kernel_effect list" where
  "card_expired bb now c asked =
     (if card_expires_ms c - now > 0 then []
      else if pending_card bb = Some c then status_move bb ''approval_expired'' asked
      else [])"

end
