(* ===== verification/Kernel_Board.thy ===== *)
theory Kernel_Board
  imports Kernel_Fence Session_Facts
begin

text \<open>
  What single events do to the two parts of the board the kernel's fences depend on: the fences
  change only by \<open>authority.fence\<close>, and an accept comes into flight only by
  \<open>action.authorized{accept_offer}\<close>.
\<close>

section \<open>Fences on the board\<close>

definition same_fences :: "blackboard \<Rightarrow> blackboard \<Rightarrow> bool" where
  "same_fences bb m \<longleftrightarrow> bb_fences m = bb_fences bb"

lemma same_fences_simps [simp]:
  "same_fences bb bb" "same_fences bb (bb\<lparr>bb_public := p\<rparr>)" "same_fences bb (bb\<lparr>bb_private := q\<rparr>)"
  "same_fences bb (m\<lparr>bb_epoch := n\<rparr>) = same_fences bb m" "same_fences bb (bb\<lparr>bb_completion := c\<rparr>)"
  "same_fences bb (bb\<lparr>bb_authorizations := as, bb_capabilities := cs\<rparr>)"
  "same_fences bb (bb\<lparr>bb_capabilities := cs\<rparr>)"
  by (simp_all add: same_fences_def)

lemma put_offer_fences: "put_offer bb r off = Inr m \<Longrightarrow> same_fences bb m"
  by (auto simp: put_offer_Inr)

lemma offer_fences: "r_offer bb e = Inr m \<Longrightarrow> same_fences bb m"
  unfolding r_offer_def POffer_case if_Inl_eq_Inr Let_def by (auto dest: put_offer_fences)

lemma readback_fences: "r_readback bb e = Inr m \<Longrightarrow> same_fences bb m"
  unfolding r_readback_def PReadback_case if_Inl_eq_Inr Let_def
  by (auto split: option.splits if_splits dest: put_offer_fences)

lemma verbatim_fences: "r_verbatim bb e = Inr m \<Longrightarrow> same_fences bb m"
  unfolding r_verbatim_def PVerbatim_case
  by (auto simp: and_then_eq_Inr split: option.splits if_splits dest: put_offer_fences)

lemma with_fences: "with_private bb q = Inr m \<Longrightarrow> same_fences bb m" "with_public bb p = Inr m \<Longrightarrow> same_fences bb m"
  by (auto simp: with_private_Inr with_public_Inr)

lemma epoch_fences: "r_epoch bb e = Inr m \<Longrightarrow> same_fences bb m"
  by (erule epoch_cases) simp_all

lemma status_fences: "r_status bb e = Inr m \<Longrightarrow> same_fences bb m"
  unfolding r_status_def PStatus_case if_Inl_eq_Inr Let_def
  by (auto simp: and_then_eq_Inr split: option.splits if_splits dest: with_fences)

lemma completion_fences: "r_completion bb e = Inr m \<Longrightarrow> same_fences bb m"
  unfolding r_completion_def PCompletion_case if_Inl_eq_Inr Let_def
  by (auto simp: and_then_eq_Inr split: option.splits if_splits dest: with_fences)

lemma mandate_proposed_fences: "r_mandate_proposed bb e = Inr m \<Longrightarrow> same_fences bb m"
  unfolding r_mandate_proposed_def PMandate_case if_Inl_eq_Inr Let_def
  by (auto simp: and_then_eq_Inr split: option.splits if_splits dest: with_fences)

lemma mandate_decided_fences: "r_mandate_decided bb e = Inr m \<Longrightarrow> same_fences bb m"
  unfolding r_mandate_decided_def PMandateDecided_case if_Inl_eq_Inr Let_def
  by (auto simp: and_then_eq_Inr split: option.splits if_splits dest: with_fences)

lemma approval_requested_fences: "r_approval_requested bb e = Inr m \<Longrightarrow> same_fences bb m"
  unfolding r_approval_requested_def PCard_case if_Inl_eq_Inr Let_def
  by (auto simp: and_then_eq_Inr split: option.splits if_splits dest: with_fences)

lemma approval_decided_fences: "r_approval_decided bb e = Inr m \<Longrightarrow> same_fences bb m"
  unfolding r_approval_decided_def PApprovalDecided_case if_Inl_eq_Inr Let_def
  by (auto simp: and_then_eq_Inr split: option.splits if_splits dest: with_fences)

lemma authorized_fences: "r_authorized bb e = Inr m \<Longrightarrow> same_fences bb m"
  by (auto simp: r_authorized_def outcome_simps)

lemma released_cases: "r_released bb e = Inr m \<Longrightarrow> m = bb \<or> (\<exists>c. m = use_cap bb c)"
  by (auto simp: r_released_def and_then_eq_Inr split: option.splits if_splits elim!: release_cap_Inr)

lemma revoked_cases: "r_revoked bb e = Inr m \<Longrightarrow> m = bb \<or> (\<exists>i. m = bb\<lparr>bb_capabilities := ddel i (bb_capabilities bb)\<rparr>)"
  by (auto simp: r_revoked_def and_then_eq_Inr split: if_splits)

lemma released_fences: "r_released bb e = Inr m \<Longrightarrow> same_fences bb m"
  using released_cases [of bb e m] by (auto simp: use_cap_def)

lemma revoked_fences: "r_revoked bb e = Inr m \<Longrightarrow> same_fences bb m"
  using revoked_cases [of bb e m] by auto

lemma reduce_fences:
  assumes "reduce bb e = Inr m" "ev_type e \<noteq> ''authority.fence''"
  shows "same_fences bb m"
proof (cases "ev_type e \<in> set AUTHORITY_TYPES")
  case False
  with assms plain_reduce [of bb e m] show ?thesis by (simp add: plain_step_def same_fences_def)
next
  case True
  from AUTHORITY_TYPES_cases [OF True] assms show ?thesis
    by (elim disjE)
      (simp_all only: reduce_authority not_True_eq_False simp_thms offer_fences epoch_fences status_fences completion_fences
        mandate_proposed_fences mandate_decided_fences approval_requested_fences approval_decided_fences
        authorized_fences verbatim_fences released_fences revoked_fences readback_fences)
qed

section \<open>Accepts in flight\<close>

definition mints_accept :: "event \<Rightarrow> bool" where
  "mints_accept e \<longleftrightarrow> ev_type e = ''action.authorized'' \<and>
     (case ev_payload e of PAuthorized i _ \<Rightarrow> i = AcceptOffer | _ \<Rightarrow> False)"

lemma authorized_flight:
  assumes "r_authorized bb e = Inr m" "accept_in_flight m" "\<not> accept_in_flight bb"
  shows "\<exists>c. ev_payload e = PAuthorized AcceptOffer c"
proof -
  from assms(1) obtain i cap as where p: "ev_payload e = PAuthorized i cap" "cap_intent cap = i"
    and m: "m = bb\<lparr>bb_authorizations := as, bb_capabilities := dput (cap_id cap) cap (bb_capabilities bb)\<rparr>"
    by (auto simp: r_authorized_def outcome_simps)
  from assms(2) obtain x where x: "x \<in> set (dvals (bb_capabilities m))" "is_flying_accept x"
    by (auto simp: accept_in_flight_def list_ex_iff)
  from x(1) m have "x = cap \<or> x \<in> set (dvals (bb_capabilities bb))" using dvals_dput by simp
  with x(2) assms(3) have "x = cap" by (auto simp: accept_in_flight_def list_ex_iff)
  with x(2) p show ?thesis by (auto simp: is_flying_accept_def)
qed

lemma use_cap_flight: "accept_in_flight (use_cap bb c) \<Longrightarrow> accept_in_flight bb"
proof -
  assume "accept_in_flight (use_cap bb c)"
  then obtain x where "x \<in> set (dvals (dput (cap_id c) (c\<lparr>cap_consumed := True\<rparr>) (bb_capabilities bb)))" "is_flying_accept x"
    unfolding accept_in_flight_def list_ex_iff use_cap_def by auto
  moreover from this(1) have "x = c\<lparr>cap_consumed := True\<rparr> \<or> x \<in> set (dvals (bb_capabilities bb))"
    by (rule dvals_dput)
  ultimately have "x \<in> set (dvals (bb_capabilities bb))" "is_flying_accept x" by (auto simp: is_flying_accept_def)
  then show ?thesis unfolding accept_in_flight_def list_ex_iff by blast
qed

lemma ddel_flight:
  "accept_in_flight (bb\<lparr>bb_capabilities := ddel i (bb_capabilities bb)\<rparr>) \<Longrightarrow> accept_in_flight bb"
  unfolding accept_in_flight_def list_ex_iff by (force simp: set_ddel)

lemma reduce_flight:
  assumes wf: "wf_bb bb" and r: "reduce bb e = Inr m" and f: "accept_in_flight m" "\<not> mints_accept e"
  shows "accept_in_flight bb"
proof (cases "ev_type e \<in> set AUTHORITY_TYPES")
  case False
  with r plain_reduce [of bb e m] f show ?thesis by (simp add: plain_step_def accept_in_flight_def)
next
  case True
  have caps: "accept_in_flight bb" if "bb_capabilities m = bb_capabilities bb"
    using that f(1) by (simp add: accept_in_flight_def)
  have same: "accept_in_flight bb" if "same_books bb m"
    using that caps by (simp add: same_books_def)
  have offer: "accept_in_flight bb" if "wf_dict (offers m) \<and> bb_capabilities m = bb_capabilities bb"
    using that caps by simp
  have wfo: "wf_dict (offers bb)" using wf by (simp add: wf_bb_def)
  have auth: "accept_in_flight bb" if "r_authorized bb e = Inr m" "ev_type e = ''action.authorized''"
  proof (rule ccontr)
    assume "\<not> accept_in_flight bb"
    from authorized_flight [OF that(1) f(1) this] obtain c where "ev_payload e = PAuthorized AcceptOffer c" by blast
    with that(2) f(2) show False by (simp add: mints_accept_def)
  qed
  have rel: "accept_in_flight bb" if "r_released bb e = Inr m"
    using released_cases [OF that] f(1) use_cap_flight by auto
  have rev: "accept_in_flight bb" if "r_revoked bb e = Inr m"
    using revoked_cases [OF that]
  proof (elim disjE exE)
    fix i assume "m = bb\<lparr>bb_capabilities := ddel i (bb_capabilities bb)\<rparr>"
    from ddel_flight f(1) [unfolded this] show ?thesis by blast
  qed (use f(1) in simp)
  note kept = same [OF fence_books] same [OF epoch_books] same [OF status_books]
    same [OF completion_books] same [OF mandate_proposed_books] same [OF mandate_decided_books]
    same [OF approval_requested_books] same [OF approval_decided_books]
    offer [OF offer_wf [OF wfo]] offer [OF readback_wf [OF wfo]] offer [OF verbatim_wf [OF wfo]] rel rev
  from AUTHORITY_TYPES_cases [OF True] r show ?thesis
    by (elim disjE) (simp_all only: reduce_authority kept auth)
qed

section \<open>One emission\<close>

lemma emit_fences:
  assumes "emit b c = Inr b'" "ec_type c \<noteq> ''authority.fence''"
  shows "bb_fences (bus_bb b') = bb_fences (bus_bb b)"
proof -
  from assms(1) obtain m where "reduce (bus_bb b) (stamp b c) = Inr m"
    "bus_bb b' = m\<lparr>bb_seq := ev_seq (stamp b c), bb_t_ms := ev_t_ms (stamp b c)\<rparr>"
    by (auto simp: emit_Inr apply_event_Inr)
  with reduce_fences [of "bus_bb b" "stamp b c" m] assms(2) show ?thesis by (simp add: same_fences_def)
qed

definition fence_ids :: "bus \<Rightarrow> string set" where
  "fence_ids b = fence_id ` set (bb_fences (bus_bb b))"

lemma emit_fence:
  assumes "emit b c = Inr b'" "ec_type c = ''authority.fence''" "ec_payload c = PFence op f u"
  shows "op = ''raised'' \<and> fence_ids b' = insert f (fence_ids b) \<or> op = ''cleared'' \<and> fence_ids b' = fence_ids b - {f}"
proof -
  from assms(1) obtain m where m: "reduce (bus_bb b) (stamp b c) = Inr m"
    "bus_bb b' = m\<lparr>bb_seq := ev_seq (stamp b c), bb_t_ms := ev_t_ms (stamp b c)\<rparr>"
    by (auto simp: emit_Inr apply_event_Inr)
  with assms(2,3) have "r_fence (bus_bb b) (stamp b c) = Inr m" by (simp add: reduce_authority(2))
  with assms(3) m(2) show ?thesis
    by (auto simp: r_fence_def fence_ids_def split: if_splits)
qed

lemma emit_flight:
  assumes "session_inv b" "emit b c = Inr b'" "accept_in_flight (bus_bb b')" "\<not> mints_accept (stamp b c)"
  shows "accept_in_flight (bus_bb b)"
proof -
  from assms(2) obtain m where m: "reduce (bus_bb b) (stamp b c) = Inr m"
    "bus_bb b' = m\<lparr>bb_seq := ev_seq (stamp b c), bb_t_ms := ev_t_ms (stamp b c)\<rparr>"
    by (auto simp: emit_Inr apply_event_Inr)
  moreover have "wf_bb (bus_bb b)" using assms(1) by (simp add: session_inv_def case_inv_def)
  ultimately show ?thesis
    using reduce_flight [of "bus_bb b" "stamp b c" m] assms(3,4) by (simp add: accept_in_flight_def)
qed

end
