(* ===== verification/Kernel_Cover.thy ===== *)
theory Kernel_Cover
  imports Kernel_Board
begin

text \<open>
  The invariant of the authority of \<open>kernel/fence.py\<close> while a call is live: every rep line it was
  told of is covered or still on its list, a line's bound and its fence's bound agree, and while an
  accept is in flight every listed line has a raised fence.
\<close>

section \<open>When a rep line is covered\<close>

definition rep_said :: "event \<Rightarrow> bool" where
  "rep_said e \<longleftrightarrow> ev_type e = ''utt.final'' \<and>
     (case ev_payload e of PUttFinal lane who _ _ \<Rightarrow> lane = ''cp'' \<and> who = ''partner'' | _ \<Rightarrow> False)"

definition requested :: "event list \<Rightarrow> string \<Rightarrow> int \<Rightarrow> bool" where
  "requested D g n \<longleftrightarrow>
     (\<exists>r \<in> set D. ev_type r = ''fast.request'' \<and> (\<exists>lane. ev_payload r = PFastRequest lane g n))"

definition cp_turn :: "event list \<Rightarrow> string \<Rightarrow> int \<Rightarrow> bool" where
  "cp_turn D g n \<longleftrightarrow>
     (\<exists>x \<in> set D. ev_type x = ''fast.turn'' \<and> ev_seq x = n \<and> (\<exists>sp. ev_payload x = PFastTurn ''cp'' g sp))"

definition step_done :: "event list \<Rightarrow> int \<Rightarrow> bool" where
  "step_done D n \<longleftrightarrow>
     (\<exists>c \<in> set D. ev_type c = ''slow.step.completed'' \<and> (\<exists>m. ev_payload c = PStepCompleted m \<and> n \<le> m))"

text \<open>
  What a completed step must reach for the line with number \<open>s\<close>: the line itself where Slow reads
  the transcript, and otherwise a turn of FastC whose request saw the line.
\<close>

definition bound_at :: "bool \<Rightarrow> event list \<Rightarrow> int \<Rightarrow> int \<Rightarrow> bool" where
  "bound_at reads D s n \<longleftrightarrow> (if reads then n = s else \<exists>g m. cp_turn D g n \<and> requested D g m \<and> s \<le> m)"

definition covered :: "bool \<Rightarrow> event list \<Rightarrow> int \<Rightarrow> bool" where
  "covered reads D s \<longleftrightarrow> (\<exists>n. bound_at reads D s n \<and> step_done D n)"

lemma requested_snoc: "requested D g n \<Longrightarrow> requested (D @ [e]) g n"
  by (auto simp: requested_def)

lemma bound_at_snoc: "bound_at reads D s n \<Longrightarrow> bound_at reads (D @ [e]) s n"
  by (fastforce simp: bound_at_def cp_turn_def requested_def)

lemma covered_snoc: "covered reads D s \<Longrightarrow> covered reads (D @ [e]) s"
  unfolding covered_def step_done_def using bound_at_snoc [of reads D s _ e] by fastforce

section \<open>The invariant\<close>

definition lines_ok :: "bool \<Rightarrow> event list \<Rightarrow> rep_line list \<Rightarrow> bool" where
  "lines_ok reads D ls \<longleftrightarrow> distinct (map rl_seq ls) \<and>
     (\<forall>l \<in> set ls. rl_seq l \<in> ev_seq ` set D \<and>
        (case rl_at l of None \<Rightarrow> \<not> reads | Some n \<Rightarrow> bound_at reads D (rl_seq l) n))"

definition raised_ok :: "event list \<Rightarrow> rep_line list \<Rightarrow> (string, raised) dict \<Rightarrow> bool" where
  "raised_ok D ls d \<longleftrightarrow>
     (\<forall>f \<in> set (dvals d). rf_lane f = ''cp'' \<longrightarrow> rf_seq f \<in> ev_seq ` set D \<and>
        (\<forall>l \<in> set ls. rl_seq l = rf_seq f \<longrightarrow> rl_at l = rf_at f))"

definition names_ok :: "kernel_authority \<Rightarrow> bool" where
  "names_ok a \<longleftrightarrow> wf_dict (au_raised a) \<and> set (dkeys (au_raised a)) \<subseteq> fence_name ` {1..au_n a}"

definition authority_inv :: "bool \<Rightarrow> event list \<Rightarrow> kernel_authority \<Rightarrow> bool" where
  "authority_inv reads D a \<longleftrightarrow>
     (\<forall>g n. dget (au_basis a) g = Some n \<longrightarrow> requested D g n) \<and>
     (\<forall>e \<in> set D. rep_said e \<longrightarrow> covered reads D (ev_seq e) \<or> ev_seq e \<in> rl_seq ` set (au_lines a)) \<and>
     lines_ok reads D (au_lines a) \<and> raised_ok D (au_lines a) (au_raised a) \<and> names_ok a"

definition fenced :: "kernel_authority \<Rightarrow> bool" where
  "fenced a \<longleftrightarrow> (\<forall>l \<in> set (au_lines a). \<exists>f \<in> set (dvals (au_raised a)). rf_lane f = ''cp'' \<and> rf_seq f = rl_seq l)"

lemma fence_name_inj: "fence_name i = fence_name j \<Longrightarrow> i = j"
  by (auto simp: fence_name_def dest: dec_inj)

lemma names_fresh: "names_ok a \<Longrightarrow> fence_name (au_n a + 1) \<notin> set (dkeys (au_raised a))"
  by (auto simp: names_ok_def dest!: fence_name_inj subsetD)

lemma authority_inv_new: "authority_inv reads [] (new_kernel_authority root)"
  by (simp add: authority_inv_def new_kernel_authority_def lines_ok_def raised_ok_def names_ok_def)

text \<open>An event that is no rep line leaves what the invariant says of the log.\<close>

lemma lines_ok_snoc: "lines_ok reads D ls \<Longrightarrow> lines_ok reads (D @ [e]) ls"
  by (auto simp: lines_ok_def bound_at_snoc split: option.splits)

lemma raised_ok_snoc: "raised_ok D ls d \<Longrightarrow> raised_ok (D @ [e]) ls d"
  by (auto simp: raised_ok_def)

lemma inv_snoc:
  assumes "authority_inv reads D a" "\<not> rep_said e"
  shows "authority_inv reads (D @ [e]) a"
  using assms by (auto simp: authority_inv_def lines_ok_snoc raised_ok_snoc requested_snoc covered_snoc)

text \<open>The fields the invariant reads.\<close>

lemma inv_fields:
  "au_basis b = au_basis a \<Longrightarrow> au_lines b = au_lines a \<Longrightarrow> au_raised b = au_raised a \<Longrightarrow> au_n b = au_n a \<Longrightarrow>
   authority_inv reads D b = authority_inv reads D a"
  by (simp add: authority_inv_def names_ok_def)

section \<open>Raising\<close>

lemma raise_fields:
  assumes "raise_fence v a cs s lane u at = (b, xs)"
  shows "au_lines b = au_lines a" "au_basis b = au_basis a" "au_n b = au_n a + 1"
    "au_raised b = dput (fence_name (au_n a + 1)) \<lparr>rf_lane = lane, rf_utt = u, rf_seq = s, rf_at = at\<rparr> (au_raised a)"
  using assms by (auto simp: raise_fence_def Let_def)

lemma raise_names: "names_ok a \<Longrightarrow> raise_fence v a cs s lane u at = (b, xs) \<Longrightarrow> names_ok b"
proof -
  assume n: "names_ok a" and r: "raise_fence v a cs s lane u at = (b, xs)"
  have "set (dkeys (au_raised b)) = insert (fence_name (au_n a + 1)) (set (dkeys (au_raised a)))"
    unfolding raise_fields(4) [OF r] by (rule dkeys_dput)
  also have "\<dots> \<subseteq> fence_name ` {1..au_n b}"
    using n raise_fields(3) [OF r] unfolding names_ok_def by (fastforce simp: image_iff)
  finally show ?thesis using n unfolding names_ok_def raise_fields(4) [OF r] by blast
qed

lemma raise_raised:
  assumes "names_ok a" "raise_fence v a cs s lane u at = (b, xs)"
  shows "set (dvals (au_raised b)) = insert \<lparr>rf_lane = lane, rf_utt = u, rf_seq = s, rf_at = at\<rparr> (set (dvals (au_raised a)))"
  using names_fresh [OF assms(1)] by (auto simp: raise_fields [OF assms(2)] dput_fresh)

lemma raise_inv:
  assumes "authority_inv reads D a" "raise_fence v a cs s lane u at = (b, xs)"
    "lane = ''cp'' \<Longrightarrow> s \<in> ev_seq ` set D \<and> (\<forall>l \<in> set (au_lines a). rl_seq l = s \<longrightarrow> rl_at l = at)"
  shows "authority_inv reads D b"
proof -
  have n: "names_ok a" using assms(1) by (simp add: authority_inv_def)
  have "raised_ok D (au_lines b) (au_raised b)"
    using assms(1,3) unfolding authority_inv_def raised_ok_def raise_raised [OF n assms(2)] raise_fields(1) [OF assms(2)]
    by auto
  then show ?thesis
    using assms(1) raise_names [OF n assms(2)]
    by (simp add: authority_inv_def raise_fields(1,2) [OF assms(2)])
qed

lemma raise_fenced: "names_ok a \<Longrightarrow> fenced a \<Longrightarrow> raise_fence v a cs s lane u at = (b, xs) \<Longrightarrow> fenced b"
  using raise_raised [of a v cs s lane u at b xs] raise_fields(1) [of v a cs s lane u at b xs]
  by (fastforce simp: fenced_def)

section \<open>Rep lines\<close>

lemma rep_line_inv:
  assumes inv: "authority_inv reads D a" and live: "kv_slow v" "\<not> kv_closed v" "kv_reads v = reads"
    and new: "\<forall>d \<in> set D. ev_seq d < ev_seq e" and r: "on_rep_line v a e utt = (b, xs)"
  shows "authority_inv reads (D @ [e]) b" "accept_in_flight (kv_bb v) \<Longrightarrow> fenced a \<Longrightarrow> fenced b"
proof -
  let ?at = "if reads then Some (ev_seq e) else None"
  let ?l = "\<lparr>rl_event = ev_event_id e, rl_utt = utt, rl_seq = ev_seq e, rl_at = ?at\<rparr>"
  let ?a = "a\<lparr>au_lines := au_lines a @ [?l]\<rparr>"
  have old: "rl_seq l \<in> ev_seq ` set D" if "l \<in> set (au_lines a)" for l
    using inv that by (simp add: authority_inv_def lines_ok_def)
  have fresh: "rl_seq l \<noteq> ev_seq e" if "l \<in> set (au_lines a)" for l
    using old [OF that] new by auto
  have fresh': "ev_seq e \<notin> rl_seq ` set (au_lines a)" by (metis fresh imageE)
  have oldf: "rf_seq f \<noteq> ev_seq e" if "f \<in> set (dvals (au_raised a))" "rf_lane f = ''cp''" for f
    using inv that new by (fastforce simp: authority_inv_def raised_ok_def)
  have "case ?at of None \<Rightarrow> \<not> reads | Some n \<Rightarrow> bound_at reads (D @ [e]) (ev_seq e) n"
    by (simp add: bound_at_def)
  moreover have "lines_ok reads (D @ [e]) (au_lines a)"
    using inv lines_ok_snoc by (simp add: authority_inv_def)
  ultimately have "lines_ok reads (D @ [e]) (au_lines ?a)"
    using fresh' unfolding lines_ok_def by (simp add: bound_at_def [of True])
  moreover have "raised_ok (D @ [e]) (au_lines ?a) (au_raised ?a)"
    using inv oldf by (fastforce simp: authority_inv_def raised_ok_def)
  ultimately have base: "authority_inv reads (D @ [e]) ?a"
    using inv by (auto simp: authority_inv_def requested_snoc covered_snoc names_ok_def)
  have at: "?at = (if kv_reads v then Some (ev_seq e) else None)" using live by simp
  show "authority_inv reads (D @ [e]) b"
  proof (cases "accept_in_flight (kv_bb v)")
    case True
    with r live have "raise_fence v ?a [ev_event_id e] (ev_seq e) ''cp'' utt ?at = (b, xs)"
      by (simp add: on_rep_line_def live_call_def Let_def)
    then show ?thesis by (rule raise_inv [OF base]) (use fresh in auto)
  next
    case False
    with r live base show ?thesis by (auto simp: on_rep_line_def live_call_def Let_def)
  qed
  assume f: "accept_in_flight (kv_bb v)" "fenced a"
  with r live have rf: "raise_fence v ?a [ev_event_id e] (ev_seq e) ''cp'' utt ?at = (b, xs)"
    by (simp add: on_rep_line_def live_call_def Let_def)
  have "names_ok ?a" using base by (simp add: authority_inv_def)
  with raise_raised [OF this rf] raise_fields(1) [OF rf] f(2) show "fenced b"
    by (fastforce simp: fenced_def)
qed

section \<open>The mint\<close>

lemma fence_lines_inv:
  assumes "authority_inv reads D a" "set ls \<subseteq> set (au_lines a)" "fence_lines v auth ls a = (b, xs)"
  shows "authority_inv reads D b \<and> au_lines b = au_lines a \<and> set (dvals (au_raised a)) \<subseteq> set (dvals (au_raised b)) \<and>
    (\<forall>l \<in> set ls. \<exists>f \<in> set (dvals (au_raised b)). rf_lane f = ''cp'' \<and> rf_seq f = rl_seq l)"
  using assms
proof (induction ls arbitrary: a b xs)
  case (Cons l ls)
  obtain a1 x1 where r: "raise_fence v a [rl_event l, auth] (rl_seq l) ''cp'' (rl_utt l) (rl_at l) = (a1, x1)"
    by (cases "raise_fence v a [rl_event l, auth] (rl_seq l) ''cp'' (rl_utt l) (rl_at l)")
  obtain c ys where c: "fence_lines v auth ls a1 = (c, ys)" by (cases "fence_lines v auth ls a1")
  with r Cons.prems(3) have b: "b = c" by simp
  have l: "l \<in> set (au_lines a)" using Cons.prems(2) by simp
  have ok: "lines_ok reads D (au_lines a)" "names_ok a" using Cons.prems(1) by (simp_all add: authority_inv_def)
  have "rl_at k = rl_at l" if "k \<in> set (au_lines a)" "rl_seq k = rl_seq l" for k
    using ok(1) that l by (auto simp: lines_ok_def distinct_map dest: inj_onD)
  moreover have "rl_seq l \<in> ev_seq ` set D" using ok(1) l by (simp add: lines_ok_def)
  ultimately have i1: "authority_inv reads D a1" using raise_inv [OF Cons.prems(1) r] by simp
  let ?f = "\<lparr>rf_lane = ''cp'', rf_utt = rl_utt l, rf_seq = rl_seq l, rf_at = rl_at l\<rparr>"
  have ih: "authority_inv reads D c" "au_lines c = au_lines a" "set (dvals (au_raised a1)) \<subseteq> set (dvals (au_raised c))"
    "\<forall>l \<in> set ls. \<exists>f \<in> set (dvals (au_raised c)). rf_lane f = ''cp'' \<and> rf_seq f = rl_seq l"
    using Cons.IH [OF i1 _ c] Cons.prems(2) raise_fields(1) [OF r] by simp_all
  have up: "?f \<in> set (dvals (au_raised c))" "set (dvals (au_raised a)) \<subseteq> set (dvals (au_raised c))"
    using ih(3) unfolding raise_raised [OF ok(2) r] by blast+
  have "\<exists>f \<in> set (dvals (au_raised c)). rf_lane f = ''cp'' \<and> rf_seq f = rl_seq l"
    by (rule bexI [OF _ up(1)]) simp
  with ih up(2) show ?case by (simp add: b del: set_map)
qed simp

lemma minted_inv:
  assumes inv: "authority_inv reads D a" and live: "kv_slow v" "\<not> kv_closed v" and r: "on_minted v a e = (b, xs)"
  shows "authority_inv reads D b \<and> fenced b"
proof -
  let ?F = "map rf_seq (filter (\<lambda>f. rf_lane f = ''cp'') (dvals (au_raised a)))"
  let ?ls = "filter (\<lambda>l. rl_seq l \<notin> set ?F) (au_lines a)"
  from r live have f: "fence_lines v (ev_event_id e) ?ls a = (b, xs)"
    by (simp add: on_minted_def live_call_def Let_def)
  have ls: "set ?ls \<subseteq> set (au_lines a)" by auto
  note F = fence_lines_inv [OF inv ls f]
  have "\<exists>f \<in> set (dvals (au_raised b)). rf_lane f = ''cp'' \<and> rf_seq f = rl_seq l" if l: "l \<in> set (au_lines a)" for l
  proof (cases "rl_seq l \<in> set ?F")
    case True
    then obtain f where "f \<in> set (dvals (au_raised a))" "rf_lane f = ''cp''" "rf_seq f = rl_seq l" by force
    with F show ?thesis by blast
  next
    case False
    with l have "l \<in> set ?ls" by simp
    with F show ?thesis by blast
  qed
  with F show ?thesis by (simp add: fenced_def del: set_map)
qed

section \<open>Turns and steps\<close>

lemma turn_inv:
  assumes inv: "authority_inv reads D a" and pos: "\<forall>d \<in> set D. 0 \<le> ev_seq d"
    and e: "ev_type e = ''fast.turn''" "ev_payload e = PFastTurn lane g sp" and r: "on_turn v a e lane g = (b, xs)"
  shows "authority_inv reads (D @ [e]) b" "fenced a \<Longrightarrow> fenced b"
proof -
  let ?n = "case dget (au_basis a) g of None \<Rightarrow> -1 | Some n \<Rightarrow> n"
  define line where "line = (\<lambda>l. if lane = ''cp'' then bind_line ?n (ev_seq e) l else l)"
  define fence where "fence = (\<lambda>f :: raised. if binds lane ?n f then f\<lparr>rf_at := Some (ev_seq e)\<rparr> else f)"
  have b: "au_lines b = map line (au_lines a)" "au_raised b = map (\<lambda>(i, f). (i, fence f)) (au_raised a)"
    "au_basis b = ddel g (au_basis a)" "au_n b = au_n a"
    using r by (auto simp: on_turn_def Let_def line_def fence_def)
  have seqs [simp]: "rl_seq (line l) = rl_seq l" "rf_seq (fence f) = rf_seq f" "rf_lane (fence f) = rf_lane f" for l f
    by (simp_all add: bind_line_def line_def fence_def)
  note I = inv [unfolded authority_inv_def]
  have seen: "bound_at reads (D @ [e]) s (ev_seq e)" if "\<not> reads" "s \<le> ?n" "0 \<le> s" "lane = ''cp''" for s
  proof -
    from that(2,3) obtain n where n: "dget (au_basis a) g = Some n" "s \<le> n" by (cases "dget (au_basis a) g") auto
    then have "requested (D @ [e]) g n" using I requested_snoc by blast
    moreover have "cp_turn (D @ [e]) g (ev_seq e)" using e that(4) by (auto simp: cp_turn_def)
    ultimately show ?thesis using that(1) n(2) by (auto simp: bound_at_def)
  qed
  have lseq: "0 \<le> rl_seq l" if "l \<in> set (au_lines a)" for l
    using I that pos by (auto simp: lines_ok_def)
  have at: "case rl_at (line l) of None \<Rightarrow> \<not> reads | Some n \<Rightarrow> bound_at reads (D @ [e]) (rl_seq l) n"
    if "l \<in> set (au_lines a)" for l
    using I that seen [OF _ _ lseq [OF that]]
    by (auto simp: lines_ok_def bind_line_def line_def bound_at_snoc split: option.splits)
  then have at': "case rl_at (line l) of None \<Rightarrow> \<not> reads | Some n \<Rightarrow> bound_at reads (D @ [e]) (rl_seq (line l)) n"
    if "l \<in> set (au_lines a)" for l
    using at [OF that] by (cases "rl_at (line l)") simp_all
  have "map rl_seq (map line (au_lines a)) = map rl_seq (au_lines a)" by (simp add: comp_def)
  then have "distinct (map rl_seq (map line (au_lines a)))" using I by (simp only: lines_ok_def)
  then have L: "lines_ok reads (D @ [e]) (au_lines b)"
    using I at' unfolding lines_ok_def b(1) by auto
  have same: "rl_at (line l) = rf_at (fence f)"
    if "rl_at l = rf_at f" "rl_seq l = rf_seq f" "rf_lane f = ''cp''" for l f
    using that by (auto simp: bind_line_def binds_def line_def fence_def)
  have R: "raised_ok (D @ [e]) (au_lines b) (au_raised b)"
    unfolding raised_ok_def b
  proof (intro ballI impI)
    fix f assume "f \<in> set (dvals (map (\<lambda>(i, f). (i, fence f)) (au_raised a)))" "rf_lane f = ''cp''"
    then obtain f0 where f0: "f0 \<in> set (dvals (au_raised a))" "f = fence f0" "rf_lane f0 = ''cp''" by fastforce
    then have k: "rf_seq f0 \<in> ev_seq ` set D" "\<forall>l \<in> set (au_lines a). rl_seq l = rf_seq f0 \<longrightarrow> rl_at l = rf_at f0"
      using I unfolding raised_ok_def by blast+
    show "rf_seq f \<in> ev_seq ` set (D @ [e]) \<and> (\<forall>l \<in> set (map line (au_lines a)). rl_seq l = rf_seq f \<longrightarrow> rl_at l = rf_at f)"
    proof (intro conjI ballI impI)
      show "rf_seq f \<in> ev_seq ` set (D @ [e])" using k(1) f0(2) by auto
      fix l assume "l \<in> set (map line (au_lines a))" "rl_seq l = rf_seq f"
      then obtain l0 where l0: "l0 \<in> set (au_lines a)" "l = line l0" "rl_seq l0 = rf_seq f0" using f0(2) by auto
      show "rl_at l = rf_at f"
        unfolding l0(2) f0(2) by (rule same) (use k(2) l0 f0(3) in auto)
    qed
  qed
  have "\<not> rep_said e" using e by (simp add: rep_said_def)
  moreover have "rl_seq ` set (au_lines b) = rl_seq ` set (au_lines a)" by (simp add: b image_image)
  moreover have "map fst (au_raised b) = map fst (au_raised a)" by (simp add: b comp_def case_prod_unfold)
  ultimately show "authority_inv reads (D @ [e]) b"
    using I L R b(3,4) by (auto simp: authority_inv_def names_ok_def dict_simps requested_snoc covered_snoc split: if_splits)
  assume f: "fenced a"
  show "fenced b"
    unfolding fenced_def b
  proof (rule ballI)
    fix l assume "l \<in> set (map line (au_lines a))"
    then obtain l0 where l0: "l0 \<in> set (au_lines a)" "rl_seq l = rl_seq l0" by auto
    with f obtain f0 where "f0 \<in> set (dvals (au_raised a))" "rf_lane f0 = ''cp''" "rf_seq f0 = rl_seq l0"
      unfolding fenced_def by blast
    with l0 show "\<exists>f \<in> set (dvals (map (\<lambda>(i, f). (i, fence f)) (au_raised a))). rf_lane f = ''cp'' \<and> rf_seq f = rl_seq l"
      by (intro bexI [of _ "fence f0"]) (auto simp: rev_image_eqI)
  qed
qed

lemma clear_fences_Inr:
  "clear_fences cause fs a = Inr (b, xs) \<Longrightarrow> b = a\<lparr>au_raised := filter (\<lambda>(i, f). i \<notin> set fs) (au_raised a)\<rparr>"
proof (induction fs arbitrary: a xs)
  case Nil
  then show ?case by simp
next
  case (Cons f fs)
  then obtain c ys where c: "clear_fences cause fs (a\<lparr>au_raised := ddel f (au_raised a)\<rparr>) = Inr (b, ys)"
    by (auto simp: clear_fence_def outcome_simps split: option.splits)
  have "filter (\<lambda>(i, x). i \<notin> set fs) (ddel f (au_raised a)) = filter (\<lambda>(i, x). i \<notin> set (f # fs)) (au_raised a)"
    by (auto simp: AList.delete_eq intro: filter_cong)
  with Cons.IH [OF c] show ?case by simp
qed

lemma kept_fences:
  assumes "wf_dict d"
  shows "filter (\<lambda>(i, f). i \<notin> set (dkeys (filter (\<lambda>(i, f). P f) d))) d = filter (\<lambda>(i, f). \<not> P f) d"
proof (rule filter_cong [OF refl])
  fix x assume "x \<in> set d"
  obtain i f where xf: "x = (i, f)" by (cases x)
  with \<open>x \<in> set d\<close> have x: "x = (i, f)" "(i, f) \<in> set d" by simp_all
  have "i \<in> set (dkeys (filter (\<lambda>(i, f). P f) d)) \<longleftrightarrow> P f"
  proof
    assume "i \<in> set (dkeys (filter (\<lambda>(i, f). P f) d))"
    then obtain g where "(i, g) \<in> set d" "P g" by auto
    with x(2) assms show "P f" by (metis eq_key_imp_eq_value)
  qed (use x(2) in force)
  with x(1) show "(case x of (i, f) \<Rightarrow> i \<notin> set (dkeys (filter (\<lambda>(i, f). P f) d))) = (case x of (i, f) \<Rightarrow> \<not> P f)"
    by (simp del: set_map)
qed

lemma replans_fields:
  "replans v a c n = (b, xs) \<Longrightarrow>
     au_lines b = au_lines a \<and> au_raised b = au_raised a \<and> au_basis b = au_basis a \<and> au_n b = au_n a"
  by (auto simp: replans_def Let_def split: if_splits)

lemma completed_inv:
  assumes inv: "authority_inv reads D a"
    and e: "ev_type e = ''slow.step.completed''" "ev_payload e = PStepCompleted n" and r: "on_completed v a e n = Inr (b, xs)"
  shows "authority_inv reads (D @ [e]) b" "fenced a \<Longrightarrow> fenced b"
proof -
  note I = inv [unfolded authority_inv_def]
  let ?ls = "filter (\<lambda>l. \<not> reached n (rl_at l)) (au_lines a)"
  have wf: "wf_dict (au_raised a)" using I by (simp add: names_ok_def)
  from r obtain c ys where "clear_fences (ev_event_id e) (dkeys (filter (\<lambda>(i, f). reached n (rf_at f)) (au_raised a)))
      (a\<lparr>au_lines := ?ls\<rparr>) = Inr (c, ys)" and b': "b = fst (replans v c (ev_event_id e) n)"
    by (auto simp: on_completed_def Let_def outcome_simps case_prod_unfold)
  from clear_fences_Inr [OF this(1)]
  have c: "au_lines c = ?ls" "au_raised c = filter (\<lambda>(i, f). \<not> reached n (rf_at f)) (au_raised a)"
    "au_basis c = au_basis a" "au_n c = au_n a"
    by (simp_all add: kept_fences [OF wf] del: set_map)
  with b' replans_fields [of v c "ev_event_id e" n b "snd (replans v c (ev_event_id e) n)"]
  have b: "au_lines b = ?ls" "au_raised b = filter (\<lambda>(i, f). \<not> reached n (rf_at f)) (au_raised a)"
    "au_basis b = au_basis a" "au_n b = au_n a"
    by simp_all
  have hit: "step_done (D @ [e]) m" if "m \<le> n" for m using e that by (auto simp: step_done_def)
  have gone: "covered reads (D @ [e]) (rl_seq l)" if "l \<in> set (au_lines a)" "l \<notin> set ?ls" for l
  proof -
    from that obtain m where m: "rl_at l = Some m" "m \<le> n" by (cases "rl_at l") (auto simp: reached_def)
    with I that(1) have "bound_at reads D (rl_seq l) m" by (auto simp: lines_ok_def)
    with hit [OF m(2)] bound_at_snoc show ?thesis unfolding covered_def by blast
  qed
  have "covered reads (D @ [e]) (ev_seq d) \<or> ev_seq d \<in> rl_seq ` set ?ls" if "d \<in> set (D @ [e])" "rep_said d" for d
  proof -
    have "d \<in> set D" using that e by (auto simp: rep_said_def)
    with I that(2) have "covered reads D (ev_seq d) \<or> ev_seq d \<in> rl_seq ` set (au_lines a)" by blast
    with gone covered_snoc show ?thesis by fastforce
  qed
  moreover have "lines_ok reads (D @ [e]) ?ls"
    using I lines_ok_snoc [of reads D "au_lines a" e] by (auto simp: lines_ok_def distinct_map_filter)
  moreover have "raised_ok (D @ [e]) ?ls (au_raised b)"
    using I by (fastforce simp: raised_ok_def b)
  moreover have "names_ok b" using I by (auto simp: names_ok_def b distinct_map_filter)
  ultimately show "authority_inv reads (D @ [e]) b"
    using I requested_snoc unfolding authority_inv_def b(1,3) by blast
  assume f: "fenced a"
  show "fenced b"
    unfolding fenced_def b(1)
  proof (rule ballI)
    fix l assume l: "l \<in> set ?ls"
    with f obtain f0 where f0: "f0 \<in> set (dvals (au_raised a))" "rf_lane f0 = ''cp''" "rf_seq f0 = rl_seq l"
      unfolding fenced_def by (metis filter_is_subset subsetD)
    have "l \<in> set (au_lines a)" "\<not> reached n (rl_at l)" using l by simp_all
    moreover from this I f0 have "rl_at l = rf_at f0" unfolding raised_ok_def by (metis (no_types))
    ultimately have "f0 \<in> set (dvals (au_raised b))" using f0(1) by (force simp: b)
    with f0 show "\<exists>f \<in> set (dvals (au_raised b)). rf_lane f = ''cp'' \<and> rf_seq f = rl_seq l"
      by (intro bexI [of _ f0]) simp_all
  qed
qed

end
