(* ===== verification/Kernel_Guarantee.thy ===== *)
theory Kernel_Guarantee
  imports Kernel_Cover
begin

text \<open>
  The authority and the bus together: whatever is emitted and however the deliveries interleave,
  the fences on the board are those the authority holds, deliveries end, and no accept is released
  before every rep line said until then is covered.
\<close>

section \<open>One event keeps the invariant\<close>

lemma same_fields_inv:
  assumes "authority_inv reads D a" "\<not> rep_said e" "au_basis b = au_basis a" "au_lines b = au_lines a"
    "au_raised b = au_raised a" "au_n b = au_n a"
  shows "authority_inv reads (D @ [e]) b" "fenced a \<Longrightarrow> fenced b"
  using inv_snoc [OF assms(1,2)] inv_fields [of b a reads "D @ [e]"] assms(3-) by (simp_all add: fenced_def)

definition keeps :: "bool \<Rightarrow> event list \<Rightarrow> kernel_view \<Rightarrow> kernel_authority \<Rightarrow> event \<Rightarrow> kernel_authority \<Rightarrow> bool" where
  "keeps reads D v a e b \<longleftrightarrow> authority_inv reads (D @ [e]) b \<and>
     (accept_in_flight (kv_bb v) \<longrightarrow> fenced a \<or> mints_accept e \<longrightarrow> fenced b)"

lemma talk_cases:
  assumes ty: "ev_type e \<in> set TALK" and r: "on_talk v a e = Inr (b, xs)"
  obtains (user) "ev_type e = ''user.msg''"
      "(b, xs) = (if kv_slow v then raise_fence v a [ev_event_id e] (ev_seq e) ''user'' (ev_event_id e) None else (a, []))"
    | (said) lane who utt tx where "ev_type e = ''utt.final''" "ev_payload e = PUttFinal lane who utt tx"
      "(b, xs) = (if lane = ''cp'' \<and> who = ''partner'' then on_rep_line v a e utt else (a, []))"
    | (mint) i c where "ev_type e = ''action.authorized''" "ev_payload e = PAuthorized i c"
      "(b, xs) = (if i = AcceptOffer then on_minted v a e else (a, []))"
    | (request) lane g n where "ev_type e = ''fast.request''" "ev_payload e = PFastRequest lane g n"
      "b = a\<lparr>au_basis := dput g n (au_basis a)\<rparr>" "xs = []"
    | (cancel) g where "ev_type e = ''fast.cancelled''" "b = a\<lparr>au_basis := ddel g (au_basis a)\<rparr>" "xs = []"
    | (turn) lane g sp where "ev_type e = ''fast.turn''" "ev_payload e = PFastTurn lane g sp"
      "on_turn v a e lane g = (b, xs)"
proof -
  consider "ev_type e = ''user.msg''" | "ev_type e = ''utt.final''" | "ev_type e = ''action.authorized''"
    | "ev_type e = ''fast.request''" | "ev_type e = ''fast.cancelled''" | "ev_type e = ''fast.turn''"
    using ty by (auto simp: TALK_def)
  then show thesis
  proof cases
    case 1
    with r show thesis by (intro user) (simp_all add: on_talk_def)
  next
    case 2
    with r show thesis by (cases "ev_payload e") (simp_all add: on_talk_def said)
  next
    case 3
    with r show thesis by (cases "ev_payload e") (simp_all add: on_talk_def mint)
  next
    case 4
    with r show thesis by (cases "ev_payload e") (simp_all add: on_talk_def request)
  next
    case 5
    with r show thesis by (cases "ev_payload e") (auto simp: on_talk_def intro: cancel)
  next
    case 6
    with r show thesis by (cases "ev_payload e") (simp_all add: on_talk_def turn)
  qed
qed

lemma talk_keeps:
  assumes inv: "authority_inv reads D a" and live: "kv_slow v" "\<not> kv_closed v" "kv_reads v = reads"
    and new: "\<forall>d \<in> set D. 0 \<le> ev_seq d \<and> ev_seq d < ev_seq e"
    and ty: "ev_type e \<in> set TALK" and r: "on_talk v a e = Inr (b, xs)"
  shows "keeps reads D v a e b"
  using ty r
proof (cases rule: talk_cases)
  case user
  then have q: "\<not> rep_said e" "\<not> mints_accept e" by (simp_all add: rep_said_def mints_accept_def)
  note base = inv_snoc [OF inv q(1)]
  from user live have f: "raise_fence v a [ev_event_id e] (ev_seq e) ''user'' (ev_event_id e) None = (b, xs)" by simp
  from raise_inv [OF base f] have "authority_inv reads (D @ [e]) b" by simp
  moreover have "names_ok a" using inv by (simp add: authority_inv_def)
  ultimately show ?thesis using raise_fenced [OF _ _ f] q by (simp add: keeps_def)
next
  case (said lane who utt tx)
  then have m: "\<not> mints_accept e" by (simp add: mints_accept_def)
  show ?thesis
  proof (cases "lane = ''cp'' \<and> who = ''partner''")
    case True
    with said have l: "on_rep_line v a e utt = (b, xs)" by simp
    show ?thesis using rep_line_inv [OF inv live _ l] new m by (simp add: keeps_def)
  next
    case False
    with said have "b = a" by auto
    moreover have "\<not> rep_said e" using False said by (simp add: rep_said_def)
    ultimately show ?thesis using inv_snoc [OF inv] m by (simp add: keeps_def)
  qed
next
  case (mint i c)
  then have q: "\<not> rep_said e" by (simp add: rep_said_def)
  show ?thesis
  proof (cases "i = AcceptOffer")
    case True
    with mint have "on_minted v a e = (b, xs)" by simp
    from minted_inv [OF inv_snoc [OF inv q] live(1,2) this] show ?thesis by (simp add: keeps_def)
  next
    case False
    with mint have "b = a" "\<not> mints_accept e" by (simp_all add: mints_accept_def)
    then show ?thesis using inv_snoc [OF inv q] by (simp add: keeps_def)
  qed
next
  case (request lane g n)
  then have q: "\<not> rep_said e" "\<not> mints_accept e" by (simp_all add: rep_said_def mints_accept_def)
  have "requested (D @ [e]) g n" using request by (auto simp: requested_def)
  then have "authority_inv reads (D @ [e]) b"
    using inv_snoc [OF inv q(1)] by (simp add: authority_inv_def request dict_simps names_ok_def)
  then show ?thesis using q by (simp add: keeps_def request fenced_def)
next
  case (cancel g)
  then have q: "\<not> rep_said e" "\<not> mints_accept e" by (simp_all add: rep_said_def mints_accept_def)
  have "authority_inv reads (D @ [e]) b"
    using inv_snoc [OF inv q(1)] by (simp add: authority_inv_def cancel dict_simps names_ok_def)
  then show ?thesis using q by (simp add: keeps_def cancel fenced_def)
next
  case (turn lane g sp)
  then have m: "\<not> mints_accept e" by (simp add: mints_accept_def)
  from turn_inv [OF inv _ turn] new m show ?thesis by (simp add: keeps_def)
qed

lemma event_keeps:
  assumes inv: "authority_inv reads D a" and live: "kv_slow v" "\<not> kv_closed v" "kv_reads v = reads"
    and new: "\<forall>d \<in> set D. 0 \<le> ev_seq d \<and> ev_seq d < ev_seq e"
    and open_call: "ev_type e \<noteq> ''chan.closed''" and r: "on_event v a e = Inr (b, xs)"
  shows "keeps reads D v a e b"
proof (cases "ev_type e \<in> set TALK")
  case True
  with r talk_keeps [OF inv live new True] show ?thesis by (simp add: on_event_def)
next
  case False
  then have q: "\<not> rep_said e" "\<not> mints_accept e" by (auto simp: TALK_def rep_said_def mints_accept_def)
  show ?thesis
  proof (cases "ev_type e = ''slow.step.completed''")
    case True
    then have "on_event v a e = (case ev_payload e of PStepCompleted n \<Rightarrow> on_completed v a e n | _ \<Rightarrow> Inl (KeyError ''basis_seq''))"
      by (simp add: on_event_def TALK_def)
    with r obtain n where p: "ev_payload e = PStepCompleted n" "on_completed v a e n = Inr (b, xs)"
      by (cases "ev_payload e") auto
    from completed_inv [OF inv True p] q show ?thesis by (simp add: keeps_def)
  next
    case other: False
    have "au_basis b = au_basis a \<and> au_lines b = au_lines a \<and> au_raised b = au_raised a \<and> au_n b = au_n a"
      using r unfolding on_event_def if_not_P [OF False] if_not_P [OF open_call] if_not_P [OF other]
      by (cases "ev_payload e") (auto simp: on_epoch_def on_asked_def split: if_split_asm)
    with same_fields_inv [OF inv q(1)] q show ?thesis by (simp add: keeps_def)
  qed
qed

section \<open>The effects\<close>

text \<open>What emitted fence events do to the set of raised fences.\<close>

fun fence_fx :: "kernel_effect list \<Rightarrow> string set \<Rightarrow> string set" where
  "fence_fx [] S = S"
| "fence_fx (Emit ty w p cs # xs) S =
     fence_fx xs
       (if ty \<noteq> ''authority.fence'' then S
        else case p of PFence op f u \<Rightarrow> if op = ''raised'' then insert f S else S - {f} | _ \<Rightarrow> S)"
| "fence_fx (x # xs) S = fence_fx xs S"

lemma fence_fx_append [simp]: "fence_fx (xs @ ys) S = fence_fx ys (fence_fx xs S)"
  by (induction xs S rule: fence_fx.induct) auto

definition weight :: "string \<Rightarrow> nat" where
  "weight ty =
     (if ty = ''authority.fence'' \<or> ty = ''status.changed'' then 0
      else if ty = ''authority.epoch'' then 1 else 2)"

definition small :: "nat \<Rightarrow> kernel_effect \<Rightarrow> bool" where
  "small n x \<longleftrightarrow>
     (case x of
        Emit ty w p cs \<Rightarrow> weight ty < n \<and> (ty = ''authority.fence'' \<longrightarrow> (\<exists>op f u. p = PFence op f u))
      | _ \<Rightarrow> True)"

lemma small_simps [simp]:
  "small n (Emit ty w p cs) \<longleftrightarrow> weight ty < n \<and> (ty = ''authority.fence'' \<longrightarrow> (\<exists>op f u. p = PFence op f u))"
  "small n (Wake s)" "small n Moved" "small n (ExpiryTimer c s)" "small n (SimUser s)" "small n (AfterOffer s)"
  by (simp_all add: small_def)

lemma wake_fx [simp]: "fence_fx (wake v s) S = S" "list_all (small n) (wake v s)"
  by (simp_all add: wake_def)

lemma move_fx [simp]: "fence_fx (status_move bb tr c) S = S" "1 \<le> n \<Longrightarrow> list_all (small n) (status_move bb tr c)"
  by (simp_all add: status_move_def weight_def split: option.split prod.split)

definition told :: "kernel_authority \<Rightarrow> reaction \<Rightarrow> bool" where
  "told a r \<longleftrightarrow> list_all (small 2) (snd r) \<and>
     fence_fx (snd r) (set (dkeys (au_raised a))) = set (dkeys (au_raised (fst r)))"

lemma raise_told: "raise_fence v a cs s lane u at = (b, xs) \<Longrightarrow> told a (b, xs)"
proof -
  assume r: "raise_fence v a cs s lane u at = (b, xs)"
  have "set (dkeys (au_raised b)) = insert (fence_name (au_n a + 1)) (set (dkeys (au_raised a)))"
    unfolding raise_fields(4) [OF r] by (rule dkeys_dput)
  moreover have "xs = [Emit ''authority.fence'' ''kernel'' (PFence ''raised'' (fence_name (au_n a + 1)) u) cs, Moved] @
      (if at = None then [] else wake v ''fence'')"
    using r by (auto simp: raise_fence_def Let_def)
  ultimately show ?thesis by (simp add: told_def weight_def del: set_map)
qed

lemma told_trans: "told a (b, xs) \<Longrightarrow> told b (c, ys) \<Longrightarrow> told a (c, xs @ ys)"
  by (simp add: told_def)

lemma fence_lines_told: "fence_lines v auth ls a = (b, xs) \<Longrightarrow> told a (b, xs)"
proof (induction ls arbitrary: a b xs)
  case (Cons l ls)
  obtain a1 x1 where r: "raise_fence v a [rl_event l, auth] (rl_seq l) ''cp'' (rl_utt l) (rl_at l) = (a1, x1)"
    by (cases "raise_fence v a [rl_event l, auth] (rl_seq l) ''cp'' (rl_utt l) (rl_at l)")
  obtain c ys where c: "fence_lines v auth ls a1 = (c, ys)" by (cases "fence_lines v auth ls a1")
  from told_trans [OF raise_told [OF r] Cons.IH [OF c]] r c Cons.prems show ?case by simp
qed (simp add: told_def)

lemma clear_told: "clear_fences cause fs a = Inr (b, xs) \<Longrightarrow> told a (b, xs)"
proof (induction fs arbitrary: a xs)
  case (Cons f fs)
  then obtain c x1 ys where c: "clear_fence a f cause = Inr (c, x1)" "clear_fences cause fs c = Inr (b, ys)" "xs = x1 @ ys"
    by (auto simp: outcome_simps)
  have "set (dkeys (ddel f (au_raised a))) = set (dkeys (au_raised a)) - {f}"
    by (auto simp: set_ddel)
  moreover obtain u where "c = a\<lparr>au_raised := ddel f (au_raised a)\<rparr>"
    "x1 = [Emit ''authority.fence'' ''kernel'' (PFence ''cleared'' f u) [cause], Moved]"
    using c(1) by (auto simp: clear_fence_def split: option.splits)
  ultimately have "told a (c, x1)" by (simp add: told_def weight_def del: set_map)
  with Cons.IH [OF c(2)] c(3) told_trans show ?case by blast
qed (simp add: told_def)

lemma same_told: "au_raised b = au_raised a \<Longrightarrow> list_all (small 2) xs \<Longrightarrow> (\<And>S. fence_fx xs S = S) \<Longrightarrow> told a (b, xs)"
  by (simp add: told_def)

lemma wakes_fx: "fence_fx (concat (map (\<lambda>_. wake v s) xs)) S = S" "list_all (small n) (concat (map (\<lambda>_. wake v s) xs))"
  by (induction xs arbitrary: S) simp_all

lemma turn_told: "on_turn v a e lane g = (b, xs) \<Longrightarrow> told a (b, xs)"
  by (auto simp: on_turn_def Let_def told_def wakes_fx comp_def case_prod_unfold simp del: set_map)

lemma none_told: "au_raised b = au_raised a \<Longrightarrow> told a (b, [])"
  by (simp add: told_def)

lemma rep_line_told: "on_rep_line v a e utt = (b, xs) \<Longrightarrow> told a (b, xs)"
proof -
  assume r: "on_rep_line v a e utt = (b, xs)"
  have "told a (raise_fence v (a\<lparr>au_lines := ls\<rparr>) cs s lane u at)" for ls cs s lane u at
    using raise_told [of v "a\<lparr>au_lines := ls\<rparr>" cs s lane u at]
    by (cases "raise_fence v (a\<lparr>au_lines := ls\<rparr>) cs s lane u at") (simp add: told_def)
  then show ?thesis
    unfolding r [symmetric] on_rep_line_def Let_def by (simp add: none_told)
qed

lemma minted_told: "on_minted v a e = (b, xs) \<Longrightarrow> told a (b, xs)"
  by (cases "live_call v") (simp_all add: on_minted_def Let_def fence_lines_told none_told)

lemma talk_told:
  assumes "ev_type e \<in> set TALK" "on_talk v a e = Inr (b, xs)"
  shows "told a (b, xs)"
  using assms
proof (cases rule: talk_cases)
  case user
  then show ?thesis using raise_told none_told by (metis prod.inject)
next
  case (said lane who utt tx)
  show ?thesis
  proof (cases "lane = ''cp'' \<and> who = ''partner''")
    case True
    with said have "on_rep_line v a e utt = (b, xs)" by simp
    then show ?thesis by (rule rep_line_told)
  qed (use said none_told in auto)
next
  case (mint i c)
  then show ?thesis using minted_told [of v a e b xs] none_told by (cases "i = AcceptOffer") simp_all
qed (simp_all add: none_told turn_told)

lemma event_told:
  assumes "on_event v a e = Inr (b, xs)"
  shows "told a (b, xs)"
proof (cases "ev_type e \<in> set TALK")
  case True
  with assms talk_told [OF True] show ?thesis by (simp add: on_event_def)
next
  case False
  have closed: "told a (b, xs)" if "on_closed a e = Inr (b, xs)"
  proof -
    from that obtain ys where "clear_fences (ev_event_id e)
        (dkeys (filter (\<lambda>(i, f). rf_lane f = ''cp'' \<and> rf_at f = None) (au_raised a))) a = Inr (b, ys)" "xs = ys @ [Moved]"
      by (auto simp: on_closed_def outcome_simps)
    with clear_told [OF this(1)] show ?thesis by (simp add: told_def)
  qed
  have step: "told a (b, xs)" if "on_completed v a e n = Inr (b, xs)" for n
  proof -
    let ?b = "a\<lparr>au_lines := filter (\<lambda>l. \<not> reached n (rl_at l)) (au_lines a)\<rparr>"
    from that obtain c ys where c: "clear_fences (ev_event_id e) (dkeys (filter (\<lambda>(i, f). reached n (rf_at f)) (au_raised a))) ?b = Inr (c, ys)"
      and b: "(b, xs) = (fst (replans v c (ev_event_id e) n), ys @ snd (replans v c (ev_event_id e) n))"
      by (auto simp: on_completed_def Let_def outcome_simps case_prod_unfold)
    have "told c (replans v c (ev_event_id e) n)"
      by (auto simp: replans_def Let_def told_def)
    moreover have "told a (c, ys)" using clear_told [OF c] by (simp add: told_def)
    ultimately show ?thesis using b told_trans [of a c ys] by (cases "replans v c (ev_event_id e) n") auto
  qed
  have epoch: "told a (on_epoch v a e)"
    by (auto simp: on_epoch_def told_def split: option.split)
  have told_asked: "told a (b, xs)" if "on_asked a e = Inr (b, xs)"
    using that by (cases "ev_payload e") (auto simp: on_asked_def told_def simp del: set_map split: if_splits)
  note cond = on_event_def [of v a e, unfolded if_not_P [OF False]]
  consider "ev_type e = ''chan.closed''" | "ev_type e = ''authority.epoch''" | "ev_type e = ''slow.step.completed''"
    | "ev_type e = ''f2s.msg''" | "ev_type e \<in> {''approval.requested'', ''mandate.proposed''}"
    | "ev_type e = ''rep.policy''" | "ev_type e = ''status.changed''"
    | "ev_type e \<in> {''approval.decided'', ''mandate.decided'', ''speak.revoked''}"
    | (rest) "ev_type e \<notin> {''chan.closed'', ''authority.epoch'', ''slow.step.completed'', ''f2s.msg'',
        ''approval.requested'', ''mandate.proposed'', ''rep.policy'', ''status.changed'', ''approval.decided'',
        ''mandate.decided'', ''speak.revoked''}"
    by blast
  then show ?thesis
  proof cases
    case 1
    with assms closed show ?thesis by (simp add: cond)
  next
    case 2
    with assms epoch show ?thesis by (simp add: cond)
  next
    case 3
    with assms step show ?thesis by (cases "ev_payload e") (simp_all add: cond)
  next
    case 4
    with assms show ?thesis
      by (cases "ev_payload e") (auto simp: cond told_def bump_call_def weight_def simp del: set_map split: if_splits)
  next
    case 5
    then have "on_event v a e = on_asked a e" unfolding cond by (elim insertE) simp_all
    with assms told_asked show ?thesis by simp
  next
    case 6
    with assms show ?thesis
      by (cases "ev_payload e") (auto simp: cond told_def simp del: set_map split: if_splits)
  next
    case 7
    with assms show ?thesis
      by (cases "ev_payload e") (auto simp: cond told_def simp del: set_map split: if_split_asm)
  next
    case 8
    then have "on_event v a e = Inr (a, wake v (ev_type e))" unfolding cond by (elim insertE) simp_all
    with assms show ?thesis by (auto simp: told_def simp del: set_map)
  next
    case rest
    then have "on_event v a e = Inr (a, [])" unfolding cond by simp
    with assms none_told show ?thesis by simp
  qed
qed

section \<open>The kernel's invariant\<close>

definition kernel_inv :: "bool \<Rightarrow> kernel \<Rightarrow> bool" where
  "kernel_inv reads k \<longleftrightarrow>
     session_inv (fst k) \<and> (\<forall>e \<in> set (log_of (fst k)). ev_type e \<noteq> ''chan.closed'') \<and>
     fence_ids (fst k) = set (dkeys (au_raised (snd k))) \<and>
     (\<exists>D. log_of (fst k) = D @ bus_undelivered (fst k) \<and> authority_inv reads D (snd k)) \<and>
     (accept_in_flight (bus_bb (fst k)) \<longrightarrow> fenced (snd k) \<or> list_ex mints_accept (bus_undelivered (fst k)))"

text \<open>
  A live call: no lane closes, and the authority is the one that writes fences. Anything else may
  be emitted at any time, also between an event and its delivery.
\<close>

definition live_view :: "bool \<Rightarrow> blackboard \<Rightarrow> kernel_view" where
  "live_view reads bb = \<lparr>kv_slow = True, kv_closed = False, kv_reads = reads, kv_bb = bb\<rparr>"

definition live_step :: "bool \<Rightarrow> kernel \<Rightarrow> kernel_input \<Rightarrow> kernel outcome" where
  "live_step reads k i =
     (case i of
        Emits c \<Rightarrow>
          if ec_type c \<in> {''authority.fence'', ''chan.closed''} then Inl (ValueError (ec_type c))
          else kernel_step (live_view reads) k i
      | Delivers t \<Rightarrow> kernel_step (live_view reads) k i)"

lemma emit_parts:
  assumes "emit b c = Inr b'"
  shows "log_of b' = log_of b @ [stamp b c]" "bus_undelivered b' = bus_undelivered b @ [stamp b c]"
  using emit_log [OF assms] assms by (auto simp: emit_Inr)

lemma run_emit_parts:
  "run emit b cs = Inr b' \<Longrightarrow>
     \<exists>es. log_of b' = log_of b @ es \<and> bus_undelivered b' = bus_undelivered b @ es \<and> map ev_type es = map ec_type cs"
proof (induction cs arbitrary: b)
  case (Cons c cs)
  then obtain m where m: "emit b c = Inr m" "run emit m cs = Inr b'" by (auto simp: run_Cons_Inr simp del: run.simps)
  from Cons.IH [OF m(2)] emit_parts [OF m(1)] show ?case by fastforce
qed simp

lemma effect_call_types: "c \<in> set (effect_calls t xs) \<Longrightarrow> list_all (small n) xs \<Longrightarrow> weight (ec_type c) < n"
  by (induction t xs rule: effect_calls.induct) auto

lemma weight_two: "weight ty < 2 \<longleftrightarrow> ty \<in> {''authority.fence'', ''status.changed'', ''authority.epoch''}"
  by (auto simp: weight_def)

lemma run_fence_ids:
  "run emit b (effect_calls t xs) = Inr b' \<Longrightarrow> list_all (small 2) xs \<Longrightarrow> fence_ids b' = fence_fx xs (fence_ids b)"
proof (induction t xs arbitrary: b rule: effect_calls.induct)
  case (2 t ty w p cs xs)
  let ?c = "\<lparr>ec_t_ms = t, ec_wall = 0, ec_type = ty, ec_actor = w, ec_stream = AgentStream, ec_payload = p, ec_cause_ids = cs\<rparr>"
  from 2 obtain m where m: "emit b ?c = Inr m" "run emit m (effect_calls t xs) = Inr b'"
    by (auto simp: run_Cons_Inr simp del: run.simps)
  have ih: "fence_ids b' = fence_fx xs (fence_ids m)" using 2 m(2) by simp
  show ?case
  proof (cases "ty = ''authority.fence''")
    case True
    with 2 obtain op f u where p: "p = PFence op f u" by auto
    have "op = ''raised'' \<and> fence_ids m = insert f (fence_ids b) \<or> op = ''cleared'' \<and> fence_ids m = fence_ids b - {f}"
      using emit_fence [OF m(1), of op f u] True p by simp
    then show ?thesis using ih True p by (elim disjE) simp_all
  next
    case False
    then have "fence_ids m = fence_ids b" using emit_fences [OF m(1)] by (simp add: fence_ids_def)
    with ih False show ?thesis by simp
  qed
qed simp_all

lemma run_flight:
  assumes "session_inv b" "run emit b cs = Inr b'" "\<forall>c \<in> set cs. ec_type c \<noteq> ''action.authorized''"
    "accept_in_flight (bus_bb b')"
  shows "accept_in_flight (bus_bb b)"
  using assms
proof (induction cs arbitrary: b)
  case (Cons c cs)
  then obtain m where m: "emit b c = Inr m" "run emit m cs = Inr b'" by (auto simp: run_Cons_Inr simp del: run.simps)
  have "session_inv m" using Cons.prems(1) m(1) by (rule emit_session_inv)
  with Cons m(2) have "accept_in_flight (bus_bb m)" by simp
  moreover have "\<not> mints_accept (stamp b c)" using Cons.prems(3) by (simp add: mints_accept_def)
  ultimately show ?case using emit_flight [OF Cons.prems(1) m(1)] by blast
qed simp

lemma queue_irrelevant: "session_inv (b\<lparr>bus_undelivered := q\<rparr>) = session_inv b" "fence_ids (b\<lparr>bus_undelivered := q\<rparr>) = fence_ids b"
  by (simp_all add: session_inv_def bus_inv_def fence_ids_def)

lemma log_seqs:
  assumes "bus_inv b" "log_of b = D @ e # q"
  shows "\<forall>d \<in> set D. 0 \<le> ev_seq d \<and> ev_seq d < ev_seq e"
proof -
  have line: "ev_seq (log_of b ! i) = int i" if "i < length (log_of b)" for i
    using assms(1) that by (simp add: bus_inv_def line_ok_def)
  have e: "ev_seq e = int (length D)" using line [of "length D"] by (simp add: assms(2))
  have "ev_seq (D ! i) = int i" if "i < length D" for i
    using line [of i] that by (simp add: assms(2) nth_append)
  with e show ?thesis by (auto simp: in_set_conv_nth)
qed

lemma emits_inv:
  assumes inv: "kernel_inv reads (b, a)" and c: "ec_type c \<notin> {''authority.fence'', ''chan.closed''}" and r: "emit b c = Inr b'"
  shows "kernel_inv reads (b', a)"
proof -
  have s: "session_inv b" using inv by (simp add: kernel_inv_def)
  have "fence_ids b' = fence_ids b" using emit_fences [OF r] c by (simp add: fence_ids_def)
  moreover have "accept_in_flight (bus_bb b') \<Longrightarrow> mints_accept (stamp b c) \<or> accept_in_flight (bus_bb b)"
    using emit_flight [OF s r] by blast
  ultimately show ?thesis
    using inv c emit_session_inv [OF s r] emit_parts [OF r] by (auto simp: kernel_inv_def)
qed

lemma delivers_inv:
  assumes inv: "kernel_inv reads (b, a)" and r: "deliver_one (live_view reads) t (b, a) = Inr k"
  shows "kernel_inv reads k"
proof (cases "bus_undelivered b")
  case Nil
  with r inv show ?thesis by (simp add: deliver_one_def)
next
  case (Cons e q)
  let ?b = "b\<lparr>bus_undelivered := q\<rparr>" and ?v = "live_view reads (bus_bb b)"
  from r Cons obtain a' xs c where ev: "on_event ?v a e = Inr (a', xs)" and run: "run emit ?b (effect_calls t xs) = Inr c"
    and k: "k = (c, a')"
    by (auto simp: deliver_one_def outcome_simps)
  have s: "session_inv ?b" using inv by (simp add: kernel_inv_def queue_irrelevant)
  obtain D where D: "log_of b = D @ e # q" "authority_inv reads D a" using inv Cons by (auto simp: kernel_inv_def)
  have v: "kv_slow ?v" "\<not> kv_closed ?v" "kv_reads ?v = reads" "kv_bb ?v = bus_bb b" by (simp_all add: live_view_def)
  have "ev_type e \<noteq> ''chan.closed''" using inv D(1) by (simp add: kernel_inv_def)
  then have K: "keeps reads D ?v a e a'"
    using event_keeps [OF D(2) v(1-3) log_seqs [OF _ D(1)] _ ev] inv by (simp add: kernel_inv_def session_inv_def)
  have told: "list_all (small 2) xs" "fence_fx xs (set (dkeys (au_raised a))) = set (dkeys (au_raised a'))"
    using event_told [OF ev] by (simp_all add: told_def)
  have types: "ec_type x \<in> {''authority.fence'', ''status.changed'', ''authority.epoch''}" if "x \<in> set (effect_calls t xs)" for x
    using effect_call_types [OF that told(1)] by (simp add: weight_two)
  obtain es where es: "log_of c = log_of b @ es" "bus_undelivered c = q @ es" "map ev_type es = map ec_type (effect_calls t xs)"
    using run_emit_parts [OF run] by auto
  then have est: "ev_type x \<in> {''authority.fence'', ''status.changed'', ''authority.epoch''}" if "x \<in> set es" for x
  proof -
    from that have "ev_type x \<in> set (map ec_type (effect_calls t xs))" unfolding es(3) [symmetric] by simp
    then obtain y where "y \<in> set (effect_calls t xs)" "ev_type x = ec_type y" by auto
    with types show ?thesis by metis
  qed
  have "fence_ids c = set (dkeys (au_raised a'))"
    using run_fence_ids [OF run told(1)] told(2) inv by (simp add: queue_irrelevant kernel_inv_def del: set_map)
  moreover have "session_inv c" using case_bus.run_inv [OF s run] .
  moreover have "\<forall>x \<in> set (log_of c). ev_type x \<noteq> ''chan.closed''"
    using inv est es(1) by (fastforce simp: kernel_inv_def)
  moreover have "log_of c = (D @ [e]) @ bus_undelivered c" "authority_inv reads (D @ [e]) a'"
    using D(1) es K by (simp_all add: keeps_def)
  moreover have "fenced a' \<or> list_ex mints_accept (bus_undelivered c)" if "accept_in_flight (bus_bb c)"
  proof -
    have "accept_in_flight (bus_bb ?b)"
      by (rule run_flight [OF s run _ that]) (use types in fastforce)
    then have f: "accept_in_flight (bus_bb b)" by simp
    with inv Cons have "fenced a \<or> mints_accept e \<or> list_ex mints_accept q" by (simp add: kernel_inv_def)
    with K f v(4) es(2) show ?thesis by (auto simp: keeps_def)
  qed
  ultimately show ?thesis unfolding k kernel_inv_def by auto
qed

lemma live_step_inv: "kernel_inv reads k \<Longrightarrow> live_step reads k i = Inr k' \<Longrightarrow> kernel_inv reads k'"
proof (cases k)
  fix b a assume k: "k = (b, a)" and inv: "kernel_inv reads k" and r: "live_step reads k i = Inr k'"
  show ?thesis
  proof (cases i)
    case (Emits c)
    with r k show ?thesis using emits_inv [of reads b a c] inv
      by (auto simp: live_step_def kernel_step_def outcome_simps split: if_split_asm)
  next
    case (Delivers t)
    with r k inv show ?thesis using delivers_inv [of reads b a t k'] by (simp add: live_step_def kernel_step_def)
  qed
qed

interpretation live: guarded_machine "live_step reads" "kernel_inv reads" for reads
  by unfold_locales (rule live_step_inv)

lemma kernel_inv_new: "kernel_inv reads (new_bus r, new_kernel_authority root)"
proof -
  have "fence_ids (new_bus r) = {}" by (simp add: fence_ids_def new_bus_def initial_blackboard_def)
  then show ?thesis
    using session_inv_new [of r] authority_inv_new [of reads root]
    by (simp add: kernel_inv_def) (simp add: new_bus_def new_kernel_authority_def fenced_def)
qed

text \<open>
  C18. No accept is released before the rep was heard out: in every live call, whatever is emitted
  and however deliveries interleave, when an accept's capability is released with no delivery
  pending, every rep line in the log is covered: Slow completed a step that saw the line itself, or,
  where it does not read the transcript, a turn of FastC whose request saw the line.
\<close>

theorem no_accept_before_covered:
  assumes "run (live_step reads) (new_bus r, new_kernel_authority root) ins = Inr (b, a)" "bus_undelivered b = []"
    "emit b c = Inr b'" "ec_type c = ''speak.released''" "ec_payload c = PReleased lane (Some cid)"
    "dget (bb_capabilities (bus_bb b)) cid = Some cap" "cap_intent cap = AcceptOffer"
    "e \<in> set (log_of b)" "rep_said e"
  shows "covered reads (log_of b) (ev_seq e)"
proof -
  have inv: "kernel_inv reads (b, a)" using live.run_inv [OF kernel_inv_new assms(1)] .
  from assms(3) obtain m where "reduce (bus_bb b) (stamp b c) = Inr m" by (auto simp: emit_Inr apply_event_Inr)
  with assms(4) have "r_released (bus_bb b) (stamp b c) = Inr m" by (simp add: reduce_authority)
  then have free: "\<not> cap_consumed cap" "bb_fences (bus_bb b) = []"
    using assms(5,6) by (auto simp: r_released_def outcome_simps live_cap_Inr str_of_def split: option.splits elim!: release_cap_Inr)
  from free(1) assms(6,7) have "accept_in_flight (bus_bb b)"
    unfolding accept_in_flight_def list_ex_iff is_flying_accept_def by (blast dest: dget_dvals)
  with inv assms(2) have "fenced a" by (simp add: kernel_inv_def)
  moreover have "au_raised a = []" using inv free(2) by (simp add: kernel_inv_def fence_ids_def)
  ultimately have "au_lines a = []" by (auto simp: fenced_def)
  moreover have "authority_inv reads (log_of b) a" using inv assms(2) by (simp add: kernel_inv_def)
  ultimately show ?thesis using assms(8,9) by (simp add: authority_inv_def)
qed

text \<open>A line of the rep, an offer read back, an accept minted, and the step that covers the line.\<close>

definition sample_spoken :: "emit_call list" where
  "sample_spoken =
     [sample_call 10 ''utt.final'' ''kernel'' (PUttFinal ''cp'' ''partner'' ''u1'' ''the fee is 20'') [],
      sample_call 20 ''offer.recorded'' ''guard''
        (POffer \<lparr>op_offer_ref = ''o1'', op_revision = 1, op_slots = [sample_slot], op_expires_ms = None\<rparr>)
        [''r:0''],
      sample_call 30 ''readback.updated'' ''guard''
        (PReadback \<lparr>rp_offer_ref = ''o1'', rp_revision = 1,
           rp_slot_statuses = [(''monthly_price'', SlotConfirmed)], rp_terms_hash = Some ''h''\<rparr>)
        [''r:1''],
      sample_call 70 ''action.authorized'' ''guard'' (PAuthorized AcceptOffer sample_cap) [''r:2''],
      sample_call 75 ''slow.step.completed'' ''kernel'' (PStepCompleted 3) [''r:3'']]"

definition sample_deliveries :: "kernel_input list" where
  "sample_deliveries = concat (map (\<lambda>c. [Emits c, Delivers (ec_t_ms c), Delivers (ec_t_ms c)]) sample_spoken)"

definition sample_kernel :: kernel where
  "sample_kernel = projr (run (live_step True) (new_bus ''r'', new_kernel_authority ''r:0'') sample_deliveries)"

definition sample_let_go :: emit_call where
  "sample_let_go = sample_call 80 ''speak.released'' ''kernel'' (PReleased ''cp'' (Some ''cap-1'')) [''r:3'']"

definition sample_ready :: "kernel \<Rightarrow> bool" where
  "sample_ready k \<longleftrightarrow>
     bus_undelivered (fst k) = [] \<and> succeeds (emit (fst k) sample_let_go) \<and>
     dget (bb_capabilities (bus_bb (fst k))) ''cap-1'' = Some sample_cap \<and>
     list_ex (\<lambda>e. rep_said e \<and> ev_seq e = 0) (log_of (fst k))"

lemma sample_kernel_checked:
  "case run (live_step True) (new_bus ''r'', new_kernel_authority ''r:0'') sample_deliveries of
     Inl _ \<Rightarrow> False | Inr k \<Rightarrow> sample_ready k"
  by code_simp

lemma sample_kernel_runs:
  "run (live_step True) (new_bus ''r'', new_kernel_authority ''r:0'') sample_deliveries =
     Inr (fst sample_kernel, snd sample_kernel)"
  "sample_ready sample_kernel"
  using sample_kernel_checked
  by (cases "run (live_step True) (new_bus ''r'', new_kernel_authority ''r:0'') sample_deliveries";
      simp add: sample_kernel_def)+

theorem no_accept_before_covered_witness: "covered True (log_of (fst sample_kernel)) 0"
proof -
  obtain b' where r: "emit (fst sample_kernel) sample_let_go = Inr b'"
    using sample_kernel_runs(2) by (auto simp: sample_ready_def succeeds_iff)
  obtain e where e: "e \<in> set (log_of (fst sample_kernel))" "rep_said e" "ev_seq e = 0"
    using sample_kernel_runs(2) by (auto simp: sample_ready_def list_ex_iff)
  have c: "ec_type sample_let_go = ''speak.released''" "ec_payload sample_let_go = PReleased ''cp'' (Some ''cap-1'')"
    by (simp_all add: sample_let_go_def sample_call_def)
  have k: "bus_undelivered (fst sample_kernel) = []"
    "dget (bb_capabilities (bus_bb (fst sample_kernel))) ''cap-1'' = Some sample_cap" "cap_intent sample_cap = AcceptOffer"
    using sample_kernel_runs(2) by (simp_all add: sample_ready_def sample_cap_def)
  from no_accept_before_covered [OF sample_kernel_runs(1) k(1) r c k(2,3) e(1,2)]
  show ?thesis unfolding e(3) .
qed

section \<open>Deliveries end\<close>

text \<open>
  \<open>_deliver\<close>: events are delivered until none waits. What a handler emits weighs less than the
  event that caused it, so the multiset of weights goes down.
\<close>

lemma epoch_small: "list_all (small 1) (snd (on_epoch v a e))"
  by (simp add: on_epoch_def split: option.split)

lemma event_small:
  assumes "on_event v a e = Inr (b, xs)"
  shows "list_all (small (weight (ev_type e))) xs"
proof -
  consider "ev_type e = ''authority.fence''" | "ev_type e = ''status.changed''" | "ev_type e = ''authority.epoch''"
    | (other) "ev_type e \<notin> {''authority.fence'', ''status.changed'', ''authority.epoch''}"
    by blast
  then show ?thesis
  proof cases
    case 1
    with assms show ?thesis by (simp add: on_event_def TALK_def)
  next
    case 2
    with assms show ?thesis
      by (cases "ev_payload e") (auto simp: on_event_def TALK_def split: if_split_asm)
  next
    case 3
    with assms epoch_small [of v a e] show ?thesis by (simp add: on_event_def TALK_def weight_def)
  next
    case other
    then have "weight (ev_type e) = 2" by (simp add: weight_def)
    with event_told [OF assms] show ?thesis by (simp add: told_def)
  qed
qed

definition load :: "kernel \<Rightarrow> nat multiset" where
  "load k = mset (map (\<lambda>e. weight (ev_type e)) (bus_undelivered (fst k)))"

lemma deliver_lightens:
  assumes "deliver_one vw t k = Inr k'" "bus_undelivered (fst k) \<noteq> []"
  shows "(load k', load k) \<in> mult less_than"
proof -
  obtain e q where q: "bus_undelivered (fst k) = e # q" using assms(2) by (cases "bus_undelivered (fst k)") auto
  with assms(1) obtain a xs c where ev: "on_event (vw (bus_bb (fst k))) (snd k) e = Inr (a, xs)"
    and run: "run emit ((fst k)\<lparr>bus_undelivered := q\<rparr>) (effect_calls t xs) = Inr c" and k': "k' = (c, a)"
    by (auto simp: deliver_one_def outcome_simps)
  obtain es where es: "bus_undelivered c = q @ es" "map ev_type es = map ec_type (effect_calls t xs)"
    using run_emit_parts [OF run] by auto
  have "weight ty < weight (ev_type e)" if "ty \<in> set (map ev_type es)" for ty
    using that effect_call_types [OF _ event_small [OF ev]] unfolding es(2) by auto
  then have "(mset (map (\<lambda>e. weight (ev_type e)) q) + mset (map (\<lambda>e. weight (ev_type e)) es),
      mset (map (\<lambda>e. weight (ev_type e)) q) + {#weight (ev_type e)#}) \<in> mult less_than"
    by (intro one_step_implies_mult) auto
  then show ?thesis by (simp add: load_def q k' es(1))
qed

(* core/bus.py 91-102 Bus._deliver *)
function deliver_all :: "(blackboard \<Rightarrow> kernel_view) \<Rightarrow> int \<Rightarrow> kernel \<Rightarrow> kernel outcome" where
  "deliver_all vw t k =
     (if bus_undelivered (fst k) = [] then Inr k
      else case deliver_one vw t k of Inl x \<Rightarrow> Inl x | Inr k' \<Rightarrow> deliver_all vw t k')"
  by pat_completeness auto

termination
  by (relation "inv_image (mult less_than) (\<lambda>(vw, t, k). load k)") (auto simp: wf_mult deliver_lightens)

declare deliver_all.simps [simp del]

text \<open>
  C19. Deliveries end: from every state of the bus and the authority, finitely many deliveries either
  leave no event undelivered or raise, and that is what the delivery loop returns.
\<close>

theorem deliveries_end:
  "\<exists>n. run (kernel_step vw) k (replicate n (Delivers t)) = deliver_all vw t k \<and>
     (case deliver_all vw t k of Inl _ \<Rightarrow> True | Inr k' \<Rightarrow> bus_undelivered (fst k') = [])"
proof (induction vw t k rule: deliver_all.induct)
  case (1 vw t k)
  show ?case
  proof (cases "bus_undelivered (fst k) = []")
    case True
    then show ?thesis by (intro exI [of _ 0]) (simp add: deliver_all.simps)
  next
    case False
    show ?thesis
    proof (cases "deliver_one vw t k")
      case (Inl x)
      with False show ?thesis by (intro exI [of _ 1]) (simp add: deliver_all.simps [of vw t k] kernel_step_def)
    next
      case (Inr m)
      with 1 [OF False Inr] obtain n where "run (kernel_step vw) m (replicate n (Delivers t)) = deliver_all vw t m"
          "case deliver_all vw t m of Inl _ \<Rightarrow> True | Inr k' \<Rightarrow> bus_undelivered (fst k') = []"
        by blast
      moreover have "kernel_step vw k (Delivers t) = Inr m" using Inr by (simp add: kernel_step_def)
      ultimately show ?thesis
        using False Inr by (intro exI [of _ "Suc n"]) (simp add: deliver_all.simps [of vw t k])
    qed
  qed
qed

end
