(* ===== verification/Wake.thy ===== *)
theory Wake
  imports Events Machines
begin

text \<open>
  \<open>kernel/wake.py\<close>: when Slow wakes. A handler takes the record \<open>wakes\<close> and an event and returns
  it with what it does: wake Slow for a reason, or set the one timer. A timer carries its number,
  and fires only while no step started and no other timer was set since. The invariant is the
  doc's backstop: a rep line that waits for FastC makes Slow's timer due within the heartbeat.
\<close>

section \<open>State\<close>

(* kernel/wake.py 49-49 HEARTBEAT_S *)
definition HEARTBEAT_MS :: int where
  "HEARTBEAT_MS = 15000"

(* kernel/wake.py 50-55 REASONS *)
definition WAKE_REASONS :: "string list" where
  "WAKE_REASONS =
     [''relay'', ''call_opened'', ''rep_turn'', ''strike'', ''call_closed'', ''timer'', ''heartbeat'', ''evidence'',
      ''fence'', ''replan'', ''approval.decided'', ''mandate.decided'', ''speak.revoked'', ''approval_denied'']"

datatype wake_effect = WakeSlow string | Timer int int string

(* kernel/wake.py 58-67 Wakes.__init__ *)
record wakes =
  wk_call :: bool
  wk_armed :: int
  wk_wait_ms :: "int option"
  wk_finished :: bool
  wk_lines :: "int list"
  wk_gens :: "string set"
  wk_held :: "int option"
  wk_due :: "int option"
  wk_stepping :: bool

definition new_wakes :: wakes where
  "new_wakes =
     \<lparr>wk_call = False, wk_armed = 0, wk_wait_ms = None, wk_finished = False, wk_lines = [], wk_gens = {},
      wk_held = None, wk_due = None, wk_stepping = False\<rparr>"

text \<open>Whether the kernel has a Slow, and a FastC.\<close>

record wake_view =
  wv_slow :: bool
  wv_fastc :: bool

definition wake_slow :: "wake_view \<Rightarrow> string \<Rightarrow> wake_effect list" where
  "wake_slow v reason = (if wv_slow v then [WakeSlow reason] else [])"

section \<open>Steps\<close>

(* kernel/wake.py 132-145 Wakes._arm *)
definition arm_timer :: "wake_view \<Rightarrow> wakes \<Rightarrow> int \<Rightarrow> string \<Rightarrow> wakes \<times> wake_effect list" where
  "arm_timer v w due why =
     (if \<not> wv_slow v then (w, [])
      else (w\<lparr>wk_armed := wk_armed w + 1, wk_due := Some due\<rparr>, [Timer (wk_armed w + 1) due why]))"

(* kernel/wake.py 138-143 Wakes._arm *)
definition timer_fires :: "wake_view \<Rightarrow> wakes \<Rightarrow> int \<Rightarrow> string \<Rightarrow> wakes \<times> wake_effect list" where
  "timer_fires v w n why = (if n = wk_armed w then (w\<lparr>wk_due := None\<rparr>, wake_slow v why) else (w, []))"

(* kernel/wake.py 115-119 Wakes._hold *)
definition hold_line :: "wake_view \<Rightarrow> wakes \<Rightarrow> int \<Rightarrow> wakes \<times> wake_effect list" where
  "hold_line v w t =
     (let w1 = w\<lparr>wk_held := Some (case wk_held w of None \<Rightarrow> t | Some h \<Rightarrow> h)\<rparr>; due = t + HEARTBEAT_MS in
      if wk_call w1 \<and> \<not> wk_stepping w1 \<and> (case wk_due w1 of None \<Rightarrow> True | Some d \<Rightarrow> d > due)
        then arm_timer v w1 due ''heartbeat'' else (w1, []))"

(* kernel/wake.py 121-130 Wakes._completed *)
definition step_completed :: "wake_view \<Rightarrow> wakes \<Rightarrow> int \<Rightarrow> wakes \<times> wake_effect list" where
  "step_completed v w t =
     (let beat = wk_call w \<and> (case wk_wait_ms w of None \<Rightarrow> True | Some a \<Rightarrow> a > HEARTBEAT_MS);
          after = (if beat then Some HEARTBEAT_MS else wk_wait_ms w);
          why = (if beat then ''heartbeat'' else ''timer'');
          due = map_option (\<lambda>a. t + a) after;
          backstop = (case wk_held w of None \<Rightarrow> None | Some h \<Rightarrow> if wk_call w then Some (max t (h + HEARTBEAT_MS)) else None);
          due_why = (case backstop of
              None \<Rightarrow> (due, why)
            | Some held \<Rightarrow> if due = None \<or> held < the due then (Some held, ''heartbeat'') else (due, why))
      in case fst due_why of None \<Rightarrow> (w, []) | Some d \<Rightarrow> arm_timer v w d (snd due_why))"

(* kernel/wake.py 81-86 Wakes.on_event *)
definition wake_line :: "wake_view \<Rightarrow> wakes \<Rightarrow> event \<Rightarrow> wakes \<times> wake_effect list" where
  "wake_line v w e =
     (if wv_fastc v then hold_line v (w\<lparr>wk_lines := wk_lines w @ [ev_seq e]\<rparr>) (ev_t_ms e)
      else (w, wake_slow v ''rep_turn''))"

(* kernel/wake.py 87-91 Wakes.on_event *)
definition wake_request :: "wakes \<Rightarrow> string \<Rightarrow> int \<Rightarrow> wakes" where
  "wake_request w g basis =
     (case wk_lines w of
        [] \<Rightarrow> w
      | s # _ \<Rightarrow>
          if s \<le> basis
          then w\<lparr>wk_gens := insert g (wk_gens w), wk_lines := filter (\<lambda>s. basis < s) (wk_lines w)\<rparr> else w)"

(* kernel/wake.py 92-94 Wakes.on_event *)
definition wake_turn :: "wake_view \<Rightarrow> wakes \<Rightarrow> string \<Rightarrow> wakes \<times> wake_effect list" where
  "wake_turn v w g =
     (if g \<in> wk_gens w then (w\<lparr>wk_gens := wk_gens w - {g}\<rparr>, wake_slow v ''rep_turn'') else (w, []))"

(* kernel/wake.py 76-80 Wakes.on_event *)
definition wake_closed :: "wake_view \<Rightarrow> wakes \<Rightarrow> wakes \<times> wake_effect list" where
  "wake_closed v w =
     (w\<lparr>wk_call := False, wk_lines := [], wk_gens := {}, wk_held := None\<rparr>,
      (if wk_lines w \<noteq> [] \<or> wk_gens w \<noteq> {} then wake_slow v ''rep_turn'' else []) @ wake_slow v ''call_closed'')"

(* kernel/wake.py 102-105 Wakes.on_event *)
definition wake_tool :: "wakes \<Rightarrow> tool_payload \<Rightarrow> wakes" where
  "wake_tool w p =
     (if \<not> tp_ok p \<or> tp_name p \<notin> {''wait'', ''finish''} then w
      else w\<lparr>wk_wait_ms := (if tp_name p = ''wait'' then Some (1000 * tp_seconds p) else wk_wait_ms w),
             wk_finished := (wk_finished w \<or> tp_name p = ''finish'')\<rparr>)"

(* kernel/wake.py 95-101 Wakes.on_event *)
definition wake_started :: "wakes \<Rightarrow> wakes" where
  "wake_started w =
     w\<lparr>wk_armed := wk_armed w + 1, wk_due := None, wk_held := None, wk_wait_ms := None,
       wk_finished := False, wk_stepping := True\<rparr>"

(* kernel/wake.py 106-109 Wakes.on_event *)
definition wake_completed :: "wake_view \<Rightarrow> wakes \<Rightarrow> int \<Rightarrow> wakes \<times> wake_effect list" where
  "wake_completed v w t =
     (let w1 = w\<lparr>wk_stepping := False\<rparr> in if wk_finished w1 then (w1, []) else step_completed v w1 t)"

text \<open>The events of the call, read by lane; the others are read by type alone.\<close>

definition wake_talk :: "wake_view \<Rightarrow> wakes \<Rightarrow> event \<Rightarrow> wakes \<times> wake_effect list" where
  "wake_talk v w e =
     (case ev_payload e of
        PChan lane \<Rightarrow>
          if lane \<noteq> ''cp'' then (w, [])
          else if ev_type e = ''chan.opened'' then (w\<lparr>wk_call := True\<rparr>, wake_slow v ''call_opened'')
          else if ev_type e = ''chan.closed'' then wake_closed v w
          else (w, [])
      | PUttFinal _ who _ _ \<Rightarrow>
          if ev_type e = ''utt.final'' \<and> who = ''partner'' \<and> wk_call w then wake_line v w e else (w, [])
      | PFastRequest lane g basis \<Rightarrow>
          if ev_type e = ''fast.request'' \<and> lane = ''cp'' then (wake_request w g basis, []) else (w, [])
      | PFastTurn _ g _ \<Rightarrow> if ev_type e = ''fast.turn'' then wake_turn v w g else (w, [])
      | PFastCancelled g _ \<Rightarrow> if ev_type e = ''fast.cancelled'' then wake_turn v w g else (w, [])
      | PSlowTool p \<Rightarrow> if ev_type e = ''slow.tool'' then (wake_tool w p, []) else (w, [])
      | _ \<Rightarrow> (w, []))"

(* kernel/wake.py 69-109 Wakes.on_event *)
definition wake_event :: "wake_view \<Rightarrow> wakes \<Rightarrow> event \<Rightarrow> wakes \<times> wake_effect list" where
  "wake_event v w e =
     (if ev_type e = ''f2s.msg'' then (w, wake_slow v ''relay'')
      else if ev_type e = ''chan.strike'' then (w, if wk_call w then wake_slow v ''strike'' else [])
      else if ev_type e = ''evidence.recorded'' then (w, wake_slow v ''evidence'')
      else if ev_type e = ''slow.step.started'' then (wake_started w, [])
      else if ev_type e = ''slow.step.completed'' then wake_completed v w (ev_t_ms e)
      else wake_talk v w e)"

section \<open>The backstop\<close>

text \<open>
  A run of the wakes: events, and timers going off. Beside the state it keeps the time of the last
  completed step, the wakes since the last step started, and whether the line that waits already waited when a step
  that finished the case ended: for that line alone the code sets no timer.
\<close>

datatype wake_input = Heard event | Fires int string

record wake_run =
  wr_wakes :: wakes
  wr_completed :: int
  wr_pending :: "string list"
  wr_left :: bool

definition left_waiting :: "bool \<Rightarrow> event \<Rightarrow> wakes \<Rightarrow> bool" where
  "left_waiting l e w \<longleftrightarrow> wk_held w \<noteq> None \<and> (if ev_type e = ''slow.step.completed'' then wk_finished w else l)"

definition wake_reasons :: "wake_effect list \<Rightarrow> string list" where
  "wake_reasons xs = concat (map (\<lambda>x. case x of WakeSlow r \<Rightarrow> [r] | _ \<Rightarrow> []) xs)"

definition wake_step :: "wake_view \<Rightarrow> wake_run \<Rightarrow> wake_input \<Rightarrow> wake_run" where
  "wake_step v r i =
     (case i of
        Heard e \<Rightarrow>
          let (w, xs) = wake_event v (wr_wakes r) e in
          \<lparr>wr_wakes = w,
           wr_completed = (if ev_type e = ''slow.step.completed'' then ev_t_ms e else wr_completed r),
           wr_pending = (if ev_type e = ''slow.step.started'' then [] else wr_pending r @ wake_reasons xs),
           wr_left = left_waiting (wr_left r) e w\<rparr>
      | Fires n why \<Rightarrow>
          let (w, xs) = timer_fires v (wr_wakes r) n why in
          r\<lparr>wr_wakes := w, wr_pending := wr_pending r @ wake_reasons xs\<rparr>)"

definition wake_run_from :: "wake_view \<Rightarrow> wake_input list \<Rightarrow> wake_run" where
  "wake_run_from v ins = foldl (wake_step v) \<lparr>wr_wakes = new_wakes, wr_completed = 0, wr_pending = [], wr_left = False\<rparr> ins"

definition due_by :: "int option \<Rightarrow> int \<Rightarrow> bool" where
  "due_by d t \<longleftrightarrow> (case d of None \<Rightarrow> False | Some u \<Rightarrow> u \<le> t)"

definition backed_up :: "wake_run \<Rightarrow> bool" where
  "backed_up r \<longleftrightarrow>
     (\<not> wk_call (wr_wakes r) \<longrightarrow> wk_held (wr_wakes r) = None) \<and>
     (\<forall>h. wk_held (wr_wakes r) = Some h \<and> \<not> wk_stepping (wr_wakes r) \<and> \<not> wr_left r \<longrightarrow>
        wr_pending r \<noteq> [] \<or> due_by (wk_due (wr_wakes r)) (max (h + HEARTBEAT_MS) (wr_completed r)))"

lemma due_by_mono: "due_by d t \<Longrightarrow> t \<le> u \<Longrightarrow> due_by d u"
  by (auto simp: due_by_def split: option.splits)

lemma arm_timer_simps:
  assumes "wv_slow v"
  shows "fst (arm_timer v w d why) = w\<lparr>wk_armed := wk_armed w + 1, wk_due := Some d\<rparr>"
  using assms by (simp add: arm_timer_def)

lemma hold_line_fields:
  "wk_call (fst (hold_line v w t)) = wk_call w" "wk_stepping (fst (hold_line v w t)) = wk_stepping w"
  "wk_finished (fst (hold_line v w t)) = wk_finished w"
  "wk_held (fst (hold_line v w t)) = Some (case wk_held w of None \<Rightarrow> t | Some h \<Rightarrow> h)"
  by (auto simp: hold_line_def Let_def arm_timer_def)

lemma hold_line_due:
  assumes "wv_slow v" "wk_call w" "\<not> wk_stepping w"
  shows "due_by (wk_due (fst (hold_line v w t))) (t + HEARTBEAT_MS)"
    "due_by (wk_due w) u \<Longrightarrow> due_by (wk_due (fst (hold_line v w t))) u"
  using assms by (auto simp: hold_line_def Let_def arm_timer_def due_by_def split: option.splits)

lemma step_completed_fields:
  "wk_call (fst (step_completed v w t)) = wk_call w" "wk_held (fst (step_completed v w t)) = wk_held w"
  "wk_stepping (fst (step_completed v w t)) = wk_stepping w" "wk_finished (fst (step_completed v w t)) = wk_finished w"
  by (simp_all add: step_completed_def Let_def arm_timer_def split: option.split)

lemma step_completed_due:
  assumes "wv_slow v" "wk_call w" "wk_held w = Some h"
  shows "due_by (wk_due (fst (step_completed v w t))) (max (h + HEARTBEAT_MS) t)"
  using assms
  by (auto simp: step_completed_def Let_def arm_timer_def due_by_def split: option.split)

text \<open>A change that leaves the call, the held line, the step and the timer alone keeps the backstop.\<close>

definition same_backstop :: "wakes \<Rightarrow> wakes \<Rightarrow> bool" where
  "same_backstop w w' \<longleftrightarrow> wk_held w' = wk_held w \<and> wk_stepping w' = wk_stepping w \<and> wk_due w' = wk_due w \<and>
     (wk_call w \<longrightarrow> wk_call w')"

lemma same_backed:
  assumes "backed_up r" "same_backstop (wr_wakes r) w" "wr_pending r \<noteq> [] \<longrightarrow> p \<noteq> []"
  shows "backed_up \<lparr>wr_wakes = w, wr_completed = wr_completed r, wr_pending = p, wr_left = wr_left r\<rparr>"
  using assms by (auto simp: backed_up_def same_backstop_def)

lemma line_backed:
  assumes "wv_slow v" "backed_up r" "wk_call (wr_wakes r)" "wr_pending r \<noteq> [] \<longrightarrow> p \<noteq> []"
  shows "backed_up \<lparr>wr_wakes = fst (wake_line v (wr_wakes r) e), wr_completed = wr_completed r, wr_pending = p, wr_left = wr_left r\<rparr>"
proof (cases "wv_fastc v")
  case False
  with assms(2,4) show ?thesis by (auto simp: wake_line_def backed_up_def)
next
  case True
  let ?w = "(wr_wakes r)\<lparr>wk_lines := wk_lines (wr_wakes r) @ [ev_seq e]\<rparr>"
  let ?x = "fst (hold_line v ?w (ev_t_ms e))"
  have w: "fst (wake_line v (wr_wakes r) e) = ?x" using True by (simp add: wake_line_def)
  have "p \<noteq> [] \<or> due_by (wk_due ?x) (max (h + HEARTBEAT_MS) (wr_completed r))"
    if "wk_held ?x = Some h" "\<not> wk_stepping ?x" "\<not> wr_left r" for h
  proof (cases "wk_held (wr_wakes r)")
    case None
    with that(1) have "h = ev_t_ms e" by (simp add: hold_line_fields)
    moreover have "due_by (wk_due ?x) (ev_t_ms e + HEARTBEAT_MS)"
      using hold_line_due(1) [OF assms(1), of ?w] assms(3) that(2) by (simp add: hold_line_fields)
    ultimately show ?thesis by (auto intro: due_by_mono)
  next
    case (Some g)
    with that(1) have "h = g" by (simp add: hold_line_fields)
    with Some that assms(2,4) have "p \<noteq> [] \<or> due_by (wk_due (wr_wakes r)) (max (h + HEARTBEAT_MS) (wr_completed r))"
      by (auto simp: backed_up_def hold_line_fields)
    then show ?thesis
      using hold_line_due(2) [OF assms(1), of ?w] assms(3) that(2) by (auto simp: hold_line_fields)
  qed
  then show ?thesis using assms(3) by (simp add: w backed_up_def hold_line_fields)
qed

lemma completed_backed:
  assumes "wv_slow v" "backed_up r"
  shows "backed_up \<lparr>wr_wakes = fst (wake_completed v (wr_wakes r) t), wr_completed = t, wr_pending = p,
    wr_left = (wk_held (fst (wake_completed v (wr_wakes r) t)) \<noteq> None \<and> wk_finished (fst (wake_completed v (wr_wakes r) t)))\<rparr>"
proof -
  let ?w = "(wr_wakes r)\<lparr>wk_stepping := False\<rparr>"
  let ?x = "fst (wake_completed v (wr_wakes r) t)"
  have same: "wk_call ?x = wk_call (wr_wakes r)" "wk_held ?x = wk_held (wr_wakes r)"
    "wk_finished ?x = wk_finished (wr_wakes r)"
    by (simp_all add: wake_completed_def Let_def step_completed_fields)
  have "due_by (wk_due ?x) (max (h + HEARTBEAT_MS) t)"
    if "wk_held ?x = Some h" "\<not> wk_finished ?x" for h
  proof -
    from that assms(2) have "wk_call (wr_wakes r)" by (auto simp: same backed_up_def)
    with step_completed_due [OF assms(1), of ?w h t] that show ?thesis
      by (simp add: wake_completed_def Let_def step_completed_fields split: if_split_asm)
  qed
  then show ?thesis using assms(2) by (auto simp: backed_up_def same)
qed

text \<open>A line that no longer waits is no longer left waiting.\<close>

lemma backed_left: "backed_up r \<Longrightarrow> backed_up (r\<lparr>wr_left := wk_held (wr_wakes r) \<noteq> None \<and> wr_left r\<rparr>)"
  by (auto simp: backed_up_def)

lemma talk_backed:
  assumes "wv_slow v" "backed_up r" "wr_pending r \<noteq> [] \<longrightarrow> p \<noteq> []"
  shows "backed_up \<lparr>wr_wakes = fst (wake_talk v (wr_wakes r) e), wr_completed = wr_completed r, wr_pending = p, wr_left = wr_left r\<rparr>"
proof -
  let ?w = "wr_wakes r"
  have id: "backed_up \<lparr>wr_wakes = ?w, wr_completed = wr_completed r, wr_pending = p, wr_left = wr_left r\<rparr>"
    using same_backed [OF assms(2) _ assms(3)] by (simp add: same_backstop_def)
  have closed: "backed_up \<lparr>wr_wakes = fst (wake_closed v ?w), wr_completed = wr_completed r, wr_pending = p, wr_left = wr_left r\<rparr>"
    by (simp add: backed_up_def wake_closed_def)
  have other: "backed_up \<lparr>wr_wakes = w, wr_completed = wr_completed r, wr_pending = p, wr_left = wr_left r\<rparr>" if "same_backstop ?w w" for w
    using same_backed [OF assms(2) that assms(3)] .
  have req: "same_backstop ?w (wake_request ?w g n)" for g n
    by (simp add: wake_request_def same_backstop_def split: list.split)
  have turn: "same_backstop ?w (fst (wake_turn v ?w g))" for g
    by (simp add: wake_turn_def same_backstop_def)
  have tool: "same_backstop ?w (wake_tool ?w q)" for q
    by (simp add: wake_tool_def same_backstop_def)
  have opened: "same_backstop ?w (?w\<lparr>wk_call := True\<rparr>)"
    by (simp add: same_backstop_def)
  show ?thesis
    unfolding wake_talk_def
    by (cases "ev_payload e")
      (simp_all add: id closed other req turn tool opened line_backed [OF assms(1,2) _ assms(3)])
qed

lemma step_backed:
  assumes "wv_slow v" "backed_up r"
  shows "backed_up (wake_step v r i)"
proof (cases i)
  case (Fires n why)
  show ?thesis
  proof (cases "n = wk_armed (wr_wakes r)")
    case True
    with Fires assms show ?thesis
      by (auto simp: wake_step_def timer_fires_def wake_slow_def wake_reasons_def backed_up_def)
  next
    case False
    with Fires assms(2) show ?thesis
      by (simp add: wake_step_def timer_fires_def wake_reasons_def)
  qed
next
  case (Heard e)
  let ?x = "wake_event v (wr_wakes r) e"
  let ?p = "if ev_type e = ''slow.step.started'' then [] else wr_pending r @ wake_reasons (snd ?x)"
  have r: "wake_step v r i = \<lparr>wr_wakes = fst ?x,
      wr_completed = (if ev_type e = ''slow.step.completed'' then ev_t_ms e else wr_completed r), wr_pending = ?p,
      wr_left = left_waiting (wr_left r) e (fst ?x)\<rparr>"
    by (simp add: wake_step_def Heard case_prod_unfold Let_def)
  consider "ev_type e = ''slow.step.started''" | "ev_type e = ''slow.step.completed''"
    | (quiet) "ev_type e \<in> {''f2s.msg'', ''chan.strike'', ''evidence.recorded''}"
    | (talk) "ev_type e \<notin> {''f2s.msg'', ''chan.strike'', ''evidence.recorded'', ''slow.step.started'', ''slow.step.completed''}"
    by blast
  then show ?thesis
  proof cases
    case 1
    then show ?thesis using assms(2) by (simp add: r wake_event_def wake_started_def backed_up_def left_waiting_def)
  next
    case 2
    then show ?thesis using completed_backed [OF assms] by (simp add: r wake_event_def left_waiting_def)
  next
    case quiet
    then have "fst ?x = wr_wakes r" "ev_type e \<noteq> ''slow.step.completed''" "wr_pending r \<noteq> [] \<longrightarrow> ?p \<noteq> []"
      by (auto simp: wake_event_def)
    then show ?thesis using backed_left [OF same_backed [OF assms(2), of "wr_wakes r" ?p]]
      by (simp add: r same_backstop_def left_waiting_def)
  next
    case talk
    then have "?x = wake_talk v (wr_wakes r) e" by (simp add: wake_event_def)
    with talk backed_left [OF talk_backed [OF assms, of ?p e]] show ?thesis by (simp add: r left_waiting_def)
  qed
qed


definition sample_heard :: "int \<Rightarrow> string \<Rightarrow> payload \<Rightarrow> wake_input" where
  "sample_heard t ty p = Heard
     \<lparr>ev_run_id = ''r'', ev_seq = t, ev_event_id = ''r:0'', ev_t_ms = 1000 * t, ev_wall = 0, ev_wall_offset = None,
      ev_type = ty, ev_actor = ''kernel'', ev_stream = AgentStream, ev_cause_ids = [], ev_epoch = 0, ev_payload = p\<rparr>"

definition sample_wakes :: wake_run where
  "sample_wakes = wake_run_from \<lparr>wv_slow = True, wv_fastc = True\<rparr>
     [sample_heard 1 ''chan.opened'' (PChan ''cp''), sample_heard 2 ''slow.step.started'' (PStepStarted 1),
      sample_heard 3 ''slow.tool'' (PSlowTool \<lparr>tp_name = ''finish'', tp_keys = [], tp_seconds = 0, tp_ok = True\<rparr>),
      sample_heard 4 ''slow.step.completed'' (PStepCompleted 1),
      sample_heard 5 ''utt.final'' (PUttFinal ''cp'' ''partner'' ''u1'' ''hello'')]"


end
