(* ===== verification/Grammar.thy ===== *)
theory Grammar
  imports Contract
begin

text \<open>
  \<open>contract/protocol.py\<close>, the Fast grammar: the items of a turn, the streaming parser and the
  canonical text. A regular expression of the source is the function that does the same on a line
  (a text without a line feed); case is folded as in ASCII.
\<close>

section \<open>Items\<close>

(* contract/protocol.py 250-250 RelayType *)
datatype relay_type = RelayNote | RelayFact | RelayCorrection | RelayRequest | RelayRevoke

(* contract/protocol.py 273-278 IssueReason *)
datatype issue_reason =
    WrongLane | UnknownDirective | BadHoldReason | DuplicatePause | MalformedFact | MalformedRelay
  | EmptyTurn | DuplicateEndCall | StrayDirective | InlineDirective | ScaffoldEcho | SpeechAfterPause

(* contract/protocol.py 245-291 TurnItem *)
datatype turn_item =
    Speech string
  | Relay relay_type string "(string \<times> string) list"
  | HoldTurn hold_reason
  | WaitTurn
  | EndCall
  | ParseIssue issue_reason string

section \<open>Regular expressions\<close>

definition lower_char :: "char \<Rightarrow> char" where
  "lower_char c = (if is_upper c then char_of (of_char c + 32 :: nat) else c)"

text \<open>A literal at the start of a text, whatever its case (\<open>p\<close> is in lower case).\<close>

definition ci_at :: "string \<Rightarrow> string \<Rightarrow> bool" where
  "ci_at p s \<longleftrightarrow> map lower_char (take (length p) s) = p"

definition word_char :: "char \<Rightarrow> bool" where
  "word_char c \<longleftrightarrow> is_alnum c \<or> c = CHR ''_''"

definition lstrip :: "string \<Rightarrow> string" where
  "lstrip s = dropWhile is_space s"

definition rstrip :: "string \<Rightarrow> string" where
  "rstrip s = rev (dropWhile is_space (rev s))"

definition closing_mark :: "char \<Rightarrow> bool" where
  "closing_mark c \<longleftrightarrow> c \<in> {CHR ''.'', CHR ''!'', CHR ''?''}"

text \<open>\<open>_SLOW.match\<close> and \<open>_SLOW.split\<close>.\<close>

(* contract/protocol.py 296-296 _SLOW *)
definition slow_at :: "string \<Rightarrow> bool" where
  "slow_at s \<longleftrightarrow> ci_at ''@slow:'' s"

definition cons_hd :: "'a \<Rightarrow> 'a list list \<Rightarrow> 'a list list" where
  "cons_hd c ws = (case ws of [] \<Rightarrow> [[c]] | w # ws' \<Rightarrow> (c # w) # ws')"

lemma drop_spaces_le: "length (lstrip s) \<le> length s"
  by (simp add: lstrip_def length_dropWhile_le)

function slow_split :: "string \<Rightarrow> string list" where
  "slow_split [] = [[]]"
| "slow_split (c # cs) =
     (if slow_at (c # cs) then [] # slow_split (lstrip (drop 5 cs)) else cons_hd c (slow_split cs))"
  by pat_completeness auto
termination
  by (relation "measure length") (auto intro: le_less_trans [OF drop_spaces_le])

text \<open>\<open>_LEAD\<close>: what follows a leading \<open>FIRST:\<close> or \<open>THEN:\<close>.\<close>

definition lead_colon :: "string \<Rightarrow> string option" where
  "lead_colon s = (case lstrip s of [] \<Rightarrow> None | c # t \<Rightarrow> if c = CHR '':'' then Some (lstrip t) else None)"

(* contract/protocol.py 297-297 _LEAD *)
definition lead_rest :: "string \<Rightarrow> string option" where
  "lead_rest s =
     (if ci_at ''first'' s then lead_colon (drop 5 s)
      else if ci_at ''then'' s then lead_colon (drop 4 s)
      else None)"

text \<open>\<open>_TRAIL_END\<close>: what precedes a trailing \<open>@end_call\<close>.\<close>

definition cut_last :: "string \<Rightarrow> string \<Rightarrow> string option" where
  "cut_last p s = (let n = length s - length p in if ci_at p (drop n s) then Some (take n s) else None)"

(* contract/protocol.py 298-298 _TRAIL_END *)
definition trail_end :: "string \<Rightarrow> string option" where
  "trail_end s = cut_last ''@end_call'' (rstrip s)"

text \<open>\<open>_TRAIL_SCAFFOLD\<close>: what precedes a trailing \<open>FIRST:\<close> or \<open>THEN:\<close> that starts at a word boundary.\<close>

definition at_boundary :: "string \<Rightarrow> bool" where
  "at_boundary s \<longleftrightarrow> s = [] \<or> \<not> word_char (last s)"

definition cut_word :: "string \<Rightarrow> string \<Rightarrow> string option" where
  "cut_word p s = (case cut_last p s of None \<Rightarrow> None | Some t \<Rightarrow> if at_boundary t then Some t else None)"

(* contract/protocol.py 299-299 _TRAIL_SCAFFOLD *)
definition trail_scaffold :: "string \<Rightarrow> string option" where
  "trail_scaffold s =
     (case cut_last '':'' (rstrip s) of
        None \<Rightarrow> None
      | Some t \<Rightarrow> (case cut_word ''then'' (rstrip t) of None \<Rightarrow> cut_word ''first'' (rstrip t) | Some u \<Rightarrow> Some u))"

text \<open>\<open>_INLINE.search\<close>.\<close>

definition starts_word :: "string \<Rightarrow> string \<Rightarrow> bool" where
  "starts_word p s \<longleftrightarrow> starts_with p s \<and> (let t = drop (length p) s in t = [] \<or> \<not> word_char (hd t))"

(* contract/protocol.py 300-300 _INLINE *)
fun has_inline :: "string \<Rightarrow> bool" where
  "has_inline [] = False"
| "has_inline (c # cs) =
     (starts_word ''@hold'' (c # cs) \<or> starts_word ''@wait'' (c # cs) \<or> ci_at ''@end_call'' (c # cs) \<or> has_inline cs)"

text \<open>\<open>_BREAK.split\<close>; the flag says whether the character before is a closing mark.\<close>

(* contract/protocol.py 301-301 _BREAK *)
function breaks :: "bool \<Rightarrow> string \<Rightarrow> string list" where
  "breaks b [] = [[]]"
| "breaks b (c # cs) =
     (if b \<and> is_space c then [] # breaks False (lstrip cs) else cons_hd c (breaks (closing_mark c) cs))"
  by pat_completeness auto
termination
  by (relation "measure (\<lambda>(b, s). length s)") (auto intro: le_less_trans [OF drop_spaces_le])

section \<open>Sentences\<close>

(* contract/protocol.py 306-311 _clean *)
definition clean :: "string \<Rightarrow> string \<times> bool" where
  "clean spoken =
     (let s = strip spoken;
          t = strip (case lead_rest s of None \<Rightarrow> s | Some r \<Rightarrow> r);
          cut = strip (case trail_end t of None \<Rightarrow> t | Some r \<Rightarrow> r)
      in (strip (case trail_scaffold cut of None \<Rightarrow> cut | Some r \<Rightarrow> r), cut \<noteq> t))"

(* contract/protocol.py 314-325 _speakable *)
definition speakable :: "string \<Rightarrow> bool" where
  "speakable s \<longleftrightarrow>
     s \<noteq> [] \<and>
     \<not> (starts_with ''@'' s \<or> CHR 0x0A \<in> set s \<or> s \<noteq> strip s \<or> length (slow_split s) \<noteq> 1 \<or>
        lead_rest s \<noteq> None \<or> trail_end s \<noteq> None \<or> trail_scaffold s \<noteq> None)"

(* contract/protocol.py 328-334 _sentence *)
definition sentence_items :: "string \<Rightarrow> turn_item list" where
  "sentence_items s =
     (if \<not> speakable s
      then [ParseIssue (if starts_with ''@'' s then StrayDirective else ScaffoldEcho) s]
      else if has_inline s then [Speech s, ParseIssue InlineDirective s]
      else [Speech s])"

(* contract/protocol.py 337-345 _pairs *)
fun pairs_of :: "string list \<Rightarrow> (string \<times> string) list option" where
  "pairs_of [] = Some []"
| "pairs_of (piece # ps) =
     (let k = strip (before (CHR ''='') piece); v = strip (after (CHR ''='') piece) in
      if CHR ''='' \<notin> set piece \<or> \<not> fact_key k \<or> v = [] then None
      else map_option ((#) (k, v)) (pairs_of ps))"

definition pairs :: "string \<Rightarrow> (string \<times> string) list option" where
  "pairs s = pairs_of (split_on (CHR '';'') s)"

section \<open>The parser\<close>

(* contract/profiles/__init__.py 12-24 SectionKind *)
datatype section_kind =
    SecBrief | SecPrivateSummary | SecPublicSummary | SecActions | SecOffers | SecApproval
  | SecGuidance | SecHold | SecStatus | SecTranscript | SecTrigger

(* contract/views.py 39-41 TriggerKind *)
datatype trigger_kind =
    TrigUserMsg | TrigSlowMsg | TrigApprovalCard | TrigSessionStart
  | TrigRepSpoke | TrigHoldWait | TrigGuidance | TrigCallConnected

(* contract/profiles/__init__.py 26-38 Profile *)
record profile =
  prof_name :: string
  prof_lane :: lane
  prof_system :: string
  prof_sections :: "(string \<times> section_kind) list"
  prof_labels :: "string \<times> string"
  prof_triggers :: "(trigger_kind, string) dict"
  prof_moves :: "(guide_move, string) dict"
  prof_closing :: string
  prof_pause_ends_speech :: bool
  prof_p2_ids_sha256 :: string

(* contract/protocol.py 357-369 StreamParser.__init__ *)
record parser =
  pp_lane :: lane
  pp_pause_ends_speech :: bool
  pp_buf :: string
  pp_emitted :: nat
  pp_paused :: bool
  pp_ended :: bool
  pp_any :: bool
  pp_closed :: bool

text \<open>The table of profiles is data; the model takes it as an argument.\<close>

(* contract/protocol.py 357-369 StreamParser.__init__ *)
definition new_parser :: "(string, profile) dict \<Rightarrow> lane \<Rightarrow> string option \<Rightarrow> parser outcome" where
  "new_parser profiles lane name =
     (let start = (\<lambda>pause. \<lparr>pp_lane = lane, pp_pause_ends_speech = pause, pp_buf = [], pp_emitted = 0,
            pp_paused = False, pp_ended = False, pp_any = False, pp_closed = False\<rparr>) in
      case name of
        None \<Rightarrow> Inr (start False)
      | Some n \<Rightarrow>
          (case dget profiles n of
             None \<Rightarrow> Inl (KeyError n)
           | Some spec \<Rightarrow>
               if prof_lane spec \<noteq> lane then Inl (ValueError ''the profile parses the other lane'')
               else Inr (start (prof_pause_ends_speech spec))))"

(* contract/protocol.py 434-438 StreamParser._pause *)
definition pause_item :: "parser \<Rightarrow> turn_item \<Rightarrow> string \<Rightarrow> parser \<times> turn_item list" where
  "pause_item p item s =
     (if pp_paused p then (p, [ParseIssue DuplicatePause s]) else (p\<lparr>pp_paused := True\<rparr>, [item]))"

definition hold_text :: "hold_reason \<Rightarrow> string" where
  "hold_text r = (case r of
      HoldOffer \<Rightarrow> ''offer'' | HoldDecision \<Rightarrow> ''decision'' | HoldFactRequest \<Rightarrow> ''fact_request''
    | HoldPressure \<Rightarrow> ''pressure'' | HoldUnclear \<Rightarrow> ''unclear'')"

text \<open>\<open>s.split()\<close>.\<close>

definition words :: "string \<Rightarrow> string list" where
  "words s = filter (\<lambda>w. w \<noteq> []) (split_on (CHR '' '') (map (\<lambda>c. if is_space c then CHR '' '' else c) s))"

(* contract/protocol.py 415-432 StreamParser._directive *)
definition directive :: "parser \<Rightarrow> string \<Rightarrow> parser \<times> turn_item list" where
  "directive p s =
     (if ci_at ''@end_call'' s
      then if pp_ended p then (p, [ParseIssue DuplicateEndCall s]) else (p\<lparr>pp_ended := True\<rparr>, [EndCall])
      else let ws = words s in
        if hd ws = ''@hold''
        then if pp_lane p \<noteq> CpLane then (p, [ParseIssue WrongLane s])
             else (case find (\<lambda>r. length ws = 2 \<and> ws ! 1 = hold_text r) HOLD_REASONS of
                 None \<Rightarrow> (p, [ParseIssue BadHoldReason s])
               | Some known \<Rightarrow> pause_item p (HoldTurn known) s)
        else if s = ''@wait'' then pause_item p WaitTurn s
        else (p, [ParseIssue UnknownDirective s]))"

definition RELAY_HEADS :: "string list" where
  "RELAY_HEADS = [''fact'', ''correction'', ''request'', ''revoke'']"

(* contract/protocol.py 440-459 StreamParser._relay *)
definition relay_items :: "lane \<Rightarrow> string \<Rightarrow> turn_item list" where
  "relay_items lane segment =
     (if segment = [] then [ParseIssue MalformedRelay []] else
      let head = before (CHR '' '') segment;
          rest = strip (after (CHR '' '') segment);
          note = [Relay RelayNote segment []]
      in if head \<in> {''correction'', ''request'', ''revoke''} \<and> lane \<noteq> UserLane then [ParseIssue WrongLane segment]
         else if head = ''fact'' \<or> head = ''correction'' then
           (case pairs rest of
              None \<Rightarrow> note @ [ParseIssue MalformedFact segment]
            | Some ps \<Rightarrow>
                if head = ''correction'' \<and> length ps \<noteq> 1 then note @ [ParseIssue MalformedFact segment]
                else [Relay (if head = ''fact'' then RelayFact else RelayCorrection) [] ps])
         else if (head = ''request'' \<or> head = ''revoke'') \<and> rest \<noteq> [] then
           [Relay (if head = ''request'' then RelayRequest else RelayRevoke) rest []]
         else if map lower_char head \<in> set RELAY_HEADS \<or>
                 (head \<noteq> [] \<and> list_all is_lower head \<and> pairs rest \<noteq> None)
         then note @ [ParseIssue MalformedRelay segment]
         else note)"

definition nonempty :: "string list \<Rightarrow> string list" where
  "nonempty ws = filter (\<lambda>w. w \<noteq> []) ws"

(* contract/protocol.py 391-413 StreamParser._line *)
definition line_items :: "parser \<Rightarrow> string \<Rightarrow> bool \<Rightarrow> parser \<times> turn_item list" where
  "line_items p raw final =
     (let s = strip raw in
      if starts_with ''@'' s \<and> \<not> slow_at s then (if final then directive p s else (p, []))
      else if pp_paused p \<and> pp_pause_ends_speech p \<and> \<not> starts_with ''@'' s
      then (p, if final \<and> s \<noteq> [] then [ParseIssue SpeechAfterPause s] else [])
      else
        let parts = slow_split s;
            (spoken, cut) = clean (hd parts);
            sentences = (if starts_with ''@'' spoken then [] else breaks False spoken)
        in if \<not> final
           then let ready = nonempty (butlast (drop (pp_emitted p) sentences)) in
             (p\<lparr>pp_emitted := pp_emitted p + length ready\<rparr>, concat (map sentence_items ready))
           else
             (p\<lparr>pp_emitted := 0\<rparr>,
              concat (map sentence_items (nonempty (drop (pp_emitted p) sentences))) @
              (if starts_with ''@'' spoken then [ParseIssue StrayDirective spoken]
               else if cut then [ParseIssue InlineDirective ''@end_call'']
               else []) @
              concat (map (\<lambda>segment. relay_items (pp_lane p) (strip segment)) (tl parts))))"

definition is_issue :: "turn_item \<Rightarrow> bool" where
  "is_issue i = (case i of ParseIssue _ _ \<Rightarrow> True | _ \<Rightarrow> False)"

(* contract/protocol.py 387-389 StreamParser._seen *)
definition seen_items :: "parser \<Rightarrow> turn_item list \<Rightarrow> parser" where
  "seen_items p items = p\<lparr>pp_any := (pp_any p \<or> list_ex (\<lambda>i. \<not> is_issue i) items)\<rparr>"

fun line_list :: "parser \<Rightarrow> string list \<Rightarrow> parser \<times> turn_item list" where
  "line_list p [] = (p, [])"
| "line_list p (l # ls) =
     (let (q, xs) = line_items p l True; (r, ys) = line_list q ls in (r, xs @ ys))"

(* contract/protocol.py 370-378 StreamParser.feed *)
definition feed :: "parser \<Rightarrow> string \<Rightarrow> (parser \<times> turn_item list) outcome" where
  "feed p chunk =
     (if pp_closed p then Inl (ValueError ''the parser is closed'') else
      let pieces = split_on (CHR 0x0A) (pp_buf p @ chunk);
          (q, xs) = line_list (p\<lparr>pp_buf := last pieces\<rparr>) (butlast pieces);
          (r, ys) = line_items q (pp_buf q) False
      in Inr (seen_items r (xs @ ys), xs @ ys))"

(* contract/protocol.py 380-385 StreamParser.close *)
definition close_parser :: "parser \<Rightarrow> parser \<times> turn_item list" where
  "close_parser p =
     (let (q, items) = line_items p (pp_buf p) True;
          r = (seen_items q items)\<lparr>pp_buf := [], pp_closed := True\<rparr>
      in (r, if pp_any r then items else items @ [ParseIssue EmptyTurn []]))"

fun feed_all :: "parser \<Rightarrow> string list \<Rightarrow> (parser \<times> turn_item list) outcome" where
  "feed_all p [] = Inr (p, [])"
| "feed_all p (c # cs) = and_then (feed p c) (\<lambda>(q, xs). and_then (feed_all q cs) (\<lambda>(r, ys). Inr (r, xs @ ys)))"

text \<open>A stream: every chunk is fed, and the parser is closed.\<close>

definition stream_turn :: "(string, profile) dict \<Rightarrow> string list \<Rightarrow> lane \<Rightarrow> string option \<Rightarrow> turn_item list outcome" where
  "stream_turn profiles chunks lane name =
     and_then (new_parser profiles lane name) (\<lambda>p.
       and_then (feed_all p chunks) (\<lambda>(q, xs). Inr (xs @ snd (close_parser q))))"

(* contract/protocol.py 462-466 parse_turn *)
definition parse_turn :: "(string, profile) dict \<Rightarrow> string \<Rightarrow> lane \<Rightarrow> string option \<Rightarrow> turn_item list outcome" where
  "parse_turn profiles s lane name =
     and_then (new_parser profiles lane name) (\<lambda>p.
       and_then (feed p s) (\<lambda>(q, xs). Inr (xs @ snd (close_parser q))))"

section \<open>The canonical text\<close>

definition relay_word :: "relay_type \<Rightarrow> string" where
  "relay_word t = (case t of
      RelayNote \<Rightarrow> ''note'' | RelayFact \<Rightarrow> ''fact'' | RelayCorrection \<Rightarrow> ''correction''
    | RelayRequest \<Rightarrow> ''request'' | RelayRevoke \<Rightarrow> ''revoke'')"

(* contract/protocol.py 469-474 _relay_text *)
definition relay_text :: "relay_type \<Rightarrow> string \<Rightarrow> (string \<times> string) list \<Rightarrow> string" where
  "relay_text t s facts =
     (if t = RelayNote then s
      else if t = RelayFact \<or> t = RelayCorrection
      then relay_word t @ '' '' @ join ''; '' (map (\<lambda>(k, v). k @ ''='' @ v) facts)
      else relay_word t @ '' '' @ s)"

text \<open>The loop of \<open>format_turn\<close> with its two variables; \<open>lines[-1]\<close> is the last line.\<close>

fun format_items :: "string list \<Rightarrow> bool \<Rightarrow> turn_item list \<Rightarrow> string list outcome" where
  "format_items lines joinable [] = Inr lines"
| "format_items lines joinable (item # items) =
     (case item of
        Speech s \<Rightarrow>
          if \<not> speakable s then Inl (ValueError ''not a canonical sentence'')
          else if joinable \<and> closing_mark (last (last lines))
          then format_items (butlast lines @ [last lines @ '' '' @ s]) True items
          else format_items (lines @ [s]) True items
      | Relay t s facts \<Rightarrow> format_items (lines @ [''@slow: '' @ relay_text t s facts]) False items
      | HoldTurn r \<Rightarrow> format_items (lines @ [''@hold '' @ hold_text r]) False items
      | WaitTurn \<Rightarrow> format_items (lines @ [''@wait'']) False items
      | EndCall \<Rightarrow> format_items (lines @ [''@end_call'']) False items
      | ParseIssue _ _ \<Rightarrow> Inl (ValueError ''a parse issue has no canonical text''))"

(* contract/protocol.py 477-504 format_turn *)
definition format_turn :: "turn_item list \<Rightarrow> string outcome" where
  "format_turn items = and_then (format_items [] False items) (\<lambda>lines. Inr (join [CHR 0x0A] lines))"

end
