(* ===== verification/Grammar_Stream.thy ===== *)
theory Grammar_Stream
  imports Grammar "HOL-Library.Sublist"
begin

text \<open>
  Streaming and batch parsing agree. The sentences a line has shown are never taken back when it
  grows: all but the last sentence of a line stand at the start of the sentences of every longer
  line. So a parser that has emitted some of them ends with exactly the items of the whole line.
\<close>

section \<open>Splitting into sentences\<close>

lemma cons_hd_simps [simp]: "ws \<noteq> [] \<Longrightarrow> cons_hd c ws = (c # hd ws) # tl ws"
  by (cases ws) (simp_all add: cons_hd_def)

lemma breaks_not_Nil [simp]: "breaks b s \<noteq> []"
  by (induction b s rule: breaks.induct) (simp_all add: cons_hd_def split: list.split)

lemma slow_split_not_Nil [simp]: "slow_split s \<noteq> []"
  by (induction s rule: slow_split.induct) (simp_all add: cons_hd_def split: list.split)

lemma butlast_Cons: "xs \<noteq> [] \<Longrightarrow> butlast (x # xs) = x # butlast xs"
  by simp

lemma prefix_cons_hd:
  assumes "prefix (butlast xs) ys" "xs \<noteq> []" "ys \<noteq> []"
  shows "prefix (butlast (cons_hd c xs)) (cons_hd c ys)"
  using assms by (cases xs; cases ys) (auto split: if_splits)

definition open_text :: "string \<Rightarrow> bool" where
  "open_text s \<longleftrightarrow> list_all (\<lambda>c. \<not> closing_mark c) s"

lemma open_text_simps [simp]:
  "open_text []" "open_text (c # s) \<longleftrightarrow> \<not> closing_mark c \<and> open_text s"
  "open_text (s @ t) \<longleftrightarrow> open_text s \<and> open_text t"
  by (simp_all add: open_text_def)

lemma open_text_sub: "set s \<subseteq> set t \<Longrightarrow> open_text t \<Longrightarrow> open_text s"
  by (auto simp: open_text_def list_all_iff)

lemma set_lstrip: "set (lstrip s) \<subseteq> set s"
  by (auto simp: lstrip_def dest: set_dropWhileD)

lemma breaks_open: "open_text s \<Longrightarrow> tl (breaks False s) = []"
  by (induction s) simp_all

lemma butlast_open [simp]: "open_text s \<Longrightarrow> butlast (breaks False s) = []"
  using breaks_open [of s] by (cases "breaks False s") simp_all

lemma lstrip_append: "lstrip (s @ t) = (if lstrip s = [] then lstrip t else lstrip s @ t)"
  by (simp add: lstrip_def dropWhile_append dropWhile_eq_Nil_conv)

lemma breaks_grow: "prefix (butlast (breaks b s)) (breaks b (s @ z))"
proof (induction b s rule: breaks.induct)
  case (1 b)
  then show ?case by simp
next
  case (2 b c cs)
  show ?case
  proof (cases "b \<and> is_space c")
    case True
    then show ?thesis using 2(1) by (cases "lstrip cs = []") (simp_all add: lstrip_append)
  next
    case False
    then have "breaks b (c # cs) = cons_hd c (breaks (closing_mark c) cs)"
      "breaks b ((c # cs) @ z) = cons_hd c (breaks (closing_mark c) (cs @ z))" by auto
    moreover have "prefix (butlast (breaks (closing_mark c) cs)) (breaks (closing_mark c) (cs @ z))"
      using 2(2) False by blast
    ultimately show ?thesis using prefix_cons_hd by (metis breaks_not_Nil)
  qed
qed

lemma breaks_cut: "open_text w \<Longrightarrow> prefix (butlast (breaks b (s @ w))) (breaks b s)"
proof (induction b s rule: breaks.induct)
  case (1 b)
  show ?case
  proof (cases w)
    case Nil
    then show ?thesis by simp
  next
    case (Cons c cs)
    have "open_text (lstrip cs)" using 1 Cons open_text_sub [OF set_lstrip] by simp
    then show ?thesis using 1 Cons by (simp add: breaks_open)
  qed
next
  case (2 b c cs)
  show ?case
  proof (cases "b \<and> is_space c")
    case True
    show ?thesis
    proof (cases "lstrip cs = []")
      case nil: True
      have "open_text (lstrip w)" using 2(3) open_text_sub [OF set_lstrip] by simp
      with True nil show ?thesis by (simp add: lstrip_append breaks_open)
    next
      case False
      with True 2(1,3) show ?thesis by (simp add: lstrip_append)
    qed
  next
    case False
    then have "breaks b (c # cs) = cons_hd c (breaks (closing_mark c) cs)"
      "breaks b ((c # cs) @ w) = cons_hd c (breaks (closing_mark c) (cs @ w))" by auto
    moreover have "prefix (butlast (breaks (closing_mark c) (cs @ w))) (breaks (closing_mark c) cs)"
      using 2 False by blast
    ultimately show ?thesis using prefix_cons_hd by (metis breaks_not_Nil)
  qed
qed

lemma prefix_append_cases:
  assumes "prefix u (v @ w)"
  obtains x where "v = u @ x" | w1 where "u = v @ w1" "set w1 \<subseteq> set w"
  using assms by (auto simp: prefix_append elim!: prefixE)

lemma breaks_stable:
  assumes "prefix u (v @ w)" "open_text w"
  shows "prefix (butlast (breaks False u)) (breaks False v)"
  using assms(1)
proof (cases rule: prefix_append_cases)
  case (1 x)
  then show ?thesis using breaks_grow by simp
next
  case (2 w1)
  then show ?thesis using breaks_cut [of w1 False v] open_text_sub [OF 2(2) assms(2)] by simp
qed

section \<open>White space\<close>

lemma strip_def': "strip s = rstrip (lstrip s)"
  by (simp add: strip_def rstrip_def lstrip_def)

lemma rstrip_split: "\<exists>w. s = rstrip s @ w \<and> list_all is_space w"
proof -
  have "rev s = takeWhile is_space (rev s) @ dropWhile is_space (rev s)" by simp
  then have "s = rstrip s @ rev (takeWhile is_space (rev s))"
    unfolding rstrip_def by (metis rev_append rev_rev_ident)
  moreover have "list_all is_space (rev (takeWhile is_space (rev s)))"
    by (auto simp: list_all_iff dest: set_takeWhileD)
  ultimately show ?thesis by blast
qed

lemma prefix_rstrip: "prefix (rstrip s) s"
  using rstrip_split [of s] by (metis prefixI)

lemma lstrip_eq_Nil: "lstrip s = [] \<longleftrightarrow> list_all is_space s"
  by (simp add: lstrip_def list_all_iff)

text \<open>Stripping keeps what one text has of another, up to characters of a class with the spaces.\<close>

lemma strip_prefix:
  assumes "prefix y (y' @ w)" "list_all P w" "\<And>c. is_space c \<Longrightarrow> P c"
  obtains w' where "prefix (strip y) (strip y' @ w')" "list_all P w'"
proof -
  obtain z where z: "y' @ w = y @ z" using assms(1) by (auto elim: prefixE)
  obtain v where v: "lstrip y' = strip y' @ v" "list_all is_space v"
    using rstrip_split [of "lstrip y'"] by (auto simp: strip_def')
  have Pv: "list_all P v" using v(2) assms(3) by (simp add: list_all_iff)
  show thesis
  proof (cases "lstrip y = [] \<or> lstrip y' = []")
    case True
    have "list_all P (strip y)"
    proof (cases "lstrip y = []")
      case True
      then show ?thesis by (simp add: strip_def' rstrip_def)
    next
      case False
      with True have "list_all P (y' @ w)" using assms(2,3) by (auto simp: lstrip_eq_Nil list_all_iff)
      moreover have "set (strip y) \<subseteq> set (y' @ w)"
        unfolding z strip_def' using set_lstrip [of y] prefix_rstrip [of "lstrip y"]
        by (auto dest: set_mono_prefix)
      ultimately show ?thesis by (auto simp: list_all_iff)
    qed
    moreover have "prefix (strip y) (strip y' @ strip y) \<or> strip y' \<noteq> []" by auto
    ultimately show thesis
    proof (cases "strip y' = []")
      case True
      with \<open>list_all P (strip y)\<close> show thesis using that [of "strip y"] by simp
    next
      case False
      then have "lstrip y = []" using True by (auto simp: strip_def' rstrip_def)
      then show thesis using that [of "[]"] by (simp add: strip_def' rstrip_def)
    qed
  next
    case False
    then have "lstrip y' @ w = lstrip y @ z"
      using arg_cong [OF z, of lstrip] by (simp add: lstrip_append)
    then have "prefix (strip y) (strip y' @ (v @ w))"
      unfolding strip_def' [of y] using v(1) prefix_rstrip [of "lstrip y"]
      by (metis append_assoc prefix_append prefix_order.trans prefixI)
    then show thesis using that [of "v @ w"] Pv assms(2) by simp
  qed
qed

lemma lstrip_same: "lstrip t = t \<longleftrightarrow> t = [] \<or> \<not> is_space (hd t)"
proof (cases t)
  case (Cons c cs)
  have "length (lstrip cs) \<le> length cs" by (rule drop_spaces_le)
  then have "lstrip cs \<noteq> c # cs" by auto
  with Cons show ?thesis by (simp add: lstrip_def)
qed (simp add: lstrip_def)

lemma lstrip_prefix: "prefix r t \<Longrightarrow> lstrip t = t \<Longrightarrow> lstrip r = r"
  by (cases r; cases t) (auto simp: lstrip_same)

lemma strip_ends [simp]: "lstrip (strip s) = strip s"
proof -
  have "lstrip (lstrip s) = lstrip s" by (simp add: lstrip_def)
  then show ?thesis unfolding strip_def' using lstrip_prefix [OF prefix_rstrip] by metis
qed

section \<open>Markers\<close>

lemma closing_mark_code: "closing_mark c \<longleftrightarrow> (of_char c :: nat) \<in> {46, 33, 63}"
  using of_char_eq_iff [where 'a = nat, of c "CHR ''.''"] of_char_eq_iff [where 'a = nat, of c "CHR ''!''"]
    of_char_eq_iff [where 'a = nat, of c "CHR ''?''"]
  by (auto simp: closing_mark_def)

lemma lower_char_code:
  "(of_char (lower_char c) :: nat) = (if 65 \<le> (of_char c :: nat) \<and> (of_char c :: nat) \<le> 90 then of_char c + 32 else of_char c)"
  by (simp add: lower_char_def is_upper_def less_eq_char_def)

lemma lower_char_class:
  "closing_mark (lower_char c) \<longleftrightarrow> closing_mark c" "is_space (lower_char c) \<longleftrightarrow> is_space c"
  unfolding closing_mark_code is_space_def Let_def lower_char_code by auto

lemma ci_at_append: "ci_at p s \<Longrightarrow> ci_at p (s @ t)"
proof -
  assume a: "ci_at p s"
  then have "length p \<le> length s" unfolding ci_at_def by (metis length_map length_take min.cobounded1)
  with a show ?thesis by (simp add: ci_at_def)
qed

lemma ci_at_length: "ci_at p s \<Longrightarrow> length p \<le> length s"
  unfolding ci_at_def by (metis length_map length_take min.cobounded1)

lemma ci_at_long:
  assumes "ci_at p (s @ t)" "length p \<le> length s"
  shows "ci_at p s"
  using assms by (simp add: ci_at_def)

text \<open>A text that becomes a marker only when it grows is a beginning of the marker.\<close>

lemma ci_at_partial:
  assumes "ci_at p (s @ t)" "\<not> ci_at p s"
  shows "map lower_char s = take (length s) p" "length s < length p"
proof -
  show l: "length s < length p" using assms ci_at_long by (metis not_le)
  have "take (length s) (map lower_char (take (length p) (s @ t))) = take (length s) p"
    using assms(1) by (simp add: ci_at_def)
  with l show "map lower_char s = take (length s) p" by (simp add: take_map)
qed

lemma ci_at_class:
  assumes "ci_at p (s @ t)" "\<not> ci_at p s" "list_all (\<lambda>c. \<not> closing_mark c) p"
  shows "open_text s"
proof -
  have "list_all (\<lambda>c. \<not> closing_mark c) (map lower_char s)"
    using ci_at_partial(1) [OF assms(1,2)] assms(3) by (metis append_take_drop_id list_all_append)
  then show ?thesis by (simp add: open_text_def list_all_iff lower_char_class)
qed

lemma ci_at_spaces:
  assumes "ci_at p (s @ w)" "list_all is_space w" "list_all (\<lambda>c. \<not> is_space c) p"
  shows "ci_at p s"
proof (rule ccontr)
  assume no: "\<not> ci_at p s"
  note part = ci_at_partial [OF assms(1) no]
  have l: "length p \<le> length (s @ w)"
    using assms(1) unfolding ci_at_def by (metis length_map length_take min.cobounded1)
  have "take (length p) (s @ w) ! length s = w ! 0" using part(2) by (simp add: nth_append)
  moreover have "map lower_char (take (length p) (s @ w)) ! length s = p ! length s"
    using assms(1) by (simp add: ci_at_def)
  moreover have "map lower_char (take (length p) (s @ w)) ! length s = lower_char (take (length p) (s @ w) ! length s)"
    using part(2) l by (intro nth_map) simp
  ultimately have "lower_char (w ! 0) = p ! length s" by simp
  moreover have "w \<noteq> []" using part(2) l by auto
  ultimately have "is_space (p ! length s)"
    using assms(2) by (metis length_greater_0_conv list_all_length lower_char_class(2))
  with assms(3) part(2) show False by (simp add: list_all_length)
qed

definition spoken_part :: "string \<Rightarrow> string" where
  "spoken_part s = hd (slow_split s)"

lemma spoken_part_simps [simp]:
  "spoken_part [] = []"
  "spoken_part (c # cs) = (if slow_at (c # cs) then [] else c # spoken_part cs)"
  by (simp_all add: spoken_part_def)

lemma slow_marker: "list_all (\<lambda>c. \<not> closing_mark c) ''@slow:''" "list_all (\<lambda>c. \<not> is_space c) ''@slow:''"
  by (simp_all add: closing_mark_def is_space_def)

lemma prefix_spoken_part: "prefix (spoken_part s) s"
  by (induction s) simp_all

lemma spoken_part_grow: "\<exists>w. open_text w \<and> prefix (spoken_part s) (spoken_part (s @ x) @ w)"
proof (induction s)
  case Nil
  show ?case by (auto intro: exI [of _ "[]"])
next
  case (Cons c cs)
  show ?case
  proof (cases "slow_at (c # cs)")
    case True
    then show ?thesis by (auto intro: exI [of _ "[]"])
  next
    case no: False
    show ?thesis
    proof (cases "slow_at ((c # cs) @ x)")
      case True
      with no have "open_text (c # cs)" using ci_at_class slow_marker(1) unfolding slow_at_def by blast
      with True no show ?thesis using prefix_spoken_part [of "c # cs"] by (intro exI [of _ "c # cs"]) simp
    next
      case False
      with no Cons show ?thesis by auto
    qed
  qed
qed

lemma spoken_part_spaces: "list_all is_space w \<Longrightarrow> \<exists>v. spoken_part (s @ w) = spoken_part s @ v \<and> list_all is_space v"
proof (induction s)
  case Nil
  have "spoken_part w = w" using Nil
  proof (induction w)
    case (Cons c w)
    have "\<not> slow_at (c # w)" using ci_at_spaces [of "''@slow:''" "[]" "c # w"] Cons(2) slow_marker(2)
      by (auto simp: slow_at_def ci_at_def)
    with Cons show ?case by simp
  qed simp
  with Nil show ?case by simp
next
  case (Cons c cs)
  have "slow_at ((c # cs) @ w) = slow_at (c # cs)"
    unfolding slow_at_def using ci_at_append ci_at_spaces [OF _ Cons(2) slow_marker(2)] by blast
  with Cons show ?case by auto
qed

lemma space_open: "list_all is_space s \<Longrightarrow> open_text s"
  by (auto simp: open_text_def list_all_iff closing_mark_code is_space_def Let_def)

text \<open>A beginning \<open>s\<close> of a line and the whole \<open>s'\<close>, both stripped: what is spoken, then the lead word.\<close>

lemma spoken_part_prefix:
  assumes "prefix s (s' @ w)" "list_all is_space w"
  obtains v where "prefix (spoken_part s) (spoken_part s' @ v)" "open_text v"
  using assms(1)
proof (cases rule: prefix_append_cases)
  case (1 x)
  then show ?thesis using spoken_part_grow [of s x] that by auto
next
  case (2 w1)
  then have "list_all is_space w1" using assms(2) by (auto simp: list_all_iff)
  from spoken_part_spaces [OF this, of s'] obtain v where
    "spoken_part (s' @ w1) = spoken_part s' @ v" "list_all is_space v" by blast
  with 2 that [of v] show ?thesis using space_open by simp
qed

definition after_lead :: "string \<Rightarrow> string" where
  "after_lead s = (case lead_rest s of None \<Rightarrow> s | Some r \<Rightarrow> r)"

lemma lead_colon_grow: "lead_colon s = Some r \<Longrightarrow> lead_colon (s @ x) = Some (lstrip (r @ x))"
  by (auto simp: lead_colon_def lstrip_append split: list.splits if_splits)
    (auto simp: lstrip_def)

lemma lead_colon_partial: "lead_colon (s @ x) = Some r \<Longrightarrow> lead_colon s = None \<Longrightarrow> list_all is_space s"
  by (auto simp: lead_colon_def lstrip_append lstrip_eq_Nil [symmetric] split: list.splits if_splits)

lemma lead_rest_grow:
  assumes "lead_rest s = Some r"
  shows "lead_rest (s @ x) = Some (lstrip (r @ x))"
proof (cases "ci_at ''first'' s")
  case True
  then have "5 \<le> length s" by (cases "length s \<ge> 5") (auto simp: ci_at_def dest: arg_cong [of _ _ length])
  with True assms show ?thesis
    using ci_at_append [OF True, of x] lead_colon_grow by (simp add: lead_rest_def)
next
  case False
  with assms have t: "ci_at ''then'' s" "lead_colon (drop 4 s) = Some r" by (auto simp: lead_rest_def split: if_splits)
  then have l: "4 \<le> length s" by (cases "length s \<ge> 4") (auto simp: ci_at_def dest: arg_cong [of _ _ length])
  have "\<not> ci_at ''first'' (s @ x)"
    using t(1) l by (cases s) (auto simp: ci_at_def)
  with t l ci_at_append [OF t(1), of x] lead_colon_grow [OF t(2), of x] show ?thesis
    by (simp add: lead_rest_def)
qed

lemma lead_rest_partial:
  assumes "lead_rest (s @ x) = Some r" "lead_rest s = None"
  shows "open_text s"
proof -
  have part: "open_text s"
    if c: "ci_at p (s @ x)" and r: "lead_colon (drop n (s @ x)) = Some r"
      and none: "ci_at p s \<Longrightarrow> lead_colon (drop n s) = None"
      and p: "list_all (\<lambda>c. \<not> closing_mark c) p" and n: "length p = n" for p n
  proof (cases "ci_at p s")
    case False
    with c p show ?thesis using ci_at_class by blast
  next
    case True
    then have l: "n \<le> length s" using ci_at_length n by blast
    have "list_all is_space (drop n s)"
      using lead_colon_partial [OF _ none [OF True]] r l by simp
    moreover have "open_text (take n s)"
    proof -
      have "map lower_char (take n s) = p" using True n by (simp add: ci_at_def)
      then have "list_all (\<lambda>c. \<not> closing_mark c) (map lower_char (take n s))" using p by simp
      then show ?thesis by (simp add: open_text_def list_all_iff lower_char_class)
    qed
    ultimately show ?thesis using space_open by (metis append_take_drop_id open_text_simps(3))
  qed
  show ?thesis
  proof (cases "ci_at ''first'' (s @ x)")
    case True
    have r: "lead_colon (drop 5 (s @ x)) = Some r" using True assms(1) by (simp only: lead_rest_def if_True)
    show ?thesis
    proof (rule part [OF True r])
      show "lead_colon (drop 5 s) = None" if "ci_at ''first'' s"
        using that assms(2) by (simp only: lead_rest_def if_True)
    qed (simp_all add: closing_mark_def)
  next
    case False
    then have f: "\<not> ci_at ''first'' s" using ci_at_append by blast
    have t: "ci_at ''then'' (s @ x)" "lead_colon (drop 4 (s @ x)) = Some r"
      using False assms(1) by (auto simp only: lead_rest_def if_False split: if_split_asm)
    show ?thesis
    proof (rule part [OF t])
      show "lead_colon (drop 4 s) = None" if "ci_at ''then'' s"
        using that f assms(2) by (simp only: lead_rest_def if_True if_False)
    qed (simp_all add: closing_mark_def)
  qed
qed

lemma set_lead_colon: "lead_colon s = Some r \<Longrightarrow> set r \<subseteq> set s"
proof -
  assume a: "lead_colon s = Some r"
  then obtain c t where t: "lstrip s = c # t" "r = lstrip t"
    by (auto simp: lead_colon_def split: list.splits if_splits)
  then show "set r \<subseteq> set s" using set_lstrip [of t] set_lstrip [of s] by auto
qed

lemma set_lead_rest:
  assumes "lead_rest s = Some r"
  shows "set r \<subseteq> set s"
proof -
  have "lead_colon (drop 5 s) = Some r \<or> lead_colon (drop 4 s) = Some r"
    using assms by (simp only: lead_rest_def option.distinct split: if_split_asm) simp_all
  then obtain n where "lead_colon (drop n s) = Some r" by (elim disjE) simp_all
  from order_trans [OF set_lead_colon [OF this] set_drop_subset] show ?thesis .
qed

text \<open>What is left after the lead word of a beginning is open, or a beginning of what the whole line has there.\<close>

lemma after_lead_prefix:
  assumes "prefix m (m' @ w)" "open_text w"
  shows "open_text (after_lead m) \<or> (\<exists>v. prefix (after_lead m) (after_lead m' @ v) \<and> open_text v)"
  using assms(1)
proof (cases rule: prefix_append_cases)
  case (1 x)
  show ?thesis
  proof (cases "lead_rest m")
    case None
    then have m: "after_lead m = m" by (simp add: after_lead_def)
    show ?thesis
    proof (cases "lead_rest m'")
      case none: None
      with 1 have "prefix (after_lead m) (after_lead m' @ [])" by (simp add: m) (simp add: after_lead_def)
      then show ?thesis using open_text_simps(1) by blast
    next
      case (Some r)
      with 1 None show ?thesis using lead_rest_partial by (simp add: m)
    qed
  next
    case (Some r)
    then have "lead_rest m' = Some (lstrip (r @ x))" "lstrip r = r"
      using 1 lead_rest_grow [of m r x] lead_rest_grow [of m r "[]"] by auto
    with Some show ?thesis
      by (cases "r = []") (auto simp: after_lead_def lstrip_append intro: exI [of _ "[]"])
  qed
next
  case (2 w1)
  have w1: "open_text w1" using 2(2) assms(2) open_text_sub by blast
  show ?thesis
  proof (cases "lead_rest m'")
    case None
    show ?thesis
    proof (cases "lead_rest m")
      case none: None
      with None 2 w1 show ?thesis by (auto simp: after_lead_def)
    next
      case (Some r)
      with None 2 w1 have "open_text m" using lead_rest_partial [of m' w1 r] by simp
      moreover have "set r \<subseteq> set m"
        using set_lead_rest [OF Some] .
      ultimately show ?thesis using Some open_text_sub by (simp add: after_lead_def)
    qed
  next
    case (Some r)
    then have r: "lead_rest m = Some (lstrip (r @ w1))" "lstrip r = r"
      using 2 lead_rest_grow [of m' r w1] lead_rest_grow [of m' r "[]"] by auto
    have "open_text (lstrip w1)" using w1 open_text_sub set_lstrip by blast
    with Some r w1 show ?thesis by (cases "r = []") (auto simp: after_lead_def lstrip_append)
  qed
qed

text \<open>What \<open>clean\<close> cuts off at the end of a text holds no closing mark.\<close>

definition cut_open :: "string \<Rightarrow> string \<Rightarrow> bool" where
  "cut_open t r \<longleftrightarrow> (\<exists>w. t = r @ w \<and> open_text w)"

lemma cut_open_refl [simp]: "cut_open t t"
  by (auto simp: cut_open_def intro: exI [of _ "[]"])

lemma cut_open_trans: "cut_open t r \<Longrightarrow> cut_open r q \<Longrightarrow> cut_open t q"
  by (auto simp: cut_open_def)

lemma cut_open_rstrip: "cut_open t (rstrip t)"
  using rstrip_split [of t] space_open by (auto simp: cut_open_def)

lemma cut_open_strip: "lstrip t = t \<Longrightarrow> cut_open t r \<Longrightarrow> cut_open t (strip r)"
proof -
  assume a: "lstrip t = t" "cut_open t r"
  then have "lstrip r = r" using lstrip_prefix [of r t] by (auto simp: cut_open_def)
  with a show ?thesis using cut_open_trans [OF a(2) cut_open_rstrip [of r]] by (simp add: strip_def')
qed

lemma cut_last_open:
  assumes "cut_last p t = Some r" "list_all (\<lambda>c. \<not> closing_mark c) p"
  shows "cut_open t r"
proof -
  have r: "r = take (length t - length p) t" and m: "ci_at p (drop (length t - length p) t)"
    using assms(1) by (auto simp: cut_last_def Let_def split: if_splits)
  have "length (drop (length t - length p) t) \<le> length p" by simp
  with m have "map lower_char (drop (length t - length p) t) = p" by (simp add: ci_at_def)
  then have "list_all (\<lambda>c. \<not> closing_mark c) (map lower_char (drop (length t - length p) t))"
    using assms(2) by simp
  then have "open_text (drop (length t - length p) t)"
    by (simp add: open_text_def list_all_iff lower_char_class)
  moreover have "t = r @ drop (length t - length p) t" by (simp add: r)
  ultimately show ?thesis unfolding cut_open_def by blast
qed

lemma cut_word_open: "cut_word p t = Some r \<Longrightarrow> list_all (\<lambda>c. \<not> closing_mark c) p \<Longrightarrow> cut_open t r"
  using cut_last_open by (auto simp: cut_word_def split: option.splits if_splits)

lemma trail_end_open: "trail_end t = Some r \<Longrightarrow> cut_open t r"
  using cut_open_trans [OF cut_open_rstrip cut_last_open] by (simp add: trail_end_def closing_mark_def)

lemma trail_scaffold_open:
  assumes "trail_scaffold t = Some r"
  shows "cut_open t r"
proof -
  obtain u where u: "cut_last '':'' (rstrip t) = Some u" using assms by (auto simp: trail_scaffold_def split: option.splits)
  have "cut_open t u" using cut_open_trans [OF cut_open_rstrip cut_last_open [OF u]] by (simp add: closing_mark_def)
  then have "cut_open t (rstrip u)" using cut_open_trans cut_open_rstrip by blast
  moreover have "cut_open (rstrip u) r"
    using assms u cut_word_open [of "''then''" "rstrip u" r] cut_word_open [of "''first''" "rstrip u" r]
    by (auto simp: trail_scaffold_def closing_mark_def split: option.splits)
  ultimately show ?thesis using cut_open_trans by blast
qed

lemma clean_cut: "cut_open (strip (after_lead (strip y))) (fst (clean y))"
proof -
  let ?t = "strip (after_lead (strip y))"
  let ?c = "strip (case trail_end ?t of None \<Rightarrow> ?t | Some r \<Rightarrow> r)"
  have "cut_open ?t (case trail_end ?t of None \<Rightarrow> ?t | Some r \<Rightarrow> r)"
    using trail_end_open by (auto split: option.split)
  then have c: "cut_open ?t ?c" by (rule cut_open_strip [OF strip_ends])
  have "cut_open ?c (case trail_scaffold ?c of None \<Rightarrow> ?c | Some r \<Rightarrow> r)"
    using trail_scaffold_open by (auto split: option.split)
  then have "cut_open ?c (strip (case trail_scaffold ?c of None \<Rightarrow> ?c | Some r \<Rightarrow> r))"
    by (rule cut_open_strip [OF strip_ends])
  moreover have "fst (clean y) = strip (case trail_scaffold ?c of None \<Rightarrow> ?c | Some r \<Rightarrow> r)"
    by (simp only: clean_def Let_def fst_conv after_lead_def)
  ultimately show ?thesis using cut_open_trans [OF c] by simp
qed

section \<open>Sentences of a growing line\<close>

definition line_sentences :: "bool \<Rightarrow> string \<Rightarrow> string list" where
  "line_sentences quiet raw =
     (let s = strip raw; spoken = fst (clean (spoken_part s)) in
      if starts_with ''@'' s \<and> \<not> slow_at s \<or> quiet \<and> \<not> starts_with ''@'' s \<or> starts_with ''@'' spoken
      then [] else breaks False spoken)"

lemma strip_prefix_open:
  assumes "prefix y (y' @ w)" "open_text w"
  obtains v where "prefix (strip y) (strip y' @ v)" "open_text v"
proof -
  have "\<not> closing_mark c" if "is_space c" for c
    using space_open [of "[c]"] that by simp
  from strip_prefix [OF assms(1) assms(2) [unfolded open_text_def] this] that show thesis
    by (metis open_text_def)
qed

lemma set_strip: "set (strip s) \<subseteq> set s"
  using set_lstrip [of s] set_mono_prefix [OF prefix_rstrip [of "lstrip s"]] by (auto simp: strip_def')

lemma spoken_stable:
  assumes "prefix s (s' @ w)" "list_all is_space w"
  obtains "open_text (fst (clean (spoken_part s)))"
    | v where "prefix (fst (clean (spoken_part s))) (fst (clean (spoken_part s')) @ v)" "open_text v"
proof -
  let ?u = "\<lambda>x. fst (clean (spoken_part x))" and ?l = "\<lambda>x. strip (after_lead (strip (spoken_part x)))"
  obtain v0 where "prefix (spoken_part s) (spoken_part s' @ v0)" "open_text v0"
    using spoken_part_prefix [OF assms] .
  then obtain v1 where m: "prefix (strip (spoken_part s)) (strip (spoken_part s') @ v1)" "open_text v1"
    using strip_prefix_open by blast
  have pre: "prefix (?u s) (?l s)" using clean_cut [of "spoken_part s"] by (auto simp: cut_open_def)
  obtain c where c: "?l s' = ?u s' @ c" "open_text c"
    using clean_cut [of "spoken_part s'"] by (auto simp: cut_open_def)
  from after_lead_prefix [OF m] show thesis
  proof (elim disjE exE conjE)
    assume "open_text (after_lead (strip (spoken_part s)))"
    then have "open_text (?l s)" using open_text_sub [OF set_strip] by blast
    then show thesis using that(1) open_text_sub [OF set_mono_prefix [OF pre]] by blast
  next
    fix v assume "prefix (after_lead (strip (spoken_part s))) (after_lead (strip (spoken_part s')) @ v)" "open_text v"
    then obtain v2 where v2: "prefix (?l s) (?l s' @ v2)" "open_text v2" using strip_prefix_open by blast
    then have "prefix (?u s) (?u s' @ (c @ v2))" using pre c(1) by (simp add: prefix_order.trans [OF pre])
    then show thesis using that(2) c(2) v2(2) by simp
  qed
qed

lemma line_head:
  assumes "strip raw \<noteq> []"
  shows "hd (strip (raw @ x)) = hd (strip raw)" "strip (raw @ x) \<noteq> []"
    "slow_at (strip raw) \<Longrightarrow> slow_at (strip (raw @ x))"
proof -
  obtain w where w: "prefix (strip raw) (strip (raw @ x) @ w)" "list_all is_space w"
    using strip_prefix [of raw "raw @ x" "[]" is_space] by auto
  have h: "\<not> is_space (hd (strip raw))" using strip_ends [of raw] assms lstrip_same by blast
  show n: "strip (raw @ x) \<noteq> []"
  proof
    assume "strip (raw @ x) = []"
    with w have "prefix (strip raw) w" by simp
    with assms w(2) h show False by (cases "strip raw") (auto simp: list_all_iff elim!: prefixE)
  qed
  with w(1) assms show "hd (strip (raw @ x)) = hd (strip raw)"
    by (cases "strip raw"; cases "strip (raw @ x)") auto
  show "slow_at (strip (raw @ x))" if "slow_at (strip raw)"
    using w(1)
  proof (cases rule: prefix_append_cases)
    case (1 y)
    with that ci_at_append show ?thesis by (simp add: slow_at_def)
  next
    case (2 w1)
    then have "list_all is_space w1" using w(2) by (auto simp: list_all_iff)
    with 2 that show ?thesis using ci_at_spaces slow_marker(2) by (simp add: slow_at_def)
  qed
qed

lemma starts_with_at: "starts_with ''@'' s \<longleftrightarrow> s \<noteq> [] \<and> hd s = CHR ''@''"
  by (cases s) (simp_all add: starts_with_def)

lemma clean_Nil: "clean [] = ([], False)"
  by code_simp

lemma sentences_grow: "prefix (butlast (line_sentences quiet raw)) (line_sentences quiet (raw @ x))"
proof (cases "line_sentences quiet raw = [] \<or> strip raw = []")
  case True
  then show ?thesis by (elim disjE) (simp_all add: line_sentences_def clean_Nil Let_def)
next
  case False
  let ?s = "strip raw" and ?t = "strip (raw @ x)" and ?u = "\<lambda>x. fst (clean (spoken_part x))"
  have u: "line_sentences quiet raw = breaks False (?u ?s)" "\<not> starts_with ''@'' (?u ?s)"
    "\<not> (starts_with ''@'' ?s \<and> \<not> slow_at ?s)" "\<not> (quiet \<and> \<not> starts_with ''@'' ?s)"
    using False by (auto simp: line_sentences_def Let_def split: if_splits)
  have "starts_with ''@'' ?t \<longleftrightarrow> starts_with ''@'' ?s"
    using False line_head(1,2) [of raw x] by (simp add: starts_with_at)
  with u(3,4) False line_head(3) [of raw x]
  have t: "line_sentences quiet (raw @ x) = (if starts_with ''@'' (?u ?t) then [] else breaks False (?u ?t))"
    by (auto simp: line_sentences_def Let_def)
  obtain w where w: "prefix ?s (?t @ w)" "list_all is_space w"
    using strip_prefix [of raw "raw @ x" "[]" is_space] by auto
  show ?thesis
  proof (cases rule: spoken_stable [OF w])
    case 1
    then show ?thesis by (simp add: u(1))
  next
    case (2 v)
    show ?thesis
    proof (cases "starts_with ''@'' (?u ?t)")
      case True
      with 2(1) u(2) have "?u ?s = []" by (cases "?u ?s"; cases "?u ?t") (auto simp: starts_with_at)
      then show ?thesis by (simp add: u(1))
    next
      case False
      with 2 show ?thesis using breaks_stable by (simp add: u(1) t)
    qed
  qed
qed

section \<open>Lines\<close>

definition hushed :: "parser \<Rightarrow> bool" where
  "hushed p \<longleftrightarrow> pp_paused p \<and> pp_pause_ends_speech p"

lemma breaks_nonempty:
  "list_all (\<lambda>w. w \<noteq> []) (if b then tl (butlast (breaks b s)) else butlast (breaks b s))"
proof (induction b s rule: breaks.induct)
  case (2 b c cs)
  show ?case
  proof (cases "b \<and> is_space c")
    case True
    then show ?thesis using 2(1) by simp
  next
    case False
    then have e: "breaks b (c # cs) = cons_hd c (breaks (closing_mark c) cs)" by auto
    have "list_all (\<lambda>w. w \<noteq> []) (tl (butlast (breaks (closing_mark c) cs)))"
      using 2(2) [OF False] by (cases "butlast (breaks (closing_mark c) cs)") (auto split: if_splits)
    then show ?thesis unfolding e by (auto simp: butlast_tl)
  qed
qed simp

lemma sentences_nonempty: "list_all (\<lambda>w. w \<noteq> []) (butlast (line_sentences quiet raw))"
  using breaks_nonempty [of False] by (simp add: line_sentences_def Let_def)

lemma butlast_drop_set: "set (butlast (drop n xs)) \<subseteq> set (butlast xs)"
  by (metis butlast_drop set_drop_subset)

lemma nonempty_id: "list_all (\<lambda>w. w \<noteq> []) ws \<Longrightarrow> nonempty ws = ws"
  by (auto simp: nonempty_def list_all_iff)

lemma line_items_partial:
  "line_items p raw False =
     (let ready = butlast (drop (pp_emitted p) (line_sentences (hushed p) raw)) in
      (p\<lparr>pp_emitted := pp_emitted p + length ready\<rparr>, concat (map sentence_items ready)))"
proof -
  have n: "nonempty (butlast (drop n (line_sentences q raw))) = butlast (drop n (line_sentences q raw))" for n q
    using sentences_nonempty [of q raw] butlast_drop_set [of n "line_sentences q raw"]
    by (intro nonempty_id) (auto simp: list_all_iff)
  show ?thesis
    using n [of "pp_emitted p" "hushed p"]
    by (auto simp: line_items_def line_sentences_def hushed_def Let_def spoken_part_def case_prod_unfold)
qed

text \<open>A line that is spoken, when it is final: its sentences, then what follows them.\<close>

definition line_rest :: "lane \<Rightarrow> string \<Rightarrow> turn_item list" where
  "line_rest lane raw =
     (let parts = slow_split (strip raw) in
      (if snd (clean (hd parts)) then [ParseIssue InlineDirective ''@end_call''] else []) @
      concat (map (\<lambda>segment. relay_items lane (strip segment)) (tl parts)))"

lemma line_items_spoken:
  assumes "line_sentences (hushed p) raw \<noteq> []"
  shows "line_items p raw True =
    (p\<lparr>pp_emitted := 0\<rparr>,
     concat (map sentence_items (nonempty (drop (pp_emitted p) (line_sentences (hushed p) raw)))) @ line_rest (pp_lane p) raw)"
proof -
  let ?s = "strip raw" and ?u = "fst (clean (spoken_part (strip raw)))"
  have c: "(starts_with ''@'' ?s \<and> \<not> slow_at ?s) = False" "(hushed p \<and> \<not> starts_with ''@'' ?s) = False"
    "starts_with ''@'' ?u = False" "line_sentences (hushed p) raw = breaks False ?u"
    using assms by (auto simp: line_sentences_def Let_def split: if_splits)
  have c2: "(pp_paused p \<and> pp_pause_ends_speech p \<and> \<not> starts_with ''@'' ?s) = False"
    using c(2) by (simp add: hushed_def)
  show ?thesis
    unfolding c(4) line_items_def Let_def case_prod_unfold spoken_part_def [symmetric] c(1,3) c2 line_rest_def if_False
    by simp
qed

lemma line_items_final:
  assumes "pp_emitted p \<le> length (line_sentences (hushed p) raw)"
    "list_all (\<lambda>w. w \<noteq> []) (take (pp_emitted p) (line_sentences (hushed p) raw))"
  shows "line_items (p\<lparr>pp_emitted := 0\<rparr>) raw True =
     (fst (line_items p raw True),
      concat (map sentence_items (take (pp_emitted p) (line_sentences (hushed p) raw))) @ snd (line_items p raw True))"
proof (cases "line_sentences (hushed p) raw = []")
  case True
  with assms have "p\<lparr>pp_emitted := 0\<rparr> = p" by simp
  with True show ?thesis by simp
next
  case False
  let ?n = "pp_emitted p" and ?S = "line_sentences (hushed p) raw"
  have "nonempty ?S = nonempty (take ?n ?S) @ nonempty (drop ?n ?S)"
    unfolding nonempty_def filter_append [symmetric] by simp
  then have "nonempty ?S = take ?n ?S @ nonempty (drop ?n ?S)"
    using nonempty_id [OF assms(2)] by simp
  moreover have "hushed (p\<lparr>pp_emitted := 0\<rparr>) = hushed p" by (simp add: hushed_def)
  ultimately show ?thesis using False by (simp add: line_items_spoken)
qed

text \<open>A line reads and writes neither the buffer nor what was seen so far.\<close>

lemma pause_item_frame:
  "pause_item (p\<lparr>pp_buf := b, pp_any := a\<rparr>) item s = (let (q, xs) = pause_item p item s in (q\<lparr>pp_buf := b, pp_any := a\<rparr>, xs))"
  by (simp add: pause_item_def)

lemma directive_frame:
  "directive (p\<lparr>pp_buf := b, pp_any := a\<rparr>) s = (let (q, xs) = directive p s in (q\<lparr>pp_buf := b, pp_any := a\<rparr>, xs))"
  by (simp add: directive_def Let_def pause_item_frame case_prod_unfold split: option.split)

lemma line_items_frame:
  "line_items (p\<lparr>pp_buf := b, pp_any := a\<rparr>) raw final =
     (let (q, xs) = line_items p raw final in (q\<lparr>pp_buf := b, pp_any := a\<rparr>, xs))"
  by (cases final) (simp_all add: line_items_def directive_frame Let_def case_prod_unfold)

lemma line_list_frame:
  "line_list (p\<lparr>pp_buf := b, pp_any := a\<rparr>) ls = (let (q, xs) = line_list p ls in (q\<lparr>pp_buf := b, pp_any := a\<rparr>, xs))"
  by (induction ls arbitrary: p) (simp_all add: line_items_frame Let_def case_prod_unfold)

lemma pause_item_kept:
  "pp_closed (fst (pause_item p item s)) = pp_closed p" "pp_buf (fst (pause_item p item s)) = pp_buf p"
  "pp_any (fst (pause_item p item s)) = pp_any p" "pp_emitted (fst (pause_item p item s)) = pp_emitted p"
  by (simp_all add: pause_item_def)

lemma directive_kept:
  "pp_closed (fst (directive p s)) = pp_closed p" "pp_buf (fst (directive p s)) = pp_buf p"
  "pp_any (fst (directive p s)) = pp_any p" "pp_emitted (fst (directive p s)) = pp_emitted p"
  by (simp_all add: directive_def Let_def pause_item_kept split: option.split)

lemma line_items_kept:
  "pp_closed (fst (line_items p raw final)) = pp_closed p" "pp_buf (fst (line_items p raw final)) = pp_buf p"
  "pp_any (fst (line_items p raw final)) = pp_any p"
  "pp_emitted p = 0 \<Longrightarrow> pp_emitted (fst (line_items p raw True)) = 0"
  by (simp_all add: line_items_def directive_kept Let_def case_prod_unfold)

lemma line_list_kept:
  "pp_closed (fst (line_list p ls)) = pp_closed p" "pp_buf (fst (line_list p ls)) = pp_buf p"
  "pp_any (fst (line_list p ls)) = pp_any p"
  "pp_emitted p = 0 \<Longrightarrow> pp_emitted (fst (line_list p ls)) = 0"
  by (induction ls arbitrary: p) (simp_all add: line_items_kept Let_def case_prod_unfold)

lemma line_list_append:
  "line_list p (ks @ ls) = (let (q, xs) = line_list p ks; (r, ys) = line_list q ls in (r, xs @ ys))"
  by (induction ks arbitrary: p) (simp_all add: Let_def case_prod_unfold)

section \<open>Streams\<close>

abbreviation lines_of :: "string \<Rightarrow> string list" where
  "lines_of \<equiv> split_on (CHR 0x0A)"

lemma lines_of_not_Nil [simp]: "split_on c s \<noteq> []"
  by (induction s) (auto split: list.split)

lemma split_on_append:
  "split_on c (s @ t) = butlast (split_on c s) @ split_on c (last (split_on c s) @ t)"
proof (induction s)
  case (Cons x s)
  show ?case
  proof (cases "x = c")
    case True
    with Cons show ?thesis by simp
  next
    case False
    obtain w ws where w: "split_on c s = w # ws" by (cases "split_on c s") auto
    with False Cons show ?thesis by (cases ws) auto
  qed
qed simp

lemma split_on_hd: "c \<notin> set s \<Longrightarrow> \<exists>u. hd (split_on c (s @ t)) = s @ u"
  by (induction s) (auto split: list.split)

lemma split_on_single: "length (split_on c s) = 1 \<Longrightarrow> split_on c s = [s]"
  by (induction s) (auto split: list.splits if_splits)

lemma split_on_pieces: "w \<in> set (split_on c s) \<Longrightarrow> c \<notin> set w"
proof (induction s arbitrary: w)
  case (Cons x s)
  then show ?case by (cases "split_on c s") (auto split: if_splits)
qed simp

text \<open>How many sentences of a line were emitted: they stay its first sentences, however it goes on.\<close>

definition shown :: "bool \<Rightarrow> string \<Rightarrow> nat \<Rightarrow> bool" where
  "shown q raw n \<longleftrightarrow>
     list_all (\<lambda>w. w \<noteq> []) (take n (line_sentences q raw)) \<and>
     (\<forall>x. n \<le> length (line_sentences q (raw @ x)) \<and>
          take n (line_sentences q (raw @ x)) = take n (line_sentences q raw))"

lemma shown_0 [simp]: "shown q raw 0"
  by (simp add: shown_def)

lemma shown_grow: "shown q raw n \<Longrightarrow> shown q (raw @ x) n"
  unfolding shown_def by (metis append_assoc)

lemma shown_le: "shown q raw n \<Longrightarrow> n \<le> length (line_sentences q raw)"
  unfolding shown_def by (metis append_Nil2)

lemma shown_butlast: "shown q raw (length (butlast (line_sentences q raw)))"
proof -
  let ?S = "line_sentences q raw"
  have "length (butlast ?S) \<le> length (line_sentences q (raw @ x)) \<and>
      take (length (butlast ?S)) (line_sentences q (raw @ x)) = butlast ?S" for x
    using sentences_grow [of q raw x] by (auto elim!: prefixE)
  then show ?thesis using sentences_nonempty [of q raw]
    unfolding shown_def by (metis append_Nil2)
qed

lemma shown_step:
  assumes "shown q raw n"
  shows "shown q raw (n + length (butlast (drop n (line_sentences q raw))))"
    "take (n + length (butlast (drop n (line_sentences q raw)))) (line_sentences q raw) =
       take n (line_sentences q raw) @ butlast (drop n (line_sentences q raw))"
proof -
  let ?S = "line_sentences q raw"
  show "shown q raw (n + length (butlast (drop n ?S)))"
  proof (cases "drop n ?S = []")
    case True
    with assms show ?thesis by simp
  next
    case False
    then have "n + length (butlast (drop n ?S)) = length (butlast ?S)" by simp
    then show ?thesis using shown_butlast by metis
  qed
  show "take (n + length (butlast (drop n ?S))) ?S = take n ?S @ butlast (drop n ?S)"
    by (metis take_add butlast_conv_take diff_le_self length_butlast take_take append_take_drop_id min_def)
qed

text \<open>
  The parser after the text \<open>s\<close> was fed, in any chunks: its full lines were parsed, and of the last
  one the first \<open>n\<close> sentences.
\<close>

definition speaks :: "turn_item list \<Rightarrow> bool" where
  "speaks xs \<longleftrightarrow> list_ex (\<lambda>i. \<not> is_issue i) xs"

definition fed :: "parser \<Rightarrow> string \<Rightarrow> parser \<Rightarrow> turn_item list \<Rightarrow> bool" where
  "fed p0 s r xs \<longleftrightarrow>
     (\<exists>n. let (q, ys) = line_list p0 (butlast (lines_of s)); raw = last (lines_of s) in
       shown (hushed q) raw n \<and>
       r = q\<lparr>pp_emitted := n, pp_buf := raw, pp_any := speaks xs\<rparr> \<and>
       xs = ys @ concat (map sentence_items (take n (line_sentences (hushed q) raw))))"

lemma fedE:
  assumes "fed p0 s r xs"
  obtains q ys n where "line_list p0 (butlast (lines_of s)) = (q, ys)" "shown (hushed q) (last (lines_of s)) n"
    "r = q\<lparr>pp_emitted := n, pp_buf := last (lines_of s), pp_any := speaks xs\<rparr>"
    "xs = ys @ concat (map sentence_items (take n (line_sentences (hushed q) (last (lines_of s)))))"
proof (cases "line_list p0 (butlast (lines_of s))")
  case (Pair q ys)
  with assms that show thesis by (simp only: fed_def Let_def prod.case) blast
qed

definition fresh_parser :: "parser \<Rightarrow> bool" where
  "fresh_parser p \<longleftrightarrow> pp_buf p = [] \<and> pp_emitted p = 0 \<and> \<not> pp_any p \<and> \<not> pp_closed p"

lemma fed_nothing: "fresh_parser p \<Longrightarrow> fed p [] p []"
  by (simp add: fed_def fresh_parser_def speaks_def exI [of _ 0])

text \<open>The last line of a feed, not final: more of its sentences may come out.\<close>

lemma partial_line:
  assumes "shown (hushed q) raw n"
  shows "\<exists>m. shown (hushed q) raw m \<and>
    line_items (q\<lparr>pp_emitted := n\<rparr>) raw False =
      (q\<lparr>pp_emitted := m\<rparr>, concat (map sentence_items (drop n (take m (line_sentences (hushed q) raw))))) \<and>
    take n (line_sentences (hushed q) raw) @ drop n (take m (line_sentences (hushed q) raw)) =
      take m (line_sentences (hushed q) raw)"
proof -
  let ?S = "line_sentences (hushed q) raw"
  let ?k = "butlast (drop n ?S)"
  note st = shown_step [OF assms]
  have d: "drop n (take (n + length ?k) ?S) = ?k" using st(2) shown_le [OF assms] by simp
  have "hushed (q\<lparr>pp_emitted := n\<rparr>) = hushed q" by (simp add: hushed_def)
  then have "line_items (q\<lparr>pp_emitted := n\<rparr>) raw False = (q\<lparr>pp_emitted := n + length ?k\<rparr>, concat (map sentence_items ?k))"
    by (simp add: line_items_partial Let_def)
  then show ?thesis using st d by (intro exI [of _ "n + length ?k"]) (simp only: conj_absorb simp_thms)
qed

text \<open>The full lines of a feed: the sentences already out are the ones missing from the first.\<close>

lemma full_lines:
  fixes c :: string
  assumes "shown (hushed q) raw n" "pp_emitted q = 0" "CHR 0x0A \<notin> set raw"
  defines "ps \<equiv> lines_of (raw @ c)"
  shows "\<exists>q2 z z' m. line_list (q\<lparr>pp_emitted := n\<rparr>) (butlast ps) = (q2\<lparr>pp_emitted := m\<rparr>, z) \<and>
    line_list q (butlast ps) = (q2, z') \<and> shown (hushed q2) (last ps) m \<and>
    concat (map sentence_items (take n (line_sentences (hushed q) raw))) @ z =
      z' @ concat (map sentence_items (take m (line_sentences (hushed q2) (last ps))))"
proof (cases "butlast ps")
  case Nil
  then have "length ps = 1" unfolding ps_def by (metis lines_of_not_Nil append_butlast_last_id append_Nil length_Cons list.size(3) One_nat_def)
  then have "last ps = raw @ c" using split_on_single unfolding ps_def by (metis last_ConsL)
  moreover have "take n (line_sentences (hushed q) (raw @ c)) = take n (line_sentences (hushed q) raw)"
    using assms(1) by (simp add: shown_def)
  ultimately show ?thesis using Nil shown_grow [OF assms(1), of c]
    by (intro exI [of _ q] exI [of _ "[]"] exI [of _ n]) simp
next
  case (Cons l ls)
  have "hd ps = l" using Cons by (metis append_butlast_last_id hd_append list.distinct(1) list.sel(1) butlast.simps(1))
  then obtain u where l: "l = raw @ u" using split_on_hd [OF assms(3), of c] unfolding ps_def by metis
  have sh: "shown (hushed q) l n" using shown_grow [OF assms(1)] l by simp
  have k: "take n (line_sentences (hushed q) l) = take n (line_sentences (hushed q) raw)"
    using assms(1) l by (simp add: shown_def)
  let ?q = "q\<lparr>pp_emitted := n\<rparr>"
  have h: "hushed ?q = hushed q" and e: "?q\<lparr>pp_emitted := 0\<rparr> = q" using assms(2) by (simp_all add: hushed_def)
  have f: "line_items q l True = (fst (line_items ?q l True),
      concat (map sentence_items (take n (line_sentences (hushed q) raw))) @ snd (line_items ?q l True))"
    using line_items_final [of ?q l] sh shown_le [OF sh] k by (simp add: h e) (simp add: shown_def)
  let ?r = "fst (line_items ?q l True)"
  have "pp_emitted ?r = 0" using line_items_kept(4) [OF assms(2), of l] f by simp
  then have "pp_emitted (fst (line_list ?r ls)) = 0" by (rule line_list_kept)
  then have "fst (line_list ?r ls) = (fst (line_list ?r ls))\<lparr>pp_emitted := 0\<rparr>" by simp
  with f Cons show ?thesis
    by (intro exI [of _ "fst (line_list ?r ls)"] exI [of _ 0] exI) (simp add: Let_def case_prod_unfold)
qed

lemma speaks_append [simp]: "speaks (xs @ ys) \<longleftrightarrow> speaks xs \<or> speaks ys"
  by (simp add: speaks_def)

lemma fed_step:
  assumes "fresh_parser p0" "fed p0 s r xs"
  shows "\<exists>r' ys. feed r c = Inr (r', ys) \<and> fed p0 (s @ c) r' (xs @ ys)"
proof -
  let ?raw = "last (lines_of s)"
  obtain q ys0 n where q: "line_list p0 (butlast (lines_of s)) = (q, ys0)" "shown (hushed q) ?raw n"
    "r = q\<lparr>pp_emitted := n, pp_buf := ?raw, pp_any := speaks xs\<rparr>"
    "xs = ys0 @ concat (map sentence_items (take n (line_sentences (hushed q) ?raw)))"
    using assms(2) by (rule fedE)
  have q0: "pp_emitted q = 0" "\<not> pp_closed q"
    using line_list_kept [of p0 "butlast (lines_of s)"] assms(1) by (simp_all add: q(1) fresh_parser_def)
  define ps where "ps = lines_of (?raw @ c)"
  have "CHR 0x0A \<notin> set ?raw" using split_on_pieces [OF last_in_set] by simp
  from full_lines [OF q(2) q0(1) this, of c, folded ps_def]
  obtain q2 z z' m where l: "line_list (q\<lparr>pp_emitted := n\<rparr>) (butlast ps) = (q2\<lparr>pp_emitted := m\<rparr>, z)"
    "line_list q (butlast ps) = (q2, z')" "shown (hushed q2) (last ps) m"
    "concat (map sentence_items (take n (line_sentences (hushed q) ?raw))) @ z =
      z' @ concat (map sentence_items (take m (line_sentences (hushed q2) (last ps))))"
    by blast
  let ?S = "line_sentences (hushed q2) (last ps)"
  obtain k where k: "shown (hushed q2) (last ps) k"
    "line_items (q2\<lparr>pp_emitted := m\<rparr>) (last ps) False = (q2\<lparr>pp_emitted := k\<rparr>, concat (map sentence_items (drop m (take k ?S))))"
    "take m ?S @ drop m (take k ?S) = take k ?S"
    using partial_line [OF l(3)] by blast
  let ?ys = "z @ concat (map sentence_items (drop m (take k ?S)))"
  let ?r = "q2\<lparr>pp_emitted := k, pp_buf := last ps, pp_any := speaks (xs @ ?ys)\<rparr>"
  have rb: "r\<lparr>pp_buf := last ps\<rparr> = q\<lparr>pp_emitted := n, pp_buf := last ps, pp_any := speaks xs\<rparr>"
    by (cases q) (simp add: q(3))
  have "line_list (r\<lparr>pp_buf := last ps\<rparr>) (butlast ps) = (q2\<lparr>pp_emitted := m, pp_buf := last ps, pp_any := speaks xs\<rparr>, z)"
    using line_list_frame [where p = "q\<lparr>pp_emitted := n\<rparr>" and b = "last ps" and a = "speaks xs" and ls = "butlast ps"] l(1)
    by (simp add: rb)
  moreover have "line_items (q2\<lparr>pp_emitted := m, pp_buf := last ps, pp_any := speaks xs\<rparr>) (last ps) False =
      (q2\<lparr>pp_emitted := k, pp_buf := last ps, pp_any := speaks xs\<rparr>, concat (map sentence_items (drop m (take k ?S))))"
    using line_items_frame [where p = "q2\<lparr>pp_emitted := m\<rparr>" and b = "last ps" and a = "speaks xs" and raw = "last ps" and final = False] k(2) by simp
  ultimately have "feed r c = Inr (?r, ?ys)"
    using q0(2) by (simp add: feed_def q(3) ps_def [symmetric] Let_def seen_items_def speaks_def)
  moreover have "fed p0 (s @ c) ?r (xs @ ?ys)"
  proof -
    have ls: "lines_of (s @ c) = butlast (lines_of s) @ ps" unfolding ps_def by (rule split_on_append)
    have "ps \<noteq> []" by (simp add: ps_def)
    then have b: "butlast (lines_of (s @ c)) = butlast (lines_of s) @ butlast ps" "last (lines_of (s @ c)) = last ps"
      by (simp_all add: ls butlast_append)
    have "line_list p0 (butlast (lines_of (s @ c))) = (q2, ys0 @ z')"
      by (simp add: b line_list_append q(1) l(2))
    moreover have "concat (map sentence_items (take k ?S)) =
        concat (map sentence_items (take m ?S)) @ concat (map sentence_items (drop m (take k ?S)))"
      using k(3) by (metis concat_append map_append)
    then have "xs @ ?ys = (ys0 @ z') @ concat (map sentence_items (take k ?S))"
      using l(4) by (simp add: q(4))
    ultimately show ?thesis using k(1) b(2) by (auto simp: fed_def intro: exI [of _ k])
  qed
  ultimately show ?thesis by blast
qed

definition whole_turn :: "parser \<Rightarrow> string \<Rightarrow> turn_item list" where
  "whole_turn p s = (let xs = snd (line_list p (lines_of s)) in if speaks xs then xs else xs @ [ParseIssue EmptyTurn []])"

lemma fed_close:
  assumes "fresh_parser p0" "fed p0 s r xs"
  shows "xs @ snd (close_parser r) = whole_turn p0 s"
proof -
  let ?raw = "last (lines_of s)"
  obtain q ys0 n where q: "line_list p0 (butlast (lines_of s)) = (q, ys0)" "shown (hushed q) ?raw n"
    "r = q\<lparr>pp_emitted := n, pp_buf := ?raw, pp_any := speaks xs\<rparr>"
    "xs = ys0 @ concat (map sentence_items (take n (line_sentences (hushed q) ?raw)))"
    using assms(2) by (rule fedE)
  have e: "q\<lparr>pp_emitted := 0\<rparr> = q"
    using line_list_kept(4) [of p0 "butlast (lines_of s)"] assms(1) by (simp add: q(1) fresh_parser_def)
  let ?q = "q\<lparr>pp_emitted := n\<rparr>"
  have h: "hushed ?q = hushed q" by (simp add: hushed_def)
  have f: "line_items q ?raw True = (fst (line_items ?q ?raw True),
      concat (map sentence_items (take n (line_sentences (hushed q) ?raw))) @ snd (line_items ?q ?raw True))"
    using line_items_final [of ?q ?raw] q(2) shown_le [OF q(2)] by (simp add: h e shown_def)
  have "line_list p0 (lines_of s) = line_list p0 (butlast (lines_of s) @ [?raw])" by simp
  then have w: "snd (line_list p0 (lines_of s)) = xs @ snd (line_items ?q ?raw True)"
    unfolding line_list_append by (simp add: q(1) f) (simp add: q(4))
  obtain r1 where r1: "line_items r ?raw True = (r1, snd (line_items ?q ?raw True))" "pp_any r1 = speaks xs"
    using line_items_frame [where p = ?q and b = ?raw and a = "speaks xs" and raw = ?raw and final = True]
    by (simp add: q(3) case_prod_unfold Let_def)
  have "pp_buf r = ?raw" by (simp add: q(3))
  with r1 have "snd (close_parser r) = (let items = snd (line_items ?q ?raw True) in
      if speaks xs \<or> speaks items then items else items @ [ParseIssue EmptyTurn []])"
    by (simp add: close_parser_def seen_items_def speaks_def Let_def)
  then show ?thesis by (simp add: whole_turn_def w Let_def)
qed

lemma feed_all_fed:
  assumes "fresh_parser p0" "fed p0 s r xs"
  shows "\<exists>r' ys. feed_all r cs = Inr (r', ys) \<and> fed p0 (s @ concat cs) r' (xs @ ys)"
  using assms(2)
proof (induction cs arbitrary: s r xs)
  case (Cons c cs)
  obtain r1 y1 where 1: "feed r c = Inr (r1, y1)" "fed p0 (s @ c) r1 (xs @ y1)"
    using fed_step [OF assms(1) Cons(2)] by blast
  obtain r2 y2 where 2: "feed_all r1 cs = Inr (r2, y2)" "fed p0 (s @ concat (c # cs)) r2 (xs @ y1 @ y2)"
    using Cons(1) [OF 1(2)] by auto
  show ?case using 1(1) 2 by (intro exI [of _ r2] exI [of _ "y1 @ y2"]) simp
qed simp

lemma new_parser_fresh: "new_parser profiles lane name = Inr p \<Longrightarrow> fresh_parser p"
  by (auto simp: new_parser_def fresh_parser_def Let_def split: option.splits if_splits)

lemma stream_whole:
  "stream_turn profiles chunks lane name =
     and_then (new_parser profiles lane name) (\<lambda>p. Inr (whole_turn p (concat chunks)))"
proof (cases "new_parser profiles lane name")
  case (Inr p)
  note fresh = new_parser_fresh [OF Inr]
  obtain r ys where r: "feed_all p chunks = Inr (r, ys)" "fed p (concat chunks) r ys"
    using feed_all_fed [OF fresh fed_nothing [OF fresh], of chunks] by (simp only: append_Nil) blast
  with fed_close [OF fresh r(2)] Inr show ?thesis by (simp add: stream_turn_def)
qed (simp add: stream_turn_def)

lemma parse_stream: "parse_turn profiles s lane name = stream_turn profiles [s] lane name"
  by (cases "new_parser profiles lane name") (auto simp: parse_turn_def stream_turn_def and_then_def split: sum.split)

lemma parse_whole:
  "parse_turn profiles s lane name = and_then (new_parser profiles lane name) (\<lambda>p. Inr (whole_turn p s))"
  by (simp add: parse_stream stream_whole)

text \<open>
  C12. Streaming parses as batch: in whatever chunks the text of a turn arrives, the items that come
  out while it streams and when it is closed are, in order, those of parsing the whole text at once,
  in each lane and under each profile's grammar; and no chunk is refused before the close.
\<close>

theorem streaming_is_batch:
  "stream_turn profiles chunks lane name = parse_turn profiles (concat chunks) lane name"
  by (simp add: parse_whole stream_whole)

end
