(* ===== verification/Grammar_Roundtrip.thy ===== *)
theory Grammar_Roundtrip
  imports Grammar_Stream
begin

text \<open>
  The canonical text of a turn parses back. What the parser keeps of any text (its items without
  the counted issues) has a canonical text, and that text parses to the same items.
\<close>

section \<open>Markers in joined texts\<close>

fun has_slow :: "string \<Rightarrow> bool" where
  "has_slow [] = False"
| "has_slow (c # cs) = (slow_at (c # cs) \<or> has_slow cs)"

lemma slow_split_one: "length (slow_split s) = Suc 0 \<longleftrightarrow> \<not> has_slow s"
  by (induction s rule: slow_split.induct) simp_all

lemma slow_split_none: "\<not> has_slow s \<Longrightarrow> slow_split s = [s]"
  by (induction s) simp_all

lemma has_slow_append: "has_slow t \<Longrightarrow> has_slow (s @ t)"
  by (induction s) simp_all

lemma has_slow_prefix: "has_slow s \<Longrightarrow> has_slow (s @ t)"
proof (induction s)
  case (Cons c s)
  then show ?case using ci_at_append [of "''@slow:''" "c # s" t] by (auto simp: slow_at_def)
qed simp

lemma has_slow_sublist: "sublist s t \<Longrightarrow> has_slow s \<Longrightarrow> has_slow t"
  by (auto simp: sublist_def intro: has_slow_append has_slow_prefix)

text \<open>A separator that is no character of the marker keeps the two sides apart.\<close>

lemma has_slow_split:
  assumes "has_slow (s @ c # t)" "lower_char c \<notin> set ''@slow:''"
  shows "has_slow s \<or> has_slow t"
  using assms(1)
proof (induction s)
  case Nil
  with assms(2) show ?case by (auto simp: slow_at_def ci_at_def)
next
  case (Cons d s)
  show ?case
  proof (cases "slow_at ((d # s) @ c # t)")
    case True
    have "ci_at ''@slow:'' (d # s)"
    proof (rule ccontr)
      assume no: "\<not> ci_at ''@slow:'' (d # s)"
      note part = ci_at_partial [OF True [unfolded slow_at_def] no]
      let ?n = "length (d # s)"
      have "map lower_char (take (length ''@slow:'') ((d # s) @ c # t)) = ''@slow:''"
        using True by (simp add: slow_at_def ci_at_def eval_nat_numeral)
      moreover have "lower_char c \<in> set (map lower_char (take (length ''@slow:'') ((d # s) @ c # t)))"
        using part(2) by (auto simp: take_Cons' split: if_splits)
      ultimately show False using assms(2) by metis
    qed
    then show ?thesis by (simp add: slow_at_def)
  next
    case False
    with Cons show ?thesis by auto
  qed
qed

lemma has_slow_plain: "CHR ''@'' \<notin> set s \<Longrightarrow> has_slow (s @ t) \<Longrightarrow> has_slow t"
proof (induction s)
  case (Cons c s)
  have "lower_char c = CHR ''@'' \<Longrightarrow> c = CHR ''@''"
    using lower_char_code [of c] of_char_eq_iff [where 'a = nat, of c "CHR ''@''"] by (auto split: if_splits)
  with Cons show ?case by (auto simp: slow_at_def ci_at_def)
qed simp

section \<open>Sentences\<close>

lemma breaks_fixed:
  "breaks b (hd (breaks b s)) = [hd (breaks b s)] \<and> list_all (\<lambda>w. breaks False w = [w]) (tl (breaks b s))"
proof (induction b s rule: breaks.induct)
  case (2 b c cs)
  show ?case
  proof (cases "b \<and> is_space c")
    case True
    then show ?thesis using 2(1) by (cases "breaks False (lstrip cs)") simp_all
  next
    case False
    then show ?thesis using 2(2) [OF False] by auto
  qed
qed simp

lemma breaks_member: "w \<in> set (breaks False s) \<Longrightarrow> breaks False w = [w]"
  using breaks_fixed [of False s] by (cases "breaks False s") (auto simp: list_all_iff)

lemma strip_same: "strip s = s \<longleftrightarrow> s = [] \<or> \<not> is_space (hd s) \<and> \<not> is_space (last s)"
proof
  assume a: "strip s = s"
  have "rstrip s = s" by (metis a strip_def' strip_ends)
  then have "lstrip (rev s) = rev s" unfolding rstrip_def lstrip_def by (metis rev_rev_ident)
  then have "s = [] \<or> \<not> is_space (last s)" by (auto simp: lstrip_same hd_rev)
  with strip_ends [of s] a show "s = [] \<or> \<not> is_space (hd s) \<and> \<not> is_space (last s)"
    by (auto simp: lstrip_same)
next
  assume a: "s = [] \<or> \<not> is_space (hd s) \<and> \<not> is_space (last s)"
  then have "lstrip s = s" "lstrip (rev s) = rev s" by (auto simp: lstrip_same hd_rev)
  then show "strip s = s" by (simp add: strip_def' rstrip_def lstrip_def)
qed

lemma rstrip_same: "rstrip s = s \<longleftrightarrow> s = [] \<or> \<not> is_space (last s)"
proof -
  have "rstrip s = s \<longleftrightarrow> lstrip (rev s) = rev s" unfolding rstrip_def lstrip_def by (metis rev_rev_ident)
  then show ?thesis by (auto simp: lstrip_same hd_rev)
qed

lemma speakable_iff:
  "speakable s \<longleftrightarrow> s \<noteq> [] \<and> hd s \<noteq> CHR ''@'' \<and> CHR 0x0A \<notin> set s \<and> strip s = s \<and> \<not> has_slow s \<and>
     lead_rest s = None \<and> trail_end s = None \<and> trail_scaffold s = None"
  by (auto simp: speakable_def starts_with_at slow_split_one)

lemma clean_speakable: "speakable s \<Longrightarrow> clean s = (s, False)"
  by (simp add: speakable_iff clean_def Let_def)

section \<open>Joined sentences\<close>

text \<open>A word without spaces at the end of a joined text is at the end of its last part.\<close>

lemma cut_last_joined:
  assumes "cut_last p (u @ c # s) = Some r" "is_space c" "list_all (\<lambda>c. \<not> is_space c) p"
  shows "length p \<le> length s" "cut_last p s = Some (drop (Suc (length u)) r)" "r = u @ c # drop (Suc (length u)) r"
proof -
  let ?t = "u @ c # s" and ?n = "length (u @ c # s) - length p"
  have r: "r = take ?n ?t" and m: "ci_at p (drop ?n ?t)"
    using assms(1) by (auto simp: cut_last_def Let_def split: if_splits)
  show l: "length p \<le> length s"
  proof (rule ccontr)
    assume "\<not> length p \<le> length s"
    then have n: "?n \<le> length u" by simp
    have "length p \<le> length (drop ?n ?t)" using ci_at_length [OF m] .
    then have "map lower_char (drop ?n ?t) = p" using m by (simp add: ci_at_def)
    moreover have "c \<in> set (drop ?n ?t)" using n by simp
    ultimately have "lower_char c \<in> set p" by (metis image_eqI list.set_map)
    with assms(2,3) show False using lower_char_class(2) by (auto simp: list_all_iff)
  qed
  then have n: "?n = Suc (length u) + (length s - length p)" by simp
  show "r = u @ c # drop (Suc (length u)) r" unfolding r n by simp
  show "cut_last p s = Some (drop (Suc (length u)) r)"
    using m unfolding r n by (simp add: cut_last_def)
qed

lemma cut_word_joined:
  assumes "cut_word p (u @ c # s) = Some r" "is_space c" "list_all (\<lambda>c. \<not> is_space c) p"
  shows "cut_word p s \<noteq> None"
proof -
  from assms(1) have r: "cut_last p (u @ c # s) = Some r" "at_boundary r"
    by (auto simp: cut_word_def split: option.splits if_splits)
  note j = cut_last_joined [OF r(1) assms(2,3)]
  have "at_boundary (drop (Suc (length u)) r)"
    using r(2) j(3) unfolding at_boundary_def by (metis append_is_Nil_conv last_ConsR last_appendR list.distinct(1))
  with j(2) show ?thesis by (simp add: cut_word_def)
qed

lemma rstrip_snoc: "\<not> is_space (last t) \<Longrightarrow> t \<noteq> [] \<Longrightarrow> rstrip (s @ t) = s @ t"
  by (simp add: rstrip_same)

lemma rstrip_append: "rstrip (s @ t) = (if list_all is_space t then rstrip s else s @ rstrip t)"
proof (cases "list_all is_space t")
  case True
  then have "lstrip (rev t @ rev s) = lstrip (rev s)"
    by (subst lstrip_append) (simp add: lstrip_eq_Nil list_all_iff)
  with True show ?thesis by (simp add: rstrip_def lstrip_def)
next
  case False
  then have "lstrip (rev t) \<noteq> []" by (simp add: lstrip_eq_Nil list_all_iff)
  then have "lstrip (rev t @ rev s) = lstrip (rev t) @ rev s" by (simp add: lstrip_append)
  with False show ?thesis by (simp add: rstrip_def lstrip_def)
qed

lemma word_spaces: "list_all (\<lambda>c. \<not> is_space c) ''@end_call''" "list_all (\<lambda>c. \<not> is_space c) ''then''"
  "list_all (\<lambda>c. \<not> is_space c) ''first''" "list_all (\<lambda>c. \<not> is_space c) '':''" "is_space (CHR '' '')"
  by (simp_all add: is_space_def)

lemma trail_end_joined:
  assumes "trail_end (u @ CHR '' '' # s) = Some r" "s \<noteq> []" "strip s = s"
  shows "trail_end s \<noteq> None"
proof -
  have "\<not> is_space (last s)" using assms(2,3) by (simp add: strip_same)
  then have "rstrip (u @ CHR '' '' # s) = u @ CHR '' '' # s" "rstrip s = s"
    using assms(2) by (simp_all add: rstrip_same)
  with assms(1) cut_last_joined(2) [OF _ word_spaces(5,1)] show ?thesis by (auto simp: trail_end_def)
qed

lemma cut_colon:
  assumes "cut_last '':'' (rstrip s) = Some t"
  shows "rstrip s = t @ ['':'' ! 0]"
proof -
  let ?s = "rstrip s"
  have t: "t = take (length ?s - 1) ?s" and m: "ci_at '':'' (drop (length ?s - 1) ?s)"
    using assms by (auto simp: cut_last_def Let_def split: if_splits)
  then have "length (drop (length ?s - 1) ?s) = 1" using ci_at_length [OF m] by simp
  then obtain c where c: "drop (length ?s - 1) ?s = [c]" by (metis One_nat_def length_0_conv length_Suc_conv)
  with m have "lower_char c = CHR '':''" by (simp add: ci_at_def)
  then have "c = CHR '':''"
    using lower_char_code [of c] of_char_eq_iff [where 'a = nat, of c "CHR '':''"] by (auto split: if_splits)
  with c t show ?thesis by (metis append_take_drop_id nth_Cons_0)
qed

lemma trail_scaffold_joined:
  assumes "trail_scaffold (u @ CHR '' '' # s) = Some r" "s \<noteq> []" "strip s = s" "closing_mark (last u)" "u \<noteq> []"
  shows "trail_scaffold s \<noteq> None"
proof -
  let ?t = "u @ CHR '' '' # s"
  have "\<not> is_space (last s)" using assms(2,3) by (simp add: strip_same)
  then have rs: "rstrip ?t = ?t" "rstrip s = s" using assms(2) by (simp_all add: rstrip_same)
  obtain v where v: "cut_last '':'' ?t = Some v"
    using assms(1) rs by (auto simp: trail_scaffold_def split: option.splits)
  note j = cut_last_joined(2,3) [OF v word_spaces(5,4)]
  let ?s = "drop (Suc (length u)) v"
  have w: "cut_word ''then'' (rstrip v) \<noteq> None \<or> cut_word ''first'' (rstrip v) \<noteq> None"
    using assms(1) rs v by (auto simp: trail_scaffold_def split: option.splits)
  show ?thesis
  proof (cases "list_all is_space ?s")
    case True
    have "\<not> is_space (last u)" using assms(4) space_open [of "[last u]"] by auto
    then have "rstrip u = u" by (simp add: rstrip_same)
    moreover have "list_all is_space (CHR '' '' # ?s)" using True word_spaces(5) by simp
    then have "rstrip v = rstrip u" using j(2) rstrip_append by metis
    ultimately have v: "rstrip v = u" by simp
    have "cut_word p u = None" if "list_all (\<lambda>c. \<not> closing_mark c) p" "p \<noteq> []" for p
    proof (rule ccontr)
      assume "cut_word p u \<noteq> None"
      then obtain q where q: "cut_last p u = Some q" by (auto simp: cut_word_def split: option.splits)
      then have "open_text (drop (length q) u)"
        using cut_last_open [OF q that(1)] by (auto simp: cut_open_def)
      moreover have "length q < length u"
        using q that(2) assms(5) by (auto simp: cut_last_def Let_def split: if_splits)
      then have "last u \<in> set (drop (length q) u)" by (metis drop_eq_Nil last_drop last_in_set linorder_not_le)
      ultimately show False using assms(4) by (auto simp: open_text_def list_all_iff)
    qed
    from this [of "''then''"] this [of "''first''"] w show ?thesis by (simp add: v closing_mark_def)
  next
    case False
    then have "rstrip v = u @ CHR '' '' # rstrip ?s"
      using j(2) rstrip_append [of "u @ ['' '' ! 0]" ?s] by simp
    with w cut_word_joined [OF _ word_spaces(5,2)] cut_word_joined [OF _ word_spaces(5,3)]
    have "cut_word ''then'' (rstrip ?s) \<noteq> None \<or> cut_word ''first'' (rstrip ?s) \<noteq> None" by fastforce
    then show ?thesis using j(1) rs(2) by (auto simp: trail_scaffold_def split: option.split)
  qed
qed

lemma breaks_joined:
  assumes "closing_mark (last u)" "u \<noteq> []" "s \<noteq> []" "\<not> is_space (hd s)"
  shows "breaks b (u @ CHR '' '' # s) = breaks b u @ breaks False s"
  using assms(1,2)
proof (induction b u rule: breaks.induct)
  case (2 b c cs)
  show ?case
  proof (cases "b \<and> is_space c")
    case True
    then have "cs \<noteq> []" using 2(3) space_open [of "[c]"] by (cases cs) auto
    then have ne: "lstrip cs \<noteq> []" using 2(3) space_open [of cs] last_in_set [OF \<open>cs \<noteq> []\<close>] \<open>cs \<noteq> []\<close>
      by (metis (no_types, lifting) last_ConsR lstrip_eq_Nil open_text_def list_all_iff)
    then have "last (lstrip cs) = last cs" unfolding lstrip_def by (metis last_appendR takeWhile_dropWhile_id)
    then have "breaks False (lstrip cs @ CHR '' '' # s) = breaks False (lstrip cs) @ breaks False s"
      using 2(1) [OF True _ ne] 2(3) \<open>cs \<noteq> []\<close> by simp
    then show ?thesis using True ne by (simp add: lstrip_append)
  next
    case False
    then have e: "breaks b ((c # cs) @ CHR '' '' # s) = cons_hd c (breaks (closing_mark c) (cs @ CHR '' '' # s))"
      "breaks b (c # cs) = cons_hd c (breaks (closing_mark c) cs)" by auto
    show ?thesis
    proof (cases "cs = []")
      case True
      moreover have "lstrip s = s" using assms(4) by (simp add: lstrip_same)
      ultimately show ?thesis using 2(3) word_spaces(5) unfolding e by simp
    next
      case ne: False
      with 2 False show ?thesis unfolding e by simp
    qed
  qed
qed simp

lemma speakable_joined:
  assumes u: "speakable u" "closing_mark (last u)" and s: "speakable s"
  shows "speakable (u @ CHR '' '' # s)"
proof -
  let ?t = "u @ CHR '' '' # s"
  note su = u(1) [unfolded speakable_iff] and ss = s [unfolded speakable_iff]
  have "\<not> has_slow ?t"
    using has_slow_split [of u "CHR '' ''" s] su ss by (auto simp: lower_char_def is_upper_def less_eq_char_def)
  moreover have "lead_rest ?t = None"
  proof (rule ccontr)
    assume "lead_rest ?t \<noteq> None"
    then obtain r where "lead_rest ?t = Some r" by blast
    with su have "open_text u" using lead_rest_partial by blast
    then show False using u(2) su by (auto simp: open_text_def list_all_iff)
  qed
  moreover have "trail_end ?t = None" using trail_end_joined ss by (metis option.exhaust)
  moreover have "trail_scaffold ?t = None" using trail_scaffold_joined u(2) su ss by (metis option.exhaust)
  moreover have "strip ?t = ?t" using su ss by (auto simp: strip_same)
  ultimately show ?thesis using su ss unfolding speakable_iff by simp
qed

section \<open>Relays\<close>

lemma sublist_strip: "sublist (strip s) s"
proof -
  have "suffix (lstrip s) s" unfolding lstrip_def by (rule suffix_dropWhile)
  moreover have "prefix (strip s) (lstrip s)" unfolding strip_def' by (rule prefix_rstrip)
  ultimately show ?thesis by (metis prefix_imp_sublist suffix_imp_sublist sublist_order.order.trans)
qed

lemma sublist_after: "sublist (after c s) s"
proof -
  have "suffix (dropWhile (\<lambda>x. x \<noteq> c) s) s" by (rule suffix_dropWhile)
  then show ?thesis unfolding after_def by (metis suffix_imp_sublist suffix_tl suffix_order.trans)
qed

lemma split_on_join_prefix: "\<exists>t. s = hd (split_on c s) @ t"
  by (induction s) (auto split: list.splits)

lemma sublist_split_on: "w \<in> set (split_on c s) \<Longrightarrow> sublist w s"
proof (induction s arbitrary: w)
  case (Cons x s)
  show ?case
  proof (cases "x = c")
    case True
    with Cons show ?thesis by (auto simp: sublist_Cons_right)
  next
    case False
    obtain v vs where v: "split_on c s = v # vs" by (cases "split_on c s") auto
    obtain t where t: "s = v @ t" using split_on_join_prefix [of s c] v by auto
    show ?thesis
    proof (cases "w \<in> set vs")
      case True
      with Cons(1) v show ?thesis by (auto simp: sublist_Cons_right)
    next
      case w: False
      with Cons(2) False v have "w = x # v" by auto
      then show ?thesis using t by (auto simp: sublist_def intro: exI [of _ "[]"])
    qed
  qed
qed simp

lemma strip_idem [simp]: "strip (strip s) = strip s"
proof -
  have "lstrip (strip s) = strip s" by simp
  moreover have "rstrip (rstrip t) = rstrip t" for t by (simp add: rstrip_def)
  ultimately show ?thesis by (metis strip_def')
qed

text \<open>What \<open>pairs\<close> reads: keys, and stripped values that hold no semicolon.\<close>

definition pair_ok :: "string \<times> string \<Rightarrow> bool" where
  "pair_ok kv \<longleftrightarrow> fact_key (fst kv) \<and> snd kv \<noteq> [] \<and> strip (snd kv) = snd kv \<and> CHR '';'' \<notin> set (snd kv)"

lemma pairs_of_ok:
  assumes "pairs_of ps = Some kvs" "\<And>p. p \<in> set ps \<Longrightarrow> CHR '';'' \<notin> set p \<and> sublist p s"
  shows "list_all (\<lambda>kv. pair_ok kv \<and> sublist (snd kv) s) kvs"
  using assms
proof (induction ps arbitrary: kvs)
  case (Cons p ps)
  let ?v = "strip (after (CHR ''='') p)"
  obtain kvs' where k: "kvs = (strip (before (CHR ''='') p), ?v) # kvs'" "pairs_of ps = Some kvs'"
    "fact_key (strip (before (CHR ''='') p))" "?v \<noteq> []"
    using Cons(2) by (auto simp: Let_def split: if_splits)
  have sub: "sublist ?v p" using sublist_strip sublist_after sublist_order.order.trans by blast
  then have "set ?v \<subseteq> set p" by (rule set_mono_sublist)
  then have "CHR '';'' \<notin> set ?v" using Cons(3) [of p] by auto
  moreover have "sublist ?v s" using sub Cons(3) [of p] sublist_order.order.trans by auto
  ultimately show ?case using Cons(1) [OF k(2)] Cons(3) k by (simp add: pair_ok_def)
qed simp

lemma pairs_ok:
  assumes "pairs s = Some kvs"
  shows "list_all (\<lambda>kv. pair_ok kv \<and> sublist (snd kv) s) kvs" "kvs \<noteq> []"
proof -
  show "list_all (\<lambda>kv. pair_ok kv \<and> sublist (snd kv) s) kvs"
    using pairs_of_ok [OF assms [unfolded pairs_def]] split_on_pieces sublist_split_on by blast
  show "kvs \<noteq> []"
    using assms by (cases "split_on (CHR '';'') s") (auto simp: pairs_def Let_def split: if_splits)
qed

lemma split_on_last: "c \<notin> set w \<Longrightarrow> split_on c w = [w]"
  by (induction w) auto

lemma split_on_sep: "c \<notin> set w \<Longrightarrow> split_on c (w @ c # t) = w # split_on c t"
  by (induction w) auto

lemma set_split_on: "x \<in> set s \<Longrightarrow> x = c \<or> (\<exists>w \<in> set (split_on c s). x \<in> set w)"
proof (induction s)
  case (Cons y s)
  then show ?case by (cases "split_on c s") auto
qed simp

lemma fact_key_chars:
  assumes "fact_key k"
  shows "k \<noteq> []" "x \<in> set k \<Longrightarrow> key_char x \<or> x = CHR ''.''"
proof -
  obtain w ws where w: "split_on (CHR ''.'') k = w # ws" "w \<noteq> []" "is_lower (hd w)" "list_all key_char (tl w)"
    "list_all (\<lambda>v. v \<noteq> [] \<and> list_all key_char v) ws"
    using assms by (auto simp: fact_key_def split: list.splits)
  show "k \<noteq> []" using w(1,2) by auto
  have "list_all key_char w" using w(2-4) by (cases w) (auto simp: key_char_def)
  with w(5) have "list_all (list_all key_char) (w # ws)" by (auto simp: list_all_iff)
  then show "key_char x \<or> x = CHR ''.''" if "x \<in> set k"
    using set_split_on [OF that, of "CHR ''.''"] w(1) by (auto simp: list_all_iff)
qed

lemma key_char_not:
  "key_char x \<or> x = CHR ''.'' \<Longrightarrow> x \<noteq> CHR ''='' \<and> x \<noteq> CHR '';'' \<and> x \<noteq> CHR ''@'' \<and> x \<noteq> CHR 0x0A \<and> \<not> is_space x"
  by (auto simp: key_char_def is_lower_def is_digit_def is_space_def less_eq_char_def Let_def)

lemma fact_key_not:
  assumes "fact_key k"
  shows "CHR ''='' \<notin> set k" "CHR '';'' \<notin> set k" "CHR ''@'' \<notin> set k" "CHR 0x0A \<notin> set k"
    "\<not> is_space (hd k)" "\<not> is_space (last k)"
  using fact_key_chars [OF assms] key_char_not by (metis, metis, metis, metis, metis hd_in_set, metis last_in_set)

definition kv_text :: "string \<times> string \<Rightarrow> string" where
  "kv_text kv = fst kv @ ''='' @ snd kv"

lemma kv_text_ok:
  assumes "pair_ok kv"
  shows "CHR '';'' \<notin> set (kv_text kv)" "\<not> is_space (hd (kv_text kv))" "\<not> is_space (last (kv_text kv))"
    "kv_text kv \<noteq> []" "has_slow (kv_text kv) \<Longrightarrow> has_slow (snd kv)"
    "CHR 0x0A \<in> set (kv_text kv) \<Longrightarrow> CHR 0x0A \<in> set (snd kv)"
    "s = kv_text kv \<or> s = '' '' @ kv_text kv \<Longrightarrow>
      CHR ''='' \<in> set s \<and> strip (before (CHR ''='') s) = fst kv \<and> strip (after (CHR ''='') s) = snd kv"
proof -
  have k: "fact_key (fst kv)" and v: "snd kv \<noteq> []" "strip (snd kv) = snd kv" "CHR '';'' \<notin> set (snd kv)"
    using assms by (simp_all add: pair_ok_def)
  note kn = fact_key_not [OF k] and ke = fact_key_chars(1) [OF k]
  show "CHR '';'' \<notin> set (kv_text kv)" using kn v by (simp add: kv_text_def)
  show "\<not> is_space (hd (kv_text kv))" using kn ke by (simp add: kv_text_def)
  show "\<not> is_space (last (kv_text kv))" using v by (simp add: kv_text_def strip_same)
  show "kv_text kv \<noteq> []" by (simp add: kv_text_def)
  show "has_slow (snd kv)" if "has_slow (kv_text kv)"
    using that has_slow_plain [of "fst kv @ ''=''" "snd kv"] kn by (simp add: kv_text_def)
  show "CHR 0x0A \<in> set (snd kv)" if "CHR 0x0A \<in> set (kv_text kv)" using that kn by (simp add: kv_text_def)
  have ks: "strip (fst kv) = fst kv" using kn by (simp add: strip_same)
  have s1: "strip (CHR '' '' # fst kv) = fst kv"
    using ks word_spaces(5) by (simp add: strip_def' lstrip_def)
  have b: "before (CHR ''='') (w @ ''='' @ t) = w" "after (CHR ''='') (w @ ''='' @ t) = t"
    if "CHR ''='' \<notin> set w" for w t :: string
    using that by (simp_all add: before_def after_def takeWhile_append dropWhile_append)
  show "CHR ''='' \<in> set s \<and> strip (before (CHR ''='') s) = fst kv \<and> strip (after (CHR ''='') s) = snd kv"
    if "s = kv_text kv \<or> s = '' '' @ kv_text kv"
    using that b [OF kn(1), of "snd kv"] b [of "CHR '' '' # fst kv" "snd kv"] kn(1) ks s1 v(2)
    by (elim disjE) (simp_all add: kv_text_def)
qed

abbreviation kv_join :: "(string \<times> string) list \<Rightarrow> string" where
  "kv_join kvs \<equiv> join ''; '' (map kv_text kvs)"

lemma kv_join_Cons:
  "kv_join (kv # kvs) = kv_text kv @ concat (map (\<lambda>kv. CHR '';'' # CHR '' '' # kv_text kv) kvs)"
  by (simp add: join_def comp_def)

lemma kv_join_split:
  assumes "list_all pair_ok kvs" "CHR '';'' \<notin> set w"
  shows "split_on (CHR '';'') (w @ concat (map (\<lambda>kv. CHR '';'' # CHR '' '' # kv_text kv) kvs)) =
      w # map (\<lambda>kv. '' '' @ kv_text kv) kvs"
  using assms
proof (induction kvs arbitrary: w)
  case (Cons k kvs)
  then have "CHR '';'' \<notin> set ('' '' @ kv_text k)" using kv_text_ok(1) by simp
  with Cons show ?case by (simp add: split_on_sep)
qed (simp add: split_on_last)

lemma pairs_of_texts:
  "list_all (\<lambda>(s, kv). pair_ok kv \<and> (s = kv_text kv \<or> s = '' '' @ kv_text kv)) xs \<Longrightarrow>
   pairs_of (map fst xs) = Some (map snd xs)"
proof (induction xs)
  case (Cons x xs)
  obtain s kv where x: "x = (s, kv)" by (cases x)
  with Cons(2) have kv: "pair_ok kv" "s = kv_text kv \<or> s = '' '' @ kv_text kv" by auto
  have "fact_key (fst kv)" "snd kv \<noteq> []" using kv(1) by (simp_all add: pair_ok_def)
  with kv_text_ok(7) [OF kv] Cons show ?case by (simp add: x Let_def)
qed simp

lemma pairs_kv_join:
  assumes "list_all pair_ok kvs" "kvs \<noteq> []"
  shows "pairs (kv_join kvs) = Some kvs"
proof -
  obtain k ks where k: "kvs = k # ks" using assms(2) by (cases kvs) auto
  have "CHR '';'' \<notin> set (kv_text k)" using assms(1) k kv_text_ok(1) by simp
  then have "split_on (CHR '';'') (kv_join kvs) = map fst ((kv_text k, k) # map (\<lambda>kv. ('' '' @ kv_text kv, kv)) ks)"
    using kv_join_split [of ks] assms(1) unfolding k kv_join_Cons by simp
  moreover have "pairs_of (map fst ((kv_text k, k) # map (\<lambda>kv. ('' '' @ kv_text kv, kv)) ks)) =
      Some (map snd ((kv_text k, k) # map (\<lambda>kv. ('' '' @ kv_text kv, kv)) ks))"
    using assms(1) k by (intro pairs_of_texts) (auto simp: list_all_iff)
  ultimately show ?thesis by (simp add: pairs_def k comp_def)
qed

lemma kv_join_slow: "has_slow (kv_join kvs) \<Longrightarrow> list_all pair_ok kvs \<Longrightarrow> list_ex (\<lambda>kv. has_slow (snd kv)) kvs"
proof (cases kvs)
  case (Cons k ks)
  have *: "has_slow (w @ concat (map (\<lambda>kv. CHR '';'' # CHR '' '' # kv_text kv) ks)) \<Longrightarrow> list_all pair_ok ks \<Longrightarrow>
      has_slow w \<or> list_ex (\<lambda>kv. has_slow (snd kv)) ks" for w ks
  proof (induction ks arbitrary: w)
    case (Cons k ks)
    define rest where "rest = (CHR '' '' # kv_text k) @ concat (map (\<lambda>kv. CHR '';'' # CHR '' '' # kv_text kv) ks)"
    have "has_slow (w @ CHR '';'' # rest)" using Cons(2) by (simp add: rest_def)
    moreover have "lower_char (CHR '';'') \<notin> set ''@slow:''"
      by (simp add: lower_char_def is_upper_def less_eq_char_def)
    ultimately have "has_slow w \<or> has_slow rest" by (rule has_slow_split)
    with Cons(1) [of "CHR '' '' # kv_text k"] Cons(3)
    have "has_slow w \<or> has_slow (CHR '' '' # kv_text k) \<or> list_ex (\<lambda>kv. has_slow (snd kv)) ks"
      unfolding rest_def by (simp only: list_all_Cons_iff) blast
    moreover have "has_slow (kv_text k)" if "has_slow (CHR '' '' # kv_text k)"
      using has_slow_plain [of "'' ''" "kv_text k"] that by simp
    ultimately show ?case using kv_text_ok(5) [of k] Cons(3) by auto
  qed simp
  assume "has_slow (kv_join kvs)" "list_all pair_ok kvs"
  then have "has_slow (kv_text k) \<or> list_ex (\<lambda>kv. has_slow (snd kv)) ks" "pair_ok k"
    using * [of "kv_text k" ks] unfolding Cons kv_join_Cons by simp_all
  then show ?thesis using kv_text_ok(5) [of k] Cons by auto
qed (simp add: join_def)

lemma kv_join_ends:
  assumes "list_all pair_ok kvs" "kvs \<noteq> []"
  shows "kv_join kvs \<noteq> []" "strip (kv_join kvs) = kv_join kvs"
    "CHR 0x0A \<in> set (kv_join kvs) \<Longrightarrow> list_ex (\<lambda>kv. CHR 0x0A \<in> set (snd kv)) kvs"
proof -
  obtain k ks where k: "kvs = k # ks" using assms(2) by (cases kvs) auto
  note ok = kv_text_ok
  have "\<not> is_space (last (kv_text k @ concat (map (\<lambda>kv. CHR '';'' # CHR '' '' # kv_text kv) ks)))"
  proof (cases ks rule: rev_cases)
    case Nil
    with assms(1) k ok(3) show ?thesis by simp
  next
    case (snoc js j)
    with assms(1) k ok(3,4) [of j] show ?thesis by simp
  qed
  then show "kv_join kvs \<noteq> []" "strip (kv_join kvs) = kv_join kvs"
    using assms(1) ok(2,4) [of k] unfolding k kv_join_Cons by (simp_all add: strip_same)
  show "list_ex (\<lambda>kv. CHR 0x0A \<in> set (snd kv)) kvs" if "CHR 0x0A \<in> set (kv_join kvs)"
  proof -
    have "\<exists>kv \<in> set kvs. CHR 0x0A \<in> set (kv_text kv)"
      using that unfolding k kv_join_Cons by (auto split: if_splits)
    then show ?thesis using assms(1) ok(6) by (auto simp only: list_all_iff list_ex_iff)
  qed
qed

definition said :: "turn_item list \<Rightarrow> turn_item list" where
  "said xs = filter (\<lambda>i. \<not> is_issue i) xs"

lemma said_simps [simp]:
  "said [] = []" "said (xs @ ys) = said xs @ said ys"
  "said (ParseIssue r s # xs) = said xs" "said (Speech s # xs) = Speech s # said xs"
  "said (Relay t s kvs # xs) = Relay t s kvs # said xs" "said (HoldTurn h # xs) = HoldTurn h # said xs"
  "said (WaitTurn # xs) = WaitTurn # said xs" "said (EndCall # xs) = EndCall # said xs"
  by (simp_all add: said_def is_issue_def)

text \<open>A relay that comes again from its own canonical text; strictly, when nothing else comes with it.\<close>

definition relay_ok :: "bool \<Rightarrow> lane \<Rightarrow> turn_item \<Rightarrow> string \<Rightarrow> bool" where
  "relay_ok strict lane i s \<longleftrightarrow>
     s \<noteq> [] \<and> strip s = s \<and> \<not> has_slow s \<and> CHR 0x0A \<notin> set s \<and>
     said (relay_items lane s) = [i] \<and> (strict \<longrightarrow> relay_items lane s = [i])"

lemma relay_head:
  "before (CHR '' '') (w @ '' '' @ t) = w" "after (CHR '' '') (w @ '' '' @ t) = t" if "CHR '' '' \<notin> set w"
  using that by (simp_all add: before_def after_def takeWhile_append dropWhile_append)

lemma relay_facts:
  assumes "list_all pair_ok kvs" "kvs \<noteq> []"
  shows "relay_items lane (''fact '' @ kv_join kvs) = [Relay RelayFact [] kvs]"
    "length kvs = 1 \<Longrightarrow> relay_items UserLane (''correction '' @ kv_join kvs) = [Relay RelayCorrection [] kvs]"
  using relay_head [of "''fact''" "kv_join kvs"] relay_head [of "''correction''" "kv_join kvs"]
    pairs_kv_join [OF assms] kv_join_ends(2) [OF assms]
  by (simp_all add: relay_items_def Let_def)

lemma relay_requests:
  assumes "rest \<noteq> []" "strip rest = rest"
  shows "relay_items UserLane (''request '' @ rest) = [Relay RelayRequest rest []]"
    "relay_items UserLane (''revoke '' @ rest) = [Relay RelayRevoke rest []]"
  using relay_head [of "''request''" rest] relay_head [of "''revoke''" rest] assms
  by (simp_all add: relay_items_def Let_def)

lemma relay_kvs: "relay_text RelayFact s kvs = ''fact '' @ kv_join kvs"
    "relay_text RelayCorrection s kvs = ''correction '' @ kv_join kvs"
  by (simp_all add: relay_text_def relay_word_def kv_text_def [abs_def] case_prod_unfold)

text \<open>The five ways a relay item comes out of a segment.\<close>

lemma relay_cases:
  assumes "i \<in> set (said (relay_items lane seg))"
  obtains (noted) js where "i = Relay RelayNote seg []" "relay_items lane seg = i # js" "said js = []" "seg \<noteq> []"
    | (fact) kvs where "i = Relay RelayFact [] kvs" "relay_items lane seg = [i]"
        "pairs (strip (after (CHR '' '') seg)) = Some kvs"
    | (correction) kvs where "i = Relay RelayCorrection [] kvs" "relay_items lane seg = [i]"
        "pairs (strip (after (CHR '' '') seg)) = Some kvs" "length kvs = 1" "lane = UserLane"
    | (request) t rest where "t = RelayRequest \<or> t = RelayRevoke" "i = Relay t rest []" "relay_items lane seg = [i]"
        "rest = strip (after (CHR '' '') seg)" "rest \<noteq> []" "lane = UserLane"
proof -
  let ?head = "before (CHR '' '') seg" and ?rest = "strip (after (CHR '' '') seg)"
  let ?r = "relay_items lane seg"
  have ne: "seg \<noteq> []" using assms by (auto simp: relay_items_def)
  show thesis
  proof (cases "?head \<in> {''correction'', ''request'', ''revoke''} \<and> lane \<noteq> UserLane")
    case True
    then have "?r = [ParseIssue WrongLane seg]" using ne by (simp add: relay_items_def Let_def)
    with assms show thesis by simp
  next
    case lane: False
    show thesis
    proof (cases "?head = ''fact'' \<or> ?head = ''correction''")
      case True
      show thesis
      proof (cases "pairs ?rest")
        case None
        then have "?r = [Relay RelayNote seg [], ParseIssue MalformedFact seg]"
          using ne lane True by (auto simp: relay_items_def Let_def)
        with assms ne show thesis by (intro noted [of "[ParseIssue MalformedFact seg]"]) simp_all
      next
        case (Some kvs)
        consider "?head = ''fact''" | "?head = ''correction''" "length kvs = 1" "lane = UserLane"
          | "?head = ''correction''" "length kvs \<noteq> 1" using True lane by blast
        then show thesis
        proof cases
          case 1
          then have "?r = [Relay RelayFact [] kvs]" using ne Some by (simp add: relay_items_def Let_def)
          with assms Some show thesis by (intro fact [of kvs]) simp_all
        next
          case 2
          then have "?r = [Relay RelayCorrection [] kvs]" using ne Some by (simp add: relay_items_def Let_def)
          with assms Some 2 show thesis by (intro correction [of kvs]) simp_all
        next
          case 3
          then have "?r = [Relay RelayNote seg [], ParseIssue MalformedFact seg]"
            using ne lane Some by (auto simp: relay_items_def Let_def)
          with assms ne show thesis by (intro noted [of "[ParseIssue MalformedFact seg]"]) simp_all
        qed
      qed
    next
      case plain: False
      show thesis
      proof (cases "(?head = ''request'' \<or> ?head = ''revoke'') \<and> ?rest \<noteq> []")
        case True
        define t where "t = (if ?head = ''request'' then RelayRequest else RelayRevoke)"
        have "?r = [Relay t ?rest []]"
          using ne lane plain True unfolding t_def by (auto simp: relay_items_def Let_def)
        with assms True lane show thesis by (intro request [of t ?rest]) (auto simp: t_def)
      next
        case False
        then have "?r = Relay RelayNote seg [] # [] \<or> ?r = Relay RelayNote seg [] # [ParseIssue MalformedRelay seg]"
          unfolding relay_items_def Let_def if_not_P [OF ne] if_not_P [OF lane] if_not_P [OF plain] if_not_P [OF False]
          by (simp split: if_split)
        then show thesis
        proof
          assume "?r = Relay RelayNote seg [] # []"
          with assms ne show thesis by (intro noted [of "[]"]) simp_all
        next
          assume "?r = Relay RelayNote seg [] # [ParseIssue MalformedRelay seg]"
          with assms ne show thesis by (intro noted [of "[ParseIssue MalformedRelay seg]"]) simp_all
        qed
      qed
    qed
  qed
qed

text \<open>So a relay has a canonical text that gives it again.\<close>

lemma relay_again:
  assumes "i \<in> set (said (relay_items lane seg))" "strip seg = seg" "\<not> has_slow seg" "CHR 0x0A \<notin> set seg"
  shows "\<exists>t s kvs. i = Relay t s kvs \<and> relay_ok (relay_items lane seg = [i]) lane i (relay_text t s kvs)"
proof -
  let ?rest = "strip (after (CHR '' '') seg)"
  have rest: "sublist ?rest seg" using sublist_strip sublist_after sublist_order.order.trans by blast
  then have no: "\<not> has_slow v" "CHR 0x0A \<notin> set v" if "sublist v ?rest" for v
    using that assms(3,4) has_slow_sublist set_mono_sublist sublist_order.order.trans by blast+
  have kvs: "relay_ok True lane i (w @ kv_join kvs)"
    if kv: "pairs ?rest = Some kvs" and w: "w \<in> {''fact '', ''correction ''}" and r: "relay_items lane (w @ kv_join kvs) = [i]"
      and i: "said [i] = [i]" for w kvs
  proof -
    have ok: "list_all pair_ok kvs" "list_all (\<lambda>kv. sublist (snd kv) ?rest) kvs" "kvs \<noteq> []"
      using pairs_ok [OF kv] by (auto simp: list_all_iff)
    note e = kv_join_ends [OF ok(1,3)]
    have "\<not> has_slow (kv_join kvs)" "CHR 0x0A \<notin> set (kv_join kvs)"
      using kv_join_slow [OF _ ok(1)] e(3) ok(2) no by (auto simp: list_all_iff list_ex_iff)
    moreover have "CHR ''@'' \<notin> set w" "CHR 0x0A \<notin> set w" using w by auto
    moreover have "strip (w @ kv_join kvs) = w @ kv_join kvs"
      using e(1,2) w by (auto simp: strip_same is_space_def)
    ultimately show ?thesis using has_slow_plain [of w "kv_join kvs"] e(1) r i by (auto simp: relay_ok_def)
  qed
  from assms(1) show ?thesis
  proof (cases rule: relay_cases)
    case (noted js)
    then show ?thesis using assms(2-4)
      by (auto simp: relay_ok_def relay_text_def)
  next
    case (fact ks)
    then have "list_all pair_ok ks" "ks \<noteq> []" using pairs_ok [OF fact(3)] by (auto simp: list_all_iff)
    from kvs [OF fact(3), of "''fact ''"] relay_facts(1) [OF this] fact show ?thesis
      by (simp add: relay_kvs)
  next
    case (correction ks)
    then have "list_all pair_ok ks" "ks \<noteq> []" using pairs_ok [OF correction(3)] by (auto simp: list_all_iff)
    from kvs [OF correction(3), of "''correction ''"] relay_facts(2) [OF this correction(4)] correction show ?thesis
      by (simp add: relay_kvs)
  next
    case (request t rest)
    have r: "\<not> has_slow rest" "CHR 0x0A \<notin> set rest" "strip rest = rest"
      using no [of rest] request(4) by simp_all
    have "relay_ok True UserLane i (w @ rest)"
      if "w \<in> {''request '', ''revoke ''}" "relay_items UserLane (w @ rest) = [i]" for w
    proof -
      have "CHR ''@'' \<notin> set w" "CHR 0x0A \<notin> set w" using that(1) by auto
      moreover have "strip (w @ rest) = w @ rest"
        using r(3) request(5) that(1) by (auto simp: strip_same is_space_def)
      ultimately show ?thesis
        using has_slow_plain [of w rest] r request(2,5) that(2) by (auto simp: relay_ok_def)
    qed
    from this [of "''request ''"] this [of "''revoke ''"] relay_requests [OF request(5) r(3)] request show ?thesis
      by (auto simp: relay_text_def relay_word_def)
  qed
qed

section \<open>Turns\<close>

text \<open>The turns the parser can give: what each item needs at its place, and what it changes.\<close>

definition item_ok :: "bool \<Rightarrow> parser \<Rightarrow> turn_item \<Rightarrow> bool" where
  "item_ok strict p i \<longleftrightarrow> (case i of
      Speech s \<Rightarrow> \<not> hushed p \<and> speakable s \<and> breaks False s = [s] \<and> (strict \<longrightarrow> \<not> has_inline s)
    | Relay t s kvs \<Rightarrow> relay_ok strict (pp_lane p) i (relay_text t s kvs)
    | HoldTurn r \<Rightarrow> pp_lane p = CpLane \<and> \<not> pp_paused p
    | WaitTurn \<Rightarrow> \<not> pp_paused p
    | EndCall \<Rightarrow> \<not> pp_ended p
    | ParseIssue _ _ \<Rightarrow> False)"

definition after_item :: "parser \<Rightarrow> turn_item \<Rightarrow> parser" where
  "after_item p i = (case i of
      HoldTurn r \<Rightarrow> p\<lparr>pp_paused := True\<rparr> | WaitTurn \<Rightarrow> p\<lparr>pp_paused := True\<rparr>
    | EndCall \<Rightarrow> p\<lparr>pp_ended := True\<rparr> | _ \<Rightarrow> p)"

fun turn_ok :: "bool \<Rightarrow> parser \<Rightarrow> turn_item list \<Rightarrow> bool" where
  "turn_ok strict p [] = True"
| "turn_ok strict p (i # items) = (item_ok strict p i \<and> turn_ok strict (after_item p i) items)"

lemma turn_ok_append: "turn_ok strict p (xs @ ys) \<longleftrightarrow> turn_ok strict p xs \<and> turn_ok strict (foldl after_item p xs) ys"
  by (induction xs arbitrary: p) auto

definition no_issue :: "turn_item list \<Rightarrow> bool" where
  "no_issue xs \<longleftrightarrow> list_all (\<lambda>i. \<not> is_issue i) xs"

lemma no_issue_simps [simp]:
  "no_issue []" "no_issue (xs @ ys) \<longleftrightarrow> no_issue xs \<and> no_issue ys" "no_issue (x # xs) \<longleftrightarrow> \<not> is_issue x \<and> no_issue xs"
  by (simp_all add: no_issue_def)

lemma no_issue_said: "no_issue xs \<longleftrightarrow> said xs = xs"
  by (simp add: no_issue_def said_def list_all_iff filter_id_conv)

lemma turn_ok_weaken: "turn_ok strict p xs \<Longrightarrow> turn_ok False p xs"
  by (induction xs arbitrary: p) (auto simp: item_ok_def relay_ok_def split: turn_item.splits)

text \<open>The parser gives such turns: line by line.\<close>

definition gives :: "parser \<Rightarrow> parser \<times> turn_item list \<Rightarrow> bool" where
  "gives p r \<longleftrightarrow> fst r = foldl after_item p (said (snd r)) \<and> turn_ok (no_issue (snd r)) p (said (snd r))"

lemma gives_issue: "gives p (p, [ParseIssue r s])"
  by (simp add: gives_def)

lemma is_issue_simps [simp]: "is_issue (ParseIssue r s)" "\<not> is_issue (Speech s)" "\<not> is_issue (Relay t s kvs)"
  "\<not> is_issue (HoldTurn h)" "\<not> is_issue WaitTurn" "\<not> is_issue EndCall"
  by (simp_all add: is_issue_def)

lemma directive_gives: "gives p (directive p s)"
proof -
  have pause: "gives p (pause_item p i s)" if "i = WaitTurn \<or> (\<exists>r. i = HoldTurn r) \<and> pp_lane p = CpLane" for i
    using that by (auto simp: pause_item_def gives_def item_ok_def after_item_def)
  let ?f = "find (\<lambda>r. length (words s) = 2 \<and> words s ! 1 = hold_text r) HOLD_REASONS"
  show ?thesis
  proof (cases "ci_at ''@end_call'' s")
    case True
    then show ?thesis by (simp add: directive_def gives_def item_ok_def after_item_def)
  next
    case no: False
    show ?thesis
    proof (cases "hd (words s) = ''@hold''")
      case True
      show ?thesis
      proof (cases "pp_lane p = CpLane")
        case False
        with no True show ?thesis by (simp add: directive_def Let_def gives_issue)
      next
        case lane: True
        with no True show ?thesis
          unfolding directive_def Let_def if_not_P [OF no] if_P [OF True]
          using pause by (cases ?f) (simp_all add: gives_issue)
      qed
    next
      case False
      with no pause [of WaitTurn] show ?thesis by (auto simp: directive_def Let_def gives_issue)
    qed
  qed
qed

lemma turn_ok_mono: "turn_ok b p xs \<Longrightarrow> (c \<longrightarrow> b) \<Longrightarrow> turn_ok c p xs"
  using turn_ok_weaken by (cases b; cases c) auto

lemma gives_append: "gives p (q, xs) \<Longrightarrow> gives q (r, ys) \<Longrightarrow> gives p (r, xs @ ys)"
  by (auto simp: gives_def turn_ok_append intro: turn_ok_mono)

lemma gives_nothing [simp]: "gives p (p, [])"
  by (simp add: gives_def)

lemma gives_concat: "list_all (\<lambda>xs. gives p (p, xs)) xss \<Longrightarrow> gives p (p, concat xss)"
  by (induction xss) (auto intro: gives_append)

lemma slow_split_pieces:
  "prefix (hd (slow_split s)) s \<and> list_all (\<lambda>w. \<not> has_slow w \<and> sublist w s) (slow_split s)"
proof (induction s rule: slow_split.induct)
  case (2 c cs)
  show ?case
  proof (cases "slow_at (c # cs)")
    case True
    have "sublist (lstrip (drop 5 cs)) (c # cs)"
      using suffix_dropWhile [of is_space "drop 5 cs"] suffix_drop [of 5 cs] unfolding lstrip_def
      by (metis suffix_imp_sublist suffix_order.trans suffix_ConsI)
    then have "list_all (\<lambda>w. \<not> has_slow w \<and> sublist w (c # cs)) (slow_split (lstrip (drop 5 cs)))"
      using 2(1) [OF True] by (auto simp: list_all_iff intro: sublist_order.order.trans)
    with True show ?thesis by simp
  next
    case False
    note ih = 2(2) [OF False]
    have e: "slow_split (c # cs) = (c # hd (slow_split cs)) # tl (slow_split cs)" using False by simp
    obtain w ws where w: "slow_split cs = w # ws" by (cases "slow_split cs") auto
    then have ih': "prefix w cs" "\<not> has_slow w" "list_all (\<lambda>w. \<not> has_slow w \<and> sublist w cs) ws"
      using ih by simp_all
    obtain t where "cs = w @ t" using ih'(1) by (rule prefixE)
    then have "\<not> slow_at (c # w)"
      using False ci_at_append [of "''@slow:''" "c # w" t] by (auto simp: slow_at_def)
    moreover have "list_all (\<lambda>w. \<not> has_slow w \<and> sublist w (c # cs)) ws"
      using ih'(3) unfolding list_all_iff sublist_Cons_right by blast
    moreover have "sublist (c # w) (c # cs)" using ih'(1) by (intro prefix_imp_sublist) simp
    ultimately show ?thesis using ih'(1,2) unfolding e w by simp
  qed
qed simp

lemma sentence_gives:
  assumes "\<not> hushed p" "breaks False w = [w]"
  shows "gives p (p, sentence_items w)"
  using assms by (auto simp: sentence_items_def gives_def item_ok_def after_item_def)

lemma relay_gives:
  assumes "strip seg = seg" "\<not> has_slow seg" "CHR 0x0A \<notin> set seg"
  shows "gives p (p, relay_items (pp_lane p) seg)"
proof (cases "said (relay_items (pp_lane p) seg)")
  case Nil
  then show ?thesis by (simp add: gives_def)
next
  case (Cons i js)
  have i: "i \<in> set (said (relay_items (pp_lane p) seg))" by (simp add: Cons)
  then have js: "js = []" using Cons by (cases rule: relay_cases) (auto split: if_splits simp: said_def)
  obtain t s kvs where r: "i = Relay t s kvs"
    "relay_ok (relay_items (pp_lane p) seg = [i]) (pp_lane p) i (relay_text t s kvs)"
    using relay_again [OF i assms] by blast
  have "no_issue (relay_items (pp_lane p) seg) \<longrightarrow> relay_items (pp_lane p) seg = [i]"
    using Cons js by (simp add: no_issue_said)
  then have "relay_ok (no_issue (relay_items (pp_lane p) seg)) (pp_lane p) i (relay_text t s kvs)"
    using r(2) by (auto simp: relay_ok_def)
  with Cons js r(1) show ?thesis by (simp add: gives_def item_ok_def after_item_def)
qed

lemma line_gives:
  assumes "pp_emitted p = 0" "CHR 0x0A \<notin> set raw"
  shows "gives p (line_items p raw True)"
proof -
  let ?s = "strip raw"
  let ?u = "fst (clean (hd (slow_split ?s)))"
  let ?sent = "if starts_with ''@'' ?u then [] else breaks False ?u"
  have e: "p\<lparr>pp_emitted := 0\<rparr> = p" using assms(1) by simp
  have nl: "CHR 0x0A \<notin> set ?s" using assms(2) set_strip [of raw] by blast
  consider (dir) "starts_with ''@'' ?s \<and> \<not> slow_at ?s" | (hush) "hushed p" "\<not> starts_with ''@'' ?s"
    | (talk) "\<not> (starts_with ''@'' ?s \<and> \<not> slow_at ?s)" "\<not> (hushed p \<and> \<not> starts_with ''@'' ?s)" by blast
  then show ?thesis
  proof cases
    case dir
    then show ?thesis using directive_gives by (simp add: line_items_def Let_def)
  next
    case hush
    then show ?thesis by (auto simp: line_items_def Let_def hushed_def gives_issue)
  next
    case talk
    have c: "\<not> (pp_paused p \<and> pp_pause_ends_speech p \<and> \<not> starts_with ''@'' ?s)"
      using talk(2) by (simp add: hushed_def)
    have l: "line_items p raw True = (p,
        concat (map sentence_items (nonempty ?sent)) @
        (if starts_with ''@'' ?u then [ParseIssue StrayDirective ?u]
         else if snd (clean (hd (slow_split ?s))) then [ParseIssue InlineDirective ''@end_call''] else []) @
        concat (map (\<lambda>segment. relay_items (pp_lane p) (strip segment)) (tl (slow_split ?s))))"
      unfolding line_items_def Let_def if_not_P [OF talk(1)] if_not_P [OF c] case_prod_unfold
      using assms(1) e by simp
    have "gives p (p, sentence_items w)" if w: "w \<in> set (nonempty ?sent)" for w
    proof (rule sentence_gives)
      have m: "w \<noteq> []" "w \<in> set (breaks False ?u)" using w by (auto simp: nonempty_def split: if_splits)
      show "breaks False w = [w]" using breaks_member [OF m(2)] .
      show "\<not> hushed p"
      proof
        assume "hushed p"
        with talk have "slow_at ?s" by blast
        then have "hd (slow_split ?s) = []" by (cases ?s) (simp_all add: slow_at_def ci_at_def)
        then have "set (breaks False ?u) = {[]}" by (simp add: clean_Nil)
        with m show False by simp
      qed
    qed
    then have 1: "gives p (p, concat (map sentence_items (nonempty ?sent)))"
      by (intro gives_concat) (auto simp: list_all_iff)
    have "gives p (p, relay_items (pp_lane p) (strip w))" if w: "w \<in> set (tl (slow_split ?s))" for w
    proof (rule relay_gives)
      have "w \<in> set (slow_split ?s)" using w by (cases "slow_split ?s") simp_all
      then have "\<not> has_slow w" "sublist w ?s" using slow_split_pieces [of ?s] by (auto simp: list_all_iff)
      then show "\<not> has_slow (strip w)" "CHR 0x0A \<notin> set (strip w)"
        using has_slow_sublist [OF sublist_strip] nl set_mono_sublist set_strip [of w] by blast+
    qed simp
    then have 2: "gives p (p, concat (map (\<lambda>segment. relay_items (pp_lane p) (strip segment)) (tl (slow_split ?s))))"
      by (intro gives_concat) (auto simp: list_all_iff)
    show ?thesis unfolding l by (intro gives_append [OF 1] gives_append [OF _ 2]) (simp add: gives_issue)
  qed
qed

lemma lines_give:
  assumes "pp_emitted p = 0" "list_all (\<lambda>l. CHR 0x0A \<notin> set l) ls"
  shows "gives p (line_list p ls)"
  using assms
proof (induction ls arbitrary: p)
  case (Cons l ls)
  have "pp_emitted (fst (line_items p l True)) = 0" using line_items_kept(4) [OF Cons(2)] .
  with Cons have "gives (fst (line_items p l True)) (line_list (fst (line_items p l True)) ls)" by simp
  with line_gives [of p l] Cons(2,3) show ?case
    by (simp add: case_prod_unfold Let_def) (metis gives_append prod.collapse)
qed simp

section \<open>The canonical text parses back\<close>

lemma speech_line:
  assumes "speakable l" "\<not> hushed p" "pp_emitted p = 0"
  shows "line_items p l True = (p, concat (map sentence_items (nonempty (breaks False l))))"
proof -
  note sp = assms(1) [unfolded speakable_iff]
  have e: "p\<lparr>pp_emitted := 0\<rparr> = p" using assms(3) by simp
  have sl: "slow_split l = [l]" using sp slow_split_none by blast
  have at: "\<not> starts_with ''@'' l" using sp by (simp add: starts_with_at)
  have "line_sentences (hushed p) l = breaks False l"
    using sp at assms(2) by (simp add: line_sentences_def spoken_part_def sl clean_speakable [OF assms(1)] Let_def)
  then show ?thesis
    using line_items_spoken [of p l] sp assms(3)
    by (simp add: e line_rest_def sl clean_speakable [OF assms(1)] Let_def)
qed

lemma relay_line:
  assumes "relay_ok strict (pp_lane p) i s" "pp_emitted p = 0"
  shows "line_items p (''@slow: '' @ s) True = (p, relay_items (pp_lane p) s)"
proof -
  have s: "s \<noteq> []" "strip s = s" "\<not> has_slow s" using assms(1) by (simp_all add: relay_ok_def)
  have e: "p\<lparr>pp_emitted := 0\<rparr> = p" using assms(2) by simp
  let ?l = "''@slow: '' @ s"
  have l: "strip ?l = ?l" using s by (simp add: strip_same is_space_def)
  have at: "starts_with ''@'' ?l" "slow_at ?l"
    by (simp_all add: starts_with_def slow_at_def ci_at_def lower_char_def is_upper_def less_eq_char_def)
  have "lstrip s = s" using s by (auto simp: lstrip_same strip_same)
  then have "lstrip ('' '' @ s) = s" using word_spaces(5) by (simp add: lstrip_def)
  then have "slow_split ?l = [] # slow_split s" using at(2) by simp
  then have sl: "slow_split ?l = [[], s]" using slow_split_none [OF s(3)] by simp
  have no: "\<not> (starts_with ''@'' ?l \<and> \<not> slow_at ?l)"
    "\<not> (pp_paused p \<and> pp_pause_ends_speech p \<and> \<not> starts_with ''@'' ?l)" using at by blast+
  show ?thesis
    unfolding line_items_def Let_def l if_not_P [OF no(1)] if_not_P [OF no(2)] sl list.sel clean_Nil prod.case
    by (simp add: assms(2) e s(2) nonempty_def starts_with_def)
qed

lemma directive_line:
  assumes "item_ok strict p i" "pp_emitted p = 0"
  shows "i = HoldTurn r \<Longrightarrow> line_items p (''@hold '' @ hold_text r) True = (after_item p i, [i])"
    "i = WaitTurn \<Longrightarrow> line_items p ''@wait'' True = (after_item p i, [i])"
    "i = EndCall \<Longrightarrow> line_items p ''@end_call'' True = (after_item p i, [i])"
proof -
  have d: "line_items p l True = directive p l"
    if "strip l = l" "starts_with ''@'' l" "\<not> slow_at l" for l
    using that by (simp add: line_items_def Let_def)
  show "line_items p ''@wait'' True = (after_item p i, [i])" if "i = WaitTurn"
  proof -
    have "strip ''@wait'' = ''@wait'' \<and> starts_with ''@'' ''@wait'' \<and> \<not> slow_at ''@wait'' \<and>
        \<not> ci_at ''@end_call'' ''@wait'' \<and> hd (words ''@wait'') \<noteq> ''@hold''" by code_simp
    with d [of "''@wait''"] show ?thesis
      using assms(1) that by (simp add: directive_def Let_def pause_item_def item_ok_def after_item_def)
  qed
  show "line_items p ''@end_call'' True = (after_item p i, [i])" if "i = EndCall"
  proof -
    have "strip ''@end_call'' = ''@end_call'' \<and> starts_with ''@'' ''@end_call'' \<and> \<not> slow_at ''@end_call'' \<and>
        ci_at ''@end_call'' ''@end_call''" by code_simp
    with d [of "''@end_call''"] show ?thesis
      using assms(1) that by (simp add: directive_def item_ok_def after_item_def)
  qed
  show "line_items p (''@hold '' @ hold_text r) True = (after_item p i, [i])" if "i = HoldTurn r"
  proof -
    let ?l = "''@hold '' @ hold_text r"
    have "list_all (\<lambda>r. let l = ''@hold '' @ hold_text r in strip l = l \<and> starts_with ''@'' l \<and> \<not> slow_at l \<and>
        \<not> ci_at ''@end_call'' l \<and> hd (words l) = ''@hold'' \<and>
        find (\<lambda>r. length (words l) = 2 \<and> words l ! 1 = hold_text r) HOLD_REASONS = Some r) HOLD_REASONS"
      by code_simp
    moreover have "r \<in> set HOLD_REASONS" by (cases r) (simp_all add: HOLD_REASONS_def)
    ultimately have f: "strip ?l = ?l" "starts_with ''@'' ?l" "\<not> slow_at ?l" "\<not> ci_at ''@end_call'' ?l"
      "hd (words ?l) = ''@hold''" "find (\<lambda>r. length (words ?l) = 2 \<and> words ?l ! 1 = hold_text r) HOLD_REASONS = Some r"
      unfolding list_all_iff Let_def by blast+
    have lane: "pp_lane p = CpLane" "\<not> pp_paused p" using assms(1) that by (simp_all add: item_ok_def)
    have "directive p ?l = pause_item p (HoldTurn r) ?l"
      unfolding directive_def Let_def if_not_P [OF f(4)] if_P [OF f(5)] f(6) using lane(1) by simp
    with d [OF f(1-3)] lane(2) that show ?thesis by (simp add: pause_item_def after_item_def)
  qed
qed

lemma split_on_join: "list_all (\<lambda>l. c \<notin> set l) ls \<Longrightarrow> ls \<noteq> [] \<Longrightarrow> split_on c (join [c] ls) = ls"
proof (induction ls)
  case (Cons l ls)
  then show ?case by (cases ls) (simp_all add: join_def split_on_last split_on_sep)
qed simp

text \<open>A sentence joined to a spoken line gives its items after those of the line.\<close>

lemma joined_line:
  assumes "speakable l" "closing_mark (last l)" "speakable s" "breaks False s = [s]" "\<not> hushed p" "pp_emitted p = 0"
  shows "speakable (l @ CHR '' '' # s)"
    "line_items p (l @ CHR '' '' # s) True = (p, snd (line_items p l True) @ sentence_items s)"
proof -
  show sp: "speakable (l @ CHR '' '' # s)" using speakable_joined assms(1-3) by blast
  have "l \<noteq> []" "s \<noteq> []" "\<not> is_space (hd s)"
    using assms(1,3) by (auto simp: speakable_iff strip_same)
  then have "breaks False (l @ CHR '' '' # s) = breaks False l @ [s]"
    using breaks_joined [OF assms(2)] assms(4) by simp
  moreover have "nonempty (ws @ [s]) = nonempty ws @ [s]" for ws
    using \<open>s \<noteq> []\<close> by (simp add: nonempty_def)
  ultimately show "line_items p (l @ CHR '' '' # s) True = (p, snd (line_items p l True) @ sentence_items s)"
    using speech_line [OF sp assms(5,6)] speech_line [OF assms(1,5,6)] by simp
qed

lemma after_item_kept:
  "pp_lane (after_item p i) = pp_lane p" "pp_emitted (after_item p i) = pp_emitted p"
  by (cases i; simp add: after_item_def)+

lemma spoken_items:
  assumes "speakable s"
  shows "said (sentence_items s) = [Speech s]" "\<not> has_inline s \<Longrightarrow> sentence_items s = [Speech s]"
  using assms by (simp_all add: sentence_items_def)

lemma line_list_snoc:
  "line_list p (ls @ [l]) = (let (q, xs) = line_list p ls; (r, ys) = line_items q l True in (r, xs @ ys))"
  by (simp add: line_list_append Let_def case_prod_unfold)

definition plain_lines :: "string list \<Rightarrow> bool" where
  "plain_lines ls \<longleftrightarrow> list_all (\<lambda>l. CHR 0x0A \<notin> set l) ls"

lemma format_again:
  assumes "line_list p0 ls = (p, xs)" "pp_emitted p0 = 0" "turn_ok strict p items" "plain_lines ls"
    "joinable \<longrightarrow> ls \<noteq> [] \<and> speakable (last ls)"
  shows "\<exists>ks ys. format_items ls joinable items = Inr ks \<and> snd (line_list p0 ks) = ys \<and> plain_lines ks \<and>
    said ys = said xs @ items \<and> (strict \<longrightarrow> ys = xs @ items) \<and> (ks = [] \<longrightarrow> xs = [] \<and> items = [])"
  using assms(1,3-)
proof (induction items arbitrary: ls joinable p xs)
  case Nil
  then show ?case by auto
next
  case (Cons i items)
  have pe: "pp_emitted p = 0" using line_list_kept(4) [OF assms(2), of ls] Cons(2) by simp
  have i: "item_ok strict p i" and rest: "turn_ok strict (after_item p i) items" using Cons(3) by simp_all
  have single: ?case
    if f: "format_items ls joinable (i # items) = format_items (ls @ [l]) j items" and l: "CHR 0x0A \<notin> set l"
      and it: "line_items p l True = (after_item p i, zs)" and z: "said zs = [i]" "strict \<longrightarrow> zs = [i]"
      and j: "j \<longrightarrow> speakable l" for l zs j
  proof -
    have "line_list p0 (ls @ [l]) = (after_item p i, xs @ zs)" using Cons(2) it by (simp add: line_list_snoc)
    moreover have "plain_lines (ls @ [l])" using Cons(4) l by (simp add: plain_lines_def)
    ultimately show ?thesis using Cons(1) [OF _ rest, of "ls @ [l]" "xs @ zs" j] f z j by auto
  qed
  show ?case
  proof (cases i)
    case (Speech s)
    have s: "\<not> hushed p" "speakable s" "breaks False s = [s]" "strict \<longrightarrow> \<not> has_inline s"
      using i Speech by (simp_all add: item_ok_def)
    have a: "after_item p i = p" using Speech by (simp add: after_item_def)
    have z: "said (sentence_items s) = [i]" "strict \<longrightarrow> sentence_items s = [i]"
      using spoken_items [OF s(2)] s(4) Speech by auto
    show ?thesis
    proof (cases "joinable \<and> closing_mark (last (last ls))")
      case True
      then have j: "ls \<noteq> []" "speakable (last ls)" using Cons(5) by auto
      let ?l = "last ls" and ?t = "last ls @ CHR '' '' # s"
      obtain q ws where q: "line_list p0 (butlast ls) = (q, ws)" by fastforce
      have ls: "line_list p0 ls = (fst (line_items q ?l True), ws @ snd (line_items q ?l True))"
        using line_list_snoc [of p0 "butlast ls" ?l] j(1) q by (simp add: case_prod_unfold Let_def)
      have qe: "pp_emitted q = 0" using line_list_kept(4) [OF assms(2), of "butlast ls"] q by simp
      have "\<not> hushed q"
      proof
        assume h: "hushed q"
        then have "line_items q ?l True = (q, [ParseIssue SpeechAfterPause ?l])"
          using j(2) by (auto simp: line_items_def Let_def hushed_def speakable_iff starts_with_at)
        with ls Cons(2) h s(1) show False by simp
      qed
      note jl = joined_line [OF j(2) _ s(2,3) this qe]
      have pq: "p = q" "xs = ws @ snd (line_items q ?l True)"
        using ls Cons(2) speech_line [OF j(2) \<open>\<not> hushed q\<close> qe] by simp_all
      have "line_list p0 (butlast ls @ [?t]) = (p, xs @ sentence_items s)"
        using line_list_snoc [of p0 "butlast ls" ?t] q jl(2) True pq by simp
      moreover have "plain_lines (butlast ls @ [?t])"
        using Cons(4) jl(1) True by (auto simp: plain_lines_def list_all_iff speakable_iff dest: in_set_butlastD)
      moreover have "format_items ls joinable (i # items) = format_items (butlast ls @ [?t]) True items"
        using Speech s(2) True by simp
      ultimately show ?thesis
        using Cons(1) [OF _ rest [unfolded a], of "butlast ls @ [?t]" "xs @ sentence_items s" True] jl(1) True z by auto
    next
      case False
      have "line_items p s True = (after_item p i, sentence_items s)"
        using speech_line [OF s(2,1) pe] s(2,3) a by (simp add: nonempty_def speakable_iff)
      moreover have "format_items ls joinable (i # items) = format_items (ls @ [s]) True items"
        using Speech s(2) False by auto
      ultimately show ?thesis using single z s(2) by (simp add: speakable_iff)
    qed
  next
    case (Relay t s kvs)
    have ok: "relay_ok strict (pp_lane p) i (relay_text t s kvs)" and a: "after_item p i = p"
      using i Relay by (simp_all add: item_ok_def after_item_def)
    let ?s = "relay_text t s kvs"
    have r: "CHR 0x0A \<notin> set ?s" "said (relay_items (pp_lane p) ?s) = [i]" "strict \<longrightarrow> relay_items (pp_lane p) ?s = [i]"
      using ok unfolding relay_ok_def by blast+
    have f: "format_items ls joinable (i # items) = format_items (ls @ [''@slow: '' @ ?s]) False items"
      using Relay by simp
    show ?thesis
      by (rule single [OF f _ _ r(2,3)]) (use relay_line [OF ok pe] a r(1) in simp_all)
  next
    case (HoldTurn r)
    have "CHR 0x0A \<notin> set (hold_text r)" by (cases r) (simp_all add: hold_text_def)
    then show ?thesis using directive_line(1) [OF i pe HoldTurn] HoldTurn
      by (intro single [of "''@hold '' @ hold_text r" False "[i]"]) simp_all
  next
    case WaitTurn
    then show ?thesis using directive_line(2) [OF i pe WaitTurn]
      by (intro single [of "''@wait''" False "[i]"]) simp_all
  next
    case EndCall
    then show ?thesis using directive_line(3) [OF i pe EndCall]
      by (intro single [of "''@end_call''" False "[i]"]) simp_all
  next
    case (ParseIssue r s)
    with i show ?thesis by (simp add: item_ok_def)
  qed
qed

lemma empty_line: "snd (line_items p [] True) = []"
proof -
  have "nonempty (drop n [[]]) = []" for n by (cases n) (simp_all add: nonempty_def)
  then show ?thesis by (simp add: line_items_def Let_def strip_def starts_with_def clean_Nil)
qed

lemma said_whole:
  "said (whole_turn p s) = said (snd (line_list p (lines_of s)))"
  "no_issue (whole_turn p s) \<Longrightarrow> whole_turn p s = snd (line_list p (lines_of s))"
  by (simp add: whole_turn_def Let_def)
    (cases "speaks (snd (line_list p (lines_of s)))"; simp add: whole_turn_def Let_def)

text \<open>
  C13. The canonical text is a fixpoint: for any text, what the parser keeps of it (its items without
  the counted issues) has a canonical text, that text parses without an error to the same kept
  items, and if there was no issue at all, to exactly the same items.
\<close>

theorem canonical_text_parses_back:
  assumes "parse_turn profiles s lane name = Inr items"
  shows "\<exists>t again. format_turn (said items) = Inr t \<and> parse_turn profiles t lane name = Inr again \<and>
    said again = said items \<and> (no_issue items \<longrightarrow> again = items)"
proof -
  obtain p where p: "new_parser profiles lane name = Inr p" "items = whole_turn p s"
    using assms by (auto simp: parse_whole and_then_def split: sum.splits)
  have pe: "pp_emitted p = 0" using new_parser_fresh [OF p(1)] by (simp add: fresh_parser_def)
  let ?xs = "snd (line_list p (lines_of s))"
  have g: "gives p (line_list p (lines_of s))"
    using lines_give [OF pe] split_on_pieces by (auto simp: list_all_iff)
  have sx: "said items = said ?xs" "no_issue items \<Longrightarrow> items = ?xs" using said_whole [of p s] p(2) by auto
  have "turn_ok (no_issue items) p (said items)"
    using g sx by (auto simp: gives_def intro: turn_ok_mono)
  then obtain ks ys where ks: "format_items [] False (said items) = Inr ks" "snd (line_list p ks) = ys"
    "plain_lines ks" "said ys = said items" "no_issue items \<longrightarrow> ys = said items" "ks = [] \<longrightarrow> said items = []"
    using format_again [of p "[]" p "[]" "no_issue items" "said items" False] pe by (auto simp: plain_lines_def)
  let ?t = "join [CHR 0x0A] ks"
  have w: "snd (line_list p (lines_of ?t)) = ys"
  proof (cases ks)
    case Nil
    then have "ys = []" using ks(2) by simp
    with Nil show ?thesis by (simp add: join_def empty_line case_prod_unfold Let_def)
  next
    case (Cons k k')
    then have "lines_of ?t = ks" using split_on_join [of "CHR 0x0A" ks] ks(3) by (simp add: plain_lines_def)
    with ks(2) show ?thesis by simp
  qed
  have "whole_turn p ?t = items" if "no_issue items"
  proof -
    have y: "ys = items" using that ks(5) no_issue_said by metis
    have "speaks ?xs"
    proof (rule ccontr)
      assume "\<not> speaks ?xs"
      then have "items = ?xs @ [ParseIssue EmptyTurn []]" using p(2) by (simp add: whole_turn_def Let_def)
      with that show False by simp
    qed
    moreover have x: "items = ?xs" using sx(2) that .
    ultimately have "speaks ys" "ys = items" using y by metis+
    then show ?thesis unfolding whole_turn_def Let_def w by simp
  qed
  then show ?thesis
    using ks(1,4) said_whole(1) [of p ?t] w p(1)
    by (intro exI [of _ ?t] exI [of _ "whole_turn p ?t"]) (simp add: format_turn_def parse_whole)
qed

definition sample_text :: string where
  "sample_text = ''FIRST: Hello there. Can you wait?'' @ [CHR 0x0A] @ ''@SLOW: fact fee = 5; term=12'' @ [CHR 0x0A] @ ''@hold offer''"

theorem canonical_text_parses_back_witness:
  "\<exists>t. format_turn [Speech ''Hello there.'', Speech ''Can you wait?'',
        Relay RelayFact [] [(''fee'', ''5''), (''term'', ''12'')], HoldTurn HoldOffer] = Inr t \<and>
     parse_turn [] t CpLane None = Inr [Speech ''Hello there.'', Speech ''Can you wait?'',
        Relay RelayFact [] [(''fee'', ''5''), (''term'', ''12'')], HoldTurn HoldOffer]"
proof -
  have "parse_turn [] sample_text CpLane None = Inr [Speech ''Hello there.'', Speech ''Can you wait?'',
      Relay RelayFact [] [(''fee'', ''5''), (''term'', ''12'')], HoldTurn HoldOffer]"
    by code_simp
  from canonical_text_parses_back [OF this] show ?thesis by (auto simp: no_issue_def)
qed

end
