(* ===== verification/Views.thy ===== *)
theory Views
  imports Fold Grammar Llm_Contract
begin

text \<open>
  \<open>contract/views.py\<close>: the allow-list views of the blackboard. \<open>view_cp\<close> is what the voice on the
  call may see, \<open>view_user\<close> what the user's chat may see, \<open>view_slow\<close> what one step of Slow may see.
  Building a view validates it; a validation error is an \<open>Inl\<close>.
\<close>

(* contract/base.py 23-23 MAX_BRIEF *)
definition MAX_BRIEF :: nat where "MAX_BRIEF = 800"

(* contract/views.py 42-42 USER_TRIGGERS *)
definition USER_TRIGGERS :: "trigger_kind list" where
  "USER_TRIGGERS = [TrigUserMsg, TrigSlowMsg, TrigApprovalCard, TrigSessionStart]"

(* contract/views.py 45-48 Trigger *)
record trigger =
  tg_kind :: trigger_kind
  tg_msg_id :: "string option"
  tg_wait_s :: "int option"

(* contract/views.py 48-56 Trigger._args *)
definition trigger_valid :: "trigger \<Rightarrow> bool" where
  "trigger_valid t \<longleftrightarrow>
     (case tg_wait_s t of None \<Rightarrow> True | Some s \<Rightarrow> 0 \<le> s) \<and>
     (tg_msg_id t \<noteq> None) = (tg_kind t = TrigSlowMsg) \<and>
     (tg_wait_s t \<noteq> None) = (tg_kind t = TrigHoldWait)"

(* contract/views.py 59-78 FastView *)
record fast_view =
  fv_lane :: lane
  fv_brief :: string
  fv_private_summary :: "string option"
  fv_public_summary :: string
  fv_action_log :: "string list"
  fv_offers :: "offer_public list"
  fv_public_facts :: "public_fact list"
  fv_pending_approval :: "approval_card option"
  fv_guidance :: "guide list"
  fv_hold :: "hold_state option"
  fv_status :: case_status
  fv_transcript :: "line list"
  fv_trigger :: trigger
  fv_slow_msg :: "slow_to_fast option"

text \<open>The bounds of the fields.\<close>

(* contract/views.py 63-72 FastView *)
definition fast_view_bounded :: "fast_view \<Rightarrow> bool" where
  "fast_view_bounded v \<longleftrightarrow>
     length (fv_brief v) \<le> MAX_BRIEF \<and>
     (case fv_private_summary v of None \<Rightarrow> True | Some s \<Rightarrow> length s \<le> MAX_PRIVATE_SUMMARY) \<and>
     length (fv_public_summary v) \<le> MAX_PUBLIC_TEXT \<and>
     length (fv_offers v) \<le> MAX_OFFERS \<and> length (fv_guidance v) \<le> MAX_GUIDES"

(* contract/views.py 80-94 FastView._lane_fields *)
definition fast_view_lane_fields :: "fast_view \<Rightarrow> unit outcome" where
  "fast_view_lane_fields v =
     (if (tg_kind (fv_trigger v) \<in> set USER_TRIGGERS) \<noteq> (fv_lane v = UserLane)
      then Inl (ValidationError ''not a trigger of the lane'')
      else if fv_lane v = CpLane \<and>
        (fv_private_summary v \<noteq> None \<or> fv_pending_approval v \<noteq> None \<or> fv_slow_msg v \<noteq> None)
      then Inl (ValidationError ''FastView[cp] carries no private or Slow text'')
      else if fv_lane v \<noteq> CpLane \<and> (fv_guidance v \<noteq> [] \<or> fv_hold v \<noteq> None \<or> fv_public_facts v \<noteq> [])
      then Inl (ValidationError ''guidance, hold and facts are cp-lane fields'')
      else if (fv_slow_msg v \<noteq> None) \<noteq> (tg_kind (fv_trigger v) = TrigSlowMsg)
      then Inl (ValidationError ''slow_msg is set iff the trigger is slow_msg'')
      else if tg_kind (fv_trigger v) = TrigApprovalCard \<and> fv_pending_approval v = None
      then Inl (ValidationError ''an approval_card trigger needs the pending card'')
      else Inr ())"

definition new_fast_view :: "fast_view \<Rightarrow> fast_view outcome" where
  "new_fast_view v =
     (if \<not> fast_view_bounded v then Inl (ValidationError ''FastView'')
      else and_then (fast_view_lane_fields v) (\<lambda>_. Inr v))"

definition fast_view_valid :: "fast_view \<Rightarrow> bool" where
  "fast_view_valid v \<longleftrightarrow> fast_view_bounded v \<and> fast_view_lane_fields v = Inr ()"

(* contract/views.py 97-119 SlowView *)
record slow_view =
  sv_mode :: slow_view_mode
  sv_brief :: string
  sv_public_summary :: string
  sv_private_summary :: string
  sv_relays :: "fast_to_slow list"
  sv_offers :: "offer_public list"
  sv_public_facts :: "public_fact list"
  sv_case_facts :: "case_fact list"
  sv_mandate :: "mandate option"
  sv_pending_approval :: "approval_card option"
  sv_approvals :: "approval list"
  sv_status :: case_status
  sv_epoch :: int
  sv_fences :: "fence list"
  sv_cp_hold :: "hold_state option"
  sv_cp_strikes :: int
  sv_transcripts :: "(lane, line list) dict"

text \<open>The pending message a \<open>slow_msg\<close> trigger voices.\<close>

(* contract/views.py 123-129 view_user *)
definition pending_msg :: "blackboard \<Rightarrow> trigger \<Rightarrow> slow_to_fast option outcome" where
  "pending_msg bb t =
     (if tg_kind t \<noteq> TrigSlowMsg then Inr None
      else case filter (\<lambda>m. Some (s2f_msg_id m) = tg_msg_id t) (pending_for bb UserLane) of
          [] \<Rightarrow> Inl (ValueError ''no pending ASK_USER/TELL_USER'')
        | m # _ \<Rightarrow>
            if s2f_ty m \<notin> {ASK_USER, TELL_USER} then Inl (ValueError ''no pending ASK_USER/TELL_USER'')
            else Inr (Some m))"

(* contract/views.py 122-142 view_user *)
definition view_user :: "blackboard \<Rightarrow> trigger \<Rightarrow> string \<Rightarrow> fast_view outcome" where
  "view_user bb t brief =
     and_then (pending_msg bb t) (\<lambda>m. new_fast_view
       \<lparr>fv_lane = UserLane, fv_brief = brief, fv_private_summary = Some (priv_summary (bb_private bb)),
        fv_public_summary = pub_summary (bb_public bb), fv_action_log = pub_action_log (bb_public bb),
        fv_offers = dvals (pub_offers (bb_public bb)), fv_public_facts = [],
        fv_pending_approval = priv_pending_approval (bb_private bb), fv_guidance = [], fv_hold = None,
        fv_status = pub_status (bb_public bb), fv_transcript = ch_lines (channel_of bb UserLane),
        fv_trigger = t, fv_slow_msg = m\<rparr>)"

(* contract/views.py 145-159 view_cp *)
definition view_cp :: "blackboard \<Rightarrow> trigger \<Rightarrow> string \<Rightarrow> fast_view outcome" where
  "view_cp bb t brief =
     (let public = bb_public bb in new_fast_view
       \<lparr>fv_lane = CpLane, fv_brief = brief, fv_private_summary = None,
        fv_public_summary = pub_summary public, fv_action_log = pub_action_log public,
        fv_offers = dvals (pub_offers public), fv_public_facts = dvals (pub_facts public),
        fv_pending_approval = None, fv_guidance = pub_guidance_cp public, fv_hold = pub_cp_hold public,
        fv_status = pub_status public, fv_transcript = ch_lines (channel_of bb CpLane),
        fv_trigger = t, fv_slow_msg = None\<rparr>)"

(* contract/views.py 162-183 view_slow *)
definition view_slow :: "blackboard \<Rightarrow> slow_view_mode \<Rightarrow> string \<Rightarrow> slow_view" where
  "view_slow bb mode brief =
     \<lparr>sv_mode = mode, sv_brief = brief, sv_public_summary = pub_summary (bb_public bb),
      sv_private_summary = priv_summary (bb_private bb), sv_relays = bb_f2s_pending bb,
      sv_offers = dvals (pub_offers (bb_public bb)), sv_public_facts = dvals (pub_facts (bb_public bb)),
      sv_case_facts = dvals (priv_case_facts (bb_private bb)), sv_mandate = priv_mandate (bb_private bb),
      sv_pending_approval = priv_pending_approval (bb_private bb),
      sv_approvals = dvals (priv_approvals (bb_private bb)), sv_status = pub_status (bb_public bb),
      sv_epoch = bb_epoch bb, sv_fences = bb_fences bb, sv_cp_hold = pub_cp_hold (bb_public bb),
      sv_cp_strikes = ch_strikes (channel_of bb CpLane),
      sv_transcripts = (if mode = Transcript then map (\<lambda>(l, c). (l, ch_lines c)) (bb_channels bb) else [])\<rparr>"

end
