(* ===== verification/Render.thy ===== *)
theory Render
  imports Views
begin

text \<open>
  \<open>contract/protocol.py\<close>, the Fast renderer: a view and a profile give the two messages of a prompt,
  within the context budget. The table of profiles is data and an argument; \<open>str.format\<close> is modelled
  for plain replacement fields, which are all the templates use.
\<close>

section \<open>Texts of the values\<close>

(* contract/protocol.py 44-44 CONTEXT_BUDGET_CHARS *)
definition CONTEXT_BUDGET_CHARS :: nat where "CONTEXT_BUDGET_CHARS = 12000"

(* contract/protocol.py 46-46 NONE *)
definition NONE_TEXT :: string where "NONE_TEXT = ''(none)''"

definition OMITTED_LINES :: string where "OMITTED_LINES = ''(earlier conversation omitted)''"

definition OMITTED_ACTIONS :: string where "OMITTED_ACTIONS = ''- (earlier actions omitted)''"

definition status_text :: "case_status \<Rightarrow> string" where
  "status_text s = (case s of
      INTAKE \<Rightarrow> ''INTAKE'' | MANDATED \<Rightarrow> ''MANDATED'' | IN_CALL \<Rightarrow> ''IN_CALL''
    | AWAITING_APPROVAL \<Rightarrow> ''AWAITING_APPROVAL'' | COMMIT_AUTHORIZED \<Rightarrow> ''COMMIT_AUTHORIZED''
    | COMMITTED \<Rightarrow> ''COMMITTED'' | EVIDENCE_PENDING \<Rightarrow> ''EVIDENCE_PENDING''
    | NEEDS_REPLAN \<Rightarrow> ''NEEDS_REPLAN'' | VERIFIED_COMPLETE \<Rightarrow> ''VERIFIED_COMPLETE''
    | VERIFIED_NO_DEAL \<Rightarrow> ''VERIFIED_NO_DEAL'' | ESCALATED \<Rightarrow> ''ESCALATED'' | ABANDONED \<Rightarrow> ''ABANDONED''
    | CLOSED_NO_ACTION \<Rightarrow> ''CLOSED_NO_ACTION'')"

definition offer_status_text :: "offer_status \<Rightarrow> string" where
  "offer_status_text s = (case s of
      OfferOpen \<Rightarrow> ''open'' | OfferWithdrawn \<Rightarrow> ''withdrawn'' | OfferExpired \<Rightarrow> ''expired''
    | OfferDeclined \<Rightarrow> ''declined'' | OfferAccepted \<Rightarrow> ''accepted'')"

definition slot_status_text :: "slot_status \<Rightarrow> string" where
  "slot_status_text s = (case s of
      SlotUnknown \<Rightarrow> ''unknown'' | SlotHeard \<Rightarrow> ''heard'' | SlotConfirmed \<Rightarrow> ''confirmed'')"

definition s2f_word :: "s2f_type \<Rightarrow> string" where
  "s2f_word t = (case t of
      ASK_USER \<Rightarrow> ''ask_user'' | TELL_USER \<Rightarrow> ''tell_user'' | GUIDE \<Rightarrow> ''guide''
    | APPROVAL_NOTICE \<Rightarrow> ''approval_notice'' | END_CALL \<Rightarrow> ''end_call'')"

definition two_digits :: "int \<Rightarrow> string" where
  "two_digits n = (if n < 10 then ''0'' @ dec_int n else dec_int n)"

(* contract/protocol.py 89-95 _value *)
definition slot_text :: "readback_slot \<Rightarrow> string" where
  "slot_text s =
     (if rs_unit s = UsdMinor \<and> isdigit (rs_value s)
      then (let minor = int_of_digits (rs_value s) in ''$'' @ dec_int (minor div 100) @ ''.'' @ two_digits (minor mod 100))
      else if rs_unit s = Months then rs_value s @ '' months''
      else rs_value s)"

definition or_none :: "string \<Rightarrow> string" where
  "or_none s = (if s = [] then NONE_TEXT else s)"

(* contract/protocol.py 98-102 _offer *)
definition offer_row :: "offer_public \<Rightarrow> string" where
  "offer_row off =
     ''- '' @ o_ref off @ '' (revision '' @ dec_int (o_revision off) @ '', '' @ offer_status_text (o_status off) @ ''): '' @
     or_none (join ''; '' (map (\<lambda>s. rs_field s @ '' '' @ slot_text s @ '' ['' @ slot_status_text (rs_status s) @ '']'')
       (o_slots off)))"

text \<open>\<open>GuideSlotError\<close>, \<open>GuideMoveError\<close> and \<open>ContextBudgetError\<close> are kinds of \<open>ValueError\<close>.\<close>

(* contract/protocol.py 105-119 _resolve *)
definition resolve_slot :: "string \<Rightarrow> fast_view \<Rightarrow> string outcome" where
  "resolve_slot slot v =
     (let which = before (CHR '':'') slot; rest = after (CHR '':'') slot; missing = Inl (ValueError ''guide slot'') in
      if which = ''fact''
      then (case find (\<lambda>f. pf_key f = rest) (fv_public_facts v) of None \<Rightarrow> missing | Some f \<Rightarrow> Inr (pf_value f))
      else
        let ref = before (CHR ''.'') rest; field = after (CHR ''.'') rest in
        case find (\<lambda>off. o_ref off = ref) (fv_offers v) of
          None \<Rightarrow> missing
        | Some off \<Rightarrow>
            if field = [] then Inr (''offer '' @ ref)
            else (case find (\<lambda>s. rs_field s = field) (o_slots off) of None \<Rightarrow> missing | Some s \<Rightarrow> Inr (slot_text s)))"

(* contract/protocol.py 122-129 _guide *)
definition guide_row :: "guide \<Rightarrow> fast_view \<Rightarrow> profile \<Rightarrow> string outcome" where
  "guide_row g v pr =
     (case dget (prof_moves pr) (g_move g) of
        None \<Rightarrow> Inl (ValueError ''the profile has no text for the move'')
      | Some s \<Rightarrow>
          if g_slots g = [] then Inr (''- '' @ s)
          else and_then (map_outcome (\<lambda>x. and_then (resolve_slot x v) (\<lambda>y. Inr (x @ '' = '' @ y))) (g_slots g))
            (\<lambda>resolved. Inr (''- '' @ s @ '' ('' @ join ''; '' resolved @ '')'')))"

text \<open>\<open>template.format(**fields)\<close>: doubled braces are braces, a field in braces is its value.\<close>

definition upto_brace :: "string \<Rightarrow> string" where
  "upto_brace s = takeWhile (\<lambda>c. c \<noteq> CHR 0x7D) s"

definition after_brace :: "string \<Rightarrow> string" where
  "after_brace s = tl (dropWhile (\<lambda>c. c \<noteq> CHR 0x7D) s)"

lemma after_brace_shorter: "length (after_brace s) \<le> length s"
  using length_dropWhile_le [of "\<lambda>c. c \<noteq> CHR 0x7D" s] by (simp add: after_brace_def)

function format_fields :: "(string \<times> string) list \<Rightarrow> string \<Rightarrow> string outcome" where
  "format_fields env [] = Inr []"
| "format_fields env (c # cs) =
     (if c = CHR 0x7B then
        (if cs \<noteq> [] \<and> hd cs = CHR 0x7B then and_then (format_fields env (tl cs)) (\<lambda>s. Inr (c # s))
         else if CHR 0x7D \<notin> set cs then Inl (ValueError ''expected } before end of string'')
         else
           case map_of env (upto_brace cs) of
             None \<Rightarrow> Inl (KeyError (upto_brace cs))
           | Some x \<Rightarrow> and_then (format_fields env (after_brace cs)) (\<lambda>s. Inr (x @ s)))
      else if c = CHR 0x7D then
        (if cs \<noteq> [] \<and> hd cs = CHR 0x7D then and_then (format_fields env (tl cs)) (\<lambda>s. Inr (c # s))
         else Inl (ValueError ''Single } encountered in format string''))
      else and_then (format_fields env cs) (\<lambda>s. Inr (c # s)))"
  by pat_completeness auto
termination
  by (relation "measure (\<lambda>(env, s). length s)") (auto simp: le_imp_less_Suc [OF after_brace_shorter])

definition int_opt_text :: "int option \<Rightarrow> string" where
  "int_opt_text n = (case n of None \<Rightarrow> ''None'' | Some i \<Rightarrow> dec_int i)"

definition trigger_word :: "trigger_kind \<Rightarrow> string" where
  "trigger_word k = (case k of
      TrigUserMsg \<Rightarrow> ''user_msg'' | TrigSlowMsg \<Rightarrow> ''slow_msg'' | TrigApprovalCard \<Rightarrow> ''approval_card''
    | TrigSessionStart \<Rightarrow> ''session_start'' | TrigRepSpoke \<Rightarrow> ''rep_spoke'' | TrigHoldWait \<Rightarrow> ''hold_wait''
    | TrigGuidance \<Rightarrow> ''guidance'' | TrigCallConnected \<Rightarrow> ''call_connected'')"

(* contract/protocol.py 132-140 _trigger *)
definition trigger_text :: "fast_view \<Rightarrow> profile \<Rightarrow> string outcome" where
  "trigger_text v pr =
     (case dget (prof_triggers pr) (tg_kind (fv_trigger v)) of
        None \<Rightarrow> Inl (KeyError (trigger_word (tg_kind (fv_trigger v))))
      | Some template \<Rightarrow>
          (case fv_slow_msg v of
             Some m \<Rightarrow> format_fields [(''kind'', s2f_word (s2f_ty m)), (''text'', s2f_text m)] template
           | None \<Rightarrow>
               (case (tg_kind (fv_trigger v), fv_pending_approval v) of
                  (TrigApprovalCard, Some c) \<Rightarrow> format_fields [(''readback_text'', card_readback_text c)] template
                | (TrigHoldWait, _) \<Rightarrow> format_fields [(''n'', int_opt_text (tg_wait_s (fv_trigger v)))] template
                | _ \<Rightarrow> Inr template)))"

section \<open>Sections and the budget\<close>

(* contract/protocol.py 64-66 _BLOCKS *)
definition BLOCKS :: "section_kind list" where
  "BLOCKS = [SecActions, SecOffers, SecGuidance, SecTranscript]"

definition newest :: "nat \<Rightarrow> 'a list \<Rightarrow> 'a list" where
  "newest n xs = drop (length xs - n) xs"

(* contract/protocol.py 143-160 _block *)
definition block_text :: "section_kind \<Rightarrow> fast_view \<Rightarrow> profile \<Rightarrow> nat \<Rightarrow> nat \<Rightarrow> string outcome" where
  "block_text k v pr n_lines n_actions =
     and_then
       (if k = SecActions then
          Inr ((if n_actions < length (fv_action_log v) then [OMITTED_ACTIONS] else []) @
               map (\<lambda>a. ''- '' @ a) (newest n_actions (fv_action_log v)))
        else if k = SecOffers then Inr (map offer_row (fv_offers v))
        else if k = SecGuidance then map_outcome (\<lambda>g. guide_row g v pr) (fv_guidance v)
        else Inr ((if n_lines < length (fv_transcript v) then [OMITTED_LINES] else []) @
               map (\<lambda>x. (case l_speaker x of Partner \<Rightarrow> fst (prof_labels pr) | Agent \<Rightarrow> snd (prof_labels pr)) @ '': '' @ l_text x)
                 (newest n_lines (fv_transcript v))))
       (\<lambda>rows. Inr (or_none (join [CHR 0x0A] rows)))"

definition opt_text :: "string option \<Rightarrow> string" where
  "opt_text s = or_none (case s of None \<Rightarrow> [] | Some x \<Rightarrow> x)"

(* contract/protocol.py 163-177 _inline *)
definition inline_text :: "section_kind \<Rightarrow> fast_view \<Rightarrow> profile \<Rightarrow> string outcome" where
  "inline_text k v pr =
     (case k of
        SecTrigger \<Rightarrow> trigger_text v pr
      | SecStatus \<Rightarrow> Inr (status_text (fv_status v))
      | SecHold \<Rightarrow>
          Inr (case fv_hold v of None \<Rightarrow> NONE_TEXT | Some h \<Rightarrow> ''on hold ('' @ hold_text (hold_reason_of h) @ '')'')
      | SecBrief \<Rightarrow> Inr (or_none (fv_brief v))
      | SecPrivateSummary \<Rightarrow> Inr (opt_text (fv_private_summary v))
      | SecPublicSummary \<Rightarrow> Inr (or_none (fv_public_summary v))
      | SecApproval \<Rightarrow> Inr (opt_text (map_option card_readback_text (fv_pending_approval v)))
      | _ \<Rightarrow> Inl (KeyError ''section''))"

(* contract/protocol.py 180-187 _content *)
definition content_text :: "fast_view \<Rightarrow> profile \<Rightarrow> nat \<Rightarrow> nat \<Rightarrow> string outcome" where
  "content_text v pr n_lines n_actions =
     and_then (map_outcome (\<lambda>(header, k).
         if k \<in> set BLOCKS
         then and_then (block_text k v pr n_lines n_actions) (\<lambda>s. Inr (header @ '':'' @ [CHR 0x0A] @ s))
         else and_then (inline_text k v pr) (\<lambda>s. Inr (header @ '': '' @ s))) (prof_sections pr))
       (\<lambda>parts. Inr (join [CHR 0x0A, CHR 0x0A] (parts @ [prof_closing pr])))"

text \<open>One trimming loop: what is left of \<open>n\<close>, and the text there.\<close>

(* contract/protocol.py 203-208 render_messages *)
fun trim_to :: "(nat \<Rightarrow> string outcome) \<Rightarrow> int \<Rightarrow> nat \<Rightarrow> (nat \<times> string) outcome" where
  "trim_to f room 0 = and_then (f 0) (\<lambda>s. Inr (0, s))"
| "trim_to f room (Suc n) =
     and_then (f (Suc n)) (\<lambda>s. if int (length s) > room then trim_to f room n else Inr (Suc n, s))"

(* contract/protocol.py 190-214 render_messages *)
definition render_messages :: "(string, profile) dict \<Rightarrow> fast_view \<Rightarrow> string \<Rightarrow> (chat_message \<times> chat_message) outcome" where
  "render_messages profiles v name =
     (case dget profiles name of
        None \<Rightarrow> Inl (KeyError name)
      | Some spec \<Rightarrow>
          if prof_lane spec \<noteq> fv_lane v then Inl (ValueError ''the profile renders the other lane'')
          else
            let room = int CONTEXT_BUDGET_CHARS - int (length (prof_system spec)) in
            and_then (trim_to (\<lambda>n. content_text v spec n (length (fv_action_log v))) room (length (fv_transcript v)))
              (\<lambda>(n_lines, _).
            and_then (trim_to (\<lambda>m. content_text v spec n_lines m) room (length (fv_action_log v)))
              (\<lambda>(_, content).
            if int (length content) > room then Inl (ValueError ''the prompt exceeds the budget after trimming'')
            else Inr (\<lparr>cm_role = ''system'', cm_content = prof_system spec\<rparr>,
                      \<lparr>cm_role = ''user'', cm_content = content\<rparr>))))"

text \<open>The completion prompt: the chat template of the tokenizer is a parameter.\<close>

(* contract/protocol.py 45-45 EMPTY_THINK *)
definition EMPTY_THINK :: string where
  "EMPTY_THINK = ''<think>'' @ [CHR 0x0A, CHR 0x0A] @ ''</think>'' @ [CHR 0x0A, CHR 0x0A]"

(* contract/protocol.py 217-228 render_prompt *)
definition render_prompt ::
  "(chat_message list \<Rightarrow> string) \<Rightarrow> (string, profile) dict \<Rightarrow> fast_view \<Rightarrow> string \<Rightarrow> string outcome" where
  "render_prompt template profiles v name =
     and_then (render_messages profiles v name) (\<lambda>(system, user).
       let s = template [system, user] in
       if drop (length s - length EMPTY_THINK) s \<noteq> EMPTY_THINK
       then Inl (ValueError ''the chat template did not end with the empty think'') else Inr s)"

end
