(* ===== verification/View_Facts.thy ===== *)
theory View_Facts
  imports Render Session_Facts
begin

text \<open>
  What the cp voice can see. The cp view reads the public state and the lines of the cp channel; an
  event changes those only if it is visible, and then in a way that depends on nothing else. So the
  private events of a session leave no trace in a cp prompt. Every view of a session is well formed.
\<close>

section \<open>The low part of the blackboard\<close>

definition low_part :: "blackboard \<Rightarrow> public_state \<times> line list" where
  "low_part bb = (bb_public bb, ch_lines (channel_of bb CpLane))"

lemma view_cp_low: "low_part bb = low_part bb' \<Longrightarrow> view_cp bb t brief = view_cp bb' t brief"
  by (simp add: view_cp_def low_part_def Let_def)

text \<open>The events that may change it: rep and agent lines of the call, guidance, public facts and summaries, offers, the status.\<close>

definition cp_visible :: "event \<Rightarrow> bool" where
  "cp_visible e \<longleftrightarrow> (case ev_payload e of
      PUttFinal lane _ _ _ \<Rightarrow> ev_type e = ''utt.final'' \<and> lane = ''cp''
    | PUttDelivered lane _ _ _ _ \<Rightarrow> ev_type e = ''utt.delivered'' \<and> lane = ''cp''
    | PS2F m \<Rightarrow> ev_type e = ''s2f.msg'' \<and> s2f_ty m = GUIDE
    | PFact p \<Rightarrow> ev_type e = ''fact.recorded'' \<and> fp_scope p \<noteq> ''private''
    | PHold _ _ \<Rightarrow> ev_type e = ''chan.hold''
    | PSummary sc _ \<Rightarrow> ev_type e = ''summary.updated'' \<and> sc = ''public''
    | POffer _ \<Rightarrow> ev_type e = ''offer.recorded''
    | PReadback _ \<Rightarrow> ev_type e = ''readback.updated''
    | PStatus _ _ \<Rightarrow> ev_type e = ''status.changed''
    | PVerbatim _ kind _ _ _ \<Rightarrow> ev_type e = ''speak.verbatim'' \<and> kind = ''decline''
    | _ \<Rightarrow> False)"

text \<open>What the low part takes from a visible event: its type, its payload and, of a hold, its time.\<close>

definition shown_part :: "event \<Rightarrow> string \<times> payload \<times> int" where
  "shown_part e = (ev_type e, ev_payload e, if ev_type e = ''chan.hold'' then ev_t_ms e else 0)"

definition low_step :: "public_state \<times> line list \<Rightarrow> string \<times> payload \<times> int \<Rightarrow> public_state \<times> line list" where
  "low_step s x = (case x of (ty, p, t) \<Rightarrow> case s of (pub, ls) \<Rightarrow> (case p of
      PUttFinal _ sp u txt \<Rightarrow>
        (pub, ls @ [\<lparr>l_utt_id = u, l_speaker = (if sp = ''partner'' then Partner else Agent), l_text = txt\<rparr>])
    | PUttDelivered _ u _ heard _ \<Rightarrow>
        (pub, if heard = [] then ls else ls @ [\<lparr>l_utt_id = u, l_speaker = Agent, l_text = heard\<rparr>])
    | PS2F m \<Rightarrow> (pub\<lparr>pub_guidance_cp := (case s2f_guide m of None \<Rightarrow> [] | Some g \<Rightarrow> [g])\<rparr>, ls)
    | PFact f \<Rightarrow>
        (pub\<lparr>pub_facts := dput (fp_key f)
           \<lparr>pf_key = fp_key f, pf_value = fp_value f, pf_source = (if fp_source f = Some ''cp_utt'' then CpUtt else Shareable),
            pf_source_ref = the (fp_source_ref f)\<rparr> (pub_facts pub)\<rparr>, ls)
    | PHold _ reason \<Rightarrow>
        (pub\<lparr>pub_cp_hold := map_option (\<lambda>r. \<lparr>hold_reason_of = r, hold_since_ms = t\<rparr>) reason\<rparr>, ls)
    | PSummary _ txt \<Rightarrow> (pub\<lparr>pub_summary := txt\<rparr>, ls)
    | POffer q \<Rightarrow>
        (pub\<lparr>pub_offers := dput (op_offer_ref q)
           \<lparr>o_ref = op_offer_ref q, o_revision = op_revision q,
            o_slots = map (\<lambda>s. s\<lparr>rs_status := SlotUnknown\<rparr>) (op_slots q),
            o_status = OfferOpen, o_expires_ms = op_expires_ms q, o_terms_hash = None\<rparr> (pub_offers pub)\<rparr>, ls)
    | PReadback r \<Rightarrow>
        (case dget (pub_offers pub) (rp_offer_ref r) of
           None \<Rightarrow> (pub, ls)
         | Some off \<Rightarrow> (pub\<lparr>pub_offers := dput (rp_offer_ref r)
             (off\<lparr>o_slots := map (set_status (rp_slot_statuses r)) (o_slots off), o_terms_hash := rp_terms_hash r\<rparr>)
             (pub_offers pub)\<rparr>, ls))
    | PStatus _ st \<Rightarrow> (pub\<lparr>pub_status := st\<rparr>, ls)
    | PVerbatim _ _ _ _ ref \<Rightarrow>
        (case dget (pub_offers pub) (str_of ref) of
           None \<Rightarrow> (pub, ls)
         | Some off \<Rightarrow> (pub\<lparr>pub_offers := dput (str_of ref) (off\<lparr>o_status := OfferDeclined\<rparr>) (pub_offers pub)\<rparr>, ls))
    | _ \<Rightarrow> (pub, ls)))"

text \<open>
  One reducer at a time: where it succeeds, the low part follows the event if it is visible and
  stays if it is not.
\<close>

definition follows :: "blackboard \<Rightarrow> event \<Rightarrow> blackboard \<Rightarrow> bool" where
  "follows bb e bb' \<longleftrightarrow>
     low_part bb' = (if cp_visible e then low_step (low_part bb) (shown_part e) else low_part bb)"


lemma unseen: "low_part m = low_part bb \<Longrightarrow> \<not> cp_visible e \<Longrightarrow> follows bb e m"
  by (simp add: follows_def)

lemma seen: "low_part m = low_step (low_part bb) (shown_part e) \<Longrightarrow> cp_visible e \<Longrightarrow> follows bb e m"
  by (simp add: follows_def)

lemma low_part_append [simp]:
  "low_part (append_line bb UserLane x) = low_part bb"
  "low_part (append_line bb CpLane x) = (fst (low_part bb), snd (low_part bb) @ [x])"
  by (simp_all add: low_part_def append_line_def Let_def channel_of_def dict_simps)

lemma low_part_strike [simp]:
  "low_part (bb\<lparr>bb_channels := dput CpLane ((channel_of bb CpLane)\<lparr>ch_strikes := n\<rparr>) (bb_channels bb)\<rparr>) = low_part bb"
  by (simp add: low_part_def channel_of_def dict_simps)

lemma low_part_public: "low_part (bb\<lparr>bb_public := p\<rparr>) = (p, snd (low_part bb))"
  by (simp add: low_part_def channel_of_def)

lemma low_part_kept:
  "bb_public m = bb_public bb \<Longrightarrow> bb_channels m = bb_channels bb \<Longrightarrow> low_part m = low_part bb"
  by (simp add: low_part_def channel_of_def)

lemma low_part_fst [simp]: "fst (low_part bb) = bb_public bb"
  by (simp add: low_part_def)

lemma low_part_eta [simp]: "(bb_public bb, snd (low_part bb)) = low_part bb"
  by (simp add: low_part_def)

lemma low_part_pending [simp]: "low_part (bb\<lparr>bb_s2f_pending := q\<rparr>) = low_part bb"
  by (rule low_part_kept) simp_all

lemma low_part_private [simp]: "low_part (bb\<lparr>bb_private := p\<rparr>) = low_part bb"
  by (rule low_part_kept) simp_all

lemma low_unnamed: "ev_type e \<notin> {''utt.final'', ''utt.delivered'', ''s2f.msg'', ''fact.recorded'', ''chan.hold'',
    ''summary.updated'', ''offer.recorded'', ''readback.updated'', ''status.changed'', ''speak.verbatim''} \<Longrightarrow>
  \<not> cp_visible e"
  by (cases "ev_payload e") (simp_all add: cp_visible_def)

named_theorems low_reducers

lemma low_user_msg [low_reducers]:
  "r_user_msg bb e = Inr m \<Longrightarrow> ev_type e = ''user.msg'' \<Longrightarrow> follows bb e m"
  by (auto simp: r_user_msg_def outcome_simps cp_visible_def intro!: unseen)

lemma low_utt_final [low_reducers]:
  "r_utt_final bb e = Inr m \<Longrightarrow> ev_type e = ''utt.final'' \<Longrightarrow> follows bb e m"
  by (auto simp: r_utt_final_def outcome_simps as_lane_def as_speaker_def cp_visible_def
      shown_part_def low_step_def split_beta follows_def split: if_splits)

lemma low_utt_delivered [low_reducers]:
  "r_utt_delivered bb e = Inr m \<Longrightarrow> ev_type e = ''utt.delivered'' \<Longrightarrow> follows bb e m"
  unfolding r_utt_delivered_def PUttDelivered_case
  by (elim exE conjE)
     (auto simp: follows_def outcome_simps as_lane_def cp_visible_def shown_part_def low_step_def
       split_beta split: if_splits)

lemma low_f2s [low_reducers]:
  "r_f2s bb e = Inr m \<Longrightarrow> ev_type e = ''f2s.msg'' \<Longrightarrow> follows bb e m"
  by (auto simp: r_f2s_def outcome_simps cp_visible_def intro!: unseen low_part_kept)

lemma low_s2f_voiced [low_reducers]:
  "r_s2f_voiced bb e = Inr m \<Longrightarrow> ev_type e = ''s2f.voiced'' \<Longrightarrow> follows bb e m"
  by (auto simp: r_s2f_voiced_def outcome_simps cp_visible_def intro!: unseen low_part_kept)

lemma low_hold [low_reducers]:
  "r_hold bb e = Inr m \<Longrightarrow> ev_type e = ''chan.hold'' \<Longrightarrow> follows bb e m"
  by (auto simp: r_hold_def outcome_simps cp_visible_def shown_part_def low_step_def split_beta
      low_part_public intro!: seen)

lemma low_strike [low_reducers]:
  "r_strike bb e = Inr m \<Longrightarrow> ev_type e = ''chan.strike'' \<Longrightarrow> follows bb e m"
  by (auto simp: r_strike_def Let_def cp_visible_def split: payload.splits intro!: unseen)

lemma low_summary [low_reducers]:
  "r_summary bb e = Inr m \<Longrightarrow> ev_type e = ''summary.updated'' \<Longrightarrow> follows bb e m"
  by (auto simp: r_summary_def outcome_simps cp_visible_def shown_part_def low_step_def split_beta
      low_part_public follows_def split: if_splits)

lemma low_post [low_reducers]:
  "r_post bb e = Inr m \<Longrightarrow> ev_type e = ''approval.post'' \<Longrightarrow> follows bb e m"
  by (auto simp: r_post_def outcome_simps cp_visible_def intro!: unseen)

lemma low_evidence [low_reducers]:
  "r_evidence bb e = Inr m \<Longrightarrow> ev_type e = ''evidence.recorded'' \<Longrightarrow> follows bb e m"
  by (auto simp: r_evidence_def outcome_simps cp_visible_def intro!: unseen low_part_kept)

lemma low_private_fact: "r_private_fact bb p = Inr m \<Longrightarrow> low_part m = low_part bb"
  by (auto simp: r_private_fact_def outcome_simps Let_def intro!: low_part_kept)

lemma low_public_fact:
  "r_public_fact bb p = Inr m \<Longrightarrow>
     low_part m = ((bb_public bb)\<lparr>pub_facts := dput (fp_key p)
       \<lparr>pf_key = fp_key p, pf_value = fp_value p,
        pf_source = (if fp_source p = Some ''cp_utt'' then CpUtt else Shareable),
        pf_source_ref = the (fp_source_ref p)\<rparr> (facts_of bb)\<rparr>, snd (low_part bb))"
  by (auto simp: r_public_fact_def as_fact_source_def outcome_simps Let_def low_part_public
      split: option.splits if_splits)

lemma low_fact [low_reducers]:
  "r_fact bb e = Inr m \<Longrightarrow> ev_type e = ''fact.recorded'' \<Longrightarrow> follows bb e m"
  by (auto simp: r_fact_def outcome_simps cp_visible_def shown_part_def low_step_def split_beta
      follows_def split: if_splits dest: low_private_fact low_public_fact)

lemma low_offer [low_reducers]:
  "r_offer bb e = Inr m \<Longrightarrow> ev_type e = ''offer.recorded'' \<Longrightarrow> follows bb e m"
  unfolding r_offer_def POffer_case if_Inl_eq_Inr Let_def
  by (auto simp: put_offer_Inr cp_visible_def shown_part_def low_step_def split_beta low_part_public
      intro!: seen)

lemma low_readback [low_reducers]:
  "r_readback bb e = Inr m \<Longrightarrow> ev_type e = ''readback.updated'' \<Longrightarrow> follows bb e m"
  unfolding r_readback_def PReadback_case if_Inl_eq_Inr Let_def
  by (auto simp: put_offer_Inr cp_visible_def shown_part_def low_step_def split_beta low_part_public
      split: option.splits if_splits intro!: seen)

lemma low_status [low_reducers]:
  "r_status bb e = Inr m \<Longrightarrow> ev_type e = ''status.changed'' \<Longrightarrow> follows bb e m"
  unfolding r_status_def PStatus_case if_Inl_eq_Inr
  by (auto simp: with_public_Inr cp_visible_def shown_part_def low_step_def split_beta low_part_public
      split: option.splits if_splits intro!: seen)


lemma low_verbatim [low_reducers]:
  "r_verbatim bb e = Inr m \<Longrightarrow> ev_type e = ''speak.verbatim'' \<Longrightarrow> follows bb e m"
  unfolding r_verbatim_def PVerbatim_case
  by (auto simp: and_then_eq_Inr put_offer_Inr cp_visible_def shown_part_def low_step_def split_beta
      low_part_public follows_def split: option.splits if_splits)

lemma low_fence [low_reducers]:
  "r_fence bb e = Inr m \<Longrightarrow> ev_type e = ''authority.fence'' \<Longrightarrow> follows bb e m"
  by (auto simp: r_fence_def outcome_simps cp_visible_def split: if_splits intro!: unseen low_part_kept)

lemma low_epoch [low_reducers]:
  "r_epoch bb e = Inr m \<Longrightarrow> ev_type e = ''authority.epoch'' \<Longrightarrow> follows bb e m"
  by (rule unseen [OF _ low_unnamed]) (auto elim!: epoch_cases intro!: low_part_kept)

lemma low_completion [low_reducers]:
  "r_completion bb e = Inr m \<Longrightarrow> ev_type e = ''completion.decided'' \<Longrightarrow> follows bb e m"
  by (auto simp: r_completion_def outcome_simps cp_visible_def intro!: unseen low_part_kept)

lemma low_mandate_proposed [low_reducers]:
  "r_mandate_proposed bb e = Inr m \<Longrightarrow> ev_type e = ''mandate.proposed'' \<Longrightarrow> follows bb e m"
  by (auto simp: r_mandate_proposed_def outcome_simps cp_visible_def intro!: unseen low_part_kept)

lemma low_mandate_decided [low_reducers]:
  "r_mandate_decided bb e = Inr m \<Longrightarrow> ev_type e = ''mandate.decided'' \<Longrightarrow> follows bb e m"
  by (auto simp: r_mandate_decided_def outcome_simps cp_visible_def Let_def split: option.splits
      intro!: unseen low_part_kept)

lemma low_approval_requested [low_reducers]:
  "r_approval_requested bb e = Inr m \<Longrightarrow> ev_type e = ''approval.requested'' \<Longrightarrow> follows bb e m"
  by (auto simp: r_approval_requested_def outcome_simps cp_visible_def Let_def
      split: option.splits if_splits intro!: unseen low_part_kept)

lemma low_approval_decided [low_reducers]:
  "r_approval_decided bb e = Inr m \<Longrightarrow> ev_type e = ''approval.decided'' \<Longrightarrow> follows bb e m"
  by (auto simp: r_approval_decided_def outcome_simps cp_visible_def Let_def
      split: option.splits if_splits intro!: unseen low_part_kept)

lemma low_authorized [low_reducers]:
  "r_authorized bb e = Inr m \<Longrightarrow> ev_type e = ''action.authorized'' \<Longrightarrow> follows bb e m"
  by (auto simp: r_authorized_def outcome_simps cp_visible_def intro!: unseen low_part_kept)

lemma low_released [low_reducers]:
  "r_released bb e = Inr m \<Longrightarrow> ev_type e = ''speak.released'' \<Longrightarrow> follows bb e m"
  by (rule unseen)
     (auto simp: r_released_def and_then_eq_Inr use_cap_def low_unnamed
       split: option.splits if_splits elim!: release_cap_Inr intro!: low_part_kept)

lemma low_revoked [low_reducers]:
  "r_revoked bb e = Inr m \<Longrightarrow> ev_type e = ''speak.revoked'' \<Longrightarrow> follows bb e m"
  by (rule unseen)
     (auto simp: r_revoked_def and_then_eq_Inr low_unnamed split: if_splits intro!: low_part_kept)

text \<open>A message to the cp voice keeps the newest guide only, so at most one is ever kept.\<close>

definition one_guide :: "blackboard \<Rightarrow> bool" where
  "one_guide bb \<longleftrightarrow> length (pub_guidance_cp (bb_public bb)) \<le> 1"

lemma s2f_guide_iff: "s2f_valid m \<Longrightarrow> (s2f_guide m = None) = (s2f_ty m \<noteq> GUIDE)"
  by (cases "s2f_ty m") (auto simp: s2f_valid_def)

lemma newest_of_one: "length xs \<le> 1 \<Longrightarrow> (if xs = [] then [] else [last xs]) = xs"
  by (cases xs) auto

lemma kept_guides:
  "one_guide bb \<Longrightarrow>
     (bb_public bb)\<lparr>pub_guidance_cp := (if pub_guidance_cp (bb_public bb) = [] then []
        else [last (pub_guidance_cp (bb_public bb))])\<rparr> = bb_public bb"
  by (simp add: newest_of_one one_guide_def)

lemma low_s2f:
  assumes r: "r_s2f bb e = Inr m" and t: "ev_type e = ''s2f.msg''" and one: "one_guide bb"
  shows "follows bb e m"
proof -
  from r obtain x where x: "ev_payload e = PS2F x" "s2f_valid x"
    by (auto simp: r_s2f_def outcome_simps)
  show ?thesis
  proof (cases "s2f_guide x")
    case None
    then have v: "\<not> cp_visible e" using x s2f_guide_iff [OF x(2)] by (simp add: cp_visible_def)
    have g: "low_part m = ((bb_public bb)\<lparr>pub_guidance_cp := (if pub_guidance_cp (bb_public bb) = [] then []
        else [last (pub_guidance_cp (bb_public bb))])\<rparr>, snd (low_part bb))"
      using r x(2) unfolding r_s2f_def x(1) None Let_def
      by (simp add: with_public_Inr low_part_public None)
    have "low_part m = low_part bb" unfolding g kept_guides [OF one] by simp
    with v show ?thesis by (simp add: unseen)
  next
    case (Some g)
    then have v: "cp_visible e" using x t s2f_guide_iff [OF x(2)] by (simp add: cp_visible_def)
    from r x Some have "low_part m = ((bb_public bb)\<lparr>pub_guidance_cp := [g]\<rparr>, snd (low_part bb))"
      by (auto simp: r_s2f_def outcome_simps Let_def low_part_public)
    with v x Some show ?thesis by (simp add: seen shown_part_def low_step_def split_beta)
  qed
qed


section \<open>One step, and a log\<close>

lemma world_unseen: "ev_type e \<in> set WORLD_OPS \<Longrightarrow> \<not> cp_visible e"
  by (rule low_unnamed) (auto simp: WORLD_OPS_def EVENT_TYPES_def spec_row_def)

lemma record_only_unseen: "ev_type e \<in> set RECORD_ONLY \<Longrightarrow> \<not> cp_visible e"
  by (rule low_unnamed) (auto simp: RECORD_ONLY_def)

lemma reduce_follows:
  assumes "reduce bb e = Inr m" "one_guide bb"
  shows "follows bb e m"
proof -
  consider (world) "ev_type e \<in> set WORLD_OPS" "m = bb"
    | r where "(ev_type e, r) \<in> set REDUCERS" "r bb e = Inr m"
    using reduce_cases [OF assms(1)] by blast
  then show ?thesis
  proof cases
    case world
    then show ?thesis by (simp add: unseen world_unseen)
  next
    case (2 r)
    show ?thesis
    proof (cases "ev_type e \<in> set RECORD_ONLY")
      case True
      with assms(1) have "m = bb"
        by (auto simp: reduce_def REDUCERS_def RECORD_ONLY_def r_record_only_def)
      with True show ?thesis by (simp add: unseen record_only_unseen)
    next
      case False
      with 2 show ?thesis
        unfolding REDUCERS_def
        by (auto dest: low_reducers low_s2f [OF _ _ assms(2)])
    qed
  qed
qed


lemma low_step_one_guide:
  "length (pub_guidance_cp (fst s)) \<le> 1 \<Longrightarrow> length (pub_guidance_cp (fst (low_step s x))) \<le> 1"
  by (simp add: low_step_def split_beta split: payload.split option.split)

lemma reduce_one_guide: "reduce bb e = Inr m \<Longrightarrow> one_guide bb \<Longrightarrow> one_guide m"
  using reduce_follows [of bb e m] low_step_one_guide [of "low_part bb" "shown_part e"]
    low_part_fst [of m] low_part_fst [of bb]
  unfolding one_guide_def follows_def by metis

lemma apply_follows:
  assumes "apply_event bb e = Inr m" "one_guide bb"
  shows "follows bb e m \<and> one_guide m"
proof -
  from assms(1) obtain k where k: "reduce bb e = Inr k" "m = k\<lparr>bb_seq := ev_seq e, bb_t_ms := ev_t_ms e\<rparr>"
    by (auto simp: apply_event_Inr)
  have "low_part m = low_part k" by (rule low_part_kept) (simp_all add: k(2))
  moreover have "one_guide m = one_guide k" by (simp add: one_guide_def k(2))
  ultimately show ?thesis
    using reduce_follows [OF k(1) assms(2)] reduce_one_guide [OF k(1) assms(2)] by (simp add: follows_def)
qed

lemma fold_follows:
  "fold_log es bb = Inr m \<Longrightarrow> one_guide bb \<Longrightarrow>
     low_part m = fold (\<lambda>x s. low_step s x) (map shown_part (filter cp_visible es)) (low_part bb) \<and> one_guide m"
proof (induction es arbitrary: m rule: rev_induct)
  case Nil
  then show ?case by simp
next
  case (snoc e es)
  then obtain k where k: "fold_log es bb = Inr k" "apply_event k e = Inr m"
    by (auto simp: fold_log_snoc)
  with snoc show ?case
    using apply_follows [OF k(2)] by (auto simp: follows_def)
qed

lemma one_guide_initial: "one_guide initial_blackboard"
  by code_simp


section \<open>The two levels stay valid\<close>

definition levels_ok :: "blackboard \<Rightarrow> bool" where
  "levels_ok bb \<longleftrightarrow> public_valid (bb_public bb) \<and> private_valid (bb_private bb)"

lemma levels_kept:
  "bb_public m = bb_public bb \<Longrightarrow> bb_private m = bb_private bb \<Longrightarrow> levels_ok bb \<Longrightarrow> levels_ok m"
  by (simp add: levels_ok_def)

lemma put_offer_levels: "put_offer bb r off = Inr m \<Longrightarrow> levels_ok bb \<Longrightarrow> levels_ok m"
  by (auto simp: put_offer_Inr levels_ok_def)

lemma with_public_levels: "with_public bb p = Inr m \<Longrightarrow> levels_ok bb \<Longrightarrow> levels_ok m"
  by (auto simp: with_public_Inr levels_ok_def)

lemma with_private_levels: "with_private bb p = Inr m \<Longrightarrow> levels_ok bb \<Longrightarrow> levels_ok m"
  by (auto simp: with_private_Inr levels_ok_def)

lemma append_line_levels [simp]: "levels_ok (append_line bb l x) = levels_ok bb"
  by (simp add: append_line_def Let_def levels_ok_def)

named_theorems level_reducers

lemma level_user_msg [level_reducers]: "r_user_msg bb e = Inr m \<Longrightarrow> levels_ok bb \<Longrightarrow> levels_ok m"
  by (auto simp: r_user_msg_def outcome_simps split: if_splits)

lemma level_utt_final [level_reducers]: "r_utt_final bb e = Inr m \<Longrightarrow> levels_ok bb \<Longrightarrow> levels_ok m"
  by (auto simp: r_utt_final_def outcome_simps split: if_splits)

lemma level_utt_delivered [level_reducers]: "r_utt_delivered bb e = Inr m \<Longrightarrow> levels_ok bb \<Longrightarrow> levels_ok m"
  by (auto simp: r_utt_delivered_def outcome_simps split: if_splits)

lemma level_f2s [level_reducers]: "r_f2s bb e = Inr m \<Longrightarrow> levels_ok bb \<Longrightarrow> levels_ok m"
  by (auto simp: r_f2s_def outcome_simps Let_def levels_ok_def split: option.splits if_splits)

lemma level_s2f [level_reducers]: "r_s2f bb e = Inr m \<Longrightarrow> levels_ok bb \<Longrightarrow> levels_ok m"
  by (auto simp: r_s2f_def outcome_simps Let_def levels_ok_def split: option.splits if_splits)

lemma level_s2f_voiced [level_reducers]: "r_s2f_voiced bb e = Inr m \<Longrightarrow> levels_ok bb \<Longrightarrow> levels_ok m"
  by (auto simp: r_s2f_voiced_def outcome_simps Let_def levels_ok_def split: option.splits if_splits)

lemma level_hold [level_reducers]: "r_hold bb e = Inr m \<Longrightarrow> levels_ok bb \<Longrightarrow> levels_ok m"
  by (auto simp: r_hold_def outcome_simps Let_def levels_ok_def split: option.splits if_splits)

lemma level_strike [level_reducers]: "r_strike bb e = Inr m \<Longrightarrow> levels_ok bb \<Longrightarrow> levels_ok m"
  by (auto simp: r_strike_def outcome_simps Let_def levels_ok_def split: option.splits if_splits)

lemma level_summary [level_reducers]: "r_summary bb e = Inr m \<Longrightarrow> levels_ok bb \<Longrightarrow> levels_ok m"
  by (auto simp: r_summary_def outcome_simps Let_def levels_ok_def split: option.splits if_splits)

lemma level_post [level_reducers]: "r_post bb e = Inr m \<Longrightarrow> levels_ok bb \<Longrightarrow> levels_ok m"
  by (auto simp: r_post_def outcome_simps Let_def levels_ok_def split: option.splits if_splits)

lemma level_evidence [level_reducers]: "r_evidence bb e = Inr m \<Longrightarrow> levels_ok bb \<Longrightarrow> levels_ok m"
  by (auto simp: r_evidence_def outcome_simps Let_def levels_ok_def split: option.splits if_splits)

lemma level_record_only [level_reducers]: "r_record_only bb e = Inr m \<Longrightarrow> levels_ok bb \<Longrightarrow> levels_ok m"
  by (auto simp: r_record_only_def outcome_simps Let_def levels_ok_def split: option.splits if_splits)

lemma level_offer [level_reducers]: "r_offer bb e = Inr m \<Longrightarrow> levels_ok bb \<Longrightarrow> levels_ok m"
  by (auto simp: r_offer_def outcome_simps Let_def levels_ok_def split: option.splits if_splits)

lemma level_readback [level_reducers]: "r_readback bb e = Inr m \<Longrightarrow> levels_ok bb \<Longrightarrow> levels_ok m"
  by (auto simp: r_readback_def outcome_simps Let_def levels_ok_def split: option.splits if_splits)

lemma level_fence [level_reducers]: "r_fence bb e = Inr m \<Longrightarrow> levels_ok bb \<Longrightarrow> levels_ok m"
  by (auto simp: r_fence_def outcome_simps Let_def levels_ok_def split: option.splits if_splits)

lemma level_epoch [level_reducers]: "r_epoch bb e = Inr m \<Longrightarrow> levels_ok bb \<Longrightarrow> levels_ok m"
  by (auto elim!: epoch_cases simp: levels_ok_def private_valid_def)

lemma level_status [level_reducers]: "r_status bb e = Inr m \<Longrightarrow> levels_ok bb \<Longrightarrow> levels_ok m"
  unfolding r_status_def PStatus_case if_Inl_eq_Inr
  by (auto dest: with_public_levels split: option.splits if_splits)

lemma level_mandate_proposed [level_reducers]: "r_mandate_proposed bb e = Inr m \<Longrightarrow> levels_ok bb \<Longrightarrow> levels_ok m"
  by (auto simp: r_mandate_proposed_def outcome_simps Let_def levels_ok_def split: option.splits if_splits)

lemma level_mandate_decided [level_reducers]: "r_mandate_decided bb e = Inr m \<Longrightarrow> levels_ok bb \<Longrightarrow> levels_ok m"
  by (auto simp: r_mandate_decided_def outcome_simps Let_def levels_ok_def split: option.splits if_splits)

lemma level_approval_requested [level_reducers]: "r_approval_requested bb e = Inr m \<Longrightarrow> levels_ok bb \<Longrightarrow> levels_ok m"
  by (auto simp: r_approval_requested_def outcome_simps Let_def levels_ok_def split: option.splits if_splits)

lemma level_approval_decided [level_reducers]: "r_approval_decided bb e = Inr m \<Longrightarrow> levels_ok bb \<Longrightarrow> levels_ok m"
  by (auto simp: r_approval_decided_def outcome_simps Let_def levels_ok_def split: option.splits if_splits)

lemma level_authorized [level_reducers]: "r_authorized bb e = Inr m \<Longrightarrow> levels_ok bb \<Longrightarrow> levels_ok m"
  by (auto simp: r_authorized_def outcome_simps Let_def levels_ok_def split: option.splits if_splits)

lemma level_verbatim [level_reducers]: "r_verbatim bb e = Inr m \<Longrightarrow> levels_ok bb \<Longrightarrow> levels_ok m"
  unfolding r_verbatim_def PVerbatim_case
  by (auto simp: and_then_eq_Inr dest: put_offer_levels split: option.splits if_splits)

lemma level_released [level_reducers]: "r_released bb e = Inr m \<Longrightarrow> levels_ok bb \<Longrightarrow> levels_ok m"
  by (auto simp: r_released_def and_then_eq_Inr use_cap_def levels_ok_def
      split: option.splits if_splits elim!: release_cap_Inr)

lemma level_revoked [level_reducers]: "r_revoked bb e = Inr m \<Longrightarrow> levels_ok bb \<Longrightarrow> levels_ok m"
  by (auto simp: r_revoked_def outcome_simps Let_def levels_ok_def split: option.splits if_splits)

lemma level_completion [level_reducers]: "r_completion bb e = Inr m \<Longrightarrow> levels_ok bb \<Longrightarrow> levels_ok m"
  by (auto simp: r_completion_def outcome_simps Let_def levels_ok_def split: option.splits if_splits)

lemma level_fact [level_reducers]: "r_fact bb e = Inr m \<Longrightarrow> levels_ok bb \<Longrightarrow> levels_ok m"
  by (auto simp: r_fact_def r_private_fact_def r_public_fact_def outcome_simps Let_def levels_ok_def
      split: option.splits if_splits)


lemma reduce_levels: "reduce bb e = Inr m \<Longrightarrow> levels_ok bb \<Longrightarrow> levels_ok m"
proof (drule reduce_cases, elim disjE exE conjE)
  fix r assume "(ev_type e, r) \<in> set REDUCERS" "r bb e = Inr m" and ok: "levels_ok bb"
  then show "levels_ok m"
    by (auto simp: REDUCERS_def RECORD_ONLY_def dest: level_reducers [OF _ ok])
qed simp

lemma fold_levels: "fold_log es bb = Inr m \<Longrightarrow> levels_ok bb \<Longrightarrow> levels_ok m"
  by (induction es arbitrary: m rule: rev_induct)
     (auto simp: fold_log_snoc apply_event_Inr levels_ok_def dest!: reduce_levels)

lemma levels_initial: "levels_ok initial_blackboard"
  by code_simp

lemma session_fold: "fold_log (log_of (session r cs)) initial_blackboard = Inr (bus_bb (session r cs))"
  using session_invs [of r cs] by (simp add: session_inv_def bus_inv_def)

lemma session_levels: "levels_ok (bus_bb (session r cs))"
  by (rule fold_levels [OF session_fold levels_initial])

lemma session_low:
  "low_part (bus_bb (session r cs)) =
     fold (\<lambda>x s. low_step s x) (map shown_part (filter cp_visible (log_of (session r cs))))
       (low_part initial_blackboard)"
  using fold_follows [OF session_fold one_guide_initial] by simp

section \<open>The properties of the views\<close>

text \<open>C24. What the cp voice is prompted with is a function of the cp-visible events of the session:
  two sessions with the same cp-visible events, whatever else happened in them (messages of the
  user, private facts and summaries, mandates, approvals, messages between Slow and the user's
  voice), have the same cp view and the same cp prompt.\<close>

theorem private_events_leave_no_cp_trace:
  assumes "map shown_part (filter cp_visible (log_of (session r cs))) =
           map shown_part (filter cp_visible (log_of (session r' cs')))"
  shows "view_cp (bus_bb (session r cs)) t brief = view_cp (bus_bb (session r' cs')) t brief \<and>
    and_then (view_cp (bus_bb (session r cs)) t brief) (\<lambda>v. render_prompt tmpl profiles v name) =
    and_then (view_cp (bus_bb (session r' cs')) t brief) (\<lambda>v. render_prompt tmpl profiles v name)"
proof -
  have "view_cp (bus_bb (session r cs)) t brief = view_cp (bus_bb (session r' cs')) t brief"
    by (rule view_cp_low) (simp only: session_low assms)
  then show ?thesis by simp
qed

theorem private_events_leave_no_cp_trace_witness:
  "view_cp (bus_bb (session ''r'' (take 1 sample_talk))) \<lparr>tg_kind = TrigRepSpoke, tg_msg_id = None, tg_wait_s = None\<rparr> ''b'' =
   view_cp (bus_bb (session ''r'' [])) \<lparr>tg_kind = TrigRepSpoke, tg_msg_id = None, tg_wait_s = None\<rparr> ''b'' \<and>
   log_of (session ''r'' (take 1 sample_talk)) \<noteq> []"
proof -
  have "map shown_part (filter cp_visible (log_of (session ''r'' (take 1 sample_talk)))) =
      map shown_part (filter cp_visible (log_of (session ''r'' [])))"
    and "log_of (session ''r'' (take 1 sample_talk)) \<noteq> []"
    by code_simp+
  then show ?thesis using private_events_leave_no_cp_trace by blast
qed

lemma new_fast_view_Inr: "new_fast_view v = Inr w \<longleftrightarrow> w = v \<and> fast_view_valid v"
  by (auto simp: new_fast_view_def fast_view_valid_def outcome_simps)

lemma succeeds_new_fast_view: "succeeds (new_fast_view v) = fast_view_valid v"
  by (auto simp: succeeds_iff new_fast_view_Inr)

lemma succeeds_simps [simp]: "succeeds (Inr x)" "\<not> succeeds (Inl e)"
  by (simp_all add: succeeds_def)

lemma pending_msg_Inr:
  "pending_msg bb t = Inr m \<Longrightarrow> (m \<noteq> None) = (tg_kind t = TrigSlowMsg)"
  by (auto simp: pending_msg_def split: if_splits list.splits)

lemma cp_view_valid_iff:
  assumes "levels_ok bb" "length brief \<le> MAX_BRIEF"
  shows "succeeds (view_cp bb t brief) = (tg_kind t \<notin> set USER_TRIGGERS)"
  using assms
  by (auto simp: view_cp_def Let_def succeeds_new_fast_view fast_view_valid_def fast_view_bounded_def
      fast_view_lane_fields_def levels_ok_def public_valid_def USER_TRIGGERS_def)

lemma user_view_valid_iff:
  assumes "levels_ok bb" "length brief \<le> MAX_BRIEF"
  shows "succeeds (view_user bb t brief) = (tg_kind t \<in> set USER_TRIGGERS \<and> succeeds (pending_msg bb t) \<and>
       (if tg_kind t = TrigApprovalCard then pending_card bb \<noteq> None else True))"
proof (cases "pending_msg bb t")
  case (Inl e)
  then show ?thesis by (simp add: view_user_def succeeds_def)
next
  case (Inr m)
  then show ?thesis
    using assms pending_msg_Inr [OF Inr]
    by (auto simp: view_user_def succeeds_new_fast_view fast_view_valid_def fast_view_bounded_def
        fast_view_lane_fields_def levels_ok_def public_valid_def private_valid_def)
qed

text \<open>C25. Views are well typed. On the board of any session, with a brief within its bound: the cp view
  exists exactly for the triggers of the cp lane; the user view exists exactly for the triggers of
  the user lane, where a \<open>slow_msg\<close> trigger needs its pending question or notice and an
  \<open>approval_card\<close> trigger a pending card. And a view that is built satisfies the class's validators
  and is of its lane.\<close>

theorem session_views_well_typed:
  assumes "length brief \<le> MAX_BRIEF"
  shows "succeeds (view_cp (bus_bb (session r cs)) t brief) = (tg_kind t \<notin> set USER_TRIGGERS) \<and>
    succeeds (view_user (bus_bb (session r cs)) t brief) =
      (tg_kind t \<in> set USER_TRIGGERS \<and> succeeds (pending_msg (bus_bb (session r cs)) t) \<and>
       (if tg_kind t = TrigApprovalCard then pending_card (bus_bb (session r cs)) \<noteq> None else True)) \<and>
    (case view_cp (bus_bb (session r cs)) t brief of Inl _ \<Rightarrow> True
       | Inr v \<Rightarrow> fast_view_valid v \<and> fv_lane v = CpLane) \<and>
    (case view_user (bus_bb (session r cs)) t brief of Inl _ \<Rightarrow> True
       | Inr v \<Rightarrow> fast_view_valid v \<and> fv_lane v = UserLane)"
  using cp_view_valid_iff [OF session_levels assms] user_view_valid_iff [OF session_levels assms]
  by (auto simp: view_cp_def view_user_def Let_def outcome_simps new_fast_view_Inr split: sum.splits)

theorem session_views_well_typed_witness:
  "succeeds (view_cp (bus_bb (session ''r'' sample_talk)) \<lparr>tg_kind = TrigRepSpoke, tg_msg_id = None, tg_wait_s = None\<rparr> ''b'')"
  using session_views_well_typed [of "''b''" "''r''" sample_talk
    "\<lparr>tg_kind = TrigRepSpoke, tg_msg_id = None, tg_wait_s = None\<rparr>"]
  by (simp add: MAX_BRIEF_def USER_TRIGGERS_def)

end
