(* ===== verification/Render_Facts.thy ===== *)
theory Render_Facts
  imports Render
begin

text \<open>
  The context budget of a prompt: what \<open>render_messages\<close> returns fits, drops the oldest lines of the
  conversation first, touches the action log only when no line is left, and drops no more than it must.
\<close>

lemma trim_to_Inr:
  "trim_to f room N = Inr (n, s) \<Longrightarrow>
     n \<le> N \<and> f n = Inr s \<and> (int (length s) \<le> room \<or> n = 0) \<and>
     (n < N \<longrightarrow> (\<exists>longer. f (Suc n) = Inr longer \<and> room < int (length longer)))"
proof (induction N)
  case 0
  then show ?case by (auto simp: outcome_simps)
next
  case (Suc N)
  then obtain t where t: "f (Suc N) = Inr t"
    "(if int (length t) > room then trim_to f room N else Inr (Suc N, t)) = Inr (n, s)"
    by (auto simp: outcome_simps)
  show ?case
  proof (cases "int (length t) > room")
    case True
    with t Suc.IH show ?thesis by (cases "n = N") auto
  next
    case False
    with t show ?thesis by auto
  qed
qed

text \<open>A text is over the room of a profile.\<close>

definition overflows :: "profile \<Rightarrow> string outcome \<Rightarrow> bool" where
  "overflows spec r = (case r of Inl _ \<Rightarrow> False | Inr s \<Rightarrow> CONTEXT_BUDGET_CHARS < length (prof_system spec) + length s)"

lemma overflows_room:
  "r = Inr s \<Longrightarrow> overflows spec r = (int CONTEXT_BUDGET_CHARS - int (length (prof_system spec)) < int (length s))"
  by (simp add: overflows_def) linarith

text \<open>The prompt fits its budget and is trimmed in order. If the renderer returns messages, the two
  together are at most \<open>CONTEXT_BUDGET_CHARS\<close> long, the system message is the profile's, and the user
  message is the content with the \<open>n\<close> newest lines and \<open>m\<close> newest actions where no line was dropped
  that fits, and no action was dropped while a line was left or that fits.\<close>

theorem prompt_within_budget:
  assumes "render_messages profiles v name = Inr (sys, user)" "dget profiles name = Some spec"
  shows "length (cm_content sys) + length (cm_content user) \<le> CONTEXT_BUDGET_CHARS \<and>
    cm_content sys = prof_system spec \<and> prof_lane spec = fv_lane v \<and>
    (\<exists>n m. content_text v spec n m = Inr (cm_content user) \<and>
       n \<le> length (fv_transcript v) \<and> m \<le> length (fv_action_log v) \<and>
       (n = length (fv_transcript v) \<or> overflows spec (content_text v spec (n + 1) (length (fv_action_log v)))) \<and>
       (m = length (fv_action_log v) \<or> n = 0 \<and> overflows spec (content_text v spec 0 (m + 1))))"
proof -
  let ?room = "int CONTEXT_BUDGET_CHARS - int (length (prof_system spec))"
  let ?L = "length (fv_transcript v)" and ?A = "length (fv_action_log v)"
  from assms obtain n s m c where
    lane: "prof_lane spec = fv_lane v" and
    lines: "trim_to (\<lambda>k. content_text v spec k ?A) ?room ?L = Inr (n, s)" and
    acts: "trim_to (\<lambda>k. content_text v spec n k) ?room ?A = Inr (m, c)" and
    fits: "int (length c) \<le> ?room" and
    msgs: "sys = \<lparr>cm_role = ''system'', cm_content = prof_system spec\<rparr>"
          "user = \<lparr>cm_role = ''user'', cm_content = c\<rparr>"
    by (auto simp: render_messages_def outcome_simps Let_def split: if_splits)
  note l = trim_to_Inr [OF lines] and a = trim_to_Inr [OF acts]
  have dropped_line: "n = ?L \<or> overflows spec (content_text v spec (n + 1) ?A)"
    using l overflows_room [of "content_text v spec (Suc n) ?A"] by fastforce
  have no_line: "n = 0" if "m \<noteq> ?A"
  proof (rule ccontr)
    assume "n \<noteq> 0"
    with l have "int (length s) \<le> ?room" "content_text v spec n ?A = Inr s" by auto
    then have "trim_to (\<lambda>k. content_text v spec n k) ?room ?A = Inr (?A, s)"
      by (cases ?A) simp_all
    with acts that show False by simp
  qed
  have dropped_act: "overflows spec (content_text v spec 0 (m + 1))" if "m \<noteq> ?A"
    using that a no_line [OF that] overflows_room [of "content_text v spec 0 (Suc m)"] by fastforce
  have bounds: "content_text v spec n m = Inr (cm_content user)" "n \<le> ?L" "m \<le> ?A"
    using l a msgs(2) by simp_all
  have last: "m = ?A \<or> n = 0 \<and> overflows spec (content_text v spec 0 (m + 1))"
    using no_line dropped_act by blast
  have size: "length (cm_content sys) + length (cm_content user) \<le> CONTEXT_BUDGET_CHARS" "cm_content sys = prof_system spec"
    using fits msgs by simp_all
  show ?thesis
    using size lane bounds dropped_line last by blast
qed

definition talk_profile :: profile where
  "talk_profile =
     \<lparr>prof_name = ''p'', prof_lane = CpLane, prof_system = ''be brief'',
      prof_sections = [(''TALK'', SecTranscript), (''NOW'', SecTrigger)], prof_labels = (''rep'', ''you''),
      prof_triggers = [(TrigRepSpoke, ''reply'')], prof_moves = [], prof_closing = ''go'',
      prof_pause_ends_speech = False, prof_p2_ids_sha256 = ''ab''\<rparr>"

definition talk_view :: fast_view where
  "talk_view =
     \<lparr>fv_lane = CpLane, fv_brief = [], fv_private_summary = None, fv_public_summary = [], fv_action_log = [],
      fv_offers = [], fv_public_facts = [], fv_pending_approval = None, fv_guidance = [], fv_hold = None,
      fv_status = IN_CALL, fv_transcript = [\<lparr>l_utt_id = ''u1'', l_speaker = Partner, l_text = ''hello''\<rparr>],
      fv_trigger = \<lparr>tg_kind = TrigRepSpoke, tg_msg_id = None, tg_wait_s = None\<rparr>, fv_slow_msg = None\<rparr>"

lemma talk_content:
  "content_text talk_view talk_profile 1 0 =
     Inr (''TALK:'' @ [CHR 0x0A] @ ''rep: hello'' @ [CHR 0x0A, CHR 0x0A] @ ''NOW: reply'' @ [CHR 0x0A, CHR 0x0A] @ ''go'')"
  by code_simp

theorem prompt_within_budget_witness:
  "length ''be brief'' + length (''TALK:'' @ [CHR 0x0A] @ ''rep: hello'' @ [CHR 0x0A, CHR 0x0A] @ ''NOW: reply'' @ [CHR 0x0A, CHR 0x0A] @ ''go'')
     \<le> CONTEXT_BUDGET_CHARS \<and> prof_lane talk_profile = fv_lane talk_view"
proof -
  let ?s = "''TALK:'' @ [CHR 0x0A] @ ''rep: hello'' @ [CHR 0x0A, CHR 0x0A] @ ''NOW: reply'' @ [CHR 0x0A, CHR 0x0A] @ ''go''"
  have get: "dget [(''p'', talk_profile)] ''p'' = Some talk_profile" by simp
  have "length (fv_transcript talk_view) = 1" "fv_action_log talk_view = []" "prof_lane talk_profile = fv_lane talk_view"
      "prof_system talk_profile = ''be brief''"
    by (simp_all add: talk_view_def talk_profile_def)
  then have "render_messages [(''p'', talk_profile)] talk_view ''p'' =
      Inr (\<lparr>cm_role = ''system'', cm_content = ''be brief''\<rparr>, \<lparr>cm_role = ''user'', cm_content = ?s\<rparr>)"
    using talk_content by (simp add: render_messages_def CONTEXT_BUDGET_CHARS_def)
  from prompt_within_budget [OF this get] show ?thesis
    unfolding chat_message.select_convs by blast
qed

end
