(* ===== verification/Fingerprint.thy ===== *)
theory Fingerprint
  imports Render Canonical_Inj
begin

text \<open>
  \<open>contract/protocol.py\<close>, \<open>fingerprint\<close>: the hash that names what a profile renders. Every part of a
  profile is hashed, and the grammar flag is hashed only when it is set; still, two profiles with
  the same fingerprint render the same prompts and parse the same turns.
\<close>

definition lane_text :: "lane \<Rightarrow> string" where
  "lane_text l = (case l of UserLane \<Rightarrow> ''user'' | CpLane \<Rightarrow> ''cp'')"

(* contract/profiles/__init__.py 12-24 SectionKind *)
definition section_text :: "section_kind \<Rightarrow> string" where
  "section_text k = (case k of
      SecBrief \<Rightarrow> ''brief'' | SecPrivateSummary \<Rightarrow> ''private_summary'' | SecPublicSummary \<Rightarrow> ''public_summary''
    | SecActions \<Rightarrow> ''actions'' | SecOffers \<Rightarrow> ''offers'' | SecApproval \<Rightarrow> ''approval''
    | SecGuidance \<Rightarrow> ''guidance'' | SecHold \<Rightarrow> ''hold'' | SecStatus \<Rightarrow> ''status''
    | SecTranscript \<Rightarrow> ''transcript'' | SecTrigger \<Rightarrow> ''trigger'')"

(* contract/messages.py 14-27 GuideMove *)
definition move_text :: "guide_move \<Rightarrow> string" where
  "move_text m = (case m of
      OPEN_CALL \<Rightarrow> ''OPEN_CALL'' | IDENTIFY \<Rightarrow> ''IDENTIFY'' | ASK_DISCOUNT \<Rightarrow> ''ASK_DISCOUNT''
    | CITE_COMPETITOR \<Rightarrow> ''CITE_COMPETITOR'' | MENTION_TENURE \<Rightarrow> ''MENTION_TENURE''
    | CANCEL_LEVER \<Rightarrow> ''CANCEL_LEVER'' | ASK_READBACK \<Rightarrow> ''ASK_READBACK''
    | HOLD_FOR_DECISION \<Rightarrow> ''HOLD_FOR_DECISION'' | DECLINE_OFFER \<Rightarrow> ''DECLINE_OFFER''
    | ASK_FINAL_OFFER \<Rightarrow> ''ASK_FINAL_OFFER'' | DEFLECT_FACT_REQUEST \<Rightarrow> ''DEFLECT_FACT_REQUEST''
    | CLOSE_CALL \<Rightarrow> ''CLOSE_CALL'' | HOLD_FOR_FACT \<Rightarrow> ''HOLD_FOR_FACT'')"

definition str_members :: "('k \<Rightarrow> string) \<Rightarrow> ('k, string) dict \<Rightarrow> json" where
  "str_members f d = JObj (map (\<lambda>(k, s). (f k, JStr s)) d)"

text \<open>\<open>dataclasses.asdict(spec)\<close> as the value that is printed.\<close>

definition profile_members :: "profile \<Rightarrow> (string \<times> json) list" where
  "profile_members p =
     [(''name'', JStr (prof_name p)),
      (''lane'', JStr (lane_text (prof_lane p))),
      (''system'', JStr (prof_system p)),
      (''sections'', JList (map (\<lambda>(h, k). JList [JStr h, JStr (section_text k)]) (prof_sections p))),
      (''labels'', JList [JStr (fst (prof_labels p)), JStr (snd (prof_labels p))]),
      (''triggers'', str_members trigger_word (prof_triggers p)),
      (''moves'', str_members move_text (prof_moves p)),
      (''closing'', JStr (prof_closing p))] @
     (if prof_pause_ends_speech p then [(''pause_ends_speech'', JBool True)] else []) @
     [(''p2_ids_sha256'', JStr (prof_p2_ids_sha256 p)),
      (''budget'', JInt (int CONTEXT_BUDGET_CHARS)), (''empty_think'', JStr EMPTY_THINK)]"

(* contract/protocol.py 231-242 fingerprint *)
definition fingerprint :: "(string \<Rightarrow> string) \<Rightarrow> (string, profile) dict \<Rightarrow> string \<Rightarrow> string outcome" where
  "fingerprint sha profiles name =
     (case dget profiles name of
        None \<Rightarrow> Inl (KeyError name)
      | Some spec \<Rightarrow>
          if prof_p2_ids_sha256 spec = [] then Inl (ValueError ''the profile has no recorded P2 ids'')
          else Inr (sha256_text sha (canonical_json (JObj (profile_members spec)))))"

section \<open>Objects up to the order of their members\<close>

lemma map_of_by_key: "distinct (map fst ms) \<Longrightarrow> map_of (by_key ms) = map_of ms"
proof -
  assume d: "distinct (map fst ms)"
  have "mset (map fst (by_key ms)) = mset (map fst ms)" by (simp add: by_key_def)
  then have "distinct (map fst (by_key ms))" using d mset_eq_imp_distinct_iff by blast
  then show ?thesis using d by (simp add: map_of_inject_set by_key_def)
qed

lemma same_members:
  assumes "keys_distinct (JObj ms)" "keys_distinct (JObj ns)" "sort_keys (JObj ms) = sort_keys (JObj ns)"
  shows "map_option sort_keys (map_of ms k) = map_option sort_keys (map_of ns k)"
proof -
  let ?f = "map (\<lambda>m. (fst m, sort_keys (snd m)))"
  have d: "distinct (map fst (?f ms))" "distinct (map fst (?f ns))"
    using assms(1,2) by (simp_all add: comp_def)
  from assms(3) have "map_of (?f ms) = map_of (?f ns)"
    using map_of_by_key [OF d(1)] map_of_by_key [OF d(2)] by simp
  moreover have "map_of (?f xs) k = map_option sort_keys (map_of xs k)" for xs :: "(string \<times> json) list"
    by (induction xs) auto
  ultimately show ?thesis by metis
qed

lemma trigger_word_inj: "inj trigger_word"
  by (rule injI) (simp add: trigger_word_def split: trigger_kind.splits)

lemma section_text_inj: "section_text a = section_text b \<longleftrightarrow> a = b"
  by (cases a; cases b; simp add: section_text_def)

lemma move_text_inj: "inj move_text"
proof (rule injI)
  fix x y assume "move_text x = move_text y"
  then show "x = y" by (cases x; cases y; simp add: move_text_def)
qed

lemma lane_text_inj: "lane_text a = lane_text b \<longleftrightarrow> a = b"
  by (cases a; cases b) (simp_all add: lane_text_def)

lemma str_members_dget:
  assumes "inj f"
  shows "map_of (map (\<lambda>(k, s). (f k, JStr s)) d) (f k) = map_option JStr (dget d k)"
  using assms by (induction d) (auto simp: inj_eq)

lemma str_members_distinct: "inj f \<Longrightarrow> wf_dict d \<Longrightarrow> keys_distinct (str_members f d)"
proof -
  assume f: "inj f" and d: "wf_dict d"
  have "map fst (map (\<lambda>(k, s). (f k, JStr s)) d) = map f (map fst d)" by (induction d) auto
  then have "distinct (map fst (map (\<lambda>(k, s). (f k, JStr s)) d))"
    using d f by (metis distinct_map inj_on_subset subset_UNIV)
  then show ?thesis by (simp add: str_members_def list_all_iff split_beta)
qed
    
lemma str_members_same:
  assumes "inj f" "wf_dict d" "wf_dict d'" "sort_keys (str_members f d) = sort_keys (str_members f d')"
  shows "dget d = dget d'"
proof
  fix k
  let ?m = "map (\<lambda>(k, s). (f k, JStr s))"
  have "map_option sort_keys (map_of (?m d) (f k)) = map_option sort_keys (map_of (?m d') (f k))"
    by (rule same_members)
       (use str_members_distinct [OF assms(1,2)] str_members_distinct [OF assms(1,3)] assms(4) in \<open>simp_all only: str_members_def\<close>)
  then show "dget d k = dget d' k"
    unfolding str_members_dget [OF assms(1)] by (cases "dget d k"; cases "dget d' k") simp_all
qed

section \<open>The members of a profile\<close>

definition profile_wf :: "profile \<Rightarrow> bool" where
  "profile_wf p \<longleftrightarrow> wf_dict (prof_triggers p) \<and> wf_dict (prof_moves p)"

lemma profile_keys_distinct:
  assumes "profile_wf p"
  shows "keys_distinct (JObj (profile_members p))"
proof -
  have "keys_distinct (str_members trigger_word (prof_triggers p))" "keys_distinct (str_members move_text (prof_moves p))"
    using assms str_members_distinct [OF trigger_word_inj] str_members_distinct [OF move_text_inj]
    by (simp_all add: profile_wf_def)
  then show ?thesis
    by (simp add: profile_members_def list_all_iff split_beta)
qed

lemma member_dget:
  "map_of (profile_members p) ''name'' = Some (JStr (prof_name p))"
  "map_of (profile_members p) ''lane'' = Some (JStr (lane_text (prof_lane p)))"
  "map_of (profile_members p) ''system'' = Some (JStr (prof_system p))"
  "map_of (profile_members p) ''sections'' =
     Some (JList (map (\<lambda>(h, k). JList [JStr h, JStr (section_text k)]) (prof_sections p)))"
  "map_of (profile_members p) ''labels'' = Some (JList [JStr (fst (prof_labels p)), JStr (snd (prof_labels p))])"
  "map_of (profile_members p) ''triggers'' = Some (str_members trigger_word (prof_triggers p))"
  "map_of (profile_members p) ''moves'' = Some (str_members move_text (prof_moves p))"
  "map_of (profile_members p) ''closing'' = Some (JStr (prof_closing p))"
  "map_of (profile_members p) ''pause_ends_speech'' = (if prof_pause_ends_speech p then Some (JBool True) else None)"
  "map_of (profile_members p) ''p2_ids_sha256'' = Some (JStr (prof_p2_ids_sha256 p))"
  by (simp_all add: profile_members_def)

lemma sections_same:
  "map sort_keys (map (\<lambda>(h, k). JList [JStr h, JStr (section_text k)]) xs) =
   map sort_keys (map (\<lambda>(h, k). JList [JStr h, JStr (section_text k)]) ys) \<Longrightarrow> xs = ys"
proof (induction xs arbitrary: ys)
  case Nil
  then show ?case by simp
next
  case (Cons x xs)
  then show ?case by (cases ys) (auto simp: section_text_inj split_beta prod_eq_iff)
qed

text \<open>Two profiles that give the same prompts and the same parses: equal but for the order of the
  two tables' keys.\<close>

definition same_profile :: "profile \<Rightarrow> profile \<Rightarrow> bool" where
  "same_profile p q \<longleftrightarrow>
     prof_name p = prof_name q \<and> prof_lane p = prof_lane q \<and> prof_system p = prof_system q \<and>
     prof_sections p = prof_sections q \<and> prof_labels p = prof_labels q \<and>
     dget (prof_triggers p) = dget (prof_triggers q) \<and> dget (prof_moves p) = dget (prof_moves q) \<and>
     prof_closing p = prof_closing q \<and> prof_pause_ends_speech p = prof_pause_ends_speech q \<and>
     prof_p2_ids_sha256 p = prof_p2_ids_sha256 q"

lemma members_same:
  assumes "profile_wf p" "profile_wf q"
    "canonical_json (JObj (profile_members p)) = canonical_json (JObj (profile_members q))"
  shows "same_profile p q"
proof -
  note kp = profile_keys_distinct [OF assms(1)] and kq = profile_keys_distinct [OF assms(2)]
  have eq: "sort_keys (JObj (profile_members p)) = sort_keys (JObj (profile_members q))"
    using canonical_json_inj [OF kp kq] assms(3) by simp
  note same = same_members [OF kp kq eq]
  have simple: "prof_name p = prof_name q" "lane_text (prof_lane p) = lane_text (prof_lane q)"
      "prof_system p = prof_system q" "prof_closing p = prof_closing q" "prof_p2_ids_sha256 p = prof_p2_ids_sha256 q"
      "fst (prof_labels p) = fst (prof_labels q) \<and> snd (prof_labels p) = snd (prof_labels q)"
    using same [of "''name''"] same [of "''lane''"] same [of "''system''"] same [of "''closing''"]
      same [of "''p2_ids_sha256''"] same [of "''labels''"]
    by (simp_all add: member_dget)
  have flag: "prof_pause_ends_speech p = prof_pause_ends_speech q"
    using same [of "''pause_ends_speech''"] by (simp add: member_dget split: if_splits)
  have sections: "prof_sections p = prof_sections q"
    by (rule sections_same) (use same [of "''sections''"] in \<open>simp add: member_dget\<close>)
  have tables: "sort_keys (str_members trigger_word (prof_triggers p)) = sort_keys (str_members trigger_word (prof_triggers q))"
      "sort_keys (str_members move_text (prof_moves p)) = sort_keys (str_members move_text (prof_moves q))"
    using same [of "''triggers''"] same [of "''moves''"] by (simp_all only: member_dget option.map option.inject)
  have "dget (prof_triggers p) = dget (prof_triggers q)" "dget (prof_moves p) = dget (prof_moves q)"
    using str_members_same [OF trigger_word_inj _ _ tables(1)] str_members_same [OF move_text_inj _ _ tables(2)] assms(1,2)
    by (simp_all add: profile_wf_def)
  then show ?thesis
    using simple flag sections lane_text_inj by (simp add: same_profile_def prod_eq_iff)
qed


section \<open>The fingerprint names what is rendered\<close>

lemma same_profile_texts:
  assumes "same_profile p q"
  shows "trigger_text v p = trigger_text v q" "guide_row g v p = guide_row g v q"
  using assms by (simp_all add: same_profile_def trigger_text_def guide_row_def)

lemma same_profile_sections:
  assumes "same_profile p q"
  shows "inline_text k v p = inline_text k v q" "block_text k v p n m = block_text k v q n m"
proof -
  have labels: "prof_labels p = prof_labels q" using assms by (simp add: same_profile_def)
  show "inline_text k v p = inline_text k v q"
    unfolding inline_text_def same_profile_texts [OF assms] ..
  show "block_text k v p n m = block_text k v q n m"
    unfolding block_text_def same_profile_texts [OF assms] labels ..
qed

lemma same_profile_content:
  assumes "same_profile p q"
  shows "content_text v p = content_text v q"
proof (intro ext)
  fix n m
  have "prof_sections p = prof_sections q" "prof_closing p = prof_closing q"
    using assms by (simp_all add: same_profile_def)
  then show "content_text v p n m = content_text v q n m"
    unfolding content_text_def same_profile_sections [OF assms] by simp
qed

lemma same_profile_messages:
  assumes "same_profile p q" "dget P n = Some p" "dget Q n = Some q"
  shows "render_messages P v n = render_messages Q v n"
proof -
  have same: "prof_lane p = prof_lane q" "prof_system p = prof_system q"
    using assms(1) by (simp_all add: same_profile_def)
  show ?thesis
    unfolding render_messages_def assms(2,3) option.case same_profile_content [OF assms(1)] same ..
qed

lemma fingerprint_Inr:
  "fingerprint sha P n = Inr h \<longleftrightarrow>
     (\<exists>p. dget P n = Some p \<and> prof_p2_ids_sha256 p \<noteq> [] \<and> h = sha (canonical_json (JObj (profile_members p))))"
  by (auto simp: fingerprint_def sha256_text_def outcome_simps split: option.splits)

text \<open>A fingerprint names what is rendered. Two tables of profiles that give a name the same
  fingerprint, where the hash does not collide on the two printed profiles, render every view under
  that name to the same messages and the same completion prompt, and parse under the same grammar flag.\<close>

theorem fingerprint_names_rendering:
  assumes "fingerprint sha P n = Inr h" "fingerprint sha Q n = Inr h"
    and "dget P n = Some p" "dget Q n = Some q" "profile_wf p" "profile_wf q"
    and "\<forall>a b. sha a = h \<longrightarrow> sha b = h \<longrightarrow> a = b"
  shows "render_messages P v n = render_messages Q v n \<and> render_prompt tmpl P v n = render_prompt tmpl Q v n \<and>
    prof_pause_ends_speech p = prof_pause_ends_speech q"
proof -
  have "canonical_json (JObj (profile_members p)) = canonical_json (JObj (profile_members q))"
    using assms(1-4,7) by (auto simp: fingerprint_Inr)
  with members_same [OF assms(5,6)] have same: "same_profile p q" by simp
  then have "render_messages P v n = render_messages Q v n"
    using same_profile_messages assms(3,4) by blast
  with same show ?thesis by (simp add: render_prompt_def same_profile_def)
qed

definition sample_profile :: "(trigger_kind, string) dict \<Rightarrow> profile" where
  "sample_profile d =
     \<lparr>prof_name = ''p'', prof_lane = CpLane, prof_system = ''be brief'',
      prof_sections = [(''TALK'', SecTranscript), (''NOW'', SecTrigger)], prof_labels = (''rep'', ''you''),
      prof_triggers = d, prof_moves = [], prof_closing = ''go'', prof_pause_ends_speech = False,
      prof_p2_ids_sha256 = ''ab''\<rparr>"

text \<open>The order of a table's keys does not show: here with the identity as the hash.\<close>

theorem fingerprint_names_rendering_witness:
  "\<forall>v. render_messages [(''p'', sample_profile [(TrigRepSpoke, ''reply''), (TrigGuidance, ''do'')])] v ''p'' =
   render_messages [(''p'', sample_profile [(TrigGuidance, ''do''), (TrigRepSpoke, ''reply'')])] v ''p''"
proof -
  let ?d = "[(TrigRepSpoke, ''reply''), (TrigGuidance, ''do'')]" and ?e = "[(TrigGuidance, ''do''), (TrigRepSpoke, ''reply'')]"
  let ?P = "[(''p'', sample_profile ?d)]" and ?Q = "[(''p'', sample_profile ?e)]"
  have "sort_keys (str_members trigger_word ?d) = sort_keys (str_members trigger_word ?e)"
    by code_simp
  then have "sort_keys (JObj (profile_members (sample_profile ?d))) = sort_keys (JObj (profile_members (sample_profile ?e)))"
    by (simp add: profile_members_def sample_profile_def)
  then have printed: "canonical_json (JObj (profile_members (sample_profile ?d))) = canonical_json (JObj (profile_members (sample_profile ?e)))"
    by (metis canonical_sort_keys)
  obtain h where h: "fingerprint id ?P ''p'' = Inr h"
    by (simp add: fingerprint_Inr sample_profile_def)
  with printed have h': "fingerprint id ?Q ''p'' = Inr h"
    by (auto simp: fingerprint_Inr sample_profile_def)
  have inj: "\<forall>a b. id a = h \<longrightarrow> id b = h \<longrightarrow> a = b" by simp
  have wf: "profile_wf (sample_profile ?d)" "profile_wf (sample_profile ?e)"
    by (simp_all add: profile_wf_def sample_profile_def)
  have get: "dget ?P ''p'' = Some (sample_profile ?d)" "dget ?Q ''p'' = Some (sample_profile ?e)" by simp_all
  show ?thesis
    by (rule allI) (rule fingerprint_names_rendering [OF h h' get wf inj, THEN conjunct1])
qed

end
