(* ===== verification/Declass.thy ===== *)
theory Declass
  imports Rep_Policy Views Authorize
begin

text \<open>
  \<open>guard/declass.py\<close> and \<open>guard/screen.py\<close>: which text may become public, and which sentence the cp
  voice may say. Numbers are exact decimals (digits and a scale); texts are ASCII, where the
  normalization NFKC is the identity and a letter is one of \<open>a-z\<close>, \<open>A-Z\<close>.
\<close>

section \<open>Numbers\<close>

text \<open>A decimal in hundredths.\<close>

definition of_minor :: "int \<Rightarrow> decimal" where
  "of_minor n = normal n 2"

definition of_whole :: "int \<Rightarrow> decimal" where
  "of_whole n = (n, 0)"

text \<open>\<open>f"{n.normalize():f}"\<close> of a decimal that is not negative.\<close>

definition decimal_text :: "decimal \<Rightarrow> string" where
  "decimal_text d = (case d of (n, k) \<Rightarrow>
     if k = 0 then dec_int n
     else let s = dec_int n; p = replicate (k + 1 - length s) (CHR ''0'') @ s in
          take (length p - k) p @ ''.'' @ drop (length p - k) p)"

text \<open>\<open>sorted\<close> of a set of decimals.\<close>

definition sorted_decimals :: "decimal list \<Rightarrow> decimal list" where
  "sorted_decimals ds =
     (let k = foldr max (map snd ds) 0 in sort_key (\<lambda>(n, j). n * 10 ^ (k - j)) (remdups ds))"

lemma set_sorted_decimals [simp]: "set (sorted_decimals ds) = set ds"
  by (simp add: sorted_decimals_def Let_def)

(* guard/declass.py 17-19 numbers *)
definition text_numbers :: "string \<Rightarrow> decimal list" where
  "text_numbers s = find_numbers (strip_commas None s)"

(* guard/declass.py 36-40 rep_numbers *)
definition rep_numbers :: "blackboard \<Rightarrow> decimal list" where
  "rep_numbers bb = concat (map (text_numbers \<circ> l_text) (partner_lines (channel_of bb CpLane)))"

(* guard/declass.py 43-49 _bounds *)
definition mandate_numbers :: "blackboard \<Rightarrow> decimal list" where
  "mandate_numbers bb = (case mandate_of bb of
      None \<Rightarrow> []
    | Some m \<Rightarrow>
        map of_minor (List.map_filter id [m_max_monthly_price_minor m, m_max_one_time_fees_minor m]) @
        (case m_max_term_months m of None \<Rightarrow> [] | Some n \<Rightarrow> if n = 0 then [] else [of_whole n]))"

section \<open>Protected values\<close>

definition is_letter :: "char \<Rightarrow> bool" where
  "is_letter c \<longleftrightarrow> is_lower c \<or> is_upper c"

(* guard/declass.py 55-56 _words *)
definition words_of :: "string \<Rightarrow> string" where
  "words_of s =
     join '' '' (filter (\<lambda>w. w \<noteq> [])
       (split_on (CHR '' '') (map (\<lambda>c. if is_letter c then c else CHR '' '') (casefold s))))"

(* guard/declass.py 59-60 _letters *)
definition letters_of :: "string \<Rightarrow> string" where
  "letters_of s = filter (\<lambda>c. c \<noteq> CHR '' '') (words_of s)"

(* guard/declass.py 63-65 _digits *)
definition digits_of :: "string \<Rightarrow> string" where
  "digits_of s = filter is_digit s"

(* guard/declass.py 68-69 _overlap *)
definition overlap :: "string \<Rightarrow> string \<Rightarrow> bool" where
  "overlap a b \<longleftrightarrow> a \<noteq> [] \<and> b \<noteq> [] \<and> (contains a b \<or> contains b a)"

(* guard/declass.py 76-78 _protected *)
definition protected_values :: "blackboard \<Rightarrow> (string \<times> string) list" where
  "protected_values bb =
     map (\<lambda>(k, f). (k, cf_value f))
       (filter (\<lambda>(k, f). cf_protected f) (sort_key fst (priv_case_facts (bb_private bb))))"

(* guard/declass.py 105-115 protected_keys *)
definition protected_keys :: "string \<Rightarrow> blackboard \<Rightarrow> string list" where
  "protected_keys s bb =
     map fst (filter (\<lambda>(k, v). overlap (words_of s) (words_of v) \<or> overlap (letters_of s) (letters_of v) \<or>
       overlap (digits_of s) (digits_of v)) (protected_values bb))"

text \<open>The digits of the protected values, as numbers.\<close>

definition secret_numbers :: "blackboard \<Rightarrow> decimal list" where
  "secret_numbers bb =
     map (of_whole \<circ> int_of_digits) (filter (\<lambda>d. d \<noteq> []) (map (digits_of \<circ> snd) (protected_values bb)))"

section \<open>Declassification\<close>

(* guard/declass.py 81-85 shareable_numbers *)
definition shareable_numbers :: "blackboard \<Rightarrow> (string, string) dict \<Rightarrow> decimal list" where
  "shareable_numbers bb shareable =
     filter (\<lambda>n. n \<notin> set (mandate_numbers bb) \<and> n \<notin> set (secret_numbers bb))
       (concat (map text_numbers (dvals shareable)))"

(* guard/declass.py 94-94 declassify *)
definition source_bound :: "blackboard \<Rightarrow> (string, string) dict \<Rightarrow> decimal list" where
  "source_bound bb shareable = rep_numbers bb @ shareable_numbers bb shareable"

(* guard/declass.py 88-102 declassify *)
definition declassify :: "string \<Rightarrow> blackboard \<Rightarrow> (string, string) dict \<Rightarrow> string list" where
  "declassify s bb shareable =
     (let public = source_bound bb shareable; said = text_numbers s in
      (if length s > MAX_PUBLIC_TEXT then [''longer than '' @ dec MAX_PUBLIC_TEXT @ '' characters''] else []) @
      map (\<lambda>n. ''number '' @ decimal_text n @ '' is not source-bound'')
        (sorted_decimals (filter (\<lambda>n. n \<notin> set public) said)) @
      map (\<lambda>n. ''the private value '' @ decimal_text n @ '' is not public'')
        (sorted_decimals (filter (\<lambda>n. n \<in> set (mandate_numbers bb) \<and> n \<notin> set public) said)) @
      map (\<lambda>k. ''the protected value of '' @ k) (protected_keys s bb))"

section \<open>The speech screen\<close>

text \<open>The numbers of an offer's slots: money in dollars, and months.\<close>

(* guard/screen.py 29-34 _public *)
definition offer_numbers :: "offer_public \<Rightarrow> decimal list" where
  "offer_numbers off =
     concat (map (\<lambda>s. if \<not> isdigit (rs_value s) then []
       else if rs_unit s = UsdMinor then [of_minor (int_of_digits (rs_value s))]
       else if rs_unit s = Months then [of_whole (int_of_digits (rs_value s))] else []) (o_slots off))"

(* guard/screen.py 22-35 _public *)
definition public_numbers :: "blackboard \<Rightarrow> decimal list" where
  "public_numbers bb =
     (let facts = dvals (facts_of bb);
          shared = foldl (\<lambda>d f. dput (pf_key f) (pf_value f) d) [] (filter (\<lambda>f. pf_source f = Shareable) facts);
          said = concat (map (text_numbers \<circ> pf_value) (filter (\<lambda>f. pf_source f = CpUtt) facts))
      in rep_numbers bb @ said @ shareable_numbers bb shared @ concat (map offer_numbers (dvals (offers bb))))"

(* guard/screen.py 38-45 screen *)
definition screen :: "string \<Rightarrow> blackboard \<Rightarrow> string list" where
  "screen s bb =
     map (\<lambda>k. ''protected:'' @ k) (protected_keys s bb) @
     (case mandate_of bb of
        None \<Rightarrow> []
      | Some m \<Rightarrow>
          map (\<lambda>n. ''mandate:'' @ decimal_text n)
            (sorted_decimals (filter (\<lambda>n. n \<in> set (map of_minor (bound_numbers m)) \<and> n \<notin> set (public_numbers bb))
              (text_numbers s))))"


section \<open>What passes\<close>

lemma declassify_Nil:
  "declassify s bb sh = [] \<longleftrightarrow>
     length s \<le> MAX_PUBLIC_TEXT \<and> set (text_numbers s) \<subseteq> set (source_bound bb sh) \<and> protected_keys s bb = []"
proof -
  have nil: "sorted_decimals ds = [] \<longleftrightarrow> ds = []" for ds
    using set_sorted_decimals [of ds] by (metis set_empty)
  show ?thesis
    by (auto simp: declassify_def Let_def nil filter_empty_conv)
qed

lemma of_minor_whole: "of_minor (n * 100) = of_whole n"
proof -
  have ten: "normal (m * 10) (Suc k) = normal m k" for m k by simp
  have "normal (n * 100) 2 = normal (n * 10 * 10) (Suc (Suc 0))"
    by (simp only: numeral_2_eq_2 mult.assoc) simp
  also have "\<dots> = (n, 0)" by (simp only: ten normal.simps(1))
  finally show ?thesis by (simp only: of_minor_def of_whole_def)
qed

lemma mandate_numbers_bound:
  "mandate_of bb = Some m \<Longrightarrow> set (map of_minor (bound_numbers m)) = set (mandate_numbers bb)"
  by (cases "m_max_term_months m")
     (simp_all add: bound_numbers_def mandate_numbers_def of_minor_whole)

lemma shareable_not_bound: "n \<in> set (shareable_numbers bb sh) \<Longrightarrow> n \<notin> set (mandate_numbers bb)"
  by (simp add: shareable_numbers_def)

lemma rep_numbers_iff:
  "n \<in> set (rep_numbers bb) \<longleftrightarrow>
     (\<exists>x \<in> set (ch_lines (channel_of bb CpLane)). l_speaker x = Partner \<and> n \<in> set (text_numbers (l_text x)))"
  by (auto simp: rep_numbers_def partner_lines_def)

text \<open>C26. A text that passes declassification gives nothing away: it fits a public text, no protected value
  overlaps it in any spelling, each of its numbers was said by the rep or is of a shareable value and then neither a
  limit of the mandate nor the digits of a protected value; so a limit of the mandate is in it only
  if the rep said that number. And the cp voice may say it: the speech screen lets it through.\<close>

theorem declassified_text_is_safe:
  assumes "declassify s bb sh = []"
  shows "length s \<le> MAX_PUBLIC_TEXT \<and> protected_keys s bb = [] \<and>
    (\<forall>n. n \<in> set (text_numbers s) \<longrightarrow>
       (\<exists>x. x \<in> set (ch_lines (channel_of bb CpLane)) \<and> l_speaker x = Partner \<and> n \<in> set (text_numbers (l_text x))) \<or>
       (\<exists>v. v \<in> set (dvals sh) \<and> n \<in> set (text_numbers v)) \<and>
         n \<notin> set (mandate_numbers bb) \<and> n \<notin> set (secret_numbers bb)) \<and>
    screen s bb = []"
proof -
  from assms have d: "length s \<le> MAX_PUBLIC_TEXT" "protected_keys s bb = []"
    and bound: "\<And>n. n \<in> set (text_numbers s) \<Longrightarrow> n \<in> set (rep_numbers bb) \<or> n \<in> set (shareable_numbers bb sh)"
    by (auto simp: declassify_Nil source_bound_def)
  have "filter (\<lambda>n. n \<in> set (map of_minor (bound_numbers m)) \<and> n \<notin> set (public_numbers bb)) (text_numbers s) = []"
    if m: "mandate_of bb = Some m" for m
  proof (rule filter_False, intro ballI notI)
    fix n assume n: "n \<in> set (text_numbers s)"
      and leak: "n \<in> set (map of_minor (bound_numbers m)) \<and> n \<notin> set (public_numbers bb)"
    with mandate_numbers_bound [OF m] have "n \<in> set (mandate_numbers bb)" by blast
    with bound [OF n] shareable_not_bound have "n \<in> set (rep_numbers bb)" by blast
    with leak show False by (simp add: public_numbers_def Let_def)
  qed
  then have "screen s bb = []"
    using d by (auto simp: screen_def sorted_decimals_def Let_def split: option.split)
  moreover have "n \<in> set (shareable_numbers bb sh) \<Longrightarrow>
      (\<exists>v. v \<in> set (dvals sh) \<and> n \<in> set (text_numbers v)) \<and> n \<notin> set (mandate_numbers bb) \<and> n \<notin> set (secret_numbers bb)" for n
    by (auto simp: shareable_numbers_def)
  ultimately show ?thesis
    using d bound rep_numbers_iff [of _ bb] by blast
qed

definition declass_sample :: blackboard where
  "declass_sample =
     initial_blackboard\<lparr>
       bb_channels := [(UserLane, new_channel),
         (CpLane, new_channel\<lparr>ch_lines := [\<lparr>l_utt_id = ''u1'', l_speaker = Partner, l_text = ''It is $55.00 for 12 months''\<rparr>]\<rparr>)],
       bb_private := initial_private\<lparr>priv_mandate := Some sample_mandate,
         priv_case_facts := [(''pin'', \<lparr>cf_key = ''pin'', cf_value = ''7777'', cf_protected = True, cf_source_ref = None\<rparr>)]\<rparr>\<rparr>"

lemma declass_sample_numbers:
  "text_numbers ''They ask $55 for 12 months'' = [(55, 0), (12, 0)]"
  "rep_numbers declass_sample = [(55, 0), (12, 0)]"
  by code_simp+

theorem declassified_text_is_safe_witness:
  "screen ''They ask $55 for 12 months'' declass_sample = [] \<and>
   declassify ''They ask $20 for 12 months'' declass_sample [] \<noteq> []"
proof -
  have "declassify ''They ask $55 for 12 months'' declass_sample [] = []"
    and "declassify ''They ask $20 for 12 months'' declass_sample [] \<noteq> []"
    by code_simp+
  with declassified_text_is_safe [of "''They ask $55 for 12 months''" declass_sample "[]"] show ?thesis by blast
qed

end
