(* ===== verification/Verify.thy ===== *)
theory Verify
  imports Declass Log_Bus
begin

text \<open>
  \<open>guard/verify.py\<close>: the two verifiers whose decision alone leads to a verified status. Whether a
  line has a closing or reopening cue, and reading a decimal text, are arguments; what a line says
  in money and whether it carries a confirmation id are the regular expressions of the source as
  functions on ASCII text.
\<close>

(* guard/verify.py 31-34 _decision *)
definition decision_of :: "string list \<Rightarrow> completion_decision" where
  "decision_of reasons = \<lparr>cd_verdict = (if reasons = [] then VerdictOk else VerdictFail), cd_reasons = reasons\<rparr>"

(* guard/verify.py 37-39 _released *)
definition released_accepts :: "blackboard \<Rightarrow> capability list" where
  "released_accepts bb = filter is_released_accept (dvals (bb_capabilities bb))"

text \<open>Evidence bound to a capability's terms; evidence of the portal also to its business action.\<close>

(* guard/verify.py 50-55 verify_completion *)
definition binds_cap :: "capability \<Rightarrow> evidence \<Rightarrow> bool" where
  "binds_cap cap e \<longleftrightarrow>
     ev_terms_hash e = Some (cap_terms_hash cap) \<and> (ev_kind e = LedgerEvidence \<or> ev_bid e = Some (cap_bid cap))"

definition offer_of_terms :: "blackboard \<Rightarrow> string \<Rightarrow> offer_public option" where
  "offer_of_terms bb h = List.find (\<lambda>off. o_terms_hash off = Some h) (dvals (offers bb))"

definition terms_of :: "externals \<Rightarrow> offer_public option \<Rightarrow> terms option outcome" where
  "terms_of oc off = (case off of None \<Rightarrow> Inr None | Some x \<Rightarrow> offer_terms (or_iso oc) x)"

(* guard/verify.py 42-63 verify_completion *)
definition verify_completion :: "externals \<Rightarrow> blackboard \<Rightarrow> completion_decision outcome" where
  "verify_completion oc bb =
     (case released_accepts bb of
        [] \<Rightarrow> Inr (decision_of [''no_released_accept''])
      | _ # _ # _ \<Rightarrow> Inr (decision_of [''multiple_released_accepts''])
      | [cap] \<Rightarrow>
          and_then (terms_of oc (offer_of_terms bb (cap_terms_hash cap))) (\<lambda>terms. Inr (decision_of
            (code_if (\<not> list_ex (binds_cap cap) (bb_evidence bb)) ''no_bound_evidence'' @
             (case terms of
                None \<Rightarrow> [''accepted_terms_unknown'']
              | Some t \<Rightarrow> code_if (hard_violations t (mandate_of bb) \<noteq> []) ''policy_violation'')))))"

section \<open>What a rep line says\<close>

text \<open>\<open>re.finditer\<close> of a pattern that matches no empty text: \<open>m\<close> gives, at a position, the value of the
  match and its length.\<close>

function find_iter :: "(char option \<Rightarrow> string \<Rightarrow> ('a \<times> nat) option) \<Rightarrow> char option \<Rightarrow> string \<Rightarrow> 'a list" where
  "find_iter m p [] = []"
| "find_iter m p (c # cs) =
     (case m p (c # cs) of
        None \<Rightarrow> find_iter m (Some c) cs
      | Some (x, n) \<Rightarrow> x # find_iter m (Some ((c # cs) ! (min (n - 1) (length cs)))) (drop (n - 1) cs))"
  by pat_completeness auto
termination
  by (relation "measure (\<lambda>(m, p, s). length s)") auto

text \<open>\<open>\d+(?:\.\d+)?\<close> at the start of a text.\<close>

definition number_at :: "string \<Rightarrow> (decimal \<times> nat) option" where
  "number_at s =
     (let ds = takeWhile is_digit s; f = fraction (drop (length ds) s) in
      if ds = [] then None
      else Some (normal (int_of_digits (ds @ f)) (length f), length ds + (if f = [] then 0 else 1 + length f)))"

definition word_ends :: "string \<Rightarrow> bool" where
  "word_ends s \<longleftrightarrow> s = [] \<or> \<not> word_char (hd s)"

definition optional :: "string \<Rightarrow> string \<Rightarrow> string" where
  "optional p s = (if ci_at p s \<and> length p \<le> length s then drop (length p) s else s)"

definition literal :: "string \<Rightarrow> string \<Rightarrow> string option" where
  "literal p s = (if ci_at p s then Some (drop (length p) s) else None)"

text \<open>A match that ends where \<open>rest\<close> begins.\<close>

definition upto_rest :: "'a \<Rightarrow> string \<Rightarrow> string \<Rightarrow> ('a \<times> nat) option" where
  "upto_rest x s rest = Some (x, length s - length rest)"

definition skip_one_space :: "string \<Rightarrow> string" where
  "skip_one_space s = (if s \<noteq> [] \<and> is_space (hd s) then tl s else s)"

text \<open>The three alternatives for money: \<open>$75\<close>, \<open>75.00\<close>, \<open>75 dollars\<close>.\<close>

(* guard/declass.py 22-25 _UNIT *)
definition money_at :: "char option \<Rightarrow> string \<Rightarrow> (decimal \<times> nat) option" where
  "money_at p s =
     (let signed = (if s \<noteq> [] \<and> hd s = CHR ''$'' then
                      (let r = skip_one_space (tl s) in
                       case number_at r of None \<Rightarrow> None | Some (d, n) \<Rightarrow> upto_rest d s (drop n r))
                    else None);
          ds = takeWhile is_digit s; r = drop (length ds) s;
          cents = (if ds \<noteq> [] \<and> length r \<ge> 3 \<and> hd r = CHR ''.'' \<and> is_digit (r ! 1) \<and> is_digit (r ! 2) \<and> word_ends (drop 3 r)
                   then upto_rest (normal (int_of_digits (ds @ [r ! 1, r ! 2])) 2) s (drop 3 r) else None);
          word = (case number_at s of None \<Rightarrow> None | Some (d, n) \<Rightarrow>
                    (case literal ''dollar'' (lstrip (drop n s)) of None \<Rightarrow> None | Some t \<Rightarrow>
                       if word_ends (optional ''s'' t) then upto_rest d s (optional ''s'' t) else None))
      in case signed of Some x \<Rightarrow> Some x | None \<Rightarrow> (case cents of Some x \<Rightarrow> Some x | None \<Rightarrow> word))"

(* guard/declass.py 28-33 spoken *)
definition spoken_money :: "string \<Rightarrow> decimal list" where
  "spoken_money s = find_iter money_at None (strip_commas None s)"

definition first_some :: "'a option list \<Rightarrow> 'a option" where
  "first_some xs = (case filter (\<lambda>x. x \<noteq> None) xs of [] \<Rightarrow> None | x # _ \<Rightarrow> x)"

text \<open>A bare amount said per month: \<open>70 a month\<close>.\<close>

(* guard/verify.py 26-28 _PER_MONTH *)
definition per_month_at :: "char option \<Rightarrow> string \<Rightarrow> (decimal \<times> nat) option" where
  "per_month_at p s =
     (if (case p of None \<Rightarrow> False | Some c \<Rightarrow> is_digit c \<or> c = CHR ''.'') then None
      else case number_at s of
        None \<Rightarrow> None
      | Some (d, n) \<Rightarrow>
          (let r = lstrip (drop n s) in
           case first_some (map (\<lambda>w. literal w r) [''a'', ''per'', ''each'', ''every'', ''/'']) of
             None \<Rightarrow> None
           | Some t \<Rightarrow>
               (case literal ''mo'' (lstrip t) of
                  None \<Rightarrow> None
                | Some u \<Rightarrow> if word_ends (optional ''nth'' u) then upto_rest d s (optional ''nth'' u) else None)))"

definition per_month :: "string \<Rightarrow> decimal list" where
  "per_month s = find_iter per_month_at None s"

section \<open>Confirmation ids\<close>

text \<open>Six digits or more in one token.\<close>

(* guard/verify.py 25-25 _BARE_ID *)
fun bare_id :: "char option \<Rightarrow> string \<Rightarrow> bool" where
  "bare_id p [] = False"
| "bare_id p (c # cs) =
     ((let ds = takeWhile is_digit (c # cs); r = drop (length ds) (c # cs) in
       (case p of None \<Rightarrow> True | Some x \<Rightarrow> \<not> word_char x \<and> x \<notin> {CHR ''$'', CHR ''.'', CHR '',''}) \<and>
       6 \<le> length ds \<and> word_ends r \<and>
       \<not> (2 \<le> length r \<and> hd r \<in> {CHR ''.'', CHR '',''} \<and> is_digit (r ! 1))) \<or>
      bare_id (Some c) cs)"

text \<open>\<open>(?:[ -]?\d){n}\<close> at the start of a text.\<close>

fun digits_follow :: "nat \<Rightarrow> string \<Rightarrow> bool" where
  "digits_follow 0 s = True"
| "digits_follow (Suc n) [] = False"
| "digits_follow (Suc n) (c # cs) =
     (if is_digit c then digits_follow n cs
      else c \<in> {CHR '' '', CHR ''-''} \<and> cs \<noteq> [] \<and> is_digit (hd cs) \<and> digits_follow n (tl cs))"

(* guard/verify.py 24-24 _DIGIT_RUN *)
fun digit_run :: "string \<Rightarrow> bool" where
  "digit_run [] = False"
| "digit_run (c # cs) = (is_digit c \<and> digits_follow 3 cs \<or> digit_run cs)"

definition word_runs :: "string \<Rightarrow> string list" where
  "word_runs s = split_on (CHR '' '') (map (\<lambda>c. if word_char c then c else CHR '' '') (casefold s))"

(* guard/verify.py 23-23 _CONF_WORD *)
definition conf_word :: "string \<Rightarrow> bool" where
  "conf_word s \<longleftrightarrow>
     list_ex (\<lambda>w. w \<in> {''confirmation'', ''reference'', ''ref'', ''order'', ''ticket''}) (word_runs s)"

(* guard/verify.py 90-97 says_confirmation *)
definition says_confirmation :: "string \<Rightarrow> bool" where
  "says_confirmation s \<longleftrightarrow> bare_id None s \<or> conf_word s \<and> digit_run s"

section \<open>The close of a call without a deal\<close>

text \<open>The cues of \<open>guard/readback.py\<close> and \<open>decimal.Decimal\<close> on a text, whose failure is
  \<open>InvalidOperation\<close>.\<close>

record rep_reader =
  rr_closing :: "string \<Rightarrow> bool"
  rr_reopen :: "string \<Rightarrow> bool"
  rr_decimal :: "string \<Rightarrow> decimal option"

definition hundredth :: "decimal \<Rightarrow> decimal" where
  "hundredth d = (case d of (n, k) \<Rightarrow> normal n (k + 2))"

(* guard/verify.py 66-71 carried *)
definition carried :: "rep_reader \<Rightarrow> blackboard \<Rightarrow> decimal list outcome" where
  "carried rr bb =
     map_outcome (\<lambda>s. case rr_decimal rr (rs_value s) of
         None \<Rightarrow> Inl (ArithmeticError ''InvalidOperation'') | Some d \<Rightarrow> Inr (hundredth d))
       (filter (\<lambda>s. rs_unit s = UsdMinor) (concat (map o_slots (dvals (offers bb)))))"

(* guard/verify.py 74-87 reopens *)
definition reopens :: "rep_reader \<Rightarrow> string \<Rightarrow> decimal list \<Rightarrow> bool" where
  "reopens rr s known \<longleftrightarrow>
     (if rr_closing rr s then False
      else list_ex (\<lambda>d. d \<notin> set known \<and> d \<noteq> (0, 0)) (spoken_money s @ per_month s) \<or> rr_reopen rr s)"

(* guard/verify.py 99-115 closing_at *)
definition closing_at :: "rep_reader \<Rightarrow> blackboard \<Rightarrow> nat option \<Rightarrow> nat option outcome" where
  "closing_at rr bb asked_final_at =
     (case asked_final_at of
        None \<Rightarrow> Inr None
      | Some a \<Rightarrow>
          let lines = ch_lines (channel_of bb CpLane);
              rep = filter (\<lambda>n. l_speaker (lines ! n) = Partner) [a..<length lines];
              closing = filter (\<lambda>n. rr_closing rr (l_text (lines ! n))) rep
          in if closing = [] then Inr None
             else and_then (carried rr bb) (\<lambda>have'.
               Inr (if list_ex (\<lambda>n. reopens rr (l_text (lines ! n)) have') (filter (\<lambda>n. last closing < n) rep)
                    then None else Some (last closing))))"

definition denied_terms :: "blackboard \<Rightarrow> string list" where
  "denied_terms bb = map a_terms_hash (filter (\<lambda>a. a_decision a = Denied) (dvals (approvals bb)))"

text \<open>The reasons of one offer.\<close>

(* guard/verify.py 130-135 verify_no_deal *)
definition offer_open_reason :: "externals \<Rightarrow> blackboard \<Rightarrow> string \<Rightarrow> offer_public \<Rightarrow> string list outcome" where
  "offer_open_reason oc bb ref off =
     and_then (offer_terms (or_iso oc) off) (\<lambda>terms. Inr
       (if o_status off = OfferDeclined \<or> o_terms_hash off \<in> Some ` set (denied_terms bb) then []
        else case terms of
          None \<Rightarrow> [''offer_open:'' @ ref]
        | Some t \<Rightarrow> code_if (hard_violations t (mandate_of bb) = []) (''offer_open:'' @ ref)))"

(* guard/verify.py 118-142 verify_no_deal *)
definition verify_no_deal :: "externals \<Rightarrow> rep_reader \<Rightarrow> blackboard \<Rightarrow> nat option \<Rightarrow> completion_decision outcome" where
  "verify_no_deal oc rr bb asked_final_at =
     and_then (map_outcome (\<lambda>(ref, off). offer_open_reason oc bb ref off) (sort_key fst (offers bb))) (\<lambda>open'.
     and_then
       (if asked_final_at = None then Inr [''final_offer_not_asked'']
        else and_then (closing_at rr bb asked_final_at) (\<lambda>c. Inr (code_if (c = None) ''no_closing_reply'')))
       (\<lambda>final. Inr (decision_of
         (concat open' @ final @ code_if (released_accepts bb \<noteq> []) ''accept_released''))))"

end
