(* ===== verification/Slow_Authority.thy ===== *)
theory Slow_Authority
  imports Verify Render
begin

text \<open>
  \<open>slow/authority.py\<close>: the tools by which Slow touches authority, evidence and the close of a case.
  Each calls a rule of the guard and returns the guard's effects or its denial as text. The external
  functions are SHA-256, the reader of ISO times, the cues of a rep line and \<open>decimal.Decimal\<close>.
\<close>

section \<open>Results\<close>

datatype refusal_code = InvalidArgs | UnknownTool | ActShape

text \<open>The field \<open>then\<close>, a callback, is set by no tool of this file and left out.\<close>

(* slow/result.py 13-20 Result *)
record result =
  res_ok :: bool
  res_text :: string
  res_effects :: "effect list"
  res_causes :: "string list"
  res_code :: "refusal_code option"

definition okay :: "string \<Rightarrow> effect list \<Rightarrow> result" where
  "okay s es = \<lparr>res_ok = True, res_text = s, res_effects = es, res_causes = [], res_code = None\<rparr>"

(* slow/result.py 23-24 no *)
definition no :: "string \<Rightarrow> effect list \<Rightarrow> result" where
  "no s es = \<lparr>res_ok = False, res_text = s, res_effects = es, res_causes = [], res_code = None\<rparr>"

(* slow/result.py 27-28 refused *)
definition refused :: "refusal_code \<Rightarrow> string \<Rightarrow> result" where
  "refused c s = \<lparr>res_ok = False, res_text = s, res_effects = [], res_causes = [], res_code = Some c\<rparr>"

section \<open>Python's \<open>str\<close> and \<open>repr\<close> of JSON values (ASCII)\<close>

definition hex2 :: "nat \<Rightarrow> string" where
  "hex2 n = [hex_digit (n div 16), hex_digit (n mod 16)]"

definition repr_char :: "char \<Rightarrow> char \<Rightarrow> string" where
  "repr_char q c =
     (let n = of_char c :: nat in
      if c = q \<or> c = CHR 0x5C then [CHR 0x5C, c]
      else if n = 9 then [CHR 0x5C, CHR ''t''] else if n = 10 then [CHR 0x5C, CHR ''n'']
      else if n = 13 then [CHR 0x5C, CHR ''r'']
      else if n < 32 \<or> n = 127 then [CHR 0x5C, CHR ''x''] @ hex2 n else [c])"

definition py_repr :: "string \<Rightarrow> string" where
  "py_repr s =
     (let q = (if CHR 0x27 \<in> set s \<and> CHR 0x22 \<notin> set s then CHR 0x22 else CHR 0x27) in
      q # concat (map (repr_char q) s) @ [q])"

fun json_repr :: "json \<Rightarrow> string" where
  "json_repr JNull = ''None''"
| "json_repr (JBool b) = (if b then ''True'' else ''False'')"
| "json_repr (JInt i) = dec_int i"
| "json_repr (JStr s) = py_repr s"
| "json_repr (JList vs) = ''['' @ join '', '' (map json_repr vs) @ '']''"
| "json_repr (JObj ms) = [CHR 0x7B] @ join '', '' (map (\<lambda>m. py_repr (fst m) @ '': '' @ json_repr (snd m)) ms) @ [CHR 0x7D]"

definition json_str :: "json \<Rightarrow> string" where
  "json_str v = (case v of JStr s \<Rightarrow> s | _ \<Rightarrow> json_repr v)"

section \<open>The lever checks\<close>

definition public_value :: "blackboard \<Rightarrow> string \<Rightarrow> public_fact option" where
  "public_value bb k = dget (facts_of bb) k"

(* slow/authority.py 49-52 TENURE_PRIVATE *)
definition TENURE_PRIVATE :: string where
  "TENURE_PRIVATE =
     ''tenure_years is recorded private and cannot go public: the lever is unavailable; do not ask again''"

(* slow/authority.py 39-42 TENURE_NEEDS *)
definition TENURE_NEEDS :: string where
  "TENURE_NEEDS =
     ''needs fact:tenure_years public: ask_user (keys [tenure_years]) for how '' @
     ''long the user has been a customer, then record_fact it citing the user's reply''"

(* slow/authority.py 85-95 _tenure_denial *)
definition tenure_denial :: "blackboard \<Rightarrow> string \<times> string" where
  "tenure_denial bb =
     (if public_value bb ''tenure_years'' \<noteq> None
      then (''tenure_slot_missing'', ''mention_tenure: add slot fact:tenure_years (it is public): '' @
              ''guide_fast(mention_tenure, ['' @ quoted ''fact:tenure_years'' @ ''])'')
      else if dget (priv_case_facts (bb_private bb)) ''tenure_years'' \<noteq> None
      then (''tenure_private'', ''mention_tenure: '' @ TENURE_PRIVATE)
      else (''tenure_not_public'', ''mention_tenure '' @ TENURE_NEEDS))"

definition shared :: "blackboard \<Rightarrow> string \<Rightarrow> bool" where
  "shared bb k \<longleftrightarrow> (case public_value bb k of None \<Rightarrow> False | Some f \<Rightarrow> pf_source f = Shareable)"

definition cited_quotes :: "guide \<Rightarrow> string list" where
  "cited_quotes g =
     filter (\<lambda>k. k \<in> {''competitor_quote'', ''competitor.price_usd''})
       (map (drop 5) (filter (starts_with ''fact:'') (g_slots g)))"

definition lever_granted :: "blackboard \<Rightarrow> bool" where
  "lever_granted bb \<longleftrightarrow> (case public_value bb ''authorization.cancel_lever'' of
      None \<Rightarrow> False | Some f \<Rightarrow> pf_value f = ''granted'' \<and> pf_source f = Shareable)"

(* slow/authority.py 55-82 lever_denial *)
definition lever_denial :: "blackboard \<Rightarrow> guide \<Rightarrow> (string \<times> string) option" where
  "lever_denial bb g =
     (if g_move g = MENTION_TENURE \<and>
         (public_value bb ''tenure_years'' = None \<or> ''fact:tenure_years'' \<notin> set (g_slots g))
      then Some (tenure_denial bb)
      else if g_move g = CITE_COMPETITOR \<and> \<not> list_ex (shared bb) (cited_quotes g)
      then Some (''competitor_quote_not_shareable'',
        ''cite_competitor needs a fact:competitor.price_usd (or '' @
        ''fact:competitor_quote) slot the user shared (source shareable); '' @
        ''none is public, so the lever is denied: no fabricated quotes. '' @
        ''Use another move'')
      else if g_move g = CANCEL_LEVER \<and> \<not> lever_granted bb
      then Some (''cancel_lever_not_authorized'',
        ''cancel_lever needs the public fact authorization.cancel_lever=granted '' @
        ''from the user; it is not, so the lever is denied'')
      else None)"

section \<open>Denials and moves\<close>

(* slow/authority.py 98-110 HINTS *)
definition HINTS :: "(string, string) dict" where
  "HINTS =
    [(''fence_raised'', ''a new user message or rep turn is not reflected in your view '' @
        ''yet: wait for the next step''),
     (''readback_not_confirmed'', ''every required slot must be confirmed: record the '' @
        ''offer as read back, then guide_fast(ask_readback, [offer:<ref>]) for that '' @
        ''revision; the rep's next read-back confirms it''),
     (''outside_mandate'', ''request_approval(offer_ref) and wait for the user''),
     (''not_authorized'', ''no granted mandate covers it and no approval is granted: '' @
        ''request_approval(offer_ref)''),
     (''approval_denied'', ''the user denied these terms: never accept them''),
     (''approval_pending'', ''a card is pending: wait for the user's decision''),
     (''not_in_call'', ''an accept is authorised only while the case is IN_CALL'')]"

(* slow/authority.py 122-124 moved *)
definition moved :: "blackboard \<Rightarrow> string \<Rightarrow> effect list" where
  "moved bb trigger = (case status_change bb trigger of
      None \<Rightarrow> [] | Some (was, s) \<Rightarrow> [(''status.changed'', PStatus was s)])"

(* slow/authority.py 127-130 denied *)
definition denied :: "string \<Rightarrow> string \<Rightarrow> result" where
  "denied intent reason =
     no (''denied: '' @ reason @
         (case dget HINTS reason of None \<Rightarrow> [] | Some h \<Rightarrow> '' ('' @ h @ '')''))
       [(''action.denied'', PActionDenied intent reason)]"

section \<open>Approvals, accepts and declines\<close>

definition approval_id_of :: "effect list \<Rightarrow> string" where
  "approval_id_of es = (case es of (_, PCard c) # _ \<Rightarrow> card_id c | _ \<Rightarrow> [])"

(* slow/authority.py 133-144 request_approval *)
definition slow_request_approval ::
  "externals \<Rightarrow> blackboard \<Rightarrow> string \<Rightarrow> case_ref \<Rightarrow> string \<Rightarrow> result outcome"
where
  "slow_request_approval oc bb ref case' msg_id =
     and_then (request_approval oc bb ref case') (\<lambda>got. case got of
        Denial why \<Rightarrow> Inr (denied ''request_approval'' why)
      | Allow es \<Rightarrow>
          let i = approval_id_of es;
              notice = \<lparr>s2f_msg_id = msg_id, s2f_lane = UserLane, s2f_ty = APPROVAL_NOTICE, s2f_text = [],
                        s2f_guide = None, s2f_approval_id = Some i\<rparr>
          in Inr (okay (''card '' @ i @ '' sent to the user: wait for [APPROVAL] '' @ i)
               (es @ moved bb ''approval_requested'' @ [(''s2f.msg'', PS2F notice)])))"

text \<open>The id of the last event of a type whose payload has this value.\<close>

definition payload_decides :: "string \<Rightarrow> string \<Rightarrow> payload \<Rightarrow> bool" where
  "payload_decides key v p = (case p of
      PApprovalDecided d \<Rightarrow> key = ''approval_id'' \<and> ad_approval_id d = v
    | PMandateDecided d \<Rightarrow> key = ''mandate_hash'' \<and> md_mandate_hash d = v
    | _ \<Rightarrow> False)"

(* slow/authority.py 221-223 last *)
definition last_event :: "event list \<Rightarrow> string \<Rightarrow> string \<Rightarrow> string \<Rightarrow> string option" where
  "last_event es ty key v =
     (case filter (\<lambda>e. ev_type e = ty \<and> payload_decides key v (ev_payload e)) es of
        [] \<Rightarrow> None | x # xs \<Rightarrow> Some (ev_event_id (last (x # xs))))"

(* slow/authority.py 195-218 _grant_event *)
definition grant_event ::
  "externals \<Rightarrow> blackboard \<Rightarrow> case_ref \<Rightarrow> offer_public \<Rightarrow> capability \<Rightarrow> event list \<Rightarrow> string option"
where
  "grant_event oc bb case' off cap es =
     (let bid = business_action_id (or_sha oc) (cr_case_id case') AcceptOffer (o_ref off) (o_revision off) (cap_terms_hash cap);
          by_approval = filter (\<lambda>a. bid (a_id a) = cap_bid cap) (dvals (approvals bb));
          wanted = (if by_approval = [] then None
                    else Some (''approval.decided'', ''approval_id'', a_id (last by_approval)));
          wanted' = (case mandate_of bb of
             None \<Rightarrow> wanted
           | Some m \<Rightarrow> if bid (m_hash m) = cap_bid cap then Some (''mandate.decided'', ''mandate_hash'', m_hash m) else wanted)
      in case wanted' of None \<Rightarrow> None | Some (ty, key, v) \<Rightarrow> last_event es ty key v)"

definition capability_of :: "effect list \<Rightarrow> capability option" where
  "capability_of es = (case es of (_, PAuthorized _ c) # _ \<Rightarrow> Some c | _ \<Rightarrow> None)"

(* slow/authority.py 147-161 accept_offer *)
definition slow_accept_offer ::
  "externals \<Rightarrow> blackboard \<Rightarrow> string \<Rightarrow> case_ref \<Rightarrow> event list \<Rightarrow> result outcome"
where
  "slow_accept_offer oc bb ref case' events =
     and_then (accept_offer oc bb ref case') (\<lambda>got. case got of
        Denial why \<Rightarrow> Inr (denied ''accept_offer'' why)
      | Allow es \<Rightarrow>
          (case (capability_of es, dget (offers bb) ref) of
             (Some cap, Some off) \<Rightarrow>
               let grant = grant_event oc bb case' off cap events in
               Inr ((okay (''accept line queued ('' @ cap_id cap @ ''): the phone voice says it once revalidated'')
                      (es @ moved bb ''accept_authorized''))
                    \<lparr>res_causes := (case grant of Some g \<Rightarrow> if g = [] then [] else [g] | None \<Rightarrow> [])\<rparr>)
           | _ \<Rightarrow> Inl (KeyError ref)))"

(* slow/authority.py 226-230 decline_offer *)
definition slow_decline_offer :: "blackboard \<Rightarrow> string \<Rightarrow> result" where
  "slow_decline_offer bb ref = (case decline_offer bb ref of
      Denial why \<Rightarrow> denied ''decline_offer'' why
    | Allow es \<Rightarrow> okay (''decline line queued for '' @ ref) es)"


section \<open>Mandates\<close>

(* slow/authority.py 111-111 BOUNDS *)
definition BOUNDS :: "string list" where
  "BOUNDS = [''max_monthly_price_minor'', ''max_term_months'', ''max_one_time_fees_minor'']"

(* slow/authority.py 112-112 LISTS *)
definition LISTS :: "string list" where
  "LISTS = [''required_features'', ''forbidden_changes'']"

definition present :: "(string, json) dict \<Rightarrow> string \<Rightarrow> json option" where
  "present raw k = (case dget raw k of None \<Rightarrow> None | Some JNull \<Rightarrow> None | Some v \<Rightarrow> Some v)"

(* slow/authority.py 272-277 _envelope *)
fun envelope_numbers :: "(string, json) dict \<Rightarrow> string list \<Rightarrow> (string, int) dict outcome" where
  "envelope_numbers raw [] = Inr []"
| "envelope_numbers raw (k # ks) =
     (case present raw k of
        None \<Rightarrow> envelope_numbers raw ks
      | Some v \<Rightarrow>
          (case v of
             JInt n \<Rightarrow>
               if n < 0 then Inl (ValueError (k @ '' must be a whole number >= 0''))
               else and_then (envelope_numbers raw ks) (\<lambda>d. Inr ((k, n) # d))
           | _ \<Rightarrow> Inl (ValueError (k @ '' must be a whole number >= 0''))))"

definition name_of :: "json \<Rightarrow> string option" where
  "name_of v = (case v of JStr s \<Rightarrow> if s = [] then None else Some s | _ \<Rightarrow> None)"

text \<open>\<open>tuple(sorted({...}))\<close>.\<close>

definition sorted_names :: "string list \<Rightarrow> string list" where
  "sorted_names xs = sort (remdups xs)"

(* slow/authority.py 278-286 _envelope *)
fun envelope_lists :: "(string, json) dict \<Rightarrow> string list \<Rightarrow> (string, string list) dict outcome" where
  "envelope_lists raw [] = Inr []"
| "envelope_lists raw (k # ks) =
     (case present raw k of
        None \<Rightarrow> envelope_lists raw ks
      | Some v \<Rightarrow>
          (case (case v of JList vs \<Rightarrow> those (map name_of vs) | _ \<Rightarrow> None) of
             None \<Rightarrow> Inl (ValueError (k @ '' must be a list of names''))
           | Some names \<Rightarrow>
               and_then (envelope_lists raw ks) (\<lambda>d.
                 Inr ((if names = [] then [] else [(k, sorted_names names)]) @ d))))"

(* slow/authority.py 267-287 _envelope *)
definition envelope :: "(string, json) dict \<Rightarrow> ((string, int) dict \<times> (string, string list) dict) outcome" where
  "envelope raw =
     (let unknown = sort (filter (\<lambda>k. k \<notin> set BOUNDS \<and> k \<notin> set LISTS) (dkeys raw)) in
      if unknown \<noteq> [] then Inl (ValueError ''unknown envelope fields'')
      else and_then (envelope_numbers raw BOUNDS) (\<lambda>nums.
           and_then (envelope_lists raw LISTS) (\<lambda>nlists. Inr (nums, nlists))))"

definition bounds_of :: "(string, int) dict \<Rightarrow> (string, string list) dict \<Rightarrow> int option \<Rightarrow> mandate_bounds" where
  "bounds_of nums nlists expires =
     (let names = (\<lambda>k. case dget nlists k of None \<Rightarrow> [] | Some xs \<Rightarrow> xs) in
      \<lparr>mb_max_monthly_price_minor = dget nums ''max_monthly_price_minor'',
       mb_max_term_months = dget nums ''max_term_months'',
       mb_max_one_time_fees_minor = dget nums ''max_one_time_fees_minor'',
       mb_required_features = names ''required_features'',
       mb_forbidden_changes = names ''forbidden_changes'', mb_expires_ms = expires\<rparr>)"

(* slow/authority.py 233-240 propose_mandate *)
definition propose_mandate :: "externals \<Rightarrow> blackboard \<Rightarrow> (string, json) dict \<Rightarrow> string \<Rightarrow> result outcome" where
  "propose_mandate oc bb raw mid =
     and_then (envelope raw) (\<lambda>(nums, nlists). Inr
       (if nums = [] \<and> nlists = []
        then no (''an envelope needs at least one of '' @ join '', '' (BOUNDS @ LISTS)) []
        else okay (''mandate '' @ mid @ '' proposed: it grants nothing until the user decides it'')
          [(''mandate.proposed'', PMandate (mandate_proposal (or_sha oc) bb mid (bounds_of nums nlists None)))]))"

text \<open>A mandate's limits and lists by the names of the envelope.\<close>

(* slow/authority.py 249-249 tighten_mandate *)
definition old_bound :: "mandate \<Rightarrow> string \<Rightarrow> int option" where
  "old_bound m k =
     (if k = ''max_monthly_price_minor'' then m_max_monthly_price_minor m
      else if k = ''max_term_months'' then m_max_term_months m
      else if k = ''max_one_time_fees_minor'' then m_max_one_time_fees_minor m else None)"

(* slow/authority.py 256-256 tighten_mandate *)
definition old_list :: "mandate \<Rightarrow> string \<Rightarrow> string list" where
  "old_list m k =
     (if k = ''required_features'' then m_required_features m
      else if k = ''forbidden_changes'' then m_forbidden_changes m else [])"

(* slow/authority.py 250-250 tighten_mandate *)
definition looser :: "mandate \<Rightarrow> (string, int) dict \<Rightarrow> string list" where
  "looser m nums =
     map fst (filter (\<lambda>(k, v). case old_bound m k of None \<Rightarrow> False | Some w \<Rightarrow> v > w) nums)"

(* slow/authority.py 256-261 tighten_mandate *)
definition tightened :: "mandate \<Rightarrow> (string, int) dict \<Rightarrow> (string, string list) dict \<Rightarrow> mandate_bounds" where
  "tightened m nums nlists =
     (let bound = (\<lambda>k. case dget nums k of Some v \<Rightarrow> Some v | None \<Rightarrow> old_bound m k);
          names = (\<lambda>k. sorted_names (old_list m k @ (case dget nlists k of None \<Rightarrow> [] | Some xs \<Rightarrow> xs)))
      in \<lparr>mb_max_monthly_price_minor = bound ''max_monthly_price_minor'',
          mb_max_term_months = bound ''max_term_months'',
          mb_max_one_time_fees_minor = bound ''max_one_time_fees_minor'',
          mb_required_features = names ''required_features'',
          mb_forbidden_changes = names ''forbidden_changes'', mb_expires_ms = m_expires_ms m\<rparr>)"

(* slow/authority.py 243-264 tighten_mandate *)
definition tighten_mandate :: "externals \<Rightarrow> blackboard \<Rightarrow> (string, json) dict \<Rightarrow> string \<Rightarrow> result outcome" where
  "tighten_mandate oc bb raw mid =
     and_then (envelope raw) (\<lambda>(nums, nlists). Inr (case mandate_of bb of
        None \<Rightarrow> no ''there is no mandate to tighten'' []
      | Some m \<Rightarrow>
          if m_status m \<in> {MDenied, MRevoked} then no ''there is no mandate to tighten'' []
          else if looser m nums \<noteq> [] \<or> nums = [] \<and> nlists = [] then
            no (''tighten_mandate only restricts: '' @
                (if looser m nums \<noteq> [] then join '', '' (looser m nums) @ '' would loosen'' else ''no change'') @
                ''; propose_mandate asks the user'')
              [(''action.denied'', PActionDenied ''tighten_mandate'' (if looser m nums \<noteq> [] then ''loosen'' else ''none''))]
          else
            let epoch = bb_epoch bb + 1 in
            okay (''mandate tightened as '' @ mid @ '', epoch '' @ dec_int epoch @ '': the user must re-grant it'')
              [(''authority.epoch'', PEpoch \<lparr>eb_new = epoch, eb_reason = BumpTighten\<rparr>),
               (''mandate.proposed'',
                PMandate (mandate_proposal (or_sha oc) (bb\<lparr>bb_epoch := epoch\<rparr>) mid (tightened m nums nlists)))]))"

(* slow/authority.py 290-295 revoke *)
definition revoke :: "blackboard \<Rightarrow> result" where
  "revoke bb =
     okay (''revoked: epoch '' @ dec_int (bb_epoch bb + 1) @ ''; earlier grants and cards are stale'')
       [(''authority.epoch'', PEpoch \<lparr>eb_new = bb_epoch bb + 1, eb_reason = BumpSlowRevoke\<rparr>)]"

section \<open>Evidence\<close>

text \<open>The confirmation id as a token of a text: neither a letter nor a digit on either side.\<close>

fun says_token :: "string \<Rightarrow> char option \<Rightarrow> string \<Rightarrow> bool" where
  "says_token conf p [] = (conf = [] \<and> (case p of None \<Rightarrow> True | Some x \<Rightarrow> \<not> is_alnum x))"
| "says_token conf p (c # cs) =
     ((case p of None \<Rightarrow> True | Some x \<Rightarrow> \<not> is_alnum x) \<and> starts_with conf (c # cs) \<and>
      (let r = drop (length conf) (c # cs) in r = [] \<or> \<not> is_alnum (hd r)) \<or>
      says_token conf (Some c) cs)"

definition relayed_confirmation :: "string \<Rightarrow> fast_to_slow list \<Rightarrow> fast_to_slow list" where
  "relayed_confirmation conf relays =
     filter (\<lambda>r. f2s_lane r = CpLane \<and> conf \<noteq> [] \<and>
       list_ex (says_token conf None) (f2s_text r # map snd (f2s_facts r))) relays"

text \<open>Where the id was heard: the cause to cite, or the refusal.\<close>

(* slow/authority.py 313-326 check_account *)
definition heard_in_line :: "blackboard \<Rightarrow> string \<Rightarrow> event list \<Rightarrow> string \<Rightarrow> int option \<Rightarrow> (string + string list) outcome" where
  "heard_in_line bb conf events cited seen =
     (let same = filter (\<lambda>x. l_utt_id x = cited) (ch_lines (channel_of bb CpLane)) in
      if same = [] \<or> l_speaker (last same) \<noteq> Partner
      then Inr (Inl (py_repr cited @ '' is no rep line: cite the REP line that said '' @ conf))
      else if conf = [] \<or> \<not> says_token conf None (l_text (last same))
      then Inr (Inl (''rep line '' @ cited @ '' does not say '' @ py_repr conf @ '': cite it as said''))
      else
        let said_at = filter (\<lambda>e. ev_type e = ''utt.final'' \<and>
              (case ev_payload e of PUttFinal _ _ u _ \<Rightarrow> u = cited | _ \<Rightarrow> False)) events in
        if said_at = [] then Inl IndexError
        else if (case seen of None \<Rightarrow> False | Some n \<Rightarrow> ev_seq (last said_at) > n)
        then Inr (Inl (''rep line '' @ cited @ '' came after your view: cite a line shown''))
        else Inr (Inr [ev_event_id (last said_at)]))"

(* slow/authority.py 327-338 check_account *)
definition heard_in_relay :: "string \<Rightarrow> fast_to_slow list \<Rightarrow> string + string list" where
  "heard_in_relay conf relays =
     (if relayed_confirmation conf relays = []
      then Inl (''no such confirmation relayed: '' @ py_repr conf @ ''; cite the id the rep said'')
      else Inr (map f2s_msg_id (relayed_confirmation conf relays)))"

(* slow/authority.py 113-119 UNITS *)
definition UNITS :: "(string, slot_unit) dict" where
  "UNITS =
    [(''monthly_price'', UsdMinor), (''fee'', UsdMinor), (''credit'', UsdMinor),
     (''term_months'', Months), (''expires'', Iso)]"

text \<open>\<open>dict(x or {})\<close> of a JSON value, where the keys are names.\<close>

definition pair_of :: "json \<Rightarrow> (string \<times> json) option" where
  "pair_of v = (case v of
      JList [JStr k, x] \<Rightarrow> Some (k, x)
    | JStr [a, b] \<Rightarrow> Some ([a], JStr [b])
    | JObj [(k, _), (k', _)] \<Rightarrow> Some (k, JStr k')
    | _ \<Rightarrow> None)"

definition as_dict :: "json \<Rightarrow> (string, json) dict option" where
  "as_dict v = (case v of
      JNull \<Rightarrow> Some [] | JBool False \<Rightarrow> Some [] | JInt n \<Rightarrow> if n = 0 then Some [] else None
    | JStr s \<Rightarrow> if s = [] then Some [] else None
    | JList vs \<Rightarrow> map_option (foldl (\<lambda>d (k, x). dput k x d) []) (those (map pair_of vs))
    | JObj ms \<Rightarrow> Some ms
    | _ \<Rightarrow> None)"

definition json_get :: "json \<Rightarrow> string \<Rightarrow> json" where
  "json_get v k = (case v of
      JObj ms \<Rightarrow> (case dget ms k of None \<Rightarrow> JNull | Some x \<Rightarrow> x)
    | _ \<Rightarrow> JNull)"

(* slow/authority.py 401-405 _minor *)
definition minor_text :: "rep_reader \<Rightarrow> string \<Rightarrow> string option" where
  "minor_text rr s = (case rr_decimal rr s of
      None \<Rightarrow> None
    | Some (n, k) \<Rightarrow> if k \<le> 2 then Some (dec_int (n * 10 ^ (2 - k))) else None)"

(* slow/authority.py 389-395 _ledger_hash *)
definition ledger_slot :: "rep_reader \<Rightarrow> string \<times> json \<Rightarrow> readback_slot option" where
  "ledger_slot rr m =
     (let field = fst m; kind' = before (CHR '':'') field;
          unit' = (case dget UNITS kind' of None \<Rightarrow> BoolUnit | Some u \<Rightarrow> u);
          role = (case dget ROLE_OF kind' of None \<Rightarrow> FeatureRole | Some r \<Rightarrow> r)
      in case (if unit' = UsdMinor then minor_text rr (json_str (snd m)) else Some (json_str (snd m))) of
           None \<Rightarrow> None
         | Some v \<Rightarrow>
             let s = \<lparr>rs_field = field, rs_value = v, rs_unit = unit', rs_role = role, rs_source_utt = None,
                      rs_span = None, rs_status = SlotUnknown\<rparr>
             in if slot_valid s then Some s else None)"

definition ledger_slots :: "rep_reader \<Rightarrow> json \<Rightarrow> readback_slot list option" where
  "ledger_slots rr binding =
     (case as_dict (json_get binding ''terms'') of
        None \<Rightarrow> None
      | Some terms \<Rightarrow>
          those (map (ledger_slot rr) (sort_key fst (dput ''term_months'' (json_get binding ''term_months'') terms))))"

text \<open>The empty text is an unreadable binding.\<close>

(* slow/authority.py 377-398 _ledger_hash *)
definition ledger_hash :: "externals \<Rightarrow> rep_reader \<Rightarrow> json \<Rightarrow> offer_public \<Rightarrow> string outcome" where
  "ledger_hash oc rr binding off = (case ledger_slots rr binding of
      None \<Rightarrow> Inr []
    | Some slots \<Rightarrow>
        and_then (offer_terms_hash (or_sha oc) (or_iso oc) (off\<lparr>o_slots := slots\<rparr>)) (\<lambda>h.
          Inr (case h of None \<Rightarrow> [] | Some x \<Rightarrow> x)))"

definition the_released :: "blackboard \<Rightarrow> capability option" where
  "the_released bb = (case released_accepts bb of [c] \<Rightarrow> Some c | _ \<Rightarrow> None)"

(* slow/authority.py 358-374 _evidence *)
definition ledger_evidence :: "externals \<Rightarrow> rep_reader \<Rightarrow> blackboard \<Rightarrow> string \<Rightarrow> json \<Rightarrow> (evidence \<times> string) outcome" where
  "ledger_evidence oc rr bb conf binding =
     (let cap = the_released bb;
          off = Option.bind cap (\<lambda>c. offer_of_terms bb (cap_terms_hash c))
      in and_then (case off of None \<Rightarrow> Inr None | Some x \<Rightarrow> and_then (ledger_hash oc rr binding x) (\<lambda>h. Inr (Some h)))
        (\<lambda>bound. Inr
          (\<lparr>ev_id = ''ledger:'' @ conf, ev_kind = LedgerEvidence, ev_confirmation_id = conf,
            ev_terms_hash = (if bound = Some [] then None else bound), ev_bid = None\<rparr>,
           if bound = Some [] then conf @ '': evidence unreadable, it binds nothing''
           else conf @ '' '' @
             (if cap \<noteq> None \<and> bound = map_option cap_terms_hash cap then ''binds'' else ''does not bind'') @
             '' the accepted terms'')))"

definition ledger_writes :: "string \<Rightarrow> event list \<Rightarrow> event list" where
  "ledger_writes conf events =
     filter (\<lambda>e. ev_type e = ''ledger.write'' \<and>
       (case ev_payload e of PLedgerWrite c _ \<Rightarrow> c = conf | _ \<Rightarrow> False)) events"

definition binding_of :: "event \<Rightarrow> json" where
  "binding_of e = (case ev_payload e of PLedgerWrite _ b \<Rightarrow> b | _ \<Rightarrow> JNull)"

text \<open>After the id was heard: the ledger's write, the evidence once, and the move.\<close>

(* slow/authority.py 339-355 check_account *)
definition check_ledger ::
  "externals \<Rightarrow> rep_reader \<Rightarrow> blackboard \<Rightarrow> string \<Rightarrow> event list \<Rightarrow> string list \<Rightarrow> result outcome"
where
  "check_ledger oc rr bb conf events heard =
     (let writes = ledger_writes conf events in
      if writes = [] then Inr (no (''the account shows no confirmation '' @ conf) [])
      else
        and_then
          (if list_ex (\<lambda>v. ev_id v = ''ledger:'' @ conf) (bb_evidence bb)
           then Inr ([], conf @ '' is already recorded'')
           else and_then (ledger_evidence oc rr bb conf (binding_of (last writes)))
             (\<lambda>(v, s). Inr ([(''evidence.recorded'', PEvidence v)], s)))
          (\<lambda>(es, s). Inr ((okay s (es @ moved bb ''evidence_recorded''))
             \<lparr>res_causes := ev_event_id (last writes) # heard\<rparr>)))"

(* slow/authority.py 298-355 check_account *)
definition check_account ::
  "externals \<Rightarrow> rep_reader \<Rightarrow> blackboard \<Rightarrow> string \<Rightarrow> fast_to_slow list \<Rightarrow> event list \<Rightarrow>
   string option \<Rightarrow> int option \<Rightarrow> result outcome"
where
  "check_account oc rr bb conf relays events cited seen =
     and_then (case cited of
         Some u \<Rightarrow> heard_in_line bb conf events u seen
       | None \<Rightarrow> Inr (heard_in_relay conf relays))
       (\<lambda>r. case r of
          Inl why \<Rightarrow> Inr (no why [])
        | Inr heard \<Rightarrow> check_ledger oc rr bb conf events heard)"

section \<open>The close of a case\<close>

definition commit_moves :: "event list \<Rightarrow> event list" where
  "commit_moves events =
     filter (\<lambda>e. ev_type e = ''status.changed'' \<and>
       (case ev_payload e of PStatus _ s \<Rightarrow> s = COMMITTED | _ \<Rightarrow> False)) events"

definition rep_text :: "event \<Rightarrow> (string \<times> string) option" where
  "rep_text e = (case ev_payload e of
      PUttFinal lane sp u s \<Rightarrow>
        if ev_type e = ''utt.final'' \<and> lane = ''cp'' \<and> sp = ''partner'' then Some (u, s) else None
    | _ \<Rightarrow> None)"

(* slow/authority.py 164-179 rep_since_accept *)
definition rep_since_accept :: "event list \<Rightarrow> event list" where
  "rep_since_accept events =
     (case commit_moves events of
        [] \<Rightarrow> []
      | x # xs \<Rightarrow>
          let move = last (x # xs);
              heard = map ev_seq (filter (\<lambda>e. ev_event_id e \<in> set (ev_cause_ids move)) events);
              heard = (if heard = [] then [ev_seq move] else heard)
          in filter (\<lambda>e. rep_text e \<noteq> None \<and> ev_seq e > foldr min (tl heard) (hd heard)) events)"

(* slow/authority.py 182-192 confirmed_since_accept *)
definition confirmed_since_accept :: "event list \<Rightarrow> string option" where
  "confirmed_since_accept events =
     map_option (\<lambda>e. fst (the (rep_text e)))
       (List.find (\<lambda>e. says_confirmation (snd (the (rep_text e)))) (rep_since_accept events))"

(* slow/authority.py 433-441 finish *)
definition finish_completed :: "externals \<Rightarrow> blackboard \<Rightarrow> result outcome" where
  "finish_completed oc bb =
     (case status_change bb ''completion_fail'' of
        None \<Rightarrow> Inr (no (''finish(completed) needs EVIDENCE_PENDING; the case is '' @ status_text (status_of bb)) [])
      | Some (was, s) \<Rightarrow>
          and_then (verify_completion oc bb) (\<lambda>d. Inr
            (if cd_verdict d = VerdictFail
             then no (''not verified: '' @ join '', '' (cd_reasons d) @ ''; the case needs a replan'')
                    [(''completion.decided'', PCompletion d), (''status.changed'', PStatus was s)]
             else okay ''verified complete'' ((''completion.decided'', PCompletion d) # moved bb ''completion_ok''))))"

(* slow/authority.py 442-451 finish *)
definition finish_no_deal :: "externals \<Rightarrow> rep_reader \<Rightarrow> blackboard \<Rightarrow> nat option \<Rightarrow> result outcome" where
  "finish_no_deal oc rr bb asked_final_at =
     (if status_change bb ''no_deal_verified'' = None
      then Inr (no (''finish(no_deal) needs IN_CALL; the case is '' @ status_text (status_of bb)) [])
      else and_then (verify_no_deal oc rr bb asked_final_at) (\<lambda>d. Inr
        (if cd_verdict d = VerdictFail
         then no (''no deal not verified: '' @ join '', '' (cd_reasons d)) []
         else okay ''verified no deal'' ((''completion.decided'', PCompletion d) # moved bb ''no_deal_verified''))))"

(* slow/authority.py 408-457 finish *)
definition finish ::
  "externals \<Rightarrow> rep_reader \<Rightarrow> blackboard \<Rightarrow> string \<Rightarrow> nat option \<Rightarrow> event list \<Rightarrow> result outcome"
where
  "finish oc rr bb outcome asked_final_at events =
     (let committed = (outcome = ''escalate'' \<and> status_of bb = COMMITTED) in
      if committed \<and> rep_since_accept events = []
      then Inr (no (''finish(escalate) is refused: the rep has not answered the accept '' @
                    ''yet; wait for its reply (a confirmation id: check_account it; a '' @
                    ''refusal: tell_user, then finish(escalate))'') [])
      else if committed \<and> (case confirmed_since_accept events of None \<Rightarrow> False | Some u \<Rightarrow> u \<noteq> [])
      then Inr (no (''finish(escalate) is refused: the rep's line '' @ the (confirmed_since_accept events) @ '' since the '' @
                    ''accept carries a confirmation id; check_account it (citing that '' @
                    ''line), then finish(completed) once it binds the accepted terms'') [])
      else if outcome = ''completed'' then finish_completed oc bb
      else if outcome = ''no_deal'' then finish_no_deal oc rr bb asked_final_at
      else if outcome \<notin> {''escalate'', ''info_only''} then Inr (no (''unknown outcome '' @ py_repr outcome) [])
      else if moved bb outcome = []
      then Inr (no (''finish('' @ outcome @ '') is not possible while the case is '' @ status_text (status_of bb)) [])
      else Inr (okay ''case closed'' (moved bb outcome)))"

end
