(* ===== verification/Verify_Facts.thy ===== *)
theory Verify_Facts
  imports Slow_Authority View_Facts Guard_Fold
begin

text \<open>
  What the two verifiers of \<open>guard/verify.py\<close> establish, that they exclude each other, and what
  \<open>finish\<close> of \<open>slow/authority.py\<close> does to the case.
\<close>

section \<open>Reasons and verdicts\<close>

lemma decision_of_ok [simp]: "cd_verdict (decision_of rs) = VerdictOk \<longleftrightarrow> rs = []"
  by (simp add: decision_of_def)

lemma decision_of_fail [simp]: "cd_verdict (decision_of rs) = VerdictFail \<longleftrightarrow> rs \<noteq> []"
  by (simp add: decision_of_def)

definition passes :: "completion_decision outcome \<Rightarrow> bool" where
  "passes r = (case r of Inl _ \<Rightarrow> False | Inr d \<Rightarrow> cd_verdict d = VerdictOk)"

lemma passes_simps [simp]:
  "passes (Inl e) = False" "passes (Inr d) = (cd_verdict d = VerdictOk)"
  "passes (and_then m f) = (case m of Inl _ \<Rightarrow> False | Inr x \<Rightarrow> passes (f x))"
  by (simp_all add: passes_def split: sum.split)

text \<open>A deal is complete: one released accept, evidence bound to it, and its terms readable and within
  the hard constraints.\<close>

definition complete :: "externals \<Rightarrow> blackboard \<Rightarrow> bool" where
  "complete oc bb \<longleftrightarrow>
     (\<exists>cap off t. released_accepts bb = [cap] \<and> list_ex (binds_cap cap) (bb_evidence bb) \<and>
        offer_of_terms bb (cap_terms_hash cap) = Some off \<and> offer_terms (or_iso oc) off = Inr (Some t) \<and>
        hard_violations t (mandate_of bb) = [])"

lemma verify_completion_passes: "passes (verify_completion oc bb) \<longleftrightarrow> complete oc bb"
proof (cases "released_accepts bb")
  case Nil
  then show ?thesis by (simp add: verify_completion_def complete_def)
next
  case (Cons cap rest)
  show ?thesis
  proof (cases rest)
    case Nil
    let ?o = "offer_of_terms bb (cap_terms_hash cap)"
    show ?thesis
    proof (cases ?o)
      case None
      with Cons Nil show ?thesis by (simp add: verify_completion_def complete_def terms_of_def)
    next
      case (Some off)
      with Cons Nil show ?thesis
        by (cases "offer_terms (or_iso oc) off")
           (auto simp: verify_completion_def complete_def terms_of_def split: option.split)
    qed
  next
    case (Cons c cs)
    with \<open>released_accepts bb = cap # rest\<close> show ?thesis by (simp add: verify_completion_def complete_def)
  qed
qed

text \<open>The case closes without a deal: no offer is still open for acceptance, the rep's closing reply to
  the final ask stands, and no accept was released.\<close>

definition spent_offer :: "externals \<Rightarrow> blackboard \<Rightarrow> offer_public \<Rightarrow> bool" where
  "spent_offer oc bb off \<longleftrightarrow>
     (\<exists>t. offer_terms (or_iso oc) off = Inr t \<and>
        (o_status off = OfferDeclined \<or> o_terms_hash off \<in> Some ` set (denied_terms bb) \<or>
         (\<exists>u. t = Some u \<and> hard_violations u (mandate_of bb) \<noteq> [])))"

text \<open>The rep's line number \<open>n\<close> is a closing reply at or after \<open>a\<close>, and no later line of the rep closes again
  or reopens.\<close>

definition final_reply :: "rep_reader \<Rightarrow> blackboard \<Rightarrow> nat \<Rightarrow> nat \<Rightarrow> bool" where
  "final_reply rr bb a n \<longleftrightarrow>
     (let ls = ch_lines (channel_of bb CpLane) in
      a \<le> n \<and> n < length ls \<and> l_speaker (ls ! n) = Partner \<and> rr_closing rr (l_text (ls ! n)) \<and>
      (\<exists>known. carried rr bb = Inr known \<and>
        (\<forall>j. n < j \<longrightarrow> j < length ls \<longrightarrow> l_speaker (ls ! j) = Partner \<longrightarrow>
           \<not> rr_closing rr (l_text (ls ! j)) \<and> \<not> reopens rr (l_text (ls ! j)) known)))"

lemma last_filter_upt:
  assumes "filter P [a..<b] \<noteq> []"
  shows "last (filter P [a..<b]) = n \<longleftrightarrow> a \<le> n \<and> n < b \<and> P n \<and> (\<forall>j. n < j \<longrightarrow> j < b \<longrightarrow> \<not> P j)"
  using assms
proof (induction b arbitrary: n)
  case 0
  then show ?case by simp
next
  case (Suc b)
  show ?case
  proof (cases "a \<le> b \<and> P b")
    case True
    then show ?thesis by (auto simp: less_Suc_eq)
  next
    case False
    then have same: "filter P [a..<Suc b] = filter P [a..<b]" by auto
    with Suc.prems have ne: "filter P [a..<b] \<noteq> []" by simp
    then have "a < b" by (cases "a < b") auto
    with False have b: "\<not> P b" by simp
    have "(\<forall>j. n < j \<longrightarrow> j < Suc b \<longrightarrow> \<not> P j) \<longleftrightarrow> (\<forall>j. n < j \<longrightarrow> j < b \<longrightarrow> \<not> P j)"
      using b by (metis less_Suc_eq)
    moreover have "n < Suc b \<and> P n \<longleftrightarrow> n < b \<and> P n" using b by (metis less_Suc_eq)
    ultimately show ?thesis unfolding same Suc.IH [OF ne] by blast
  qed
qed

lemma closing_at_Some:
  "closing_at rr bb (Some a) = Inr (Some n) \<longleftrightarrow> final_reply rr bb a n"
proof -
  let ?ls = "ch_lines (channel_of bb CpLane)"
  let ?P = "\<lambda>n. l_speaker (?ls ! n) = Partner"
  let ?C = "\<lambda>n. rr_closing rr (l_text (?ls ! n))"
  let ?cs = "filter (\<lambda>n. ?C n \<and> ?P n) [a..<length ?ls]"
  have eq: "filter ?C (filter ?P [a..<length ?ls]) = ?cs"
    by (simp add: conj_commute)
  have test: "closing_at rr bb (Some a) = (if ?cs = [] then Inr None else and_then (carried rr bb) (\<lambda>known.
      Inr (if list_ex (\<lambda>n. reopens rr (l_text (?ls ! n)) known) (filter (\<lambda>n. last ?cs < n) (filter ?P [a..<length ?ls]))
           then None else Some (last ?cs))))"
    unfolding closing_at_def option.case Let_def eq ..
  show ?thesis
  proof (cases "?cs = []")
    case True
    then show ?thesis by (auto simp: test final_reply_def Let_def filter_empty_conv)
  next
    case False
    have l: "last ?cs = n \<longleftrightarrow> a \<le> n \<and> n < length ?ls \<and> (?C n \<and> ?P n) \<and> (\<forall>j. n < j \<longrightarrow> j < length ?ls \<longrightarrow> \<not> (?C j \<and> ?P j))"
      by (rule last_filter_upt [OF False])
    show ?thesis
    proof (cases "carried rr bb")
      case (Inl e)
      with False show ?thesis by (simp add: test final_reply_def Let_def)
    next
      case (Inr known)
      have "closing_at rr bb (Some a) = Inr (Some n) \<longleftrightarrow> last ?cs = n \<and>
          (\<forall>j. a \<le> j \<longrightarrow> j < length ?ls \<longrightarrow> ?P j \<longrightarrow> n < j \<longrightarrow> \<not> reopens rr (l_text (?ls ! j)) known)"
        using False Inr by (auto simp: test list_ex_iff)
      then show ?thesis unfolding l final_reply_def Let_def using Inr by (auto intro: less_imp_le)
    qed
  qed
qed

definition no_deal :: "externals \<Rightarrow> rep_reader \<Rightarrow> blackboard \<Rightarrow> nat option \<Rightarrow> bool" where
  "no_deal oc rr bb asked \<longleftrightarrow>
     (\<forall>off. off \<in> set (dvals (offers bb)) \<longrightarrow> spent_offer oc bb off) \<and>
     (\<exists>a n. asked = Some a \<and> final_reply rr bb a n) \<and> released_accepts bb = []"

lemma offer_open_reason_Nil: "offer_open_reason oc bb ref off = Inr [] \<longleftrightarrow> spent_offer oc bb off"
  by (cases "offer_terms (or_iso oc) off")
     (auto simp: offer_open_reason_def spent_offer_def code_if_def split: option.split)

definition no_reasons :: "externals \<Rightarrow> blackboard \<Rightarrow> (string, offer_public) dict \<Rightarrow> bool" where
  "no_reasons oc bb d \<longleftrightarrow>
     (\<exists>rs. map_outcome (\<lambda>(ref, off). offer_open_reason oc bb ref off) d = Inr rs \<and> concat rs = [])"

lemma no_reasons_Cons: "no_reasons oc bb ((ref, off) # d) \<longleftrightarrow> spent_offer oc bb off \<and> no_reasons oc bb d"
  unfolding no_reasons_def offer_open_reason_Nil [of oc bb ref, symmetric]
  by (cases "offer_open_reason oc bb ref off"; cases "map_outcome (\<lambda>(ref, off). offer_open_reason oc bb ref off) d") auto

lemma no_reasons_iff: "no_reasons oc bb d \<longleftrightarrow> (\<forall>off. off \<in> set (dvals d) \<longrightarrow> spent_offer oc bb off)"
proof (induction d)
  case Nil
  then show ?case by (simp add: no_reasons_def)
next
  case (Cons x d)
  then show ?case by (cases x) (auto simp: no_reasons_Cons)
qed

lemma verify_no_deal_passes: "passes (verify_no_deal oc rr bb asked) \<longleftrightarrow> no_deal oc rr bb asked"
proof -
  let ?m = "map_outcome (\<lambda>(ref, off). offer_open_reason oc bb ref off) (sort_key fst (offers bb))"
  let ?c = "if asked = None then Inr [''final_offer_not_asked'']
        else and_then (closing_at rr bb asked) (\<lambda>c. Inr (code_if (c = None) ''no_closing_reply''))"
  have "passes (verify_no_deal oc rr bb asked) \<longleftrightarrow>
      no_reasons oc bb (sort_key fst (offers bb)) \<and> ?c = Inr [] \<and> released_accepts bb = []"
    unfolding no_reasons_def by (cases ?m; cases ?c) (auto simp: verify_no_deal_def)
  moreover have "?c = Inr [] \<longleftrightarrow> (\<exists>a n. asked = Some a \<and> final_reply rr bb a n)"
  proof (cases asked)
    case (Some a)
    have "?c = Inr [] \<longleftrightarrow> (\<exists>n. closing_at rr bb asked = Inr (Some n))"
      using Some by (auto simp: outcome_simps code_if_def split: if_splits)
    with Some show ?thesis by (simp add: closing_at_Some)
  qed simp
  ultimately show ?thesis by (simp add: no_reasons_iff no_deal_def)
qed

text \<open>C21. What the verifiers decide. A completion passes exactly when one accept was released, evidence is
  bound to its terms (evidence of the portal also to its business action), and the offer with those
  terms is readable and breaks no hard constraint. A close without a deal passes exactly when every
  offer is declined, denied or breaks a hard constraint, the rep gave a closing reply to the final
  ask that no later line of the rep closes over or reopens, and no accept was released. So the two never
  pass together.\<close>

theorem verifiers_decide:
  "(passes (verify_completion oc bb) \<longleftrightarrow> complete oc bb) \<and>
   (passes (verify_no_deal oc' rr bb asked) \<longleftrightarrow> no_deal oc' rr bb asked) \<and>
   \<not> (passes (verify_completion oc bb) \<and> passes (verify_no_deal oc' rr bb asked))"
  by (auto simp: verify_completion_passes verify_no_deal_passes complete_def no_deal_def)

section \<open>Closing a case\<close>

lemma released_count_length: "released_count bb = length (released_accepts bb)"
  by (simp add: released_count_def released_accepts_def dcount_def)

text \<open>A status the table reaches, emitted as \<open>moved\<close> says.\<close>

lemma moved_Nil: "moved bb t = [] \<longleftrightarrow> next_status (status_of bb) t = None"
  by (simp add: moved_def status_change_def split: option.split)

lemma moved_Some: "next_status (status_of bb) t = Some s \<Longrightarrow> moved bb t = [(''status.changed'', PStatus (status_of bb) s)]"
  by (simp add: moved_def status_change_def)

lemma reduce_status:
  assumes "emits e (''status.changed'', PStatus (status_of bb) s)" "next_status (status_of bb) t = Some s" "levels_ok bb"
    "case dget VERIFIED s of None \<Rightarrow> True | Some n \<Rightarrow> completion_ok bb \<and> released_count bb = n"
  shows "\<exists>m. apply_event bb e = Inr m \<and> status_of m = s"
proof -
  have "may_move (status_of bb) s" using assms(2) by (rule next_status_edge)
  moreover have "public_valid ((bb_public bb)\<lparr>pub_status := s\<rparr>)"
    using assms(3) by (simp add: levels_ok_def public_valid_def)
  ultimately have "r_status bb e = Inr (bb\<lparr>bb_public := (bb_public bb)\<lparr>pub_status := s\<rparr>\<rparr>)"
    using assms(1,4) by (auto simp: r_status_def emits_def with_public_def split: option.splits)
  then have "reduce bb e = Inr (bb\<lparr>bb_public := (bb_public bb)\<lparr>pub_status := s\<rparr>\<rparr>)"
    using assms(1) by (simp add: emits_def reduce_authority)
  then show ?thesis by (auto simp: apply_event_def)
qed

lemma reduce_completion:
  assumes "emits e (''completion.decided'', PCompletion d)"
  shows "apply_event bb e = Inr (bb\<lparr>bb_completion := Some d, bb_seq := ev_seq e, bb_t_ms := ev_t_ms e\<rparr>)"
  using assms by (simp add: apply_event_def emits_def reduce_authority r_completion_def)

lemma decided_then_moved:
  assumes "list_all2 emits es ((''completion.decided'', PCompletion d) # moved bb t)"
    "next_status (status_of bb) t = Some s" "levels_ok bb" "cd_verdict d = VerdictOk"
    "case dget VERIFIED s of None \<Rightarrow> True | Some n \<Rightarrow> released_count bb = n"
  shows "\<exists>m. fold_log es bb = Inr m \<and> status_of m = s"
proof -
  from assms(1,2) obtain e e' where es: "es = [e, e']"
    and e: "emits e (''completion.decided'', PCompletion d)" "emits e' (''status.changed'', PStatus (status_of bb) s)"
    by (auto simp: moved_Some list_all2_Cons2)
  let ?b = "bb\<lparr>bb_completion := Some d, bb_seq := ev_seq e, bb_t_ms := ev_t_ms e\<rparr>"
  have "\<exists>m. apply_event ?b e' = Inr m \<and> status_of m = s"
    by (rule reduce_status [where t = t])
       (use assms e in \<open>simp_all add: levels_ok_def completion_ok_def released_count_def split: option.splits\<close>)
  then show ?thesis
    using reduce_completion [OF e(1), of bb] by (auto simp: es fold_log_def)
qed


lemma result_simps [simp]:
  "\<not> res_ok (no s es)" "res_effects (no s es) = es" "res_ok (okay s es)" "res_effects (okay s es) = es"
  "res_causes (no s es) = []" "res_causes (okay s es) = []" "no s es \<noteq> okay s' es'"
  by (simp_all add: no_def okay_def)

text \<open>The status an outcome closes a case with, and what must hold for it.\<close>

definition closes_with :: "string \<Rightarrow> case_status option" where
  "closes_with outcome = map_of
     [(''completed'', VERIFIED_COMPLETE), (''no_deal'', VERIFIED_NO_DEAL), (''escalate'', ESCALATED),
      (''info_only'', CLOSED_NO_ACTION)] outcome"

lemma edge_row: "t \<noteq> ''hang_up'' \<Longrightarrow> next_status s t = Some s' \<Longrightarrow> ((s, t), s') \<in> set TRANSITIONS"
  by (simp add: next_status_def map_of_SomeD)

lemma status_change_Some: "status_change bb t = Some x \<Longrightarrow> \<exists>s. next_status (status_of bb) t = Some s"
  by (auto simp: status_change_def split: option.splits)

lemma fail_edge: "next_status s ''completion_fail'' = Some s' \<Longrightarrow> s = EVIDENCE_PENDING"
  by (drule edge_row [rotated]) (auto simp: TRANSITIONS_def)

lemma ok_edge: "next_status EVIDENCE_PENDING ''completion_ok'' = Some VERIFIED_COMPLETE"
  by code_simp

lemma close_edges:
  "next_status s ''no_deal_verified'' = Some s' \<Longrightarrow> s' = VERIFIED_NO_DEAL"
  "next_status s ''escalate'' = Some s' \<Longrightarrow> s' = ESCALATED"
  "next_status s ''info_only'' = Some s' \<Longrightarrow> s' = CLOSED_NO_ACTION"
  by (drule edge_row [rotated]; auto simp: TRANSITIONS_def)+

lemma next_completion:
  "status_change bb ''completion_fail'' = Some x \<Longrightarrow> next_status (status_of bb) ''completion_ok'' = Some VERIFIED_COMPLETE"
  using fail_edge [of "status_of bb"] ok_edge by (auto dest!: status_change_Some)

lemma next_no_deal:
  "status_change bb ''no_deal_verified'' = Some x \<Longrightarrow>
     next_status (status_of bb) ''no_deal_verified'' = Some VERIFIED_NO_DEAL"
  using close_edges(1) [of "status_of bb"] by (auto dest!: status_change_Some)

lemma not_fail: "v \<noteq> VerdictFail \<Longrightarrow> v = VerdictOk"
  by (cases v) simp_all

lemma finish_completed_ok:
  assumes "finish_completed oc bb = Inr r" "res_ok r"
  obtains d where "verify_completion oc bb = Inr d" "cd_verdict d = VerdictOk"
    "next_status (status_of bb) ''completion_ok'' = Some VERIFIED_COMPLETE"
    "res_effects r = (''completion.decided'', PCompletion d) # moved bb ''completion_ok''"
proof (cases "status_change bb ''completion_fail''")
  case None
  with assms show ?thesis by (auto simp: finish_completed_def)
next
  case (Some x)
  with assms obtain d where "verify_completion oc bb = Inr d" "cd_verdict d \<noteq> VerdictFail"
      "res_effects r = (''completion.decided'', PCompletion d) # moved bb ''completion_ok''"
    by (auto simp: finish_completed_def outcome_simps split: if_splits prod.splits)
  with next_completion [OF Some] show ?thesis by (intro that [of d] not_fail)
qed

lemma finish_no_deal_ok:
  assumes "finish_no_deal oc rr bb asked = Inr r" "res_ok r"
  obtains d where "verify_no_deal oc rr bb asked = Inr d" "cd_verdict d = VerdictOk"
    "next_status (status_of bb) ''no_deal_verified'' = Some VERIFIED_NO_DEAL"
    "res_effects r = (''completion.decided'', PCompletion d) # moved bb ''no_deal_verified''"
proof (cases "status_change bb ''no_deal_verified''")
  case None
  with assms show ?thesis by (auto simp: finish_no_deal_def)
next
  case (Some x)
  with assms obtain d where "verify_no_deal oc rr bb asked = Inr d" "cd_verdict d \<noteq> VerdictFail"
      "res_effects r = (''completion.decided'', PCompletion d) # moved bb ''no_deal_verified''"
    by (auto simp: finish_no_deal_def outcome_simps split: if_splits)
  with next_no_deal [OF Some] show ?thesis by (intro that [of d] not_fail)
qed

text \<open>The four ways \<open>finish\<close> succeeds.\<close>

lemma finish_ok_cases:
  assumes "finish oc rr bb outcome asked events = Inr r" "res_ok r"
  obtains (ended) "outcome = ''completed''" "finish_completed oc bb = Inr r"
    | (none) "outcome = ''no_deal''" "finish_no_deal oc rr bb asked = Inr r"
    | (esc) "outcome = ''escalate''" "res_effects r = moved bb outcome" "moved bb outcome \<noteq> []"
        "\<not> (status_of bb = COMMITTED \<and> rep_since_accept events = [])"
    | (info) "outcome = ''info_only''" "res_effects r = moved bb outcome" "moved bb outcome \<noteq> []"
proof -
  have sure: "\<not> c \<and> X = Inr r" if "(if c then Inr (no s es) else X) = Inr r" for c s es X
    using that assms(2) by (cases c) auto
  note f1 = sure [OF assms(1) [unfolded finish_def Let_def]]
  note f2 = sure [OF f1 [THEN conjunct2], THEN conjunct2]
  show ?thesis
  proof (cases "outcome = ''completed''")
    case True
    show ?thesis using True f2 [unfolded if_P [OF True]] by (rule that(1))
  next
    case c: False
    note f3 = f2 [unfolded if_not_P [OF c]]
    show ?thesis
    proof (cases "outcome = ''no_deal''")
      case True
      show ?thesis using True f3 [unfolded if_P [OF True]] by (rule that(2))
    next
      case n: False
      note f4 = sure [OF f3 [unfolded if_not_P [OF n]]]
      note f5 = sure [OF f4 [THEN conjunct2]]
      have "res_effects r = moved bb outcome"
        using f5 [THEN conjunct2, THEN sum.inject(2) [THEN iffD1], symmetric] by (simp only: result_simps)
      note close = this f5 [THEN conjunct1]
      show ?thesis
      proof (cases "outcome = ''escalate''")
        case True
        with f1 [THEN conjunct1] have "\<not> (status_of bb = COMMITTED \<and> rep_since_accept events = [])" by (simp only: simp_thms)
        with True close show ?thesis by (intro that(3))
      next
        case False
        with f4 [THEN conjunct1] have "outcome = ''info_only''" by (simp only: simp_thms insert_iff empty_iff)
        with close show ?thesis by (intro that(4))
      qed
    qed
  qed
qed

text \<open>C22. A successful \<open>finish\<close> closes the case. On a valid board, when \<open>finish\<close> succeeds, its effects,
  emitted in order, are accepted by the fold and leave the case in the status of the outcome; a verified
  status only if the verifier of that outcome passed, and an escalation of a committed case only after
  the rep answered the accept.\<close>

theorem finish_closes_the_case:
  assumes "finish oc rr bb outcome asked events = Inr r" "res_ok r" "levels_ok bb"
    "list_all2 emits es (res_effects r)"
  shows "\<exists>m. fold_log es bb = Inr m \<and> Some (status_of m) = closes_with outcome \<and>
    (outcome = ''completed'' \<longrightarrow> complete oc bb) \<and> (outcome = ''no_deal'' \<longrightarrow> no_deal oc rr bb asked) \<and>
    (outcome = ''escalate'' \<longrightarrow> status_of bb = COMMITTED \<longrightarrow> rep_since_accept events \<noteq> [])"
proof -
  have simple: "\<exists>m. fold_log es bb = Inr m \<and> status_of m = s"
    if eff: "res_effects r = moved bb outcome" "moved bb outcome \<noteq> []"
      and s: "\<And>s'. next_status (status_of bb) outcome = Some s' \<Longrightarrow> s' = s" and v: "dget VERIFIED s = None" for s
  proof -
    from eff(2) obtain s' where n: "next_status (status_of bb) outcome = Some s'" by (auto simp: moved_Nil)
    with s have n: "next_status (status_of bb) outcome = Some s" by blast
    with eff assms(4) obtain e where "es = [e]" "emits e (''status.changed'', PStatus (status_of bb) s)"
      by (auto simp: moved_Some list_all2_Cons2)
    moreover obtain m where "apply_event bb e = Inr m" "status_of m = s"
      using reduce_status [OF \<open>emits e (''status.changed'', PStatus (status_of bb) s)\<close> n assms(3)] v by auto
    ultimately show ?thesis by (simp add: fold_log_def)
  qed
  from assms(1,2) show ?thesis
  proof (cases rule: finish_ok_cases)
    case ended
    from finish_completed_ok [OF ended(2) assms(2)] obtain d where d: "verify_completion oc bb = Inr d"
      "cd_verdict d = VerdictOk" "next_status (status_of bb) ''completion_ok'' = Some VERIFIED_COMPLETE"
      "res_effects r = (''completion.decided'', PCompletion d) # moved bb ''completion_ok''" .
    then have c: "complete oc bb" using verify_completion_passes [of oc bb] by simp
    then have "released_count bb = 1" by (auto simp: released_count_length complete_def)
    then have "\<exists>m. fold_log es bb = Inr m \<and> status_of m = VERIFIED_COMPLETE"
      using decided_then_moved [of es d bb "''completion_ok''", OF _ d(3) assms(3) d(2)] assms(4)
      by (simp add: d(4) VERIFIED_def)
    with c ended(1) show ?thesis by (auto simp: closes_with_def)
  next
    case none
    from finish_no_deal_ok [OF none(2) assms(2)] obtain d where d: "verify_no_deal oc rr bb asked = Inr d"
      "cd_verdict d = VerdictOk" "next_status (status_of bb) ''no_deal_verified'' = Some VERIFIED_NO_DEAL"
      "res_effects r = (''completion.decided'', PCompletion d) # moved bb ''no_deal_verified''" .
    then have c: "no_deal oc rr bb asked" using verify_no_deal_passes [of oc rr bb asked] by simp
    then have "released_count bb = 0" by (auto simp: released_count_length no_deal_def)
    then have "\<exists>m. fold_log es bb = Inr m \<and> status_of m = VERIFIED_NO_DEAL"
      using decided_then_moved [of es d bb "''no_deal_verified''", OF _ d(3) assms(3) d(2)] assms(4)
      by (simp add: d(4) VERIFIED_def)
    with c none(1) show ?thesis by (auto simp: closes_with_def)
  next
    case esc
    then have "\<exists>m. fold_log es bb = Inr m \<and> status_of m = ESCALATED"
      by (intro simple) (auto dest: close_edges simp: VERIFIED_def)
    with esc show ?thesis by (auto simp: closes_with_def)
  next
    case info
    then have "\<exists>m. fold_log es bb = Inr m \<and> status_of m = CLOSED_NO_ACTION"
      by (intro simple) (auto dest: close_edges simp: VERIFIED_def)
    with info show ?thesis by (auto simp: closes_with_def)
  qed
qed


definition bye_reader :: rep_reader where
  "bye_reader = \<lparr>rr_closing = (\<lambda>s. s = ''goodbye''), rr_reopen = (\<lambda>s. s = ''wait''), rr_decimal = (\<lambda>s. None)\<rparr>"

definition bye_board :: blackboard where
  "bye_board =
     initial_blackboard\<lparr>
       bb_public := initial_public\<lparr>pub_status := IN_CALL\<rparr>,
       bb_channels := [(UserLane, new_channel),
         (CpLane, new_channel\<lparr>ch_lines :=
            [\<lparr>l_utt_id = ''u1'', l_speaker = Agent, l_text = ''is that final''\<rparr>,
             \<lparr>l_utt_id = ''u2'', l_speaker = Partner, l_text = ''goodbye''\<rparr>,
             \<lparr>l_utt_id = ''u3'', l_speaker = Partner, l_text = ''ok''\<rparr>]\<rparr>)]\<rparr>"

definition bye_result :: result where
  "bye_result = okay ''verified no deal''
     [(''completion.decided'', PCompletion (decision_of [])), (''status.changed'', PStatus IN_CALL VERIFIED_NO_DEAL)]"

theorem finish_closes_the_case_witness:
  "\<exists>m. fold_log (map (plain_event 100) (res_effects bye_result)) bye_board = Inr m \<and> status_of m = VERIFIED_NO_DEAL"
proof -
  have f: "finish sample_externals bye_reader bye_board ''no_deal'' (Some 1) [] = Inr bye_result"
    by code_simp
  have v: "levels_ok bye_board" "res_ok bye_result" by code_simp+
  have e: "list_all2 emits (map (plain_event 100) xs) xs" for xs
    by (induction xs) simp_all
  from finish_closes_the_case [OF f v(2) v(1) e] show ?thesis
    by (auto simp: closes_with_def)
qed

end
