(* ===== verification/Slow_Facts.thy ===== *)
theory Slow_Facts
  imports Verify_Facts Provenance
begin

text \<open>
  Slow may restrict authority and never grants it: the tools of \<open>slow/authority.py\<close> emit no decision,
  tightening and revoking leave every earlier grant stale, and what \<open>check_account\<close> records is what the
  completion verifier reads.
\<close>

section \<open>Grants are of this epoch or an earlier one\<close>

definition grants_dated :: "blackboard \<Rightarrow> bool" where
  "grants_dated bb \<longleftrightarrow>
     list_all (\<lambda>a. a_epoch a \<le> bb_epoch bb) (dvals (approvals bb)) \<and>
     (\<forall>m. mandate_of bb = Some m \<longrightarrow> m_epoch m \<le> bb_epoch bb)"

lemma dated_kept:
  "approvals m = approvals bb \<Longrightarrow> mandate_of m = mandate_of bb \<Longrightarrow> bb_epoch bb \<le> bb_epoch m \<Longrightarrow>
     grants_dated bb \<Longrightarrow> grants_dated m"
  by (force simp: grants_dated_def list_all_iff)

lemma dated_epoch: "r_epoch bb e = Inr m \<Longrightarrow> grants_dated bb \<Longrightarrow> grants_dated m"
  by (erule epoch_cases) (force simp: grants_dated_def list_all_iff)+

lemma dated_mandate_proposed: "r_mandate_proposed bb e = Inr m \<Longrightarrow> grants_dated bb \<Longrightarrow> grants_dated m"
  by (auto simp: r_mandate_proposed_def outcome_simps  grants_dated_def)

lemma dated_mandate_decided: "r_mandate_decided bb e = Inr m \<Longrightarrow> grants_dated bb \<Longrightarrow> grants_dated m"
  by (auto simp: r_mandate_decided_def outcome_simps Let_def  grants_dated_def
      split: option.splits)

lemma dated_approval_decided:
  assumes "r_approval_decided bb e = Inr m" "grants_dated bb"
  shows "grants_dated m"
proof -
  from assms(1) obtain d c where d: "card_epoch c = bb_epoch bb" "bb_epoch m = bb_epoch bb" "mandate_of m = mandate_of bb"
      "approvals m = dput (ad_approval_id d) (approval_from d c) (approvals bb)"
    by (auto simp: r_approval_decided_def outcome_simps split: option.splits)
  have "set (dvals (approvals m)) \<subseteq> insert (approval_from d c) (set (dvals (approvals bb)))"
    unfolding d(4) by (rule subsetI) (drule dvals_dput, blast)
  then have "a \<in> set (dvals (approvals m)) \<Longrightarrow> a = approval_from d c \<or> a \<in> set (dvals (approvals bb))" for a
    by blast
  moreover have "a_epoch (approval_from d c) = bb_epoch bb" using d(1) by (simp add: approval_from_def)
  moreover have "a \<in> set (dvals (approvals bb)) \<Longrightarrow> a_epoch a \<le> bb_epoch bb" for a
    using assms(2) unfolding grants_dated_def list_all_iff by blast
  ultimately have "a \<in> set (dvals (approvals m)) \<Longrightarrow> a_epoch a \<le> bb_epoch m" for a
    unfolding d(2) by (metis order_refl)
  with assms(2) d(2,3) show ?thesis by (simp add: grants_dated_def list_all_iff)
qed

lemma requested_kept:
  "r_approval_requested bb e = Inr m \<Longrightarrow> approvals m = approvals bb \<and> mandate_of m = mandate_of bb"
  by (auto simp: r_approval_requested_def outcome_simps Let_def split: option.splits if_splits)

lemma reduce_dated:
  assumes r: "reduce bb e = Inr m" and mono: "bb_epoch bb \<le> bb_epoch m" and dated: "grants_dated bb"
  shows "grants_dated m"
proof (cases "ev_type e \<in> set AUTHORITY_TYPES")
  case False
  with r plain_reduce [of bb e m] have "approvals m = approvals bb" "mandate_of m = mandate_of bb"
    by (simp_all add: plain_step_def)
  then show ?thesis using mono dated by (rule dated_kept)
next
  case True
  have kept: "grants_dated m" if "same_private bb m"
    using that mono dated by (auto simp: same_private_def intro: dated_kept)
  have asked: "grants_dated m" if "r_approval_requested bb e = Inr m"
    using requested_kept [OF that] mono dated by (auto intro: dated_kept)
  from AUTHORITY_TYPES_cases [OF True] r show ?thesis
    by (elim disjE)
       (auto simp: reduce_authority dest: private_kept intro: kept asked
          dated_epoch [OF _ dated] dated_mandate_proposed [OF _ dated] dated_mandate_decided [OF _ dated]
          dated_approval_decided [OF _ dated])
qed

lemma emit_dated:
  assumes "session_inv b \<and> grants_dated (bus_bb b)" "emit b c = Inr b'"
  shows "session_inv b' \<and> grants_dated (bus_bb b')"
proof -
  from assms(2) obtain m where m: "reduce (bus_bb b) (stamp b c) = Inr m"
    "bus_bb b' = m\<lparr>bb_seq := next_seq (bus_log b), bb_t_ms := ec_t_ms c\<rparr>"
    by (rule emit_reduce)
  have "epoch_le b b'" using epoch_step [OF emit_step] assms by (simp add: epoch_le_def)
  then have "bb_epoch (bus_bb b) \<le> bb_epoch m" by (simp add: epoch_le_def m(2))
  with reduce_dated [OF m(1)] assms(1) have "grants_dated m" by blast
  then show ?thesis using emit_session_inv assms by (auto simp: m(2) grants_dated_def)
qed

interpretation dated_bus: guarded_machine emit "\<lambda>b. session_inv b \<and> grants_dated (bus_bb b)"
  by unfold_locales (rule emit_dated)

lemma session_dated: "grants_dated (bus_bb (session r cs))"
proof -
  have "session_inv (new_bus r) \<and> grants_dated (bus_bb (new_bus r))"
    using session_inv_new [of r] by (simp add: new_bus_def grants_dated_def initial_defs)
  then show ?thesis unfolding session_def by (rule dated_bus.attempts_inv [THEN conjunct2])
qed


section \<open>An epoch bump makes every grant stale\<close>

lemma stale_grants:
  assumes "grants_dated bb" "approvals m = approvals bb" "bb_epoch bb < bb_epoch m"
    "mandate_of m = None \<or> mandate_of m = mandate_of bb \<or> (\<exists>md. mandate_of m = Some md \<and> m_status md \<noteq> MGranted)"
  shows "accept_offer oc m ref cr \<noteq> Inr (Allow effs)"
proof
  assume "accept_offer oc m ref cr = Inr (Allow effs)"
  then obtain off t g where g: "grant_for m off t = Allow g" by (rule accept_offer_by)
  then have "(\<exists>md. covered m t md) \<or> (\<exists>a. granted_now m off a)" using grant_for_exists by blast
  then show False
  proof (elim disjE exE)
    fix md assume "covered m t md"
    then have md: "mandate_of m = Some md" "m_status md = MGranted" "m_epoch md = bb_epoch m" by (simp_all add: covered_def)
    with assms(4) have "mandate_of bb = Some md" by auto
    with assms(1) have "m_epoch md \<le> bb_epoch bb" by (simp add: grants_dated_def)
    with md(3) assms(3) show False by simp
  next
    fix a assume "granted_now m off a"
    then have "a \<in> set (dvals (approvals bb))" "a_epoch a = bb_epoch m"
      unfolding granted_now_def assms(2) by blast+
    with assms(1,3) show False unfolding grants_dated_def list_all_iff by fastforce
  qed
qed

lemma bump_folds:
  assumes "emits e (''authority.epoch'', PEpoch \<lparr>eb_new = bb_epoch bb + 1, eb_reason = why\<rparr>)"
    "why \<noteq> BumpMandateDecided" "0 \<le> bb_epoch bb"
  shows "apply_event bb e = Inr (bb\<lparr>bb_epoch := bb_epoch bb + 1, bb_seq := ev_seq e, bb_t_ms := ev_t_ms e\<rparr>)"
  using assms
  by (cases "mandate_of bb") (simp_all add: apply_event_def emits_def reduce_authority r_epoch_def)

lemma session_epoch: "0 \<le> bb_epoch (bus_bb (session r cs))"
  using epochs.attempts_le [OF session_inv_new, of r cs]
  by (simp add: session_def epoch_le_def new_bus_def initial_blackboard_def)

text \<open>Slow can always revoke. On the board of any session the effect of \<open>revoke\<close>
  is accepted by the fold, raises the epoch by one, and after it the guard allows no accept of any offer: every approval and mandate
  given before is of an earlier epoch.\<close>

theorem revoke_blocks_accepts:
  assumes "list_all2 emits es (res_effects (revoke (bus_bb (session r cs))))"
  shows "\<exists>m. fold_log es (bus_bb (session r cs)) = Inr m \<and> bb_epoch m = bb_epoch (bus_bb (session r cs)) + 1 \<and>
    res_ok (revoke (bus_bb (session r cs))) \<and> accept_offer oc m ref cr \<noteq> Inr (Allow effs)"
proof -
  let ?bb = "bus_bb (session r cs)"
  from assms obtain e where e: "es = [e]"
      "emits e (''authority.epoch'', PEpoch \<lparr>eb_new = bb_epoch ?bb + 1, eb_reason = BumpSlowRevoke\<rparr>)"
    by (auto simp: revoke_def list_all2_Cons2)
  let ?m = "?bb\<lparr>bb_epoch := bb_epoch ?bb + 1, bb_seq := ev_seq e, bb_t_ms := ev_t_ms e\<rparr>"
  have "apply_event ?bb e = Inr ?m" by (rule bump_folds [OF e(2) _ session_epoch]) simp
  then have "fold_log es ?bb = Inr ?m" by (simp add: fold_log_def e(1))
  moreover have "accept_offer oc ?m ref cr \<noteq> Inr (Allow effs)"
    by (rule stale_grants [OF session_dated [of r cs]]) simp_all
  ultimately show ?thesis by (auto simp: revoke_def)
qed


theorem revoke_blocks_accepts_witness:
  "\<exists>m. fold_log (map (plain_event 100) (res_effects (revoke (bus_bb (session ''r'' granted_calls)))))
      (bus_bb (session ''r'' granted_calls)) = Inr m \<and> accept_offer sample_externals m ''o1'' sample_case \<noteq> Inr (Allow [])"
proof -
  have "list_all2 emits (map (plain_event 100) xs) xs" for xs by (induction xs) simp_all
  from revoke_blocks_accepts [OF this, of "''r''" granted_calls sample_externals "''o1''" sample_case "[]"]
  show ?thesis by blast
qed

section \<open>Tightening\<close>

definition strictest :: "mandate \<Rightarrow> mandate \<Rightarrow> bool" where
  "strictest m' m \<longleftrightarrow>
     at_least_as_strict (m_max_monthly_price_minor m') (m_max_monthly_price_minor m) \<and>
     at_least_as_strict (m_max_term_months m') (m_max_term_months m) \<and>
     at_least_as_strict (m_max_one_time_fees_minor m') (m_max_one_time_fees_minor m) \<and>
     at_least_as_strict (m_expires_ms m') (m_expires_ms m) \<and>
     set (m_required_features m) \<subseteq> set (m_required_features m') \<and>
     set (m_forbidden_changes m) \<subseteq> set (m_forbidden_changes m')"

lemma strict_refl: "at_least_as_strict x x"
  by (simp add: at_least_as_strict_def split: option.split)

lemma not_looser:
  assumes "looser m nums = []" "wf_dict nums"
  shows "at_least_as_strict (case dget nums k of Some v \<Rightarrow> Some v | None \<Rightarrow> old_bound m k) (old_bound m k)"
proof (cases "dget nums k")
  case None
  then show ?thesis by (simp add: strict_refl)
next
  case (Some v)
  then have "(k, v) \<in> set nums" by (rule map_of_SomeD)
  with assms(1) have "(case old_bound m k of None \<Rightarrow> False | Some w \<Rightarrow> v > w) = False"
    by (auto simp: looser_def filter_empty_conv)
  with Some show ?thesis by (auto simp: at_least_as_strict_def split: option.splits)
qed

lemma envelope_numbers_keys:
  "envelope_numbers raw ks = Inr d \<Longrightarrow> distinct ks \<Longrightarrow> wf_dict d \<and> set (dkeys d) \<subseteq> set ks"
proof (induction ks arbitrary: d)
  case Nil
  then show ?case by simp
next
  case (Cons k ks)
  then show ?case
    by (auto simp: outcome_simps split: option.splits json.splits if_splits) (force+)
qed

lemma envelope_wf: "envelope raw = Inr (nums, nlists) \<Longrightarrow> wf_dict nums"
proof -
  assume "envelope raw = Inr (nums, nlists)"
  then have "envelope_numbers raw BOUNDS = Inr nums" by (auto simp: envelope_def Let_def outcome_simps split: if_splits)
  then show ?thesis by (rule envelope_numbers_keys [THEN conjunct1]) (simp add: BOUNDS_def)
qed

lemma set_sorted_names [simp]: "set (sorted_names xs) = set xs"
  by (simp add: sorted_names_def)

lemma tighten_cases:
  assumes "tighten_mandate oc bb raw mid = Inr r" "res_ok r"
  obtains m nums nlists where "mandate_of bb = Some m" "looser m nums = []" "wf_dict nums"
    "res_effects r = [(''authority.epoch'', PEpoch \<lparr>eb_new = bb_epoch bb + 1, eb_reason = BumpTighten\<rparr>),
       (''mandate.proposed'',
        PMandate (mandate_proposal (or_sha oc) (bb\<lparr>bb_epoch := bb_epoch bb + 1\<rparr>) mid (tightened m nums nlists)))]"
proof -
  from assms(1) obtain nums nlists where e: "envelope raw = Inr (nums, nlists)"
    by (auto simp: tighten_mandate_def outcome_simps)
  have sure: "\<not> c \<and> X = r" if "(if c then no s es else X) = r" for c s es X
    using that assms(2) by (cases c) auto
  obtain m where m: "mandate_of bb = Some m"
    using assms e by (cases "mandate_of bb") (auto simp: tighten_mandate_def)
  have "(if m_status m \<in> {MDenied, MRevoked} then no ''there is no mandate to tighten'' []
      else if looser m nums \<noteq> [] \<or> nums = [] \<and> nlists = [] then
            no (''tighten_mandate only restricts: '' @
                (if looser m nums \<noteq> [] then join '', '' (looser m nums) @ '' would loosen'' else ''no change'') @
                ''; propose_mandate asks the user'')
              [(''action.denied'', PActionDenied ''tighten_mandate'' (if looser m nums \<noteq> [] then ''loosen'' else ''none''))]
          else
            let epoch = bb_epoch bb + 1 in
            okay (''mandate tightened as '' @ mid @ '', epoch '' @ dec_int epoch @ '': the user must re-grant it'')
              [(''authority.epoch'', PEpoch \<lparr>eb_new = epoch, eb_reason = BumpTighten\<rparr>),
               (''mandate.proposed'',
                PMandate (mandate_proposal (or_sha oc) (bb\<lparr>bb_epoch := epoch\<rparr>) mid (tightened m nums nlists)))]) = r"
    using assms(1) unfolding tighten_mandate_def e m and_then_Inr prod.case option.case by (rule sum.inject(2) [THEN iffD1])
  note f = sure [OF sure [OF this, THEN conjunct2]]
  from f have "looser m nums = []" by blast
  moreover have "res_effects r = [(''authority.epoch'', PEpoch \<lparr>eb_new = bb_epoch bb + 1, eb_reason = BumpTighten\<rparr>),
       (''mandate.proposed'',
        PMandate (mandate_proposal (or_sha oc) (bb\<lparr>bb_epoch := bb_epoch bb + 1\<rparr>) mid (tightened m nums nlists)))]"
    unfolding f [THEN conjunct2, symmetric] Let_def by (rule result_simps(4))
  ultimately show ?thesis using m envelope_wf [OF e] by (intro that)
qed

text \<open>On a later board without a granted mandate, what allows an accept is an approval that is newer than the dated board.\<close>

lemma newer_approval:
  assumes "grants_dated bb" "bb_epoch bb < bb_epoch late" "\<forall>md. mandate_of late = Some md \<longrightarrow> m_status md \<noteq> MGranted"
    "accept_offer oc late ref cr = Inr (Allow effs)"
  shows "\<exists>off a. dget (offers late) ref = Some off \<and> granted_now late off a \<and> a \<notin> set (dvals (approvals bb))"
proof -
  from assms(4) obtain off t g where o': "actionable oc late ref off t" and g: "grant_for late off t = Allow g" by (rule accept_offer_by)
  have "\<not> covered late t md" for md using assms(3) by (auto simp: covered_def)
  with g obtain a where a: "granted_now late off a" using grant_for_exists by blast
  then have "a_epoch a = bb_epoch late" by (simp add: granted_now_def)
  with assms(1,2) have "a \<notin> set (dvals (approvals bb))" by (auto simp: grants_dated_def list_all_iff)
  with o' a show ?thesis by (auto simp: actionable_def)
qed

text \<open>
  C23. Tightening restricts and needs a new grant. When \<open>tighten_mandate\<close> succeeds on the board of a session, its
  two effects are accepted by the fold; the mandate is then a proposal of the new epoch whose every limit and expiry
  is at least as strict and whose lists contain the old ones. At once the guard allows no accept of any offer; and on
  any board of that epoch or a later one on which no mandate stands granted, it allows one only by an approval that
  was not there before the tightening, granted in the board's epoch for exactly the offer's terms, and still live.
\<close>

theorem tightening_needs_a_new_grant:
  assumes "tighten_mandate oc (bus_bb (session r cs)) raw mid = Inr res" "res_ok res" "list_all2 emits es (res_effects res)"
  shows "\<exists>b m m'. fold_log es (bus_bb (session r cs)) = Inr b \<and> mandate_of (bus_bb (session r cs)) = Some m \<and>
    mandate_of b = Some m' \<and> m_status m' = MProposed \<and> m_epoch m' = bb_epoch b \<and>
    bb_epoch b = bb_epoch (bus_bb (session r cs)) + 1 \<and> strictest m' m \<and>
    accept_offer oc' b ref cr \<noteq> Inr (Allow effs) \<and>
    (bb_epoch b \<le> bb_epoch late \<and> (\<forall>n. mandate_of late = Some n \<longrightarrow> m_status n \<noteq> MGranted) \<and>
       accept_offer oc' late ref cr = Inr (Allow effs) \<longrightarrow>
     (\<exists>off a. dget (offers late) ref = Some off \<and> granted_now late off a \<and>
        a \<notin> set (dvals (approvals (bus_bb (session r cs))))))"
proof -
  let ?bb = "bus_bb (session r cs)"
  from assms(1,2) obtain m nums nlists where m: "mandate_of ?bb = Some m" "looser m nums = []" "wf_dict nums"
    and eff: "res_effects res = [(''authority.epoch'', PEpoch \<lparr>eb_new = bb_epoch ?bb + 1, eb_reason = BumpTighten\<rparr>),
       (''mandate.proposed'',
        PMandate (mandate_proposal (or_sha oc) (?bb\<lparr>bb_epoch := bb_epoch ?bb + 1\<rparr>) mid (tightened m nums nlists)))]"
    by (rule tighten_cases)
  let ?m = "mandate_proposal (or_sha oc) (?bb\<lparr>bb_epoch := bb_epoch ?bb + 1\<rparr>) mid (tightened m nums nlists)"
  from assms(3) eff obtain e e' where es: "es = [e, e']"
    and e: "emits e (''authority.epoch'', PEpoch \<lparr>eb_new = bb_epoch ?bb + 1, eb_reason = BumpTighten\<rparr>)"
      "emits e' (''mandate.proposed'', PMandate ?m)"
    by (auto simp: list_all2_Cons2)
  let ?b = "?bb\<lparr>bb_epoch := bb_epoch ?bb + 1, bb_seq := ev_seq e, bb_t_ms := ev_t_ms e\<rparr>"
  let ?c = "?b\<lparr>bb_private := (bb_private ?bb)\<lparr>priv_mandate := Some ?m\<rparr>, bb_seq := ev_seq e', bb_t_ms := ev_t_ms e'\<rparr>"
  have m': "m_status ?m = MProposed" "m_epoch ?m = bb_epoch ?bb + 1" "mandate_valid ?m"
    by (simp_all add: mandate_proposal_def Let_def mandate_valid_def)
  have "private_valid ((bb_private ?bb)\<lparr>priv_mandate := Some ?m\<rparr>)"
    using session_levels [of r cs] by (simp add: levels_ok_def private_valid_def)
  then have "apply_event ?b e' = Inr ?c"
    using e(2) m' by (simp add: apply_event_def emits_def reduce_authority r_mandate_proposed_def with_private_def)
  moreover have "apply_event ?bb e = Inr ?b" by (rule bump_folds [OF e(1) _ session_epoch]) simp
  ultimately have f: "fold_log es ?bb = Inr ?c" by (simp add: fold_log_def es)
  have s: "strictest ?m m"
    using not_looser [OF m(2,3), of "''max_monthly_price_minor''"] not_looser [OF m(2,3), of "''max_term_months''"]
      not_looser [OF m(2,3), of "''max_one_time_fees_minor''"]
    by (simp add: strictest_def mandate_proposal_def tightened_def Let_def old_bound_def old_list_def strict_refl)
  have "accept_offer oc' ?c ref cr \<noteq> Inr (Allow effs)"
    by (rule stale_grants [OF session_dated [of r cs]]) (simp_all add: m'(1))
  moreover have "\<exists>off a. dget (offers late) ref = Some off \<and> granted_now late off a \<and> a \<notin> set (dvals (approvals ?bb))"
    if "bb_epoch ?c \<le> bb_epoch late \<and> (\<forall>n. mandate_of late = Some n \<longrightarrow> m_status n \<noteq> MGranted) \<and>
       accept_offer oc' late ref cr = Inr (Allow effs)"
    using that by (intro newer_approval [OF session_dated [of r cs]]) auto
  ultimately show ?thesis using f m(1) m' s by (intro exI [of _ ?c] exI [of _ m] exI [of _ ?m]) simp
qed


definition proposed_calls :: "emit_call list" where
  "proposed_calls =
     [sample_call 0 ''user.msg'' ''kernel'' (PUserMsg ''hello'') [],
      sample_call 30 ''mandate.proposed'' ''guard''
        (PMandate (sample_mandate\<lparr>m_status := MProposed, m_decided_by := None\<rparr>)) [''r:0'']]"

definition tighter_result :: result where
  "tighter_result =
     projr (tighten_mandate sample_externals (bus_bb (session ''r'' proposed_calls))
       [(''max_term_months'', JInt 6)] ''m2'')"

lemma proposed_board:
  "mandate_of (bus_bb (session ''r'' proposed_calls)) = Some (sample_mandate\<lparr>m_status := MProposed, m_decided_by := None\<rparr>)"
  "bb_epoch (bus_bb (session ''r'' proposed_calls)) = 0"
  by code_simp+

lemma tighter_ok:
  "tighten_mandate sample_externals (bus_bb (session ''r'' proposed_calls)) [(''max_term_months'', JInt 6)] ''m2'' = Inr tighter_result"
  "res_ok tighter_result"
proof -
  have e: "envelope [(''max_term_months'', JInt 6)] = Inr ([(''max_term_months'', 6)], [])" by code_simp
  have l: "looser (sample_mandate\<lparr>m_status := MProposed, m_decided_by := None\<rparr>) [(''max_term_months'', 6)] = []" by code_simp
  have st: "\<not> m_status (sample_mandate\<lparr>m_status := MProposed, m_decided_by := None\<rparr>) \<in> {MDenied, MRevoked}" by simp
  have ne: "\<not> (([] :: string list) \<noteq> [] \<or> [(''max_term_months'', 6 :: int)] = [] \<and> ([] :: (string \<times> string list) list) = [])" by simp
  have "\<exists>s es. tighten_mandate sample_externals (bus_bb (session ''r'' proposed_calls)) [(''max_term_months'', JInt 6)] ''m2'' = Inr (okay s es)"
    unfolding tighten_mandate_def e and_then_Inr prod.case proposed_board(1) option.case l Let_def if_not_P [OF st] if_not_P [OF ne]
    by (intro exI) (rule refl)
  then show "tighten_mandate sample_externals (bus_bb (session ''r'' proposed_calls)) [(''max_term_months'', JInt 6)] ''m2'' = Inr tighter_result"
    "res_ok tighter_result"
    by (auto simp: tighter_result_def)
qed

text \<open>A board of the new epoch: the mandate is still a proposal, the user approved the card of the offer.\<close>

definition approved_late :: blackboard where
  "approved_late = sample_bb
     \<lparr>bb_epoch := 1,
      bb_private := initial_private
        \<lparr>priv_mandate := Some (sample_mandate\<lparr>m_status := MProposed, m_decided_by := None, m_epoch := 1, m_required_features := []\<rparr>),
         priv_approvals := [(''a9'', \<lparr>a_id = ''a9'', a_decision = Granted, a_by = Ui, a_terms_hash = ''h'', a_epoch = 1,
           a_expires_ms = Some 5000\<rparr>)]\<rparr>\<rparr>"

lemma late_accept: "allowed (accept_offer sample_externals approved_late ''o1'' sample_case)"
  by code_simp

lemma late_board: "bb_epoch approved_late = 1" "mandate_of approved_late =
    Some (sample_mandate\<lparr>m_status := MProposed, m_decided_by := None, m_epoch := 1, m_required_features := []\<rparr>)"
  by code_simp+

theorem tightening_needs_a_new_grant_witness:
  "(\<exists>b m'. fold_log (map (plain_event 100) (res_effects tighter_result)) (bus_bb (session ''r'' proposed_calls)) = Inr b \<and>
     mandate_of b = Some m' \<and> m_status m' = MProposed \<and> m_epoch m' = 1) \<and>
   (\<exists>off a. dget (offers approved_late) ''o1'' = Some off \<and> granted_now approved_late off a \<and>
     a \<notin> set (dvals (approvals (bus_bb (session ''r'' proposed_calls)))))"
proof -
  have e: "list_all2 emits (map (plain_event 100) xs) xs" for xs by (induction xs) simp_all
  from late_accept obtain effs where "accept_offer sample_externals approved_late ''o1'' sample_case = Inr (Allow effs)"
    by (auto simp: allowed_iff)
  moreover have "\<forall>n. mandate_of approved_late = Some n \<longrightarrow> m_status n \<noteq> MGranted" by (simp add: late_board(2))
  ultimately show ?thesis
    using tightening_needs_a_new_grant [OF tighter_ok e, of sample_externals "''o1''" sample_case effs approved_late]
      proposed_board(2) late_board(1) by fastforce
qed

end
