(* ===== verification/Slow_Evidence.thy ===== *)
theory Slow_Evidence
  imports Slow_Facts
begin

text \<open>
  What Slow's tools emit: never a grant, and evidence only of what the ledger bound for an id the rep said.
\<close>

section \<open>No tool grants\<close>

text \<open>A result of one of the tools.\<close>

definition from_tool ::
  "externals \<Rightarrow> rep_reader \<Rightarrow> blackboard \<Rightarrow> case_ref \<Rightarrow> string list \<Rightarrow> event list \<Rightarrow> result \<Rightarrow> bool" where
  "from_tool oc rr bb cr ids events r \<longleftrightarrow>
     (\<exists>ref. \<exists>i \<in> set ids. slow_request_approval oc bb ref cr i = Inr r) \<or>
     (\<exists>ref. slow_accept_offer oc bb ref cr events = Inr r) \<or>
     (\<exists>ref. slow_decline_offer bb ref = r) \<or>
     (\<exists>raw mid. propose_mandate oc bb raw mid = Inr r) \<or>
     (\<exists>raw mid. tighten_mandate oc bb raw mid = Inr r) \<or>
     revoke bb = r \<or>
     (\<exists>conf relays cited seen. check_account oc rr bb conf relays events cited seen = Inr r) \<or>
     (\<exists>outcome asked. finish oc rr bb outcome asked events = Inr r)"

text \<open>\<open>ids\<close>: the message ids a tool may use; a message is one to the user's voice.\<close>

definition harmless :: "externals \<Rightarrow> blackboard \<Rightarrow> case_ref \<Rightarrow> string list \<Rightarrow> effect \<Rightarrow> bool" where
  "harmless oc bb cr ids x \<longleftrightarrow>
     fst x \<notin> {''approval.post'', ''approval.decided'', ''mandate.decided'', ''slow.tool''} \<and>
     (case snd x of PMandate m \<Rightarrow> mandate_proposal_valid m | PEpoch b \<Rightarrow> eb_new b = bb_epoch bb + 1
      | PS2F m \<Rightarrow> s2f_guide m = None \<and> s2f_lane m = UserLane \<and> s2f_msg_id m \<in> set ids | _ \<Rightarrow> True) \<and>
     (fst x = ''action.authorized'' \<longrightarrow>
        (\<exists>ref effs. accept_offer oc bb ref cr = Inr (Allow effs) \<and> x \<in> set effs))"

lemma harmless_simple:
  "harmless oc bb cr ids (''status.changed'', PStatus a b)"
  "harmless oc bb cr ids (''action.denied'', PActionDenied i w)"
  "harmless oc bb cr ids (''approval.requested'', PCard c)"
  "harmless oc bb cr ids (''evidence.recorded'', PEvidence v)"
  "harmless oc bb cr ids (''completion.decided'', PCompletion d)"
  "harmless oc bb cr ids (''authority.epoch'', PEpoch \<lparr>eb_new = bb_epoch bb + 1, eb_reason = b'\<rparr>)"
  "harmless oc bb cr ids (''speak.verbatim'', PVerbatim l k s cid f)"
  by (simp_all add: harmless_def)

lemma harmless_proposal: "harmless oc bb cr ids (''mandate.proposed'', PMandate (mandate_proposal sha b mid mb))"
  by (simp add: harmless_def mandate_proposal_def Let_def mandate_proposal_valid_def mandate_valid_def)

lemma harmless_moved: "list_all (harmless oc bb cr ids) (moved bb t)"
  by (auto simp: moved_def harmless_simple split: option.split)

lemma harmless_denied: "list_all (harmless oc bb cr ids) (res_effects (denied i w))"
  by (simp add: denied_def harmless_simple)

lemma request_harmless:
  assumes "slow_request_approval oc bb ref cr i = Inr r" "i \<in> set ids"
  shows "list_all (harmless oc bb cr ids) (res_effects r)"
proof -
  obtain got where g: "request_approval oc bb ref cr = Inr got"
    using assms by (cases "request_approval oc bb ref cr") (simp_all add: slow_request_approval_def)
  note r = assms(1) [unfolded slow_request_approval_def g and_then_Inr]
  show ?thesis
  proof (cases got)
    case (Denial why)
    with r have "r = denied ''request_approval'' why" by simp
    then show ?thesis using harmless_denied by simp
  next
    case (Allow es)
    with g obtain off where es: "es = [(''approval.requested'', PCard (new_card bb off cr))]"
      using request_approval_Allow [of oc bb ref cr es] by auto
    have "\<exists>s a. r = okay s (es @ moved bb ''approval_requested'' @ [(''s2f.msg'', PS2F
        \<lparr>s2f_msg_id = i, s2f_lane = UserLane, s2f_ty = APPROVAL_NOTICE, s2f_text = [], s2f_guide = None, s2f_approval_id = a\<rparr>)])"
      using r [unfolded Allow ruling.case Let_def sum.inject, symmetric] by (intro exI)
    then show ?thesis using harmless_moved assms(2) by (auto simp: es harmless_simple harmless_def [where x = "(''s2f.msg'', y)" for y])
  qed
qed

lemma accept_harmless:
  assumes "slow_accept_offer oc bb ref cr events = Inr r"
  shows "list_all (harmless oc bb cr ids) (res_effects r)"
proof -
  obtain got where g: "accept_offer oc bb ref cr = Inr got"
    using assms by (cases "accept_offer oc bb ref cr") (simp_all add: slow_accept_offer_def)
  show ?thesis
  proof (cases got)
    case (Denial why)
    with assms g have "r = denied ''accept_offer'' why" by (simp add: slow_accept_offer_def)
    then show ?thesis using harmless_denied by simp
  next
    case (Allow es)
    with g obtain off gr where es: "es = accept_effects oc bb ref cr off gr" by (auto elim: accept_offer_by)
    have "harmless oc bb cr ids x" if x: "x \<in> set es" for x
    proof (cases "fst x = ''action.authorized''")
      case True
      moreover have "(case snd x of PMandate m \<Rightarrow> mandate_proposal_valid m | PEpoch b \<Rightarrow> eb_new b = bb_epoch bb + 1
          | PS2F m \<Rightarrow> s2f_guide m = None \<and> s2f_lane m = UserLane \<and> s2f_msg_id m \<in> set ids | _ \<Rightarrow> True)"
        using x by (auto simp: es accept_effects_def Let_def)
      moreover have "\<exists>ref effs. accept_offer oc bb ref cr = Inr (Allow effs) \<and> x \<in> set effs"
        using x g [unfolded Allow] by blast
      ultimately show ?thesis by (simp add: harmless_def)
    next
      case False
      with x show ?thesis by (auto simp: es accept_effects_def Let_def harmless_simple)
    qed
    moreover have "res_effects r = es @ moved bb ''accept_authorized''"
      using assms g Allow unfolding slow_accept_offer_def by (auto simp: Let_def okay_def split: option.splits)
    ultimately show ?thesis using harmless_moved [of oc bb cr ids] by (auto simp: list_all_iff)
  qed
qed


lemma decline_harmless: "list_all (harmless oc bb cr ids) (res_effects (slow_decline_offer bb ref))"
proof (cases "decline_offer bb ref")
  case (Denial why)
  then show ?thesis using harmless_denied by (simp add: slow_decline_offer_def)
next
  case (Allow es)
  then have "\<exists>x. es = [(''speak.verbatim'', x)] \<and> (\<exists>l k s cid f. x = PVerbatim l k s cid f)"
    by (auto simp: decline_offer_def split: option.splits if_splits)
  with Allow show ?thesis by (auto simp: slow_decline_offer_def harmless_simple)
qed

lemma propose_harmless:
  assumes "propose_mandate oc bb raw mid = Inr r"
  shows "list_all (harmless oc bb cr ids) (res_effects r)"
proof -
  from assms obtain nums nlists where "envelope raw = Inr (nums, nlists)"
    by (cases "envelope raw") (auto simp: propose_mandate_def)
  with assms have "res_effects r = [] \<or>
      res_effects r = [(''mandate.proposed'', PMandate (mandate_proposal (or_sha oc) bb mid (bounds_of nums nlists None)))]"
    by (cases "nums = [] \<and> nlists = []") (auto simp: propose_mandate_def)
  then show ?thesis by (auto simp: harmless_proposal)
qed

lemma tighten_harmless:
  assumes "tighten_mandate oc bb raw mid = Inr r"
  shows "list_all (harmless oc bb cr ids) (res_effects r)"
proof (cases "res_ok r")
  case True
  from assms True show ?thesis
    by (rule tighten_cases) (simp add: harmless_proposal harmless_simple)
next
  case False
  obtain nums nlists where e: "envelope raw = Inr (nums, nlists)"
    using assms by (cases "envelope raw") (auto simp: tighten_mandate_def)
  have no: "\<exists>s es. r = no s es \<and> list_all (harmless oc bb cr ids) es"
    if "(if c then no s es else X) = r" "list_all (harmless oc bb cr ids) es" "X = r \<Longrightarrow> \<exists>s es. r = no s es \<and> list_all (harmless oc bb cr ids) es" for c s es X
    using that by (cases c) auto
  have bad: "X = r \<Longrightarrow> P" if "res_ok X" for X P using that False by blast
  show ?thesis
  proof (cases "mandate_of bb")
    case None
    with assms e have "res_effects r = []" by (auto simp: tighten_mandate_def)
    then show ?thesis by simp
  next
    case (Some m)
    note r = assms [unfolded tighten_mandate_def e and_then_Inr prod.case Some option.case Let_def, THEN sum.inject(2) [THEN iffD1]]
    have "\<exists>s es. r = no s es \<and> list_all (harmless oc bb cr ids) es"
      by (rule no [OF r]) (simp, erule no, simp add: harmless_simple, erule bad [rotated], simp)
    then show ?thesis by auto
  qed
qed

lemma account_harmless:
  assumes "check_account oc rr bb conf relays events cited seen = Inr r"
  shows "list_all (harmless oc bb cr ids) (res_effects r)"
proof -
  from assms obtain w where w: "(case w of Inl why \<Rightarrow> Inr (no why []) | Inr heard \<Rightarrow> check_ledger oc rr bb conf events heard) = Inr r"
    by (auto simp: check_account_def and_then_eq_Inr)
  show ?thesis
  proof (cases w)
    case (Inl why)
    with w have "r = no why []" by simp
    then show ?thesis by simp
  next
    case (Inr heard)
    with w show ?thesis
      using harmless_moved [of oc bb cr ids "''evidence_recorded''"]
      by (auto simp: check_ledger_def Let_def and_then_eq_Inr harmless_simple okay_def no_def split: if_splits)
  qed
qed

lemma finish_harmless:
  assumes "finish oc rr bb outcome asked events = Inr r"
  shows "list_all (harmless oc bb cr ids) (res_effects r)"
proof -
  have no: "list_all (harmless oc bb cr ids) (res_effects r)"
    if "(if c then Inr (no s []) else X) = Inr r" "X = Inr r \<Longrightarrow> list_all (harmless oc bb cr ids) (res_effects r)" for c s X
    using that by (cases c) auto
  have either: "list_all (harmless oc bb cr ids) (res_effects r)"
    if "(if c then Y else X) = Inr r" "Y = Inr r \<Longrightarrow> list_all (harmless oc bb cr ids) (res_effects r)"
      "X = Inr r \<Longrightarrow> list_all (harmless oc bb cr ids) (res_effects r)" for c X Y
    using that by (cases c) auto
  have m: "list_all (harmless oc bb cr ids) (moved bb t)" for t by (rule harmless_moved)
  have completed: "list_all (harmless oc bb cr ids) (res_effects r)" if "finish_completed oc bb = Inr r"
    using that m by (auto simp: finish_completed_def and_then_eq_Inr harmless_simple split: option.splits if_splits)
  have without: "list_all (harmless oc bb cr ids) (res_effects r)" if "finish_no_deal oc rr bb asked = Inr r"
    using that m by (auto simp: finish_no_deal_def and_then_eq_Inr harmless_simple split: if_splits)
  show ?thesis
    using assms [unfolded finish_def Let_def]
    apply (rule no)
    apply (erule no)
    apply (erule either)
     apply (erule completed)
    apply (erule either)
     apply (erule without)
    apply (erule no)
    apply (erule no)
    using m by auto
qed

text \<open>Models restrict authority and never grant it. Whatever tool of \<open>slow/authority.py\<close> Slow calls, with
  whatever arguments and on whatever board, no effect of the result is a post or a decision; a mandate in it is an undecided proposal; an epoch in it
  is the next one; and an authorization in it is one the guard's accept rule allowed for the board. A message in it goes to the user's
  voice, without a guide and with one of the given ids.\<close>

theorem slow_never_grants:
  assumes "from_tool oc rr bb cr ids events r"
  shows "list_all (harmless oc bb cr ids) (res_effects r)"
  using assms request_harmless accept_harmless decline_harmless propose_harmless tighten_harmless account_harmless
    finish_harmless
  unfolding from_tool_def by (auto simp: revoke_def harmless_simple)

theorem slow_never_grants_witness:
  "list_all (harmless sample_externals initial_blackboard sample_case []) (res_effects (revoke initial_blackboard))"
  by (rule slow_never_grants [of sample_externals rr initial_blackboard sample_case "[]" "[]"]) (simp add: from_tool_def)

end
