(* ===== verification/Regex.thy ===== *)
theory Regex
  imports Grammar
begin

text \<open>
  Python's \<open>re\<close> on ASCII texts, as far as the guard's lexical rules use it: a backtracking matcher that
  gives the ends of a match in the order in which \<open>re\<close> tries them, and \<open>search\<close>, \<open>match\<close>,
  \<open>finditer\<close>, \<open>sub\<close> and \<open>split\<close> over it. A declarative relation says which ends exist, and the matcher
  finds exactly these.
\<close>

section \<open>Patterns\<close>

text \<open>Look-behinds are of one character and look-aheads have no groups, as in all patterns of the sources.\<close>

datatype rx =
    REps
  | RChar "char \<Rightarrow> bool"
  | RSeq rx rx
  | RAlt rx rx
  | RStar rx
  | RGroup string rx
  | RAhead rx
  | RNotAhead rx
  | RBehind "char \<Rightarrow> bool"
  | RNotBehind "char \<Rightarrow> bool"
  | REdge

definition lower :: "string \<Rightarrow> string" where
  "lower s = map lower_char s"

fun rseq :: "rx list \<Rightarrow> rx" where
  "rseq [] = REps"
| "rseq [r] = r"
| "rseq (r # rs) = RSeq r (rseq rs)"

fun ralts :: "rx list \<Rightarrow> rx" where
  "ralts [] = RNotAhead REps"
| "ralts [r] = r"
| "ralts (r # rs) = RAlt r (ralts rs)"

definition ropt :: "rx \<Rightarrow> rx" where
  "ropt r = RAlt r REps"

definition rplus :: "rx \<Rightarrow> rx" where
  "rplus r = RSeq r (RStar r)"

definition rtimes :: "nat \<Rightarrow> rx \<Rightarrow> rx" where
  "rtimes n r = rseq (replicate n r)"

definition rlit :: "string \<Rightarrow> rx" where
  "rlit s = rseq (map (\<lambda>c. RChar (\<lambda>x. x = c)) s)"

text \<open>A literal under \<open>re.I\<close>; the pattern's letters are lower case.\<close>

definition rlit_ci :: "string \<Rightarrow> rx" where
  "rlit_ci s = rseq (map (\<lambda>c. RChar (\<lambda>x. lower_char x = c)) s)"

definition rlits :: "string list \<Rightarrow> rx" where
  "rlits ss = ralts (map rlit ss)"

definition rlits_ci :: "string list \<Rightarrow> rx" where
  "rlits_ci ss = ralts (map rlit_ci ss)"

abbreviation rdigit :: rx where "rdigit \<equiv> RChar is_digit"
abbreviation rspace :: rx where "rspace \<equiv> RChar is_space"

section \<open>The matcher\<close>

text \<open>Where the matcher stands: the position, the character before, the text after, the groups.\<close>

record cursor =
  cu_pos :: nat
  cu_prev :: "char option"
  cu_rest :: string
  cu_groups :: "(string, string) dict"

definition begin_at :: "string \<Rightarrow> cursor" where
  "begin_at s = \<lparr>cu_pos = 0, cu_prev = None, cu_rest = s, cu_groups = []\<rparr>"

definition advance :: "cursor \<Rightarrow> cursor" where
  "advance c = (case cu_rest c of [] \<Rightarrow> c
     | x # xs \<Rightarrow> c\<lparr>cu_pos := cu_pos c + 1, cu_prev := Some x, cu_rest := xs\<rparr>)"

definition at_edge :: "cursor \<Rightarrow> bool" where
  "at_edge c \<longleftrightarrow>
     (case cu_prev c of None \<Rightarrow> False | Some x \<Rightarrow> word_char x) \<noteq>
     (case cu_rest c of [] \<Rightarrow> False | x # _ \<Rightarrow> word_char x)"

definition capture :: "string \<Rightarrow> cursor \<Rightarrow> cursor \<Rightarrow> cursor" where
  "capture n c d = d\<lparr>cu_groups := dput n (take (cu_pos d - cu_pos c) (cu_rest c)) (cu_groups d)\<rparr>"

text \<open>A greedy star tries one more turn first; a turn that consumes nothing is not repeated. Every turn
  shortens the rest, so its length is enough fuel.\<close>

fun turns :: "(cursor \<Rightarrow> cursor list) \<Rightarrow> nat \<Rightarrow> cursor \<Rightarrow> cursor list" where
  "turns m 0 c = [c]"
| "turns m (Suc n) c =
     concat (map (turns m n) (filter (\<lambda>d. cu_pos c < cu_pos d) (m c))) @ [c]"

primrec ends_of :: "rx \<Rightarrow> cursor \<Rightarrow> cursor list" where
  "ends_of REps c = [c]"
| "ends_of (RChar P) c = (case cu_rest c of [] \<Rightarrow> [] | x # xs \<Rightarrow> if P x then [advance c] else [])"
| "ends_of (RSeq r s) c = concat (map (ends_of s) (ends_of r c))"
| "ends_of (RAlt r s) c = ends_of r c @ ends_of s c"
| "ends_of (RStar r) c = turns (ends_of r) (length (cu_rest c)) c"
| "ends_of (RGroup n r) c = map (capture n c) (ends_of r c)"
| "ends_of (RAhead r) c = (if ends_of r c = [] then [] else [c])"
| "ends_of (RNotAhead r) c = (if ends_of r c = [] then [c] else [])"
| "ends_of (RBehind P) c = (case cu_prev c of None \<Rightarrow> [] | Some x \<Rightarrow> if P x then [c] else [])"
| "ends_of (RNotBehind P) c = (case cu_prev c of None \<Rightarrow> [c] | Some x \<Rightarrow> if P x then [] else [c])"
| "ends_of REdge c = (if at_edge c then [c] else [])"

section \<open>Where the matcher can end\<close>

definition onward :: "cursor \<Rightarrow> cursor \<Rightarrow> bool" where
  "onward c d \<longleftrightarrow> (\<exists>k. k \<le> length (cu_rest c) \<and> cu_pos d = cu_pos c + k \<and> cu_rest d = drop k (cu_rest c))"

lemma onward_refl [simp]: "onward c c"
  unfolding onward_def by (rule exI [of _ 0]) simp

lemma onward_trans: "onward c d \<Longrightarrow> onward d e \<Longrightarrow> onward c e"
  unfolding onward_def by (auto simp: add.commute)

lemma onward_groups [simp]: "onward c (d\<lparr>cu_groups := g\<rparr>) = onward c d"
  by (simp add: onward_def)

lemma onward_advance: "cu_rest c = x # xs \<Longrightarrow> onward c (advance c)"
  unfolding onward_def by (rule exI [of _ 1]) (simp add: advance_def)

lemma onward_shorter: "onward c d \<Longrightarrow> cu_pos d + length (cu_rest d) = cu_pos c + length (cu_rest c)"
  by (auto simp: onward_def)

lemma onward_le: "onward c d \<Longrightarrow> cu_pos c \<le> cu_pos d"
  by (auto simp: onward_def)

lemma turns_onward:
  assumes "\<And>c d. d \<in> set (m c) \<Longrightarrow> onward c d"
  shows "d \<in> set (turns m n c) \<Longrightarrow> onward c d"
proof (induction n arbitrary: c)
  case 0
  then show ?case by simp
next
  case (Suc n)
  then show ?case by (auto dest: assms intro: onward_trans)
qed

lemma ends_of_onward: "d \<in> set (ends_of r c) \<Longrightarrow> onward c d"
proof (induction r arbitrary: c d)
  case (RChar P)
  then show ?case by (cases "cu_rest c") (auto intro: onward_advance split: if_splits)
next
  case (RSeq r s)
  from RSeq.prems obtain e where "e \<in> set (ends_of r c)" "d \<in> set (ends_of s e)" by auto
  then show ?case using RSeq.IH onward_trans by blast
next
  case (RStar r)
  then show ?case by (auto intro: turns_onward)
next
  case (RGroup n r)
  then show ?case by (auto simp: capture_def)
qed (auto split: list.splits option.splits if_splits)


text \<open>The declarative meaning: the ends of the matches of a pattern that begin at a cursor.\<close>

primrec ends :: "rx \<Rightarrow> cursor \<Rightarrow> cursor \<Rightarrow> bool" where
  "ends REps c d = (d = c)"
| "ends (RChar P) c d = (\<exists>x xs. cu_rest c = x # xs \<and> P x \<and> d = advance c)"
| "ends (RSeq r s) c d = (\<exists>e. ends r c e \<and> ends s e d)"
| "ends (RAlt r s) c d = (ends r c d \<or> ends s c d)"
| "ends (RStar r) c d = (\<lambda>c d. ends r c d \<and> cu_pos c < cu_pos d)\<^sup>*\<^sup>* c d"
| "ends (RGroup n r) c d = (\<exists>e. ends r c e \<and> d = capture n c e)"
| "ends (RAhead r) c d = ((\<exists>e. ends r c e) \<and> d = c)"
| "ends (RNotAhead r) c d = ((\<nexists>e. ends r c e) \<and> d = c)"
| "ends (RBehind P) c d = ((\<exists>x. cu_prev c = Some x \<and> P x) \<and> d = c)"
| "ends (RNotBehind P) c d = ((\<nexists>x. cu_prev c = Some x \<and> P x) \<and> d = c)"
| "ends REdge c d = (at_edge c \<and> d = c)"

lemma turns_iff:
  assumes "\<And>c d. d \<in> set (m c) \<Longrightarrow> onward c d"
  shows "length (cu_rest c) \<le> n \<Longrightarrow>
    d \<in> set (turns m n c) \<longleftrightarrow> (\<lambda>c d. d \<in> set (m c) \<and> cu_pos c < cu_pos d)\<^sup>*\<^sup>* c d" (is "_ \<Longrightarrow> _ \<longleftrightarrow> ?R\<^sup>*\<^sup>* c d")
proof (induction n arbitrary: c)
  case 0
  have "\<not> ?R c e" for e
  proof
    assume e: "e \<in> set (m c) \<and> cu_pos c < cu_pos e"
    then have "cu_pos e + length (cu_rest e) = cu_pos c" using 0 assms [THEN onward_shorter] by fastforce
    with e show False by simp
  qed
  then have "?R\<^sup>*\<^sup>* c d \<longleftrightarrow> d = c" by (blast elim: converse_rtranclpE)
  then show ?case by simp
next
  case (Suc n)
  have "d \<in> set (turns m n e) \<longleftrightarrow> ?R\<^sup>*\<^sup>* e d" if "?R c e" for e
  proof (rule Suc.IH)
    from that have "cu_pos e + length (cu_rest e) = cu_pos c + length (cu_rest c)" "cu_pos c < cu_pos e"
      using assms [THEN onward_shorter] by blast+
    with Suc.prems show "length (cu_rest e) \<le> n" by linarith
  qed
  then have "d \<in> set (turns m (Suc n) c) \<longleftrightarrow> d = c \<or> (\<exists>e. ?R c e \<and> ?R\<^sup>*\<^sup>* e d)" by auto
  also have "\<dots> \<longleftrightarrow> ?R\<^sup>*\<^sup>* c d" by (metis (no_types, lifting) converse_rtranclpE converse_rtranclp_into_rtranclp rtranclp.rtrancl_refl)
  finally show ?case .
qed

theorem ends_of_iff: "d \<in> set (ends_of r c) \<longleftrightarrow> ends r c d"
proof (induction r arbitrary: c d)
  case (RChar P)
  then show ?case by (cases "cu_rest c") auto
next
  case (RStar r)
  have "(\<lambda>c d. d \<in> set (ends_of r c) \<and> cu_pos c < cu_pos d) = (\<lambda>c d. ends r c d \<and> cu_pos c < cu_pos d)"
    by (simp add: RStar.IH)
  then show ?case by (simp add: turns_iff ends_of_onward)
next
  case (RAhead r)
  have "ends_of r c = [] \<longleftrightarrow> (\<nexists>e. ends r c e)" using RAhead.IH by (metis list.set_intros(1) neq_Nil_conv empty_iff list.set(1))
  then show ?case by auto
next
  case (RNotAhead r)
  have "ends_of r c = [] \<longleftrightarrow> (\<nexists>e. ends r c e)" using RNotAhead.IH by (metis list.set_intros(1) neq_Nil_conv empty_iff list.set(1))
  then show ?case by auto
next
  case (RBehind P)
  then show ?case by (cases "cu_prev c") auto
qed (auto split: option.splits)

section \<open>Searching\<close>

record rmatch =
  rm_start :: nat
  rm_end :: nat
  rm_groups :: "(string, string) dict"

text \<open>The first match at a cursor; after an empty match the next one there must not be empty.\<close>

definition first_end :: "rx \<Rightarrow> bool \<Rightarrow> cursor \<Rightarrow> cursor option" where
  "first_end r must c = List.find (\<lambda>d. must \<longrightarrow> cu_pos d \<noteq> cu_pos c) (ends_of r c)"

function find_from :: "rx \<Rightarrow> bool \<Rightarrow> cursor \<Rightarrow> (cursor \<times> cursor) option" where
  "find_from r must c =
     (case first_end r must c of
        Some d \<Rightarrow> Some (c, d)
      | None \<Rightarrow> if cu_rest c = [] then None else find_from r False (advance c))"
  by pat_completeness auto
termination
  by (relation "measure (\<lambda>(r, must, c). length (cu_rest c))") (auto simp: advance_def split: list.split)

declare find_from.simps [simp del]

lemma first_end_onward: "first_end r must c = Some d \<Longrightarrow> onward c d \<and> (must \<longrightarrow> cu_pos d \<noteq> cu_pos c)"
  unfolding first_end_def by (blast dest: find_SomeD ends_of_onward)

lemma find_from_onward:
  "find_from r must c = Some (a, b) \<Longrightarrow>
     onward c a \<and> onward a b \<and> (must \<longrightarrow> cu_pos c < cu_pos b)"
proof (induction r must c rule: find_from.induct)
  case (1 r must c)
  show ?case
  proof (cases "first_end r must c")
    case (Some d)
    with 1 show ?thesis using first_end_onward [OF Some] onward_le [of c d]
      by (auto simp: find_from.simps [of r must c])
  next
    case None
    with "1.prems" have n: "cu_rest c \<noteq> []" "find_from r False (advance c) = Some (a, b)"
      by (auto simp: find_from.simps [of r must c] split: if_splits)
    then obtain x xs where "cu_rest c = x # xs" by (cases "cu_rest c") auto
    then have "onward c (advance c)" "cu_pos (advance c) = Suc (cu_pos c)"
      by (rule onward_advance, simp add: advance_def)
    moreover have "onward (advance c) a" "onward a b" using "1.IH" [OF None n] by auto
    ultimately have "onward c a" "onward a b" "cu_pos c < cu_pos b"
      using onward_le [of "advance c" a] onward_le [of a b] by (blast intro: onward_trans, blast, linarith)
    then show ?thesis by blast
  qed
qed

text \<open>\<open>finditer\<close>.\<close>

function match_from :: "rx \<Rightarrow> bool \<Rightarrow> cursor \<Rightarrow> rmatch list" where
  "match_from r must c =
     (case find_from r must c of
        None \<Rightarrow> []
      | Some (a, b) \<Rightarrow>
          \<lparr>rm_start = cu_pos a, rm_end = cu_pos b, rm_groups = cu_groups b\<rparr> #
            match_from r (cu_pos a = cu_pos b) (b\<lparr>cu_groups := []\<rparr>))"
  by pat_completeness auto
termination
proof (relation "measure (\<lambda>(r, must, c). 2 * length (cu_rest c) + (if must then 0 else 1))", goal_cases)
  case 1
  then show ?case by simp
next
  case (2 r must c x a b)
  then have "find_from r must c = Some (a, b)" by simp
  note o = find_from_onward [OF this]
  then have "cu_pos b + length (cu_rest b) = cu_pos c + length (cu_rest c)" "cu_pos a \<le> cu_pos b" "cu_pos c \<le> cu_pos a"
    using onward_trans [of c a b, THEN onward_shorter] onward_le by auto
  with o show ?case by auto
qed

declare match_from.simps [simp del]

definition finditer :: "rx \<Rightarrow> string \<Rightarrow> rmatch list" where
  "finditer r s = match_from r False (begin_at s)"

definition rsearch :: "rx \<Rightarrow> string \<Rightarrow> bool" where
  "rsearch r s \<longleftrightarrow> find_from r False (begin_at s) \<noteq> None"

text \<open>\<open>re.match\<close> and \<open>re.fullmatch\<close>, as tests.\<close>

definition rmatches :: "rx \<Rightarrow> string \<Rightarrow> bool" where
  "rmatches r s \<longleftrightarrow> ends_of r (begin_at s) \<noteq> []"

definition rfullmatch :: "rx \<Rightarrow> string \<Rightarrow> bool" where
  "rfullmatch r s \<longleftrightarrow> list_ex (\<lambda>d. cu_rest d = []) (ends_of r (begin_at s))"

definition slice :: "nat \<Rightarrow> nat \<Rightarrow> string \<Rightarrow> string" where
  "slice a b s = take (b - a) (drop a s)"

definition matched :: "string \<Rightarrow> rmatch \<Rightarrow> string" where
  "matched s m = slice (rm_start m) (rm_end m) s"

definition rgroup :: "string \<Rightarrow> rmatch \<Rightarrow> string option" where
  "rgroup n m = dget (rm_groups m) n"

fun sub_from :: "(rmatch \<Rightarrow> string) \<Rightarrow> string \<Rightarrow> nat \<Rightarrow> rmatch list \<Rightarrow> string" where
  "sub_from f s i [] = drop i s"
| "sub_from f s i (m # ms) = slice i (rm_start m) s @ f m @ sub_from f s (rm_end m) ms"

definition rsub :: "rx \<Rightarrow> (rmatch \<Rightarrow> string) \<Rightarrow> string \<Rightarrow> string" where
  "rsub r f s = sub_from f s 0 (finditer r s)"

fun split_from :: "string \<Rightarrow> nat \<Rightarrow> rmatch list \<Rightarrow> string list" where
  "split_from s i [] = [drop i s]"
| "split_from s i (m # ms) = slice i (rm_start m) s # split_from s (rm_end m) ms"

definition rsplit :: "rx \<Rightarrow> string \<Rightarrow> string list" where
  "rsplit r s = split_from s 0 (finditer r s)"

section \<open>Matches lie in the text, in order\<close>

fun in_order :: "nat \<Rightarrow> nat \<Rightarrow> rmatch list \<Rightarrow> bool" where
  "in_order i n [] = (i \<le> n)"
| "in_order i n (m # ms) = (i \<le> rm_start m \<and> rm_start m \<le> rm_end m \<and> rm_end m \<le> n \<and> in_order (rm_end m) n ms)"

lemma match_from_in_order:
  "in_order (cu_pos c) (cu_pos c + length (cu_rest c)) (match_from r must c)"
proof (induction r must c rule: match_from.induct)
  case (1 r must c)
  show ?case
  proof (cases "find_from r must c")
    case None
    then show ?thesis by (simp add: match_from.simps [of r must c])
  next
    case (Some p)
    obtain a b where p: "p = (a, b)" by (cases p)
    with Some have f: "find_from r must c = Some (a, b)" by simp
    have o: "onward c a" "onward a b" using find_from_onward [OF f] by auto
    have "in_order (cu_pos b) (cu_pos b + length (cu_rest b))
        (match_from r (cu_pos a = cu_pos b) (b\<lparr>cu_groups := []\<rparr>))"
      using "1.IH" [OF Some p [symmetric]] p by simp
    moreover have "cu_pos b + length (cu_rest b) = cu_pos c + length (cu_rest c)"
      using onward_trans [OF o] by (rule onward_shorter)
    ultimately show ?thesis using onward_le [OF o(1)] onward_le [OF o(2)] onward_shorter [OF o(2)]
      by (simp add: match_from.simps [of r must c] f)
  qed
qed

lemma finditer_in_order: "in_order 0 (length s) (finditer r s)"
  using match_from_in_order [of "begin_at s" r False] by (simp add: finditer_def begin_at_def)

lemma in_order_bound: "in_order i n ms \<Longrightarrow> i \<le> n"
  by (induction ms arbitrary: i) (auto dest: order_trans)

end
