(* ===== verification/Negation.thy ===== *)
theory Negation
  imports Regex
begin

text \<open>
  \<open>guard/negation.py\<close>: whether a sentence denies that there are fees, changes or an expiry, by the scope
  of a negation over the tokens of the sentence. Texts are ASCII, so the typographic apostrophe does
  not occur. Position \<open>-1\<close> of the code is \<open>None\<close>.
\<close>

section \<open>Word classes\<close>

(* guard/negation.py 26-26 Role *)
datatype neg_role = NegFees | NegChanges | NegExpires

(* guard/negation.py 29-33 ROLE_WORDS *)
fun role_words :: "neg_role \<Rightarrow> string list" where
  "role_words NegFees = [''fee'', ''fees'', ''charge'', ''charges'', ''cost'', ''costs'']"
| "role_words NegChanges = [''change'', ''changes'']"
| "role_words NegExpires = [''expiry'', ''expiration'', ''deadline'', ''expire'', ''expires'']"

definition all_role_words :: "string list" where
  "all_role_words = role_words NegFees @ role_words NegChanges @ role_words NegExpires"

(* guard/negation.py 35-35 OPENERS *)
definition OPENERS :: "string list" where
  "OPENERS =
    [''no'', ''without'', ''none'', ''nothing'']"

(* guard/negation.py 37-38 EXISTS *)
definition EXIST_VERBS :: "string list" where
  "EXIST_VERBS =
    [''be'', ''is'', ''are'', ''was'', ''have'', ''has'', ''come'', ''comes'', ''apply'', ''applies'',
     ''carry'', ''carries'']"

(* guard/negation.py 40-40 SELF *)
definition SELF_VERBS :: "string list" where
  "SELF_VERBS =
    [''expire'', ''expires'', ''change'', ''changes'']"

(* guard/negation.py 42-42 ARTICLES *)
definition ARTICLES :: "string list" where
  "ARTICLES =
    [''a'', ''an'', ''any'']"

(* guard/negation.py 44-44 JOINERS *)
definition JOINERS :: "string list" where
  "JOINERS =
    ['','', '';'', ''or'', ''and'', ''nor'']"

(* guard/negation.py 46-46 EXPIRY_HEADS *)
definition EXPIRY_HEADS :: "string list" where
  "EXPIRY_HEADS =
    [''date'', ''period'']"

(* guard/negation.py 48-48 SAME *)
definition SAME :: "string list" where
  "SAME =
    [''stays'', ''remains'']"

(* guard/negation.py 50-51 KINDS *)
definition KINDS :: "string list" where
  "KINDS =
    [''fee'', ''fees'', ''charge'', ''charges'', ''cost'', ''costs'', ''price'', ''rate'', ''bill'',
     ''payment'', ''contract'', ''term'']"

(* guard/negation.py 53-55 SUBJECTS *)
definition SUBJECTS :: "string list" where
  "SUBJECTS =
    [''the'', ''a'', ''an'', ''this'', ''that'', ''these'', ''those'', ''your'', ''my'', ''our'',
     ''their'', ''his'', ''her'', ''its'', ''i'', ''you'', ''we'', ''they'', ''it'', ''he'', ''she'',
     ''there'']"

(* guard/negation.py 57-57 PREPOSITIONS *)
definition PREPOSITIONS :: "string list" where
  "PREPOSITIONS =
    [''to'', ''on'', ''for'', ''with'', ''in'', ''of'', ''at'']"

(* guard/negation.py 59-60 TARGETS *)
definition TARGETS :: "string list" where
  "TARGETS =
    [''plan'', ''plans'', ''account'', ''service'', ''services'', ''offer'', ''package'']"

(* guard/negation.py 62-63 HEDGES *)
definition HEDGES :: "string list" where
  "HEDGES =
    [''not'', ''never'', ''maybe'', ''might'', ''perhaps'', ''probably'', ''think'', ''guess'',
     ''believe'']"

(* guard/negation.py 65-67 TIMES *)
definition TIMES :: "string list" where
  "TIMES =
    [''day'', ''days'', ''week'', ''weeks'', ''month'', ''months'', ''year'', ''years'', ''hour'',
     ''hours'', ''today'', ''now'', ''yet'', ''soon'', ''tomorrow'']"

(* guard/negation.py 69-70 CONDITIONS *)
definition CONDITIONS :: "string list" where
  "CONDITIONS =
    [''if'', ''while'', ''as'', ''provided'', ''assuming'', ''when'', ''once'', ''unless'']"

(* guard/negation.py 72-74 RESTRICTIONS *)
definition RESTRICTIONS :: "string list" where
  "RESTRICTIONS =
    [''only'', ''just'', ''exception'', ''save'', ''minus'', ''except'', ''excluding'', ''besides'',
     ''apart'', ''aside'', ''than'']"

(* guard/negation.py 76-77 BOUNDS *)
definition TIME_BOUNDS :: "string list" where
  "TIME_BOUNDS =
    [''after'', ''until'', ''till'', ''before'', ''through'', ''during'', ''within'', ''beyond'']"

(* guard/negation.py 80-85 NUMBER_WORDS *)
definition NUMBER_WORDS :: "string list" where
  "NUMBER_WORDS =
    [''zero'', ''one'', ''two'', ''three'', ''four'', ''five'', ''six'', ''seven'', ''eight'', ''nine'',
     ''ten'', ''eleven'', ''twelve'', ''thirteen'', ''fourteen'', ''fifteen'', ''sixteen'',
     ''seventeen'', ''eighteen'', ''nineteen'', ''twenty'', ''thirty'', ''forty'', ''fifty'', ''sixty'',
     ''seventy'', ''eighty'', ''ninety'', ''hundred'', ''thousand'']"

(* guard/negation.py 87-89 CONTINUERS *)
definition CONTINUERS :: "string list" where
  "CONTINUERS =
    [''except'', ''apart'', ''aside'', ''besides'', ''beyond'', ''other'', ''only'', ''just'', ''save'',
     ''minus'', ''excluding'', ''unless'', ''well'']"


(* guard/negation.py 78-78 QUALIFIERS *)
definition QUALIFIERS :: "string list" where
  "QUALIFIERS = TIMES @ CONDITIONS @ RESTRICTIONS @ TIME_BOUNDS"

(* guard/negation.py 90-90 MAX_MODIFIERS *)
definition MAX_MODIFIERS :: nat where "MAX_MODIFIERS = 3"

(* guard/negation.py 91-91 BRIDGE_MAX *)
definition BRIDGE_MAX :: nat where "BRIDGE_MAX = 4"

section \<open>Tokens\<close>

(* guard/negation.py 93-93 _TOKEN *)
definition TOKEN_RX :: rx where
  "TOKEN_RX = ralts
     [rseq [ropt (rlit ''$''), rdigit,
            RStar (RChar (\<lambda>c. is_digit c \<or> c = CHR '','' \<or> c = CHR ''.'' \<or> c = CHR '':'')), rdigit],
      rseq [ropt (rlit ''$''), rdigit],
      RSeq (rplus (RChar is_lower))
        (RStar (RSeq (RChar (\<lambda>c. c = CHR 0x27 \<or> c = CHR ''-'')) (rplus (RChar is_lower)))),
      RChar (\<lambda>c. c \<in> set '',;:?!'')]"

(* guard/negation.py 94-94 _AMOUNT *)
definition AMOUNT_RX :: rx where
  "AMOUNT_RX = ralts
     [rseq [ropt (rlit ''$''), rdigit, RStar (RChar (\<lambda>c. c \<noteq> CHR 0x0A))],
      RSeq (rlit ''dollar'') (ropt (rlit ''s'')), RSeq (rlit ''cent'') (ropt (rlit ''s''))]"

definition amount_word :: "string \<Rightarrow> bool" where
  "amount_word w \<longleftrightarrow> rfullmatch AMOUNT_RX w"

(* guard/negation.py 95-97 _MONTH *)
definition MONTH_RX :: rx where
  "MONTH_RX = RSeq
     (ralts (map rlit [''january'', ''february'', ''march'', ''april'', ''may'', ''june'', ''july'', ''august'',
        ''september'', ''october'', ''november'', ''december'', ''jan'', ''feb'', ''mar'', ''apr'', ''jun'', ''jul'',
        ''aug''] @ [RSeq (rlit ''sep'') (ropt (rlit ''t''))] @ map rlit [''oct'', ''nov'', ''dec'']))
     (ropt (rlit ''.''))"

definition ORDINAL_RX :: rx where
  "ORDINAL_RX = rlits [''st'', ''nd'', ''rd'', ''th'']"

definition one_or_two_digits :: rx where
  "one_or_two_digits = RSeq rdigit (ropt rdigit)"

(* guard/negation.py 98-101 _DATE *)
definition SPOKEN_DATE_RX :: rx where
  "SPOKEN_DATE_RX = ralts
     [rseq [REdge, MONTH_RX, rplus rspace, one_or_two_digits, ropt ORDINAL_RX, REdge,
            ropt (rseq [ropt (rlit '',''), rplus rspace, rtimes 4 rdigit, REdge])],
      rseq [REdge, one_or_two_digits, ORDINAL_RX, REdge],
      rseq [REdge, rtimes 4 rdigit, rlit ''-'', rtimes 2 rdigit, rlit ''-'', rtimes 2 rdigit, REdge]]"

(* guard/negation.py 112-115 _Tok *)
record token =
  tk_text :: string
  tk_start :: nat
  tk_end :: nat

definition ends_in :: "string \<Rightarrow> string \<Rightarrow> bool" where
  "ends_in p s \<longleftrightarrow> length p \<le> length s \<and> drop (length s - length p) s = p"

definition stem :: "string \<Rightarrow> string" where
  "stem w = (if w = ''won't'' then ''will'' else if w = ''can't'' \<or> w = ''cannot'' then ''can''
             else take (length w - 3) w)"

definition token_of :: "string \<Rightarrow> rmatch \<Rightarrow> token list" where
  "token_of s m =
     (let w = matched s m; a = rm_start m; b = rm_end m in
      if w = ''cannot'' \<or> ends_in ''n't'' w
      then [\<lparr>tk_text = stem w, tk_start = a, tk_end = b\<rparr>, \<lparr>tk_text = ''not'', tk_start = a, tk_end = b\<rparr>]
      else [\<lparr>tk_text = w, tk_start = a, tk_end = b\<rparr>])"

(* guard/negation.py 118-127 _tokens *)
definition tokens :: "string \<Rightarrow> token list" where
  "tokens sentence =
     (let s = rsub SPOKEN_DATE_RX (\<lambda>m. replicate (rm_end m - rm_start m) (CHR ''d'')) (lower sentence)
      in concat (map (token_of s) (finditer TOKEN_RX s)))"

(* guard/negation.py 130-132 continues *)
definition continues :: "string \<Rightarrow> bool" where
  "continues sentence \<longleftrightarrow> list_ex (\<lambda>t. tk_text t \<in> set CONTINUERS) (take 1 (tokens sentence))"

section \<open>Scope\<close>

text \<open>From here on a sentence is the list of its tokens' texts.\<close>

(* guard/negation.py 135-138 _plain *)
definition plain :: "string \<Rightarrow> bool" where
  "plain w \<longleftrightarrow>
     w \<notin> set QUALIFIERS \<and> w \<notin> set HEDGES \<and> w \<notin> set JOINERS \<and> w \<notin> set OPENERS \<and>
     w \<notin> {'';'', '':'', ''!'', ''?''} \<and> \<not> amount_word w"

(* guard/negation.py 141-142 _modifier *)
definition modifier :: "string \<Rightarrow> bool" where
  "modifier w \<longleftrightarrow> plain w \<and> w \<notin> set SUBJECTS \<and> w \<notin> set PREPOSITIONS"

text \<open>An item is the range \<open>[k..<k + n]\<close> of tokens; the position of the role word that heads it.\<close>

(* guard/negation.py 145-151 _head *)
definition item_head :: "string list \<Rightarrow> nat \<Rightarrow> nat \<Rightarrow> neg_role \<Rightarrow> nat option" where
  "item_head ws k n role =
     (if ws ! (k + n - 1) \<in> set (role_words role) then Some (k + n - 1)
      else if role = NegExpires \<and> n > 1 \<and> ws ! (k + n - 2) \<in> set (role_words role) \<and>
              ws ! (k + n - 1) \<in> set EXPIRY_HEADS
      then Some (k + n - 2) else None)"

definition find_index :: "('a \<Rightarrow> bool) \<Rightarrow> 'a list \<Rightarrow> nat option" where
  "find_index P xs = (let n = length (takeWhile (\<lambda>x. \<not> P x) xs) in if n < length xs then Some n else None)"

(* guard/negation.py 154-162 _phrases *)
function phrases :: "string list \<Rightarrow> nat \<Rightarrow> nat option" where
  "phrases ws k =
     (if k < length ws \<and> ws ! k \<in> set PREPOSITIONS then
        let rest = take (1 + MAX_MODIFIERS) (drop (k + 1) ws) in
        case find_index (\<lambda>w. w \<in> set TARGETS) rest of
          None \<Rightarrow> None
        | Some e \<Rightarrow>
            if list_all (\<lambda>w. modifier w \<or> w \<in> set SUBJECTS) (take e rest) then phrases ws (k + e + 2) else None
      else Some k)"
  by pat_completeness auto
termination
  by (relation "measure (\<lambda>(ws, k). length ws - k)") auto

declare phrases.simps [simp del]

(* guard/negation.py 165-170 _same *)
definition same_end :: "string list \<Rightarrow> nat \<Rightarrow> nat option" where
  "same_end ws i =
     (let w = take 5 (drop i ws); j = (if take 1 (drop 1 w) = [''else''] then 2 else 1) in
      if take 1 w = [''everything''] \<and> take 2 (drop (j + 1) w) = [''the'', ''same''] \<and> w ! j \<in> set SAME
      then Some (i + j + 2) else None)"

definition word_at :: "string list \<Rightarrow> nat \<Rightarrow> string" where
  "word_at ws i = (if i < length ws then ws ! i else [])"

(* guard/negation.py 173-176 _opens *)
definition opens :: "string list \<Rightarrow> nat \<Rightarrow> bool" where
  "opens ws i \<longleftrightarrow>
     ws ! i \<in> set OPENERS \<or>
     (ws ! i = ''not'' \<and> (word_at ws (i + 1) \<in> set EXIST_VERBS \<or> word_at ws (i + 1) \<in> set SELF_VERBS)) \<or>
     same_end ws i \<noteq> None"

fun skip_words :: "string list \<Rightarrow> string list \<Rightarrow> nat" where
  "skip_words J [] = 0"
| "skip_words J (w # ws) = (if w \<in> set J then Suc (skip_words J ws) else 0)"

definition item_length :: "string list \<Rightarrow> nat \<Rightarrow> nat" where
  "item_length ws k = length (takeWhile modifier (take (MAX_MODIFIERS + 1) (drop k ws)))"

definition list_joiners :: "string list" where
  "list_joiners = filter (\<lambda>w. w \<noteq> ''and'') JOINERS"

text \<open>An item at \<open>k\<close>: its length and the role word it negates, or \<open>None\<close> for a bad list.\<close>

(* guard/negation.py 192-201 _statement *)
definition list_item :: "string list \<Rightarrow> neg_role \<Rightarrow> nat \<Rightarrow> bool \<Rightarrow> (nat \<times> nat option) option" where
  "list_item ws role k first =
     (let n = item_length ws k; h = item_head ws k n role in
      if n = 0 then None
      else if role = NegChanges \<and> h \<noteq> None \<and> list_ex (\<lambda>m. ws ! m \<in> set KINDS) [k..<k + n - 1] then None
      else if \<not> first \<and> item_head ws k n NegFees = None \<and> item_head ws k n NegChanges = None \<and>
              item_head ws k n NegExpires = None then None
      else Some (n, h))"

lemma list_item_pos: "list_item ws role k first = Some (n, h) \<Longrightarrow> 0 < n \<and> n = item_length ws k"
  by (auto simp: list_item_def Let_def split: if_splits)

lemma item_length_le: "item_length ws k \<le> length ws - k"
  unfolding item_length_def by (metis length_drop length_take length_takeWhile_le min.boundedE)

(* guard/negation.py 190-208 _statement *)
function list_items :: "string list \<Rightarrow> neg_role \<Rightarrow> nat \<Rightarrow> bool \<Rightarrow> (nat, nat) dict \<times> nat option" where
  "list_items ws role k first =
     (case list_item ws role k first of
        None \<Rightarrow> ([], None)
      | Some (n, h) \<Rightarrow>
          let heads = (case h of None \<Rightarrow> [] | Some x \<Rightarrow> [(x, x)]);
              e = k + n + (if take 2 (drop (k + n) ws) = [''at'', ''all''] then 2 else 0);
              j = e + skip_words list_joiners (drop e ws)
          in if j = e \<or> j \<ge> length ws \<or> \<not> modifier (ws ! j) then (heads, Some e)
             else let (more_heads, k') = list_items ws role j False in (heads @ more_heads, k'))"
  by pat_completeness auto
termination
  by (relation "measure (\<lambda>(ws, role, k, first). length ws - k)") (auto dest: list_item_pos)

declare list_items.simps [simp del]

(* guard/negation.py 188-189 _statement *)
definition list_start :: "string list \<Rightarrow> nat \<Rightarrow> nat" where
  "list_start ws i =
     (let k = (if ws ! i \<in> set OPENERS then i + 1 else i + 2) in
      if ws ! i = ''not'' \<and> word_at ws k \<in> set ARTICLES then k + 1 else k)"

lemma list_start_after: "i < list_start ws i"
  by (simp add: list_start_def Let_def)

text \<open>The role words a statement negates (first: last token), and where its list ends.\<close>

(* guard/negation.py 179-208 _statement *)
definition neg_statement :: "string list \<Rightarrow> nat \<Rightarrow> neg_role \<Rightarrow> (nat, nat) dict \<times> nat option" where
  "neg_statement ws i role =
     (case same_end ws i of
        Some e \<Rightarrow> (if role = NegChanges then [(i, e)] else [], Some (e + 1))
      | None \<Rightarrow>
          if ws ! i = ''not'' \<and> word_at ws (i + 1) \<in> set SELF_VERBS
          then (if role = NegExpires \<and> word_at ws (i + 1) \<in> set (role_words role) then [(i + 1, i + 1)] else [],
                Some (i + 2))
          else list_items ws role (list_start ws i) True)"

definition number_name :: "string \<Rightarrow> bool" where
  "number_name w \<longleftrightarrow> list_all (\<lambda>p. p \<in> set NUMBER_WORDS) (split_on (CHR ''-'') w)"

definition date_word :: "string \<Rightarrow> bool" where
  "date_word w \<longleftrightarrow> w \<noteq> [] \<and> list_all (\<lambda>c. c = CHR ''d'') w"

text \<open>The next statement within reach: \<open>Some (Some n)\<close> is a statement at \<open>n\<close>.\<close>

(* guard/negation.py 221-225 _next *)
fun bridge :: "string list \<Rightarrow> nat \<Rightarrow> nat \<Rightarrow> nat option" where
  "bridge ws n 0 = None"
| "bridge ws n (Suc m) =
     (if n \<ge> length ws then None else if opens ws n then Some n
      else if \<not> plain (ws ! n) then None else bridge ws (n + 1) m)"

(* guard/negation.py 226-232 _next *)
definition other_term :: "string list \<Rightarrow> neg_role \<Rightarrow> bool" where
  "other_term rest role \<longleftrightarrow>
     list_ex (\<lambda>w. w \<in> set all_role_words) rest \<and> \<not> list_ex (\<lambda>w. w \<in> set QUALIFIERS) rest \<and>
     \<not> list_ex (\<lambda>w. amount_word w \<or> number_name w) rest \<and> \<not> (role = NegExpires \<and> list_ex date_word rest)"

(* guard/negation.py 211-232 _next *)
definition next_statement :: "string list \<Rightarrow> nat option \<Rightarrow> neg_role \<Rightarrow> nat option" where
  "next_statement ws at role =
     (case at of
        None \<Rightarrow> None
      | Some k \<Rightarrow>
          if list_all (\<lambda>w. w = ''!'') (drop k ws) then Some (length ws)
          else
            let j = k + skip_words JOINERS (drop k ws) in
            if j = k \<or> j \<ge> length ws then None
            else case bridge ws j (BRIDGE_MAX + 1) of
                Some n \<Rightarrow> Some n
              | None \<Rightarrow> if other_term (drop j ws) role then Some (length ws) else None)"

(* guard/negation.py 235-241 _timed *)
definition timed :: "string list \<Rightarrow> bool" where
  "timed bef =
     (let lead = takeWhile (\<lambda>w. w \<noteq> '','') bef in
      lead \<noteq> [] \<and> (hd lead \<in> set PREPOSITIONS \<or> hd lead \<in> {''this'', ''next''}) \<and>
      list_ex (\<lambda>w. w \<in> set TIMES \<or> amount_word w) lead)"

section \<open>The loop over the statements\<close>

lemma list_items_end: "list_items ws role k first = (hs, Some e) \<Longrightarrow> k < e \<and> e \<le> length ws"
proof (induction ws role k first arbitrary: hs e rule: list_items.induct)
  case (1 ws role k first)
  show ?case
  proof (cases "list_item ws role k first")
    case None
    with "1.prems" show ?thesis by (simp add: list_items.simps [of ws role k first])
  next
    case (Some p)
    obtain n h where p: "p = (n, h)" by (cases p)
    let ?heads = "case h of None \<Rightarrow> [] | Some x \<Rightarrow> [(x, x)]"
    let ?e = "k + n + (if take 2 (drop (k + n) ws) = [''at'', ''all''] then 2 else 0)"
    let ?j = "?e + skip_words list_joiners (drop ?e ws)"
    from Some p have "0 < n \<and> n = item_length ws k" by (intro list_item_pos) simp
    with item_length_le [of ws k] have n: "0 < n" "k + n \<le> length ws" by linarith+
    have "length (take 2 (drop (k + n) ws)) = 2 \<Longrightarrow> k + n + 2 \<le> length ws" by auto
    then have l: "?e \<le> length ws" using n(2) by (cases "take 2 (drop (k + n) ws) = [''at'', ''all'']") auto
    show ?thesis
    proof (cases "?j = ?e \<or> ?j \<ge> length ws \<or> \<not> modifier (ws ! ?j)")
      case True
      with "1.prems" Some p have "e = ?e" by (auto simp: list_items.simps [of ws role k first] Let_def)
      with n l show ?thesis by simp
    next
      case False
      with "1.prems" Some p obtain more where "list_items ws role ?j False = (more, Some e)"
        by (auto simp: list_items.simps [of ws role k first] Let_def split: prod.splits)
      then have "?j < e \<and> e \<le> length ws" by (rule "1.IH" [OF Some p [symmetric] refl refl refl False])
      with n show ?thesis by linarith
    qed
  qed
qed

lemma statement_end: "neg_statement ws i role = (hs, Some e) \<Longrightarrow> i < e"
proof (cases "same_end ws i")
  case None
  assume st: "neg_statement ws i role = (hs, Some e)"
  show ?thesis
  proof (cases "ws ! i = ''not'' \<and> word_at ws (i + 1) \<in> set SELF_VERBS")
    case True
    with None st show ?thesis by (auto simp: neg_statement_def)
  next
    case False
    with None st have "list_items ws role (list_start ws i) True = (hs, Some e)"
      by (simp only: neg_statement_def option.case if_False)
    then show ?thesis using list_items_end list_start_after less_trans by blast
  qed
next
  case (Some l)
  moreover assume "neg_statement ws i role = (hs, Some e)"
  ultimately have "e = l + 1" by (simp add: neg_statement_def)
  moreover from Some have "i < l" by (auto simp: same_end_def Let_def split: if_splits)
  ultimately show ?thesis by simp
qed

lemma phrases_end: "phrases ws k = Some k' \<Longrightarrow> k \<le> k'"
proof (induction ws k rule: phrases.induct)
  case (1 ws k)
  show ?case
  proof (cases "k < length ws \<and> ws ! k \<in> set PREPOSITIONS")
    case False
    with "1.prems" show ?thesis by (simp add: phrases.simps [of ws k])
  next
    case True
    with "1.prems" obtain e where e: "find_index (\<lambda>w. w \<in> set TARGETS) (take (1 + MAX_MODIFIERS) (drop (k + 1) ws)) = Some e"
      "list_all (\<lambda>w. modifier w \<or> w \<in> set SUBJECTS) (take e (take (1 + MAX_MODIFIERS) (drop (k + 1) ws)))"
      "phrases ws (k + e + 2) = Some k'"
      by (auto simp: phrases.simps [of ws k] Let_def simp del: take_take split: if_splits option.splits)
    then have "k + e + 2 \<le> k'" by (rule "1.IH" [OF True refl])
    then show ?thesis by simp
  qed
qed

lemma bridge_end: "bridge ws n m = Some i \<Longrightarrow> n \<le> i \<and> i < length ws \<and> opens ws i"
  by (induction ws n m rule: bridge.induct) (auto split: if_splits)

lemma next_end: "next_statement ws (Some k) role = Some i \<Longrightarrow> k < i \<and> i < length ws \<and> opens ws i \<or> i = length ws"
  by (auto simp: next_statement_def Let_def dest!: bridge_end split: if_splits option.splits)

definition statement_tail :: "string list \<Rightarrow> nat option \<Rightarrow> nat option" where
  "statement_tail ws k = (case k of None \<Rightarrow> None | Some k' \<Rightarrow> phrases ws k')"

definition add_all :: "(nat, nat) dict \<Rightarrow> (nat, nat) dict \<Rightarrow> (nat, nat) dict" where
  "add_all d hs = foldl (\<lambda>d (h, l). dput h l d) d hs"

text \<open>The role words negated so far, and those of a sentence that is void from some tail on.\<close>

(* guard/negation.py 260-263 scan *)
function scan_from ::
  "string list \<Rightarrow> neg_role \<Rightarrow> nat \<Rightarrow> (nat, nat) dict \<Rightarrow> (nat, nat) dict \<times> (nat, nat) dict"
where
  "scan_from ws role i good =
     (if i < length ws then
        let st = neg_statement ws i role; g = add_all good (fst st) in
        case next_statement ws (statement_tail ws (snd st)) role of
          None \<Rightarrow> ([], g)
        | Some i' \<Rightarrow> scan_from ws role i' g
      else (good, []))"
  by pat_completeness auto
termination
proof (relation "measure (\<lambda>(ws, role, i, good). length ws - i)", goal_cases)
  case 1
  then show ?case by simp
next
  case (2 ws role i good st g i')
  obtain hs k where st: "neg_statement ws i role = (hs, k)" by (cases "neg_statement ws i role")
  with 2 obtain e k' where k: "k = Some e" "phrases ws e = Some k'"
    by (auto simp: statement_tail_def next_statement_def split: option.splits)
  then have "next_statement ws (Some k') role = Some i'" using 2 st by (simp add: statement_tail_def)
  with statement_end [of ws i role hs e] st k phrases_end [of ws e k'] next_end [of ws k' role i'] 2(1)
  show ?case by auto
qed

declare scan_from.simps [simp del]

section \<open>A sentence\<close>

datatype hit_state = Negated | Void | Plain

(* guard/negation.py 104-109 Hit *)
record hit =
  h_start :: nat
  h_end :: nat
  h_state :: hit_state

definition question :: "string \<Rightarrow> bool" where
  "question s \<longleftrightarrow> ends_in ''?'' (rstrip s)"

text \<open>The words before the first statement, without a \<open>just\<close> before an amount.\<close>

definition lead_words :: "string list \<Rightarrow> string list" where
  "lead_words bef =
     map fst (filter (\<lambda>(w, nxt). \<not> (w = ''just'' \<and> amount_word nxt)) (zip bef (drop 1 bef @ [[]])))"

definition first_opening :: "string list \<Rightarrow> nat" where
  "first_opening ws = length (takeWhile (\<lambda>k. \<not> opens ws k) [0..<length ws])"

definition unclear_same :: "string list \<Rightarrow> bool" where
  "unclear_same ws \<longleftrightarrow>
     list_ex (\<lambda>k. ws ! k = ''everything'' \<and> ''same'' \<in> set (drop k ws) \<and> same_end ws k = None) [0..<length ws]"

(* guard/negation.py 250-270 scan *)
definition voided :: "string \<Rightarrow> string list \<Rightarrow> neg_role \<Rightarrow> bool" where
  "voided sentence ws role \<longleftrightarrow>
     (let bef = take (first_opening ws) ws in
      question sentence \<or>
      list_ex (\<lambda>w. w \<in> set HEDGES \<or> w \<in> set CONDITIONS \<or> w \<in> set RESTRICTIONS \<or> w \<in> set TIME_BOUNDS)
        (lead_words bef) \<or>
      timed bef \<or> (role = NegChanges \<and> unclear_same ws))"

(* guard/negation.py 244-276 scan *)
definition scan :: "string \<Rightarrow> neg_role \<Rightarrow> hit list" where
  "scan sentence role =
     (let toks = tokens sentence; ws = map tk_text toks;
          (good, bad) = scan_from ws role (first_opening ws) [];
          void = voided sentence ws role
      in map (\<lambda>k. \<lparr>h_start = tk_start (toks ! k),
                   h_end = tk_end (toks ! (case dget bad k of Some l \<Rightarrow> l
                                     | None \<Rightarrow> (case dget good k of Some l \<Rightarrow> l | None \<Rightarrow> k))),
                   h_state = (if dget good k = None \<and> dget bad k = None then Plain
                              else if void \<or> dget bad k \<noteq> None then Void else Negated)\<rparr>)
           (filter (\<lambda>k. ws ! k \<in> set (role_words role) \<or> dget good k \<noteq> None \<or> dget bad k \<noteq> None)
              [0..<length ws]))"

(* guard/negation.py 279-281 denied *)
definition denies :: "string \<Rightarrow> neg_role \<Rightarrow> bool" where
  "denies sentence role \<longleftrightarrow> set (map h_state (scan sentence role)) = {Negated}"

end
