(* ===== verification/Reader.thy ===== *)
theory Reader
  imports Negation Readback Verify
begin

text \<open>
  \<open>guard/readback.py\<close>: how a rep line is read. The regular expressions and the lexicon are those of the
  source, over ASCII texts. \<open>rep_lexical\<close> is the reading the rules of \<open>Readback\<close> take as their argument;
  the cues \<open>closing\<close> and \<open>reopen\<close> are those the no-deal verifier takes. A Python set is a list here.
\<close>

section \<open>The lexicon\<close>

definition apostrophe :: char where "apostrophe = CHR 0x27"

(* guard/readback.py 31-32 LEXICON *)
definition RECURRING_CUES :: "string list" where
  "RECURRING_CUES =
    [''per month'', ''a month'', ''/mo'', ''/month'', ''monthly'', ''each month'', ''every month'', ''month to month'']"

(* guard/readback.py 33-34 LEXICON *)
definition ONE_TIME_CUES :: "string list" where
  "ONE_TIME_CUES = [''one-time'', ''one time'', ''activation'', ''upfront'', ''setup'', ''installation'']"

(* guard/readback.py 35-35 LEXICON *)
definition FEE_CUES :: "string list" where "FEE_CUES = [''fee'', ''fees'', ''charge'']"

(* guard/readback.py 36-36 LEXICON *)
definition CREDIT_CUES :: "string list" where "CREDIT_CUES = [''credit'', ''credits'', ''rebate'']"

(* guard/readback.py 37-38 LEXICON *)
definition NEGATION_WORDS :: "string list" where
  "NEGATION_WORDS =
    [''no'', ''not'', ''without'', ''waived'', ''waive'', ''waiving'', ''isn't'', ''doesn't'', ''won't'', ''cannot'',
     ''can't'', ''don't'', ''never'']"

(* guard/readback.py 39-41 LEXICON *)
definition CHANGE_CUES :: "string list" where
  "CHANGE_CUES =
    [''switch'', ''switching'', ''change your'', ''changing your'', ''upgrade'', ''upgrading'', ''downgrade'',
     ''move you'', ''moving you'', ''adding'', ''remove'', ''removing'', ''replace'', ''replacing'']"

(* guard/readback.py 42-44 LEXICON *)
definition GENERIC_FEE :: "string list" where
  "GENERIC_FEE =
    [''a'', ''an'', ''the'', ''one-time'', ''one'', ''time'', ''upfront'', ''additional'', ''extra'', ''any'', ''no'',
     ''this'', ''that'', ''total'', ''flat'', ''small'', ''monthly'', ''is'', ''of'']"

(* guard/readback.py 45-46 LEXICON *)
definition EXPIRY_CUES :: "string list" where
  "EXPIRY_CUES =
    [''expire'', ''expires'', ''valid until'', ''good until'', ''valid for'', ''good for'', ''available until'']"

(* guard/readback.py 47-59 LEXICON *)
definition CLOSING_CUES :: "rx list" where
  "CLOSING_CUES =
    [rlit ''best and final'', rlit ''final offer'',
     rseq [rlits [''cannot'', ''can't'', ''can not'', ''unable to'', ''not able to''], rlit '' '',
           rlits [''do'', ''go'', ''offer''], rlit '' '',
           ropt (rseq [rlit ''any'', ropt (rlit ''thing''), rlit '' '']), rlits [''better'', ''lower'']],
     rseq [rlit ''is '', ropt (rlits [''already '', ''really '', ''still '']), rlits [''our'', ''my'', ''the''], rlit '' '',
           ropt (rlits [''absolute '', ''very '']), rlit ''best '', ropt (rlit ''available ''),
           rlits [''offer'', ''rate'', ''price'', ''deal'']],
     rlit ''no better'', rlit ''nothing more'', rlit ''transfer'', rlit ''goodbye'', rlit ''ending the call'',
     rseq [rlit ''have a '', rlits [''great'', ''good'', ''nice''], rlit '' day'']]"

(* guard/readback.py 62-64 LEXICON *)
definition UNSURE_WORDS :: "string list" where
  "UNSURE_WORDS =
    [''if'', ''whether'', ''see'', ''check'', ''think'', ''sure'', ''said'', ''told'', ''maybe'', ''might'', ''may'',
     ''earlier'', ''confirm'', ''verify'', ''believe'', ''guess'', ''perhaps'', ''probably'', ''whichever'']"

(* guard/readback.py 67-69 LEXICON *)
definition UNLESS_WORDS :: "string list" where
  "UNLESS_WORDS =
    [''unless'', ''until'', ''without'', ''yet'', ''except'', ''before'', ''but'', ''however'', ''if'', ''might'', ''may'',
     ''maybe'', ''check'', ''though'', ''although'', ''supervisor'', ''manager'', ''escalate'', ''approval'']"

(* guard/readback.py 70-70 LEXICON *)
definition WH_WORDS :: "string list" where "WH_WORDS = [''what'', ''which'']"

(* guard/readback.py 71-83 LEXICON *)
definition REOPEN_CUES :: "rx list" where
  "REOPEN_CUES =
    [rseq [rlits [''i'', ''we''], rlits ['' can'', '' could'', [apostrophe, CHR ''d''], '' would'', '' will'', apostrophe # ''ll''],
           ropt (rlits ['' also'', '' still'', '' actually'']), rlit '' '',
           rlits [''do'', ''offer'', ''give'', ''waive'', ''drop'', ''lower'', ''reduce'', ''apply'', ''add'', ''include'',
                  ''match'', ''try'', ''extend'', ''throw'']],
     RSeq (rlit ''waiv'') (rlits [''e'', ''ed'', ''ing'']), RSeq (rlit ''discount'') (ropt (rlit ''s'')),
     rseq [rlit ''promo'', ropt (rlit ''tion''), ropt (rlit ''s'')], RSeq (rlit ''rebate'') (ropt (rlit ''s'')),
     rseq [rlits [''another'', ''new'', ''better'', ''lower'', ''special'', ''different'', ''loyalty'', ''one more''],
           rlit '' '', rlits [''offer'', ''deal'', ''option'', ''plan'', ''price'', ''rate'']],
     rlit ''how about'', rlit ''what about'', rlit ''what if'', rlit ''instead'', rlit ''actually'',
     RSeq (rlit ''let me '') (rlits [''check'', ''see'', ''look'', ''ask'', ''talk'', ''speak'', ''find'']),
     rlit ''hold on'', rlit ''on second thought'', rlit ''reconsider'']"

(* guard/readback.py 95-95 UNDATED *)
definition UNDATED :: string where "UNDATED = ''date?''"

section \<open>The patterns\<close>

definition one_two :: rx where "one_two = RSeq rdigit (ropt rdigit)"

definition decimal_rx :: rx where "decimal_rx = RSeq (rplus rdigit) (ropt (RSeq (rlit ''.'') (rplus rdigit)))"

definition some_spaces :: rx where "some_spaces = RStar rspace"

(* guard/readback.py 97-100 _SPLIT *)
definition SPLIT_RX :: rx where
  "SPLIT_RX = ralts
     [RChar (\<lambda>c. c \<in> set '';!?''), RSeq (rlit ''.'') (RNotAhead rdigit), RSeq (rlit '','') (RNotAhead (rtimes 3 rdigit)),
      rseq [REdge,
        ralts [RSeq (rlit_ci ''and'')
                 (RNotAhead (rseq [rplus rspace, one_two, some_spaces, rlit_ci ''cent'', ropt (rlit_ci ''s'')])),
               rlit_ci ''but'', rlit_ci ''plus'', rlit_ci ''with''],
        REdge]]"

(* guard/readback.py 101-105 _MONEY *)
definition MONEY_RX :: rx where
  "MONEY_RX = ralts
     [rseq [RGroup ''d'' (rplus rdigit), some_spaces, rlit_ci ''dollar'', ropt (rlit_ci ''s''), rplus rspace,
            ropt (RSeq (rlit_ci ''and'') (rplus rspace)), RGroup ''c'' one_two, some_spaces, rlit_ci ''cent'',
            ropt (rlit_ci ''s''), REdge],
      rseq [rlit ''$'', ropt rspace, RGroup ''a'' decimal_rx],
      RSeq (RGroup ''b'' (rseq [rplus rdigit, rlit ''.'', rdigit, rdigit])) REdge,
      rseq [RGroup ''e'' decimal_rx, some_spaces, rlit_ci ''dollar'', ropt (rlit_ci ''s''), REdge]]"

(* guard/readback.py 106-107 _MONTH *)
definition MONTH_NAMES :: "string list" where
  "MONTH_NAMES =
    [''jan'', ''feb'', ''mar'', ''apr'', ''may'', ''jun'', ''jul'', ''aug'', ''sep'', ''oct'', ''nov'', ''dec'']"

(* guard/readback.py 108-108 _M *)
definition month_rx :: "string \<Rightarrow> rx" where
  "month_rx n = rseq [RGroup n (rlits MONTH_NAMES), RStar (RChar is_lower), ropt (rlit ''.'')]"

(* guard/readback.py 109-112 _DATE *)
definition DATE_RX :: rx where
  "DATE_RX = ralts
     [RGroup ''iso'' (rseq [rtimes 4 rdigit, rlit ''-'', rtimes 2 rdigit, rlit ''-'', rtimes 2 rdigit]),
      rseq [month_rx ''m1'', rplus rspace, RGroup ''d1'' one_two, ropt ORDINAL_RX, REdge],
      rseq [REdge, RGroup ''d2'' one_two, ropt ORDINAL_RX, rplus rspace, ropt (RSeq (rlit ''of'') (rplus rspace)),
            month_rx ''m2'']]"

definition word_letter :: "char \<Rightarrow> bool" where
  "word_letter c \<longleftrightarrow> is_lower c \<or> c = apostrophe \<or> c = CHR ''-''"

(* guard/readback.py 113-113 _QUALIFIED *)
definition QUALIFIED_RX :: rx where
  "QUALIFIED_RX =
     (let w = RSeq (rplus (RChar word_letter)) (rplus rspace) in
      rseq [RGroup ''1'' (ropt (RSeq w (ropt w))),
            ralts (map (\<lambda>n. RSeq (rlit n) (ropt (rlit ''s''))) [''fee'', ''charge'', ''credit'', ''rebate'']), REdge])"

(* guard/readback.py 114-114 _MONTHS *)
definition MONTHS_RX :: rx where
  "MONTHS_RX = rseq
     [RGroup ''1'' (rplus rdigit), some_spaces, ropt (rlit ''-''), some_spaces, rlit_ci ''month'', ropt (rlit_ci ''s''), REdge]"

(* guard/readback.py 115-115 _WORD *)
definition WORD_RX :: rx where "WORD_RX = rplus (RChar word_letter)"

(* guard/readback.py 128-128 _SENTENCE *)
definition SENTENCE_RX :: rx where
  "SENTENCE_RX = RAlt (RBehind (\<lambda>c. c = CHR ''!'' \<or> c = CHR ''?'')) (RSeq (RBehind (\<lambda>c. c = CHR ''.'')) (RNotAhead rdigit))"

(* guard/readback.py 129-129 _IS *)
definition IS_RX :: rx where
  "IS_RX = rseq [REdge, RGroup ''1'' (rlits [''that'', ''this'', ''it'', ''here'', ''what'']), rlit [apostrophe, CHR ''s''], REdge]"

(* guard/readback.py 130-130 _FLOOR *)
definition FLOOR_RX :: rx where
  "FLOOR_RX = rseq [some_spaces, rlit ''than'', rplus rspace, ropt (rlit ''$''), rdigit]"

section \<open>Words and cues\<close>

definition findall :: "rx \<Rightarrow> string \<Rightarrow> string list" where
  "findall r s = map (matched s) (finditer r s)"

definition words_in :: "string \<Rightarrow> string list" where
  "words_in s = findall WORD_RX s"

(* guard/readback.py 133-135 _tokens *)
definition word_parts :: "string \<Rightarrow> string list" where
  "word_parts s = concat (map (\<lambda>w. w # split_on (CHR ''-'') w) (words_in s))"

(* guard/readback.py 119-127 _CUES *)
definition cue_rx :: "rx list \<Rightarrow> rx" where
  "cue_rx cues = ralts (map (\<lambda>r. rseq [RNotBehind is_lower, r, RNotAhead (RChar is_lower)]) cues)"

definition says :: "string list \<Rightarrow> string \<Rightarrow> bool" where
  "says cues s \<longleftrightarrow> rsearch (cue_rx (map rlit cues)) (lower s)"

(* guard/readback.py 153-164 _closing *)
definition final_here :: "string list \<Rightarrow> string \<Rightarrow> rmatch \<Rightarrow> bool" where
  "final_here later s m \<longleftrightarrow>
     (let a = foldr max (map rm_end (finditer SPLIT_RX (take (rm_start m) s))) 0;
          clause = slice a (rm_start m) s; ws = words_in clause; rest = drop (rm_end m) s in
      \<not> (ws \<noteq> [] \<and> last ws \<in> set WH_WORDS) \<and>
      \<not> list_ex (\<lambda>w. w \<in> set NEGATION_WORDS \<or> w \<in> set UNSURE_WORDS \<or> ends_in ''n't'' w) (word_parts clause) \<and>
      \<not> list_ex (\<lambda>w. w \<in> set UNLESS_WORDS) (word_parts (join '' '' (rest # later))) \<and>
      \<not> rmatches FLOOR_RX rest)"

fun any_final :: "string list \<Rightarrow> bool" where
  "any_final [] = False"
| "any_final (s # later) = (list_ex (final_here later s) (finditer (cue_rx CLOSING_CUES) s) \<or> any_final later)"

(* guard/readback.py 144-166 _closing *)
definition closing_cue :: "string \<Rightarrow> bool" where
  "closing_cue s \<longleftrightarrow>
     any_final (filter (\<lambda>x. \<not> question x)
       (rsplit SENTENCE_RX (rsub IS_RX (\<lambda>m. the (rgroup ''1'' m) @ '' is'') (lower s))))"

definition reopen_cue :: "string \<Rightarrow> bool" where
  "reopen_cue s \<longleftrightarrow> rsearch (cue_rx REOPEN_CUES) (lower s)"

section \<open>Clauses\<close>

type_synonym span = "nat \<times> nat \<times> string"

fun pieces :: "string \<Rightarrow> nat \<Rightarrow> rmatch list \<Rightarrow> span list" where
  "pieces s i [] = [(i, length s, drop i s)]"
| "pieces s i (m # ms) = (i, rm_start m, slice i (rm_start m) s) # pieces s (rm_end m) ms"

(* guard/readback.py 169-174 _clauses *)
definition clauses_of :: "string \<Rightarrow> span list" where
  "clauses_of s = pieces s 0 (finditer SPLIT_RX s)"

definition clause_texts :: "string \<Rightarrow> string list" where
  "clause_texts s = map (snd \<circ> snd) (clauses_of s)"

(* guard/readback.py 183-187 _stops *)
fun stops :: "string list \<Rightarrow> bool" where
  "stops [] = False"
| "stops (w # ws) = (w \<in> set all_role_words \<and> ''or'' \<notin> set ws \<and> ''nor'' \<notin> set ws \<or> stops ws)"

definition last4 :: "'a list \<Rightarrow> 'a list" where
  "last4 xs = drop (length xs - 4) xs"

fun reaches :: "bool \<Rightarrow> string list \<Rightarrow> bool" where
  "reaches months [] = False"
| "reaches months (w # ws) = (w \<in> set NEGATION_WORDS \<and> \<not> (months \<and> stops ws) \<or> reaches months ws)"

(* guard/readback.py 190-201 _negated *)
definition negated :: "string \<Rightarrow> nat \<Rightarrow> nat \<Rightarrow> bool \<Rightarrow> bool" where
  "negated clause i j months \<longleftrightarrow>
     reaches months (last4 (words_in (take i clause))) \<or>
     list_ex (\<lambda>w. w \<in> set NEGATION_WORDS) (take 4 (words_in (drop j clause)))"

(* guard/readback.py 204-209 _roles *)
definition roles_in :: "string \<Rightarrow> slot_role list" where
  "roles_in clause =
     (let recurring = says RECURRING_CUES clause;
          one_time = says ONE_TIME_CUES clause \<or> says FEE_CUES clause \<and> \<not> recurring in
      (if recurring then [Recurring] else []) @ (if one_time then [OneTime] else []) @
      (if says CREDIT_CUES clause then [CreditRole] else []))"

text \<open>\<open>int(Decimal(s) * 100)\<close> of a decimal number, exact below 28 digits.\<close>

definition minor_units :: "string \<Rightarrow> int" where
  "minor_units s = int_of_digits (before (CHR ''.'') s @ take 2 (after (CHR ''.'') s @ ''00''))"

definition money_value :: "rmatch \<Rightarrow> string" where
  "money_value m = dec_int (case rgroup ''d'' m of
      Some d \<Rightarrow> int_of_digits d * 100 + int_of_digits (the (rgroup ''c'' m))
    | None \<Rightarrow> minor_units (case rgroup ''a'' m of Some a \<Rightarrow> a | None \<Rightarrow>
        (case rgroup ''b'' m of Some b \<Rightarrow> b | None \<Rightarrow> the (rgroup ''e'' m))))"

(* guard/readback.py 212-225 _amounts *)
definition amounts_in :: "string \<Rightarrow> bool \<Rightarrow> string list" where
  "amounts_in clause months =
     fromkeys (map (\<lambda>m. if negated clause (rm_start m) (rm_end m) months then ''none''
                        else if months then the (rgroup ''1'' m) else money_value m)
       (finditer (if months then MONTHS_RX else MONEY_RX) clause))"

fun index_of :: "'a \<Rightarrow> 'a list \<Rightarrow> nat" where
  "index_of x [] = 0"
| "index_of x (y # ys) = (if x = y then 0 else Suc (index_of x ys))"

definition some_group :: "string \<Rightarrow> string \<Rightarrow> rmatch \<Rightarrow> string" where
  "some_group a b m = (case rgroup a m of Some x \<Rightarrow> x | None \<Rightarrow> the (rgroup b m))"

definition day_text :: "rmatch \<Rightarrow> string" where
  "day_text m = (case rgroup ''iso'' m of
      Some d \<Rightarrow> drop 5 d
    | None \<Rightarrow> pad2 (int (index_of (some_group ''m1'' ''m2'' m) MONTH_NAMES) + 1) @ ''-'' @
        pad2 (int_of_digits (some_group ''d1'' ''d2'' m)))"

(* guard/readback.py 228-237 _date *)
definition spoken_day :: "string \<Rightarrow> string" where
  "spoken_day clause = (case fromkeys (map day_text (finditer DATE_RX clause)) of [d] \<Rightarrow> d | _ \<Rightarrow> UNDATED)"

text \<open>\<open>str.split()\<close>.\<close>

definition white_split :: "string \<Rightarrow> string list" where
  "white_split s = filter (\<lambda>w. w \<noteq> []) (split_on (CHR '' '') (map (\<lambda>c. if is_space c then CHR '' '' else c) s))"

(* guard/readback.py 240-243 _qualifiers *)
definition qualifiers_in :: "string \<Rightarrow> string list" where
  "qualifiers_in clause =
     filter (\<lambda>w. w \<notin> set GENERIC_FEE)
       (concat (map (\<lambda>m. white_split (the (rgroup ''1'' m))) (finditer QUALIFIED_RX clause)))"

(* guard/readback.py 246-248 _words *)
definition field_words :: "string \<Rightarrow> string list" where
  "field_words f = filter (\<lambda>w. length w > 2) (split_on (CHR '':'')
     (map (\<lambda>c. if c \<in> set ''_.:-'' then CHR '':'' else c) (lower (after (CHR '':'') f))))"

(* guard/readback.py 251-252 _names *)
definition names_field :: "string \<Rightarrow> string \<Rightarrow> bool" where
  "names_field clause f \<longleftrightarrow> list_all (\<lambda>w. rsearch (RSeq REdge (rlit w)) clause) (field_words f)"

section \<open>What a clause states\<close>

(* guard/readback.py 255-256 _flags *)
definition flags :: "bool \<Rightarrow> bool \<Rightarrow> string list" where
  "flags none_said contradicted =
     (if none_said then [''true''] else []) @ (if contradicted then [''false''] else [])"

(* guard/readback.py 271-279 _expires *)
definition clause_expiry :: "string \<Rightarrow> hit list \<Rightarrow> bool \<Rightarrow> span \<Rightarrow> string list" where
  "clause_expiry sentence hits qualified c =
     (case c of (i, j, clause) \<Rightarrow>
        let own = map h_state (filter (\<lambda>h. i \<le> h_start h \<and> h_start h < j) hits);
            ends_later = Void \<in> set own \<and> (qualified \<or> words_in (drop j sentence) \<noteq> []);
            cue = says EXPIRY_CUES clause in
        if rsearch DATE_RX clause \<and> (own \<noteq> [] \<or> cue) then [spoken_day clause]
        else if Plain \<in> set own \<or> ends_later \<or> (cue \<and> own = []) then [UNDATED] else [])"

(* guard/readback.py 262-280 _expires *)
definition expiry_said :: "string \<Rightarrow> string list" where
  "expiry_said sentence =
     fromkeys ((if denies sentence NegExpires then [''none''] else []) @
       concat (map (clause_expiry sentence (scan sentence NegExpires)
           (list_ex (\<lambda>w. w \<in> set QUALIFIERS) (words_in (lower sentence)))) (clauses_of sentence)))"

text \<open>\<open>re.sub(r"(?<=\d),(?=\d{3}\b)", "", text)\<close>.\<close>

definition COMMA_RX :: rx where
  "COMMA_RX = rseq [RBehind is_digit, rlit '','', RAhead (RSeq (rtimes 3 rdigit) REdge)]"

definition plain_clause :: "string \<Rightarrow> string" where
  "plain_clause s = rsub COMMA_RX (\<lambda>m. []) (lower s)"

definition says_no :: "string \<Rightarrow> bool" where
  "says_no c \<longleftrightarrow> list_ex (\<lambda>w. w \<in> set NEGATION_WORDS) (words_in c)"

text \<open>A clause that prices a one-time fee, and one that announces a change.\<close>

(* guard/readback.py 298-301 said *)
definition prices_fee :: "string \<Rightarrow> bool" where
  "prices_fee c \<longleftrightarrow>
     list_ex (\<lambda>p. OneTime \<in> set (roles_in p) \<and> list_ex (\<lambda>v. v \<noteq> ''none'') (amounts_in p False)) (clause_texts c)"

(* guard/readback.py 303-307 said *)
definition changes_something :: "string \<Rightarrow> bool" where
  "changes_something c \<longleftrightarrow> list_ex (\<lambda>p. says CHANGE_CUES p \<and> \<not> says_no p) (clause_texts c)"

(* guard/readback.py 283-319 said *)
definition said_values :: "string \<Rightarrow> string \<Rightarrow> (string, string) dict \<Rightarrow> string list" where
  "said_values clause f others =
     (let c = plain_clause clause; kind = before (CHR '':'') f; code = after (CHR '':'') f;
          generic = (kind \<in> {''fee'', ''credit''} \<and> \<not> names_field c f \<and> qualifiers_in c = []) in
      if code \<noteq> [] \<and> \<not> generic \<and> \<not> names_field c f then []
      else if f = ''fees_none'' then flags (denies c NegFees) (prices_fee c)
      else if f = ''changes_none'' then flags (denies c NegChanges) (changes_something c)
      else if f = ''expires'' then expiry_said c
      else if kind \<in> {''applied_change'', ''feature''}
        then (if field_words f = [] then [] else if says_no c then [''false''] else [''true''])
      else if f = ''term_months'' then amounts_in c True
      else if (case dget ROLE_OF kind of None \<Rightarrow> True | Some r \<Rightarrow> r \<notin> set (roles_in c)) then []
      else
        let got = amounts_in c False; got' = (if got = [] \<and> says_no c then [''none''] else got) in
        if generic \<and> set got' \<subseteq> set (dvals others) then [] else got')"

section \<open>The statements of a transcript\<close>

(* guard/readback.py 330-330 NONE_FIELDS *)
definition NONE_FIELDS :: "string list" where
  "NONE_FIELDS = [''fees_none'', ''changes_none'', ''expires'']"

fun pairs_between :: "nat list \<Rightarrow> (nat \<times> nat) list" where
  "pairs_between (a # b # xs) = (if a < b then [(a, b)] else []) @ pairs_between (b # xs)"
| "pairs_between _ = []"

definition join_span :: "string \<Rightarrow> (nat \<times> nat) list \<Rightarrow> nat \<times> nat \<Rightarrow> (nat \<times> nat) list" where
  "join_span s out p =
     (if out \<noteq> [] \<and> continues (slice (fst p) (snd p) s) then butlast out @ [(fst (last out), snd p)] else out @ [p])"

(* guard/readback.py 333-342 _units *)
definition units_of :: "string \<Rightarrow> string \<Rightarrow> span list" where
  "units_of s f =
     (if f \<notin> set NONE_FIELDS then clauses_of s
      else
        let cuts = 0 # map rm_start (finditer SENTENCE_RX s) @ [length s] in
        map (\<lambda>(a, b). (a, b, slice a b s)) (foldl (join_span s) [] (pairs_between cuts)))"

definition line_states :: "string \<Rightarrow> (string, string) dict \<Rightarrow> nat \<times> line \<Rightarrow> statement list" where
  "line_states f others x = (case x of (i, l) \<Rightarrow>
     if l_speaker l \<noteq> Partner then []
     else concat (map (\<lambda>(a, b, clause).
         let vs = said_values clause f others in
         if vs = [] then [] else [\<lparr>st_line = i, st_utt = l_utt_id l, st_start = int a, st_end = int b, st_values = vs\<rparr>])
       (units_of (l_text l) f)))"

(* guard/readback.py 345-355 _stated *)
definition stated_in :: "string \<Rightarrow> line list \<Rightarrow> (string, string) dict \<Rightarrow> statement list" where
  "stated_in f ls others = concat (map (line_states f others) (zip [0..<length ls] ls))"

(* guard/readback.py 322-326 _key *)
definition iso_day :: "string \<Rightarrow> string option" where
  "iso_day s = (case finditer DATE_RX s of [] \<Rightarrow> None | m # _ \<Rightarrow> map_option (drop 5) (rgroup ''iso'' m))"

definition rep_lexical :: lexical where
  "rep_lexical = \<lparr>lx_states = stated_in, lx_day = iso_day\<rparr>"

definition with_cues :: "(string \<Rightarrow> decimal option) \<Rightarrow> rep_reader" where
  "with_cues d = \<lparr>rr_closing = closing_cue, rr_reopen = reopen_cue, rr_decimal = d\<rparr>"

end
