(* ===== verification/Negation_Facts.thy ===== *)
theory Negation_Facts
  imports Negation
begin

text \<open>
  A denial is unqualified: from the first statement on, a sentence that denies has no amount and no
  word of time, condition, restriction or bound.
\<close>

section \<open>Words that qualify nothing\<close>

definition unqualified :: "string \<Rightarrow> bool" where
  "unqualified w \<longleftrightarrow> w \<notin> set QUALIFIERS \<and> \<not> amount_word w"

definition clear :: "string list \<Rightarrow> nat \<Rightarrow> nat \<Rightarrow> bool" where
  "clear ws i j \<longleftrightarrow> (\<forall>k. i \<le> k \<longrightarrow> k < j \<longrightarrow> k < length ws \<longrightarrow> unqualified (ws ! k))"

lemma clear_trans: "clear ws i j \<Longrightarrow> clear ws j k \<Longrightarrow> clear ws i k"
  unfolding clear_def by (meson not_less)

lemma clear_Nil: "j \<le> i \<Longrightarrow> clear ws i j"
  by (simp add: clear_def)

lemma clear_single: "unqualified (ws ! i) \<Longrightarrow> clear ws i (Suc i)"
  unfolding clear_def by (metis less_Suc_eq_le le_antisym)

lemma clear_step: "unqualified (ws ! i) \<Longrightarrow> clear ws (Suc i) j \<Longrightarrow> clear ws i j"
  using clear_single clear_trans by blast

lemma clear_slice: "list_all unqualified (take n (drop i ws)) \<Longrightarrow> clear ws i (i + n)"
  unfolding clear_def list_all_length by (auto simp: nth_append) (metis add_diff_inverse_nat diff_less_mono less_diff_conv2 linorder_not_less nat_add_left_cancel_less)

lemma unqualified_modifier: "modifier w \<Longrightarrow> unqualified w"
  by (simp add: modifier_def plain_def unqualified_def)

lemma unqualified_plain: "plain w \<Longrightarrow> unqualified w"
  by (simp add: plain_def unqualified_def)

lemma unqualified_classes:
  "list_all unqualified (OPENERS @ EXIST_VERBS @ SELF_VERBS @ ARTICLES @ JOINERS @ SUBJECTS @ PREPOSITIONS @ TARGETS @ SAME)"
  "list_all unqualified [''not'', ''everything'', ''else'', ''the'', ''same'', ''at'', ''all'', ''!'']"
  by code_simp+

lemma clear_while: "(\<And>w. P w \<Longrightarrow> unqualified w) \<Longrightarrow> clear ws k (k + length (takeWhile P (take m (drop k ws))))"
proof -
  assume P: "\<And>w. P w \<Longrightarrow> unqualified w"
  let ?t = "takeWhile P (take m (drop k ws))"
  have "?t = take (length ?t) (take m (drop k ws))" by (rule takeWhile_eq_take)
  moreover have "length ?t \<le> m" using length_takeWhile_le [of P "take m (drop k ws)"] by simp
  ultimately have "take (length ?t) (drop k ws) = ?t" by (simp add: min_absorb1)
  moreover have "list_all unqualified ?t" using P by (auto simp: list_all_iff dest: set_takeWhileD)
  ultimately show ?thesis using clear_slice by metis
qed

lemma item_clear: "clear ws k (k + item_length ws k)"
  unfolding item_length_def by (rule clear_while) (rule unqualified_modifier)

lemma skip_words_while: "skip_words J xs = length (takeWhile (\<lambda>w. w \<in> set J) xs)"
  by (induction xs) auto

lemma joiners_clear: "set J \<subseteq> set JOINERS \<Longrightarrow> clear ws k (k + skip_words J (drop k ws))"
proof -
  assume "set J \<subseteq> set JOINERS"
  then have "w \<in> set J \<Longrightarrow> unqualified w" for w using unqualified_classes(1) by (auto simp: list_all_iff)
  from clear_while [of "\<lambda>w. w \<in> set J" ws k "length (drop k ws)", OF this] show ?thesis
    by (simp add: skip_words_while)
qed

lemma find_index_Some: "find_index P xs = Some n \<Longrightarrow> n < length xs \<and> P (xs ! n)"
  using nth_length_takeWhile [of "\<lambda>x. \<not> P x" xs] by (auto simp: find_index_def Let_def split: if_splits)

section \<open>Statements and tails\<close>

lemma same_clear: "same_end ws i = Some e \<Longrightarrow> clear ws i (e + 1)"
proof -
  assume s: "same_end ws i = Some e"
  let ?w = "drop i ws"
  obtain j where j: "j \<in> {1, 2}" "e = i + j + 2" "j = 2 \<Longrightarrow> take 1 (drop 1 ?w) = [''else'']"
    "take 1 ?w = [''everything'']" "take 2 (drop (j + 1) (take 5 ?w)) = [''the'', ''same'']" "take 5 ?w ! j \<in> set SAME"
    using s by (auto simp: same_end_def Let_def drop_take split: if_splits)
  then have l: "j + 2 < length ?w" by (auto simp: drop_take dest: arg_cong [where f = length])
  have "list_all unqualified (take (j + 3) ?w)"
  proof -
    have "?w ! 0 = ''everything''" using j(4) by (cases ?w) auto
    moreover have "j = 2 \<Longrightarrow> ?w ! 1 = ''else''" using j(3) by (cases ?w; cases "tl ?w") auto
    moreover have "?w ! j \<in> set SAME" using j(1,6) by auto
    moreover have "?w ! (j + 1) = ''the''" "?w ! (j + 2) = ''same''"
      using j(1,5) l by (auto simp: take_Suc_conv_app_nth drop_take numeral_2_eq_2 Cons_nth_drop_Suc [symmetric])
    ultimately have "unqualified (?w ! n)" if "n < j + 3" for n
      using that j(1) unqualified_classes by (auto simp: list_all_iff less_Suc_eq numeral_3_eq_3 numeral_2_eq_2)
    then show ?thesis by (auto simp: list_all_length)
  qed
  from clear_slice [OF this] have "clear ws i (i + (j + 3))" .
  moreover have "i + (j + 3) = e + 1" using j(2) by simp
  ultimately show ?thesis by simp
qed

lemma list_items_clear: "list_items ws role k first = (hs, Some e) \<Longrightarrow> clear ws k e"
proof (induction ws role k first arbitrary: hs e rule: list_items.induct)
  case (1 ws role k first)
  show ?case
  proof (cases "list_item ws role k first")
    case None
    with "1.prems" show ?thesis by (simp add: list_items.simps [of ws role k first])
  next
    case (Some p)
    obtain n h where p: "p = (n, h)" by (cases p)
    let ?heads = "case h of None \<Rightarrow> [] | Some x \<Rightarrow> [(x, x)]"
    let ?e = "k + n + (if take 2 (drop (k + n) ws) = [''at'', ''all''] then 2 else 0)"
    let ?j = "?e + skip_words list_joiners (drop ?e ws)"
    from Some p have n: "n = item_length ws k" using list_item_pos by blast
    have "clear ws (k + n) ?e"
      using clear_slice [of 2 "k + n" ws] unqualified_classes(2) by (auto simp: clear_Nil)
    with n have e: "clear ws k ?e" using item_clear clear_trans by metis
    show ?thesis
    proof (cases "?j = ?e \<or> ?j \<ge> length ws \<or> \<not> modifier (ws ! ?j)")
      case True
      with "1.prems" Some p have "e = ?e" by (auto simp: list_items.simps [of ws role k first] Let_def)
      with e show ?thesis by simp
    next
      case False
      with "1.prems" Some p obtain more where "list_items ws role ?j False = (more, Some e)"
        by (auto simp: list_items.simps [of ws role k first] Let_def split: prod.splits)
      then have "clear ws ?j e" by (rule "1.IH" [OF Some p [symmetric] refl refl refl False])
      moreover have "clear ws ?e ?j" by (rule joiners_clear) (auto simp: list_joiners_def)
      ultimately show ?thesis using e clear_trans by blast
    qed
  qed
qed

lemma word_clear: "unqualified (word_at ws k) \<Longrightarrow> clear ws k (Suc k)"
  by (cases "k < length ws") (auto simp: word_at_def clear_single, auto simp: clear_def)

lemma statement_clear:
  assumes "neg_statement ws i role = (hs, Some e)" "opens ws i"
  shows "clear ws i e"
proof (cases "same_end ws i")
  case (Some l)
  with assms(1) have "e = l + 1" by (simp add: neg_statement_def)
  then show ?thesis using same_clear [OF Some] by simp
next
  case None
  have verb: "clear ws (Suc i) (Suc (Suc i))" if "word_at ws (i + 1) \<in> set (EXIST_VERBS @ SELF_VERBS)"
    by (rule word_clear) (use that unqualified_classes(1) in \<open>auto simp: list_all_iff\<close>)
  have i: "unqualified (ws ! i)" using assms(2) None unqualified_classes by (auto simp: opens_def list_all_iff)
  show ?thesis
  proof (cases "ws ! i = ''not'' \<and> word_at ws (i + 1) \<in> set SELF_VERBS")
    case True
    with None assms(1) have "e = i + 2" by (auto simp: neg_statement_def)
    with True verb clear_step [OF i] show ?thesis by simp
  next
    case False
    with None assms(1) have e: "list_items ws role (list_start ws i) True = (hs, Some e)"
      by (simp only: neg_statement_def option.case if_False)
    have "clear ws i (list_start ws i)"
    proof (cases "ws ! i \<in> set OPENERS")
      case True
      moreover have "''not'' \<notin> set OPENERS" by code_simp
      ultimately have "list_start ws i = Suc i" by (auto simp: list_start_def Let_def)
      with clear_single [OF i] show ?thesis by simp
    next
      case nop: False
      with assms(2) None have not: "ws ! i = ''not''" "word_at ws (i + 1) \<in> set (EXIST_VERBS @ SELF_VERBS)" by (auto simp: opens_def)
      have two: "clear ws i (Suc (Suc i))" using clear_step [OF i] verb [OF not(2)] by blast
      show ?thesis
      proof (cases "word_at ws (i + 2) \<in> set ARTICLES")
        case True
        then have "clear ws (i + 2) (Suc (i + 2))"
          using word_clear unqualified_classes(1) by (auto simp: list_all_iff)
        with two have "clear ws i (Suc (i + 2))" using clear_trans by simp
        with True not nop show ?thesis by (simp add: list_start_def)
      next
        case False
        with two nop show ?thesis by (simp add: list_start_def Let_def)
      qed
    qed
    with list_items_clear [OF e] show ?thesis using clear_trans by blast
  qed
qed

lemma phrases_clear: "phrases ws k = Some k' \<Longrightarrow> clear ws k k'"
proof (induction ws k rule: phrases.induct)
  case (1 ws k)
  show ?case
  proof (cases "k < length ws \<and> ws ! k \<in> set PREPOSITIONS")
    case False
    with "1.prems" show ?thesis by (simp add: phrases.simps [of ws k] clear_Nil)
  next
    case True
    let ?rest = "take (1 + MAX_MODIFIERS) (drop (k + 1) ws)"
    from True "1.prems" obtain e where e: "find_index (\<lambda>w. w \<in> set TARGETS) ?rest = Some e"
      "list_all (\<lambda>w. modifier w \<or> w \<in> set SUBJECTS) (take e ?rest)" "phrases ws (k + e + 2) = Some k'"
      by (auto simp: phrases.simps [of ws k] Let_def simp del: take_take split: if_splits option.splits)
    have i: "clear ws (k + e + 2) k'" by (rule "1.IH" [OF True refl e])
    from e(1) have t: "e < length ?rest" "?rest ! e \<in> set TARGETS" by (auto dest: find_index_Some)
    have "list_all unqualified (take e (drop (k + 1) ws))"
      using e(2) t(1) unqualified_classes(1) unqualified_modifier by (auto simp: list_all_iff min_absorb1)
    then have "clear ws (k + 1) (k + 1 + e)" by (rule clear_slice)
    moreover have "unqualified (ws ! k)" using True unqualified_classes(1) by (auto simp: list_all_iff)
    moreover have "unqualified (ws ! (k + 1 + e))" using t unqualified_classes(1) by (auto simp: list_all_iff)
    ultimately have "clear ws k (Suc (k + 1 + e))" using clear_step clear_single clear_trans by (metis Suc_eq_plus1)
    with i show ?thesis using clear_trans by (metis add.commute add_2_eq_Suc add_Suc_right plus_1_eq_Suc)
  qed
qed

lemma bridge_clear: "bridge ws n m = Some i \<Longrightarrow> clear ws n i"
proof (induction ws n m rule: bridge.induct)
  case (2 ws n m)
  then show ?case by (auto simp: clear_Nil unqualified_plain intro: clear_step split: if_splits)
qed simp

lemma next_clear: "next_statement ws (Some k) role = Some i \<Longrightarrow> clear ws k i"
proof -
  assume n: "next_statement ws (Some k) role = Some i"
  let ?j = "k + skip_words JOINERS (drop k ws)"
  have j: "clear ws k ?j" by (rule joiners_clear) simp
  have rest: "clear ws k' (length ws)" if "list_all unqualified (drop k' ws)" for k'
    using that clear_slice [of "length ws - k'" k' ws] by (cases "k' \<le> length ws") (auto simp: clear_Nil)
  show ?thesis
  proof (cases "list_all (\<lambda>w. w = ''!'') (drop k ws)")
    case True
    then have "list_all unqualified (drop k ws)" using unqualified_classes(2) by (auto simp: list_all_iff)
    with True n rest show ?thesis by (simp add: next_statement_def)
  next
    case False
    show ?thesis
    proof (cases "bridge ws ?j (BRIDGE_MAX + 1)")
      case (Some m)
      with False n have "m = i" by (auto simp: next_statement_def Let_def split: if_splits)
      with bridge_clear [OF Some] j show ?thesis using clear_trans by blast
    next
      case None
      with False n have "i = length ws" "other_term (drop ?j ws) role"
        by (auto simp: next_statement_def Let_def split: if_splits)
      then have "list_all unqualified (drop ?j ws)" "i = length ws"
        by (auto simp: other_term_def unqualified_def list_all_iff list_ex_iff)
      with rest [of ?j] j show ?thesis using clear_trans by blast
    qed
  qed
qed

lemma scan_onward:
  assumes "i < length ws" "next_statement ws (statement_tail ws (snd (neg_statement ws i role))) role = Some i'"
  shows "i \<le> i'"
proof -
  from assms(2) obtain hs e k where "neg_statement ws i role = (hs, Some e)" "phrases ws e = Some k"
    "next_statement ws (Some k) role = Some i'"
    by (cases "neg_statement ws i role") (auto simp: statement_tail_def next_statement_def split: option.splits)
  then show ?thesis using statement_end phrases_end next_end assms(1) by fastforce
qed

lemma scan_clear:
  "scan_from ws role i good = (g, bad) \<Longrightarrow> g \<noteq> [] \<Longrightarrow> (i < length ws \<Longrightarrow> opens ws i) \<Longrightarrow>
     clear ws i (length ws) \<and> bad = []"
proof (induction ws role i good rule: scan_from.induct)
  case (1 ws role i good)
  show ?case
  proof (cases "i < length ws")
    case False
    with "1.prems" show ?thesis by (simp add: scan_from.simps [of ws role i good] clear_Nil)
  next
    case True
    let ?st = "neg_statement ws i role"
    from True "1.prems" obtain i' where i': "next_statement ws (statement_tail ws (snd ?st)) role = Some i'"
      "scan_from ws role i' (add_all good (fst ?st)) = (g, bad)"
      by (auto simp: scan_from.simps [of ws role i good] Let_def split: option.splits)
    then obtain hs e k where k: "?st = (hs, Some e)" "phrases ws e = Some k"
      by (cases ?st) (auto simp: statement_tail_def next_statement_def split: option.splits)
    with i' have n: "next_statement ws (Some k) role = Some i'" by (simp add: statement_tail_def)
    have "clear ws i e" by (rule statement_clear [OF k(1) "1.prems"(3) [OF True]])
    with phrases_clear [OF k(2)] next_clear [OF n] have "clear ws i i'" using clear_trans by blast
    moreover have "clear ws i' (length ws) \<and> bad = []"
      using "1.IH" [OF True refl refl i'(1) i'(2) "1.prems"(2)] next_end [OF n] by blast
    ultimately show ?thesis using clear_trans by blast
  qed
qed

section \<open>Where the negated words are\<close>

lemma first_opening_opens: "first_opening ws < length ws \<Longrightarrow> opens ws (first_opening ws)"
  using nth_length_takeWhile [of "\<lambda>k. \<not> opens ws k" "[0..<length ws]"] by (simp add: first_opening_def)

lemma list_items_keys: "list_items ws role k first = (hs, e) \<Longrightarrow> x \<in> set (dkeys hs) \<Longrightarrow> k \<le> x"
proof (induction ws role k first arbitrary: hs e rule: list_items.induct)
  case (1 ws role k first)
  show ?case
  proof (cases "list_item ws role k first")
    case None
    with "1.prems" show ?thesis by (simp add: list_items.simps [of ws role k first])
  next
    case (Some p)
    obtain n h where p: "p = (n, h)" by (cases p)
    let ?e = "k + n + (if take 2 (drop (k + n) ws) = [''at'', ''all''] then 2 else 0)"
    let ?j = "?e + skip_words list_joiners (drop ?e ws)"
    from Some p have "0 < n" "list_item ws role k first = Some (n, h)" using list_item_pos by blast+
    then have h: "h = Some y \<Longrightarrow> k \<le> y" for y
      by (auto simp: list_item_def item_head_def Let_def split: if_splits)
    show ?thesis
    proof (cases "?j = ?e \<or> ?j \<ge> length ws \<or> \<not> modifier (ws ! ?j)")
      case True
      with "1.prems" Some p h show ?thesis by (auto simp: list_items.simps [of ws role k first] Let_def split: option.splits)
    next
      case False
      obtain more e' where m: "list_items ws role ?j False = (more, e')" by (cases "list_items ws role ?j False")
      with "1.prems"(1) False Some p have hs: "hs = (case h of None \<Rightarrow> [] | Some x \<Rightarrow> [(x, x)]) @ more"
        by (simp add: list_items.simps [of ws role k first] Let_def)
      show ?thesis
      proof (cases "x \<in> set (dkeys more)")
        case True
        then have "?j \<le> x" using m "1.IH" [OF Some p [symmetric] refl refl refl False] by blast
        then show ?thesis by linarith
      next
        case False
        with "1.prems"(2) hs h show ?thesis by (auto split: option.splits)
      qed
    qed
  qed
qed

lemma statement_keys: "x \<in> set (dkeys (fst (neg_statement ws i role))) \<Longrightarrow> i \<le> x"
proof -
  assume x: "x \<in> set (dkeys (fst (neg_statement ws i role)))"
  obtain hs e where "list_items ws role (list_start ws i) True = (hs, e)" by (cases "list_items ws role (list_start ws i) True")
  with x list_items_keys [OF this, of x] list_start_after [of i ws] show ?thesis
    by (auto simp: neg_statement_def split: option.splits if_splits)
qed

lemma add_all_keys: "set (dkeys (add_all d hs)) = set (dkeys d) \<union> set (dkeys hs)"
proof (induction hs arbitrary: d)
  case Nil
  then show ?case by (simp add: add_all_def)
next
  case (Cons p hs)
  have "add_all d (p # hs) = add_all (dput (fst p) (snd p) d) hs" by (cases p) (simp add: add_all_def)
  then show ?case by (simp only: Cons.IH dkeys_dput list.map list.set) blast
qed

lemma nonempty_image: "f ` A = {x} \<Longrightarrow> \<exists>h. h \<in> A"
  by blast

lemma keys_chain: "A \<subseteq> G \<union> F \<union> T' \<Longrightarrow> F \<subseteq> T \<Longrightarrow> T' \<subseteq> T \<Longrightarrow> A \<subseteq> G \<union> T"
  by blast

lemma scan_from_keys:
  "scan_from ws role i good = (g, bad) \<Longrightarrow> set (dkeys g) \<subseteq> set (dkeys good) \<union> {i..}"
proof (induction ws role i good rule: scan_from.induct)
  case (1 ws role i good)
  show ?case
  proof (cases "i < length ws")
    case False
    with "1.prems" show ?thesis by (simp add: scan_from.simps [of ws role i good])
  next
    case True
    let ?st = "neg_statement ws i role"
    show ?thesis
    proof (cases "next_statement ws (statement_tail ws (snd ?st)) role")
      case None
      with True "1.prems" show ?thesis by (simp add: scan_from.simps [of ws role i good] Let_def)
    next
      case (Some i')
      with True "1.prems" have "scan_from ws role i' (add_all good (fst ?st)) = (g, bad)"
        by (simp add: scan_from.simps [of ws role i good] Let_def)
      from "1.IH" [OF True refl refl Some this]
      have "set (dkeys g) \<subseteq> set (dkeys good) \<union> set (dkeys (fst ?st)) \<union> {i'..}" unfolding add_all_keys .
      moreover have "set (dkeys (fst ?st)) \<subseteq> {i..}" using statement_keys by fastforce
      moreover have "{i'..} \<subseteq> {i..}" using scan_onward [OF True Some] by simp
      ultimately show ?thesis by (rule keys_chain)
    qed
  qed
qed

section \<open>What a denial says\<close>

lemma scan_states:
  assumes "ws = map tk_text (tokens s)" "scan_from ws role (first_opening ws) [] = (g, bad)"
  shows "map h_state (scan s role) =
    map (\<lambda>k. if dget g k = None \<and> dget bad k = None then Plain
              else if voided s ws role \<or> dget bad k \<noteq> None then Void else Negated)
      (filter (\<lambda>k. ws ! k \<in> set (role_words role) \<or> dget g k \<noteq> None \<or> dget bad k \<noteq> None) [0..<length ws])"
  unfolding scan_def Let_def assms(1) [symmetric] assms(2)
  by (simp only: prod.case map_map comp_def hit.select_convs)

lemma cut_at:
  assumes "i < length ws" "opens ws i"
  shows "ws = take i ws @ drop i ws \<and> drop i ws \<noteq> [] \<and> opens (take i ws @ drop i ws) (length (take i ws))"
  using assms by simp

text \<open>C27. A denial is unqualified. If a sentence is taken to deny fees, changes or an expiry, it is no question and
  splits at its first statement: before it there is no hedge, condition, restriction or time bound
  (but \<open>just\<close> before an amount) and no time phrase opens the sentence; from it on there is no amount and no
  word of time, condition, restriction or bound; and every word that names the denied term comes after it.\<close>

theorem denial_is_unqualified:
  assumes "denies s role"
  shows "\<exists>a b. map tk_text (tokens s) = a @ b \<and> b \<noteq> [] \<and> opens (a @ b) (length a) \<and> \<not> question s \<and> \<not> timed a \<and>
    set (lead_words a) \<inter> (set HEDGES \<union> set CONDITIONS \<union> set RESTRICTIONS \<union> set TIME_BOUNDS) = {} \<and>
    list_all unqualified b \<and> set a \<inter> set (role_words role) = {}"
proof -
  let ?ws = "map tk_text (tokens s)"
  let ?i = "first_opening ?ws"
  obtain g bad where sc: "scan_from ?ws role ?i [] = (g, bad)" by (cases "scan_from ?ws role ?i []")
  let ?hits = "filter (\<lambda>k. ?ws ! k \<in> set (role_words role) \<or> dget g k \<noteq> None \<or> dget bad k \<noteq> None) [0..<length ?ws]"
  let ?state = "\<lambda>k. if dget g k = None \<and> dget bad k = None then Plain
      else if voided s ?ws role \<or> dget bad k \<noteq> None then Void else Negated"
  have "map h_state (scan s role) = map ?state ?hits" by (rule scan_states [OF refl sc])
  then have "set (map h_state (scan s role)) = ?state ` set ?hits" by (simp only: set_map)
  from this assms have st: "?state ` set ?hits = {Negated}" unfolding denies_def by (rule trans [OF sym])
  have neg: "dget g k \<noteq> None" "\<not> voided s ?ws role" if "k \<in> set ?hits" for k
  proof -
    have "?state k = Negated" using imageI [OF that, of ?state] unfolding st by (rule singletonD)
    then show "dget g k \<noteq> None" "\<not> voided s ?ws role" by (auto split: if_splits)
  qed
  from nonempty_image [OF st] obtain h where h: "h \<in> set ?hits" by (rule exE)
  then have g: "g \<noteq> []" using neg(1) [OF h] by auto
  have i: "?i < length ?ws \<Longrightarrow> opens ?ws ?i" by (rule first_opening_opens)
  have c: "clear ?ws ?i (length ?ws)" using scan_clear [OF sc g i] by blast
  have l: "?i < length ?ws" using sc g by (auto simp: scan_from.simps [of _ _ ?i] split: if_splits)
  have b: "list_all unqualified (drop ?i ?ws)"
    using c by (auto simp: list_all_length clear_def)
  have away: "w \<notin> set (role_words role)" if w: "w \<in> set (take ?i ?ws)" for w
  proof
    assume r: "w \<in> set (role_words role)"
    from w obtain k where k: "k < ?i" "k < length ?ws" "w = ?ws ! k" by (auto simp: in_set_conv_nth)
    have "k \<in> set ?hits" using r k(2,3) by simp
    then have "dget g k \<noteq> None" by (rule neg)
    then have "k \<in> set (dkeys g)" by (metis dget_None_keys)
    with scan_from_keys [OF sc] k(1) show False by fastforce
  qed
  have q: "\<not> question s" "\<not> timed (take ?i ?ws)"
    "set (lead_words (take ?i ?ws)) \<inter> (set HEDGES \<union> set CONDITIONS \<union> set RESTRICTIONS \<union> set TIME_BOUNDS) = {}"
    using neg(2) [OF h] unfolding voided_def Let_def list_ex_iff by blast+
  have "set (take ?i ?ws) \<inter> set (role_words role) = {}" using away by blast
  note parts = cut_at [OF l i [OF l]] q b this
  show ?thesis
    by (rule exI [of _ "take ?i ?ws"], rule exI [of _ "drop ?i ?ws"],
      intro conjI parts parts(1) [THEN conjunct1] parts(1) [THEN conjunct2, THEN conjunct1]
        parts(1) [THEN conjunct2, THEN conjunct2])
qed

theorem denial_is_unqualified_witness:
  "\<exists>a b. map tk_text (tokens ''No fees'') = a @ b \<and> b \<noteq> [] \<and> list_all unqualified b"
proof -
  have "denies ''No fees'' NegFees" by code_simp
  from denial_is_unqualified [OF this] show ?thesis by blast
qed

end
