(* ===== verification/Reader_Facts.thy ===== *)
theory Reader_Facts
  imports Reader Negation_Facts Readback_Facts
begin

text \<open>
  The rules of \<open>Readback\<close> on the code's own reading of a line: what it takes to confirm that an offer has
  no fees or changes nothing.
\<close>

section \<open>The statements of a transcript\<close>

lemma said_nil: "l_speaker l \<noteq> Partner \<Longrightarrow> line_states f others (i, l) = []"
  by (simp add: line_states_def)

lemma line_states_iff:
  "y \<in> set (line_states f others (i, l)) \<longleftrightarrow> l_speaker l = Partner \<and>
     (\<exists>a b u. (a, b, u) \<in> set (units_of (l_text l) f) \<and> said_values u f others \<noteq> [] \<and>
        y = \<lparr>st_line = i, st_utt = l_utt_id l, st_start = int a, st_end = int b, st_values = said_values u f others\<rparr>)"
  by (auto simp: line_states_def Let_def split: if_splits)

lemma states_line: "y \<in> set (line_states f others (i, l)) \<Longrightarrow> st_line y = i"
  by (auto simp: line_states_iff)

lemma stated_in_iff:
  "y \<in> set (stated_in f ls others) \<longleftrightarrow> st_line y < length ls \<and>
     y \<in> set (line_states f others (st_line y, ls ! st_line y))"
proof
  assume "y \<in> set (stated_in f ls others)"
  then obtain i where i: "i < length ls" "y \<in> set (line_states f others (i, ls ! i))"
    by (auto simp: stated_in_def set_zip)
  then have "st_line y = i" by (intro states_line)
  with i show "st_line y < length ls \<and> y \<in> set (line_states f others (st_line y, ls ! st_line y))" by simp
next
  assume y: "st_line y < length ls \<and> y \<in> set (line_states f others (st_line y, ls ! st_line y))"
  then have "(st_line y, ls ! st_line y) \<in> set (zip [0..<length ls] ls)"
    unfolding set_zip by (intro CollectI exI [of _ "st_line y"]) simp
  with y show "y \<in> set (stated_in f ls others)" by (auto simp: stated_in_def)
qed

lemma stated_in_sorted: "sorted (map st_line (stated_in f ls others))"
proof -
  have line: "map st_line (line_states f others (i, l)) = replicate (length (line_states f others (i, l))) i" for i l
    by (metis (no_types, lifting) map_eq_conv map_replicate_const states_line)
  have "sorted (map st_line (concat (map (line_states f others) (zip [k..<k + length ls] ls))))
      \<and> (\<forall>y \<in> set (concat (map (line_states f others) (zip [k..<k + length ls] ls))). k \<le> st_line y)" for k
  proof (induction ls arbitrary: k)
    case Nil
    then show ?case by simp
  next
    case (Cons l ls)
    have z: "zip [k..<k + length (l # ls)] (l # ls) = (k, l) # zip [Suc k..<Suc k + length ls] ls"
      by (simp add: upt_conv_Cons del: upt_Suc)
    let ?rest = "concat (map (line_states f others) (zip [Suc k..<Suc k + length ls] ls))"
    have "sorted (replicate n k)" for n by simp
    moreover have "\<forall>y \<in> set (line_states f others (k, l)). st_line y = k" using states_line by blast
    moreover from Cons.IH [of "Suc k"] have r: "sorted (map st_line ?rest)" "\<forall>y \<in> set ?rest. Suc k \<le> st_line y"
      by blast+
    moreover from r(2) have "\<forall>y \<in> set ?rest. k \<le> st_line y" by (meson Suc_leD)
    ultimately show ?case unfolding z list.map concat.simps map_append line [of k l] sorted_append set_append set_map
      by auto
  qed
  from this [of 0] show ?thesis by (simp add: stated_in_def)
qed

section \<open>Confirming that there is none\<close>

text \<open>The two completeness slots: what their sentence must deny, and what speaks against them.\<close>

definition none_rule :: "string \<Rightarrow> (neg_role \<times> (string \<Rightarrow> bool)) option" where
  "none_rule f =
     (if f = ''fees_none'' then Some (NegFees, prices_fee)
      else if f = ''changes_none'' then Some (NegChanges, changes_something) else None)"

lemma none_rule_said:
  assumes "none_rule f = Some (role, against)"
  shows "said_values u f others = flags (denies (plain_clause u) role) (against (plain_clause u))"
    and "f \<noteq> ''expires''"
proof -
  have c: "after (CHR '':'') ''fees_none'' = []" "after (CHR '':'') ''changes_none'' = []" by code_simp+
  from assms consider "f = ''fees_none''" "role = NegFees" "against = prices_fee"
    | "f = ''changes_none''" "role = NegChanges" "against = changes_something"
    by (auto simp: none_rule_def split: if_splits)
  then show "said_values u f others = flags (denies (plain_clause u) role) (against (plain_clause u))"
    by cases (simp_all add: said_values_def c Let_def)
  show "f \<noteq> ''expires''" using assms by (auto simp: none_rule_def split: if_splits)
qed

lemma flags_facts:
  "set (flags a b) = {''true''} \<longleftrightarrow> a \<and> \<not> b" "''false'' \<in> set (flags a b) \<longleftrightarrow> b"
  by (cases a; cases b; simp add: flags_def)+

text \<open>The sentences of the rep a field is read from, in the order said, each with its line.\<close>

definition line_sentences :: "string \<Rightarrow> nat \<times> line \<Rightarrow> (nat \<times> string) list" where
  "line_sentences f x = (case x of (i, l) \<Rightarrow>
     if l_speaker l = Partner then map (\<lambda>(a, b, u). (i, u)) (units_of (l_text l) f) else [])"

definition rep_sentences :: "string \<Rightarrow> line list \<Rightarrow> (nat \<times> string) list" where
  "rep_sentences f ls = concat (map (line_sentences f) (zip [0..<length ls] ls))"

definition says_of :: "string \<Rightarrow> (string, string) dict \<Rightarrow> nat \<times> string \<Rightarrow> nat \<times> string list" where
  "says_of f others x = (fst x, said_values (snd x) f others)"

lemma filter_concat: "filter P (concat xss) = concat (map (filter P) xss)"
  by (induction xss) simp_all

lemma line_states_sentences:
  "map (\<lambda>y. (st_line y, st_values y)) (line_states f others x) =
   filter (\<lambda>y. snd y \<noteq> []) (map (says_of f others) (line_sentences f x))"
proof (cases x)
  case (Pair i l)
  have "map (\<lambda>y. (st_line y, st_values y)) (concat (map (\<lambda>(a, b, clause).
         let vs = said_values clause f others in
         if vs = [] then [] else [\<lparr>st_line = i, st_utt = l_utt_id l, st_start = int a, st_end = int b, st_values = vs\<rparr>]) us)) =
      filter (\<lambda>y. snd y \<noteq> []) (map (says_of f others) (map (\<lambda>(a, b, u). (i, u)) us))" for us :: "span list"
    by (induction us) (auto simp: Let_def says_of_def)
  then show ?thesis by (simp add: Pair line_states_def line_sentences_def)
qed

lemma stated_in_sentences:
  "map (\<lambda>y. (st_line y, st_values y)) (stated_in f ls others) =
   filter (\<lambda>y. snd y \<noteq> []) (map (says_of f others) (rep_sentences f ls))"
  by (simp add: stated_in_def rep_sentences_def map_concat filter_concat comp_def line_states_sentences)

lemma filter_split: "filter P xs = as @ b # bs \<Longrightarrow> \<exists>us vs. xs = us @ b # vs \<and> filter P vs = bs"
proof (induction xs arbitrary: as)
  case (Cons x xs)
  show ?case
  proof (cases "P x \<and> as = []")
    case True
    with Cons.prems show ?thesis by (intro exI [of _ "[]"] exI [of _ xs]) simp
  next
    case False
    with Cons.prems have "filter P xs = (if P x then tl as else as) @ b # bs"
      by (cases as) (auto split: if_splits)
    from Cons.IH [OF this] obtain us vs where "xs = us @ b # vs" "filter P vs = bs" by blast
    then show ?thesis by (intro exI [of _ "x # us"] exI [of _ vs]) simp
  qed
qed simp

text \<open>Where the statements of a field end with exact ones, so do the sentences, but for those that say nothing of it.\<close>

lemma last_statements:
  assumes "stated_in f ls others = pre @ x # rest" "list_all (\<lambda>y. states_exactly want (st_values y)) (x # rest)"
  shows "\<exists>xs u ys. rep_sentences f ls = xs @ (st_line x, u) # ys \<and> states_exactly want (said_values u f others) \<and>
    (\<forall>(j, v) \<in> set ys. said_values v f others = [] \<or> states_exactly want (said_values v f others))"
proof -
  let ?g = "\<lambda>y. (st_line y, st_values y)" and ?S = "map (says_of f others) (rep_sentences f ls)"
  have "filter (\<lambda>y. snd y \<noteq> []) ?S = map ?g pre @ ?g x # map ?g rest"
    using stated_in_sentences [of f ls others] unfolding assms(1) by simp
  from filter_split [OF this] obtain us zs where S: "?S = us @ ?g x # zs" and v: "filter (\<lambda>y. snd y \<noteq> []) zs = map ?g rest"
    by blast
  from S obtain xs t ys where r: "rep_sentences f ls = xs @ t # ys" "says_of f others t = ?g x" "map (says_of f others) ys = zs"
    by (auto simp: map_eq_append_conv map_eq_Cons_conv)
  obtain i u where t: "t = (i, u)" by (cases t)
  have "said_values w f others = [] \<or> states_exactly want (said_values w f others)" if "(j, w) \<in> set ys" for j w
  proof (cases "said_values w f others = []")
    case False
    have "says_of f others (j, w) \<in> set zs" using that r(3) by force
    with False have "says_of f others (j, w) \<in> set (map ?g rest)"
      unfolding v [symmetric] by (simp add: says_of_def)
    with assms(2) show ?thesis by (auto simp: says_of_def list_all_iff)
  qed simp
  moreover have "i = st_line x" "said_values u f others = st_values x" using r(2) by (simp_all add: t says_of_def)
  ultimately show ?thesis using r(1) assms(2) t by (intro exI [of _ xs] exI [of _ u] exI [of _ ys]) auto
qed

lemma sorted_since:
  assumes "sorted (map st_line sts)" "filter (\<lambda>x. n \<le> st_line x) sts = p @ x # q"
  shows "n \<le> st_line x \<and> (\<exists>r. sts = r @ x # q)"
proof -
  have "x \<in> set (filter (\<lambda>x. n \<le> st_line x) sts)" unfolding assms(2) by simp
  moreover have "sts = filter (\<lambda>x. \<not> n \<le> st_line x) sts @ filter (\<lambda>x. n \<le> st_line x) sts"
    using assms(1)
  proof (induction sts)
    case (Cons a sts)
    show ?case
    proof (cases "n \<le> st_line a")
      case True
      with Cons.prems have "\<forall>y \<in> set sts. n \<le> st_line y" by force
      then have "filter (\<lambda>x. \<not> n \<le> st_line x) sts = []" "filter (\<lambda>x. n \<le> st_line x) sts = sts"
        by (simp_all add: filter_empty_conv filter_id_conv)
      with True show ?thesis by simp
    qed (use Cons in simp)
  qed simp
  ultimately show ?thesis by (metis append.assoc assms(2) mem_Collect_eq set_filter)
qed

lemma confirmed_statements:
  assumes "sorted (map st_line sts)" "confirmed_from want sts n"
  shows "\<exists>r x q. sts = r @ x # q \<and> n \<le> st_line x \<and> list_all (\<lambda>y. states_exactly want (st_values y)) (x # q)"
proof -
  let ?exact = "\<lambda>x. states_exactly want (st_values x)"
  let ?later = "filter (\<lambda>x. n \<le> st_line x) sts"
  from assms(2) obtain x q where d: "dropWhile (\<lambda>x. \<not> ?exact x) ?later = x # q" "list_all ?exact (x # q)"
    by (auto simp: confirmed_from_def Let_def neq_Nil_conv)
  have "?later = takeWhile (\<lambda>x. \<not> ?exact x) ?later @ x # q"
    unfolding d(1) [symmetric] by (rule takeWhile_dropWhile_id [symmetric])
  from sorted_since [OF assms(1) this] d(2) show ?thesis by blast
qed

lemma anchored_statements:
  assumes "sorted (map st_line sts)" "anchors n slots fs" "(want, sts, m) \<in> set slots"
  shows "\<exists>r x q. sts = r @ x # q \<and> n \<le> st_line x \<and> list_all (\<lambda>y. states_exactly want (st_values y)) (x # q)"
proof -
  from assms(2,3) have ne: "since n sts \<noteq> []"
    by (force simp: anchors_def Let_def list_ex_iff split: if_splits)
  from assms(2,3) have ex: "list_all (\<lambda>x. states_exactly want (st_values x)) (since n sts)"
    by (force simp: anchors_def Let_def list_all_iff split: if_splits)
  from ne obtain x q where x: "since n sts = [] @ x # q" by (cases "since n sts") auto
  from sorted_since [OF assms(1) x [unfolded since_def]] ex show ?thesis unfolding x by auto
qed

lemma confirmed_ends:
  assumes "dget (slot_statuses rep_lexical off ls asked asks rivals) f = Some SlotConfirmed"
  shows "\<exists>s \<in> set (o_slots off). rs_field s = f \<and> (\<exists>n r x q.
    (asked = Some n \<or> (\<exists>a \<in> set asks. unchanged a off \<and> ask_at a = n)) \<and>
    stated_in f ls (others_of off s) = r @ x # q \<and> n \<le> st_line x \<and>
    list_all (\<lambda>y. states_exactly (slot_key rep_lexical s) (st_values y)) (x # q))"
proof -
  from dget_foldl_dput [OF assms [unfolded slot_statuses_def]] obtain s where s: "s \<in> set (o_slots off)" "rs_field s = f"
    and v: "(if \<not> role_fits s then SlotUnknown
      else if window rep_lexical off ls asks rivals then SlotConfirmed
      else status_from rep_lexical s (lx_states rep_lexical (rs_field s) ls (others_of off s)) asked) = SlotConfirmed"
    by auto
  let ?sts = "stated_in f ls (others_of off s)" and ?w = "slot_key rep_lexical s"
  have lx: "lx_states rep_lexical = stated_in" by (simp add: rep_lexical_def)
  note sorted = stated_in_sorted [of f ls "others_of off s"]
  show ?thesis
  proof (cases "window rep_lexical off ls asks rivals")
    case True
    then obtain a fs where a: "a \<in> set asks" "unchanged a off"
      "anchors (ask_at a) (map (\<lambda>s. (slot_key rep_lexical s, stated_in (rs_field s) ls (others_of off s),
         mine rep_lexical (slot_key rep_lexical s) (stated_in (rs_field s) ls (others_of off s)) (rs_field s) rivals)) (o_slots off)) fs"
      by (auto simp: window_def Let_def list_ex_iff lx)
    have m: "(?w, ?sts, mine rep_lexical ?w ?sts f rivals) \<in> set (map (\<lambda>s. (slot_key rep_lexical s, stated_in (rs_field s) ls (others_of off s),
         mine rep_lexical (slot_key rep_lexical s) (stated_in (rs_field s) ls (others_of off s)) (rs_field s) rivals)) (o_slots off))"
      using s by force
    from anchored_statements [OF sorted a(3) m] a(1,2) s show ?thesis by blast
  next
    case False
    with v have "status_from rep_lexical s ?sts asked = SlotConfirmed" by (auto simp: s(2) lx split: if_splits)
    from status_from_confirmed [OF this] obtain n where n: "asked = Some n" "confirmed_from ?w ?sts n" by blast
    from confirmed_statements [OF sorted n(2)] n(1) s show ?thesis by blast
  qed
qed

text \<open>
  C28. No fees, or no changes, needs a plain denial that stands. If the slot \<open>fees_none\<close> or \<open>changes_none\<close> of an
  offer with the value \<open>true\<close> is confirmed, by the read-back ask or by the window of all slots, then some sentence of
  the rep, at or after the ask, denies the term by the scope rule and does not itself price a fee or announce a change,
  and no sentence of the rep that follows it does, in the same line or a later one.
\<close>

theorem none_needs_a_denial:
  assumes "dget (slot_statuses rep_lexical off ls asked asks rivals) f = Some SlotConfirmed"
    and "none_rule f = Some (role, against)" "\<forall>s \<in> set (o_slots off). rs_field s = f \<longrightarrow> rs_value s = ''true''"
  shows "\<exists>n xs i u ys. (asked = Some n \<or> (\<exists>a \<in> set asks. unchanged a off \<and> ask_at a = n)) \<and> n \<le> i \<and>
    rep_sentences f ls = xs @ (i, u) # ys \<and> denies (plain_clause u) role \<and> \<not> against (plain_clause u) \<and>
    (\<forall>(j, v) \<in> set ys. \<not> against (plain_clause v))"
proof -
  from confirmed_ends [OF assms(1)] obtain s n r x q where s: "s \<in> set (o_slots off)" "rs_field s = f"
    and n: "asked = Some n \<or> (\<exists>a \<in> set asks. unchanged a off \<and> ask_at a = n)" "n \<le> st_line x"
    and st: "stated_in f ls (others_of off s) = r @ x # q"
      "list_all (\<lambda>y. states_exactly (slot_key rep_lexical s) (st_values y)) (x # q)"
    by blast
  have "f \<noteq> ''expires''" using none_rule_said(2) [OF assms(2)] .
  then have key: "slot_key rep_lexical s = ''true''" using s assms(3) by (simp add: slot_key_def)
  from last_statements [OF st [unfolded key]] obtain xs u ys where u: "rep_sentences f ls = xs @ (st_line x, u) # ys"
    "states_exactly ''true'' (said_values u f (others_of off s))"
    "\<forall>(j, v) \<in> set ys. said_values v f (others_of off s) = [] \<or> states_exactly ''true'' (said_values v f (others_of off s))"
    by blast
  note said = none_rule_said(1) [OF assms(2)]
  have "denies (plain_clause u) role \<and> \<not> against (plain_clause u)"
    using u(2) unfolding states_exactly_def said flags_facts .
  moreover have "\<not> against (plain_clause v)" if "(j, v) \<in> set ys" for j v
  proof
    assume "against (plain_clause v)"
    then have "''false'' \<in> set (said_values v f (others_of off s))" unfolding said flags_facts .
    with u(3) that show False by (auto simp: states_exactly_def)
  qed
  ultimately show ?thesis using n u(1) by blast
qed

definition no_fees_slot :: readback_slot where
  "no_fees_slot = \<lparr>rs_field = ''fees_none'', rs_value = ''true'', rs_unit = BoolUnit, rs_role = OneTime,
    rs_source_utt = None, rs_span = None, rs_status = SlotHeard\<rparr>"

definition no_fees_line :: line where
  "no_fees_line = \<lparr>l_utt_id = ''u1'', l_speaker = Partner, l_text = ''No fees.''\<rparr>"

lemma no_fees_read:
  "units_of ''No fees.'' ''fees_none'' = [(0, 8, ''No fees.'')]" "plain_clause ''No fees.'' = ''no fees.''"
  "denies ''no fees.'' NegFees" "\<not> prices_fee ''no fees.''"
  by code_simp+

lemma no_fees_rule: "none_rule (rs_field no_fees_slot) = Some (NegFees, prices_fee)" "rs_value no_fees_slot = ''true''"
  by (simp_all add: no_fees_slot_def none_rule_def)

definition no_fees_offer :: offer_public where
  "no_fees_offer = (slots_offer [])\<lparr>o_slots := [no_fees_slot]\<rparr>"

lemma no_fees_confirmed:
  "dget (slot_statuses rep_lexical no_fees_offer [no_fees_line] (Some 0) [] []) ''fees_none'' = Some SlotConfirmed"
proof -
  have f: "rs_field no_fees_slot = ''fees_none''" by (simp add: no_fees_slot_def)
  have v: "said_values ''No fees.'' ''fees_none'' others = [''true'']" for others
    using none_rule_said(1) [OF no_fees_rule(1)] by (simp add: f no_fees_read flags_def)
  have "stated_in ''fees_none'' [no_fees_line] others =
      [\<lparr>st_line = 0, st_utt = ''u1'', st_start = 0, st_end = 8, st_values = [''true'']\<rparr>]" for others
    by (simp add: stated_in_def line_states_def no_fees_line_def no_fees_read(1) v)
  moreover have "role_fits no_fees_slot" by code_simp
  moreover have "slot_key rep_lexical no_fees_slot = ''true''" by (simp add: slot_key_def f no_fees_rule)
  ultimately show ?thesis
    by (simp add: slot_statuses_def no_fees_offer_def status_from_def f rep_lexical_def confirmed_from_def states_exactly_def
        dget_dput)
qed

theorem none_needs_a_denial_witness:
  "\<exists>i u. (i, u) \<in> set (rep_sentences ''fees_none'' [no_fees_line]) \<and> denies (plain_clause u) NegFees \<and>
     \<not> prices_fee (plain_clause u)"
proof -
  have r: "none_rule ''fees_none'' = Some (NegFees, prices_fee)" by (simp add: none_rule_def)
  have "\<forall>s \<in> set (o_slots no_fees_offer). rs_field s = ''fees_none'' \<longrightarrow> rs_value s = ''true''"
    by (simp add: no_fees_offer_def no_fees_rule)
  from none_needs_a_denial [OF no_fees_confirmed r this] obtain xs i u ys where
    "rep_sentences ''fees_none'' [no_fees_line] = xs @ (i, u) # ys" "denies (plain_clause u) NegFees" "\<not> prices_fee (plain_clause u)"
    by blast
  then show ?thesis by (intro exI [of _ i] exI [of _ u]) simp
qed

end
