(* ===== verification/Sim_User.thy ===== *)
theory Sim_User
  imports Reader Authorize Rep_Policy
begin

text \<open>
  \<open>env/user/approver.py\<close> and \<open>env/user/simuser.py\<close>: the principal of a simulated case, with the retry rule of
  \<open>env/world.py\<close> and the hidden limits of \<open>env/tasks/schema.py\<close>. What the model answers is an input, as are
  pydantic's reading of JSON and of an integer in a text; the sampled delays are left out.
\<close>

section \<open>Limits\<close>

(* env/tasks/schema.py 115-115 Bound *)
datatype bound = BoundPrice | BoundMonths | BoundFees

(* env/tasks/schema.py 118-121 Limits *)
record limits =
  li_price :: "string option"
  li_months :: "int option"
  li_fees :: "string option"

definition limits_valid :: "limits \<Rightarrow> bool" where
  "limits_valid l \<longleftrightarrow>
     (case li_price l of None \<Rightarrow> True | Some p \<Rightarrow> money_re p) \<and>
     (case li_months l of None \<Rightarrow> True | Some n \<Rightarrow> 1 \<le> n) \<and>
     (case li_fees l of None \<Rightarrow> True | Some p \<Rightarrow> money_re p)"

(* env/tasks/schema.py 124-133 Principal *)
record principal =
  pr_envelope :: "(bound, string) dict"
  pr_limits :: "limits option"
  pr_delay_from_ms :: int

(* env/user/approver.py 36-42 Bounds *)
record bounds =
  bo_monthly :: "int option"
  bo_months :: "int option"
  bo_fees :: "int option"

(* env/user/approver.py 56-62 bounds *)
definition bounds_from :: "limits \<Rightarrow> bounds" where
  "bounds_from l =
     \<lparr>bo_monthly = map_option minor_units (li_price l), bo_months = li_months l,
      bo_fees = map_option minor_units (li_fees l)\<rparr>"

definition is_over :: "int option \<Rightarrow> int \<Rightarrow> bool" where
  "is_over b v \<longleftrightarrow> (case b of None \<Rightarrow> False | Some n \<Rightarrow> v > n)"

(* env/user/approver.py 65-73 violations *)
definition over_limits :: "bounds \<Rightarrow> int \<Rightarrow> int \<Rightarrow> int \<Rightarrow> string list" where
  "over_limits b monthly months fees =
     (if is_over (bo_monthly b) monthly then [''monthly_price_over''] else []) @
     (if is_over (bo_months b) months then [''term_months_over''] else []) @
     (if is_over (bo_fees b) fees then [''one_time_fees_over''] else [])"

section \<open>The approver\<close>

text \<open>The facts are those the user holds now. \<open>SimUser._facts\<close> is the same dictionary, which \<open>stop\<close> changes in
  place.\<close>

(* env/user/approver.py 104-110 Approver.__init__ *)
record approver_state =
  apr_principal :: principal
  apr_facts :: "(string, string) dict"
  apr_changed :: bool
  apr_stopped :: bool

definition stated_bound :: "approver_state \<Rightarrow> bound \<Rightarrow> string option outcome" where
  "stated_bound a b = (case dget (pr_envelope (apr_principal a)) b of
      None \<Rightarrow> Inr None
    | Some k \<Rightarrow> (case dget (apr_facts a) k of None \<Rightarrow> Inl (KeyError k) | Some v \<Rightarrow> Inr (Some v)))"

text \<open>\<open>Limits.model_validate\<close> of texts; \<open>read_int\<close> is pydantic's reading of an integer.\<close>

(* env/user/approver.py 112-114 Approver.envelope *)
definition envelope_of :: "(string \<Rightarrow> int option) \<Rightarrow> approver_state \<Rightarrow> bounds outcome" where
  "envelope_of read_int a =
     and_then (stated_bound a BoundPrice) (\<lambda>p.
     and_then (stated_bound a BoundMonths) (\<lambda>m.
     and_then (stated_bound a BoundFees) (\<lambda>f.
       let l = \<lparr>li_price = p, li_months = (case m of None \<Rightarrow> None | Some t \<Rightarrow> read_int t), li_fees = f\<rparr> in
       if (m \<noteq> None \<and> li_months l = None) \<or> \<not> limits_valid l then Inl (ValidationError ''Limits'')
       else Inr (bounds_from l))))"

(* env/user/approver.py 116-118 Approver.limits *)
definition limits_of :: "(string \<Rightarrow> int option) \<Rightarrow> approver_state \<Rightarrow> bounds outcome" where
  "limits_of read_int a = (case pr_limits (apr_principal a) of
      None \<Rightarrow> envelope_of read_int a
    | Some l \<Rightarrow> if apr_changed a then envelope_of read_int a else Inr (bounds_from l))"

text \<open>\<open>facts |= change\<close>.\<close>

definition put_all :: "(string, string) dict \<Rightarrow> (string, string) dict \<Rightarrow> (string, string) dict" where
  "put_all d ch = foldl (\<lambda>d (k, v). dput k v d) d ch"

(* env/user/approver.py 120-127 Approver.stop *)
definition approver_stop :: "approver_state \<Rightarrow> (string, string) dict option \<Rightarrow> approver_state" where
  "approver_stop a change = (case change of
      None \<Rightarrow> a\<lparr>apr_stopped := True\<rparr>
    | Some ch \<Rightarrow> a\<lparr>apr_facts := put_all (apr_facts a) ch, apr_changed := True\<rparr>)"

(* env/user/approver.py 83-93 missing_required *)
definition card_missing :: "string list \<Rightarrow> string list" where
  "card_missing fs =
     (let kinds = map (before (CHR '':'')) fs in
      filter (\<lambda>f. f \<notin> set fs) [''monthly_price'', ''term_months'', ''expires''] @
      (if ''fee'' \<notin> set kinds \<and> ''fees_none'' \<notin> set fs then [''fee:*|fees_none''] else []) @
      (if ''applied_change'' \<notin> set kinds \<and> ''changes_none'' \<notin> set fs
       then [''applied_change:*|changes_none''] else []))"

(* env/user/approver.py 96-100 _slot *)
definition only_slot :: "offer_public \<Rightarrow> string \<Rightarrow> slot_unit \<Rightarrow> int outcome" where
  "only_slot off f u = (case filter (\<lambda>s. rs_field s = f) (o_slots off) of
      [s] \<Rightarrow> if rs_unit s = u \<and> isdigit (rs_value s) then Inr (int_of_digits (rs_value s))
             else Inl (ValueError f)
    | _ \<Rightarrow> Inl (ValueError f))"

text \<open>The subject, its id, the hash and the epoch of a post; the decision is denied iff there are reasons.\<close>

(* env/user/approver.py 160-179 Approver._post *)
definition post_of :: "approver_state \<Rightarrow> subject \<Rightarrow> string \<Rightarrow> string \<Rightarrow> int \<Rightarrow> string list \<Rightarrow> approval_post \<times> string list" where
  "post_of a subj i h e reasons =
     (let why = (if apr_stopped a then [''stopped''] else []) @ reasons in
      (\<lparr>ap_subject = subj, ap_subject_id = i, ap_decision = (if why \<noteq> [] then Denied else Granted),
        ap_subject_hash = h, ap_epoch = e\<rparr>, why))"

definition fee_fields :: "offer_public \<Rightarrow> string list" where
  "fee_fields off = filter (starts_with ''fee:'') (map rs_field (o_slots off))"

(* env/user/approver.py 137-142 Approver.decide *)
definition terms_over :: "(string \<Rightarrow> int option) \<Rightarrow> approver_state \<Rightarrow> offer_public \<Rightarrow> string list outcome" where
  "terms_over read_int a off =
     and_then (only_slot off ''monthly_price'' UsdMinor) (\<lambda>monthly.
     and_then (only_slot off ''term_months'' Months) (\<lambda>months.
     and_then (map_outcome (\<lambda>f. only_slot off f UsdMinor) (fee_fields off)) (\<lambda>fees.
     and_then (limits_of read_int a) (\<lambda>l. Inr (over_limits l monthly months (sum_list fees))))))"

(* env/user/approver.py 129-145 Approver.decide *)
definition decide_card ::
  "(string \<Rightarrow> int option) \<Rightarrow> approver_state \<Rightarrow> approval_card \<Rightarrow> offer_public \<Rightarrow> (approval_post \<times> string list) outcome"
where
  "decide_card read_int a c off =
     (if (o_ref off, o_revision off) \<noteq> (card_offer_ref c, card_revision c)
      then Inl (ValueError ''the offer is not the card's offer and revision'')
      else
        let shown = (if card_missing (map rs_field (o_slots off)) \<noteq> [] then [''incomplete_card''] else []) @
                    (if list_ex (\<lambda>s. rs_status s \<noteq> SlotConfirmed) (o_slots off) then [''unconfirmed''] else []) in
        and_then (if shown \<noteq> [] then Inr shown else terms_over read_int a off) (\<lambda>reasons.
          Inr (post_of a ApprovalSubject (card_id c) (card_terms_hash c) (card_epoch c) reasons)))"

definition looser_bound :: "int option \<Rightarrow> int option \<Rightarrow> bool" where
  "looser_bound stated_at got \<longleftrightarrow> (case stated_at of
      None \<Rightarrow> False | Some n \<Rightarrow> (case got of None \<Rightarrow> True | Some g \<Rightarrow> g > n))"

(* env/user/approver.py 147-158 Approver.decide_mandate *)
definition decide_mandate_limits ::
  "(string \<Rightarrow> int option) \<Rightarrow> approver_state \<Rightarrow> mandate \<Rightarrow> (approval_post \<times> string list) outcome"
where
  "decide_mandate_limits read_int a m =
     and_then (envelope_of read_int a) (\<lambda>e. Inr (post_of a MandateSubject (m_id m) (m_hash m) (m_epoch m)
       ((if looser_bound (bo_monthly e) (m_max_monthly_price_minor m) then [''monthly_minor_looser''] else []) @
        (if looser_bound (bo_months e) (m_max_term_months m) then [''term_months_looser''] else []) @
        (if looser_bound (bo_fees e) (m_max_one_time_fees_minor m) then [''fees_minor_looser''] else []))))"

section \<open>What the user says\<close>

definition NOT_RX :: rx where
  "NOT_RX = ralts [rlit (''don'' @ [apostrophe] @ ''t''), rlit ''do not'']"

(* env/user/simuser.py 66-70 STOP_CUE *)
definition STOP_CUE :: rx where
  "STOP_CUE = rseq
     [REdge,
      ralts [rlit ''stop'', rlit ''cancel'', rlit ''hold off'', rseq [rlit ''never'', ropt (rlit '' ''), rlit ''mind''],
             rlit ''no longer'', rlit ''forget it'', rlit (''let'' @ [apostrophe] @ ''s not''),
             rseq [NOT_RX, rlit '' '', rlits [''accept'', ''agree'', ''sign'', ''go ahead'', ''proceed'']],
             rseq [rlit ''keep my '', ropt (rlit ''current ''), rlit ''plan'']],
      REdge]"

text \<open>\<open>$\<close> after white space is the end of the text.\<close>

(* env/user/simuser.py 71-71 NEGATED *)
definition NEGATED_RX :: rx where
  "NEGATED_RX = rseq
     [REdge, ralts [NOT_RX, rlit ''no need to'', rlit ''never'', rlit ''not''], rplus rspace,
      RNotAhead (RChar (\<lambda>_. True))]"

(* env/user/simuser.py 74-78 says_stop *)
definition says_stop :: "string \<Rightarrow> bool" where
  "says_stop t \<longleftrightarrow>
     (let s = casefold t in
      list_ex (\<lambda>m. \<not> rsearch NEGATED_RX (take (rm_start m) s)) (finditer STOP_CUE s))"

(* env/tasks/schema.py 136-147 Stop *)
datatype stop_trigger = AfterCard | AfterOffer | AfterTurn nat

record user_stop =
  us_trigger :: stop_trigger
  us_change :: "(string, string) dict option"

(* env/user/simuser.py 118-123 SimOut *)
record sim_out =
  so_silent :: bool
  so_text :: "string option"
  so_revealed :: "(string, string) dict"

(* env/user/simuser.py 125-131 SimOut._silent_or_text *)
definition sim_out_valid :: "sim_out \<Rightarrow> bool" where
  "sim_out_valid x \<longleftrightarrow>
     so_silent x = (so_text x = None) \<and> \<not> (so_silent x \<and> so_revealed x \<noteq> []) \<and> so_text x \<noteq> Some []"

definition said_text :: "sim_out \<Rightarrow> string" where
  "said_text x = (case so_text x of None \<Rightarrow> [] | Some t \<Rightarrow> t)"

definition change_of :: "user_stop option \<Rightarrow> (string, string) dict" where
  "change_of st = (case st of None \<Rightarrow> [] | Some s \<Rightarrow> (case us_change s of None \<Rightarrow> [] | Some ch \<Rightarrow> ch))"

definition plain_stop :: "user_stop option \<Rightarrow> bool" where
  "plain_stop st \<longleftrightarrow> (case st of None \<Rightarrow> False | Some s \<Rightarrow> us_change s = None)"

text \<open>The delays are in thousandths of a second.\<close>

(* env/tasks/schema.py 213-234 Task._principal *)
definition principal_checks ::
  "(string \<Rightarrow> int option) \<Rightarrow> bool \<Rightarrow> principal option \<Rightarrow> (string, string) dict \<Rightarrow> user_stop option \<Rightarrow> bool \<Rightarrow> bool"
where
  "principal_checks read_int full p facts st no_commit \<longleftrightarrow>
     (p \<noteq> None) = full \<and> \<not> (st \<noteq> None \<and> p = None) \<and>
     (case p of None \<Rightarrow> True
      | Some q \<Rightarrow> \<not> isl (envelope_of read_int
          \<lparr>apr_principal = q, apr_facts = facts, apr_changed = False, apr_stopped = False\<rparr>)) \<and>
     (case st of None \<Rightarrow> True
      | Some s \<Rightarrow> (case us_trigger s of AfterTurn _ \<Rightarrow> True
          | _ \<Rightarrow> 2500 < (case p of None \<Rightarrow> 9000 | Some q \<Rightarrow> pr_delay_from_ms q))) \<and>
     plain_stop st = no_commit"

(* env/tasks/schema.py 33-33 GOAL_REF *)
definition GOAL_REF :: rx where
  "GOAL_REF = (let name = RChar key_char in
     rseq [rlit ''{'',
           RGroup ''1'' (rseq [RChar is_lower, RStar name, RStar (rseq [rlit ''.'', rplus name])]),
           rlit ''}''])"

definition goal_refs :: "string \<Rightarrow> string list" where
  "goal_refs goal = map (\<lambda>m. the (rgroup ''1'' m)) (finditer GOAL_REF goal)"

text \<open>\<open>ident\<close> and \<open>shareable\<close> are the keys of the identity check and of the disclosure.\<close>

(* env/tasks/schema.py 195-206 Task._facts *)
definition facts_checks ::
  "string list \<Rightarrow> string list \<Rightarrow> principal option \<Rightarrow> user_stop option \<Rightarrow> string \<Rightarrow> (string, string) dict \<Rightarrow> bool"
where
  "facts_checks ident shareable p st goal facts \<longleftrightarrow>
     \<not> list_ex is_digit (rsub GOAL_REF (\<lambda>_. []) goal) \<and>
     set (ident @ shareable @ (case p of None \<Rightarrow> [] | Some q \<Rightarrow> dvals (pr_envelope q)) @ dkeys (change_of st) @
          goal_refs goal) \<subseteq> set (dkeys facts)"

(* env/tasks/schema.py 208-211 Task.goal *)
definition goal_said :: "string \<Rightarrow> (string, string) dict \<Rightarrow> string outcome" where
  "goal_said goal facts =
     and_then (map_outcome (\<lambda>k. case dget facts k of None \<Rightarrow> Inl (KeyError k) | Some v \<Rightarrow> Inr v) (goal_refs goal))
       (\<lambda>_. Inr (rsub GOAL_REF (\<lambda>m. the (dget facts (the (rgroup ''1'' m)))) goal))"

text \<open>A reply: the one call of \<open>reply\<close>, read as JSON (\<open>None\<close>: anything else). \<open>Inl\<close> is an invalid reply.\<close>

(* env/user/simuser.py 142-171 check_reply *)
definition check_reply ::
  "sim_out option \<Rightarrow> (string, string) dict \<Rightarrow> bool \<Rightarrow> user_stop option \<Rightarrow> sim_out outcome"
where
  "check_reply got facts opening st =
     (case got of None \<Rightarrow> Inl (ValueError ''expected exactly one reply call'')
      | Some x \<Rightarrow>
          if \<not> sim_out_valid x then Inl (ValidationError ''schema'')
          else if so_silent x \<and> opening then Inl (ValueError ''the opening request cannot be silent'')
          else if so_silent x \<and> st \<noteq> None then Inl (ValueError ''the stop cannot be silent'')
          else if \<not> set (dkeys (change_of st)) \<subseteq> set (dkeys (so_revealed x))
            then Inl (ValueError ''the mind change does not reveal'')
          else if plain_stop st \<and> \<not> says_stop (said_text x) then Inl (ValueError ''the stop says no stop cue'')
          else if \<not> set (dkeys (so_revealed x)) \<subseteq> set (dkeys facts) then Inl (ValueError ''revealed unknown keys'')
          else if list_ex (\<lambda>(k, v). Some v \<noteq> dget facts k) (so_revealed x)
            then Inl (ValueError ''revealed values that are not the profile's'')
          else if list_ex (\<lambda>(k, v). \<not> contains v (said_text x)) (so_revealed x)
            then Inl (ValueError ''revealed values not in the text'')
          else Inr x)"

(* env/world.py 28-28 MAX_REGENERATIONS *)
definition MAX_REGENERATIONS :: nat where "MAX_REGENERATIONS = 2"

text \<open>Attempts until one passes the check: the value and how many were made. A deadline that passes meanwhile ends
  the episode, as exhausted attempts do.\<close>

fun attempts_from :: "('r \<Rightarrow> 't outcome) \<Rightarrow> (nat \<Rightarrow> 'r) \<Rightarrow> nat \<Rightarrow> nat \<Rightarrow> ('t \<times> nat) option" where
  "attempts_from chk ans n 0 = None"
| "attempts_from chk ans n (Suc m) =
     (case chk (ans n) of Inr x \<Rightarrow> Some (x, n + 1) | Inl _ \<Rightarrow> attempts_from chk ans (n + 1) m)"

(* env/world.py 124-152 bounded *)
definition bounded :: "('r \<Rightarrow> 't outcome) \<Rightarrow> (nat \<Rightarrow> 'r) \<Rightarrow> ('t \<times> nat) outcome" where
  "bounded chk ans = (case attempts_from chk ans 0 (MAX_REGENERATIONS + 1) of
      None \<Rightarrow> Inl (ValueError ''WorldError'') | Some r \<Rightarrow> Inr r)"

section \<open>The user\<close>

(* env/user/simuser.py 175-198 SimUser.__init__ *)
record sim_user =
  su_approver :: "approver_state option"
  su_profile :: "(string, string) dict"
  su_stop :: "user_stop option"
  su_fired :: bool
  su_turns :: nat
  su_chat :: "string list"

definition new_user :: "principal option \<Rightarrow> (string, string) dict \<Rightarrow> user_stop option \<Rightarrow> sim_user" where
  "new_user p facts st =
     \<lparr>su_approver = map_option (\<lambda>q. \<lparr>apr_principal = q, apr_facts = facts, apr_changed = False, apr_stopped = False\<rparr>) p,
      su_profile = facts, su_stop = st, su_fired = False, su_turns = 0, su_chat = []\<rparr>"

definition user_facts :: "sim_user \<Rightarrow> (string, string) dict" where
  "user_facts u = (case su_approver u of None \<Rightarrow> su_profile u | Some a \<Rightarrow> apr_facts a)"

(* env/user/simuser.py 134-139 SimReply *)
record sim_reply =
  sr_text :: string
  sr_revealed :: "(string, string) dict"
  sr_attempts :: nat
  sr_stop :: "user_stop option"

(* env/user/simuser.py 274-276 SimUser._reply *)
definition fire :: "sim_user \<Rightarrow> user_stop option \<Rightarrow> sim_user" where
  "fire u st = (case st of None \<Rightarrow> u
     | Some s \<Rightarrow> u\<lparr>su_fired := True, su_approver := map_option (\<lambda>a. approver_stop a (us_change s)) (su_approver u)\<rparr>)"

(* env/user/simuser.py 266-301 SimUser._reply *)
definition user_reply ::
  "sim_user \<Rightarrow> bool \<Rightarrow> user_stop option \<Rightarrow> (nat \<Rightarrow> sim_out option) \<Rightarrow> (sim_user \<times> sim_reply option) outcome"
where
  "user_reply u opening st ans =
     (let v = fire u st in
      and_then (bounded (\<lambda>got. check_reply got (user_facts v) opening st) ans) (\<lambda>(x, n).
        case so_text x of
          None \<Rightarrow> Inr (v, None)
        | Some t \<Rightarrow> Inr (v\<lparr>su_chat := su_chat v @ [''You: '' @ t]\<rparr>,
            Some \<lparr>sr_text = t, sr_revealed = so_revealed x, sr_attempts = n, sr_stop = st\<rparr>)))"

(* env/user/simuser.py 200-209 SimUser.on_agent_message *)
definition on_agent_message ::
  "sim_user \<Rightarrow> string option \<Rightarrow> (nat \<Rightarrow> sim_out option) \<Rightarrow> (sim_user \<times> sim_reply option) outcome"
where
  "on_agent_message u txt ans =
     (let v = (case txt of None \<Rightarrow> u
               | Some t \<Rightarrow> u\<lparr>su_chat := su_chat u @ [''Assistant: '' @ t], su_turns := su_turns u + 1\<rparr>);
          due = (\<not> su_fired v \<and> (case su_stop v of None \<Rightarrow> False | Some s \<Rightarrow>
                   (case us_trigger s of AfterTurn k \<Rightarrow> k \<le> su_turns v | _ \<Rightarrow> False)))
      in user_reply v (txt = None) (if due then su_stop v else None) ans)"

(* env/user/simuser.py 211-220 SimUser.on_trigger *)
definition on_trigger ::
  "sim_user \<Rightarrow> stop_trigger \<Rightarrow> (nat \<Rightarrow> sim_out option) \<Rightarrow> (sim_user \<times> sim_reply option) outcome"
where
  "on_trigger u tr ans =
     (case su_stop u of None \<Rightarrow> Inr (u, None)
      | Some s \<Rightarrow> if su_fired u \<or> us_trigger s \<noteq> tr then Inr (u, None) else user_reply u False (Some s) ans)"

definition usd_text :: "int \<Rightarrow> string" where
  "usd_text n = ''$'' @ dec_int (n div 100) @ ''.'' @ pad2 (n mod 100)"

(* env/user/simuser.py 102-115 card_line *)
definition card_line :: "approval_card + mandate \<Rightarrow> bool \<Rightarrow> string" where
  "card_line subj granted =
     (let verb = (if granted then ''approved'' else ''declined'') in
      case subj of
        Inl c \<Rightarrow> ''Card: you '' @ verb @ '' these terms: '' @ strip (card_readback_text c)
      | Inr m \<Rightarrow>
          (let says = (case m_max_monthly_price_minor m of None \<Rightarrow> [] | Some n \<Rightarrow> [''at most '' @ usd_text n @ '' a month'']) @
                      (case m_max_term_months m of None \<Rightarrow> [] | Some n \<Rightarrow> [''at most '' @ dec_int n @ '' months'']) @
                      (case m_max_one_time_fees_minor m of None \<Rightarrow> []
                       | Some n \<Rightarrow> [''at most '' @ usd_text n @ '' in one-time fees''])
           in ''Card: you '' @ verb @ '' these limits: '' @ (if says = [] then ''none stated'' else join ''; '' says)))"

(* env/user/simuser.py 222-227 SimUser.on_decided *)
definition on_decided :: "sim_user \<Rightarrow> approval_card + mandate \<Rightarrow> approval_post \<Rightarrow> sim_user" where
  "on_decided u subj p = u\<lparr>su_chat := su_chat u @ [card_line subj (ap_decision p = Granted)]\<rparr>"

section \<open>A conversation\<close>

text \<open>Any order of the user's operations, as the channel's lock serialises them; each reply with the answers of its
  attempts.\<close>

datatype user_op =
  AgentSays "string option" "nat \<Rightarrow> sim_out option"
| Triggered stop_trigger "nat \<Rightarrow> sim_out option"
| CardDecided "approval_card + mandate" approval_post

fun user_step :: "sim_user \<Rightarrow> user_op \<Rightarrow> (sim_user \<times> sim_reply option) outcome" where
  "user_step u (AgentSays t ans) = on_agent_message u t ans"
| "user_step u (Triggered tr ans) = on_trigger u tr ans"
| "user_step u (CardDecided subj p) = Inr (on_decided u subj p, None)"

fun user_run :: "sim_user \<Rightarrow> user_op list \<Rightarrow> (sim_user \<times> sim_reply list) outcome" where
  "user_run u [] = Inr (u, [])"
| "user_run u (x # xs) = and_then (user_step u x) (\<lambda>(v, r).
     and_then (user_run v xs) (\<lambda>(w, rs). Inr (w, (case r of None \<Rightarrow> rs | Some y \<Rightarrow> y # rs))))"

end
