(* ===== verification/Sim_User_Facts.thy ===== *)
theory Sim_User_Facts
  imports Sim_User
begin

text \<open>
  What the simulated principal guarantees: which cards and limits it grants, that its stop comes at most once and
  says what it must, and that after a plain stop nothing is granted.
\<close>

section \<open>Grants\<close>

lemma map_outcome_all: "map_outcome f xs = Inr ys \<Longrightarrow> \<forall>x \<in> set xs. \<exists>y. f x = Inr y"
  by (fastforce simp: map_outcome_Inr list_all2_conv_all_nth in_set_conv_nth)

lemma over_limits_Nil:
  "over_limits b monthly months fees = [] \<longleftrightarrow>
     \<not> is_over (bo_monthly b) monthly \<and> \<not> is_over (bo_months b) months \<and> \<not> is_over (bo_fees b) fees"
  by (simp add: over_limits_def)

lemma granted_post:
  "post_of a subj i h e reasons = (p, why) \<Longrightarrow> ap_decision p = Granted \<longleftrightarrow> \<not> apr_stopped a \<and> reasons = []"
  by (auto simp: post_of_def Let_def split: if_splits)

definition within_terms :: "(string \<Rightarrow> int option) \<Rightarrow> approver_state \<Rightarrow> offer_public \<Rightarrow> bool" where
  "within_terms read_int a off \<longleftrightarrow>
     (\<exists>monthly months fees l.
        only_slot off ''monthly_price'' UsdMinor = Inr monthly \<and>
        only_slot off ''term_months'' Months = Inr months \<and>
        map_outcome (\<lambda>f. only_slot off f UsdMinor) (fee_fields off) = Inr fees \<and>
        limits_of read_int a = Inr l \<and>
        \<not> is_over (bo_monthly l) monthly \<and> \<not> is_over (bo_months l) months \<and> \<not> is_over (bo_fees l) (sum_list fees))"

lemma terms_over_Nil: "terms_over read_int a off = Inr [] \<longleftrightarrow> within_terms read_int a off"
  unfolding terms_over_def within_terms_def by (auto simp: and_then_eq_Inr over_limits_Nil)

text \<open>C29. The approval button grants a card exactly when the user has not said stop and the card's own offer and
  revision shows every required slot, all confirmed, with one monthly price, one term and fees that the limits in
  force allow together; a decision on any other offer is refused.\<close>
theorem card_granted_exactly:
  assumes "decide_card read_int a c off = Inr (p, why)"
  shows "(ap_decision p = Granted) =
    (\<not> apr_stopped a \<and> card_missing (map rs_field (o_slots off)) = [] \<and>
     list_all (\<lambda>s. rs_status s = SlotConfirmed) (o_slots off) \<and> within_terms read_int a off)"
proof -
  define shown where "shown = (if card_missing (map rs_field (o_slots off)) \<noteq> [] then [''incomplete_card''] else []) @
    (if list_ex (\<lambda>s. rs_status s \<noteq> SlotConfirmed) (o_slots off) then [''unconfirmed''] else [])"
  have shown_iff: "shown = [] \<longleftrightarrow> card_missing (map rs_field (o_slots off)) = [] \<and>
      list_all (\<lambda>s. rs_status s = SlotConfirmed) (o_slots off)"
    by (simp add: shown_def list_all_iff list_ex_iff)
  obtain reasons where r: "(if shown \<noteq> [] then Inr shown else terms_over read_int a off) = Inr reasons"
      "post_of a ApprovalSubject (card_id c) (card_terms_hash c) (card_epoch c) reasons = (p, why)"
    using assms unfolding decide_card_def shown_def [symmetric] Let_def
    by (auto simp: and_then_eq_Inr split: if_splits)
  have "reasons = [] \<longleftrightarrow> shown = [] \<and> within_terms read_int a off"
    using r(1) terms_over_Nil [of read_int a off] by (auto split: if_splits)
  then show ?thesis using granted_post [OF r(2)] shown_iff by blast
qed

section \<open>One reply\<close>

lemma attempts_from_Some:
  "attempts_from chk ans n m = Some (x, k) \<Longrightarrow> \<exists>i. n \<le> i \<and> i < n + m \<and> k = i + 1 \<and> chk (ans i) = Inr x"
proof (induction m arbitrary: n)
  case 0
  then show ?case by simp
next
  case (Suc m)
  show ?case
  proof (cases "chk (ans n)")
    case (Inl e)
    with Suc obtain i where "n + 1 \<le> i" "i < n + 1 + m" "k = i + 1" "chk (ans i) = Inr x" by fastforce
    then show ?thesis by (intro exI [of _ i]) simp
  next
    case (Inr y)
    with Suc.prems show ?thesis by auto
  qed
qed

lemma bounded_Inr:
  assumes "bounded chk ans = Inr (x, k)"
  shows "k \<le> MAX_REGENERATIONS + 1 \<and> 1 \<le> k \<and> chk (ans (k - 1)) = Inr x"
proof -
  from assms have "attempts_from chk ans 0 (MAX_REGENERATIONS + 1) = Some (x, k)"
    by (simp add: bounded_def split: option.splits)
  from attempts_from_Some [OF this] show ?thesis by auto
qed

lemma check_reply_Inr:
  assumes "check_reply got facts opening st = Inr x"
  shows "sim_out_valid x" "st \<noteq> None \<Longrightarrow> \<not> so_silent x" "set (dkeys (change_of st)) \<subseteq> set (dkeys (so_revealed x))"
    "plain_stop st \<Longrightarrow> says_stop (said_text x)"
    "(k, v) \<in> set (so_revealed x) \<Longrightarrow> dget facts k = Some v \<and> contains v (said_text x)"
  using assms unfolding check_reply_def list_ex_iff by (auto split: option.splits if_splits)

definition good_reply :: "(string, string) dict \<Rightarrow> sim_reply \<Rightarrow> bool" where
  "good_reply facts y \<longleftrightarrow>
     1 \<le> sr_attempts y \<and> sr_attempts y \<le> MAX_REGENERATIONS + 1 \<and>
     (\<forall>(k, v) \<in> set (sr_revealed y). dget facts k = Some v \<and> contains v (sr_text y)) \<and>
     set (dkeys (change_of (sr_stop y))) \<subseteq> set (dkeys (sr_revealed y)) \<and>
     (plain_stop (sr_stop y) \<longrightarrow> says_stop (sr_text y))"

lemma fire_simps [simp]:
  "su_stop (fire u st) = su_stop u" "su_turns (fire u st) = su_turns u" "su_profile (fire u st) = su_profile u"
  "su_fired (fire u st) = (su_fired u \<or> st \<noteq> None)" "fire u None = u"
  by (auto simp: fire_def split: option.splits)

lemma user_reply_Inr:
  assumes "user_reply u opening st ans = Inr (v, r)"
  shows "v\<lparr>su_chat := c\<rparr> = (fire u st)\<lparr>su_chat := c\<rparr>" "r = None \<Longrightarrow> st = None"
    "r = Some y \<Longrightarrow> sr_stop y = st \<and> good_reply (user_facts (fire u st)) y"
proof -
  obtain x n where x: "bounded (\<lambda>got. check_reply got (user_facts (fire u st)) opening st) ans = Inr (x, n)"
    and v: "(case so_text x of None \<Rightarrow> Inr (fire u st, None)
        | Some t \<Rightarrow> Inr ((fire u st)\<lparr>su_chat := su_chat (fire u st) @ [''You: '' @ t]\<rparr>,
            Some \<lparr>sr_text = t, sr_revealed = so_revealed x, sr_attempts = n, sr_stop = st\<rparr>)) =
      (Inr (v, r) :: (sim_user \<times> sim_reply option) outcome)"
    using assms unfolding user_reply_def Let_def by (auto simp: and_then_eq_Inr)
  note n = bounded_Inr [OF x]
  then have c: "check_reply (ans (n - 1)) (user_facts (fire u st)) opening st = Inr x" by simp
  show "v\<lparr>su_chat := c\<rparr> = (fire u st)\<lparr>su_chat := c\<rparr>" using v by (auto split: option.splits)
  show "r = None \<Longrightarrow> st = None"
    using v check_reply_Inr(1,2) [OF c] by (cases st) (auto simp: sim_out_valid_def split: option.splits)
  show "r = Some y \<Longrightarrow> sr_stop y = st \<and> good_reply (user_facts (fire u st)) y"
  proof -
    assume "r = Some y"
    with v obtain t where t: "so_text x = Some t"
        "y = \<lparr>sr_text = t, sr_revealed = so_revealed x, sr_attempts = n, sr_stop = st\<rparr>"
      by (auto split: option.splits)
    then have "said_text x = sr_text y" by (simp add: said_text_def)
    then show ?thesis
      using n check_reply_Inr(3-5) [OF c] t(2) unfolding good_reply_def by (simp add: case_prod_beta) (metis prod.collapse)
  qed
qed

section \<open>Conversations\<close>

text \<open>The invariant of a run: what the button knows follows from whether the stop was said.\<close>

definition facts_now :: "principal option \<Rightarrow> (string, string) dict \<Rightarrow> user_stop option \<Rightarrow> bool \<Rightarrow> (string, string) dict" where
  "facts_now p facts st fired = (if fired \<and> p \<noteq> None then put_all facts (change_of st) else facts)"

definition user_inv :: "principal option \<Rightarrow> (string, string) dict \<Rightarrow> user_stop option \<Rightarrow> sim_user \<Rightarrow> bool" where
  "user_inv p facts st u \<longleftrightarrow>
     su_stop u = st \<and> su_profile u = facts \<and> (su_fired u \<longrightarrow> st \<noteq> None) \<and>
     su_approver u = map_option (\<lambda>q.
       \<lparr>apr_principal = q, apr_facts = facts_now p facts st (su_fired u),
        apr_changed = (su_fired u \<and> \<not> plain_stop st), apr_stopped = (su_fired u \<and> plain_stop st)\<rparr>) p"

lemma put_all_Nil [simp]: "put_all d [] = d"
  by (simp add: put_all_def)

lemma new_user_inv: "user_inv p facts st (new_user p facts st)"
  by (simp add: user_inv_def new_user_def facts_now_def)

lemma user_inv_chat [simp]:
  "user_inv p facts st (u\<lparr>su_chat := c\<rparr>) = user_inv p facts st u"
  "user_inv p facts st (u\<lparr>su_chat := c, su_turns := n\<rparr>) = user_inv p facts st u"
  by (simp_all add: user_inv_def)

lemma user_inv_facts: "user_inv p facts st u \<Longrightarrow> user_facts u = facts_now p facts st (su_fired u)"
  by (cases p) (auto simp: user_inv_def user_facts_def facts_now_def)

lemma fire_inv: "user_inv p facts st u \<Longrightarrow> \<not> su_fired u \<Longrightarrow> user_inv p facts st (fire u st)"
  by (cases p; cases st)
    (auto simp: user_inv_def fire_def approver_stop_def facts_now_def plain_stop_def change_of_def split: option.splits)

lemma user_reply_inv:
  assumes "user_inv p facts st u" "s = None \<or> s = st \<and> \<not> su_fired u" "user_reply u opening s ans = Inr (v, r)"
  shows "user_inv p facts st v" "su_fired v = (su_fired u \<or> s \<noteq> None)"
    "r = Some y \<Longrightarrow> sr_stop y = s \<and> good_reply (facts_now p facts st (su_fired v)) y" "r = None \<Longrightarrow> s = None"
proof -
  have f: "user_inv p facts st (fire u s)" using assms(1,2) fire_inv [of p facts st u] by (cases s) auto
  have "user_inv p facts st (v\<lparr>su_chat := []\<rparr>)" using f unfolding user_reply_Inr(1) [OF assms(3)] by simp
  then show "user_inv p facts st v" by simp
  have "su_fired (v\<lparr>su_chat := []\<rparr>) = su_fired (fire u s)" unfolding user_reply_Inr(1) [OF assms(3)] by simp
  then show v: "su_fired v = (su_fired u \<or> s \<noteq> None)" by simp
  show "r = Some y \<Longrightarrow> sr_stop y = s \<and> good_reply (facts_now p facts st (su_fired v)) y"
    using user_reply_Inr(3) [OF assms(3)] user_inv_facts [OF f] v by simp
  show "r = None \<Longrightarrow> s = None" by (rule user_reply_Inr(2) [OF assms(3)])
qed

definition stop_said :: "sim_reply option \<Rightarrow> nat" where
  "stop_said r = (case r of None \<Rightarrow> 0 | Some y \<Rightarrow> if sr_stop y = None then 0 else 1)"

definition reply_ok :: "principal option \<Rightarrow> (string, string) dict \<Rightarrow> user_stop option \<Rightarrow> sim_reply \<Rightarrow> bool" where
  "reply_ok p facts st y \<longleftrightarrow>
     sr_stop y \<in> {None, st} \<and> (\<exists>fired. (sr_stop y \<noteq> None \<longrightarrow> fired) \<and> good_reply (facts_now p facts st fired) y)"

lemma user_step_inv:
  assumes "user_inv p facts st u" "user_step u x = Inr (v, r)"
  shows "user_inv p facts st v" "(if su_fired v then 1 else 0) = (if su_fired u then 1 else 0) + stop_said r"
    "r = Some y \<Longrightarrow> reply_ok p facts st y"
proof -
  have "user_inv p facts st v \<and> (if su_fired v then 1 else 0) = (if su_fired u then 1 else 0) + stop_said r \<and>
    (\<forall>y. r = Some y \<longrightarrow> reply_ok p facts st y)"
  proof -
    have reply: ?thesis
      if "user_inv p facts st w" "su_fired w = su_fired u" "s = None \<or> s = st \<and> \<not> su_fired w"
        "user_reply w op s ans = Inr (v, r)" for w op s ans
    proof -
      note * = user_reply_inv [OF that(1,3,4)]
      show ?thesis using *(1,2) *(3) *(4) that(2,3)
        by (cases r) (auto simp: stop_said_def reply_ok_def intro!: exI [of _ "su_fired v"])
    qed
    show ?thesis
    proof (cases x)
      case (AgentSays t ans)
      define w where "w = (case t of None \<Rightarrow> u
        | Some t \<Rightarrow> u\<lparr>su_chat := su_chat u @ [''Assistant: '' @ t], su_turns := su_turns u + 1\<rparr>)"
      have w: "user_inv p facts st w" "su_fired w = su_fired u" "su_stop w = st"
        using assms(1) by (auto simp: w_def user_inv_def split: option.splits)
      show ?thesis
        using assms(2) w unfolding AgentSays user_step.simps on_agent_message_def w_def [symmetric] Let_def
        by (intro reply [OF w(1,2), rotated]) (assumption, simp)
    next
      case (Triggered tr ans)
      show ?thesis
      proof (cases st)
        case None
        with assms Triggered show ?thesis by (auto simp: on_trigger_def user_inv_def stop_said_def)
      next
        case (Some s)
        then have [simp]: "su_stop u = Some s" using assms(1) by (simp add: user_inv_def)
        show ?thesis
        proof (cases "su_fired u \<or> us_trigger s \<noteq> tr")
          case True
          with assms Triggered show ?thesis by (auto simp: on_trigger_def stop_said_def)
        next
          case False
          with assms Triggered Some show ?thesis by (intro reply [OF assms(1) refl]) (auto simp: on_trigger_def)
        qed
      qed
    next
      case (CardDecided subj q)
      with assms show ?thesis by (auto simp: on_decided_def stop_said_def)
    qed
  qed
  then show "user_inv p facts st v" "(if su_fired v then 1 else 0) = (if su_fired u then 1 else 0) + stop_said r"
    "r = Some y \<Longrightarrow> reply_ok p facts st y" by blast+
qed

lemma user_run_inv:
  "user_inv p facts st u \<Longrightarrow> user_run u xs = Inr (w, rs) \<Longrightarrow>
     user_inv p facts st w \<and>
     (if su_fired w then 1 else 0) = (if su_fired u then 1 else 0) + length (filter (\<lambda>y. sr_stop y \<noteq> None) rs) \<and>
     (\<forall>y \<in> set rs. reply_ok p facts st y)"
proof (induction xs arbitrary: u rs)
  case Nil
  then show ?case by simp
next
  case (Cons x xs)
  then obtain v r rs' where s: "user_step u x = Inr (v, r)" "user_run v xs = Inr (w, rs')"
      "rs = (case r of None \<Rightarrow> rs' | Some y \<Rightarrow> y # rs')"
    by (auto simp: and_then_eq_Inr)
  note * = user_step_inv [OF Cons.prems(1) s(1)]
  show ?case using Cons.IH [OF *(1) s(2)] *(2,3) s(3)
    by (cases r) (auto simp: stop_said_def split: if_splits)
qed

section \<open>The guarantees\<close>

text \<open>C30. In every conversation, whatever the model answers and in whatever order messages, triggers and card decisions
  come, the scripted stop is said at most once, and exactly when it has fired.\<close>
theorem stop_said_once:
  assumes "user_run (new_user p facts st) ops = Inr (u, rs)"
  shows "length (filter (\<lambda>r. sr_stop r \<noteq> None) rs) = (if su_fired u then 1 else 0)"
  using user_run_inv [OF new_user_inv assms] by (simp add: new_user_def split: if_splits)

text \<open>Once a plain stop has been said, the approval button denies every card and every mandate it is asked about,
  as stopped, whatever their terms.\<close>
theorem nothing_granted_after_stop:
  assumes "user_run (new_user (Some q) facts (Some s)) ops = Inr (u, rs)" "su_fired u" "us_change s = None"
    and "su_approver u = Some a"
    and "decide_card read_int a c off = Inr (p, why) \<or> decide_mandate_limits read_int a m = Inr (p, why)"
  shows "ap_decision p = Denied \<and> ''stopped'' \<in> set why"
proof -
  have "apr_stopped a"
    using user_run_inv [OF new_user_inv assms(1)] assms(2,3,4) by (auto simp: user_inv_def plain_stop_def)
  then have "ap_decision p = Denied \<and> ''stopped'' \<in> set why" if "post_of a subj i h e reasons = (p, why)" for subj i h e reasons
    using that by (auto simp: post_of_def Let_def)
  then show ?thesis
    using assms(5) unfolding decide_card_def decide_mandate_limits_def Let_def
    by (auto simp: and_then_eq_Inr split: if_splits)
qed

text \<open>Everything a reply of the simulated user reveals is said verbatim in its text and is a fact the user holds: a
  profile fact or one the stop changed; a plain stop says a stop cue and a mind change says every changed fact.\<close>
theorem replies_say_what_they_reveal:
  assumes "user_run (new_user (Some q) facts st) ops = Inr (u, rs)" "r \<in> set rs"
  shows "(\<forall>(k, v) \<in> set (sr_revealed r). contains v (sr_text r) \<and>
           (dget facts k = Some v \<or> dget (put_all facts (change_of st)) k = Some v)) \<and>
         (plain_stop (sr_stop r) \<longrightarrow> says_stop (sr_text r)) \<and>
         (\<forall>k \<in> set (dkeys (change_of (sr_stop r))). \<exists>v. dget (put_all facts (change_of st)) k = Some v \<and>
           contains v (sr_text r))"
proof -
  have "reply_ok (Some q) facts st r" using user_run_inv [OF new_user_inv assms(1)] assms(2) by blast
  then obtain fired where f: "sr_stop r \<noteq> None \<longrightarrow> fired" "good_reply (facts_now (Some q) facts st fired) r"
    by (auto simp: reply_ok_def)
  then have held: "\<forall>(k, v) \<in> set (sr_revealed r). dget (facts_now (Some q) facts st fired) k = Some v \<and> contains v (sr_text r)"
    by (simp add: good_reply_def)
  have "\<exists>v. dget (put_all facts (change_of st)) k = Some v \<and> contains v (sr_text r)"
    if k: "k \<in> set (dkeys (change_of (sr_stop r)))" for k
  proof -
    from k have fired using f(1) by (auto simp: change_of_def split: option.splits)
    moreover obtain v where "(k, v) \<in> set (sr_revealed r)" using k f(2) by (auto simp: good_reply_def)
    ultimately show ?thesis using held by (auto simp: facts_now_def)
  qed
  then show ?thesis using held f(2) by (auto simp: facts_now_def good_reply_def split: if_splits)
qed

section \<open>At concrete inputs\<close>

definition shown_slot :: "string \<Rightarrow> string \<Rightarrow> slot_unit \<Rightarrow> readback_slot" where
  "shown_slot f v u = \<lparr>rs_field = f, rs_value = v, rs_unit = u, rs_role = Recurring, rs_source_utt = None,
     rs_span = None, rs_status = SlotConfirmed\<rparr>"

definition shown_offer :: offer_public where
  "shown_offer = \<lparr>o_ref = ''o1'', o_revision = 1,
     o_slots = [shown_slot ''monthly_price'' ''5000'' UsdMinor, shown_slot ''term_months'' ''12'' Months,
       shown_slot ''expires'' ''none'' Months, shown_slot ''fee:setup'' ''900'' UsdMinor,
       shown_slot ''changes_none'' ''true'' Months],
     o_status = OfferOpen, o_expires_ms = None, o_terms_hash = None\<rparr>"

definition shown_card :: approval_card where
  "shown_card =
     \<lparr>card_id = ''a1'', card_offer_ref = ''o1'', card_revision = 1, card_terms_hash = ''h'',
      card_readback_text = ''at 50 a month'', card_epoch = 0, card_expires_ms = 9000,
      card_binding = \<lparr>b_offer_ref = ''o1'', b_revision = 1, b_account_ref = [],
        b_principal_ref = [], b_purpose = [], b_authority_epoch = 0\<rparr>\<rparr>"

definition some_principal :: principal where
  "some_principal = \<lparr>pr_envelope = [(BoundPrice, ''budget'')],
     pr_limits = Some \<lparr>li_price = Some ''60.00'', li_months = Some 12, li_fees = None\<rparr>, pr_delay_from_ms = 3000\<rparr>"

definition some_facts :: "(string, string) dict" where
  "some_facts = [(''budget'', ''55''), (''name'', ''Ann'')]"

abbreviation some_button :: "bool \<Rightarrow> approver_state" where
  "some_button b \<equiv> \<lparr>apr_principal = some_principal, apr_facts = some_facts, apr_changed = False, apr_stopped = b\<rparr>"

lemma card_shown: "decide_card (\<lambda>_. None) (some_button b) shown_card shown_offer =
   Inr (post_of (some_button b) ApprovalSubject ''a1'' ''h'' 0 [])"
  by (cases b) code_simp+

theorem card_granted_exactly_witness: "\<not> apr_stopped (some_button False) \<and> within_terms (\<lambda>_. None) (some_button False) shown_offer"
proof -
  let ?p = "fst (post_of (some_button False) ApprovalSubject ''a1'' ''h'' 0 [])"
  have "decide_card (\<lambda>_. None) (some_button False) shown_card shown_offer =
      Inr (?p, snd (post_of (some_button False) ApprovalSubject ''a1'' ''h'' 0 []))"
    using card_shown [of False] by simp
  from card_granted_exactly [OF this] show ?thesis by (simp add: post_of_def)
qed

definition plain_stop_spec :: user_stop where
  "plain_stop_spec = \<lparr>us_trigger = AfterCard, us_change = None\<rparr>"

definition stop_answer :: sim_out where
  "stop_answer = \<lparr>so_silent = False, so_text = Some ''Stop it, I am Ann.'', so_revealed = [(''name'', ''Ann'')]\<rparr>"

definition some_talk :: "user_op list" where
  "some_talk = [AgentSays None (\<lambda>_. Some (stop_answer\<lparr>so_text := Some ''Hi'', so_revealed := []\<rparr>)),
     Triggered AfterCard (\<lambda>n. if n = 0 then None else Some stop_answer), Triggered AfterCard (\<lambda>_. None)]"

definition stop_reply :: sim_reply where
  "stop_reply = \<lparr>sr_text = ''Stop it, I am Ann.'', sr_revealed = [(''name'', ''Ann'')], sr_attempts = 2,
     sr_stop = Some plain_stop_spec\<rparr>"

definition stopped_user :: sim_user where
  "stopped_user = \<lparr>su_approver = Some (some_button True), su_profile = some_facts, su_stop = Some plain_stop_spec,
     su_fired = True, su_turns = 0, su_chat = [''You: Hi'', ''You: Stop it, I am Ann.'']\<rparr>"

lemma stop_answer_passes: "check_reply (Some stop_answer) some_facts False (Some plain_stop_spec) = Inr stop_answer"
  by code_simp

lemma some_talk_runs:
  "user_run (new_user (Some some_principal) some_facts (Some plain_stop_spec)) some_talk =
     Inr (stopped_user, [\<lparr>sr_text = ''Hi'', sr_revealed = [], sr_attempts = 1, sr_stop = None\<rparr>, stop_reply])"
  by code_simp

theorem stop_said_once_witness: "length (filter (\<lambda>r. sr_stop r \<noteq> None) [stop_reply]) = 1"
  using stop_said_once [OF some_talk_runs] by (simp add: stopped_user_def stop_reply_def)

theorem nothing_granted_after_stop_witness:
  "ap_decision (fst (post_of (some_button True) ApprovalSubject ''a1'' ''h'' 0 [])) = Denied"
proof -
  let ?p = "post_of (some_button True) ApprovalSubject ''a1'' ''h'' 0 []"
  have "decide_card (\<lambda>_. None) (some_button True) shown_card shown_offer = Inr (fst ?p, snd ?p) \<or>
      decide_mandate_limits (\<lambda>_. None) (some_button True) undefined = Inr (fst ?p, snd ?p)"
    using card_shown [of True] by simp
  from nothing_granted_after_stop [OF some_talk_runs _ _ _ this] show ?thesis
    by (simp add: stopped_user_def plain_stop_spec_def)
qed

theorem replies_say_what_they_reveal_witness: "says_stop ''Stop it, I am Ann.'' \<and> contains ''Ann'' ''Stop it, I am Ann.''"
  using replies_say_what_they_reveal [OF some_talk_runs, of stop_reply]
  by (simp add: stop_reply_def plain_stop_def plain_stop_spec_def)

text \<open>A task may be valid although the value its mind change gives an envelope fact is no limit: from then on the
  button raises on every shown card instead of deciding it.\<close>

lemma mind_change_may_break_the_button:
  "principal_checks (\<lambda>_. None) True (Some some_principal) some_facts
       (Some \<lparr>us_trigger = AfterTurn 1, us_change = Some [(''budget'', ''about 50'')]\<rparr>) False \<and>
   decide_card (\<lambda>_. None) (approver_stop (some_button False) (Some [(''budget'', ''about 50'')])) shown_card shown_offer =
     Inl (ValidationError ''Limits'')"
  by code_simp

end
