(* ===== verification/Speaker.thy ===== *)
theory Speaker
  imports Kernel_Fence Regex
begin

text \<open>
  \<open>kernel/speaker.py\<close>: the floor of one lane. The parts between two suspensions of a coroutine are atomic, so
  a floor is a transition system whose steps are those parts: a guard line queues, takes the free floor and is
  checked there, waits for partner fences, speaks; Fast takes the floor; the partner begins and ends a turn; the
  kernel's board, fences and clock move. The order in which waiting coroutines run is left open. What a barge-in
  lets the partner hear is an input, as a count of words (\<open>int(seconds * WORDS_PER_S)\<close> on floats).
\<close>

section \<open>The speech clock\<close>

text \<open>\<open>round(1000 * min(12, words / 2.8))\<close>: 2500/7 thousandths a word; a seventh is never a tie.\<close>

(* kernel/speaker.py 55-56 speech_s *)
definition speech_ms :: "string \<Rightarrow> int" where
  "speech_ms t = min 12000 ((5000 * int (length (words t)) + 7) div 14)"

definition SPOKEN_WORD_RX :: rx where
  "SPOKEN_WORD_RX = rplus (RChar (\<lambda>c. \<not> is_space c))"

(* kernel/speaker.py 49-52 heard_prefix *)
definition heard_prefix :: "string \<Rightarrow> nat \<Rightarrow> string" where
  "heard_prefix t k =
     (let ws = finditer SPOKEN_WORD_RX t; n = min (length ws) k in
      if n = 0 then [] else take (rm_end (ws ! (n - 1))) t)"

text \<open>What is heard of a line: \<open>barged\<close> is the barge-in flag as the line begins, \<open>broke\<close> the words heard when
  one comes while it is spoken.\<close>

(* kernel/speaker.py 243-259 Speaker._clock *)
definition clock_heard :: "bool \<Rightarrow> bool \<Rightarrow> nat option \<Rightarrow> string \<Rightarrow> string" where
  "clock_heard interruptible barged broke t =
     (if \<not> interruptible then t else if barged then []
      else case broke of None \<Rightarrow> t | Some k \<Rightarrow> heard_prefix t k)"

record delivered_line =
  dl_utt :: string
  dl_text :: string
  dl_heard :: string
  dl_cut :: bool

text \<open>The lines of one turn, each with what happens while it is spoken: a broke, and the call's end before it. The
  user lane is not realtime: all is heard.\<close>

(* kernel/speaker.py 194-217 Speaker._deliver *)
fun deliver_lines ::
  "bool \<Rightarrow> bool \<Rightarrow> bool \<Rightarrow> ((string \<times> string) \<times> nat option \<times> bool) list \<Rightarrow> delivered_line list"
where
  "deliver_lines realtime interruptible barged [] = []"
| "deliver_lines realtime interruptible barged (((utt, t), broke, closed) # ls) =
     (if realtime \<and> closed then []
      else
        let h = (if realtime then clock_heard interruptible barged broke t else t);
            d = \<lparr>dl_utt = utt, dl_text = t, dl_heard = h, dl_cut = (h \<noteq> t)\<rparr>
        in if h \<noteq> t then [d] else d # deliver_lines realtime interruptible (barged \<or> broke \<noteq> None) ls)"

text \<open>The partner is handed the turn only if a word of it was heard.\<close>

(* kernel/speaker.py 219-224 Speaker._send *)
definition sent_to_partner :: "delivered_line list \<Rightarrow> bool" where
  "sent_to_partner ds \<longleftrightarrow> list_ex (\<lambda>d. dl_heard d \<noteq> []) ds"

section \<open>The check on the floor\<close>

text \<open>What the speaker reads of the kernel; \<open>fe_moves\<close> counts the moves of \<open>Authority\<close>, which wake its waiters.\<close>

record floor_env =
  fe_now :: int
  fe_closed :: bool
  fe_bb :: blackboard
  fe_au :: kernel_authority
  fe_moves :: nat

text \<open>A line of Guard: an accept names its capability.\<close>

record guard_line =
  gl_kind :: string
  gl_text :: string
  gl_cap :: "string option"

datatype verdict = Refused string | Passed | Waits int nat

definition expiry_of :: "blackboard \<Rightarrow> string \<Rightarrow> int" where
  "expiry_of bb c = (case dget (bb_capabilities bb) c of None \<Rightarrow> 0 | Some k \<Rightarrow> cap_expires_ms k)"

(* kernel/speaker.py 132-135 Speaker._floor_revalidated *)
definition why_not :: "floor_env \<Rightarrow> guard_line \<Rightarrow> string option" where
  "why_not e l =
     (if fe_closed e then Some ''call_closed''
      else case gl_cap l of None \<Rightarrow> None
        | Some c \<Rightarrow> revalidate (fe_bb e) c (fe_now e + speech_ms (gl_text l)))"

text \<open>\<open>users\<close>: the user fences raised when the line first waited. \<open>Waits\<close> holds when the wait times out and
  that count.\<close>

(* kernel/speaker.py 133-147 Speaker._floor_revalidated *)
definition floor_check :: "floor_env \<Rightarrow> nat option \<Rightarrow> guard_line \<Rightarrow> verdict" where
  "floor_check e users l =
     (let why = why_not e l; rose = users \<notin> {None, Some (au_user_fences (fe_au e))} in
      if why \<in> {None, Some ''fence''} \<and> rose then Refused ''fence''
      else case (why, gl_cap l) of
        (None, _) \<Rightarrow> Passed
      | (Some w, None) \<Rightarrow> Refused w
      | (Some w, Some c) \<Rightarrow>
          if w \<noteq> ''fence'' \<or> \<not> partner_only (fe_au e) then Refused w
          else if expiry_of (fe_bb e) c \<le> fe_now e + speech_ms (gl_text l) then Refused ''expired''
          else Waits (expiry_of (fe_bb e) c - speech_ms (gl_text l))
                 (case users of None \<Rightarrow> au_user_fences (fe_au e) | Some n \<Rightarrow> n))"

section \<open>The floor\<close>

text \<open>A waiting line tries for the floor again and again, without effect, due it has it with no partner turn
  pending, so \<open>Queued\<close> is one stage: with the user fences of its first wait, and whether it is counted a second
  time over a fence wait.\<close>

datatype line_stage =
    Queued "nat option" bool
  | FenceWait nat bool int nat
  | Speaking
  | Ended

datatype floor_owner = FastTurn | GuardLine nat

datatype floor_event =
    Waited nat floor_env
  | Released nat floor_env
  | Revoked nat string
  | Heard nat bool

(* kernel/speaker.py 60-70 Speaker.__init__ *)
record floor_state =
  fl_env :: floor_env
  fl_lock :: "floor_owner option"
  fl_queued :: nat
  fl_partner :: nat
  fl_busy :: bool
  fl_incoming :: nat
  fl_lines :: "(guard_line \<times> line_stage) list"
  fl_log :: "floor_event list"

definition new_floor :: "floor_env \<Rightarrow> floor_state" where
  "new_floor e = \<lparr>fl_env = e, fl_lock = None, fl_queued = 0, fl_partner = 0, fl_busy = False, fl_incoming = 0,
     fl_lines = [], fl_log = []\<rparr>"

(* kernel/speaker.py 171-173 Speaker._partner_pending *)
definition partner_pending :: "floor_state \<Rightarrow> bool" where
  "partner_pending f \<longleftrightarrow> 0 < fl_partner f \<or> fl_busy f \<or> fl_incoming f \<noteq> 0"

definition set_stage :: "nat \<Rightarrow> line_stage \<Rightarrow> floor_state \<Rightarrow> floor_state" where
  "set_stage i s f = f\<lparr>fl_lines := (fl_lines f)[i := (fst (fl_lines f ! i), s)]\<rparr>"

definition counted :: "bool \<Rightarrow> nat" where
  "counted b = (if b then 1 else 0)"

text \<open>The line has the floor and no partner turn is pending: it leaves the queue and is checked. Only a line that
  passes keeps the floor.\<close>

(* kernel/speaker.py 119-151 Speaker._floor_revalidated *)
definition take_floor :: "nat \<Rightarrow> nat option \<Rightarrow> bool \<Rightarrow> floor_state \<Rightarrow> floor_state" where
  "take_floor i users held f =
     (let g = f\<lparr>fl_queued := fl_queued f - 1 - counted held\<rparr> in
      case floor_check (fl_env f) users (fst (fl_lines f ! i)) of
        Refused w \<Rightarrow> set_stage i Ended (g\<lparr>fl_log := fl_log f @ [Revoked i w]\<rparr>)
      | Passed \<Rightarrow> set_stage i Speaking
          (g\<lparr>fl_lock := Some (GuardLine i), fl_log := fl_log f @ [Released i (fl_env f)]\<rparr>)
      | Waits due n \<Rightarrow>
          (let b = partner_bound (fe_au (fl_env f)) in
           set_stage i (FenceWait n b due (fe_moves (fl_env f)))
             (g\<lparr>fl_queued := fl_queued g + counted b, fl_log := fl_log f @ [Waited i (fl_env f)]\<rparr>)))"

(* kernel/speaker.py 187-190 Speaker._floor_after_partner *)
definition has_floor :: "floor_state \<Rightarrow> bool" where
  "has_floor f \<longleftrightarrow> fl_lock f = None \<and> \<not> partner_pending f"

(* kernel/speaker.py 179-179 Speaker._floor_after_partner *)
definition queues :: "guard_line \<Rightarrow> floor_state \<Rightarrow> floor_state" where
  "queues l f = f\<lparr>fl_lines := fl_lines f @ [(l, Queued None False)], fl_queued := fl_queued f + 1\<rparr>"

text \<open>A waiter wakes at the first of the authority's next move and its time.\<close>

(* kernel/speaker.py 148-148 Speaker._floor_revalidated *)
definition may_wake :: "floor_env \<Rightarrow> int \<Rightarrow> nat \<Rightarrow> bool" where
  "may_wake e due moves \<longleftrightarrow> moves < fe_moves e \<or> due \<le> fe_now e"

text \<open>Fast starts no turn while a guard line waits for the floor; a turn no longer fresh gives it back at once.\<close>

(* kernel/speaker.py 78-83 Speaker.speak *)
definition fast_may_take :: "floor_state \<Rightarrow> bool" where
  "fast_may_take f \<longleftrightarrow> fl_lock f = None \<and> fl_queued f = 0"

text \<open>A partner turn lands only after it had the floor free, which is not needed below.\<close>

(* kernel/speaker.py 232-232 Speaker.partner_turn *)
definition partner_begun :: "floor_state \<Rightarrow> floor_state" where
  "partner_begun f = f\<lparr>fl_partner := fl_partner f + 1\<rparr>"

(* kernel/speaker.py 241-241 Speaker.partner_turn *)
definition partner_landed :: "floor_state \<Rightarrow> floor_state" where
  "partner_landed f = f\<lparr>fl_partner := fl_partner f - 1\<rparr>"

text \<open>Time, counts and the call's end only go forward.\<close>

definition env_later :: "floor_env \<Rightarrow> floor_env \<Rightarrow> bool" where
  "env_later e d \<longleftrightarrow>
     fe_now e \<le> fe_now d \<and> (fe_closed e \<longrightarrow> fe_closed d) \<and> fe_moves e \<le> fe_moves d \<and>
     au_user_fences (fe_au e) \<le> au_user_fences (fe_au d)"

definition line_at :: "floor_state \<Rightarrow> nat \<Rightarrow> line_stage \<Rightarrow> bool" where
  "line_at f i s \<longleftrightarrow> i < length (fl_lines f) \<and> snd (fl_lines f ! i) = s"

inductive floor_step :: "floor_state \<Rightarrow> floor_state \<Rightarrow> bool" where
  arrive: "floor_step f (queues l f)"
| take: "line_at f i (Queued users held) \<Longrightarrow> has_floor f \<Longrightarrow> floor_step f (take_floor i users held f)"
| wake: "line_at f i (FenceWait n held due moves) \<Longrightarrow> may_wake (fl_env f) due moves \<Longrightarrow>
     floor_step f (set_stage i (Queued (Some n) held) (f\<lparr>fl_queued := fl_queued f + 1\<rparr>))"
| spoken: "line_at f i Speaking \<Longrightarrow> fl_lock f = Some (GuardLine i) \<Longrightarrow>
     floor_step f (set_stage i Ended (f\<lparr>fl_lock := None, fl_log := fl_log f @ [Heard i broke]\<rparr>))"
| fast_take: "fast_may_take f \<Longrightarrow> floor_step f (f\<lparr>fl_lock := Some FastTurn\<rparr>)"
| fast_ends: "fl_lock f = Some FastTurn \<Longrightarrow> floor_step f (f\<lparr>fl_lock := None\<rparr>)"
| partner_begins: "floor_step f (partner_begun f)"
| partner_lands: "0 < fl_partner f \<Longrightarrow> floor_step f (partner_landed f)"
| channel: "floor_step f (f\<lparr>fl_busy := b, fl_incoming := n\<rparr>)"
| kernel_moves: "env_later (fl_env f) e \<Longrightarrow> floor_step f (f\<lparr>fl_env := e\<rparr>)"

inductive floor_reach :: "floor_env \<Rightarrow> floor_state \<Rightarrow> bool" for e where
  start: "floor_reach e (new_floor e)"
| step: "floor_reach e f \<Longrightarrow> floor_step f g \<Longrightarrow> floor_reach e g"

section \<open>What a line leaves on the log\<close>

(* kernel/speaker.py 100-108 Speaker.verbatim *)
definition line_payload :: "string \<Rightarrow> guard_line \<Rightarrow> floor_event \<Rightarrow> payload option" where
  "line_payload ln l ev = (case ev of
      Released _ _ \<Rightarrow> Some (PReleased ln (gl_cap l))
    | Revoked _ w \<Rightarrow> Some (PRevoked w (gl_cap l))
    | _ \<Rightarrow> None)"

text \<open>The move of the case's status that follows: for an accept only.\<close>

(* kernel/speaker.py 103-114 Speaker.verbatim *)
definition line_trigger :: "guard_line \<Rightarrow> floor_event \<Rightarrow> string option" where
  "line_trigger l ev =
     (if gl_kind l \<noteq> ''accept'' then None
      else case ev of
        Revoked _ _ \<Rightarrow> Some ''accept_revoked''
      | Heard _ broke \<Rightarrow> Some (if broke then ''accept_truncated'' else ''accept_heard'')
      | _ \<Rightarrow> None)"

end
