(* ===== verification/Speaker_Facts.thy ===== *)
theory Speaker_Facts
  imports Speaker "HOL-Library.Sublist"
begin

text \<open>
  What the floor guarantees, by induction over its reachable states: the queue count is that of the waiting lines,
  the floor has one owner, a line ends once, and what held when it was released.
\<close>

section \<open>The check\<close>

lemma floor_check_Passed:
  "floor_check e users l = Passed \<Longrightarrow> why_not e l = None \<and> users \<in> {None, Some (au_user_fences (fe_au e))}"
  by (auto simp: floor_check_def Let_def split: option.splits if_splits)

lemma floor_check_Waits:
  "floor_check e users l = Waits due n \<Longrightarrow>
     n = au_user_fences (fe_au e) \<and> users \<in> {None, Some n} \<and> fe_now e < due \<and> partner_only (fe_au e) \<and>
     why_not e l = Some ''fence''"
  by (auto simp: floor_check_def Let_def split: option.splits if_splits)

text \<open>A line that can no longer end before its capability expires does not wait.\<close>

lemma late_line_ends:
  "gl_cap l = Some c \<Longrightarrow> expiry_of (fe_bb e) c \<le> fe_now e + speech_ms (gl_text l) \<Longrightarrow>
     floor_check e users l \<noteq> Waits due n"
  by (auto simp: floor_check_def Let_def split: option.splits if_splits)

lemma capless_line_ends: "gl_cap l = None \<Longrightarrow> floor_check e users l \<noteq> Waits due n"
  by (auto simp: floor_check_def Let_def split: option.splits if_splits)

section \<open>The invariant\<close>

fun weight :: "line_stage \<Rightarrow> nat" where
  "weight (Queued _ b) = 1 + counted b"
| "weight (FenceWait _ b _ _) = counted b"
| "weight _ = 0"

definition queue_weight :: "(guard_line \<times> line_stage) list \<Rightarrow> nat" where
  "queue_weight ls = sum_list (map (\<lambda>x. weight (snd x)) ls)"

fun ends_line :: "nat \<Rightarrow> floor_event \<Rightarrow> bool" where
  "ends_line i (Released j _) = (j = i)"
| "ends_line i (Revoked j _) = (j = i)"
| "ends_line i _ = False"

definition line_ends :: "floor_event list \<Rightarrow> nat \<Rightarrow> nat" where
  "line_ends es i = length (filter (ends_line i) es)"

definition past_check :: "(guard_line \<times> line_stage) list \<Rightarrow> nat \<Rightarrow> bool" where
  "past_check ls i \<longleftrightarrow> i < length ls \<and> snd (ls ! i) \<in> {Speaking, Ended}"

fun first_users :: "line_stage \<Rightarrow> nat option" where
  "first_users (Queued u _) = u"
| "first_users (FenceWait n _ _ _) = Some n"
| "first_users _ = None"

text \<open>Every wait of a line found the user fences of its first one.\<close>

definition waits_agree :: "(guard_line \<times> line_stage) list \<Rightarrow> floor_event list \<Rightarrow> bool" where
  "waits_agree ls es \<longleftrightarrow> (\<forall>i e. Waited i e \<in> set es \<longrightarrow>
     i < length ls \<and> (snd (ls ! i) \<in> {Speaking, Ended} \<or> first_users (snd (ls ! i)) = Some (au_user_fences (fe_au e))))"

definition floor_inv :: "floor_state \<Rightarrow> bool" where
  "floor_inv f \<longleftrightarrow>
     fl_queued f = queue_weight (fl_lines f) \<and>
     (\<forall>i. line_at f i Speaking \<longleftrightarrow> fl_lock f = Some (GuardLine i)) \<and>
     (\<forall>i. line_ends (fl_log f) i = (if past_check (fl_lines f) i then 1 else 0)) \<and>
     waits_agree (fl_lines f) (fl_log f)"

lemma queue_weight_update:
  "i < length ls \<Longrightarrow> queue_weight (ls[i := (x, s)]) + weight (snd (ls ! i)) = queue_weight ls + weight s"
  unfolding queue_weight_def
  by (induction ls arbitrary: i) (auto simp: less_Suc_eq_0_disj nth_Cons' split: nat.splits)

lemma queue_weight_mem: "i < length ls \<Longrightarrow> weight (snd (ls ! i)) \<le> queue_weight ls"
  unfolding queue_weight_def by (induction ls arbitrary: i) (auto simp: less_Suc_eq_0_disj intro: trans_le_add2)

lemma queue_weight_snoc [simp]: "queue_weight (ls @ [x]) = queue_weight ls + weight (snd x)"
  by (simp add: queue_weight_def)

lemma set_stage_simps [simp]:
  "fl_env (set_stage i s f) = fl_env f" "fl_lock (set_stage i s f) = fl_lock f"
  "fl_queued (set_stage i s f) = fl_queued f" "fl_log (set_stage i s f) = fl_log f"
  "fl_lines (set_stage i s f) = (fl_lines f)[i := (fst (fl_lines f ! i), s)]"
  by (simp_all add: set_stage_def)

lemma line_ends_snoc [simp]: "line_ends (es @ [e]) i = line_ends es i + (if ends_line i e then 1 else 0)"
  by (simp add: line_ends_def)

lemma past_check_update:
  "i < length ls \<Longrightarrow> past_check (ls[i := (x, s)]) j = (if j = i then s \<in> {Speaking, Ended} else past_check ls j)"
  by (auto simp: past_check_def nth_list_update)

lemma past_check_snoc [simp]: "past_check (ls @ [(l, Queued u b)]) j = past_check ls j"
  by (auto simp: past_check_def nth_append)

lemma waits_agreeD:
  "waits_agree ls es \<Longrightarrow> Waited i e \<in> set es \<Longrightarrow>
     i < length ls \<and> (snd (ls ! i) \<in> {Speaking, Ended} \<or> first_users (snd (ls ! i)) = Some (au_user_fences (fe_au e)))"
  unfolding waits_agree_def by blast

lemma waits_agree_update:
  assumes "waits_agree ls es" "i < length ls" "s \<in> {Speaking, Ended} \<or> first_users s = first_users (snd (ls ! i))"
    and "snd (ls ! i) \<in> {Speaking, Ended} \<longrightarrow> s \<in> {Speaking, Ended}"
  shows "waits_agree (ls[i := (x, s)]) es"
  unfolding waits_agree_def
proof (intro allI impI)
  fix j e
  assume "Waited j e \<in> set es"
  from waits_agreeD [OF assms(1) this] assms(2-4)
  show "j < length (ls[i := (x, s)]) \<and> (snd (ls[i := (x, s)] ! j) \<in> {Speaking, Ended} \<or>
      first_users (snd (ls[i := (x, s)] ! j)) = Some (au_user_fences (fe_au e)))"
    by (cases "j = i") auto
qed

lemma waits_agree_snoc: "waits_agree ls es \<Longrightarrow> waits_agree (ls @ [l]) es"
  unfolding waits_agree_def by (simp add: nth_append less_SucI)

lemma waits_agree_log: "waits_agree ls es \<Longrightarrow> (\<And>i d. e \<noteq> Waited i d) \<Longrightarrow> waits_agree ls (es @ [e])"
  unfolding waits_agree_def by auto

lemma new_floor_inv: "floor_inv (new_floor e)"
  by (simp add: floor_inv_def new_floor_def queue_weight_def line_at_def line_ends_def past_check_def waits_agree_def)

text \<open>Leaving the queue for another stage.\<close>

lemma take_floor_inv:
  assumes "floor_inv f" "line_at f i (Queued users held)" "has_floor f"
  shows "floor_inv (take_floor i users held f)"
proof -
  let ?ls = "fl_lines f" and ?l = "fst (fl_lines f ! i)"
  from assms have i: "i < length ?ls" "snd (?ls ! i) = Queued users held" and lock: "fl_lock f = None"
    by (auto simp: line_at_def has_floor_def)
  have q: "fl_queued f = queue_weight ?ls"
    and own: "\<And>j. line_at f j Speaking \<longleftrightarrow> fl_lock f = Some (GuardLine j)"
    and outs: "\<And>j. line_ends (fl_log f) j = (if past_check ?ls j then 1 else 0)"
    and w: "waits_agree ?ls (fl_log f)"
    using assms(1) by (auto simp: floor_inv_def)
  have none: "\<not> line_at f j Speaking" for j using own lock by simp
  have wt: "queue_weight (?ls[i := (?l, s)]) + (1 + counted held) = queue_weight ?ls + weight s" for s
    using queue_weight_update [OF i(1), of ?l s] i(2) by simp
  have past: "\<not> past_check ?ls i" using i by (simp add: past_check_def)
  have at: "line_at (set_stage i s g) j t = (if j = i then s = t else line_at f j t)" if "fl_lines g = ?ls" for s g j t
    using i(1) that by (auto simp: line_at_def nth_list_update)
  show ?thesis
  proof (cases "floor_check (fl_env f) users ?l")
    case (Refused why)
    have "waits_agree (?ls[i := (?l, Ended)]) (fl_log f @ [Revoked i why])"
      by (intro waits_agree_log waits_agree_update w i(1)) (auto simp: i)
    with Refused show ?thesis
      using wt [of Ended] q none lock outs past i(1)
      unfolding take_floor_def floor_inv_def Let_def
      by (auto simp: at past_check_update)
  next
    case Passed
    have "waits_agree (?ls[i := (?l, Speaking)]) (fl_log f @ [Released i (fl_env f)])"
      by (intro waits_agree_log waits_agree_update w i(1)) (auto simp: i)
    with Passed show ?thesis
      using wt [of Speaking] q none lock outs past i(1)
      unfolding take_floor_def floor_inv_def Let_def
      by (auto simp: at past_check_update)
  next
    case (Waits due n)
    define b where "b = partner_bound (fe_au (fl_env f))"
    define s where "s = FenceWait n b due (fe_moves (fl_env f))"
    note n = floor_check_Waits [OF Waits]
    have "waits_agree (?ls[i := (?l, s)]) (fl_log f @ [Waited i (fl_env f)])"
      using waits_agreeD [OF w] n i unfolding waits_agree_def s_def
      by (fastforce simp: nth_list_update)
    moreover have "fl_queued f - 1 - counted held + counted b = queue_weight (?ls[i := (?l, s)])"
      using wt [of s] q queue_weight_mem [OF i(1)] i(2) by (simp add: s_def)
    moreover have "line_ends (fl_log f @ [Waited i (fl_env f)]) j = (if past_check (?ls[i := (?l, s)]) j then 1 else 0)" for j
      using outs past i(1) by (auto simp: past_check_update s_def)
    ultimately show ?thesis
      using Waits none lock unfolding take_floor_def floor_inv_def Let_def b_def [symmetric]
      by (auto simp: at s_def)
  qed
qed

lemma floor_step_inv: "floor_step f g \<Longrightarrow> floor_inv f \<Longrightarrow> floor_inv g"
proof (induction rule: floor_step.induct)
  case (arrive f l)
  then have "line_at (queues l f) j Speaking = line_at f j Speaking" for j
    by (auto simp: line_at_def queues_def nth_append)
  with arrive show ?case
    unfolding floor_inv_def by (auto simp: queues_def counted_def intro: waits_agree_snoc)
next
  case (take f i users held)
  then show ?case by (intro take_floor_inv)
next
  case (wake f i n held due moves)
  then have i: "i < length (fl_lines f)" "snd (fl_lines f ! i) = FenceWait n held due moves" by (auto simp: line_at_def)
  let ?s = "Queued (Some n) held"
  have "line_at (set_stage i ?s (f\<lparr>fl_queued := fl_queued f + 1\<rparr>)) j Speaking = line_at f j Speaking" for j
    using i by (auto simp: line_at_def nth_list_update)
  moreover have "waits_agree ((fl_lines f)[i := (fst (fl_lines f ! i), ?s)]) (fl_log f)"
    using wake.prems i by (intro waits_agree_update) (auto simp: floor_inv_def)
  moreover have "past_check ((fl_lines f)[i := (fst (fl_lines f ! i), ?s)]) j = past_check (fl_lines f) j" for j
    using i by (auto simp: past_check_update) (auto simp: past_check_def)
  ultimately show ?case
    using wake.prems queue_weight_update [OF i(1), of "fst (fl_lines f ! i)" ?s] i
    unfolding floor_inv_def by auto
next
  case (spoken f i broke)
  then have i: "i < length (fl_lines f)" "snd (fl_lines f ! i) = Speaking" by (auto simp: line_at_def)
  let ?g = "set_stage i Ended (f\<lparr>fl_lock := None, fl_log := fl_log f @ [Heard i broke]\<rparr>)"
  have "\<not> line_at ?g j Speaking" for j
    using spoken.prems spoken.hyps(2) i(1) by (auto simp: floor_inv_def line_at_def nth_list_update split: if_splits)
  moreover have "waits_agree ((fl_lines f)[i := (fst (fl_lines f ! i), Ended)]) (fl_log f @ [Heard i broke])"
    using spoken.prems i by (intro waits_agree_log waits_agree_update) (auto simp: floor_inv_def)
  moreover have "past_check ((fl_lines f)[i := (fst (fl_lines f ! i), Ended)]) j = past_check (fl_lines f) j" for j
    using i by (auto simp: past_check_update) (auto simp: past_check_def)
  ultimately show ?case
    using spoken.prems queue_weight_update [OF i(1), of "fst (fl_lines f ! i)" Ended] i
    unfolding floor_inv_def by auto
qed (auto simp: floor_inv_def line_at_def fast_may_take_def partner_begun_def partner_landed_def)

lemma floor_reach_inv: "floor_reach e f \<Longrightarrow> floor_inv f"
  by (induction rule: floor_reach.induct) (auto intro: new_floor_inv floor_step_inv)

section \<open>What is heard\<close>

lemma clock_heard_prefix: "prefix (clock_heard i b k t) t"
  by (cases k) (auto simp: clock_heard_def heard_prefix_def Let_def take_is_prefix)

lemma deliver_lines_heard:
  "d \<in> set (deliver_lines r i b ls) \<Longrightarrow>
     prefix (dl_heard d) (dl_text d) \<and> dl_cut d = (dl_heard d \<noteq> dl_text d) \<and> (\<not> i \<longrightarrow> \<not> dl_cut d)"
proof (induction r i b ls rule: deliver_lines.induct)
  case (2 r i b utt t k c ls)
  have "prefix (if r then clock_heard i b k t else t) t" using clock_heard_prefix by simp
  moreover have "\<not> i \<Longrightarrow> (if r then clock_heard i b k t else t) = t" by (simp add: clock_heard_def)
  ultimately show ?case using 2 by (cases i) (auto simp: Let_def split: if_splits)
qed simp

lemma deliver_lines_cut_last: "d \<in> set (butlast (deliver_lines r i b ls)) \<Longrightarrow> \<not> dl_cut d"
  by (induction r i b ls rule: deliver_lines.induct) (auto simp: Let_def split: if_splits)

lemma uninterruptible_whole:
  "\<not> i \<Longrightarrow> list_all (\<lambda>(_, _, c). \<not> c) ls \<Longrightarrow> map dl_heard (deliver_lines r i b ls) = map (\<lambda>((_, t), _). t) ls"
  by (induction r i b ls rule: deliver_lines.induct) (auto simp: Let_def clock_heard_def)

section \<open>The guarantees\<close>

text \<open>The floor has one owner and each line of Guard ends once: in every reachable state a line that has passed or
  failed its check was released or revoked exactly once, any other line never, at most one line speaks and then
  it owns the floor, and the queue count is that of the lines that wait for it.\<close>
theorem floor_safe:
  assumes "floor_reach e f"
  shows "(\<forall>i. line_ends (fl_log f) i = (if past_check (fl_lines f) i then 1 else 0)) \<and>
    (\<forall>i. line_at f i Speaking = (fl_lock f = Some (GuardLine i))) \<and>
    fl_queued f = queue_weight (fl_lines f)"
  using floor_reach_inv [OF assms] by (simp add: floor_inv_def)

text \<open>C33. A line is released only as it takes the floor with no partner turn begun, queued or being composed, while the
  call is open and, for an accept, its capability revalidates up to the end of its speech; and if it waited for
  partner fences before, no user fence was raised since.\<close>
theorem released_line_is_current:
  assumes "floor_reach e f" "floor_step f g" "fl_log g = fl_log f @ [Released i d]"
  shows "d = fl_env f \<and> fl_lock f = None \<and> \<not> partner_pending f \<and> \<not> fe_closed d \<and>
    (\<forall>c. gl_cap (fst (fl_lines f ! i)) = Some c \<longrightarrow>
       revalidate (fe_bb d) c (fe_now d + speech_ms (gl_text (fst (fl_lines f ! i)))) = None) \<and>
    (\<forall>w. Waited i w \<in> set (fl_log f) \<longrightarrow> au_user_fences (fe_au w) = au_user_fences (fe_au d))"
proof -
  obtain users held j where j: "line_at f j (Queued users held)" "has_floor f" "g = take_floor j users held f"
    using assms(2,3) by (cases rule: floor_step.cases) (auto simp: queues_def partner_begun_def partner_landed_def)
  then have p: "floor_check (fl_env f) users (fst (fl_lines f ! j)) = Passed" "j = i" "d = fl_env f"
    using assms(3) by (auto simp: take_floor_def Let_def split: verdict.splits)
  note c = floor_check_Passed [OF p(1)]
  have wa: "waits_agree (fl_lines f) (fl_log f)" using floor_reach_inv [OF assms(1)] by (simp add: floor_inv_def)
  then have "au_user_fences (fe_au w) = au_user_fences (fe_au d)" if "Waited i w \<in> set (fl_log f)" for w
    using waits_agreeD [OF wa that] j(1) c p by (auto simp: line_at_def)
  then show ?thesis
    using c j(2) p by (auto simp: why_not_def has_floor_def split: if_splits)
qed

text \<open>Fast takes the floor only when no line of Guard waits for it, so a waiting line is never overtaken by a new
  turn of Fast.\<close>
theorem fast_never_overtakes:
  assumes "floor_reach e f" "floor_step f g" "fl_lock f \<noteq> Some FastTurn" "fl_lock g = Some FastTurn"
  shows "\<not> line_at f i (Queued users held) \<and> \<not> line_at f i (FenceWait n True due moves)"
proof -
  have "fl_queued f = 0"
    using assms(2-4)
    by (cases rule: floor_step.cases)
      (auto simp: queues_def partner_begun_def partner_landed_def fast_may_take_def take_floor_def Let_def split: verdict.splits)
  then have z: "queue_weight (fl_lines f) = 0" using floor_reach_inv [OF assms(1)] by (simp add: floor_inv_def)
  have "weight (snd (fl_lines f ! i)) = 0" if "i < length (fl_lines f)" using queue_weight_mem [OF that] z by simp
  then show ?thesis by (auto simp: line_at_def counted_def)
qed

text \<open>No line wedges the case: once its capability would expire before the line could end, a line that waits for
  partner fences wakes, and with the floor free and no partner turn pending it is released or revoked at once.\<close>
theorem late_line_is_settled:
  assumes "line_at f i (FenceWait n held due moves)" "gl_cap (fst (fl_lines f ! i)) = Some c"
    and "expiry_of (fe_bb (fl_env f)) c \<le> fe_now (fl_env f) + speech_ms (gl_text (fst (fl_lines f ! i)))"
    and "due \<le> fe_now (fl_env f)" "has_floor f"
  shows "\<exists>g h. floor_step f g \<and> floor_step g h \<and> past_check (fl_lines h) i"
proof -
  define g where "g = set_stage i (Queued (Some n) held) (f\<lparr>fl_queued := fl_queued f + 1\<rparr>)"
  have i: "i < length (fl_lines f)" using assms(1) by (simp add: line_at_def)
  have g: "line_at g i (Queued (Some n) held)" "has_floor g" "fl_env g = fl_env f" "fst (fl_lines g ! i) = fst (fl_lines f ! i)"
    using assms(5) i by (auto simp: g_def line_at_def has_floor_def partner_pending_def set_stage_def)
  have "floor_step f g" unfolding g_def using assms(1,4) by (intro floor_step.wake) (auto simp: may_wake_def)
  moreover have "floor_step g (take_floor i (Some n) held g)" using g(1,2) by (rule floor_step.take)
  moreover have "past_check (fl_lines (take_floor i (Some n) held g)) i"
  proof -
    have "floor_check (fl_env g) (Some n) (fst (fl_lines g ! i)) \<noteq> Waits a b" for a b
      unfolding g(3,4) using assms(2,3) by (rule late_line_ends)
    moreover have "i < length (fl_lines g)" using i by (simp add: g_def)
    ultimately show ?thesis
      by (cases "floor_check (fl_env g) (Some n) (fst (fl_lines g ! i))")
        (auto simp: take_floor_def Let_def past_check_update)
  qed
  ultimately show ?thesis by blast
qed

section \<open>At concrete inputs\<close>

definition floor_board :: "fence list \<Rightarrow> blackboard" where
  "floor_board fs = initial_blackboard
     \<lparr>bb_fences := fs,
      bb_public := initial_public\<lparr>pub_offers :=
        [(''o1'', \<lparr>o_ref = ''o1'', o_revision = 1, o_slots = [], o_status = OfferOpen, o_expires_ms = None,
          o_terms_hash = Some ''h''\<rparr>)]\<rparr>,
      bb_authorizations := [\<lparr>au_intent = AcceptOffer, au_offer_ref = Some ''o1'', au_terms_hash = Some ''h'',
        au_cap_id = ''cap-1'', au_epoch = 0\<rparr>],
      bb_capabilities := [(''cap-1'', \<lparr>cap_id = ''cap-1'', cap_bid = ''bid'', cap_intent = AcceptOffer,
        cap_terms_hash = ''h'', cap_epoch = 0, cap_expires_ms = 8000, cap_consumed = False\<rparr>)]\<rparr>"

definition floor_authority :: "raised list \<Rightarrow> kernel_authority" where
  "floor_authority rs = (new_kernel_authority ''r'')\<lparr>au_raised := map (\<lambda>r. (rf_utt r, r)) rs\<rparr>"

definition cp_fence :: raised where
  "cp_fence = \<lparr>rf_lane = ''cp'', rf_utt = ''u1'', rf_seq = 3, rf_at = Some 3\<rparr>"

definition floor_at :: "int \<Rightarrow> bool \<Rightarrow> nat \<Rightarrow> floor_env" where
  "floor_at t fenced n = \<lparr>fe_now = t, fe_closed = False,
     fe_bb = floor_board (if fenced then [\<lparr>fence_id = ''fence-1'', fence_utt_id = ''u1'', fence_raised_seq = 3\<rparr>] else []),
     fe_au = floor_authority (if fenced then [cp_fence] else []), fe_moves = n\<rparr>"

definition accept_line :: guard_line where
  "accept_line = \<lparr>gl_kind = ''accept'', gl_text = ''We accept this offer now.'', gl_cap = Some ''cap-1''\<rparr>"

lemma accept_line_ms: "speech_ms (gl_text accept_line) = 1786"
  by code_simp

lemma fenced_check: "floor_check (floor_at 1000 True 0) None accept_line = Waits 6214 0"
  by code_simp

lemma open_check: "floor_check (floor_at 2000 False 1) (Some 0) accept_line = Passed"
  by code_simp

text \<open>The accept queues under a partner fence, waits, and is woken by the fence's clearing.\<close>

definition waiting_floor :: floor_state where
  "waiting_floor = (new_floor (floor_at 1000 True 0))
     \<lparr>fl_queued := 1, fl_lines := [(accept_line, FenceWait 0 True 6214 0)], fl_log := [Waited 0 (floor_at 1000 True 0)]\<rparr>"

definition woken_floor :: floor_state where
  "woken_floor = waiting_floor\<lparr>fl_env := floor_at 2000 False 1, fl_queued := 2, fl_lines := [(accept_line, Queued (Some 0) True)]\<rparr>"

lemma bound_at_start: "partner_bound (fe_au (floor_at 1000 True 0))"
  by code_simp

lemma waiting_reached: "floor_reach (floor_at 1000 True 0) waiting_floor"
proof -
  let ?e = "floor_at 1000 True 0" and ?f = "queues accept_line (new_floor (floor_at 1000 True 0))"
  have "floor_reach ?e ?f" by (intro floor_reach.step [OF floor_reach.start] floor_step.arrive)
  moreover have "floor_step ?f (take_floor 0 None False ?f)"
    by (rule floor_step.take) (simp_all add: line_at_def queues_def new_floor_def has_floor_def partner_pending_def)
  moreover have "take_floor 0 None False ?f = waiting_floor"
    using fenced_check bound_at_start
    by (simp add: take_floor_def Let_def queues_def new_floor_def waiting_floor_def set_stage_def counted_def floor_at_def)
  ultimately show ?thesis by (metis floor_reach.step)
qed

lemma woken_reached: "floor_reach (floor_at 1000 True 0) woken_floor"
proof -
  let ?m = "waiting_floor\<lparr>fl_env := floor_at 2000 False 1\<rparr>"
  have "floor_step waiting_floor ?m"
    by (rule floor_step.kernel_moves)
      (simp add: waiting_floor_def new_floor_def env_later_def floor_at_def floor_authority_def new_kernel_authority_def)
  moreover have "floor_step ?m (set_stage 0 (Queued (Some 0) True) (?m\<lparr>fl_queued := fl_queued ?m + 1\<rparr>))"
    by (rule floor_step.wake [where due = 6214 and moves = 0])
      (simp_all add: waiting_floor_def new_floor_def line_at_def may_wake_def floor_at_def)
  moreover have "set_stage 0 (Queued (Some 0) True) (?m\<lparr>fl_queued := fl_queued ?m + 1\<rparr>) = woken_floor"
    by (simp add: woken_floor_def waiting_floor_def new_floor_def set_stage_def)
  ultimately show ?thesis using waiting_reached by (metis floor_reach.step)
qed

theorem floor_safe_witness: "line_ends [Waited 0 (floor_at 1000 True 0)] 0 = 0 \<and> fl_queued waiting_floor = 1"
  using floor_safe [OF waiting_reached] by (simp add: waiting_floor_def new_floor_def past_check_def)

theorem released_line_is_current_witness:
  "revalidate (fe_bb (floor_at 2000 False 1)) ''cap-1'' 3786 = None"
proof -
  let ?g = "take_floor 0 (Some 0) True woken_floor"
  have s: "floor_step woken_floor ?g"
    by (rule floor_step.take)
      (simp_all add: line_at_def woken_floor_def waiting_floor_def new_floor_def has_floor_def partner_pending_def)
  have "fl_log ?g = fl_log woken_floor @ [Released 0 (floor_at 2000 False 1)]"
    using open_check by (simp add: take_floor_def Let_def woken_floor_def waiting_floor_def new_floor_def)
  from released_line_is_current [OF woken_reached s this] show ?thesis
    using accept_line_ms by (simp add: woken_floor_def accept_line_def floor_at_def)
qed

definition quiet_floor :: floor_state where
  "quiet_floor = new_floor (floor_at 0 False 0)"

theorem fast_never_overtakes_witness: "\<not> line_at quiet_floor 0 (Queued None False)"
proof -
  have "floor_reach (floor_at 0 False 0) quiet_floor" unfolding quiet_floor_def by (rule floor_reach.start)
  moreover have "floor_step quiet_floor (quiet_floor\<lparr>fl_lock := Some FastTurn\<rparr>)"
    by (rule floor_step.fast_take) (simp add: quiet_floor_def new_floor_def fast_may_take_def)
  ultimately show ?thesis
    using fast_never_overtakes [of "floor_at 0 False 0" quiet_floor "quiet_floor\<lparr>fl_lock := Some FastTurn\<rparr>" 0 None False]
    by (simp add: quiet_floor_def new_floor_def)
qed

definition late_floor :: floor_state where
  "late_floor = waiting_floor\<lparr>fl_env := floor_at 6300 True 0\<rparr>"

theorem late_line_is_settled_witness:
  "\<exists>g h. floor_step late_floor g \<and> floor_step g h \<and> past_check (fl_lines h) 0"
proof (rule late_line_is_settled)
  show "line_at late_floor 0 (FenceWait 0 True 6214 0)" by (simp add: line_at_def late_floor_def waiting_floor_def)
  show "gl_cap (fst (fl_lines late_floor ! 0)) = Some ''cap-1''"
    by (simp add: late_floor_def waiting_floor_def accept_line_def)
  show "expiry_of (fe_bb (fl_env late_floor)) ''cap-1''
      \<le> fe_now (fl_env late_floor) + speech_ms (gl_text (fst (fl_lines late_floor ! 0)))"
    using accept_line_ms by (simp add: late_floor_def waiting_floor_def floor_at_def expiry_of_def floor_board_def)
  show "(6214::int) \<le> fe_now (fl_env late_floor)" by (simp add: late_floor_def floor_at_def)
  show "has_floor late_floor" by (simp add: late_floor_def waiting_floor_def new_floor_def has_floor_def partner_pending_def)
qed

end
