(* ===== verification/Calls.thy ===== *)
theory Calls
  imports Needs Status
begin

text \<open>
  \<open>kernel/calls.py\<close> and \<open>kernel/watchdog.py\<close>: the gate of the counterparty's call and the clock of the session.
  \<open>Calls\<close> is a subscriber of the bus that spawns tasks; a task runs later, on the board of its time, in an order
  left open. The id of an event that an operation emits and goes on to cite is an argument.
\<close>

section \<open>State\<close>

text \<open>The \<open>chan.opened\<close> of the call.\<close>

record opened_call =
  oc_event :: string
  oc_t_ms :: int
  oc_call :: nat
  oc_reason :: string
  oc_missing :: "string list"
  oc_ready :: bool

(* kernel/calls.py 40-49 Calls.__init__ *)
record calls =
  ca_required :: "string list"
  ca_intake :: bool
  ca_needs :: needs_ledger
  ca_lines :: "string set"
  ca_opened :: "opened_call option"
  ca_count :: nat
  ca_deadline_ms :: "int option"
  ca_disclosed :: bool

text \<open>\<open>slow\<close>: the session has a Slow; \<open>channels\<close> are its lanes.\<close>

(* kernel/calls.py 40-49 Calls.__init__ *)
definition new_calls :: "task_like \<Rightarrow> bool \<Rightarrow> string list \<Rightarrow> calls" where
  "new_calls t slow channels =
     \<lparr>ca_required = required t [], ca_intake = (slow \<and> ''user'' \<in> set channels), ca_needs = no_needs,
      ca_lines = {}, ca_opened = None, ca_count = 0, ca_deadline_ms = None, ca_disclosed = False\<rparr>"

datatype call_task =
    Soon string string
  | Deadline string int
  | Disclose string
  | Heard_Whole
  | Ingress string string
  | FastCRun

datatype call_effect =
    Say string string payload "string list"
  | Opens opened_call string
  | Spawn call_task

type_synonym call_reaction = "calls \<times> call_effect list"

(* kernel/calls.py 51-52 Calls.missing *)
definition calls_missing :: "calls \<Rightarrow> blackboard \<Rightarrow> string list" where
  "calls_missing c bb = missing bb (ca_required c)"

(* kernel/calls.py 34-34 DISCLOSURE *)
definition DISCLOSURE :: string where
  "DISCLOSURE = ''Hello, this is an AI assistant calling on behalf of the account holder.''"

(* kernel/calls.py 35-35 INTAKE_S *)
definition INTAKE_S :: int where "INTAKE_S = 120"

section \<open>Opening the call\<close>

(* kernel/calls.py 85-99 Calls._call *)
definition open_call ::
  "string list \<Rightarrow> calls \<Rightarrow> blackboard \<Rightarrow> int \<Rightarrow> string \<Rightarrow> string \<Rightarrow> string \<Rightarrow> call_reaction"
where
  "open_call channels c bb t eid cause reason =
     (if ca_opened c \<noteq> None then (c, [])
      else
        let m = calls_missing c bb;
            oc = \<lparr>oc_event = eid, oc_t_ms = t, oc_call = ca_count c + 1, oc_reason = reason, oc_missing = m,
                  oc_ready = (m = [])\<rparr>
        in (c\<lparr>ca_count := ca_count c + 1, ca_opened := Some oc, ca_deadline_ms := None\<rparr>,
            [Opens oc cause] @
            (case status_change bb ''call_opened'' of None \<Rightarrow> []
             | Some (was, s) \<Rightarrow> [Say ''status.changed'' ''guard'' (PStatus was s) [eid]]) @
            [Spawn (Disclose eid)] @
            map (\<lambda>k. Spawn (Ingress k eid)) (filter (\<lambda>k. k \<noteq> ''user'') channels)))"

(* kernel/calls.py 54-60 Calls.start *)
definition start_calls :: "string list \<Rightarrow> calls \<Rightarrow> blackboard \<Rightarrow> int \<Rightarrow> string \<Rightarrow> string \<Rightarrow> call_reaction" where
  "start_calls channels c bb t eid root =
     (if \<not> ca_intake c \<or> calls_missing c bb = []
      then open_call channels c bb t eid root (if ca_intake c then ''ready'' else ''no_intake'')
      else (c\<lparr>ca_deadline_ms := Some (t + 1000 * INTAKE_S)\<rparr>, [Spawn (Deadline root (t + 1000 * INTAKE_S))]))"

text \<open>Whether an event spawns the opening, and why.\<close>

(* kernel/calls.py 70-75 Calls.on_event *)
definition opens_soon :: "calls \<Rightarrow> blackboard \<Rightarrow> event \<Rightarrow> string option outcome" where
  "opens_soon c bb e =
     (if ev_type e = ''fact.recorded'' then
        (case ev_payload e of
           PFact f \<Rightarrow> Inr (if fp_scope f = ''public'' \<and> calls_missing c bb = [] then Some ''ready'' else None)
         | _ \<Rightarrow> Inl (KeyError ''scope''))
      else if ev_type e = ''slow.tool'' then
        (case ev_payload e of
           PSlowTool p \<Rightarrow> Inr (if tp_name p = ''start_call'' \<and> tp_ok p then Some ''slow_start'' else None)
         | _ \<Rightarrow> Inl (KeyError ''name''))
      else Inr None)"

(* kernel/calls.py 62-75 Calls.on_event *)
definition calls_on_event :: "calls \<Rightarrow> blackboard \<Rightarrow> event \<Rightarrow> call_reaction outcome" where
  "calls_on_event c bb e =
     and_then (need_step (ca_needs c) e) (\<lambda>l.
     and_then (guard_lines (ca_lines c) e) (\<lambda>said.
     let d = c\<lparr>ca_needs := l, ca_lines := said\<rparr> in
     and_then (hold_ended (pub_cp_hold (bb_public bb)) e said l (calls_missing d bb)) (\<lambda>why.
     let ends = (if why = None then [] else [Say ''chan.hold'' ''kernel'' (PHold ''cp'' None) [ev_event_id e]]) in
     if ca_opened d \<noteq> None \<or> ca_deadline_ms d = None then Inr (d, ends)
     else and_then (opens_soon d bb e) (\<lambda>r.
       Inr (d, ends @ (case r of None \<Rightarrow> [] | Some reason \<Rightarrow> [Spawn (Soon (ev_event_id e) reason)]))))))"

section \<open>Tasks\<close>

text \<open>Guard's line and its release, then the speech, which is not interruptible: \<open>Heard_Whole\<close> is its end. Only
  then the rep's clock and FastC start.\<close>

(* kernel/calls.py 101-107 Calls._disclose *)
definition disclose :: "calls \<Rightarrow> string \<Rightarrow> string \<Rightarrow> call_reaction" where
  "disclose c opened said =
     (c, [Say ''speak.verbatim'' ''guard'' (PVerbatim ''cp'' ''disclosure'' DISCLOSURE None None) [opened],
          Say ''speak.released'' ''kernel'' (PReleased ''cp'' None) [said], Spawn Heard_Whole])"

(* kernel/calls.py 107-110 Calls._disclose *)
definition disclosure_heard :: "bool \<Rightarrow> calls \<Rightarrow> call_reaction" where
  "disclosure_heard fastc c = (c\<lparr>ca_disclosed := True\<rparr>, if fastc then [Spawn FastCRun] else [])"

text \<open>A due deadline sleeps until its time, whatever happens meanwhile.\<close>

definition task_ready :: "int \<Rightarrow> call_task \<Rightarrow> bool" where
  "task_ready t k = (case k of Deadline _ due \<Rightarrow> due \<le> t | _ \<Rightarrow> True)"

(* kernel/calls.py 77-83 Calls *)
definition run_task ::
  "string list \<Rightarrow> bool \<Rightarrow> calls \<Rightarrow> blackboard \<Rightarrow> int \<Rightarrow> string \<Rightarrow> call_task \<Rightarrow> call_reaction"
where
  "run_task channels fastc c bb t eid k = (case k of
      Soon cause reason \<Rightarrow> open_call channels c bb t eid cause reason
    | Deadline root _ \<Rightarrow> open_call channels c bb t eid root ''intake_deadline''
    | Disclose opened \<Rightarrow> disclose c opened eid
    | Heard_Whole \<Rightarrow> disclosure_heard fastc c
    | Ingress _ _ \<Rightarrow> (c, [])
    | FastCRun \<Rightarrow> (c, []))"

section \<open>The gate over a session\<close>

record call_gate =
  cg_calls :: calls
  cg_tasks :: "call_task list"
  cg_log :: "call_effect list"

fun spawned :: "call_effect list \<Rightarrow> call_task list" where
  "spawned [] = []"
| "spawned (Spawn k # xs) = k # spawned xs"
| "spawned (_ # xs) = spawned xs"

definition react :: "call_gate \<Rightarrow> call_reaction \<Rightarrow> call_gate" where
  "react g r = g\<lparr>cg_calls := fst r, cg_tasks := cg_tasks g @ spawned (snd r), cg_log := cg_log g @ snd r\<rparr>"

definition started :: "string list \<Rightarrow> calls \<Rightarrow> blackboard \<Rightarrow> int \<Rightarrow> string \<Rightarrow> string \<Rightarrow> call_gate" where
  "started channels c bb t eid root =
     react \<lparr>cg_calls = c, cg_tasks = [], cg_log = []\<rparr> (start_calls channels c bb t eid root)"

inductive gate_step :: "string list \<Rightarrow> bool \<Rightarrow> call_gate \<Rightarrow> call_gate \<Rightarrow> bool" for channels fastc where
  event: "calls_on_event (cg_calls g) bb e = Inr r \<Longrightarrow> gate_step channels fastc g (react g r)"
| task: "i < length (cg_tasks g) \<Longrightarrow> task_ready t (cg_tasks g ! i) \<Longrightarrow>
     gate_step channels fastc g
       (react (g\<lparr>cg_tasks := take i (cg_tasks g) @ drop (Suc i) (cg_tasks g)\<rparr>)
         (run_task channels fastc (cg_calls g) bb t eid (cg_tasks g ! i)))"

section \<open>The clock of the session (kernel/watchdog.py)\<close>

(* kernel/watchdog.py 17-17 MAX_SESSION_S *)
definition MAX_SESSION_S :: int where "MAX_SESSION_S = 480"

datatype watch = Timeout | RepTick | NoTick

text \<open>One turn of the watchdog's loop, each second: \<open>busy\<close> is that the agent speaks or the rep composes, \<open>human\<close>
  that a person types the rep's lines.\<close>

(* kernel/watchdog.py 32-43 watchdog *)
definition watchdog :: "calls \<Rightarrow> int \<Rightarrow> bool \<Rightarrow> bool \<Rightarrow> bool \<Rightarrow> watch" where
  "watchdog c t busy closed human =
     (let over = (case ca_opened c of None \<Rightarrow> False | Some o' \<Rightarrow> t - oc_t_ms o' > 1000 * MAX_SESSION_S) in
      if over \<or> t > 1000 * (MAX_SESSION_S + INTAKE_S) then Timeout
      else if ca_disclosed c \<and> \<not> (busy \<or> closed \<or> human) then RepTick
      else NoTick)"

end
