(* ===== verification/Calls_Facts.thy ===== *)
theory Calls_Facts
  imports Calls Needs_Facts
begin

text \<open>The call is opened once, at the latest at the deadline, and the rep's clock runs only after the disclosure.\<close>

section \<open>The invariant\<close>

definition openings :: "call_effect list \<Rightarrow> opened_call list" where
  "openings xs = List.map_filter (\<lambda>x. case x of Opens oc _ \<Rightarrow> Some oc | _ \<Rightarrow> None) xs"

lemma openings_simps [simp]:
  "openings [] = []" "openings (xs @ ys) = openings xs @ openings ys"
  "openings (Say a b p cs # xs) = openings xs" "openings (Spawn k # xs) = openings xs"
  "openings (Opens oc c # xs) = oc # openings xs"
  by (simp_all add: openings_def map_filter_def)

lemma openings_spawn [simp]: "openings (map (\<lambda>k. Spawn (f k)) ks) = []"
  by (induction ks) simp_all

lemma spawned_append [simp]: "spawned (xs @ ys) = spawned xs @ spawned ys"
  by (induction xs rule: spawned.induct) simp_all

lemma spawned_map [simp]: "spawned (map (\<lambda>k. Spawn (f k)) ks) = map f ks"
  by (induction ks) simp_all

definition is_deadline :: "int \<Rightarrow> call_task \<Rightarrow> bool" where
  "is_deadline due k \<longleftrightarrow> (\<exists>root. k = Deadline root due)"

text \<open>The openings logged are the one the state holds; before it, the deadline of the intake is pending; the
  disclosure belongs to an opened call.\<close>

definition gate_inv :: "call_gate \<Rightarrow> bool" where
  "gate_inv g \<longleftrightarrow>
     openings (cg_log g) = (case ca_opened (cg_calls g) of None \<Rightarrow> [] | Some oc \<Rightarrow> [oc]) \<and>
     ca_count (cg_calls g) = length (openings (cg_log g)) \<and>
     (ca_opened (cg_calls g) = None \<longrightarrow>
        (\<exists>due. ca_deadline_ms (cg_calls g) = Some due \<and> list_ex (is_deadline due) (cg_tasks g))) \<and>
     (case ca_opened (cg_calls g) of
        None \<Rightarrow> \<not> ca_disclosed (cg_calls g) \<and>
          list_all (\<lambda>k. case k of Disclose _ \<Rightarrow> False | Heard_Whole \<Rightarrow> False | FastCRun \<Rightarrow> False | Ingress _ _ \<Rightarrow> False | _ \<Rightarrow> True) (cg_tasks g)
      | Some oc \<Rightarrow> ca_deadline_ms (cg_calls g) = None \<and> oc_call oc = 1)"

lemma open_call_facts:
  assumes "ca_opened c = None" "r = open_call channels c bb t eid cause reason"
  shows "ca_opened (fst r) = Some \<lparr>oc_event = eid, oc_t_ms = t, oc_call = ca_count c + 1, oc_reason = reason,
           oc_missing = calls_missing c bb, oc_ready = (calls_missing c bb = [])\<rparr>"
    "ca_deadline_ms (fst r) = None" "ca_count (fst r) = ca_count c + 1"
    "openings (snd r) = [the (ca_opened (fst r))]"
  using assms by (auto simp: open_call_def Let_def split: option.splits)

lemma open_call_again: "ca_opened c \<noteq> None \<Longrightarrow> open_call channels c bb t eid cause reason = (c, [])"
  by (simp add: open_call_def)

lemma opened_inv:
  assumes "gate_inv g"
  shows "gate_inv (react (g\<lparr>cg_tasks := ts\<rparr>) (open_call channels (cg_calls g) bb t eid cause reason)) \<or> ca_opened (cg_calls g) \<noteq> None"
proof (cases "ca_opened (cg_calls g)")
  case None
  note f = open_call_facts [OF None refl, of channels bb t eid cause reason]
  have "openings (cg_log g) = []" "ca_count (cg_calls g) = 0" using assms None by (auto simp: gate_inv_def)
  with f show ?thesis by (simp add: gate_inv_def react_def)
qed simp

lemma event_inv:
  assumes "gate_inv g" "calls_on_event (cg_calls g) bb e = Inr r"
  shows "gate_inv (react g r)"
proof -
  from assms(2) obtain l said why where
    r: "fst r = (cg_calls g)\<lparr>ca_needs := l, ca_lines := said\<rparr>"
      "\<exists>ks. list_all (\<lambda>k. \<exists>c w. k = Soon c w) ks \<and> spawned (snd r) = ks" "openings (snd r) = []"
    unfolding calls_on_event_def Let_def
    by (fastforce simp: and_then_eq_Inr split: if_splits option.splits)
  from r(2) obtain ks where ks: "list_all (\<lambda>k. \<exists>c w. k = Soon c w) ks" "spawned (snd r) = ks" by blast
  then have "list_all (\<lambda>k. case k of Disclose _ \<Rightarrow> False | Heard_Whole \<Rightarrow> False | FastCRun \<Rightarrow> False | Ingress _ _ \<Rightarrow> False | _ \<Rightarrow> True) ks"
    by (auto simp: list_all_iff split: call_task.splits)
  then show ?thesis
    using assms(1) r(1,3) ks(2) by (auto simp: gate_inv_def react_def split: option.splits)
qed

lemma take_drop_mem: "k \<in> set (take i ts @ drop (Suc i) ts) \<Longrightarrow> k \<in> set ts"
  using set_take_subset [of i ts] set_drop_subset [of "Suc i" ts] by auto

lemma other_task_stays: "k \<in> set ts \<Longrightarrow> i < length ts \<Longrightarrow> k \<noteq> ts ! i \<Longrightarrow> k \<in> set (take i ts @ drop (Suc i) ts)"
  by (metis Un_iff id_take_nth_drop set_ConsD set_append)

lemma task_inv:
  assumes "gate_inv g" "i < length (cg_tasks g)"
  shows "gate_inv (react (g\<lparr>cg_tasks := take i (cg_tasks g) @ drop (Suc i) (cg_tasks g)\<rparr>)
    (run_task channels fastc (cg_calls g) bb t eid (cg_tasks g ! i)))"
proof (cases "ca_opened (cg_calls g)")
  case None
  then have ok: "case cg_tasks g ! i of Disclose _ \<Rightarrow> False | Heard_Whole \<Rightarrow> False | FastCRun \<Rightarrow> False | Ingress _ _ \<Rightarrow> False | _ \<Rightarrow> True"
    using assms by (auto simp: gate_inv_def list_all_length)
  then obtain cause reason where
    "run_task channels fastc (cg_calls g) bb t eid (cg_tasks g ! i) = open_call channels (cg_calls g) bb t eid cause reason"
    by (auto simp: run_task_def split: call_task.splits)
  then show ?thesis using opened_inv [OF assms(1)] None by metis
next
  case (Some oc)
  then have "openings (snd (run_task channels fastc (cg_calls g) bb t eid k)) = [] \<and>
      (\<exists>b. fst (run_task channels fastc (cg_calls g) bb t eid k) = (cg_calls g)\<lparr>ca_disclosed := b\<rparr>)" for k
    by (cases k) (auto simp: run_task_def open_call_again disclose_def disclosure_heard_def 
          intro!: exI [of _ "k = Heard_Whole \<or> ca_disclosed (cg_calls g)"])
  then obtain b where "openings (snd (run_task channels fastc (cg_calls g) bb t eid (cg_tasks g ! i))) = []"
      "fst (run_task channels fastc (cg_calls g) bb t eid (cg_tasks g ! i)) = (cg_calls g)\<lparr>ca_disclosed := b\<rparr>" by blast
  with assms(1) Some show ?thesis by (auto simp: gate_inv_def react_def)
qed

lemma started_inv: "gate_inv (started channels (new_calls k slow channels) bb t eid root)"
proof -
  let ?c = "new_calls k slow channels"
  have none: "ca_opened ?c = None" "ca_count ?c = 0" "\<not> ca_disclosed ?c" by (simp_all add: new_calls_def)
  show ?thesis
  proof (cases "\<not> ca_intake ?c \<or> calls_missing ?c bb = []")
    case True
    then show ?thesis
      using open_call_facts [OF none(1) refl] none
      unfolding started_def start_calls_def by (simp add: gate_inv_def react_def)
  next
    case False
    then show ?thesis
      using none unfolding started_def start_calls_def
      by (simp add: gate_inv_def react_def is_deadline_def)
  qed
qed

inductive gate_runs :: "string list \<Rightarrow> bool \<Rightarrow> call_gate \<Rightarrow> call_gate \<Rightarrow> bool" for channels fastc g where
  gate_start: "gate_runs channels fastc g g"
| gate_next: "gate_runs channels fastc g h \<Longrightarrow> gate_step channels fastc h h' \<Longrightarrow> gate_runs channels fastc g h'"

lemma gate_runs_inv:
  "gate_runs channels fastc (started channels (new_calls k slow channels) bb t eid root) g \<Longrightarrow> gate_inv g"
proof (induction rule: gate_runs.induct)
  case gate_start
  show ?case by (rule started_inv)
next
  case (gate_next h h')
  from gate_next(2) show ?case
    by (cases rule: gate_step.cases) (use gate_next.IH event_inv task_inv in blast)+
qed

section \<open>The guarantees\<close>

text \<open>C34. The counterparty is called at most once, whichever of the conditions come and in whatever order their tasks
  run, and until then the deadline of the intake is pending, so a call that nothing else opens is opened by it.\<close>
theorem one_call:
  assumes "gate_runs channels fastc (started channels (new_calls k slow channels) bb t eid root) g"
  shows "length (openings (cg_log g)) \<le> 1 \<and>
    (openings (cg_log g) = [] \<longrightarrow>
       (\<exists>due. ca_deadline_ms (cg_calls g) = Some due \<and> (\<exists>root. Deadline root due \<in> set (cg_tasks g))))"
  using gate_runs_inv [OF assms] by (auto simp: gate_inv_def is_deadline_def list_ex_iff split: option.splits)

text \<open>When the deadline's task runs the call is open: by it, with the keys then missing on record and ready exactly
  when there are none, or by an earlier condition.\<close>
theorem deadline_opens:
  assumes "run_task channels fastc c bb t eid (Deadline root due) = (d, xs)"
  shows "ca_opened d \<noteq> None \<and>
    (ca_opened c = None \<longrightarrow> (\<exists>oc. ca_opened d = Some oc \<and> oc_reason oc = ''intake_deadline'' \<and>
       oc_missing oc = missing bb (ca_required c) \<and> oc_ready oc = (missing bb (ca_required c) = [])))"
proof (cases "ca_opened c")
  case None
  have "fst (open_call channels c bb t eid root ''intake_deadline'') = d" using assms by (simp add: run_task_def)
  then show ?thesis using open_call_facts(1) [OF None refl] None by (force simp: calls_missing_def)
next
  case (Some oc)
  with assms show ?thesis by (simp add: run_task_def open_call_again)
qed

text \<open>The rep's clock ticks only in an opened call whose disclosure was heard, on a free floor of an open call
  without a human rep, and never past the budget of the session.\<close>
theorem rep_ticks_after_disclosure:
  assumes "gate_runs channels fastc (started channels (new_calls k slow channels) bb t0 eid root) g"
    and "watchdog (cg_calls g) t busy closed human = RepTick"
  shows "\<not> busy \<and> \<not> closed \<and> \<not> human \<and> t \<le> 600000 \<and>
    (\<exists>oc. ca_opened (cg_calls g) = Some oc \<and> t \<le> oc_t_ms oc + 480000)"
  using gate_runs_inv [OF assms(1)] assms(2)
  by (auto simp: watchdog_def gate_inv_def Let_def MAX_SESSION_S_def INTAKE_S_def split: if_splits option.splits)

section \<open>At concrete inputs\<close>

definition some_task :: task_like where
  "some_task = \<lparr>tk_channels = [''user'', ''cp''], tk_shareable = [''account.holder_name'']\<rparr>"

abbreviation intake_gate :: call_gate where
  "intake_gate \<equiv> started [''user'', ''cp''] (new_calls some_task True [''user'', ''cp'']) initial_blackboard 5 ''r:2'' ''r:0''"

abbreviation direct_gate :: call_gate where
  "direct_gate \<equiv> started [''cp''] (new_calls some_task False [''cp'']) initial_blackboard 5 ''r:2'' ''r:0''"

theorem one_call_witness: "ca_deadline_ms (cg_calls intake_gate) = Some 120005"
proof -
  have "ca_opened (cg_calls intake_gate) = None" by code_simp
  moreover have "openings (cg_log intake_gate) = []" by code_simp
  ultimately obtain due where "ca_deadline_ms (cg_calls intake_gate) = Some due" "\<exists>root. Deadline root due \<in> set (cg_tasks intake_gate)"
    using one_call [OF gate_start [where channels = "[''user'', ''cp'']" and fastc = True and g = intake_gate]]
    by blast
  moreover have "cg_tasks intake_gate = [Deadline ''r:0'' 120005]" by code_simp
  ultimately show ?thesis by simp
qed

theorem deadline_opens_witness:
  "\<exists>oc. ca_opened (fst (run_task [''user'', ''cp''] True (cg_calls intake_gate) initial_blackboard 120005 ''r:9'' (Deadline ''r:0'' 120005))) = Some oc \<and>
     oc_missing oc = [''account.holder_name''] \<and> \<not> oc_ready oc"
proof -
  obtain d xs where r: "run_task [''user'', ''cp''] True (cg_calls intake_gate) initial_blackboard 120005 ''r:9'' (Deadline ''r:0'' 120005) = (d, xs)"
    by fastforce
  have "ca_opened (cg_calls intake_gate) = None" by code_simp
  moreover have "missing initial_blackboard (ca_required (cg_calls intake_gate)) = [''account.holder_name'']" by code_simp
  ultimately show ?thesis using deadline_opens [OF r] r by auto
qed

definition call_of :: opened_call where
  "call_of = \<lparr>oc_event = ''r:2'', oc_t_ms = 5, oc_call = 1, oc_reason = ''no_intake'',
     oc_missing = [''account.holder_name''], oc_ready = False\<rparr>"

definition direct_calls :: "bool \<Rightarrow> calls" where
  "direct_calls b = (new_calls some_task False [''cp''])\<lparr>ca_opened := Some call_of, ca_count := 1, ca_disclosed := b\<rparr>"

theorem rep_ticks_after_disclosure_witness:
  "\<exists>g oc. gate_runs [''cp''] False direct_gate g \<and> ca_opened (cg_calls g) = Some oc \<and> 6000 \<le> oc_t_ms oc + 480000"
proof -
  let ?g1 = "react (direct_gate\<lparr>cg_tasks := [Ingress ''cp'' ''r:2'']\<rparr>)
    (run_task [''cp''] False (cg_calls direct_gate) initial_blackboard 6 ''r:4'' (Disclose ''r:2''))"
  let ?g2 = "react (?g1\<lparr>cg_tasks := [Ingress ''cp'' ''r:2'']\<rparr>)
    (run_task [''cp''] False (cg_calls ?g1) initial_blackboard 5000 ''r:6'' Heard_Whole)"
  have t0: "cg_tasks direct_gate = [Disclose ''r:2'', Ingress ''cp'' ''r:2'']" by code_simp
  have c0: "cg_calls direct_gate = direct_calls False" by code_simp
  have s1: "gate_step [''cp''] False direct_gate ?g1"
    using gate_step.task [where i = 0 and g = direct_gate and t = 6 and bb = initial_blackboard and eid = "''r:4''"
        and channels = "[''cp'']" and fastc = False] t0 by (simp add: task_ready_def)
  have t1: "cg_tasks ?g1 = [Ingress ''cp'' ''r:2'', Heard_Whole]" by (simp add: react_def run_task_def disclose_def)
  have s2: "gate_step [''cp''] False ?g1 ?g2"
    using gate_step.task [where i = 1 and g = ?g1 and t = 5000 and bb = initial_blackboard and eid = "''r:6''"
        and channels = "[''cp'']" and fastc = False] t1 by (simp add: task_ready_def)
  have r: "gate_runs [''cp''] False direct_gate ?g2"
    using gate_next [OF gate_next [OF gate_start s1] s2] .
  have "cg_calls ?g2 = direct_calls True"
    by (simp add: react_def run_task_def disclose_def disclosure_heard_def c0) (simp add: direct_calls_def)
  moreover have "watchdog (direct_calls True) 6000 False False False = RepTick" by code_simp
  ultimately have "watchdog (cg_calls ?g2) 6000 False False False = RepTick" by simp
  from rep_ticks_after_disclosure [OF r this] r show ?thesis by auto
qed

end
