(* ===== verification/Offer_Slots.thy ===== *)
theory Offer_Slots
  imports Reader Declass Slow_Authority
begin

text \<open>
  \<open>slow/offer_slots.py\<close>: \<open>record_offer\<close>, by which Slow records what the rep offered. A slot arrives as JSON with
  a field, a value and the rep line that says it; role and unit follow from the field. Texts of refusals are kept
  as the problems they name. \<open>ms_of\<close> is \<open>int(d.total_seconds() * 1000)\<close> of a difference in microseconds, computed
  on floats.
\<close>

section \<open>Numbers as a rep says them\<close>

(* guard/declass.py 22-25 _UNIT *)
definition USD_RX :: rx where
  "USD_RX = ralts
     [rseq [rlit ''$'', ropt rspace, RGroup ''1'' decimal_rx],
      rseq [RGroup ''1'' (rseq [rplus rdigit, rlit ''.'', rdigit, rdigit]), REdge],
      rseq [RGroup ''1'' decimal_rx, some_spaces, rlit_ci ''dollar'', ropt (rlit_ci ''s''), REdge]]"

(* guard/declass.py 28-33 spoken *)
definition spoken_numbers :: "string \<Rightarrow> slot_unit \<Rightarrow> decimal list" where
  "spoken_numbers s u =
     (let found = (\<lambda>r. map (\<lambda>m. decimal_of (the (rgroup ''1'' m))) (finditer r (strip_commas None s))) in
      if u = UsdMinor then found USD_RX else if u = Months then found MONTHS_RX else text_numbers s)"

section \<open>Fields\<close>

(* slow/offer_slots.py 38-39 _unit *)
definition unit_of_kind :: "string \<Rightarrow> slot_unit" where
  "unit_of_kind k = (case dget UNITS k of None \<Rightarrow> BoolUnit | Some u \<Rightarrow> u)"

definition kind_of :: "string \<Rightarrow> string" where
  "kind_of f = before (CHR '':'') f"

(* slow/offer_slots.py 25-25 KEYS *)
definition SLOT_KEYS :: "string list" where
  "SLOT_KEYS = [''field'', ''value'', ''utt_ref'']"

(* slow/offer_slots.py 35-35 _NONE *)
definition NONE_LISTS :: "(string, string) dict" where
  "NONE_LISTS = [(''fees_none'', ''fee''), (''changes_none'', ''applied_change'')]"

(* slow/offer_slots.py 49-50 GENERIC *)
definition GENERIC :: "string \<Rightarrow> string list" where
  "GENERIC k = (let fees = FEE_CUES @ [''charges''] @ GENERIC_FEE in
     if k = ''fee'' then fees else CREDIT_CUES @ fees)"

section \<open>What is refused\<close>

datatype slot_problem =
    NotAnObject json
  | ExtraKeys "string list" bool
  | UnknownField json
  | FieldTooLong string
  | ValueNotText string json
  | WrongForm string slot_unit string
  | NoCitation json
  | NoSlots
  | Repeats string
  | NoneBeside string string
  | NotACode string
  | GenericWord string string
  | NotInLine string string
  | NotBool string string
  | NotIso string string

(* slow/offer_slots.py 105-115 _form *)
definition form_problem :: "json \<Rightarrow> json \<Rightarrow> slot_problem list" where
  "form_problem f v = (case f of
      JStr field \<Rightarrow>
        if \<not> readback_field field then [UnknownField f]
        else if length field > MAX_SLOT_FIELD then [FieldTooLong field]
        else (case v of
          JStr s \<Rightarrow>
            if length s > MAX_SLOT_VALUE then [ValueNotText field v]
            else if unit_of_kind (kind_of field) \<in> {UsdMinor, Months} \<and> \<not> isdigit s
              then [WrongForm field (unit_of_kind (kind_of field)) s]
            else []
        | _ \<Rightarrow> [ValueNotText field v])
    | _ \<Rightarrow> [UnknownField f])"

(* slow/offer_slots.py 87-103 shape *)
definition shape_problems :: "json \<Rightarrow> slot_problem list" where
  "shape_problems raw = (case raw of
      JObj m \<Rightarrow>
        (let extra = sort (filter (\<lambda>k. k \<notin> set SLOT_KEYS) (dkeys m)) in
         (if extra = [] then [] else [ExtraKeys extra (''role'' \<in> set extra \<or> ''unit'' \<in> set extra)]) @
         form_problem (json_get raw ''field'') (json_get raw ''value'') @
         (case json_get raw ''utt_ref'' of JStr _ \<Rightarrow> [] | r \<Rightarrow> [NoCitation r]))
    | _ \<Rightarrow> [NotAnObject raw])"

definition text_at :: "json \<Rightarrow> string \<Rightarrow> string" where
  "text_at raw k = (case json_get raw k of JStr s \<Rightarrow> s | _ \<Rightarrow> [])"

(* slow/offer_slots.py 118-128 conflicts *)
definition slot_conflicts :: "json list \<Rightarrow> slot_problem list" where
  "slot_conflicts raw =
     (let fs = map (\<lambda>s. text_at s ''field'') raw in
      (if raw = [] then [NoSlots] else []) @
      map Repeats (sort (remdups (filter (\<lambda>f. count_list fs f > 1) fs))) @
      concat (map (\<lambda>s. case dget NONE_LISTS (text_at s ''field'') of None \<Rightarrow> []
        | Some k \<Rightarrow> if text_at s ''value'' = ''true''
            then map (NoneBeside (text_at s ''field'')) (filter (\<lambda>f. kind_of f = k) fs) else []) raw))"

(* slow/offer_slots.py 271-276 _slot *)
definition slot_of :: "json \<Rightarrow> readback_slot" where
  "slot_of raw =
     (let f = text_at raw ''field'' in
      \<lparr>rs_field = f, rs_value = text_at raw ''value'', rs_unit = unit_of_kind (kind_of f),
       rs_role = (case dget ROLE_OF (kind_of f) of Some r \<Rightarrow> r | None \<Rightarrow> FeatureRole),
       rs_source_utt = Some (text_at raw ''utt_ref''), rs_span = None, rs_status = SlotUnknown\<rparr>)"

(* slow/offer_slots.py 265-268 _value *)
definition slot_numbers :: "readback_slot \<Rightarrow> decimal list" where
  "slot_numbers s =
     (if rs_unit s = UsdMinor then [of_minor (int_of_digits (rs_value s))]
      else if rs_unit s = Months then [of_whole (int_of_digits (rs_value s))]
      else text_numbers (rs_value s))"

text \<open>The partner's lines by their id; a later line of the same id replaces an earlier one.\<close>

definition rep_said :: "blackboard \<Rightarrow> (string, string) dict" where
  "rep_said bb = foldl (\<lambda>d x. dput (l_utt_id x) (l_text x) d) [] (partner_lines (channel_of bb CpLane))"

definition cited :: "readback_slot \<Rightarrow> string" where
  "cited s = (case rs_source_utt s of None \<Rightarrow> ''None'' | Some u \<Rightarrow> u)"

definition bound_to_line :: "blackboard \<Rightarrow> readback_slot \<Rightarrow> bool" where
  "bound_to_line bb s \<longleftrightarrow> (case dget (rep_said bb) (cited s) of
      None \<Rightarrow> False
    | Some t \<Rightarrow> set (slot_numbers s) \<subseteq> set (spoken_numbers t (rs_unit s)))"

section \<open>The name of a fee or credit\<close>

definition code_word_char :: "char \<Rightarrow> bool" where
  "code_word_char c \<longleftrightarrow> is_lower c \<or> is_digit c"

(* slow/offer_slots.py 204-204 _CODE *)
definition snake_code :: "string \<Rightarrow> bool" where
  "snake_code s \<longleftrightarrow> list_all (\<lambda>w. w \<noteq> [] \<and> list_all code_word_char w) (split_on (CHR ''_'') s)"

(* slow/offer_slots.py 205-205 _TOKEN *)
definition NAME_TOKEN_RX :: rx where
  "NAME_TOKEN_RX = RSeq (rplus (RChar code_word_char)) (RStar (RSeq (RChar (\<lambda>c. c \<in> set ''.,'')) (rplus rdigit)))"

(* slow/offer_slots.py 208-230 _named *)
definition name_problems :: "readback_slot \<Rightarrow> string \<Rightarrow> slot_problem list" where
  "name_problems s line =
     (let k = kind_of (rs_field s); code = after (CHR '':'') (rs_field s) in
      if k \<notin> {''fee'', ''credit''} then []
      else if \<not> snake_code code then [NotACode (rs_field s)]
      else concat (map (\<lambda>w.
        if w \<in> set (GENERIC k) then [GenericWord (rs_field s) w]
        else if w \<notin> set (findall NAME_TOKEN_RX (lower line)) then [NotInLine (rs_field s) w] else [])
          (split_on (CHR ''_'') code)))"

section \<open>Values of the other units\<close>

text \<open>\<open>_DAY.match\<close>: ten characters of a day at the start.\<close>

definition day_first :: "string \<Rightarrow> bool" where
  "day_first s \<longleftrightarrow> 10 \<le> length s \<and> list_all (\<lambda>i. if i = 4 \<or> i = 7 then s ! i = CHR ''-'' else is_digit (s ! i)) [0..<10]"

(* slow/offer_slots.py 142-147 _zoned *)
definition zoned :: "externals \<Rightarrow> string \<Rightarrow> bool" where
  "zoned oc v \<longleftrightarrow> (case or_iso oc v of None \<Rightarrow> False | Some d \<Rightarrow> dt_offset d \<noteq> None) \<and> day_first v"

(* slow/offer_slots.py 131-139 value *)
definition value_problems :: "externals \<Rightarrow> readback_slot \<Rightarrow> slot_problem list" where
  "value_problems oc s =
     (let v = rs_value s in
      if rs_unit s = BoolUnit \<and> v \<notin> {''true'', ''false''} then [NotBool (rs_field s) v]
      else if rs_unit s = Iso \<and> v \<noteq> ''none'' \<and> \<not> zoned oc v then [NotIso (rs_field s) v]
      else [])"

text \<open>Microseconds of a moment with an offset, since the start of the calendar.\<close>

definition utc_micro :: "datetime \<Rightarrow> int" where
  "utc_micro d = ((to_ordinal d * 86400 + day_seconds d) - (case dt_offset d of None \<Rightarrow> 0 | Some o' \<Rightarrow> o')) * 1000000 + dt_micro d"

(* slow/offer_slots.py 250-262 _expires_ms *)
definition expires_at_ms :: "externals \<Rightarrow> (int \<Rightarrow> int) \<Rightarrow> readback_slot list \<Rightarrow> int \<Rightarrow> datetime \<Rightarrow> int option" where
  "expires_at_ms oc ms_of slots t now =
     (case filter (\<lambda>s. rs_field s = ''expires'') slots of
        [] \<Rightarrow> None
      | s # _ \<Rightarrow> (case or_iso oc (str_replace ''Z'' ''+00:00'' (rs_value s)) of
          None \<Rightarrow> None
        | Some d \<Rightarrow> if dt_offset d = None then None else Some (max 0 (t + ms_of (utc_micro d - utc_micro now)))))"

section \<open>Recording an offer\<close>

datatype offer_result =
    Refusal "slot_problem list"
  | Unbound "readback_slot list"
  | Unchanged int
  | TooMany
  | RecordedOffer offer_payload

definition slot_terms :: "readback_slot \<Rightarrow> string \<times> string \<times> slot_unit \<times> slot_role" where
  "slot_terms s = (rs_field s, rs_value s, rs_unit s, rs_role s)"

text \<open>\<open>_terms(a) == _terms(b)\<close>: sorted lists are equal iff the multisets are.\<close>

(* slow/offer_slots.py 279-280 _terms *)
definition same_terms :: "readback_slot list \<Rightarrow> readback_slot list \<Rightarrow> bool" where
  "same_terms a b \<longleftrightarrow> mset (map slot_terms a) = mset (map slot_terms b)"

definition new_revision :: "offer_public option \<Rightarrow> int" where
  "new_revision prev = (case prev of None \<Rightarrow> 1 | Some p \<Rightarrow> o_revision p + 1)"

(* slow/offer_slots.py 150-195 record_offer *)
definition record_offer ::
  "externals \<Rightarrow> (int \<Rightarrow> int) \<Rightarrow> blackboard \<Rightarrow> string \<Rightarrow> json list \<Rightarrow> int \<Rightarrow> datetime \<Rightarrow> offer_result outcome"
where
  "record_offer oc ms_of bb ref raw t wall =
     (let bad = concat (map shape_problems raw) in
      if bad \<noteq> [] then Inr (Refusal bad)
      else if slot_conflicts raw \<noteq> [] then Inr (Refusal (slot_conflicts raw))
      else
        let slots = map slot_of raw; unbound = filter (\<lambda>s. \<not> bound_to_line bb s) slots in
        if \<not> list_all slot_valid slots then Inl (ValidationError ''ReadbackSlot'')
        else if unbound \<noteq> [] then Inr (Unbound unbound)
        else
          let unnamed = concat (map (\<lambda>s. name_problems s (case dget (rep_said bb) (cited s) of None \<Rightarrow> [] | Some x \<Rightarrow> x)) slots);
              wrong = concat (map (value_problems oc) slots);
              prev = dget (pub_offers (bb_public bb)) ref; rev = new_revision prev in
          if unnamed \<noteq> [] then Inr (Refusal unnamed)
          else if wrong \<noteq> [] then Inr (Refusal wrong)
          else if (case prev of None \<Rightarrow> False | Some p \<Rightarrow> o_status p = OfferOpen \<and> same_terms (o_slots p) slots)
            then Inr (Unchanged (rev - 1))
          else if prev = None \<and> length (pub_offers (bb_public bb)) \<ge> MAX_OFFERS then Inr TooMany
          else if \<not> offer_valid \<lparr>o_ref = ref, o_revision = rev, o_slots = slots, o_status = OfferOpen,
              o_expires_ms = None, o_terms_hash = None\<rparr> then Inl (ValidationError ''OfferPublic'')
          else Inr (RecordedOffer \<lparr>op_offer_ref = ref, op_revision = rev, op_slots = slots,
              op_expires_ms = expires_at_ms oc ms_of slots t wall\<rparr>))"

(* slow/offer_slots.py 169-195 record_offer *)
definition record_effects :: "offer_result \<Rightarrow> effect list" where
  "record_effects r = (case r of
      RecordedOffer p \<Rightarrow> [(''offer.recorded'', POffer p)]
    | Unbound _ \<Rightarrow> [(''declass.denied'', PKeys [''violations''])]
    | _ \<Rightarrow> [])"

end
