(* ===== verification/Offer_Slots_Facts.thy ===== *)
theory Offer_Slots_Facts
  imports Offer_Slots
begin

text \<open>What an offer that was recorded is bound to, and that a refused one leaves nothing behind.\<close>

lemma rep_said_line:
  "dget (rep_said bb) u = Some t \<Longrightarrow>
     \<exists>x \<in> set (ch_lines (channel_of bb CpLane)). l_speaker x = Partner \<and> l_utt_id x = u \<and> l_text x = t"
  unfolding rep_said_def by (drule dget_foldl_dput) (auto simp: partner_lines_def)

lemma concat_map_Nil: "concat (map f xs) = [] \<longleftrightarrow> (\<forall>x \<in> set xs. f x = [])"
  by auto

lemma slot_of_simps [simp]:
  "rs_field (slot_of r) = text_at r ''field''" "rs_unit (slot_of r) = unit_of_kind (kind_of (text_at r ''field''))"
  "rs_source_utt (slot_of r) = Some (text_at r ''utt_ref'')"
  by (simp_all add: slot_of_def Let_def)

lemma name_problems_Nil:
  assumes "name_problems s line = []" "kind_of (rs_field s) \<in> {''fee'', ''credit''}"
    and "w \<in> set (split_on (CHR ''_'') (after (CHR '':'') (rs_field s)))"
  shows "w \<notin> set (GENERIC (kind_of (rs_field s))) \<and> w \<in> set (findall NAME_TOKEN_RX (lower line))"
proof -
  have "\<forall>w \<in> set (split_on (CHR ''_'') (after (CHR '':'') (rs_field s))).
      (if w \<in> set (GENERIC (kind_of (rs_field s))) then [GenericWord (rs_field s) w]
       else if w \<notin> set (findall NAME_TOKEN_RX (lower line)) then [NotInLine (rs_field s) w] else []) = []"
    using assms(1,2) unfolding name_problems_def Let_def by (simp only: concat_map_Nil split: if_splits) simp_all
  from bspec [OF this assms(3)] show ?thesis by (simp split: if_splits)
qed

lemma record_offer_cases:
  assumes "record_offer oc ms_of bb ref raw t wall = Inr (RecordedOffer p)"
  shows "op_slots p = map slot_of raw" "op_offer_ref p = ref" "slot_conflicts raw = []"
    "\<forall>r \<in> set raw. shape_problems r = []"
    "\<forall>s \<in> set (op_slots p). slot_valid s \<and> bound_to_line bb s \<and> value_problems oc s = [] \<and>
       name_problems s (case dget (rep_said bb) (cited s) of None \<Rightarrow> [] | Some x \<Rightarrow> x) = []"
    "op_revision p = new_revision (dget (pub_offers (bb_public bb)) ref)"
    "op_expires_ms p = expires_at_ms oc ms_of (op_slots p) t wall"
    "\<not> (dget (pub_offers (bb_public bb)) ref = None \<and> length (pub_offers (bb_public bb)) \<ge> MAX_OFFERS)"
    "offer_ref_re ref \<and> length (op_slots p) \<le> MAX_SLOTS"
  using assms unfolding record_offer_def Let_def concat_map_Nil
  by (auto simp: filter_empty_conv list_all_iff offer_valid_def split: if_splits)

lemma no_repeats: "slot_conflicts raw = [] \<Longrightarrow> raw \<noteq> [] \<and> distinct (map (\<lambda>s. text_at s ''field'') raw)"
proof -
  assume "slot_conflicts raw = []"
  let ?fs = "map (\<lambda>s. text_at s ''field'') raw"
  from \<open>slot_conflicts raw = []\<close> have "raw \<noteq> []"
    and "map Repeats (sort (remdups (filter (\<lambda>f. count_list ?fs f > 1) ?fs))) = []"
    unfolding slot_conflicts_def Let_def append_is_Nil_conv by (simp_all only: split: if_splits) simp_all
  then have "set (sort (remdups (filter (\<lambda>f. count_list ?fs f > 1) ?fs))) = {}" by (simp only: map_is_Nil_conv list.set)
  then have s: "filter (\<lambda>f. count_list ?fs f > 1) ?fs = []" by (simp only: set_sort set_remdups set_empty)
  have d: "distinct xs" if "\<forall>x \<in> set xs. \<not> count_list xs x > 1" for xs :: "string list"
    using that
  proof (induction xs)
    case (Cons a xs)
    have "\<not> count_list (a # xs) a > 1" by (rule bspec [OF Cons.prems]) simp
    then have "count_list xs a = 0" by simp
    moreover have "\<not> count_list xs x > 1" if "x \<in> set xs" for x using bspec [OF Cons.prems, of x] that
      by (simp split: if_splits)
    ultimately show ?case using Cons.IH by (simp add: count_list_0_iff)
  qed simp
  show ?thesis using \<open>raw \<noteq> []\<close> d [of ?fs] s by (simp add: filter_empty_conv)
qed

text \<open>C35. An offer is recorded only whole and only as the rep said it: every slot cites a line of the rep that says each
  of its numbers in its unit, the words of a fee's or credit's code are whole words of that line and none is
  generic, no field repeats, each role and unit is that of its field, and the revision is the next one.\<close>
theorem recorded_offer_was_said:
  assumes "record_offer oc ms_of bb ref raw t wall = Inr (RecordedOffer p)" "s \<in> set (op_slots p)"
  shows "(\<exists>x \<in> set (ch_lines (channel_of bb CpLane)). l_speaker x = Partner \<and> rs_source_utt s = Some (l_utt_id x) \<and>
      set (slot_numbers s) \<subseteq> set (spoken_numbers (l_text x) (rs_unit s)) \<and>
      (kind_of (rs_field s) \<in> {''fee'', ''credit''} \<longrightarrow>
        (\<forall>w \<in> set (split_on (CHR ''_'') (after (CHR '':'') (rs_field s))).
           w \<in> set (findall NAME_TOKEN_RX (lower (l_text x))) \<and> w \<notin> set (GENERIC (kind_of (rs_field s)))))) \<and>
    rs_unit s = unit_of_kind (kind_of (rs_field s)) \<and> distinct (map rs_field (op_slots p)) \<and>
    op_revision p = new_revision (dget (pub_offers (bb_public bb)) ref)"
proof -
  note r = record_offer_cases [OF assms(1)]
  from r(1) assms(2) obtain raw_slot where rs: "s = slot_of raw_slot" by auto
  from r(5) assms(2) have b: "bound_to_line bb s"
    and n: "name_problems s (case dget (rep_said bb) (cited s) of None \<Rightarrow> [] | Some x \<Rightarrow> x) = []" by blast+
  from b obtain heard_text where heard_text: "dget (rep_said bb) (cited s) = Some heard_text" "set (slot_numbers s) \<subseteq> set (spoken_numbers heard_text (rs_unit s))"
    by (auto simp: bound_to_line_def split: option.splits)
  obtain x where x: "x \<in> set (ch_lines (channel_of bb CpLane))" "l_speaker x = Partner" "l_utt_id x = cited s" "l_text x = heard_text"
    using rep_said_line [OF heard_text(1)] by blast
  have "rs_source_utt s = Some (l_utt_id x)" using x(3) rs by (simp add: cited_def)
  moreover have "kind_of (rs_field s) \<in> {''fee'', ''credit''} \<longrightarrow>
      (\<forall>w \<in> set (split_on (CHR ''_'') (after (CHR '':'') (rs_field s))).
         w \<in> set (findall NAME_TOKEN_RX (lower (l_text x))) \<and> w \<notin> set (GENERIC (kind_of (rs_field s))))"
    using name_problems_Nil [of s heard_text] n heard_text(1) x(4) by simp
  moreover have "distinct (map rs_field (op_slots p))"
    using no_repeats [OF r(3)] unfolding r(1) by (simp add: comp_def)
  ultimately show ?thesis using x heard_text(2) rs r(6) by auto
qed

section \<open>At a concrete input\<close>

definition offer_line :: line where
  "offer_line = \<lparr>l_utt_id = ''u1'', l_speaker = Partner, l_text = ''It is $45 a month plus a $9 porting fee.''\<rparr>"

definition offer_board :: blackboard where
  "offer_board = initial_blackboard\<lparr>bb_channels := [(CpLane, new_channel\<lparr>ch_lines := [offer_line]\<rparr>)]\<rparr>"

definition raw_price :: json where
  "raw_price = JObj [(''field'', JStr ''monthly_price''), (''value'', JStr ''4500''), (''utt_ref'', JStr ''u1'')]"

definition raw_fee :: json where
  "raw_fee = JObj [(''field'', JStr ''fee:porting''), (''value'', JStr ''900''), (''utt_ref'', JStr ''u1'')]"

definition plain_externals :: externals where
  "plain_externals = \<lparr>or_sha = (\<lambda>s. s), or_iso = (\<lambda>_. None)\<rparr>"

definition offer_recorded :: offer_payload where
  "offer_recorded = \<lparr>op_offer_ref = ''o1'', op_revision = 1, op_slots = [slot_of raw_price, slot_of raw_fee], op_expires_ms = None\<rparr>"

lemma offer_records:
  "record_offer plain_externals (\<lambda>_. 0) offer_board ''o1'' [raw_price, raw_fee] 5 NO_EXPIRY = Inr (RecordedOffer offer_recorded)"
  by code_simp

theorem recorded_offer_was_said_witness:
  "\<exists>x. x \<in> set (ch_lines (channel_of offer_board CpLane)) \<and>
     set (slot_numbers (slot_of raw_fee)) \<subseteq> set (spoken_numbers (l_text x) UsdMinor)"
proof -
  have "slot_of raw_fee \<in> set (op_slots offer_recorded)" by (simp add: offer_recorded_def)
  moreover have "rs_unit (slot_of raw_fee) = UsdMinor" by code_simp
  ultimately show ?thesis using recorded_offer_was_said [OF offer_records, of "slot_of raw_fee"] by auto
qed

end
