(* ===== verification/Slow_Publish.thy ===== *)
theory Slow_Publish
  imports Offer_Slots
begin

text \<open>
  How a fact or a summary of Slow becomes public: \<open>slow/formats.py\<close> (what of a user's message may be published
  under a key) and, of \<open>slow/tools.py\<close>, \<open>record_fact\<close>, \<open>share_fact\<close> and the summaries. Texts are ASCII.
\<close>

section \<open>Four digits\<close>

definition closer_mark :: rx where
  "closer_mark = rseq [ropt (RChar (\<lambda>c. c = CHR '')'' \<or> c = CHR 0x22)), ropt (RChar (\<lambda>c. c \<in> set ''.,;:!?'')),
     RAlt rspace (RNotAhead (RChar (\<lambda>_. True)))]"

definition space_or_colon :: "char \<Rightarrow> bool" where
  "space_or_colon c \<longleftrightarrow> is_space c \<or> c = CHR '':''"

text \<open>\<open>_BEFORE\<close> looks two characters back: an opener that itself starts a token.\<close>

(* slow/formats.py 36-38 _BEFORE *)
definition token_before :: "string \<Rightarrow> nat \<Rightarrow> bool" where
  "token_before t i \<longleftrightarrow>
     i = 0 \<or> space_or_colon (t ! (i - 1)) \<or>
     ((t ! (i - 1) = CHR ''('' \<or> t ! (i - 1) = CHR 0x22) \<and> (i = 1 \<or> space_or_colon (t ! (i - 2))))"

(* slow/formats.py 50-57 _digits4 *)
definition digits4_span :: "string \<Rightarrow> string \<Rightarrow> string option" where
  "digits4_span v t =
     (if length v = 4 \<and> isdigit v \<and>
         list_ex (\<lambda>i. slice i (i + 4) t = v \<and> token_before t i \<and> rmatches closer_mark (drop (i + 4) t))
           [0..<length t - 3]
      then Some v else None)"

section \<open>Names\<close>

definition name_word_rx :: rx where
  "name_word_rx = RSeq (rplus (RChar is_letter))
     (RStar (RSeq (RChar (\<lambda>c. c = apostrophe \<or> c = CHR ''-'')) (rplus (RChar is_letter))))"

definition rupto :: "nat \<Rightarrow> rx \<Rightarrow> rx" where
  "rupto n r = ((\<lambda>x. ropt (RSeq r x)) ^^ n) REps"

(* slow/formats.py 15-16 _NAME *)
definition NAME_RX :: rx where
  "NAME_RX = RSeq name_word_rx (rupto 3 (RSeq (rlit '' '') name_word_rx))"

(* slow/formats.py 42-47 NUMBER_WORDS *)
definition NUMBER_WORDS :: "string list" where
  "NUMBER_WORDS =
    [''zero'', ''one'', ''two'', ''three'', ''four'', ''five'', ''six'', ''seven'', ''eight'', ''nine'', ''ten'',
     ''eleven'', ''twelve'', ''thirteen'', ''fourteen'', ''fifteen'', ''sixteen'', ''seventeen'', ''eighteen'',
     ''nineteen'', ''twenty'', ''thirty'', ''forty'', ''fifty'', ''sixty'', ''seventy'', ''eighty'', ''ninety'',
     ''hundred'', ''thousand'', ''million'', ''billion'', ''dozen'', ''half'']"

definition drop_end :: "string \<Rightarrow> string \<Rightarrow> string" where
  "drop_end p s = (if ends_in p s then take (length s - length p) s else s)"

(* slow/formats.py 88-91 _number_word *)
definition number_word :: "string \<Rightarrow> bool" where
  "number_word w \<longleftrightarrow> list_ex (\<lambda>x. x \<in> set NUMBER_WORDS)
     ([w, drop_end ''s'' w, drop_end ''es'' w] @ (if ends_in ''ies'' w then [take (length w - 3) w @ ''y''] else []))"

(* slow/formats.py 94-95 words *)
definition lower_words :: "string \<Rightarrow> string list" where
  "lower_words s = findall (rplus (RChar is_lower)) (casefold s)"

definition name_char :: "char \<Rightarrow> bool" where
  "name_char c \<longleftrightarrow> word_char c \<or> c = apostrophe \<or> c = CHR ''-''"

(* slow/formats.py 60-68 _name *)
definition name_span :: "string \<Rightarrow> string \<Rightarrow> string option" where
  "name_span v t =
     (if \<not> rfullmatch NAME_RX v \<or> length v > 60 \<or> list_ex number_word (lower_words v) then None
      else case finditer (rseq [RNotBehind name_char, rlit_ci (lower v), RNotAhead (RChar name_char)]) t of
        [] \<Rightarrow> None
      | m # _ \<Rightarrow> if rfullmatch NAME_RX (matched t m) then Some (matched t m) else None)"

section \<open>Years\<close>

(* slow/formats.py 23-27 _ONES *)
definition ONES :: "string list" where
  "ONES = take 20 NUMBER_WORDS"

(* slow/formats.py 28-30 _TENS *)
definition TENS :: "string list" where
  "TENS = [''twenty'', ''thirty'', ''forty'', ''fifty'', ''sixty'', ''seventy'', ''eighty'', ''ninety'']"

text \<open>The longer words first.\<close>

(* slow/formats.py 31-35 _SPELLED *)
definition SPELLED_RX :: rx where
  "SPELLED_RX = rseq
     [REdge,
      RAlt (RSeq (RGroup ''1'' (rlits_ci TENS))
             (ropt (RSeq (rplus (RChar (\<lambda>c. is_space c \<or> c = CHR ''-''))) (RGroup ''2'' (rlits_ci (take 9 (drop 1 ONES)))))))
           (RGroup ''3'' (rlits_ci (rev (sort_key length (rev ONES))))),
      REdge]"

(* slow/formats.py 83-85 _as_digits *)
definition as_digits :: "rmatch \<Rightarrow> string" where
  "as_digits m = (case rgroup ''3'' m of
      Some w \<Rightarrow> dec (index_of (lower w) ONES)
    | None \<Rightarrow> dec (10 * (index_of (lower (the (rgroup ''1'' m))) TENS + 2) +
        (case rgroup ''2'' m of None \<Rightarrow> 0 | Some u \<Rightarrow> index_of (lower u) ONES)))"

(* slow/formats.py 20-22 _TENURE *)
definition tenure_rx :: "string \<Rightarrow> rx" where
  "tenure_rx v = rseq
     [RNotBehind (\<lambda>c. word_char c \<or> c = CHR ''.''), rlit v, rplus rspace,
      RAlt (RSeq (rlit_ci ''year'') (ropt (rlit_ci ''s''))) (RSeq (rlit_ci ''yr'') (ropt (rlit_ci ''s''))), REdge,
      RNotAhead (rseq [rplus (RChar (\<lambda>c. is_space c \<or> c = CHR ''-'')),
        ralts [rlit_ci ''old'', rseq [rlit_ci ''of'', rplus rspace, rlit_ci ''age''], rlit_ci ''ago''], REdge])]"

(* slow/formats.py 71-80 _years *)
definition years_span :: "string \<Rightarrow> string \<Rightarrow> string option" where
  "years_span v t =
     (if isdigit v \<and> length v \<le> 2 \<and> rsearch (tenure_rx v) (rsub SPELLED_RX as_digits t) then Some v else None)"

(* slow/formats.py 99-105 FORMATS *)
definition FORMATS :: "(string, string \<Rightarrow> string \<Rightarrow> string option) dict" where
  "FORMATS = [(''account.last4'', digits4_span), (''account.holder_name'', name_span), (''tenure_years'', years_span)]"

(* slow/tools.py 443-451 _user_span *)
definition user_span :: "string \<Rightarrow> string \<Rightarrow> string \<Rightarrow> string option" where
  "user_span key v t = (case dget FORMATS key of None \<Rightarrow> None | Some f \<Rightarrow> f v t)"

section \<open>Leaks\<close>

(* slow/tools.py 463-492 _leaks *)
definition leaks :: "string \<Rightarrow> blackboard \<Rightarrow> string list" where
  "leaks span bb =
     map (\<lambda>k. ''the protected value of '' @ k) (protected_keys span bb) @
     (case mandate_of bb of None \<Rightarrow> []
      | Some m \<Rightarrow>
          (let minor = List.map_filter id [m_max_monthly_price_minor m, m_max_one_time_fees_minor m];
               bs = map of_whole minor @ map of_minor minor @
                 (case m_max_term_months m of None \<Rightarrow> [] | Some n \<Rightarrow> if n = 0 then [] else [of_whole n])
           in if rfullmatch decimal_rx span \<and> decimal_of span \<in> set bs
              then [span @ '' is a mandate bound''] else []))"

section \<open>Recording a fact\<close>

text \<open>The partner's lines of a lane by id; a later line of the same id replaces an earlier one.\<close>

(* slow/tools.py 433-435 _partner *)
definition partner_said :: "blackboard \<Rightarrow> lane \<Rightarrow> (string, string) dict" where
  "partner_said bb ln = foldl (\<lambda>d x. dput (l_utt_id x) (l_text x) d) [] (partner_lines (channel_of bb ln))"

definition relayed_refs :: "blackboard \<Rightarrow> (string, string option) dict" where
  "relayed_refs bb = foldl (\<lambda>d r. dput (f2s_msg_id r) (f2s_utt_ref r) d) []
     (filter (\<lambda>r. f2s_lane r = UserLane) (bb_f2s_pending bb))"

(* slow/tools.py 438-440 _said *)
definition said_in :: "string \<Rightarrow> string \<Rightarrow> bool" where
  "said_in v line =
     (if text_numbers v \<noteq> [] then set (text_numbers v) \<subseteq> set (text_numbers line)
      else contains (casefold v) (casefold line))"

text \<open>\<open>d.get(k) or k\<close> and \<open>d.get(k, "")\<close>.\<close>

definition relay_target :: "blackboard \<Rightarrow> string \<Rightarrow> string" where
  "relay_target bb r = (case dget (relayed_refs bb) r of Some (Some u) \<Rightarrow> if u = [] then r else u | _ \<Rightarrow> r)"

definition line_or_empty :: "(string, string) dict \<Rightarrow> string \<Rightarrow> string" where
  "line_or_empty d k = (case dget d k of None \<Rightarrow> [] | Some t \<Rightarrow> t)"

record fact_source_of =
  fo_rep :: bool
  fo_span :: "string option"
  fo_leaks :: "string list"
  fo_user_ref :: string

text \<open>Where a fact comes from: the cited rep line says it, or the span of the user's own message under its key's
  format.\<close>

(* slow/tools.py 387-404 SlowTools.fact *)
definition sources_of :: "string list \<Rightarrow> blackboard \<Rightarrow> string \<Rightarrow> string \<Rightarrow> string \<Rightarrow> fact_source_of" where
  "sources_of shareable bb key v r =
     (let line = line_or_empty (partner_said bb CpLane) r; msg = relay_target bb r;
          told = line_or_empty (partner_said bb UserLane) msg;
          span = (if key \<in> set shareable \<and> told \<noteq> [] then user_span key v told else None)
      in \<lparr>fo_rep = (line \<noteq> [] \<and> said_in v line), fo_span = span,
          fo_leaks = (case span of None \<Rightarrow> [] | Some x \<Rightarrow> leaks x bb), fo_user_ref = msg\<rparr>)"

definition known_ref :: "blackboard \<Rightarrow> string \<Rightarrow> bool" where
  "known_ref bb r \<longleftrightarrow>
     r \<in> set (dkeys (partner_said bb CpLane) @ dkeys (partner_said bb UserLane) @ dkeys (relayed_refs bb))"

definition keep_private_text :: "string list \<Rightarrow> string" where
  "keep_private_text shareable =
     (let can = sorted_names (filter (\<lambda>k. k \<in> set shareable) (dkeys FORMATS)) in
      '': only '' @ (if can = [] then ''no key'' else join '', '' can) @ '' can go public from the user, '' @
      ''by citing the utt of the user message that contains exactly the '' @
      ''value (a last4 as 4 digits, a holder name as the user wrote it, '' @
      ''tenure as '' @ [apostrophe] @ ''I'' @ [apostrophe] @ ''ve been with you (them, the company) for N years'' @ [apostrophe] @ ''); '' @
      ''other keys stay private'')"

text \<open>The result and the shareable value it records; \<open>ref\<close> is the JSON value of the argument \<open>utt_ref\<close>.\<close>

(* slow/tools.py 382-430 SlowTools.fact *)
definition record_fact ::
  "string list \<Rightarrow> blackboard \<Rightarrow> string \<Rightarrow> string \<Rightarrow> json \<Rightarrow> (result \<times> (string \<times> string) option) outcome"
where
  "record_fact shareable bb key v ref =
     (let r = json_str ref in
      if \<not> known_ref bb r
      then Inr (no (''utt_ref '' @ json_repr ref @ '' names no rep line, user message or user relay: '' @
                    ''cite the utt id of the line the fact came from'') [], None)
      else
        let f = sources_of shareable bb key v r; ref_text = (if ref = JNull then None else Some r) in
        if fo_rep f then
          (let pf = \<lparr>pf_key = key, pf_value = v, pf_source = CpUtt, pf_source_ref = r\<rparr> in
           if \<not> public_fact_valid pf then Inl (ValidationError ''PublicFact'')
           else Inr (okay ''recorded public'' [(''fact.recorded'', PFact \<lparr>fp_key = key, fp_value = v,
             fp_source_ref = Some r, fp_scope = ''public'', fp_source = Some ''cp_utt''\<rparr>)], None))
        else if fo_span f \<noteq> None \<and> fo_leaks f = [] then
          (let x = the (fo_span f);
               pf = \<lparr>pf_key = key, pf_value = x, pf_source = Shareable, pf_source_ref = fo_user_ref f\<rparr> in
           if \<not> public_fact_valid pf then Inl (ValidationError ''PublicFact'')
           else Inr (okay ''recorded public'' [(''fact.recorded'', PFact \<lparr>fp_key = key, fp_value = x,
             fp_source_ref = Some (fo_user_ref f), fp_scope = ''public'', fp_source = Some ''shareable''\<rparr>)], Some (key, x)))
        else
          (let cf = \<lparr>cf_key = key, cf_value = v, cf_protected = False, cf_source_ref = ref_text\<rparr>;
               recorded = (''fact.recorded'', PFact \<lparr>fp_key = key, fp_value = v, fp_source_ref = ref_text,
                 fp_scope = ''private'', fp_source = Some ''user''\<rparr>) in
           if \<not> case_fact_valid cf then Inl (ValidationError ''Fact'')
           else if key \<in> set shareable \<and> fo_leaks f \<noteq> []
             then Inr (okay (''recorded private, never public: '' @ join ''; '' (fo_leaks f))
               [recorded, (''declass.denied'', PKeys [''violations''])], None)
           else Inr (okay (''recorded private'' @ (if key \<in> set shareable then keep_private_text shareable else [])) [recorded], None)))"

section \<open>Sharing a fact and the summaries\<close>

definition fact_scope_of :: "result \<Rightarrow> string" where
  "fact_scope_of r = (case res_effects r of (_, PFact f) # _ \<Rightarrow> fp_scope f | _ \<Rightarrow> [])"

text \<open>\<open>text.removeprefix("recorded private").lstrip(":, ")\<close>.\<close>

definition why_private :: "string \<Rightarrow> string" where
  "why_private t = dropWhile (\<lambda>c. c \<in> set '':, '')
     (if starts_with ''recorded private'' t then drop 16 t else t)"

(* slow/tools.py 254-269 SlowTools._share *)
definition share_recorded ::
  "string list \<Rightarrow> blackboard \<Rightarrow> string \<Rightarrow> (result \<times> (string \<times> string) option) outcome"
where
  "share_recorded shareable bb key =
     (case share_fact bb key shareable of
        Some reason \<Rightarrow> Inr (denied ''share_fact'' reason, None)
      | None \<Rightarrow> (case dget (priv_case_facts (bb_private bb)) key of
          None \<Rightarrow> Inr (no (key @ '' is not recorded: record_fact it from the user'' @ [apostrophe] @ ''s message'') [], None)
        | Some held_fact \<Rightarrow>
            and_then (record_fact shareable bb key (cf_value held_fact)
                (case cf_source_ref held_fact of None \<Rightarrow> JNull | Some r \<Rightarrow> JStr r)) (\<lambda>(r, got).
              if \<not> res_ok r then Inr (r, got)
              else if fact_scope_of r \<noteq> ''public''
              then Inr (no (key @ '' stays private'' @
                (if why_private (res_text r) = [] then [] else '': '' @ why_private (res_text r))) [], got)
              else Inr (r, got))))"

(* slow/tools.py 177-187 SlowTools._summaries *)
definition set_summaries :: "blackboard \<Rightarrow> (string, string) dict \<Rightarrow> string \<Rightarrow> string option \<Rightarrow> result" where
  "set_summaries bb shared_values private pub =
     (let held_fact = (''summary.updated'', PSummary ''private'' private) in
      case pub of
        None \<Rightarrow> okay ''private summary updated'' [held_fact]
      | Some s \<Rightarrow>
          (let v = declassify s bb shared_values in
           if v \<noteq> [] then no (''public summary refused: '' @ join ''; '' v) [held_fact, (''declass.denied'', PKeys [''violations''])]
           else okay ''summaries updated'' [held_fact, (''summary.updated'', PSummary ''public'' s)]))"

section \<open>What becomes public\<close>

lemma partner_said_line:
  "dget (partner_said bb ln) u = Some t \<Longrightarrow>
     \<exists>x \<in> set (ch_lines (channel_of bb ln)). l_speaker x = Partner \<and> l_utt_id x = u \<and> l_text x = t"
  unfolding partner_said_def by (drule dget_foldl_dput) (auto simp: partner_lines_def)

lemma leaks_Nil:
  "leaks x bb = [] \<Longrightarrow> protected_keys x bb = [] \<and>
     (rfullmatch decimal_rx x \<longrightarrow> decimal_of x \<notin> set (mandate_numbers bb))"
  by (cases "mandate_of bb") (auto simp: leaks_def mandate_numbers_def Let_def split: if_splits)

lemma digits4_span_Some:
  "digits4_span v t = Some x \<Longrightarrow> x = v \<and> length v = 4 \<and> isdigit v \<and> (\<exists>i. slice i (i + 4) t = v \<and> token_before t i)"
  by (auto simp: digits4_span_def list_ex_iff split: if_splits)

lemma name_span_Some:
  "name_span v t = Some x \<Longrightarrow> \<exists>i j. x = slice i j t \<and> rfullmatch NAME_RX x \<and> \<not> list_ex number_word (lower_words v)"
  by (auto simp: name_span_def matched_def split: if_splits list.splits)

text \<open>C36. A fact of Slow becomes public in two ways only: the cited line of the rep says its value, or the user's own
  message does under a key that may be shared and has a format, as four standing digits, as a name of up to four
  words in the user's spelling, or as a number of years; and then the published text overlaps no protected value
  in any spelling and is no limit of the mandate.\<close>
theorem published_fact_has_source:
  assumes "record_fact shareable bb key v ref = Inr (r, got)"
    and "(''fact.recorded'', PFact f) \<in> set (res_effects r)" "fp_scope f = ''public''"
  shows "fp_key f = key \<and>
    ((\<exists>x \<in> set (ch_lines (channel_of bb CpLane)). l_speaker x = Partner \<and> fp_source_ref f = Some (l_utt_id x) \<and>
        fp_value f = v \<and> said_in v (l_text x)) \<or>
     (key \<in> set shareable \<and> key \<in> set (dkeys FORMATS) \<and>
      (\<exists>x \<in> set (ch_lines (channel_of bb UserLane)). l_speaker x = Partner \<and> fp_source_ref f = Some (l_utt_id x) \<and>
        user_span key v (l_text x) = Some (fp_value f)) \<and>
      protected_keys (fp_value f) bb = [] \<and>
      (rfullmatch decimal_rx (fp_value f) \<longrightarrow> decimal_of (fp_value f) \<notin> set (mandate_numbers bb))))"
proof -
  define s where "s = sources_of shareable bb key v (json_str ref)"
  from assms have known: "known_ref bb (json_str ref)"
    unfolding record_fact_def Let_def by (auto simp: no_def split: if_splits)
  show ?thesis
  proof (cases "fo_rep s")
    case True
    then obtain line where l: "dget (partner_said bb CpLane) (json_str ref) = Some line" "said_in v line"
      by (auto simp: s_def sources_of_def Let_def line_or_empty_def split: option.splits)
    then obtain x where x: "x \<in> set (ch_lines (channel_of bb CpLane))" "l_speaker x = Partner"
        "l_utt_id x = json_str ref" "l_text x = line" using partner_said_line by blast
    have "f = \<lparr>fp_key = key, fp_value = v, fp_source_ref = Some (json_str ref), fp_scope = ''public'', fp_source = Some ''cp_utt''\<rparr>"
      using assms(1,2) known True unfolding record_fact_def Let_def s_def [symmetric]
      by (auto simp: okay_def split: if_splits)
    then show ?thesis using l x by auto
  next
    case False
    then have span: "\<exists>x. fo_span s = Some x \<and> fo_leaks s = [] \<and>
        f = \<lparr>fp_key = key, fp_value = x, fp_source_ref = Some (fo_user_ref s), fp_scope = ''public'', fp_source = Some ''shareable''\<rparr>"
      using assms known unfolding record_fact_def Let_def s_def [symmetric]
      by (auto simp: okay_def split: if_splits)
    then obtain x where x: "fo_span s = Some x" "fo_leaks s = []" "fp_value f = x" "fp_key f = key"
        "fp_source_ref f = Some (fo_user_ref s)" by auto
    then obtain told where told: "dget (partner_said bb UserLane) (fo_user_ref s) = Some told" "key \<in> set shareable"
        "user_span key v told = Some x" "leaks x bb = []"
      by (auto simp: s_def sources_of_def Let_def line_or_empty_def split: option.splits if_splits)
    moreover have "key \<in> set (dkeys FORMATS)"
      using told(3) using dget_None_keys [of FORMATS key] by (cases "dget FORMATS key") (auto simp: user_span_def)
    moreover obtain y where "y \<in> set (ch_lines (channel_of bb UserLane))" "l_speaker y = Partner"
        "l_utt_id y = fo_user_ref s" "l_text y = told" using partner_said_line [OF told(1)] by blast
    ultimately show ?thesis using x leaks_Nil [of x bb] by auto
  qed
qed

text \<open>The user gives the last four digits of the account, and Slow records them.\<close>

definition digits_board :: blackboard where
  "digits_board = initial_blackboard\<lparr>bb_channels := [(CpLane, new_channel), (UserLane, new_channel
     \<lparr>ch_lines := [\<lparr>l_utt_id = ''u1'', l_speaker = Partner, l_text = ''It ends in 4821, OK.''\<rparr>]\<rparr>)],
     bb_private := initial_private\<lparr>priv_case_facts :=
       [(''pin'', \<lparr>cf_key = ''pin'', cf_value = ''7777'', cf_protected = True, cf_source_ref = None\<rparr>)]\<rparr>\<rparr>"

definition digits_fact :: fact_payload where
  "digits_fact = \<lparr>fp_key = ''account.last4'', fp_value = ''4821'', fp_source_ref = Some ''u1'',
     fp_scope = ''public'', fp_source = Some ''shareable''\<rparr>"

lemma digits_recorded:
  "record_fact [''account.last4''] digits_board ''account.last4'' ''4821'' (JStr ''u1'') =
     Inr (okay ''recorded public'' [(''fact.recorded'', PFact digits_fact)], Some (''account.last4'', ''4821''))"
  by code_simp

theorem published_fact_has_source_witness:
  "protected_keys ''4821'' digits_board = [] \<and>
   (\<exists>x. x \<in> set (ch_lines (channel_of digits_board UserLane)) \<and>
      user_span ''account.last4'' ''4821'' (l_text x) = Some ''4821'')"
proof -
  have "ch_lines (channel_of digits_board CpLane) = []" by code_simp
  moreover have "(''fact.recorded'', PFact digits_fact) \<in>
      set (res_effects (okay ''recorded public'' [(''fact.recorded'', PFact digits_fact)]))"
    by (simp add: okay_def)
  ultimately show ?thesis
    using published_fact_has_source [OF digits_recorded, of digits_fact] by (auto simp: digits_fact_def)
qed

end
