(* ===== verification/Slow_Heard.thy ===== *)
theory Slow_Heard
  imports Log_Bus
begin

text \<open>
  \<open>slow/heard.py\<close>: what became of each message of Slow that a turn of Fast voiced, read from the log.
\<close>

section \<open>The fates\<close>

(* slow/heard.py 16-16 State *)
datatype fate_state = FateDead | FatePlaying | FateHeard

(* slow/heard.py 17-17 _RANK *)
fun fate_rank :: "fate_state \<Rightarrow> nat" where
  "fate_rank FateDead = 0"
| "fate_rank FatePlaying = 1"
| "fate_rank FateHeard = 2"

(* slow/heard.py 20-23 Fate *)
record fate =
  fate_state :: fate_state
  fate_at :: "nat option"
  fate_superseded :: bool

definition dead_fate :: "bool \<Rightarrow> fate" where
  "dead_fate b = \<lparr>fate_state = FateDead, fate_at = None, fate_superseded = b\<rparr>"

text \<open>What the code reads of the log: turns by their event, cancelled generations, the sentences of a generation,
  and of the cp lane its deliveries and the number of each line. In a dictionary a later entry replaces an earlier one.\<close>

definition turn_of_event :: "event \<Rightarrow> (string \<times> bool) option" where
  "turn_of_event e = (if ev_type e \<noteq> ''fast.turn'' then None
     else case ev_payload e of PFastTurn _ g spoke \<Rightarrow> Some (g, spoke) | _ \<Rightarrow> None)"

(* slow/heard.py 41-41 fates *)
definition turns_by_event :: "event list \<Rightarrow> (string, string \<times> bool) dict" where
  "turns_by_event es = foldl (\<lambda>d e. dput (ev_event_id e) (the (turn_of_event e)) d) []
     (filter (\<lambda>e. turn_of_event e \<noteq> None) es)"

(* slow/heard.py 42-42 fates *)
definition cancelled_gens :: "event list \<Rightarrow> string list" where
  "cancelled_gens es = List.map_filter (\<lambda>e. if ev_type e \<noteq> ''fast.cancelled'' then None
     else case ev_payload e of PFastCancelled g _ \<Rightarrow> Some g | _ \<Rightarrow> None) es"

(* slow/heard.py 43-45 fates *)
definition gen_sentences :: "event list \<Rightarrow> string \<Rightarrow> string list" where
  "gen_sentences es g = List.map_filter (\<lambda>e. if ev_type e \<noteq> ''fast.sentence'' then None
     else case ev_payload e of PSentence _ h u _ \<Rightarrow> if h = g then Some u else None | _ \<Rightarrow> None) es"

definition cp_delivery :: "event \<Rightarrow> (string \<times> int \<times> bool) option" where
  "cp_delivery e = (if ev_type e \<noteq> ''utt.delivered'' then None
     else case ev_payload e of PUttDelivered ln u _ _ broke \<Rightarrow> if ln = ''cp'' then Some (u, ev_seq e, broke) else None
       | _ \<Rightarrow> None)"

(* slow/heard.py 50-50 fates *)
definition cp_deliveries :: "event list \<Rightarrow> (string, int \<times> bool) dict" where
  "cp_deliveries es = foldl (\<lambda>d x. dput (fst x) (snd x) d) [] (List.map_filter cp_delivery es)"

definition cp_line_seq :: "event \<Rightarrow> (string \<times> int) option" where
  "cp_line_seq e = (case cp_delivery e of Some (u, n, _) \<Rightarrow> Some (u, n)
     | None \<Rightarrow> if ev_type e \<noteq> ''utt.final'' then None
         else case ev_payload e of PUttFinal ln _ u _ \<Rightarrow> if ln = ''cp'' then Some (u, ev_seq e) else None | _ \<Rightarrow> None)"

(* slow/heard.py 51-51 fates *)
definition cp_said :: "event list \<Rightarrow> (string, int) dict" where
  "cp_said es = foldl (\<lambda>d x. dput (fst x) (snd x) d) [] (List.map_filter cp_line_seq es)"

(* slow/heard.py 52-52 fates *)
definition line_seqs :: "event list \<Rightarrow> line list \<Rightarrow> int list outcome" where
  "line_seqs es ls = map_outcome (\<lambda>x. case dget (cp_said es) (l_utt_id x) of
     None \<Rightarrow> Inl (KeyError (l_utt_id x)) | Some n \<Rightarrow> Inr n) ls"

text \<open>The fate a turn gives to what it voiced.\<close>

(* slow/heard.py 57-68 fates *)
definition turn_fate :: "event list \<Rightarrow> int list \<Rightarrow> (string \<times> bool) option \<Rightarrow> fate" where
  "turn_fate es seqs turn = (case turn of
      None \<Rightarrow> dead_fate False
    | Some (g, spoke) \<Rightarrow>
        if \<not> spoke \<or> g \<in> set (cancelled_gens es) then dead_fate False
        else
          let played = map (dget (cp_deliveries es)) (gen_sentences es g);
              ends = List.map_filter id played in
          if list_ex snd ends then dead_fate False
          else if played \<noteq> [] \<and> length ends = length played
            then \<lparr>fate_state = FateHeard, fate_at = Some (length (filter (\<lambda>q. q \<le> Max (set (map fst ends))) seqs)),
                  fate_superseded = False\<rparr>
          else \<lparr>fate_state = FatePlaying, fate_at = None, fate_superseded = False\<rparr>)"

(* slow/heard.py 69-71 fates *)
definition better_fate :: "string \<Rightarrow> fate \<Rightarrow> (string, fate) dict \<Rightarrow> (string, fate) dict" where
  "better_fate m f d = (case dget d m of
      None \<Rightarrow> dput m f d
    | Some old \<Rightarrow> if fate_rank (fate_state f) > fate_rank (fate_state old) then dput m f d else d)"

(* slow/heard.py 54-57 fates *)
fun voiced_fates :: "event list \<Rightarrow> int list \<Rightarrow> (string, fate) dict \<Rightarrow> event list \<Rightarrow> (string, fate) dict outcome" where
  "voiced_fates es seqs d [] = Inr d"
| "voiced_fates es seqs d (e # vs) =
     (case (ev_type e = ''s2f.voiced'', ev_payload e) of
        (True, PS2FVoiced m _) \<Rightarrow>
          (case ev_cause_ids e of
             [] \<Rightarrow> Inl IndexError
           | c # _ \<Rightarrow> voiced_fates es seqs (better_fate m (turn_fate es seqs (dget (turns_by_event es) c)) d) vs)
      | _ \<Rightarrow> voiced_fates es seqs d vs)"

(* slow/heard.py 78-82 fates *)
definition cp_guides :: "event list \<Rightarrow> (int \<times> string) list" where
  "cp_guides es = List.map_filter (\<lambda>e. if ev_type e \<noteq> ''s2f.msg'' then None
     else case ev_payload e of PS2F m \<Rightarrow> if s2f_lane m = CpLane \<and> s2f_guide m \<noteq> None then Some (ev_seq e, s2f_msg_id m) else None
       | _ \<Rightarrow> None) es"

(* slow/heard.py 73-77 fates *)
definition cp_requests :: "event list \<Rightarrow> (int \<times> string) list" where
  "cp_requests es = List.map_filter (\<lambda>e. if ev_type e \<noteq> ''fast.request'' then None
     else case ev_payload e of PFastRequest ln g _ \<Rightarrow> if ln = ''cp'' then Some (ev_seq e, g) else None | _ \<Rightarrow> None) es"

(* slow/heard.py 72-72 fates *)
definition ended_gens :: "event list \<Rightarrow> string list" where
  "ended_gens es = cancelled_gens es @ map fst (dvals (turns_by_event es))"

text \<open>A guide never voiced whose successor came while no generation that could render it was open.\<close>

(* slow/heard.py 83-87 fates *)
fun superseded_guides :: "event list \<Rightarrow> (int \<times> string) list \<Rightarrow> (string, fate) dict \<Rightarrow> (string, fate) dict" where
  "superseded_guides es ((q, m) # (q2, m2) # gs) d =
     superseded_guides es ((q2, m2) # gs)
       (if dget d m = None \<and> \<not> list_ex (\<lambda>(r, g). q < r \<and> r < q2 \<and> g \<notin> set (ended_gens es)) (cp_requests es)
        then dput m (dead_fate True) d else d)"
| "superseded_guides es _ d = d"

(* slow/heard.py 41-88 fates *)
definition fates :: "event list \<Rightarrow> line list \<Rightarrow> (string, fate) dict outcome" where
  "fates es ls =
     and_then (line_seqs es ls) (\<lambda>seqs.
     and_then (voiced_fates es seqs [] es) (\<lambda>d.
       Inr (superseded_guides es (cp_guides es) d)))"

(* slow/heard.py 91-94 heard_at *)
definition heard_at :: "event list \<Rightarrow> line list \<Rightarrow> (string, nat) dict outcome" where
  "heard_at es ls = and_then (fates es ls) (\<lambda>d.
     Inr (List.map_filter (\<lambda>(m, f). map_option (Pair m) (fate_at f)) d))"

section \<open>What a heard message was\<close>

definition last_delivery :: "event list \<Rightarrow> string \<Rightarrow> int" where
  "last_delivery es g = Max (set (map fst (List.map_filter id (map (dget (cp_deliveries es)) (gen_sentences es g)))))"

definition heard_whole :: "event list \<Rightarrow> string \<Rightarrow> bool" where
  "heard_whole es g \<longleftrightarrow> g \<notin> set (cancelled_gens es) \<and> gen_sentences es g \<noteq> [] \<and>
     (\<forall>u \<in> set (gen_sentences es g). \<exists>n. dget (cp_deliveries es) u = Some (n, False))"

lemma map_filter_id_full: "length (List.map_filter id xs) = length xs \<longleftrightarrow> None \<notin> set xs"
proof (induction xs)
  case (Cons x xs)
  have "length (List.map_filter id xs) \<le> length xs" by (simp add: map_filter_def)
  with Cons show ?case by (cases x) (auto simp: List.map_filter_simps id_def)
qed (simp add: List.map_filter_simps)

lemma set_map_filter_id: "set (List.map_filter id xs) = {x. Some x \<in> set xs}"
  by (induction xs) (auto simp: List.map_filter_simps split: option.splits)

lemma turn_fate_heard:
  "fate_state (turn_fate es seqs turn) = FateHeard \<longleftrightarrow> (\<exists>g. turn = Some (g, True) \<and> heard_whole es g)"
proof (cases turn)
  case (Some x)
  obtain g spoke where x: "x = (g, spoke)" by (cases x)
  let ?played = "map (dget (cp_deliveries es)) (gen_sentences es g)"
  have "(\<not> list_ex snd (List.map_filter id ?played) \<and> ?played \<noteq> [] \<and> length (List.map_filter id ?played) = length ?played) =
      (gen_sentences es g \<noteq> [] \<and> (\<forall>u \<in> set (gen_sentences es g). \<exists>n. dget (cp_deliveries es) u = Some (n, False)))"
    (is "?l = ?r")
  proof
    assume l: ?l
    show ?r
    proof (intro conjI ballI)
      show "gen_sentences es g \<noteq> []" using l by simp
      fix u assume u: "u \<in> set (gen_sentences es g)"
      with l obtain y where y: "dget (cp_deliveries es) u = Some y"
        unfolding map_filter_id_full by (cases "dget (cp_deliveries es) u") (auto simp: image_iff)
      with u have "y \<in> set (List.map_filter id ?played)" by (auto simp: set_map_filter_id image_iff intro!: bexI [of _ u])
      with l have "\<not> snd y" by (auto simp: list_ex_iff)
      with y show "\<exists>n. dget (cp_deliveries es) u = Some (n, False)" by (cases y) auto
    qed
  next
    assume r: ?r
    then show ?l unfolding map_filter_id_full by (force simp: list_ex_iff set_map_filter_id image_iff)
  qed
  then show ?thesis by (auto simp: Some x turn_fate_def dead_fate_def heard_whole_def Let_def)
qed (simp add: turn_fate_def dead_fate_def)

lemma turn_fate_at:
  "fate_state (turn_fate es seqs turn) = FateHeard \<Longrightarrow> turn = Some (g, b) \<Longrightarrow>
     fate_at (turn_fate es seqs turn) = Some (length (filter (\<lambda>q. q \<le> last_delivery es g) seqs))"
  "fate_at (turn_fate es seqs turn) \<noteq> None \<Longrightarrow> fate_state (turn_fate es seqs turn) = FateHeard"
  by (auto simp: turn_fate_def dead_fate_def last_delivery_def Let_def split: option.splits if_splits)

definition voices :: "event \<Rightarrow> string \<Rightarrow> string \<Rightarrow> bool" where
  "voices v m c \<longleftrightarrow> ev_type v = ''s2f.voiced'' \<and> (\<exists>g. ev_payload v = PS2FVoiced m g) \<and>
     (\<exists>cs. ev_cause_ids v = c # cs)"

definition fate_from :: "event list \<Rightarrow> int list \<Rightarrow> event list \<Rightarrow> string \<Rightarrow> fate \<Rightarrow> bool" where
  "fate_from es seqs vs m f \<longleftrightarrow> (\<exists>v \<in> set vs. \<exists>c. voices v m c \<and> f = turn_fate es seqs (dget (turns_by_event es) c))"

lemma better_fate_cases:
  "dget (better_fate m f d) k = Some x \<Longrightarrow> dget d k = Some x \<or> k = m \<and> x = f"
  by (auto simp: better_fate_def dict_simps split: option.splits if_splits)

lemma voiced_fates_from:
  assumes "voiced_fates es seqs d vs = Inr d'" "dget d' m = Some f"
  shows "dget d m = Some f \<or> fate_from es seqs vs m f"
  using assms
proof (induction vs arbitrary: d)
  case (Cons v vs)
  show ?case
  proof (cases "\<exists>m0 g c cs. ev_type v = ''s2f.voiced'' \<and> ev_payload v = PS2FVoiced m0 g \<and> ev_cause_ids v = c # cs")
    case True
    then obtain m0 g c cs where v: "ev_type v = ''s2f.voiced''" "ev_payload v = PS2FVoiced m0 g" "ev_cause_ids v = c # cs"
      by blast
    from Cons.prems v Cons.IH have "dget (better_fate m0 (turn_fate es seqs (dget (turns_by_event es) c)) d) m = Some f \<or>
        fate_from es seqs vs m f" by auto
    then show ?thesis
      using better_fate_cases v unfolding fate_from_def voices_def by fastforce
  next
    case False
    with Cons.prems(1) have "voiced_fates es seqs d vs = Inr d'"
      by (auto split: payload.splits bool.splits list.splits)
    from Cons.IH [OF this Cons.prems(2)] show ?thesis by (auto simp: fate_from_def)
  qed
qed simp

lemma superseded_guides_from:
  "dget (superseded_guides es gs d) m = Some f \<Longrightarrow> dget d m = Some f \<or> f = dead_fate True"
  by (induction es gs d rule: superseded_guides.induct) (auto simp: dict_simps split: if_splits)

text \<open>A message counts as heard only when a turn of Fast that voiced it spoke, was never cancelled, and every
  sentence of it was delivered on the phone without interruption; and it counts from the first line after the last
  of these deliveries.\<close>
theorem heard_was_delivered_whole:
  assumes "fates es ls = Inr d" "dget d m = Some f" "fate_state f = FateHeard"
  shows "\<exists>v \<in> set es. \<exists>c g seqs. voices v m c \<and> dget (turns_by_event es) c = Some (g, True) \<and> heard_whole es g \<and>
    line_seqs es ls = Inr seqs \<and> fate_at f = Some (length (filter (\<lambda>q. q \<le> last_delivery es g) seqs))"
proof -
  from assms(1) obtain seqs d' where s: "line_seqs es ls = Inr seqs" "voiced_fates es seqs [] es = Inr d'"
      "d = superseded_guides es (cp_guides es) d'"
    by (auto simp: fates_def and_then_eq_Inr)
  from superseded_guides_from assms(2,3) s(3) have "dget d' m = Some f" by (force simp: dead_fate_def)
  from voiced_fates_from [OF s(2) this] obtain v c where v: "v \<in> set es" "voices v m c"
      "f = turn_fate es seqs (dget (turns_by_event es) c)"
    by (auto simp: fate_from_def)
  from assms(3) v(3) obtain g where g: "dget (turns_by_event es) c = Some (g, True)" "heard_whole es g"
    using turn_fate_heard [of es seqs] by auto
  from turn_fate_at(1) [OF assms(3) [unfolded v(3)] g(1)] v s(1) g show ?thesis by blast
qed

text \<open>A guide is voiced by a turn of one sentence, which the rep hears whole.\<close>

definition heard_event :: "int \<Rightarrow> string \<Rightarrow> payload \<Rightarrow> string list \<Rightarrow> event" where
  "heard_event n ty p causes = \<lparr>ev_run_id = ''r'', ev_seq = n, ev_event_id = event_id ''r'' n, ev_t_ms = n, ev_wall = n,
     ev_wall_offset = None, ev_type = ty, ev_actor = ''kernel'', ev_stream = AgentStream, ev_cause_ids = causes, ev_epoch = 0,
     ev_payload = p\<rparr>"

definition heard_log :: "event list" where
  "heard_log = [heard_event 1 ''fast.turn'' (PFastTurn ''cp'' ''g1'' True) [''r:0''],
     heard_event 2 ''s2f.voiced'' (PS2FVoiced ''s2f-1'' ''g1'') [''r:1''],
     heard_event 3 ''fast.sentence'' (PSentence ''cp'' ''g1'' ''g1-u0'' ''Hello'') [''r:1''],
     heard_event 4 ''utt.delivered'' (PUttDelivered ''cp'' ''g1-u0'' ''Hello'' ''Hello'' False) [''r:3'']]"

lemma heard_log_fates:
  "fates heard_log [\<lparr>l_utt_id = ''g1-u0'', l_speaker = Agent, l_text = ''Hello''\<rparr>] =
     Inr [(''s2f-1'', \<lparr>fate_state = FateHeard, fate_at = Some 1, fate_superseded = False\<rparr>)]"
  by code_simp

theorem heard_was_delivered_whole_witness:
  "\<exists>c g. dget (turns_by_event heard_log) c = Some (g, True) \<and> heard_whole heard_log g"
  using heard_was_delivered_whole [OF heard_log_fates, of "''s2f-1''" "\<lparr>fate_state = FateHeard, fate_at = Some 1, fate_superseded = False\<rparr>"]
  by auto

end
