(* ===== verification/Slow_Guide.thy ===== *)
theory Slow_Guide
  imports Slow_Publish Slow_Heard Slow_Authority Calls Render
begin

text \<open>
  What Slow says to the voices: \<open>slow/asks.py\<close> (a question to the user, the start of the call), \<open>slow/shape.py\<close> and, of
  \<open>slow/tools.py\<close>, the state of the tools, the messages to Fast and \<open>guide_fast\<close>. The table of profiles is a parameter.
\<close>

section \<open>The state of the tools\<close>

text \<open>A tracked read-back ask: the message, the call it was sent in, and Guard's ask.\<close>

(* slow/tools.py 53-77 SlowTools.__init__ *)
record slow_tools =
  to_shareable :: "(string, string) dict"
  to_finished :: bool
  to_n :: nat
  to_mandates :: nat
  to_asked :: "(string \<times> int, string list) dict"
  to_final_asks :: "string list"
  to_guides :: "(string \<times> guide_move) list"
  to_told_at :: "nat option"
  to_readback_asks :: "(string, (string \<times> nat \<times> Readback.ask) list) dict"
  to_received :: "string list"

definition new_tools :: slow_tools where
  "new_tools = \<lparr>to_shareable = [], to_finished = False, to_n = 0, to_mandates = 0, to_asked = [], to_final_asks = [],
     to_guides = [], to_told_at = None, to_readback_asks = [], to_received = []\<rparr>"

text \<open>A tool returns the state and its result; also when it raises, it may have changed the state.\<close>

type_synonym tool_run = "slow_tools \<times> result outcome"

text \<open>The arguments of a call: \<open>a[k]\<close> and \<open>a.get(k)\<close>.\<close>

type_synonym arguments = "(string, json) dict"

definition arg :: "arguments \<Rightarrow> string \<Rightarrow> json outcome" where
  "arg a k = (case dget a k of None \<Rightarrow> Inl (KeyError k) | Some v \<Rightarrow> Inr v)"

definition arg_or_none :: "arguments \<Rightarrow> string \<Rightarrow> json" where
  "arg_or_none a k = (case dget a k of None \<Rightarrow> JNull | Some v \<Rightarrow> v)"

definition arg_str :: "arguments \<Rightarrow> string \<Rightarrow> string outcome" where
  "arg_str a k = and_then (arg a k) (\<lambda>v. Inr (json_str v))"

fun truthy :: "json \<Rightarrow> bool" where
  "truthy JNull = False"
| "truthy (JBool b) = b"
| "truthy (JInt n) = (n \<noteq> 0)"
| "truthy (JStr s) = (s \<noteq> [])"
| "truthy (JList xs) = (xs \<noteq> [])"
| "truthy (JObj ms) = (ms \<noteq> [])"

text \<open>Iterating a JSON value: the items of a list, the characters of a text, the keys of an object.\<close>

fun iter_json :: "json \<Rightarrow> json list outcome" where
  "iter_json (JList xs) = Inr xs"
| "iter_json (JStr s) = Inr (map (\<lambda>c. JStr [c]) s)"
| "iter_json (JObj ms) = Inr (map JStr (dkeys ms))"
| "iter_json _ = Inl TypeError"

fun json_text :: "json \<Rightarrow> string option" where
  "json_text (JStr s) = Some s"
| "json_text _ = None"

section \<open>Messages to Fast\<close>

(* slow/tools.py 375-380 SlowTools._s2f *)
definition send_s2f :: "slow_tools \<Rightarrow> lane \<Rightarrow> s2f_type \<Rightarrow> string \<Rightarrow> guide option \<Rightarrow> tool_run" where
  "send_s2f ts ln ty s g =
     (let n = to_n ts + 1; i = ''s2f-'' @ dec n;
          msg = \<lparr>s2f_msg_id = i, s2f_lane = ln, s2f_ty = ty, s2f_text = s, s2f_guide = g, s2f_approval_id = None\<rparr>
      in (ts\<lparr>to_n := n\<rparr>,
          if \<not> s2f_valid msg then Inl (ValidationError ''SlowToFast'')
          else Inr (okay (''sent '' @ i) [(''s2f.msg'', PS2F msg)])))"

section \<open>Asking the user, starting the call\<close>

text \<open>A sign outside ASCII in the text of a refusal is written in words.\<close>

(* slow/asks.py 19-19 MAX_KEYS *)
definition MAX_KEYS :: nat where "MAX_KEYS = 8"

(* slow/asks.py 38-56 ask_problem *)
definition ask_problem :: "arguments \<Rightarrow> string list \<Rightarrow> needs_ledger \<Rightarrow> result option" where
  "ask_problem a shareable l =
     (let keys = arg_or_none a ''keys'' in
      if keys = JNull \<or> keys = JList [] then None
      else case keys of
        JList names \<Rightarrow>
          if length names > MAX_KEYS
          then Some (refused InvalidArgs (''invalid arguments: keys: at most '' @ dec MAX_KEYS @ '' keys''))
          else
            let bad = filter (\<lambda>k. case json_text k of None \<Rightarrow> True | Some s \<Rightarrow> s \<notin> set shareable) names in
            if bad \<noteq> [] then Some (refused InvalidArgs (''invalid arguments: keys: '' @ join '', '' (map json_str bad) @
                '' is not one of the SHAREABLE FACT KEYS; ask for anything else without keys''))
            else map_option (\<lambda>d. no d []) (ask_denial l (List.map_filter json_text names))
      | _ \<Rightarrow> Some (refused InvalidArgs (''invalid arguments: keys: at most '' @ dec MAX_KEYS @ '' keys'')))"

(* slow/asks.py 59-68 start_call *)
definition slow_start_call :: "blackboard \<Rightarrow> calls \<Rightarrow> result" where
  "slow_start_call bb c =
     (if ca_opened c \<noteq> None \<or> ca_deadline_ms c = None then no ''the call is already open'' []
      else case start_denial (ca_needs c) (calls_missing c bb) of
        Some d \<Rightarrow> no (''refused: '' @ d) [(''action.denied'', PActionDenied ''start_call'' ''readiness_not_replied'')]
      | None \<Rightarrow> okay ''the call opens now; the phone voice discloses first'' [])"

section \<open>The shape of an act\<close>

(* slow/shape.py 13-13 ACT_KEYS *)
definition ACT_KEYS :: "string list" where
  "ACT_KEYS = [''private_summary'', ''public_summary'', ''calls'']"

(* slow/shape.py 14-14 ITEM *)
definition ITEM :: string where
  "ITEM = [CHR 0x7B, CHR 0x22] @ ''tool'' @ [CHR 0x22] @ '': <tool name>, ...its arguments'' @ [CHR 0x7D]"

(* slow/shape.py 17-27 act_problem *)
definition act_problem :: "arguments \<Rightarrow> string option" where
  "act_problem args =
     (let extra = sort (filter (\<lambda>k. k \<notin> set ACT_KEYS) (dkeys args)) in
      if extra \<noteq> [] then Some (''act takes only '' @ join '', '' ACT_KEYS @ '', not '' @ join '', '' extra @
        '': nothing ran; put each action in calls as '' @ ITEM)
      else case dget args ''calls'' of
        None \<Rightarrow> None
      | Some (JList _) \<Rightarrow> None
      | Some _ \<Rightarrow> Some (''calls is a list of '' @ ITEM @ '': nothing ran''))"

(* slow/shape.py 30-39 item_problem *)
definition item_problem :: "nat \<Rightarrow> json \<Rightarrow> string option" where
  "item_problem n item =
     (case item of
        JObj ms \<Rightarrow>
          (case dget ms ''tool'' of
             None \<Rightarrow> Some (''calls['' @ dec n @ ''] has no tool (keys: '' @
               (if ms = [] then ''none'' else join '', '' (sort (dkeys ms))) @ ''); each is '' @ ITEM)
           | Some (JStr _) \<Rightarrow> None
           | Some v \<Rightarrow> Some (''calls['' @ dec n @ '']: tool must be a tool name, not '' @ json_repr v))
      | _ \<Rightarrow> Some (''calls['' @ dec n @ ''] is not an object '' @ ITEM))"

section \<open>Guiding the phone voice\<close>

(* slow/tools.py 39-39 CP_PROFILE *)
definition CP_PROFILE :: string where "CP_PROFILE = ''pl_cp_v3''"

definition MOVES :: "(string, guide_move) dict" where
  "MOVES = [(''open_call'', OPEN_CALL), (''identify'', guide_move.IDENTIFY), (''ask_discount'', ASK_DISCOUNT),
     (''cite_competitor'', CITE_COMPETITOR), (''mention_tenure'', MENTION_TENURE), (''cancel_lever'', CANCEL_LEVER),
     (''ask_readback'', ASK_READBACK), (''hold_for_decision'', HOLD_FOR_DECISION), (''decline_offer'', DECLINE_OFFER),
     (''ask_final_offer'', ASK_FINAL_OFFER), (''deflect_fact_request'', DEFLECT_FACT_REQUEST),
     (''close_call'', CLOSE_CALL), (''hold_for_fact'', HOLD_FOR_FACT)]"

text \<open>\<open>GuideSlotError\<close> alone makes a guide not public; any other error of the renderer goes on.\<close>

(* slow/tools.py 495-504 public_guide *)
definition public_guide :: "(string, profile) dict \<Rightarrow> blackboard \<Rightarrow> guide \<Rightarrow> bool outcome" where
  "public_guide profiles bb g =
     (case and_then (view_cp (bb\<lparr>bb_public := (bb_public bb)\<lparr>pub_guidance_cp := [g]\<rparr>\<rparr>)
               \<lparr>tg_kind = TrigGuidance, tg_msg_id = None, tg_wait_s = None\<rparr> [])
             (\<lambda>v. render_messages profiles v CP_PROFILE) of
        Inr _ \<Rightarrow> Inr True
      | Inl e \<Rightarrow> if e = ValueError ''guide slot'' then Inr False else Inl e)"

text \<open>\<open>tuple(a.get("slots") or ())\<close> and the validation of \<open>Guide\<close>.\<close>

(* slow/tools.py 280-280 SlowTools._guide *)
definition guide_of :: "arguments \<Rightarrow> guide outcome" where
  "guide_of a =
     and_then (arg a ''move'') (\<lambda>move.
     and_then (if truthy (arg_or_none a ''slots'') then iter_json (arg_or_none a ''slots'') else Inr []) (\<lambda>slots.
       case (case json_text move of None \<Rightarrow> None | Some w \<Rightarrow> dget MOVES w) of
         None \<Rightarrow> Inl (ValidationError ''Guide'')
       | Some m \<Rightarrow>
           (let g = \<lparr>g_move = m, g_slots = List.map_filter json_text slots\<rparr> in
            if list_all (\<lambda>s. json_text s \<noteq> None) slots \<and> guide_valid g then Inr g
            else Inl (ValidationError ''Guide''))))"

(* slow/tools.py 272-272 SlowTools._guide *)
definition guide_extra :: "arguments \<Rightarrow> string list" where
  "guide_extra a = sort (map fst (filter (\<lambda>(k, v). k \<notin> {''tool'', ''move'', ''slots''} \<and>
     v \<notin> {JNull, JStr [], JList []}) a))"

definition deny_guide :: "string \<Rightarrow> string \<Rightarrow> result" where
  "deny_guide t reason = no t [(''action.denied'', PActionDenied ''guide_fast'' reason)]"

text \<open>The call the cp lane is in: the openings so far.\<close>

(* slow/tools.py 368-373 SlowTools._call *)
definition cp_call :: "event list \<Rightarrow> nat" where
  "cp_call es = length (filter (\<lambda>e. ev_type e = ''chan.opened'' \<and>
     (case ev_payload e of PChan ln \<Rightarrow> ln = ''cp'' | _ \<Rightarrow> False)) es)"

(* slow/tools.py 329-329 SlowTools._asked *)
definition cited_offers :: "guide \<Rightarrow> string list" where
  "cited_offers g = sorted_names (remdups
     (map (\<lambda>s. before (CHR ''.'') (drop 6 s)) (filter (starts_with ''offer:'') (g_slots g))))"

definition append_at :: "'k \<Rightarrow> 'v \<Rightarrow> ('k, 'v list) dict \<Rightarrow> ('k, 'v list) dict" where
  "append_at k v d = dput k ((case dget d k of None \<Rightarrow> [] | Some vs \<Rightarrow> vs) @ [v]) d"

(* slow/tools.py 332-340 SlowTools._asked *)
definition track_ask :: "blackboard \<Rightarrow> nat \<Rightarrow> string \<Rightarrow> slow_tools \<Rightarrow> string \<Rightarrow> slow_tools" where
  "track_ask bb call msg ts ref = (case dget (offers bb) ref of
      None \<Rightarrow> ts
    | Some off \<Rightarrow>
        let p = ts\<lparr>to_asked := append_at (ref, o_revision off) msg (to_asked ts)\<rparr> in
        if o_status off = OfferOpen
        then p\<lparr>to_readback_asks := append_at ref (msg, call,
               \<lparr>ask_at = length (ch_lines (channel_of bb CpLane)),
                ask_terms = foldl (\<lambda>d s. dput (rs_field s) (rs_value s) d) [] (o_slots off)\<rparr>) (to_readback_asks p)\<rparr>
        else p)"

(* slow/tools.py 326-347 SlowTools._asked *)
definition track_asks :: "blackboard \<Rightarrow> event list \<Rightarrow> guide \<Rightarrow> string \<Rightarrow> slow_tools \<Rightarrow> slow_tools \<times> string" where
  "track_asks bb es g msg ts =
     (let refs = filter (\<lambda>r. dget (offers bb) r \<noteq> None) (cited_offers g) in
      (foldl (track_ask bb (cp_call es) msg) ts refs,
       if refs = [] then ''; no recorded offer cited: cite offer:<ref> to confirm one''
       else ''; read-back asked for '' @ join '', ''
         (map (\<lambda>r. r @ '' r'' @ dec_int (o_revision (the (dget (offers bb) r)))) refs)))"

definition with_text :: "result \<Rightarrow> string \<Rightarrow> result" where
  "with_text r t = okay (res_text r @ t) (res_effects r)"

text \<open>The guide as it is sent, by its move.\<close>

(* slow/tools.py 297-306 SlowTools._guide *)
definition send_guide :: "blackboard \<Rightarrow> event list \<Rightarrow> slow_tools \<Rightarrow> guide \<Rightarrow> tool_run" where
  "send_guide bb es ts g = (case send_s2f ts CpLane GUIDE [] (Some g) of
      (p, Inl e) \<Rightarrow> (p, Inl e)
    | (p, Inr sent) \<Rightarrow>
        let msg = ''s2f-'' @ dec (to_n p); q = p\<lparr>to_guides := to_guides p @ [(msg, g_move g)]\<rparr> in
        if g_move g = ASK_READBACK
        then (case track_asks bb es g msg q of (r, t) \<Rightarrow> (r, Inr (with_text sent t)))
        else
          let r = (if g_move g = ASK_FINAL_OFFER then q\<lparr>to_final_asks := to_final_asks q @ [msg]\<rparr> else q) in
          (r, Inr (if g_move g \<noteq> DEFLECT_FACT_REQUEST then sent
                   else with_text sent ''; the rep hears a refusal to share'')))"

(* slow/tools.py 307-311 SlowTools._guide *)
definition hidden_slots :: "(string, profile) dict \<Rightarrow> blackboard \<Rightarrow> guide \<Rightarrow> string list outcome" where
  "hidden_slots profiles bb g =
     and_then (map_outcome (\<lambda>s. and_then (public_guide profiles bb \<lparr>g_move = g_move g, g_slots = [s]\<rparr>)
       (\<lambda>p. Inr (s, p))) (g_slots g)) (\<lambda>xs. Inr (map fst (filter (\<lambda>(s, p). \<not> p) xs)))"

(* slow/tools.py 312-317 SlowTools._guide *)
definition public_slots :: "blackboard \<Rightarrow> string list" where
  "public_slots bb = map (\<lambda>k. ''fact:'' @ k) (sort (dkeys (pub_facts (bb_public bb)))) @
     concat (map (\<lambda>off. map (\<lambda>s. ''offer:'' @ o_ref off @ ''.'' @ rs_field s) (o_slots off)) (dvals (offers bb)))"

(* slow/tools.py 271-324 SlowTools._guide *)
definition guide_fast ::
  "(string, profile) dict \<Rightarrow> blackboard \<Rightarrow> event list \<Rightarrow> slow_tools \<Rightarrow> arguments \<Rightarrow> tool_run"
where
  "guide_fast profiles bb es ts a =
     (if guide_extra a \<noteq> [] then (ts, Inr (deny_guide
        (''guide_fast takes only move and slots, not '' @ join '', '' (guide_extra a) @ '': the '' @
         ''phone voice never gets free text; use ask_user/tell_user for the user'') ''guide_extra_fields''))
      else case guide_of a of
        Inl e \<Rightarrow> (ts, Inl e)
      | Inr g \<Rightarrow>
          (case lever_denial bb g of
             Some (reason, t) \<Rightarrow> (ts, Inr (deny_guide t reason))
           | None \<Rightarrow>
               if g_move g = guide_move.IDENTIFY \<and> \<not> list_ex (starts_with ''fact:'') (g_slots g)
               then (ts, Inr (deny_guide
                 (''identify names each public identity fact as fact:<key> (the '' @
                  ''facts line lists the public ones); if none is public, send no '' @
                  ''identify: when the representative asks, ask_user for it and '' @
                  ''guide_fast(hold_for_fact)'') ''identify_without_facts''))
               else (case public_guide profiles bb g of
                   Inl e \<Rightarrow> (ts, Inl e)
                 | Inr True \<Rightarrow> send_guide bb es ts g
                 | Inr False \<Rightarrow> (ts, and_then (hidden_slots profiles bb g) (\<lambda>hidden. Inr (deny_guide
                     (''not public: '' @ join '', '' hidden @ ''; public slots: '' @
                      (if public_slots bb = [] then ''none'' else join '', '' (public_slots bb)) @
                      ''. A shareable fact becomes public '' @
                      ''with record_fact(<canonical key>, value, utt_ref of the user'' @ [apostrophe] @ ''s message)'')
                     ''guide_slot_not_public''))))))"

end
