(* ===== verification/Slow_Tools.thy ===== *)
theory Slow_Tools
  imports Slow_Guide Offer_Slots Reader Slow_Evidence Wake
begin

text \<open>
  \<open>slow/tools.py\<close>: one answer of Slow, an \<open>act\<close>. It is a list of calls; each runs one tool on the board as it is then
  and logs a \<open>slow.tool\<close>, followed by the effects of the tool as the guard's. JSON is read by the standard
  library, so the value of the arguments is given; it has no floats. Parameters are the clock, the state of the
  call gate after the lines logged so far, what the subscribers of the bus do with a line (\<open>te_settle\<close>), and the
  wording of refusals that only Slow reads. The session's counters are left out.
\<close>

record tool_env =
  te_ext :: externals
  te_reader :: rep_reader
  te_profiles :: "(string, profile) dict"
  te_case :: case_ref
  te_shareable :: "string list"
  te_transcript :: bool
  te_calls :: "bus \<Rightarrow> calls"
  te_now :: "bus \<Rightarrow> int"
  te_wall :: "bus \<Rightarrow> datetime"
  te_ms_of :: "int \<Rightarrow> int"
  te_error_text :: "py_error \<Rightarrow> string"
  te_offer_text :: "offer_result \<Rightarrow> string"
  te_clock :: "bus \<Rightarrow> int \<times> int"
  te_settle :: "bus \<Rightarrow> bus outcome"

section \<open>Running one tool\<close>

text \<open>\<open>_INVALID\<close>: the errors of bad arguments. \<open>GuideMoveError\<close> is a \<open>ValueError\<close> that goes on.\<close>

(* slow/tools.py 40-40 _INVALID *)
definition invalid_error :: "py_error \<Rightarrow> bool" where
  "invalid_error e = (case e of
      ValidationError _ \<Rightarrow> True | ValueError s \<Rightarrow> s \<noteq> ''the profile has no text for the move''
    | KeyError _ \<Rightarrow> True | TypeError \<Rightarrow> True | OverflowError _ \<Rightarrow> True | ArithmeticError _ \<Rightarrow> True | _ \<Rightarrow> False)"

(* slow/tools.py 80-84 SlowTools.asked_final *)
definition asked_final :: "slow_tools \<Rightarrow> (string, nat) dict \<Rightarrow> nat option" where
  "asked_final ts hs =
     (let ns = List.map_filter (dget hs) (to_final_asks ts) in if ns = [] then None else Some (Max (set ns)))"

(* slow/tools.py 204-210 SlowTools._run *)
definition slow_wait :: "arguments \<Rightarrow> result outcome" where
  "slow_wait a = and_then (arg a ''seconds'') (\<lambda>v. Inr (case v of
      JInt n \<Rightarrow> if 1 \<le> n \<and> n \<le> HEARTBEAT_MS div 1000 then okay (''waking in '' @ dec_int n @ '' s'') []
        else refused InvalidArgs (''seconds must be an integer 1-15: in a call a heartbeat wakes you every 15 s anyway'')
    | _ \<Rightarrow> refused InvalidArgs (''seconds must be an integer 1-15: in a call a heartbeat wakes you every 15 s anyway'')))"

definition offer_outcome :: "tool_env \<Rightarrow> offer_result \<Rightarrow> result" where
  "offer_outcome v r = (case r of
      RecordedOffer _ \<Rightarrow> okay (te_offer_text v r) (record_effects r)
    | Unchanged _ \<Rightarrow> okay (te_offer_text v r) []
    | Refusal _ \<Rightarrow> refused InvalidArgs (te_offer_text v r)
    | _ \<Rightarrow> no (te_offer_text v r) (record_effects r))"

(* slow/tools.py 215-218 SlowTools._run *)
definition slow_record_offer :: "tool_env \<Rightarrow> bus \<Rightarrow> arguments \<Rightarrow> result outcome" where
  "slow_record_offer v b a =
     and_then (arg_str a ''offer_ref'') (\<lambda>ref.
     and_then (arg a ''offer_slots'') (\<lambda>raw.
     and_then (iter_json raw) (\<lambda>slots.
     and_then (record_offer (te_ext v) (te_ms_of v) (bus_bb b) ref slots (te_now v b) (te_wall v b)) (\<lambda>r.
       Inr (offer_outcome v r)))))"

text \<open>What \<open>_envelope\<close> does with an argument that is no object: \<open>set(raw)\<close> takes any iterable of hashable items, and
  with no unknown field left \<open>raw.get\<close> raises \<open>AttributeError\<close>.\<close>

(* slow/authority.py 267-274 _envelope *)
definition envelope_arg :: "json \<Rightarrow> arguments outcome" where
  "envelope_arg v = (case v of
      JObj ms \<Rightarrow> Inr ms
    | JStr s \<Rightarrow> if s = [] then Inl AttributeError else Inl (ValueError ''unknown envelope fields'')
    | JList xs \<Rightarrow>
        if list_ex (\<lambda>x. case x of JList _ \<Rightarrow> True | JObj _ \<Rightarrow> True | _ \<Rightarrow> False) xs then Inl TypeError
        else if list_all (\<lambda>x. case json_text x of None \<Rightarrow> False | Some k \<Rightarrow> k \<in> set BOUNDS \<or> k \<in> set LISTS) xs
        then Inl AttributeError
        else Inl (ValueError ''unknown envelope fields'')
    | _ \<Rightarrow> Inl TypeError)"

definition shared_value :: "slow_tools \<Rightarrow> (result \<times> (string \<times> string) option) outcome \<Rightarrow> tool_run" where
  "shared_value ts r = (case r of
      Inl e \<Rightarrow> (ts, Inl e)
    | Inr (x, None) \<Rightarrow> (ts, Inr x)
    | Inr (x, Some (k, s)) \<Rightarrow> (ts\<lparr>to_shareable := dput k s (to_shareable ts)\<rparr>, Inr x))"

(* slow/tools.py 247-252 SlowTools._run *)
definition slow_finish :: "tool_env \<Rightarrow> bus \<Rightarrow> slow_tools \<Rightarrow> string \<Rightarrow> tool_run" where
  "slow_finish v b ts outcome =
     (case and_then (heard_at (log_of b) (ch_lines (channel_of (bus_bb b) CpLane)))
             (\<lambda>hs. finish (te_ext v) (te_reader v) (bus_bb b) outcome (asked_final ts hs) (log_of b)) of
        Inl e \<Rightarrow> (ts, Inl e)
      | Inr r \<Rightarrow> (if res_ok r then ts\<lparr>to_finished := True\<rparr> else ts, Inr r))"

(* slow/tools.py 239-244 SlowTools._run *)
definition check_args :: "tool_env \<Rightarrow> bus \<Rightarrow> slow_tools \<Rightarrow> int option \<Rightarrow> arguments \<Rightarrow> result outcome" where
  "check_args v b ts basis a =
     and_then (arg_str a ''confirmation_id'') (\<lambda>conf.
       let line = arg_or_none a ''utt_ref'';
           cited = (if te_transcript v \<and> truthy line then Some (json_str line) else None)
       in check_account (te_ext v) (te_reader v) (bus_bb b) conf
            (filter (\<lambda>r. f2s_msg_id r \<in> set (to_received ts)) (bb_f2s_pending (bus_bb b))) (log_of b) cited basis)"

(* slow/tools.py 189-252 SlowTools._run *)
definition run_tool :: "tool_env \<Rightarrow> bus \<Rightarrow> int option \<Rightarrow> slow_tools \<Rightarrow> string \<Rightarrow> arguments \<Rightarrow> tool_run" where
  "run_tool v b basis ts name a =
     (let bb = bus_bb b; events = log_of b in
      if name = ''ask_user'' then
        (case ask_problem a (te_shareable v) (ca_needs (te_calls v b)) of
           Some r \<Rightarrow> (ts, Inr r)
         | None \<Rightarrow> (case arg_str a ''text'' of Inl e \<Rightarrow> (ts, Inl e) | Inr s \<Rightarrow> send_s2f ts UserLane ASK_USER s None))
      else if name = ''tell_user'' then
        (case arg_str a ''text'' of
           Inl e \<Rightarrow> (ts, Inl e)
         | Inr s \<Rightarrow> (case send_s2f ts UserLane TELL_USER s None of
             (p, Inl e) \<Rightarrow> (p, Inl e)
           | (p, Inr r) \<Rightarrow> (p\<lparr>to_told_at := Some (length (ch_lines (channel_of bb CpLane)))\<rparr>, Inr r)))
      else if name = ''start_call'' then (ts, Inr (slow_start_call bb (te_calls v b)))
      else if name = ''wait'' then (ts, slow_wait a)
      else if name = ''guide_fast'' then guide_fast (te_profiles v) bb events ts a
      else if name = ''record_fact'' then
        shared_value ts (and_then (arg_str a ''key'') (\<lambda>k. and_then (arg_str a ''value'') (\<lambda>x.
          record_fact (te_shareable v) bb k x (arg_or_none a ''utt_ref''))))
      else if name = ''record_offer'' then (ts, slow_record_offer v b a)
      else if name = ''share_fact'' then shared_value ts (and_then (arg_str a ''key'') (share_recorded (te_shareable v) bb))
      else if name = ''request_approval'' then
        (let p = ts\<lparr>to_n := to_n ts + 1\<rparr> in
         (p, and_then (arg_str a ''offer_ref'') (\<lambda>ref.
            slow_request_approval (te_ext v) bb ref (te_case v) (''s2f-'' @ dec (to_n p)))))
      else if name = ''accept_offer'' then
        (ts, and_then (arg_str a ''offer_ref'') (\<lambda>ref. slow_accept_offer (te_ext v) bb ref (te_case v) events))
      else if name = ''decline_offer'' then
        (ts, and_then (arg_str a ''offer_ref'') (\<lambda>ref. Inr (slow_decline_offer bb ref)))
      else if name = ''propose_mandate'' then
        (let p = ts\<lparr>to_mandates := to_mandates ts + 1\<rparr> in
         (p, and_then (arg a ''envelope'') (\<lambda>x. and_then (envelope_arg x) (\<lambda>raw.
            propose_mandate (te_ext v) bb raw (''mandate-'' @ dec (to_mandates p))))))
      else if name = ''tighten_mandate'' then
        (let p = ts\<lparr>to_mandates := to_mandates ts + 1\<rparr> in
         (p, and_then (arg a ''changes'') (\<lambda>x. and_then (envelope_arg x) (\<lambda>raw.
            tighten_mandate (te_ext v) bb raw (''mandate-'' @ dec (to_mandates p))))))
      else if name = ''revoke'' then (ts, Inr (revoke bb))
      else if name = ''check_account'' then (ts, check_args v b ts basis a)
      else if name = ''finish'' then slow_finish v b ts (json_str (arg_or_none a ''outcome''))
      else (ts, Inr (refused UnknownTool (''unknown tool '' @ py_repr name))))"

section \<open>Logging a tool\<close>

text \<open>An emission of the host: the line is logged, then the subscribers take it.\<close>

definition tool_call_of :: "tool_env \<Rightarrow> bus \<Rightarrow> string \<Rightarrow> string \<Rightarrow> payload \<Rightarrow> string list \<Rightarrow> emit_call" where
  "tool_call_of v b ty actor p causes = \<lparr>ec_t_ms = fst (te_clock v b), ec_wall = snd (te_clock v b), ec_type = ty,
     ec_actor = actor, ec_stream = AgentStream, ec_payload = p, ec_cause_ids = causes\<rparr>"

definition emit_as :: "tool_env \<Rightarrow> bus \<Rightarrow> string \<Rightarrow> string \<Rightarrow> payload \<Rightarrow> string list \<Rightarrow> bus outcome" where
  "emit_as v b ty actor p causes = and_then (emit b (tool_call_of v b ty actor p causes)) (te_settle v)"

(* slow/tools.py 147-148 SlowTools._apply *)
fun emit_effects :: "tool_env \<Rightarrow> bus \<Rightarrow> effect list \<Rightarrow> string list \<Rightarrow> bus outcome" where
  "emit_effects v b [] causes = Inr b"
| "emit_effects v b ((ty, p) # es) causes =
     and_then (emit_as v b ty ''guard'' p causes) (\<lambda>c. emit_effects v c es causes)"

(* slow/tools.py 144-145 SlowTools._apply *)
definition tool_payload_of :: "string \<Rightarrow> json \<Rightarrow> result \<Rightarrow> tool_payload" where
  "tool_payload_of name a r = \<lparr>tp_name = name,
     tp_keys = (case json_get a ''keys'' of JList ks \<Rightarrow> List.map_filter json_text ks | _ \<Rightarrow> []),
     tp_seconds = (case json_get a ''seconds'' of JInt n \<Rightarrow> n | _ \<Rightarrow> 0), tp_ok = res_ok r\<rparr>"

(* slow/tools.py 143-151 SlowTools._apply *)
definition apply_result :: "tool_env \<Rightarrow> bus \<Rightarrow> string list \<Rightarrow> string \<Rightarrow> json \<Rightarrow> result \<Rightarrow> (bus \<times> string) outcome" where
  "apply_result v b causes name a r =
     (let tool = event_id (lg_run_id (bus_log b)) (next_seq (bus_log b)) in
      and_then (emit_as v b ''slow.tool'' ''slow'' (PSlowTool (tool_payload_of name a r)) causes) (\<lambda>c.
      and_then (emit_effects v c (res_effects r) (tool # res_causes r)) (\<lambda>d.
        Inr (d, name @ '': '' @ res_text r))))"

section \<open>The read-back of the open offers\<close>

definition last_where :: "(event \<Rightarrow> bool) \<Rightarrow> event list \<Rightarrow> string option" where
  "last_where P es = (case filter P es of [] \<Rightarrow> None | x # xs \<Rightarrow> Some (ev_event_id (last (x # xs))))"

definition final_of :: "string \<Rightarrow> event \<Rightarrow> bool" where
  "final_of u e \<longleftrightarrow> ev_type e = ''utt.final'' \<and> (case ev_payload e of PUttFinal _ _ w _ \<Rightarrow> w = u | _ \<Rightarrow> False)"

definition record_of :: "string \<Rightarrow> event \<Rightarrow> bool" where
  "record_of ref e \<longleftrightarrow> ev_type e = ''offer.recorded'' \<and> (case ev_payload e of POffer p \<Rightarrow> op_offer_ref p = ref | _ \<Rightarrow> False)"

text \<open>The asks of the current call that the rep heard, each at the first line after its delivery.\<close>

(* slow/tools.py 349-360 SlowTools._windows *)
definition ask_windows :: "slow_tools \<Rightarrow> nat \<Rightarrow> (string, nat) dict \<Rightarrow> string \<Rightarrow> Readback.ask list" where
  "ask_windows ts call hs ref = List.map_filter (\<lambda>(m, c, k). if c \<noteq> call then None
     else map_option (\<lambda>n. k\<lparr>ask_at := n\<rparr>) (dget hs m)) (case dget (to_readback_asks ts) ref of None \<Rightarrow> [] | Some xs \<Rightarrow> xs)"

(* slow/tools.py 165-166 SlowTools.readback *)
definition asked_at :: "slow_tools \<Rightarrow> (string, nat) dict \<Rightarrow> offer_public \<Rightarrow> nat option" where
  "asked_at ts hs off =
     (let ns = List.map_filter (dget hs) (case dget (to_asked ts) (o_ref off, o_revision off) of None \<Rightarrow> [] | Some ms \<Rightarrow> ms)
      in if ns = [] then None else Some (Min (set ns)))"

(* slow/tools.py 165-171 SlowTools.readback *)
definition update_of :: "tool_env \<Rightarrow> blackboard \<Rightarrow> event list \<Rightarrow> slow_tools \<Rightarrow> (string, nat) dict \<Rightarrow> offer_public \<Rightarrow> readback_payload outcome" where
  "update_of v bb es ts hs off =
     readback_update (or_sha (te_ext v)) (or_iso (te_ext v)) rep_lexical off (ch_lines (channel_of bb CpLane))
       (asked_at ts hs off) (ask_windows ts (cp_call es) hs (o_ref off))
       (map snd (filter (\<lambda>x. fst x \<noteq> o_ref off) (sort_key fst (offers bb))))"

(* slow/tools.py 170-171 SlowTools.readback *)
definition news :: "offer_public \<Rightarrow> readback_payload \<Rightarrow> bool" where
  "news off u \<longleftrightarrow> rp_slot_statuses u \<noteq> foldl (\<lambda>d s. dput (rs_field s) (rs_status s) d) [] (o_slots off) \<or>
     rp_terms_hash u \<noteq> o_terms_hash off"

(* slow/tools.py 164-175 SlowTools.readback *)
fun readback_offers ::
  "tool_env \<Rightarrow> blackboard \<Rightarrow> event list \<Rightarrow> slow_tools \<Rightarrow> (string, nat) dict \<Rightarrow> offer_public list \<Rightarrow> bus \<Rightarrow> bus outcome"
where
  "readback_offers v bb es ts hs [] b = Inr b"
| "readback_offers v bb es ts hs (off # offs) b =
     and_then (update_of v bb es ts hs off) (\<lambda>u.
       if \<not> news off u then readback_offers v bb es ts hs offs b
       else
         let rep = map l_utt_id (partner_lines (channel_of bb CpLane));
             causes = List.map_filter id [last_where (record_of (o_ref off)) es,
               if rep = [] then None else last_where (final_of (last rep)) es]
         in and_then (emit_as v b ''readback.updated'' ''guard'' (PReadback u) causes)
              (\<lambda>c. readback_offers v bb es ts hs offs c))"

(* slow/tools.py 153-175 SlowTools.readback *)
definition slow_readback :: "tool_env \<Rightarrow> slow_tools \<Rightarrow> bus \<Rightarrow> bus outcome" where
  "slow_readback v ts b =
     (let bb = bus_bb b; es = log_of b in
      and_then (heard_at es (ch_lines (channel_of bb CpLane))) (\<lambda>hs.
        readback_offers v bb es ts hs
          (map snd (filter (\<lambda>x. o_status (snd x) = OfferOpen) (sort_key fst (offers bb)))) b))"

section \<open>An act\<close>

text \<open>The parsed arguments of a call of the model, or why they are none: \<open>json.loads\<close> failed, or another tool.\<close>

type_synonym tool_call = "string + json"

(* slow/tools.py 110-122 SlowTools.act *)
definition whole_problem :: "tool_call \<Rightarrow> string + arguments" where
  "whole_problem c = (case c of
      Inl why \<Rightarrow> Inl why
    | Inr (JObj args) \<Rightarrow>
        (case act_problem args of
           Some p \<Rightarrow> Inl p
         | None \<Rightarrow> (case arg_or_none args ''private_summary'' of
             JStr s \<Rightarrow> if length s > MAX_PRIVATE_SUMMARY then Inl ''private_summary must be text of at most 1200 characters'' else Inr args
           | _ \<Rightarrow> Inl ''private_summary must be text of at most 1200 characters''))
    | Inr _ \<Rightarrow> Inl ''expected one act call, not act'')"

text \<open>One call of the list. An error of bad arguments is a refusal, any other one goes on.\<close>

(* slow/tools.py 131-138 SlowTools.act *)
definition run_item :: "tool_env \<Rightarrow> bus \<Rightarrow> int option \<Rightarrow> slow_tools \<Rightarrow> string \<Rightarrow> arguments \<Rightarrow> tool_run" where
  "run_item v b basis ts name a = (case run_tool v b basis ts name a of
      (p, Inl e) \<Rightarrow> if invalid_error e then (p, Inr (refused InvalidArgs (''invalid arguments: '' @ te_error_text v e)))
        else (p, Inl e)
    | r \<Rightarrow> r)"

record act_state =
  ac_bus :: bus
  ac_tools :: slow_tools
  ac_out :: "string list"
  ac_finish :: "string list"

(* slow/tools.py 126-139 SlowTools.act *)
definition act_item :: "tool_env \<Rightarrow> int option \<Rightarrow> string list \<Rightarrow> act_state \<Rightarrow> nat \<Rightarrow> json \<Rightarrow> act_state outcome" where
  "act_item v basis causes st n item =
     (case item_problem n item of
        Some p \<Rightarrow>
          and_then (apply_result v (ac_bus st) causes ''act'' item (refused ActShape p)) (\<lambda>(b, t).
            Inr (st\<lparr>ac_bus := b, ac_out := ac_out st @ [t]\<rparr>))
      | None \<Rightarrow>
          (let name = json_str (json_get item ''tool''); a = (case item of JObj ms \<Rightarrow> ms | _ \<Rightarrow> []) in
           case run_item v (ac_bus st) basis (ac_tools st) name a of
             (p, Inl e) \<Rightarrow> Inl e
           | (p, Inr r) \<Rightarrow>
               and_then (apply_result v (ac_bus st) causes name item r) (\<lambda>(b, t).
                 Inr (st\<lparr>ac_bus := b, ac_tools := p, ac_out := ac_out st @ [t],
                   ac_finish := ac_finish st @ (if name = ''finish'' \<and> res_ok r
                     then [json_str (json_get item ''outcome'')] else [])\<rparr>))))"

fun act_items :: "tool_env \<Rightarrow> int option \<Rightarrow> string list \<Rightarrow> act_state \<Rightarrow> nat \<Rightarrow> json list \<Rightarrow> act_state outcome" where
  "act_items v basis causes st n [] = Inr st"
| "act_items v basis causes st n (x # xs) =
     and_then (act_item v basis causes st n x) (\<lambda>s. act_items v basis causes s (n + 1) xs)"

(* slow/tools.py 126-126 SlowTools.act *)
definition calls_of :: "arguments \<Rightarrow> json list" where
  "calls_of args = (case arg_or_none args ''calls'' of JList xs \<Rightarrow> xs | _ \<Rightarrow> [])"

(* slow/tools.py 140-140 SlowTools.act *)
definition summaries_of :: "slow_tools \<Rightarrow> blackboard \<Rightarrow> arguments \<Rightarrow> result" where
  "summaries_of ts bb args = set_summaries bb (to_shareable ts) (json_str (arg_or_none args ''private_summary''))
     (if arg_or_none args ''public_summary'' = JNull then None else Some (json_str (arg_or_none args ''public_summary'')))"

text \<open>The summaries come last, after the calls they may cite, but stand first in what Slow reads.\<close>

(* slow/tools.py 104-141 SlowTools.act *)
definition act :: "tool_env \<Rightarrow> slow_tools \<Rightarrow> bus \<Rightarrow> int option \<Rightarrow> string list \<Rightarrow> tool_call \<Rightarrow> act_state outcome" where
  "act v ts b0 basis causes call =
     and_then (slow_readback v ts b0) (\<lambda>b.
       case whole_problem call of
         Inl why \<Rightarrow>
           and_then (apply_result v b causes ''act'' (JObj []) (refused ActShape why)) (\<lambda>(c, t).
             Inr \<lparr>ac_bus = c, ac_tools = ts, ac_out = [t], ac_finish = []\<rparr>)
       | Inr args \<Rightarrow>
           and_then (act_items v basis causes \<lparr>ac_bus = b, ac_tools = ts, ac_out = [], ac_finish = []\<rparr> 0 (calls_of args)) (\<lambda>st.
           and_then (apply_result v (ac_bus st) causes ''act''
               (JObj [(''private_summary'', arg_or_none args ''private_summary''), (''public_summary'', arg_or_none args ''public_summary'')])
               (summaries_of (ac_tools st) (bus_bb (ac_bus st)) args)) (\<lambda>(c, t).
             Inr (st\<lparr>ac_bus := c, ac_out := t # ac_out st\<rparr>))))"

end
