(* ===== verification/Slow_Tools_Facts.thy ===== *)
theory Slow_Tools_Facts
  imports Slow_Tools View_Facts Render_Facts Samples
begin

text \<open>
  What an act of Slow can do: which messages its tools send, that no tool grants, and what it leaves on the log.
\<close>

section \<open>A public guide\<close>

definition slot_public :: "blackboard \<Rightarrow> string \<Rightarrow> bool" where
  "slot_public bb x \<longleftrightarrow>
     (if before (CHR '':'') x = ''fact''
      then \<exists>f \<in> set (dvals (pub_facts (bb_public bb))). pf_key f = after (CHR '':'') x
      else \<exists>off \<in> set (dvals (offers bb)). o_ref off = before (CHR ''.'') (after (CHR '':'') x) \<and>
        (after (CHR ''.'') (after (CHR '':'') x) = [] \<or>
         (\<exists>s \<in> set (o_slots off). rs_field s = after (CHR ''.'') (after (CHR '':'') x))))"

text \<open>The profile of the phone voice shows the guide.\<close>

definition shows_guides :: "(string, profile) dict \<Rightarrow> bool" where
  "shows_guides profiles \<longleftrightarrow> (case dget profiles CP_PROFILE of None \<Rightarrow> False
     | Some spec \<Rightarrow> SecGuidance \<in> set (map snd (prof_sections spec)))"

lemma map_outcome_mem: "map_outcome f xs = Inr ys \<Longrightarrow> x \<in> set xs \<Longrightarrow> \<exists>y. f x = Inr y"
  by (auto simp: map_outcome_Inr list_all2_conv_all_nth in_set_conv_nth)

lemma resolve_slot_public:
  assumes "resolve_slot x v = Inr y"
  shows "if before (CHR '':'') x = ''fact'' then \<exists>f \<in> set (fv_public_facts v). pf_key f = after (CHR '':'') x
     else \<exists>off \<in> set (fv_offers v). o_ref off = before (CHR ''.'') (after (CHR '':'') x) \<and>
       (after (CHR ''.'') (after (CHR '':'') x) = [] \<or>
        (\<exists>s \<in> set (o_slots off). rs_field s = after (CHR ''.'') (after (CHR '':'') x)))"
proof (cases "before (CHR '':'') x = ''fact''")
  case True
  with assms obtain f where "find (\<lambda>f. pf_key f = after (CHR '':'') x) (fv_public_facts v) = Some f"
    by (cases "find (\<lambda>f. pf_key f = after (CHR '':'') x) (fv_public_facts v)") (simp_all add: resolve_slot_def)
  with True show ?thesis by (auto dest: find_SomeD)
next
  case False
  let ?rest = "after (CHR '':'') x"
  from False assms obtain off where off: "find (\<lambda>off. o_ref off = before (CHR ''.'') ?rest) (fv_offers v) = Some off"
    by (cases "find (\<lambda>off. o_ref off = before (CHR ''.'') ?rest) (fv_offers v)") (simp_all add: resolve_slot_def)
  have "after (CHR ''.'') ?rest = [] \<or> (\<exists>s. find (\<lambda>s. rs_field s = after (CHR ''.'') ?rest) (o_slots off) = Some s)"
    using False assms off by (cases "find (\<lambda>s. rs_field s = after (CHR ''.'') ?rest) (o_slots off)")
      (auto simp: resolve_slot_def Let_def split: if_splits)
  with False find_SomeD [OF off] show ?thesis by (auto dest: find_SomeD)
qed

lemma content_rows:
  assumes "content_text v spec n m = Inr s" "(h, SecGuidance) \<in> set (prof_sections spec)" "g \<in> set (fv_guidance v)"
  shows "\<exists>t. guide_row g v spec = Inr t"
proof -
  from assms(1) obtain parts where "map_outcome (\<lambda>(header, k).
      if k \<in> set BLOCKS
      then and_then (block_text k v spec n m) (\<lambda>s. Inr (header @ '':'' @ [CHR 0x0A] @ s))
      else and_then (inline_text k v spec) (\<lambda>s. Inr (header @ '': '' @ s))) (prof_sections spec) = Inr parts"
    by (auto simp: content_text_def and_then_eq_Inr)
  from map_outcome_mem [OF this assms(2)] obtain t where "block_text SecGuidance v spec n m = Inr t"
    by (auto simp: BLOCKS_def and_then_eq_Inr)
  then obtain rows where "map_outcome (\<lambda>g. guide_row g v spec) (fv_guidance v) = Inr rows"
    by (auto simp: block_text_def and_then_eq_Inr)
  from map_outcome_mem [OF this assms(3)] show ?thesis by blast
qed

lemma rendered_guide:
  assumes "render_messages profiles v name = Inr x" "dget profiles name = Some spec"
    "SecGuidance \<in> set (map snd (prof_sections spec))" "g \<in> set (fv_guidance v)" "y \<in> set (g_slots g)"
  shows "\<exists>t. resolve_slot y v = Inr t"
proof -
  from assms(1,2) obtain n m s where "content_text v spec n m = Inr s"
    by (auto simp: render_messages_def Let_def and_then_eq_Inr split: if_splits dest!: trim_to_Inr)
  moreover from assms(3) obtain h where "(h, SecGuidance) \<in> set (prof_sections spec)" by auto
  ultimately obtain t where "guide_row g v spec = Inr t" using content_rows assms(4) by blast
  with assms(5) obtain rows where "map_outcome (\<lambda>x. and_then (resolve_slot x v) (\<lambda>y. Inr (x @ '' = '' @ y))) (g_slots g) = Inr rows"
    by (auto simp: guide_row_def and_then_eq_Inr split: option.splits if_splits)
  from map_outcome_mem [OF this assms(5)] show ?thesis by (auto simp: and_then_eq_Inr)
qed

lemma public_guide_slots:
  assumes "public_guide profiles bb g = Inr True" "shows_guides profiles" "y \<in> set (g_slots g)"
  shows "slot_public bb y"
proof -
  let ?bb = "bb\<lparr>bb_public := (bb_public bb)\<lparr>pub_guidance_cp := [g]\<rparr>\<rparr>"
  from assms(2) obtain spec where spec: "dget profiles CP_PROFILE = Some spec" "SecGuidance \<in> set (map snd (prof_sections spec))"
    by (auto simp: shows_guides_def split: option.splits)
  from assms(1) obtain x v where v: "view_cp ?bb \<lparr>tg_kind = TrigGuidance, tg_msg_id = None, tg_wait_s = None\<rparr> [] = Inr v"
      "render_messages profiles v CP_PROFILE = Inr x"
    by (auto simp: public_guide_def and_then_eq_Inr split: sum.splits if_splits)
  from v(1) have f: "fv_guidance v = [g]" "fv_public_facts v = dvals (pub_facts (bb_public bb))" "fv_offers v = dvals (offers bb)"
    by (auto simp: view_cp_def Let_def new_fast_view_Inr)
  from rendered_guide [OF v(2) spec _ assms(3)] obtain t where "resolve_slot y v = Inr t" by (auto simp: f(1))
  from resolve_slot_public [OF this] show ?thesis unfolding slot_public_def f by simp
qed

section \<open>What a tool may do\<close>

text \<open>The messages of a result, and what of a message is checked.\<close>

definition effect_message :: "effect \<Rightarrow> slow_to_fast option" where
  "effect_message x = (case snd x of PS2F m \<Rightarrow> Some m | _ \<Rightarrow> None)"

definition messages :: "result \<Rightarrow> slow_to_fast list" where
  "messages r = List.map_filter effect_message (res_effects r)"

definition message_fair :: "blackboard \<Rightarrow> slow_to_fast \<Rightarrow> bool" where
  "message_fair bb m \<longleftrightarrow> (case s2f_guide m of
      None \<Rightarrow> s2f_lane m = UserLane
    | Some g \<Rightarrow> s2f_lane m = CpLane \<and> s2f_text m = [] \<and> guide_valid g \<and> lever_denial bb g = None \<and>
        (\<forall>y \<in> set (g_slots g). slot_public bb y))"

text \<open>An effect other than a message: no post, no decision, no \<open>slow.tool\<close>; a mandate is an undecided proposal, an
  epoch the next one, an authorization one the accept rule allowed.\<close>

definition effect_fair :: "externals \<Rightarrow> case_ref \<Rightarrow> blackboard \<Rightarrow> effect \<Rightarrow> bool" where
  "effect_fair oc cr bb x \<longleftrightarrow>
     fst x \<notin> {''approval.post'', ''approval.decided'', ''mandate.decided'', ''slow.tool''} \<and>
     (case snd x of PMandate m \<Rightarrow> mandate_proposal_valid m | PEpoch b \<Rightarrow> eb_new b = bb_epoch bb + 1 | _ \<Rightarrow> True) \<and>
     (fst x = ''action.authorized'' \<longrightarrow>
        (\<exists>ref effs. accept_offer oc bb ref cr = Inr (Allow effs) \<and> x \<in> set effs))"

definition result_fair :: "externals \<Rightarrow> case_ref \<Rightarrow> blackboard \<Rightarrow> nat \<Rightarrow> nat \<Rightarrow> result \<Rightarrow> bool" where
  "result_fair oc cr bb n k r \<longleftrightarrow>
     (messages r = [] \<or> (k = n + 1 \<and> (\<exists>m. messages r = [m] \<and> s2f_msg_id m = ''s2f-'' @ dec k \<and> message_fair bb m))) \<and>
     list_all (effect_fair oc cr bb) (res_effects r)"

definition run_fair :: "externals \<Rightarrow> case_ref \<Rightarrow> blackboard \<Rightarrow> slow_tools \<Rightarrow> tool_run \<Rightarrow> bool" where
  "run_fair oc cr bb ts x \<longleftrightarrow> to_n ts \<le> to_n (fst x) \<and>
     (case snd x of Inl _ \<Rightarrow> True | Inr r \<Rightarrow> result_fair oc cr bb (to_n ts) (to_n (fst x)) r)"

lemma effect_message_simps [simp]:
  "effect_message (t, PS2F m) = Some m" "effect_message (t, PCard c) = None" "effect_message (t, PStatus a b) = None"
  by (simp_all add: effect_message_def)

lemma map_filter_append: "List.map_filter f (xs @ ys) = List.map_filter f xs @ List.map_filter f ys"
  by (simp add: map_filter_def)

lemma messages_simps [simp]:
  "messages (okay s []) = []" "messages (no s []) = []" "messages (refused c s) = []"
  "messages (deny_guide s t) = []" "messages (denied i w) = []"
  "messages (r\<lparr>res_causes := cs\<rparr>) = messages r" "messages (with_text r s) = messages r"
  by (simp_all add: messages_def okay_def no_def refused_def deny_guide_def denied_def with_text_def effect_message_def List.map_filter_simps)

lemma no_message: "harmless oc bb cr [] x \<Longrightarrow> effect_message x = None"
  by (auto simp: harmless_def effect_message_def split: payload.splits)

lemma harmless_effect_fair: "harmless oc bb cr ids x \<Longrightarrow> effect_fair oc cr bb x"
  by (auto simp: harmless_def effect_fair_def split: payload.splits)

lemma harmless_messages: "list_all (harmless oc bb cr []) es \<Longrightarrow> List.map_filter effect_message es = []"
  by (induction es) (auto simp: List.map_filter_simps dest: no_message)

lemma harmless_fair:
  assumes "list_all (harmless oc bb cr []) (res_effects r)"
  shows "result_fair oc cr bb n k r"
  using assms harmless_messages [OF assms] harmless_effect_fair
  by (auto simp: result_fair_def messages_def list_all_iff)

lemma run_fairI:
  "to_n ts \<le> to_n p \<Longrightarrow> (\<And>r. x = Inr r \<Longrightarrow> list_all (harmless oc bb cr []) (res_effects r)) \<Longrightarrow> run_fair oc cr bb ts (p, x)"
  by (auto simp: run_fair_def harmless_fair split: sum.splits)

lemma run_fair_if:
  "(c \<Longrightarrow> run_fair oc cr bb ts x) \<Longrightarrow> (\<not> c \<Longrightarrow> run_fair oc cr bb ts y) \<Longrightarrow> run_fair oc cr bb ts (if c then x else y)"
  by simp

lemma send_fair:
  assumes "\<And>i. s2f_valid \<lparr>s2f_msg_id = i, s2f_lane = ln, s2f_ty = ty, s2f_text = s, s2f_guide = g, s2f_approval_id = None\<rparr> \<Longrightarrow>
     message_fair bb \<lparr>s2f_msg_id = i, s2f_lane = ln, s2f_ty = ty, s2f_text = s, s2f_guide = g, s2f_approval_id = None\<rparr>"
  shows "run_fair oc cr bb ts (send_s2f ts ln ty s g)"
  using assms by (auto simp: send_s2f_def Let_def run_fair_def result_fair_def messages_def okay_def effect_message_def List.map_filter_simps effect_fair_def)

lemma err_fair: "run_fair oc cr bb ts (ts, Inl e)"
  by (simp add: run_fair_def)

lemma plain_fair: "list_all (effect_fair oc cr bb) (res_effects r) \<Longrightarrow> messages r = [] \<Longrightarrow> run_fair oc cr bb ts (ts, Inr r)"
  by (simp add: run_fair_def result_fair_def)

lemma no_effects_fair: "res_effects r = [] \<Longrightarrow> run_fair oc cr bb ts (ts, Inr r)"
  by (simp add: plain_fair messages_def List.map_filter_simps)

lemma send_guide_fair:
  assumes "message_fair bb \<lparr>s2f_msg_id = ''s2f-'' @ dec (to_n ts + 1), s2f_lane = CpLane, s2f_ty = GUIDE, s2f_text = [],
      s2f_guide = Some g, s2f_approval_id = None\<rparr>"
  shows "run_fair oc cr bb ts (send_guide bb es ts g)"
proof -
  have track: "to_n (foldl (track_ask bb call msg) t refs) = to_n t" for call msg t refs
    by (induction refs arbitrary: t) (auto simp: track_ask_def Let_def split: option.splits)
  show ?thesis
    using assms
    by (auto simp: send_guide_def send_s2f_def Let_def run_fair_def result_fair_def messages_def okay_def with_text_def
      track_asks_def track effect_message_def List.map_filter_simps effect_fair_def)
qed

lemma ask_fair:
  "run_fair oc cr bb ts (case ask_problem a sh l of Some r \<Rightarrow> (ts, Inr r)
     | None \<Rightarrow> (case arg_str a ''text'' of Inl e \<Rightarrow> (ts, Inl e) | Inr s \<Rightarrow> send_s2f ts UserLane ASK_USER s None))"
proof -
  have "res_effects r = []" if "ask_problem a sh l = Some r" for r
    using that by (auto simp: ask_problem_def Let_def refused_def no_def split: if_splits json.splits)
  moreover have "run_fair oc cr bb ts (send_s2f ts UserLane ASK_USER s None)" for s
    by (rule send_fair) (simp add: message_fair_def)
  ultimately show ?thesis
    by (cases "ask_problem a sh l"; cases "arg_str a ''text''") (simp_all add: no_effects_fair err_fair)
qed

lemma told_fair:
  "run_fair oc cr bb ts x \<Longrightarrow> run_fair oc cr bb ts
     (case x of (p, Inl e) \<Rightarrow> (p, Inl e) | (p, Inr r) \<Rightarrow> (p\<lparr>to_told_at := t\<rparr>, Inr r))"
  by (cases x; cases "snd x") (auto simp: run_fair_def)

lemma tell_fair:
  "run_fair oc cr bb ts (case arg_str a ''text'' of
       Inl e \<Rightarrow> (ts, Inl e)
     | Inr s \<Rightarrow> (case send_s2f ts UserLane TELL_USER s None of
         (p, Inl e) \<Rightarrow> (p, Inl e)
       | (p, Inr r) \<Rightarrow> (p\<lparr>to_told_at := t\<rparr>, Inr r)))"
proof -
  have "run_fair oc cr bb ts (send_s2f ts UserLane TELL_USER s None)" for s
    by (rule send_fair) (simp add: message_fair_def)
  then have "run_fair oc cr bb ts (case send_s2f ts UserLane TELL_USER s None of
         (p, Inl e) \<Rightarrow> (p, Inl e) | (p, Inr r) \<Rightarrow> (p\<lparr>to_told_at := t\<rparr>, Inr r))" for s
    by (rule told_fair)
  then show ?thesis by (cases "arg_str a ''text''") (simp_all add: err_fair)
qed

lemma deny_fair: "run_fair oc cr bb ts (ts, Inr (deny_guide s t))"
  by (rule plain_fair) (simp add: deny_guide_def no_def effect_fair_def, simp)

lemma guide_fair:
  assumes "shows_guides profiles"
  shows "run_fair oc cr bb ts (guide_fast profiles bb es ts a)"
proof (cases "guide_extra a = [] \<and> (\<exists>g. guide_of a = Inr g \<and> lever_denial bb g = None \<and> public_guide profiles bb g = Inr True)")
  case True
  then obtain g where g: "guide_extra a = []" "guide_of a = Inr g" "lever_denial bb g = None" "public_guide profiles bb g = Inr True"
    by blast
  have "guide_valid g"
    using g(2) by (auto simp: guide_of_def Let_def and_then_eq_Inr split: option.splits if_splits)
  with g public_guide_slots [OF g(4) assms] have "run_fair oc cr bb ts (send_guide bb es ts g)"
    by (intro send_guide_fair) (simp add: message_fair_def)
  moreover have "guide_fast profiles bb es ts a = send_guide bb es ts g \<or>
      (\<exists>s t. guide_fast profiles bb es ts a = (ts, Inr (deny_guide s t)))"
    by (auto simp: guide_fast_def g)
  ultimately show ?thesis by (auto simp: deny_fair)
next
  case False
  have both: "run_fair oc cr bb ts (ts, and_then m (\<lambda>h. Inr (deny_guide (s h) t)))" for m s t
    by (cases m) (simp_all add: deny_fair err_fair)
  show ?thesis using False deny_fair err_fair both
    by (auto simp: guide_fast_def split: sum.split option.split bool.split)
qed

lemma start_fair: "run_fair oc cr bb ts (ts, Inr (slow_start_call bb c))"
  by (rule plain_fair) (auto simp: slow_start_call_def okay_def no_def effect_fair_def messages_def effect_message_def
    List.map_filter_simps split: option.split)

lemma wait_fair: "run_fair oc cr bb ts (ts, slow_wait a)"
proof -
  have "res_effects r = []" if "slow_wait a = Inr r" for r
  proof -
    from that obtain x where "res_effects r = res_effects (case x of
        JInt n \<Rightarrow> if 1 \<le> n \<and> n \<le> HEARTBEAT_MS div 1000 then okay (''waking in '' @ dec_int n @ '' s'') []
          else refused InvalidArgs (''seconds must be an integer 1-15: in a call a heartbeat wakes you every 15 s anyway'')
      | _ \<Rightarrow> refused InvalidArgs (''seconds must be an integer 1-15: in a call a heartbeat wakes you every 15 s anyway''))"
      unfolding slow_wait_def and_then_eq_Inr by blast
    then show ?thesis by (cases x) (simp_all add: okay_def refused_def)
  qed
  then show ?thesis by (cases "slow_wait a") (simp_all add: err_fair no_effects_fair)
qed

lemma shared_fair:
  assumes "\<And>r got. x = Inr (r, got) \<Longrightarrow> list_all (effect_fair oc cr bb) (res_effects r) \<and> messages r = []"
  shows "run_fair oc cr bb ts (shared_value ts x)"
  using assms by (auto simp: shared_value_def run_fair_def result_fair_def split: sum.split option.split)

lemma record_fact_fair:
  "record_fact sh bb k x ref = Inr (r, got) \<Longrightarrow> list_all (effect_fair oc cr bb) (res_effects r) \<and> messages r = []"
  unfolding record_fact_def Let_def
  by (auto simp: okay_def no_def effect_fair_def messages_def effect_message_def List.map_filter_simps split: if_splits)

lemma share_fair:
  assumes "share_recorded sh bb k = Inr (r, got)"
  shows "list_all (effect_fair oc cr bb) (res_effects r) \<and> messages r = []"
proof (cases "share_fact bb k sh")
  case (Some why)
  with assms have "r = denied ''share_fact'' why" by (simp add: share_recorded_def)
  then show ?thesis by (simp add: denied_def no_def effect_fair_def messages_def effect_message_def List.map_filter_simps)
next
  case None
  have plain: "list_all (effect_fair oc cr bb) (res_effects (no s [])) \<and> messages (no s []) = []" for s
    by (simp add: no_def messages_def List.map_filter_simps)
  show ?thesis
  proof (cases "dget (priv_case_facts (bb_private bb)) k")
    case None
    with assms \<open>share_fact bb k sh = None\<close> plain show ?thesis by (auto simp: share_recorded_def)
  next
    case (Some f)
    with assms \<open>share_fact bb k sh = None\<close> obtain q where
        q: "record_fact sh bb k (cf_value f) (case cf_source_ref f of None \<Rightarrow> JNull | Some r \<Rightarrow> JStr r) = Inr q"
        "r = fst q \<or> (\<exists>s. r = no s [])"
      by (auto simp: share_recorded_def and_then_eq_Inr split: if_splits)
    then show ?thesis using plain record_fact_fair [of sh bb k _ _ "fst q" "snd q"] by auto
  qed
qed

lemma offer_fair: "run_fair oc cr bb ts (ts, slow_record_offer v b a)"
proof -
  have "list_all (effect_fair oc cr bb) (res_effects r) \<and> messages r = []" if "slow_record_offer v b a = Inr r" for r
    using that
    by (auto simp: slow_record_offer_def and_then_eq_Inr offer_outcome_def okay_def no_def refused_def record_effects_def
      effect_fair_def messages_def effect_message_def List.map_filter_simps split: offer_result.splits)
  then show ?thesis by (cases "slow_record_offer v b a") (simp_all add: err_fair plain_fair)
qed

lemma request_fair:
  assumes "\<And>r. x = Inr r \<Longrightarrow> \<exists>ref. slow_request_approval oc bb ref cr (''s2f-'' @ dec (to_n ts + 1)) = Inr r"
  shows "run_fair oc cr bb ts (ts\<lparr>to_n := to_n ts + 1\<rparr>, x)"
proof (cases x)
  case (Inr r)
  let ?i = "''s2f-'' @ dec (to_n ts + 1)"
  from assms [OF Inr] obtain ref where ref: "slow_request_approval oc bb ref cr ?i = Inr r" by blast
  have h: "list_all (harmless oc bb cr [?i]) (res_effects r)" by (rule request_harmless [OF ref]) simp
  then have "list_all (effect_fair oc cr bb) (res_effects r)" by (auto simp: list_all_iff intro: harmless_effect_fair)
  moreover have "messages r = [] \<or> (\<exists>m. messages r = [m] \<and> s2f_msg_id m = ?i \<and> message_fair bb m)"
  proof -
    obtain got where g: "request_approval oc bb ref cr = Inr got"
      using ref by (cases "request_approval oc bb ref cr") (simp_all add: slow_request_approval_def)
    note r = ref [unfolded slow_request_approval_def g and_then_Inr]
    have m: "List.map_filter effect_message (moved bb t) = []" for t
      by (auto simp: moved_def List.map_filter_simps split: option.split)
    show ?thesis
    proof (cases got)
      case (Denial why)
      with r have "r = denied ''request_approval'' why" by simp
      then show ?thesis by simp
    next
      case (Allow es)
      with g obtain off where es: "es = [(''approval.requested'', PCard (new_card bb off cr))]"
        using request_approval_Allow [of oc bb ref cr es] by auto
      have "\<exists>s a. r = okay s (es @ moved bb ''approval_requested'' @ [(''s2f.msg'', PS2F
          \<lparr>s2f_msg_id = ?i, s2f_lane = UserLane, s2f_ty = APPROVAL_NOTICE, s2f_text = [], s2f_guide = None, s2f_approval_id = a\<rparr>)])"
        using r [unfolded Allow ruling.case Let_def sum.inject, symmetric] by (intro exI)
      then obtain s a where ra: "r = okay s (es @ moved bb ''approval_requested'' @ [(''s2f.msg'', PS2F
          \<lparr>s2f_msg_id = ?i, s2f_lane = UserLane, s2f_ty = APPROVAL_NOTICE, s2f_text = [], s2f_guide = None, s2f_approval_id = a\<rparr>)])"
        by blast
      show ?thesis
        by (simp add: ra es messages_def okay_def m map_filter_append List.map_filter_simps message_fair_def)
    qed
  qed
  ultimately show ?thesis by (simp add: run_fair_def result_fair_def Inr)
qed (simp add: run_fair_def)

lemma tool_fair:
  assumes "\<And>r. x = Inr r \<Longrightarrow> list_all (harmless oc bb cr []) (res_effects r)" "to_n ts = to_n p"
  shows "run_fair oc cr bb ts (p, x)"
  using assms by (intro run_fairI) auto

lemma run_tool_fair:
  assumes "shows_guides (te_profiles v)"
  shows "run_fair (te_ext v) (te_case v) (bus_bb b) ts (run_tool v b basis ts name a)"
proof -
  have fin: "run_fair (te_ext v) (te_case v) (bus_bb b) ts (slow_finish v b ts outcome)" for outcome
    by (auto simp: slow_finish_def and_then_eq_Inr err_fair intro!: tool_fair split: sum.split dest: finish_harmless)
  have rev: "run_fair (te_ext v) (te_case v) (bus_bb b) ts (ts, Inr (revoke (bus_bb b)))"
    by (rule plain_fair) (simp_all add: revoke_def okay_def effect_fair_def messages_def effect_message_def List.map_filter_simps)
  have fact: "run_fair (te_ext v) (te_case v) (bus_bb b) ts (shared_value ts
      (and_then m (\<lambda>k. and_then n (\<lambda>x. record_fact sh (bus_bb b) k x ref))))" for m n sh ref
    by (rule shared_fair) (auto simp: and_then_eq_Inr intro: record_fact_fair [THEN conjunct1] record_fact_fair [THEN conjunct2])
  have share: "run_fair (te_ext v) (te_case v) (bus_bb b) ts (shared_value ts (and_then m (share_recorded sh (bus_bb b))))" for m sh
    by (rule shared_fair) (auto simp: and_then_eq_Inr intro: share_fair [THEN conjunct1] share_fair [THEN conjunct2])
  have request: "run_fair (te_ext v) (te_case v) (bus_bb b) ts (ts\<lparr>to_n := to_n ts + 1\<rparr>,
      and_then m (\<lambda>ref. slow_request_approval (te_ext v) (bus_bb b) ref (te_case v)
        (''s2f-'' @ dec (to_n (ts\<lparr>to_n := to_n ts + 1\<rparr>)))))" for m
    by (rule request_fair) (auto simp: and_then_eq_Inr)
  have accept: "run_fair (te_ext v) (te_case v) (bus_bb b) ts
      (ts, and_then m (\<lambda>ref. slow_accept_offer (te_ext v) (bus_bb b) ref (te_case v) es))" for m es
    by (rule tool_fair) (auto simp: and_then_eq_Inr intro: accept_harmless)
  have decline: "run_fair (te_ext v) (te_case v) (bus_bb b) ts (ts, and_then m (\<lambda>ref. Inr (slow_decline_offer (bus_bb b) ref)))" for m
    by (rule tool_fair) (auto simp: and_then_eq_Inr decline_harmless)
  have propose: "run_fair (te_ext v) (te_case v) (bus_bb b) ts (ts\<lparr>to_mandates := k\<rparr>,
      and_then m (\<lambda>x. and_then (envelope_arg x) (\<lambda>raw. propose_mandate (te_ext v) (bus_bb b) raw mid)))" for m k mid
    by (rule tool_fair) (auto simp: and_then_eq_Inr intro: propose_harmless)
  have tighten: "run_fair (te_ext v) (te_case v) (bus_bb b) ts (ts\<lparr>to_mandates := k\<rparr>,
      and_then m (\<lambda>x. and_then (envelope_arg x) (\<lambda>raw. tighten_mandate (te_ext v) (bus_bb b) raw mid)))" for m k mid
    by (rule tool_fair) (auto simp: and_then_eq_Inr intro: tighten_harmless)
  have account: "run_fair (te_ext v) (te_case v) (bus_bb b) ts (ts, check_args v b ts basis a)"
    by (rule tool_fair) (auto simp: check_args_def Let_def and_then_eq_Inr intro: account_harmless)
  have unknown: "run_fair (te_ext v) (te_case v) (bus_bb b) ts (ts, Inr (refused UnknownTool s))" for s
    by (rule no_effects_fair) (simp add: refused_def)
  show ?thesis
    unfolding run_tool_def Let_def
    by (intro run_fair_if ask_fair tell_fair start_fair wait_fair guide_fair [OF assms] fact share offer_fair request accept
      decline propose tighten rev account fin unknown)
qed

section \<open>What Slow says and does\<close>

text \<open>C37. Slow's tools never grant and never give the phone voice free text. Whatever tool a call names, with whatever
  arguments and on whatever board, a result has at most one message. It goes to the user's voice, or it is a
  guide without text, whose every slot names a public fact or a recorded offer and whose lever the user allowed.
  No effect is a post or a decision, a mandate is an undecided proposal, an epoch the next one, and an
  authorization one that the guard's accept rule allowed.\<close>
theorem slow_speaks_public_guides:
  assumes "shows_guides (te_profiles v)" "run_tool v b basis ts name a = (p, Inr r)"
  shows "length (messages r) \<le> 1 \<and> (\<forall>m \<in> set (messages r). message_fair (bus_bb b) m) \<and>
    list_all (effect_fair (te_ext v) (te_case v) (bus_bb b)) (res_effects r)"
  using run_tool_fair [OF assms(1), of b ts basis name a] by (auto simp: assms(2) run_fair_def result_fair_def)

fun tool_runs :: "tool_env \<Rightarrow> slow_tools \<Rightarrow> (bus \<times> int option \<times> string \<times> arguments) list \<Rightarrow> result list" where
  "tool_runs v ts [] = []"
| "tool_runs v ts ((b, basis, name, a) # xs) =
     (let x = run_tool v b basis ts name a in
      (case snd x of Inl _ \<Rightarrow> [] | Inr r \<Rightarrow> [r]) @ tool_runs v (fst x) xs)"

definition sent_ids :: "result list \<Rightarrow> string list" where
  "sent_ids rs = map s2f_msg_id (concat (map messages rs))"

lemma sent_ids_range:
  assumes "shows_guides (te_profiles v)"
  shows "\<exists>ks. sent_ids (tool_runs v ts xs) = map (\<lambda>k. ''s2f-'' @ dec k) ks \<and> sorted_wrt (<) ks \<and> (\<forall>k \<in> set ks. to_n ts < k)"
proof (induction xs arbitrary: ts)
  case Nil
  show ?case by (simp add: sent_ids_def)
next
  case (Cons z xs)
  obtain b basis name a where z: "z = (b, basis, name, a)" by (cases z)
  let ?x = "run_tool v b basis ts name a"
  note f = run_tool_fair [OF assms, of b ts basis name a]
  from Cons.IH [of "fst ?x"] obtain ks where ks: "sent_ids (tool_runs v (fst ?x) xs) = map (\<lambda>k. ''s2f-'' @ dec k) ks"
      "sorted_wrt (<) ks" "\<forall>k \<in> set ks. to_n (fst ?x) < k" by blast
  have le: "to_n ts \<le> to_n (fst ?x)" using f by (simp add: run_fair_def)
  show ?case
  proof (cases "\<exists>r m. snd ?x = Inr r \<and> messages r = [m]")
    case True
    then obtain r m where r: "snd ?x = Inr r" "messages r = [m]" by blast
    with f have "to_n (fst ?x) = to_n ts + 1" "s2f_msg_id m = ''s2f-'' @ dec (to_n (fst ?x))"
      by (auto simp: run_fair_def result_fair_def)
    with ks r show ?thesis
      by (intro exI [of _ "to_n (fst ?x) # ks"]) (auto simp: z sent_ids_def Let_def)
  next
    case False
    with f have "(case snd ?x of Inl _ \<Rightarrow> [] | Inr r \<Rightarrow> messages r) = []"
      by (auto simp: run_fair_def result_fair_def split: sum.splits)
    then have "sent_ids (tool_runs v ts (z # xs)) = sent_ids (tool_runs v (fst ?x) xs)"
      by (auto simp: z sent_ids_def Let_def split: sum.splits)
    with ks le show ?thesis by (intro exI [of _ ks]) force
  qed
qed

text \<open>Message ids are never used twice: over any sequence of tool runs of a session, whichever tools they name and
  whether they succeed, are refused or raise, no two messages have the same id.\<close>
theorem message_ids_distinct:
  assumes "shows_guides (te_profiles v)"
  shows "distinct (sent_ids (tool_runs v ts xs))"
proof -
  from sent_ids_range [OF assms, of ts xs] obtain ks where ks: "sent_ids (tool_runs v ts xs) = map (\<lambda>k. ''s2f-'' @ dec k) ks"
    "sorted_wrt (<) ks" by blast
  from ks(2) have "distinct ks" by (simp add: strict_sorted_iff)
  then show ?thesis by (simp add: ks(1) distinct_map inj_on_def dec_inj)
qed

section \<open>What an act leaves on the log\<close>

definition tool_name :: "event \<Rightarrow> string option" where
  "tool_name e = (if ev_type e \<noteq> ''slow.tool'' then None
     else case ev_payload e of PSlowTool p \<Rightarrow> Some (tp_name p) | _ \<Rightarrow> None)"

definition tool_names :: "bus \<Rightarrow> string list" where
  "tool_names b = List.map_filter tool_name (log_of b)"

text \<open>The subscribers log no \<open>slow.tool\<close> of their own.\<close>

definition quiet_settle :: "tool_env \<Rightarrow> bool" where
  "quiet_settle v \<longleftrightarrow> (\<forall>b c. te_settle v b = Inr c \<longrightarrow> tool_names c = tool_names b)"

lemma tool_names_emit_as:
  assumes "quiet_settle v" "emit_as v b ty actor p cs = Inr c"
  shows "tool_names c = tool_names b @ (case (ty = ''slow.tool'', p) of (True, PSlowTool q) \<Rightarrow> [tp_name q] | _ \<Rightarrow> [])"
proof -
  from assms(2) obtain d where d: "emit b (tool_call_of v b ty actor p cs) = Inr d" "te_settle v d = Inr c"
    by (auto simp: emit_as_def and_then_eq_Inr)
  from d(1) have "log_of d = log_of b @ [stamp b (tool_call_of v b ty actor p cs)]"
    by (simp add: emit_Inr log_append_Inr)
  then have "tool_names d = tool_names b @ (case (ty = ''slow.tool'', p) of (True, PSlowTool q) \<Rightarrow> [tp_name q] | _ \<Rightarrow> [])"
    by (auto simp: tool_names_def map_filter_append List.map_filter_simps tool_name_def stamp_def Let_def tool_call_of_def
      split: payload.split)
  with assms(1) d(2) show ?thesis by (simp add: quiet_settle_def)
qed

lemma tool_names_effects:
  assumes "quiet_settle v"
  shows "emit_effects v b es cs = Inr c \<Longrightarrow> \<forall>x \<in> set es. fst x \<noteq> ''slow.tool'' \<Longrightarrow> tool_names c = tool_names b"
proof (induction es arbitrary: b)
  case (Cons x es)
  obtain ty p where x: "x = (ty, p)" by (cases x)
  from Cons.prems(1) obtain d where d: "emit_as v b ty ''guard'' p cs = Inr d" "emit_effects v d es cs = Inr c"
    by (auto simp: x and_then_eq_Inr)
  from tool_names_emit_as [OF assms d(1)] Cons.prems(2) have "tool_names d = tool_names b" by (simp add: x)
  with Cons.IH [OF d(2)] Cons.prems(2) show ?case by simp
qed simp

lemma tool_names_apply:
  assumes "quiet_settle v" "apply_result v b cs name a r = Inr (d, t)" "\<forall>x \<in> set (res_effects r). fst x \<noteq> ''slow.tool''"
  shows "tool_names d = tool_names b @ [name]"
proof -
  from assms(2) obtain c where c: "emit_as v b ''slow.tool'' ''slow'' (PSlowTool (tool_payload_of name a r)) cs = Inr c"
      "emit_effects v c (res_effects r) (event_id (lg_run_id (bus_log b)) (next_seq (bus_log b)) # res_causes r) = Inr d"
    by (auto simp: apply_result_def Let_def and_then_eq_Inr)
  from tool_names_emit_as [OF assms(1) c(1)] tool_names_effects [OF assms(1) c(2) assms(3)]
  show ?thesis by (simp add: tool_payload_of_def)
qed

lemma tool_names_readback:
  assumes "quiet_settle v"
  shows "readback_offers v bb es ts hs offs b = Inr c \<Longrightarrow> tool_names c = tool_names b"
proof (induction offs arbitrary: b)
  case (Cons off offs)
  show ?case
  proof (cases "readback_offers v bb es ts hs offs b = Inr c")
    case True
    then show ?thesis by (rule Cons.IH)
  next
    case False
    with Cons.prems obtain u cs d where d: "emit_as v b ''readback.updated'' ''guard'' (PReadback u) cs = Inr d"
        "readback_offers v bb es ts hs offs d = Inr c"
      by (auto simp: and_then_eq_Inr Let_def split: if_splits)
    from tool_names_emit_as [OF assms d(1)] Cons.IH [OF d(2)] show ?thesis by simp
  qed
qed simp

definition item_name :: "json \<Rightarrow> string" where
  "item_name x = (if item_problem 0 x = None then json_str (json_get x ''tool'') else ''act'')"

lemma item_problem_None: "item_problem n x = None \<longleftrightarrow> item_problem m x = None"
  by (auto simp: item_problem_def split: json.splits option.splits)

lemma run_item_effects:
  assumes "shows_guides (te_profiles v)" "run_item v b basis ts name a = (p, Inr r)"
  shows "\<forall>x \<in> set (res_effects r). fst x \<noteq> ''slow.tool''"
proof (cases "snd (run_tool v b basis ts name a)")
  case (Inl e)
  with assms(2) show ?thesis
    by (cases "run_tool v b basis ts name a") (auto simp: run_item_def refused_def split: if_splits)
next
  case (Inr y)
  with assms(2) have "run_tool v b basis ts name a = (p, Inr r)"
    by (cases "run_tool v b basis ts name a") (auto simp: run_item_def)
  with run_tool_fair [OF assms(1), of b ts basis name a] show ?thesis
    by (auto simp: run_fair_def result_fair_def list_all_iff effect_fair_def)
qed

lemma tool_names_item:
  assumes "shows_guides (te_profiles v)" "quiet_settle v" "act_item v basis cs st n x = Inr s"
  shows "tool_names (ac_bus s) = tool_names (ac_bus st) @ [item_name x]"
proof (cases "item_problem n x")
  case (Some why)
  with assms(3) obtain b t where "apply_result v (ac_bus st) cs ''act'' x (refused ActShape why) = Inr (b, t)" "ac_bus s = b"
    by (auto simp: act_item_def and_then_eq_Inr)
  moreover have "item_name x = ''act''" using Some item_problem_None [of n x 0] by (auto simp: item_name_def)
  ultimately show ?thesis using tool_names_apply [OF assms(2), of "ac_bus st" cs "''act''" x] by (simp add: refused_def)
next
  case None
  let ?name = "json_str (json_get x ''tool'')"
  obtain p y where y: "run_item v (ac_bus st) basis (ac_tools st) ?name (case x of JObj ms \<Rightarrow> ms | _ \<Rightarrow> []) = (p, y)"
    by (cases "run_item v (ac_bus st) basis (ac_tools st) ?name (case x of JObj ms \<Rightarrow> ms | _ \<Rightarrow> [])")
  from assms(3) obtain r where r: "y = Inr r" by (cases y) (simp_all add: act_item_def None Let_def y)
  from assms(3) obtain b t where b: "apply_result v (ac_bus st) cs ?name x r = Inr (b, t)" "ac_bus s = b"
    by (auto simp: act_item_def None Let_def y r and_then_eq_Inr)
  have "item_name x = ?name" using None item_problem_None [of n x 0] by (simp add: item_name_def)
  with tool_names_apply [OF assms(2) b(1) run_item_effects [OF assms(1) y [unfolded r]]] b(2) show ?thesis by simp
qed

lemma tool_names_items:
  assumes "shows_guides (te_profiles v)" "quiet_settle v"
  shows "act_items v basis cs st n xs = Inr s \<Longrightarrow> tool_names (ac_bus s) = tool_names (ac_bus st) @ map item_name xs"
proof (induction xs arbitrary: st n)
  case (Cons x xs)
  from Cons.prems obtain z where z: "act_item v basis cs st n x = Inr z" "act_items v basis cs z (n + 1) xs = Inr s"
    by (auto simp: and_then_eq_Inr)
  from tool_names_item [OF assms z(1)] Cons.IH [OF z(2)] show ?case by simp
qed simp

lemma summaries_effects: "\<forall>x \<in> set (res_effects (summaries_of ts bb args)). fst x \<noteq> ''slow.tool''"
  by (auto simp: summaries_of_def set_summaries_def Let_def okay_def no_def split: option.splits)


text \<open>C39. Bad arguments should be refused, yet some end the session. If a call of \<open>propose_mandate\<close> or \<open>tighten_mandate\<close>
  gives, in place of the object of its limits, an empty text or a list of names of limits, the \<open>AttributeError\<close> of
  \<open>raw.get\<close> is none of the errors that count as bad arguments, so the whole act raises it.\<close>
theorem limits_without_object_escape:
  assumes "slow_readback v ts b0 = Inr b" "whole_problem call = Inr args" "calls_of args = JObj a # rest"
    and "dget a ''tool'' = Some (JStr name)"
    and "(name, key) \<in> {(''propose_mandate'', ''envelope''), (''tighten_mandate'', ''changes'')}"
    and "dget a key = Some x" "x = JStr [] \<or> (\<exists>ks. x = JList (map JStr ks) \<and> set ks \<subseteq> set BOUNDS \<union> set LISTS)"
  shows "act v ts b0 basis cs call = Inl AttributeError"
proof -
  have x: "envelope_arg x = Inl AttributeError"
    using assms(7) by (auto simp: envelope_arg_def list_ex_iff list_all_iff)
  have run: "\<exists>p. run_tool v b basis ts name a = (p, Inl AttributeError)"
  proof (cases "name = ''propose_mandate''")
    case True
    with assms(5,6) have "dget a ''envelope'' = Some x" by simp
    with True x show ?thesis by (simp add: run_tool_def Let_def arg_def)
  next
    case False
    with assms(5,6) have "name = ''tighten_mandate''" "dget a ''changes'' = Some x" by simp_all
    with x show ?thesis by (simp add: run_tool_def Let_def arg_def)
  qed
  then have "\<exists>p. run_item v b basis ts name a = (p, Inl AttributeError)"
    by (auto simp: run_item_def invalid_error_def)
  moreover have "item_problem 0 (JObj a) = None" using assms(4) by (simp add: item_problem_def)
  ultimately have "act_item v basis cs \<lparr>ac_bus = b, ac_tools = ts, ac_out = [], ac_finish = []\<rparr> 0 (JObj a) = Inl AttributeError"
    using assms(4) by (auto simp: act_item_def json_get_def json_str_def Let_def)
  then show ?thesis using assms(1-3) by (simp add: act_def)
qed

section \<open>At concrete inputs\<close>

definition guide_profile :: profile where
  "guide_profile =
     \<lparr>prof_name = CP_PROFILE, prof_lane = CpLane, prof_system = ''be brief'',
      prof_sections = [(''GUIDE'', SecGuidance)], prof_labels = (''rep'', ''you''), prof_triggers = [],
      prof_moves = [(guide_move.IDENTIFY, ''say who is calling'')], prof_closing = ''go'', prof_pause_ends_speech = False,
      prof_p2_ids_sha256 = ''ab''\<rparr>"

definition sample_env :: tool_env where
  "sample_env = \<lparr>te_ext = sample_externals, te_reader = with_cues (\<lambda>_. None), te_profiles = [(CP_PROFILE, guide_profile)],
     te_case = sample_case, te_shareable = [], te_transcript = True,
     te_calls = (\<lambda>_. new_calls \<lparr>tk_channels = [], tk_shareable = []\<rparr> True []), te_now = (\<lambda>_. 0),
     te_wall = (\<lambda>_. \<lparr>dt_year = 2026, dt_month = 1, dt_day = 1, dt_hour = 0, dt_minute = 0, dt_second = 0, dt_micro = 0, dt_offset = Some 0\<rparr>),
     te_ms_of = (\<lambda>n. n), te_error_text = (\<lambda>_. ''bad''), te_offer_text = (\<lambda>_. ''offer''), te_clock = (\<lambda>_. (1, 0)),
     te_settle = Inr\<rparr>"

lemma sample_env_ok: "shows_guides (te_profiles sample_env)" "quiet_settle sample_env"
  by (simp_all add: shows_guides_def quiet_settle_def sample_env_def guide_profile_def)

definition one_line_bus :: bus where
  "one_line_bus = session ''r'' [sample_call 0 ''user.msg'' ''kernel'' (PUserMsg ''hello'') []]"

definition known_bus :: bus where
  "known_bus = one_line_bus\<lparr>bus_bb := (bus_bb one_line_bus)\<lparr>bb_public := (bb_public (bus_bb one_line_bus))\<lparr>pub_facts :=
     [(''account.last4'', \<lparr>pf_key = ''account.last4'', pf_value = ''4821'', pf_source = CpUtt, pf_source_ref = ''u1''\<rparr>)]\<rparr>\<rparr>\<rparr>"

definition identify_args :: arguments where
  "identify_args = [(''tool'', JStr ''guide_fast''), (''move'', JStr ''identify''), (''slots'', JList [JStr ''fact:account.last4''])]"

definition identify_guide :: slow_to_fast where
  "identify_guide = \<lparr>s2f_msg_id = ''s2f-1'', s2f_lane = CpLane, s2f_ty = GUIDE, s2f_text = [],
     s2f_guide = Some \<lparr>g_move = guide_move.IDENTIFY, g_slots = [''fact:account.last4'']\<rparr>, s2f_approval_id = None\<rparr>"

lemma identify_runs:
  "run_tool sample_env known_bus None new_tools ''guide_fast'' identify_args =
     (new_tools\<lparr>to_n := 1, to_guides := [(''s2f-1'', guide_move.IDENTIFY)]\<rparr>,
      Inr (okay ''sent s2f-1'' [(''s2f.msg'', PS2F identify_guide)]))"
  by code_simp

theorem slow_speaks_public_guides_witness:
  "message_fair (bus_bb known_bus) identify_guide"
proof -
  have "messages (okay ''sent s2f-1'' [(''s2f.msg'', PS2F identify_guide)]) = [identify_guide]"
    by (simp add: messages_def okay_def List.map_filter_simps)
  with slow_speaks_public_guides [OF sample_env_ok(1) identify_runs] show ?thesis by simp
qed

theorem message_ids_distinct_witness:
  "distinct (sent_ids (tool_runs sample_env new_tools
     [(known_bus, None, ''guide_fast'', identify_args), (known_bus, None, ''guide_fast'', identify_args)]))"
  by (rule message_ids_distinct [OF sample_env_ok(1)])

definition telling_act :: tool_call where
  "telling_act = Inr (JObj [(''private_summary'', JStr ''s''), (''calls'',
     JList [JObj [(''tool'', JStr ''tell_user''), (''text'', JStr ''Calling now'')], JObj [(''text'', JStr ''no tool'')]])])"

lemma telling_act_runs: "succeeds (act sample_env new_tools one_line_bus None [''r:0''] telling_act)"
  by code_simp


definition bad_envelope :: "(string, json) dict" where
  "bad_envelope = [(''tool'', JStr ''propose_mandate''), (''envelope'', JList [])]"

lemma readback_one_line: "slow_readback sample_env new_tools one_line_bus = Inr one_line_bus"
  by code_simp

theorem limits_without_object_escape_witness:
  "act sample_env new_tools one_line_bus None [''r:0'']
     (Inr (JObj [(''private_summary'', JStr ''s''), (''calls'', JList [JObj bad_envelope])])) = Inl AttributeError"
proof -
  let ?args = "[(''private_summary'', JStr ''s''), (''calls'', JList [JObj bad_envelope])]"
  have "whole_problem (Inr (JObj ?args)) = Inr ?args" by code_simp
  moreover have "calls_of ?args = JObj bad_envelope # []" by (simp add: calls_of_def arg_or_none_def)
  moreover have "dget bad_envelope ''tool'' = Some (JStr ''propose_mandate'')" "dget bad_envelope ''envelope'' = Some (JList [])"
    by (simp_all add: bad_envelope_def)
  moreover have "(''propose_mandate'', ''envelope'') \<in> {(''propose_mandate'', ''envelope''), (''tighten_mandate'', ''changes'')}"
    by simp
  moreover have "JList [] = JStr [] \<or> (\<exists>ks. JList [] = JList (map JStr ks) \<and> set ks \<subseteq> set BOUNDS \<union> set LISTS)"
    by (intro disjI2 exI [of _ "[]"]) simp
  ultimately show ?thesis by (intro limits_without_object_escape [OF readback_one_line])
qed

end
