(* ===== verification/Lanes.thy ===== *)
theory Lanes
  imports Views Log_Bus
begin

text \<open>
  \<open>kernel/lanes.py\<close>: one lane of Fast. Its queue of triggers, the start of a generation, what follows from the items of
  its turn, and the check on the floor before the turn is said. Between these parts the lane waits, so they are steps
  of a relation and the board, the events and the model's answer are free between them. Building the request
  (rendering, seeds, the teacher of condition R) and the session's counters are left out.
\<close>

section \<open>The queue\<close>

(* kernel/lanes.py 102-107 _Ask *)
record lane_ask =
  as_trigger :: trigger
  as_cause :: string
  as_acks :: "string list"
  as_guides :: "string list"
  as_again :: bool

abbreviation ask_kind :: "lane_ask \<Rightarrow> trigger_kind" where
  "ask_kind a \<equiv> tg_kind (as_trigger a)"

text \<open>Of an event the lane keeps its id and its number.\<close>

(* kernel/lanes.py 111-126 FastLane.__init__ *)
record fast_lane =
  la_lane :: lane
  la_pending :: "lane_ask list"
  la_n :: nat
  la_retried :: "string list"
  la_said :: "string list"
  la_cut :: "string option"
  la_released :: "string option"
  la_heard :: "(string \<times> int) option"
  la_guide :: "string option"
  la_partner :: "(string \<times> int) option"

definition new_lane :: "lane \<Rightarrow> fast_lane" where
  "new_lane ln = \<lparr>la_lane = ln, la_pending = [], la_n = 0, la_retried = [], la_said = [], la_cut = None,
     la_released = None, la_heard = None, la_guide = None, la_partner = None\<rparr>"

definition lane_word :: "lane \<Rightarrow> string" where
  "lane_word ln = (case ln of UserLane \<Rightarrow> ''user'' | CpLane \<Rightarrow> ''cp'')"

(* kernel/lanes.py 128-140 FastLane._on_event *)
definition lane_on_event :: "fast_lane \<Rightarrow> event \<Rightarrow> fast_lane" where
  "lane_on_event l e = (case ev_payload e of
      PReleased ln _ \<Rightarrow>
        if ev_type e = ''speak.released'' \<and> ln = lane_word (la_lane l) then l\<lparr>la_released := Some (ev_event_id e)\<rparr> else l
    | PUttDelivered ln _ _ _ _ \<Rightarrow>
        if ev_type e = ''utt.delivered'' \<and> ln = lane_word (la_lane l) \<and> la_released l \<in> Some ` set (ev_cause_ids e)
        then l\<lparr>la_heard := Some (ev_event_id e, ev_seq e)\<rparr> else l
    | PBargeIn ln u \<Rightarrow>
        if ev_type e = ''chan.barge_in'' \<and> ln = lane_word (la_lane l) then l\<lparr>la_cut := Some u\<rparr> else l
    | PUttFinal ln who _ _ \<Rightarrow>
        if ev_type e = ''utt.final'' \<and> ln = lane_word (la_lane l) \<and> who = ''partner''
        then l\<lparr>la_partner := Some (ev_event_id e, ev_seq e)\<rparr> else l
    | PS2F m \<Rightarrow>
        if ev_type e = ''s2f.msg'' \<and> s2f_lane m = la_lane l \<and> s2f_guide m \<noteq> None
        then l\<lparr>la_guide := Some (s2f_msg_id m)\<rparr> else l
    | _ \<Rightarrow> l)"

text \<open>One ask of each kind, the newest absorbing what the older ones voice; each message of Slow is its own.\<close>

(* kernel/lanes.py 146-154 FastLane._add *)
definition add_ask :: "bool \<Rightarrow> lane_ask \<Rightarrow> fast_lane \<Rightarrow> fast_lane" where
  "add_ask first a l =
     (let absorbed = (\<lambda>x. ask_kind x = ask_kind a \<and> ask_kind a \<noteq> TrigSlowMsg);
          same = filter absorbed (la_pending l);
          b = a\<lparr>as_acks := concat (map as_acks same) @ as_acks a, as_guides := concat (map as_guides same) @ as_guides a\<rparr>;
          rest = filter (\<lambda>x. \<not> absorbed x) (la_pending l)
      in l\<lparr>la_pending := (if first then b # rest else rest @ [b])\<rparr>)"

(* kernel/lanes.py 142-144 FastLane.trigger *)
definition lane_trigger :: "trigger \<Rightarrow> string \<Rightarrow> string list \<Rightarrow> fast_lane \<Rightarrow> fast_lane" where
  "lane_trigger t cause acks l =
     add_ask False \<lparr>as_trigger = t, as_cause = cause, as_acks = acks, as_guides = [], as_again = False\<rparr> l"

(* kernel/lanes.py 62-62 URGENT *)
definition URGENT :: "trigger_kind list" where
  "URGENT = [TrigUserMsg, TrigRepSpoke]"

(* kernel/lanes.py 160-163 FastLane.run *)
definition next_ask :: "fast_lane \<Rightarrow> lane_ask \<times> fast_lane" where
  "next_ask l =
     (let urgent = filter (\<lambda>a. ask_kind a \<in> set URGENT) (la_pending l);
          chosen = hd (if urgent = [] then la_pending l else urgent)
      in (chosen, l\<lparr>la_pending := remove1 chosen (la_pending l)\<rparr>))"

(* kernel/lanes.py 299-304 FastLane._again *)
definition ask_again :: "lane_ask \<Rightarrow> fast_lane \<Rightarrow> fast_lane" where
  "ask_again a l =
     (if as_again a \<and> ask_kind a = TrigApprovalCard then l else add_ask True (a\<lparr>as_again := True\<rparr>) l)"

section \<open>A generation\<close>

record generation =
  ge_ask :: lane_ask
  ge_id :: string
  ge_epoch :: int
  ge_basis :: int
  ge_guides :: "string list"
  ge_utt_ref :: "string option"

(* kernel/lanes.py 193-193 FastLane.generate *)
definition pending_guides :: "blackboard \<Rightarrow> lane \<Rightarrow> string list" where
  "pending_guides bb ln = map s2f_msg_id (filter (\<lambda>m. s2f_guide m \<noteq> None)
     (case dget (bb_s2f_pending bb) ln of None \<Rightarrow> [] | Some ms \<Rightarrow> ms))"

text \<open>The one guide the view renders, if it is still to be voiced.\<close>

(* kernel/lanes.py 193-195 FastLane.generate *)
definition guides_now :: "blackboard \<Rightarrow> fast_lane \<Rightarrow> lane_ask \<Rightarrow> string list" where
  "guides_now bb l a = (case la_guide l of None \<Rightarrow> []
     | Some g \<Rightarrow> if g \<in> set (pending_guides bb (la_lane l)) \<or> g \<in> set (as_guides a) then [g] else [])"

text \<open>Why an ask does not run: the call is over, the card is decided, or a reply said the guide first.\<close>

(* kernel/lanes.py 188-198 FastLane.generate *)
definition not_run :: "bool \<Rightarrow> blackboard \<Rightarrow> fast_lane \<Rightarrow> lane_ask \<Rightarrow> bool" where
  "not_run closed bb l a \<longleftrightarrow>
     la_lane l = CpLane \<and> closed \<or>
     ask_kind a = TrigApprovalCard \<and> priv_pending_approval (bb_private bb) = None \<or>
     ask_kind a = TrigGuidance \<and> (case la_guide l of None \<Rightarrow> False | Some g \<Rightarrow> g \<in> set (la_said l))"

text \<open>\<open>brief\<close>: the task's brief for the lane.\<close>

(* kernel/lanes.py 166-169 FastLane.view *)
definition lane_view :: "blackboard \<Rightarrow> lane \<Rightarrow> trigger \<Rightarrow> string \<Rightarrow> fast_view outcome" where
  "lane_view bb ln t brief = (case ln of UserLane \<Rightarrow> view_user bb t brief | CpLane \<Rightarrow> view_cp bb t brief)"

(* kernel/lanes.py 199-213 FastLane.generate *)
definition start_generation :: "blackboard \<Rightarrow> fast_lane \<Rightarrow> lane_ask \<Rightarrow> string \<Rightarrow> (fast_lane \<times> generation) outcome" where
  "start_generation bb l a brief =
     and_then (lane_view bb (la_lane l) (as_trigger a) brief) (\<lambda>v.
       let n = la_n l + 1;
           heard = map l_utt_id (filter (\<lambda>x. l_speaker x = Partner) (fv_transcript v))
       in Inr (l\<lparr>la_n := n\<rparr>,
         \<lparr>ge_ask = a, ge_id = lane_word (la_lane l) @ ''-g'' @ dec n, ge_epoch = bb_epoch bb, ge_basis = bb_seq bb,
          ge_guides = guides_now bb l a, ge_utt_ref = (if heard = [] then None else Some (last heard))\<rparr>))"

section \<open>The items of a turn\<close>

type_synonym emission = "string \<times> payload"

fun is_speech :: "turn_item \<Rightarrow> bool" where
  "is_speech (Speech _) = True"
| "is_speech _ = False"

fun is_issue :: "turn_item \<Rightarrow> bool" where
  "is_issue (ParseIssue _ _) = True"
| "is_issue _ = False"

(* kernel/lanes.py 93-94 _speaks *)
definition speaks :: "turn_item list \<Rightarrow> bool" where
  "speaks items = list_ex is_speech items"

(* kernel/lanes.py 97-98 _acts *)
definition acts :: "turn_item list \<Rightarrow> bool" where
  "acts items = list_ex (\<lambda>i. \<not> is_issue i) items"

(* kernel/lanes.py 63-66 _F2S *)
definition f2s_of :: "lane \<Rightarrow> relay_type \<Rightarrow> f2s_type" where
  "f2s_of ln t = (case t of
      RelayNote \<Rightarrow> NOTE | RelayRequest \<Rightarrow> REQUEST | RelayRevoke \<Rightarrow> REVOKE | RelayCorrection \<Rightarrow> USER_UPDATE
    | RelayFact \<Rightarrow> (case ln of UserLane \<Rightarrow> USER_UPDATE | CpLane \<Rightarrow> CP_UPDATE))"

(* kernel/lanes.py 309-323 FastLane._relay *)
definition relay_message :: "lane \<Rightarrow> generation \<Rightarrow> string \<Rightarrow> turn_item \<Rightarrow> fast_to_slow option" where
  "relay_message ln g i item = (case item of
      Relay t s facts \<Rightarrow> Some \<lparr>f2s_msg_id = i, f2s_lane = ln, f2s_gen_id = ge_id g, f2s_utt_ref = ge_utt_ref g,
        f2s_ty = f2s_of ln t, f2s_facts = facts, f2s_correction = (t = RelayCorrection), f2s_text = s\<rparr>
    | HoldTurn r \<Rightarrow> Some \<lparr>f2s_msg_id = i, f2s_lane = ln, f2s_gen_id = ge_id g, f2s_utt_ref = ge_utt_ref g,
        f2s_ty = HOLD, f2s_facts = [], f2s_correction = False, f2s_text = hold_text r\<rparr>
    | _ \<Rightarrow> None)"

definition hold_of :: "blackboard \<Rightarrow> hold_reason option" where
  "hold_of bb = map_option hold_reason_of (pub_cp_hold (bb_public bb))"

(* kernel/lanes.py 316-320 FastLane._relay *)
definition repeats_hold :: "blackboard \<Rightarrow> turn_item \<Rightarrow> bool" where
  "repeats_hold bb item = (case item of HoldTurn r \<Rightarrow> hold_of bb = Some r | _ \<Rightarrow> False)"

text \<open>\<open>ids n\<close> is the id of the \<open>n\<close>th line from here on. A hold already on is not repeated; a message over a bound is dropped.\<close>

(* kernel/lanes.py 306-331 FastLane._relay *)
fun relays :: "blackboard \<Rightarrow> lane \<Rightarrow> generation \<Rightarrow> (nat \<Rightarrow> string) \<Rightarrow> nat \<Rightarrow> turn_item list \<Rightarrow> fast_to_slow list" where
  "relays bb ln g ids n [] = []"
| "relays bb ln g ids n (item # items) =
     (case (if ln = CpLane \<and> repeats_hold bb item then None else relay_message ln g (ids n) item) of
        None \<Rightarrow> relays bb ln g ids n items
      | Some m \<Rightarrow> if f2s_valid m then m # relays bb ln g ids (n + 1) items else relays bb ln g ids n items)"

(* kernel/lanes.py 294-297 FastLane._hold *)
definition hold_change :: "blackboard \<Rightarrow> lane \<Rightarrow> hold_reason option \<Rightarrow> emission list" where
  "hold_change bb ln held = (if ln = CpLane \<and> held \<noteq> hold_of bb then [(''chan.hold'', PHold ''cp'' held)] else [])"

(* kernel/lanes.py 259-259 FastLane.generate *)
fun first_hold :: "turn_item list \<Rightarrow> hold_reason option" where
  "first_hold [] = None"
| "first_hold (HoldTurn r # _) = Some r"
| "first_hold (_ # items) = first_hold items"

(* kernel/lanes.py 261-261 FastLane.generate *)
fun speech_texts :: "turn_item list \<Rightarrow> string list" where
  "speech_texts [] = []"
| "speech_texts (Speech s # items) = s # speech_texts items"
| "speech_texts (_ # items) = speech_texts items"

text \<open>The guides of an empty turn are not voiced; each is asked for once more.\<close>

(* kernel/lanes.py 248-254 FastLane.generate *)
definition guides_voiced :: "generation \<Rightarrow> turn_item list \<Rightarrow> string list" where
  "guides_voiced g items = (if acts items then ge_guides g else [])"

(* kernel/lanes.py 248-250 FastLane.generate *)
definition guides_retried :: "fast_lane \<Rightarrow> generation \<Rightarrow> turn_item list \<Rightarrow> string list" where
  "guides_retried l g items = (if acts items then []
     else filter (\<lambda>x. x \<notin> set (as_guides (ge_ask g)) \<and> x \<notin> set (la_retried l)) (ge_guides g))"

(* kernel/lanes.py 248-254 FastLane.generate *)
definition retrigger :: "string \<Rightarrow> generation \<Rightarrow> turn_item list \<Rightarrow> fast_lane \<Rightarrow> fast_lane" where
  "retrigger turn g items l = (let again = guides_retried l g items in
     if again = [] then l
     else lane_trigger \<lparr>tg_kind = TrigGuidance, tg_msg_id = None, tg_wait_s = None\<rparr> turn []
       (l\<lparr>la_retried := la_retried l @ again\<rparr>))"

(* kernel/lanes.py 247-247 FastLane.generate *)
definition slow_msg_of :: "lane_ask \<Rightarrow> string list" where
  "slow_msg_of a = (case tg_msg_id (as_trigger a) of None \<Rightarrow> [] | Some m \<Rightarrow> if m = [] then [] else [m])"

(* kernel/lanes.py 255-257 FastLane.generate *)
definition voiced_by :: "generation \<Rightarrow> turn_item list \<Rightarrow> string list" where
  "voiced_by g items = fromkeys (guides_voiced g items @ slow_msg_of (ge_ask g) @ as_acks (ge_ask g))"

text \<open>A line of the turn: its id and text.\<close>

(* kernel/lanes.py 260-264 FastLane.generate *)
definition turn_lines :: "generation \<Rightarrow> turn_item list \<Rightarrow> (string \<times> string) list" where
  "turn_lines g items = map (\<lambda>(n, s). (ge_id g @ ''-u'' @ dec n, s))
     (zip [0..<length (speech_texts items)] (speech_texts items))"

text \<open>What is left to do after the stream: nothing, or to say the lines.\<close>

record speech_plan =
  sp_gen :: generation
  sp_lines :: "(string \<times> string) list"
  sp_held :: "hold_reason option"
  sp_guides :: "string list"

(* kernel/lanes.py 235-267 FastLane.generate *)
definition end_generation ::
  "blackboard \<Rightarrow> (nat \<Rightarrow> string) \<Rightarrow> fast_lane \<Rightarrow> generation \<Rightarrow> turn_item list \<Rightarrow> fast_lane \<times> emission list \<times> speech_plan option"
where
  "end_generation bb ids l g items =
     (let ln = lane_word (la_lane l) in
      if bb_epoch bb \<noteq> ge_epoch g
      then (ask_again (ge_ask g) l, [(''fast.cancelled'', PFastCancelled (ge_id g) ''epoch'')], None)
      else
        let voiced = voiced_by g items; ls = turn_lines g items; held = first_hold items;
            out = [(''fast.turn'', PFastTurn ln (ge_id g) (speaks items))] @
              map (\<lambda>m. (''s2f.voiced'', PS2FVoiced m (ge_id g))) voiced @
              map (\<lambda>m. (''f2s.msg'', PF2S m)) (relays bb (la_lane l) g ids (1 + length voiced) items) @
              map (\<lambda>(u, s). (''fast.sentence'', PSentence ln (ge_id g) u s)) ls
        in (retrigger (ids 0) g items l,
            out @ (if ls = [] then hold_change bb (la_lane l) held else []),
            if ls = [] then None
            else Some \<lparr>sp_gen = g, sp_lines = ls, sp_held = held, sp_guides = guides_voiced g items\<rparr>))"

section \<open>On the floor\<close>

text \<open>A reply is the first run for a line of the rep.\<close>

(* kernel/lanes.py 268-268 FastLane.generate *)
definition is_reply :: "lane_ask \<Rightarrow> bool" where
  "is_reply a \<longleftrightarrow> ask_kind a = TrigRepSpoke \<and> \<not> as_again a"

definition since_basis :: "int \<Rightarrow> (string \<times> int) option \<Rightarrow> bool" where
  "since_basis n e \<longleftrightarrow> (case e of None \<Rightarrow> False | Some (_, q) \<Rightarrow> n < q)"

text \<open>Why a turn is stale on the floor, if it is.\<close>

(* kernel/lanes.py 284-288 FastLane._fresh.fresh *)
definition stale_for :: "fast_lane \<Rightarrow> generation \<Rightarrow> string option" where
  "stale_for l g =
     (if since_basis (ge_basis g) (la_heard l) then Some ''verbatim''
      else if is_reply (ge_ask g) \<and> since_basis (ge_basis g) (la_partner l) then Some ''partner''
      else None)"

(* kernel/lanes.py 269-277 FastLane.generate *)
definition take_turn :: "blackboard \<Rightarrow> fast_lane \<Rightarrow> speech_plan \<Rightarrow> fast_lane \<times> emission list \<times> bool" where
  "take_turn bb l p = (case stale_for l (sp_gen p) of
      Some why \<Rightarrow> (ask_again ((ge_ask (sp_gen p))\<lparr>as_guides := sp_guides p\<rparr>) l,
        [(''fast.cancelled'', PFastCancelled (ge_id (sp_gen p)) why)], False)
    | None \<Rightarrow> (l, hold_change bb (la_lane l) (sp_held p), True))"

text \<open>Heard whole, unless its last cut line is one of them.\<close>

(* kernel/lanes.py 278-279 FastLane.generate *)
definition after_speech :: "speech_plan \<Rightarrow> fast_lane \<Rightarrow> fast_lane" where
  "after_speech p l =
     (if la_cut l \<in> Some ` set (map fst (sp_lines p)) then l else l\<lparr>la_said := la_said l @ sp_guides p\<rparr>)"

section \<open>The lane as it runs\<close>

datatype lane_stage = LaneIdle | Streaming generation | Planned speech_plan | Talking speech_plan

text \<open>
  Kept beside the lane: \<open>ln_seen\<close>, the events of the bus so far; \<open>ln_asked\<close>, the approval notices handed in;
  \<open>ln_spoken\<close>, the plans said, each with the events seen when it took the floor; \<open>ln_dropped\<close>, the notices of asks
  that did not run.
\<close>

record lane_run =
  ln_lane :: fast_lane
  ln_stage :: lane_stage
  ln_log :: "emission list"
  ln_seen :: "event list"
  ln_asked :: "string list"
  ln_spoken :: "(speech_plan \<times> event list) list"
  ln_dropped :: "string list"

definition idle_lane :: "lane \<Rightarrow> lane_run" where
  "idle_lane ln = \<lparr>ln_lane = new_lane ln, ln_stage = LaneIdle, ln_log = [], ln_seen = [], ln_asked = [],
     ln_spoken = [], ln_dropped = []\<rparr>"

definition acks_lost :: "lane_ask \<Rightarrow> string list" where
  "acks_lost a = (if as_again a \<and> ask_kind a = TrigApprovalCard then as_acks a else [])"

text \<open>The bus numbers its events upwards; the lane's coroutine moves from one stage to the next.\<close>

inductive lane_step :: "lane_run \<Rightarrow> lane_run \<Rightarrow> bool" where
  event: "\<forall>x\<in>set (ln_seen s). ev_seq x < ev_seq e \<Longrightarrow>
     lane_step s (s\<lparr>ln_lane := lane_on_event (ln_lane s) e, ln_seen := ln_seen s @ [e]\<rparr>)"
| asked: "lane_step s (s\<lparr>ln_lane := lane_trigger t cause acks (ln_lane s), ln_asked := ln_asked s @ acks\<rparr>)"
| moot: "ln_stage s = LaneIdle \<Longrightarrow> la_pending (ln_lane s) \<noteq> [] \<Longrightarrow> next_ask (ln_lane s) = (a, l) \<Longrightarrow> not_run closed bb l a \<Longrightarrow>
     lane_step s (s\<lparr>ln_lane := l, ln_dropped := ln_dropped s @ as_acks a\<rparr>)"
| started: "ln_stage s = LaneIdle \<Longrightarrow> la_pending (ln_lane s) \<noteq> [] \<Longrightarrow> next_ask (ln_lane s) = (a, l) \<Longrightarrow>
     \<not> not_run closed bb l a \<Longrightarrow> start_generation bb l a brief = Inr (m, g) \<Longrightarrow>
     lane_step s (s\<lparr>ln_lane := m, ln_stage := Streaming g,
       ln_log := ln_log s @ [(''fast.request'', PFastRequest (lane_word (la_lane l)) (ge_id g) (ge_basis g))]\<rparr>)"
| streamed: "ln_stage s = Streaming g \<Longrightarrow> end_generation bb ids (ln_lane s) g items = (l, out, plan) \<Longrightarrow>
     lane_step s (s\<lparr>ln_lane := l, ln_log := ln_log s @ out,
       ln_stage := (case plan of None \<Rightarrow> LaneIdle | Some p \<Rightarrow> Planned p),
       ln_dropped := ln_dropped s @ (if bb_epoch bb \<noteq> ge_epoch g then acks_lost (ge_ask g) else [])\<rparr>)"
| floor: "ln_stage s = Planned p \<Longrightarrow> take_turn bb (ln_lane s) p = (l, out, said) \<Longrightarrow>
     lane_step s (s\<lparr>ln_lane := l, ln_log := ln_log s @ out, ln_stage := (if said then Talking p else LaneIdle),
       ln_spoken := (if said then ln_spoken s @ [(p, ln_seen s)] else ln_spoken s)\<rparr>)"
| spoken: "ln_stage s = Talking p \<Longrightarrow>
     lane_step s (s\<lparr>ln_lane := after_speech p (ln_lane s), ln_stage := LaneIdle\<rparr>)"

definition lane_reach :: "lane \<Rightarrow> lane_run \<Rightarrow> bool" where
  "lane_reach ln s \<longleftrightarrow> lane_step\<^sup>*\<^sup>* (idle_lane ln) s"

end
