(* ===== verification/Lanes_Facts.thy ===== *)
theory Lanes_Facts
  imports Lanes
begin

text \<open>
  What holds of a lane however its triggers, the events of the bus and the model's answers interleave. An invariant
  per fact, by induction on \<open>lane_step\<close>.
\<close>

section \<open>The parts the steps leave alone\<close>

lemma on_event_keeps [simp]:
  "la_pending (lane_on_event l e) = la_pending l" "la_retried (lane_on_event l e) = la_retried l"
  "la_lane (lane_on_event l e) = la_lane l" "la_said (lane_on_event l e) = la_said l"
  by (simp_all add: lane_on_event_def split: payload.splits)

lemma add_ask_keeps [simp]:
  "la_retried (add_ask f a l) = la_retried l" "la_lane (add_ask f a l) = la_lane l"
  "la_heard (add_ask f a l) = la_heard l" "la_partner (add_ask f a l) = la_partner l"
  "la_released (add_ask f a l) = la_released l"
  by (simp_all add: add_ask_def Let_def)

lemma ask_again_keeps [simp]:
  "la_retried (ask_again a l) = la_retried l" "la_lane (ask_again a l) = la_lane l"
  "la_heard (ask_again a l) = la_heard l" "la_partner (ask_again a l) = la_partner l"
  "la_released (ask_again a l) = la_released l"
  by (simp_all add: ask_again_def)

lemma trigger_keeps [simp]:
  "la_retried (lane_trigger t c k l) = la_retried l" "la_lane (lane_trigger t c k l) = la_lane l"
  "la_heard (lane_trigger t c k l) = la_heard l" "la_partner (lane_trigger t c k l) = la_partner l"
  "la_released (lane_trigger t c k l) = la_released l"
  by (simp_all add: lane_trigger_def)

lemma retrigger_keeps [simp]:
  "la_lane (retrigger u g i l) = la_lane l" "la_heard (retrigger u g i l) = la_heard l"
  "la_partner (retrigger u g i l) = la_partner l" "la_released (retrigger u g i l) = la_released l"
  by (simp_all add: retrigger_def Let_def)

lemma after_speech_keeps [simp]:
  "la_pending (after_speech p l) = la_pending l" "la_retried (after_speech p l) = la_retried l"
  "la_lane (after_speech p l) = la_lane l" "la_heard (after_speech p l) = la_heard l"
  "la_partner (after_speech p l) = la_partner l" "la_released (after_speech p l) = la_released l"
  by (simp_all add: after_speech_def)

lemma next_ask_keeps:
  assumes "next_ask l = (a, m)" "la_pending l \<noteq> []"
  shows "m = l\<lparr>la_pending := remove1 a (la_pending l)\<rparr>" "a \<in> set (la_pending l)"
proof -
  let ?u = "filter (\<lambda>a. ask_kind a \<in> set URGENT) (la_pending l)"
  have a: "a = hd (if ?u = [] then la_pending l else ?u)" and m: "m = l\<lparr>la_pending := remove1 a (la_pending l)\<rparr>"
    using assms(1) by (auto simp: next_ask_def Let_def)
  show "m = l\<lparr>la_pending := remove1 a (la_pending l)\<rparr>" by (rule m)
  show "a \<in> set (la_pending l)"
  proof (cases "?u = []")
    case False
    then have "hd ?u \<in> set ?u" by (rule hd_in_set)
    then show ?thesis using a False by simp
  next
    case True
    then show ?thesis using a assms(2) by simp
  qed
qed

lemma start_generation_Inr:
  assumes "start_generation bb l a brief = Inr (m, g)"
  shows "m = l\<lparr>la_n := la_n l + 1\<rparr>" "ge_ask g = a" "ge_basis g = bb_seq bb" "ge_guides g = guides_now bb l a"
  using assms by (auto simp: start_generation_def Let_def and_then_def split: sum.splits)

section \<open>The queue\<close>

abbreviation pending_of :: "trigger_kind \<Rightarrow> fast_lane \<Rightarrow> lane_ask list" where
  "pending_of k l \<equiv> filter (\<lambda>a. ask_kind a = k) (la_pending l)"

definition coalesced :: "fast_lane \<Rightarrow> bool" where
  "coalesced l \<longleftrightarrow> (\<forall>k. k \<noteq> TrigSlowMsg \<longrightarrow> length (pending_of k l) \<le> 1)"

lemma add_ask_same:
  assumes "ask_kind a = k" "k \<noteq> TrigSlowMsg"
  shows "length (pending_of k (add_ask f a l)) = 1"
proof -
  have [simp]: "filter (\<lambda>x. ask_kind x = k \<and> ask_kind x \<noteq> k) xs = []" for xs by (induction xs) auto
  show ?thesis using assms by (simp add: add_ask_def Let_def)
qed

lemma add_ask_other:
  assumes "ask_kind a \<noteq> k"
  shows "pending_of k (add_ask f a l) = pending_of k l"
  using assms by (auto simp: add_ask_def Let_def intro!: filter_cong)

lemma coalesced_upd [simp]:
  "coalesced (l\<lparr>la_retried := x\<rparr>) = coalesced l" "coalesced (l\<lparr>la_n := n\<rparr>) = coalesced l"
  "coalesced (lane_on_event l e) = coalesced l" "coalesced (after_speech p l) = coalesced l"
  by (simp_all add: coalesced_def)

lemma add_ask_coalesced: "coalesced l \<Longrightarrow> coalesced (add_ask f a l)"
  unfolding coalesced_def by (metis add_ask_other add_ask_same order_refl)

lemma trigger_coalesced: "coalesced l \<Longrightarrow> coalesced (lane_trigger t c k l)"
  by (simp add: lane_trigger_def add_ask_coalesced)

lemma ask_again_coalesced: "coalesced l \<Longrightarrow> coalesced (ask_again a l)"
  by (simp add: ask_again_def add_ask_coalesced)

lemma retrigger_coalesced: "coalesced l \<Longrightarrow> coalesced (retrigger u g i l)"
  by (simp add: retrigger_def Let_def trigger_coalesced)

lemma length_filter_remove1: "length (filter P (remove1 a xs)) \<le> length (filter P xs)"
  by (induction xs) auto

lemma remove_coalesced: "coalesced l \<Longrightarrow> coalesced (l\<lparr>la_pending := remove1 a (la_pending l)\<rparr>)"
  by (auto simp: coalesced_def intro: order_trans [OF length_filter_remove1])

lemma end_generation_lane:
  assumes "end_generation bb ids l g items = (m, out, plan)"
  shows "m = (if bb_epoch bb \<noteq> ge_epoch g then ask_again (ge_ask g) l else retrigger (ids 0) g items l)"
  using assms by (auto simp: end_generation_def Let_def split: if_splits)

lemma take_turn_lane:
  assumes "take_turn bb l p = (m, out, said)"
  shows "m = (if said then l else ask_again ((ge_ask (sp_gen p))\<lparr>as_guides := sp_guides p\<rparr>) l)"
    "said \<longleftrightarrow> stale_for l (sp_gen p) = None"
  using assms by (auto simp: take_turn_def split: option.splits)

text \<open>What every operation on the lane keeps, every step keeps.\<close>

lemma step_keeps:
  assumes st: "lane_step s t" and P: "P (ln_lane s)"
    and ev: "\<And>l e. P l \<Longrightarrow> P (lane_on_event l e)"
    and tr: "\<And>l t c k. P l \<Longrightarrow> P (lane_trigger t c k l)"
    and rm: "\<And>l a. P l \<Longrightarrow> P (l\<lparr>la_pending := remove1 a (la_pending l)\<rparr>)"
    and cn: "\<And>l n. P l \<Longrightarrow> P (l\<lparr>la_n := n\<rparr>)"
    and ag: "\<And>l a. P l \<Longrightarrow> P (ask_again a l)"
    and re: "\<And>l u g i. P l \<Longrightarrow> P (retrigger u g i l)"
    and af: "\<And>l p. P l \<Longrightarrow> P (after_speech p l)"
  shows "P (ln_lane t)"
  using st P
proof cases
  case (event e) then show ?thesis using P ev by simp
next
  case (asked tg c k) then show ?thesis using P tr by simp
next
  case (moot a l closed bb) then show ?thesis using P rm next_ask_keeps(1) by fastforce
next
  case (started a l closed bb brief m g)
  have "l = (ln_lane s)\<lparr>la_pending := remove1 a (la_pending (ln_lane s))\<rparr>" using started by (simp add: next_ask_keeps(1))
  then have "P l" using P rm by simp
  then show ?thesis using started cn by (simp add: start_generation_Inr(1) [OF started(6)])
next
  case (streamed g bb ids items l out plan)
  show ?thesis using streamed(1) P ag re by (simp add: end_generation_lane [OF streamed(3)])
next
  case (floor p bb l out said)
  show ?thesis using floor(1) P ag by (simp add: take_turn_lane(1) [OF floor(3)])
next
  case (spoken p) then show ?thesis using P af by simp
qed

lemma step_coalesced: "lane_step s t \<Longrightarrow> coalesced (ln_lane s) \<Longrightarrow> coalesced (ln_lane t)"
  by (rule step_keeps [where P = coalesced])
    (simp_all add: trigger_coalesced remove_coalesced ask_again_coalesced retrigger_coalesced)

lemma lane_reach_induct [consumes 1, case_names start step]:
  assumes "lane_reach ln s" "P (idle_lane ln)" "\<And>s t. lane_reach ln s \<Longrightarrow> lane_step s t \<Longrightarrow> P s \<Longrightarrow> P t"
  shows "P s"
proof -
  have "lane_step\<^sup>*\<^sup>* (idle_lane ln) s" using assms(1) by (simp add: lane_reach_def)
  then show ?thesis
    by (induction rule: rtranclp_induct) (auto intro: assms(2) assms(3) simp: lane_reach_def)
qed

lemma reach_coalesced: "lane_reach ln s \<Longrightarrow> coalesced (ln_lane s)"
proof (induction rule: lane_reach_induct)
  case start then show ?case by (simp add: coalesced_def idle_lane_def new_lane_def)
next
  case (step s t) then show ?case by (blast intro: step_coalesced)
qed

section \<open>What was heard before a turn was said\<close>

definition is_release :: "lane \<Rightarrow> event \<Rightarrow> bool" where
  "is_release ln e \<longleftrightarrow> ev_type e = ''speak.released'' \<and> (\<exists>c. ev_payload e = PReleased (lane_word ln) c)"

definition is_delivery :: "lane \<Rightarrow> string option \<Rightarrow> event \<Rightarrow> bool" where
  "is_delivery ln r e \<longleftrightarrow> ev_type e = ''utt.delivered'' \<and> r \<in> Some ` set (ev_cause_ids e) \<and>
     (\<exists>u a b c. ev_payload e = PUttDelivered (lane_word ln) u a b c)"

definition is_partner_line :: "lane \<Rightarrow> event \<Rightarrow> bool" where
  "is_partner_line ln e \<longleftrightarrow> ev_type e = ''utt.final'' \<and> (\<exists>u t. ev_payload e = PUttFinal (lane_word ln) ''partner'' u t)"

text \<open>The deliveries, in a history, of the line last released before them.\<close>

fun verbatim_heard :: "lane \<Rightarrow> string option \<Rightarrow> event list \<Rightarrow> event list" where
  "verbatim_heard ln r [] = []"
| "verbatim_heard ln r (e # es) =
     (if is_delivery ln r e then e # verbatim_heard ln r es
      else verbatim_heard ln (if is_release ln e then Some (ev_event_id e) else r) es)"

text \<open>The id of the last release of a history.\<close>

fun released_after :: "lane \<Rightarrow> string option \<Rightarrow> event list \<Rightarrow> string option" where
  "released_after ln r [] = r"
| "released_after ln r (e # es) = released_after ln (if is_release ln e then Some (ev_event_id e) else r) es"

lemma delivery_not_release: "is_delivery ln r e \<Longrightarrow> \<not> is_release ln e"
  by (simp add: is_delivery_def is_release_def)

lemma verbatim_heard_snoc:
  "verbatim_heard ln r (es @ [e]) = verbatim_heard ln r es @ (if is_delivery ln (released_after ln r es) e then [e] else [])"
  by (induction es arbitrary: r) (auto dest: delivery_not_release)

lemma released_after_snoc:
  "released_after ln r (es @ [e]) = (if is_release ln e then Some (ev_event_id e) else released_after ln r es)"
  by (induction es arbitrary: r) auto

lemma verbatim_heard_seen: "set (verbatim_heard ln r es) \<subseteq> set es"
  by (induction es arbitrary: r) auto

lemma on_event_released:
  "la_released (lane_on_event l e) = (if is_release (la_lane l) e then Some (ev_event_id e) else la_released l)"
  by (auto simp: lane_on_event_def is_release_def split: payload.splits)

lemma on_event_heard:
  "la_heard (lane_on_event l e) =
     (if is_delivery (la_lane l) (la_released l) e then Some (ev_event_id e, ev_seq e) else la_heard l)"
  by (auto simp: lane_on_event_def is_delivery_def split: payload.splits)

lemma on_event_partner:
  "la_partner (lane_on_event l e) = (if is_partner_line (la_lane l) e then Some (ev_event_id e, ev_seq e) else la_partner l)"
  by (auto simp: lane_on_event_def is_partner_line_def split: payload.splits)

definition covers :: "(string \<times> int) option \<Rightarrow> event list \<Rightarrow> bool" where
  "covers m es \<longleftrightarrow> (\<forall>e\<in>set es. \<exists>i q. m = Some (i, q) \<and> ev_seq e \<le> q)"

lemma covers_snoc: "covers m es \<Longrightarrow> \<forall>x\<in>set es. ev_seq x < ev_seq e \<Longrightarrow> covers (Some (ev_event_id e, ev_seq e)) (es @ [e])"
  by (auto simp: covers_def)

lemma covers_fresh: "covers m es \<Longrightarrow> \<not> since_basis n m \<Longrightarrow> e \<in> set es \<Longrightarrow> ev_seq e \<le> n"
  by (fastforce simp: covers_def since_basis_def)

definition answers_newest :: "lane \<Rightarrow> speech_plan \<times> event list \<Rightarrow> bool" where
  "answers_newest ln p \<longleftrightarrow>
     (\<forall>e\<in>set (verbatim_heard ln None (snd p)). ev_seq e \<le> ge_basis (sp_gen (fst p))) \<and>
     (is_reply (ge_ask (sp_gen (fst p))) \<longrightarrow>
        (\<forall>e\<in>set (filter (is_partner_line ln) (snd p)). ev_seq e \<le> ge_basis (sp_gen (fst p))))"

text \<open>The marks the lane keeps are the newest of their history.\<close>

definition marks :: "lane \<Rightarrow> event list \<Rightarrow> fast_lane \<Rightarrow> bool" where
  "marks ln h l \<longleftrightarrow> la_lane l = ln \<and> la_released l = released_after ln None h \<and>
     covers (la_heard l) (verbatim_heard ln None h) \<and> covers (la_partner l) (filter (is_partner_line ln) h)"

lemma marks_event:
  assumes "marks ln h l" "\<forall>x\<in>set h. ev_seq x < ev_seq e"
  shows "marks ln (h @ [e]) (lane_on_event l e)"
proof -
  have 1: "\<forall>x\<in>set (verbatim_heard ln None h). ev_seq x < ev_seq e" using assms(2) verbatim_heard_seen by fastforce
  have 2: "\<forall>x\<in>set (filter (is_partner_line ln) h). ev_seq x < ev_seq e" using assms(2) by simp
  show ?thesis using assms(1) covers_snoc [OF _ 1] covers_snoc [OF _ 2]
    by (auto simp: marks_def on_event_released on_event_heard on_event_partner released_after_snoc verbatim_heard_snoc)
qed

lemma marks_other:
  assumes "marks ln h l" "la_lane m = la_lane l" "la_released m = la_released l" "la_heard m = la_heard l" "la_partner m = la_partner l"
  shows "marks ln h m"
  using assms by (simp add: marks_def)

lemma marks_fresh:
  assumes "marks ln h l" "stale_for l (sp_gen p) = None"
  shows "answers_newest ln (p, h)"
proof -
  have 1: "\<not> since_basis (ge_basis (sp_gen p)) (la_heard l)"
    "is_reply (ge_ask (sp_gen p)) \<Longrightarrow> \<not> since_basis (ge_basis (sp_gen p)) (la_partner l)"
    using assms(2) by (auto simp: stale_for_def split: if_splits)
  have c: "covers (la_heard l) (verbatim_heard ln None h)" "covers (la_partner l) (filter (is_partner_line ln) h)"
    using assms(1) by (simp_all add: marks_def)
  show ?thesis unfolding answers_newest_def fst_conv snd_conv
    using covers_fresh [OF c(1) 1(1)] covers_fresh [OF c(2) 1(2)] by blast
qed

definition spoken_inv :: "lane \<Rightarrow> lane_run \<Rightarrow> bool" where
  "spoken_inv ln s \<longleftrightarrow> marks ln (ln_seen s) (ln_lane s) \<and> list_all (answers_newest ln) (ln_spoken s)"

lemma step_spoken:
  assumes st: "lane_step s t" and I: "spoken_inv ln s"
  shows "spoken_inv ln t"
  using st
proof cases
  case (event e) then show ?thesis using I by (simp add: spoken_inv_def marks_event)
next
  case (asked tg c k) then show ?thesis using I by (auto simp: spoken_inv_def intro: marks_other)
next
  case (moot a l closed bb)
  then show ?thesis using I by (auto simp: spoken_inv_def next_ask_keeps(1) [OF moot(4)] intro: marks_other)
next
  case (started a l closed bb brief m g)
  then show ?thesis using I
    by (auto simp: spoken_inv_def start_generation_Inr(1) [OF started(6)] next_ask_keeps(1) [OF started(4)] intro: marks_other)
next
  case (streamed g bb ids items l out plan)
  then show ?thesis using I by (auto simp: spoken_inv_def end_generation_lane [OF streamed(3)] intro: marks_other)
next
  case (floor p bb l out said)
  then show ?thesis using I by (auto simp: spoken_inv_def take_turn_lane [OF floor(3)] intro: marks_other marks_fresh)
next
  case (spoken p) then show ?thesis using I by (auto simp: spoken_inv_def intro: marks_other)
qed

lemma reach_spoken: "lane_reach ln s \<Longrightarrow> spoken_inv ln s"
proof (induction rule: lane_reach_induct)
  case start
  show ?case by (simp add: spoken_inv_def marks_def idle_lane_def new_lane_def covers_def)
next
  case (step s t) then show ?case by (blast intro: step_spoken)
qed

section \<open>No approval notice is lost silently\<close>

abbreviation acks_in :: "lane_ask list \<Rightarrow> string set" where
  "acks_in as \<equiv> \<Union>a\<in>set as. set (as_acks a)"

fun stage_acks :: "lane_stage \<Rightarrow> string set" where
  "stage_acks (Streaming g) = set (as_acks (ge_ask g))"
| "stage_acks _ = {}"

definition voiced_in :: "emission list \<Rightarrow> string set" where
  "voiced_in log = {m. \<exists>g. (''s2f.voiced'', PS2FVoiced m g) \<in> set log}"

definition accounted :: "lane_run \<Rightarrow> string set" where
  "accounted s = acks_in (la_pending (ln_lane s)) \<union> stage_acks (ln_stage s) \<union> voiced_in (ln_log s) \<union> set (ln_dropped s)"

lemma voiced_in_append [simp]: "voiced_in (a @ b) = voiced_in a \<union> voiced_in b"
  by (auto simp: voiced_in_def)

lemma add_ask_acks: "acks_in (la_pending (add_ask f a l)) = acks_in (la_pending l) \<union> set (as_acks a)"
  by (auto simp: add_ask_def Let_def)

lemma trigger_acks: "acks_in (la_pending (lane_trigger t c k l)) = acks_in (la_pending l) \<union> set k"
  by (simp add: lane_trigger_def add_ask_acks)

lemma ask_again_acks:
  "acks_in (la_pending (ask_again a l)) \<union> set (acks_lost a) = acks_in (la_pending l) \<union> set (as_acks a)"
  by (auto simp: ask_again_def acks_lost_def add_ask_acks)

lemma ask_again_grows: "acks_in (la_pending l) \<subseteq> acks_in (la_pending (ask_again a l))"
  by (auto simp: ask_again_def add_ask_acks)

lemma retrigger_acks: "acks_in (la_pending (retrigger u g i l)) = acks_in (la_pending l)"
  by (simp add: retrigger_def Let_def trigger_acks)

lemma next_ask_acks:
  assumes "next_ask l = (a, m)" "la_pending l \<noteq> []"
  shows "acks_in (la_pending l) \<subseteq> set (as_acks a) \<union> acks_in (la_pending m)"
proof
  fix x assume "x \<in> acks_in (la_pending l)"
  then obtain b where b: "b \<in> set (la_pending l)" "x \<in> set (as_acks b)" by blast
  then show "x \<in> set (as_acks a) \<union> acks_in (la_pending m)"
    using next_ask_keeps(1) [OF assms] by (cases "b = a") (auto simp: in_set_remove1)
qed

lemma end_generation_voices:
  assumes "end_generation bb ids l g items = (m, out, plan)" "bb_epoch bb = ge_epoch g"
  shows "set (as_acks (ge_ask g)) \<subseteq> voiced_in out"
  using assms by (auto simp: end_generation_def Let_def voiced_in_def voiced_by_def image_iff split: if_splits)

lemma step_accounted:
  assumes st: "lane_step s t" and I: "set (ln_asked s) \<subseteq> accounted s"
  shows "set (ln_asked t) \<subseteq> accounted t"
  using st
proof cases
  case (event e) then show ?thesis using I by (simp add: accounted_def)
next
  case (asked tg c k) then show ?thesis using I by (auto simp: accounted_def trigger_acks)
next
  case (moot a l closed bb)
  then show ?thesis using I next_ask_acks [OF moot(4,3)] by (auto simp: accounted_def)
next
  case (started a l closed bb brief m g)
  then show ?thesis using I next_ask_acks [OF started(4,3)] by (auto simp: accounted_def start_generation_Inr [OF started(6)])
next
  case (streamed g bb ids items l out plan)
  have st: "stage_acks (case plan of None \<Rightarrow> LaneIdle | Some p \<Rightarrow> Planned p) = {}" by (cases plan) auto
  show ?thesis
  proof (cases "bb_epoch bb = ge_epoch g")
    case True
    then show ?thesis using streamed I end_generation_voices [OF streamed(3) True]
      by (auto simp: accounted_def st end_generation_lane [OF streamed(3)] retrigger_acks)
  next
    case False
    then show ?thesis using streamed I ask_again_acks [of "ge_ask g" "ln_lane s"]
      by (auto simp: accounted_def st end_generation_lane [OF streamed(3)])
  qed
next
  case (floor p bb l out said)
  then show ?thesis using I ask_again_grows [of "ln_lane s" "(ge_ask (sp_gen p))\<lparr>as_guides := sp_guides p\<rparr>"]
    by (cases said) (auto simp: accounted_def take_turn_lane(1) [OF floor(3)])
next
  case (spoken p) then show ?thesis using I by (auto simp: accounted_def)
qed

lemma reach_accounted: "lane_reach ln s \<Longrightarrow> set (ln_asked s) \<subseteq> accounted s"
proof (induction rule: lane_reach_induct)
  case start
  show ?case by (simp add: idle_lane_def)
next
  case (step s t)
  show ?case by (rule step_accounted [OF step(2,3)])
qed

section \<open>A run\<close>

definition demo_board :: blackboard where
  "demo_board = initial_blackboard\<lparr>bb_seq := 5\<rparr>"

definition demo_line :: event where
  "demo_line = \<lparr>ev_run_id = ''r'', ev_seq = 3, ev_event_id = ''r:3'', ev_t_ms = 0, ev_wall = 0, ev_wall_offset = None,
     ev_type = ''utt.final'', ev_actor = ''cp'', ev_stream = AgentStream, ev_cause_ids = [], ev_epoch = 0,
     ev_payload = PUttFinal ''cp'' ''partner'' ''p1'' ''Hello.''\<rparr>"

definition demo_ask :: lane_ask where
  "demo_ask = \<lparr>as_trigger = \<lparr>tg_kind = TrigRepSpoke, tg_msg_id = None, tg_wait_s = None\<rparr>, as_cause = ''r:3'', as_acks = [],
     as_guides = [], as_again = False\<rparr>"

definition demo_gen :: generation where
  "demo_gen = \<lparr>ge_ask = demo_ask, ge_id = ''cp-g1'', ge_epoch = 0, ge_basis = 5, ge_guides = [], ge_utt_ref = None\<rparr>"

definition demo_plan :: speech_plan where
  "demo_plan = \<lparr>sp_gen = demo_gen, sp_lines = [(''cp-g1-u0'', ''Hi.'')], sp_held = None, sp_guides = []\<rparr>"

definition demo_lane :: fast_lane where
  "demo_lane = (new_lane CpLane)\<lparr>la_partner := Some (''r:3'', 3)\<rparr>"

lemma demo_started:
  "start_generation demo_board demo_lane demo_ask ''brief'' = Inr (demo_lane\<lparr>la_n := 1\<rparr>, demo_gen)"
  by code_simp

definition demo_run :: "fast_lane \<Rightarrow> lane_stage \<Rightarrow> emission list \<Rightarrow> event list \<Rightarrow> (speech_plan \<times> event list) list \<Rightarrow> lane_run" where
  "demo_run l g out seen sp = \<lparr>ln_lane = l, ln_stage = g, ln_log = out, ln_seen = seen, ln_asked = [], ln_spoken = sp, ln_dropped = []\<rparr>"

definition demo_log :: "emission list" where
  "demo_log = [(''fast.request'', PFastRequest ''cp'' ''cp-g1'' 5)]"

definition demo_turn :: "emission list" where
  "demo_turn = [(''fast.turn'', PFastTurn ''cp'' ''cp-g1'' True), (''fast.sentence'', PSentence ''cp'' ''cp-g1'' ''cp-g1-u0'' ''Hi.'')]"

lemma demo_reach:
  "lane_reach CpLane (demo_run (demo_lane\<lparr>la_n := 1\<rparr>) (Talking demo_plan) (demo_log @ demo_turn) [demo_line] [(demo_plan, [demo_line])])"
proof -
  have 1: "lane_step (idle_lane CpLane) (demo_run demo_lane LaneIdle [] [demo_line] [])"
    using lane_step.event [where s = "idle_lane CpLane" and e = demo_line]
    by (simp add: idle_lane_def demo_run_def demo_lane_def demo_line_def new_lane_def lane_on_event_def lane_word_def)
  have 2: "lane_step (demo_run demo_lane LaneIdle [] [demo_line] []) (demo_run (demo_lane\<lparr>la_pending := [demo_ask]\<rparr>) LaneIdle [] [demo_line] [])"
    using lane_step.asked [where s = "demo_run demo_lane LaneIdle [] [demo_line] []" and t = "as_trigger demo_ask" and
      cause = "as_cause demo_ask" and acks = "[]"]
    by (simp add: demo_run_def demo_lane_def new_lane_def lane_trigger_def add_ask_def demo_ask_def)
  have n: "next_ask (demo_lane\<lparr>la_pending := [demo_ask]\<rparr>) = (demo_ask, demo_lane)"
    by (simp add: next_ask_def demo_ask_def URGENT_def demo_lane_def new_lane_def)
  have 3: "lane_step (demo_run (demo_lane\<lparr>la_pending := [demo_ask]\<rparr>) LaneIdle [] [demo_line] [])
      (demo_run (demo_lane\<lparr>la_n := 1\<rparr>) (Streaming demo_gen) demo_log [demo_line] [])"
    using lane_step.started [where s = "demo_run (demo_lane\<lparr>la_pending := [demo_ask]\<rparr>) LaneIdle [] [demo_line] []" and
        a = demo_ask and l = demo_lane and closed = False and bb = demo_board and brief = "''brief''"] n demo_started
    by (simp add: demo_run_def demo_log_def demo_gen_def demo_ask_def not_run_def demo_lane_def new_lane_def lane_word_def)
  have e: "end_generation demo_board (\<lambda>n. []) (demo_lane\<lparr>la_n := 1\<rparr>) demo_gen [Speech ''Hi.''] =
      (demo_lane\<lparr>la_n := 1\<rparr>, demo_turn, Some demo_plan)"
    by code_simp
  have 4: "lane_step (demo_run (demo_lane\<lparr>la_n := 1\<rparr>) (Streaming demo_gen) demo_log [demo_line] [])
      (demo_run (demo_lane\<lparr>la_n := 1\<rparr>) (Planned demo_plan) (demo_log @ demo_turn) [demo_line] [])"
    using lane_step.streamed [where s = "demo_run (demo_lane\<lparr>la_n := 1\<rparr>) (Streaming demo_gen) demo_log [demo_line] []" and
        g = demo_gen and bb = demo_board and ids = "\<lambda>n. []" and items = "[Speech ''Hi.'']"] e
    by (simp add: demo_run_def demo_board_def demo_gen_def initial_blackboard_def)
  have f: "take_turn demo_board (demo_lane\<lparr>la_n := 1\<rparr>) demo_plan = (demo_lane\<lparr>la_n := 1\<rparr>, [], True)"
    by code_simp
  have 5: "lane_step (demo_run (demo_lane\<lparr>la_n := 1\<rparr>) (Planned demo_plan) (demo_log @ demo_turn) [demo_line] [])
      (demo_run (demo_lane\<lparr>la_n := 1\<rparr>) (Talking demo_plan) (demo_log @ demo_turn) [demo_line] [(demo_plan, [demo_line])])"
    using lane_step.floor [where s = "demo_run (demo_lane\<lparr>la_n := 1\<rparr>) (Planned demo_plan) (demo_log @ demo_turn) [demo_line] []" and
        p = demo_plan and bb = demo_board] f
    by (simp add: demo_run_def)
  show ?thesis unfolding lane_reach_def
    by (rule converse_rtranclp_into_rtranclp [OF 1 converse_rtranclp_into_rtranclp [OF 2 converse_rtranclp_into_rtranclp [OF 3
          converse_rtranclp_into_rtranclp [OF 4 r_into_rtranclp [of lane_step, OF 5]]]]])
qed

section \<open>Properties\<close>

text \<open>
  C31. A turn that is said answers what was heard: when it took the floor, every verbatim line of the lane delivered so
  far was in the basis of its request, and, for a first reply to the rep, every line of the rep was.
\<close>

theorem said_turn_answers_newest:
  assumes "lane_reach ln s" "(p, h) \<in> set (ln_spoken s)"
  shows "(\<forall>e\<in>set (verbatim_heard ln None h). ev_seq e \<le> ge_basis (sp_gen p)) \<and>
    (is_reply (ge_ask (sp_gen p)) \<longrightarrow> (\<forall>e\<in>set (filter (is_partner_line ln) h). ev_seq e \<le> ge_basis (sp_gen p)))"
proof -
  have "answers_newest ln (p, h)" using reach_spoken [OF assms(1)] assms(2) by (auto simp: spoken_inv_def list_all_iff)
  then show ?thesis by (simp add: answers_newest_def)
qed

theorem said_turn_answers_newest_witness: "ev_seq demo_line \<le> ge_basis (sp_gen demo_plan)"
proof -
  have "\<forall>e\<in>set (filter (is_partner_line CpLane) [demo_line]). ev_seq e \<le> ge_basis (sp_gen demo_plan)"
    using said_turn_answers_newest [OF demo_reach, of demo_plan "[demo_line]"]
    by (simp add: demo_run_def is_reply_def demo_plan_def demo_gen_def demo_ask_def)
  then show ?thesis by (simp add: is_partner_line_def demo_line_def lane_word_def)
qed

text \<open>
  C32. An approval notice handed to a lane is never lost silently: it waits in the queue or in the generation that runs, a turn
  voiced it, or its ask was dropped as moot or after the second stale run of a card. And however triggers arrive, at
  most one ask of each kind but Slow's messages is pending.
\<close>

theorem approval_notice_accounted:
  assumes "lane_reach ln s"
  shows "set (ln_asked s) \<subseteq> acks_in (la_pending (ln_lane s)) \<union> stage_acks (ln_stage s) \<union> voiced_in (ln_log s) \<union> set (ln_dropped s)
    \<and> (k = TrigSlowMsg \<or> length (pending_of k (ln_lane s)) \<le> 1)"
  using reach_accounted [OF assms] reach_coalesced [OF assms] by (auto simp: accounted_def coalesced_def)

text \<open>Two notices handed to the user's lane, the second with a trigger of the same kind: one ask is pending, with both.\<close>

definition notice_trigger :: trigger where
  "notice_trigger = \<lparr>tg_kind = TrigApprovalCard, tg_msg_id = None, tg_wait_s = None\<rparr>"

definition noticed_lane :: lane_run where
  "noticed_lane = (idle_lane UserLane)
     \<lparr>ln_lane := lane_trigger notice_trigger ''r:2'' [''m2''] (lane_trigger notice_trigger ''r:1'' [''m1''] (new_lane UserLane)),
      ln_asked := [''m1'', ''m2'']\<rparr>"

lemma noticed_reach: "lane_reach UserLane noticed_lane"
proof -
  let ?s = "(idle_lane UserLane)\<lparr>ln_lane := lane_trigger notice_trigger ''r:1'' [''m1''] (new_lane UserLane), ln_asked := [''m1'']\<rparr>"
  have "lane_step (idle_lane UserLane) ?s"
    using lane_step.asked [where s = "idle_lane UserLane" and t = notice_trigger and cause = "''r:1''" and acks = "[''m1'']"]
    by (simp add: idle_lane_def)
  moreover have "lane_step ?s noticed_lane"
    using lane_step.asked [where s = ?s and t = notice_trigger and cause = "''r:2''" and acks = "[''m2'']"]
    by (simp add: idle_lane_def noticed_lane_def)
  ultimately show ?thesis unfolding lane_reach_def by (rule converse_rtranclp_into_rtranclp [OF _ r_into_rtranclp [of lane_step]])
qed

theorem approval_notice_accounted_witness:
  "{''m1'', ''m2''} \<subseteq> acks_in (la_pending (ln_lane noticed_lane)) \<and>
   length (pending_of TrigApprovalCard (ln_lane noticed_lane)) = 1"
proof -
  have n: "ln_asked noticed_lane = [''m1'', ''m2'']" "ln_stage noticed_lane = LaneIdle" "ln_log noticed_lane = []" "ln_dropped noticed_lane = []"
    by (simp_all add: noticed_lane_def idle_lane_def)
  have "pending_of TrigApprovalCard (ln_lane noticed_lane) \<noteq> []" by code_simp
  then have "length (pending_of TrigApprovalCard (ln_lane noticed_lane)) \<noteq> 0" by simp
  then show ?thesis using approval_notice_accounted [OF noticed_reach, of TrigApprovalCard] by (simp add: n voiced_in_def le_Suc_eq)
qed

text \<open>
  A turn that is not said runs again first: its ask is at the head of the queue with its trigger, cause and notices and the
  GUIDEs it voiced, marked as a re-run, and as a re-run a line of the rep no longer drops it. Only a card that was
  already run twice is let go.
\<close>

theorem unsaid_turn_runs_again:
  assumes "take_turn bb l p = (m, out, False)" "\<not> (as_again (ge_ask (sp_gen p)) \<and> ask_kind (ge_ask (sp_gen p)) = TrigApprovalCard)"
  shows "\<exists>a rest. la_pending m = a # rest \<and> as_trigger a = as_trigger (ge_ask (sp_gen p)) \<and> as_again a \<and>
    set (as_acks (ge_ask (sp_gen p))) \<subseteq> set (as_acks a) \<and> set (sp_guides p) \<subseteq> set (as_guides a) \<and>
    stale_for n (g\<lparr>ge_ask := a\<rparr>) \<noteq> Some ''partner''"
proof -
  let ?b = "(ge_ask (sp_gen p))\<lparr>as_guides := sp_guides p, as_again := True\<rparr>"
  have m: "m = add_ask True ?b l" using assms(2) by (auto simp: take_turn_lane(1) [OF assms(1)] ask_again_def)
  then show ?thesis by (auto simp: add_ask_def Let_def stale_for_def is_reply_def)
qed

definition demo_late :: fast_lane where
  "demo_late = (new_lane CpLane)\<lparr>la_partner := Some (''r:9'', 9)\<rparr>"

theorem unsaid_turn_runs_again_witness:
  "\<exists>m out a rest. take_turn demo_board demo_late demo_plan = (m, out, False) \<and> la_pending m = a # rest \<and> as_again a \<and>
    stale_for demo_late (demo_gen\<lparr>ge_ask := a\<rparr>) \<noteq> Some ''partner''"
proof -
  obtain m out where t: "take_turn demo_board demo_late demo_plan = (m, out, False)"
    by (simp add: take_turn_def stale_for_def since_basis_def demo_late_def new_lane_def demo_plan_def demo_gen_def demo_ask_def is_reply_def)
  have "\<not> (as_again (ge_ask (sp_gen demo_plan)) \<and> ask_kind (ge_ask (sp_gen demo_plan)) = TrigApprovalCard)"
    by (simp add: demo_plan_def demo_gen_def demo_ask_def)
  from unsaid_turn_runs_again [OF t this, of demo_late demo_gen] t show ?thesis by blast
qed

end
