(* ===== verification/Spec2Isabelle.thy ===== *)
theory Spec2Isabelle
  imports Case_Claims Readback_Facts Rep_Calls Needs_Facts Spend_Facts Kernel_Guarantee Wake
    Grammar_Roundtrip View_Facts Render_Facts Fingerprint Slow_Evidence Reader_Facts
    Sim_User_Facts Speaker_Facts Calls_Facts Offer_Slots_Facts Slow_Publish
    Slow_Tools_Facts Slow_Transcript_Facts Lanes_Facts
begin

text \<open>
  ProxyLoop is an agent that negotiates by voice for a customer. A fast model speaks, a slow model plans, and the
  program between them decides what may be said and accepted. This development models that program, the Python
  package \<open>src/src/proxyloop\<close>; a comment \<open>(* path first-last symbol *)\<close> above a definition names the lines it
  translates, relative to the package.

  The parts and how they meet. Everything that happens is a line of one append-only log. \<open>Bus.emit\<close> stamps and
  validates an event, folds it into the blackboard and appends it, or raises and changes nothing. The guard's rules
  are pure functions of the blackboard that allow or deny; the fold repeats their checks, so no caller can go round
  them. The kernel subscribes to the log: it raises fences when the rep or the user speaks, wakes Slow, opens the call
  and gives the floor. Slow acts by tools, whose effects are emitted. Fast speaks from a view of the blackboard and
  writes a small line grammar. A simulated rep and a simulated user stand at the other ends, with a ledger.

  Foundations.
    \<open>Prelude\<close>: \<open>py_error + 'a\<close> for what may raise, insertion-ordered dictionaries, strings.
    \<open>Canonical\<close>, \<open>Canonical_Inj\<close>: JSON, its canonical text and that the text is unambiguous (\<open>contract/base.py\<close>).
    \<open>Datetime\<close>: the calendar and UTC conversion of the standard library.
    \<open>Regex\<close>: Python's \<open>re\<close> on ASCII as a backtracking matcher. \<open>ends_of_iff\<close> shows that the matcher finds exactly
      the ends of the declarative matching relation; look-arounds are those the sources write.
    \<open>Machines\<close>: the locales of a component that may reject an input (\<open>machine\<close>, and the monotone and absorbing
      ones), interpreted on the bus, the wakes, the spend ledger and the rep.

  The contract (\<open>contract/\<close>).
    \<open>Contract\<close>, \<open>Llm_Contract\<close>, \<open>Events\<close>: records, validators, the event registry, the envelope and \<open>check_causes\<close>.
    \<open>Grammar\<close>, \<open>Grammar_Stream\<close>, \<open>Grammar_Roundtrip\<close>: Fast's line grammar; streaming equals batch parsing, and the
      canonical text parses back.
    \<open>Views\<close>, \<open>View_Facts\<close>, \<open>Render\<close>, \<open>Render_Facts\<close>, \<open>Fingerprint\<close>: what Fast sees and how it is printed: privacy of
      the cp lane, the budget of a prompt, and fingerprints that determine every rendering.

  Guard (\<open>guard/\<close>), fold and log (\<open>core/\<close>).
    \<open>Status\<close>, \<open>Capability\<close>, \<open>Terms\<close>, \<open>Terms_Facts\<close>, \<open>Mandate\<close>, \<open>Offer_Policy\<close>, \<open>Authorize\<close>, \<open>Authorize_Facts\<close>,
      \<open>Declass\<close>, \<open>Needs\<close>, \<open>Needs_Facts\<close>, \<open>Verify\<close>, \<open>Verify_Facts\<close>: the rules, on every branch.
    \<open>Negation\<close>, \<open>Negation_Facts\<close>, \<open>Reader\<close>, \<open>Reader_Facts\<close>, \<open>Readback\<close>, \<open>Readback_Facts\<close>: what a line of the rep
      states, and what follows for the slots of an offer that \<open>slot_statuses\<close> confirms. The readback rules take the reader as the record
      \<open>lexical\<close>; \<open>rep_lexical\<close> is the one of the code.
    \<open>Fold\<close>, \<open>Fold_Facts\<close>, \<open>Log_Bus\<close>, \<open>Decisions\<close>, \<open>Session_Facts\<close>: every reducer, the log and what holds after any
      sequence of emit calls, rejected ones included.
    \<open>Authority_Spec\<close>, \<open>Fold_Refine\<close>, \<open>Provenance\<close>, \<open>Case_Claims\<close>, \<open>Guard_Fold\<close>: an abstract authority as an
      inductive step relation, the refinement of it by the fold, and the properties of sessions that follow, read off
      the lines of the log: what minted a released token, which post a decision cites.

  Kernel (\<open>kernel/\<close>).
    \<open>Kernel_Fence\<close>, \<open>Kernel_Board\<close>, \<open>Kernel_Cover\<close>, \<open>Kernel_Guarantee\<close>: the fences, as handlers with their effects, run
      by a delivery loop that interleaves them with emissions; no accept is released over an unread rep line.
    \<open>Wake\<close>: the wakes of Slow with its one timer. A line of the rep that waits is backed up by that timer, but for
      one that already waited when a step that finished the case ended: there the code sets none.
    \<open>Speaker\<close>, \<open>Speaker_Facts\<close>: the floor of a lane as a step relation. The code between two suspensions of a
      coroutine is one step, which is what asyncio promises; the board, clock and partner may change between steps.
    \<open>Lanes\<close>, \<open>Lanes_Facts\<close>: one lane of Fast: its queue of triggers, what follows from a turn, and the check on the
      floor, as steps between which the board, the events and the model's answer are free. What is said answers what
      was heard, what is not said runs again, and no notice is lost. Building the request is left out.
    \<open>Calls\<close>, \<open>Calls_Facts\<close>: the gate of the counterparty's call and the watchdog.
    \<open>Spend\<close>, \<open>Spend_Facts\<close>: the runaway guards of \<open>llm/spend.py\<close>.

  Slow (\<open>slow/\<close>).
    \<open>Slow_Authority\<close>, \<open>Slow_Facts\<close>, \<open>Slow_Evidence\<close>: the tools that touch authority.
    \<open>Offer_Slots\<close>, \<open>Offer_Slots_Facts\<close>: recording an offer. \<open>Slow_Publish\<close>: recording and sharing a fact, summaries.
    \<open>Slow_Heard\<close>: which messages of Slow were heard, read off the log (\<open>heard.py\<close>).
    \<open>Slow_Guide\<close>, \<open>Slow_Tools\<close>, \<open>Slow_Tools_Facts\<close>: asks, guides, every tool and the act that runs a list of them
      (\<open>asks.py\<close>, \<open>shape.py\<close>, \<open>tools.py\<close>). The record \<open>tool_env\<close> holds what the kernel gives the tools: the settling
      of the bus, the clock, the state of the call and the texts of errors and refusals. Arguments are JSON values
      without floats, as the standard library parses them. Counters of the session are left out.
    \<open>Slow_Transcript\<close>, \<open>Slow_Transcript_Facts\<close>: the block of lines Slow reads; its marks, which are not ASCII, are
      characters above 127.

  The other side (\<open>env/\<close>).
    \<open>Rep_Policy\<close>, \<open>Rep_Facts\<close>, \<open>Rep_Calls\<close>, \<open>Env_Ledger\<close>: the rep's state machine and ledger.
    \<open>Sim_User\<close>, \<open>Sim_User_Facts\<close>: the simulated user and the button that approves for it.
  \<open>Samples\<close> holds the concrete sessions of the witnesses.

  Parameters, and what is assumed of them. SHA-256 is a function \<open>or_sha\<close>; theorems on hashes assume no collisions,
  nothing else. The reader of ISO 8601 times is \<open>or_iso\<close>. Replies of models, readings of clocks and the moments at
  which a task runs are arguments or free choices of a step. Python's \<open>int\<close> on texts the code does not restrict is
  \<open>read_int\<close> where its full syntax matters.

  Bounds. Texts are ASCII, so case folding and NFKC are those of ASCII. A \<open>Decimal\<close> is an integer and a power of ten,
  exact below the 28 digits of the default context. Milliseconds and amounts are unbounded integers, as Python's are;
  monotone clocks and rates are rounded as written where a definition says so. Loops are structural or have a
  measure. The matcher's star takes as many turns as characters are left, each turn being longer than
  none, so its bound never binds. The delivery loop ends by \<open>deliveries_end\<close>.

  Not modelled: prompts and templates (data); HTTP, WebSocket, file and process code; asyncio itself; the offline
  parts that only read finished runs (evaluation, evidence audits, observability, training data, scripts).
\<close>

end
